(* ===== verification/Inet_Prelude.thy ===== *)
theory Inet_Prelude imports Complex_Main "HOL-Library.Word"
begin

text \<open>
  Shared vocabulary of the development: the outcome of a C++ call that may abort the
  simulation, sequencing of such calls, checked assertions, the integer conversions of the
  C++ types the modules use, and lemmas on 32 bit words seen from a moving base.
\<close>

section \<open>Outcomes\<close>

text \<open>
  Every way in which the code ends the simulation: \<^verbatim>\<open>opp_error\<close> and
  \<^verbatim>\<open>cRuntimeError\<close>, a failed \<^verbatim>\<open>ASSERT\<close>, the use of a
  null pointer, a division by zero, a kernel call that the simulation kernel rejects, a
  loop that never ends, and an operation whose effect C++ leaves undefined.
\<close>

datatype sim_error =
    OppError string
  | AssertFailed string
  | NullPointer string
  | DivisionByZero string
  | KernelError string
  | Diverges string
  | UndefinedBehaviour string

type_synonym 'a res = "sim_error + 'a"

primrec andThen :: "'a res \<Rightarrow> ('a \<Rightarrow> 'b res) \<Rightarrow> 'b res" where
  "andThen (Inl e) f = Inl e"
| "andThen (Inr x) f = f x"

definition checked :: "bool \<Rightarrow> sim_error \<Rightarrow> 'a res \<Rightarrow> 'a res" where
  "checked b e r = (if b then r else Inl e)"

named_theorems res_simps \<open>rewriting of outcomes\<close>

lemma andThen_Inr_iff [res_simps]:
  "andThen r f = Inr y \<longleftrightarrow> (\<exists>x. r = Inr x \<and> f x = Inr y)"
  by (cases r) auto

lemma andThen_Inl_iff [res_simps]:
  "andThen r f = Inl e \<longleftrightarrow> r = Inl e \<or> (\<exists>x. r = Inr x \<and> f x = Inl e)"
  by (cases r) auto

lemma andThen_assoc: "andThen (andThen r f) g = andThen r (\<lambda>x. andThen (f x) g)"
  by (cases r) auto

lemma andThen_cong [fundef_cong]:
  "r = r' \<Longrightarrow> (\<And>x. r' = Inr x \<Longrightarrow> f x = g x) \<Longrightarrow> andThen r f = andThen r' g"
  by (cases r') auto

lemma checked_True [simp]: "checked True e r = r"
  by (simp add: checked_def)

lemma checked_False [simp]: "checked False e r = Inl e"
  by (simp add: checked_def)

lemma checked_Inr_iff [res_simps]: "checked b e r = Inr y \<longleftrightarrow> b \<and> r = Inr y"
  by (simp add: checked_def)

lemma checked_Inl_iff [res_simps]:
  "checked b e r = Inl e' \<longleftrightarrow> (\<not> b \<and> e = e') \<or> (b \<and> r = Inl e')"
  by (auto simp: checked_def)

text \<open>
  A predicate that holds of the value of a call, if it returns one. Invariants of handlers
  are stated with it, and it goes through \<^const>\<open>andThen\<close> step by step.
\<close>

definition ensures :: "'a res \<Rightarrow> ('a \<Rightarrow> bool) \<Rightarrow> bool" where
  "ensures r P = (case r of Inl _ \<Rightarrow> True | Inr x \<Rightarrow> P x)"

named_theorems ensures_intros \<open>introduction rules for invariants of handlers\<close>

lemma ensures_Inl [simp]: "ensures (Inl e) P"
  by (simp add: ensures_def)

lemma ensures_Inr [simp]: "ensures (Inr x) P = P x"
  by (simp add: ensures_def)

lemma ensuresD: "ensures r P \<Longrightarrow> r = Inr x \<Longrightarrow> P x"
  by (simp add: ensures_def)

lemma ensuresI: "(\<And>x. r = Inr x \<Longrightarrow> P x) \<Longrightarrow> ensures r P"
  by (cases r) auto

lemma ensures_mono: "ensures r P \<Longrightarrow> (\<And>x. P x \<Longrightarrow> Q x) \<Longrightarrow> ensures r Q"
  by (cases r) auto

lemma ensures_andThen [ensures_intros]:
  "ensures r P \<Longrightarrow> (\<And>x. P x \<Longrightarrow> ensures (f x) Q) \<Longrightarrow> ensures (andThen r f) Q"
  by (cases r) auto

lemma ensures_checked [ensures_intros]:
  "(b \<Longrightarrow> ensures r P) \<Longrightarrow> ensures (checked b e r) P"
  by (simp add: checked_def)

lemma ensures_if [ensures_intros]:
  "(b \<Longrightarrow> ensures r P) \<Longrightarrow> (\<not> b \<Longrightarrow> ensures s P) \<Longrightarrow> ensures (if b then r else s) P"
  by simp

section \<open>Time and integer conversions\<close>

text \<open>Simulation time, in seconds.\<close>

type_synonym simtime = rat

type_synonym uint16 = "16 word"
type_synonym uint32 = "32 word"
type_synonym ulong = "64 word"

text \<open>Conversion of an \<^verbatim>\<open>int\<close> to a \<^verbatim>\<open>short\<close> (16 bits, two's complement).\<close>

definition toShort :: "int \<Rightarrow> int" where
  "toShort x = (x + 32768) mod 65536 - 32768"

lemma toShort_id: "-32768 \<le> x \<Longrightarrow> x < 32768 \<Longrightarrow> toShort x = x"
  by (simp add: toShort_def)

lemma toShort_range: "-32768 \<le> toShort x \<and> toShort x < 32768"
  by (simp add: toShort_def)

lemma toShort_idem [simp]: "toShort (toShort x) = toShort x"
  using toShort_range [of x] by (simp add: toShort_id)

lemma toShort_minus_one [simp]: "toShort (- 1) = - 1"
  by (simp add: toShort_def)

section \<open>Words seen from a base\<close>

text \<open>
  The distance of a 32 bit number from a base, going upwards modulo \<open>2 ^ 32\<close>.
\<close>

definition off :: "uint32 \<Rightarrow> uint32 \<Rightarrow> nat" where
  "off base x = unat (x - base)"

lemma off_alt:
  "off b x = (if unat b \<le> unat x then unat x - unat b else unat x + 4294967296 - unat b)"
  by (simp add: off_def unat_sub_if_size word_size)

lemma unat32_lt: "unat (x :: uint32) < 4294967296"
  using unsigned_less [of x] by simp

lemma unat32_inj: "unat (x :: uint32) = unat y \<longleftrightarrow> x = y"
  by (simp add: word_unat_eq_iff)

lemma off_self [simp]: "off b b = 0"
  by (simp add: off_def)

lemma off_lt [simp]: "off b x < 4294967296"
  using unat32_lt by (simp add: off_def)

lemma off_inj [simp]: "off b x = off b y \<longleftrightarrow> x = y"
  using unat32_lt [of x] unat32_lt [of y] unat32_lt [of b] unat32_inj [of x y]
  by (auto simp: off_alt split: if_splits)

lemma off_eq_0_iff [simp]: "off b x = 0 \<longleftrightarrow> x = b"
  using off_inj [of b x b] by simp

lemma off_add:
  assumes "off b x + unat n < 4294967296"
  shows "off b (x + n) = off b x + unat n"
  using assms unat32_lt [of x] unat32_lt [of n] unat32_lt [of b]
  by (auto simp: off_alt unat_plus_if_size word_size split: if_splits)

lemma off_base_plus [simp]: "off b (b + n) = unat n"
  using off_add [of b b n] unat32_lt [of n] by simp

lemma off_rebase:
  assumes "off b c \<le> off b x"
  shows "off c x = off b x - off b c"
  using assms unat32_lt [of x] unat32_lt [of c] unat32_lt [of b]
  by (auto simp: off_alt split: if_splits)

lemma off_swap: "a \<noteq> b \<Longrightarrow> off b a = 4294967296 - off a b"
  using unat32_lt [of a] unat32_lt [of b] unat32_inj [of a b]
  by (auto simp: off_alt split: if_splits)

end
