(* ===== verification/TCP_Seq.thy ===== *)
theory TCP_Seq imports Inet_Prelude
begin

text \<open>
  Sequence number comparison (\<^verbatim>\<open>src/src/transport/tcp/TCPConnection.h\<close>): the four
  inline functions that compare 32 bit sequence numbers modulo \<open>2 ^ 32\<close>, the lemmas that
  turn them into comparisons of distances from a base, and the gap the comparison has at
  distance exactly \<open>2 ^ 31\<close>.
\<close>

definition seqLess :: "uint32 \<Rightarrow> uint32 \<Rightarrow> bool" where
  "seqLess a b \<longleftrightarrow> a \<noteq> b \<and> b - a < 0x80000000"

definition seqLE :: "uint32 \<Rightarrow> uint32 \<Rightarrow> bool" where
  "seqLE a b \<longleftrightarrow> b - a < 0x80000000"

definition seqGreater :: "uint32 \<Rightarrow> uint32 \<Rightarrow> bool" where
  "seqGreater a b \<longleftrightarrow> a \<noteq> b \<and> a - b < 0x80000000"

definition seqGE :: "uint32 \<Rightarrow> uint32 \<Rightarrow> bool" where
  "seqGE a b \<longleftrightarrow> a - b < 0x80000000"

lemma seqGreater_seqLess: "seqGreater a b \<longleftrightarrow> seqLess b a"
  by (auto simp: seqGreater_def seqLess_def)

lemma seqGE_seqLE: "seqGE a b \<longleftrightarrow> seqLE b a"
  by (simp add: seqGE_def seqLE_def)

lemma seqLE_refl [simp]: "seqLE a a"
  by (simp add: seqLE_def)

lemma seqGE_refl [simp]: "seqGE a a"
  by (simp add: seqGE_def)

lemma seqLess_irrefl [simp]: "\<not> seqLess a a"
  by (simp add: seqLess_def)

lemma seqLE_off: "seqLE a b \<longleftrightarrow> off a b < 2147483648"
  by (simp add: seqLE_def off_def word_less_nat_alt)

lemma seqLess_off: "seqLess a b \<longleftrightarrow> 0 < off a b \<and> off a b < 2147483648"
  by (auto simp: seqLess_def off_def word_less_nat_alt unat_gt_0)

lemma off_within:
  assumes "off k a < 2147483648" "off k b < 2147483648"
  shows "off a b = (if off k a \<le> off k b then off k b - off k a
                    else 4294967296 - (off k a - off k b))"
  using assms off_rebase [of k a b] off_rebase [of k b a] off_swap [of b a]
  by (cases "off k a \<le> off k b") auto

text \<open>Inside half of the number circle the comparisons are those of the distances.\<close>

lemma seq_half:
  assumes "off k a < 2147483648" "off k b < 2147483648"
  shows "seqLess a b \<longleftrightarrow> off k a < off k b"
    and "seqLE a b \<longleftrightarrow> off k a \<le> off k b"
    and "seqGreater a b \<longleftrightarrow> off k b < off k a"
    and "seqGE a b \<longleftrightarrow> off k b \<le> off k a"
proof -
  note w = off_within [OF assms] off_within [OF assms(2) assms(1)]
  show "seqLess a b \<longleftrightarrow> off k a < off k b"
    using w(1) assms by (auto simp: seqLess_off)
  show "seqLE a b \<longleftrightarrow> off k a \<le> off k b"
    using w(1) assms by (auto simp: seqLE_off)
  show "seqGreater a b \<longleftrightarrow> off k b < off k a"
    using w(2) assms by (auto simp: seqGreater_seqLess seqLess_off)
  show "seqGE a b \<longleftrightarrow> off k b \<le> off k a"
    using w(2) assms by (auto simp: seqGE_seqLE seqLE_off)
qed

lemma seqLess_add: "0 < n \<Longrightarrow> n < 0x80000000 \<Longrightarrow> seqLess a (a + n)"
  by (auto simp: seqLess_def)

lemma seqLess_Suc [simp]: "seqLess a (a + 1)"
  by (rule seqLess_add) simp_all

lemma seqLE_Suc [simp]: "seqLE a (a + 1)"
  by (simp add: seqLE_def)

lemma seqGreater_Suc [simp]: "seqGreater (a + 1) a"
  by (simp add: seqGreater_seqLess)

lemma seqLE_cases: "seqLE a b \<longleftrightarrow> a = b \<or> seqLess a b"
  by (auto simp: seqLE_def seqLess_def)

lemma seqLess_not_seqGE: "seqLess a b \<Longrightarrow> \<not> seqGE a b"
  by (cases "a = b") (auto simp: seqLess_off seqGE_seqLE seqLE_off off_swap [of a b])

text \<open>
  The two comparisons are complementary except at one point: a number exactly \<open>2 ^ 31\<close> away
  is neither at most nor at least the other one.
\<close>

lemma seq_gap: "\<not> seqGE a b \<and> \<not> seqLE a b \<longleftrightarrow> off a b = 2147483648"
proof (cases "a = b")
  case False
  then have "off b a = 4294967296 - off a b" by (rule off_swap)
  moreover have "off a b < 4294967296" by simp
  ultimately show ?thesis by (auto simp: seqGE_seqLE seqLE_off)
qed simp

lemma seqGE_total: "off a b \<noteq> 2147483648 \<Longrightarrow> \<not> seqGE a b \<Longrightarrow> seqLess a b"
  using seq_gap [of a b] by (auto simp: seqLE_cases)

end
