(* ===== verification/Transport_Common.thy ===== *)
theory Transport_Common imports Inet_Prelude
begin

text \<open>
  What TCP and UDP share: addresses of either version
  (\<^verbatim>\<open>src/src/networklayer/contract/IPvXAddress.h\<close>) and the search for an ephemeral port, which
  \<^verbatim>\<open>TCP.cc\<close> and \<^verbatim>\<open>UDP.cc\<close> have in the same words.
\<close>

section \<open>Addresses\<close>

text \<open>
  The class stores four words and a flag, and its IPv4 constructors leave three of the words
  uninitialised. Here an IPv4 address has only the word it initialises, so that a read of an
  uninitialised word has no counterpart.
\<close>

datatype IPvXAddress =
    IPv4 uint32
  | IPv6 uint32 uint32 uint32 uint32

definition unspecifiedAddress :: IPvXAddress where
  "unspecifiedAddress = IPv4 0"

fun isIPv6 :: "IPvXAddress \<Rightarrow> bool" where
  "isIPv6 (IPv4 a) = False"
| "isIPv6 (IPv6 a b c d) = True"

fun isUnspecified :: "IPvXAddress \<Rightarrow> bool" where
  "isUnspecified (IPv4 a) = (a = 0)"
| "isUnspecified (IPv6 a b c d) = False"

fun get4 :: "IPvXAddress \<Rightarrow> uint32 res" where
  "get4 (IPv4 a) = Inr a"
| "get4 (IPv6 a b c d) = Inl (OppError ''cannot return IPv6 address as IPv4'')"

fun get6 :: "IPvXAddress \<Rightarrow> (uint32 \<times> uint32 \<times> uint32 \<times> uint32) res" where
  "get6 (IPv6 a b c d) = Inr (a, b, c, d)"
| "get6 (IPv4 a) = (if a = 0 then Inr (0, 0, 0, 0)
     else Inl (OppError ''cannot return IPv4 address as IPv6''))"

text \<open>
  \<^verbatim>\<open>equals(const IPvXAddress&)\<close> looks at the flag of the left address only. A left IPv6
  and a right IPv4 address make it compare uninitialised words, which is left out (\<open>None\<close>).
\<close>

fun addr_equals :: "IPvXAddress \<Rightarrow> IPvXAddress \<Rightarrow> bool option" where
  "addr_equals (IPv4 a) (IPv4 a') = Some (a = a')"
| "addr_equals (IPv4 a) (IPv6 a' b' c' d') = Some (a = a')"
| "addr_equals (IPv6 a b c d) (IPv6 a' b' c' d') = Some (a = a' \<and> b = b' \<and> c = c' \<and> d = d')"
| "addr_equals (IPv6 a b c d) (IPv4 a') = (if a \<noteq> a' then Some False else None)"

lemma isUnspecified_iff: "isUnspecified a \<longleftrightarrow> a = unspecifiedAddress"
  by (cases a) (auto simp: unspecifiedAddress_def)

section \<open>Ephemeral ports\<close>

definition EPHEMERAL_PORTRANGE_START :: int where [simp]: "EPHEMERAL_PORTRANGE_START = 1024"
definition EPHEMERAL_PORTRANGE_END :: int where [simp]: "EPHEMERAL_PORTRANGE_END = 5000"

definition isEphemeral :: "int \<Rightarrow> bool" where
  "isEphemeral p \<longleftrightarrow> EPHEMERAL_PORTRANGE_START \<le> p \<and> p < EPHEMERAL_PORTRANGE_END"

text \<open>
  The search for a port that is not in use. The loop is a function of a \<^verbatim>\<open>short\<close>, so a search that
  goes on for more than 65536 rounds never ends.
\<close>

definition nextEphemeral :: "int \<Rightarrow> int" where
  "nextEphemeral p =
     (let q = toShort (p + 1)
      in if q = EPHEMERAL_PORTRANGE_END then EPHEMERAL_PORTRANGE_START else q)"

primrec searchEphemeral :: "nat \<Rightarrow> int \<Rightarrow> (int \<Rightarrow> bool) \<Rightarrow> int \<Rightarrow> int res" where
  "searchEphemeral 0 searchUntil used p = Inl (Diverges ''while (usedEphemeralPorts.find(...))'')"
| "searchEphemeral (Suc n) searchUntil used p =
     (if used p
      then if p = searchUntil
           then Inl (OppError ''Ephemeral port range exhausted, all ports occupied'')
           else searchEphemeral n searchUntil used (nextEphemeral p)
      else Inr p)"

text \<open>The search goes round the port range once, from the port after the last one given out.\<close>

lemma nextEphemeral_range: "isEphemeral p \<Longrightarrow> isEphemeral (nextEphemeral p)"
  by (auto simp: nextEphemeral_def isEphemeral_def Let_def toShort_id)

lemma isEphemeral_short: "isEphemeral p \<Longrightarrow> toShort p = p"
  by (auto simp: isEphemeral_def toShort_id)

definition portDistance :: "int \<Rightarrow> int \<Rightarrow> int" where
  "portDistance p q = (if p \<le> q then q - p else q - p + 3976)"

lemma portDistance_next:
  assumes "isEphemeral p" "isEphemeral q" "p \<noteq> q"
  shows "portDistance p q = portDistance (nextEphemeral p) q + 1"
  using assms
  by (auto simp: portDistance_def nextEphemeral_def isEphemeral_def Let_def toShort_id)

lemma searchEphemeral_cases:
  assumes "isEphemeral p" "isEphemeral u" "portDistance p u < int n"
  shows "(\<exists>q. searchEphemeral n u used p = Inr q \<and> isEphemeral q \<and> \<not> used q) \<or>
    searchEphemeral n u used p =
      Inl (OppError ''Ephemeral port range exhausted, all ports occupied'') \<and>
    (\<forall>q. isEphemeral q \<and> portDistance q u \<le> portDistance p u \<longrightarrow> used q)"
  using assms
proof (induction n arbitrary: p)
  case 0
  then show ?case by (auto simp: portDistance_def isEphemeral_def split: if_splits)
next
  case (Suc n)
  show ?case
  proof (cases "used p \<and> p \<noteq> u")
    case False
    have "q = p" if "p = u" "isEphemeral q" "portDistance q u \<le> portDistance p u" for q
      using that Suc.prems by (auto simp: portDistance_def isEphemeral_def split: if_splits)
    with False Suc.prems show ?thesis by auto
  next
    case True
    note d = portDistance_next [OF Suc.prems(1,2)]
    have all: "q = p \<or> portDistance q u \<le> portDistance (nextEphemeral p) u"
      if "isEphemeral q" "portDistance q u \<le> portDistance p u" for q
      using that d True Suc.prems by (auto simp: portDistance_def isEphemeral_def split: if_splits)
    have "searchEphemeral (Suc n) u used p = searchEphemeral n u used (nextEphemeral p)"
      using True by simp
    moreover have lt: "portDistance (nextEphemeral p) u < int n"
      using d Suc.prems(3) True by simp
    from Suc.IH [OF nextEphemeral_range [OF Suc.prems(1)] Suc.prems(2) lt]
    have "(\<exists>q. searchEphemeral n u used (nextEphemeral p) = Inr q \<and> isEphemeral q \<and> \<not> used q) \<or>
      searchEphemeral n u used (nextEphemeral p) =
        Inl (OppError ''Ephemeral port range exhausted, all ports occupied'') \<and>
      (\<forall>q. isEphemeral q \<and> portDistance q u \<le> portDistance (nextEphemeral p) u \<longrightarrow> used q)" .
    ultimately show ?thesis using all True by metis
  qed
qed

lemma searchEphemeral_all:
  assumes l: "isEphemeral u"
  shows "(\<exists>p. searchEphemeral 65537 u used (nextEphemeral u) = Inr p \<and> isEphemeral p \<and> \<not> used p) \<or>
    searchEphemeral 65537 u used (nextEphemeral u) = Inl (OppError ''Ephemeral port range exhausted, all ports occupied'') \<and>
    (\<forall>p. isEphemeral p \<longrightarrow> used p)"
proof -
  have d: "portDistance (nextEphemeral u) u = 3975"
    using l by (auto simp: portDistance_def nextEphemeral_def isEphemeral_def Let_def toShort_id)
  have "portDistance q u \<le> 3975" if "isEphemeral q" for q
    using that l by (auto simp: portDistance_def isEphemeral_def)
  with searchEphemeral_cases [OF nextEphemeral_range [OF l] l, of 65537 used] d
  show ?thesis by auto
qed

end
