(* ===== verification/TCP_Segment.thy ===== *)
theory TCP_Segment imports TCP_Seq Transport_Common
begin

text \<open>
  The data the TCP module exchanges: application packets, and TCP segments with their list of
  payload messages
  (\<^verbatim>\<open>src/src/transport/tcp/TCPSegment.{msg,h,cc}\<close>).
\<close>

section \<open>Packets and segments\<close>

text \<open>
  Of an application packet the module reads the name and the length. The name stands for the
  identity of the message object.
\<close>

record cPacket =
  pktName :: string
  byteLength :: "64 word"

record TCPSegment =
  srcPort :: int
  destPort :: int
  sequenceNo :: uint32
  ackNo :: uint32
  urgBit :: bool
  ackBit :: bool
  pshBit :: bool
  rstBit :: bool
  synBit :: bool
  finBit :: bool
  window :: ulong
  urgentPointer :: ulong
  payloadLength :: uint32
  segByteLength :: int
  payloadList :: "(uint32 \<times> cPacket) list"

definition createTCPSegment :: TCPSegment where
  "createTCPSegment = \<lparr>srcPort = 0, destPort = 0, sequenceNo = 0, ackNo = 0, urgBit = False,
     ackBit = False, pshBit = False, rstBit = False, synBit = False, finBit = False,
     window = 0, urgentPointer = 0, payloadLength = 0, segByteLength = 0,
     payloadList = []\<rparr>"

text \<open>\<^verbatim>\<open>payloadLength\<close> is an \<^verbatim>\<open>int\<close>: its sign matters where it is compared.\<close>

definition hasPayload :: "TCPSegment \<Rightarrow> bool" where
  "hasPayload s \<longleftrightarrow> 0 < sint (payloadLength s)"

definition getPayloadArraySize :: "TCPSegment \<Rightarrow> nat" where
  "getPayloadArraySize s = length (payloadList s)"

definition addPayloadMessage :: "cPacket \<Rightarrow> uint32 \<Rightarrow> TCPSegment \<Rightarrow> TCPSegment" where
  "addPayloadMessage msg endSequenceNo s = s\<lparr>payloadList := payloadList s @ [(endSequenceNo, msg)]\<rparr>"

fun removeFirstPayloadMessage :: "TCPSegment \<Rightarrow> TCPSegment \<times> (uint32 \<times> cPacket) option" where
  "removeFirstPayloadMessage s = (case payloadList s of
     [] \<Rightarrow> (s, None)
   | p # ps \<Rightarrow> (s\<lparr>payloadList := ps\<rparr>, Some p))"

definition setPayloadArraySize :: "TCPSegment \<Rightarrow> nat \<Rightarrow> TCPSegment res" where
  "setPayloadArraySize s n =
     Inl (OppError ''setPayloadArraySize() not supported, use addPayloadMessage()'')"

lemma payloadList_add [simp]:
  "payloadList (addPayloadMessage m e s) = payloadList s @ [(e, m)]"
  by (simp add: addPayloadMessage_def)

lemma addPayloadMessage_simps [simp]:
  "sequenceNo (addPayloadMessage m e s) = sequenceNo s"
  "payloadLength (addPayloadMessage m e s) = payloadLength s"
  by (simp_all add: addPayloadMessage_def)

text \<open>The ports are of type \<^verbatim>\<open>short\<close>.\<close>

definition getSrcPort :: "TCPSegment \<Rightarrow> int" where
  "getSrcPort s = toShort (srcPort s)"

definition getDestPort :: "TCPSegment \<Rightarrow> int" where
  "getDestPort s = toShort (destPort s)"

text \<open>The payload messages leave the segment in the order in which they were added.\<close>

lemma removeFirst_add:
  "payloadList s = [] \<Longrightarrow>
   removeFirstPayloadMessage (addPayloadMessage m e s) = (s, Some (e, m))"
  by (cases s) (simp add: addPayloadMessage_def)

end
