(* ===== verification/TCP_SendQueue.thy ===== *)
theory TCP_SendQueue imports TCP_Segment
begin

text \<open>
  The send queues: \<^verbatim>\<open>TCPVirtualDataSendQueue\<close> counts bytes,
  \<^verbatim>\<open>TCPMsgBasedSendQueue\<close> also keeps the message objects with the sequence number
  that follows their last byte. The abstract class \<^verbatim>\<open>TCPSendQueue\<close> is the locale
  \<open>send_queue\<close> below; both queues, and the queue a connection holds, interpret it.
\<close>

section \<open>The two queues\<close>

record TCPVirtualDataSendQueue =
  vq_begin :: uint32
  vq_end :: uint32

definition VirtualSQ_new :: TCPVirtualDataSendQueue where
  "VirtualSQ_new = \<lparr>vq_begin = 0, vq_end = 0\<rparr>"

definition VirtualSQ_init :: "uint32 \<Rightarrow> TCPVirtualDataSendQueue \<Rightarrow> TCPVirtualDataSendQueue" where
  "VirtualSQ_init startSeq q = q\<lparr>vq_begin := startSeq, vq_end := startSeq\<rparr>"

definition VirtualSQ_enqueueAppData ::
  "cPacket \<Rightarrow> TCPVirtualDataSendQueue \<Rightarrow> TCPVirtualDataSendQueue" where
  "VirtualSQ_enqueueAppData msg q = q\<lparr>vq_end := vq_end q + ucast (byteLength msg)\<rparr>"

definition VirtualSQ_getBufferEndSeq :: "TCPVirtualDataSendQueue \<Rightarrow> uint32" where
  "VirtualSQ_getBufferEndSeq q = vq_end q"

definition VirtualSQ_createSegmentWithBytes ::
  "uint32 \<Rightarrow> ulong \<Rightarrow> TCPVirtualDataSendQueue \<Rightarrow> TCPSegment res" where
  "VirtualSQ_createSegmentWithBytes fromSeq numBytes q =
     checked (seqLE (vq_begin q) fromSeq \<and> seqLE (fromSeq + ucast numBytes) (vq_end q))
       (AssertFailed ''seqLE(begin,fromSeq) && seqLE(fromSeq+numBytes,end)'')
       (Inr (createTCPSegment\<lparr>sequenceNo := fromSeq, payloadLength := ucast numBytes\<rparr>))"

definition VirtualSQ_discardUpTo ::
  "uint32 \<Rightarrow> TCPVirtualDataSendQueue \<Rightarrow> TCPVirtualDataSendQueue res" where
  "VirtualSQ_discardUpTo seqNum q =
     checked (seqLE (vq_begin q) seqNum \<and> seqLE seqNum (vq_end q))
       (AssertFailed ''seqLE(begin,seqNum) && seqLE(seqNum,end)'')
       (Inr (q\<lparr>vq_begin := seqNum\<rparr>))"

record TCPMsgBasedSendQueue =
  mq_begin :: uint32
  mq_end :: uint32
  payloadQueue :: "(uint32 \<times> cPacket) list"

definition MsgSQ_new :: TCPMsgBasedSendQueue where
  "MsgSQ_new = \<lparr>mq_begin = 0, mq_end = 0, payloadQueue = []\<rparr>"

definition MsgSQ_init :: "uint32 \<Rightarrow> TCPMsgBasedSendQueue \<Rightarrow> TCPMsgBasedSendQueue" where
  "MsgSQ_init startSeq q = q\<lparr>mq_begin := startSeq, mq_end := startSeq\<rparr>"

definition MsgSQ_enqueueAppData ::
  "cPacket \<Rightarrow> TCPMsgBasedSendQueue \<Rightarrow> TCPMsgBasedSendQueue" where
  "MsgSQ_enqueueAppData msg q =
     (let e = mq_end q + ucast (byteLength msg)
      in q\<lparr>mq_end := e, payloadQueue := payloadQueue q @ [(e, msg)]\<rparr>)"

definition MsgSQ_getBufferEndSeq :: "TCPMsgBasedSendQueue \<Rightarrow> uint32" where
  "MsgSQ_getBufferEndSeq q = mq_end q"

text \<open>
  The two loops over the payload queue: skip the messages that end at or before the start of
  the segment, then take those that end at or before its end.
\<close>

definition MsgSQ_payloadBetween ::
  "uint32 \<Rightarrow> uint32 \<Rightarrow> (uint32 \<times> cPacket) list \<Rightarrow> (uint32 \<times> cPacket) list" where
  "MsgSQ_payloadBetween fromSeq toSeq ps =
     takeWhile (\<lambda>p. seqLE (fst p) toSeq) (dropWhile (\<lambda>p. seqLE (fst p) fromSeq) ps)"

definition MsgSQ_createSegmentWithBytes ::
  "uint32 \<Rightarrow> ulong \<Rightarrow> TCPMsgBasedSendQueue \<Rightarrow> TCPSegment res" where
  "MsgSQ_createSegmentWithBytes fromSeq numBytes q =
     checked (seqLE (mq_begin q) fromSeq \<and> seqLE (fromSeq + ucast numBytes) (mq_end q))
       (AssertFailed ''seqLE(begin,fromSeq) && seqLE(fromSeq+numBytes,end)'')
       (Inr (fold (\<lambda>p s. addPayloadMessage (snd p) (fst p) s)
          (MsgSQ_payloadBetween fromSeq (fromSeq + ucast numBytes) (payloadQueue q))
          (createTCPSegment\<lparr>sequenceNo := fromSeq, payloadLength := ucast numBytes\<rparr>)))"

definition MsgSQ_discardUpTo ::
  "uint32 \<Rightarrow> TCPMsgBasedSendQueue \<Rightarrow> TCPMsgBasedSendQueue res" where
  "MsgSQ_discardUpTo seqNum q =
     checked (seqLE (mq_begin q) seqNum \<and> seqLE seqNum (mq_end q))
       (AssertFailed ''seqLE(begin,seqNum) && seqLE(seqNum,end)'')
       (Inr (q\<lparr>mq_begin := seqNum,
               payloadQueue := dropWhile (\<lambda>p. seqLE (fst p) seqNum) (payloadQueue q)\<rparr>))"

section \<open>The queue of a connection\<close>

datatype TCPSendQueue =
    VirtualDataSendQueue TCPVirtualDataSendQueue
  | MsgBasedSendQueue TCPMsgBasedSendQueue

text \<open>\<^verbatim>\<open>createOne(sendQueueClass)\<close>: the classes registered under \<^verbatim>\<open>queues/\<close>.\<close>

definition createSendQueue :: "string \<Rightarrow> TCPSendQueue res" where
  "createSendQueue cls =
     (if cls = ''TCPVirtualDataSendQueue'' then Inr (VirtualDataSendQueue VirtualSQ_new)
      else if cls = ''TCPMsgBasedSendQueue'' then Inr (MsgBasedSendQueue MsgSQ_new)
      else Inl (OppError ''class not found''))"

fun sendQueueClassName :: "TCPSendQueue \<Rightarrow> string" where
  "sendQueueClassName (VirtualDataSendQueue q) = ''TCPVirtualDataSendQueue''"
| "sendQueueClassName (MsgBasedSendQueue q) = ''TCPMsgBasedSendQueue''"

fun sq_begin :: "TCPSendQueue \<Rightarrow> uint32" where
  "sq_begin (VirtualDataSendQueue q) = vq_begin q"
| "sq_begin (MsgBasedSendQueue q) = mq_begin q"

fun sq_init :: "uint32 \<Rightarrow> TCPSendQueue \<Rightarrow> TCPSendQueue" where
  "sq_init s (VirtualDataSendQueue q) = VirtualDataSendQueue (VirtualSQ_init s q)"
| "sq_init s (MsgBasedSendQueue q) = MsgBasedSendQueue (MsgSQ_init s q)"

fun sq_enqueueAppData :: "cPacket \<Rightarrow> TCPSendQueue \<Rightarrow> TCPSendQueue" where
  "sq_enqueueAppData m (VirtualDataSendQueue q) = VirtualDataSendQueue (VirtualSQ_enqueueAppData m q)"
| "sq_enqueueAppData m (MsgBasedSendQueue q) = MsgBasedSendQueue (MsgSQ_enqueueAppData m q)"

fun sq_getBufferEndSeq :: "TCPSendQueue \<Rightarrow> uint32" where
  "sq_getBufferEndSeq (VirtualDataSendQueue q) = VirtualSQ_getBufferEndSeq q"
| "sq_getBufferEndSeq (MsgBasedSendQueue q) = MsgSQ_getBufferEndSeq q"

fun sq_createSegmentWithBytes :: "uint32 \<Rightarrow> ulong \<Rightarrow> TCPSendQueue \<Rightarrow> TCPSegment res" where
  "sq_createSegmentWithBytes s n (VirtualDataSendQueue q) = VirtualSQ_createSegmentWithBytes s n q"
| "sq_createSegmentWithBytes s n (MsgBasedSendQueue q) = MsgSQ_createSegmentWithBytes s n q"

fun sq_discardUpTo :: "uint32 \<Rightarrow> TCPSendQueue \<Rightarrow> TCPSendQueue res" where
  "sq_discardUpTo s (VirtualDataSendQueue q) =
     andThen (VirtualSQ_discardUpTo s q) (\<lambda>q. Inr (VirtualDataSendQueue q))"
| "sq_discardUpTo s (MsgBasedSendQueue q) =
     andThen (MsgSQ_discardUpTo s q) (\<lambda>q. Inr (MsgBasedSendQueue q))"

text \<open>\<^verbatim>\<open>TCPSendQueue::getBytesAvailable()\<close>, shared by all queues.\<close>

definition getBytesAvailable :: "uint32 \<Rightarrow> TCPSendQueue \<Rightarrow> nat" where
  "getBytesAvailable fromSeq q =
     (let bufEndSeq = sq_getBufferEndSeq q
      in if seqLess fromSeq bufEndSeq then unat (bufEndSeq - fromSeq) else 0)"

section \<open>The contract of a send queue\<close>

text \<open>
  What the connection relies on: the queue holds the bytes from \<open>beg\<close> up to its end, a
  segment is made exactly for a range inside these bounds and carries that many bytes from
  that number on, and discarding moves the lower bound only.
\<close>

locale send_queue =
  fixes beg :: "'q \<Rightarrow> uint32"
    and bufEnd :: "'q \<Rightarrow> uint32"
    and init :: "uint32 \<Rightarrow> 'q \<Rightarrow> 'q"
    and enqueue :: "cPacket \<Rightarrow> 'q \<Rightarrow> 'q"
    and createSegment :: "uint32 \<Rightarrow> ulong \<Rightarrow> 'q \<Rightarrow> TCPSegment res"
    and discard :: "uint32 \<Rightarrow> 'q \<Rightarrow> 'q res"
  assumes init_beg: "beg (init s q) = s"
    and init_end: "bufEnd (init s q) = s"
    and enqueue_beg: "beg (enqueue m q) = beg q"
    and enqueue_end: "bufEnd (enqueue m q) = bufEnd q + ucast (byteLength m)"
    and create_ok: "seqLE (beg q) s \<Longrightarrow> seqLE (s + ucast n) (bufEnd q) \<Longrightarrow>
      \<exists>ps. createSegment s n q =
        Inr (createTCPSegment\<lparr>sequenceNo := s, payloadLength := ucast n, payloadList := ps\<rparr>)"
    and create_fails: "\<not> (seqLE (beg q) s \<and> seqLE (s + ucast n) (bufEnd q)) \<Longrightarrow>
      createSegment s n q =
        Inl (AssertFailed ''seqLE(begin,fromSeq) && seqLE(fromSeq+numBytes,end)'')"
    and discard_ok: "seqLE (beg q) s \<Longrightarrow> seqLE s (bufEnd q) \<Longrightarrow>
      \<exists>q'. discard s q = Inr q' \<and> beg q' = s \<and> bufEnd q' = bufEnd q"
    and discard_fails: "\<not> (seqLE (beg q) s \<and> seqLE s (bufEnd q)) \<Longrightarrow>
      discard s q = Inl (AssertFailed ''seqLE(begin,seqNum) && seqLE(seqNum,end)'')"
begin

lemma create_Inr_iff:
  "(\<exists>seg. createSegment s n q = Inr seg) \<longleftrightarrow> seqLE (beg q) s \<and> seqLE (s + ucast n) (bufEnd q)"
  using create_ok [of q s n] create_fails [of q s n]
  by (cases "seqLE (beg q) s \<and> seqLE (s + ucast n) (bufEnd q)") auto

lemma create_InrD:
  assumes "createSegment s n q = Inr seg"
  shows "sequenceNo seg = s" "payloadLength seg = ucast n"
    "seqLE (beg q) s" "seqLE (s + ucast n) (bufEnd q)"
    "seg = createTCPSegment\<lparr>sequenceNo := s, payloadLength := ucast n,
       payloadList := payloadList seg\<rparr>"
proof -
  from assms show bounds: "seqLE (beg q) s" "seqLE (s + ucast n) (bufEnd q)"
    using create_Inr_iff [of s n q] by auto
  from create_ok [OF bounds] assms obtain ps where
    seg: "seg = createTCPSegment\<lparr>sequenceNo := s, payloadLength := ucast n, payloadList := ps\<rparr>"
    by auto
  then show "sequenceNo seg = s" "payloadLength seg = ucast n"
    "seg = createTCPSegment\<lparr>sequenceNo := s, payloadLength := ucast n,
       payloadList := payloadList seg\<rparr>"
    by simp_all
qed

lemma discard_InrD:
  assumes "discard s q = Inr q'"
  shows "beg q' = s" "bufEnd q' = bufEnd q" "seqLE (beg q) s" "seqLE s (bufEnd q)"
  using assms discard_ok [of q s] discard_fails [of q s] by auto

lemma discard_Inr_iff:
  "(\<exists>q'. discard s q = Inr q') \<longleftrightarrow> seqLE (beg q) s \<and> seqLE s (bufEnd q)"
  using discard_ok [of q s] discard_fails [of q s]
  by (cases "seqLE (beg q) s \<and> seqLE s (bufEnd q)") auto

text \<open>After a discard no segment below the discarded number can be made any more.\<close>

lemma discard_create:
  "discard s q = Inr q' \<Longrightarrow> createSegment r n q' = Inr seg \<Longrightarrow> seqLE s r"
  using discard_InrD create_InrD by metis

end

lemmas sq_defs = VirtualSQ_init_def VirtualSQ_enqueueAppData_def VirtualSQ_getBufferEndSeq_def
  VirtualSQ_createSegmentWithBytes_def VirtualSQ_discardUpTo_def MsgSQ_init_def
  MsgSQ_enqueueAppData_def MsgSQ_getBufferEndSeq_def MsgSQ_createSegmentWithBytes_def
  MsgSQ_discardUpTo_def

lemma fold_addPayloadMessage:
  "fold (\<lambda>p s. addPayloadMessage (snd p) (fst p) s) ps s = s\<lparr>payloadList := payloadList s @ ps\<rparr>"
  by (induction ps arbitrary: s) (auto simp: addPayloadMessage_def)

interpretation virtual_sq: send_queue vq_begin VirtualSQ_getBufferEndSeq VirtualSQ_init
  VirtualSQ_enqueueAppData VirtualSQ_createSegmentWithBytes VirtualSQ_discardUpTo
proof (unfold_locales, goal_cases)
  case (5 q s n)
  then show ?case
    by (intro exI [of _ "[]"]) (simp add: sq_defs createTCPSegment_def)
qed (auto simp: sq_defs)

interpretation msg_sq: send_queue mq_begin MsgSQ_getBufferEndSeq MsgSQ_init
  MsgSQ_enqueueAppData MsgSQ_createSegmentWithBytes MsgSQ_discardUpTo
  by unfold_locales (auto simp: sq_defs Let_def fold_addPayloadMessage createTCPSegment_def)

interpretation sq: send_queue sq_begin sq_getBufferEndSeq sq_init
  sq_enqueueAppData sq_createSegmentWithBytes sq_discardUpTo
proof (unfold_locales, goal_cases)
  case (1 s q)
  then show ?case by (cases q) (simp_all add: sq_defs)
next
  case (2 s q)
  then show ?case by (cases q) (simp_all add: sq_defs)
next
  case (3 m q)
  then show ?case by (cases q) (simp_all add: sq_defs Let_def)
next
  case (4 m q)
  then show ?case by (cases q) (simp_all add: sq_defs Let_def)
next
  case (5 q s n)
  then show ?case using virtual_sq.create_ok msg_sq.create_ok by (cases q) auto
next
  case (6 q s n)
  then show ?case using virtual_sq.create_fails msg_sq.create_fails by (cases q) auto
next
  case (7 q s)
  then show ?case
    by (cases q) (auto dest: virtual_sq.discard_ok msg_sq.discard_ok)
next
  case (8 q s)
  then show ?case
    by (cases q) (auto simp: virtual_sq.discard_fails msg_sq.discard_fails)
qed

lemma getBytesAvailable_pos: "0 < getBytesAvailable s q \<longleftrightarrow> seqLess s (sq_getBufferEndSeq q)"
  by (auto simp: getBytesAvailable_def Let_def seqLess_off off_def)

lemma getBytesAvailable_bound: "getBytesAvailable s q < 2147483648"
  by (auto simp: getBytesAvailable_def Let_def seqLess_off off_def)

section \<open>Message boundaries\<close>

text \<open>
  The invariant of the message based queue, seen from its first sequence number: less than
  half of the number space is queued, and the messages end in order, inside the queue.
\<close>

definition MsgSQ_inv :: "TCPMsgBasedSendQueue \<Rightarrow> bool" where
  "MsgSQ_inv q \<longleftrightarrow> off (mq_begin q) (mq_end q) < 2147483648 \<and>
     sorted (map (\<lambda>p. off (mq_begin q) (fst p)) (payloadQueue q)) \<and>
     (\<forall>p \<in> set (payloadQueue q). off (mq_begin q) (fst p) \<le> off (mq_begin q) (mq_end q))"

lemma takeWhile_append_sorted:
  fixes f :: "'a \<Rightarrow> nat"
  assumes "sorted (map f ps)" "i \<le> j" "j \<le> k"
  shows "takeWhile (\<lambda>p. f p \<le> k) (dropWhile (\<lambda>p. f p \<le> i) ps) =
    takeWhile (\<lambda>p. f p \<le> j) (dropWhile (\<lambda>p. f p \<le> i) ps) @
    takeWhile (\<lambda>p. f p \<le> k) (dropWhile (\<lambda>p. f p \<le> j) ps)"
  using assms(1)
proof (induction ps)
  case (Cons p ps)
  then have le: "\<forall>q \<in> set ps. f p \<le> f q" by simp
  show ?case
  proof (cases "f p \<le> i \<or> j < f p")
    case True
    then show ?thesis using Cons assms(2,3) by auto
  next
    case False
    with le have "dropWhile (\<lambda>p. f p \<le> i) ps = ps" by (cases ps) auto
    with False Cons assms(2,3) show ?thesis by auto
  qed
qed simp

lemma takeWhile_cong_set: "(\<And>x. x \<in> set xs \<Longrightarrow> P x = Q x) \<Longrightarrow> takeWhile P xs = takeWhile Q xs"
  by (induction xs) auto

lemma dropWhile_cong_set: "(\<And>x. x \<in> set xs \<Longrightarrow> P x = Q x) \<Longrightarrow> dropWhile P xs = dropWhile Q xs"
  by (induction xs) auto

lemma payloadBetween_off:
  assumes "\<forall>p \<in> set ps. off k (fst p) < 2147483648" "off k a < 2147483648" "off k b < 2147483648"
  shows "MsgSQ_payloadBetween a b ps =
    takeWhile (\<lambda>p. off k (fst p) \<le> off k b) (dropWhile (\<lambda>p. off k (fst p) \<le> off k a) ps)"
proof -
  have "dropWhile (\<lambda>p. seqLE (fst p) a) ps = dropWhile (\<lambda>p. off k (fst p) \<le> off k a) ps"
    by (rule dropWhile_cong_set) (use assms in \<open>auto simp: seq_half [of k]\<close>)
  moreover have "takeWhile (\<lambda>p. seqLE (fst p) b) (dropWhile (\<lambda>p. off k (fst p) \<le> off k a) ps)
     = takeWhile (\<lambda>p. off k (fst p) \<le> off k b) (dropWhile (\<lambda>p. off k (fst p) \<le> off k a) ps)"
    by (rule takeWhile_cong_set)
       (use assms in \<open>fastforce simp: seq_half [of k] dest: set_dropWhileD\<close>)
  ultimately show ?thesis by (simp add: MsgSQ_payloadBetween_def)
qed

lemma MsgSQ_inv_half:
  assumes "MsgSQ_inv q" "p \<in> set (payloadQueue q)"
  shows "off (mq_begin q) (fst p) < 2147483648"
  using assms by (fastforce simp: MsgSQ_inv_def)

lemma MsgSQ_split:
  assumes inv: "MsgSQ_inv q"
    and "off (mq_begin q) a \<le> off (mq_begin q) b"
    and "off (mq_begin q) b \<le> off (mq_begin q) c"
    and "off (mq_begin q) c \<le> off (mq_begin q) (mq_end q)"
  shows "MsgSQ_payloadBetween a c (payloadQueue q) =
    MsgSQ_payloadBetween a b (payloadQueue q) @ MsgSQ_payloadBetween b c (payloadQueue q)"
proof -
  let ?k = "mq_begin q"
  have half: "off ?k a < 2147483648" "off ?k b < 2147483648" "off ?k c < 2147483648"
    using assms by (auto simp: MsgSQ_inv_def)
  have ps: "\<forall>p \<in> set (payloadQueue q). off ?k (fst p) < 2147483648"
    using MsgSQ_inv_half [OF inv] by blast
  show ?thesis
    unfolding payloadBetween_off [OF ps half(1,3)] payloadBetween_off [OF ps half(1,2)]
      payloadBetween_off [OF ps half(2,3)]
    using inv assms(2,3) by (intro takeWhile_append_sorted) (auto simp: MsgSQ_inv_def)
qed

lemma MsgSQ_create_payload:
  "MsgSQ_createSegmentWithBytes s n q = Inr seg \<Longrightarrow>
   payloadList seg = MsgSQ_payloadBetween s (s + ucast n) (payloadQueue q)"
  by (auto simp: MsgSQ_createSegmentWithBytes_def checked_def fold_addPayloadMessage
      createTCPSegment_def split: if_splits)

lemma MsgSQ_inv_init: "payloadQueue q = [] \<Longrightarrow> MsgSQ_inv (MsgSQ_init s q)"
  by (simp add: MsgSQ_inv_def MsgSQ_init_def)

lemma MsgSQ_inv_enqueue:
  assumes inv: "MsgSQ_inv q"
    and room: "off (mq_begin q) (mq_end q) + unat (ucast (byteLength m) :: uint32) < 2147483648"
  shows "MsgSQ_inv (MsgSQ_enqueueAppData m q)"
proof -
  have "off (mq_begin q) (mq_end q + ucast (byteLength m)) =
      off (mq_begin q) (mq_end q) + unat (ucast (byteLength m) :: uint32)"
    using room by (intro off_add) simp
  with inv room show ?thesis
    by (fastforce simp: MsgSQ_inv_def MsgSQ_enqueueAppData_def Let_def sorted_append)
qed

lemma dropWhile_sorted_le:
  fixes f :: "'a \<Rightarrow> nat"
  shows "sorted (map f ps) \<Longrightarrow> p \<in> set (dropWhile (\<lambda>p. f p \<le> j) ps) \<Longrightarrow> j < f p"
  by (induction ps) (auto split: if_splits)

lemma sorted_map_dropWhile:
  fixes f :: "'a \<Rightarrow> nat"
  shows "sorted (map f ps) \<Longrightarrow> sorted (map f (dropWhile P ps))"
  by (induction ps) auto

lemma MsgSQ_inv_discard:
  assumes inv: "MsgSQ_inv q"
    and le: "off (mq_begin q) s \<le> off (mq_begin q) (mq_end q)"
    and d: "MsgSQ_discardUpTo s q = Inr q'"
  shows "MsgSQ_inv q'"
proof -
  let ?k = "mq_begin q" and ?f = "\<lambda>p. off (mq_begin q) (fst p)"
  let ?ps = "dropWhile (\<lambda>p. ?f p \<le> off ?k s) (payloadQueue q)"
  have half: "off ?k s < 2147483648" "\<forall>p \<in> set (payloadQueue q). ?f p < 2147483648"
    using inv le MsgSQ_inv_half [OF inv] by (auto simp: MsgSQ_inv_def)
  have "dropWhile (\<lambda>p. seqLE (fst p) s) (payloadQueue q) = ?ps"
    by (rule dropWhile_cong_set) (use half in \<open>auto simp: seq_half\<close>)
  with d have q': "q' = q\<lparr>mq_begin := s, payloadQueue := ?ps\<rparr>"
    by (auto simp: MsgSQ_discardUpTo_def checked_def split: if_splits)
  have sorted: "sorted (map ?f (payloadQueue q))" using inv by (simp add: MsgSQ_inv_def)
  have above: "off ?k s < ?f p" if "p \<in> set ?ps" for p
    using dropWhile_sorted_le [OF sorted that] .
  have eq: "map (\<lambda>p. off s (fst p)) ?ps = map (\<lambda>p. ?f p - off ?k s) ?ps"
    using above by (auto intro!: off_rebase simp: less_imp_le)
  have "sorted (map ?f ?ps)" using sorted by (rule sorted_map_dropWhile)
  then have "sorted (map (\<lambda>p. ?f p - off ?k s) ?ps)"
    by (auto simp: sorted_iff_nth_mono_less diff_le_mono)
  then have "sorted (map (\<lambda>p. off s (fst p)) ?ps)"
    by (simp only: eq)
  moreover have "off s (mq_end q) = off ?k (mq_end q) - off ?k s"
    using le by (rule off_rebase)
  moreover have "off s (fst p) \<le> off s (mq_end q)" if "p \<in> set ?ps" for p
    using that above [OF that] inv off_rebase [of ?k s "fst p"] calculation(2)
    by (auto simp: MsgSQ_inv_def dest!: set_dropWhileD intro!: diff_le_mono)
  ultimately show ?thesis
    using inv by (auto simp: MsgSQ_inv_def q')
qed

end
