(* ===== verification/TCP_RcvQueue.thy ===== *)
theory TCP_RcvQueue imports TCP_Segment
begin

text \<open>
  The receive queues: \<^verbatim>\<open>TCPVirtualDataRcvQueue\<close> keeps the received byte ranges as a
  list of regions, \<^verbatim>\<open>TCPMsgBasedRcvQueue\<close> extends it with the message objects that
  arrived, keyed by the sequence number after their last byte.
\<close>

section \<open>Regions\<close>

record Region =
  rbegin :: uint32
  rend :: uint32

text \<open>The inner loop of \<^verbatim>\<open>merge()\<close>: region \<open>i\<close> swallows the regions it reaches.\<close>

fun absorb :: "Region \<Rightarrow> Region list \<Rightarrow> Region list" where
  "absorb i [] = [i]"
| "absorb i (j # js) =
     (if seqGE (rend i) (rbegin j)
      then absorb (if seqLess (rend i) (rend j) then i\<lparr>rend := rend j\<rparr> else i) js
      else i # j # js)"

fun merge :: "uint32 \<Rightarrow> uint32 \<Rightarrow> Region list \<Rightarrow> Region list" where
  "merge segBegin segEnd [] = [\<lparr>rbegin = segBegin, rend = segEnd\<rparr>]"
| "merge segBegin segEnd (i # is) =
     (if seqLess (rend i) segBegin then i # merge segBegin segEnd is
      else if seqLess segEnd (rbegin i) then \<lparr>rbegin = segBegin, rend = segEnd\<rparr> # i # is
      else let i1 = (if seqLess segBegin (rbegin i) then i\<lparr>rbegin := segBegin\<rparr> else i)
           in if seqLess (rend i1) segEnd then absorb (i1\<lparr>rend := segEnd\<rparr>) is else i1 # is)"

section \<open>The two queues\<close>

record TCPVirtualDataRcvQueue =
  rq_rcv_nxt :: uint32
  regionList :: "Region list"

definition VirtualRQ_init ::
  "uint32 \<Rightarrow> 'a TCPVirtualDataRcvQueue_scheme \<Rightarrow> 'a TCPVirtualDataRcvQueue_scheme" where
  "VirtualRQ_init startSeq q = q\<lparr>rq_rcv_nxt := startSeq\<rparr>"

text \<open>
  \<^verbatim>\<open>merge()\<close> leaves at least one region, so the first region always exists where it is
  read.
\<close>

definition VirtualRQ_insertBytesFromSegment ::
  "TCPSegment \<Rightarrow> 'a TCPVirtualDataRcvQueue_scheme \<Rightarrow> 'a TCPVirtualDataRcvQueue_scheme" where
  "VirtualRQ_insertBytesFromSegment seg q =
     (let rl = merge (sequenceNo seg) (sequenceNo seg + payloadLength seg) (regionList q);
          front = hd rl
      in q\<lparr>regionList := rl,
           rq_rcv_nxt := (if seqGE (rq_rcv_nxt q) (rbegin front) then rend front else rq_rcv_nxt q)\<rparr>)"

definition VirtualRQ_extractTo ::
  "uint32 \<Rightarrow> 'a TCPVirtualDataRcvQueue_scheme \<Rightarrow> ('a TCPVirtualDataRcvQueue_scheme \<times> nat) res" where
  "VirtualRQ_extractTo s q =
     checked (seqLE s (rq_rcv_nxt q)) (AssertFailed ''seqLE(seq,rcv_nxt)'')
       (case regionList q of
          [] \<Rightarrow> Inr (q, 0)
        | i # is \<Rightarrow>
            checked (rbegin i < rend i) (AssertFailed ''i->begin<i->end'')
              (if seqLE s (rbegin i) then Inr (q, 0)
               else if seqLess s (rend i)
                 then Inr (q\<lparr>regionList := i\<lparr>rbegin := s\<rparr> # is\<rparr>, unat (s - rbegin i))
               else Inr (q\<lparr>regionList := is\<rparr>, unat (rend i - rbegin i))))"

definition VirtualRQ_extractBytesUpTo ::
  "uint32 \<Rightarrow> TCPVirtualDataRcvQueue \<Rightarrow> (TCPVirtualDataRcvQueue \<times> cPacket option) res" where
  "VirtualRQ_extractBytesUpTo s q =
     andThen (VirtualRQ_extractTo s q) (\<lambda>(q, numBytes).
       Inr (q, if numBytes = 0 then None
               else Some \<lparr>pktName = ''data'', byteLength = of_nat numBytes\<rparr>))"

text \<open>
  The \<^verbatim>\<open>std::map\<close> of the message based queue is ordered by the plain order of its
  32 bit keys. It is a list in that order.
\<close>

record TCPMsgBasedRcvQueue = TCPVirtualDataRcvQueue +
  rq_payloadList :: "(uint32 \<times> cPacket) list"

fun payload_insert :: "uint32 \<Rightarrow> cPacket \<Rightarrow> (uint32 \<times> cPacket) list \<Rightarrow> (uint32 \<times> cPacket) list" where
  "payload_insert k m [] = [(k, m)]"
| "payload_insert k m ((k', m') # ps) =
     (if k < k' then (k, m) # (k', m') # ps
      else if k = k' then (k', m') # ps
      else (k', m') # payload_insert k m ps)"

definition MsgRQ_insertBytesFromSegment ::
  "TCPSegment \<Rightarrow> TCPMsgBasedRcvQueue \<Rightarrow> TCPMsgBasedRcvQueue" where
  "MsgRQ_insertBytesFromSegment seg q =
     (let q1 = VirtualRQ_insertBytesFromSegment seg q
      in q1\<lparr>rq_payloadList :=
           fold (\<lambda>p l. payload_insert (fst p) (snd p) l) (payloadList seg) (rq_payloadList q1)\<rparr>)"

definition MsgRQ_extractBytesUpTo ::
  "uint32 \<Rightarrow> TCPMsgBasedRcvQueue \<Rightarrow> (TCPMsgBasedRcvQueue \<times> cPacket option) res" where
  "MsgRQ_extractBytesUpTo s q =
     andThen (VirtualRQ_extractTo s q) (\<lambda>(q, n).
       case rq_payloadList q of
         [] \<Rightarrow> Inr (q, None)
       | (k, m) # ps \<Rightarrow>
           if seqGreater k s then Inr (q, None)
           else Inr (q\<lparr>rq_payloadList := ps\<rparr>, Some m))"

section \<open>The queue of a connection\<close>

datatype TCPReceiveQueue =
    VirtualDataRcvQueue TCPVirtualDataRcvQueue
  | MsgBasedRcvQueue TCPMsgBasedRcvQueue

definition createReceiveQueue :: "string \<Rightarrow> TCPReceiveQueue res" where
  "createReceiveQueue cls =
     (if cls = ''TCPVirtualDataRcvQueue''
      then Inr (VirtualDataRcvQueue \<lparr>rq_rcv_nxt = 0, regionList = []\<rparr>)
      else if cls = ''TCPMsgBasedRcvQueue''
      then Inr (MsgBasedRcvQueue \<lparr>rq_rcv_nxt = 0, regionList = [], rq_payloadList = []\<rparr>)
      else Inl (OppError ''class not found''))"

fun receiveQueueClassName :: "TCPReceiveQueue \<Rightarrow> string" where
  "receiveQueueClassName (VirtualDataRcvQueue q) = ''TCPVirtualDataRcvQueue''"
| "receiveQueueClassName (MsgBasedRcvQueue q) = ''TCPMsgBasedRcvQueue''"

fun rq_nxt :: "TCPReceiveQueue \<Rightarrow> uint32" where
  "rq_nxt (VirtualDataRcvQueue q) = rq_rcv_nxt q"
| "rq_nxt (MsgBasedRcvQueue q) = rq_rcv_nxt q"

fun rq_regions :: "TCPReceiveQueue \<Rightarrow> Region list" where
  "rq_regions (VirtualDataRcvQueue q) = regionList q"
| "rq_regions (MsgBasedRcvQueue q) = regionList q"

fun rq_init :: "uint32 \<Rightarrow> TCPReceiveQueue \<Rightarrow> TCPReceiveQueue" where
  "rq_init s (VirtualDataRcvQueue q) = VirtualDataRcvQueue (VirtualRQ_init s q)"
| "rq_init s (MsgBasedRcvQueue q) = MsgBasedRcvQueue (VirtualRQ_init s q)"

text \<open>Inserting returns \<^verbatim>\<open>rcv_nxt\<close>, which is \<^const>\<open>rq_nxt\<close> of the new queue.\<close>

fun rq_insertBytesFromSegment :: "TCPSegment \<Rightarrow> TCPReceiveQueue \<Rightarrow> TCPReceiveQueue" where
  "rq_insertBytesFromSegment seg (VirtualDataRcvQueue q) =
     VirtualDataRcvQueue (VirtualRQ_insertBytesFromSegment seg q)"
| "rq_insertBytesFromSegment seg (MsgBasedRcvQueue q) =
     MsgBasedRcvQueue (MsgRQ_insertBytesFromSegment seg q)"

fun rq_extractBytesUpTo ::
  "uint32 \<Rightarrow> TCPReceiveQueue \<Rightarrow> (TCPReceiveQueue \<times> cPacket option) res" where
  "rq_extractBytesUpTo s (VirtualDataRcvQueue q) =
     andThen (VirtualRQ_extractBytesUpTo s q) (\<lambda>(q, m). Inr (VirtualDataRcvQueue q, m))"
| "rq_extractBytesUpTo s (MsgBasedRcvQueue q) =
     andThen (MsgRQ_extractBytesUpTo s q) (\<lambda>(q, m). Inr (MsgBasedRcvQueue q, m))"

text \<open>
  The loop of the connection that passes up everything received in order: it calls the queue
  until it returns no message. Every call that returns a message makes the queue smaller, so
  the loop ends.
\<close>

fun rq_size :: "TCPReceiveQueue \<Rightarrow> uint32 \<Rightarrow> nat" where
  "rq_size (VirtualDataRcvQueue q) s = (case regionList q of [] \<Rightarrow> 0
     | i # is \<Rightarrow> 2 * length is + (if seqLE s (rbegin i) then 1 else 2))"
| "rq_size (MsgBasedRcvQueue q) s = length (rq_payloadList q)"

lemma VirtualRQ_extractTo_payload:
  "VirtualRQ_extractTo s q = Inr (q', n) \<Longrightarrow> rq_payloadList q' = rq_payloadList q"
  by (auto simp: VirtualRQ_extractTo_def checked_def split: if_splits list.splits)

lemma rq_extract_smaller:
  assumes "rq_extractBytesUpTo s q = Inr (q', Some m)"
  shows "rq_size q' s < rq_size q s"
proof (cases q)
  case (VirtualDataRcvQueue v)
  with assms show ?thesis
    by (auto simp: res_simps VirtualRQ_extractBytesUpTo_def VirtualRQ_extractTo_def
        split: if_splits list.splits)
next
  case (MsgBasedRcvQueue v)
  with assms obtain v' n v'' where
    e: "VirtualRQ_extractTo s v = Inr (v', n)" and q': "q' = MsgBasedRcvQueue v''"
    and r: "(case rq_payloadList v' of [] \<Rightarrow> Inr (v', None)
       | (k, m) # ps \<Rightarrow> if seqGreater k s then Inr (v', None)
                        else Inr (v'\<lparr>rq_payloadList := ps\<rparr>, Some m))
         = (Inr (v'', Some m) :: (TCPMsgBasedRcvQueue \<times> cPacket option) res)"
    by (auto simp: res_simps MsgRQ_extractBytesUpTo_def)
  from r have "length (rq_payloadList v'') < length (rq_payloadList v')"
    by (auto split: list.splits if_splits)
  with VirtualRQ_extractTo_payload [OF e] MsgBasedRcvQueue q' show ?thesis by simp
qed

function rq_extractAll :: "uint32 \<Rightarrow> TCPReceiveQueue \<Rightarrow> (TCPReceiveQueue \<times> cPacket list) res" where
  "rq_extractAll s q =
     (case rq_extractBytesUpTo s q of
        Inl e \<Rightarrow> Inl e
      | Inr (q', None) \<Rightarrow> Inr (q', [])
      | Inr (q', Some m) \<Rightarrow> andThen (rq_extractAll s q') (\<lambda>(q'', ms). Inr (q'', m # ms)))"
  by pat_completeness auto
termination
  by (relation "measure (\<lambda>(s, q). rq_size q s)") (auto intro: rq_extract_smaller)

declare rq_extractAll.simps [simp del]

end
