(* ===== verification/TCP_RcvSpec.thy ===== *)
theory TCP_RcvSpec imports TCP_RcvQueue
begin

text \<open>
  What the receive queue promises. The abstract state is a set of distances from a base
  sequence number \<open>k\<close>: the bytes that were received and not yet passed up. The region list
  refines it through a list of intervals of natural numbers: \<open>merge\<close> is union, the
  cumulative acknowledgement is the first missing byte, and extraction removes what lies
  below it. Everything holds as long as the numbers in play stay within half of the number
  space from the base.
\<close>

section \<open>Interval lists\<close>

type_synonym interval = "nat \<times> nat"

fun absorbN :: "interval \<Rightarrow> interval list \<Rightarrow> interval list" where
  "absorbN i [] = [i]"
| "absorbN i (j # js) =
     (if fst j \<le> snd i then absorbN (fst i, max (snd i) (snd j)) js else i # j # js)"

fun mergeN :: "nat \<Rightarrow> nat \<Rightarrow> interval list \<Rightarrow> interval list" where
  "mergeN b e [] = [(b, e)]"
| "mergeN b e (i # is) =
     (if snd i < b then i # mergeN b e is
      else if e < fst i then (b, e) # i # is
      else if snd i < e then absorbN (min b (fst i), e) is
      else (min b (fst i), snd i) # is)"

definition okN :: "interval list \<Rightarrow> bool" where
  "okN is \<longleftrightarrow> sorted_wrt (\<lambda>i j. snd i < fst j) is \<and> (\<forall>i \<in> set is. fst i < snd i)"

definition covN :: "interval list \<Rightarrow> nat set" where
  "covN is = (\<Union>i \<in> set is. {fst i..<snd i})"

lemma covN_simps [simp]:
  "covN [] = {}" "covN (i # is) = {fst i..<snd i} \<union> covN is"
  by (simp_all add: covN_def)

lemma okN_simps [simp]:
  "okN []"
  "okN (i # is) \<longleftrightarrow> fst i < snd i \<and> (\<forall>j \<in> set is. snd i < fst j) \<and> okN is"
  by (auto simp: okN_def)

lemma absorbN_lower:
  "j \<in> set (absorbN i is) \<Longrightarrow> fst i \<le> fst j \<or> j \<in> set is"
  by (induction i "is" rule: absorbN.induct) (auto split: if_splits)

lemma absorbN_correct:
  assumes "fst i < snd i" "okN is" "\<forall>j \<in> set is. fst i < fst j"
  shows "okN (absorbN i is) \<and> covN (absorbN i is) = {fst i..<snd i} \<union> covN is
         \<and> fst (hd (absorbN i is)) = fst i \<and> absorbN i is \<noteq> []"
  using assms
proof (induction i "is" rule: absorbN.induct)
  case (2 i j js)
  show ?case
  proof (cases "fst j \<le> snd i")
    case True
    have lt: "snd j < fst x" if "x \<in> set js" for x using "2.prems"(2) that by simp
    have "okN (absorbN (fst i, max (snd i) (snd j)) js) \<and>
      covN (absorbN (fst i, max (snd i) (snd j)) js) = {fst i..<max (snd i) (snd j)} \<union> covN js \<and>
      fst (hd (absorbN (fst i, max (snd i) (snd j)) js)) = fst i \<and>
      absorbN (fst i, max (snd i) (snd j)) js \<noteq> []"
      using "2.IH" [OF True] "2.prems" by auto
    moreover have "{fst i..<max (snd i) (snd j)} = {fst i..<snd i} \<union> {fst j..<snd j}"
      using True "2.prems" by auto
    ultimately show ?thesis using True by auto
  next
    case False
    then have "snd i < fst j" by simp
    moreover have "snd i < fst x" if "x \<in> set js" for x
      using that "2.prems"(2) \<open>snd i < fst j\<close> by fastforce
    ultimately show ?thesis using "2.prems" by auto
  qed
qed auto

lemma mergeN_correct:
  assumes "b < e" "okN is"
  shows "okN (mergeN b e is) \<and> covN (mergeN b e is) = {b..<e} \<union> covN is
         \<and> mergeN b e is \<noteq> []
         \<and> (\<forall>l. l < b \<and> (\<forall>j \<in> set is. l < fst j) \<longrightarrow> (\<forall>j \<in> set (mergeN b e is). l < fst j))"
  using assms
proof (induction b e "is" rule: mergeN.induct)
  case (2 b e i "is")
  consider "snd i < b" | "b \<le> snd i" "e < fst i" | "b \<le> snd i" "fst i \<le> e" "snd i < e"
    | "b \<le> snd i" "fst i \<le> e" "e \<le> snd i"
    by linarith
  then show ?case
  proof cases
    case 1
    then show ?thesis using 2 by auto
  next
    case 2
    then show ?thesis using "2.prems" by fastforce
  next
    case 3
    have "okN (absorbN (min b (fst i), e) is) \<and>
       covN (absorbN (min b (fst i), e) is) = {min b (fst i)..<e} \<union> covN is \<and>
       absorbN (min b (fst i), e) is \<noteq> []"
      using absorbN_correct [of "(min b (fst i), e)" "is"] "2.prems" 3 by fastforce
    moreover have "{min b (fst i)..<e} = {b..<e} \<union> {fst i..<snd i}"
      using 3 "2.prems" by auto
    moreover have "l < fst j" if "l < b" "l < fst i" "\<forall>j \<in> set is. l < fst j"
      "j \<in> set (absorbN (min b (fst i), e) is)" for l j
      using absorbN_lower [OF that(4)] that(1-3) by auto
    ultimately show ?thesis using 3 by auto
  next
    case 4
    moreover have "{min b (fst i)..<snd i} = {b..<e} \<union> {fst i..<snd i}"
      using 4 "2.prems" by auto
    ultimately show ?thesis using "2.prems" by auto
  qed
qed auto

section \<open>The region list refines the interval list\<close>

definition absR :: "uint32 \<Rightarrow> Region \<Rightarrow> interval" where
  "absR k r = (off k (rbegin r), off k (rend r))"

definition halfR :: "uint32 \<Rightarrow> Region list \<Rightarrow> bool" where
  "halfR k rl \<longleftrightarrow> (\<forall>r \<in> set rl. off k (rbegin r) < 2147483648 \<and> off k (rend r) < 2147483648)"

lemma halfR_simps [simp]:
  "halfR k []"
  "halfR k (r # rl) \<longleftrightarrow> off k (rbegin r) < 2147483648 \<and> off k (rend r) < 2147483648 \<and> halfR k rl"
  by (auto simp: halfR_def)

lemma absR_simps [simp]:
  "absR k \<lparr>rbegin = b, rend = e\<rparr> = (off k b, off k e)"
  "fst (absR k r) = off k (rbegin r)" "snd (absR k r) = off k (rend r)"
  by (simp_all add: absR_def)

lemma absorb_refines:
  "halfR k (i # js) \<Longrightarrow>
   map (absR k) (absorb i js) = absorbN (absR k i) (map (absR k) js) \<and> halfR k (absorb i js)"
  by (induction i js rule: absorb.induct) (auto simp: absR_def seq_half [of k] max_def)

lemma merge_refines:
  assumes "halfR k rl" "off k b < 2147483648" "off k e < 2147483648"
  shows "map (absR k) (merge b e rl) = mergeN (off k b) (off k e) (map (absR k) rl)
         \<and> halfR k (merge b e rl)"
  using assms
proof (induction b e rl rule: merge.induct)
  case (2 b e i "is")
  obtain ib ie where i: "i = \<lparr>rbegin = ib, rend = ie\<rparr>" by (cases i)
  have "map (absR k) (absorb \<lparr>rbegin = x, rend = e\<rparr> is) = absorbN (off k x, off k e) (map (absR k) is)
      \<and> halfR k (absorb \<lparr>rbegin = x, rend = e\<rparr> is)" if "off k x < 2147483648" for x
    using absorb_refines [of k "\<lparr>rbegin = x, rend = e\<rparr>" "is"] that "2.prems" by simp
  with 2 show ?case
    by (auto simp: seq_half [of k] min_def i)
qed simp

text \<open>The bytes a region list holds, and its well-formedness, as seen from \<open>k\<close>.\<close>

definition covR :: "uint32 \<Rightarrow> Region list \<Rightarrow> nat set" where
  "covR k rl = covN (map (absR k) rl)"

definition okR :: "uint32 \<Rightarrow> Region list \<Rightarrow> bool" where
  "okR k rl \<longleftrightarrow> halfR k rl \<and> okN (map (absR k) rl)"

lemma merge_correct:
  assumes "okR k rl" "off k b < off k e" "off k e < 2147483648"
  shows "okR k (merge b e rl)" "covR k (merge b e rl) = {off k b..<off k e} \<union> covR k rl"
    "merge b e rl \<noteq> []"
proof -
  have r: "map (absR k) (merge b e rl) = mergeN (off k b) (off k e) (map (absR k) rl)"
    "halfR k (merge b e rl)"
    using merge_refines [of k rl b e] assms by (auto simp: okR_def)
  have m: "okN (mergeN (off k b) (off k e) (map (absR k) rl))"
    "covN (mergeN (off k b) (off k e) (map (absR k) rl)) =
      {off k b..<off k e} \<union> covN (map (absR k) rl)"
    "mergeN (off k b) (off k e) (map (absR k) rl) \<noteq> []"
    using mergeN_correct [of "off k b" "off k e" "map (absR k) rl"] assms
    by (auto simp: okR_def)
  show "okR k (merge b e rl)" using r m by (simp add: okR_def)
  show "covR k (merge b e rl) = {off k b..<off k e} \<union> covR k rl" using r m by (simp add: covR_def)
  show "merge b e rl \<noteq> []" using r m by auto
qed

section \<open>The queue as a set of received bytes\<close>

text \<open>
  The invariant of a queue: well-formed regions, and \<^verbatim>\<open>rcv_nxt\<close> is not received;
  what is held below it is one region that ends exactly there.
\<close>

definition rqInv :: "uint32 \<Rightarrow> 'a TCPVirtualDataRcvQueue_scheme \<Rightarrow> bool" where
  "rqInv k q \<longleftrightarrow> okR k (regionList q) \<and> off k (rq_rcv_nxt q) < 2147483648 \<and>
     (\<forall>r \<in> set (regionList q).
        off k (rq_rcv_nxt q) < off k (rbegin r) \<or> off k (rend r) = off k (rq_rcv_nxt q))"

definition held :: "uint32 \<Rightarrow> 'a TCPVirtualDataRcvQueue_scheme \<Rightarrow> nat set" where
  "held k q = covR k (regionList q)"

lemma covR_iff: "x \<in> covR k rl \<longleftrightarrow> (\<exists>r \<in> set rl. off k (rbegin r) \<le> x \<and> x < off k (rend r))"
  by (auto simp: covR_def covN_def)

lemma okR_hd:
  assumes "okR k (r # rl)" "x \<in> covR k (r # rl)"
  shows "off k (rbegin r) \<le> x" "x \<noteq> off k (rend r)"
  using assms by (fastforce simp: okR_def covR_iff)+

lemma rqInv_nxt_not_held: "rqInv k q \<Longrightarrow> off k (rq_rcv_nxt q) \<notin> held k q"
  by (fastforce simp: rqInv_def held_def covR_iff)

lemma rqInv_held_below:
  assumes "rqInv k q" "x \<in> held k q" "x \<le> y" "y < off k (rq_rcv_nxt q)"
  shows "y \<in> held k q"
proof -
  from assms(2) obtain r where r: "r \<in> set (regionList q)" "off k (rbegin r) \<le> x" "x < off k (rend r)"
    by (auto simp: held_def covR_iff)
  with assms have "off k (rend r) = off k (rq_rcv_nxt q)" by (force simp: rqInv_def)
  with r assms(3,4) show ?thesis by (auto simp: held_def covR_iff intro!: bexI [of _ r])
qed

text \<open>
  The range a segment adds, and when it may be added: in the half space above \<open>k\<close>, with
  nothing below \<^verbatim>\<open>rcv_nxt\<close> that was already passed up.
\<close>

definition segRange :: "uint32 \<Rightarrow> TCPSegment \<Rightarrow> nat set" where
  "segRange k seg = {off k (sequenceNo seg)..<off k (sequenceNo seg + payloadLength seg)}"

definition fits :: "uint32 \<Rightarrow> TCPSegment \<Rightarrow> 'a TCPVirtualDataRcvQueue_scheme \<Rightarrow> bool" where
  "fits k seg q \<longleftrightarrow> off k (sequenceNo seg) < off k (sequenceNo seg + payloadLength seg) \<and>
     off k (sequenceNo seg + payloadLength seg) < 2147483648 \<and>
     (\<forall>x. off k (sequenceNo seg) \<le> x \<and> x < off k (rq_rcv_nxt q) \<longrightarrow> x \<in> held k q)"

lemma VirtualRQ_insert_correct:
  fixes q :: "'a TCPVirtualDataRcvQueue_scheme"
  assumes inv: "rqInv k q" and fits: "fits k seg q"
  defines "q' \<equiv> VirtualRQ_insertBytesFromSegment seg q"
  shows "rqInv k q'"
    and "held k q' = segRange k seg \<union> held k q"
    and "off k (rq_rcv_nxt q) \<le> off k (rq_rcv_nxt q')"
    and "{off k (rq_rcv_nxt q)..<off k (rq_rcv_nxt q')} \<subseteq> held k q'"
proof -
  let ?b = "sequenceNo seg" and ?e = "sequenceNo seg + payloadLength seg"
  let ?rl = "merge ?b ?e (regionList q)" and ?n = "off k (rq_rcv_nxt q)"
  have m: "okR k ?rl" "covR k ?rl = {off k ?b..<off k ?e} \<union> covR k (regionList q)" "?rl \<noteq> []"
    using merge_correct [of k "regionList q" ?b ?e] inv fits by (auto simp: rqInv_def fits_def)
  then obtain f fs where rl: "?rl = f # fs" by (cases ?rl) auto
  have f: "off k (rbegin f) < off k (rend f)" "off k (rbegin f) < 2147483648"
    "off k (rend f) < 2147483648" "\<forall>j \<in> set fs. off k (rend f) < off k (rbegin j)"
    using m(1) rl by (auto simp: okR_def)
  have half: "?n < 2147483648" using inv by (simp add: rqInv_def)
  have q': "regionList q' = f # fs"
    "rq_rcv_nxt q' = (if off k (rbegin f) \<le> ?n then rend f else rq_rcv_nxt q)"
    using half f(2) by (simp_all add: q'_def VirtualRQ_insertBytesFromSegment_def rl seq_half [of k])
  show heldq: "held k q' = segRange k seg \<union> held k q"
    using m(2) rl by (simp add: held_def segRange_def q')
  have above: "?n \<le> off k (rend f)" if le: "off k (rbegin f) \<le> ?n"
  proof (rule ccontr)
    assume "\<not> ?n \<le> off k (rend f)"
    then have lt: "off k (rend f) < ?n" by simp
    let ?x = "off k (rend f) - 1"
    have "?x \<in> covR k ?rl" using f(1) by (auto simp: covR_iff rl)
    then have "off k (rend f) \<in> held k q"
    proof (cases "?x \<in> held k q")
      case True
      then show ?thesis using rqInv_held_below [OF inv True _ lt] by simp
    next
      case False
      then have "off k ?b \<le> ?x" using \<open>?x \<in> covR k ?rl\<close> m(2) by (auto simp: held_def)
      then show ?thesis using fits lt by (auto simp: fits_def)
    qed
    then have "off k (rend f) \<in> covR k ?rl" using m(2) by (simp add: held_def)
    then show False using okR_hd(2) [of k f fs "off k (rend f)"] m(1) by (simp add: rl)
  qed
  have other: "off k (rbegin f) < off k (rbegin j)" if "j \<in> set fs" for j
    using f(1,4) that by fastforce
  show "rqInv k q'"
    using m(1) f half other by (auto simp: rqInv_def q' rl dest: above)
  show "?n \<le> off k (rq_rcv_nxt q')" using above by (simp add: q')
  show "{?n..<off k (rq_rcv_nxt q')} \<subseteq> held k q'"
    by (auto simp: held_def covR_iff q')
qed

lemma VirtualRQ_insert_nxt:
  assumes "rqInv k q" "fits k seg q"
  shows "{off k (rq_rcv_nxt q)..<off k (rq_rcv_nxt (VirtualRQ_insertBytesFromSegment seg q))}
    \<subseteq> segRange k seg \<union> held k q"
  using VirtualRQ_insert_correct(2,4) [OF assms] by simp

section \<open>The contract of a receive queue\<close>

locale receive_queue =
  fixes inv :: "uint32 \<Rightarrow> 'q \<Rightarrow> bool"
    and nxt :: "'q \<Rightarrow> uint32"
    and bytes :: "uint32 \<Rightarrow> 'q \<Rightarrow> nat set"
    and admits :: "uint32 \<Rightarrow> TCPSegment \<Rightarrow> 'q \<Rightarrow> bool"
    and insert :: "TCPSegment \<Rightarrow> 'q \<Rightarrow> 'q"
  assumes nxt_missing: "inv k q \<Longrightarrow> off k (nxt q) \<notin> bytes k q"
    and insert_inv: "inv k q \<Longrightarrow> admits k seg q \<Longrightarrow> inv k (insert seg q)"
    and insert_bytes: "inv k q \<Longrightarrow> admits k seg q \<Longrightarrow>
      bytes k (insert seg q) = segRange k seg \<union> bytes k q"
    and insert_nxt: "inv k q \<Longrightarrow> admits k seg q \<Longrightarrow> off k (nxt q) \<le> off k (nxt (insert seg q)) \<and>
      {off k (nxt q)..<off k (nxt (insert seg q))} \<subseteq> bytes k (insert seg q)"
begin

text \<open>The acknowledgement is cumulative: it is the first byte from the old one on that is missing.\<close>

lemma insert_ack_first_missing:
  assumes "inv k q" "admits k seg q"
  shows "off k (nxt (insert seg q)) =
    (LEAST n. off k (nxt q) \<le> n \<and> n \<notin> segRange k seg \<union> bytes k q)"
proof (rule sym, rule Least_equality)
  show "off k (nxt q) \<le> off k (nxt (insert seg q)) \<and>
      off k (nxt (insert seg q)) \<notin> segRange k seg \<union> bytes k q"
    using insert_nxt [OF assms] nxt_missing [OF insert_inv [OF assms]] insert_bytes [OF assms]
    by simp
  show "off k (nxt (insert seg q)) \<le> n" if "off k (nxt q) \<le> n \<and> n \<notin> segRange k seg \<union> bytes k q" for n
    using that insert_nxt [OF assms] insert_bytes [OF assms] by force
qed

lemma insert_twice:
  assumes i: "inv k q" and s: "admits k s q" and t: "admits k t (insert s q)"
  defines "x \<equiv> insert t (insert s q)"
  shows "inv k x" "bytes k x = segRange k t \<union> segRange k s \<union> bytes k q"
    "off k (nxt q) \<le> off k (nxt x)" "{off k (nxt q)..<off k (nxt x)} \<subseteq> bytes k x"
proof -
  note i1 = insert_inv [OF i s]
  show "inv k x" using insert_inv [OF i1 t] by (simp add: x_def)
  show b: "bytes k x = segRange k t \<union> segRange k s \<union> bytes k q"
    using insert_bytes [OF i1 t] insert_bytes [OF i s] by (simp add: x_def Un_assoc)
  note n = insert_nxt [OF i s] insert_nxt [OF i1 t]
  from n show "off k (nxt q) \<le> off k (nxt x)" by (simp add: x_def)
  have "{off k (nxt q)..<off k (nxt x)} \<subseteq>
      {off k (nxt q)..<off k (nxt (insert s q))} \<union> {off k (nxt (insert s q))..<off k (nxt x)}"
    by auto
  also have "\<dots> \<subseteq> bytes k x"
    using n b insert_bytes [OF i s] by (auto simp: x_def)
  finally show "{off k (nxt q)..<off k (nxt x)} \<subseteq> bytes k x" .
qed

lemma same_bytes_same_nxt:
  assumes "inv k x" "inv k y" "bytes k x = bytes k y" "n \<le> off k (nxt x)" "n \<le> off k (nxt y)"
    and "{n..<off k (nxt x)} \<subseteq> bytes k x" "{n..<off k (nxt y)} \<subseteq> bytes k y"
  shows "nxt x = nxt y"
proof -
  have "off k (nxt x) \<notin> bytes k y" "off k (nxt y) \<notin> bytes k x"
    using nxt_missing assms(1-3) by metis+
  with assms(4-7) have "\<not> off k (nxt x) < off k (nxt y)" "\<not> off k (nxt y) < off k (nxt x)"
    by (meson atLeastLessThan_iff subsetD)+
  then show ?thesis by (metis linorder_neqE_nat off_inj)
qed

text \<open>Two segments may arrive in either order.\<close>

lemma insert_order_irrelevant:
  assumes i: "inv k q" and a: "admits k s q" "admits k t q"
    and b: "admits k t (insert s q)" "admits k s (insert t q)"
  shows "bytes k (insert t (insert s q)) = bytes k (insert s (insert t q))"
    and "nxt (insert t (insert s q)) = nxt (insert s (insert t q))"
proof -
  note x = insert_twice [OF i a(1) b(1)] and y = insert_twice [OF i a(2) b(2)]
  show eq: "bytes k (insert t (insert s q)) = bytes k (insert s (insert t q))"
    using x(2) y(2) by (simp add: Un_commute)
  show "nxt (insert t (insert s q)) = nxt (insert s (insert t q))"
    by (rule same_bytes_same_nxt [OF x(1) y(1) eq x(3) y(3) x(4) y(4)])
qed

text \<open>A segment whose bytes are all there already changes nothing.\<close>

lemma insert_duplicate:
  assumes "inv k q" "admits k s q" "segRange k s \<subseteq> bytes k q"
  shows "bytes k (insert s q) = bytes k q" "nxt (insert s q) = nxt q"
proof -
  show eq: "bytes k (insert s q) = bytes k q" using insert_bytes [OF assms(1,2)] assms(3) by auto
  have "off k (nxt (insert s q)) = off k (nxt q)"
    using insert_nxt [OF assms(1,2)] nxt_missing [OF assms(1)] eq by force
  then show "nxt (insert s q) = nxt q" by simp
qed

end

definition rq_inv :: "uint32 \<Rightarrow> TCPReceiveQueue \<Rightarrow> bool" where
  "rq_inv k q = (case q of VirtualDataRcvQueue v \<Rightarrow> rqInv k v | MsgBasedRcvQueue v \<Rightarrow> rqInv k v)"

definition rq_held :: "uint32 \<Rightarrow> TCPReceiveQueue \<Rightarrow> nat set" where
  "rq_held k q = (case q of VirtualDataRcvQueue v \<Rightarrow> held k v | MsgBasedRcvQueue v \<Rightarrow> held k v)"

definition rq_fits :: "uint32 \<Rightarrow> TCPSegment \<Rightarrow> TCPReceiveQueue \<Rightarrow> bool" where
  "rq_fits k seg q =
     (case q of VirtualDataRcvQueue v \<Rightarrow> fits k seg v | MsgBasedRcvQueue v \<Rightarrow> fits k seg v)"

lemma rqInv_payload [simp]: "rqInv k (q\<lparr>rq_payloadList := ps\<rparr>) = rqInv k q"
  by (simp add: rqInv_def)

lemma held_payload [simp]: "held k (q\<lparr>rq_payloadList := ps\<rparr>) = held k q"
  by (simp add: held_def)

interpretation virtual_rq: receive_queue rqInv rq_rcv_nxt held fits
  "VirtualRQ_insertBytesFromSegment :: TCPSegment \<Rightarrow> TCPVirtualDataRcvQueue \<Rightarrow> TCPVirtualDataRcvQueue"
  by unfold_locales
    (simp_all add: rqInv_nxt_not_held VirtualRQ_insert_correct VirtualRQ_insert_nxt)

interpretation msg_rq: receive_queue rqInv rq_rcv_nxt held fits MsgRQ_insertBytesFromSegment
  by unfold_locales
    (simp_all add: rqInv_nxt_not_held VirtualRQ_insert_correct VirtualRQ_insert_nxt
      MsgRQ_insertBytesFromSegment_def Let_def)

interpretation rq: receive_queue rq_inv rq_nxt rq_held rq_fits rq_insertBytesFromSegment
proof (unfold_locales, goal_cases)
  case (1 k q)
  then show ?case by (cases q) (simp_all add: rq_inv_def rq_held_def rqInv_nxt_not_held)
next
  case (2 k q seg)
  then show ?case
    by (cases q) (simp_all add: rq_inv_def rq_fits_def virtual_rq.insert_inv msg_rq.insert_inv)
next
  case (3 k q seg)
  then show ?case
    by (cases q) (simp_all add: rq_inv_def rq_fits_def rq_held_def
        virtual_rq.insert_bytes msg_rq.insert_bytes)
next
  case (4 k q seg)
  then show ?case
    using virtual_rq.insert_nxt msg_rq.insert_nxt
    by (cases q) (simp_all add: rq_inv_def rq_fits_def rq_held_def)
qed

section \<open>Extraction\<close>

text \<open>
  The connection extracts up to \<^verbatim>\<open>rcv_nxt\<close>. The code checks that the first region is
  not empty by comparing its ends as plain numbers, so a region across the end of the number
  space fails the check; elsewhere extraction passes up exactly the bytes held below
  \<^verbatim>\<open>rcv_nxt\<close>.
\<close>

definition noWrap :: "'a TCPVirtualDataRcvQueue_scheme \<Rightarrow> bool" where
  "noWrap q \<longleftrightarrow> (\<forall>r \<in> set (regionList q). rbegin r < rend r)"

definition delivered :: "'a TCPVirtualDataRcvQueue_scheme \<Rightarrow> bool" where
  "delivered q \<longleftrightarrow> (\<forall>r \<in> set (regionList q). seqLess (rq_rcv_nxt q) (rbegin r))"

lemma extractTo_none:
  assumes "rqInv k q" "delivered q" "noWrap q"
  shows "VirtualRQ_extractTo (rq_rcv_nxt q) q = Inr (q, 0)"
  using assms
  by (cases "regionList q")
     (auto simp: VirtualRQ_extractTo_def delivered_def noWrap_def checked_def seqLE_cases)

lemma extractTo_front:
  assumes inv: "rqInv k q" and w: "noWrap q" and nd: "\<not> delivered q"
  obtains i ii where "regionList q = i # ii" "rend i = rq_rcv_nxt q"
    "VirtualRQ_extractTo (rq_rcv_nxt q) q = Inr (q\<lparr>regionList := ii\<rparr>, unat (rend i - rbegin i))"
    "off k (rbegin i) < off k (rend i)" "\<forall>r \<in> set ii. off k (rq_rcv_nxt q) < off k (rbegin r)"
proof -
  from nd obtain i ii where rl: "regionList q = i # ii"
    by (cases "regionList q") (auto simp: delivered_def)
  have ok: "off k (rbegin i) < off k (rend i)" "off k (rend i) < 2147483648"
    "\<forall>r \<in> set ii. off k (rend i) < off k (rbegin r)" "halfR k (i # ii)"
    and half: "off k (rq_rcv_nxt q) < 2147483648"
    using inv by (auto simp: rqInv_def okR_def rl)
  have "\<exists>r \<in> set (i # ii). \<not> off k (rq_rcv_nxt q) < off k (rbegin r)"
    using nd half ok(4) by (auto simp: delivered_def rl seq_half [of k] halfR_def)
  with ok(1,3) have "\<not> off k (rq_rcv_nxt q) < off k (rbegin i)" by fastforce
  with inv have e: "rend i = rq_rcv_nxt q" by (auto simp: rqInv_def rl)
  have "\<not> seqLE (rq_rcv_nxt q) (rbegin i)"
    using ok half e by (auto simp: seq_half [of k])
  then have "VirtualRQ_extractTo (rq_rcv_nxt q) q = Inr (q\<lparr>regionList := ii\<rparr>, unat (rend i - rbegin i))"
    using w e by (simp add: VirtualRQ_extractTo_def rl noWrap_def)
  with rl e ok that show thesis by simp
qed

lemma VirtualRQ_extractTo_correct:
  assumes inv: "rqInv k q" and w: "noWrap q"
  obtains q' n where "VirtualRQ_extractTo (rq_rcv_nxt q) q = Inr (q', n)"
    "n = card {x \<in> held k q. x < off k (rq_rcv_nxt q)}"
    "held k q' = {x \<in> held k q. off k (rq_rcv_nxt q) \<le> x}"
    "rqInv k q'" "rq_rcv_nxt q' = rq_rcv_nxt q" "delivered q'" "noWrap q'"
proof (cases "delivered q")
  case True
  have "\<forall>r \<in> set (regionList q). off k (rq_rcv_nxt q) < off k (rbegin r)"
    using True inv by (auto simp: delivered_def rqInv_def okR_def halfR_def seq_half [of k])
  then have above: "off k (rq_rcv_nxt q) \<le> x" if "x \<in> held k q" for x
    using that by (fastforce simp: held_def covR_iff)
  have none: "{x \<in> held k q. x < off k (rq_rcv_nxt q)} = {}"
    "{x \<in> held k q. off k (rq_rcv_nxt q) \<le> x} = held k q"
    by (auto dest: above)
  show thesis
    by (rule that [OF extractTo_none [OF inv True w]]) (simp_all add: none inv w True)
next
  case False
  from extractTo_front [OF inv w False] obtain i ii where
    rl: "regionList q = i # ii" and e: "rend i = rq_rcv_nxt q"
    and x: "VirtualRQ_extractTo (rq_rcv_nxt q) q = Inr (q\<lparr>regionList := ii\<rparr>, unat (rend i - rbegin i))"
    and lt: "off k (rbegin i) < off k (rend i)"
    and above: "\<forall>r \<in> set ii. off k (rq_rcv_nxt q) < off k (rbegin r)" .
  let ?n = "off k (rq_rcv_nxt q)" and ?q' = "q\<lparr>regionList := ii\<rparr>"
  have h: "held k q = {off k (rbegin i)..<?n} \<union> held k ?q'"
    by (auto simp: held_def covR_def rl e)
  have up: "?n < x" if "x \<in> held k ?q'" for x
    using that above by (fastforce simp: held_def covR_iff)
  have "{x \<in> held k q. x < ?n} = {off k (rbegin i)..<?n}"
    "{x \<in> held k q. ?n \<le> x} = held k ?q'"
    using h up by fastforce+
  moreover have "unat (rend i - rbegin i) = ?n - off k (rbegin i)"
    using off_rebase [of k "rbegin i" "rend i"] lt by (simp add: off_def [of "rbegin i"] e)
  moreover have "rqInv k ?q'" "delivered ?q'" "noWrap ?q'"
    using inv above w
    by (auto simp: rqInv_def okR_def rl delivered_def noWrap_def halfR_def seq_half [of k])
  ultimately show thesis using that [OF x] by simp
qed

text \<open>Once everything below \<^verbatim>\<open>rcv_nxt\<close> was passed up, the base can move there.\<close>

lemma rqInv_rebase:
  assumes inv: "rqInv k q" and d: "delivered q"
  shows "rqInv (rq_rcv_nxt q) q"
proof -
  let ?n = "rq_rcv_nxt q"
  have above: "off k ?n < off k (rbegin r)" "off k (rbegin r) < off k (rend r)"
    "off k (rend r) < 2147483648" if "r \<in> set (regionList q)" for r
    using inv d that
    by (auto simp: rqInv_def okR_def okN_def halfR_def delivered_def seq_half [of k])
  have re: "off ?n (rbegin r) = off k (rbegin r) - off k ?n"
    "off ?n (rend r) = off k (rend r) - off k ?n" if "r \<in> set (regionList q)" for r
    using above [OF that] by (auto intro!: off_rebase)
  have "sorted_wrt (\<lambda>r r'. off k (rend r) < off k (rbegin r')) (regionList q)"
    using inv by (simp add: rqInv_def okR_def okN_def sorted_wrt_map)
  then have "sorted_wrt (\<lambda>r r'. off ?n (rend r) < off ?n (rbegin r')) (regionList q)"
    by (rule sorted_wrt_mono_rel [rotated]) (use re above in \<open>fastforce simp: diff_less_mono\<close>)
  moreover have "off ?n (rbegin r) < off ?n (rend r)" "off ?n (rend r) < 2147483648"
    "0 < off ?n (rbegin r)" if "r \<in> set (regionList q)" for r
    using re [OF that] above [OF that] by auto
  ultimately show ?thesis
    by (fastforce simp: rqInv_def okR_def okN_def halfR_def sorted_wrt_map)
qed

section \<open>Delivery to the application\<close>

definition pktBytes :: "cPacket list \<Rightarrow> nat" where
  "pktBytes ms = sum_list (map (\<lambda>m. unat (byteLength m)) ms)"

lemma virtual_extractAll:
  assumes inv: "rqInv k q" and w: "noWrap q"
  obtains q' ms where
    "rq_extractAll (rq_rcv_nxt q) (VirtualDataRcvQueue q) = Inr (VirtualDataRcvQueue q', ms)"
    "pktBytes ms = card {x \<in> held k q. x < off k (rq_rcv_nxt q)}"
    "held k q' = {x \<in> held k q. off k (rq_rcv_nxt q) \<le> x}"
    "rqInv k q'" "rq_rcv_nxt q' = rq_rcv_nxt q" "delivered q'" "noWrap q'"
proof -
  from VirtualRQ_extractTo_correct [OF inv w] obtain q' n where
    x: "VirtualRQ_extractTo (rq_rcv_nxt q) q = Inr (q', n)"
    and n: "n = card {x \<in> held k q. x < off k (rq_rcv_nxt q)}"
    and h: "held k q' = {x \<in> held k q. off k (rq_rcv_nxt q) \<le> x}"
    and q': "rqInv k q'" "rq_rcv_nxt q' = rq_rcv_nxt q" "delivered q'" "noWrap q'" .
  have stop: "VirtualRQ_extractTo (rq_rcv_nxt q) q' = Inr (q', 0)"
    using extractTo_none [OF q'(1,3,4)] q'(2) by simp
  have "finite {x. x < off k (rq_rcv_nxt q)}" by simp
  then have "n \<le> card {x. x < off k (rq_rcv_nxt q)}"
    unfolding n by (intro card_mono) auto
  then have "n \<le> off k (rq_rcv_nxt q)" by (simp add: card_Collect_less_nat)
  then have "n < 4294967296" by (rule le_less_trans) simp
  then have small: "n < 2 ^ 64" by simp
  let ?ms = "if n = 0 then [] else [\<lparr>pktName = ''data'', byteLength = of_nat n\<rparr>]"
  have fin: "rq_extractAll (rq_rcv_nxt q) (VirtualDataRcvQueue q') = Inr (VirtualDataRcvQueue q', [])"
    by (subst rq_extractAll.simps) (simp add: VirtualRQ_extractBytesUpTo_def stop)
  have "rq_extractAll (rq_rcv_nxt q) (VirtualDataRcvQueue q) = Inr (VirtualDataRcvQueue q', ?ms)"
    by (subst rq_extractAll.simps) (simp add: VirtualRQ_extractBytesUpTo_def x fin)
  moreover have "pktBytes ?ms = n"
    using small by (simp add: pktBytes_def unat_of_nat)
  ultimately show thesis using that n h q' by metis
qed

text \<open>
  The message based queue passes up, in the order of their keys, the leading messages that do
  not end after \<^verbatim>\<open>rcv_nxt\<close>.
\<close>

lemma msg_extractAll_done:
  assumes "rqInv k q" "delivered q" "noWrap q"
  shows "rq_extractAll (rq_rcv_nxt q) (MsgBasedRcvQueue q) =
    Inr (MsgBasedRcvQueue (q\<lparr>rq_payloadList :=
           dropWhile (\<lambda>p. \<not> seqGreater (fst p) (rq_rcv_nxt q)) (rq_payloadList q)\<rparr>),
         map snd (takeWhile (\<lambda>p. \<not> seqGreater (fst p) (rq_rcv_nxt q)) (rq_payloadList q)))"
  using assms
proof (induction "rq_payloadList q" arbitrary: q)
  case Nil
  from extractTo_none [OF Nil.prems] Nil.hyps show ?case
    by (subst rq_extractAll.simps) (simp add: MsgRQ_extractBytesUpTo_def flip: Nil.hyps)
next
  case (Cons p ps)
  let ?q = "q\<lparr>rq_payloadList := ps\<rparr>"
  have q: "rqInv k ?q" "delivered ?q" "noWrap ?q"
    using Cons.prems by (simp_all add: delivered_def noWrap_def)
  from Cons.hyps(1) [of ?q, OF _ q] extractTo_none [OF Cons.prems] show ?case
    by (cases p, subst rq_extractAll.simps)
       (simp add: MsgRQ_extractBytesUpTo_def flip: Cons.hyps(2))
qed

lemma msg_extractAll:
  assumes inv: "rqInv k q" and w: "noWrap q"
  obtains q' where
    "rq_extractAll (rq_rcv_nxt q) (MsgBasedRcvQueue q) = Inr (MsgBasedRcvQueue q',
       map snd (takeWhile (\<lambda>p. \<not> seqGreater (fst p) (rq_rcv_nxt q)) (rq_payloadList q)))"
    "rq_payloadList q' = dropWhile (\<lambda>p. \<not> seqGreater (fst p) (rq_rcv_nxt q)) (rq_payloadList q)"
    "rqInv k q'" "rq_rcv_nxt q' = rq_rcv_nxt q" "noWrap q'"
    "held k q' = {x \<in> held k q. off k (rq_rcv_nxt q) \<le> x}"
proof -
  from VirtualRQ_extractTo_correct [OF inv w] obtain q1 n where
    x: "VirtualRQ_extractTo (rq_rcv_nxt q) q = Inr (q1, n)"
    and h: "held k q1 = {x \<in> held k q. off k (rq_rcv_nxt q) \<le> x}"
    and q1: "rqInv k q1" "rq_rcv_nxt q1 = rq_rcv_nxt q" "delivered q1" "noWrap q1" .
  have pl: "rq_payloadList q1 = rq_payloadList q"
    using VirtualRQ_extractTo_payload [OF x] .
  let ?P = "\<lambda>p. \<not> seqGreater (fst p) (rq_rcv_nxt q)"
  let ?q' = "q1\<lparr>rq_payloadList := dropWhile ?P (rq_payloadList q)\<rparr>"
  have "rq_extractAll (rq_rcv_nxt q) (MsgBasedRcvQueue q) =
      Inr (MsgBasedRcvQueue ?q', map snd (takeWhile ?P (rq_payloadList q)))"
  proof (cases "rq_payloadList q")
    case Nil
    with pl x show ?thesis
      by (subst rq_extractAll.simps) (cases q1, simp add: MsgRQ_extractBytesUpTo_def)
  next
    case (Cons p ps)
    show ?thesis
    proof (cases "?P p")
      case False
      with Cons pl x show ?thesis
        by (cases p, subst rq_extractAll.simps) (cases q1, simp add: MsgRQ_extractBytesUpTo_def)
    next
      case True
      let ?q2 = "q1\<lparr>rq_payloadList := ps\<rparr>"
      have "rqInv k ?q2" "delivered ?q2" "noWrap ?q2"
        using q1 by (simp_all add: delivered_def noWrap_def)
      from msg_extractAll_done [OF this] True Cons pl x q1(2) show ?thesis
        by (cases p, subst rq_extractAll.simps) (simp add: MsgRQ_extractBytesUpTo_def)
    qed
  qed
  moreover have "noWrap ?q'" using q1(4) by (simp add: noWrap_def)
  ultimately show thesis using that [of ?q'] q1 h by simp
qed

end
