(* ===== verification/TCP_State.thy ===== *)
theory TCP_State imports TCP_SendQueue TCP_RcvSpec
begin

text \<open>
  The state of a TCP connection: the enumerations and the state block of
  \<^verbatim>\<open>TCPConnection.h\<close> with the variables the algorithm classes add to it, the timers, and
  the messages a connection sends. Time is a rational number of seconds.
\<close>

section \<open>Enumerations and constants\<close>

datatype TcpState =
    TCP_S_INIT | TCP_S_CLOSED | TCP_S_LISTEN | TCP_S_SYN_SENT | TCP_S_SYN_RCVD
  | TCP_S_ESTABLISHED | TCP_S_CLOSE_WAIT | TCP_S_LAST_ACK | TCP_S_FIN_WAIT_1
  | TCP_S_FIN_WAIT_2 | TCP_S_CLOSING | TCP_S_TIME_WAIT

datatype TCPEventCode =
    TCP_E_IGNORE
  | TCP_E_OPEN_ACTIVE | TCP_E_OPEN_PASSIVE | TCP_E_SEND | TCP_E_CLOSE | TCP_E_ABORT | TCP_E_STATUS
  | TCP_E_RCV_DATA | TCP_E_RCV_ACK | TCP_E_RCV_SYN | TCP_E_RCV_SYN_ACK | TCP_E_RCV_FIN
  | TCP_E_RCV_FIN_ACK | TCP_E_RCV_RST | TCP_E_RCV_UNEXP_SYN
  | TCP_E_TIMEOUT_2MSL | TCP_E_TIMEOUT_CONN_ESTAB | TCP_E_TIMEOUT_FIN_WAIT_2

datatype TcpStatusInd =
    TCP_I_DATA | TCP_I_URGENT_DATA | TCP_I_ESTABLISHED | TCP_I_PEER_CLOSED | TCP_I_CLOSED
  | TCP_I_CONNECTION_REFUSED | TCP_I_CONNECTION_RESET | TCP_I_TIMED_OUT | TCP_I_STATUS

definition TCP_TIMEOUT_CONN_ESTAB :: simtime where [simp]: "TCP_TIMEOUT_CONN_ESTAB = 75"
definition TCP_TIMEOUT_FIN_WAIT_2 :: simtime where [simp]: "TCP_TIMEOUT_FIN_WAIT_2 = 600"
definition TCP_TIMEOUT_2MSL :: simtime where [simp]: "TCP_TIMEOUT_2MSL = 240"
definition TCP_TIMEOUT_SYN_REXMIT :: simtime where [simp]: "TCP_TIMEOUT_SYN_REXMIT = 3"
definition TCP_TIMEOUT_SYN_REXMIT_MAX :: simtime where [simp]: "TCP_TIMEOUT_SYN_REXMIT_MAX = 240"
definition MAX_SYN_REXMIT_COUNT :: int where [simp]: "MAX_SYN_REXMIT_COUNT = 12"

section \<open>Timers\<close>

text \<open>
  A self-message: no object (a null pointer), an object that is not scheduled, or one that is
  scheduled for a time. The simulation kernel refuses to schedule a message twice and to
  schedule or cancel a null pointer.
\<close>

datatype timer = TimerNull | TimerIdle | TimerAt simtime

fun scheduleAt :: "simtime \<Rightarrow> timer \<Rightarrow> timer res" where
  "scheduleAt t TimerNull = Inl (KernelError ''scheduleAt(): message pointer is NULL'')"
| "scheduleAt t (TimerAt u) = Inl (KernelError ''scheduleAt(): message is already scheduled'')"
| "scheduleAt t TimerIdle = Inr (TimerAt t)"

fun cancelTimer :: "timer \<Rightarrow> timer res" where
  "cancelTimer TimerNull = Inl (KernelError ''cancelEvent(): message pointer is NULL'')"
| "cancelTimer TimerIdle = Inr TimerIdle"
| "cancelTimer (TimerAt u) = Inr TimerIdle"

fun isScheduled :: "timer \<Rightarrow> bool res" where
  "isScheduled TimerNull = Inl (NullPointer ''isScheduled()'')"
| "isScheduled TimerIdle = Inr False"
| "isScheduled (TimerAt u) = Inr True"

text \<open>\<^verbatim>\<open>if (timer) cancelEvent(timer)\<close>\<close>

fun cancelIfAny :: "timer \<Rightarrow> timer" where
  "cancelIfAny TimerNull = TimerNull"
| "cancelIfAny TimerIdle = TimerIdle"
| "cancelIfAny (TimerAt u) = TimerIdle"

lemma cancelTimer_Inr: "cancelTimer t = Inr t' \<longleftrightarrow> t \<noteq> TimerNull \<and> t' = TimerIdle"
  by (cases t) auto

lemma scheduleAt_Inr: "scheduleAt u t = Inr t' \<longleftrightarrow> t = TimerIdle \<and> t' = TimerAt u"
  by (cases t) auto

lemma isScheduled_Inr: "isScheduled t = Inr b \<longleftrightarrow> t \<noteq> TimerNull \<and> b = (t \<noteq> TimerIdle)"
  by (cases t) auto

lemma cancelIfAny_eq: "cancelIfAny t = (if t = TimerNull then TimerNull else TimerIdle)"
  by (cases t) auto

lemmas timer_iffs = cancelTimer_Inr scheduleAt_Inr isScheduled_Inr

section \<open>What a connection sends\<close>

record TCPStatusInfo =
  si_connId :: int
  si_state :: TcpState
  si_localAddr :: IPvXAddress
  si_remoteAddr :: IPvXAddress
  si_localPort :: int
  si_remotePort :: int
  si_snd_mss :: uint32
  si_snd_una :: uint32
  si_snd_nxt :: uint32
  si_snd_max :: uint32
  si_snd_wnd :: uint32
  si_snd_up :: uint32
  si_snd_wl1 :: uint32
  si_snd_wl2 :: uint32
  si_iss :: uint32
  si_rcv_nxt :: uint32
  si_rcv_wnd :: uint32
  si_rcv_up :: uint32
  si_irs :: uint32
  si_fin_ack_rcvd :: bool

text \<open>
  What the application receives. A status reply carries the message kind it leaves with; the
  kinds of the others are those of \<^verbatim>\<open>TcpStatusInd\<close>.
\<close>

datatype TCPIndication =
    Indication TcpStatusInd int
  | EstabIndication int IPvXAddress IPvXAddress int int
  | DataIndication int cPacket
  | StatusIndication int TCPStatusInfo

fun statusIndKind :: "TcpStatusInd \<Rightarrow> int" where
  "statusIndKind TCP_I_DATA = 1"
| "statusIndKind TCP_I_URGENT_DATA = 2"
| "statusIndKind TCP_I_ESTABLISHED = 3"
| "statusIndKind TCP_I_PEER_CLOSED = 4"
| "statusIndKind TCP_I_CLOSED = 5"
| "statusIndKind TCP_I_CONNECTION_REFUSED = 6"
| "statusIndKind TCP_I_CONNECTION_RESET = 7"
| "statusIndKind TCP_I_TIMED_OUT = 8"
| "statusIndKind TCP_I_STATUS = 9"

fun indicationKind :: "TCPIndication \<Rightarrow> int" where
  "indicationKind (Indication code cid) = statusIndKind code"
| "indicationKind (EstabIndication cid la ra lp rp) = statusIndKind TCP_I_ESTABLISHED"
| "indicationKind (DataIndication cid pk) = statusIndKind TCP_I_DATA"
| "indicationKind (StatusIndication kind info) = kind"

datatype TCPOutput =
    ToIP TCPSegment IPvXAddress IPvXAddress
  | ToApp int TCPIndication

section \<open>The state block\<close>

record TCPStateVariables =
  active :: bool
  fork :: bool
  snd_mss :: uint32
  snd_una :: uint32
  snd_nxt :: uint32
  snd_max :: uint32
  snd_wnd :: uint32
  snd_up :: uint32
  snd_wl1 :: uint32
  snd_wl2 :: uint32
  iss :: uint32
  rcv_nxt :: uint32
  rcv_wnd :: uint32
  rcv_up :: uint32
  irs :: uint32
  dupacks :: int
  syn_rexmit_count :: int
  syn_rexmit_timeout :: simtime
  fin_ack_rcvd :: bool
  send_fin :: bool
  snd_fin_seq :: uint32
  fin_rcvd :: bool
  rcv_fin_seq :: uint32

record TCPBaseAlgStateVariables = TCPStateVariables +
  delayed_acks_enabled :: bool
  nagle_enabled :: bool
  rexmit_count :: int
  rexmit_timeout :: simtime
  snd_cwnd :: uint32
  rtseq :: uint32
  rtseq_sendtime :: simtime
  srtt :: simtime
  rttvar :: simtime

record TCPTahoeRenoFamilyStateVariables = TCPBaseAlgStateVariables +
  ssthresh :: uint32

section \<open>The connection\<close>

text \<open>
  A connection owns one state block, one send queue, one receive queue and one algorithm
  object. The block is the base part of the record (with the variables of every algorithm
  class, of which \<^verbatim>\<open>DumbTCP\<close> and \<^verbatim>\<open>TCPNoCongestionControl\<close> use fewer), the
  algorithm object is its class and its four timers. In state INIT the pointers of the code
  are still null, and the operations of the code that would follow them are outcomes
  \<^const>\<open>NullPointer\<close>. \<open>outs\<close> collects what was sent, oldest first.
\<close>

datatype TCPAlgorithm = DumbTCP | TCPNoCongestionControl | TCPTahoe | TCPReno

record TCPConnection = TCPTahoeRenoFamilyStateVariables +
  appGateIndex :: int
  connId :: int
  localAddr :: IPvXAddress
  remoteAddr :: IPvXAddress
  localPort :: int
  remotePort :: int
  fsm :: TcpState
  sendQueue :: TCPSendQueue
  receiveQueue :: TCPReceiveQueue
  tcpAlgorithm :: TCPAlgorithm
  the2MSLTimer :: timer
  connEstabTimer :: timer
  finWait2Timer :: timer
  synRexmitTimer :: timer
  rexmitTimer :: timer
  persistTimer :: timer
  delayedAckTimer :: timer
  keepAliveTimer :: timer
  outs :: "TCPOutput list"

text \<open>
  What the module gives to its connections: the time, the module parameters, and the rounding
  of the kernel's time type when it is multiplied by a floating point number.
\<close>

record TCPEnv =
  simTime :: simtime
  par_mss :: int
  par_advertisedWindow :: int
  par_sendQueueClass :: string
  par_receiveQueueClass :: string
  par_tcpAlgorithmClass :: string
  roundTime :: "rat \<Rightarrow> simtime"

definition timeoutAt :: "TCPEnv \<Rightarrow> simtime \<Rightarrow> timer \<Rightarrow> timer res" where
  "timeoutAt env d t = scheduleAt (simTime env + d) t"

lemma timeoutAt_Inr: "timeoutAt env d t = Inr t' \<longleftrightarrow> t = TimerIdle \<and> t' = TimerAt (simTime env + d)"
  by (simp add: timeoutAt_def scheduleAt_Inr)

definition emit :: "TCPOutput \<Rightarrow> TCPConnection \<Rightarrow> TCPConnection" where
  "emit x c = c\<lparr>outs := outs c @ [x]\<rparr>"

text \<open>The constructors of the state block and of a connection.\<close>

definition initialStateVariables :: "TCPConnection \<Rightarrow> TCPConnection" where
  "initialStateVariables c = c\<lparr>active := False, fork := False, snd_mss := -1, snd_una := 0,
     snd_nxt := 0, snd_max := 0, snd_wnd := 0, snd_up := 0, snd_wl1 := 0, snd_wl2 := 0,
     iss := 0, rcv_nxt := 0, rcv_wnd := -1, rcv_up := 0, irs := 0, dupacks := 0,
     syn_rexmit_count := 0, syn_rexmit_timeout := 0, fin_ack_rcvd := False,
     send_fin := False, snd_fin_seq := 0, fin_rcvd := False, rcv_fin_seq := 0\<rparr>"

definition initialAlgStateVariables :: "TCPConnection \<Rightarrow> TCPConnection" where
  "initialAlgStateVariables c = c\<lparr>delayed_acks_enabled := False, nagle_enabled := True,
     rexmit_count := 0, rexmit_timeout := 3, snd_cwnd := 0, rtseq := 0, rtseq_sendtime := 0,
     srtt := 0, rttvar := 3 / 4\<rparr>"

definition initialTahoeRenoStateVariables :: "TCPConnection \<Rightarrow> TCPConnection" where
  "initialTahoeRenoStateVariables c = c\<lparr>ssthresh := 65535\<rparr>"

definition blankConnection :: TCPConnection where
  "blankConnection = \<lparr>active = False, fork = False, snd_mss = -1, snd_una = 0, snd_nxt = 0,
     snd_max = 0, snd_wnd = 0, snd_up = 0, snd_wl1 = 0, snd_wl2 = 0, iss = 0, rcv_nxt = 0,
     rcv_wnd = -1, rcv_up = 0, irs = 0, dupacks = 0, syn_rexmit_count = 0,
     syn_rexmit_timeout = 0, fin_ack_rcvd = False, send_fin = False, snd_fin_seq = 0,
     fin_rcvd = False, rcv_fin_seq = 0, delayed_acks_enabled = False, nagle_enabled = True,
     rexmit_count = 0, rexmit_timeout = 3, snd_cwnd = 0, rtseq = 0, rtseq_sendtime = 0,
     srtt = 0, rttvar = 3 / 4, ssthresh = 65535, appGateIndex = 0, connId = 0,
     localAddr = unspecifiedAddress, remoteAddr = unspecifiedAddress, localPort = -1,
     remotePort = -1, fsm = TCP_S_INIT, sendQueue = VirtualDataSendQueue VirtualSQ_new,
     receiveQueue = VirtualDataRcvQueue \<lparr>rq_rcv_nxt = 0, regionList = []\<rparr>,
     tcpAlgorithm = DumbTCP, the2MSLTimer = TimerNull, connEstabTimer = TimerNull,
     finWait2Timer = TimerNull, synRexmitTimer = TimerNull, rexmitTimer = TimerNull,
     persistTimer = TimerNull, delayedAckTimer = TimerNull, keepAliveTimer = TimerNull,
     outs = []\<rparr>"

definition newConnection :: "int \<Rightarrow> int \<Rightarrow> TCPConnection" where
  "newConnection gate cid = blankConnection\<lparr>appGateIndex := gate, connId := cid,
     localPort := -1, remotePort := -1, fsm := TCP_S_INIT,
     the2MSLTimer := TimerIdle, connEstabTimer := TimerIdle, finWait2Timer := TimerIdle,
     synRexmitTimer := TimerIdle\<rparr>"

text \<open>Values of the parameters, for examples.\<close>

definition exampleEnv :: TCPEnv where
  "exampleEnv = \<lparr>simTime = 1, par_mss = 1024, par_advertisedWindow = 16384,
     par_sendQueueClass = ''TCPVirtualDataSendQueue'',
     par_receiveQueueClass = ''TCPVirtualDataRcvQueue'', par_tcpAlgorithmClass = ''TCPReno'',
     roundTime = (\<lambda>x. x)\<rparr>"

end
