(* ===== verification/TCP_Fsm.thy ===== *)
theory TCP_Fsm imports TCP_State
begin

text \<open>
  The TCP state machine of \<^verbatim>\<open>TCPConnectionBase.cc\<close>: the transition table, the timers
  that entering a state cancels, and \<^verbatim>\<open>performStateTransition()\<close> built from both.
\<close>

section \<open>The transition table\<close>

definition fsm_goto :: "bool \<Rightarrow> TcpState \<Rightarrow> TCPEventCode \<Rightarrow> TcpState" where
  "fsm_goto act s event = (case s of
     TCP_S_INIT \<Rightarrow> (case event of
         TCP_E_OPEN_PASSIVE \<Rightarrow> TCP_S_LISTEN
       | TCP_E_OPEN_ACTIVE \<Rightarrow> TCP_S_SYN_SENT
       | _ \<Rightarrow> s)
   | TCP_S_LISTEN \<Rightarrow> (case event of
         TCP_E_OPEN_ACTIVE \<Rightarrow> TCP_S_SYN_SENT
       | TCP_E_SEND \<Rightarrow> TCP_S_SYN_SENT
       | TCP_E_CLOSE \<Rightarrow> TCP_S_CLOSED
       | TCP_E_ABORT \<Rightarrow> TCP_S_CLOSED
       | TCP_E_RCV_SYN \<Rightarrow> TCP_S_SYN_RCVD
       | _ \<Rightarrow> s)
   | TCP_S_SYN_RCVD \<Rightarrow> (case event of
         TCP_E_CLOSE \<Rightarrow> TCP_S_FIN_WAIT_1
       | TCP_E_ABORT \<Rightarrow> TCP_S_CLOSED
       | TCP_E_TIMEOUT_CONN_ESTAB \<Rightarrow> if act then TCP_S_CLOSED else TCP_S_LISTEN
       | TCP_E_RCV_RST \<Rightarrow> if act then TCP_S_CLOSED else TCP_S_LISTEN
       | TCP_E_RCV_ACK \<Rightarrow> TCP_S_ESTABLISHED
       | TCP_E_RCV_FIN \<Rightarrow> TCP_S_CLOSE_WAIT
       | TCP_E_RCV_UNEXP_SYN \<Rightarrow> TCP_S_CLOSED
       | _ \<Rightarrow> s)
   | TCP_S_SYN_SENT \<Rightarrow> (case event of
         TCP_E_CLOSE \<Rightarrow> TCP_S_CLOSED
       | TCP_E_ABORT \<Rightarrow> TCP_S_CLOSED
       | TCP_E_TIMEOUT_CONN_ESTAB \<Rightarrow> TCP_S_CLOSED
       | TCP_E_RCV_RST \<Rightarrow> TCP_S_CLOSED
       | TCP_E_RCV_SYN_ACK \<Rightarrow> TCP_S_ESTABLISHED
       | TCP_E_RCV_SYN \<Rightarrow> TCP_S_SYN_RCVD
       | _ \<Rightarrow> s)
   | TCP_S_ESTABLISHED \<Rightarrow> (case event of
         TCP_E_CLOSE \<Rightarrow> TCP_S_FIN_WAIT_1
       | TCP_E_ABORT \<Rightarrow> TCP_S_CLOSED
       | TCP_E_RCV_FIN \<Rightarrow> TCP_S_CLOSE_WAIT
       | TCP_E_RCV_RST \<Rightarrow> TCP_S_CLOSED
       | TCP_E_RCV_UNEXP_SYN \<Rightarrow> TCP_S_CLOSED
       | _ \<Rightarrow> s)
   | TCP_S_CLOSE_WAIT \<Rightarrow> (case event of
         TCP_E_CLOSE \<Rightarrow> TCP_S_LAST_ACK
       | TCP_E_ABORT \<Rightarrow> TCP_S_CLOSED
       | TCP_E_RCV_RST \<Rightarrow> TCP_S_CLOSED
       | TCP_E_RCV_UNEXP_SYN \<Rightarrow> TCP_S_CLOSED
       | _ \<Rightarrow> s)
   | TCP_S_LAST_ACK \<Rightarrow> (case event of
         TCP_E_ABORT \<Rightarrow> TCP_S_CLOSED
       | TCP_E_RCV_ACK \<Rightarrow> TCP_S_CLOSED
       | TCP_E_RCV_RST \<Rightarrow> TCP_S_CLOSED
       | TCP_E_RCV_UNEXP_SYN \<Rightarrow> TCP_S_CLOSED
       | _ \<Rightarrow> s)
   | TCP_S_FIN_WAIT_1 \<Rightarrow> (case event of
         TCP_E_ABORT \<Rightarrow> TCP_S_CLOSED
       | TCP_E_RCV_FIN \<Rightarrow> TCP_S_CLOSING
       | TCP_E_RCV_ACK \<Rightarrow> TCP_S_FIN_WAIT_2
       | TCP_E_RCV_FIN_ACK \<Rightarrow> TCP_S_TIME_WAIT
       | TCP_E_RCV_RST \<Rightarrow> TCP_S_CLOSED
       | TCP_E_RCV_UNEXP_SYN \<Rightarrow> TCP_S_CLOSED
       | _ \<Rightarrow> s)
   | TCP_S_FIN_WAIT_2 \<Rightarrow> (case event of
         TCP_E_ABORT \<Rightarrow> TCP_S_CLOSED
       | TCP_E_RCV_FIN \<Rightarrow> TCP_S_TIME_WAIT
       | TCP_E_TIMEOUT_FIN_WAIT_2 \<Rightarrow> TCP_S_CLOSED
       | TCP_E_RCV_RST \<Rightarrow> TCP_S_CLOSED
       | TCP_E_RCV_UNEXP_SYN \<Rightarrow> TCP_S_CLOSED
       | _ \<Rightarrow> s)
   | TCP_S_CLOSING \<Rightarrow> (case event of
         TCP_E_ABORT \<Rightarrow> TCP_S_CLOSED
       | TCP_E_RCV_ACK \<Rightarrow> TCP_S_TIME_WAIT
       | TCP_E_RCV_RST \<Rightarrow> TCP_S_CLOSED
       | TCP_E_RCV_UNEXP_SYN \<Rightarrow> TCP_S_CLOSED
       | _ \<Rightarrow> s)
   | TCP_S_TIME_WAIT \<Rightarrow> (case event of
         TCP_E_ABORT \<Rightarrow> TCP_S_CLOSED
       | TCP_E_TIMEOUT_2MSL \<Rightarrow> TCP_S_CLOSED
       | TCP_E_RCV_RST \<Rightarrow> TCP_S_CLOSED
       | TCP_E_RCV_UNEXP_SYN \<Rightarrow> TCP_S_CLOSED
       | _ \<Rightarrow> s)
   | TCP_S_CLOSED \<Rightarrow> s)"

section \<open>Entering a state\<close>

text \<open>\<^verbatim>\<open>connectionClosed()\<close> of the algorithm classes cancels all their timers.\<close>

definition DumbTCP_connectionClosed :: "TCPConnection \<Rightarrow> TCPConnection res" where
  "DumbTCP_connectionClosed c =
     andThen (cancelTimer (rexmitTimer c)) (\<lambda>t. Inr (c\<lparr>rexmitTimer := t\<rparr>))"

definition TCPBaseAlg_connectionClosed :: "TCPConnection \<Rightarrow> TCPConnection res" where
  "TCPBaseAlg_connectionClosed c =
     andThen (cancelTimer (rexmitTimer c)) (\<lambda>r.
     andThen (cancelTimer (persistTimer c)) (\<lambda>p.
     andThen (cancelTimer (delayedAckTimer c)) (\<lambda>d.
     andThen (cancelTimer (keepAliveTimer c)) (\<lambda>k.
       Inr (c\<lparr>rexmitTimer := r, persistTimer := p, delayedAckTimer := d, keepAliveTimer := k\<rparr>)))))"

definition alg_connectionClosed :: "TCPConnection \<Rightarrow> TCPConnection res" where
  "alg_connectionClosed c = (case tcpAlgorithm c of
     DumbTCP \<Rightarrow> DumbTCP_connectionClosed c
   | _ \<Rightarrow> TCPBaseAlg_connectionClosed c)"

definition stateEntered :: "TcpState \<Rightarrow> TCPConnection \<Rightarrow> TCPConnection res" where
  "stateEntered s c = (case s of
     TCP_S_INIT \<Rightarrow> Inr c
   | TCP_S_LISTEN \<Rightarrow>
       checked (connEstabTimer c \<noteq> TimerNull \<and> synRexmitTimer c \<noteq> TimerNull)
         (AssertFailed ''connEstabTimer && synRexmitTimer'')
         (andThen (cancelTimer (connEstabTimer c)) (\<lambda>e.
          andThen (cancelTimer (synRexmitTimer c)) (\<lambda>r.
            Inr (c\<lparr>connEstabTimer := e, synRexmitTimer := r\<rparr>))))
   | TCP_S_SYN_RCVD \<Rightarrow> Inr c
   | TCP_S_SYN_SENT \<Rightarrow> Inr c
   | TCP_S_ESTABLISHED \<Rightarrow>
       andThen (cancelTimer (connEstabTimer c)) (\<lambda>e.
       andThen (cancelTimer (synRexmitTimer c)) (\<lambda>r.
         Inr (c\<lparr>connEstabTimer := TimerNull, synRexmitTimer := TimerNull\<rparr>)))
   | TCP_S_CLOSED \<Rightarrow>
       alg_connectionClosed (c\<lparr>the2MSLTimer := cancelIfAny (the2MSLTimer c),
         connEstabTimer := cancelIfAny (connEstabTimer c),
         finWait2Timer := cancelIfAny (finWait2Timer c),
         synRexmitTimer := cancelIfAny (synRexmitTimer c)\<rparr>)
   | _ \<Rightarrow> Inr (c\<lparr>connEstabTimer := cancelIfAny (connEstabTimer c),
                 synRexmitTimer := cancelIfAny (synRexmitTimer c)\<rparr>))"

text \<open>The boolean is the result: false tells the module to delete the connection.\<close>

definition performStateTransition :: "TCPEventCode \<Rightarrow> TCPConnection \<Rightarrow> (TCPConnection \<times> bool) res" where
  "performStateTransition event c =
     checked (fsm c \<noteq> TCP_S_CLOSED) (AssertFailed ''fsm.getState()!=TCP_S_CLOSED'')
       (if event = TCP_E_IGNORE then Inr (c, True)
        else let oldState = fsm c;
                 c1 = c\<lparr>fsm := fsm_goto (active c) oldState event\<rparr>
             in andThen (if oldState \<noteq> fsm c1 then stateEntered (fsm c1) c1 else Inr c1)
                  (\<lambda>c2. Inr (c2, fsm c2 \<noteq> TCP_S_CLOSED)))"

section \<open>Properties of the table\<close>

text \<open>A step of the state machine, whatever the event.\<close>

inductive fsm_step :: "bool \<Rightarrow> TcpState \<Rightarrow> TcpState \<Rightarrow> bool" for act where
  step: "fsm_goto act s e \<noteq> s \<Longrightarrow> fsm_step act s (fsm_goto act s e)"

inductive_simps fsm_step_simps: "fsm_step act s t"

lemmas fsm_split = TcpState.splits TCPEventCode.splits

text \<open>
  How far a connection got: the states in which it can be established, those of data transfer,
  those of an orderly close, and closed.
\<close>

fun phase :: "TcpState \<Rightarrow> nat" where
  "phase TCP_S_INIT = 0"
| "phase TCP_S_LISTEN = 1"
| "phase TCP_S_SYN_SENT = 1"
| "phase TCP_S_SYN_RCVD = 1"
| "phase TCP_S_ESTABLISHED = 2"
| "phase TCP_S_CLOSE_WAIT = 3"
| "phase TCP_S_FIN_WAIT_1 = 3"
| "phase TCP_S_FIN_WAIT_2 = 4"
| "phase TCP_S_CLOSING = 4"
| "phase TCP_S_LAST_ACK = 5"
| "phase TCP_S_TIME_WAIT = 5"
| "phase TCP_S_CLOSED = 6"

lemma fsm_goto_phase: "phase s \<le> phase (fsm_goto act s e)"
  by (cases s; cases e) (simp_all add: fsm_goto_def)

lemma fsm_goto_phase_strict:
  "fsm_goto act s e \<noteq> s \<Longrightarrow> 2 \<le> phase s \<Longrightarrow> phase s < phase (fsm_goto act s e)"
  by (cases s; cases e) (simp_all add: fsm_goto_def)

lemma fsm_goto_established:
  "fsm_goto act s e = TCP_S_ESTABLISHED \<longleftrightarrow>
   s = TCP_S_ESTABLISHED \<and> e \<notin> {TCP_E_CLOSE, TCP_E_ABORT, TCP_E_RCV_FIN, TCP_E_RCV_RST, TCP_E_RCV_UNEXP_SYN}
   \<or> s = TCP_S_SYN_RCVD \<and> e = TCP_E_RCV_ACK \<or> s = TCP_S_SYN_SENT \<and> e = TCP_E_RCV_SYN_ACK"
  by (cases s; cases e) (simp_all add: fsm_goto_def)

lemma fsm_goto_time_wait:
  "fsm_goto act s e = TCP_S_TIME_WAIT \<longleftrightarrow>
   s = TCP_S_TIME_WAIT \<and> e \<notin> {TCP_E_ABORT, TCP_E_TIMEOUT_2MSL, TCP_E_RCV_RST, TCP_E_RCV_UNEXP_SYN}
   \<or> s = TCP_S_FIN_WAIT_1 \<and> e = TCP_E_RCV_FIN_ACK \<or> s = TCP_S_FIN_WAIT_2 \<and> e = TCP_E_RCV_FIN
   \<or> s = TCP_S_CLOSING \<and> e = TCP_E_RCV_ACK"
  by (cases s; cases e) (simp_all add: fsm_goto_def)

lemma fsm_goto_INIT: "fsm_goto act s e = TCP_S_INIT \<Longrightarrow> s = TCP_S_INIT"
  by (cases s; cases e) (auto simp: fsm_goto_def split: if_splits)

lemma fsm_goto_LISTEN: "fsm_goto act s e = TCP_S_LISTEN \<Longrightarrow>
   s = TCP_S_LISTEN \<or> s = TCP_S_INIT \<or> s = TCP_S_SYN_RCVD \<and> \<not> act"
  by (cases s; cases e) (auto simp: fsm_goto_def split: if_splits)

text \<open>Entering a state touches timers only.\<close>

lemmas stateEntered_defs = stateEntered_def alg_connectionClosed_def
  DumbTCP_connectionClosed_def TCPBaseAlg_connectionClosed_def

lemma stateEntered_frame:
  assumes "stateEntered s c = Inr c'"
  shows "\<exists>a b d e f g h i. c' = c\<lparr>the2MSLTimer := a, connEstabTimer := b, finWait2Timer := d,
     synRexmitTimer := e, rexmitTimer := f, persistTimer := g, delayedAckTimer := h,
     keepAliveTimer := i\<rparr>"
proof -
  have "c' = c\<lparr>the2MSLTimer := the2MSLTimer c', connEstabTimer := connEstabTimer c',
     finWait2Timer := finWait2Timer c', synRexmitTimer := synRexmitTimer c',
     rexmitTimer := rexmitTimer c', persistTimer := persistTimer c',
     delayedAckTimer := delayedAckTimer c', keepAliveTimer := keepAliveTimer c'\<rparr>"
    using assms
    by (auto simp: stateEntered_defs res_simps split: TcpState.splits TCPAlgorithm.splits)
  then show ?thesis by metis
qed

end
