(* ===== verification/TCP_Output.thy ===== *)
theory TCP_Output imports TCP_Fsm
begin

text \<open>
  What a connection sends (\<^verbatim>\<open>TCPConnectionUtil.cc\<close>): segments to the network layer,
  indications to the application, the sending of new data inside the window, window probes and
  the two retransmission routines, with the hooks \<^verbatim>\<open>ackSent()\<close> and
  \<^verbatim>\<open>dataSent()\<close> of the algorithm classes that they call. The set-up of a connection
  and of a fork of a listening connection is here too.
\<close>

section \<open>Hooks of the algorithm classes\<close>

definition TCPBaseAlg_startRexmitTimer :: "TCPEnv \<Rightarrow> TCPConnection \<Rightarrow> TCPConnection res" where
  "TCPBaseAlg_startRexmitTimer env c =
     (let c = c\<lparr>rexmit_count := 0\<rparr>
      in andThen (timeoutAt env (rexmit_timeout c) (rexmitTimer c)) (\<lambda>t.
           Inr (c\<lparr>rexmitTimer := t\<rparr>)))"

definition DumbTCP_ackSent :: "TCPConnection \<Rightarrow> TCPConnection res" where
  "DumbTCP_ackSent c = Inr c"

definition TCPBaseAlg_ackSent :: "TCPConnection \<Rightarrow> TCPConnection res" where
  "TCPBaseAlg_ackSent c =
     andThen (isScheduled (delayedAckTimer c)) (\<lambda>b.
       if b then andThen (cancelTimer (delayedAckTimer c)) (\<lambda>t. Inr (c\<lparr>delayedAckTimer := t\<rparr>))
       else Inr c)"

definition ackSent :: "TCPConnection \<Rightarrow> TCPConnection res" where
  "ackSent c = (case tcpAlgorithm c of DumbTCP \<Rightarrow> DumbTCP_ackSent c | _ \<Rightarrow> TCPBaseAlg_ackSent c)"

definition DumbTCP_REXMIT_TIMEOUT :: simtime where [simp]: "DumbTCP_REXMIT_TIMEOUT = 2"

definition DumbTCP_dataSent :: "TCPEnv \<Rightarrow> uint32 \<Rightarrow> TCPConnection \<Rightarrow> TCPConnection res" where
  "DumbTCP_dataSent env fromseq c =
     andThen (isScheduled (rexmitTimer c)) (\<lambda>b.
     andThen (if b then cancelTimer (rexmitTimer c) else Inr (rexmitTimer c)) (\<lambda>t.
     andThen (timeoutAt env DumbTCP_REXMIT_TIMEOUT t) (\<lambda>t.
       Inr (c\<lparr>rexmitTimer := t\<rparr>))))"

definition TCPBaseAlg_dataSent :: "TCPEnv \<Rightarrow> uint32 \<Rightarrow> TCPConnection \<Rightarrow> TCPConnection res" where
  "TCPBaseAlg_dataSent env fromseq c =
     andThen (isScheduled (rexmitTimer c)) (\<lambda>b.
     andThen (if \<not> b then TCPBaseAlg_startRexmitTimer env c else Inr c) (\<lambda>c.
       Inr (if rtseq_sendtime c = 0
            then c\<lparr>rtseq := fromseq, rtseq_sendtime := simTime env\<rparr> else c)))"

definition dataSent :: "TCPEnv \<Rightarrow> uint32 \<Rightarrow> TCPConnection \<Rightarrow> TCPConnection res" where
  "dataSent env fromseq c = (case tcpAlgorithm c of
     DumbTCP \<Rightarrow> DumbTCP_dataSent env fromseq c
   | _ \<Rightarrow> TCPBaseAlg_dataSent env fromseq c)"

section \<open>Segments and indications\<close>

text \<open>
  The control information of an IP datagram carries IPv4 or IPv6 addresses, according to the
  destination; converting an address of the other kind is an error.
\<close>

definition sendToIP_from ::
  "TCPSegment \<Rightarrow> IPvXAddress \<Rightarrow> IPvXAddress \<Rightarrow> TCPConnection \<Rightarrow> TCPConnection res" where
  "sendToIP_from seg src dest c =
     (if \<not> isIPv6 dest
      then andThen (get4 src) (\<lambda>s. andThen (get4 dest) (\<lambda>d.
             Inr (emit (ToIP seg (IPv4 s) (IPv4 d)) c)))
      else andThen (get6 src) (\<lambda>(s1, s2, s3, s4). andThen (get6 dest) (\<lambda>(d1, d2, d3, d4).
             Inr (emit (ToIP seg (IPv6 s1 s2 s3 s4) (IPv6 d1 d2 d3 d4)) c))))"

definition TCP_HEADER_OCTETS :: int where [simp]: "TCP_HEADER_OCTETS = 20"

definition sendToIP :: "TCPSegment \<Rightarrow> TCPConnection \<Rightarrow> TCPConnection res" where
  "sendToIP seg c =
     (let seg = seg\<lparr>srcPort := toShort (localPort c), destPort := toShort (remotePort c),
                    segByteLength := TCP_HEADER_OCTETS + sint (payloadLength seg)\<rparr>
      in if \<not> isIPv6 (remoteAddr c)
         then andThen (get4 (localAddr c)) (\<lambda>s. andThen (get4 (remoteAddr c)) (\<lambda>d.
                Inr (emit (ToIP seg (IPv4 s) (IPv4 d)) c)))
         else andThen (get6 (localAddr c)) (\<lambda>(s1, s2, s3, s4).
              andThen (get6 (remoteAddr c)) (\<lambda>(d1, d2, d3, d4).
                Inr (emit (ToIP seg (IPv6 s1 s2 s3 s4) (IPv6 d1 d2 d3 d4)) c))))"

definition sendIndicationToApp :: "TcpStatusInd \<Rightarrow> TCPConnection \<Rightarrow> TCPConnection" where
  "sendIndicationToApp code c = emit (ToApp (appGateIndex c) (Indication code (connId c))) c"

definition signalConnectionTimeout :: "TCPConnection \<Rightarrow> TCPConnection" where
  "signalConnectionTimeout c = sendIndicationToApp TCP_I_TIMED_OUT c"

definition sendEstabIndicationToApp :: "TCPConnection \<Rightarrow> TCPConnection" where
  "sendEstabIndicationToApp c = emit (ToApp (appGateIndex c)
     (EstabIndication (connId c) (localAddr c) (remoteAddr c) (localPort c) (remotePort c))) c"

definition sendToApp :: "TCPIndication \<Rightarrow> TCPConnection \<Rightarrow> TCPConnection" where
  "sendToApp ind c = emit (ToApp (appGateIndex c) ind) c"

definition sendSyn :: "TCPConnection \<Rightarrow> TCPConnection res" where
  "sendSyn c =
     checked (\<not> (isUnspecified (remoteAddr c) \<or> remotePort c = -1))
       (OppError ''Error processing command OPEN_ACTIVE: foreign socket unspecified'')
    (checked (localPort c \<noteq> -1)
       (OppError ''Error processing command OPEN_ACTIVE: local port unspecified'')
    (let seg = createTCPSegment\<lparr>sequenceNo := iss c, synBit := True, window := ucast (rcv_wnd c)\<rparr>
     in sendToIP seg (c\<lparr>snd_max := iss c + 1, snd_nxt := iss c + 1\<rparr>)))"

definition sendSynAck :: "TCPConnection \<Rightarrow> TCPConnection res" where
  "sendSynAck c =
     (let seg = createTCPSegment\<lparr>sequenceNo := iss c, ackNo := rcv_nxt c, synBit := True,
                  ackBit := True, window := ucast (rcv_wnd c)\<rparr>
      in sendToIP seg (c\<lparr>snd_max := iss c + 1, snd_nxt := iss c + 1\<rparr>))"

definition sendRst_from ::
  "uint32 \<Rightarrow> IPvXAddress \<Rightarrow> IPvXAddress \<Rightarrow> int \<Rightarrow> int \<Rightarrow> TCPConnection \<Rightarrow> TCPConnection res" where
  "sendRst_from s src dest srcP destP c =
     sendToIP_from (createTCPSegment\<lparr>srcPort := toShort srcP, destPort := toShort destP,
       rstBit := True, sequenceNo := s\<rparr>) src dest c"

definition sendRst :: "uint32 \<Rightarrow> TCPConnection \<Rightarrow> TCPConnection res" where
  "sendRst seqNo c =
     sendRst_from seqNo (localAddr c) (remoteAddr c) (localPort c) (remotePort c) c"

definition sendRstAck ::
  "uint32 \<Rightarrow> uint32 \<Rightarrow> IPvXAddress \<Rightarrow> IPvXAddress \<Rightarrow> int \<Rightarrow> int \<Rightarrow> TCPConnection \<Rightarrow> TCPConnection res"
  where
  "sendRstAck s a src dest srcP destP c =
     sendToIP_from (createTCPSegment\<lparr>srcPort := toShort srcP, destPort := toShort destP,
       rstBit := True, ackBit := True, sequenceNo := s, ackNo := a\<rparr>) src dest c"

definition sendAck :: "TCPConnection \<Rightarrow> TCPConnection res" where
  "sendAck c =
     andThen (sendToIP (createTCPSegment\<lparr>ackBit := True, sequenceNo := snd_nxt c,
       ackNo := rcv_nxt c, window := ucast (rcv_wnd c)\<rparr>) c) ackSent"

definition sendFin :: "TCPConnection \<Rightarrow> TCPConnection res" where
  "sendFin c =
     andThen (sendToIP (createTCPSegment\<lparr>finBit := True, ackBit := True, ackNo := rcv_nxt c,
       sequenceNo := snd_nxt c, window := ucast (rcv_wnd c)\<rparr>) c) ackSent"

text \<open>
  \<^verbatim>\<open>sendSegment(int bytes)\<close>: the 32 bits of the argument, sign extended when they are
  passed on as an \<^verbatim>\<open>unsigned long\<close>.
\<close>

definition sendSegment :: "uint32 \<Rightarrow> TCPConnection \<Rightarrow> TCPConnection res" where
  "sendSegment bytes c =
     andThen (sq_createSegmentWithBytes (snd_nxt c) (scast bytes) (sendQueue c)) (\<lambda>seg.
       let seg = seg\<lparr>ackNo := rcv_nxt c, ackBit := True, window := ucast (rcv_wnd c)\<rparr>
       in checked (bytes = payloadLength seg) (AssertFailed ''bytes==tcpseg->getPayloadLength()'')
         (let c = c\<lparr>snd_nxt := snd_nxt c + bytes\<rparr>
          in if send_fin c \<and> snd_nxt c = snd_fin_seq c
             then sendToIP (seg\<lparr>finBit := True\<rparr>) (c\<lparr>snd_nxt := snd_fin_seq c + 1\<rparr>)
             else sendToIP seg c))"

section \<open>Sending data\<close>

text \<open>
  The loop that sends whole segments. It ends because every round takes \<^verbatim>\<open>snd_mss\<close>
  bytes off what is left; with \<^verbatim>\<open>snd_mss = 0\<close> it never ends.
\<close>

function sendWholeSegments :: "nat \<Rightarrow> TCPConnection \<Rightarrow> TCPConnection res" where
  "sendWholeSegments bytesToSend c =
     (if snd_mss c = 0
      then andThen (sendSegment 0 c) (\<lambda>_. Inl (Diverges ''while (bytesToSend>=state->snd_mss)''))
      else if unat (snd_mss c) \<le> bytesToSend
      then andThen (sendSegment (snd_mss c) c) (\<lambda>c'.
             sendWholeSegments (bytesToSend - unat (snd_mss c)) c')
      else Inr c)"
  by pat_completeness auto
termination
  by (relation "measure fst") (auto simp flip: unat_gt_0)

declare sendWholeSegments.simps [simp del]

text \<open>What every segment preserves, the loop preserves.\<close>

lemma sendWholeSegments_inv:
  assumes step: "\<And>n c c'. sendSegment n c = Inr c' \<Longrightarrow> P c \<Longrightarrow> P c'"
  shows "sendWholeSegments n c = Inr c' \<Longrightarrow> P c \<Longrightarrow> P c'"
proof (induction n c rule: sendWholeSegments.induct)
  case (1 n c)
  show ?case
  proof (cases "snd_mss c = 0 \<or> n < unat (snd_mss c)")
    case True
    with 1(2,3) show ?thesis
      unfolding sendWholeSegments.simps [of n c] by (auto simp: res_simps split: if_splits)
  next
    case False
    with 1(2) obtain d where d: "sendSegment (snd_mss c) c = Inr d"
      "sendWholeSegments (n - unat (snd_mss c)) d = Inr c'"
      unfolding sendWholeSegments.simps [of n c] by (auto simp: res_simps)
    with False 1(1) step [OF d(1) 1(3)] show ?thesis by auto
  qed
qed

text \<open>
  \<^verbatim>\<open>sendData()\<close>. A negative congestion window stands for none. The code computes the
  windows in \<^verbatim>\<open>long\<close> and the numbers of bytes in \<^verbatim>\<open>unsigned long\<close>; all of
  them stay far below \<open>2 ^ 63\<close>, so they are \<^typ>\<open>int\<close> and \<^typ>\<open>nat\<close> here.
\<close>

definition effectiveWindow :: "int \<Rightarrow> TCPConnection \<Rightarrow> int" where
  "effectiveWindow congestionWindow c =
     (let maxWindow = uint (snd_wnd c);
          maxWindow = (if 0 \<le> congestionWindow \<and> congestionWindow < maxWindow
                       then congestionWindow else maxWindow)
      in maxWindow - uint (snd_nxt c - snd_una c))"

definition sendData :: "TCPEnv \<Rightarrow> bool \<Rightarrow> int \<Rightarrow> TCPConnection \<Rightarrow> (TCPConnection \<times> bool) res" where
  "sendData env fullSegmentsOnly congestionWindow c =
     (let c = c\<lparr>snd_nxt := snd_max c\<rparr>;
          buffered = getBytesAvailable (snd_nxt c) (sendQueue c);
          effectiveWin = effectiveWindow congestionWindow c;
          bytesToSend = min (nat effectiveWin) buffered;
          old_snd_nxt = snd_nxt c
      in if buffered = 0 then Inr (c, False)
         else if effectiveWin \<le> 0 then Inr (c, False)
         else if fullSegmentsOnly \<and> bytesToSend < unat (snd_mss c) then Inr (c, False)
         else checked (0 < bytesToSend) (AssertFailed ''bytesToSend>0'')
           (andThen (if bytesToSend \<le> unat (snd_mss c) then sendSegment (of_nat bytesToSend) c
                     else sendWholeSegments bytesToSend c) (\<lambda>c.
            let c = c\<lparr>snd_max := snd_nxt c\<rparr>
            in andThen (ackSent c) (\<lambda>c.
               andThen (dataSent env old_snd_nxt c) (\<lambda>c.
                 Inr (c, True))))))"

definition sendProbe :: "TCPEnv \<Rightarrow> TCPConnection \<Rightarrow> (TCPConnection \<times> bool) res" where
  "sendProbe env c =
     (let c = c\<lparr>snd_nxt := snd_max c\<rparr>;
          old_snd_nxt = snd_nxt c
      in if getBytesAvailable (snd_nxt c) (sendQueue c) = 0 then Inr (c, False)
         else andThen (sendSegment 1 c) (\<lambda>c.
           let c = c\<lparr>snd_max := snd_nxt c\<rparr>
           in andThen (ackSent c) (\<lambda>c.
              andThen (dataSent env old_snd_nxt c) (\<lambda>c.
                Inr (c, True)))))"

section \<open>Retransmission\<close>

definition retransmitOneSegment :: "TCPConnection \<Rightarrow> TCPConnection res" where
  "retransmitOneSegment c =
     (let c = c\<lparr>snd_nxt := snd_una c\<rparr>;
          bytes = min (snd_mss c) (snd_max c - snd_nxt c)
      in checked (bytes \<noteq> 0) (AssertFailed ''bytes!=0'')
           (andThen (sendSegment bytes c) ackSent))"

text \<open>
  The loop of \<^verbatim>\<open>retransmitData()\<close>. A round that sends no byte and no FIN leaves
  everything as it was, so the loop then goes on for ever.
\<close>

function retransmitLoop :: "nat \<Rightarrow> TCPConnection \<Rightarrow> TCPConnection res" where
  "retransmitLoop bytesToSend c =
     (if 0 < bytesToSend
      then let bytes = min (min bytesToSend (unat (snd_mss c)))
                           (getBytesAvailable (snd_nxt c) (sendQueue c))
           in andThen (sendSegment (of_nat bytes) c) (\<lambda>c.
                if send_fin c \<and> snd_nxt c = snd_fin_seq c + 1 then Inr c
                else if bytes = 0 then Inl (Diverges ''while (bytesToSend>0)'')
                else retransmitLoop (bytesToSend - bytes) c)
      else Inr c)"
  by pat_completeness auto
termination
  by (relation "measure fst") auto

declare retransmitLoop.simps [simp del]

lemma retransmitLoop_inv:
  assumes step: "\<And>n c c'. sendSegment n c = Inr c' \<Longrightarrow> P c \<Longrightarrow> P c'"
  shows "retransmitLoop n c = Inr c' \<Longrightarrow> P c \<Longrightarrow> P c'"
proof (induction n c rule: retransmitLoop.induct)
  case (1 n c)
  let ?b = "min (min n (unat (snd_mss c))) (getBytesAvailable (snd_nxt c) (sendQueue c))"
  show ?case
  proof (cases "n = 0")
    case True
    with 1(2,3) show ?thesis unfolding retransmitLoop.simps [of n c] by simp
  next
    case False
    with 1(2) obtain d where d: "sendSegment (of_nat ?b) c = Inr d"
      and r: "(if send_fin d \<and> snd_nxt d = snd_fin_seq d + 1 then Inr d
         else if ?b = 0 then Inl (Diverges ''while (bytesToSend>0)'')
         else retransmitLoop (n - ?b) d) = Inr c'"
      unfolding retransmitLoop.simps [of n c] by (auto simp: res_simps Let_def)
    note P = step [OF d 1(3)]
    show ?thesis
    proof (cases "send_fin d \<and> snd_nxt d = snd_fin_seq d + 1")
      case True
      with r P show ?thesis by simp
    next
      case F: False
      with r have "?b \<noteq> 0" "retransmitLoop (n - ?b) d = Inr c'" by (auto split: if_splits)
      with 1(1) [OF _ refl d F] P False show ?thesis by simp
    qed
  qed
qed

definition retransmitData :: "TCPConnection \<Rightarrow> TCPConnection res" where
  "retransmitData c =
     (let c = c\<lparr>snd_nxt := snd_una c\<rparr>;
          bytesToSend = unat (snd_max c - snd_nxt c)
      in checked (bytesToSend \<noteq> 0) (AssertFailed ''bytesToSend!=0'')
           (retransmitLoop bytesToSend c))"

section \<open>Setting up a connection\<close>

definition configureStateVariables :: "TCPEnv \<Rightarrow> TCPConnection \<Rightarrow> TCPConnection" where
  "configureStateVariables env c = c\<lparr>snd_mss := word_of_int (par_mss env),
     rcv_wnd := word_of_int (par_advertisedWindow env)\<rparr>"

text \<open>
  The initial sequence number counts units of 4 microseconds modulo \<open>2 ^ 32\<close>. The code
  computes in \<^verbatim>\<open>double\<close>; here the product is exact.
\<close>

definition selectInitialSeqNum :: "TCPEnv \<Rightarrow> TCPConnection \<Rightarrow> TCPConnection" where
  "selectInitialSeqNum env c =
     (let i = word_of_int \<lfloor>simTime env * 250000\<rfloor>
      in c\<lparr>iss := i, snd_una := i, snd_nxt := i, snd_max := i,
           sendQueue := sq_init (i + 1) (sendQueue c)\<rparr>)"

definition isSegmentAcceptable :: "TCPSegment \<Rightarrow> TCPConnection \<Rightarrow> bool" where
  "isSegmentAcceptable seg c \<longleftrightarrow> seqGE (sequenceNo seg) (rcv_nxt c) \<and>
     seqLE (sequenceNo seg + payloadLength seg) (rcv_nxt c + rcv_wnd c)"

definition createAlgorithm :: "string \<Rightarrow> TCPAlgorithm res" where
  "createAlgorithm cls =
     (if cls = ''DumbTCP'' then Inr DumbTCP
      else if cls = ''TCPNoCongestionControl'' then Inr TCPNoCongestionControl
      else if cls = ''TCPTahoe'' then Inr TCPTahoe
      else if cls = ''TCPReno'' then Inr TCPReno
      else Inl (OppError ''class not found''))"

text \<open>\<^verbatim>\<open>initialize()\<close> of the algorithm classes: the timers, and the window of the one
  without congestion control.\<close>

definition DumbTCP_initialize :: "TCPConnection \<Rightarrow> TCPConnection" where
  "DumbTCP_initialize c = c\<lparr>rexmitTimer := TimerIdle\<rparr>"

definition TCPBaseAlg_initialize :: "TCPConnection \<Rightarrow> TCPConnection" where
  "TCPBaseAlg_initialize c = c\<lparr>rexmitTimer := TimerIdle, persistTimer := TimerIdle,
     delayedAckTimer := TimerIdle, keepAliveTimer := TimerIdle\<rparr>"

definition TCPNoCongestionControl_initialize :: "TCPConnection \<Rightarrow> TCPConnection" where
  "TCPNoCongestionControl_initialize c = (TCPBaseAlg_initialize c)\<lparr>snd_cwnd := 0x7fffffff\<rparr>"

definition alg_initialize :: "TCPConnection \<Rightarrow> TCPConnection" where
  "alg_initialize c = (case tcpAlgorithm c of
     DumbTCP \<Rightarrow> DumbTCP_initialize c
   | TCPNoCongestionControl \<Rightarrow> TCPNoCongestionControl_initialize c
   | _ \<Rightarrow> TCPBaseAlg_initialize c)"

text \<open>The class names of the open command; an empty name takes the module parameter.\<close>

record TCPOpenCommand =
  oc_connId :: int
  oc_localAddr :: IPvXAddress
  oc_remoteAddr :: IPvXAddress
  oc_localPort :: int
  oc_remotePort :: int
  oc_fork :: bool
  oc_sendQueueClass :: string
  oc_receiveQueueClass :: string
  oc_tcpAlgorithmClass :: string

definition orDefault :: "string \<Rightarrow> string \<Rightarrow> string" where
  "orDefault s d = (if s = [] then d else s)"

definition initConnection :: "TCPEnv \<Rightarrow> TCPOpenCommand \<Rightarrow> TCPConnection \<Rightarrow> TCPConnection res" where
  "initConnection env openCmd c =
     andThen (createSendQueue (orDefault (oc_sendQueueClass openCmd) (par_sendQueueClass env))) (\<lambda>sq.
     andThen (createReceiveQueue (orDefault (oc_receiveQueueClass openCmd) (par_receiveQueueClass env))) (\<lambda>rq.
     andThen (createAlgorithm (orDefault (oc_tcpAlgorithmClass openCmd) (par_tcpAlgorithmClass env))) (\<lambda>alg.
       let c = c\<lparr>sendQueue := sq, receiveQueue := rq, tcpAlgorithm := alg\<rparr>;
           c = initialTahoeRenoStateVariables (initialAlgStateVariables (initialStateVariables c));
           c = configureStateVariables env c
       in Inr (alg_initialize c))))"

text \<open>
  The clone gets fresh queues and an algorithm object of the same classes. The code calls
  \<^verbatim>\<open>configureStateVariables()\<close> on the connection that is cloned, not on the clone:
  the first component of the result is the cloned connection, the second the clone.
\<close>

definition cloneListeningConnection ::
  "TCPEnv \<Rightarrow> TCPConnection \<Rightarrow> (TCPConnection \<times> TCPConnection) res" where
  "cloneListeningConnection env c =
     andThen (createSendQueue (sendQueueClassName (sendQueue c))) (\<lambda>sq.
     andThen (createReceiveQueue (receiveQueueClassName (receiveQueue c))) (\<lambda>rq.
       let conn = (newConnection (appGateIndex c) (connId c))\<lparr>sendQueue := sq,
             receiveQueue := rq, tcpAlgorithm := tcpAlgorithm c\<rparr>;
           conn = initialTahoeRenoStateVariables (initialAlgStateVariables
                    (initialStateVariables conn));
           this = configureStateVariables env c;
           conn = alg_initialize conn
       in Inr (this, conn\<lparr>active := False, fork := True, localAddr := localAddr c,
                          localPort := localPort c, fsm := TCP_S_LISTEN\<rparr>)))"

end
