(* ===== verification/TCP_Flavours.thy ===== *)
theory TCP_Flavours imports TCP_Output
begin

text \<open>
  The algorithm classes (\<^verbatim>\<open>flavours/\<close>): \<^verbatim>\<open>DumbTCP\<close>,
  \<^verbatim>\<open>TCPBaseAlg\<close> (retransmission timer, round-trip time measurement, Nagle's algorithm,
  delayed acknowledgements) and what \<^verbatim>\<open>TCPNoCongestionControl\<close>,
  \<^verbatim>\<open>TCPTahoe\<close> and \<^verbatim>\<open>TCPReno\<close> redefine of it. A virtual method is a function
  named \<open>alg_...\<close> that dispatches on the class of the connection's algorithm object.
\<close>

section \<open>The common base\<close>

definition DELAYED_ACK_TIMEOUT :: simtime where [simp]: "DELAYED_ACK_TIMEOUT = 1 / 5"
definition MAX_REXMIT_COUNT :: int where [simp]: "MAX_REXMIT_COUNT = 12"
definition MIN_REXMIT_TIMEOUT :: simtime where [simp]: "MIN_REXMIT_TIMEOUT = 1"
definition MAX_REXMIT_TIMEOUT :: simtime where [simp]: "MAX_REXMIT_TIMEOUT = 240"

text \<open>The self-messages a connection can receive.\<close>

datatype TCPTimerMsg =
    The2MSLTimer | ConnEstabTimer | FinWait2Timer | SynRexmitTimer
  | RexmitTimer | PersistTimer | DelayedAckTimer | KeepAliveTimer

definition TCPBaseAlg_sendData :: "TCPEnv \<Rightarrow> TCPConnection \<Rightarrow> (TCPConnection \<times> bool) res" where
  "TCPBaseAlg_sendData env c =
     (let fullSegmentsOnly = (nagle_enabled c \<and> snd_una c \<noteq> snd_max c)
      in sendData env fullSegmentsOnly (sint (snd_cwnd c)) c)"

definition TCPBaseAlg_established :: "TCPEnv \<Rightarrow> bool \<Rightarrow> TCPConnection \<Rightarrow> TCPConnection res" where
  "TCPBaseAlg_established env act c =
     (let c = c\<lparr>snd_cwnd := snd_mss c\<rparr>
      in if act
         then andThen (TCPBaseAlg_sendData env c) (\<lambda>(c, sent). if \<not> sent then sendAck c else Inr c)
         else Inr c)"

definition TCPBaseAlg_processRexmitTimer ::
  "TCPEnv \<Rightarrow> TCPEventCode \<Rightarrow> TCPConnection \<Rightarrow> (TCPConnection \<times> TCPEventCode) res" where
  "TCPBaseAlg_processRexmitTimer env event c =
     (let c = c\<lparr>rexmit_count := rexmit_count c + 1\<rparr>
      in if MAX_REXMIT_COUNT < rexmit_count c
         then Inr (signalConnectionTimeout c, TCP_E_ABORT)
         else let rto = rexmit_timeout c + rexmit_timeout c;
                  rto = (if MAX_REXMIT_TIMEOUT < rto then MAX_REXMIT_TIMEOUT else rto);
                  c = c\<lparr>rexmit_timeout := rto\<rparr>
              in andThen (timeoutAt env (rexmit_timeout c) (rexmitTimer c)) (\<lambda>t.
                   Inr (c\<lparr>rexmitTimer := t, rtseq_sendtime := 0\<rparr>, event)))"

definition TCPBaseAlg_processPersistTimer :: "TCPEnv \<Rightarrow> TCPConnection \<Rightarrow> TCPConnection res" where
  "TCPBaseAlg_processPersistTimer env c = andThen (sendProbe env c) (\<lambda>(c, sent). Inr c)"

definition TCPBaseAlg_processDelayedAckTimer :: "TCPConnection \<Rightarrow> TCPConnection res" where
  "TCPBaseAlg_processDelayedAckTimer c = sendAck c"

definition TCPBaseAlg_processKeepAliveTimer :: "TCPConnection \<Rightarrow> TCPConnection res" where
  "TCPBaseAlg_processKeepAliveTimer c = Inr c"

text \<open>
  Jacobson's estimator. The product with the \<^verbatim>\<open>double\<close> 0.125 is rounded to the
  resolution of the kernel's time type.
\<close>

definition TCPBaseAlg_rttMeasurementComplete ::
  "TCPEnv \<Rightarrow> simtime \<Rightarrow> simtime \<Rightarrow> TCPConnection \<Rightarrow> TCPConnection" where
  "TCPBaseAlg_rttMeasurementComplete env tSent tAcked c =
     (let newRTT = tAcked - tSent;
          err = newRTT - srtt c;
          c = c\<lparr>srtt := srtt c + roundTime env (err / 8)\<rparr>;
          c = c\<lparr>rttvar := rttvar c + roundTime env ((\<bar>err\<bar> - rttvar c) / 8)\<rparr>;
          rto = srtt c + 4 * rttvar c;
          rto = (if MAX_REXMIT_TIMEOUT < rto then MAX_REXMIT_TIMEOUT
                 else if rto < MIN_REXMIT_TIMEOUT then MIN_REXMIT_TIMEOUT else rto)
      in c\<lparr>rexmit_timeout := rto\<rparr>)"

definition TCPBaseAlg_sendCommandInvoked :: "TCPEnv \<Rightarrow> TCPConnection \<Rightarrow> TCPConnection res" where
  "TCPBaseAlg_sendCommandInvoked env c = andThen (TCPBaseAlg_sendData env c) (\<lambda>(c, sent). Inr c)"

definition TCPBaseAlg_receivedOutOfOrderSegment :: "TCPConnection \<Rightarrow> TCPConnection res" where
  "TCPBaseAlg_receivedOutOfOrderSegment c = sendAck c"

definition TCPBaseAlg_receiveSeqChanged :: "TCPEnv \<Rightarrow> TCPConnection \<Rightarrow> TCPConnection res" where
  "TCPBaseAlg_receiveSeqChanged env c =
     (if \<not> delayed_acks_enabled c then sendAck c
      else andThen (isScheduled (delayedAckTimer c)) (\<lambda>b.
        if \<not> b then andThen (timeoutAt env DELAYED_ACK_TIMEOUT (delayedAckTimer c)) (\<lambda>t.
                      Inr (c\<lparr>delayedAckTimer := t\<rparr>))
        else Inr c))"

definition TCPBaseAlg_receivedDataAck ::
  "TCPEnv \<Rightarrow> uint32 \<Rightarrow> TCPConnection \<Rightarrow> TCPConnection res" where
  "TCPBaseAlg_receivedDataAck env firstSeqAcked c =
     (let c = (if rtseq_sendtime c \<noteq> 0 \<and> seqLess (rtseq c) (snd_una c)
               then (TCPBaseAlg_rttMeasurementComplete env (rtseq_sendtime c) (simTime env) c)
                      \<lparr>rtseq_sendtime := 0\<rparr>
               else c)
      in if snd_una c = snd_max c
         then andThen (isScheduled (rexmitTimer c)) (\<lambda>b.
                if b then andThen (cancelTimer (rexmitTimer c)) (\<lambda>t. Inr (c\<lparr>rexmitTimer := t\<rparr>))
                else Inr c)
         else andThen (cancelTimer (rexmitTimer c)) (\<lambda>t.
                TCPBaseAlg_startRexmitTimer env (c\<lparr>rexmitTimer := t\<rparr>)))"

definition TCPBaseAlg_receivedDuplicateAck :: "TCPConnection \<Rightarrow> TCPConnection res" where
  "TCPBaseAlg_receivedDuplicateAck c = Inr c"

definition TCPBaseAlg_receivedAckForDataNotYetSent :: "uint32 \<Rightarrow> TCPConnection \<Rightarrow> TCPConnection res"
  where
  "TCPBaseAlg_receivedAckForDataNotYetSent s c = sendAck c"

section \<open>Dumb TCP\<close>

definition DumbTCP_established :: "TCPEnv \<Rightarrow> bool \<Rightarrow> TCPConnection \<Rightarrow> TCPConnection res" where
  "DumbTCP_established env act c =
     (if act then andThen (sendData env False (-1) c) (\<lambda>(c, sent).
                    if \<not> sent then sendAck c else Inr c)
      else Inr c)"

definition DumbTCP_processTimer ::
  "TCPEnv \<Rightarrow> TCPTimerMsg \<Rightarrow> TCPEventCode \<Rightarrow> TCPConnection \<Rightarrow> (TCPConnection \<times> TCPEventCode) res" where
  "DumbTCP_processTimer env timer event c =
     checked (timer = RexmitTimer) (OppError ''unrecognized timer'')
       (andThen (retransmitData c) (\<lambda>c.
        andThen (timeoutAt env DumbTCP_REXMIT_TIMEOUT (rexmitTimer c)) (\<lambda>t.
          Inr (c\<lparr>rexmitTimer := t\<rparr>, event))))"

definition DumbTCP_sendCommandInvoked :: "TCPEnv \<Rightarrow> TCPConnection \<Rightarrow> TCPConnection res" where
  "DumbTCP_sendCommandInvoked env c = andThen (sendData env False (-1) c) (\<lambda>(c, sent). Inr c)"

definition DumbTCP_receivedOutOfOrderSegment :: "TCPConnection \<Rightarrow> TCPConnection res" where
  "DumbTCP_receivedOutOfOrderSegment c = sendAck c"

definition DumbTCP_receiveSeqChanged :: "TCPConnection \<Rightarrow> TCPConnection res" where
  "DumbTCP_receiveSeqChanged c = sendAck c"

definition DumbTCP_receivedDataAck :: "TCPEnv \<Rightarrow> uint32 \<Rightarrow> TCPConnection \<Rightarrow> TCPConnection res" where
  "DumbTCP_receivedDataAck env firstSeqAcked c =
     andThen (sendData env False (-1) c) (\<lambda>(c, sent). Inr c)"

definition DumbTCP_receivedDuplicateAck :: "TCPConnection \<Rightarrow> TCPConnection res" where
  "DumbTCP_receivedDuplicateAck c = Inr c"

definition DumbTCP_receivedAckForDataNotYetSent :: "uint32 \<Rightarrow> TCPConnection \<Rightarrow> TCPConnection res"
  where
  "DumbTCP_receivedAckForDataNotYetSent s c = sendAck c"

section \<open>No congestion control\<close>

definition TCPNoCongestionControl_processRexmitTimer ::
  "TCPEnv \<Rightarrow> TCPEventCode \<Rightarrow> TCPConnection \<Rightarrow> (TCPConnection \<times> TCPEventCode) res" where
  "TCPNoCongestionControl_processRexmitTimer env event c =
     andThen (TCPBaseAlg_processRexmitTimer env event c) (\<lambda>(c, event).
       if event = TCP_E_ABORT then Inr (c, event)
       else andThen (retransmitOneSegment c) (\<lambda>c. Inr (c, event)))"

definition TCPNoCongestionControl_receivedDataAck ::
  "TCPEnv \<Rightarrow> uint32 \<Rightarrow> TCPConnection \<Rightarrow> TCPConnection res" where
  "TCPNoCongestionControl_receivedDataAck env firstSeqAcked c =
     andThen (TCPBaseAlg_receivedDataAck env firstSeqAcked c) (\<lambda>c.
     andThen (TCPBaseAlg_sendData env c) (\<lambda>(c, sent). Inr c))"

section \<open>Tahoe and Reno\<close>

text \<open>Both classes have the same body of \<^verbatim>\<open>recalculateSlowStartThreshold()\<close>.\<close>

definition TCPTahoe_recalculateSlowStartThreshold :: "TCPConnection \<Rightarrow> TCPConnection" where
  "TCPTahoe_recalculateSlowStartThreshold c =
     (let flight_size = min (snd_cwnd c) (snd_wnd c)
      in c\<lparr>ssthresh := max (flight_size div 2) (2 * snd_mss c)\<rparr>)"

definition TCPReno_recalculateSlowStartThreshold :: "TCPConnection \<Rightarrow> TCPConnection" where
  "TCPReno_recalculateSlowStartThreshold c =
     (let flight_size = min (snd_cwnd c) (snd_wnd c)
      in c\<lparr>ssthresh := max (flight_size div 2) (2 * snd_mss c)\<rparr>)"

definition TCPTahoe_processRexmitTimer ::
  "TCPEnv \<Rightarrow> TCPEventCode \<Rightarrow> TCPConnection \<Rightarrow> (TCPConnection \<times> TCPEventCode) res" where
  "TCPTahoe_processRexmitTimer env event c =
     andThen (TCPBaseAlg_processRexmitTimer env event c) (\<lambda>(c, event).
       if event = TCP_E_ABORT then Inr (c, event)
       else let c = TCPTahoe_recalculateSlowStartThreshold c;
                c = c\<lparr>snd_cwnd := snd_mss c\<rparr>
            in andThen (retransmitOneSegment c) (\<lambda>c. Inr (c, event)))"

definition TCPReno_processRexmitTimer ::
  "TCPEnv \<Rightarrow> TCPEventCode \<Rightarrow> TCPConnection \<Rightarrow> (TCPConnection \<times> TCPEventCode) res" where
  "TCPReno_processRexmitTimer env event c =
     andThen (TCPBaseAlg_processRexmitTimer env event c) (\<lambda>(c, event).
       if event = TCP_E_ABORT then Inr (c, event)
       else let c = TCPReno_recalculateSlowStartThreshold c;
                c = c\<lparr>snd_cwnd := snd_mss c\<rparr>
            in andThen (retransmitData c) (\<lambda>c. Inr (c, event)))"

text \<open>
  Slow start below the threshold, congestion avoidance above it; the unsigned division by the
  congestion window traps when it is zero. Tahoe and Reno contain the same code.
\<close>

definition increaseCwnd :: "TCPConnection \<Rightarrow> TCPConnection res" where
  "increaseCwnd c =
     (if snd_cwnd c < ssthresh c then Inr (c\<lparr>snd_cwnd := snd_cwnd c + snd_mss c\<rparr>)
      else checked (snd_cwnd c \<noteq> 0) (DivisionByZero ''snd_mss*snd_mss/snd_cwnd'')
        (let incr = snd_mss c * snd_mss c div snd_cwnd c;
             incr = (if incr = 0 then 1 else incr)
         in Inr (c\<lparr>snd_cwnd := snd_cwnd c + incr\<rparr>)))"

definition TCPTahoe_receivedDataAck ::
  "TCPEnv \<Rightarrow> uint32 \<Rightarrow> TCPConnection \<Rightarrow> TCPConnection res" where
  "TCPTahoe_receivedDataAck env firstSeqAcked c =
     andThen (TCPBaseAlg_receivedDataAck env firstSeqAcked c) (\<lambda>c.
     andThen (increaseCwnd c) (\<lambda>c.
     andThen (TCPBaseAlg_sendData env c) (\<lambda>(c, sent). Inr c)))"

definition TCPReno_receivedDataAck ::
  "TCPEnv \<Rightarrow> uint32 \<Rightarrow> TCPConnection \<Rightarrow> TCPConnection res" where
  "TCPReno_receivedDataAck env firstSeqAcked c =
     andThen (TCPBaseAlg_receivedDataAck env firstSeqAcked c) (\<lambda>c.
     andThen (if 3 \<le> dupacks c then Inr (c\<lparr>snd_cwnd := ssthresh c\<rparr>) else increaseCwnd c) (\<lambda>c.
     andThen (TCPBaseAlg_sendData env c) (\<lambda>(c, sent). Inr c)))"

definition TCPTahoe_receivedDuplicateAck :: "TCPEnv \<Rightarrow> TCPConnection \<Rightarrow> TCPConnection res" where
  "TCPTahoe_receivedDuplicateAck env c =
     andThen (TCPBaseAlg_receivedDuplicateAck c) (\<lambda>c.
       if dupacks c = 3
       then andThen (retransmitOneSegment c) (\<lambda>c.
         let c = TCPTahoe_recalculateSlowStartThreshold c;
             c = c\<lparr>snd_cwnd := snd_mss c\<rparr>
         in andThen (cancelTimer (rexmitTimer c)) (\<lambda>t.
            andThen (TCPBaseAlg_startRexmitTimer env (c\<lparr>rexmitTimer := t\<rparr>)) (\<lambda>c.
              Inr (c\<lparr>rtseq_sendtime := 0\<rparr>))))
       else Inr c)"

definition TCPReno_receivedDuplicateAck :: "TCPEnv \<Rightarrow> TCPConnection \<Rightarrow> TCPConnection res" where
  "TCPReno_receivedDuplicateAck env c =
     andThen (TCPBaseAlg_receivedDuplicateAck c) (\<lambda>c.
       if dupacks c = 3
       then andThen (retransmitOneSegment c) (\<lambda>c.
         let c = TCPReno_recalculateSlowStartThreshold c;
             c = c\<lparr>snd_cwnd := ssthresh c + 3 * snd_mss c\<rparr>
         in andThen (cancelTimer (rexmitTimer c)) (\<lambda>t.
            andThen (TCPBaseAlg_startRexmitTimer env (c\<lparr>rexmitTimer := t\<rparr>)) (\<lambda>c.
              Inr (c\<lparr>rtseq_sendtime := 0\<rparr>))))
       else if 3 < dupacks c
       then let c = c\<lparr>snd_cwnd := snd_cwnd c + snd_mss c\<rparr>
            in andThen (TCPBaseAlg_sendData env c) (\<lambda>(c, sent). Inr c)
       else Inr c)"

section \<open>Dispatch\<close>

definition alg_established :: "TCPEnv \<Rightarrow> bool \<Rightarrow> TCPConnection \<Rightarrow> TCPConnection res" where
  "alg_established env act c = (case tcpAlgorithm c of
     DumbTCP \<Rightarrow> DumbTCP_established env act c
   | _ \<Rightarrow> TCPBaseAlg_established env act c)"

definition alg_processRexmitTimer ::
  "TCPEnv \<Rightarrow> TCPEventCode \<Rightarrow> TCPConnection \<Rightarrow> (TCPConnection \<times> TCPEventCode) res" where
  "alg_processRexmitTimer env event c = (case tcpAlgorithm c of
     TCPTahoe \<Rightarrow> TCPTahoe_processRexmitTimer env event c
   | TCPReno \<Rightarrow> TCPReno_processRexmitTimer env event c
   | _ \<Rightarrow> TCPNoCongestionControl_processRexmitTimer env event c)"

definition TCPBaseAlg_processTimer ::
  "TCPEnv \<Rightarrow> TCPTimerMsg \<Rightarrow> TCPEventCode \<Rightarrow> TCPConnection \<Rightarrow> (TCPConnection \<times> TCPEventCode) res" where
  "TCPBaseAlg_processTimer env timer event c =
     (if timer = RexmitTimer then alg_processRexmitTimer env event c
      else if timer = PersistTimer
        then andThen (TCPBaseAlg_processPersistTimer env c) (\<lambda>c. Inr (c, event))
      else if timer = DelayedAckTimer
        then andThen (TCPBaseAlg_processDelayedAckTimer c) (\<lambda>c. Inr (c, event))
      else if timer = KeepAliveTimer
        then andThen (TCPBaseAlg_processKeepAliveTimer c) (\<lambda>c. Inr (c, event))
      else Inl (OppError ''unrecognized timer''))"

definition alg_processTimer ::
  "TCPEnv \<Rightarrow> TCPTimerMsg \<Rightarrow> TCPEventCode \<Rightarrow> TCPConnection \<Rightarrow> (TCPConnection \<times> TCPEventCode) res" where
  "alg_processTimer env timer event c = (case tcpAlgorithm c of
     DumbTCP \<Rightarrow> DumbTCP_processTimer env timer event c
   | _ \<Rightarrow> TCPBaseAlg_processTimer env timer event c)"

definition alg_sendCommandInvoked :: "TCPEnv \<Rightarrow> TCPConnection \<Rightarrow> TCPConnection res" where
  "alg_sendCommandInvoked env c = (case tcpAlgorithm c of
     DumbTCP \<Rightarrow> DumbTCP_sendCommandInvoked env c
   | _ \<Rightarrow> TCPBaseAlg_sendCommandInvoked env c)"

definition alg_receivedOutOfOrderSegment :: "TCPConnection \<Rightarrow> TCPConnection res" where
  "alg_receivedOutOfOrderSegment c = (case tcpAlgorithm c of
     DumbTCP \<Rightarrow> DumbTCP_receivedOutOfOrderSegment c
   | _ \<Rightarrow> TCPBaseAlg_receivedOutOfOrderSegment c)"

definition alg_receiveSeqChanged :: "TCPEnv \<Rightarrow> TCPConnection \<Rightarrow> TCPConnection res" where
  "alg_receiveSeqChanged env c = (case tcpAlgorithm c of
     DumbTCP \<Rightarrow> DumbTCP_receiveSeqChanged c
   | _ \<Rightarrow> TCPBaseAlg_receiveSeqChanged env c)"

definition alg_receivedDataAck :: "TCPEnv \<Rightarrow> uint32 \<Rightarrow> TCPConnection \<Rightarrow> TCPConnection res" where
  "alg_receivedDataAck env firstSeqAcked c = (case tcpAlgorithm c of
     DumbTCP \<Rightarrow> DumbTCP_receivedDataAck env firstSeqAcked c
   | TCPNoCongestionControl \<Rightarrow> TCPNoCongestionControl_receivedDataAck env firstSeqAcked c
   | TCPTahoe \<Rightarrow> TCPTahoe_receivedDataAck env firstSeqAcked c
   | TCPReno \<Rightarrow> TCPReno_receivedDataAck env firstSeqAcked c)"

definition alg_receivedDuplicateAck :: "TCPEnv \<Rightarrow> TCPConnection \<Rightarrow> TCPConnection res" where
  "alg_receivedDuplicateAck env c = (case tcpAlgorithm c of
     DumbTCP \<Rightarrow> DumbTCP_receivedDuplicateAck c
   | TCPNoCongestionControl \<Rightarrow> TCPBaseAlg_receivedDuplicateAck c
   | TCPTahoe \<Rightarrow> TCPTahoe_receivedDuplicateAck env c
   | TCPReno \<Rightarrow> TCPReno_receivedDuplicateAck env c)"

definition alg_receivedAckForDataNotYetSent :: "uint32 \<Rightarrow> TCPConnection \<Rightarrow> TCPConnection res" where
  "alg_receivedAckForDataNotYetSent s c = (case tcpAlgorithm c of
     DumbTCP \<Rightarrow> DumbTCP_receivedAckForDataNotYetSent s c
   | _ \<Rightarrow> TCPBaseAlg_receivedAckForDataNotYetSent s c)"

end
