(* ===== verification/TCP_Input.thy ===== *)
theory TCP_Input imports TCP_Flavours
begin

text \<open>
  Segment arrival in the synchronised states and the connection's own timers
  (\<^verbatim>\<open>TCPConnectionRcvSegment.cc\<close>). \<^verbatim>\<open>processSegment1stThru8th()\<close> is
  cut at the steps of RFC 793 that its comments name. Segments that arrive in LISTEN and SYN-SENT
  also change the module's tables; they are in \<open>TCP_Module\<close>.
\<close>

section \<open>No connection\<close>

text \<open>
  The temporary connection on which the code calls this has no state block, so the
  \<^verbatim>\<open>ASSERT(state==NULL)\<close> holds.
\<close>

definition segmentArrivalWhileClosed ::
  "TCPSegment \<Rightarrow> IPvXAddress \<Rightarrow> IPvXAddress \<Rightarrow> TCPConnection \<Rightarrow> TCPConnection res" where
  "segmentArrivalWhileClosed seg srcAddr destAddr c =
     (if rstBit seg then Inr c
      else if \<not> ackBit seg
        then sendRstAck 0 (sequenceNo seg + payloadLength seg) destAddr srcAddr
               (getDestPort seg) (getSrcPort seg) c
      else sendRst_from (ackNo seg) destAddr srcAddr (getDestPort seg) (getSrcPort seg) c)"

section \<open>Acknowledgements\<close>

definition processRstInSynReceived ::
  "TCPSegment \<Rightarrow> TCPConnection \<Rightarrow> (TCPConnection \<times> TCPEventCode) res" where
  "processRstInSynReceived seg c =
     andThen (sq_discardUpTo (sq_getBufferEndSeq (sendQueue c)) (sendQueue c)) (\<lambda>q.
       let c = c\<lparr>sendQueue := q\<rparr>;
           c = (if active c then sendIndicationToApp TCP_I_CONNECTION_REFUSED c else c)
       in Inr (c, TCP_E_RCV_RST))"

text \<open>An acknowledgement of new data: \<^verbatim>\<open>snd_una\<close>, the send queue and the window.\<close>

definition updateSendWindow :: "TCPSegment \<Rightarrow> TCPConnection \<Rightarrow> TCPConnection" where
  "updateSendWindow seg c =
     (if seqLess (snd_wl1 c) (sequenceNo seg) \<or>
         snd_wl1 c = sequenceNo seg \<and> seqLE (snd_wl2 c) (ackNo seg)
      then c\<lparr>snd_wnd := ucast (window seg), snd_wl1 := sequenceNo seg, snd_wl2 := ackNo seg\<rparr>
      else c)"

definition ackInWindow :: "TCPEnv \<Rightarrow> TCPSegment \<Rightarrow> TCPConnection \<Rightarrow> TCPConnection res" where
  "ackInWindow env seg c =
     (let old_snd_una = snd_una c;
          c = c\<lparr>snd_una := ackNo seg\<rparr>;
          c = (if seqLess (snd_nxt c) (snd_una c) then c\<lparr>snd_nxt := snd_una c\<rparr> else c);
          discardUpToSeq = snd_una c;
          finAcked = (send_fin c \<and> ackNo seg = snd_fin_seq c + 1);
          c = (if finAcked then c\<lparr>fin_ack_rcvd := True\<rparr> else c);
          discardUpToSeq = (if finAcked then discardUpToSeq - 1 else discardUpToSeq)
      in andThen (sq_discardUpTo discardUpToSeq (sendQueue c)) (\<lambda>q.
         andThen (alg_receivedDataAck env old_snd_una (updateSendWindow seg (c\<lparr>sendQueue := q\<rparr>))) (\<lambda>c.
           Inr (c\<lparr>dupacks := 0\<rparr>))))"

definition processAckInEstabEtc ::
  "TCPEnv \<Rightarrow> TCPSegment \<Rightarrow> TCPConnection \<Rightarrow> (TCPConnection \<times> bool) res" where
  "processAckInEstabEtc env seg c =
     (if seqGE (snd_una c) (ackNo seg)
      then if snd_una c = ackNo seg \<and> payloadLength seg = 0 \<and> snd_una c \<noteq> snd_max c
           then andThen (alg_receivedDuplicateAck env (c\<lparr>dupacks := toShort (dupacks c + 1)\<rparr>)) (\<lambda>c.
                  Inr (c, True))
           else Inr (c\<lparr>dupacks := 0\<rparr>, True)
      else if seqLE (ackNo seg) (snd_max c)
      then andThen (ackInWindow env seg c) (\<lambda>c. Inr (c, True))
      else checked (seqGreater (ackNo seg) (snd_max c))
             (AssertFailed ''seqGreater(tcpseg->getAckNo(), state->snd_max)'')
             (andThen (alg_receivedAckForDataNotYetSent (ackNo seg) c) (\<lambda>c.
                Inr (c\<lparr>dupacks := 0\<rparr>, False))))"

section \<open>The steps of RFC 793\<close>

text \<open>Second step: the RST bit.\<close>

definition checkRstBit :: "TCPSegment \<Rightarrow> TCPConnection \<Rightarrow> (TCPConnection \<times> TCPEventCode) res" where
  "checkRstBit seg c = (case fsm c of
     TCP_S_SYN_RCVD \<Rightarrow> processRstInSynReceived seg c
   | TCP_S_ESTABLISHED \<Rightarrow> Inr (sendIndicationToApp TCP_I_CONNECTION_RESET c, TCP_E_RCV_RST)
   | TCP_S_FIN_WAIT_1 \<Rightarrow> Inr (sendIndicationToApp TCP_I_CONNECTION_RESET c, TCP_E_RCV_RST)
   | TCP_S_FIN_WAIT_2 \<Rightarrow> Inr (sendIndicationToApp TCP_I_CONNECTION_RESET c, TCP_E_RCV_RST)
   | TCP_S_CLOSE_WAIT \<Rightarrow> Inr (sendIndicationToApp TCP_I_CONNECTION_RESET c, TCP_E_RCV_RST)
   | TCP_S_CLOSING \<Rightarrow> Inr (sendIndicationToApp TCP_I_CLOSED c, TCP_E_RCV_RST)
   | TCP_S_LAST_ACK \<Rightarrow> Inr (sendIndicationToApp TCP_I_CLOSED c, TCP_E_RCV_RST)
   | TCP_S_TIME_WAIT \<Rightarrow> Inr (c, TCP_E_RCV_RST)
   | _ \<Rightarrow> Inl (AssertFailed ''0''))"

text \<open>Restart of the 2MSL timer, which the code writes out three times.\<close>

definition schedule2MSL :: "TCPEnv \<Rightarrow> TCPConnection \<Rightarrow> TCPConnection res" where
  "schedule2MSL env c = andThen (timeoutAt env TCP_TIMEOUT_2MSL (the2MSLTimer c)) (\<lambda>t.
     Inr (c\<lparr>the2MSLTimer := t\<rparr>))"

definition cancel2MSL :: "TCPConnection \<Rightarrow> TCPConnection res" where
  "cancel2MSL c = andThen (cancelTimer (the2MSLTimer c)) (\<lambda>t. Inr (c\<lparr>the2MSLTimer := t\<rparr>))"

text \<open>
  Fifth step: the ACK field, after the check of SYN-RECEIVED. The boolean tells that the
  segment has been dealt with and the function returns the event.
\<close>

definition checkAckField ::
  "TCPEnv \<Rightarrow> TCPSegment \<Rightarrow> TCPEventCode \<Rightarrow> TCPConnection \<Rightarrow>
   (TCPConnection \<times> TCPEventCode \<times> bool) res" where
  "checkAckField env seg event c =
     andThen (if fsm c \<in> {TCP_S_SYN_RCVD, TCP_S_ESTABLISHED, TCP_S_FIN_WAIT_1, TCP_S_FIN_WAIT_2,
                TCP_S_CLOSE_WAIT, TCP_S_CLOSING}
              then processAckInEstabEtc env seg c else Inr (c, True)) (\<lambda>(c, ok).
     if \<not> ok then Inr (c, TCP_E_IGNORE, True)
     else let event = (if fsm c = TCP_S_FIN_WAIT_1 \<and> fin_ack_rcvd c then TCP_E_RCV_ACK else event)
     in andThen (if fsm c = TCP_S_CLOSING \<and> fin_ack_rcvd c
                 then andThen (schedule2MSL env c) (\<lambda>c.
                        Inr (sendIndicationToApp TCP_I_CLOSED c, TCP_E_RCV_ACK))
                 else Inr (c, event)) (\<lambda>(c, event).
        if fsm c = TCP_S_LAST_ACK \<and> send_fin c \<and> ackNo seg = snd_fin_seq c + 1
        then Inr (sendIndicationToApp TCP_I_CLOSED c, TCP_E_RCV_ACK, True)
        else andThen (if fsm c = TCP_S_TIME_WAIT
                      then andThen (sendAck c) (\<lambda>c. andThen (cancel2MSL c) (schedule2MSL env))
                      else Inr c) (\<lambda>c.
             Inr (c, event, False))))"

text \<open>Seventh step: the segment text.\<close>

definition processSegmentText :: "TCPEnv \<Rightarrow> TCPSegment \<Rightarrow> TCPConnection \<Rightarrow> TCPConnection res" where
  "processSegmentText env seg c =
     (if fsm c \<in> {TCP_S_SYN_RCVD, TCP_S_ESTABLISHED, TCP_S_FIN_WAIT_1, TCP_S_FIN_WAIT_2} \<and>
         hasPayload seg
      then let old_rcv_nxt = rcv_nxt c;
               q = rq_insertBytesFromSegment seg (receiveQueue c);
               c = c\<lparr>receiveQueue := q, rcv_nxt := rq_nxt q\<rparr>
           in if old_rcv_nxt = rcv_nxt c then alg_receivedOutOfOrderSegment c
              else andThen (rq_extractAll (rcv_nxt c) (receiveQueue c)) (\<lambda>(q, msgs).
                let c = fold (\<lambda>m. sendToApp (DataIndication (connId c) m)) msgs (c\<lparr>receiveQueue := q\<rparr>)
                in Inr (if fin_rcvd c \<and> rcv_nxt c = rcv_fin_seq c
                        then sendIndicationToApp TCP_I_PEER_CLOSED (c\<lparr>rcv_nxt := rcv_fin_seq c + 1\<rparr>)
                        else c))
      else Inr c)"

text \<open>Eighth step: the FIN bit.\<close>

definition enterTimeWait :: "TCPEnv \<Rightarrow> TCPConnection \<Rightarrow> TCPConnection res" where
  "enterTimeWait env c =
     andThen (cancelTimer (finWait2Timer c)) (\<lambda>t.
     andThen (schedule2MSL env (c\<lparr>finWait2Timer := t\<rparr>)) (\<lambda>c.
       Inr (sendIndicationToApp TCP_I_CLOSED c)))"

definition checkFinBit ::
  "TCPEnv \<Rightarrow> TCPSegment \<Rightarrow> TCPEventCode \<Rightarrow> TCPConnection \<Rightarrow> (TCPConnection \<times> TCPEventCode) res" where
  "checkFinBit env seg event c =
     (if finBit seg
      then let fin_seq = sequenceNo seg + payloadLength seg;
               c = (if rcv_nxt c = fin_seq
                    then sendIndicationToApp TCP_I_PEER_CLOSED (c\<lparr>rcv_nxt := rcv_nxt c + 1\<rparr>)
                    else c\<lparr>fin_rcvd := True, rcv_fin_seq := fin_seq\<rparr>)
           in case fsm c of
                TCP_S_FIN_WAIT_1 \<Rightarrow>
                  if fin_ack_rcvd c
                  then andThen (enterTimeWait env c) (\<lambda>c. Inr (c, TCP_E_RCV_FIN_ACK))
                  else Inr (c, TCP_E_RCV_FIN)
              | TCP_S_FIN_WAIT_2 \<Rightarrow> andThen (enterTimeWait env c) (\<lambda>c. Inr (c, TCP_E_RCV_FIN))
              | TCP_S_TIME_WAIT \<Rightarrow>
                  andThen (cancel2MSL c) (\<lambda>c. andThen (schedule2MSL env c) (\<lambda>c. Inr (c, TCP_E_RCV_FIN)))
              | _ \<Rightarrow> Inr (c, TCP_E_RCV_FIN)
      else Inr (c, event))"

text \<open>The CLOSE of the user that was put off until the FIN could be sent.\<close>

definition deferredClose :: "uint32 \<Rightarrow> TCPEventCode \<Rightarrow> TCPConnection \<Rightarrow> TCPEventCode" where
  "deferredClose old_snd_nxt event c =
     (let event = (if (fsm c = TCP_S_ESTABLISHED \<or> fsm c = TCP_S_SYN_RCVD) \<and>
                      send_fin c \<and> snd_nxt c = snd_fin_seq c + 1 then TCP_E_CLOSE else event)
      in if fsm c = TCP_S_CLOSE_WAIT \<and> send_fin c \<and> snd_nxt c = snd_fin_seq c + 1 \<and>
            old_snd_nxt \<noteq> snd_nxt c
         then TCP_E_CLOSE else event)"

text \<open>SYN-RECEIVED with an acceptable acknowledgement: the connection is established.\<close>

definition passiveEstablished ::
  "TCPEnv \<Rightarrow> TCPConnection \<Rightarrow> (TCPConnection \<times> TCPEventCode) res" where
  "passiveEstablished env c =
     (if fsm c = TCP_S_SYN_RCVD
      then andThen (alg_established env False c) (\<lambda>c. Inr (sendEstabIndicationToApp c, TCP_E_RCV_ACK))
      else Inr (c, TCP_E_IGNORE))"

definition processSegment5thThru8th ::
  "TCPEnv \<Rightarrow> TCPSegment \<Rightarrow> TCPConnection \<Rightarrow> (TCPConnection \<times> TCPEventCode) res" where
  "processSegment5thThru8th env seg c =
     andThen (passiveEstablished env c) (\<lambda>(c, event).
       let old_snd_nxt = snd_nxt c
       in andThen (checkAckField env seg event c) (\<lambda>(c, event, finished).
         if finished then Inr (c, event)
         else let old_rcv_nxt = rcv_nxt c
         in andThen (processSegmentText env seg c) (\<lambda>c.
            andThen (checkFinBit env seg event c) (\<lambda>(c, event).
            andThen (if old_rcv_nxt \<noteq> rcv_nxt c then alg_receiveSeqChanged env c else Inr c) (\<lambda>c.
              Inr (c, deferredClose old_snd_nxt event c))))))"

definition processSegment1stThru8th ::
  "TCPEnv \<Rightarrow> TCPSegment \<Rightarrow> TCPConnection \<Rightarrow> (TCPConnection \<times> TCPEventCode) res" where
  "processSegment1stThru8th env seg c =
     (if \<not> isSegmentAcceptable seg c
      then if rstBit seg then Inr (c, TCP_E_IGNORE)
           else andThen (sendAck c) (\<lambda>c. Inr (c, TCP_E_IGNORE))
      else if rstBit seg then checkRstBit seg c
      else if synBit seg
      then checked (isSegmentAcceptable seg c) (AssertFailed ''isSegmentAcceptable(tcpseg)'')
             (Inr (sendIndicationToApp TCP_I_CONNECTION_RESET c, TCP_E_RCV_UNEXP_SYN))
      else if \<not> ackBit seg then Inr (c, TCP_E_IGNORE)
      else if fsm c = TCP_S_SYN_RCVD \<and>
              (\<not> seqLE (snd_una c) (ackNo seg) \<or> \<not> seqLE (ackNo seg) (snd_nxt c))
      then andThen (sendRst (ackNo seg) c) (\<lambda>c. Inr (c, TCP_E_IGNORE))
      else processSegment5thThru8th env seg c)"

section \<open>Timers of the connection\<close>

definition process_TIMEOUT_CONN_ESTAB :: "TCPConnection \<Rightarrow> TCPConnection res" where
  "process_TIMEOUT_CONN_ESTAB c =
     (if fsm c = TCP_S_SYN_RCVD \<or> fsm c = TCP_S_SYN_SENT
      then Inr (if active c then sendIndicationToApp TCP_I_TIMED_OUT c else c)
      else Inl (OppError ''Internal error: received CONN_ESTAB timeout''))"

definition process_TIMEOUT_2MSL :: "TCPConnection \<Rightarrow> TCPConnection res" where
  "process_TIMEOUT_2MSL c =
     (if fsm c = TCP_S_TIME_WAIT then Inr c
      else Inl (OppError ''Internal error: received time-wait (2MSL) timeout''))"

definition process_TIMEOUT_FIN_WAIT_2 :: "TCPConnection \<Rightarrow> TCPConnection res" where
  "process_TIMEOUT_FIN_WAIT_2 c =
     (if fsm c = TCP_S_FIN_WAIT_2 then Inr (sendIndicationToApp TCP_I_CLOSED c)
      else Inl (OppError ''Internal error: received FIN_WAIT_2 timeout''))"

definition startSynRexmitTimer :: "TCPEnv \<Rightarrow> TCPConnection \<Rightarrow> TCPConnection res" where
  "startSynRexmitTimer env c =
     (let c = c\<lparr>syn_rexmit_count := 0, syn_rexmit_timeout := TCP_TIMEOUT_SYN_REXMIT\<rparr>
      in andThen (isScheduled (synRexmitTimer c)) (\<lambda>b.
         andThen (if b then cancelTimer (synRexmitTimer c) else Inr (synRexmitTimer c)) (\<lambda>t.
         andThen (timeoutAt env (syn_rexmit_timeout c) t) (\<lambda>t.
           Inr (c\<lparr>synRexmitTimer := t\<rparr>)))))"

definition process_TIMEOUT_SYN_REXMIT ::
  "TCPEnv \<Rightarrow> TCPEventCode \<Rightarrow> TCPConnection \<Rightarrow> (TCPConnection \<times> TCPEventCode) res" where
  "process_TIMEOUT_SYN_REXMIT env event c =
     (let c = c\<lparr>syn_rexmit_count := syn_rexmit_count c + 1\<rparr>
      in if MAX_SYN_REXMIT_COUNT < syn_rexmit_count c then Inr (c, TCP_E_ABORT)
         else andThen (if fsm c = TCP_S_SYN_SENT then sendSyn c
                       else if fsm c = TCP_S_SYN_RCVD then sendSynAck c
                       else Inl (OppError ''Internal error: SYN-REXMIT timer expired'')) (\<lambda>c.
           let rto = syn_rexmit_timeout c * 2;
               rto = (if TCP_TIMEOUT_SYN_REXMIT_MAX < rto then TCP_TIMEOUT_SYN_REXMIT_MAX else rto);
               c = c\<lparr>syn_rexmit_timeout := rto\<rparr>
           in andThen (timeoutAt env rto (synRexmitTimer c)) (\<lambda>t.
                Inr (c\<lparr>synRexmitTimer := t\<rparr>, event))))"

text \<open>
  \<^verbatim>\<open>TCPConnection::processTimer()\<close>. The kernel takes a self-message off the event queue
  before it delivers it, so the timer that fires is no longer scheduled.
\<close>

definition timerFired :: "TCPTimerMsg \<Rightarrow> TCPConnection \<Rightarrow> TCPConnection" where
  "timerFired m c = (case m of
     The2MSLTimer \<Rightarrow> c\<lparr>the2MSLTimer := TimerIdle\<rparr>
   | ConnEstabTimer \<Rightarrow> c\<lparr>connEstabTimer := TimerIdle\<rparr>
   | FinWait2Timer \<Rightarrow> c\<lparr>finWait2Timer := TimerIdle\<rparr>
   | SynRexmitTimer \<Rightarrow> c\<lparr>synRexmitTimer := TimerIdle\<rparr>
   | RexmitTimer \<Rightarrow> c\<lparr>rexmitTimer := TimerIdle\<rparr>
   | PersistTimer \<Rightarrow> c\<lparr>persistTimer := TimerIdle\<rparr>
   | DelayedAckTimer \<Rightarrow> c\<lparr>delayedAckTimer := TimerIdle\<rparr>
   | KeepAliveTimer \<Rightarrow> c\<lparr>keepAliveTimer := TimerIdle\<rparr>)"

definition conn_processTimer ::
  "TCPEnv \<Rightarrow> TCPTimerMsg \<Rightarrow> TCPConnection \<Rightarrow> (TCPConnection \<times> bool) res" where
  "conn_processTimer env m c =
     andThen (case m of
         The2MSLTimer \<Rightarrow> andThen (process_TIMEOUT_2MSL c) (\<lambda>c. Inr (c, TCP_E_TIMEOUT_2MSL))
       | ConnEstabTimer \<Rightarrow>
           andThen (process_TIMEOUT_CONN_ESTAB c) (\<lambda>c. Inr (c, TCP_E_TIMEOUT_CONN_ESTAB))
       | FinWait2Timer \<Rightarrow>
           andThen (process_TIMEOUT_FIN_WAIT_2 c) (\<lambda>c. Inr (c, TCP_E_TIMEOUT_FIN_WAIT_2))
       | SynRexmitTimer \<Rightarrow> process_TIMEOUT_SYN_REXMIT env TCP_E_IGNORE c
       | _ \<Rightarrow> alg_processTimer env m TCP_E_IGNORE c)
     (\<lambda>(c, event). performStateTransition event c)"

end
