(* ===== verification/TCP_Commands.thy ===== *)
theory TCP_Commands imports TCP_Input
begin

text \<open>
  The commands of the application that concern one connection only
  (\<^verbatim>\<open>TCPConnectionEventProc.cc\<close>): SEND, CLOSE, ABORT and STATUS. The two OPEN
  commands also register the connection with the module and are in \<open>TCP_Module\<close>.
  The event may be changed by a handler, so it is part of the results.
\<close>

datatype TcpCommand =
    TCP_C_OPEN_ACTIVE TCPOpenCommand
  | TCP_C_OPEN_PASSIVE TCPOpenCommand
  | TCP_C_SEND int cPacket
  | TCP_C_CLOSE int
  | TCP_C_ABORT int
  | TCP_C_STATUS int
  | UnknownCommand int int

fun commandKind :: "TcpCommand \<Rightarrow> int" where
  "commandKind (TCP_C_OPEN_ACTIVE oc) = 1"
| "commandKind (TCP_C_OPEN_PASSIVE oc) = 2"
| "commandKind (TCP_C_SEND cid m) = 3"
| "commandKind (TCP_C_CLOSE cid) = 5"
| "commandKind (TCP_C_ABORT cid) = 6"
| "commandKind (TCP_C_STATUS cid) = 7"
| "commandKind (UnknownCommand kind cid) = kind"

fun commandConnId :: "TcpCommand \<Rightarrow> int" where
  "commandConnId (TCP_C_OPEN_ACTIVE oc) = oc_connId oc"
| "commandConnId (TCP_C_OPEN_PASSIVE oc) = oc_connId oc"
| "commandConnId (TCP_C_SEND cid m) = cid"
| "commandConnId (TCP_C_CLOSE cid) = cid"
| "commandConnId (TCP_C_ABORT cid) = cid"
| "commandConnId (TCP_C_STATUS cid) = cid"
| "commandConnId (UnknownCommand kind cid) = cid"

fun preanalyseAppCommandEvent :: "TcpCommand \<Rightarrow> TCPEventCode res" where
  "preanalyseAppCommandEvent (TCP_C_OPEN_ACTIVE oc) = Inr TCP_E_OPEN_ACTIVE"
| "preanalyseAppCommandEvent (TCP_C_OPEN_PASSIVE oc) = Inr TCP_E_OPEN_PASSIVE"
| "preanalyseAppCommandEvent (TCP_C_SEND cid m) = Inr TCP_E_SEND"
| "preanalyseAppCommandEvent (TCP_C_CLOSE cid) = Inr TCP_E_CLOSE"
| "preanalyseAppCommandEvent (TCP_C_ABORT cid) = Inr TCP_E_ABORT"
| "preanalyseAppCommandEvent (TCP_C_STATUS cid) = Inr TCP_E_STATUS"
| "preanalyseAppCommandEvent (UnknownCommand kind cid) =
     Inl (OppError ''Unknown message kind in app command'')"

text \<open>The start of the handshake, shared by OPEN and by SEND in state LISTEN.\<close>

definition startActiveOpen :: "TCPEnv \<Rightarrow> TCPConnection \<Rightarrow> TCPConnection res" where
  "startActiveOpen env c =
     andThen (sendSyn (selectInitialSeqNum env c)) (\<lambda>c.
     andThen (startSynRexmitTimer env c) (\<lambda>c.
     andThen (timeoutAt env TCP_TIMEOUT_CONN_ESTAB (connEstabTimer c)) (\<lambda>t.
       Inr (c\<lparr>connEstabTimer := t\<rparr>))))"

definition enqueueAppData :: "cPacket \<Rightarrow> TCPConnection \<Rightarrow> TCPConnection" where
  "enqueueAppData m c = c\<lparr>sendQueue := sq_enqueueAppData m (sendQueue c)\<rparr>"

definition process_SEND ::
  "TCPEnv \<Rightarrow> TCPEventCode \<Rightarrow> cPacket \<Rightarrow> TCPConnection \<Rightarrow> (TCPConnection \<times> TCPEventCode) res" where
  "process_SEND env event m c = (case fsm c of
     TCP_S_INIT \<Rightarrow> Inl (OppError ''Error processing command SEND: connection not open'')
   | TCP_S_LISTEN \<Rightarrow> andThen (startActiveOpen env (c\<lparr>active := True\<rparr>)) (\<lambda>c.
       Inr (enqueueAppData m c, event))
   | TCP_S_SYN_RCVD \<Rightarrow> Inr (enqueueAppData m c, event)
   | TCP_S_SYN_SENT \<Rightarrow> Inr (enqueueAppData m c, event)
   | TCP_S_ESTABLISHED \<Rightarrow>
       andThen (alg_sendCommandInvoked env (enqueueAppData m c)) (\<lambda>c. Inr (c, event))
   | TCP_S_CLOSE_WAIT \<Rightarrow>
       andThen (alg_sendCommandInvoked env (enqueueAppData m c)) (\<lambda>c. Inr (c, event))
   | TCP_S_CLOSED \<Rightarrow> Inr (c, event)
   | _ \<Rightarrow> Inl (OppError ''Error processing command SEND: connection closing''))"

text \<open>
  CLOSE sends the FIN at once if everything queued has been sent, and otherwise leaves it to
  \<^const>\<open>sendSegment\<close>.
\<close>

definition closeSendSide ::
  "TCPEventCode \<Rightarrow> TCPConnection \<Rightarrow> (TCPConnection \<times> TCPEventCode) res" where
  "closeSendSide event c =
     andThen (if snd_max c = sq_getBufferEndSeq (sendQueue c)
              then andThen (sendFin (c\<lparr>snd_nxt := snd_max c\<rparr>)) (\<lambda>c.
                     Inr (c\<lparr>snd_nxt := snd_nxt c + 1, snd_max := snd_nxt c + 1\<rparr>, event))
              else Inr (c, TCP_E_IGNORE)) (\<lambda>(c, event).
       Inr (c\<lparr>send_fin := True, snd_fin_seq := sq_getBufferEndSeq (sendQueue c)\<rparr>, event))"

definition process_CLOSE ::
  "TCPEventCode \<Rightarrow> TCPConnection \<Rightarrow> (TCPConnection \<times> TCPEventCode) res" where
  "process_CLOSE event c = (case fsm c of
     TCP_S_INIT \<Rightarrow> Inl (OppError ''Error processing command CLOSE: connection not open'')
   | TCP_S_LISTEN \<Rightarrow> Inr (c, event)
   | TCP_S_SYN_SENT \<Rightarrow> Inr (c, event)
   | TCP_S_SYN_RCVD \<Rightarrow> closeSendSide event c
   | TCP_S_ESTABLISHED \<Rightarrow> closeSendSide event c
   | TCP_S_CLOSE_WAIT \<Rightarrow> closeSendSide event c
   | TCP_S_CLOSED \<Rightarrow> Inr (c, event)
   | _ \<Rightarrow> Inl (OppError ''Duplicate CLOSE command: connection already closing''))"

definition process_ABORT ::
  "TCPEventCode \<Rightarrow> TCPConnection \<Rightarrow> (TCPConnection \<times> TCPEventCode) res" where
  "process_ABORT event c =
     (if fsm c = TCP_S_INIT then Inl (OppError ''Error processing command ABORT: connection not open'')
      else if fsm c \<in> {TCP_S_SYN_RCVD, TCP_S_ESTABLISHED, TCP_S_FIN_WAIT_1, TCP_S_FIN_WAIT_2,
                       TCP_S_CLOSE_WAIT}
      then andThen (sendRst (snd_nxt c) c) (\<lambda>c. Inr (c, event))
      else Inr (c, event))"

text \<open>
  STATUS reuses the command message for the reply: the code sets neither its kind nor the
  connection id of the control info, whose default is -1.
\<close>

definition statusInfo :: "TCPConnection \<Rightarrow> TCPStatusInfo" where
  "statusInfo c = \<lparr>si_connId = -1, si_state = fsm c, si_localAddr = localAddr c,
     si_remoteAddr = remoteAddr c, si_localPort = localPort c, si_remotePort = remotePort c,
     si_snd_mss = snd_mss c, si_snd_una = snd_una c, si_snd_nxt = snd_nxt c,
     si_snd_max = snd_max c, si_snd_wnd = snd_wnd c, si_snd_up = snd_up c,
     si_snd_wl1 = snd_wl1 c, si_snd_wl2 = snd_wl2 c, si_iss = iss c, si_rcv_nxt = rcv_nxt c,
     si_rcv_wnd = rcv_wnd c, si_rcv_up = rcv_up c, si_irs = irs c,
     si_fin_ack_rcvd = fin_ack_rcvd c\<rparr>"

definition process_STATUS ::
  "TCPEventCode \<Rightarrow> int \<Rightarrow> TCPConnection \<Rightarrow> (TCPConnection \<times> TCPEventCode) res" where
  "process_STATUS event msgKind c =
     (if fsm c = TCP_S_INIT
      then Inl (OppError ''Error processing command STATUS: connection not open'')
      else Inr (sendToApp (StatusIndication msgKind (statusInfo c)) c, event))"

end
