(* ===== verification/TCP_Module.thy ===== *)
theory TCP_Module imports TCP_Commands "HOL-Library.Multiset"
begin

text \<open>
  The module class \<^verbatim>\<open>TCP\<close> (\<^verbatim>\<open>TCP.cc\<close>): the heap of connections, the two
  maps that find a connection for a segment and for an application command, the ephemeral
  ports, and \<^verbatim>\<open>handleMessage()\<close>. The handlers of a connection that change the tables
  of the module (OPEN, and segments in LISTEN and SYN-SENT) are here as well. A pointer to a
  connection is a number; every connection that is created gets a new one.
\<close>

section \<open>State\<close>

record SockPair =
  sp_localAddr :: IPvXAddress
  sp_remoteAddr :: IPvXAddress
  sp_localPort :: int
  sp_remotePort :: int

record AppConnKey =
  ak_appGateIndex :: int
  ak_connId :: int

text \<open>
  \<open>conns\<close> is the heap of live connections and \<open>nextConn\<close> the next unused pointer;
  \<open>uniqueNumber\<close> is the counter behind \<^verbatim>\<open>ev.getUniqueNumber()\<close>, which the kernel
  documents to return a new number each time; \<open>sent\<close> is everything the module sent, oldest
  first.
\<close>

record TCP =
  conns :: "nat \<Rightarrow> TCPConnection option"
  nextConn :: nat
  tcpAppConnMap :: "AppConnKey \<Rightarrow> nat option"
  tcpConnMap :: "SockPair \<Rightarrow> nat option"
  lastEphemeralPort :: int
  usedEphemeralPorts :: "int multiset"
  uniqueNumber :: int
  sent :: "TCPOutput list"

definition TCP_initialize :: "int \<Rightarrow> TCP" where
  "TCP_initialize unique = \<lparr>conns = Map.empty, nextConn = 0, tcpAppConnMap = Map.empty,
     tcpConnMap = Map.empty, lastEphemeralPort = EPHEMERAL_PORTRANGE_START,
     usedEphemeralPorts = {#}, uniqueNumber = unique, sent = []\<rparr>"

text \<open>
  A method of a connection, called through a pointer. What the connection sends is moved to the
  module in the order in which it is sent.
\<close>

definition onConnR ::
  "nat \<Rightarrow> (TCPConnection \<Rightarrow> (TCPConnection \<times> 'a) res) \<Rightarrow> TCP \<Rightarrow> (TCP \<times> 'a) res" where
  "onConnR p f m = (case conns m p of
     None \<Rightarrow> Inl (NullPointer ''connection'')
   | Some c \<Rightarrow> andThen (f c) (\<lambda>(c, x).
       Inr (m\<lparr>conns := (conns m)(p \<mapsto> c\<lparr>outs := []\<rparr>), sent := sent m @ outs c\<rparr>, x)))"

definition onConn :: "nat \<Rightarrow> (TCPConnection \<Rightarrow> TCPConnection res) \<Rightarrow> TCP \<Rightarrow> TCP res" where
  "onConn p f m =
     andThen (onConnR p (\<lambda>c. andThen (f c) (\<lambda>c. Inr (c, ()))) m) (\<lambda>(m, x). Inr m)"

section \<open>Tables\<close>

definition sockPair :: "IPvXAddress \<Rightarrow> IPvXAddress \<Rightarrow> int \<Rightarrow> int \<Rightarrow> SockPair" where
  "sockPair la ra lp rp = \<lparr>sp_localAddr = la, sp_remoteAddr = ra, sp_localPort = toShort lp,
     sp_remotePort = toShort rp\<rparr>"

definition connSockPair :: "TCPConnection \<Rightarrow> SockPair" where
  "connSockPair c = sockPair (localAddr c) (remoteAddr c) (localPort c) (remotePort c)"

definition connAppKey :: "TCPConnection \<Rightarrow> AppConnKey" where
  "connAppKey c = \<lparr>ak_appGateIndex = appGateIndex c, ak_connId = connId c\<rparr>"

definition findConnForSegment :: "TCPSegment \<Rightarrow> IPvXAddress \<Rightarrow> IPvXAddress \<Rightarrow> TCP \<Rightarrow> nat option" where
  "findConnForSegment seg srcAddr destAddr m =
     (let key = sockPair destAddr srcAddr (getDestPort seg) (getSrcPort seg);
          save = key
      in case tcpConnMap m key of Some p \<Rightarrow> Some p | None \<Rightarrow>
         let key = key\<lparr>sp_localAddr := unspecifiedAddress\<rparr>
      in case tcpConnMap m key of Some p \<Rightarrow> Some p | None \<Rightarrow>
         let key = save\<lparr>sp_remoteAddr := unspecifiedAddress, sp_remotePort := -1\<rparr>
      in case tcpConnMap m key of Some p \<Rightarrow> Some p | None \<Rightarrow>
         tcpConnMap m (key\<lparr>sp_localAddr := unspecifiedAddress\<rparr>))"

definition findConnForApp :: "int \<Rightarrow> int \<Rightarrow> TCP \<Rightarrow> nat option" where
  "findConnForApp gate cid m = tcpAppConnMap m \<lparr>ak_appGateIndex = gate, ak_connId = cid\<rparr>"

definition getEphemeralPort :: "TCP \<Rightarrow> (TCP \<times> int) res" where
  "getEphemeralPort m =
     (let searchUntil = lastEphemeralPort m
      in andThen (searchEphemeral 65537 searchUntil (\<lambda>p. p \<in># usedEphemeralPorts m)
                    (nextEphemeral (lastEphemeralPort m))) (\<lambda>p.
           Inr (m\<lparr>lastEphemeralPort := p\<rparr>, p)))"

definition setSockPair ::
  "IPvXAddress \<Rightarrow> IPvXAddress \<Rightarrow> int \<Rightarrow> int \<Rightarrow> TCPConnection \<Rightarrow> TCPConnection" where
  "setSockPair la ra lp rp c =
     c\<lparr>localAddr := la, remoteAddr := ra, localPort := lp, remotePort := rp\<rparr>"

definition addSockPair ::
  "nat \<Rightarrow> IPvXAddress \<Rightarrow> IPvXAddress \<Rightarrow> int \<Rightarrow> int \<Rightarrow> TCP \<Rightarrow> TCP res" where
  "addSockPair p la ra lp rp m =
     andThen (onConn p (\<lambda>c. Inr (setSockPair la ra lp rp c)) m) (\<lambda>m.
       let key = sockPair la ra lp rp
       in checked (tcpConnMap m key = None) (OppError ''Address already in use'')
         (Inr (m\<lparr>tcpConnMap := (tcpConnMap m)(key \<mapsto> p),
                 usedEphemeralPorts := (if isEphemeral lp then add_mset lp (usedEphemeralPorts m)
                                        else usedEphemeralPorts m)\<rparr>)))"

definition updateSockPair ::
  "nat \<Rightarrow> IPvXAddress \<Rightarrow> IPvXAddress \<Rightarrow> int \<Rightarrow> int \<Rightarrow> TCP \<Rightarrow> TCP res" where
  "updateSockPair p la ra lp rp m = (case conns m p of
     None \<Rightarrow> Inl (NullPointer ''connection'')
   | Some c \<Rightarrow>
       let key = connSockPair c
       in checked (tcpConnMap m key = Some p) (AssertFailed ''it!=tcpConnMap.end() && it->second==conn'')
         (checked (localPort c = lp) (AssertFailed ''conn->localPort == localPort'')
           (let c = setSockPair la ra (localPort c) rp c;
                tbl = (tcpConnMap m)(key := None)
            in Inr (m\<lparr>conns := (conns m)(p \<mapsto> c),
                      tcpConnMap := tbl(connSockPair c \<mapsto> p)\<rparr>))))"

definition addForkedConnection ::
  "nat \<Rightarrow> nat \<Rightarrow> IPvXAddress \<Rightarrow> IPvXAddress \<Rightarrow> int \<Rightarrow> int \<Rightarrow> TCP \<Rightarrow> TCP res" where
  "addForkedConnection p q la ra lp rp m =
     andThen (updateSockPair p la ra lp rp m) (\<lambda>m.
       case conns m q of None \<Rightarrow> Inl (NullPointer ''connection'') | Some newConn \<Rightarrow>
     andThen (addSockPair q (localAddr newConn) (remoteAddr newConn) (localPort newConn)
                (remotePort newConn) m) (\<lambda>m.
       case conns m p of None \<Rightarrow> Inl (NullPointer ''connection'') | Some c \<Rightarrow>
         let m = m\<lparr>tcpAppConnMap := (tcpAppConnMap m)(connAppKey c := None)\<rparr>;
             c = c\<lparr>connId := uniqueNumber m\<rparr>;
             m = m\<lparr>uniqueNumber := uniqueNumber m + 1, conns := (conns m)(p \<mapsto> c)\<rparr>;
             m = m\<lparr>tcpAppConnMap := (tcpAppConnMap m)(connAppKey c \<mapsto> p)\<rparr>
         in Inr (m\<lparr>tcpAppConnMap := (tcpAppConnMap m)(connAppKey newConn \<mapsto> q)\<rparr>)))"

definition removeConnection :: "nat \<Rightarrow> TCP \<Rightarrow> TCP res" where
  "removeConnection p m = (case conns m p of
     None \<Rightarrow> Inl (NullPointer ''connection'')
   | Some c \<Rightarrow> Inr (m\<lparr>tcpAppConnMap := (tcpAppConnMap m)(connAppKey c := None),
       tcpConnMap := (tcpConnMap m)(connSockPair c := None),
       usedEphemeralPorts := usedEphemeralPorts m - {#toShort (localPort c)#},
       conns := (conns m)(p := None)\<rparr>))"

definition createConnection :: "int \<Rightarrow> int \<Rightarrow> TCP \<Rightarrow> TCP \<times> nat" where
  "createConnection gate cid m =
     (m\<lparr>conns := (conns m)(nextConn m \<mapsto> newConnection gate cid), nextConn := nextConn m + 1\<rparr>,
      nextConn m)"

section \<open>Opening a connection\<close>

definition process_OPEN_ACTIVE :: "TCPEnv \<Rightarrow> nat \<Rightarrow> TCPOpenCommand \<Rightarrow> TCP \<Rightarrow> TCP res" where
  "process_OPEN_ACTIVE env p openCmd m =
     andThen (onConn p (\<lambda>c.
       if fsm c \<noteq> TCP_S_INIT
       then Inl (OppError ''Error processing command OPEN_ACTIVE: connection already exists'')
       else andThen (initConnection env openCmd c) (\<lambda>c. Inr (c\<lparr>active := True\<rparr>))) m) (\<lambda>m.
     let la = oc_localAddr openCmd; ra = oc_remoteAddr openCmd;
         lp = toShort (oc_localPort openCmd); rp = toShort (oc_remotePort openCmd)
     in if isUnspecified ra \<or> rp = -1
        then Inl (OppError ''Error processing command OPEN_ACTIVE: remote address and port must be specified'')
        else andThen (if lp = -1 then getEphemeralPort m else Inr (m, lp)) (\<lambda>(m, lp).
             andThen (addSockPair p la ra lp rp m) (\<lambda>m.
               onConn p (startActiveOpen env) m)))"

definition process_OPEN_PASSIVE :: "TCPEnv \<Rightarrow> nat \<Rightarrow> TCPOpenCommand \<Rightarrow> TCP \<Rightarrow> TCP res" where
  "process_OPEN_PASSIVE env p openCmd m =
     andThen (onConn p (\<lambda>c.
       if fsm c \<noteq> TCP_S_INIT
       then Inl (OppError ''Error processing command OPEN_PASSIVE: connection already exists'')
       else andThen (initConnection env openCmd c) (\<lambda>c.
              Inr (c\<lparr>active := False, fork := oc_fork openCmd\<rparr>))) m) (\<lambda>m.
     let lp = toShort (oc_localPort openCmd)
     in if lp = -1
        then Inl (OppError ''Error processing command OPEN_PASSIVE: local port must be specified'')
        else addSockPair p (oc_localAddr openCmd) unspecifiedAddress lp (-1) m)"

section \<open>Segments in LISTEN and SYN-SENT\<close>

text \<open>The connection's part of accepting a SYN in LISTEN.\<close>

definition acceptSyn :: "TCPEnv \<Rightarrow> TCPSegment \<Rightarrow> TCPConnection \<Rightarrow> TCPConnection res" where
  "acceptSyn env seg c =
     (let c = c\<lparr>rcv_nxt := sequenceNo seg + 1, irs := sequenceNo seg\<rparr>;
          c = c\<lparr>receiveQueue := rq_init (rcv_nxt c) (receiveQueue c)\<rparr>;
          c = selectInitialSeqNum env c;
          c = c\<lparr>snd_wnd := ucast (window seg), snd_wl1 := sequenceNo seg, snd_wl2 := iss c\<rparr>
      in andThen (sendSynAck c) (\<lambda>c.
         andThen (startSynRexmitTimer env c) (\<lambda>c.
         andThen (isScheduled (connEstabTimer c)) (\<lambda>b.
         andThen (if \<not> b then timeoutAt env TCP_TIMEOUT_CONN_ESTAB (connEstabTimer c)
                  else Inr (connEstabTimer c)) (\<lambda>t.
         let c = c\<lparr>connEstabTimer := t\<rparr>
         in Inr (if hasPayload seg
                 then c\<lparr>receiveQueue := rq_insertBytesFromSegment seg (receiveQueue c)\<rparr> else c))))))"

definition processSegmentInListen ::
  "TCPEnv \<Rightarrow> TCPSegment \<Rightarrow> IPvXAddress \<Rightarrow> IPvXAddress \<Rightarrow> nat \<Rightarrow> TCP \<Rightarrow> (TCP \<times> TCPEventCode) res" where
  "processSegmentInListen env seg srcAddr destAddr p m = (case conns m p of
     None \<Rightarrow> Inl (NullPointer ''connection'')
   | Some this \<Rightarrow>
     if rstBit seg then Inr (m, TCP_E_IGNORE)
     else if ackBit seg
     then andThen (onConn p (sendRst_from (ackNo seg) destAddr srcAddr (getDestPort seg) (getSrcPort seg)) m)
            (\<lambda>m. Inr (m, TCP_E_IGNORE))
     else if synBit seg
     then andThen
       (if fork this
        then andThen (cloneListeningConnection env this) (\<lambda>(this, conn).
               let q = nextConn m;
                   m = m\<lparr>conns := (conns m)(p \<mapsto> this, q \<mapsto> conn), nextConn := nextConn m + 1\<rparr>
               in addForkedConnection p q destAddr srcAddr (getDestPort seg) (getSrcPort seg) m)
        else updateSockPair p destAddr srcAddr (getDestPort seg) (getSrcPort seg) m) (\<lambda>m.
       andThen (onConn p (acceptSyn env seg) m) (\<lambda>m. Inr (m, TCP_E_RCV_SYN)))
     else Inr (m, TCP_E_IGNORE))"

text \<open>The three parts of \<^verbatim>\<open>processSegmentInSynSent()\<close> that concern the connection.\<close>

definition synSentLearn :: "TCPSegment \<Rightarrow> TCPConnection \<Rightarrow> TCPConnection res" where
  "synSentLearn seg c =
     (let c = c\<lparr>rcv_nxt := sequenceNo seg + 1, irs := sequenceNo seg\<rparr>;
          c = c\<lparr>receiveQueue := rq_init (rcv_nxt c) (receiveQueue c)\<rparr>
      in if ackBit seg
         then let c = c\<lparr>snd_una := ackNo seg\<rparr>
              in andThen (sq_discardUpTo (snd_una c) (sendQueue c)) (\<lambda>q.
                   Inr (c\<lparr>sendQueue := q, snd_wnd := ucast (window seg),
                          snd_wl1 := sequenceNo seg, snd_wl2 := ackNo seg\<rparr>))
         else Inr c)"

definition activeEstablished :: "TCPEnv \<Rightarrow> TCPSegment \<Rightarrow> TCPConnection \<Rightarrow> TCPConnection res" where
  "activeEstablished env seg c =
     (let c = (if hasPayload seg
               then let q = rq_insertBytesFromSegment seg (receiveQueue c)
                    in c\<lparr>receiveQueue := q, rcv_nxt := rq_nxt q\<rparr>
               else c)
      in andThen (alg_established env True c) (\<lambda>c. Inr (sendEstabIndicationToApp c)))"

definition simultaneousOpen :: "TCPEnv \<Rightarrow> TCPSegment \<Rightarrow> TCPConnection \<Rightarrow> TCPConnection res" where
  "simultaneousOpen env seg c =
     andThen (sendSynAck (c\<lparr>snd_max := iss c, snd_nxt := iss c\<rparr>)) (\<lambda>c.
     andThen (startSynRexmitTimer env c) (\<lambda>c.
       Inr (if hasPayload seg
            then c\<lparr>receiveQueue := rq_insertBytesFromSegment seg (receiveQueue c)\<rparr> else c)))"

definition processSegmentInSynSent ::
  "TCPEnv \<Rightarrow> TCPSegment \<Rightarrow> IPvXAddress \<Rightarrow> IPvXAddress \<Rightarrow> nat \<Rightarrow> TCP \<Rightarrow> (TCP \<times> TCPEventCode) res" where
  "processSegmentInSynSent env seg srcAddr destAddr p m = (case conns m p of
     None \<Rightarrow> Inl (NullPointer ''connection'')
   | Some this \<Rightarrow>
     if ackBit seg \<and> (seqLE (ackNo seg) (iss this) \<or> seqGreater (ackNo seg) (snd_nxt this))
     then andThen (onConn p (sendRst_from (ackNo seg) destAddr srcAddr (getDestPort seg) (getSrcPort seg)) m)
            (\<lambda>m. Inr (m, TCP_E_IGNORE))
     else if rstBit seg
     then if ackBit seg
          then andThen (onConn p (\<lambda>c. Inr (sendIndicationToApp TCP_I_CONNECTION_RESET c)) m)
                 (\<lambda>m. Inr (m, TCP_E_RCV_RST))
          else Inr (m, TCP_E_IGNORE)
     else if synBit seg
     then andThen (onConn p (synSentLearn seg) m) (\<lambda>m.
          andThen (updateSockPair p destAddr srcAddr (getDestPort seg) (getSrcPort seg) m) (\<lambda>m.
          onConnR p (\<lambda>c.
            if seqGreater (snd_una c) (iss c)
            then andThen (activeEstablished env seg c) (\<lambda>c. Inr (c, TCP_E_RCV_SYN_ACK))
            else andThen (simultaneousOpen env seg c) (\<lambda>c. Inr (c, TCP_E_RCV_SYN))) m))
     else Inr (m, TCP_E_IGNORE))"

definition process_RCV_SEGMENT ::
  "TCPEnv \<Rightarrow> TCPSegment \<Rightarrow> IPvXAddress \<Rightarrow> IPvXAddress \<Rightarrow> nat \<Rightarrow> TCP \<Rightarrow> (TCP \<times> TCPEventCode) res" where
  "process_RCV_SEGMENT env seg src dest p m = (case conns m p of
     None \<Rightarrow> Inl (NullPointer ''connection'')
   | Some this \<Rightarrow>
     if fsm this = TCP_S_LISTEN then processSegmentInListen env seg src dest p m
     else if fsm this = TCP_S_SYN_SENT then processSegmentInSynSent env seg src dest p m
     else onConnR p (processSegment1stThru8th env seg) m)"

section \<open>Dispatch\<close>

definition addrMatches :: "IPvXAddress \<Rightarrow> IPvXAddress \<Rightarrow> bool" where
  "addrMatches a b \<longleftrightarrow> addr_equals a b = Some True"

definition processTCPSegment ::
  "TCPEnv \<Rightarrow> TCPSegment \<Rightarrow> IPvXAddress \<Rightarrow> IPvXAddress \<Rightarrow> nat \<Rightarrow> TCP \<Rightarrow> (TCP \<times> bool) res" where
  "processTCPSegment env seg src dest p m = (case conns m p of
     None \<Rightarrow> Inl (NullPointer ''connection'')
   | Some this \<Rightarrow>
     checked (isUnspecified (localAddr this) \<or>
              addrMatches (localAddr this) dest \<and> localPort this = getDestPort seg)
       (AssertFailed ''localAddr==segDestAddr, localPort==tcpseg->getDestPort()'')
    (checked (isUnspecified (remoteAddr this) \<or>
              addrMatches (remoteAddr this) src \<and> remotePort this = getSrcPort seg)
       (AssertFailed ''remoteAddr==segSrcAddr, remotePort==tcpseg->getSrcPort()'')
    (andThen (process_RCV_SEGMENT env seg src dest p m) (\<lambda>(m, event).
       onConnR p (performStateTransition event) m))))"

definition processAppCommand :: "TCPEnv \<Rightarrow> TcpCommand \<Rightarrow> nat \<Rightarrow> TCP \<Rightarrow> (TCP \<times> bool) res" where
  "processAppCommand env cmd p m =
     andThen (preanalyseAppCommandEvent cmd) (\<lambda>event.
     andThen (case cmd of
         TCP_C_OPEN_ACTIVE oc \<Rightarrow> andThen (process_OPEN_ACTIVE env p oc m) (\<lambda>m. Inr (m, event))
       | TCP_C_OPEN_PASSIVE oc \<Rightarrow> andThen (process_OPEN_PASSIVE env p oc m) (\<lambda>m. Inr (m, event))
       | TCP_C_SEND cid pk \<Rightarrow> onConnR p (process_SEND env event pk) m
       | TCP_C_CLOSE cid \<Rightarrow> onConnR p (process_CLOSE event) m
       | TCP_C_ABORT cid \<Rightarrow> onConnR p (process_ABORT event) m
       | TCP_C_STATUS cid \<Rightarrow> onConnR p (process_STATUS event (commandKind cmd)) m
       | UnknownCommand kind cid \<Rightarrow> Inl (OppError ''wrong event code'')) (\<lambda>(m, event).
       onConnR p (performStateTransition event) m))"

text \<open>
  The messages that reach the module: a timer of a connection, a segment with the addresses of
  its control information, an ICMP error, a command from an application.
\<close>

datatype TCPMessage =
    SelfMessage nat TCPTimerMsg
  | FromIP TCPSegment IPvXAddress IPvXAddress
  | FromIPWithoutControlInfo TCPSegment
  | ICMPError
  | FromApp int TcpCommand

definition TCP_segmentArrivalWhileClosed ::
  "TCPSegment \<Rightarrow> IPvXAddress \<Rightarrow> IPvXAddress \<Rightarrow> TCP \<Rightarrow> TCP res" where
  "TCP_segmentArrivalWhileClosed seg srcAddr destAddr m =
     andThen (segmentArrivalWhileClosed seg srcAddr destAddr blankConnection) (\<lambda>tmp.
       Inr (m\<lparr>sent := sent m @ outs tmp\<rparr>))"

definition removeIf :: "nat \<Rightarrow> TCP \<times> bool \<Rightarrow> TCP res" where
  "removeIf p = (\<lambda>(m, ret). if \<not> ret then removeConnection p m else Inr m)"

definition handleMessage :: "TCPEnv \<Rightarrow> TCPMessage \<Rightarrow> TCP \<Rightarrow> TCP res" where
  "handleMessage env msg m = (case msg of
     SelfMessage p t \<Rightarrow>
       andThen (onConnR p (\<lambda>c. conn_processTimer env t (timerFired t c)) m) (removeIf p)
   | ICMPError \<Rightarrow> Inr m
   | FromIPWithoutControlInfo seg \<Rightarrow> Inl (OppError ''arrived without control info'')
   | FromIP seg srcAddr destAddr \<Rightarrow> (case findConnForSegment seg srcAddr destAddr m of
       Some p \<Rightarrow> andThen (processTCPSegment env seg srcAddr destAddr p m) (removeIf p)
     | None \<Rightarrow> TCP_segmentArrivalWhileClosed seg srcAddr destAddr m)
   | FromApp gate cmd \<Rightarrow>
       (case findConnForApp gate (commandConnId cmd) m of
          Some p \<Rightarrow> andThen (processAppCommand env cmd p m) (removeIf p)
        | None \<Rightarrow>
            let (m, p) = createConnection gate (commandConnId cmd) m;
                m = m\<lparr>tcpAppConnMap := (tcpAppConnMap m)
                       (\<lparr>ak_appGateIndex = gate, ak_connId = commandConnId cmd\<rparr> \<mapsto> p)\<rparr>
            in andThen (processAppCommand env cmd p m) (removeIf p)))"

end
