(* ===== verification/TCP_Frame.thy ===== *)
theory TCP_Frame imports TCP_Module
begin

text \<open>
  What the connection's handlers leave alone: the identity of the connection (its application,
  its socket pair), its state in the state machine, its algorithm and its static parameters.
  The module's invariant and the properties of single handlers rest on these facts.
\<close>

definition ident :: "TCPConnection \<Rightarrow>
    int \<times> int \<times> IPvXAddress \<times> IPvXAddress \<times> int \<times> int \<times> TcpState \<times> TCPAlgorithm \<times> uint32 \<times> uint32" where
  "ident c = (appGateIndex c, connId c, localAddr c, remoteAddr c, localPort c, remotePort c,
     fsm c, tcpAlgorithm c, snd_mss c, rcv_wnd c)"

lemma ident_simps [simp]:
  "ident (c\<lparr>snd_una := x1\<rparr>) = ident c" "ident (c\<lparr>snd_nxt := x1\<rparr>) = ident c"
  "ident (c\<lparr>snd_max := x1\<rparr>) = ident c" "ident (c\<lparr>snd_wnd := x1\<rparr>) = ident c"
  "ident (c\<lparr>snd_wl1 := x1\<rparr>) = ident c" "ident (c\<lparr>snd_wl2 := x1\<rparr>) = ident c"
  "ident (c\<lparr>iss := x1\<rparr>) = ident c" "ident (c\<lparr>irs := x1\<rparr>) = ident c"
  "ident (c\<lparr>rcv_nxt := x1\<rparr>) = ident c" "ident (c\<lparr>dupacks := x2\<rparr>) = ident c"
  "ident (c\<lparr>syn_rexmit_count := x2\<rparr>) = ident c" "ident (c\<lparr>syn_rexmit_timeout := x3\<rparr>) = ident c"
  "ident (c\<lparr>fin_ack_rcvd := x4\<rparr>) = ident c" "ident (c\<lparr>send_fin := x4\<rparr>) = ident c"
  "ident (c\<lparr>snd_fin_seq := x1\<rparr>) = ident c" "ident (c\<lparr>fin_rcvd := x4\<rparr>) = ident c"
  "ident (c\<lparr>rcv_fin_seq := x1\<rparr>) = ident c" "ident (c\<lparr>rexmit_count := x2\<rparr>) = ident c"
  "ident (c\<lparr>rexmit_timeout := x3\<rparr>) = ident c" "ident (c\<lparr>snd_cwnd := x1\<rparr>) = ident c"
  "ident (c\<lparr>rtseq := x1\<rparr>) = ident c" "ident (c\<lparr>rtseq_sendtime := x3\<rparr>) = ident c"
  "ident (c\<lparr>srtt := x3\<rparr>) = ident c" "ident (c\<lparr>rttvar := x3\<rparr>) = ident c"
  "ident (c\<lparr>ssthresh := x1\<rparr>) = ident c" "ident (c\<lparr>sendQueue := x5\<rparr>) = ident c"
  "ident (c\<lparr>receiveQueue := x6\<rparr>) = ident c" "ident (c\<lparr>the2MSLTimer := t\<rparr>) = ident c"
  "ident (c\<lparr>connEstabTimer := t\<rparr>) = ident c" "ident (c\<lparr>finWait2Timer := t\<rparr>) = ident c"
  "ident (c\<lparr>synRexmitTimer := t\<rparr>) = ident c" "ident (c\<lparr>rexmitTimer := t\<rparr>) = ident c"
  "ident (c\<lparr>persistTimer := t\<rparr>) = ident c" "ident (c\<lparr>delayedAckTimer := t\<rparr>) = ident c"
  "ident (c\<lparr>keepAliveTimer := t\<rparr>) = ident c" "ident (c\<lparr>outs := x7\<rparr>) = ident c"
  "ident (c\<lparr>active := x4\<rparr>) = ident c"
  by (simp_all add: ident_def)

lemma emit_fields [simp]:
  "active (emit x c) = active c" "fork (emit x c) = fork c" "snd_mss (emit x c) = snd_mss c"
  "snd_una (emit x c) = snd_una c" "snd_nxt (emit x c) = snd_nxt c"
  "snd_max (emit x c) = snd_max c" "snd_wnd (emit x c) = snd_wnd c" "iss (emit x c) = iss c"
  "rcv_nxt (emit x c) = rcv_nxt c" "rcv_wnd (emit x c) = rcv_wnd c" "irs (emit x c) = irs c"
  "dupacks (emit x c) = dupacks c" "fin_ack_rcvd (emit x c) = fin_ack_rcvd c"
  "send_fin (emit x c) = send_fin c" "snd_fin_seq (emit x c) = snd_fin_seq c"
  "fin_rcvd (emit x c) = fin_rcvd c" "rcv_fin_seq (emit x c) = rcv_fin_seq c"
  "rexmit_count (emit x c) = rexmit_count c" "rexmit_timeout (emit x c) = rexmit_timeout c"
  "snd_cwnd (emit x c) = snd_cwnd c" "ssthresh (emit x c) = ssthresh c"
  "appGateIndex (emit x c) = appGateIndex c" "connId (emit x c) = connId c"
  "localAddr (emit x c) = localAddr c" "remoteAddr (emit x c) = remoteAddr c"
  "localPort (emit x c) = localPort c" "remotePort (emit x c) = remotePort c"
  "fsm (emit x c) = fsm c" "sendQueue (emit x c) = sendQueue c"
  "receiveQueue (emit x c) = receiveQueue c" "tcpAlgorithm (emit x c) = tcpAlgorithm c"
  "the2MSLTimer (emit x c) = the2MSLTimer c" "connEstabTimer (emit x c) = connEstabTimer c"
  "finWait2Timer (emit x c) = finWait2Timer c" "synRexmitTimer (emit x c) = synRexmitTimer c"
  "rexmitTimer (emit x c) = rexmitTimer c" "delayedAckTimer (emit x c) = delayedAckTimer c"
  by (simp_all add: emit_def)

lemma outs_emit [simp]: "outs (emit x c) = outs c @ [x]"
  by (simp add: emit_def)

lemma ident_emit [simp]: "ident (emit x c) = ident c"
  by (simp add: emit_def)

text \<open>
  The output routines and the algorithm classes leave more alone: everything but the sending
  position, the variables of the algorithm classes, their timers and the output.
\<close>

definition rest :: "TCPConnection \<Rightarrow> TCPConnection" where
  "rest c = c\<lparr>snd_nxt := 0, snd_max := 0, rexmit_count := 0, rexmit_timeout := 0, snd_cwnd := 0,
     rtseq := 0, rtseq_sendtime := 0, srtt := 0, rttvar := 0, ssthresh := 0,
     rexmitTimer := TimerNull, persistTimer := TimerNull, delayedAckTimer := TimerNull,
     keepAliveTimer := TimerNull, outs := []\<rparr>"

lemma rest_simps [simp]:
  "rest (c\<lparr>snd_nxt := x1\<rparr>) = rest c" "rest (c\<lparr>snd_max := x1\<rparr>) = rest c"
  "rest (c\<lparr>rexmit_count := x2\<rparr>) = rest c" "rest (c\<lparr>rexmit_timeout := x3\<rparr>) = rest c"
  "rest (c\<lparr>snd_cwnd := x1\<rparr>) = rest c" "rest (c\<lparr>rtseq := x1\<rparr>) = rest c"
  "rest (c\<lparr>rtseq_sendtime := x3\<rparr>) = rest c" "rest (c\<lparr>srtt := x3\<rparr>) = rest c"
  "rest (c\<lparr>rttvar := x3\<rparr>) = rest c" "rest (c\<lparr>ssthresh := x1\<rparr>) = rest c"
  "rest (c\<lparr>rexmitTimer := t\<rparr>) = rest c" "rest (c\<lparr>persistTimer := t\<rparr>) = rest c"
  "rest (c\<lparr>delayedAckTimer := t\<rparr>) = rest c" "rest (c\<lparr>keepAliveTimer := t\<rparr>) = rest c"
  "rest (c\<lparr>outs := x7\<rparr>) = rest c"
  by (simp_all add: rest_def)

lemma rest_emit [simp]: "rest (emit x c) = rest c"
  by (simp add: emit_def)

named_theorems rest_dests \<open>output keeps the rest of the connection\<close>

lemma rest_fields:
  "active (rest c) = active c" "fork (rest c) = fork c" "snd_mss (rest c) = snd_mss c"
  "snd_una (rest c) = snd_una c" "snd_wnd (rest c) = snd_wnd c" "snd_wl1 (rest c) = snd_wl1 c"
  "snd_wl2 (rest c) = snd_wl2 c" "iss (rest c) = iss c" "irs (rest c) = irs c"
  "rcv_nxt (rest c) = rcv_nxt c" "rcv_wnd (rest c) = rcv_wnd c" "dupacks (rest c) = dupacks c"
  "fin_ack_rcvd (rest c) = fin_ack_rcvd c" "send_fin (rest c) = send_fin c"
  "snd_fin_seq (rest c) = snd_fin_seq c" "fin_rcvd (rest c) = fin_rcvd c"
  "rcv_fin_seq (rest c) = rcv_fin_seq c" "delayed_acks_enabled (rest c) = delayed_acks_enabled c"
  "nagle_enabled (rest c) = nagle_enabled c" "appGateIndex (rest c) = appGateIndex c"
  "connId (rest c) = connId c" "localAddr (rest c) = localAddr c"
  "remoteAddr (rest c) = remoteAddr c" "localPort (rest c) = localPort c"
  "remotePort (rest c) = remotePort c" "fsm (rest c) = fsm c" "sendQueue (rest c) = sendQueue c"
  "receiveQueue (rest c) = receiveQueue c" "tcpAlgorithm (rest c) = tcpAlgorithm c"
  "the2MSLTimer (rest c) = the2MSLTimer c" "connEstabTimer (rest c) = connEstabTimer c"
  "finWait2Timer (rest c) = finWait2Timer c" "synRexmitTimer (rest c) = synRexmitTimer c"
  "syn_rexmit_count (rest c) = syn_rexmit_count c" "ident (rest c) = ident c"
  by (simp_all add: rest_def)

lemma restD:
  assumes "rest c' = rest c"
  shows "active c' = active c" "fork c' = fork c" "snd_mss c' = snd_mss c"
  "snd_una c' = snd_una c" "snd_wnd c' = snd_wnd c" "snd_wl1 c' = snd_wl1 c"
  "snd_wl2 c' = snd_wl2 c" "iss c' = iss c" "irs c' = irs c" "rcv_nxt c' = rcv_nxt c"
  "rcv_wnd c' = rcv_wnd c" "dupacks c' = dupacks c" "fin_ack_rcvd c' = fin_ack_rcvd c"
  "send_fin c' = send_fin c" "snd_fin_seq c' = snd_fin_seq c" "fin_rcvd c' = fin_rcvd c"
  "rcv_fin_seq c' = rcv_fin_seq c" "delayed_acks_enabled c' = delayed_acks_enabled c"
  "nagle_enabled c' = nagle_enabled c" "appGateIndex c' = appGateIndex c"
  "connId c' = connId c" "localAddr c' = localAddr c" "remoteAddr c' = remoteAddr c"
  "localPort c' = localPort c" "remotePort c' = remotePort c" "fsm c' = fsm c"
  "sendQueue c' = sendQueue c" "receiveQueue c' = receiveQueue c"
  "tcpAlgorithm c' = tcpAlgorithm c" "the2MSLTimer c' = the2MSLTimer c"
  "connEstabTimer c' = connEstabTimer c" "finWait2Timer c' = finWait2Timer c"
  "synRexmitTimer c' = synRexmitTimer c" "syn_rexmit_count c' = syn_rexmit_count c"
  "ident c' = ident c"
  using assms by (metis rest_fields)+

named_theorems ident_dests \<open>handlers keep the identity of the connection\<close>

lemma identD:
  assumes "ident c' = ident c"
  shows "appGateIndex c' = appGateIndex c" "connId c' = connId c" "localAddr c' = localAddr c"
    "remoteAddr c' = remoteAddr c" "localPort c' = localPort c" "remotePort c' = remotePort c"
    "fsm c' = fsm c" "tcpAlgorithm c' = tcpAlgorithm c" "snd_mss c' = snd_mss c"
    "rcv_wnd c' = rcv_wnd c"
  using assms by (simp_all add: ident_def)

section \<open>Output\<close>

lemma rest_startRexmitTimer [rest_dests]:
  "TCPBaseAlg_startRexmitTimer env c = Inr c' \<Longrightarrow> rest c' = rest c"
  by (auto simp: TCPBaseAlg_startRexmitTimer_def Let_def res_simps)

lemma rest_ackSent [rest_dests]: "ackSent c = Inr c' \<Longrightarrow> rest c' = rest c"
  by (auto simp: ackSent_def DumbTCP_ackSent_def TCPBaseAlg_ackSent_def res_simps
      split: TCPAlgorithm.splits if_splits)

lemma rest_dataSent [rest_dests]: "dataSent env s c = Inr c' \<Longrightarrow> rest c' = rest c"
  by (auto simp: dataSent_def DumbTCP_dataSent_def TCPBaseAlg_dataSent_def res_simps
      split: TCPAlgorithm.splits if_splits dest!: rest_dests)

lemma rest_sendToIP_from [rest_dests]:
  "sendToIP_from seg src dest c = Inr c' \<Longrightarrow> rest c' = rest c"
  by (auto simp: sendToIP_from_def res_simps split: if_splits)

lemma rest_sendToIP [rest_dests]: "sendToIP seg c = Inr c' \<Longrightarrow> rest c' = rest c"
  by (auto simp: sendToIP_def Let_def res_simps split: if_splits)

lemma rest_indications [simp]:
  "rest (sendIndicationToApp code c) = rest c"
  "rest (signalConnectionTimeout c) = rest c"
  "rest (sendEstabIndicationToApp c) = rest c"
  "rest (sendToApp ind c) = rest c"
  by (simp_all add: sendIndicationToApp_def signalConnectionTimeout_def
      sendEstabIndicationToApp_def sendToApp_def)

lemma rest_sendSyn [rest_dests]: "sendSyn c = Inr c' \<Longrightarrow> rest c' = rest c"
  by (auto simp: sendSyn_def Let_def res_simps dest!: rest_dests)

lemma rest_sendSynAck [rest_dests]: "sendSynAck c = Inr c' \<Longrightarrow> rest c' = rest c"
  by (auto simp: sendSynAck_def Let_def res_simps dest!: rest_dests)

lemma rest_sendRst_from [rest_dests]:
  "sendRst_from s src dest sp dp c = Inr c' \<Longrightarrow> rest c' = rest c"
  by (auto simp: sendRst_from_def dest!: rest_dests)

lemma rest_sendRst [rest_dests]: "sendRst s c = Inr c' \<Longrightarrow> rest c' = rest c"
  by (auto simp: sendRst_def dest!: rest_dests)

lemma rest_sendAck [rest_dests]: "sendAck c = Inr c' \<Longrightarrow> rest c' = rest c"
  by (auto simp: sendAck_def res_simps dest!: rest_dests)

lemma rest_sendFin [rest_dests]: "sendFin c = Inr c' \<Longrightarrow> rest c' = rest c"
  by (auto simp: sendFin_def res_simps dest!: rest_dests)

lemma rest_sendSegment [rest_dests]: "sendSegment n c = Inr c' \<Longrightarrow> rest c' = rest c"
  by (auto simp: sendSegment_def Let_def res_simps split: if_splits dest!: rest_dests)

lemma rest_sendWholeSegments [rest_dests]:
  "sendWholeSegments n c = Inr c' \<Longrightarrow> rest c' = rest c"
  by (erule sendWholeSegments_inv [rotated, where P = "\<lambda>x. rest x = rest c"])
     (auto dest!: rest_sendSegment)

lemma rest_sendData [rest_dests]:
  "sendData env f w c = Inr (c', b) \<Longrightarrow> rest c' = rest c"
  by (auto simp: sendData_def Let_def res_simps split: if_splits dest!: rest_dests)

lemma rest_sendProbe [rest_dests]:
  "sendProbe env c = Inr (c', b) \<Longrightarrow> rest c' = rest c"
  by (auto simp: sendProbe_def Let_def res_simps split: if_splits dest!: rest_dests)

lemma rest_retransmitOneSegment [rest_dests]:
  "retransmitOneSegment c = Inr c' \<Longrightarrow> rest c' = rest c"
  by (auto simp: retransmitOneSegment_def Let_def res_simps dest!: rest_dests)

lemma rest_retransmitLoop [rest_dests]:
  "retransmitLoop n c = Inr c' \<Longrightarrow> rest c' = rest c"
  by (erule retransmitLoop_inv [rotated, where P = "\<lambda>x. rest x = rest c"])
     (auto dest!: rest_sendSegment)

lemma rest_retransmitData [rest_dests]: "retransmitData c = Inr c' \<Longrightarrow> rest c' = rest c"
  by (auto simp: retransmitData_def Let_def res_simps dest!: rest_dests)

section \<open>Algorithm classes\<close>

lemma rest_BaseAlg_sendData [rest_dests]:
  "TCPBaseAlg_sendData env c = Inr (c', b) \<Longrightarrow> rest c' = rest c"
  by (auto simp: TCPBaseAlg_sendData_def Let_def dest!: rest_dests)

lemma rest_established [rest_dests]:
  "alg_established env act c = Inr c' \<Longrightarrow> rest c' = rest c"
  by (auto simp: alg_established_def DumbTCP_established_def TCPBaseAlg_established_def Let_def
      res_simps split: TCPAlgorithm.splits if_splits dest!: rest_dests)

lemma rest_BaseAlg_processRexmitTimer [rest_dests]:
  "TCPBaseAlg_processRexmitTimer env e c = Inr (c', e') \<Longrightarrow> rest c' = rest c"
  by (auto simp: TCPBaseAlg_processRexmitTimer_def Let_def res_simps split: if_splits)

lemma rest_recalculate [simp]:
  "rest (TCPTahoe_recalculateSlowStartThreshold c) = rest c"
  "rest (TCPReno_recalculateSlowStartThreshold c) = rest c"
  by (simp_all add: TCPTahoe_recalculateSlowStartThreshold_def
      TCPReno_recalculateSlowStartThreshold_def Let_def)

lemma rest_alg_processRexmitTimer [rest_dests]:
  "alg_processRexmitTimer env e c = Inr (c', e') \<Longrightarrow> rest c' = rest c"
  by (auto simp: alg_processRexmitTimer_def TCPNoCongestionControl_processRexmitTimer_def
      TCPTahoe_processRexmitTimer_def TCPReno_processRexmitTimer_def Let_def
      res_simps split: TCPAlgorithm.splits if_splits dest!: rest_dests)

lemma rest_alg_processTimer [rest_dests]:
  "alg_processTimer env t e c = Inr (c', e') \<Longrightarrow> rest c' = rest c"
  by (auto simp: alg_processTimer_def DumbTCP_processTimer_def TCPBaseAlg_processTimer_def
      TCPBaseAlg_processPersistTimer_def TCPBaseAlg_processDelayedAckTimer_def
      TCPBaseAlg_processKeepAliveTimer_def
      res_simps split: TCPAlgorithm.splits if_splits dest!: rest_dests)

lemma rest_rttMeasurementComplete [simp]:
  "rest (TCPBaseAlg_rttMeasurementComplete env a b c) = rest c"
  by (simp add: TCPBaseAlg_rttMeasurementComplete_def Let_def)

lemma rest_alg_sendCommandInvoked [rest_dests]:
  "alg_sendCommandInvoked env c = Inr c' \<Longrightarrow> rest c' = rest c"
  by (auto simp: alg_sendCommandInvoked_def DumbTCP_sendCommandInvoked_def
      TCPBaseAlg_sendCommandInvoked_def
      res_simps split: TCPAlgorithm.splits dest!: rest_dests)

lemma rest_alg_receivedOutOfOrderSegment [rest_dests]:
  "alg_receivedOutOfOrderSegment c = Inr c' \<Longrightarrow> rest c' = rest c"
  by (auto simp: alg_receivedOutOfOrderSegment_def DumbTCP_receivedOutOfOrderSegment_def
      TCPBaseAlg_receivedOutOfOrderSegment_def split: TCPAlgorithm.splits dest!: rest_dests)

lemma rest_alg_receiveSeqChanged [rest_dests]:
  "alg_receiveSeqChanged env c = Inr c' \<Longrightarrow> rest c' = rest c"
  by (auto simp: alg_receiveSeqChanged_def DumbTCP_receiveSeqChanged_def
      TCPBaseAlg_receiveSeqChanged_def
      res_simps split: TCPAlgorithm.splits if_splits dest!: rest_dests)

lemma rest_BaseAlg_receivedDataAck [rest_dests]:
  "TCPBaseAlg_receivedDataAck env s c = Inr c' \<Longrightarrow> rest c' = rest c"
  by (auto simp: TCPBaseAlg_receivedDataAck_def Let_def res_simps split: if_splits
      dest!: rest_dests)

lemma rest_increaseCwnd [rest_dests]: "increaseCwnd c = Inr c' \<Longrightarrow> rest c' = rest c"
  by (auto simp: increaseCwnd_def Let_def res_simps split: if_splits)

lemma rest_alg_receivedDataAck [rest_dests]:
  "alg_receivedDataAck env s c = Inr c' \<Longrightarrow> rest c' = rest c"
  by (auto simp: alg_receivedDataAck_def DumbTCP_receivedDataAck_def
      TCPNoCongestionControl_receivedDataAck_def TCPTahoe_receivedDataAck_def
      TCPReno_receivedDataAck_def
      res_simps split: TCPAlgorithm.splits if_splits dest!: rest_dests)

lemma rest_alg_receivedDuplicateAck [rest_dests]:
  "alg_receivedDuplicateAck env c = Inr c' \<Longrightarrow> rest c' = rest c"
  by (auto simp: alg_receivedDuplicateAck_def DumbTCP_receivedDuplicateAck_def
      TCPBaseAlg_receivedDuplicateAck_def TCPTahoe_receivedDuplicateAck_def
      TCPReno_receivedDuplicateAck_def Let_def
      res_simps split: TCPAlgorithm.splits if_splits dest!: rest_dests)

lemma rest_alg_receivedAckForDataNotYetSent [rest_dests]:
  "alg_receivedAckForDataNotYetSent s c = Inr c' \<Longrightarrow> rest c' = rest c"
  by (auto simp: alg_receivedAckForDataNotYetSent_def DumbTCP_receivedAckForDataNotYetSent_def
      TCPBaseAlg_receivedAckForDataNotYetSent_def split: TCPAlgorithm.splits dest!: rest_dests)

section \<open>Input and commands\<close>

lemmas indication_defs [simp] = sendIndicationToApp_def signalConnectionTimeout_def
  sendEstabIndicationToApp_def sendToApp_def

lemma ident_of_rest: "rest c' = rest c \<Longrightarrow> ident c' = ident c"
  by (rule restD)

lemmas ident_dests' = rest_dests [THEN ident_of_rest]

lemma ident_selectInitialSeqNum [simp]: "ident (selectInitialSeqNum env c) = ident c"
  by (simp add: selectInitialSeqNum_def Let_def)

lemma ident_updateSendWindow [simp]: "ident (updateSendWindow seg c) = ident c"
  by (simp add: updateSendWindow_def)

lemma ident_ackInWindow [ident_dests]: "ackInWindow env seg c = Inr c' \<Longrightarrow> ident c' = ident c"
  by (auto simp: ackInWindow_def Let_def res_simps split: if_splits dest!: ident_dests')

lemma ident_processAckInEstabEtc [ident_dests]:
  "processAckInEstabEtc env seg c = Inr (c', b) \<Longrightarrow> ident c' = ident c"
  by (auto simp: processAckInEstabEtc_def res_simps split: if_splits
      dest!: ident_dests ident_dests')

lemma ident_checkRstBit [ident_dests]:
  "checkRstBit seg c = Inr (c', e) \<Longrightarrow> ident c' = ident c"
  by (auto simp: checkRstBit_def processRstInSynReceived_def Let_def res_simps
      split: TcpState.splits if_splits)

lemma ident_2MSL [ident_dests]:
  "schedule2MSL env c = Inr c' \<Longrightarrow> ident c' = ident c"
  "cancel2MSL c = Inr c' \<Longrightarrow> ident c' = ident c"
  by (auto simp: schedule2MSL_def cancel2MSL_def res_simps)

lemma ident_checkAckField [ident_dests]:
  assumes "checkAckField env seg e c = Inr (c', e', b)"
  shows "ident c' = ident c"
proof -
  from assms obtain c1 ok where
    1: "(if fsm c \<in> {TCP_S_SYN_RCVD, TCP_S_ESTABLISHED, TCP_S_FIN_WAIT_1, TCP_S_FIN_WAIT_2,
                TCP_S_CLOSE_WAIT, TCP_S_CLOSING}
              then processAckInEstabEtc env seg c else Inr (c, True)) = Inr (c1, ok)"
    by (auto simp: checkAckField_def andThen_Inr_iff)
  then have "ident c1 = ident c" by (auto split: if_splits dest!: ident_dests)
  moreover have "ident c' = ident c1"
    using assms unfolding checkAckField_def 1
    by (auto simp: Let_def res_simps split: if_splits dest!: ident_dests ident_dests')
  ultimately show ?thesis by simp
qed

lemma ident_sendMsgs [simp]:
  "ident (fold (\<lambda>m. sendToApp (DataIndication (f m) m)) ms c) = ident c"
  by (induction ms arbitrary: c) simp_all

lemma ident_processSegmentText [ident_dests]:
  "processSegmentText env seg c = Inr c' \<Longrightarrow> ident c' = ident c"
  by (auto simp: processSegmentText_def Let_def res_simps split: if_splits dest!: ident_dests')

lemma ident_enterTimeWait [ident_dests]: "enterTimeWait env c = Inr c' \<Longrightarrow> ident c' = ident c"
  by (auto simp: enterTimeWait_def res_simps dest!: ident_dests)

lemma ident_checkFinBit [ident_dests]:
  "checkFinBit env seg e c = Inr (c', e') \<Longrightarrow> ident c' = ident c"
  by (auto simp: checkFinBit_def Let_def res_simps split: if_splits TcpState.splits
      dest!: ident_dests)

lemma ident_passiveEstablished [ident_dests]:
  "passiveEstablished env c = Inr (c', e') \<Longrightarrow> ident c' = ident c"
  by (auto simp: passiveEstablished_def res_simps split: if_splits dest!: ident_dests')

lemma ident_processSegment5thThru8th [ident_dests]:
  assumes "processSegment5thThru8th env seg c = Inr (c', e')"
  shows "ident c' = ident c"
proof -
  from assms obtain c1 e1 c2 e2 b where
    1: "passiveEstablished env c = Inr (c1, e1)" and
    2: "checkAckField env seg e1 c1 = Inr (c2, e2, b)"
    by (auto simp: processSegment5thThru8th_def andThen_Inr_iff Let_def)
  have "ident c2 = ident c"
    using ident_passiveEstablished [OF 1] ident_checkAckField [OF 2] by simp
  moreover have "ident c' = ident c2"
    using assms unfolding processSegment5thThru8th_def 1
    by (auto simp: 2 Let_def res_simps split: if_splits dest!: ident_dests ident_dests')
  ultimately show ?thesis by simp
qed

lemma ident_processSegment1stThru8th [ident_dests]:
  "processSegment1stThru8th env seg c = Inr (c', e') \<Longrightarrow> ident c' = ident c"
  by (auto simp: processSegment1stThru8th_def res_simps split: if_splits
      dest!: ident_dests ident_dests')

lemma ident_startSynRexmitTimer [ident_dests]:
  "startSynRexmitTimer env c = Inr c' \<Longrightarrow> ident c' = ident c"
  by (auto simp: startSynRexmitTimer_def Let_def res_simps)

lemma ident_timerFired [simp]: "ident (timerFired t c) = ident c"
  by (simp add: timerFired_def split: TCPTimerMsg.splits)

lemma ident_process_TIMEOUT_SYN_REXMIT [ident_dests]:
  "process_TIMEOUT_SYN_REXMIT env e c = Inr (c', e') \<Longrightarrow> ident c' = ident c"
proof (cases "MAX_SYN_REXMIT_COUNT < syn_rexmit_count c + 1")
  case False
  let ?c = "c\<lparr>syn_rexmit_count := syn_rexmit_count c + 1\<rparr>"
  assume "process_TIMEOUT_SYN_REXMIT env e c = Inr (c', e')"
  with False obtain d where
    d: "(if fsm ?c = TCP_S_SYN_SENT then sendSyn ?c
         else if fsm ?c = TCP_S_SYN_RCVD then sendSynAck ?c
         else Inl (OppError ''Internal error: SYN-REXMIT timer expired'')) = Inr d"
    and c': "ident c' = ident d"
    by (auto simp: process_TIMEOUT_SYN_REXMIT_def Let_def andThen_Inr_iff)
  from d have "ident d = ident ?c"
    using ident_dests' by (metis sum.distinct(1))
  with c' show ?thesis by simp
qed (auto simp: process_TIMEOUT_SYN_REXMIT_def Let_def)

lemma ident_startActiveOpen [ident_dests]:
  "startActiveOpen env c = Inr c' \<Longrightarrow> ident c' = ident c"
  by (auto simp: startActiveOpen_def res_simps dest!: ident_dests ident_dests')

lemma ident_enqueueAppData [simp]: "ident (enqueueAppData m c) = ident c"
  by (simp add: enqueueAppData_def)

lemma ident_process_SEND [ident_dests]:
  "process_SEND env e m c = Inr (c', e') \<Longrightarrow> ident c' = ident c"
  by (auto simp: process_SEND_def res_simps split: TcpState.splits
      dest!: ident_dests ident_dests')

lemma ident_process_CLOSE [ident_dests]:
  "process_CLOSE e c = Inr (c', e') \<Longrightarrow> ident c' = ident c"
  by (auto simp: process_CLOSE_def closeSendSide_def res_simps split: TcpState.splits if_splits
      dest!: ident_dests')

lemma ident_process_ABORT [ident_dests]:
  "process_ABORT e c = Inr (c', e') \<Longrightarrow> ident c' = ident c"
  by (auto simp: process_ABORT_def res_simps split: if_splits dest!: ident_dests')

lemma ident_process_STATUS [ident_dests]:
  "process_STATUS e k c = Inr (c', e') \<Longrightarrow> ident c' = ident c"
  by (auto simp: process_STATUS_def split: if_splits)

lemma ident_acceptSyn [ident_dests]: "acceptSyn env seg c = Inr c' \<Longrightarrow> ident c' = ident c"
  by (auto simp: acceptSyn_def Let_def res_simps split: if_splits
      dest!: ident_dests ident_dests')

lemma ident_synSentLearn [ident_dests]: "synSentLearn seg c = Inr c' \<Longrightarrow> ident c' = ident c"
  by (auto simp: synSentLearn_def Let_def res_simps split: if_splits)

lemma ident_activeEstablished [ident_dests]:
  "activeEstablished env seg c = Inr c' \<Longrightarrow> ident c' = ident c"
  by (auto simp: activeEstablished_def Let_def res_simps split: if_splits dest!: ident_dests')

lemma ident_simultaneousOpen [ident_dests]:
  "simultaneousOpen env seg c = Inr c' \<Longrightarrow> ident c' = ident c"
proof -
  assume "simultaneousOpen env seg c = Inr c'"
  then obtain c1 c2 where 1: "sendSynAck (c\<lparr>snd_max := iss c, snd_nxt := iss c\<rparr>) = Inr c1"
    and 2: "startSynRexmitTimer env c1 = Inr c2"
    and c': "(if hasPayload seg
       then c2\<lparr>receiveQueue := rq_insertBytesFromSegment seg (receiveQueue c2)\<rparr> else c2) = c'"
    unfolding simultaneousOpen_def andThen_Inr_iff by (elim exE conjE) (rule that, assumption+, simp)
  have 3: "ident c' = ident c2" unfolding c' [symmetric] by simp
  have "ident c1 = ident c"
    using rest_sendSynAck [OF 1] by (auto dest: ident_of_rest)
  with ident_startSynRexmitTimer [OF 2] 3 show ?thesis by simp
qed

text \<open>The state machine changes the state only.\<close>

lemma stateEntered_ident: "stateEntered s c = Inr c' \<Longrightarrow> ident c' = ident c"
  by (drule stateEntered_frame) auto

lemma performStateTransition_ident:
  assumes "performStateTransition e c = Inr (c', b)"
  shows "ident c' = ident (c\<lparr>fsm := if e = TCP_E_IGNORE then fsm c
     else fsm_goto (active c) (fsm c) e\<rparr>)"
  using assms
  by (auto simp: performStateTransition_def Let_def res_simps split: if_splits
      dest!: stateEntered_ident)

end
