(* ===== verification/TCP_Tables.thy ===== *)
theory TCP_Tables imports TCP_Frame
begin

text \<open>
  The tables of the TCP module agree with the connections: every live connection is found under
  its own application key, every registered one under its own socket pair, and the multiset of
  ephemeral ports holds one entry for each registered connection that uses one. The agreement is
  stated on the keys of the connections, and each table operation of \<^verbatim>\<open>TCP.cc\<close> keeps it.
\<close>

section \<open>Agreement\<close>

type_synonym connKeys = "AppConnKey \<times> SockPair \<times> int"

definition keysOf :: "TCP \<Rightarrow> nat \<Rightarrow> connKeys option" where
  "keysOf m p = map_option (\<lambda>c. (connAppKey c, connSockPair c, localPort c)) (conns m p)"

definition keyPort :: "(nat \<Rightarrow> connKeys option) \<Rightarrow> nat \<Rightarrow> int" where
  "keyPort keys p = snd (snd (the (keys p)))"

definition portsOf :: "nat set \<Rightarrow> (nat \<Rightarrow> connKeys option) \<Rightarrow> int multiset" where
  "portsOf R keys = image_mset (keyPort keys) (mset_set {p \<in> R. isEphemeral (keyPort keys p)})"

text \<open>\<open>R\<close> is the set of the registered connections.\<close>

definition agree ::
  "nat set \<Rightarrow> (nat \<Rightarrow> connKeys option) \<Rightarrow> (AppConnKey \<Rightarrow> nat option) \<Rightarrow> (SockPair \<Rightarrow> nat option) \<Rightarrow>
   int multiset \<Rightarrow> bool" where
  "agree R keys app con used \<longleftrightarrow> finite (dom keys) \<and> R \<subseteq> dom keys \<and>
     (\<forall>k p. app k = Some p \<longleftrightarrow> (\<exists>s. keys p = Some (k, s))) \<and>
     (\<forall>s p. con s = Some p \<longleftrightarrow> p \<in> R \<and> (\<exists>k l. keys p = Some (k, s, l))) \<and>
     used = portsOf R keys"

lemma agree_app: "agree R keys app con used \<Longrightarrow> keys p = Some (k, s) \<Longrightarrow> app k = Some p"
  by (auto simp: agree_def)

lemma agree_con: "agree R keys app con used \<Longrightarrow> p \<in> R \<Longrightarrow> keys p = Some (k, s, l) \<Longrightarrow> con s = Some p"
  by (auto simp: agree_def)

lemma agree_conD: "agree R keys app con used \<Longrightarrow> con s = Some p \<Longrightarrow>
    p \<in> R \<and> (\<exists>k l. keys p = Some (k, s, l))"
  by (auto simp: agree_def)

lemma agree_appD: "agree R keys app con used \<Longrightarrow> app k = Some p \<Longrightarrow> \<exists>s. keys p = Some (k, s)"
  by (simp add: agree_def)

lemma agree_ports: "agree R keys app con used \<Longrightarrow> used = portsOf R keys"
  by (simp add: agree_def)

lemma agree_dom: "agree R keys app con used \<Longrightarrow> finite (dom keys) \<and> R \<subseteq> dom keys"
  by (simp add: agree_def)

lemma agreeI:
  assumes "finite (dom keys)" "R \<subseteq> dom keys"
    "\<And>k p s. keys p = Some (k, s) \<Longrightarrow> app k = Some p"
    "\<And>k p. app k = Some p \<Longrightarrow> \<exists>s. keys p = Some (k, s)"
    "\<And>k p s l. p \<in> R \<Longrightarrow> keys p = Some (k, s, l) \<Longrightarrow> con s = Some p"
    "\<And>s p. con s = Some p \<Longrightarrow> p \<in> R \<and> (\<exists>k l. keys p = Some (k, s, l))"
    "used = portsOf R keys"
  shows "agree R keys app con used"
  unfolding agree_def using assms by blast

lemmas agree_facts = agree_app agree_appD agree_con agree_conD agree_dom agree_ports

lemma agree_finite: "agree R keys app con used \<Longrightarrow> finite R"
  by (auto simp: agree_def intro: finite_subset)

lemma keyPort_upd: "keyPort (keys(p := x)) q = (if q = p then snd (snd (the x)) else keyPort keys q)"
  by (simp add: keyPort_def)

lemma portsOf_cong:
  assumes "\<And>p. p \<in> R \<Longrightarrow> keyPort keys p = keyPort keys' p"
  shows "portsOf R keys = portsOf R keys'"
proof -
  have "{p \<in> R. isEphemeral (keyPort keys p)} = {p \<in> R. isEphemeral (keyPort keys' p)}"
    using assms by auto
  moreover have "image_mset (keyPort keys) (mset_set {p \<in> R. isEphemeral (keyPort keys' p)}) =
      image_mset (keyPort keys') (mset_set {p \<in> R. isEphemeral (keyPort keys' p)})"
  proof (rule image_mset_cong)
    fix x assume "x \<in># mset_set {p \<in> R. isEphemeral (keyPort keys' p)}"
    then have "x \<in> {p \<in> R. isEphemeral (keyPort keys' p)}"
      by (cases "finite {p \<in> R. isEphemeral (keyPort keys' p)}") auto
    then show "keyPort keys x = keyPort keys' x" using assms by blast
  qed
  ultimately show ?thesis unfolding portsOf_def by (simp only:)
qed

lemma portsOf_insert:
  assumes "finite R" "p \<notin> R"
  shows "portsOf (insert p R) keys =
    (if isEphemeral (keyPort keys p) then add_mset (keyPort keys p) (portsOf R keys) else portsOf R keys)"
proof (cases "isEphemeral (keyPort keys p)")
  case True
  then have "{q \<in> insert p R. isEphemeral (keyPort keys q)} =
      insert p {q \<in> R. isEphemeral (keyPort keys q)}" by auto
  with assms True show ?thesis by (simp add: portsOf_def)
next
  case False
  then have "{q \<in> insert p R. isEphemeral (keyPort keys q)} = {q \<in> R. isEphemeral (keyPort keys q)}"
    by auto
  with False show ?thesis by (simp add: portsOf_def)
qed

section \<open>The table operations\<close>

text \<open>
  All table operations change the keys of one connection and move the entries that point to it.
\<close>

lemma agree_change:
  assumes a: "agree R keys app con used"
    and R': "R' - {p} = R - {p}" "p \<in> R' \<Longrightarrow> x \<noteq> None"
    and app: "\<And>k s. x = Some (k, s) \<Longrightarrow> app k = None \<or> app k = Some p"
    and con: "\<And>k s l. p \<in> R' \<Longrightarrow> x = Some (k, s, l) \<Longrightarrow> con s = None \<or> con s = Some p"
    and app': "\<And>k. app' k = (if map_option fst x = Some k then Some p
       else if app k = Some p then None else app k)"
    and con': "\<And>s. con' s = (if p \<in> R' \<and> map_option (\<lambda>y. fst (snd y)) x = Some s then Some p
       else if con s = Some p then None else con s)"
    and used': "used' = portsOf R' (keys(p := x))"
  shows "agree R' (keys(p := x)) app' con' used'"
proof (rule agreeI, goal_cases)
  note f = agree_facts [OF a]
  have R: "q \<in> R' \<longleftrightarrow> q \<in> R" if "q \<noteq> p" for q using R'(1) that by blast
  {
    case 1 then show ?case using f(5) by simp
  next
    case 2 then show ?case using f(5) R R'(2) by (auto simp: dom_def split: if_splits)
  next
    case (3 k1 p1 s1)
    then show ?case using f(1) [of p1 k1 s1] app [of k1] by (auto simp: app' split: if_splits)
  next
    case (4 k1 p1)
    then show ?case using f(2) [of k1 p1] by (auto simp: app' split: if_splits)
  next
    case (5 k1 p1 s1 l1)
    then show ?case using f(3) [of p1 k1 s1 l1] con [of _ s1] R [of p1]
      by (auto simp: con' split: if_splits)
  next
    case (6 s1 p1)
    then show ?case using f(4) [of s1 p1] R [of p1] by (auto simp: con' split: if_splits)
  next
    case 7 then show ?case by (rule used')
  }
qed

lemma agree_create:
  assumes a: "agree R keys app con used" and free: "keys p = None" "app k = None"
  shows "agree R (keys(p \<mapsto> (k, s, l))) (app(k \<mapsto> p)) con used"
proof -
  have "p \<notin> R" using assms by (auto simp: agree_def)
  then have "portsOf R (keys(p \<mapsto> (k, s, l))) = portsOf R keys"
    by (intro portsOf_cong) (auto simp: keyPort_upd)
  note ports = this
  show ?thesis
    by (rule agree_change [OF a]) (use free \<open>p \<notin> R\<close> ports in \<open>auto dest: agree_appD [OF a] agree_conD [OF a]
        intro: agree_con [OF a] simp: agree_ports [OF a]\<close>)
qed

lemma agree_register:
  assumes a: "agree R keys app con used" and "p \<notin> R" and k: "keys p = Some (k, s0, l0)"
    and free: "con s = None"
  shows "agree (insert p R) (keys(p \<mapsto> (k, s, l))) app (con(s \<mapsto> p))
    (if isEphemeral l then add_mset l used else used)"
proof -
  have "portsOf R (keys(p \<mapsto> (k, s, l))) = portsOf R keys"
    using \<open>p \<notin> R\<close> by (intro portsOf_cong) (auto simp: keyPort_upd)
  moreover have "keyPort (keys(p \<mapsto> (k, s, l))) p = l" by (simp add: keyPort_def)
  ultimately have ports: "portsOf (insert p R) (keys(p \<mapsto> (k, s, l))) =
     (if isEphemeral l then add_mset l used else used)"
    using portsOf_insert [OF agree_finite [OF a] \<open>p \<notin> R\<close>, of "keys(p \<mapsto> (k, s, l))"] a
    by (simp add: agree_def)
  show ?thesis
    by (rule agree_change [OF a]) (use k \<open>p \<notin> R\<close> free ports agree_app [OF a k] in \<open>auto dest: agree_appD [OF a] agree_conD [OF a]
        intro: agree_con [OF a] simp: agree_ports [OF a]\<close>)
qed

lemma agree_move:
  assumes a: "agree R keys app con used" and p: "p \<in> R" and k: "keys p = Some (k, s, l)"
    and free: "s' = s \<or> con s' = None"
  shows "agree R (keys(p \<mapsto> (k, s', l))) app ((con(s := None))(s' \<mapsto> p)) used"
proof -
  have "portsOf R (keys(p \<mapsto> (k, s', l))) = portsOf R keys"
    using k by (intro portsOf_cong) (auto simp: keyPort_upd keyPort_def)
  note ports = this
  have con: "con s = Some p" using agree_con [OF a p k] .
  show ?thesis
    by (rule agree_change [OF a]) (use p k free ports con agree_app [OF a k] in \<open>auto dest: agree_appD [OF a] agree_conD [OF a]
        intro: agree_con [OF a] simp: agree_ports [OF a]\<close>)
qed

lemma agree_rename:
  assumes a: "agree R keys app con used" and k: "keys p = Some (k, s, l)" and free: "app k' = None"
  shows "agree R (keys(p \<mapsto> (k', s, l))) ((app(k := None))(k' \<mapsto> p)) con used"
proof -
  have "portsOf R (keys(p \<mapsto> (k', s, l))) = portsOf R keys"
    using k by (intro portsOf_cong) (auto simp: keyPort_upd keyPort_def)
  note ports = this
  have app: "app k = Some p" using agree_app [OF a k] .
  show ?thesis
    by (rule agree_change [OF a]) (use k free ports app in \<open>auto dest: agree_appD [OF a] agree_conD [OF a]
        intro: agree_con [OF a] simp: agree_ports [OF a]\<close>)
qed

lemma agree_remove:
  assumes a: "agree R keys app con used" and p: "p \<in> R" and k: "keys p = Some (k, s, l)"
    and short: "isEphemeral (toShort l) \<Longrightarrow> toShort l = l"
  shows "agree (R - {p}) (keys(p := None)) (app(k := None)) (con(s := None)) (used - {#toShort l#})"
proof -
  have R: "finite (R - {p})" using agree_finite [OF a] by simp
  have "portsOf (R - {p}) (keys(p := None)) = portsOf (R - {p}) keys"
    by (intro portsOf_cong) (auto simp: keyPort_upd)
  moreover have l: "keyPort keys p = l" using k by (simp add: keyPort_def)
  have "portsOf R keys = (if isEphemeral l then add_mset l (portsOf (R - {p}) keys)
      else portsOf (R - {p}) keys)"
    using portsOf_insert [OF R, of p keys] p l by (simp add: insert_absorb)
  moreover have "used = portsOf R keys" using a by (simp add: agree_def)
  moreover have "\<not> isEphemeral (toShort l) \<Longrightarrow> toShort l \<notin># portsOf (R - {p}) keys"
    using R by (auto simp: portsOf_def)
  ultimately have "used - {#toShort l#} = portsOf (R - {p}) (keys(p := None))"
    using short
    by (cases "isEphemeral (toShort l)")
       (auto simp: diff_single_trivial isEphemeral_def toShort_def split: if_splits)
  note ports = this
  have app: "app k = Some p" and con: "con s = Some p"
    using agree_app [OF a k] agree_con [OF a p k] .
  show ?thesis
    by (rule agree_change [OF a]) (use p k ports app con in \<open>auto dest: agree_appD [OF a] agree_conD [OF a]
        intro: agree_con [OF a] simp: agree_ports [OF a]\<close>)
qed

text \<open>A fork: the accepted connection moves and is renamed, its clone takes the old key.\<close>

lemma agree_fork:
  assumes a: "agree R keys app con used" and p: "p \<in> R" and k: "keys p = Some (k, s, l)"
    and q: "keys q = None" and k': "app k' = None" and s': "s' = s \<or> con s' = None"
    and free: "((con(s := None))(s' \<mapsto> p)) sq = None"
  shows "agree (insert q R) (keys(p \<mapsto> (k', s', l), q \<mapsto> (k, sq, lq)))
    (((app(k := None))(k' \<mapsto> p))(k \<mapsto> q)) (((con(s := None))(s' \<mapsto> p))(sq \<mapsto> q))
    (if isEphemeral lq then add_mset lq used else used)"
proof -
  have ne: "q \<noteq> p" "q \<notin> R" "k' \<noteq> k"
    using k q k' agree_dom [OF a] agree_app [OF a k] by auto
  note 1 = agree_move [OF a p k s']
  have 2: "agree R (keys(p \<mapsto> (k', s', l))) ((app(k := None))(k' \<mapsto> p)) ((con(s := None))(s' \<mapsto> p)) used"
    using agree_rename [OF 1, of p k s' l k'] k' by simp
  have 3: "agree R (keys(p \<mapsto> (k', s', l), q \<mapsto> (k, sq, lq))) (((app(k := None))(k' \<mapsto> p))(k \<mapsto> q))
     ((con(s := None))(s' \<mapsto> p)) used"
    using agree_create [OF 2, of q k] q ne by simp
  show ?thesis
    using agree_register [OF 3, of q k sq lq sq lq] free ne by simp
qed

end
