(* ===== verification/TCP_ModuleInv.thy ===== *)
theory TCP_ModuleInv imports TCP_Tables
begin

text \<open>
  The invariant of the TCP module: its tables agree with its connections between any two
  messages, no connection that is kept is in state INIT or CLOSED, and connection ids are below
  the counter of unique numbers. \<^const>\<open>handleMessage\<close> preserves it.
\<close>

section \<open>Invariants\<close>

definition tablesOk :: "nat set \<Rightarrow> TCP \<Rightarrow> bool" where
  "tablesOk R m \<longleftrightarrow> agree R (keysOf m) (tcpAppConnMap m) (tcpConnMap m) (usedEphemeralPorts m) \<and>
     (\<forall>p \<in> dom (conns m). p < nextConn m) \<and> isEphemeral (lastEphemeralPort m)"

definition connOk :: "int \<Rightarrow> TCPConnection \<Rightarrow> bool" where
  "connOk u c \<longleftrightarrow> connId c < u \<and> fsm c \<noteq> TCP_S_CLOSED \<and>
     toShort (localPort c) = localPort c \<and> toShort (remotePort c) = remotePort c"

definition TCP_inv :: "TCP \<Rightarrow> bool" where
  "TCP_inv m \<longleftrightarrow> tablesOk (dom (conns m)) m \<and>
     (\<forall>p c. conns m p = Some c \<longrightarrow> connOk (uniqueNumber m) c \<and> fsm c \<noteq> TCP_S_INIT)"

text \<open>The invariant while connection \<open>p\<close>, in state \<open>s\<close>, handles a message.\<close>

definition mid :: "nat set \<Rightarrow> nat \<Rightarrow> TcpState \<Rightarrow> TCP \<Rightarrow> bool" where
  "mid R p s m \<longleftrightarrow> tablesOk R m \<and> (\<exists>c. conns m p = Some c \<and> fsm c = s) \<and>
     (\<forall>q c. conns m q = Some c \<longrightarrow> connOk (uniqueNumber m) c \<and> (q \<noteq> p \<longrightarrow> fsm c \<noteq> TCP_S_INIT))"

definition keyState :: "TCPConnection \<Rightarrow> AppConnKey \<times> SockPair \<times> int \<times> int \<times> TcpState" where
  "keyState c = (connAppKey c, connSockPair c, localPort c, remotePort c, fsm c)"

lemma keyState_ident: "ident c' = ident c \<Longrightarrow> keyState c' = keyState c"
  by (simp add: keyState_def connAppKey_def connSockPair_def ident_def)

lemma connOk_keyState: "keyState c' = keyState c \<Longrightarrow> connOk u c' = connOk u c"
  by (simp add: keyState_def connOk_def connAppKey_def)

lemma mid_connOk: "mid R p s m \<Longrightarrow> conns m q = Some c \<Longrightarrow>
    connOk (uniqueNumber m) c \<and> (q \<noteq> p \<longrightarrow> fsm c \<noteq> TCP_S_INIT)"
  by (simp add: mid_def)

lemma mid_range: "mid R p s m \<Longrightarrow> isEphemeral (lastEphemeralPort m)"
  by (simp add: mid_def tablesOk_def)

lemma TCP_inv_mid:
  "TCP_inv m \<Longrightarrow> conns m p = Some c \<Longrightarrow> mid (dom (conns m)) p (fsm c) m"
  by (auto simp: TCP_inv_def mid_def)

section \<open>Methods of a connection\<close>

lemma onConnRD:
  assumes "onConnR p f m = Inr (m', x)"
  obtains c c' where "conns m p = Some c" "f c = Inr (c', x)"
    "m' = m\<lparr>conns := (conns m)(p \<mapsto> c'\<lparr>outs := []\<rparr>), sent := sent m @ outs c'\<rparr>"
  using assms by (auto simp: onConnR_def res_simps split: option.splits)

lemma onConnD:
  assumes "onConn p f m = Inr m'"
  obtains c c' where "conns m p = Some c" "f c = Inr c'"
    "m' = m\<lparr>conns := (conns m)(p \<mapsto> c'\<lparr>outs := []\<rparr>), sent := sent m @ outs c'\<rparr>"
  using assms by (auto simp: onConn_def onConnR_def res_simps split: option.splits)

lemma keysOf_upd:
  "keysOf (m\<lparr>conns := (conns m)(p \<mapsto> c), sent := s\<rparr>) =
   (keysOf m)(p \<mapsto> (connAppKey c, connSockPair c, localPort c))"
  by (auto simp: keysOf_def)

lemma keys_outs [simp]:
  "connAppKey (c\<lparr>outs := x\<rparr>) = connAppKey c" "connSockPair (c\<lparr>outs := x\<rparr>) = connSockPair c"
  by (simp_all add: connAppKey_def connSockPair_def)

lemma mid_upd:
  assumes m: "mid R p s m" and c: "conns m p = Some c" and k: "keyState c' = keyState c"
  shows "mid R p s (m\<lparr>conns := (conns m)(p \<mapsto> c'), sent := x\<rparr>)"
proof -
  have "keysOf (m\<lparr>conns := (conns m)(p \<mapsto> c'), sent := x\<rparr>) = keysOf m"
    using c k by (auto simp: keysOf_upd keyState_def) (auto simp: keysOf_def)
  with m c k connOk_keyState [OF k] show ?thesis
    by (auto simp: mid_def tablesOk_def keyState_def)
qed

lemma keyState_outs [simp]: "keyState (c\<lparr>outs := x\<rparr>) = keyState c"
  by (simp add: keyState_def connAppKey_def connSockPair_def)

lemma mid_onConnR:
  assumes m: "mid R p s m" and r: "onConnR p f m = Inr (m', x)"
    and f: "\<And>c c'. f c = Inr (c', x) \<Longrightarrow> fsm c = s \<Longrightarrow> keyState c' = keyState c"
  shows "mid R p s m' \<and> dom (conns m') = dom (conns m) \<and> tcpConnMap m' = tcpConnMap m"
proof -
  from r obtain c c' where c: "conns m p = Some c" "f c = Inr (c', x)"
    "m' = m\<lparr>conns := (conns m)(p \<mapsto> c'\<lparr>outs := []\<rparr>), sent := sent m @ outs c'\<rparr>"
    by (rule onConnRD)
  have "fsm c = s" using m c(1) by (auto simp: mid_def)
  with f [OF c(2)] have "keyState (c'\<lparr>outs := []\<rparr>) = keyState c" by simp
  from mid_upd [OF m c(1) this] c show ?thesis by auto
qed

lemma mid_onConn:
  assumes m: "mid R p s m" and r: "onConn p f m = Inr m'"
    and f: "\<And>c c'. f c = Inr c' \<Longrightarrow> fsm c = s \<Longrightarrow> keyState c' = keyState c"
  shows "mid R p s m' \<and> dom (conns m') = dom (conns m) \<and> tcpConnMap m' = tcpConnMap m"
proof -
  from r have "onConnR p (\<lambda>c. andThen (f c) (\<lambda>c. Inr (c, ()))) m = Inr (m', ())"
    by (auto simp: onConn_def res_simps)
  from mid_onConnR [OF m this] f show ?thesis by (auto simp: res_simps)
qed

section \<open>Tables\<close>

lemma mid_addSockPair:
  assumes m: "mid R p s m" and p: "p \<notin> R" and r: "addSockPair p la ra lp rp m = Inr m'"
    and lp: "toShort lp = lp" "toShort rp = rp"
  shows "mid (insert p R) p s m' \<and> dom (conns m') = dom (conns m)"
proof -
  from r obtain m1 where 1: "onConn p (\<lambda>c. Inr (setSockPair la ra lp rp c)) m = Inr m1"
    and free: "tcpConnMap m1 (sockPair la ra lp rp) = None"
    and m': "m' = m1\<lparr>tcpConnMap := (tcpConnMap m1)(sockPair la ra lp rp \<mapsto> p),
        usedEphemeralPorts := (if isEphemeral lp then add_mset lp (usedEphemeralPorts m1)
                               else usedEphemeralPorts m1)\<rparr>"
    by (auto simp: addSockPair_def Let_def res_simps)
  from 1 obtain c where c: "conns m p = Some c" and m1: "m1 = m\<lparr>conns :=
      (conns m)(p \<mapsto> (setSockPair la ra lp rp c)\<lparr>outs := []\<rparr>),
      sent := sent m @ outs (setSockPair la ra lp rp c)\<rparr>"
    by (rule onConnD) auto
  have k: "keysOf m p = Some (connAppKey c, connSockPair c, localPort c)"
    using c by (simp add: keysOf_def)
  have keys: "keysOf m' = (keysOf m)(p \<mapsto> (connAppKey c, sockPair la ra lp rp, lp))"
    using c by (auto simp: keysOf_def m' m1 setSockPair_def connAppKey_def connSockPair_def)
  have "agree R (keysOf m) (tcpAppConnMap m) (tcpConnMap m) (usedEphemeralPorts m)"
    using m by (simp add: mid_def tablesOk_def)
  from agree_register [OF this p k, of "sockPair la ra lp rp" lp] free
  have "agree (insert p R) (keysOf m') (tcpAppConnMap m') (tcpConnMap m') (usedEphemeralPorts m')"
    unfolding keys by (simp add: m' m1 split: if_splits)
  then show ?thesis
    using m c lp by (auto simp: mid_def tablesOk_def m' m1 setSockPair_def connOk_def)
qed

lemma mid_updateSockPair:
  assumes m: "mid R p s m" and p: "p \<in> R" and r: "updateSockPair p la ra lp rp m = Inr m'"
    and free: "tcpConnMap m (sockPair la ra lp rp) \<in> {None, Some p}" and rp: "toShort rp = rp"
  shows "mid R p s m' \<and> dom (conns m') = dom (conns m)"
proof -
  from r obtain c where c: "conns m p = Some c" and lp: "localPort c = lp"
    and old: "tcpConnMap m (connSockPair c) = Some p"
    and m': "m' = m\<lparr>conns := (conns m)(p \<mapsto> setSockPair la ra lp rp c),
        tcpConnMap := ((tcpConnMap m)(connSockPair c := None))(sockPair la ra lp rp \<mapsto> p)\<rparr>"
    by (auto simp: updateSockPair_def Let_def res_simps connSockPair_def setSockPair_def
        split: option.splits)
  have a: "agree R (keysOf m) (tcpAppConnMap m) (tcpConnMap m) (usedEphemeralPorts m)"
    using m by (simp add: mid_def tablesOk_def)
  have k: "keysOf m p = Some (connAppKey c, connSockPair c, lp)"
    using c lp by (simp add: keysOf_def)
  have keys: "keysOf m' = (keysOf m)(p \<mapsto> (connAppKey c, sockPair la ra lp rp, lp))"
    using c by (auto simp: keysOf_def m' setSockPair_def connAppKey_def connSockPair_def)
  have s': "sockPair la ra lp rp = connSockPair c \<or> tcpConnMap m (sockPair la ra lp rp) = None"
    using free agree_conD [OF a, of "sockPair la ra lp rp" p] k by auto
  have "agree R (keysOf m') (tcpAppConnMap m') (tcpConnMap m') (usedEphemeralPorts m')"
    unfolding keys using agree_move [OF a p k s'] by (simp add: m')
  then show ?thesis
    using m c lp rp by (auto simp: mid_def tablesOk_def m' setSockPair_def connOk_def)
qed

lemma find_free:
  assumes "findConnForSegment seg srcAddr destAddr m = Some p"
  shows "tcpConnMap m (sockPair destAddr srcAddr (getDestPort seg) (getSrcPort seg)) \<in> {None, Some p}"
  using assms by (auto simp: findConnForSegment_def Let_def split: option.splits)

lemma find_live:
  assumes t: "tablesOk R m" and f: "findConnForSegment seg srcAddr destAddr m = Some p"
  shows "\<exists>c. conns m p = Some c"
proof -
  from f obtain k where "tcpConnMap m k = Some p"
    by (auto simp: findConnForSegment_def Let_def split: option.splits)
  with t agree_conD have "\<exists>x. keysOf m p = Some x" by (fastforce simp: tablesOk_def)
  then show ?thesis by (auto simp: keysOf_def)
qed

lemma mid_fork:
  assumes m: "mid (dom (conns m)) p TCP_S_LISTEN m" and c: "conns m p = Some c"
    and th: "keyState this = keyState c"
    and conn: "connAppKey conn = connAppKey c" "fsm conn = TCP_S_LISTEN" "localPort conn = localPort c"
      "remotePort conn = -1" and rp: "toShort rp = rp"
    and r: "addForkedConnection p (nextConn m) la ra lp rp
      (m\<lparr>conns := (conns m)(p \<mapsto> this, nextConn m \<mapsto> conn), nextConn := nextConn m + 1\<rparr>) = Inr m'"
    and free: "tcpConnMap m (sockPair la ra lp rp) \<in> {None, Some p}"
  shows "mid (dom (conns m')) p TCP_S_LISTEN m'"
proof -
  let ?q = "nextConn m" and ?k = "connAppKey c" and ?s = "sockPair la ra lp rp"
    and ?u = "uniqueNumber m" and ?sq = "connSockPair conn"
  let ?k' = "?k\<lparr>ak_connId := ?u\<rparr>"
  have a: "agree (dom (conns m)) (keysOf m) (tcpAppConnMap m) (tcpConnMap m) (usedEphemeralPorts m)"
    and q: "conns m ?q = None" and ne: "p \<noteq> ?q" and p: "p \<in> dom (conns m)"
    using m c by (auto simp: mid_def tablesOk_def)
  have k: "keysOf m p = Some (?k, connSockPair c, localPort c)" and kq: "keysOf m ?q = None"
    using c q by (simp_all add: keysOf_def)
  have this': "connAppKey this = ?k" "connSockPair this = connSockPair c" "localPort this = localPort c"
    "fsm this = TCP_S_LISTEN"
    using th m c by (auto simp: keyState_def mid_def)
  have fresh: "tcpAppConnMap m ?k' = None"
  proof (cases "tcpAppConnMap m ?k'")
    case (Some p')
    then obtain x where "keysOf m p' = Some (?k', x)" using agree_appD [OF a] by blast
    then obtain z where "conns m p' = Some z" "connId z = ?u"
      by (auto simp: keysOf_def connAppKey_def)
    with mid_connOk [OF m, of p' z] have "connId z < ?u" by (simp add: connOk_def)
    with \<open>connId z = ?u\<close> show ?thesis by simp
  qed
  from r ne q this' conn have lp: "localPort c = lp"
    and free2: "((tcpConnMap m)(connSockPair c := None, ?s \<mapsto> p)) ?sq = None"
    and m': "conns m' = (conns m)(p \<mapsto> (setSockPair la ra lp rp this)\<lparr>connId := ?u\<rparr>,
        ?q \<mapsto> conn\<lparr>outs := []\<rparr>)"
      "tcpAppConnMap m' = (tcpAppConnMap m)(?k := None, ?k' \<mapsto> p, ?k \<mapsto> ?q)"
      "tcpConnMap m' = (tcpConnMap m)(connSockPair c := None, ?s \<mapsto> p, ?sq \<mapsto> ?q)"
      "usedEphemeralPorts m' = (if isEphemeral lp then add_mset lp (usedEphemeralPorts m)
        else usedEphemeralPorts m)"
      "uniqueNumber m' = ?u + 1" "nextConn m' = ?q + 1" "lastEphemeralPort m' = lastEphemeralPort m"
    by (auto simp: addForkedConnection_def updateSockPair_def addSockPair_def onConn_def onConnR_def
        Let_def res_simps setSockPair_def connSockPair_def connAppKey_def fun_upd_twist
        split: option.splits if_splits)
  have keys: "keysOf m' = (keysOf m)(p \<mapsto> (?k', ?s, lp), ?q \<mapsto> (?k, ?sq, lp))"
    using ne this' conn lp
    by (auto simp: keysOf_def m' setSockPair_def connAppKey_def connSockPair_def)
  have s': "?s = connSockPair c \<or> tcpConnMap m ?s = None"
    using free agree_conD [OF a, of ?s p] k by auto
  have dom: "dom (conns m') = insert ?q (dom (conns m))"
    using p by (auto simp: m')
  have "agree (dom (conns m')) (keysOf m') (tcpAppConnMap m') (tcpConnMap m') (usedEphemeralPorts m')"
    unfolding keys dom m'(2-4)
    using agree_fork [OF a p, of ?k "connSockPair c" lp ?q ?k' ?s ?sq lp] k kq fresh s' free2 lp
    by (simp split: if_splits)
  moreover have "(\<forall>r \<in> dom (conns m'). r < nextConn m') \<and> isEphemeral (lastEphemeralPort m')"
    using m ne by (auto simp: mid_def tablesOk_def m' less_Suc_eq)
  moreover have "connOk (?u + 1) d \<and> (r \<noteq> p \<longrightarrow> fsm d \<noteq> TCP_S_INIT)" if "conns m' r = Some d" for r d
  proof -
    have c_ok: "connOk ?u c" and old: "conns m r = Some d \<Longrightarrow> connOk ?u d \<and> (r \<noteq> p \<longrightarrow> fsm d \<noteq> TCP_S_INIT)"
      using m c by (auto simp: mid_def)
    from that show ?thesis
      using c_ok old this' conn lp rp
      by (auto simp: m' connOk_def setSockPair_def connAppKey_def split: if_splits)
  qed
  ultimately show ?thesis
    using this' ne by (auto simp: mid_def tablesOk_def m' setSockPair_def)
qed

section \<open>The end of a message\<close>

text \<open>
  A method that ends with a state transition: the connection is kept exactly if it is not closed.
\<close>

lemma finish_inv:
  assumes m: "mid (dom (conns m)) p s m" and r: "onConnR p f m = Inr (m1, ret)"
    and rm: "removeIf p (m1, ret) = Inr m'"
    and f: "\<And>c c'. f c = Inr (c', ret) \<Longrightarrow> fsm c = s \<Longrightarrow> connAppKey c' = connAppKey c \<and>
      connSockPair c' = connSockPair c \<and> localPort c' = localPort c \<and>
      remotePort c' = remotePort c \<and> (ret \<longleftrightarrow> fsm c' \<noteq> TCP_S_CLOSED) \<and> fsm c' \<noteq> TCP_S_INIT"
  shows "TCP_inv m'"
proof -
  from r obtain c c' where c: "conns m p = Some c" "f c = Inr (c', ret)"
    and m1: "m1 = m\<lparr>conns := (conns m)(p \<mapsto> c'\<lparr>outs := []\<rparr>), sent := sent m @ outs c'\<rparr>"
    by (rule onConnRD)
  have "fsm c = s" using m c(1) by (auto simp: mid_def)
  note f = f [OF c(2) this]
  have a: "agree (dom (conns m)) (keysOf m) (tcpAppConnMap m) (tcpConnMap m) (usedEphemeralPorts m)"
    using m by (simp add: mid_def tablesOk_def)
  have k: "keysOf m p = Some (connAppKey c, connSockPair c, localPort c)"
    using c by (simp add: keysOf_def)
  have keys1: "keysOf m1 = keysOf m"
    using c f by (auto simp: keysOf_def m1)
  have dom: "dom (conns m1) = dom (conns m)" using c(1) by (auto simp: m1)
  note ok = mid_connOk [OF m]
  show ?thesis
  proof (cases ret)
    case True
    with rm have "m' = m1" by (simp add: removeIf_def)
    moreover have "tablesOk (dom (conns m1)) m1"
      using m dom keys1 by (auto simp: mid_def tablesOk_def m1)
    moreover have "connOk (uniqueNumber m1) d \<and> fsm d \<noteq> TCP_S_INIT" if "conns m1 q = Some d" for q d
      using that ok [of q d] ok [OF c(1)] f True
      by (auto simp: m1 connOk_def connAppKey_def split: if_splits)
    ultimately show ?thesis by (simp add: TCP_inv_def)
  next
    case False
    let ?c = "c'\<lparr>outs := []\<rparr>"
    have same: "connAppKey ?c = connAppKey c" "connSockPair ?c = connSockPair c"
      using f by simp_all
    from False rm have m': "m' = m1\<lparr>tcpAppConnMap := (tcpAppConnMap m1)(connAppKey c := None),
       tcpConnMap := (tcpConnMap m1)(connSockPair c := None),
       usedEphemeralPorts := usedEphemeralPorts m1 - {#toShort (localPort c)#},
       conns := (conns m1)(p := None)\<rparr>"
      using same f by (simp add: removeIf_def removeConnection_def m1)
    have "agree (dom (conns m) - {p}) ((keysOf m)(p := None)) ((tcpAppConnMap m)(connAppKey c := None))
      ((tcpConnMap m)(connSockPair c := None)) (usedEphemeralPorts m - {#toShort (localPort c)#})"
      using a c(1) k ok [OF c(1)] by (intro agree_remove) (auto simp: connOk_def)
    moreover have "keysOf m' = (keysOf m)(p := None)" "dom (conns m') = dom (conns m) - {p}"
      using c(1) by (auto simp: m' m1 keysOf_def)
    ultimately have "tablesOk (dom (conns m')) m'"
      using m by (auto simp: tablesOk_def m' m1 mid_def)
    moreover have "connOk (uniqueNumber m') d \<and> fsm d \<noteq> TCP_S_INIT" if "conns m' q = Some d" for q d
      using that ok [of q d] by (auto simp: m' m1 split: if_splits)
    ultimately show ?thesis by (simp add: TCP_inv_def)
  qed
qed

lemma transition_keys:
  assumes "performStateTransition e c = Inr (c', ret)"
    and "fsm c = TCP_S_INIT \<Longrightarrow> e \<in> {TCP_E_OPEN_ACTIVE, TCP_E_OPEN_PASSIVE}"
  shows "connAppKey c' = connAppKey c \<and> connSockPair c' = connSockPair c \<and>
    localPort c' = localPort c \<and> remotePort c' = remotePort c \<and> (ret \<longleftrightarrow> fsm c' \<noteq> TCP_S_CLOSED) \<and> fsm c' \<noteq> TCP_S_INIT"
proof -
  have id: "ident c' = ident (c\<lparr>fsm := if e = TCP_E_IGNORE then fsm c
     else fsm_goto (active c) (fsm c) e\<rparr>)"
    by (rule performStateTransition_ident [OF assms(1)])
  then have "fsm c' = (if e = TCP_E_IGNORE then fsm c else fsm_goto (active c) (fsm c) e)"
    by (simp add: ident_def)
  moreover have "fsm_goto (active c) (fsm c) e = TCP_S_INIT \<Longrightarrow> False" if "e \<noteq> TCP_E_IGNORE"
    using fsm_goto_INIT [of "active c" "fsm c" e] assms(2) by (auto simp: fsm_goto_def)
  moreover have "ret \<longleftrightarrow> fsm c' \<noteq> TCP_S_CLOSED"
    using assms(1)
    by (auto simp: performStateTransition_def Let_def res_simps split: if_splits)
  ultimately show ?thesis
    using id assms(2) by (auto simp: ident_def connAppKey_def connSockPair_def split: if_splits)
qed

section \<open>Segments\<close>

text \<open>Setting up the state block and the algorithm keeps the keys.\<close>

lemma keyState_setup [simp]:
  "keyState (initialStateVariables c) = keyState c"
  "keyState (initialAlgStateVariables c) = keyState c"
  "keyState (initialTahoeRenoStateVariables c) = keyState c"
  "keyState (configureStateVariables env c) = keyState c"
  by (simp_all add: keyState_def connAppKey_def connSockPair_def initialStateVariables_def
      initialAlgStateVariables_def initialTahoeRenoStateVariables_def configureStateVariables_def)

lemma keyState_alg_initialize [simp]: "keyState (alg_initialize c) = keyState c"
  by (cases "tcpAlgorithm c")
     (simp_all add: alg_initialize_def DumbTCP_initialize_def TCPBaseAlg_initialize_def
      TCPNoCongestionControl_initialize_def keyState_def connAppKey_def connSockPair_def)

lemma clone_keys:
  assumes "cloneListeningConnection env c = Inr (this, conn)"
  shows "keyState this = keyState c" "connAppKey conn = connAppKey c" "fsm conn = TCP_S_LISTEN"
    "localPort conn = localPort c" "remotePort conn = -1"
proof -
  from assms obtain sq rq where th: "this = configureStateVariables env c"
    and conn: "conn = (alg_initialize (initialTahoeRenoStateVariables (initialAlgStateVariables
       (initialStateVariables ((newConnection (appGateIndex c) (connId c))\<lparr>sendQueue := sq,
         receiveQueue := rq, tcpAlgorithm := tcpAlgorithm c\<rparr>)))))
       \<lparr>active := False, fork := True, localAddr := localAddr c, localPort := localPort c,
         fsm := TCP_S_LISTEN\<rparr>"
    by (auto simp: cloneListeningConnection_def Let_def res_simps)
  show "keyState this = keyState c" by (simp add: th)
  show "fsm conn = TCP_S_LISTEN" "localPort conn = localPort c" by (simp_all add: conn)
  have "keyState (alg_initialize (initialTahoeRenoStateVariables
     (initialAlgStateVariables (initialStateVariables ((newConnection (appGateIndex c) (connId c))
       \<lparr>sendQueue := sq, receiveQueue := rq, tcpAlgorithm := tcpAlgorithm c\<rparr>))))) =
     keyState (newConnection (appGateIndex c) (connId c))"
    by simp (simp add: keyState_def connAppKey_def connSockPair_def)
  then show "remotePort conn = -1" by (simp add: conn keyState_def newConnection_def)
  have "connAppKey conn = connAppKey (alg_initialize (initialTahoeRenoStateVariables
     (initialAlgStateVariables (initialStateVariables ((newConnection (appGateIndex c) (connId c))
       \<lparr>sendQueue := sq, receiveQueue := rq, tcpAlgorithm := tcpAlgorithm c\<rparr>)))))"
    by (simp add: conn connAppKey_def)
  also have "\<dots> = connAppKey ((newConnection (appGateIndex c) (connId c))
       \<lparr>sendQueue := sq, receiveQueue := rq, tcpAlgorithm := tcpAlgorithm c\<rparr>)"
    using keyState_alg_initialize keyState_setup by (metis keyState_def prod.inject)
  finally show "connAppKey conn = connAppKey c" by (simp add: connAppKey_def newConnection_def)
qed

lemma getPort_short: "toShort (getSrcPort seg) = getSrcPort seg"
    "toShort (getDestPort seg) = getDestPort seg"
  by (simp_all add: getSrcPort_def getDestPort_def)

lemma mid_same:
  assumes "mid (dom (conns m)) p s m"
    and "mid (dom (conns m)) p s m' \<and> dom (conns m') = dom (conns m)"
  shows "mid (dom (conns m')) p s m'"
  using assms by simp

lemma mid_processSegmentInListen:
  assumes m: "mid (dom (conns m)) p TCP_S_LISTEN m"
    and free: "tcpConnMap m (sockPair dst src (getDestPort seg) (getSrcPort seg)) \<in> {None, Some p}"
    and r: "processSegmentInListen env seg src dst p m = Inr (m', e)"
  shows "mid (dom (conns m')) p TCP_S_LISTEN m'"
proof -
  from m obtain c where c: "conns m p = Some c" by (auto simp: mid_def)
  consider "m' = m"
    | "onConn p (sendRst_from (ackNo seg) dst src (getDestPort seg) (getSrcPort seg)) m = Inr m'"
    | m1 this conn where "cloneListeningConnection env c = Inr (this, conn)"
        "addForkedConnection p (nextConn m) dst src (getDestPort seg) (getSrcPort seg)
          (m\<lparr>conns := (conns m)(p \<mapsto> this, nextConn m \<mapsto> conn), nextConn := nextConn m + 1\<rparr>) = Inr m1"
        "onConn p (acceptSyn env seg) m1 = Inr m'"
    | m1 where "updateSockPair p dst src (getDestPort seg) (getSrcPort seg) m = Inr m1"
        "onConn p (acceptSyn env seg) m1 = Inr m'"
    using r c by (auto simp: processSegmentInListen_def Let_def res_simps split: if_splits)
  then show ?thesis
  proof cases
    case 1 with m show ?thesis by simp
  next
    case 2
    from mid_onConn [OF m 2] show ?thesis
      by (metis mid_same m keyState_ident ident_dests')
  next
    case (3 m1)
    have m1: "mid (dom (conns m1)) p TCP_S_LISTEN m1"
      using mid_fork [OF m c clone_keys [OF 3(1)] getPort_short(1) 3(2) free] .
    from mid_onConn [OF m1 3(3)] m1 show ?thesis
      by (metis mid_same keyState_ident ident_acceptSyn)
  next
    case (4 m1)
    have "p \<in> dom (conns m)" using c by auto
    from mid_updateSockPair [OF m this 4(1) free getPort_short(1)] have m1: "mid (dom (conns m1)) p TCP_S_LISTEN m1"
      by simp
    from mid_onConn [OF m1 4(2)] m1 show ?thesis
      by (metis mid_same keyState_ident ident_acceptSyn)
  qed
qed

lemma mid_processSegmentInSynSent:
  assumes m: "mid (dom (conns m)) p s m"
    and free: "tcpConnMap m (sockPair dst src (getDestPort seg) (getSrcPort seg)) \<in> {None, Some p}"
    and r: "processSegmentInSynSent env seg src dst p m = Inr (m', e)"
  shows "mid (dom (conns m')) p s m'"
proof -
  from m obtain c where c: "conns m p = Some c" by (auto simp: mid_def)
  then have p: "p \<in> dom (conns m)" by auto
  consider "m' = m"
    | f where "onConn p f m = Inr m'" "\<And>c c'. f c = Inr c' \<Longrightarrow> ident c' = ident c"
    | m1 m2 f where "onConn p (synSentLearn seg) m = Inr m1"
        "updateSockPair p dst src (getDestPort seg) (getSrcPort seg) m1 = Inr m2"
        "onConnR p f m2 = Inr (m', e)" "\<And>c c'. f c = Inr (c', e) \<Longrightarrow> ident c' = ident c"
  proof -
    assume 1: "m' = m \<Longrightarrow> thesis"
      and 2: "\<And>f. onConn p f m = Inr m' \<Longrightarrow> (\<And>c c'. f c = Inr c' \<Longrightarrow> ident c' = ident c) \<Longrightarrow> thesis"
      and 3: "\<And>m1 m2 f. onConn p (synSentLearn seg) m = Inr m1 \<Longrightarrow>
        updateSockPair p dst src (getDestPort seg) (getSrcPort seg) m1 = Inr m2 \<Longrightarrow>
        onConnR p f m2 = Inr (m', e) \<Longrightarrow> (\<And>c c'. f c = Inr (c', e) \<Longrightarrow> ident c' = ident c) \<Longrightarrow> thesis"
    show thesis
      using r c
      by (auto simp: processSegmentInSynSent_def andThen_Inr_iff split: if_splits
          intro: 1 dest!: 2 3)
         (auto simp: res_simps split: if_splits dest!: ident_dests ident_dests')
  qed
  then show ?thesis
  proof cases
    case 1 with m show ?thesis by simp
  next
    case 2
    from mid_onConn [OF m 2(1)] m show ?thesis using 2(2) keyState_ident by (metis mid_same)
  next
    case (3 m1 m2)
    from mid_onConn [OF m 3(1)] have m1: "mid (dom (conns m1)) p s m1"
      "tcpConnMap m1 = tcpConnMap m" "dom (conns m1) = dom (conns m)"
      using keyState_ident ident_synSentLearn by (metis, metis, metis)
    from mid_updateSockPair [OF m1(1) _ 3(2)] p m1 free getPort_short(1)
    have m2: "mid (dom (conns m2)) p s m2" by simp
    from mid_onConnR [OF m2 3(3)] m2 show ?thesis using 3(4) keyState_ident by (metis mid_same)
  qed
qed

lemma mid_process_RCV_SEGMENT:
  assumes m: "mid (dom (conns m)) p s m"
    and free: "tcpConnMap m (sockPair dst src (getDestPort seg) (getSrcPort seg)) \<in> {None, Some p}"
    and r: "process_RCV_SEGMENT env seg src dst p m = Inr (m', e)"
  shows "mid (dom (conns m')) p s m'"
proof -
  from m obtain c where c: "conns m p = Some c" "fsm c = s" by (auto simp: mid_def)
  consider "s = TCP_S_LISTEN" "processSegmentInListen env seg src dst p m = Inr (m', e)"
    | "processSegmentInSynSent env seg src dst p m = Inr (m', e)"
    | "onConnR p (processSegment1stThru8th env seg) m = Inr (m', e)"
    using r c by (auto simp: process_RCV_SEGMENT_def split: if_splits)
  then show ?thesis
  proof cases
    case 1 with mid_processSegmentInListen m free show ?thesis by blast
  next
    case 2 with mid_processSegmentInSynSent m free show ?thesis by blast
  next
    case 3
    from mid_onConnR [OF m 3] m show ?thesis
      by (metis mid_same keyState_ident ident_processSegment1stThru8th)
  qed
qed

lemma inv_processTCPSegment:
  assumes m: "TCP_inv m" and find: "findConnForSegment seg src dst m = Some p"
    and r: "processTCPSegment env seg src dst p m = Inr (m1, ret)"
    and rm: "removeIf p (m1, ret) = Inr m'"
  shows "TCP_inv m'"
proof -
  obtain c where c: "conns m p = Some c"
    using find_live [OF _ find, of "dom (conns m)"] m by (auto simp: TCP_inv_def)
  with r obtain m2 e where 2: "process_RCV_SEGMENT env seg src dst p m = Inr (m2, e)"
    and 3: "onConnR p (performStateTransition e) m2 = Inr (m1, ret)"
    by (auto simp: processTCPSegment_def res_simps)
  have "fsm c \<noteq> TCP_S_INIT" using m c by (auto simp: TCP_inv_def)
  with mid_process_RCV_SEGMENT [OF TCP_inv_mid [OF m c] find_free [OF find] 2]
  have "mid (dom (conns m2)) p (fsm c) m2" "fsm c \<noteq> TCP_S_INIT" by simp_all
  from finish_inv [OF this(1) 3 rm] this(2) transition_keys show ?thesis by metis
qed

section \<open>Commands\<close>

lemma keyState_initConnection:
  "initConnection env oc c = Inr c' \<Longrightarrow> keyState c' = keyState c"
  by (auto simp: initConnection_def Let_def res_simps)
     (simp add: keyState_def connAppKey_def connSockPair_def)

lemma getEphemeralPort_cases:
  assumes "isEphemeral (lastEphemeralPort m)"
  shows "(\<exists>p. getEphemeralPort m = Inr (m\<lparr>lastEphemeralPort := p\<rparr>, p) \<and> isEphemeral p \<and>
       p \<notin># usedEphemeralPorts m) \<or>
    getEphemeralPort m = Inl (OppError ''Ephemeral port range exhausted, all ports occupied'') \<and>
    (\<forall>p. isEphemeral p \<longrightarrow> p \<in># usedEphemeralPorts m)"
  using searchEphemeral_all [OF assms, of "\<lambda>p. p \<in># usedEphemeralPorts m"] by (auto simp: getEphemeralPort_def)

lemma getEphemeralPort_short:
  assumes "getEphemeralPort m = Inr (m', lp)" "isEphemeral (lastEphemeralPort m)"
  shows "toShort lp = lp" "m' = m\<lparr>lastEphemeralPort := lp\<rparr>" "isEphemeral lp"
  using getEphemeralPort_cases [OF assms(2)] assms(1) isEphemeral_short by auto

lemma mid_lastEphemeralPort:
  assumes "isEphemeral x"
  shows "mid R p s m \<Longrightarrow> mid R p s (m\<lparr>lastEphemeralPort := x\<rparr>)"
proof -
  have "keysOf (m\<lparr>lastEphemeralPort := x\<rparr>) = keysOf m" by (auto simp: keysOf_def)
  then show "mid R p s m \<Longrightarrow> ?thesis" using assms by (simp add: mid_def tablesOk_def)
qed

lemma keyState_active [simp]: "keyState (c\<lparr>active := x\<rparr>) = keyState c"
  "keyState (c\<lparr>fork := x\<rparr>) = keyState c"
  by (simp_all add: keyState_def connAppKey_def connSockPair_def)

lemma mid_openInit:
  assumes m: "mid R p s m" and g: "\<And>c. keyState (g c) = keyState c"
    and r: "onConn p (\<lambda>c. if fsm c \<noteq> TCP_S_INIT then Inl err
       else andThen (initConnection env oc c) (\<lambda>c. Inr (g c))) m = Inr m'"
  shows "mid R p s m' \<and> dom (conns m') = dom (conns m) \<and> s = TCP_S_INIT"
proof -
  let ?f = "\<lambda>c. if fsm c \<noteq> TCP_S_INIT then Inl err
       else andThen (initConnection env oc c) (\<lambda>c. Inr (g c))"
  have "?f c = Inr c' \<Longrightarrow> keyState c' = keyState c" for c c'
    by (auto simp: res_simps g split: if_splits dest!: keyState_initConnection)
  moreover obtain c c' where "conns m p = Some c" "?f c = Inr c'"
    using r by (rule onConnD)
  then have "s = TCP_S_INIT" using m by (auto simp: mid_def split: if_splits)
  ultimately show ?thesis using mid_onConn [OF m r] by auto
qed

lemma mid_process_OPEN_ACTIVE:
  assumes m: "mid R p s m" and p: "p \<notin> R \<or> s \<noteq> TCP_S_INIT"
    and r: "process_OPEN_ACTIVE env p oc m = Inr m'"
  shows "mid (insert p R) p s m' \<and> dom (conns m') = dom (conns m) \<and> s = TCP_S_INIT"
proof -
  let ?f = "\<lambda>c. if fsm c \<noteq> TCP_S_INIT
       then Inl (OppError ''Error processing command OPEN_ACTIVE: connection already exists'')
       else andThen (initConnection env oc c) (\<lambda>c. Inr (c\<lparr>active := True\<rparr>))"
  from r obtain m1 m2 m3 lp where
    1: "onConn p ?f m = Inr m1"
    and 2: "(if toShort (oc_localPort oc) = -1 then getEphemeralPort m1
             else Inr (m1, toShort (oc_localPort oc))) = Inr (m2, lp)"
    and 3: "addSockPair p (oc_localAddr oc) (oc_remoteAddr oc) lp (toShort (oc_remotePort oc)) m2 = Inr m3"
    and 4: "onConn p (startActiveOpen env) m3 = Inr m'"
    by (auto simp: process_OPEN_ACTIVE_def andThen_Inr_iff Let_def split: if_splits)
  from mid_openInit [OF m _ 1] have m1: "mid R p s m1" "dom (conns m1) = dom (conns m)"
    and s: "s = TCP_S_INIT" by auto
  have m2: "mid R p s m2 \<and> dom (conns m2) = dom (conns m) \<and> toShort lp = lp"
  proof (cases "toShort (oc_localPort oc) = -1")
    case True
    with 2 have "getEphemeralPort m1 = Inr (m2, lp)" by simp
    note lp = getEphemeralPort_short [OF this mid_range [OF m1(1)]]
    from mid_lastEphemeralPort [OF lp(3) m1(1)] lp(1) m1(2) show ?thesis unfolding lp(2) by simp
  next
    case False
    with 2 have "m2 = m1" "lp = toShort (oc_localPort oc)" by simp_all
    with m1 show ?thesis by simp
  qed
  from mid_addSockPair [OF _ _ 3, of R s] p s m2
  have m3: "mid (insert p R) p s m3" "dom (conns m3) = dom (conns m)" by auto
  from mid_onConn [OF m3(1) 4] m3(2) s show ?thesis
    by (metis keyState_ident ident_startActiveOpen)
qed

lemma mid_process_OPEN_PASSIVE:
  assumes m: "mid R p s m" and p: "p \<notin> R \<or> s \<noteq> TCP_S_INIT"
    and r: "process_OPEN_PASSIVE env p oc m = Inr m'"
  shows "mid (insert p R) p s m' \<and> dom (conns m') = dom (conns m) \<and> s = TCP_S_INIT"
proof -
  let ?f = "\<lambda>c. if fsm c \<noteq> TCP_S_INIT
       then Inl (OppError ''Error processing command OPEN_PASSIVE: connection already exists'')
       else andThen (initConnection env oc c) (\<lambda>c. Inr (c\<lparr>active := False, fork := oc_fork oc\<rparr>))"
  from r obtain m1 where
    1: "onConn p ?f m = Inr m1"
    and 3: "addSockPair p (oc_localAddr oc) unspecifiedAddress (toShort (oc_localPort oc)) (-1) m1 = Inr m'"
    by (auto simp: process_OPEN_PASSIVE_def andThen_Inr_iff Let_def split: if_splits)
  from mid_openInit [OF m _ 1] have m1: "mid R p s m1" "dom (conns m1) = dom (conns m)"
    and s: "s = TCP_S_INIT" by auto
  from mid_addSockPair [OF m1(1) _ 3] p s m1(2) show ?thesis by (auto simp: toShort_idem)
qed

lemma mid_otherCommand:
  assumes m: "mid R p s m" and r: "onConnR p f m = Inr (m', e)"
    and f: "\<And>c c'. f c = Inr (c', e) \<Longrightarrow> ident c' = ident c \<and> fsm c \<noteq> TCP_S_INIT"
  shows "mid R p s m' \<and> dom (conns m') = dom (conns m) \<and> s \<noteq> TCP_S_INIT"
proof -
  obtain c c' where "conns m p = Some c" "f c = Inr (c', e)" using r by (rule onConnRD)
  with f have "s \<noteq> TCP_S_INIT" using m by (fastforce simp: mid_def)
  with mid_onConnR [OF m r] f keyState_ident show ?thesis by metis
qed

lemma process_not_INIT:
  "process_SEND env e pk c = Inr x \<Longrightarrow> fsm c \<noteq> TCP_S_INIT"
  "process_CLOSE e c = Inr x \<Longrightarrow> fsm c \<noteq> TCP_S_INIT"
  "process_ABORT e c = Inr x \<Longrightarrow> fsm c \<noteq> TCP_S_INIT"
  "process_STATUS e k c = Inr x \<Longrightarrow> fsm c \<noteq> TCP_S_INIT"
  by (auto simp: process_SEND_def process_CLOSE_def process_ABORT_def process_STATUS_def)

text \<open>
  A command on connection \<open>p\<close>: only an unregistered connection is in state INIT, and only OPEN
  gets through on it.
\<close>

lemma inv_processAppCommand:
  assumes m: "mid R p s m" and R: "insert p R = dom (conns m)" "p \<in> R \<longleftrightarrow> s \<noteq> TCP_S_INIT"
    and r: "processAppCommand env cmd p m = Inr (m1, ret)"
    and rm: "removeIf p (m1, ret) = Inr m'"
  shows "TCP_inv m'"
proof -
  have p: "p \<notin> R \<or> s \<noteq> TCP_S_INIT" using R(2) by blast
  let ?goal = "\<lambda>e m2. mid (dom (conns m2)) p s m2 \<and>
     (s = TCP_S_INIT \<longrightarrow> e \<in> {TCP_E_OPEN_ACTIVE, TCP_E_OPEN_PASSIVE}) \<and>
     onConnR p (performStateTransition e) m2 = Inr (m1, ret)"
  have other: "?goal e m2" if "onConnR p f m = Inr (m2, e)"
    "onConnR p (performStateTransition e) m2 = Inr (m1, ret)"
    "\<And>c c'. f c = Inr (c', e) \<Longrightarrow> ident c' = ident c \<and> fsm c \<noteq> TCP_S_INIT" for f e m2
    using mid_otherCommand [OF m that(1,3)] R that(2) by (auto simp: insert_absorb)
  have "\<exists>e m2. ?goal e m2"
  proof (cases cmd)
    case (TCP_C_OPEN_ACTIVE oc)
    with r obtain m2 where 2: "process_OPEN_ACTIVE env p oc m = Inr m2"
      "onConnR p (performStateTransition TCP_E_OPEN_ACTIVE) m2 = Inr (m1, ret)"
      by (auto simp: processAppCommand_def res_simps)
    from mid_process_OPEN_ACTIVE [OF m p 2(1)] R(1) 2(2)
    have "?goal TCP_E_OPEN_ACTIVE m2" by auto
    then show ?thesis by blast
  next
    case (TCP_C_OPEN_PASSIVE oc)
    with r obtain m2 where 2: "process_OPEN_PASSIVE env p oc m = Inr m2"
      "onConnR p (performStateTransition TCP_E_OPEN_PASSIVE) m2 = Inr (m1, ret)"
      by (auto simp: processAppCommand_def res_simps)
    from mid_process_OPEN_PASSIVE [OF m p 2(1)] R(1) 2(2)
    have "?goal TCP_E_OPEN_PASSIVE m2" by auto
    then show ?thesis by blast
  next
    case (TCP_C_SEND cid pk)
    with r obtain m2 e where 2: "onConnR p (process_SEND env TCP_E_SEND pk) m = Inr (m2, e)"
      "onConnR p (performStateTransition e) m2 = Inr (m1, ret)"
      by (auto simp: processAppCommand_def res_simps)
    from other [OF 2] show ?thesis using ident_process_SEND process_not_INIT(1) by metis
  next
    case (TCP_C_CLOSE cid)
    with r obtain m2 e where 2: "onConnR p (process_CLOSE TCP_E_CLOSE) m = Inr (m2, e)"
      "onConnR p (performStateTransition e) m2 = Inr (m1, ret)"
      by (auto simp: processAppCommand_def res_simps)
    from other [OF 2] show ?thesis using ident_process_CLOSE process_not_INIT(2) by metis
  next
    case (TCP_C_ABORT cid)
    with r obtain m2 e where 2: "onConnR p (process_ABORT TCP_E_ABORT) m = Inr (m2, e)"
      "onConnR p (performStateTransition e) m2 = Inr (m1, ret)"
      by (auto simp: processAppCommand_def res_simps)
    from other [OF 2] show ?thesis using ident_process_ABORT process_not_INIT(3) by metis
  next
    case (TCP_C_STATUS cid)
    with r obtain m2 e where 2: "onConnR p (process_STATUS TCP_E_STATUS (commandKind cmd)) m = Inr (m2, e)"
      "onConnR p (performStateTransition e) m2 = Inr (m1, ret)"
      by (auto simp: processAppCommand_def res_simps)
    from other [OF 2] show ?thesis using ident_process_STATUS process_not_INIT(4) by metis
  next
    case (UnknownCommand kind cid)
    with r show ?thesis by (simp add: processAppCommand_def)
  qed
  then obtain e m2 where e: "?goal e m2" by blast
  show ?thesis
    by (rule finish_inv [of m2 p s _ m1 ret]) (use e rm transition_keys in \<open>auto | metis\<close>)+
qed

section \<open>Messages\<close>

lemma conn_processTimer_keys:
  assumes r: "conn_processTimer env t (timerFired t c) = Inr (c', ret)" and "fsm c \<noteq> TCP_S_INIT"
  shows "connAppKey c' = connAppKey c \<and> connSockPair c' = connSockPair c \<and>
    localPort c' = localPort c \<and> remotePort c' = remotePort c \<and> (ret \<longleftrightarrow> fsm c' \<noteq> TCP_S_CLOSED) \<and> fsm c' \<noteq> TCP_S_INIT"
proof -
  let ?c = "timerFired t c"
  from r obtain d e where t: "(case t of
         The2MSLTimer \<Rightarrow> andThen (process_TIMEOUT_2MSL ?c) (\<lambda>c. Inr (c, TCP_E_TIMEOUT_2MSL))
       | ConnEstabTimer \<Rightarrow>
           andThen (process_TIMEOUT_CONN_ESTAB ?c) (\<lambda>c. Inr (c, TCP_E_TIMEOUT_CONN_ESTAB))
       | FinWait2Timer \<Rightarrow>
           andThen (process_TIMEOUT_FIN_WAIT_2 ?c) (\<lambda>c. Inr (c, TCP_E_TIMEOUT_FIN_WAIT_2))
       | SynRexmitTimer \<Rightarrow> process_TIMEOUT_SYN_REXMIT env TCP_E_IGNORE ?c
       | _ \<Rightarrow> alg_processTimer env t TCP_E_IGNORE ?c) = Inr (d, e)"
    and e: "performStateTransition e d = Inr (c', ret)"
    unfolding conn_processTimer_def andThen_Inr_iff by (metis (no_types, lifting) case_prod_conv surj_pair)
  have d: "ident d = ident ?c"
  proof (cases "t \<in> {The2MSLTimer, ConnEstabTimer, FinWait2Timer}")
    case True
    with t show ?thesis
      by (auto simp: res_simps process_TIMEOUT_2MSL_def process_TIMEOUT_CONN_ESTAB_def
          process_TIMEOUT_FIN_WAIT_2_def split: if_splits)
  next
    case False
    with t have "process_TIMEOUT_SYN_REXMIT env TCP_E_IGNORE ?c = Inr (d, e) \<or>
        alg_processTimer env t TCP_E_IGNORE ?c = Inr (d, e)"
      by (cases t) simp_all
    then show ?thesis
      using ident_process_TIMEOUT_SYN_REXMIT rest_alg_processTimer ident_of_rest by blast
  qed
  then have "ident d = ident c" by simp
  then have "keyState d = keyState c" by (rule keyState_ident)
  then have k: "connAppKey d = connAppKey c" "connSockPair d = connSockPair c"
    "localPort d = localPort c" "fsm d = fsm c" "remotePort d = remotePort c"
    by (simp_all add: keyState_def)
  have "fsm d \<noteq> TCP_S_INIT" using k(4) assms(2) by simp
  then show ?thesis using transition_keys [OF e] k by simp
qed

lemma new_connection_mid:
  assumes m: "TCP_inv m" and cid: "cid < uniqueNumber m" and find: "findConnForApp gate cid m = None"
    and cr: "createConnection gate cid m = (m1, p)"
  shows "mid (dom (conns m)) p TCP_S_INIT (m1\<lparr>tcpAppConnMap := (tcpAppConnMap m1)
    (\<lparr>ak_appGateIndex = gate, ak_connId = cid\<rparr> \<mapsto> p)\<rparr>)"
    and "dom (conns m1) = insert p (dom (conns m))" and "p \<notin> dom (conns m)"
proof -
  let ?c = "newConnection gate cid" and ?k = "\<lparr>ak_appGateIndex = gate, ak_connId = cid\<rparr>"
  let ?m = "m1\<lparr>tcpAppConnMap := (tcpAppConnMap m1)(?k \<mapsto> p)\<rparr>"
  have p: "p = nextConn m" and m1: "m1 = m\<lparr>conns := (conns m)(p \<mapsto> ?c), nextConn := nextConn m + 1\<rparr>"
    using cr by (auto simp: createConnection_def)
  have c: "connAppKey ?c = ?k" "localPort ?c = -1" "remotePort ?c = -1" "fsm ?c = TCP_S_INIT" "connId ?c = cid"
    by (simp_all add: newConnection_def connAppKey_def)
  show fresh: "p \<notin> dom (conns m)"
    using m p by (auto simp: TCP_inv_def tablesOk_def)
  show dom: "dom (conns m1) = insert p (dom (conns m))" by (simp add: m1)
  have "keysOf m p = None" using fresh by (auto simp: keysOf_def)
  moreover have "keysOf ?m = (keysOf m)(p \<mapsto> (?k, connSockPair ?c, localPort ?c))"
    by (auto simp: keysOf_def m1 c)
  ultimately have "agree (dom (conns m)) (keysOf ?m) (tcpAppConnMap ?m) (tcpConnMap ?m) (usedEphemeralPorts ?m)"
    using agree_create [of "dom (conns m)" "keysOf m" "tcpAppConnMap m" "tcpConnMap m"
        "usedEphemeralPorts m" p ?k "connSockPair ?c" "localPort ?c"] m find
    by (simp add: m1 TCP_inv_def tablesOk_def findConnForApp_def)
  then show "mid (dom (conns m)) p TCP_S_INIT ?m"
    using m cid c dom p
    by (auto simp: mid_def tablesOk_def TCP_inv_def m1 connOk_def less_Suc_eq)
qed

text \<open>
  The invariant is kept by every message whose handling succeeds; an application that opens a
  connection has drawn its id from the counter of unique numbers.
\<close>

lemma handleMessage_inv:
  assumes m: "TCP_inv m" and r: "handleMessage env msg m = Inr m'"
    and app: "\<And>gate cmd. msg = FromApp gate cmd \<Longrightarrow> commandConnId cmd < uniqueNumber m"
  shows "TCP_inv m'"
proof (cases msg)
  case (SelfMessage p t)
  with r obtain m1 ret where 1: "onConnR p (\<lambda>c. conn_processTimer env t (timerFired t c)) m = Inr (m1, ret)"
    and rm: "removeIf p (m1, ret) = Inr m'"
    by (auto simp: handleMessage_def res_simps)
  from 1 obtain c c' where c: "conns m p = Some c" by (rule onConnRD)
  with m have "fsm c \<noteq> TCP_S_INIT" by (auto simp: TCP_inv_def)
  with finish_inv [OF TCP_inv_mid [OF m c] 1 rm] conn_processTimer_keys show ?thesis by metis
next
  case (FromIP seg src dst)
  show ?thesis
  proof (cases "findConnForSegment seg src dst m")
    case None
    with r FromIP have "\<exists>x. m' = m\<lparr>sent := x\<rparr>"
      by (auto simp: handleMessage_def TCP_segmentArrivalWhileClosed_def res_simps)
    moreover have "keysOf (m\<lparr>sent := x\<rparr>) = keysOf m" for x by (auto simp: keysOf_def)
    ultimately show ?thesis using m by (auto simp: TCP_inv_def tablesOk_def)
  next
    case (Some p)
    with r FromIP obtain m1 ret where "processTCPSegment env seg src dst p m = Inr (m1, ret)"
      "removeIf p (m1, ret) = Inr m'"
      by (auto simp: handleMessage_def res_simps)
    from inv_processTCPSegment [OF m Some this] show ?thesis .
  qed
next
  case (FromIPWithoutControlInfo seg)
  with r show ?thesis by (simp add: handleMessage_def)
next
  case ICMPError
  with r m show ?thesis by (simp add: handleMessage_def)
next
  case (FromApp gate cmd)
  show ?thesis
  proof (cases "findConnForApp gate (commandConnId cmd) m")
    case (Some p)
    have a: "agree (dom (conns m)) (keysOf m) (tcpAppConnMap m) (tcpConnMap m) (usedEphemeralPorts m)"
      using m by (simp add: TCP_inv_def tablesOk_def)
    from Some agree_appD [OF a] obtain c where c: "conns m p = Some c"
      by (fastforce simp: findConnForApp_def keysOf_def)
    from Some r FromApp obtain m1 ret where 1: "processAppCommand env cmd p m = Inr (m1, ret)"
      "removeIf p (m1, ret) = Inr m'"
      by (auto simp: handleMessage_def res_simps)
    have "fsm c \<noteq> TCP_S_INIT" using m c by (auto simp: TCP_inv_def)
    with inv_processAppCommand [OF TCP_inv_mid [OF m c] _ _ 1] c show ?thesis by auto
  next
    case None
    obtain m0 p where cr: "createConnection gate (commandConnId cmd) m = (m0, p)"
      by (cases "createConnection gate (commandConnId cmd) m")
    let ?m = "m0\<lparr>tcpAppConnMap := (tcpAppConnMap m0)
        (\<lparr>ak_appGateIndex = gate, ak_connId = commandConnId cmd\<rparr> \<mapsto> p)\<rparr>"
    from None r FromApp cr obtain m1 ret where 1: "processAppCommand env cmd p ?m = Inr (m1, ret)"
      "removeIf p (m1, ret) = Inr m'"
      by (auto simp: handleMessage_def Let_def res_simps)
    note new = new_connection_mid [OF m app [OF FromApp] None cr]
    show ?thesis
      by (rule inv_processAppCommand [OF new(1) _ _ 1]) (use new(2,3) in auto)
  qed
qed

end
