(* ===== verification/TCP_ModuleProps.thy ===== *)
theory TCP_ModuleProps imports TCP_ModuleInv
begin

text \<open>
  The runs of the TCP module and what holds in all of them: the tables lead to live connections,
  no two connections share a socket pair, segments reach the connection they are for, ephemeral
  ports are free when they are given out.
\<close>

section \<open>Runs\<close>

text \<open>
  A step handles one message, and the handling succeeds; between messages the rest of the
  simulation may draw unique numbers. An application draws the id of a connection it opens.
\<close>

inductive tcp_step :: "TCP \<Rightarrow> TCP \<Rightarrow> bool" where
  message: "handleMessage env msg m = Inr m' \<Longrightarrow>
    (\<And>gate cmd. msg = FromApp gate cmd \<Longrightarrow> commandConnId cmd < uniqueNumber m) \<Longrightarrow> tcp_step m m'"
| draw: "uniqueNumber m \<le> u \<Longrightarrow> tcp_step m (m\<lparr>uniqueNumber := u\<rparr>)"

inductive tcp_reachable :: "TCP \<Rightarrow> bool" where
  init: "tcp_reachable (TCP_initialize u)"
| step: "tcp_reachable m \<Longrightarrow> tcp_step m m' \<Longrightarrow> tcp_reachable m'"

inductive_cases tcp_stepE: "tcp_step m m'"

lemma TCP_inv_initialize: "TCP_inv (TCP_initialize u)"
  by (simp add: TCP_inv_def tablesOk_def agree_def TCP_initialize_def keysOf_def portsOf_def
      isEphemeral_def dom_def)

lemma TCP_inv_draw: "TCP_inv m \<Longrightarrow> uniqueNumber m \<le> u \<Longrightarrow> TCP_inv (m\<lparr>uniqueNumber := u\<rparr>)"
proof -
  have "keysOf (m\<lparr>uniqueNumber := u\<rparr>) = keysOf m" by (auto simp: keysOf_def)
  then show "TCP_inv m \<Longrightarrow> uniqueNumber m \<le> u \<Longrightarrow> ?thesis"
    by (fastforce simp: TCP_inv_def tablesOk_def connOk_def)
qed

lemma TCP_inv_step: "tcp_step m m' \<Longrightarrow> TCP_inv m \<Longrightarrow> TCP_inv m'"
  by (erule tcp_stepE) (auto intro: handleMessage_inv TCP_inv_draw)

lemma TCP_inv_reachable: "tcp_reachable m \<Longrightarrow> TCP_inv m"
  by (induction rule: tcp_reachable.induct) (auto intro: TCP_inv_initialize TCP_inv_step)

lemma TCP_inv_agree: "TCP_inv m \<Longrightarrow>
    agree (dom (conns m)) (keysOf m) (tcpAppConnMap m) (tcpConnMap m) (usedEphemeralPorts m)"
  by (simp add: TCP_inv_def tablesOk_def)

lemma keysOf_conn: "conns m p = Some c \<Longrightarrow>
    keysOf m p = Some (connAppKey c, connSockPair c, localPort c)"
  by (simp add: keysOf_def)

text \<open>A concrete run, for the witnesses: one application listens on port 80 of 1.0.0.1.\<close>

definition exampleListen :: TCPOpenCommand where
  "exampleListen = \<lparr>oc_connId = 5, oc_localAddr = IPv4 1, oc_remoteAddr = unspecifiedAddress,
     oc_localPort = 80, oc_remotePort = -1, oc_fork = True, oc_sendQueueClass = [],
     oc_receiveQueueClass = [], oc_tcpAlgorithmClass = []\<rparr>"

definition exampleConnect :: TCPOpenCommand where
  "exampleConnect = \<lparr>oc_connId = 6, oc_localAddr = IPv4 2, oc_remoteAddr = IPv4 1,
     oc_localPort = -1, oc_remotePort = 80, oc_fork = False, oc_sendQueueClass = [],
     oc_receiveQueueClass = [], oc_tcpAlgorithmClass = []\<rparr>"

definition exampleListening :: TCP where
  "exampleListening = projr (handleMessage exampleEnv (FromApp 0 (TCP_C_OPEN_PASSIVE exampleListen))
     (TCP_initialize 10))"

lemma exampleListening_reachable: "tcp_reachable exampleListening"
proof -
  let ?r = "handleMessage exampleEnv (FromApp 0 (TCP_C_OPEN_PASSIVE exampleListen)) (TCP_initialize 10)"
  have "\<not> isl ?r" by code_simp
  then have "?r = Inr exampleListening" by (cases ?r) (simp_all add: exampleListening_def)
  then have "tcp_step (TCP_initialize 10) exampleListening"
    by (rule tcp_step.message) (auto simp: exampleListen_def TCP_initialize_def)
  with tcp_reachable.init show ?thesis by (rule tcp_reachable.step)
qed

definition exampleSyn :: TCPSegment where
  "exampleSyn = createTCPSegment\<lparr>srcPort := 7, destPort := 80, sequenceNo := 100, synBit := True\<rparr>"

definition exampleAccepted :: TCP where
  "exampleAccepted = projr (handleMessage exampleEnv (FromIP exampleSyn (IPv4 2) (IPv4 1)) exampleListening)"

lemma exampleAccepted_reachable: "tcp_reachable exampleAccepted"
proof -
  let ?r = "handleMessage exampleEnv (FromIP exampleSyn (IPv4 2) (IPv4 1)) exampleListening"
  have "\<not> isl ?r" by code_simp
  then have "?r = Inr exampleAccepted" by (cases ?r) (simp_all add: exampleAccepted_def)
  then have "tcp_step exampleListening exampleAccepted" by (rule tcp_step.message) simp
  with exampleListening_reachable show ?thesis by (rule tcp_reachable.step)
qed

section \<open>Tables\<close>

text \<open>C2: In every reachable state of the TCP module the two connection tables describe exactly the
  live connections: an application key leads to the one connection that has it, a socket pair leads
  to the one connection that has it (so no two connections share a pair), and no connection that
  the module keeps is in state INIT or CLOSED.\<close>

theorem tcp_tables_exact:
  assumes "tcp_reachable m"
  shows "(tcpAppConnMap m k = Some p \<longleftrightarrow> (\<exists>c. conns m p = Some c \<and> connAppKey c = k)) \<and>
    (tcpConnMap m s = Some p \<longleftrightarrow> (\<exists>c. conns m p = Some c \<and> connSockPair c = s)) \<and>
    (conns m p = Some c \<longrightarrow> fsm c \<noteq> TCP_S_INIT \<and> fsm c \<noteq> TCP_S_CLOSED)"
proof -
  note inv = TCP_inv_reachable [OF assms]
  have "agree (dom (conns m)) (keysOf m) (tcpAppConnMap m) (tcpConnMap m) (usedEphemeralPorts m)"
    using inv by (rule TCP_inv_agree)
  with inv show ?thesis
    by (auto simp: agree_def keysOf_def TCP_inv_def connOk_def)
qed

lemma tcp_tables_exact_witness:
  "\<exists>c. conns exampleListening 0 = Some c \<and>
     connSockPair c = sockPair (IPv4 1) unspecifiedAddress 80 (-1)"
proof -
  have "tcpConnMap exampleListening (sockPair (IPv4 1) unspecifiedAddress 80 (-1)) = Some 0"
    by code_simp
  with tcp_tables_exact [OF exampleListening_reachable] show ?thesis by blast
qed

lemma dispatch_ok:
  assumes "TCP_inv m" and "findConnForSegment seg src dst m = Some p"
  shows "\<exists>c. conns m p = Some c \<and> processTCPSegment env seg src dst p m =
    andThen (process_RCV_SEGMENT env seg src dst p m)
      (\<lambda>(m, event). onConnR p (performStateTransition event) m)"
proof -
  note inv = assms(1)
  let ?la = "\<lambda>k. sp_localAddr k \<in> {dst, unspecifiedAddress} \<and> sp_localPort k = getDestPort seg"
  let ?ra = "\<lambda>k. sp_remoteAddr k = src \<and> sp_remotePort k = getSrcPort seg \<or>
    sp_remoteAddr k = unspecifiedAddress"
  obtain k where k: "tcpConnMap m k = Some p" "?la k" "?ra k"
    using assms(2) getPort_short [of seg]
    by (auto simp: findConnForSegment_def Let_def sockPair_def split: option.splits)
  obtain c where c: "conns m p = Some c" "connSockPair c = k"
    using agree_conD [OF TCP_inv_agree [OF inv] k(1)] by (auto simp: keysOf_def)
  have "toShort (localPort c) = localPort c" "toShort (remotePort c) = remotePort c"
    using inv c(1) by (auto simp: TCP_inv_def connOk_def)
  moreover have "addrMatches a a" for a by (cases a) (simp_all add: addrMatches_def)
  ultimately show ?thesis
    using c k(2,3) by (auto simp: processTCPSegment_def connSockPair_def sockPair_def isUnspecified_iff)
qed

text \<open>In every reachable state, a segment that the lookup gives to a connection passes the four
  assertions on addresses and ports with which \<^verbatim>\<open>processTCPSegment()\<close> starts, and the
  connection exists: the call goes on to process the segment.\<close>

theorem tcp_dispatch_asserts_hold:
  assumes "tcp_reachable m" and "findConnForSegment seg src dst m = Some p"
  shows "\<exists>c. conns m p = Some c \<and> processTCPSegment env seg src dst p m =
    andThen (process_RCV_SEGMENT env seg src dst p m)
      (\<lambda>(m, event). onConnR p (performStateTransition event) m)"
  by (rule dispatch_ok [OF TCP_inv_reachable [OF assms(1)] assms(2)])

lemma tcp_dispatch_asserts_hold_witness:
  "\<exists>c. conns exampleListening 0 = Some c \<and>
    processTCPSegment exampleEnv exampleSyn (IPv4 2) (IPv4 1) 0 exampleListening =
    andThen (process_RCV_SEGMENT exampleEnv exampleSyn (IPv4 2) (IPv4 1) 0 exampleListening)
      (\<lambda>(m, event). onConnR 0 (performStateTransition event) m)"
proof -
  have "findConnForSegment exampleSyn (IPv4 2) (IPv4 1) exampleListening = Some 0" by code_simp
  from tcp_dispatch_asserts_hold [OF exampleListening_reachable this] show ?thesis .
qed

lemma segment_reaches:
  assumes "TCP_inv m" and "conns m p = Some c"
    and "localAddr c = dst" "remoteAddr c = src"
    and "localPort c = getDestPort seg" "remotePort c = getSrcPort seg"
  shows "findConnForSegment seg src dst m = Some p"
proof -
  have "keysOf m p = Some (connAppKey c, sockPair dst src (getDestPort seg) (getSrcPort seg), localPort c)"
    using assms by (simp add: keysOf_def connSockPair_def)
  with agree_con [OF TCP_inv_agree [OF assms(1)], of p] assms(2)
  have "tcpConnMap m (sockPair dst src (getDestPort seg) (getSrcPort seg)) = Some p" by auto
  then show ?thesis by (simp add: findConnForSegment_def)
qed

text \<open>C3: A segment whose addresses and ports are those of a connection goes to that connection, never
  to a listening one on the same port.\<close>

theorem tcp_segment_reaches_connection:
  assumes "tcp_reachable m" and "conns m p = Some c"
    and "localAddr c = dst" "remoteAddr c = src"
    and "localPort c = getDestPort seg" "remotePort c = getSrcPort seg"
  shows "findConnForSegment seg src dst m = Some p"
  by (rule segment_reaches [OF TCP_inv_reachable [OF assms(1)] assms(2-)])

lemma tcp_segment_reaches_connection_witness:
  "findConnForSegment exampleSyn (IPv4 2) (IPv4 1) exampleAccepted = Some 0"
proof -
  have "map_option (\<lambda>c. (localAddr c, remoteAddr c, localPort c, remotePort c))
     (conns exampleAccepted 0) = Some (IPv4 1, IPv4 2, 80, 7)"
    by code_simp
  then obtain c where "conns exampleAccepted 0 = Some c" "localAddr c = IPv4 1"
    "remoteAddr c = IPv4 2" "localPort c = 80" "remotePort c = 7"
    by (auto simp: map_option_eq_Some)
  then show ?thesis
    by (intro tcp_segment_reaches_connection [OF exampleAccepted_reachable])
       (simp_all add: exampleSyn_def createTCPSegment_def getDestPort_def getSrcPort_def toShort_def)
qed

section \<open>Ephemeral ports\<close>

lemma used_port:
  assumes inv: "TCP_inv m" and c: "conns m p = Some c" and e: "isEphemeral (localPort c)"
  shows "localPort c \<in># usedEphemeralPorts m"
proof -
  have a: "agree (dom (conns m)) (keysOf m) (tcpAppConnMap m) (tcpConnMap m) (usedEphemeralPorts m)"
    using inv by (rule TCP_inv_agree)
  have "keyPort (keysOf m) p = localPort c" using c by (simp add: keyPort_def keysOf_def)
  with c e show ?thesis
    using agree_ports [OF a] agree_finite [OF a] by (force simp: portsOf_def)
qed

lemma used_port_conn:
  assumes inv: "TCP_inv m" and q: "q \<in># usedEphemeralPorts m"
  shows "\<exists>p c. conns m p = Some c \<and> localPort c = q"
proof -
  have a: "agree (dom (conns m)) (keysOf m) (tcpAppConnMap m) (tcpConnMap m) (usedEphemeralPorts m)"
    using inv by (rule TCP_inv_agree)
  with q obtain p where "p \<in> dom (conns m)" "keyPort (keysOf m) p = q"
    using agree_ports [OF a] agree_finite [OF a] by (auto simp: portsOf_def)
  then obtain c where "conns m p = Some c" "localPort c = q" by (auto simp: keyPort_def keysOf_def)
  then show ?thesis by blast
qed

text \<open>C10: The search for an ephemeral port always ends. It returns a port of the range 1024..4999 that
  no connection of the module uses, and it fails exactly if every port of the range is the local
  port of some connection.\<close>

theorem tcp_ephemeral_port_free:
  assumes "tcp_reachable m"
  shows "(\<exists>p. getEphemeralPort m = Inr (m\<lparr>lastEphemeralPort := p\<rparr>, p) \<and> 1024 \<le> p \<and> p < 5000 \<and>
      (\<forall>q c. conns m q = Some c \<longrightarrow> localPort c \<noteq> p)) \<or>
    getEphemeralPort m = Inl (OppError ''Ephemeral port range exhausted, all ports occupied'') \<and>
      (\<forall>p. 1024 \<le> p \<and> p < 5000 \<longrightarrow> (\<exists>q c. conns m q = Some c \<and> localPort c = p))"
proof -
  note inv = TCP_inv_reachable [OF assms]
  then have "isEphemeral (lastEphemeralPort m)" by (simp add: TCP_inv_def tablesOk_def)
  from getEphemeralPort_cases [OF this] show ?thesis
  proof
    assume "\<exists>p. getEphemeralPort m = Inr (m\<lparr>lastEphemeralPort := p\<rparr>, p) \<and> isEphemeral p \<and>
       p \<notin># usedEphemeralPorts m"
    then obtain p where p: "getEphemeralPort m = Inr (m\<lparr>lastEphemeralPort := p\<rparr>, p)"
      "isEphemeral p" "p \<notin># usedEphemeralPorts m" by blast
    moreover have "localPort c \<noteq> p" if "conns m q = Some c" for q c
      using used_port [OF inv that] p(2,3) by blast
    ultimately show ?thesis by (auto simp: isEphemeral_def)
  qed (use used_port_conn [OF inv] in \<open>auto simp: isEphemeral_def\<close>)
qed

lemma tcp_ephemeral_port_free_witness:
  "\<exists>p. getEphemeralPort (TCP_initialize 10) = Inr ((TCP_initialize 10)\<lparr>lastEphemeralPort := p\<rparr>, p) \<and>
     1024 \<le> p \<and> p < 5000"
  using tcp_ephemeral_port_free [OF tcp_reachable.init [of 10]]
proof
  assume "getEphemeralPort (TCP_initialize 10) =
      Inl (OppError ''Ephemeral port range exhausted, all ports occupied'') \<and>
    (\<forall>p. 1024 \<le> p \<and> p < 5000 \<longrightarrow>
       (\<exists>q c. conns (TCP_initialize 10) q = Some c \<and> localPort c = p))"
  then have "\<exists>q c. conns (TCP_initialize 10) q = Some c \<and> localPort c = 1024" by simp
  then show ?thesis by (simp add: TCP_initialize_def)
qed blast

section \<open>Segments for no connection\<close>

text \<open>A segment for which there is no connection changes nothing but the output: a RST is dropped,
  anything else is answered by one RST to its sender, which takes its sequence number from the
  acknowledgement if there is one, as RFC 793 asks, and acknowledges the segment's text otherwise,
  but not its SYN or FIN, which RFC 793 counts too.\<close>

theorem tcp_no_connection_reset:
  assumes "findConnForSegment seg (IPv4 a) (IPv4 b) m = None"
  shows "handleMessage env (FromIP seg (IPv4 a) (IPv4 b)) m = Inr (m\<lparr>sent := sent m @
    (if rstBit seg then []
     else [ToIP (createTCPSegment\<lparr>srcPort := getDestPort seg, destPort := getSrcPort seg, rstBit := True,
        ackBit := \<not> ackBit seg, sequenceNo := (if ackBit seg then ackNo seg else 0),
        ackNo := (if ackBit seg then 0 else sequenceNo seg + payloadLength seg)\<rparr>) (IPv4 b) (IPv4 a)])\<rparr>)"
  using assms getPort_short [of seg]
  by (auto simp: handleMessage_def TCP_segmentArrivalWhileClosed_def segmentArrivalWhileClosed_def
      sendRstAck_def sendRst_from_def sendToIP_from_def blankConnection_def createTCPSegment_def)

lemma tcp_no_connection_reset_witness:
  "handleMessage exampleEnv (FromIP exampleSyn (IPv4 2) (IPv4 1)) (TCP_initialize 10) =
   Inr ((TCP_initialize 10)\<lparr>sent := [ToIP (createTCPSegment\<lparr>srcPort := 80, destPort := 7,
     rstBit := True, ackBit := True, ackNo := 100\<rparr>) (IPv4 1) (IPv4 2)]\<rparr>)"
  using tcp_no_connection_reset [of exampleSyn 2 1 "TCP_initialize 10" exampleEnv]
  by (simp add: findConnForSegment_def TCP_initialize_def exampleSyn_def createTCPSegment_def
      getSrcPort_def getDestPort_def toShort_def)

end
