(* ===== verification/TCP_ResetProps.thy ===== *)
theory TCP_ResetProps imports TCP_ModuleProps
begin

text \<open>
  Resets while a connection is being opened: what becomes of an active open that nobody listens for,
  and of a passive open whose peer takes its SYN back. Both run through the whole module.
\<close>

section \<open>An open that nobody listens for\<close>

lemma no_connection_reply:
  assumes "findConnForSegment seg (IPv4 a) (IPv4 b) m = None" "\<not> rstBit seg" "\<not> ackBit seg"
  shows "handleMessage env (FromIP seg (IPv4 a) (IPv4 b)) m = Inr (m\<lparr>sent := sent m @
    [ToIP (createTCPSegment\<lparr>srcPort := getDestPort seg, destPort := getSrcPort seg, rstBit := True,
        ackBit := True, ackNo := sequenceNo seg + payloadLength seg\<rparr>) (IPv4 b) (IPv4 a)]\<rparr>)"
  using assms getPort_short [of seg]
  by (simp add: handleMessage_def TCP_segmentArrivalWhileClosed_def segmentArrivalWhileClosed_def
      sendRstAck_def sendToIP_from_def blankConnection_def createTCPSegment_def)

lemma syn_sent_bad_ack:
  assumes inv: "TCP_inv m" "findConnForSegment seg (IPv4 a) (IPv4 b) m = Some p"
    and c: "conns m p = Some c" "fsm c = TCP_S_SYN_SENT"
    and seg: "ackBit seg" "seqLE (ackNo seg) (iss c)"
  shows "handleMessage env (FromIP seg (IPv4 a) (IPv4 b)) m =
    Inr (m\<lparr>conns := (conns m)(p \<mapsto> c\<lparr>outs := []\<rparr>), sent := sent m @ outs c @
      [ToIP (createTCPSegment\<lparr>srcPort := getDestPort seg, destPort := getSrcPort seg, rstBit := True,
        sequenceNo := ackNo seg\<rparr>) (IPv4 b) (IPv4 a)]\<rparr>)"
  using dispatch_ok [OF inv, of env] inv(2) c seg getPort_short [of seg]
  by (simp add: handleMessage_def process_RCV_SEGMENT_def processSegmentInSynSent_def onConn_def onConnR_def
      sendRst_from_def sendToIP_from_def emit_def performStateTransition_def removeIf_def createTCPSegment_def)

text \<open>C12: An active open to a port on which nobody listens is never refused: the other TCP answers the SYN
  by a RST that acknowledges the SYN's own number, because it does not count the SYN, and for the
  connection in SYN-SENT this is an unacceptable acknowledgement. It stays as it was, tells its
  application nothing and sends a RST in return, which RFC 793 forbids for a segment with RST set.\<close>

theorem refused_open_not_noticed:
  assumes m: "tcp_reachable m" "conns m p = Some c" "fsm c = TCP_S_SYN_SENT"
      "localAddr c = IPv4 a" "remoteAddr c = IPv4 b"
    and syn: "synBit syn" "\<not> ackBit syn" "\<not> rstBit syn" "sequenceNo syn = iss c" "payloadLength syn = 0"
      "getSrcPort syn = localPort c" "getDestPort syn = remotePort c"
    and peer: "findConnForSegment syn (IPv4 a) (IPv4 b) n = None"
  shows "\<exists>rst rst'. handleMessage env (FromIP syn (IPv4 a) (IPv4 b)) n =
      Inr (n\<lparr>sent := sent n @ [ToIP rst (IPv4 b) (IPv4 a)]\<rparr>) \<and> rstBit rst \<and>
    handleMessage env' (FromIP rst (IPv4 b) (IPv4 a)) m =
      Inr (m\<lparr>conns := (conns m)(p \<mapsto> c\<lparr>outs := []\<rparr>), sent := sent m @ outs c @ [ToIP rst' (IPv4 a) (IPv4 b)]\<rparr>) \<and>
    rstBit rst'"
proof -
  let ?rst = "createTCPSegment\<lparr>srcPort := getDestPort syn, destPort := getSrcPort syn, rstBit := True,
        ackBit := True, ackNo := sequenceNo syn + payloadLength syn\<rparr>"
  note inv = TCP_inv_reachable [OF m(1)]
  have ports: "getSrcPort ?rst = getDestPort syn" "getDestPort ?rst = getSrcPort syn"
    using getPort_short [of syn] by (simp_all add: getSrcPort_def [of ?rst] getDestPort_def [of ?rst])
  have "findConnForSegment ?rst (IPv4 b) (IPv4 a) m = Some p"
    using m syn ports by (intro segment_reaches [OF inv m(2)]) simp_all
  from syn_sent_bad_ack [OF inv this m(2,3), of env'] syn ports
  have "handleMessage env' (FromIP ?rst (IPv4 b) (IPv4 a)) m =
      Inr (m\<lparr>conns := (conns m)(p \<mapsto> c\<lparr>outs := []\<rparr>), sent := sent m @ outs c @
        [ToIP (createTCPSegment\<lparr>srcPort := getSrcPort syn, destPort := getDestPort syn, rstBit := True,
        sequenceNo := ackNo ?rst\<rparr>) (IPv4 a) (IPv4 b)]\<rparr>)"
    by (simp add: createTCPSegment_def seqLE_def)
  with no_connection_reply [OF peer syn(3,2), of env] show ?thesis
    by (intro exI conjI) (assumption | simp add: createTCPSegment_def)+
qed

section \<open>A passive open that is reset\<close>

lemma reset_in_syn_rcvd:
  assumes "fsm c = TCP_S_SYN_RCVD" "\<not> active c" "connEstabTimer c \<noteq> TimerNull" "synRexmitTimer c \<noteq> TimerNull"
    and "sq_discardUpTo (sq_getBufferEndSeq (sendQueue c)) (sendQueue c) = Inr q"
    and "rstBit rst" "isSegmentAcceptable rst c"
  shows "processSegment1stThru8th env rst c = Inr (c\<lparr>sendQueue := q\<rparr>, TCP_E_RCV_RST)"
    "\<exists>e r. performStateTransition TCP_E_RCV_RST (c\<lparr>sendQueue := q, outs := []\<rparr>) =
      Inr (c\<lparr>sendQueue := q, fsm := TCP_S_LISTEN, connEstabTimer := e, synRexmitTimer := r, outs := []\<rparr>, True)"
proof -
  have cancel: "t \<noteq> TimerNull \<Longrightarrow> cancelTimer t = Inr TimerIdle" for t by (cases t) simp_all
  show "processSegment1stThru8th env rst c = Inr (c\<lparr>sendQueue := q\<rparr>, TCP_E_RCV_RST)"
    using assms by (simp add: processSegment1stThru8th_def checkRstBit_def processRstInSynReceived_def)
  show "\<exists>e r. performStateTransition TCP_E_RCV_RST (c\<lparr>sendQueue := q, outs := []\<rparr>) =
      Inr (c\<lparr>sendQueue := q, fsm := TCP_S_LISTEN, connEstabTimer := e, synRexmitTimer := r, outs := []\<rparr>, True)"
    using assms
    by (intro exI [of _ TimerIdle])
       (simp add: performStateTransition_def fsm_goto_def stateEntered_def cancel)
qed

lemma find_conns: "tcpConnMap m' = tcpConnMap m \<Longrightarrow> findConnForSegment seg s d m' = findConnForSegment seg s d m"
  by (simp add: findConnForSegment_def Let_def split: option.split)

text \<open>Without another connection on its port, a connection is found only by its own socket pair.\<close>

lemma sole_on_port_found:
  assumes inv: "TCP_inv m" "conns m p = Some c" and only: "\<And>q c'. conns m q = Some c' \<Longrightarrow> localPort c' = localPort c \<Longrightarrow> q = p"
    and c: "localAddr c \<noteq> unspecifiedAddress" "remoteAddr c \<noteq> unspecifiedAddress"
    and f: "findConnForSegment seg src (localAddr c) m = Some q" "getDestPort seg = localPort c"
  shows "src = remoteAddr c \<and> getSrcPort seg = remotePort c"
proof -
  obtain k where k: "tcpConnMap m k = Some q" "sp_localPort k = localPort c"
    "sp_localAddr k \<in> {localAddr c, unspecifiedAddress}"
    "sp_remoteAddr k = src \<and> sp_remotePort k = getSrcPort seg \<or> sp_remoteAddr k = unspecifiedAddress"
    using f getPort_short [of seg]
    by (auto simp: findConnForSegment_def Let_def sockPair_def split: option.splits)
  obtain c' where c': "conns m q = Some c'" "connSockPair c' = k"
    using agree_conD [OF TCP_inv_agree [OF inv(1)] k(1)] by (auto simp: keysOf_def)
  moreover have short: "toShort (localPort x) = localPort x \<and> toShort (remotePort x) = remotePort x"
    if "conns m y = Some x" for x y
    using inv(1) that by (auto simp: TCP_inv_def connOk_def)
  ultimately have "q = p" using only [of q c'] k(2) by (auto simp: connSockPair_def sockPair_def)
  with c' k c inv(2) short show ?thesis by (auto simp: connSockPair_def sockPair_def)
qed

text \<open>A RST that arrives in SYN-RECEIVED takes a passive open back to LISTEN, but the connection keeps
  the socket pair of the host that sent it: where no other connection uses the port, a segment from
  any other host or port no longer finds it, although it listens.\<close>

theorem reset_in_syn_rcvd_hides_listener:
  assumes m: "tcp_reachable m" "conns m p = Some c"
      "\<And>q c'. conns m q = Some c' \<Longrightarrow> localPort c' = localPort c \<Longrightarrow> q = p"
    and c: "fsm c = TCP_S_SYN_RCVD" "\<not> active c" "connEstabTimer c \<noteq> TimerNull" "synRexmitTimer c \<noteq> TimerNull"
      "sq_discardUpTo (sq_getBufferEndSeq (sendQueue c)) (sendQueue c) = Inr q"
      "localAddr c \<noteq> unspecifiedAddress" "remoteAddr c \<noteq> unspecifiedAddress"
    and rst: "rstBit rst" "isSegmentAcceptable rst c" "getDestPort rst = localPort c" "getSrcPort rst = remotePort c"
  shows "\<exists>m' c'. handleMessage env (FromIP rst (remoteAddr c) (localAddr c)) m = Inr m' \<and>
    conns m' p = Some c' \<and> fsm c' = TCP_S_LISTEN \<and> connSockPair c' = connSockPair c \<and>
    (\<forall>seg src. getDestPort seg = localPort c \<and> (src, getSrcPort seg) \<noteq> (remoteAddr c, remotePort c) \<longrightarrow>
       findConnForSegment seg src (localAddr c) m' = None)"
proof -
  note inv = TCP_inv_reachable [OF m(1)]
  have f: "findConnForSegment rst (remoteAddr c) (localAddr c) m = Some p"
    using rst by (intro segment_reaches [OF inv m(2)]) simp_all
  note step = reset_in_syn_rcvd [OF c(1-5) rst(1,2)]
  obtain e r where e: "performStateTransition TCP_E_RCV_RST (c\<lparr>sendQueue := q, outs := []\<rparr>) =
      Inr (c\<lparr>sendQueue := q, fsm := TCP_S_LISTEN, connEstabTimer := e, synRexmitTimer := r, outs := []\<rparr>, True)"
    using step(2) by blast
  let ?c = "c\<lparr>sendQueue := q, fsm := TCP_S_LISTEN, connEstabTimer := e, synRexmitTimer := r, outs := []\<rparr>"
  let ?m = "m\<lparr>conns := (conns m)(p \<mapsto> ?c), sent := sent m @ outs c\<rparr>"
  have "handleMessage env (FromIP rst (remoteAddr c) (localAddr c)) m = Inr ?m"
    using dispatch_ok [OF inv f, of env] f m(2) c(1) step(1) e
    by (simp add: handleMessage_def process_RCV_SEGMENT_def onConnR_def removeIf_def)
  moreover have "findConnForSegment seg src (localAddr c) ?m = None"
    if "getDestPort seg = localPort c" "(src, getSrcPort seg) \<noteq> (remoteAddr c, remotePort c)" for seg src
  proof (cases "findConnForSegment seg src (localAddr c) m")
    case None
    with find_conns [of ?m m seg src "localAddr c"] show ?thesis by simp
  next
    case (Some q')
    from sole_on_port_found [OF inv m(2,3) c(6,7) Some that(1)] that(2) find_conns [of ?m m] show ?thesis by simp
  qed
  ultimately show ?thesis by (intro exI [of _ ?m] exI [of _ ?c]) (simp add: connSockPair_def)
qed

section \<open>Witnesses\<close>

text \<open>A module with a connection in SYN-SENT, and one whose listener, which does not fork, got a SYN.\<close>

definition exampleConnecting :: TCP where
  "exampleConnecting = projr (handleMessage exampleEnv (FromApp 0 (TCP_C_OPEN_ACTIVE (exampleConnect\<lparr>oc_localPort := 1025\<rparr>))) (TCP_initialize 10))"

lemma exampleConnecting_reachable: "tcp_reachable exampleConnecting"
proof -
  let ?r = "handleMessage exampleEnv (FromApp 0 (TCP_C_OPEN_ACTIVE (exampleConnect\<lparr>oc_localPort := 1025\<rparr>))) (TCP_initialize 10)"
  have "\<not> isl ?r" by code_simp
  then have "?r = Inr exampleConnecting" by (cases ?r) (simp_all add: exampleConnecting_def)
  then have "tcp_step (TCP_initialize 10) exampleConnecting"
    by (rule tcp_step.message) (auto simp: exampleConnect_def exampleListen_def TCP_initialize_def)
  with tcp_reachable.init show ?thesis by (rule tcp_reachable.step)
qed

definition exampleNoFork :: TCP where
  "exampleNoFork = projr (handleMessage exampleEnv (FromApp 0 (TCP_C_OPEN_PASSIVE (exampleListen\<lparr>oc_fork := False\<rparr>))) (TCP_initialize 10))"

lemma exampleNoFork_reachable: "tcp_reachable exampleNoFork"
proof -
  let ?r = "handleMessage exampleEnv (FromApp 0 (TCP_C_OPEN_PASSIVE (exampleListen\<lparr>oc_fork := False\<rparr>))) (TCP_initialize 10)"
  have "\<not> isl ?r" by code_simp
  then have "?r = Inr exampleNoFork" by (cases ?r) (simp_all add: exampleNoFork_def)
  then have "tcp_step (TCP_initialize 10) exampleNoFork"
    by (rule tcp_step.message) (auto simp: exampleConnect_def exampleListen_def TCP_initialize_def)
  with tcp_reachable.init show ?thesis by (rule tcp_reachable.step)
qed

definition exampleSynRcvd :: TCP where
  "exampleSynRcvd = projr (handleMessage exampleEnv (FromIP exampleSyn (IPv4 2) (IPv4 1)) (exampleNoFork))"

lemma exampleSynRcvd_reachable: "tcp_reachable exampleSynRcvd"
proof -
  let ?r = "handleMessage exampleEnv (FromIP exampleSyn (IPv4 2) (IPv4 1)) (exampleNoFork)"
  have "\<not> isl ?r" by code_simp
  then have "?r = Inr exampleSynRcvd" by (cases ?r) (simp_all add: exampleSynRcvd_def)
  then have "tcp_step (exampleNoFork) exampleSynRcvd"
    by (rule tcp_step.message) (auto simp: exampleConnect_def exampleListen_def TCP_initialize_def)
  with exampleNoFork_reachable show ?thesis by (rule tcp_reachable.step)
qed


lemma refused_open_not_noticed_witness:
  "\<exists>rst rst' c. conns exampleConnecting 0 = Some c \<and>
    handleMessage exampleEnv (FromIP rst (IPv4 1) (IPv4 2)) exampleConnecting =
      Inr (exampleConnecting\<lparr>conns := (conns exampleConnecting)(0 \<mapsto> c\<lparr>outs := []\<rparr>),
        sent := sent exampleConnecting @ outs c @ [ToIP rst' (IPv4 2) (IPv4 1)]\<rparr>) \<and> rstBit rst'"
proof -
  let ?syn = "createTCPSegment\<lparr>srcPort := 1025, destPort := 80, sequenceNo := 250000, synBit := True\<rparr>"
  have "map_option (\<lambda>c. (fsm c, localAddr c, remoteAddr c, localPort c, remotePort c, iss c))
     (conns exampleConnecting 0) = Some (TCP_S_SYN_SENT, IPv4 2, IPv4 1, 1025, 80, 250000)"
    by code_simp
  then obtain c where "conns exampleConnecting 0 = Some c" "fsm c = TCP_S_SYN_SENT" "localAddr c = IPv4 2"
    "remoteAddr c = IPv4 1" "localPort c = 1025" "remotePort c = 80" "iss c = 250000"
    by (auto simp: map_option_eq_Some)
  with refused_open_not_noticed [OF exampleConnecting_reachable, of 0 c 2 1 ?syn "TCP_initialize 10" exampleEnv exampleEnv]
  show ?thesis
    by (auto simp: createTCPSegment_def getSrcPort_def getDestPort_def toShort_def findConnForSegment_def
        TCP_initialize_def)
qed

lemma reset_in_syn_rcvd_hides_listener_witness:
  "\<exists>rst m' c'. handleMessage exampleEnv (FromIP rst (IPv4 2) (IPv4 1)) exampleSynRcvd = Inr m' \<and>
    conns m' 0 = Some c' \<and> fsm c' = TCP_S_LISTEN \<and>
    findConnForSegment (exampleSyn\<lparr>srcPort := 9\<rparr>) (IPv4 3) (IPv4 1) m' = None"
proof -
  let ?rst = "exampleSyn\<lparr>synBit := False, rstBit := True, sequenceNo := 101\<rparr>"
  have "map_option (\<lambda>c. (fsm c, localAddr c, remoteAddr c, localPort c, remotePort c, active c, connEstabTimer c = TimerNull,
      synRexmitTimer c = TimerNull, isl (sq_discardUpTo (sq_getBufferEndSeq (sendQueue c)) (sendQueue c)),
      isSegmentAcceptable ?rst c))
     (conns exampleSynRcvd 0) = Some (TCP_S_SYN_RCVD, IPv4 1, IPv4 2, 80, 7, False, False, False, False, True)"
    by code_simp
  then obtain c where c: "conns exampleSynRcvd 0 = Some c" "fsm c = TCP_S_SYN_RCVD" "localAddr c = IPv4 1"
    "remoteAddr c = IPv4 2" "localPort c = 80" "remotePort c = 7" "\<not> active c" "connEstabTimer c \<noteq> TimerNull"
    "synRexmitTimer c \<noteq> TimerNull" "\<not> isl (sq_discardUpTo (sq_getBufferEndSeq (sendQueue c)) (sendQueue c))"
    "isSegmentAcceptable ?rst c"
    by (auto simp: map_option_eq_Some)
  then obtain q where q: "sq_discardUpTo (sq_getBufferEndSeq (sendQueue c)) (sendQueue c) = Inr q"
    by (cases "sq_discardUpTo (sq_getBufferEndSeq (sendQueue c)) (sendQueue c)") auto
  have only: "q = 0" if "conns exampleSynRcvd q = Some c'" "localPort c' = localPort c" for q c'
  proof -
    have "nextConn exampleSynRcvd = 1" by code_simp
    with TCP_inv_reachable [OF exampleSynRcvd_reachable] that show ?thesis
      by (auto simp: TCP_inv_def tablesOk_def dom_def)
  qed
  from reset_in_syn_rcvd_hides_listener [OF exampleSynRcvd_reachable c(1) only c(2,7,8,9) q _ _ _ c(11), where env = exampleEnv] c(3-6)
  show ?thesis 
    by (fastforce simp: exampleSyn_def createTCPSegment_def getSrcPort_def getDestPort_def toShort_def unspecifiedAddress_def)
qed

end
