(* ===== verification/TCP_SendProps.thy ===== *)
theory TCP_SendProps imports TCP_Frame
begin

text \<open>
  Properties of the routines that send data: new data goes out in consecutive segments of at
  most the maximum segment size, inside the window, and the routine always returns; a
  retransmission covers exactly what is outstanding.
\<close>

section \<open>Connections that can send\<close>

text \<open>
  The addresses of a connection are of one kind, its timers exist, and what is queued is less
  than half of the number space and includes the sending position (or the position is
  one above the end, when a FIN has been sent). A FIN that was promised stands after the data.
\<close>

definition addrsOk :: "TCPConnection \<Rightarrow> bool" where
  "addrsOk c \<longleftrightarrow> isIPv6 (localAddr c) = isIPv6 (remoteAddr c)"

definition algTimersOk :: "TCPConnection \<Rightarrow> bool" where
  "algTimersOk c \<longleftrightarrow> rexmitTimer c \<noteq> TimerNull \<and>
     (tcpAlgorithm c \<noteq> DumbTCP \<longrightarrow> delayedAckTimer c \<noteq> TimerNull)"

definition queueEnd :: "TCPConnection \<Rightarrow> uint32" where
  "queueEnd c = sq_getBufferEndSeq (sendQueue c)"

definition queueOff :: "TCPConnection \<Rightarrow> uint32 \<Rightarrow> nat" where
  "queueOff c x = off (sq_begin (sendQueue c)) x"

definition canSend :: "TCPConnection \<Rightarrow> bool" where
  "canSend c \<longleftrightarrow> addrsOk c \<and> algTimersOk c \<and> queueOff c (queueEnd c) < 2147483648 \<and>
     (queueOff c (snd_max c) \<le> queueOff c (queueEnd c) \<or> snd_max c = queueEnd c + 1) \<and>
     (send_fin c \<longrightarrow> snd_fin_seq c = queueEnd c)"

text \<open>Consecutive segments from \<open>s\<close> up to \<open>e\<close>.\<close>

fun chain :: "uint32 \<Rightarrow> TCPSegment list \<Rightarrow> uint32 \<Rightarrow> bool" where
  "chain s [] e = (s = e)"
| "chain s (seg # segs) e = (sequenceNo seg = s \<and> chain (s + payloadLength seg) segs e)"

definition toPeer :: "TCPConnection \<Rightarrow> TCPSegment \<Rightarrow> TCPOutput" where
  "toPeer c seg = ToIP seg (localAddr c) (remoteAddr c)"

lemma toPeer_simps [simp]:
  "toPeer (c\<lparr>snd_nxt := x\<rparr>) = toPeer c" "toPeer (c\<lparr>outs := xs\<rparr>) = toPeer c"
  "toPeer (c\<lparr>snd_max := x\<rparr>) = toPeer c" "toPeer (emit y c) = toPeer c"
  by (simp_all add: toPeer_def fun_eq_iff emit_def)

section \<open>One segment\<close>

lemma sendToIP_ok:
  assumes "addrsOk c"
  shows "\<exists>seg'. sendToIP seg c = Inr (emit (toPeer c seg') c) \<and> seg' = seg\<lparr>srcPort := toShort (localPort c),
    destPort := toShort (remotePort c), segByteLength := 20 + sint (payloadLength seg)\<rparr>"
  using assms
  by (cases "localAddr c"; cases "remoteAddr c") (simp_all add: sendToIP_def addrsOk_def toPeer_def)

lemma scast_ucast32 [simp]: "ucast (scast (n :: uint32) :: ulong) = n"
proof (rule bit_word_eqI)
  fix i :: nat
  assume "i < LENGTH(32)"
  then show "bit (ucast (scast n :: ulong) :: uint32) i = bit n i"
    by (cases "i = 31") (auto simp: bit_unsigned_iff bit_signed_iff min_def)
qed

text \<open>
  Whether a segment that reaches up to \<open>e\<close> carries the FIN.
\<close>

definition finAt :: "TCPConnection \<Rightarrow> uint32 \<Rightarrow> bool" where
  "finAt c e \<longleftrightarrow> send_fin c \<and> e = snd_fin_seq c"

lemma sendSegment_ok:
  assumes "addrsOk c" "queueOff c (queueEnd c) < 2147483648"
    and "queueOff c (snd_nxt c) + unat n \<le> queueOff c (queueEnd c)"
  shows "\<exists>seg. sendSegment n c = Inr (emit (toPeer c seg)
      (c\<lparr>snd_nxt := snd_nxt c + n + (if finAt c (snd_nxt c + n) then 1 else 0)\<rparr>)) \<and>
    sequenceNo seg = snd_nxt c \<and> payloadLength seg = n \<and> ackNo seg = rcv_nxt c \<and>
    finBit seg = finAt c (snd_nxt c + n)"
proof -
  let ?b = "sq_begin (sendQueue c)"
  have "off ?b (snd_nxt c + n) = off ?b (snd_nxt c) + unat n"
    using assms(2,3) by (intro off_add) (simp add: queueOff_def)
  then have "seqLE ?b (snd_nxt c)" "seqLE (snd_nxt c + n) (sq_getBufferEndSeq (sendQueue c))"
    using assms(2,3) by (simp_all add: seq_half(2) [of ?b] queueOff_def queueEnd_def)
  then obtain seg where seg: "sq_createSegmentWithBytes (snd_nxt c) (scast n) (sendQueue c) = Inr seg"
    using sq.create_Inr_iff [of "snd_nxt c" "scast n" "sendQueue c"] by auto
  have f: "sequenceNo seg = snd_nxt c" "payloadLength seg = n" "finBit seg = False"
    using sq.create_InrD(1,2) [OF seg] arg_cong [OF sq.create_InrD(5) [OF seg], of finBit]
    by (simp_all add: createTCPSegment_def)
  define s1 where "s1 = seg\<lparr>ackNo := rcv_nxt c, ackBit := True, window := ucast (rcv_wnd c)\<rparr>"
  have a: "addrsOk (c\<lparr>snd_nxt := x\<rparr>)" for x using assms(1) by (simp add: addrsOk_def)
  show ?thesis
  proof (cases "finAt c (snd_nxt c + n)")
    case True
    with f have "sendSegment n c = sendToIP (s1\<lparr>finBit := True\<rparr>) (c\<lparr>snd_nxt := snd_fin_seq c + 1\<rparr>)"
      by (simp add: sendSegment_def seg s1_def Let_def finAt_def)
    with sendToIP_ok [OF a, of "s1\<lparr>finBit := True\<rparr>" "snd_fin_seq c + 1"] True f show ?thesis
      by (auto simp: s1_def finAt_def)
  next
    case False
    with f have "sendSegment n c = sendToIP s1 (c\<lparr>snd_nxt := snd_nxt c + n\<rparr>)"
      by (auto simp: sendSegment_def seg s1_def Let_def finAt_def)
    with sendToIP_ok [OF a, of s1 "snd_nxt c + n"] False f show ?thesis
      by (auto simp: s1_def)
  qed
qed

section \<open>Whole segments\<close>

text \<open>The bytes that fit into whole segments.\<close>

definition wholeBytes :: "nat \<Rightarrow> nat \<Rightarrow> nat" where
  "wholeBytes m n = n - n mod m"

lemma wholeBytes_step: "m \<le> n \<Longrightarrow> wholeBytes m n = m + wholeBytes m (n - m)"
  unfolding wholeBytes_def using le_mod_geq [of m n] mod_less_eq_dividend [of "n - m" m] by linarith

lemma wholeBytes_less: "n < m \<Longrightarrow> wholeBytes m n = 0"
  by (simp add: wholeBytes_def)

lemma wholeBytes_le: "wholeBytes m n \<le> n"
  by (simp add: wholeBytes_def)

lemma wholeBytes_pos: "0 < m \<Longrightarrow> m \<le> n \<Longrightarrow> 0 < wholeBytes m n"
  by (simp add: wholeBytes_step)

lemma emit_snd_nxt: "emit x (c\<lparr>snd_nxt := y\<rparr>) = c\<lparr>snd_nxt := y, outs := outs c @ [x]\<rparr>"
  by (simp add: emit_def)

lemma queue_upd [simp]:
  "queueOff (c\<lparr>snd_nxt := x\<rparr>) = queueOff c" "queueEnd (c\<lparr>snd_nxt := x\<rparr>) = queueEnd c"
  "queueOff (c\<lparr>outs := xs\<rparr>) = queueOff c" "queueEnd (c\<lparr>outs := xs\<rparr>) = queueEnd c"
  "queueOff (c\<lparr>snd_max := x\<rparr>) = queueOff c" "queueEnd (c\<lparr>snd_max := x\<rparr>) = queueEnd c"
  "addrsOk (c\<lparr>snd_nxt := x\<rparr>) = addrsOk c" "addrsOk (c\<lparr>outs := xs\<rparr>) = addrsOk c"
  "addrsOk (c\<lparr>snd_max := x\<rparr>) = addrsOk c"
  "finAt (c\<lparr>snd_nxt := x\<rparr>) = finAt c" "finAt (c\<lparr>outs := xs\<rparr>) = finAt c"
  "finAt (c\<lparr>snd_max := x\<rparr>) = finAt c"
  by (simp_all add: queueOff_def queueEnd_def addrsOk_def finAt_def fun_eq_iff)

lemma queueOff_add:
  "queueOff c x + n < 4294967296 \<Longrightarrow> queueOff c (x + of_nat n) = queueOff c x + n"
  using off_add [of "sq_begin (sendQueue c)" x "of_nat n"] by (simp add: queueOff_def unat_of_nat)

lemma sendWholeSegments_ok:
  assumes "addrsOk c" "queueOff c (queueEnd c) < 2147483648" "snd_mss c \<noteq> 0"
    and "queueOff c (snd_nxt c) + n \<le> queueOff c (queueEnd c)"
    and "send_fin c \<longrightarrow> snd_fin_seq c = queueEnd c" "unat (snd_mss c) \<le> n"
  shows "\<exists>segs. sendWholeSegments n c = Inr (c\<lparr>snd_nxt := snd_nxt c + of_nat (wholeBytes (unat (snd_mss c)) n) +
        (if finAt c (snd_nxt c + of_nat (wholeBytes (unat (snd_mss c)) n)) then 1 else 0),
        outs := outs c @ map (toPeer c) segs\<rparr>) \<and>
    segs \<noteq> [] \<and> (\<forall>seg \<in> set segs. payloadLength seg = snd_mss c) \<and>
    chain (snd_nxt c) segs (snd_nxt c + of_nat (wholeBytes (unat (snd_mss c)) n))"
  using assms
proof (induction n arbitrary: c rule: less_induct)
  case (less n c)
  let ?m = "snd_mss c" and ?k = "wholeBytes (unat (snd_mss c)) n"
  have m: "0 < unat ?m" using less.prems(3) by (simp add: unat_gt_0)
  define d where "d seg f = c\<lparr>snd_nxt := snd_nxt c + ?m + (if f then 1 else 0),
      outs := outs c @ [toPeer c seg]\<rparr>" for seg f
  from sendSegment_ok [of c ?m] less.prems obtain seg where
    seg: "sendSegment ?m c = Inr (d seg (finAt c (snd_nxt c + ?m)))"
    "sequenceNo seg = snd_nxt c" "payloadLength seg = ?m"
    by (auto simp: d_def emit_snd_nxt)
  have whole: "sendWholeSegments n c = sendWholeSegments (n - unat ?m) (d seg (finAt c (snd_nxt c + ?m)))"
    using less.prems(3,6) by (subst sendWholeSegments.simps) (simp add: seg(1))
  have k: "?k = unat ?m + wholeBytes (unat ?m) (n - unat ?m)" using less.prems(6) by (rule wholeBytes_step)
  have mm: "snd_mss (d seg f) = ?m" for f by (simp add: d_def)
  show ?case
  proof (cases "n - unat ?m < unat ?m")
    case True
    with m have "sendWholeSegments (n - unat ?m) x = Inr x" if "snd_mss x = ?m" for x
      using that less.prems(3) by (subst sendWholeSegments.simps) simp
    moreover have "?k = unat ?m" using k wholeBytes_less [OF True] by simp
    ultimately show ?thesis
      unfolding whole using seg(2,3) by (intro exI [of _ "[seg]"]) (simp add: mm, simp add: d_def)
  next
    case False
    have off: "queueOff c (snd_nxt c + ?m) = queueOff c (snd_nxt c) + unat ?m"
      using queueOff_add [of c "snd_nxt c" "unat ?m"] less.prems(2,4,6) by simp
    with False m less.prems have nofin: "\<not> finAt c (snd_nxt c + ?m)"
      by (auto simp: finAt_def)
    let ?d = "d seg False"
    have "n - unat ?m < n" using m less.prems(6) by simp
    from less.IH [OF this, of ?d] less.prems off False obtain segs where
      segs: "sendWholeSegments (n - unat ?m) ?d = Inr (?d\<lparr>snd_nxt := snd_nxt ?d +
          of_nat (wholeBytes (unat ?m) (n - unat ?m)) +
        (if finAt ?d (snd_nxt ?d + of_nat (wholeBytes (unat ?m) (n - unat ?m))) then 1 else 0),
        outs := outs ?d @ map (toPeer ?d) segs\<rparr>)" "\<forall>seg \<in> set segs. payloadLength seg = ?m"
      "chain (snd_nxt ?d) segs (snd_nxt ?d + of_nat (wholeBytes (unat ?m) (n - unat ?m)))"
      by (auto simp: d_def)
    have sum: "snd_nxt ?d + of_nat (wholeBytes (unat ?m) (n - unat ?m)) = snd_nxt c + of_nat ?k"
      unfolding k by (simp add: d_def)
    show ?thesis
      unfolding whole using nofin segs(1,2) segs(3)[unfolded sum] seg(2,3) unfolding sum
      by (intro exI [of _ "seg # segs"]) (simp add: d_def)
  qed
qed


section \<open>New data\<close>

lemma TCPBaseAlg_ackSent_ok:
  assumes "delayedAckTimer c \<noteq> TimerNull"
  shows "TCPBaseAlg_ackSent c = Inr (c\<lparr>delayedAckTimer := TimerIdle\<rparr>)"
proof (cases "delayedAckTimer c")
  case TimerIdle
  then have "c\<lparr>delayedAckTimer := TimerIdle\<rparr> = c" by simp
  with TimerIdle show ?thesis by (simp add: TCPBaseAlg_ackSent_def)
qed (use assms in \<open>simp_all add: TCPBaseAlg_ackSent_def\<close>)

lemma ackSent_ok:
  assumes "algTimersOk c"
  shows "\<exists>t. ackSent c = Inr (c\<lparr>delayedAckTimer := t\<rparr>) \<and> (tcpAlgorithm c \<noteq> DumbTCP \<longrightarrow> t \<noteq> TimerNull)"
proof (cases "tcpAlgorithm c = DumbTCP")
  case True
  then have "ackSent c = Inr (c\<lparr>delayedAckTimer := delayedAckTimer c\<rparr>)"
    by (simp add: ackSent_def DumbTCP_ackSent_def)
  with True show ?thesis by blast
next
  case False
  then have "ackSent c = TCPBaseAlg_ackSent c" by (cases "tcpAlgorithm c") (simp_all add: ackSent_def)
  with False assms TCPBaseAlg_ackSent_ok [of c] show ?thesis by (auto simp: algTimersOk_def)
qed

lemma DumbTCP_dataSent_ok:
  "rexmitTimer c \<noteq> TimerNull \<Longrightarrow> DumbTCP_dataSent env s c = Inr (c\<lparr>rexmitTimer := TimerAt (simTime env + 2)\<rparr>)"
  by (cases "rexmitTimer c") (simp_all add: DumbTCP_dataSent_def timeoutAt_def)

lemma TCPBaseAlg_dataSent_ok:
  "rexmitTimer c \<noteq> TimerNull \<Longrightarrow> \<exists>c'. TCPBaseAlg_dataSent env s c = Inr c' \<and> rest c' = rest c \<and>
    snd_nxt c' = snd_nxt c \<and> snd_max c' = snd_max c \<and> outs c' = outs c \<and> (\<exists>u. rexmitTimer c' = TimerAt u)"
  by (cases "rexmitTimer c")
     (simp_all add: TCPBaseAlg_dataSent_def TCPBaseAlg_startRexmitTimer_def timeoutAt_def Let_def)

lemma dataSent_ok:
  assumes "rexmitTimer c \<noteq> TimerNull"
  shows "\<exists>c'. dataSent env s c = Inr c' \<and> rest c' = rest c \<and> snd_nxt c' = snd_nxt c \<and>
    snd_max c' = snd_max c \<and> outs c' = outs c \<and> (\<exists>u. rexmitTimer c' = TimerAt u)"
  using DumbTCP_dataSent_ok [OF assms, of env s] TCPBaseAlg_dataSent_ok [OF assms, of env s]
  by (cases "tcpAlgorithm c") (simp_all add: dataSent_def)

text \<open>
  How much may be sent now, how much of it goes out (what does not fill a whole segment waits,
  unless it is all there is), and whether anything goes out.
\<close>

definition sendable :: "int \<Rightarrow> TCPConnection \<Rightarrow> nat" where
  "sendable cw c = min (nat (effectiveWindow cw (c\<lparr>snd_nxt := snd_max c\<rparr>)))
     (getBytesAvailable (snd_max c) (sendQueue c))"

definition sentBytes :: "int \<Rightarrow> TCPConnection \<Rightarrow> nat" where
  "sentBytes cw c = (if sendable cw c \<le> unat (snd_mss c) then sendable cw c
     else wholeBytes (unat (snd_mss c)) (sendable cw c))"

definition mustSend :: "bool \<Rightarrow> int \<Rightarrow> TCPConnection \<Rightarrow> bool" where
  "mustSend full cw c \<longleftrightarrow> 0 < sendable cw c \<and> \<not> (full \<and> sendable cw c < unat (snd_mss c))"

lemma sentBytes_le: "sentBytes cw c \<le> sendable cw c"
  by (simp add: sentBytes_def wholeBytes_le)

lemma sendable_queue:
  assumes "canSend c" "0 < sendable cw c"
  shows "queueOff c (snd_max c) + sendable cw c \<le> queueOff c (queueEnd c)"
proof -
  have "seqLess (snd_max c) (queueEnd c)"
    using assms(2) by (auto simp: sendable_def getBytesAvailable_pos queueEnd_def)
  moreover from this have "snd_max c \<noteq> queueEnd c + 1"
    using seqLess_not_seqGE [of "queueEnd c + 1" "queueEnd c"] by (auto simp: seqGE_seqLE)
  ultimately show ?thesis
    using assms(1) off_rebase [of "sq_begin (sendQueue c)" "snd_max c" "queueEnd c"]
    by (auto simp: canSend_def sendable_def getBytesAvailable_def Let_def queueOff_def queueEnd_def
        off_def [of "snd_max c"])
qed

text \<open>The segments that go out.\<close>

lemma sendData_segments_ok:
  assumes c: "canSend c" "snd_mss c \<noteq> 0" and n: "0 < sendable cw c"
  defines "n \<equiv> sendable cw c" and "e \<equiv> snd_max c + of_nat (sentBytes cw c)"
  shows "\<exists>segs. (if n \<le> unat (snd_mss c) then sendSegment (of_nat n) (c\<lparr>snd_nxt := snd_max c\<rparr>)
      else sendWholeSegments n (c\<lparr>snd_nxt := snd_max c\<rparr>)) =
     Inr (c\<lparr>snd_nxt := e + (if finAt c e then 1 else 0), outs := outs c @ map (toPeer c) segs\<rparr>) \<and>
    segs \<noteq> [] \<and> (\<forall>seg \<in> set segs. 0 < payloadLength seg \<and> payloadLength seg \<le> snd_mss c) \<and>
    chain (snd_max c) segs e"
proof (cases "n \<le> unat (snd_mss c)")
  case True
  then have u: "unat (of_nat n :: uint32) = n" using unat32_lt [of "snd_mss c"] by (simp add: unat_of_nat)
  from sendSegment_ok [of "c\<lparr>snd_nxt := snd_max c\<rparr>" "of_nat n"] c sendable_queue [OF c(1) n] u
  obtain seg where "sendSegment (of_nat n) (c\<lparr>snd_nxt := snd_max c\<rparr>) = Inr (emit (toPeer c seg)
      (c\<lparr>snd_nxt := snd_max c + of_nat n + (if finAt c (snd_max c + of_nat n) then 1 else 0)\<rparr>))"
    "sequenceNo seg = snd_max c" "payloadLength seg = of_nat n"
    by (auto simp: canSend_def n_def)
  moreover have "(0 :: uint32) < of_nat n" "of_nat n \<le> snd_mss c"
    using u True n by (simp_all add: word_less_nat_alt word_le_nat_alt n_def)
  moreover have "sentBytes cw c = n" using True by (simp add: sentBytes_def n_def)
  ultimately show ?thesis using True
    by (intro exI [of _ "[seg]"]) (simp add: emit_snd_nxt e_def)
next
  case False
  from sendWholeSegments_ok [of "c\<lparr>snd_nxt := snd_max c\<rparr>" n] c False sendable_queue [OF c(1) n]
  obtain segs where segs: "sendWholeSegments n (c\<lparr>snd_nxt := snd_max c\<rparr>) =
      Inr (c\<lparr>snd_nxt := e + (if finAt c e then 1 else 0), outs := outs c @ map (toPeer c) segs\<rparr>)"
    "segs \<noteq> []" "\<forall>seg \<in> set segs. payloadLength seg = snd_mss c" "chain (snd_max c) segs e"
    by (auto simp: canSend_def n_def e_def sentBytes_def)
  have "0 < snd_mss c" using c(2) by (simp add: word_gt_0)
  with segs False show ?thesis by auto
qed

text \<open>The outcome of \<^verbatim>\<open>sendData()\<close>.\<close>

lemma sendData_ok:
  assumes c: "canSend c" "snd_mss c \<noteq> 0"
  shows "if mustSend full cw c
    then \<exists>c' segs. sendData env full cw c = Inr (c', True) \<and> outs c' = outs c @ map (toPeer c) segs \<and>
      segs \<noteq> [] \<and> (\<forall>seg \<in> set segs. 0 < payloadLength seg \<and> payloadLength seg \<le> snd_mss c) \<and>
      chain (snd_max c) segs (snd_max c + of_nat (sentBytes cw c)) \<and>
      snd_max c' = snd_max c + of_nat (sentBytes cw c) +
        (if finAt c (snd_max c + of_nat (sentBytes cw c)) then 1 else 0) \<and>
      snd_nxt c' = snd_max c' \<and> rest c' = rest c \<and> (\<exists>u. rexmitTimer c' = TimerAt u)
    else sendData env full cw c = Inr (c\<lparr>snd_nxt := snd_max c\<rparr>, False)"
proof (cases "mustSend full cw c")
  case False
  then show ?thesis
    by (auto simp: mustSend_def sendable_def sendData_def Let_def)
next
  case True
  let ?n = "sendable cw c" and ?e = "snd_max c + of_nat (sentBytes cw c)"
  have n: "0 < ?n" using True by (simp add: mustSend_def)
  from sendData_segments_ok [OF c n] obtain segs where segs:
    "(if ?n \<le> unat (snd_mss c) then sendSegment (of_nat ?n) (c\<lparr>snd_nxt := snd_max c\<rparr>)
      else sendWholeSegments ?n (c\<lparr>snd_nxt := snd_max c\<rparr>)) =
     Inr (c\<lparr>snd_nxt := ?e + (if finAt c ?e then 1 else 0), outs := outs c @ map (toPeer c) segs\<rparr>)"
    "segs \<noteq> [] \<and> (\<forall>seg \<in> set segs. 0 < payloadLength seg \<and> payloadLength seg \<le> snd_mss c) \<and>
     chain (snd_max c) segs ?e"
    by blast
  define d where "d = c\<lparr>snd_nxt := ?e + (if finAt c ?e then 1 else 0), outs := outs c @ map (toPeer c) segs,
      snd_max := ?e + (if finAt c ?e then 1 else 0)\<rparr>"
  have "algTimersOk d" using c by (simp add: d_def canSend_def algTimersOk_def)
  from ackSent_ok [OF this] obtain t where t: "ackSent d = Inr (d\<lparr>delayedAckTimer := t\<rparr>)" by blast
  have "rexmitTimer (d\<lparr>delayedAckTimer := t\<rparr>) \<noteq> TimerNull"
    using c by (simp add: d_def canSend_def algTimersOk_def)
  from dataSent_ok [OF this, of env "snd_max c"] obtain c' where c':
    "dataSent env (snd_max c) (d\<lparr>delayedAckTimer := t\<rparr>) = Inr c'" "rest c' = rest d"
    "snd_nxt c' = snd_nxt d" "snd_max c' = snd_max d" "outs c' = outs d" "\<exists>u. rexmitTimer c' = TimerAt u"
    by auto
  have "sendData env full cw c = andThen (Inr (c\<lparr>snd_nxt := ?e + (if finAt c ?e then 1 else 0),
       outs := outs c @ map (toPeer c) segs\<rparr>)) (\<lambda>c1. let c1 = c1\<lparr>snd_max := snd_nxt c1\<rparr> in
          andThen (ackSent c1) (\<lambda>c1. andThen (dataSent env (snd_max c) c1) (\<lambda>c1. Inr (c1, True))))"
    unfolding segs(1) [symmetric] using True
    by (auto simp: sendData_def Let_def mustSend_def sendable_def)
  also have "\<dots> = Inr (c', True)" using t c'(1) by (simp add: Let_def d_def)
  finally have "sendData env full cw c = Inr (c', True)" .
  with True segs(2) c' show ?thesis by (auto simp: d_def)
qed


text \<open>A connection for the witnesses: 2500 bytes are queued, 1000 of them are outstanding.\<close>

definition exampleSender :: TCPConnection where
  "exampleSender = (newConnection 0 5)\<lparr>localAddr := IPv4 1, remoteAddr := IPv4 2, localPort := 80,
     remotePort := 7, fsm := TCP_S_ESTABLISHED, snd_mss := 1000, snd_una := 100, snd_nxt := 1100,
     snd_max := 1100, snd_wnd := 5000, snd_cwnd := 3000, rcv_nxt := 50, rcv_wnd := 16384,
     tcpAlgorithm := TCPReno, sendQueue := VirtualDataSendQueue \<lparr>vq_begin = 100, vq_end = 2600\<rparr>,
     rexmitTimer := TimerIdle, persistTimer := TimerIdle, delayedAckTimer := TimerIdle,
     keepAliveTimer := TimerIdle\<rparr>"

lemma exampleSender_canSend: "canSend exampleSender" "snd_mss exampleSender \<noteq> 0"
  by (simp_all add: exampleSender_def canSend_def addrsOk_def algTimersOk_def queueOff_def queueEnd_def
      off_def newConnection_def blankConnection_def VirtualSQ_getBufferEndSeq_def)

lemma exampleSender_sends: "mustSend False 3000 exampleSender" "sentBytes 3000 exampleSender = 1000"
  by code_simp+

text \<open>With a positive maximum segment size, \<^verbatim>\<open>sendData()\<close> always returns. It sends
  exactly if there is unsent data and room in the window, and not less than a full segment if only full
  segments are asked for; otherwise nothing changes but the sending position, which goes back to the
  highest number sent.\<close>

theorem sendData_returns:
  assumes "canSend c" "snd_mss c \<noteq> 0"
  shows "\<exists>c'. sendData env full cw c = Inr (c', mustSend full cw c) \<and>
    (\<not> mustSend full cw c \<longrightarrow> c' = c\<lparr>snd_nxt := snd_max c\<rparr>) \<and>
    (mustSend full cw c \<longrightarrow> (\<exists>u. rexmitTimer c' = TimerAt u))"
  using sendData_ok [OF assms, of full cw env] by (cases "mustSend full cw c") auto

lemma sendData_returns_witness:
  "\<exists>c'. sendData exampleEnv False 3000 exampleSender = Inr (c', True)"
  using sendData_returns [OF exampleSender_canSend, of exampleEnv False 3000] exampleSender_sends(1)
  by auto



text \<open>\<^verbatim>\<open>sendData()\<close> sends the new bytes in consecutive segments without gap or overlap, to
  the peer, each of them not empty and at most the maximum segment size long; a rest that does not
  fill a segment goes out only if it is all there is to send.\<close>

theorem sendData_segments:
  assumes "canSend c" "snd_mss c \<noteq> 0" "sendData env full cw c = Inr (c', True)"
  shows "\<exists>segs. outs c' = outs c @ map (toPeer c) segs \<and> segs \<noteq> [] \<and>
    (\<forall>seg \<in> set segs. 0 < payloadLength seg \<and> payloadLength seg \<le> snd_mss c) \<and>
    chain (snd_max c) segs (snd_max c + of_nat (sentBytes cw c))"
  using sendData_ok [OF assms(1,2), of full cw env] assms(3) by (auto split: if_splits)

lemma sendData_segments_witness:
  "\<exists>c' segs. sendData exampleEnv False 3000 exampleSender = Inr (c', True) \<and>
     chain 1100 segs (1100 + 1000)"
proof -
  obtain c' where c': "sendData exampleEnv False 3000 exampleSender = Inr (c', True)"
    using sendData_ok [OF exampleSender_canSend, of False 3000 exampleEnv] exampleSender_sends(1) by auto
  from sendData_segments [OF exampleSender_canSend c'] c' exampleSender_sends(2) show ?thesis
    by (auto simp: exampleSender_def newConnection_def)
qed


section \<open>Retransmission\<close>

text \<open>
  What can be outstanding: data up to the end of what is queued, and the FIN after it. The number
  after the last outstanding byte of data, and whether the FIN is outstanding too.
\<close>

definition dataEnd :: "TCPConnection \<Rightarrow> uint32" where
  "dataEnd c = (if snd_max c = queueEnd c + 1 then queueEnd c else snd_max c)"

definition canRetransmit :: "TCPConnection \<Rightarrow> bool" where
  "canRetransmit c \<longleftrightarrow> canSend c \<and> snd_mss c \<noteq> 0 \<and> snd_una c \<noteq> snd_max c \<and>
     queueOff c (snd_una c) \<le> queueOff c (dataEnd c) \<and>
     (snd_max c = queueEnd c + 1 \<longrightarrow> send_fin c)"

lemma queueOff_inj: "queueOff c x = queueOff c y \<longleftrightarrow> x = y"
  by (simp add: queueOff_def)

lemma queueOff_diff:
  "queueOff c x \<le> queueOff c y \<Longrightarrow> off x y = queueOff c y - queueOff c x"
  unfolding queueOff_def by (rule off_rebase)

lemma getBytesAvailable_queueOff:
  assumes "queueOff c (queueEnd c) < 2147483648" "queueOff c x \<le> queueOff c (queueEnd c)"
  shows "getBytesAvailable x (sendQueue c) = queueOff c (queueEnd c) - queueOff c x"
proof -
  have "seqLess x (queueEnd c) \<longleftrightarrow> queueOff c x < queueOff c (queueEnd c)"
    unfolding queueOff_def by (rule seq_half) (use assms in \<open>simp_all add: queueOff_def\<close>)
  moreover have "getBytesAvailable x (sendQueue c) =
      (if seqLess x (queueEnd c) then off x (queueEnd c) else 0)"
    by (simp add: getBytesAvailable_def Let_def queueEnd_def off_def)
  ultimately show ?thesis using queueOff_diff [OF assms(2)] by simp
qed

lemma retransmitLoop_ok:
  assumes "addrsOk c" "queueOff c (queueEnd c) < 2147483648" "snd_mss c \<noteq> 0"
    and "send_fin c \<longrightarrow> snd_fin_seq c = queueEnd c"
    and "queueOff c (snd_nxt c) \<le> queueOff c e" "queueOff c e \<le> queueOff c (queueEnd c)"
    and "n = queueOff c e - queueOff c (snd_nxt c) + f" "0 < n"
    and "f = 0 \<or> f = 1 \<and> e = queueEnd c \<and> send_fin c"
  shows "\<exists>segs. retransmitLoop n c = Inr (c\<lparr>snd_nxt := e + (if finAt c e then 1 else 0),
      outs := outs c @ map (toPeer c) segs\<rparr>) \<and> segs \<noteq> [] \<and>
    (\<forall>seg \<in> set segs. payloadLength seg \<le> snd_mss c) \<and> chain (snd_nxt c) segs e"
  using assms
proof (induction n arbitrary: c rule: less_induct)
  case (less n c)
  note p = less.prems
  let ?d = "queueOff c e - queueOff c (snd_nxt c)"
  define b where "b = min ?d (unat (snd_mss c))"
  have m: "0 < unat (snd_mss c)" using p(3) by (simp add: unat_gt_0)
  have avail: "getBytesAvailable (snd_nxt c) (sendQueue c) = queueOff c (queueEnd c) - queueOff c (snd_nxt c)"
    using p(2,5,6) by (intro getBytesAvailable_queueOff) auto
  have bytes: "min (min n (unat (snd_mss c))) (getBytesAvailable (snd_nxt c) (sendQueue c)) = b"
    using p(6,7,9) unfolding avail b_def by auto
  have ub: "unat (of_nat b :: uint32) = b"
    using unat32_lt [of "snd_mss c"] by (simp add: b_def unat_of_nat)
  let ?x = "snd_nxt c + of_nat b"
  have x: "queueOff c ?x = queueOff c (snd_nxt c) + b"
    using p(2,5,6) by (intro queueOff_add) (simp add: b_def)
  define d where "d seg = c\<lparr>snd_nxt := ?x + (if finAt c ?x then 1 else 0), outs := outs c @ [toPeer c seg]\<rparr>" for seg
  have "queueOff c (snd_nxt c) + unat (of_nat b :: uint32) \<le> queueOff c (queueEnd c)"
    unfolding ub using p(5,6) by (simp add: b_def)
  from sendSegment_ok [OF p(1,2) this] obtain seg where
    seg: "sendSegment (of_nat b) c = Inr (d seg)" "sequenceNo seg = snd_nxt c" "payloadLength seg = of_nat b"
    by (auto simp: d_def emit_snd_nxt)
  have len: "payloadLength seg \<le> snd_mss c" using ub by (simp add: seg(3) word_le_nat_alt b_def)
  have e1: "queueOff c (queueEnd c + 1) = queueOff c (queueEnd c) + 1"
    using queueOff_add [of c "queueEnd c" 1] p(2) by simp
  have loop: "retransmitLoop n c = (if send_fin c \<and> snd_nxt (d seg) = snd_fin_seq c + 1 then Inr (d seg)
     else if b = 0 then Inl (Diverges ''while (bytesToSend>0)'') else retransmitLoop (n - b) (d seg))"
    using p(8) seg(1) by (subst retransmitLoop.simps) (simp add: Let_def bytes d_def)
  have xe: "queueOff c ?x \<le> queueOff c e" using p(5) x by (simp add: b_def)
  show ?case
  proof (cases "finAt c ?x")
    case True
    then have "?x = queueEnd c" using p(4) by (auto simp: finAt_def)
    with xe p(6) have "?x = e" by (metis le_antisym queueOff_inj)
    with True seg(2,3) len show ?thesis
      unfolding loop by (intro exI [of _ "[seg]"]) (auto simp: d_def finAt_def)
  next
    case False
    have "?x \<noteq> queueEnd c + 1" using xe p(6) e1 by auto
    with False p(4) have nf: "\<not> (send_fin c \<and> snd_nxt (d seg) = snd_fin_seq c + 1)" by (auto simp: d_def)
    have b: "b \<noteq> 0"
    proof
      assume "b = 0"
      then have "?d = 0" using m by (auto simp: b_def)
      with p(5) have "?x = e" using x \<open>b = 0\<close> by (metis diff_is_0_eq le_antisym queueOff_inj add.right_neutral)
      with \<open>?d = 0\<close> p(4,7,8,9) False show False by (auto simp: finAt_def)
    qed
    show ?thesis
    proof (cases "n - b = 0")
      case True
      have "?d = b" "f = 0" using True p(7,9) b by (auto simp: b_def split: if_splits)
      then have "?x = e" using x p(5) by (metis le_add_diff_inverse queueOff_inj)
      with False have d: "d seg = c\<lparr>snd_nxt := e + (if finAt c e then 1 else 0), outs := outs c @ [toPeer c seg]\<rparr>"
        by (simp add: d_def)
      have "retransmitLoop (n - b) (d seg) = Inr (d seg)" using True by (simp add: retransmitLoop.simps)
      with b nf have "retransmitLoop n c = Inr (d seg)" unfolding loop by simp
      with d \<open>?x = e\<close> seg(2,3) len show ?thesis by (intro exI [of _ "[seg]"]) simp
    next
      case more: False
      have lt: "n - b < n" using b p(8) by simp
      have f: "snd_nxt (d seg) = ?x" "toPeer (d seg) = toPeer c" "outs (d seg) = outs c @ [toPeer c seg]"
        "queueOff (d seg) = queueOff c" "queueEnd (d seg) = queueEnd c" "addrsOk (d seg) = addrsOk c"
        "finAt (d seg) = finAt c" "snd_mss (d seg) = snd_mss c" "send_fin (d seg) = send_fin c"
        "snd_fin_seq (d seg) = snd_fin_seq c"
        using False by (simp_all add: d_def)
      have "n - b = queueOff c e - queueOff c ?x + f" using p(5,7) x by (simp add: b_def)
      then have "\<exists>segs. retransmitLoop (n - b) (d seg) = Inr ((d seg)\<lparr>snd_nxt := e + (if finAt (d seg) e then 1 else 0),
          outs := outs (d seg) @ map (toPeer (d seg)) segs\<rparr>) \<and> segs \<noteq> [] \<and>
        (\<forall>seg' \<in> set segs. payloadLength seg' \<le> snd_mss (d seg)) \<and> chain (snd_nxt (d seg)) segs e"
        by (intro less.IH [OF lt]) (use p xe more in \<open>simp_all add: f\<close>)
      then obtain segs where
        s: "retransmitLoop (n - b) (d seg) = Inr ((d seg)\<lparr>snd_nxt := e + (if finAt c e then 1 else 0),
          outs := (outs c @ [toPeer c seg]) @ map (toPeer c) segs\<rparr>)"
        "\<forall>seg \<in> set segs. payloadLength seg \<le> snd_mss c" "chain ?x segs e"
        unfolding f by blast
      have "retransmitLoop n c = retransmitLoop (n - b) (d seg)" unfolding loop using b nf by (simp only: if_False)
      moreover have "(d seg)\<lparr>snd_nxt := y, outs := xs\<rparr> = c\<lparr>snd_nxt := y, outs := xs\<rparr>" for y xs
        by (simp add: d_def)
      ultimately show ?thesis using s seg(2,3) len
        by (intro exI [of _ "seg # segs"]) (simp only: chain.simps, simp)
    qed
  qed
qed


lemma canRetransmit_end:
  assumes "canRetransmit c"
  shows "queueOff c (dataEnd c) \<le> queueOff c (queueEnd c)"
    "unat (snd_max c - snd_una c) = queueOff c (dataEnd c) - queueOff c (snd_una c) +
       (if snd_max c = queueEnd c + 1 then 1 else 0)"
proof -
  show le: "queueOff c (dataEnd c) \<le> queueOff c (queueEnd c)"
    using assms by (auto simp: canRetransmit_def canSend_def dataEnd_def)
  show "unat (snd_max c - snd_una c) = queueOff c (dataEnd c) - queueOff c (snd_una c) +
      (if snd_max c = queueEnd c + 1 then 1 else 0)"
  proof (cases "snd_max c = queueEnd c + 1")
    case True
    have "queueOff c (snd_max c) = queueOff c (queueEnd c) + 1"
      using queueOff_add [of c "queueEnd c" 1] assms True by (simp add: canRetransmit_def canSend_def)
    with True assms queueOff_diff [of c "snd_una c" "snd_max c"] show ?thesis
      by (auto simp: canRetransmit_def dataEnd_def off_def)
  next
    case False
    with assms queueOff_diff [of c "snd_una c" "snd_max c"] show ?thesis
      by (auto simp: canRetransmit_def dataEnd_def off_def)
  qed
qed


lemma exampleSender_canRetransmit: "canRetransmit exampleSender"
  using exampleSender_canSend
  by (simp add: canRetransmit_def dataEnd_def exampleSender_def queueOff_def queueEnd_def off_def
      newConnection_def blankConnection_def VirtualSQ_getBufferEndSeq_def)


lemma retransmitOneSegment_data:
  assumes "canRetransmit c" "snd_max c \<noteq> queueEnd c + 1"
  defines "b \<equiv> min (snd_mss c) (snd_max c - snd_una c)"
  shows "\<exists>seg t. retransmitOneSegment c = Inr (c\<lparr>snd_nxt := snd_una c + b +
        (if finAt c (snd_una c + b) then 1 else 0), outs := outs c @ [toPeer c seg], delayedAckTimer := t\<rparr>) \<and>
      sequenceNo seg = snd_una c \<and> payloadLength seg = b"
proof -
  let ?c = "c\<lparr>snd_nxt := snd_una c\<rparr>"
  have c: "addrsOk c" "queueOff c (queueEnd c) < 2147483648" "snd_mss c \<noteq> 0" "algTimersOk c"
    "queueOff c (snd_una c) \<le> queueOff c (dataEnd c)" "snd_una c \<noteq> snd_max c"
    using assms by (simp_all add: canRetransmit_def canSend_def)
  have "b \<noteq> 0" using c(3,6) by (auto simp: b_def min_def)
  then have one: "retransmitOneSegment c = andThen (sendSegment b ?c) ackSent"
    by (simp add: retransmitOneSegment_def Let_def b_def)
  have "unat b \<le> unat (snd_max c - snd_una c)" by (simp add: b_def word_le_nat_alt [symmetric])
  with canRetransmit_end [OF assms(1)] assms(2) c(5)
  have "queueOff ?c (snd_nxt ?c) + unat b \<le> queueOff ?c (queueEnd ?c)" by simp
  with sendSegment_ok [of ?c b] c(1,2) obtain seg where
    seg: "sendSegment b ?c = Inr (emit (toPeer c seg) (c\<lparr>snd_nxt := snd_una c + b +
      (if finAt c (snd_una c + b) then 1 else 0)\<rparr>))" "sequenceNo seg = snd_una c" "payloadLength seg = b"
    by auto
  let ?d = "c\<lparr>snd_nxt := snd_una c + b + (if finAt c (snd_una c + b) then 1 else 0),
      outs := outs c @ [toPeer c seg]\<rparr>"
  have "algTimersOk ?d" using c(4) by (simp add: algTimersOk_def)
  from ackSent_ok [OF this] obtain t where "ackSent ?d = Inr (?d\<lparr>delayedAckTimer := t\<rparr>)" by blast
  with seg show ?thesis unfolding one by (intro exI [of _ seg] exI [of _ t]) (simp add: emit_snd_nxt)
qed

lemma retransmitOneSegment_fin:
  assumes "canRetransmit c" "snd_max c = queueEnd c + 1" "off (snd_una c) (queueEnd c) < unat (snd_mss c)"
  shows "retransmitOneSegment c = Inl (AssertFailed ''seqLE(begin,fromSeq) && seqLE(fromSeq+numBytes,end)'')"
proof -
  let ?b = "min (snd_mss c) (snd_max c - snd_una c)"
  have c: "snd_mss c \<noteq> 0" "queueOff c (snd_una c) \<le> queueOff c (dataEnd c)" "snd_una c \<noteq> snd_max c"
    using assms(1) by (simp_all add: canRetransmit_def)
  then have "?b \<noteq> 0" by (auto simp: min_def)
  then have one: "retransmitOneSegment c = andThen (sendSegment ?b (c\<lparr>snd_nxt := snd_una c\<rparr>)) ackSent"
    by (simp add: retransmitOneSegment_def Let_def)
  have "unat (snd_max c - snd_una c) = off (snd_una c) (queueEnd c) + 1"
    using canRetransmit_end(2) [OF assms(1)] assms(2) queueOff_diff [OF c(2)] by (simp add: dataEnd_def)
  with assms(3) have "?b = snd_max c - snd_una c"
    by (auto simp: min_def word_le_nat_alt word_unat_eq_iff)
  then have "snd_una c + ?b = queueEnd c + 1" by (simp add: assms(2))
  moreover have "\<not> seqLE (queueEnd c + 1) (queueEnd c)" by (simp add: seqLE_def)
  ultimately show ?thesis unfolding one by (simp add: sendSegment_def sq.create_fails queueEnd_def)
qed

text \<open>\<^verbatim>\<open>retransmitOneSegment()\<close> counts an outstanding FIN as a byte of data. If only data is
  outstanding it sends one segment from the first unacknowledged number on; but if the FIN has been sent
  and less than a full segment is outstanding before it, it asks the send queue for a byte that does not
  exist, and the assertion of the queue fails.\<close>

theorem retransmitOneSegment_outcome:
  assumes "canRetransmit c"
  shows "(snd_max c \<noteq> queueEnd c + 1 \<longrightarrow> (\<exists>seg t. retransmitOneSegment c =
        Inr (c\<lparr>snd_nxt := snd_una c + min (snd_mss c) (snd_max c - snd_una c) +
            (if finAt c (snd_una c + min (snd_mss c) (snd_max c - snd_una c)) then 1 else 0),
          outs := outs c @ [toPeer c seg], delayedAckTimer := t\<rparr>) \<and>
        sequenceNo seg = snd_una c \<and> payloadLength seg = min (snd_mss c) (snd_max c - snd_una c))) \<and>
    (snd_max c = queueEnd c + 1 \<and> off (snd_una c) (queueEnd c) < unat (snd_mss c) \<longrightarrow>
      retransmitOneSegment c = Inl (AssertFailed ''seqLE(begin,fromSeq) && seqLE(fromSeq+numBytes,end)''))"
  using retransmitOneSegment_data [OF assms] retransmitOneSegment_fin [OF assms] by blast

definition exampleFinSender :: TCPConnection where
  "exampleFinSender = exampleSender\<lparr>snd_una := 2600, snd_nxt := 2601, snd_max := 2601, send_fin := True,
     snd_fin_seq := 2600, fsm := TCP_S_FIN_WAIT_1\<rparr>"

lemma retransmitOneSegment_outcome_witness:
  "retransmitOneSegment exampleFinSender =
     Inl (AssertFailed ''seqLE(begin,fromSeq) && seqLE(fromSeq+numBytes,end)'')"
proof -
  note d = exampleFinSender_def exampleSender_def queueOff_def queueEnd_def off_def newConnection_def
    blankConnection_def VirtualSQ_getBufferEndSeq_def
  have "canRetransmit exampleFinSender"
    by (simp add: canRetransmit_def canSend_def addrsOk_def algTimersOk_def dataEnd_def d)
  from retransmitOneSegment_outcome [OF this] show ?thesis by (auto simp: d)
qed

end
