(* ===== verification/TCP_FsmProps.thy ===== *)
theory TCP_FsmProps imports TCP_Fsm
begin

text \<open>
  Properties of the state machine: its edges are those of the diagram of RFC 793 with the
  aborting edges, a connection only moves forward, which events open and close it, and a
  connection that reaches CLOSED leaves no timer behind.
\<close>

section \<open>The edges\<close>

text \<open>
  The edges of the diagram, with the ways back from SYN-RECEIVED to LISTEN for a passive open,
  and the edges with which every state can be left for CLOSED.
\<close>

definition rfc793Edges :: "bool \<Rightarrow> (TcpState \<times> TcpState) list" where
  "rfc793Edges act =
     [(TCP_S_INIT, TCP_S_LISTEN), (TCP_S_INIT, TCP_S_SYN_SENT), (TCP_S_LISTEN, TCP_S_SYN_SENT),
      (TCP_S_LISTEN, TCP_S_SYN_RCVD), (TCP_S_SYN_SENT, TCP_S_SYN_RCVD),
      (TCP_S_SYN_SENT, TCP_S_ESTABLISHED), (TCP_S_SYN_RCVD, TCP_S_ESTABLISHED),
      (TCP_S_SYN_RCVD, TCP_S_FIN_WAIT_1), (TCP_S_SYN_RCVD, TCP_S_CLOSE_WAIT),
      (TCP_S_ESTABLISHED, TCP_S_FIN_WAIT_1), (TCP_S_ESTABLISHED, TCP_S_CLOSE_WAIT),
      (TCP_S_CLOSE_WAIT, TCP_S_LAST_ACK), (TCP_S_FIN_WAIT_1, TCP_S_FIN_WAIT_2),
      (TCP_S_FIN_WAIT_1, TCP_S_CLOSING), (TCP_S_FIN_WAIT_1, TCP_S_TIME_WAIT),
      (TCP_S_FIN_WAIT_2, TCP_S_TIME_WAIT), (TCP_S_CLOSING, TCP_S_TIME_WAIT)] @
     (if act then [] else [(TCP_S_SYN_RCVD, TCP_S_LISTEN)]) @
     map (\<lambda>s. (s, TCP_S_CLOSED))
       [TCP_S_LISTEN, TCP_S_SYN_SENT, TCP_S_SYN_RCVD, TCP_S_ESTABLISHED, TCP_S_CLOSE_WAIT,
        TCP_S_LAST_ACK, TCP_S_FIN_WAIT_1, TCP_S_FIN_WAIT_2, TCP_S_CLOSING, TCP_S_TIME_WAIT]"

text \<open>For every edge, an event that takes it.\<close>

definition edgeEvent :: "TcpState \<Rightarrow> TcpState \<Rightarrow> TCPEventCode" where
  "edgeEvent s t = (case t of
     TCP_S_LISTEN \<Rightarrow> if s = TCP_S_INIT then TCP_E_OPEN_PASSIVE else TCP_E_RCV_RST
   | TCP_S_SYN_SENT \<Rightarrow> TCP_E_OPEN_ACTIVE
   | TCP_S_SYN_RCVD \<Rightarrow> TCP_E_RCV_SYN
   | TCP_S_ESTABLISHED \<Rightarrow> if s = TCP_S_SYN_SENT then TCP_E_RCV_SYN_ACK else TCP_E_RCV_ACK
   | TCP_S_FIN_WAIT_1 \<Rightarrow> TCP_E_CLOSE
   | TCP_S_CLOSE_WAIT \<Rightarrow> TCP_E_RCV_FIN
   | TCP_S_LAST_ACK \<Rightarrow> TCP_E_CLOSE
   | TCP_S_FIN_WAIT_2 \<Rightarrow> TCP_E_RCV_ACK
   | TCP_S_CLOSING \<Rightarrow> TCP_E_RCV_FIN
   | TCP_S_TIME_WAIT \<Rightarrow> if s = TCP_S_FIN_WAIT_1 then TCP_E_RCV_FIN_ACK
                         else if s = TCP_S_FIN_WAIT_2 then TCP_E_RCV_FIN else TCP_E_RCV_ACK
   | _ \<Rightarrow> TCP_E_ABORT)"

lemma fsm_goto_edge: "fsm_goto act s e \<noteq> s \<Longrightarrow> (s, fsm_goto act s e) \<in> set (rfc793Edges act)"
  by (cases s; cases e; cases act) (simp_all add: fsm_goto_def rfc793Edges_def)

lemma edge_fsm_goto:
  "(s, t) \<in> set (rfc793Edges act) \<Longrightarrow> fsm_goto act s (edgeEvent s t) = t \<and> s \<noteq> t"
  by (cases act) (auto simp: fsm_goto_def rfc793Edges_def edgeEvent_def)

text \<open>The transition table has exactly the edges of the state diagram of RFC 793, completed by an
  abort edge to CLOSED from every state but INIT, and by the edge from SYN-RECEIVED back to LISTEN
  exactly for connections that were opened passively.\<close>

theorem fsm_edges_exact: "fsm_step act s t \<longleftrightarrow> (s, t) \<in> set (rfc793Edges act)"
proof
  show "fsm_step act s t \<Longrightarrow> (s, t) \<in> set (rfc793Edges act)"
    by (auto simp: fsm_step_simps intro: fsm_goto_edge)
  show "(s, t) \<in> set (rfc793Edges act) \<Longrightarrow> fsm_step act s t"
    using edge_fsm_goto [of s t act] by (auto simp: fsm_step_simps intro!: exI [of _ "edgeEvent s t"])
qed

section \<open>The life of a connection\<close>

text \<open>Steps of one connection; whether it counts as active may change on the way.\<close>

definition fsm_steps :: "TcpState \<Rightarrow> TcpState \<Rightarrow> bool" where
  "fsm_steps = (\<lambda>s t. \<exists>act. fsm_step act s t)\<^sup>*\<^sup>*"

lemma fsm_step_phase: "fsm_step act s t \<Longrightarrow> phase s \<le> phase t \<and> (2 \<le> phase s \<longrightarrow> phase s < phase t)"
  using fsm_goto_phase fsm_goto_phase_strict by (auto simp: fsm_step_simps)

text \<open>C8: A connection only moves forward through opening, data transfer and the two directions of
  closing: it never falls back to an earlier phase, once it is established it never visits a state
  twice, and it never leaves CLOSED.\<close>

theorem fsm_only_forward:
  assumes "fsm_steps s t"
  shows "phase s \<le> phase t \<and> (2 \<le> phase s \<and> s \<noteq> t \<longrightarrow> phase s < phase t) \<and>
    (s = TCP_S_CLOSED \<longrightarrow> t = TCP_S_CLOSED)"
proof -
  have step: "phase s \<le> phase t \<and> (2 \<le> phase s \<and> s \<noteq> t \<longrightarrow> phase s < phase t)"
    using assms unfolding fsm_steps_def
  proof (induction rule: rtranclp_induct)
    case (step t u)
    then obtain act where "fsm_step act t u" by blast
    from fsm_step_phase [OF this] step.IH show ?case by fastforce
  qed simp
  moreover have "phase t \<le> 6" by (cases t) simp_all
  ultimately show ?thesis by (cases "s = TCP_S_CLOSED") auto
qed

lemma fsm_only_forward_witness: "phase TCP_S_INIT \<le> phase TCP_S_SYN_RCVD"
proof -
  have "fsm_step False TCP_S_INIT TCP_S_LISTEN" "fsm_step False TCP_S_LISTEN TCP_S_SYN_RCVD"
    by (auto simp: fsm_step_simps fsm_goto_def
        intro: exI [of _ TCP_E_OPEN_PASSIVE] exI [of _ TCP_E_RCV_SYN])
  then have "fsm_steps TCP_S_INIT TCP_S_SYN_RCVD"
    unfolding fsm_steps_def by (blast intro: rtranclp.intros)
  from fsm_only_forward [OF this] show ?thesis by blast
qed

section \<open>Transitions of a connection\<close>

lemma stateEntered_fsm: "stateEntered s c = Inr c' \<Longrightarrow> fsm c' = fsm c \<and> outs c' = outs c"
  by (drule stateEntered_frame) auto

lemma performStateTransition_Inr:
  assumes "performStateTransition event c = Inr (c', alive)"
  shows "fsm c \<noteq> TCP_S_CLOSED" "outs c' = outs c" "alive \<longleftrightarrow> fsm c' \<noteq> TCP_S_CLOSED"
    "fsm c' = (if event = TCP_E_IGNORE then fsm c else fsm_goto (active c) (fsm c) event)"
    "fsm c' \<noteq> fsm c \<Longrightarrow> stateEntered (fsm c') (c\<lparr>fsm := fsm c'\<rparr>) = Inr c'"
proof -
  let ?s = "fsm_goto (active c) (fsm c) event"
  have *: "fsm c \<noteq> TCP_S_CLOSED" "event = TCP_E_IGNORE \<and> c' = c \<and> alive \<or>
      event \<noteq> TCP_E_IGNORE \<and> alive = (fsm c' \<noteq> TCP_S_CLOSED) \<and>
      (if fsm c \<noteq> ?s then stateEntered ?s (c\<lparr>fsm := ?s\<rparr>) else Inr (c\<lparr>fsm := ?s\<rparr>)) = Inr c'"
    using assms by (auto simp: performStateTransition_def Let_def res_simps split: if_splits)
  then show "fsm c \<noteq> TCP_S_CLOSED" by blast
  consider "event = TCP_E_IGNORE" "c' = c" "alive"
    | "event \<noteq> TCP_E_IGNORE" "alive = (fsm c' \<noteq> TCP_S_CLOSED)" "fsm c = ?s" "c' = c\<lparr>fsm := ?s\<rparr>"
    | "event \<noteq> TCP_E_IGNORE" "alive = (fsm c' \<noteq> TCP_S_CLOSED)" "fsm c \<noteq> ?s"
      "stateEntered ?s (c\<lparr>fsm := ?s\<rparr>) = Inr c'"
    using *(2) by (auto split: if_splits)
  then have "outs c' = outs c \<and> (alive \<longleftrightarrow> fsm c' \<noteq> TCP_S_CLOSED) \<and>
      fsm c' = (if event = TCP_E_IGNORE then fsm c else ?s) \<and>
      (fsm c' \<noteq> fsm c \<longrightarrow> stateEntered (fsm c') (c\<lparr>fsm := fsm c'\<rparr>) = Inr c')"
  proof cases
    case 3
    with stateEntered_fsm [OF 3(4)] show ?thesis by simp
  qed (use *(1) in auto)
  then show "outs c' = outs c" "alive \<longleftrightarrow> fsm c' \<noteq> TCP_S_CLOSED"
    "fsm c' = (if event = TCP_E_IGNORE then fsm c else ?s)"
    "fsm c' \<noteq> fsm c \<Longrightarrow> stateEntered (fsm c') (c\<lparr>fsm := fsm c'\<rparr>) = Inr c'"
    by blast+
qed

text \<open>A connection becomes established only by the acknowledgement of its SYN, in SYN-RECEIVED, or
  by a SYN that acknowledges its own, in SYN-SENT; the timers of the connection attempt are gone
  then. It enters TIME-WAIT only from one of the states in which its own FIN has been sent.\<close>

theorem transition_entry:
  assumes "performStateTransition event c = Inr (c', alive)" and "fsm c' \<noteq> fsm c"
  shows "(fsm c' = TCP_S_ESTABLISHED \<longrightarrow>
       (fsm c = TCP_S_SYN_RCVD \<and> event = TCP_E_RCV_ACK \<or> fsm c = TCP_S_SYN_SENT \<and> event = TCP_E_RCV_SYN_ACK) \<and>
       connEstabTimer c' = TimerNull \<and> synRexmitTimer c' = TimerNull) \<and>
    (fsm c' = TCP_S_TIME_WAIT \<longrightarrow>
       fsm c = TCP_S_FIN_WAIT_1 \<and> event = TCP_E_RCV_FIN_ACK \<or>
       fsm c = TCP_S_FIN_WAIT_2 \<and> event = TCP_E_RCV_FIN \<or> fsm c = TCP_S_CLOSING \<and> event = TCP_E_RCV_ACK)"
proof -
  note p = performStateTransition_Inr [OF assms(1)]
  have goto: "fsm c' = fsm_goto (active c) (fsm c) event" using p(4) assms(2) by (auto split: if_splits)
  have entered: "stateEntered (fsm c') (c\<lparr>fsm := fsm c'\<rparr>) = Inr c'" by (rule p(5) [OF assms(2)])
  have "connEstabTimer c' = TimerNull \<and> synRexmitTimer c' = TimerNull" if "fsm c' = TCP_S_ESTABLISHED"
  proof -
    from entered that obtain a b where "Inr (c\<lparr>fsm := TCP_S_ESTABLISHED, connEstabTimer := TimerNull,
        synRexmitTimer := TimerNull\<rparr>) = (Inr c' :: TCPConnection res)"
      by (auto simp: stateEntered_def res_simps)
    then show ?thesis by auto
  qed
  with goto assms(2) fsm_goto_established [of "active c" "fsm c" event]
    fsm_goto_time_wait [of "active c" "fsm c" event]
  show ?thesis by auto
qed

lemma transition_entry_witness:
  "\<exists>c'. performStateTransition TCP_E_RCV_ACK ((newConnection 0 5)\<lparr>fsm := TCP_S_SYN_RCVD\<rparr>) = Inr (c', True) \<and>
     connEstabTimer c' = TimerNull"
proof -
  let ?c = "(newConnection 0 5)\<lparr>fsm := TCP_S_SYN_RCVD\<rparr>"
  have "performStateTransition TCP_E_RCV_ACK ?c = Inr (?c\<lparr>fsm := TCP_S_ESTABLISHED,
      connEstabTimer := TimerNull, synRexmitTimer := TimerNull\<rparr>, True)"
    by code_simp
  from transition_entry [OF this] this show ?thesis by auto
qed

lemma cancelIfAny_idle: "cancelIfAny t \<noteq> TimerAt u" "TimerAt u \<noteq> cancelIfAny t"
  by (auto simp: cancelIfAny_eq)

text \<open>C9: The module is told to delete a connection exactly when it has reached CLOSED. Then nothing
  more is sent, and no timer of the connection or of its algorithm is still scheduled (the timers
  that \<^verbatim>\<open>DumbTCP\<close> does not have are null pointers).\<close>

theorem closed_leaves_no_timer:
  assumes "performStateTransition event c = Inr (c', alive)"
    and "tcpAlgorithm c = DumbTCP \<Longrightarrow> persistTimer c = TimerNull \<and> delayedAckTimer c = TimerNull \<and>
      keepAliveTimer c = TimerNull"
  shows "(alive \<longleftrightarrow> fsm c' \<noteq> TCP_S_CLOSED) \<and> outs c' = outs c \<and>
    (\<not> alive \<longrightarrow> (\<forall>u. TimerAt u \<notin> set [the2MSLTimer c', connEstabTimer c', finWait2Timer c',
       synRexmitTimer c', rexmitTimer c', persistTimer c', delayedAckTimer c', keepAliveTimer c']))"
proof -
  note p = performStateTransition_Inr [OF assms(1)]
  have "TimerAt u \<notin> set [the2MSLTimer c', connEstabTimer c', finWait2Timer c', synRexmitTimer c',
      rexmitTimer c', persistTimer c', delayedAckTimer c', keepAliveTimer c']" if "\<not> alive" for u
  proof -
    have "fsm c' = TCP_S_CLOSED" using that p(3) by simp
    with p(1,5) have "stateEntered TCP_S_CLOSED (c\<lparr>fsm := TCP_S_CLOSED\<rparr>) = Inr c'" by simp
    with assms(2) show ?thesis
      by (auto simp: stateEntered_defs res_simps cancelTimer_Inr cancelIfAny_idle split: TCPAlgorithm.splits)
  qed
  with p(2,3) show ?thesis by blast
qed

lemma closed_leaves_no_timer_witness:
  "\<exists>c'. performStateTransition TCP_E_ABORT ((newConnection 0 5)\<lparr>fsm := TCP_S_LISTEN,
      rexmitTimer := TimerAt 3\<rparr>) = Inr (c', False) \<and> (\<forall>u. rexmitTimer c' \<noteq> TimerAt u)"
proof -
  let ?c = "(newConnection 0 5)\<lparr>fsm := TCP_S_LISTEN, rexmitTimer := TimerAt 3\<rparr>"
  have "performStateTransition TCP_E_ABORT ?c = Inr (?c\<lparr>fsm := TCP_S_CLOSED, rexmitTimer := TimerIdle\<rparr>, False)"
    by code_simp
  from this closed_leaves_no_timer [OF this] show ?thesis
    by (force simp: newConnection_def blankConnection_def)
qed

end
