(* ===== verification/TCP_InputProps.thy ===== *)
theory TCP_InputProps imports TCP_SendProps TCP_FsmProps
begin

text \<open>
  Properties of segment arrival and of the commands: what is ignored, what resets a connection, how
  acknowledgements move the send window, that text is passed up exactly once and in order, what
  happens to a FIN that arrives early, and when CLOSE sends its own FIN.
\<close>

section \<open>A segment and the transition it causes\<close>

definition segmentStep :: "TCPEnv \<Rightarrow> TCPSegment \<Rightarrow> TCPConnection \<Rightarrow> (TCPConnection \<times> bool) res" where
  "segmentStep env seg c =
     andThen (processSegment1stThru8th env seg c) (\<lambda>(c, event). performStateTransition event c)"

lemma performStateTransition_IGNORE:
  "fsm c \<noteq> TCP_S_CLOSED \<Longrightarrow> performStateTransition TCP_E_IGNORE c = Inr (c, True)"
  by (simp add: performStateTransition_def)

lemma sendAck_ok:
  assumes "addrsOk c" "algTimersOk c"
  shows "\<exists>ack t. sendAck c = Inr (c\<lparr>outs := outs c @ [toPeer c ack], delayedAckTimer := t\<rparr>) \<and>
    ackBit ack \<and> \<not> synBit ack \<and> \<not> finBit ack \<and> \<not> rstBit ack \<and> sequenceNo ack = snd_nxt c \<and>
    ackNo ack = rcv_nxt c \<and> payloadLength ack = 0"
proof -
  let ?s = "createTCPSegment\<lparr>ackBit := True, sequenceNo := snd_nxt c, ackNo := rcv_nxt c,
      window := ucast (rcv_wnd c)\<rparr>"
  obtain ack where ack: "sendToIP ?s c = Inr (emit (toPeer c ack) c)"
    "ack = ?s\<lparr>srcPort := toShort (localPort c), destPort := toShort (remotePort c),
       segByteLength := 20 + sint (payloadLength ?s)\<rparr>"
    using sendToIP_ok [OF assms(1)] by blast
  have "algTimersOk (emit (toPeer c ack) c)" using assms(2) by (simp add: algTimersOk_def emit_def)
  from ackSent_ok [OF this] obtain t where
    "ackSent (emit (toPeer c ack) c) = Inr ((emit (toPeer c ack) c)\<lparr>delayedAckTimer := t\<rparr>)" by blast
  with ack show ?thesis
    by (intro exI [of _ ack] exI [of _ t]) (simp add: sendAck_def emit_def createTCPSegment_def)
qed

section \<open>Segments that are ignored\<close>

text \<open>In the synchronised states a segment outside the receive window has no effect but one
  acknowledgement of what was received so far (none for a RST), in TIME-WAIT too, so that a
  retransmitted FIN does not restart the 2MSL timer; and an acceptable segment without RST, SYN
  and ACK is dropped silently.\<close>

theorem unacceptable_segment_only_acked:
  assumes "addrsOk c" "algTimersOk c" "fsm c \<noteq> TCP_S_CLOSED"
  shows "(\<not> isSegmentAcceptable seg c \<and> rstBit seg \<longrightarrow> segmentStep env seg c = Inr (c, True)) \<and>
    (\<not> isSegmentAcceptable seg c \<and> \<not> rstBit seg \<longrightarrow> (\<exists>ack t. segmentStep env seg c =
       Inr (c\<lparr>outs := outs c @ [toPeer c ack], delayedAckTimer := t\<rparr>, True) \<and> ackBit ack \<and>
       \<not> rstBit ack \<and> sequenceNo ack = snd_nxt c \<and> ackNo ack = rcv_nxt c \<and> payloadLength ack = 0)) \<and>
    (isSegmentAcceptable seg c \<and> \<not> rstBit seg \<and> \<not> synBit seg \<and> \<not> ackBit seg \<longrightarrow>
       segmentStep env seg c = Inr (c, True))"
proof -
  obtain ack t where ack: "sendAck c = Inr (c\<lparr>outs := outs c @ [toPeer c ack], delayedAckTimer := t\<rparr>)"
    "ackBit ack" "\<not> rstBit ack" "sequenceNo ack = snd_nxt c" "ackNo ack = rcv_nxt c" "payloadLength ack = 0"
    using sendAck_ok [OF assms(1,2)] by blast
  note ign = performStateTransition_IGNORE
  have "segmentStep env seg c = Inr (c\<lparr>outs := outs c @ [toPeer c ack], delayedAckTimer := t\<rparr>, True)"
    if "\<not> isSegmentAcceptable seg c" "\<not> rstBit seg"
    using that assms(3) ign [of "c\<lparr>outs := outs c @ [toPeer c ack], delayedAckTimer := t\<rparr>"]
    by (simp add: segmentStep_def processSegment1stThru8th_def ack(1))
  with ack(2-6) ign [OF assms(3)] show ?thesis
    by (auto simp: segmentStep_def processSegment1stThru8th_def)
qed

lemma exampleSender_ok: "addrsOk exampleSender" "algTimersOk exampleSender" "fsm exampleSender = TCP_S_ESTABLISHED"
  using exampleSender_canSend by (simp_all add: canSend_def) (simp add: exampleSender_def)

lemma unacceptable_segment_only_acked_witness:
  "\<exists>c' ack. segmentStep exampleEnv (createTCPSegment\<lparr>sequenceNo := 40, ackBit := True\<rparr>) exampleSender =
     Inr (c', True) \<and> outs c' = [toPeer exampleSender ack] \<and> ackNo ack = 50"
proof -
  have "\<not> isSegmentAcceptable (createTCPSegment\<lparr>sequenceNo := 40, ackBit := True\<rparr>) exampleSender"
    by code_simp
  with unacceptable_segment_only_acked [of exampleSender "createTCPSegment\<lparr>sequenceNo := 40, ackBit := True\<rparr>"
      exampleEnv] exampleSender_ok
  show ?thesis by (auto simp: createTCPSegment_def exampleSender_def newConnection_def blankConnection_def)
qed

section \<open>Segments that reset the connection\<close>

definition allTimersOk :: "TCPConnection \<Rightarrow> bool" where
  "allTimersOk c \<longleftrightarrow> rexmitTimer c \<noteq> TimerNull \<and> (tcpAlgorithm c \<noteq> DumbTCP \<longrightarrow>
     delayedAckTimer c \<noteq> TimerNull \<and> persistTimer c \<noteq> TimerNull \<and> keepAliveTimer c \<noteq> TimerNull)"

lemma enter_CLOSED:
  assumes "allTimersOk c" "fsm c \<noteq> TCP_S_CLOSED" "e \<noteq> TCP_E_IGNORE"
    "fsm_goto (active c) (fsm c) e = TCP_S_CLOSED"
  shows "\<exists>c'. performStateTransition e c = Inr (c', False) \<and> fsm c' = TCP_S_CLOSED \<and> outs c' = outs c"
proof -
  have "\<exists>c'. stateEntered TCP_S_CLOSED (c\<lparr>fsm := TCP_S_CLOSED\<rparr>) = Inr c'"
    using assms(1)
    by (cases "tcpAlgorithm c"; cases "rexmitTimer c"; cases "persistTimer c"; cases "delayedAckTimer c";
        cases "keepAliveTimer c") (simp_all add: stateEntered_defs allTimersOk_def)
  then obtain c' where c': "stateEntered TCP_S_CLOSED (c\<lparr>fsm := TCP_S_CLOSED\<rparr>) = Inr c'" by blast
  from stateEntered_fsm [OF c'] c' assms(2-4) show ?thesis
    by (auto simp: performStateTransition_def Let_def)
qed

text \<open>What the application is told when the peer resets the connection in a state.\<close>

definition resetIndications :: "TCPConnection \<Rightarrow> TCPOutput list" where
  "resetIndications c =
     (if fsm c = TCP_S_TIME_WAIT then []
      else [ToApp (appGateIndex c) (Indication
        (if fsm c = TCP_S_CLOSING \<or> fsm c = TCP_S_LAST_ACK then TCP_I_CLOSED else TCP_I_CONNECTION_RESET)
        (connId c))])"

text \<open>A RST inside the window closes the connection in every synchronised state from ESTABLISHED on,
  and the application is told once, as RFC 793 asks: reset, or closed where it has already closed,
  or nothing in TIME-WAIT. A SYN inside the window always closes it too and always signals a reset;
  the code sends no RST for it, although the comment above it quotes RFC 793 as asking for one.\<close>

theorem reset_closes_connection:
  assumes "isSegmentAcceptable seg c" "allTimersOk c"
    and "fsm c \<in> {TCP_S_ESTABLISHED, TCP_S_FIN_WAIT_1, TCP_S_FIN_WAIT_2, TCP_S_CLOSE_WAIT, TCP_S_CLOSING,
      TCP_S_LAST_ACK, TCP_S_TIME_WAIT}"
  shows "(rstBit seg \<longrightarrow> (\<exists>c'. segmentStep env seg c = Inr (c', False) \<and> fsm c' = TCP_S_CLOSED \<and>
      outs c' = outs c @ resetIndications c)) \<and>
    (\<not> rstBit seg \<and> synBit seg \<longrightarrow> (\<exists>c'. segmentStep env seg c = Inr (c', False) \<and> fsm c' = TCP_S_CLOSED \<and>
      outs c' = outs c @ [ToApp (appGateIndex c) (Indication TCP_I_CONNECTION_RESET (connId c))]))"
proof -
  have t: "allTimersOk (c\<lparr>outs := x\<rparr>)" for x using assms(2) by (simp add: allTimersOk_def)
  have closed: "\<exists>c'. performStateTransition e (c\<lparr>outs := x\<rparr>) = Inr (c', False) \<and> fsm c' = TCP_S_CLOSED \<and>
      outs c' = x" if "e = TCP_E_RCV_RST \<or> e = TCP_E_RCV_UNEXP_SYN" for e x
    using enter_CLOSED [OF t [of x], of e] that assms(3) by (auto simp: fsm_goto_def)
  have "checkRstBit seg c = Inr (c\<lparr>outs := outs c @ resetIndications c\<rparr>, TCP_E_RCV_RST)"
    using assms(3) by (auto simp: checkRstBit_def resetIndications_def emit_def)
  with closed assms(1) show ?thesis
    by (auto simp: segmentStep_def processSegment1stThru8th_def emit_def)
qed

lemma reset_closes_connection_witness:
  "\<exists>c'. segmentStep exampleEnv (createTCPSegment\<lparr>sequenceNo := 50, rstBit := True\<rparr>) exampleSender =
     Inr (c', False) \<and> outs c' = [ToApp 0 (Indication TCP_I_CONNECTION_RESET 5)]"
proof -
  have "isSegmentAcceptable (createTCPSegment\<lparr>sequenceNo := 50, rstBit := True\<rparr>) exampleSender"
    by code_simp
  with reset_closes_connection [of "createTCPSegment\<lparr>sequenceNo := 50, rstBit := True\<rparr>" exampleSender exampleEnv]
  show ?thesis
    by (auto simp: exampleSender_def newConnection_def blankConnection_def createTCPSegment_def
        allTimersOk_def resetIndications_def)
qed


section \<open>Acknowledgements\<close>

lemma dataSent_position:
  assumes "dataSent env s c = Inr c'"
  shows "snd_nxt c' = snd_nxt c \<and> snd_max c' = snd_max c"
proof -
  have "rexmitTimer c \<noteq> TimerNull"
    using assms by (cases "rexmitTimer c"; cases "tcpAlgorithm c")
      (simp_all add: dataSent_def DumbTCP_dataSent_def TCPBaseAlg_dataSent_def)
  from dataSent_ok [OF this, of env s] assms show ?thesis by auto
qed

lemma ackSent_position: "ackSent c = Inr c' \<Longrightarrow> snd_nxt c' = snd_nxt c \<and> snd_max c' = snd_max c"
  by (auto simp: ackSent_def DumbTCP_ackSent_def TCPBaseAlg_ackSent_def res_simps
      split: TCPAlgorithm.splits if_splits)

text \<open>After an attempt to send, the sending position is the highest number sent.\<close>

lemma sendData_position: "sendData env f w c = Inr (c', b) \<Longrightarrow> snd_nxt c' = snd_max c'"
  by (auto simp: sendData_def Let_def res_simps split: if_splits
      dest!: dataSent_position ackSent_position)

lemma alg_receivedDataAck_position: "alg_receivedDataAck env s c = Inr c' \<Longrightarrow> snd_nxt c' = snd_max c'"
  by (auto simp: alg_receivedDataAck_def DumbTCP_receivedDataAck_def
      TCPNoCongestionControl_receivedDataAck_def TCPTahoe_receivedDataAck_def TCPReno_receivedDataAck_def
      TCPBaseAlg_sendData_def Let_def res_simps split: TCPAlgorithm.splits dest!: sendData_position)

text \<open>Whether an acknowledgement covers our FIN, and whether a segment may update the send window.\<close>

definition acksFin :: "TCPSegment \<Rightarrow> TCPConnection \<Rightarrow> bool" where
  "acksFin seg c \<longleftrightarrow> send_fin c \<and> ackNo seg = snd_fin_seq c + 1"

definition newerWindow :: "TCPSegment \<Rightarrow> TCPConnection \<Rightarrow> bool" where
  "newerWindow seg c \<longleftrightarrow> seqLess (snd_wl1 c) (sequenceNo seg) \<or>
     snd_wl1 c = sequenceNo seg \<and> seqLE (snd_wl2 c) (ackNo seg)"

text \<open>C14: An acknowledgement of new data moves the first unacknowledged number to it, drops exactly the
  acknowledged data from the send queue (the number of a FIN is not data), notes that the FIN was
  acknowledged, takes over the advertised window only from a segment that is not older than the
  one the window came from, and ends with the sending position at the highest number sent, in every
  algorithm class. An acknowledgement at or below the first unacknowledged number leaves the send
  queue and these numbers alone.\<close>

theorem ack_moves_send_window:
  assumes "processAckInEstabEtc env seg c = Inr (c', ok)"
  shows "(\<not> seqGE (snd_una c) (ackNo seg) \<and> seqLE (ackNo seg) (snd_max c) \<longrightarrow> ok \<and>
      snd_una c' = ackNo seg \<and> snd_nxt c' = snd_max c' \<and> dupacks c' = 0 \<and>
      sq_begin (sendQueue c') = ackNo seg - (if acksFin seg c then 1 else 0) \<and>
      queueEnd c' = queueEnd c \<and> fin_ack_rcvd c' = (fin_ack_rcvd c \<or> acksFin seg c) \<and>
      snd_wnd c' = (if newerWindow seg c then ucast (window seg) else snd_wnd c)) \<and>
    (seqGE (snd_una c) (ackNo seg) \<longrightarrow> ok \<and> snd_una c' = snd_una c \<and> sendQueue c' = sendQueue c \<and>
      snd_wnd c' = snd_wnd c \<and> fin_ack_rcvd c' = fin_ack_rcvd c)"
proof (intro conjI impI)
  assume new: "\<not> seqGE (snd_una c) (ackNo seg) \<and> seqLE (ackNo seg) (snd_max c)"
  define d where "d = (let c1 = c\<lparr>snd_una := ackNo seg\<rparr>;
      c1 = (if seqLess (snd_nxt c1) (snd_una c1) then c1\<lparr>snd_nxt := snd_una c1\<rparr> else c1)
    in if acksFin seg c then c1\<lparr>fin_ack_rcvd := True\<rparr> else c1)"
  have d: "snd_una d = ackNo seg" "fin_ack_rcvd d = (fin_ack_rcvd c \<or> acksFin seg c)"
    "sendQueue d = sendQueue c" "newerWindow seg d = newerWindow seg c" "snd_wnd d = snd_wnd c"
    by (auto simp: d_def Let_def newerWindow_def)
  let ?u = "ackNo seg - (if acksFin seg c then 1 else 0)"
  from assms new have "ok" "ackInWindow env seg c = Inr c'"
    by (auto simp: processAckInEstabEtc_def res_simps split: if_splits)
  then obtain q c1 where q: "sq_discardUpTo ?u (sendQueue c) = Inr q"
    and c1: "alg_receivedDataAck env (snd_una c) (updateSendWindow seg (d\<lparr>sendQueue := q\<rparr>)) = Inr c1"
    and c': "c' = c1\<lparr>dupacks := 0\<rparr>"
    by (auto simp: ackInWindow_def Let_def res_simps d_def acksFin_def split: if_splits)
  note r = restD [OF rest_alg_receivedDataAck [OF c1]]
  have w: "snd_una c1 = ackNo seg" "sendQueue c1 = q" "fin_ack_rcvd c1 = (fin_ack_rcvd c \<or> acksFin seg c)"
    "snd_wnd c1 = (if newerWindow seg c then ucast (window seg) else snd_wnd c)"
    using r d by (auto simp: updateSendWindow_def newerWindow_def)
  show "ok" by fact
  show "snd_nxt c' = snd_max c'" using alg_receivedDataAck_position [OF c1] c' by simp
  show "snd_una c' = ackNo seg" "dupacks c' = 0" "sq_begin (sendQueue c') = ?u" "queueEnd c' = queueEnd c"
    "fin_ack_rcvd c' = (fin_ack_rcvd c \<or> acksFin seg c)"
    "snd_wnd c' = (if newerWindow seg c then ucast (window seg) else snd_wnd c)"
    using w sq.discard_InrD [OF q] by (simp_all add: c' queueEnd_def)
next
  assume "seqGE (snd_una c) (ackNo seg)"
  with assms consider "ok" "alg_receivedDuplicateAck env (c\<lparr>dupacks := toShort (dupacks c + 1)\<rparr>) = Inr c'"
    | "ok" "c' = c\<lparr>dupacks := 0\<rparr>"
    by (auto simp: processAckInEstabEtc_def res_simps split: if_splits)
  then have "ok \<and> snd_una c' = snd_una c \<and> sendQueue c' = sendQueue c \<and>
      snd_wnd c' = snd_wnd c \<and> fin_ack_rcvd c' = fin_ack_rcvd c"
  proof cases
    case 1
    from restD [OF rest_alg_receivedDuplicateAck [OF 1(2)]] 1(1) show ?thesis by simp
  qed simp
  then show "ok" "snd_una c' = snd_una c" "sendQueue c' = sendQueue c" "snd_wnd c' = snd_wnd c"
    "fin_ack_rcvd c' = fin_ack_rcvd c"
    by blast+
qed

lemma ack_moves_send_window_witness:
  "\<exists>c'. processAckInEstabEtc exampleEnv (createTCPSegment\<lparr>ackNo := 600, sequenceNo := 50, window := 7000\<rparr>)
     (exampleSender\<lparr>rexmitTimer := TimerAt 2\<rparr>) = Inr (c', True) \<and>
     snd_una c' = 600 \<and> sq_begin (sendQueue c') = 600 \<and> snd_wnd c' = 7000"
proof -
  let ?s = "createTCPSegment\<lparr>ackNo := 600, sequenceNo := 50, window := 7000\<rparr>"
    and ?c = "exampleSender\<lparr>rexmitTimer := TimerAt 2\<rparr>"
  have "\<not> isl (processAckInEstabEtc exampleEnv ?s ?c)" "\<not> seqGE (snd_una ?c) (ackNo ?s)"
    "seqLE (ackNo ?s) (snd_max ?c)" "newerWindow ?s ?c" "\<not> acksFin ?s ?c"
    by code_simp+
  then obtain c' ok where "processAckInEstabEtc exampleEnv ?s ?c = Inr (c', ok)"
    by (cases "processAckInEstabEtc exampleEnv ?s ?c") auto
  from ack_moves_send_window [OF this] this
    \<open>\<not> seqGE (snd_una ?c) (ackNo ?s)\<close> \<open>seqLE (ackNo ?s) (snd_max ?c)\<close> \<open>newerWindow ?s ?c\<close> \<open>\<not> acksFin ?s ?c\<close>
  show ?thesis by (auto simp: createTCPSegment_def)
qed

text \<open>An acknowledgement that lies exactly half of the number space away from the numbers of a
  connection with nothing outstanding is neither old nor new nor beyond what was sent in the code's
  comparisons, and makes an assertion fail.\<close>

theorem ack_at_half_space_fails:
  assumes "snd_una c = snd_max c" "ackNo seg = snd_una c + 0x80000000"
  shows "processAckInEstabEtc env seg c =
    Inl (AssertFailed ''seqGreater(tcpseg->getAckNo(), state->snd_max)'')"
  using assms by (simp add: processAckInEstabEtc_def seqGE_def seqLE_def seqGreater_def)

lemma ack_at_half_space_fails_witness:
  "processAckInEstabEtc exampleEnv (createTCPSegment\<lparr>ackNo := 1100 + 0x80000000\<rparr>)
     (exampleSender\<lparr>snd_una := 1100\<rparr>) =
   Inl (AssertFailed ''seqGreater(tcpseg->getAckNo(), state->snd_max)'')"
  by (rule ack_at_half_space_fails) (simp_all add: exampleSender_def createTCPSegment_def)

section \<open>Segment text\<close>

lemma sendMsgs_outs:
  "fold (\<lambda>m. sendToApp (DataIndication (connId c) m)) ms d =
   d\<lparr>outs := outs d @ map (\<lambda>m. ToApp (appGateIndex d) (DataIndication (connId c) m)) ms\<rparr>"
  by (induction ms arbitrary: d) (simp_all add: emit_def)

lemma delivered_above:
  assumes "rqInv k q" "delivered q" "x \<in> held k q"
  shows "off k (rq_rcv_nxt q) < x"
proof -
  obtain r where r: "r \<in> set (regionList q)" "off k (rbegin r) \<le> x" using assms(3) by (auto simp: held_def covR_iff)
  then have "off k (rq_rcv_nxt q) < off k (rbegin r)"
    using assms(1,2) by (auto simp: delivered_def rqInv_def okR_def halfR_def seq_half [of k])
  with r(2) show ?thesis by simp
qed

text \<open>C13: When a segment advances \<^verbatim>\<open>rcv_nxt\<close> in a state that accepts text, the application
  receives exactly the bytes between the old and the new number, once and in one go, the new number is
  the first missing byte, and the queue is again one from which everything was passed up, so that
  the same holds for the next segment. A segment that does not advance it passes up nothing and is
  kept, and is answered by one acknowledgement of the first missing byte.\<close>

theorem text_delivered_once:
  assumes st: "fsm c \<in> {TCP_S_SYN_RCVD, TCP_S_ESTABLISHED, TCP_S_FIN_WAIT_1, TCP_S_FIN_WAIT_2}" "hasPayload seg"
    and q: "receiveQueue c = VirtualDataRcvQueue q" "rcv_nxt c = rq_rcv_nxt q" "rqInv k q" "delivered q"
    and seg: "fits k seg q" "noWrap (VirtualRQ_insertBytesFromSegment seg q)"
    and ok: "addrsOk c" "algTimersOk c" "\<not> fin_rcvd c"
  defines "n \<equiv> LEAST n. off k (rcv_nxt c) \<le> n \<and> n \<notin> segRange k seg \<union> held k q"
  shows "if off k (rcv_nxt c) < n
    then \<exists>ms q'. processSegmentText env seg c = Inr (c\<lparr>receiveQueue := VirtualDataRcvQueue q',
          rcv_nxt := rq_rcv_nxt q', outs := outs c @
            map (\<lambda>m. ToApp (appGateIndex c) (DataIndication (connId c) m)) ms\<rparr>) \<and>
        off k (rq_rcv_nxt q') = n \<and> pktBytes ms = n - off k (rcv_nxt c) \<and>
        rqInv k q' \<and> delivered q' \<and> noWrap q' \<and> held k q' = {x \<in> segRange k seg \<union> held k q. n \<le> x}
    else \<exists>ack t q'. processSegmentText env seg c = Inr (c\<lparr>receiveQueue := VirtualDataRcvQueue q',
          outs := outs c @ [toPeer c ack], delayedAckTimer := t\<rparr>) \<and>
        ackNo ack = rcv_nxt c \<and> held k q' = segRange k seg \<union> held k q"
proof -
  let ?q = "VirtualRQ_insertBytesFromSegment seg q"
  have n: "off k (rq_rcv_nxt ?q) = n"
    using virtual_rq.insert_ack_first_missing [OF q(3) seg(1)] by (simp add: n_def q(2))
  have i: "rqInv k ?q" "held k ?q = segRange k seg \<union> held k q"
    using virtual_rq.insert_inv [OF q(3) seg(1)] virtual_rq.insert_bytes [OF q(3) seg(1)] by blast+
  have nxt: "off k (rcv_nxt c) \<le> n \<and> {off k (rcv_nxt c)..<n} \<subseteq> held k ?q"
    using virtual_rq.insert_nxt [OF q(3) seg(1)] by (simp add: q(2) n)
  show ?thesis
  proof (cases "off k (rcv_nxt c) < n")
    case True
    then have ne: "rcv_nxt c \<noteq> rq_rcv_nxt ?q" using n by auto
    obtain q' ms where x: "rq_extractAll (rq_rcv_nxt ?q) (VirtualDataRcvQueue ?q) = Inr (VirtualDataRcvQueue q', ms)"
      "pktBytes ms = card {x \<in> held k ?q. x < off k (rq_rcv_nxt ?q)}"
      "held k q' = {x \<in> held k ?q. off k (rq_rcv_nxt ?q) \<le> x}"
      "rqInv k q'" "rq_rcv_nxt q' = rq_rcv_nxt ?q" "delivered q'" "noWrap q'"
      by (rule virtual_extractAll [OF i(1) seg(2)])
    have low: "off k (rcv_nxt c) \<le> x" if "x \<in> segRange k seg \<union> held k q" for x
    proof (rule ccontr)
      assume less: "\<not> off k (rcv_nxt c) \<le> x"
      then have "x \<notin> held k q" using delivered_above [OF q(3,4)] by (force simp: q(2))
      with that less seg(1) have "x \<in> held k q" by (auto simp: segRange_def fits_def q(2))
      with \<open>x \<notin> held k q\<close> show False by simp
    qed
    have "{x \<in> held k ?q. x < n} = {off k (rcv_nxt c)..<n}"
      using nxt low i(2) by auto
    then have "pktBytes ms = n - off k (rcv_nxt c)" using x(2) n by simp
    moreover have "processSegmentText env seg c = Inr (c\<lparr>receiveQueue := VirtualDataRcvQueue q',
          rcv_nxt := rq_rcv_nxt q', outs := outs c @
            map (\<lambda>m. ToApp (appGateIndex c) (DataIndication (connId c) m)) ms\<rparr>)"
      using st ne ok(3) x(1,5)
      by (simp add: processSegmentText_def Let_def q(1) sendMsgs_outs [of c] del: sendToApp_def indication_defs)
    ultimately show ?thesis
      unfolding if_P [OF True] using x(3-7) i(2) n by (intro exI [of _ ms] exI [of _ q'] conjI) simp_all
  next
    case False
    with nxt n have same: "rq_rcv_nxt ?q = rcv_nxt c" by (metis le_neq_implies_less off_inj)
    let ?c = "c\<lparr>receiveQueue := VirtualDataRcvQueue ?q\<rparr>"
    have "addrsOk ?c" "algTimersOk ?c" using ok by (simp_all add: addrsOk_def algTimersOk_def)
    from sendAck_ok [OF this] obtain ack t where ack: "sendAck ?c = Inr (?c\<lparr>outs := outs c @ [toPeer ?c ack],
        delayedAckTimer := t\<rparr>)" "ackNo ack = rcv_nxt c" by auto
    have "alg_receivedOutOfOrderSegment ?c = sendAck ?c"
      by (simp add: alg_receivedOutOfOrderSegment_def DumbTCP_receivedOutOfOrderSegment_def
          TCPBaseAlg_receivedOutOfOrderSegment_def split: TCPAlgorithm.splits)
    moreover have "?c\<lparr>rcv_nxt := rcv_nxt c\<rparr> = ?c" by simp
    ultimately have "processSegmentText env seg c = sendAck ?c"
      using st same by (simp add: processSegmentText_def Let_def q(1))
    with ack i(2) False show ?thesis
      by (auto simp: toPeer_def intro!: exI [of _ ack] exI [of _ t] exI [of _ ?q])
  qed
qed


lemma text_delivered_once_witness:
  "\<exists>ms c'. processSegmentText exampleEnv (createTCPSegment\<lparr>sequenceNo := 50, payloadLength := 8\<rparr>)
      (exampleSender\<lparr>receiveQueue := VirtualDataRcvQueue \<lparr>rq_rcv_nxt = 50, regionList = [\<lparr>rbegin = 58, rend = 60\<rparr>]\<rparr>\<rparr>)
      = Inr c' \<and> outs c' = map (\<lambda>m. ToApp 0 (DataIndication 5 m)) ms \<and> pktBytes ms = 10"
proof -
  let ?s = "createTCPSegment\<lparr>sequenceNo := 50, payloadLength := 8\<rparr>"
    and ?q = "\<lparr>rq_rcv_nxt = 50, regionList = [\<lparr>rbegin = 58, rend = 60\<rparr>]\<rparr> :: TCPVirtualDataRcvQueue"
  let ?c = "exampleSender\<lparr>receiveQueue := VirtualDataRcvQueue ?q\<rparr>"
  have q: "rqInv 50 ?q" "delivered ?q" "fits 50 ?s ?q"
    by (simp_all add: rqInv_def okR_def off_def delivered_def seqLess_def fits_def createTCPSegment_def)
  have ins: "VirtualRQ_insertBytesFromSegment ?s ?q = \<lparr>rq_rcv_nxt = 60, regionList = [\<lparr>rbegin = 50, rend = 60\<rparr>]\<rparr>"
    "hasPayload ?s" by code_simp+
  have "(LEAST n. off 50 50 \<le> n \<and> n \<notin> segRange 50 ?s \<union> held 50 ?q) = off 50 (rq_rcv_nxt (VirtualRQ_insertBytesFromSegment ?s ?q))"
    using virtual_rq.insert_ack_first_missing [OF q(1,3)] by simp
  then have n: "(LEAST n. off 50 50 \<le> n \<and> n \<notin> segRange 50 ?s \<union> held 50 ?q) = 10"
    unfolding ins(1) by (simp add: off_def)
  have c: "fsm ?c = TCP_S_ESTABLISHED" "addrsOk ?c" "algTimersOk ?c" "\<not> fin_rcvd ?c" "rcv_nxt ?c = 50"
    "appGateIndex ?c = 0" "connId ?c = 5" "outs ?c = []"
    using exampleSender_ok by (simp_all add: addrsOk_def algTimersOk_def)
      (simp_all add: exampleSender_def newConnection_def blankConnection_def)
  from text_delivered_once [of ?c ?s ?q 50 exampleEnv] c q ins n
  show ?thesis by (auto simp: noWrap_def)
qed

section \<open>A FIN that arrives early\<close>



section \<open>Commands\<close>

text \<open>CLOSE sends the FIN at once, numbered after the data, exactly if everything queued has been sent,
  and then moves on; otherwise it sends nothing, stays in its state and leaves the FIN to the
  segment that carries the last byte. Either way the promised FIN stands at the end of the queue
  and the connection can still send.\<close>

theorem close_sends_fin_after_data:
  assumes "canSend c" "snd_max c \<noteq> queueEnd c + 1"
    and "fsm c \<in> {TCP_S_SYN_RCVD, TCP_S_ESTABLISHED, TCP_S_CLOSE_WAIT}"
  shows "\<exists>c'. process_CLOSE TCP_E_CLOSE c =
      Inr (c', if snd_max c = queueEnd c then TCP_E_CLOSE else TCP_E_IGNORE) \<and>
    (if snd_max c = queueEnd c
     then (\<exists>fin. outs c' = outs c @ [toPeer c fin] \<and> finBit fin \<and> sequenceNo fin = queueEnd c \<and>
         snd_nxt c' = queueEnd c + 1 \<and> snd_max c' = queueEnd c + 1)
     else outs c' = outs c \<and> snd_max c' = snd_max c) \<and>
    send_fin c' \<and> snd_fin_seq c' = queueEnd c \<and> sendQueue c' = sendQueue c \<and> canSend c'"
proof -
  have p: "process_CLOSE TCP_E_CLOSE c = closeSendSide TCP_E_CLOSE c"
    using assms(3) by (auto simp: process_CLOSE_def)
  have c: "addrsOk c" "algTimersOk c" using assms(1) by (simp_all add: canSend_def)
  show ?thesis
  proof (cases "snd_max c = queueEnd c")
    case True
    let ?c = "c\<lparr>snd_nxt := snd_max c\<rparr>"
    have ok: "addrsOk ?c" using c by (simp add: addrsOk_def)
    let ?s = "createTCPSegment\<lparr>finBit := True, ackBit := True, ackNo := rcv_nxt c,
       sequenceNo := snd_max c, window := ucast (rcv_wnd c)\<rparr>"
    obtain fin where fin: "sendToIP ?s ?c = Inr (emit (toPeer ?c fin) ?c)" "finBit fin" "sequenceNo fin = snd_max c"
      using sendToIP_ok [OF ok, of ?s] by auto
    have "algTimersOk (emit (toPeer ?c fin) ?c)" using c(2) by (simp add: algTimersOk_def emit_def)
    from ackSent_ok [OF this] obtain t where
      t: "ackSent (emit (toPeer ?c fin) ?c) = Inr ((emit (toPeer ?c fin) ?c)\<lparr>delayedAckTimer := t\<rparr>)"
        "tcpAlgorithm c \<noteq> DumbTCP \<longrightarrow> t \<noteq> TimerNull" by (auto simp: emit_def)
    have "closeSendSide TCP_E_CLOSE c = Inr (c\<lparr>snd_nxt := queueEnd c + 1, snd_max := queueEnd c + 1,
        outs := outs c @ [toPeer c fin], delayedAckTimer := t, send_fin := True, snd_fin_seq := queueEnd c\<rparr>, TCP_E_CLOSE)"
      using True fin t(1) by (simp add: closeSendSide_def sendFin_def queueEnd_def emit_def)
    with fin assms(1) True t(2) show ?thesis
      by (auto simp: p canSend_def addrsOk_def algTimersOk_def queueOff_def queueEnd_def)
  next
    case False
    then have "closeSendSide TCP_E_CLOSE c = Inr (c\<lparr>send_fin := True, snd_fin_seq := queueEnd c\<rparr>, TCP_E_IGNORE)"
      by (simp add: closeSendSide_def queueEnd_def)
    with assms(1) False show ?thesis
      by (auto simp: p canSend_def addrsOk_def algTimersOk_def queueOff_def queueEnd_def)
  qed
qed

lemma close_sends_fin_after_data_witness:
  "\<exists>c'. process_CLOSE TCP_E_CLOSE exampleSender = Inr (c', TCP_E_IGNORE) \<and> snd_fin_seq c' = 2600"
  using close_sends_fin_after_data [OF exampleSender_canSend(1)] exampleSender_ok(3)
  by (force simp: exampleSender_def queueEnd_def newConnection_def VirtualSQ_getBufferEndSeq_def)

text \<open>The reply to a STATUS command is sent with the message kind of the command, which the
  application reads as the indication that the connection was reset.\<close>

theorem status_reply_reads_as_reset:
  assumes "fsm c \<noteq> TCP_S_INIT"
  shows "\<exists>ind. process_STATUS event (commandKind (TCP_C_STATUS cid)) c =
      Inr (c\<lparr>outs := outs c @ [ToApp (appGateIndex c) ind]\<rparr>, event) \<and>
    indicationKind ind = statusIndKind TCP_I_CONNECTION_RESET \<and> indicationKind ind \<noteq> statusIndKind TCP_I_STATUS"
  by (rule exI [of _ "StatusIndication 7 (statusInfo c)"]) (use assms in \<open>simp add: process_STATUS_def emit_def\<close>)

lemma status_reply_reads_as_reset_witness:
  "\<exists>c' ind. process_STATUS TCP_E_STATUS (commandKind (TCP_C_STATUS 5)) exampleSender = Inr (c', TCP_E_STATUS) \<and>
     indicationKind ind = statusIndKind TCP_I_CONNECTION_RESET"
  using status_reply_reads_as_reset [of exampleSender TCP_E_STATUS 5] exampleSender_ok(3) by auto

end
