(* ===== verification/TCP_HandshakeProps.thy ===== *)
theory TCP_HandshakeProps imports TCP_InputProps TCP_ModuleProps
begin

text \<open>
  The three-way handshake, from the SYN of an active open to both sides established, and the
  way back of a passive open that is reset.
\<close>

section \<open>The exchange\<close>

text \<open>What a connection needs before it takes part in a handshake.\<close>

definition freshTimers :: "TCPConnection \<Rightarrow> bool" where
  "freshTimers c \<longleftrightarrow> synRexmitTimer c = TimerIdle \<and> connEstabTimer c = TimerIdle \<and> algTimersOk c"

lemma startSynRexmitTimer_ok:
  "synRexmitTimer c = TimerIdle \<Longrightarrow> startSynRexmitTimer env c = Inr (c\<lparr>syn_rexmit_count := 0,
     syn_rexmit_timeout := 3, synRexmitTimer := TimerAt (simTime env + 3)\<rparr>)"
  by (simp add: startSynRexmitTimer_def Let_def timeoutAt_def)

lemma sq_init_simps [simp]: "sq_begin (sq_init s q) = s" "sq_getBufferEndSeq (sq_init s q) = s"
  by (rule sq.init_beg, rule sq.init_end)

text \<open>
  A half-open side: its SYN is outstanding, numbered \<open>i\<close>, and its queue starts after it.
\<close>

definition synOut :: "uint32 \<Rightarrow> TCPConnection \<Rightarrow> bool" where
  "synOut i c \<longleftrightarrow> addrsOk c \<and> algTimersOk c \<and> iss c = i \<and> snd_una c = i \<and> snd_nxt c = i + 1 \<and>
     snd_max c = i + 1 \<and> sq_begin (sendQueue c) = i + 1 \<and> queueEnd c = i + 1 \<and>
     \<not> send_fin c"

text \<open>The active side sends its SYN.\<close>

lemma startActiveOpen_ok:
  assumes "addrsOk c" "freshTimers c" "\<not> isUnspecified (remoteAddr c)" "remotePort c \<noteq> -1" "localPort c \<noteq> -1"
    and "\<not> send_fin c"
  shows "\<exists>c' syn i. startActiveOpen env c = Inr c' \<and> outs c' = outs c @ [toPeer c syn] \<and>
    synBit syn \<and> \<not> ackBit syn \<and> \<not> rstBit syn \<and> \<not> finBit syn \<and> sequenceNo syn = i \<and> payloadLength syn = 0 \<and>
    synOut i c'"
proof -
  define i where "i = (word_of_int \<lfloor>simTime env * 250000\<rfloor> :: uint32)"
  define d where "d = (selectInitialSeqNum env c)\<lparr>snd_max := i + 1, snd_nxt := i + 1\<rparr>"
  let ?s = "createTCPSegment\<lparr>sequenceNo := i, synBit := True, window := ucast (rcv_wnd c)\<rparr>"
  have d: "addrsOk d" "synRexmitTimer d = TimerIdle" "connEstabTimer d = TimerIdle" "algTimersOk d"
    "iss d = i" "snd_una d = i" "snd_nxt d = i + 1" "snd_max d = i + 1" "sendQueue d = sq_init (i + 1) (sendQueue c)"
    "outs d = outs c" "toPeer d = toPeer c" "\<not> send_fin d"
    using assms(1,2,6) by (simp_all add: d_def selectInitialSeqNum_def Let_def addrsOk_def freshTimers_def
        algTimersOk_def i_def toPeer_def fun_eq_iff)
  from sendToIP_ok [OF d(1), of ?s] obtain syn where
    syn: "sendToIP ?s d = Inr (emit (toPeer c syn) d)" "syn = ?s\<lparr>srcPort := toShort (localPort d),
      destPort := toShort (remotePort d), segByteLength := 20 + sint (payloadLength ?s)\<rparr>"
    unfolding d(11) by blast
  have "sendSyn (selectInitialSeqNum env c) = sendToIP ?s d"
    using assms(3-5) by (simp add: sendSyn_def d_def) (simp add: selectInitialSeqNum_def Let_def i_def)
  with syn d(2,3) have "startActiveOpen env c = Inr ((emit (toPeer c syn) d)\<lparr>syn_rexmit_count := 0,
      syn_rexmit_timeout := 3, synRexmitTimer := TimerAt (simTime env + 3),
      connEstabTimer := TimerAt (simTime env + 75)\<rparr>)"
    by (simp add: startActiveOpen_def startSynRexmitTimer_ok timeoutAt_def)
  with d syn(2) show ?thesis
    by (intro exI [of _ syn] exI [of _ i] exI conjI) (assumption |
      simp add: synOut_def createTCPSegment_def queueEnd_def addrsOk_def algTimersOk_def emit_def)+
qed

text \<open>The passive side answers a SYN with a SYN of its own that acknowledges it.\<close>

lemma acceptSyn_ok:
  assumes "addrsOk s" "freshTimers s" "\<not> send_fin s" "payloadLength syn = 0"
  shows "\<exists>s' synack j. acceptSyn env syn s = Inr s' \<and> outs s' = outs s @ [toPeer s synack] \<and>
    synBit synack \<and> ackBit synack \<and> \<not> rstBit synack \<and> \<not> finBit synack \<and> sequenceNo synack = j \<and>
    ackNo synack = sequenceNo syn + 1 \<and> payloadLength synack = 0 \<and> synOut j s' \<and>
    rcv_nxt s' = sequenceNo syn + 1 \<and> connEstabTimer s' \<noteq> TimerNull \<and> synRexmitTimer s' \<noteq> TimerNull"
proof -
  define j where "j = (word_of_int \<lfloor>simTime env * 250000\<rfloor> :: uint32)"
  define r where "r = selectInitialSeqNum env (s\<lparr>rcv_nxt := sequenceNo syn + 1, irs := sequenceNo syn,
      receiveQueue := rq_init (sequenceNo syn + 1) (receiveQueue s)\<rparr>)"
  define d where "d = r\<lparr>snd_wnd := ucast (window syn), snd_wl1 := sequenceNo syn, snd_wl2 := j,
      snd_max := j + 1, snd_nxt := j + 1\<rparr>"
  let ?s = "createTCPSegment\<lparr>sequenceNo := j, ackNo := sequenceNo syn + 1, synBit := True, ackBit := True,
      window := ucast (rcv_wnd s)\<rparr>"
  have d: "addrsOk d" "synRexmitTimer d = TimerIdle" "connEstabTimer d = TimerIdle" "algTimersOk d"
    "iss d = j" "snd_una d = j" "snd_nxt d = j + 1" "snd_max d = j + 1" "sendQueue d = sq_init (j + 1) (sendQueue s)"
    "outs d = outs s" "toPeer d = toPeer s" "\<not> send_fin d" "rcv_nxt d = sequenceNo syn + 1"
    using assms(1-3) by (simp_all add: d_def r_def selectInitialSeqNum_def Let_def addrsOk_def freshTimers_def
        algTimersOk_def j_def toPeer_def fun_eq_iff)
  from sendToIP_ok [OF d(1), of ?s] obtain synack where
    sa: "sendToIP ?s d = Inr (emit (toPeer s synack) d)" "synack = ?s\<lparr>srcPort := toShort (localPort d),
      destPort := toShort (remotePort d), segByteLength := 20 + sint (payloadLength ?s)\<rparr>"
    unfolding d(11) by blast
  have r: "iss r = j" "rcv_nxt r = sequenceNo syn + 1" "rcv_wnd r = rcv_wnd s"
    by (simp_all add: r_def selectInitialSeqNum_def Let_def j_def)
  have "\<not> hasPayload syn" using assms(4) by (simp add: hasPayload_def)
  moreover have "sendSynAck (r\<lparr>snd_wnd := ucast (window syn), snd_wl1 := sequenceNo syn, snd_wl2 := j\<rparr>) = sendToIP ?s d"
    using r by (simp add: sendSynAck_def d_def)
  ultimately have "acceptSyn env syn s = Inr ((emit (toPeer s synack) d)\<lparr>syn_rexmit_count := 0,
      syn_rexmit_timeout := 3, synRexmitTimer := TimerAt (simTime env + 3),
      connEstabTimer := TimerAt (simTime env + 75)\<rparr>)"
    using sa(1) d(2,3) r(1)
    by (simp add: acceptSyn_def Let_def startSynRexmitTimer_ok timeoutAt_def flip: r_def)
  with d sa(2) show ?thesis
    by (intro exI [of _ synack] exI [of _ j] exI conjI) (assumption |
      simp add: synOut_def createTCPSegment_def queueEnd_def addrsOk_def algTimersOk_def emit_def)+
qed

text \<open>With nothing to send, the algorithm classes only look after their timers and windows.\<close>

lemma sendData_empty:
  "getBytesAvailable (snd_max c) (sendQueue c) = 0 \<Longrightarrow> sendData env f w c = Inr (c\<lparr>snd_nxt := snd_max c\<rparr>, False)"
  by (simp add: sendData_def Let_def)

lemma synOut_no_data: "queueEnd c = snd_max c \<Longrightarrow> getBytesAvailable (snd_max c) (sendQueue c) = 0"
  by (simp add: getBytesAvailable_def queueEnd_def)

lemma receivedDataAck_empty:
  assumes "snd_una c = snd_max c" "queueEnd c = snd_max c" "algTimersOk c"
    and "tcpAlgorithm c \<noteq> DumbTCP \<longrightarrow> snd_cwnd c \<noteq> 0"
  shows "\<exists>c'. alg_receivedDataAck env s c = Inr c' \<and> rest c' = rest c \<and> outs c' = outs c \<and>
    snd_nxt c' = snd_max c \<and> snd_max c' = snd_max c"
proof (cases "tcpAlgorithm c = DumbTCP")
  case True
  then show ?thesis using sendData_empty [OF synOut_no_data [OF assms(2)]]
    by (simp add: alg_receivedDataAck_def DumbTCP_receivedDataAck_def)
next
  case False
  note empty = sendData_empty [OF synOut_no_data]
  have t: "rexmitTimer c \<noteq> TimerNull" using assms(3) by (simp add: algTimersOk_def)
  have "\<exists>d. TCPBaseAlg_receivedDataAck env s c = Inr d \<and> rest d = rest c \<and> outs d = outs c \<and>
      snd_max d = snd_max c \<and> snd_cwnd d = snd_cwnd c"
    using t assms(1)
    by (cases "rexmitTimer c") (simp_all add: TCPBaseAlg_receivedDataAck_def TCPBaseAlg_rttMeasurementComplete_def Let_def)
  then obtain d where d: "TCPBaseAlg_receivedDataAck env s c = Inr d" "rest d = rest c" "outs d = outs c"
    "snd_max d = snd_max c" "snd_cwnd d = snd_cwnd c" by blast
  have "\<exists>x. increaseCwnd d = Inr (d\<lparr>snd_cwnd := x\<rparr>)"
    using assms(4) d(5) False by (auto simp: increaseCwnd_def Let_def)
  then obtain x where x: "increaseCwnd d = Inr (d\<lparr>snd_cwnd := x\<rparr>)" by blast
  have q: "queueEnd (d\<lparr>snd_cwnd := y\<rparr>) = snd_max (d\<lparr>snd_cwnd := y\<rparr>)" "queueEnd d = snd_max d" for y
    using assms(2) d(4) restD(27) [OF d(2)] by (simp_all add: queueEnd_def)
  show ?thesis
    using d x empty [OF q(1)] empty [OF q(2)] False
    by (cases "tcpAlgorithm c")
       (simp_all add: alg_receivedDataAck_def TCPNoCongestionControl_receivedDataAck_def
         TCPTahoe_receivedDataAck_def TCPReno_receivedDataAck_def TCPBaseAlg_sendData_def)
qed

text \<open>The active side gets the SYN with the acknowledgement.\<close>

lemma established_active_empty:
  assumes "addrsOk c" "algTimersOk c" "queueEnd c = snd_max c"
  shows "\<exists>c' ack. alg_established env True c = Inr c' \<and> outs c' = outs c @ [toPeer c ack] \<and>
    ackBit ack \<and> \<not> synBit ack \<and> \<not> finBit ack \<and> \<not> rstBit ack \<and> sequenceNo ack = snd_max c \<and>
    ackNo ack = rcv_nxt c \<and> payloadLength ack = 0 \<and> rest c' = rest c \<and> snd_nxt c' = snd_max c \<and>
    snd_max c' = snd_max c"
proof -
  define d where "d = (if tcpAlgorithm c = DumbTCP then c else c\<lparr>snd_cwnd := snd_mss c\<rparr>)\<lparr>snd_nxt := snd_max c\<rparr>"
  have d: "addrsOk d" "algTimersOk d" "toPeer d = toPeer c" "outs d = outs c" "rest d = rest c"
    "snd_nxt d = snd_max c" "snd_max d = snd_max c" "rcv_nxt d = rcv_nxt c"
    using assms(1,2) by (simp_all add: d_def addrsOk_def algTimersOk_def toPeer_def fun_eq_iff)
  from sendAck_ok [OF d(1,2)] obtain ack t where ack:
    "sendAck d = Inr (d\<lparr>outs := outs c @ [toPeer c ack], delayedAckTimer := t\<rparr>)" "ackBit ack" "\<not> synBit ack"
    "\<not> finBit ack" "\<not> rstBit ack" "sequenceNo ack = snd_max c" "ackNo ack = rcv_nxt c" "payloadLength ack = 0"
    unfolding d by auto
  have "alg_established env True c = sendAck d"
    using sendData_empty [OF synOut_no_data [OF assms(3)]] assms(3)
      sendData_empty [of "c\<lparr>snd_cwnd := snd_mss c\<rparr>"] synOut_no_data [of "c\<lparr>snd_cwnd := snd_mss c\<rparr>"]
    by (cases "tcpAlgorithm c") (simp_all add: alg_established_def DumbTCP_established_def
        TCPBaseAlg_established_def TCPBaseAlg_sendData_def Let_def d_def queueEnd_def)
  with ack d show ?thesis by (intro exI [of _ ack] exI conjI) (assumption | simp)+
qed

lemma activeSide_ok:
  assumes c: "synOut i c" and s: "ackBit synack" "ackNo synack = i + 1" "payloadLength synack = 0"
  shows "\<exists>c' ack. andThen (synSentLearn synack c) (activeEstablished env synack) = Inr c' \<and>
    outs c' = outs c @ [toPeer c ack, ToApp (appGateIndex c) (EstabIndication (connId c) (localAddr c)
      (remoteAddr c) (localPort c) (remotePort c))] \<and>
    ackBit ack \<and> \<not> synBit ack \<and> \<not> finBit ack \<and> \<not> rstBit ack \<and> sequenceNo ack = i + 1 \<and>
    ackNo ack = sequenceNo synack + 1 \<and> payloadLength ack = 0 \<and>
    snd_una c' = i + 1 \<and> snd_nxt c' = i + 1 \<and> snd_max c' = i + 1 \<and> rcv_nxt c' = sequenceNo synack + 1 \<and>
    snd_wnd c' = ucast (window synack)"
proof -
  have "seqLE (sq_begin (sendQueue c)) (i + 1)" "seqLE (i + 1) (sq_getBufferEndSeq (sendQueue c))"
    using c by (simp_all add: synOut_def queueEnd_def)
  then obtain q where q: "sq_discardUpTo (i + 1) (sendQueue c) = Inr q"
    using sq.discard_Inr_iff [of "i + 1" "sendQueue c"] by blast
  define d where "d = c\<lparr>rcv_nxt := sequenceNo synack + 1, irs := sequenceNo synack,
      receiveQueue := rq_init (sequenceNo synack + 1) (receiveQueue c), snd_una := i + 1,
      sendQueue := q, snd_wnd := ucast (window synack), snd_wl1 := sequenceNo synack, snd_wl2 := i + 1\<rparr>"
  have learn: "synSentLearn synack c = Inr d"
    using s q by (simp add: synSentLearn_def Let_def d_def)
  have d: "addrsOk d" "algTimersOk d" "queueEnd d = snd_max d" "outs d = outs c" "toPeer d = toPeer c"
    "snd_max d = i + 1" "snd_una d = i + 1" "rcv_nxt d = sequenceNo synack + 1" "snd_wnd d = ucast (window synack)"
    "appGateIndex d = appGateIndex c" "connId d = connId c" "localAddr d = localAddr c"
    "remoteAddr d = remoteAddr c" "localPort d = localPort c" "remotePort d = remotePort c"
    using c sq.discard_InrD [OF q]
    by (simp_all add: d_def synOut_def addrsOk_def algTimersOk_def queueEnd_def toPeer_def fun_eq_iff)
  obtain c' ack where e: "alg_established env True d = Inr c'" "outs c' = outs d @ [toPeer d ack]"
    "ackBit ack" "\<not> synBit ack" "\<not> finBit ack" "\<not> rstBit ack" "sequenceNo ack = snd_max d"
    "ackNo ack = rcv_nxt d" "payloadLength ack = 0" "rest c' = rest d" "snd_nxt c' = snd_max d" "snd_max c' = snd_max d"
    using established_active_empty [OF d(1-3)] by blast
  have r: "snd_una c' = i + 1" "rcv_nxt c' = sequenceNo synack + 1" "snd_wnd c' = ucast (window synack)"
    "appGateIndex c' = appGateIndex c" "connId c' = connId c" "localAddr c' = localAddr c"
    "remoteAddr c' = remoteAddr c" "localPort c' = localPort c" "remotePort c' = remotePort c"
    using restD [OF e(10)] d by simp_all
  have "\<not> hasPayload synack" using s(3) by (simp add: hasPayload_def)
  then have "andThen (synSentLearn synack c) (activeEstablished env synack) = Inr (sendEstabIndicationToApp c')"
    by (simp add: learn activeEstablished_def e(1) del: indication_defs)
  with e d r show ?thesis
    by (intro exI [of _ ack] exI conjI) (assumption | simp)+
qed

text \<open>The passive side gets the acknowledgement.\<close>

lemma passiveSide_ok:
  assumes s: "synOut j s" "fsm s = TCP_S_SYN_RCVD" "snd_mss s \<noteq> 0" "unat (rcv_wnd s) < 2147483648"
    "connEstabTimer s \<noteq> TimerNull" "synRexmitTimer s \<noteq> TimerNull"
    and a: "ackBit ack" "\<not> rstBit ack" "\<not> synBit ack" "\<not> finBit ack" "payloadLength ack = 0"
    "sequenceNo ack = rcv_nxt s" "ackNo ack = j + 1"
  shows "\<exists>s'. segmentStep env ack s = Inr (s', True) \<and> fsm s' = TCP_S_ESTABLISHED \<and>
    outs s' = outs s @ [ToApp (appGateIndex s) (EstabIndication (connId s) (localAddr s)
      (remoteAddr s) (localPort s) (remotePort s))] \<and>
    snd_una s' = j + 1 \<and> snd_nxt s' = j + 1 \<and> snd_max s' = j + 1 \<and> rcv_nxt s' = rcv_nxt s"
proof -
  have np: "\<not> hasPayload ack" using a(5) by (simp add: hasPayload_def)
  have acc: "isSegmentAcceptable ack s"
    using a(5,6) s(4) by (simp add: isSegmentAcceptable_def seqLE_def word_less_nat_alt)
  define d where "d = sendEstabIndicationToApp (if tcpAlgorithm s = DumbTCP then s else s\<lparr>snd_cwnd := snd_mss s\<rparr>)"
  have est: "passiveEstablished env s = Inr (d, TCP_E_RCV_ACK)"
    using s(2) by (cases "tcpAlgorithm s") (simp_all add: passiveEstablished_def alg_established_def
        DumbTCP_established_def TCPBaseAlg_established_def d_def)
  have d: "outs d = outs s @ [ToApp (appGateIndex s) (EstabIndication (connId s) (localAddr s)
      (remoteAddr s) (localPort s) (remotePort s))]" "snd_una d = j" "snd_nxt d = j + 1" "snd_max d = j + 1"
    "sendQueue d = sendQueue s" "algTimersOk d" "send_fin d = False" "fsm d = TCP_S_SYN_RCVD"
    "snd_mss d = snd_mss s" "tcpAlgorithm d \<noteq> DumbTCP \<longrightarrow> snd_cwnd d \<noteq> 0"
    "rcv_nxt d = rcv_nxt s" "active d = active s" "tcpAlgorithm d = tcpAlgorithm s"
    "connEstabTimer d = connEstabTimer s" "synRexmitTimer d = synRexmitTimer s"
    using s(1-3) by (auto simp: d_def synOut_def algTimersOk_def emit_def)
  have fields: "appGateIndex d = appGateIndex s" by (simp add: d_def)
  have "seqLE (sq_begin (sendQueue d)) (j + 1)" "seqLE (j + 1) (sq_getBufferEndSeq (sendQueue d))"
    using s(1) d(5) by (simp_all add: synOut_def queueEnd_def)
  then obtain q where q: "sq_discardUpTo (j + 1) (sendQueue d) = Inr q"
    using sq.discard_Inr_iff [of "j + 1" "sendQueue d"] by blast
  define x where "x = updateSendWindow ack (d\<lparr>snd_una := j + 1, sendQueue := q\<rparr>)"
  have x: "snd_una x = j + 1" "snd_max x = j + 1" "queueEnd x = j + 1" "algTimersOk x" "outs x = outs d"
    "tcpAlgorithm x \<noteq> DumbTCP \<longrightarrow> snd_cwnd x \<noteq> 0" "fsm x = TCP_S_SYN_RCVD" "rcv_nxt x = rcv_nxt s"
    "send_fin x = False" "connEstabTimer x = connEstabTimer s" "synRexmitTimer x = synRexmitTimer s"
    using d s(1) sq.discard_InrD [OF q]
    by (auto simp: x_def updateSendWindow_def algTimersOk_def queueEnd_def synOut_def)
  obtain e where e: "alg_receivedDataAck env j x = Inr e" "rest e = rest x" "outs e = outs x"
    "snd_nxt e = j + 1" "snd_max e = j + 1"
    using receivedDataAck_empty [of x env j] x by auto
  note r = restD [OF e(2)]
  have "ackInWindow env ack d = Inr (e\<lparr>dupacks := 0\<rparr>)"
    using d a(7) q e(1) by (simp add: ackInWindow_def Let_def x_def)
  then have "processAckInEstabEtc env ack d = Inr (e\<lparr>dupacks := 0\<rparr>, True)"
    using d(2,4) a(7) by (simp add: processAckInEstabEtc_def seqGE_seqLE) (simp add: seqLE_def)
  then have "checkAckField env ack TCP_E_RCV_ACK d = Inr (e\<lparr>dupacks := 0\<rparr>, TCP_E_RCV_ACK, False)"
    using d(8) r x(7) by (simp add: checkAckField_def)
  moreover have "processSegmentText env ack (e\<lparr>dupacks := 0\<rparr>) = Inr (e\<lparr>dupacks := 0\<rparr>)"
    using np by (simp add: processSegmentText_def)
  moreover have "deferredClose y TCP_E_RCV_ACK (e\<lparr>dupacks := 0\<rparr>) = TCP_E_RCV_ACK" for y
    using r x(7,9) by (simp add: deferredClose_def Let_def)
  ultimately have "processSegment5thThru8th env ack s = Inr (e\<lparr>dupacks := 0\<rparr>, TCP_E_RCV_ACK)"
    using est a(4) by (simp add: processSegment5thThru8th_def checkFinBit_def Let_def)
  then have p: "processSegment1stThru8th env ack s = Inr (e\<lparr>dupacks := 0\<rparr>, TCP_E_RCV_ACK)"
    using acc a(1-3,7) s(1,2) by (simp add: processSegment1stThru8th_def synOut_def)
  have "connEstabTimer e \<noteq> TimerNull" "synRexmitTimer e \<noteq> TimerNull" "fsm e = TCP_S_SYN_RCVD"
    "snd_una e = j + 1" "rcv_nxt e = rcv_nxt s" "outs e = outs d"
    using r x s(5,6) e(3) by simp_all
  with p e d(1) show ?thesis
    by (cases "connEstabTimer e"; cases "synRexmitTimer e")
       (simp_all add: segmentStep_def performStateTransition_def Let_def fsm_goto_def stateEntered_def)
qed



end
