(* ===== verification/TCP_CongestionProps.thy ===== *)
theory TCP_CongestionProps imports TCP_SendProps
begin

text \<open>
  Properties of the algorithm classes: the retransmission timeout stays in its range and backs
  off until the connection is given up, the congestion window grows and shrinks as slow start,
  congestion avoidance and fast retransmit prescribe, and the class without congestion control
  ends up with a window of one segment.
\<close>

section \<open>The retransmission timeout\<close>

lemma rttMeasurement_rto:
  "1 \<le> rexmit_timeout (TCPBaseAlg_rttMeasurementComplete env s a c) \<and>
   rexmit_timeout (TCPBaseAlg_rttMeasurementComplete env s a c) \<le> 240"
  by (simp add: TCPBaseAlg_rttMeasurementComplete_def Let_def)

text \<open>
  Expiry of the timer \<open>n\<close> times in a row with no acknowledgement in between: the kernel takes
  the message off the event queue and the algorithm handles it.
\<close>

fun rexmitExpiries :: "TCPEnv \<Rightarrow> nat \<Rightarrow> TCPConnection \<Rightarrow> (TCPConnection \<times> TCPEventCode) res" where
  "rexmitExpiries env 0 c = Inr (c, TCP_E_IGNORE)"
| "rexmitExpiries env (Suc n) c =
     andThen (rexmitExpiries env n c) (\<lambda>(c, event).
       TCPBaseAlg_processRexmitTimer env TCP_E_IGNORE (timerFired RexmitTimer c))"

lemma rexmitExpiries_backoff:
  assumes "0 < rexmit_timeout c" "rexmit_timeout c \<le> 240" "rexmit_count c = 0"
  shows "n \<le> 12 \<Longrightarrow> \<exists>c'. rexmitExpiries env n c = Inr (c', TCP_E_IGNORE) \<and> rexmit_count c' = int n \<and>
    rexmit_timeout c' = min 240 (2 ^ n * rexmit_timeout c) \<and> outs c' = outs c \<and>
    (0 < n \<longrightarrow> rexmitTimer c' = TimerAt (simTime env + rexmit_timeout c') \<and> rtseq_sendtime c' = 0) \<and>
    appGateIndex c' = appGateIndex c \<and> connId c' = connId c"
proof (induction n)
  case 0
  then show ?case using assms by simp
next
  case (Suc n)
  then obtain c' where c': "rexmitExpiries env n c = Inr (c', TCP_E_IGNORE)" "rexmit_count c' = int n"
    "rexmit_timeout c' = min 240 (2 ^ n * rexmit_timeout c)" "outs c' = outs c"
    "appGateIndex c' = appGateIndex c" "connId c' = connId c"
    by auto
  have "(if 240 < rexmit_timeout c' + rexmit_timeout c' then 240 else rexmit_timeout c' + rexmit_timeout c') =
      min 240 (2 ^ Suc n * rexmit_timeout c)"
    using assms(1) by (auto simp: c'(3) min_def algebra_simps)
  with c' Suc.prems show ?case
    by (simp add: TCPBaseAlg_processRexmitTimer_def Let_def timerFired_def timeoutAt_def) auto
qed

text \<open>C16: When acknowledgements stay away, each expiry of the retransmission timer doubles the timeout up
  to 240 seconds, schedules the timer again and abandons the round-trip measurement under way (Karn); the
  13th expiry in a row tells the application that the connection timed out and aborts it.\<close>

theorem rexmit_backoff_and_abort:
  assumes "0 < rexmit_timeout c" "rexmit_timeout c \<le> 240" "rexmit_count c = 0"
  shows "(n \<le> 12 \<longrightarrow> (\<exists>c'. rexmitExpiries env n c = Inr (c', TCP_E_IGNORE) \<and>
      rexmit_timeout c' = min 240 (2 ^ n * rexmit_timeout c) \<and> outs c' = outs c \<and>
      (0 < n \<longrightarrow> rexmitTimer c' = TimerAt (simTime env + rexmit_timeout c') \<and> rtseq_sendtime c' = 0))) \<and>
    (\<exists>c'. rexmitExpiries env 13 c = Inr (c', TCP_E_ABORT) \<and>
      outs c' = outs c @ [ToApp (appGateIndex c) (Indication TCP_I_TIMED_OUT (connId c))])"
proof
  show "n \<le> 12 \<longrightarrow> (\<exists>c'. rexmitExpiries env n c = Inr (c', TCP_E_IGNORE) \<and>
      rexmit_timeout c' = min 240 (2 ^ n * rexmit_timeout c) \<and> outs c' = outs c \<and>
      (0 < n \<longrightarrow> rexmitTimer c' = TimerAt (simTime env + rexmit_timeout c') \<and> rtseq_sendtime c' = 0))"
    using rexmitExpiries_backoff [OF assms, of n env] by blast
  obtain c' where "rexmitExpiries env 12 c = Inr (c', TCP_E_IGNORE)" "rexmit_count c' = 12"
    "outs c' = outs c" "appGateIndex c' = appGateIndex c" "connId c' = connId c"
    using rexmitExpiries_backoff [OF assms, of 12 env] by auto
  moreover have "rexmitExpiries env 13 c = andThen (rexmitExpiries env 12 c) (\<lambda>(c, event).
       TCPBaseAlg_processRexmitTimer env TCP_E_IGNORE (timerFired RexmitTimer c))"
    using rexmitExpiries.simps(2) [of env 12 c] by simp
  ultimately show "\<exists>c'. rexmitExpiries env 13 c = Inr (c', TCP_E_ABORT) \<and>
      outs c' = outs c @ [ToApp (appGateIndex c) (Indication TCP_I_TIMED_OUT (connId c))]"
    by (simp add: TCPBaseAlg_processRexmitTimer_def Let_def timerFired_def signalConnectionTimeout_def
        sendIndicationToApp_def)
qed

lemma rexmit_backoff_and_abort_witness:
  "\<exists>c'. rexmitExpiries exampleEnv 13 exampleSender = Inr (c', TCP_E_ABORT) \<and>
     outs c' = [ToApp 0 (Indication TCP_I_TIMED_OUT 5)]"
  using rexmit_backoff_and_abort [of exampleSender 0 exampleEnv]
  by (simp add: exampleSender_def newConnection_def blankConnection_def)

section \<open>Growth of the congestion window\<close>

text \<open>An acknowledgement of new data opens the congestion window: by one segment below the slow
  start threshold, and by at least one byte and at most one segment above it, as long as the 32 bit
  computation does not overflow. A congestion window of zero traps.\<close>

theorem cwnd_growth:
  assumes "0 < unat (snd_mss c)" "unat (snd_mss c) < 65536" "unat (snd_mss c) \<le> unat (snd_cwnd c)"
    and "unat (snd_cwnd c) + unat (snd_mss c) < 4294967296"
  shows "\<exists>c'. increaseCwnd c = Inr c' \<and> unat (snd_cwnd c) < unat (snd_cwnd c') \<and>
    unat (snd_cwnd c') \<le> unat (snd_cwnd c) + unat (snd_mss c) \<and>
    (snd_cwnd c < ssthresh c \<longrightarrow> unat (snd_cwnd c') = unat (snd_cwnd c) + unat (snd_mss c)) \<and>
    (\<not> snd_cwnd c < ssthresh c \<longrightarrow> unat (snd_cwnd c') = unat (snd_cwnd c) +
       max 1 (unat (snd_mss c) * unat (snd_mss c) div unat (snd_cwnd c)))"
proof -
  let ?m = "unat (snd_mss c)" and ?w = "unat (snd_cwnd c)"
  have plus: "unat (snd_cwnd c + x) = ?w + unat x" if "unat x \<le> ?m" for x
    using assms(4) that by (simp add: unat_plus_if_size word_size)
  have "?m * ?m \<le> 65535 * 65535" using assms(2) by (intro mult_le_mono) simp_all
  then have mm: "unat (snd_mss c * snd_mss c) = ?m * ?m"
    by (subst unat_mult_lem [THEN iffD1]) simp_all
  have d: "unat (snd_mss c * snd_mss c div snd_cwnd c) = ?m * ?m div ?w"
    by (simp add: unat_div mm)
  have "?m * ?m div ?w \<le> ?m * ?w div ?w" using assms(3) by (intro div_le_mono mult_le_mono2)
  then have le: "?m * ?m div ?w \<le> ?m" using assms(1,3) by simp
  have w0: "snd_cwnd c \<noteq> 0" using assms(1,3) by (metis le_zero_eq less_irrefl unat_0)
  define i where "i = (if snd_mss c * snd_mss c div snd_cwnd c = 0 then 1 else snd_mss c * snd_mss c div snd_cwnd c)"
  have i: "unat i = max 1 (?m * ?m div ?w)"
    using d by (auto simp: i_def max_def word_unat_eq_iff)
  show ?thesis
  proof (cases "snd_cwnd c < ssthresh c")
    case True
    then show ?thesis using plus [of "snd_mss c"] assms(1) by (simp add: increaseCwnd_def)
  next
    case False
    then have "increaseCwnd c = Inr (c\<lparr>snd_cwnd := snd_cwnd c + i\<rparr>)"
      using w0 by (simp add: increaseCwnd_def Let_def i_def)
    moreover have "unat i \<le> ?m" "0 < unat i" using i le assms(1) by auto
    ultimately show ?thesis using plus [of i] i False by simp
  qed
qed

lemma cwnd_growth_witness:
  "\<exists>c'. increaseCwnd (exampleSender\<lparr>ssthresh := 2000\<rparr>) = Inr c' \<and> unat (snd_cwnd c') = 3333"
  using cwnd_growth [of "exampleSender\<lparr>ssthresh := 2000\<rparr>"]
  by (force simp: exampleSender_def newConnection_def)

section \<open>Fast retransmit\<close>

text \<open>The third duplicate acknowledgement makes Tahoe and Reno send one segment again, from the
  first unacknowledged number on, set the slow start threshold to half of what may be in flight
  but at least two segments, restart the retransmission timer and abandon the round-trip measurement; Tahoe
  falls back to a window of one segment, Reno to the threshold plus three segments. The first two
  duplicates change nothing.\<close>

theorem fast_retransmit:
  assumes "canRetransmit c" "snd_max c \<noteq> queueEnd c + 1" "tcpAlgorithm c \<in> {TCPTahoe, TCPReno}"
  defines "thr \<equiv> max (min (snd_cwnd c) (snd_wnd c) div 2) (2 * snd_mss c)"
  shows "(dupacks c < 3 \<longrightarrow> alg_receivedDuplicateAck env c = Inr c) \<and>
    (dupacks c = 3 \<longrightarrow> (\<exists>c' seg. alg_receivedDuplicateAck env c = Inr c' \<and>
       outs c' = outs c @ [toPeer c seg] \<and> sequenceNo seg = snd_una c \<and>
       payloadLength seg = min (snd_mss c) (snd_max c - snd_una c) \<and> ssthresh c' = thr \<and>
       snd_cwnd c' = (if tcpAlgorithm c = TCPTahoe then snd_mss c else thr + 3 * snd_mss c) \<and>
       rexmitTimer c' = TimerAt (simTime env + rexmit_timeout c) \<and> rexmit_count c' = 0 \<and>
       rtseq_sendtime c' = 0 \<and> snd_una c' = snd_una c \<and> snd_max c' = snd_max c))"
proof (intro conjI impI)
  show "alg_receivedDuplicateAck env c = Inr c" if "dupacks c < 3"
    using that assms(3) by (auto simp: alg_receivedDuplicateAck_def TCPTahoe_receivedDuplicateAck_def
        TCPReno_receivedDuplicateAck_def TCPBaseAlg_receivedDuplicateAck_def)
  assume d: "dupacks c = 3"
  define b where "b = min (snd_mss c) (snd_max c - snd_una c)"
  obtain seg t where seg: "retransmitOneSegment c = Inr (c\<lparr>snd_nxt := snd_una c + b +
        (if finAt c (snd_una c + b) then 1 else 0), outs := outs c @ [toPeer c seg], delayedAckTimer := t\<rparr>)"
    "sequenceNo seg = snd_una c" "payloadLength seg = b"
    using retransmitOneSegment_data [OF assms(1,2)] unfolding b_def by blast
  have "rexmitTimer c \<noteq> TimerNull"
    using assms(1) by (simp add: canRetransmit_def canSend_def algTimersOk_def)
  then have t: "cancelTimer (rexmitTimer c) = Inr TimerIdle" by (cases "rexmitTimer c") auto
  show "\<exists>c' seg. alg_receivedDuplicateAck env c = Inr c' \<and>
       outs c' = outs c @ [toPeer c seg] \<and> sequenceNo seg = snd_una c \<and>
       payloadLength seg = min (snd_mss c) (snd_max c - snd_una c) \<and> ssthresh c' = thr \<and>
       snd_cwnd c' = (if tcpAlgorithm c = TCPTahoe then snd_mss c else thr + 3 * snd_mss c) \<and>
       rexmitTimer c' = TimerAt (simTime env + rexmit_timeout c) \<and> rexmit_count c' = 0 \<and>
       rtseq_sendtime c' = 0 \<and> snd_una c' = snd_una c \<and> snd_max c' = snd_max c"
    using assms(3) d t seg
    by (auto simp: alg_receivedDuplicateAck_def TCPTahoe_receivedDuplicateAck_def
        TCPReno_receivedDuplicateAck_def TCPBaseAlg_receivedDuplicateAck_def Let_def thr_def b_def
        TCPTahoe_recalculateSlowStartThreshold_def TCPReno_recalculateSlowStartThreshold_def
        TCPBaseAlg_startRexmitTimer_def timeoutAt_def)
qed

lemma fast_retransmit_witness:
  "\<exists>c'. alg_receivedDuplicateAck exampleEnv (exampleSender\<lparr>dupacks := 3\<rparr>) = Inr c' \<and>
     ssthresh c' = 2000 \<and> snd_cwnd c' = 5000"
proof -
  have "canRetransmit (exampleSender\<lparr>dupacks := 3\<rparr>)"
    by (simp add: canRetransmit_def canSend_def addrsOk_def algTimersOk_def queueOff_def queueEnd_def
        dataEnd_def exampleSender_def off_def newConnection_def blankConnection_def VirtualSQ_getBufferEndSeq_def)
  from fast_retransmit [OF this, of exampleEnv] show ?thesis
    by (auto simp: exampleSender_def newConnection_def queueEnd_def VirtualSQ_getBufferEndSeq_def)
qed

section \<open>No congestion control\<close>

named_theorems cwnd_dests \<open>routines that leave the congestion window alone\<close>

lemma cwnd_ackSent [cwnd_dests]: "ackSent c = Inr c' \<Longrightarrow> snd_cwnd c' = snd_cwnd c"
  by (auto simp: ackSent_def DumbTCP_ackSent_def TCPBaseAlg_ackSent_def res_simps
      split: TCPAlgorithm.splits if_splits)

lemma cwnd_startRexmitTimer [cwnd_dests]:
  "TCPBaseAlg_startRexmitTimer env c = Inr c' \<Longrightarrow> snd_cwnd c' = snd_cwnd c"
  by (auto simp: TCPBaseAlg_startRexmitTimer_def Let_def res_simps)

lemma cwnd_dataSent [cwnd_dests]: "dataSent env s c = Inr c' \<Longrightarrow> snd_cwnd c' = snd_cwnd c"
  by (auto simp: dataSent_def DumbTCP_dataSent_def TCPBaseAlg_dataSent_def res_simps
      split: TCPAlgorithm.splits if_splits dest!: cwnd_dests)

lemma cwnd_sendToIP [cwnd_dests]: "sendToIP seg c = Inr c' \<Longrightarrow> snd_cwnd c' = snd_cwnd c"
  by (auto simp: sendToIP_def Let_def res_simps split: if_splits)

lemma cwnd_sendAck [cwnd_dests]: "sendAck c = Inr c' \<Longrightarrow> snd_cwnd c' = snd_cwnd c"
  by (auto simp: sendAck_def res_simps dest!: cwnd_dests)

lemma cwnd_sendSegment [cwnd_dests]: "sendSegment n c = Inr c' \<Longrightarrow> snd_cwnd c' = snd_cwnd c"
  by (auto simp: sendSegment_def Let_def res_simps split: if_splits dest!: cwnd_sendToIP)

lemma cwnd_sendWholeSegments [cwnd_dests]:
  assumes "sendWholeSegments n c = Inr c'"
  shows "snd_cwnd c' = snd_cwnd c"
  by (rule sendWholeSegments_inv [where P = "\<lambda>d. snd_cwnd d = snd_cwnd c", OF _ assms])
     (simp_all add: cwnd_sendSegment)

lemma cwnd_sendData [cwnd_dests]: "sendData env f w c = Inr (c', b) \<Longrightarrow> snd_cwnd c' = snd_cwnd c"
  by (auto simp: sendData_def Let_def res_simps split: if_splits dest!: cwnd_dests)

lemma cwnd_retransmitOne [cwnd_dests]: "retransmitOneSegment c = Inr c' \<Longrightarrow> snd_cwnd c' = snd_cwnd c"
  by (auto simp: retransmitOneSegment_def Let_def res_simps dest!: cwnd_dests)

lemma cwnd_base_receivedDataAck [cwnd_dests]:
  "TCPBaseAlg_receivedDataAck env s c = Inr c' \<Longrightarrow> snd_cwnd c' = snd_cwnd c"
  by (auto simp: TCPBaseAlg_receivedDataAck_def TCPBaseAlg_rttMeasurementComplete_def
      Let_def res_simps split: if_splits dest!: cwnd_dests)

lemma cwnd_base_processRexmitTimer [cwnd_dests]:
  "TCPBaseAlg_processRexmitTimer env e c = Inr (c', e') \<Longrightarrow> snd_cwnd c' = snd_cwnd c"
  by (auto simp: TCPBaseAlg_processRexmitTimer_def signalConnectionTimeout_def sendIndicationToApp_def
      Let_def res_simps split: if_splits)

text \<open>\<^verbatim>\<open>TCPNoCongestionControl\<close> opens its congestion window to \<open>2 ^ 31 - 1\<close> when it
  is set up, but the method it inherits for the established connection sets the window to one
  segment, and nothing in this class opens it again: acknowledgements and retransmissions leave
  it, so the class without congestion control keeps a congestion window of one segment.\<close>

theorem no_congestion_control_window:
  assumes "tcpAlgorithm c = TCPNoCongestionControl"
  shows "snd_cwnd (alg_initialize c) = 0x7fffffff \<and>
    (\<forall>c'. alg_established env act c = Inr c' \<longrightarrow> snd_cwnd c' = snd_mss c) \<and>
    (\<forall>s c'. alg_receivedDataAck env s c = Inr c' \<longrightarrow> snd_cwnd c' = snd_cwnd c) \<and>
    (\<forall>c'. alg_receivedDuplicateAck env c = Inr c' \<longrightarrow> snd_cwnd c' = snd_cwnd c) \<and>
    (\<forall>event c'. alg_processRexmitTimer env event c = Inr c' \<longrightarrow> snd_cwnd (fst c') = snd_cwnd c)"
proof (intro conjI allI impI)
  show "snd_cwnd (alg_initialize c) = 0x7fffffff"
    using assms by (simp add: alg_initialize_def TCPNoCongestionControl_initialize_def)
  show "snd_cwnd c' = snd_mss c" if "alg_established env act c = Inr c'" for c'
    using that assms
    by (auto simp: alg_established_def TCPBaseAlg_established_def TCPBaseAlg_sendData_def Let_def res_simps
        split: if_splits dest!: cwnd_dests)
  show "snd_cwnd c' = snd_cwnd c" if "alg_receivedDataAck env s c = Inr c'" for s c'
    using that assms
    by (auto simp: alg_receivedDataAck_def TCPNoCongestionControl_receivedDataAck_def TCPBaseAlg_sendData_def
        res_simps dest!: cwnd_dests)
  show "snd_cwnd c' = snd_cwnd c" if "alg_receivedDuplicateAck env c = Inr c'" for c'
    using that assms by (simp add: alg_receivedDuplicateAck_def TCPBaseAlg_receivedDuplicateAck_def)
  show "snd_cwnd (fst c') = snd_cwnd c" if "alg_processRexmitTimer env event c = Inr c'" for event c'
    using that assms
    by (auto simp: alg_processRexmitTimer_def TCPNoCongestionControl_processRexmitTimer_def res_simps
        split: if_splits dest!: cwnd_dests)
qed

lemma no_congestion_control_window_witness:
  "\<exists>c'. alg_established exampleEnv False (exampleSender\<lparr>tcpAlgorithm := TCPNoCongestionControl\<rparr>) = Inr c' \<and>
     snd_cwnd c' = 1000"
proof -
  let ?c = "exampleSender\<lparr>tcpAlgorithm := TCPNoCongestionControl\<rparr>"
  have "\<exists>c'. alg_established exampleEnv False ?c = Inr c'"
    by (simp add: alg_established_def TCPBaseAlg_established_def Let_def)
  with no_congestion_control_window [of ?c exampleEnv False] show ?thesis
    by (auto simp: exampleSender_def newConnection_def)
qed

end
