(* ===== verification/TCP_QueueProps.thy ===== *)
theory TCP_QueueProps imports TCP_RcvSpec TCP_SendQueue
begin

text \<open>
  Properties of the sequence number arithmetic and of the two pairs of queues, up to the
  end-to-end transfer of messages from a send queue to a receive queue.
\<close>

section \<open>Transfer of messages\<close>

text \<open>A sender cuts what is queued from \<open>s\<close> on into consecutive segments of given sizes.\<close>

fun MsgSQ_segments :: "uint32 \<Rightarrow> ulong list \<Rightarrow> TCPMsgBasedSendQueue \<Rightarrow> TCPSegment list res" where
  "MsgSQ_segments s [] q = Inr []"
| "MsgSQ_segments s (n # ns) q =
     andThen (MsgSQ_createSegmentWithBytes s n q) (\<lambda>seg.
     andThen (MsgSQ_segments (s + ucast n) ns q) (\<lambda>segs. Inr (seg # segs)))"

lemma unat_ucast32: "unat (n :: ulong) < 4294967296 \<Longrightarrow> unat (ucast n :: uint32) = unat n"
  by (simp add: unsigned_ucast_eq take_bit_nat_eq_self)

lemma ucast_eq_of_nat: "of_nat (unat (n :: ulong)) = (ucast n :: uint32)"
  by (simp add: unsigned_of_nat)

lemma unat_of_nat32: "n < 4294967296 \<Longrightarrow> unat (of_nat n :: uint32) = n"
  by (simp add: unat_of_nat)

lemma payloadBetween_same [simp]: "MsgSQ_payloadBetween s s ps = []"
  by (induction ps) (simp_all add: MsgSQ_payloadBetween_def)

text \<open>A segment whose range lies inside the half space that the receiver looks at.\<close>

definition inHalf :: "uint32 \<Rightarrow> TCPSegment \<Rightarrow> bool" where
  "inHalf k seg \<longleftrightarrow> off k (sequenceNo seg) < off k (sequenceNo seg + payloadLength seg) \<and>
     off k (sequenceNo seg + payloadLength seg) < 2147483648"

lemma MsgSQ_segments_ok:
  assumes "MsgSQ_inv q" "\<forall>n \<in> set ns. n \<noteq> 0"
    and "off (mq_begin q) s + sum_list (map unat ns) \<le> off (mq_begin q) (mq_end q)"
  shows "\<exists>segs. MsgSQ_segments s ns q = Inr segs \<and>
    concat (map payloadList segs) =
      MsgSQ_payloadBetween s (s + of_nat (sum_list (map unat ns))) (payloadQueue q) \<and>
    (\<Union>seg \<in> set segs. segRange (mq_begin q) seg) =
      {off (mq_begin q) s ..< off (mq_begin q) s + sum_list (map unat ns)} \<and>
    (\<forall>seg \<in> set segs. inHalf (mq_begin q) seg)"
  using assms(2,3)
proof (induction ns arbitrary: s)
  case Nil
  then show ?case by (simp add: payloadBetween_same)
next
  case (Cons n ns)
  let ?k = "mq_begin q" and ?t = "sum_list (map unat ns)"
  have half: "off ?k (mq_end q) < 2147483648" using assms(1) by (simp add: MsgSQ_inv_def)
  have n: "unat (ucast n :: uint32) = unat n" "0 < unat n"
    using Cons.prems half by (auto intro!: unat_ucast32 simp: unat_gt_0)
  have t: "unat (of_nat ?t :: uint32) = ?t" using Cons.prems half by (intro unat_of_nat32) simp
  have sn: "off ?k (s + ucast n) = off ?k s + unat n"
    using off_add [of ?k s "ucast n"] n Cons.prems half by simp
  have snt: "off ?k (s + ucast n + of_nat ?t) = off ?k s + unat n + ?t"
    using off_add [of ?k "s + ucast n" "of_nat ?t"] sn t Cons.prems half by simp
  have sum: "s + of_nat (sum_list (map unat (n # ns))) = s + ucast n + of_nat ?t"
    by (simp add: ucast_eq_of_nat algebra_simps)
  from Cons.IH [of "s + ucast n"] Cons.prems sn obtain segs where
    segs: "MsgSQ_segments (s + ucast n) ns q = Inr segs"
    "concat (map payloadList segs) =
      MsgSQ_payloadBetween (s + ucast n) (s + ucast n + of_nat ?t) (payloadQueue q)"
    "(\<Union>seg \<in> set segs. segRange ?k seg) = {off ?k (s + ucast n) ..< off ?k (s + ucast n) + ?t}"
    "\<forall>seg \<in> set segs. inHalf ?k seg"
    by auto
  have "seqLE ?k s" "seqLE (s + ucast n) (mq_end q)"
    using seq_half(2) [of ?k ?k s] seq_half(2) [of ?k "s + ucast n" "mq_end q"] Cons.prems half sn
    by auto
  then obtain seg where seg: "MsgSQ_createSegmentWithBytes s n q = Inr seg"
    using msg_sq.create_Inr_iff [of s n q] by (auto simp: MsgSQ_getBufferEndSeq_def)
  note sf = msg_sq.create_InrD [OF seg] MsgSQ_create_payload [OF seg]
  have "segRange ?k seg = {off ?k s ..< off ?k s + unat n}"
    using sf(1,2) sn by (simp add: segRange_def)
  moreover have "inHalf ?k seg" using sf(1,2) sn n Cons.prems half by (simp add: inHalf_def)
  moreover have "MsgSQ_payloadBetween s (s + ucast n + of_nat ?t) (payloadQueue q) =
      MsgSQ_payloadBetween s (s + ucast n) (payloadQueue q) @
      MsgSQ_payloadBetween (s + ucast n) (s + ucast n + of_nat ?t) (payloadQueue q)"
    using sn snt Cons.prems by (intro MsgSQ_split [OF assms(1)]) simp_all
  ultimately show ?case
    unfolding sum using seg segs sf(6) sn by (auto simp: ivl_disj_un)
qed


text \<open>What the queue of the sender holds after the application has passed down some messages.\<close>

fun msgEnds :: "uint32 \<Rightarrow> cPacket list \<Rightarrow> (uint32 \<times> cPacket) list" where
  "msgEnds s [] = []"
| "msgEnds s (m # ms) = (s + ucast (byteLength m), m) # msgEnds (s + ucast (byteLength m)) ms"

lemma map_snd_msgEnds [simp]: "map snd (msgEnds s ms) = ms"
  by (induction ms arbitrary: s) auto

lemma enqueue_all:
  assumes "MsgSQ_inv q" "off (mq_begin q) (mq_end q) + pktBytes ms < 2147483648"
  shows "let q' = fold MsgSQ_enqueueAppData ms q in MsgSQ_inv q' \<and> mq_begin q' = mq_begin q \<and>
    off (mq_begin q) (mq_end q') = off (mq_begin q) (mq_end q) + pktBytes ms \<and>
    payloadQueue q' = payloadQueue q @ msgEnds (mq_end q) ms"
  using assms
proof (induction ms arbitrary: q)
  case Nil
  then show ?case by (simp add: pktBytes_def)
next
  case (Cons m ms)
  let ?q = "MsgSQ_enqueueAppData m q" and ?n = "ucast (byteLength m) :: uint32"
  have n: "unat ?n = unat (byteLength m)"
    using Cons.prems(2) by (intro unat_ucast32) (simp add: pktBytes_def)
  have f: "mq_begin ?q = mq_begin q" "mq_end ?q = mq_end q + ?n"
    "payloadQueue ?q = payloadQueue q @ [(mq_end q + ?n, m)]"
    by (simp_all add: MsgSQ_enqueueAppData_def Let_def)
  have e: "off (mq_begin q) (mq_end ?q) = off (mq_begin q) (mq_end q) + unat (byteLength m)"
    using off_add [of "mq_begin q" "mq_end q" ?n] Cons.prems(2) n f by (simp add: pktBytes_def)
  have "MsgSQ_inv ?q"
    using MsgSQ_inv_enqueue [OF Cons.prems(1)] Cons.prems(2) n by (simp add: pktBytes_def)
  from Cons.IH [OF this] Cons.prems(2) e f show ?case by (simp add: pktBytes_def Let_def)
qed

lemma msgEnds_sorted:
  assumes "\<forall>m \<in> set ms. byteLength m \<noteq> 0" "unat s + pktBytes ms < 4294967296"
  shows "sorted_wrt (<) (map fst (msgEnds s ms)) \<and>
    (\<forall>p \<in> set (msgEnds s ms). unat s < unat (fst p) \<and> unat (fst p) \<le> unat s + pktBytes ms)"
  using assms
proof (induction ms arbitrary: s)
  case (Cons m ms)
  let ?n = "ucast (byteLength m) :: uint32"
  have n: "unat ?n = unat (byteLength m)" "0 < unat ?n"
    using Cons.prems by (auto intro!: unat_ucast32 simp: pktBytes_def unat_gt_0 unat_ucast32)
  then have sn: "unat (s + ?n) = unat s + unat (byteLength m)"
    using Cons.prems by (simp add: unat_plus_if_size word_size pktBytes_def)
  have "sorted_wrt (<) (map fst (msgEnds (s + ?n) ms)) \<and>
    (\<forall>p \<in> set (msgEnds (s + ?n) ms). unat s + unat (byteLength m) < unat (fst p) \<and>
       unat (fst p) \<le> unat s + pktBytes (m # ms))"
    using Cons.IH [of "s + ?n"] Cons.prems sn by (simp add: pktBytes_def add.assoc)
  moreover have "s < s + ?n" using sn n by (simp add: word_less_nat_alt)
  ultimately show ?case using sn n
    by (auto simp: pktBytes_def word_less_nat_alt [of "s + ?n"] word_less_nat_alt [of s])
qed simp

section \<open>A receiver that gets the segments in any order\<close>

lemma payload_insert_spec:
  assumes "sorted_wrt (<) (map fst l)"
  shows "sorted_wrt (<) (map fst (payload_insert k m l)) \<and>
    set (payload_insert k m l) = (if k \<in> fst ` set l then set l else insert (k, m) (set l))"
  using assms
proof (induction k m l rule: payload_insert.induct)
  case (2 k m k' m' ps)
  consider (lt) "k < k'" | (eq) "k = k'" | (gt) "k' < k" by (rule linorder_cases)
  then show ?case
  proof cases
    case lt
    with 2(2) have "k \<notin> fst ` set ((k', m') # ps)" by (auto dest: less_trans)
    with lt 2(2) show ?thesis by (auto dest: less_trans)
  next
    case eq
    with 2(2) show ?thesis by simp
  next
    case gt
    then have ne: "\<not> k < k'" "k \<noteq> k'" by auto
    with 2(1) 2(2) gt show ?thesis by (auto split: if_splits)
  qed
qed simp

lemma payload_inserts:
  assumes "inj_on fst X" "set ps \<subseteq> X" "set l \<subseteq> X" "sorted_wrt (<) (map fst l)"
  shows "let l' = fold (\<lambda>p l. payload_insert (fst p) (snd p) l) ps l
    in sorted_wrt (<) (map fst l') \<and> set l' = set ps \<union> set l"
  using assms
proof (induction ps arbitrary: l)
  case (Cons p ps)
  let ?l = "payload_insert (fst p) (snd p) l"
  have s: "sorted_wrt (<) (map fst ?l)" using payload_insert_spec Cons.prems(4) by blast
  have known: "p \<in> set l" if "fst p \<in> fst ` set l"
  proof -
    from that obtain p' where "p' \<in> set l" "fst p' = fst p" by auto
    moreover have "p' \<in> X" "p \<in> X" using calculation Cons.prems(2,3) by auto
    ultimately show ?thesis using inj_onD [OF Cons.prems(1)] by blast
  qed
  have "set ?l = (if fst p \<in> fst ` set l then set l else insert (fst p, snd p) (set l))"
    using payload_insert_spec [OF Cons.prems(4)] by blast
  then have "set ?l = insert p (set l)"
    using known by (cases "fst p \<in> fst ` set l") (simp_all only: if_True if_False insert_absorb prod.collapse)
  moreover have "set ps \<subseteq> X" "set ?l \<subseteq> X" using Cons.prems(2,3) calculation by auto
  ultimately show ?case using Cons.IH [OF Cons.prems(1) _ _ s] by (clarsimp simp: Let_def)
qed simp

text \<open>
  As long as nothing is passed up, everything below \<^verbatim>\<open>rcv_nxt\<close> is held, and every
  segment of the half space fits.
\<close>

lemma inserts_all:
  assumes "rqInv k q" "\<forall>x < off k (rq_rcv_nxt q). x \<in> held k q" "\<forall>seg \<in> set ss. inHalf k seg"
    and "inj_on fst X" "\<forall>seg \<in> set ss. set (payloadList seg) \<subseteq> X"
    and "set (rq_payloadList q) \<subseteq> X" "sorted_wrt (<) (map fst (rq_payloadList q))"
  shows "let q' = fold MsgRQ_insertBytesFromSegment ss q in rqInv k q' \<and> (\<forall>x < off k (rq_rcv_nxt q'). x \<in> held k q') \<and>
    held k q' = (\<Union>seg \<in> set ss. segRange k seg) \<union> held k q \<and>
    set (rq_payloadList q') = (\<Union>seg \<in> set ss. set (payloadList seg)) \<union> set (rq_payloadList q) \<and>
    sorted_wrt (<) (map fst (rq_payloadList q'))"
  using assms
proof (induction ss arbitrary: q)
  case (Cons seg ss)
  let ?q = "MsgRQ_insertBytesFromSegment seg q"
  have fits: "fits k seg q"
    using Cons.prems(2,3) by (auto simp: fits_def inHalf_def)
  note v = msg_rq.insert_inv [OF Cons.prems(1) fits] msg_rq.insert_bytes [OF Cons.prems(1) fits]
    msg_rq.insert_nxt [OF Cons.prems(1) fits]
  have low: "\<forall>x < off k (rq_rcv_nxt ?q). x \<in> held k ?q"
  proof (intro allI impI)
    fix x assume "x < off k (rq_rcv_nxt ?q)"
    then have "x < off k (rq_rcv_nxt q) \<or> x \<in> {off k (rq_rcv_nxt q)..<off k (rq_rcv_nxt ?q)}" by auto
    with v Cons.prems(2) show "x \<in> held k ?q" by blast
  qed
  have pl: "rq_payloadList ?q =
      fold (\<lambda>p l. payload_insert (fst p) (snd p) l) (payloadList seg) (rq_payloadList q)"
    by (simp add: MsgRQ_insertBytesFromSegment_def VirtualRQ_insertBytesFromSegment_def Let_def)
  have p: "sorted_wrt (<) (map fst (rq_payloadList ?q))"
    "set (rq_payloadList ?q) = set (payloadList seg) \<union> set (rq_payloadList q)"
    using payload_inserts [OF Cons.prems(4) _ Cons.prems(6,7), of "payloadList seg"] Cons.prems(5)
    by (simp_all add: pl Let_def)
  have "\<forall>s \<in> set ss. inHalf k s" "\<forall>s \<in> set ss. set (payloadList s) \<subseteq> X"
    "set (rq_payloadList ?q) \<subseteq> X"
    using Cons.prems(3,5,6) p by auto
  from Cons.IH [OF v(1) low this(1) Cons.prems(4) this(2,3) p(1)] v(2) p(2) show ?case
    by (clarsimp simp: Un_ac Let_def) blast
qed simp


lemma MsgRQ_fold_insert:
  "fold rq_insertBytesFromSegment ss (MsgBasedRcvQueue q) =
   MsgBasedRcvQueue (fold MsgRQ_insertBytesFromSegment ss q)"
  by (induction ss arbitrary: q) auto

lemma strict_sorted_fst_unique:
  assumes "sorted_wrt (<) (map fst xs)" "sorted_wrt (<) (map fst ys)" "set xs = set ys"
  shows "xs = (ys :: ('a::linorder \<times> 'b) list)"
proof -
  have "distinct (map fst ys)" using assms(2) by (simp add: strict_sorted_iff)
  then have "inj_on fst (set xs \<union> set ys)" using assms(3) by (simp add: distinct_map)
  moreover have "map fst xs = map fst ys"
    using assms by (intro strict_sorted_equal) auto
  ultimately show ?thesis by (simp add: inj_on_map_eq_map)
qed

lemma unat_off: "unat s + off s x < 4294967296 \<Longrightarrow> unat x = unat s + off s x"
  using unat32_lt [of x] unat32_lt [of s] by (auto simp: off_alt split: if_splits)

lemma complete_nxt:
  assumes "rqInv s q" "held s q = {0..<t}" "\<forall>x < off s (rq_rcv_nxt q). x \<in> held s q"
    and "t < 4294967296"
  shows "rq_rcv_nxt q = s + of_nat t"
proof -
  have "off s (rq_rcv_nxt q) \<notin> {0..<t}" using rqInv_nxt_not_held [OF assms(1)] assms(2) by simp
  moreover have "\<not> t < off s (rq_rcv_nxt q)" using assms(2,3) by auto
  ultimately have "off s (rq_rcv_nxt q) = t" by simp
  also have "\<dots> = off s (s + of_nat t)" using assms(4) by (simp add: unat_of_nat32)
  finally show ?thesis by (simp only: off_inj)
qed

lemma complete_noWrap:
  assumes "rqInv s q" "held s q = {0..<t}" "unat s + t < 4294967296"
  shows "noWrap q"
proof -
  have "rbegin r < rend r" if r: "r \<in> set (regionList q)" for r
  proof -
    have lt: "off s (rbegin r) < off s (rend r)"
      using assms(1) r by (auto simp: rqInv_def okR_def okN_def)
    then have "off s (rend r) - 1 \<in> held s q" using r by (auto simp: held_def covR_iff intro!: bexI [of _ r])
    with assms(2,3) lt have "unat s + off s (rend r) < 4294967296" by simp
    with lt show ?thesis using unat_off [of s "rbegin r"] unat_off [of s "rend r"]
      by (simp add: word_less_nat_alt)
  qed
  then show ?thesis by (simp add: noWrap_def)
qed

lemma fresh_rcv_queue:
  "rqInv s \<lparr>rq_rcv_nxt = s, regionList = [], rq_payloadList = []\<rparr>"
  "held s \<lparr>rq_rcv_nxt = s, regionList = [], rq_payloadList = []\<rparr> = {}"
  by (simp_all add: rqInv_def okR_def held_def covR_def)

text \<open>The sender's half: the segments carry all messages, in order, and cover all bytes.\<close>

lemma msgEnds_off:
  assumes "\<forall>m \<in> set ms. byteLength m \<noteq> 0" "unat s + pktBytes ms < 4294967296" "p \<in> set (msgEnds s ms)"
  shows "0 < off s (fst p)" "off s (fst p) \<le> pktBytes ms"
  using msgEnds_sorted [OF assms(1,2)] assms(3) by (auto simp: off_alt)

lemma msgEnds_all:
  assumes "\<forall>m \<in> set ms. byteLength m \<noteq> 0" "unat s + pktBytes ms < 4294967296" "pktBytes ms < 2147483648"
  shows "MsgSQ_payloadBetween s (s + of_nat (pktBytes ms)) (msgEnds s ms) = msgEnds s ms"
proof -
  let ?E = "msgEnds s ms" and ?t = "pktBytes ms"
  note E = msgEnds_off [OF assms(1,2)]
  have "off s (s + of_nat ?t) = ?t" using assms(3) by (simp add: unat_of_nat32)
  then have "MsgSQ_payloadBetween s (s + of_nat ?t) ?E = takeWhile (\<lambda>p. off s (fst p) \<le> ?t)
     (dropWhile (\<lambda>p. off s (fst p) \<le> 0) ?E)"
    using payloadBetween_off [of ?E s s "s + of_nat ?t"] assms(3) E by fastforce
  also have "dropWhile (\<lambda>p. off s (fst p) \<le> 0) ?E = ?E"
    using E(1) [of "hd ?E"] by (cases "?E = []") (auto simp: dropWhile_eq_self_iff)
  also have "takeWhile (\<lambda>p. off s (fst p) \<le> ?t) ?E = ?E" using E(2) by (simp add: takeWhile_eq_all_conv)
  finally show ?thesis .
qed

lemma sender_segments:
  assumes msgs: "\<forall>m \<in> set msgs. byteLength m \<noteq> 0"
    and small: "pktBytes msgs < 2147483648" "unat s + pktBytes msgs < 4294967296"
    and sizes: "\<forall>n \<in> set ns. n \<noteq> 0" "sum_list (map unat ns) = pktBytes msgs"
  obtains segs where
    "MsgSQ_segments s ns (fold MsgSQ_enqueueAppData msgs (MsgSQ_init s MsgSQ_new)) = Inr segs"
    "(\<Union>seg \<in> set segs. set (payloadList seg)) = set (msgEnds s msgs)"
    "(\<Union>seg \<in> set segs. segRange s seg) = {0..<pktBytes msgs}" "\<forall>seg \<in> set segs. inHalf s seg"
proof -
  let ?q = "fold MsgSQ_enqueueAppData msgs (MsgSQ_init s MsgSQ_new)"
  have "MsgSQ_inv (MsgSQ_init s MsgSQ_new)" by (rule MsgSQ_inv_init) (simp add: MsgSQ_new_def)
  from enqueue_all [OF this, of msgs] small have q: "MsgSQ_inv ?q" "mq_begin ?q = s"
    "off s (mq_end ?q) = pktBytes msgs" "payloadQueue ?q = msgEnds s msgs"
    by (auto simp: Let_def MsgSQ_init_def MsgSQ_new_def)
  from MsgSQ_segments_ok [OF q(1) sizes(1), of s] sizes(2) q obtain segs where
    segs: "MsgSQ_segments s ns ?q = Inr segs"
    "concat (map payloadList segs) = msgEnds s msgs"
    "(\<Union>seg \<in> set segs. segRange s seg) = {0..<pktBytes msgs}" "\<forall>seg \<in> set segs. inHalf s seg"
    by (auto simp: msgEnds_all [OF msgs small(2,1)])
  from arg_cong [OF segs(2), of set] have "(\<Union>seg \<in> set segs. set (payloadList seg)) = set (msgEnds s msgs)"
    by simp
  with segs that show thesis by blast
qed

text \<open>The receiver's half: whatever the order, the queue ends up holding all of it.\<close>

lemma receiver_any_order:
  assumes msgs: "\<forall>m \<in> set msgs. byteLength m \<noteq> 0"
    and small: "pktBytes msgs < 2147483648" "unat s + pktBytes msgs < 4294967296"
    and ss: "(\<Union>seg \<in> set ss. set (payloadList seg)) = set (msgEnds s msgs)"
      "(\<Union>seg \<in> set ss. segRange s seg) = {0..<pktBytes msgs}" "\<forall>seg \<in> set ss. inHalf s seg"
  defines "r \<equiv> fold MsgRQ_insertBytesFromSegment ss
      \<lparr>rq_rcv_nxt = s, regionList = [], rq_payloadList = []\<rparr>"
  shows "rqInv s r" "noWrap r" "rq_rcv_nxt r = s + of_nat (pktBytes msgs)"
    "rq_payloadList r = msgEnds s msgs"
proof -
  let ?fresh = "\<lparr>rq_rcv_nxt = s, regionList = [], rq_payloadList = []\<rparr>" and ?E = "msgEnds s msgs"
  note E = msgEnds_sorted [OF msgs small(2)]
  have X: "inj_on fst (set ?E)" using E by (simp add: strict_sorted_iff distinct_map)
  note fresh = fresh_rcv_queue [of s]
  have "\<forall>x < off s (rq_rcv_nxt ?fresh). x \<in> held s ?fresh" "\<forall>seg \<in> set ss. set (payloadList seg) \<subseteq> set ?E"
    "set (rq_payloadList ?fresh) \<subseteq> set ?E" "sorted_wrt (<) (map fst (rq_payloadList ?fresh))"
    unfolding ss(1) [symmetric] by auto
  note ins = inserts_all [OF fresh(1) this(1) ss(3) X this(2-4), unfolded Let_def, folded r_def]
  have r: "rqInv s r" "\<forall>x < off s (rq_rcv_nxt r). x \<in> held s r" using ins by blast+
  have r': "held s r = {0..<pktBytes msgs}" "set (rq_payloadList r) = set ?E"
    "sorted_wrt (<) (map fst (rq_payloadList r))"
    using ins unfolding ss(1,2) fresh(2) by simp_all
  show "rqInv s r" by (rule r(1))
  show "noWrap r" by (rule complete_noWrap [OF r(1) r'(1) small(2)])
  show "rq_rcv_nxt r = s + of_nat (pktBytes msgs)" using complete_nxt [OF r(1) r'(1) r(2)] small by simp
  show "rq_payloadList r = ?E" using strict_sorted_fst_unique [OF r'(3) _ r'(2)] E by blast
qed

text \<open>C1: End to end: whatever messages an application passes down, in whatever sizes the sender
  cuts them into segments, and in whatever order and however often these segments arrive, the receiver
  acknowledges exactly the bytes sent and passes up exactly the messages, in the order in which
  they were sent (as long as the numbers do not cross the end of the number space).\<close>

theorem msg_transfer_exact:
  assumes msgs: "\<forall>m \<in> set msgs. byteLength m \<noteq> 0"
    and small: "pktBytes msgs < 2147483648" "unat s + pktBytes msgs < 4294967296"
    and sizes: "\<forall>n \<in> set ns. n \<noteq> 0" "sum_list (map unat ns) = pktBytes msgs"
  shows "\<exists>segs. MsgSQ_segments s ns (fold MsgSQ_enqueueAppData msgs (MsgSQ_init s MsgSQ_new)) = Inr segs \<and>
    (\<forall>ss. set ss = set segs \<longrightarrow> (\<exists>q q'. fold rq_insertBytesFromSegment ss
        (rq_init s (MsgBasedRcvQueue \<lparr>rq_rcv_nxt = 0, regionList = [], rq_payloadList = []\<rparr>)) = q \<and>
      rq_nxt q = s + of_nat (pktBytes msgs) \<and> rq_extractAll (rq_nxt q) q = Inr (q', msgs)))"
proof -
  obtain segs where segs: "MsgSQ_segments s ns (fold MsgSQ_enqueueAppData msgs (MsgSQ_init s MsgSQ_new)) = Inr segs"
    "(\<Union>seg \<in> set segs. set (payloadList seg)) = set (msgEnds s msgs)"
    "(\<Union>seg \<in> set segs. segRange s seg) = {0..<pktBytes msgs}" "\<forall>seg \<in> set segs. inHalf s seg"
    by (rule sender_segments [OF msgs small sizes])
  show ?thesis
  proof (intro exI [of _ segs] conjI allI impI segs(1))
    fix ss assume ss: "set ss = set segs"
    let ?r = "fold MsgRQ_insertBytesFromSegment ss \<lparr>rq_rcv_nxt = s, regionList = [], rq_payloadList = []\<rparr>"
    note r = receiver_any_order [OF msgs small segs(2-4) [folded ss]]
    have "\<forall>p \<in> set (msgEnds s msgs). \<not> seqGreater (fst p) (s + of_nat (pktBytes msgs))"
      using msgEnds_off [OF msgs small(2)] small(1)
      by (fastforce simp: seq_half(3) [of s] unat_of_nat32)
    then have tw: "takeWhile (\<lambda>p. \<not> seqGreater (fst p) (rq_rcv_nxt ?r)) (msgEnds s msgs) = msgEnds s msgs"
      by (simp add: r(3))
    obtain q' where "rq_extractAll (rq_rcv_nxt ?r) (MsgBasedRcvQueue ?r) = Inr (MsgBasedRcvQueue q',
        map snd (takeWhile (\<lambda>p. \<not> seqGreater (fst p) (rq_rcv_nxt ?r)) (rq_payloadList ?r)))"
      by (rule msg_extractAll [OF r(1,2)])
    then have "rq_extractAll (rq_rcv_nxt ?r) (MsgBasedRcvQueue ?r) = Inr (MsgBasedRcvQueue q', msgs)"
      unfolding r(4) tw by simp
    with r(3) show "\<exists>q q'. fold rq_insertBytesFromSegment ss (rq_init s (MsgBasedRcvQueue
        \<lparr>rq_rcv_nxt = 0, regionList = [], rq_payloadList = []\<rparr>)) = q \<and>
      rq_nxt q = s + of_nat (pktBytes msgs) \<and> rq_extractAll (rq_nxt q) q = Inr (q', msgs)"
      by (auto simp: MsgRQ_fold_insert VirtualRQ_init_def)
  qed
qed

lemma msg_transfer_exact_witness:
  "\<exists>segs. MsgSQ_segments 7 [2, 3] (fold MsgSQ_enqueueAppData
      [\<lparr>pktName = ''a'', byteLength = 1\<rparr>, \<lparr>pktName = ''b'', byteLength = 4\<rparr>] (MsgSQ_init 7 MsgSQ_new)) = Inr segs"
  using msg_transfer_exact [of "[\<lparr>pktName = ''a'', byteLength = 1\<rparr>, \<lparr>pktName = ''b'', byteLength = 4\<rparr>]"
      7 "[2, 3]"]
  by (auto simp: pktBytes_def)

section \<open>Sequence numbers\<close>

text \<open>Numbers that lie less than half of the number space above a common base are compared as
  their distances from the base, wrap-around included; two numbers exactly half of the number
  space apart are in neither order.\<close>

theorem seq_comparison_window:
  "(off k a < 2147483648 \<and> off k b < 2147483648 \<longrightarrow>
     (seqLess a b \<longleftrightarrow> off k a < off k b) \<and> (seqLE a b \<longleftrightarrow> off k a \<le> off k b) \<and>
     (seqGreater a b \<longleftrightarrow> off k b < off k a) \<and> (seqGE a b \<longleftrightarrow> off k b \<le> off k a)) \<and>
   (\<not> seqGE a b \<and> \<not> seqLE a b \<longleftrightarrow> off a b = 2147483648)"
  using seq_half [of k a b] seq_gap [of a b] by blast

lemma seq_comparison_window_witness:
  "seqLess 4294967290 5 \<and> \<not> seqGE 7 2147483655 \<and> \<not> seqLE 7 2147483655"
  using seq_comparison_window [of 4294967000 4294967290 5] seq_comparison_window [of 0 7 2147483655]
  by (simp add: off_def)

section \<open>The send queue\<close>

text \<open>A segment can be made from the send queue of a connection exactly for a range of what is
  queued; it then starts at the requested number with the requested length and changes nothing
  else of an empty segment but its payload messages. Discarding is possible exactly up to a queued
  number, and no byte below that number can be sent afterwards.\<close>

theorem send_queue_contract:
  "((\<exists>seg. sq_createSegmentWithBytes s n q = Inr seg) \<longleftrightarrow>
      seqLE (sq_begin q) s \<and> seqLE (s + ucast n) (sq_getBufferEndSeq q)) \<and>
   (\<forall>seg. sq_createSegmentWithBytes s n q = Inr seg \<longrightarrow> seg = createTCPSegment\<lparr>sequenceNo := s,
      payloadLength := ucast n, payloadList := payloadList seg\<rparr>) \<and>
   ((\<exists>q'. sq_discardUpTo s q = Inr q') \<longleftrightarrow> seqLE (sq_begin q) s \<and> seqLE s (sq_getBufferEndSeq q)) \<and>
   (\<forall>q' r m seg. sq_discardUpTo s q = Inr q' \<longrightarrow> sq_createSegmentWithBytes r m q' = Inr seg \<longrightarrow>
      seqLE s r \<and> sq_getBufferEndSeq q' = sq_getBufferEndSeq q)"
  using sq.create_Inr_iff [of s n q] sq.create_InrD(5) [of s n q] sq.discard_Inr_iff [of s q]
    sq.discard_create sq.discard_InrD(2) by blast

lemma send_queue_contract_witness:
  "\<exists>seg. sq_createSegmentWithBytes 10 5 (VirtualDataSendQueue \<lparr>vq_begin = 8, vq_end = 20\<rparr>) = Inr seg"
  using send_queue_contract [of 10 5 "VirtualDataSendQueue \<lparr>vq_begin = 8, vq_end = 20\<rparr>"]
  by (simp add: VirtualSQ_getBufferEndSeq_def seqLE_def)


section \<open>The receive queue\<close>

text \<open>C6: The number that inserting a segment returns, which is sent as the acknowledgement, is the
  first missing byte: counted from the old one, it is the least number that is covered neither by the
  segment nor by what the queue held. The queue then holds the union of both.\<close>

theorem rcv_ack_first_missing:
  assumes "rq_inv k q" "rq_fits k seg q"
  shows "off k (rq_nxt (rq_insertBytesFromSegment seg q)) =
      (LEAST n. off k (rq_nxt q) \<le> n \<and> n \<notin> segRange k seg \<union> rq_held k q) \<and>
    rq_held k (rq_insertBytesFromSegment seg q) = segRange k seg \<union> rq_held k q \<and>
    rq_inv k (rq_insertBytesFromSegment seg q)"
  using rq.insert_ack_first_missing [OF assms] rq.insert_bytes [OF assms] rq.insert_inv [OF assms]
  by blast

text \<open>A queue with a gap: 10..14 are missing, 15..19 are there.\<close>

definition gapQueue :: TCPReceiveQueue where
  "gapQueue = VirtualDataRcvQueue \<lparr>rq_rcv_nxt = 10, regionList = [\<lparr>rbegin = 15, rend = 20\<rparr>]\<rparr>"

lemma gapQueue_inv: "rq_inv 10 gapQueue"
  by (simp add: gapQueue_def rq_inv_def rqInv_def okR_def off_def)

lemma gapQueue_fits:
  "0 < n \<Longrightarrow> n < 1000 \<Longrightarrow>
   rq_fits 10 (createTCPSegment\<lparr>sequenceNo := 10, payloadLength := of_nat n\<rparr>) gapQueue"
  by (simp add: gapQueue_def rq_fits_def fits_def createTCPSegment_def unat_of_nat32)

lemma rcv_ack_first_missing_witness:
  "off 10 (rq_nxt (rq_insertBytesFromSegment
      (createTCPSegment\<lparr>sequenceNo := 10, payloadLength := 5\<rparr>) gapQueue)) =
   (LEAST n. n \<notin> segRange 10 (createTCPSegment\<lparr>sequenceNo := 10, payloadLength := 5\<rparr>) \<union> rq_held 10 gapQueue)"
  using rcv_ack_first_missing [OF gapQueue_inv gapQueue_fits [of 5]]
  by (simp add: gapQueue_def)

text \<open>Two segments may arrive in either order: the same bytes are held and the same number is
  acknowledged. A segment whose bytes are all held already changes neither.\<close>

theorem rcv_order_irrelevant:
  assumes "rq_inv k q" "rq_fits k s q" "rq_fits k t q"
    and "rq_fits k t (rq_insertBytesFromSegment s q)" "rq_fits k s (rq_insertBytesFromSegment t q)"
  defines "st \<equiv> rq_insertBytesFromSegment t (rq_insertBytesFromSegment s q)"
    and "ts \<equiv> rq_insertBytesFromSegment s (rq_insertBytesFromSegment t q)"
  shows "rq_held k st = rq_held k ts \<and> rq_nxt st = rq_nxt ts \<and>
    (segRange k s \<subseteq> rq_held k q \<longrightarrow> rq_nxt (rq_insertBytesFromSegment s q) = rq_nxt q \<and>
       rq_held k (rq_insertBytesFromSegment s q) = rq_held k q)"
  using rq.insert_order_irrelevant [OF assms(1-5)] rq.insert_duplicate [OF assms(1,2)]
  by (simp add: st_def ts_def)

lemma rcv_order_irrelevant_witness:
  "rq_nxt (rq_insertBytesFromSegment (createTCPSegment\<lparr>sequenceNo := 10, payloadLength := 7\<rparr>)
      (rq_insertBytesFromSegment (createTCPSegment\<lparr>sequenceNo := 10, payloadLength := 5\<rparr>) gapQueue)) =
   rq_nxt (rq_insertBytesFromSegment (createTCPSegment\<lparr>sequenceNo := 10, payloadLength := 5\<rparr>)
      (rq_insertBytesFromSegment (createTCPSegment\<lparr>sequenceNo := 10, payloadLength := 7\<rparr>) gapQueue))"
proof -
  let ?s = "createTCPSegment\<lparr>sequenceNo := 10, payloadLength := 5\<rparr>"
    and ?t = "createTCPSegment\<lparr>sequenceNo := 10, payloadLength := 7\<rparr>"
  have "rq_insertBytesFromSegment ?s gapQueue = VirtualDataRcvQueue \<lparr>rq_rcv_nxt = 20, regionList = [\<lparr>rbegin = 10, rend = 20\<rparr>]\<rparr>"
    "rq_insertBytesFromSegment ?t gapQueue = VirtualDataRcvQueue \<lparr>rq_rcv_nxt = 20, regionList = [\<lparr>rbegin = 10, rend = 20\<rparr>]\<rparr>"
    by code_simp+
  then have "rq_fits 10 ?t (rq_insertBytesFromSegment ?s gapQueue)" "rq_fits 10 ?s (rq_insertBytesFromSegment ?t gapQueue)"
    by (simp_all add: rq_fits_def fits_def createTCPSegment_def held_def covR_def off_def)
  with rcv_order_irrelevant [OF gapQueue_inv _ _ this] gapQueue_fits [of 5] gapQueue_fits [of 7]
  show ?thesis by simp
qed

text \<open>C7: When the connection passes up what the byte-counting queue has received in order, the
  packets it passes up have together exactly as many bytes as the queue held below
  \<^verbatim>\<open>rcv_nxt\<close>, the queue keeps exactly the bytes above it, and another attempt passes up
  nothing.\<close>

theorem rcv_delivery_exact:
  assumes "rqInv k q" "noWrap q"
  shows "\<exists>q' ms. rq_extractAll (rq_rcv_nxt q) (VirtualDataRcvQueue q) = Inr (VirtualDataRcvQueue q', ms) \<and>
    pktBytes ms = card {x \<in> held k q. x < off k (rq_rcv_nxt q)} \<and>
    held k q' = {x \<in> held k q. off k (rq_rcv_nxt q) \<le> x} \<and>
    rqInv (rq_rcv_nxt q) q' \<and> rq_rcv_nxt q' = rq_rcv_nxt q \<and>
    rq_extractAll (rq_rcv_nxt q) (VirtualDataRcvQueue q') = Inr (VirtualDataRcvQueue q', [])"
proof -
  obtain q' ms where x: "rq_extractAll (rq_rcv_nxt q) (VirtualDataRcvQueue q) = Inr (VirtualDataRcvQueue q', ms)"
    "pktBytes ms = card {x \<in> held k q. x < off k (rq_rcv_nxt q)}"
    "held k q' = {x \<in> held k q. off k (rq_rcv_nxt q) \<le> x}"
    "rqInv k q'" "rq_rcv_nxt q' = rq_rcv_nxt q" "delivered q'" "noWrap q'"
    by (rule virtual_extractAll [OF assms])
  have "rq_extractAll (rq_rcv_nxt q) (VirtualDataRcvQueue q') = Inr (VirtualDataRcvQueue q', [])"
    using extractTo_none [OF x(4,6,7)] x(5)
    by (subst rq_extractAll.simps) (simp add: VirtualRQ_extractBytesUpTo_def)
  with x rqInv_rebase [OF x(4,6)] show ?thesis by auto
qed

lemma rcv_delivery_exact_witness:
  "\<exists>q' ms. rq_extractAll 14 (VirtualDataRcvQueue \<lparr>rq_rcv_nxt = 14, regionList =
       [\<lparr>rbegin = 10, rend = 14\<rparr>, \<lparr>rbegin = 16, rend = 20\<rparr>]\<rparr>) = Inr (VirtualDataRcvQueue q', ms) \<and>
     rq_rcv_nxt q' = 14"
  using rcv_delivery_exact [of 10 "\<lparr>rq_rcv_nxt = 14, regionList =
       [\<lparr>rbegin = 10, rend = 14\<rparr>, \<lparr>rbegin = 16, rend = 20\<rparr>]\<rparr>"]
  by (force simp: rqInv_def okR_def off_def noWrap_def)

text \<open>The check for empty regions compares the ends of a region as plain numbers. A segment that
  arrives in order and whose text runs to or across the end of the number space makes the extraction
  that follows fail this assertion.\<close>

theorem rcv_wrap_assertion_fails:
  assumes "rq_rcv_nxt q = sequenceNo seg" "regionList q = []"
    and "0 < unat (payloadLength seg)" "unat (payloadLength seg) < 2147483648"
    and "4294967296 \<le> unat (sequenceNo seg) + unat (payloadLength seg)"
  defines "r \<equiv> rq_insertBytesFromSegment seg (VirtualDataRcvQueue q)"
  shows "rq_nxt r = sequenceNo seg + payloadLength seg \<and>
    rq_extractAll (rq_nxt r) r = Inl (AssertFailed ''i->begin<i->end'')"
proof -
  have "\<not> sequenceNo seg < sequenceNo seg + payloadLength seg"
    using assms(3-5) unat32_lt [of "sequenceNo seg"]
    by (simp add: word_less_nat_alt unat_plus_if_size word_size)
  with assms(1,2) show ?thesis
    by (simp add: r_def VirtualRQ_insertBytesFromSegment_def Let_def rq_extractAll.simps
        VirtualRQ_extractBytesUpTo_def VirtualRQ_extractTo_def)
qed

lemma rcv_wrap_assertion_fails_witness:
  "rq_extractAll (rq_nxt (rq_insertBytesFromSegment (createTCPSegment\<lparr>sequenceNo := 4294967290, payloadLength := 10\<rparr>)
     (VirtualDataRcvQueue \<lparr>rq_rcv_nxt = 4294967290, regionList = []\<rparr>)))
    (rq_insertBytesFromSegment (createTCPSegment\<lparr>sequenceNo := 4294967290, payloadLength := 10\<rparr>)
     (VirtualDataRcvQueue \<lparr>rq_rcv_nxt = 4294967290, regionList = []\<rparr>)) =
   Inl (AssertFailed ''i->begin<i->end'')"
  by (rule rcv_wrap_assertion_fails [THEN conjunct2]) (simp_all add: createTCPSegment_def)

end
