(* ===== verification/IP_Address.thy ===== *)
theory IP_Address imports Inet_Prelude
begin

text \<open>
  IPv4 addresses: \<^verbatim>\<open>src/src/networklayer/contract/IPAddress.{h,cc}\<close>, with the tests
  on classes, netmasks and prefixes and the textual form.
\<close>

unbundle bit_operations_syntax

type_synonym IPAddress = uint32

section \<open>Bytes, masks and prefixes\<close>

definition IPAddress_set :: "int \<Rightarrow> int \<Rightarrow> int \<Rightarrow> int \<Rightarrow> IPAddress" where
  "IPAddress_set i0 i1 i2 i3 = push_bit 24 (word_of_int i0) OR push_bit 16 (word_of_int i1) OR
     push_bit 8 (word_of_int i2) OR word_of_int i3"

definition getDByte :: "nat \<Rightarrow> IPAddress \<Rightarrow> int" where
  "getDByte i addr = uint (drop_bit ((3 - i) * 8) addr AND 0xFF)"

definition isMulticast :: "IPAddress \<Rightarrow> bool" where
  "isMulticast addr \<longleftrightarrow> addr AND 0xF0000000 = 0xE0000000"

definition isLinkLocalMulticast :: "IPAddress \<Rightarrow> bool" where
  "isLinkLocalMulticast addr \<longleftrightarrow> addr AND 0xFFFFFF00 = 0xE0000000"

definition maskedAddrAreEqual :: "IPAddress \<Rightarrow> IPAddress \<Rightarrow> IPAddress \<Rightarrow> bool" where
  "maskedAddrAreEqual addr1 addr2 netmask \<longleftrightarrow> (addr1 XOR addr2) AND netmask = 0"

definition getIPClass :: "IPAddress \<Rightarrow> char" where
  "getIPClass addr = (let buf = drop_bit 24 addr in
     if buf AND 0x80 = 0x00 then CHR ''A''
     else if buf AND 0xC0 = 0x80 then CHR ''B''
     else if buf AND 0xE0 = 0xC0 then CHR ''C''
     else if buf AND 0xF0 = 0xE0 then CHR ''D''
     else if buf AND 0xF8 = 0xF0 then CHR ''E''
     else CHR ''?'')"

definition getNetwork :: "IPAddress \<Rightarrow> IPAddress" where
  "getNetwork addr =
     (if getIPClass addr = CHR ''A'' then IPAddress_set (getDByte 0 addr) 0 0 0
      else if getIPClass addr = CHR ''B'' then IPAddress_set (getDByte 0 addr) (getDByte 1 addr) 0 0
      else if getIPClass addr = CHR ''C''
      then IPAddress_set (getDByte 0 addr) (getDByte 1 addr) (getDByte 2 addr) 0
      else 0)"

definition getNetworkMask :: "IPAddress \<Rightarrow> IPAddress" where
  "getNetworkMask addr =
     (if getIPClass addr = CHR ''A'' then IPAddress_set 255 0 0 0
      else if getIPClass addr = CHR ''B'' then IPAddress_set 255 255 0 0
      else if getIPClass addr = CHR ''C'' then IPAddress_set 255 255 255 0
      else 0)"

definition isNetwork :: "IPAddress \<Rightarrow> IPAddress \<Rightarrow> bool" where
  "isNetwork addr toCmp =
     (let netmask = getNetworkMask addr
      in if netmask = 0 then False else maskedAddrAreEqual addr toCmp netmask)"

definition prefixMatches :: "IPAddress \<Rightarrow> IPAddress \<Rightarrow> int \<Rightarrow> bool" where
  "prefixMatches addr addr2 numbits =
     (if numbits < 1 then True
      else if 31 < numbits then addr = addr2
      else let mask = NOT (drop_bit (nat numbits) 0xFFFFFFFF) in addr AND mask = addr2 AND mask)"

text \<open>The loops over the bits: downwards for the first difference, upwards for the first 1.\<close>

fun matchingBitsFrom :: "nat \<Rightarrow> uint32 \<Rightarrow> int" where
  "matchingBitsFrom 0 res = 32"
| "matchingBitsFrom (Suc i) res = (if bit res i then 31 - int i else matchingBitsFrom i res)"

definition getNumMatchingPrefixBits :: "IPAddress \<Rightarrow> IPAddress \<Rightarrow> int" where
  "getNumMatchingPrefixBits addr addr2 = matchingBitsFrom 32 (addr XOR addr2)"

definition getNetmaskLength :: "IPAddress \<Rightarrow> int" where
  "getNetmaskLength addr = (case filter (bit addr) [0..<31] of i # _ \<Rightarrow> 32 - int i | [] \<Rightarrow> 0)"

definition keepFirstBits :: "nat \<Rightarrow> IPAddress \<Rightarrow> IPAddress" where
  "keepFirstBits n addr = addr AND push_bit n 0xFFFFFFFF"

section \<open>Text\<close>

text \<open>
  \<^verbatim>\<open>sprintf("%u", n)\<close>, and the loop that reads a number. A number beyond the range of
  \<^verbatim>\<open>int\<close> makes the loop overflow, which C++ leaves undefined.
\<close>

fun decimal :: "nat \<Rightarrow> string" where
  "decimal n = (if n < 10 then [char_of (48 + n)] else decimal (n div 10) @ [char_of (48 + n mod 10)])"

declare decimal.simps [simp del]

definition isDigit :: "char \<Rightarrow> bool" where
  "isDigit ch \<longleftrightarrow> 48 \<le> (of_char ch :: nat) \<and> (of_char ch :: nat) \<le> 57"

fun readNumber :: "nat \<Rightarrow> string \<Rightarrow> (nat \<times> string) res" where
  "readNumber num [] = Inr (num, [])"
| "readNumber num (ch # s) =
     (if isDigit ch
      then let num = 10 * num + (of_char ch - 48)
           in checked (num \<le> 2147483647) (UndefinedBehaviour ''signed overflow'') (readNumber num s)
      else Inr (num, ch # s))"

lemma readNumber_length: "readNumber num s = Inr (n, s') \<Longrightarrow> length s' \<le> length s"
  by (induction num s rule: readNumber.induct) (auto simp: checked_def Let_def split: if_splits)

text \<open>The loop over the numbers; the result is the bytes, or \<open>None\<close> for a syntax error.\<close>

function parseBytes :: "nat list \<Rightarrow> string \<Rightarrow> nat list option res" where
  "parseBytes bytes s = (case s of
     [] \<Rightarrow> Inr None
   | ch # _ \<Rightarrow>
     if \<not> isDigit ch then Inr None
     else andThen (readNumber 0 s) (\<lambda>(num, s').
       if 255 < num then Inr None
       else let bytes = bytes @ [num]
            in case s' of
              [] \<Rightarrow> Inr (if length bytes = 4 then Some bytes else None)
            | d # s'' \<Rightarrow> if d \<noteq> CHR ''.'' then Inr None
                else if length bytes = 4 then Inr None
                else parseBytes bytes s''))"
  by pat_completeness auto
termination
  by (relation "measure (length \<circ> snd)") (auto simp: Let_def res_simps dest!: readNumber_length)

declare parseBytes.simps [simp del]

definition parseIPAddress :: "string \<Rightarrow> nat list option res" where
  "parseIPAddress text =
     (if text = ''<unspec>'' then Inr (Some [0, 0, 0, 0]) else parseBytes [] text)"

definition IPAddress_of_text :: "string \<Rightarrow> IPAddress res" where
  "IPAddress_of_text text = andThen (parseIPAddress text) (\<lambda>r. case r of
     Some buf \<Rightarrow> Inr (IPAddress_set (int (buf ! 0)) (int (buf ! 1)) (int (buf ! 2)) (int (buf ! 3)))
   | None \<Rightarrow> Inl (OppError ''Invalid IP address string''))"

definition isWellFormed :: "string \<Rightarrow> bool res" where
  "isWellFormed text = andThen (parseIPAddress text) (\<lambda>r. Inr (r \<noteq> None))"

definition IPAddress_str :: "IPAddress \<Rightarrow> string" where
  "IPAddress_str addr =
     (if addr = 0 then ''<unspec>''
      else decimal (unat (drop_bit 24 addr AND 255)) @ ''.'' @ decimal (unat (drop_bit 16 addr AND 255)) @ ''.'' @
           decimal (unat (drop_bit 8 addr AND 255)) @ ''.'' @ decimal (unat (addr AND 255)))"

section \<open>Masks\<close>

lemma maskedAddrAreEqual_iff: "maskedAddrAreEqual a b m \<longleftrightarrow> a AND m = b AND m"
  by (auto simp: maskedAddrAreEqual_def bit_eq_iff bit_simps)

text \<open>The mask of a prefix of \<open>n\<close> bits.\<close>

definition netmask :: "nat \<Rightarrow> IPAddress" where
  "netmask n = push_bit (32 - n) (- 1)"

lemma bit_netmask: "n \<le> 32 \<Longrightarrow> bit (netmask n) i \<longleftrightarrow> 32 - n \<le> i \<and> i < 32"
  by (auto simp: netmask_def bit_simps)

lemma masked_prefix: "n \<le> 32 \<Longrightarrow> a AND netmask n = b AND netmask n \<longleftrightarrow> (\<forall>i. 32 - n \<le> i \<and> i < 32 \<longrightarrow> bit a i = bit b i)"
  by (auto simp: bit_eq_iff bit_simps bit_netmask)

lemma prefix_mask:
  assumes "n < 32"
  shows "NOT (drop_bit n 0xFFFFFFFF) = netmask n"
proof (rule bit_word_eqI)
  fix i assume "i < LENGTH(32)"
  have one: "(0xFFFFFFFF :: uint32) = - 1" by simp
  have "bit (drop_bit n (0xFFFFFFFF :: uint32)) i \<longleftrightarrow> n + i < 32"
    unfolding bit_drop_bit_eq one comp_def by (simp only: bit_minus_1_iff) simp
  then show "bit (NOT (drop_bit n (0xFFFFFFFF :: uint32))) i \<longleftrightarrow> bit (netmask n) i"
    using assms \<open>i < LENGTH(32)\<close> by (auto simp: bit_not_iff bit_netmask)
qed

lemma netmask_0: "netmask 0 = 0" by code_simp

lemma netmask_32: "netmask 32 = - 1" by code_simp

lemma prefixMatches_iff: "n \<le> 32 \<Longrightarrow> prefixMatches a b (int n) \<longleftrightarrow> a AND netmask n = b AND netmask n"
  by (cases "n = 0"; cases "n = 32")
     (simp_all add: prefixMatches_def Let_def prefix_mask netmask_0 netmask_32 del: take_bit_numeral_numeral)

section \<open>Prefixes\<close>

lemma matchingBitsFrom_iff:
  assumes "k \<le> 32" "\<And>i. k \<le> i \<Longrightarrow> i < 32 \<Longrightarrow> \<not> bit res i" "n \<le> 32"
  shows "int n \<le> matchingBitsFrom k res \<longleftrightarrow> (\<forall>i. 32 - n \<le> i \<and> i < 32 \<longrightarrow> \<not> bit res i)"
  using assms(1,2)
proof (induction k)
  case (Suc k)
  show ?case
  proof (cases "bit res k")
    case True
    have "int n \<le> 31 - int k \<longleftrightarrow> k < 32 - n" using Suc.prems(1) assms(3) by linarith
    moreover have "(\<forall>i. 32 - n \<le> i \<and> i < 32 \<longrightarrow> \<not> bit res i) \<longleftrightarrow> k < 32 - n"
    proof
      assume "\<forall>i. 32 - n \<le> i \<and> i < 32 \<longrightarrow> \<not> bit res i"
      with True Suc.prems(1) show "k < 32 - n" by (auto simp: not_le [symmetric])
    next
      assume "k < 32 - n"
      then show "\<forall>i. 32 - n \<le> i \<and> i < 32 \<longrightarrow> \<not> bit res i" using Suc.prems(2) by simp
    qed
    ultimately show ?thesis using True by simp
  next
    case False
    then have "\<not> bit res i" if "k \<le> i" "i < 32" for i
      using Suc.prems(2) [of i] that by (cases "i = k") auto
    with Suc.IH Suc.prems(1) False show ?thesis by simp
  qed
qed (use assms(3) in simp)

lemma filter_le_upt: "filter (\<lambda>i. k \<le> i) [0..<m] = [k..<m]"
  by (induction m) auto

lemma getNetmaskLength_netmask:
  assumes "n \<le> 32"
  shows "getNetmaskLength (netmask n) = (if n = 1 then 0 else int n)"
proof -
  have "filter (bit (netmask n)) [0..<31] = filter (\<lambda>i. 32 - n \<le> i) [0..<31]"
    using assms by (intro filter_cong) (auto simp: bit_netmask)
  then have "filter (bit (netmask n)) [0..<31] = [32 - n..<31]" by (simp only: filter_le_upt)
  moreover have "[32 - n..<31] = (if n \<le> 1 then [] else (32 - n) # [Suc (32 - n)..<31])"
    using assms by (auto simp: upt_conv_Cons)
  ultimately show ?thesis using assms by (auto simp: getNetmaskLength_def of_nat_diff)
qed

text \<open>The four ways in which the code compares prefixes agree: comparing the first \<open>n\<close> bits, masking with
  the netmask of length \<open>n\<close>, and counting the matching bits. The length of a netmask is computed
  correctly for every length but 1, for which the loop, which leaves out the highest bit, gives 0.\<close>

theorem prefix_functions_agree:
  assumes "n \<le> 32"
  shows "(prefixMatches a b (int n) \<longleftrightarrow> maskedAddrAreEqual a b (netmask n)) \<and>
    (prefixMatches a b (int n) \<longleftrightarrow> int n \<le> getNumMatchingPrefixBits a b) \<and>
    getNetmaskLength (netmask n) = (if n = 1 then 0 else int n)"
proof -
  have "int n \<le> getNumMatchingPrefixBits a b \<longleftrightarrow> (\<forall>i. 32 - n \<le> i \<and> i < 32 \<longrightarrow> bit a i = bit b i)"
    unfolding getNumMatchingPrefixBits_def using matchingBitsFrom_iff [of 32 "a XOR b" n] assms
    by (simp add: bit_xor_iff)
  with prefixMatches_iff [OF assms] masked_prefix [OF assms] getNetmaskLength_netmask [OF assms]
  show ?thesis by (simp add: maskedAddrAreEqual_iff)
qed

lemma prefix_functions_agree_witness:
  "prefixMatches 0x0A000001 0x0A00FF01 16 \<and> 16 \<le> getNumMatchingPrefixBits 0x0A000001 0x0A00FF01"
proof -
  have "maskedAddrAreEqual 0x0A000001 0x0A00FF01 (netmask 16)" by code_simp
  with prefix_functions_agree [of 16 "0x0A000001" "0x0A00FF01"] show ?thesis by (simp, blast)
qed

section \<open>Printing and parsing\<close>

lemma of_char_digit: "d < 10 \<Longrightarrow> of_char (char_of (48 + d) :: char) = (48 + d :: nat)"
  by (simp add: of_char_of)

lemma isDigit_digit: "(d :: nat) < 10 \<Longrightarrow> isDigit (char_of (48 + d))"
  by (simp add: isDigit_def of_char_digit)

lemma readNumber_digit: "d < 10 \<Longrightarrow> 10 * n + d \<le> 2147483647 \<Longrightarrow>
    readNumber n (char_of (48 + d) # s) = readNumber (10 * n + d) s"
  by (simp add: isDigit_digit of_char_digit)

lemma readNumber_decimal: "n \<le> 2147483647 \<Longrightarrow> readNumber 0 (decimal n @ s) = readNumber n s"
proof (induction n arbitrary: s rule: decimal.induct)
  case (1 n)
  show ?case
  proof (cases "n < 10")
    case True
    then show ?thesis using readNumber_digit [of n 0] by (simp add: decimal.simps [of n])
  next
    case False
    have "10 * (n div 10) + n mod 10 = n" by simp
    with False 1 readNumber_digit [of "n mod 10" "n div 10"] show ?thesis by (simp add: decimal.simps [of n])
  qed
qed

lemma decimal_Cons: "\<exists>c cs. decimal n = c # cs \<and> isDigit c"
proof (induction n rule: decimal.induct)
  case (1 n)
  then show ?case by (cases "n < 10") (auto simp: decimal.simps [of n] isDigit_digit)
qed

lemma parse_last: "n < 256 \<Longrightarrow> length bytes = 3 \<Longrightarrow> parseBytes bytes (decimal n) = Inr (Some (bytes @ [n]))"
  using decimal_Cons [of n] readNumber_decimal [of n "[]"] by (auto simp: parseBytes.simps)

lemma parse_dot: "n < 256 \<Longrightarrow> length bytes < 3 \<Longrightarrow>
    parseBytes bytes (decimal n @ CHR ''.'' # s) = parseBytes (bytes @ [n]) s"
  using decimal_Cons [of n] readNumber_decimal [of n "CHR ''.'' # s"]
  by (subst parseBytes.simps) (auto simp: isDigit_def)

lemma and_255: "(x :: uint32) AND 255 = take_bit 8 x"
  by (simp add: take_bit_eq_mask mask_eq_exp_minus_1)

lemma bytes_join: "push_bit 24 (take_bit 8 (drop_bit 24 a)) OR push_bit 16 (take_bit 8 (drop_bit 16 a)) OR
    push_bit 8 (take_bit 8 (drop_bit 8 a)) OR take_bit 8 a = (a :: uint32)"
proof (rule bit_word_eqI)
  fix n assume "n < LENGTH(32)"
  then consider "n < 8" | "8 \<le> n" "n < 16" | "16 \<le> n" "n < 24" | "24 \<le> n" "n < 32" by fastforce
  then show "bit (push_bit 24 (take_bit 8 (drop_bit 24 a)) OR push_bit 16 (take_bit 8 (drop_bit 16 a)) OR
      push_bit 8 (take_bit 8 (drop_bit 8 a)) OR take_bit 8 a) n = bit a n"
    by cases (auto simp: bit_simps less_diff_conv2)
qed

lemma byte_lt: "unat (take_bit 8 (x :: uint32)) < 256"
  using take_bit_nat_less_exp [of 8 "unat x"] by (simp add: unsigned_take_bit_eq)

text \<open>The textual form of an address is well-formed and parses back to the address, for the unspecified
  address too, whose text is not in dotted notation.\<close>

theorem address_text_roundtrip:
  "isWellFormed (IPAddress_str a) = Inr True \<and> IPAddress_of_text (IPAddress_str a) = Inr a"
proof (cases "a = 0")
  case True
  then show ?thesis
    by (simp add: isWellFormed_def IPAddress_of_text_def IPAddress_str_def parseIPAddress_def IPAddress_set_def)
next
  case False
  let ?b = "\<lambda>i. unat (take_bit 8 (drop_bit (8 * i) a))"
  have str: "IPAddress_str a = decimal (?b 3) @ ''.'' @ decimal (?b 2) @ ''.'' @ decimal (?b 1) @ ''.'' @ decimal (?b 0)"
    using False by (simp add: IPAddress_str_def and_255)
  then have "IPAddress_str a \<noteq> ''<unspec>''" using decimal_Cons [of "?b 3"] by (auto simp: isDigit_def)
  moreover have "parseBytes [] (IPAddress_str a) = Inr (Some [?b 3, ?b 2, ?b 1, ?b 0])"
    unfolding str by (simp add: parse_dot parse_last byte_lt del: drop_bit_0)
  ultimately have "parseIPAddress (IPAddress_str a) = Inr (Some [?b 3, ?b 2, ?b 1, ?b 0])"
    by (simp add: parseIPAddress_def)
  then show ?thesis using bytes_join [of a]
    by (simp add: isWellFormed_def IPAddress_of_text_def IPAddress_set_def numeral_eq_Suc)
qed

end
