(* ===== verification/MAC_Address.thy ===== *)
theory MAC_Address imports Inet_Prelude "HOL-Library.List_Lexorder"
begin

text \<open>
  The hardware addresses of \<^verbatim>\<open>linklayer/contract/MACAddress.cc\<close>: six bytes, their order, their text
  form and its parser, and the automatic addresses.
\<close>

type_synonym uint8 = "8 word"

datatype MACAddress = MAC uint8 uint8 uint8 uint8 uint8 uint8

fun macBytes :: "MACAddress \<Rightarrow> uint8 list" where
  "macBytes (MAC a b c d e f) = [a, b, c, d, e, f]"

fun macOfBytes :: "uint8 list \<Rightarrow> MACAddress" where
  "macOfBytes [a, b, c, d, e, f] = MAC a b c d e f"
| "macOfBytes _ = MAC 0 0 0 0 0 0"

definition MAC_unspecified :: MACAddress where
  "MAC_unspecified = MAC 0 0 0 0 0 0"

definition MAC_broadcast :: MACAddress where
  "MAC_broadcast = MAC 0xFF 0xFF 0xFF 0xFF 0xFF 0xFF"

fun mac_isUnspecified :: "MACAddress \<Rightarrow> bool" where
  "mac_isUnspecified (MAC a b c d e f) = (\<not> (a \<noteq> 0 \<or> b \<noteq> 0 \<or> c \<noteq> 0 \<or> d \<noteq> 0 \<or> e \<noteq> 0 \<or> f \<noteq> 0))"

fun mac_isBroadcast :: "MACAddress \<Rightarrow> bool" where
  "mac_isBroadcast (MAC a b c d e f) = (and (and (and (and (and a b) c) d) e) f = 0xFF)"

fun mac_isMulticast :: "MACAddress \<Rightarrow> bool" where
  "mac_isMulticast (MAC a b c d e f) = (and a 0x80 \<noteq> 0)"

definition getAddressByte :: "nat \<Rightarrow> MACAddress \<Rightarrow> uint8 res" where
  "getAddressByte k m = (if 6 \<le> k then Inl (OppError ''Array of size 6 indexed'') else Inr (macBytes m ! k))"

definition setAddressByte :: "nat \<Rightarrow> uint8 \<Rightarrow> MACAddress \<Rightarrow> MACAddress res" where
  "setAddressByte k x m = (if 6 \<le> k then Inl (OppError ''Array of size 6 indexed'')
     else Inr (macOfBytes ((macBytes m)[k := x])))"

text \<open>The comparison of the bytes, as \<^verbatim>\<open>memcmp\<close> does it; its sign is the order of the addresses.\<close>

fun compareBytes :: "uint8 list \<Rightarrow> uint8 list \<Rightarrow> int" where
  "compareBytes (x # xs) (y # ys) = (if x < y then - 1 else if y < x then 1 else compareBytes xs ys)"
| "compareBytes _ _ = 0"

definition compareTo :: "MACAddress \<Rightarrow> MACAddress \<Rightarrow> int" where
  "compareTo m n = compareBytes (macBytes m) (macBytes n)"

lemma macBytes_inj [simp]: "macBytes m = macBytes n \<longleftrightarrow> m = n"
  by (cases m; cases n) simp

lemma macOfBytes_macBytes [simp]: "macOfBytes (macBytes m) = m"
  by (cases m) simp

instantiation MACAddress :: linorder
begin

definition less_eq_MACAddress :: "MACAddress \<Rightarrow> MACAddress \<Rightarrow> bool" where
  "less_eq_MACAddress m n \<longleftrightarrow> macBytes m \<le> macBytes n"

definition less_MACAddress :: "MACAddress \<Rightarrow> MACAddress \<Rightarrow> bool" where
  "less_MACAddress m n \<longleftrightarrow> macBytes m < macBytes n"

instance
  by standard (auto simp: less_eq_MACAddress_def less_MACAddress_def less_le_not_le)

end

lemma compareBytes_order:
  "length xs = length ys \<Longrightarrow> (compareBytes xs ys < 0 \<longleftrightarrow> xs < ys) \<and> (compareBytes xs ys = 0 \<longleftrightarrow> xs = ys)"
  by (induction xs ys rule: compareBytes.induct) auto

lemma compareTo_order: "compareTo m n < 0 \<longleftrightarrow> m < n" "compareTo m n = 0 \<longleftrightarrow> m = n" "0 < compareTo m n \<longleftrightarrow> n < m"
proof -
  have "length (macBytes m) = length (macBytes n)" by (cases m; cases n) simp
  from compareBytes_order [OF this]
  show "compareTo m n < 0 \<longleftrightarrow> m < n" "compareTo m n = 0 \<longleftrightarrow> m = n" "0 < compareTo m n \<longleftrightarrow> n < m"
    by (auto simp: compareTo_def less_MACAddress_def not_less_iff_gr_or_eq)
qed

section \<open>Text\<close>

definition isxdigit :: "char \<Rightarrow> bool" where
  "isxdigit c \<longleftrightarrow> c \<in> set ''0123456789abcdefABCDEF''"

definition hexValue :: "char \<Rightarrow> uint8" where
  "hexValue c = (let n = (of_char c :: nat) in
     if 48 \<le> n \<and> n \<le> 57 then of_nat (n - 48) else if 97 \<le> n \<and> n \<le> 122 then of_nat (n - 97 + 10)
     else of_nat (n - 65 + 10))"

definition nextHex :: "string \<Rightarrow> (uint8 \<times> string) option" where
  "nextHex s = (case dropWhile (\<lambda>c. \<not> isxdigit c) s of [] \<Rightarrow> None | c # s \<Rightarrow> Some (hexValue c, s))"

fun hextobin :: "string \<Rightarrow> nat \<Rightarrow> uint8 list" where
  "hextobin s 0 = []"
| "hextobin s (Suc n) = (case nextHex s of
     None \<Rightarrow> 0 # hextobin [] n
   | Some (d, s) \<Rightarrow> (case nextHex s of
       None \<Rightarrow> 0 # hextobin [] n
     | Some (e, s) \<Rightarrow> (push_bit 4 d + e) # hextobin s n))"

definition mac_tryParse :: "string \<Rightarrow> MACAddress option" where
  "mac_tryParse hexstr =
     (if list_ex (\<lambda>c. \<not> isxdigit c \<and> c \<noteq> CHR '' '' \<and> c \<noteq> CHR '':'' \<and> c \<noteq> CHR ''-'') hexstr then None
      else if length (filter isxdigit hexstr) \<noteq> 12 then None
      else Some (macOfBytes (hextobin hexstr 6)))"

definition setAddress :: "string \<Rightarrow> MACAddress res" where
  "setAddress hexstr = (case mac_tryParse hexstr of
     None \<Rightarrow> Inl (OppError ''MACAddress: wrong address syntax'') | Some m \<Rightarrow> Inr m)"

definition hexChar :: "uint8 \<Rightarrow> char" where
  "hexChar x = ''0123456789ABCDEF'' ! unat x"

definition mac_str :: "MACAddress \<Rightarrow> string" where
  "mac_str m = butlast (concat (map (\<lambda>b. [hexChar (drop_bit 4 b), hexChar (and b 0xF), CHR ''-'']) (macBytes m)))"

text \<open>The counter of the automatic addresses is a static variable, here an argument and a result.\<close>

definition generateAutoAddress :: "uint32 \<Rightarrow> uint32 \<times> MACAddress" where
  "generateAutoAddress autoAddressCtr = (let c = autoAddressCtr + 1 in
     (c, MAC 0x0A 0xAA (ucast (and (drop_bit 24 c) 0xFF)) (ucast (and (drop_bit 16 c) 0xFF))
        (ucast (and (drop_bit 8 c) 0xFF)) (ucast (and c 0xFF))))"

lemma hexChar_digit:
  assumes "unat x < 16"
  shows "isxdigit (hexChar x)" "hexValue (hexChar x) = x"
proof -
  from assms have "unat x \<in> set [0..<16]" by simp
  moreover have "x = of_nat (unat x)" by simp
  ultimately have "x \<in> of_nat ` set [0..<16]" by (metis imageI)
  then have "x = 0 \<or> x = 1 \<or> x = 2 \<or> x = 3 \<or> x = 4 \<or> x = 5 \<or> x = 6 \<or> x = 7 \<or> x = 8 \<or> x = 9 \<or> x = 10 \<or> x = 11 \<or>
      x = 12 \<or> x = 13 \<or> x = 14 \<or> x = 15" by (auto simp: upt_rec)
  then show "isxdigit (hexChar x)" "hexValue (hexChar x) = x"
    by (auto simp: isxdigit_def hexValue_def hexChar_def)
qed

lemma nibbles:
  fixes b :: uint8
  shows "unat (drop_bit 4 b) < 16" "unat (and b 0xF) < 16" "push_bit 4 (drop_bit 4 b) + and b 0xF = b"
proof -
  have "unat b < 256" using unsigned_less [of b] by simp
  moreover have "unat (drop_bit 4 b) = unat b div 16" unfolding unat_drop_bit_eq by (simp add: drop_bit_eq_div)
  ultimately show "unat (drop_bit 4 b) < 16" by simp
  have *: "and b 0xF = take_bit 4 b" using take_bit_eq_mask [of 4 b] by (simp add: mask_eq_exp_minus_1)
  have "unat (take_bit 4 b) = unat b mod 16" unfolding unsigned_take_bit_eq by (simp add: take_bit_eq_mod)
  then show "unat (and b 0xF) < 16" by (simp add: *)
  show "push_bit 4 (drop_bit 4 b) + and b 0xF = b" unfolding * by (rule bits_ident)
qed

lemma nextHex_hex: "unat x < 16 \<Longrightarrow> nextHex (hexChar x # s) = Some (x, s)"
  using hexChar_digit [of x] by (simp add: nextHex_def)

lemma nextHex_dash: "nextHex (CHR ''-'' # s) = nextHex s"
  by (simp add: nextHex_def isxdigit_def)

text \<open>The text form of an address parses back to it; the automatic addresses are never special.\<close>

theorem mac_text_roundtrip: "mac_tryParse (mac_str m) = Some m \<and> setAddress (mac_str m) = Inr m"
proof -
  have hex: "isxdigit (hexChar (drop_bit 4 x)) \<and> isxdigit (hexChar (and x 0xF))" for x :: uint8
    using hexChar_digit nibbles by blast
  have dash: "\<not> isxdigit (CHR ''-'')" by (simp add: isxdigit_def)
  obtain a b c d e f where m: "m = MAC a b c d e f" by (cases m)
  have str: "mac_str m = [hexChar (drop_bit 4 a), hexChar (and a 0xF), CHR ''-'', hexChar (drop_bit 4 b), hexChar (and b 0xF), CHR ''-'',
     hexChar (drop_bit 4 c), hexChar (and c 0xF), CHR ''-'', hexChar (drop_bit 4 d), hexChar (and d 0xF), CHR ''-'',
     hexChar (drop_bit 4 e), hexChar (and e 0xF), CHR ''-'', hexChar (drop_bit 4 f), hexChar (and f 0xF)]"
    by (simp add: mac_str_def m)
  have six: "(6 :: nat) = Suc (Suc (Suc (Suc (Suc (Suc 0)))))" by simp
  have parts: "hextobin (mac_str m) 6 = macBytes m"
    unfolding str six by (simp add: m nextHex_hex nextHex_dash nibbles)
  have "mac_tryParse (mac_str m) = Some (macOfBytes (macBytes m))"
    unfolding mac_tryParse_def parts by (simp add: str hex dash)
  then show ?thesis by (simp add: setAddress_def)
qed

end
