(* ===== verification/IP_Interfaces.thy ===== *)
theory IP_Interfaces imports IP_Address MAC_Address
begin

text \<open>
  The interfaces of a node and their table:
  \<^verbatim>\<open>src/src/networklayer/common/InterfaceTable.{h,cc}\<close>, \<^verbatim>\<open>InterfaceEntry.{h,cc}\<close> and
  \<^verbatim>\<open>src/src/networklayer/ipv4/IPv4InterfaceData.{h,cc}\<close>. The table keeps a slot for every interface
  it ever had; the id of an interface is the number of its slot plus 100. The invariant of the table
  is at the end.
\<close>

section \<open>Interfaces\<close>

record IPv4InterfaceData =
  inetAddr :: IPAddress
  ifNetmask :: IPAddress
  ifMetric :: int
  multicastGroups :: "IPAddress list"

text \<open>
  Of an interface entry the code reads the id, which stands for the pointer to the entry, the name,
  the MTU, the index of its gates at the network layer, whether it supports broadcast, whether it is the
  loopback interface, its hardware address, and the IPv4 data, which may be missing.
\<close>

record InterfaceEntry =
  interfaceId :: int
  interfaceName :: string
  mtu :: int
  nwLayerGateIndex :: int
  broadcast :: bool
  loopback :: bool
  macAddr :: MACAddress
  ipv4data :: "IPv4InterfaceData option"

definition ipv4Data :: "InterfaceEntry \<Rightarrow> IPv4InterfaceData res" where
  "ipv4Data ie = (case ipv4data ie of Some d \<Rightarrow> Inr d | None \<Rightarrow> Inl (NullPointer ''ipv4Data()''))"

definition isMemberOfMulticastGroup :: "IPAddress \<Rightarrow> IPv4InterfaceData \<Rightarrow> bool" where
  "isMemberOfMulticastGroup multicastAddress d = list_ex (\<lambda>g. multicastAddress = g) (multicastGroups d)"

text \<open>The notifications about interfaces.\<close>

datatype InterfaceNotification =
    NF_INTERFACE_CREATED int
  | NF_INTERFACE_DELETED int
  | NF_INTERFACE_STATE_CHANGED
  | NF_INTERFACE_CONFIG_CHANGED
  | NF_INTERFACE_IPv4CONFIG_CHANGED

section \<open>The table\<close>

definition INTERFACEIDS_START :: int where
  "INTERFACEIDS_START = 100"

text \<open>The list of the present interfaces is a cache of pointers, here of ids; null is \<open>None\<close>.\<close>

record InterfaceTable =
  idToInterface :: "InterfaceEntry option list"
  tmpNumInterfaces :: int
  tmpInterfaceList :: "int list option"

definition InterfaceTable_new :: InterfaceTable where
  "InterfaceTable_new = \<lparr>idToInterface = [], tmpNumInterfaces = - 1, tmpInterfaceList = None\<rparr>"

definition invalidateTmpInterfaceList :: "InterfaceTable \<Rightarrow> InterfaceTable" where
  "invalidateTmpInterfaceList ift = ift\<lparr>tmpNumInterfaces := - 1, tmpInterfaceList := None\<rparr>"

definition interfaces :: "InterfaceTable \<Rightarrow> InterfaceEntry list" where
  "interfaces ift = List.map_filter (\<lambda>e. e) (idToInterface ift)"

definition getNumInterfaces :: "InterfaceTable \<Rightarrow> InterfaceTable \<times> int" where
  "getNumInterfaces ift =
     (let ift = (if tmpNumInterfaces ift = - 1
                 then ift\<lparr>tmpNumInterfaces := int (length (interfaces ift))\<rparr> else ift)
      in (ift, tmpNumInterfaces ift))"

text \<open>A position within the count but beyond the cached list is a read beyond the array.\<close>

definition getInterface :: "int \<Rightarrow> InterfaceTable \<Rightarrow> (InterfaceTable \<times> int) res" where
  "getInterface pos ift =
     (let (ift, n) = getNumInterfaces ift
      in if pos < 0 \<or> n \<le> pos then Inl (OppError ''getInterface(): interface index out of range'')
         else let ift = (if tmpInterfaceList ift = None
                   then ift\<lparr>tmpInterfaceList := Some (map interfaceId (interfaces ift))\<rparr> else ift)
              in case tmpInterfaceList ift of
                   Some l \<Rightarrow> if nat pos < length l then Inr (ift, l ! nat pos)
                     else Inl (UndefinedBehaviour ''tmpInterfaceList[pos]'')
                 | None \<Rightarrow> Inl (NullPointer ''tmpInterfaceList''))"

definition getInterfaceById :: "int \<Rightarrow> InterfaceTable \<Rightarrow> InterfaceEntry option" where
  "getInterfaceById i ift =
     (let i = i - INTERFACEIDS_START
      in if i < 0 \<or> int (length (idToInterface ift)) \<le> i then None else idToInterface ift ! nat i)"

definition getInterfaceByName :: "string option \<Rightarrow> InterfaceTable \<Rightarrow> InterfaceEntry option" where
  "getInterfaceByName name ift = (case name of None \<Rightarrow> None
     | Some s \<Rightarrow> find (\<lambda>ie. s = interfaceName ie) (interfaces ift))"

definition getInterfaceByNetworkLayerGateIndex :: "int \<Rightarrow> InterfaceTable \<Rightarrow> InterfaceEntry option" where
  "getInterfaceByNetworkLayerGateIndex index ift = find (\<lambda>ie. nwLayerGateIndex ie = index) (interfaces ift)"

definition getFirstLoopbackInterface :: "InterfaceTable \<Rightarrow> InterfaceEntry option" where
  "getFirstLoopbackInterface ift = find loopback (interfaces ift)"

text \<open>
  The gate index that \<^verbatim>\<open>discoverConnectingGates\<close> finds in the module graph is an argument;
  without a module there is none.
\<close>

definition addInterface ::
  "int res option \<Rightarrow> InterfaceEntry \<Rightarrow> InterfaceTable \<Rightarrow> (InterfaceTable \<times> InterfaceNotification) res" where
  "addInterface ifmod entry ift =
     (if getInterfaceByName (Some (interfaceName entry)) ift \<noteq> None
      then Inl (OppError ''addInterface(): interface already registered'')
      else let entry = entry\<lparr>interfaceId := INTERFACEIDS_START + int (length (idToInterface ift))\<rparr>;
               added = (\<lambda>entry. (invalidateTmpInterfaceList
                  (ift\<lparr>idToInterface := idToInterface ift @ [Some entry]\<rparr>), NF_INTERFACE_CREATED (interfaceId entry)))
           in case ifmod of None \<Rightarrow> Inr (added entry)
              | Some r \<Rightarrow> andThen r (\<lambda>g. Inr (added (entry\<lparr>nwLayerGateIndex := g\<rparr>))))"

definition deleteInterface :: "InterfaceEntry \<Rightarrow> InterfaceTable \<Rightarrow> (InterfaceTable \<times> InterfaceNotification) res" where
  "deleteInterface entry ift =
     (let i = interfaceId entry
      in if map_option interfaceId (getInterfaceById i ift) \<noteq> Some i
         then Inl (OppError ''deleteInterface(): interface not found in interface table'')
         else Inr (invalidateTmpInterfaceList
                (ift\<lparr>idToInterface := (idToInterface ift)[nat (i - INTERFACEIDS_START) := None]\<rparr>),
              NF_INTERFACE_DELETED i))"

text \<open>
  The other modules change the entries through their pointers: the MTU, the IPv4 data and so on, but
  not the id and the name.
\<close>

definition changeInterface :: "int \<Rightarrow> (InterfaceEntry \<Rightarrow> InterfaceEntry) \<Rightarrow> InterfaceTable \<Rightarrow> InterfaceTable" where
  "changeInterface i f ift = ift\<lparr>idToInterface := map (map_option (\<lambda>ie. if interfaceId ie = i
     then (f ie)\<lparr>interfaceId := interfaceId ie, interfaceName := interfaceName ie\<rparr> else ie)) (idToInterface ift)\<rparr>"

section \<open>Every reachable table\<close>

inductive ift_reachable :: "InterfaceTable \<Rightarrow> bool" where
  new: "ift_reachable InterfaceTable_new"
| add: "ift_reachable ift \<Longrightarrow> addInterface ifmod entry ift = Inr (ift', n) \<Longrightarrow> ift_reachable ift'"
| delete: "ift_reachable ift \<Longrightarrow> deleteInterface entry ift = Inr (ift', n) \<Longrightarrow> ift_reachable ift'"
| change: "ift_reachable ift \<Longrightarrow> ift_reachable (changeInterface i f ift)"
| count: "ift_reachable ift \<Longrightarrow> ift_reachable (fst (getNumInterfaces ift))"
| get: "ift_reachable ift \<Longrightarrow> getInterface pos ift = Inr (ift', e) \<Longrightarrow> ift_reachable ift'"

text \<open>Each entry has the id of its slot, the names differ, and the caches agree with the slots.\<close>

definition ift_inv :: "InterfaceTable \<Rightarrow> bool" where
  "ift_inv ift \<longleftrightarrow>
     (\<forall>i < length (idToInterface ift). \<forall>ie. idToInterface ift ! i = Some ie \<longrightarrow> interfaceId ie = INTERFACEIDS_START + int i) \<and>
     distinct (map interfaceName (interfaces ift)) \<and>
     tmpNumInterfaces ift \<in> {- 1, int (length (interfaces ift))} \<and>
     tmpInterfaceList ift \<in> {None, Some (map interfaceId (interfaces ift))}"

lemma interfaces_append [simp]: "interfaces (ift\<lparr>idToInterface := xs @ [Some e]\<rparr>) = interfaces (ift\<lparr>idToInterface := xs\<rparr>) @ [e]"
  by (simp add: interfaces_def map_filter_def)

lemma interfaces_cong [simp]: "interfaces (ift\<lparr>tmpNumInterfaces := n\<rparr>) = interfaces ift"
    "interfaces (ift\<lparr>tmpInterfaceList := l\<rparr>) = interfaces ift" "interfaces (ift\<lparr>idToInterface := idToInterface ift\<rparr>) = interfaces ift"
    "interfaces (invalidateTmpInterfaceList ift) = interfaces ift"
  by (simp_all add: interfaces_def invalidateTmpInterfaceList_def)

lemma in_interfaces: "ie \<in> set (interfaces ift) \<longleftrightarrow> Some ie \<in> set (idToInterface ift)"
  unfolding interfaces_def map_filter_def by force

lemma getInterfaceByName_None: "getInterfaceByName (Some s) ift = None \<longleftrightarrow> s \<notin> interfaceName ` set (interfaces ift)"
  by (auto simp: getInterfaceByName_def find_None_iff)

lemma map_filter_delete: "map g (List.map_filter (\<lambda>e. e) (xs[i := None])) =
    map g (List.map_filter (\<lambda>e. e) (take i xs)) @ map g (List.map_filter (\<lambda>e. e) (drop (Suc i) xs))"
  by (cases "i < length xs") (simp_all add: upd_conv_take_nth_drop map_filter_def not_less list_update_beyond)

lemma distinct_delete:
  assumes "distinct (map g (List.map_filter (\<lambda>e. e) xs))"
  shows "distinct (map g (List.map_filter (\<lambda>e. e) (xs[i := None])))"
proof (cases "i < length xs")
  case True
  have "map g (List.map_filter (\<lambda>e. e) xs) = map g (List.map_filter (\<lambda>e. e) (take i xs)) @
      map g (List.map_filter (\<lambda>e. e) [xs ! i]) @ map g (List.map_filter (\<lambda>e. e) (drop (Suc i) xs))"
    by (subst id_take_nth_drop [OF True]) (simp add: map_filter_def)
  with assms show ?thesis unfolding map_filter_delete by auto
qed (use assms in \<open>simp add: not_less list_update_beyond\<close>)

lemma map_filter_change: "map g (List.map_filter (\<lambda>e. e) (map (map_option f) xs)) = map (g \<circ> f) (List.map_filter (\<lambda>e. e) xs)"
  by (induction xs) (auto simp: map_filter_def)

lemma ift_inv_new: "ift_inv InterfaceTable_new"
  by (simp add: ift_inv_def InterfaceTable_new_def interfaces_def map_filter_def)

lemma ift_inv_add:
  assumes "ift_inv ift" "addInterface ifmod entry ift = Inr (ift', n)"
  shows "ift_inv ift'"
proof -
  obtain e where e: "ift' = invalidateTmpInterfaceList (ift\<lparr>idToInterface := idToInterface ift @ [Some e]\<rparr>)"
    "interfaceId e = INTERFACEIDS_START + int (length (idToInterface ift))" "interfaceName e = interfaceName entry"
    and fresh: "getInterfaceByName (Some (interfaceName entry)) ift = None"
    using assms(2) by (auto simp: addInterface_def Let_def res_simps split: if_splits option.splits)
  from fresh assms(1) e show ?thesis
    by (auto simp: ift_inv_def getInterfaceByName_None nth_append invalidateTmpInterfaceList_def)
qed

lemma ift_inv_delete:
  assumes "ift_inv ift" "deleteInterface entry ift = Inr (ift', n)"
  shows "ift_inv ift'"
proof -
  from assms(2) obtain i where i: "ift' = invalidateTmpInterfaceList (ift\<lparr>idToInterface := (idToInterface ift)[i := None]\<rparr>)"
    by (auto simp: deleteInterface_def Let_def split: if_splits)
  have slot: "idToInterface ift ! k = Some ie" if "(idToInterface ift)[i := None] ! k = Some ie" "k < length (idToInterface ift)" for k ie
    using that by (cases "i = k") simp_all
  have slots: "interfaceId ie = INTERFACEIDS_START + int k"
    if "(idToInterface ift)[i := None] ! k = Some ie" "k < length (idToInterface ift)" for k ie
    using assms(1) slot [OF that] that(2) unfolding ift_inv_def by blast
  have "distinct (map interfaceName (interfaces (ift\<lparr>idToInterface := (idToInterface ift)[i := None]\<rparr>)))"
    using assms(1) distinct_delete [of interfaceName "idToInterface ift" i] by (simp add: ift_inv_def interfaces_def)
  then show ?thesis unfolding i ift_inv_def
    by (intro conjI allI impI) (simp_all add: invalidateTmpInterfaceList_def slots)
qed

lemma ift_inv_change:
  assumes "ift_inv ift"
  shows "ift_inv (changeInterface i f ift)"
proof -
  have names: "map interfaceName (interfaces (changeInterface i f ift)) = map interfaceName (interfaces ift)"
    and ids: "map interfaceId (interfaces (changeInterface i f ift)) = map interfaceId (interfaces ift)"
    unfolding interfaces_def changeInterface_def by (simp_all add: map_filter_change comp_def if_distrib cong: map_cong)
  have "length (interfaces (changeInterface i f ift)) = length (interfaces ift)"
    using ids map_eq_imp_length_eq by blast
  with assms names ids show ?thesis by (auto simp: ift_inv_def changeInterface_def)
qed

lemma ift_inv_count: "ift_inv ift \<Longrightarrow> ift_inv (fst (getNumInterfaces ift))"
  by (auto simp: ift_inv_def getNumInterfaces_def Let_def)

lemma ift_inv_get: "ift_inv ift \<Longrightarrow> getInterface pos ift = Inr (ift', e) \<Longrightarrow> ift_inv ift'"
  using ift_inv_count [of ift]
  by (auto simp: getInterface_def Let_def split_beta ift_inv_def split: if_splits option.splits)

lemma ift_inv_reachable: "ift_reachable ift \<Longrightarrow> ift_inv ift"
  by (induction rule: ift_reachable.induct)
    (auto intro: ift_inv_new ift_inv_add ift_inv_delete ift_inv_change ift_inv_count ift_inv_get)

lemma getInterfaceById_id: "ift_inv ift \<Longrightarrow> getInterfaceById i ift = Some ie \<Longrightarrow> interfaceId ie = i"
proof -
  assume inv: "ift_inv ift" and "getInterfaceById i ift = Some ie"
  then have "0 \<le> i - INTERFACEIDS_START" "nat (i - INTERFACEIDS_START) < length (idToInterface ift)"
    "idToInterface ift ! nat (i - INTERFACEIDS_START) = Some ie"
    by (auto simp: getInterfaceById_def Let_def split: if_splits)
  moreover from this(2,3) inv have "interfaceId ie = INTERFACEIDS_START + int (nat (i - INTERFACEIDS_START))"
    unfolding ift_inv_def by blast
  ultimately show "interfaceId ie = i" by simp
qed

text \<open>C33: In every reachable table an interface is found by its id and by its name, and no other
  interface is; the count is that of the present interfaces, the positions below it, and no others,
  give them in order.\<close>

theorem interface_table_exact:
  assumes "ift_reachable ift"
  shows "(\<forall>ie. getInterfaceById i ift = Some ie \<longleftrightarrow> ie \<in> set (interfaces ift) \<and> interfaceId ie = i) \<and>
    (\<forall>ie. getInterfaceByName (Some s) ift = Some ie \<longleftrightarrow> ie \<in> set (interfaces ift) \<and> interfaceName ie = s) \<and>
    snd (getNumInterfaces ift) = int (length (interfaces ift)) \<and>
    (if 0 \<le> pos \<and> pos < int (length (interfaces ift))
     then \<exists>ift'. getInterface pos ift = Inr (ift', interfaceId (interfaces ift ! nat pos)) \<and> interfaces ift' = interfaces ift
     else isl (getInterface pos ift))"
proof (intro conjI allI)
  note inv = ift_inv_reachable [OF assms, unfolded ift_inv_def]
  fix ie
  show "getInterfaceById i ift = Some ie \<longleftrightarrow> ie \<in> set (interfaces ift) \<and> interfaceId ie = i"
  proof
    assume "getInterfaceById i ift = Some ie"
    then have *: "0 \<le> i - INTERFACEIDS_START" "nat (i - INTERFACEIDS_START) < length (idToInterface ift)"
      "idToInterface ift ! nat (i - INTERFACEIDS_START) = Some ie"
      by (auto simp: getInterfaceById_def Let_def split: if_splits)
    then have "Some ie \<in> set (idToInterface ift)" by (metis nth_mem)
    with inv * show "ie \<in> set (interfaces ift) \<and> interfaceId ie = i" by (simp add: in_interfaces)
  next
    assume *: "ie \<in> set (interfaces ift) \<and> interfaceId ie = i"
    then have "Some ie \<in> set (idToInterface ift)" by (simp add: in_interfaces)
    then obtain k where "k < length (idToInterface ift)" "idToInterface ift ! k = Some ie"
      unfolding in_set_conv_nth by blast
    with inv * show "getInterfaceById i ift = Some ie" by (auto simp: getInterfaceById_def)
  qed
  show "getInterfaceByName (Some s) ift = Some ie \<longleftrightarrow> ie \<in> set (interfaces ift) \<and> interfaceName ie = s"
  proof
    assume "getInterfaceByName (Some s) ift = Some ie"
    then show "ie \<in> set (interfaces ift) \<and> interfaceName ie = s"
      by (auto simp: getInterfaceByName_def find_Some_iff)
  next
    assume *: "ie \<in> set (interfaces ift) \<and> interfaceName ie = s"
    then obtain je where "getInterfaceByName (Some s) ift = Some je"
      using getInterfaceByName_None [of s ift] by fastforce
    moreover from this have "je \<in> set (interfaces ift)" "interfaceName je = s"
      by (auto simp: getInterfaceByName_def find_Some_iff)
    ultimately show "getInterfaceByName (Some s) ift = Some ie"
      using * inv by (auto simp: distinct_map inj_on_def)
  qed
next
  note inv = ift_inv_reachable [OF assms, unfolded ift_inv_def]
  show n: "snd (getNumInterfaces ift) = int (length (interfaces ift))"
    using inv by (auto simp: getNumInterfaces_def Let_def)
  show "if 0 \<le> pos \<and> pos < int (length (interfaces ift))
     then \<exists>ift'. getInterface pos ift = Inr (ift', interfaceId (interfaces ift ! nat pos)) \<and> interfaces ift' = interfaces ift
     else isl (getInterface pos ift)"
    using inv n by (auto simp: getInterface_def split_beta getNumInterfaces_def Let_def not_less)
qed

lemma interface_table_exact_witness:
  "\<exists>ift ie. addInterface None \<lparr>interfaceId = 0, interfaceName = ''lo0'', mtu = 3924, nwLayerGateIndex = - 1,
      broadcast = False, loopback = True, macAddr = MAC_unspecified, ipv4data = None\<rparr> InterfaceTable_new = Inr (ift, NF_INTERFACE_CREATED 100) \<and>
     getInterfaceById 100 ift = Some ie \<and> interfaceName ie = ''lo0'' \<and> snd (getNumInterfaces ift) = 1"
proof -
  obtain lo0 :: InterfaceEntry where lo0: "lo0 = \<lparr>interfaceId = 0, interfaceName = ''lo0'', mtu = 3924, nwLayerGateIndex = - 1,
      broadcast = False, loopback = True, macAddr = MAC_unspecified, ipv4data = None\<rparr>" by blast
  obtain ie where ie: "ie = lo0\<lparr>interfaceId := 100\<rparr>" by blast
  obtain ift where ift: "addInterface None lo0 InterfaceTable_new = Inr (ift, NF_INTERFACE_CREATED 100)" "interfaces ift = [ie]"
    by (simp add: addInterface_def InterfaceTable_new_def getInterfaceByName_def INTERFACEIDS_START_def interfaces_def
        map_filter_def invalidateTmpInterfaceList_def ie)
  have "ift_reachable ift" by (rule ift_reachable.add [OF ift_reachable.new ift(1)])
  from interface_table_exact [OF this, of 100 "''lo0''" 0] have "getInterfaceById 100 ift = Some ie" "snd (getNumInterfaces ift) = 1"
    unfolding ift(2) by (simp_all add: ie)
  then show ?thesis using ift(1) unfolding lo0 by (auto simp: ie lo0)
qed

end
