(* ===== verification/IP_RoutingTable.thy ===== *)
theory IP_RoutingTable imports IP_Interfaces
begin

text \<open>
  The IPv4 routing table: \<^verbatim>\<open>src/src/networklayer/ipv4/RoutingTable.{h,cc}\<close>,
  and \<^verbatim>\<open>IPRoute.{h,cc}\<close>. The interfaces it reads are those of the interface table, in their order.
\<close>

section \<open>Routes\<close>

datatype RouteType = DIRECT | REMOTE

datatype RouteSource = MANUAL | IFACENETMASK | RIP | OSPF | BGP | ZEBRA

record IPRoute =
  host :: IPAddress
  netmaskOf :: IPAddress
  gateway :: IPAddress
  interfacePtr :: "int option"
  routeType :: RouteType
  source :: RouteSource
  metric :: int

definition IPRoute_new :: IPRoute where
  "IPRoute_new = \<lparr>host = 0, netmaskOf = 0, gateway = 0, interfacePtr = None, routeType = DIRECT,
     source = MANUAL, metric = 0\<rparr>"

section \<open>The table\<close>

text \<open>
  The vectors hold pointers; a pointer is a number, paired with the route it points to, which does not
  change while it is in the table. The caches are part of the state although the methods that fill
  them are const.
\<close>

type_synonym RouteVector = "(nat \<times> IPRoute) list"

datatype RouteNotification = RouteAdded nat | RouteDeleted nat

record RoutingTable =
  routerId :: IPAddress
  IPForward :: bool
  routes :: RouteVector
  multicastRoutes :: RouteVector
  routingCache :: "IPAddress \<Rightarrow> nat option option"
  localAddresses :: "IPAddress list"
  nextRoute :: nat
  notified :: "RouteNotification list"

definition RoutingTable_new :: "bool \<Rightarrow> RoutingTable" where
  "RoutingTable_new fwd = \<lparr>routerId = 0, IPForward = fwd, routes = [], multicastRoutes = [],
     routingCache = Map.empty, localAddresses = [], nextRoute = 0, notified = []\<rparr>"

definition invalidateCache :: "RoutingTable \<Rightarrow> RoutingTable" where
  "invalidateCache rt = rt\<lparr>routingCache := Map.empty, localAddresses := []\<rparr>"

definition setRouterId :: "IPAddress \<Rightarrow> RoutingTable \<Rightarrow> RoutingTable" where
  "setRouterId a rt = rt\<lparr>routerId := a\<rparr>"

definition isLocalAddress :: "IPAddress \<Rightarrow> RoutingTable \<Rightarrow> RoutingTable \<times> bool" where
  "isLocalAddress dest rt =
     (let rt = (if localAddresses rt = [] then rt\<lparr>localAddresses := [routerId rt]\<rparr> else rt)
      in (rt, dest \<in> set (localAddresses rt)))"

fun getInterfaceByAddress :: "IPAddress \<Rightarrow> InterfaceEntry list \<Rightarrow> InterfaceEntry option res" where
  "getInterfaceByAddress addr [] = Inr None"
| "getInterfaceByAddress addr (ie # ift) =
     (if addr = 0 then Inr None
      else andThen (ipv4Data ie) (\<lambda>d. if inetAddr d = addr then Inr (Some ie)
             else getInterfaceByAddress addr ift))"

fun isLocalMulticastAddress :: "IPAddress \<Rightarrow> InterfaceEntry list \<Rightarrow> bool res" where
  "isLocalMulticastAddress dest [] = Inr False"
| "isLocalMulticastAddress dest (ie # ift) =
     andThen (ipv4Data ie) (\<lambda>d. if isMemberOfMulticastGroup dest d then Inr True
       else isLocalMulticastAddress dest ift)"

text \<open>The search for the best match: the loop carries the best route so far and its netmask.\<close>

definition routeCovers :: "IPAddress \<Rightarrow> IPRoute \<Rightarrow> bool" where
  "routeCovers dest e = maskedAddrAreEqual dest (host e) (netmaskOf e)"

fun bestMatch :: "IPAddress \<Rightarrow> nat option \<times> uint32 \<Rightarrow> RouteVector \<Rightarrow> nat option" where
  "bestMatch dest (bestRoute, longestNetmask) [] = bestRoute"
| "bestMatch dest (bestRoute, longestNetmask) ((p, e) # rs) =
     bestMatch dest (if routeCovers dest e \<and> (bestRoute = None \<or> longestNetmask < netmaskOf e)
                     then (Some p, netmaskOf e) else (bestRoute, longestNetmask)) rs"

definition findBestMatchingRoute :: "IPAddress \<Rightarrow> RoutingTable \<Rightarrow> RoutingTable \<times> nat option" where
  "findBestMatchingRoute dest rt = (case routingCache rt dest of
     Some r \<Rightarrow> (rt, r)
   | None \<Rightarrow> let r = bestMatch dest (None, 0) (routes rt)
       in (rt\<lparr>routingCache := (routingCache rt)(dest \<mapsto> r)\<rparr>, r))"

text \<open>A route in the table, by its pointer.\<close>

definition routeAt :: "nat \<Rightarrow> RoutingTable \<Rightarrow> IPRoute option" where
  "routeAt p rt = map_of (routes rt @ multicastRoutes rt) p"

definition getInterfaceForDestAddr :: "IPAddress \<Rightarrow> RoutingTable \<Rightarrow> RoutingTable \<times> int option" where
  "getInterfaceForDestAddr dest rt = (case findBestMatchingRoute dest rt of
     (rt, None) \<Rightarrow> (rt, None)
   | (rt, Some p) \<Rightarrow> (rt, case routeAt p rt of Some e \<Rightarrow> interfacePtr e | None \<Rightarrow> None))"

definition getGatewayForDestAddr :: "IPAddress \<Rightarrow> RoutingTable \<Rightarrow> RoutingTable \<times> IPAddress" where
  "getGatewayForDestAddr dest rt = (case findBestMatchingRoute dest rt of
     (rt, None) \<Rightarrow> (rt, 0)
   | (rt, Some p) \<Rightarrow> (rt, case routeAt p rt of Some e \<Rightarrow> gateway e | None \<Rightarrow> 0))"

definition getMulticastRoutesFor :: "IPAddress \<Rightarrow> RoutingTable \<Rightarrow> (int option \<times> IPAddress) list" where
  "getMulticastRoutesFor dest rt =
     map (\<lambda>(p, e). (interfacePtr e, gateway e)) (filter (routeCovers dest \<circ> snd) (multicastRoutes rt))"

definition getNumRoutes :: "RoutingTable \<Rightarrow> int" where
  "getNumRoutes rt = int (length (routes rt) + length (multicastRoutes rt))"

text \<open>A negative index reads before the vector.\<close>

definition getRoute :: "int \<Rightarrow> RoutingTable \<Rightarrow> nat option res" where
  "getRoute k rt =
     (if k < 0 then Inl (UndefinedBehaviour ''routes[k]'')
      else if k < int (length (routes rt)) then Inr (Some (fst (routes rt ! nat k)))
      else let k = k - int (length (routes rt))
           in if k < int (length (multicastRoutes rt)) then Inr (Some (fst (multicastRoutes rt ! nat k)))
              else Inr None)"

definition getDefaultRoute :: "RoutingTable \<Rightarrow> nat option" where
  "getDefaultRoute rt = map_option fst (find (\<lambda>(p, e). netmaskOf e = 0) (routes rt))"

text \<open>The parameters that are zero, and a null device name, match every route.\<close>

definition routeMatches ::
  "(int \<Rightarrow> string) \<Rightarrow> IPRoute \<Rightarrow> IPAddress \<Rightarrow> IPAddress \<Rightarrow> IPAddress \<Rightarrow> int \<Rightarrow> string option \<Rightarrow> bool" where
  "routeMatches ifName entry target nmask gw m dev =
     (if target \<noteq> 0 \<and> target \<noteq> host entry then False
      else if nmask \<noteq> 0 \<and> nmask \<noteq> netmaskOf entry then False
      else if gw \<noteq> 0 \<and> gw \<noteq> gateway entry then False
      else if m \<noteq> 0 \<and> m \<noteq> metric entry then False
      else if (case dev of None \<Rightarrow> False
               | Some d \<Rightarrow> d \<noteq> (case interfacePtr entry of Some i \<Rightarrow> ifName i | None \<Rightarrow> [])) then False
      else True)"

definition findRoute ::
  "(int \<Rightarrow> string) \<Rightarrow> IPAddress \<Rightarrow> IPAddress \<Rightarrow> IPAddress \<Rightarrow> int \<Rightarrow> string option \<Rightarrow> RoutingTable \<Rightarrow> nat option" where
  "findRoute ifName target nmask gw m dev rt =
     map_option fst (find (\<lambda>(p, e). routeMatches ifName e target nmask gw m dev)
       (routes rt @ multicastRoutes rt))"

section \<open>Changes\<close>

fun erasePtr :: "nat \<Rightarrow> RouteVector \<Rightarrow> RouteVector" where
  "erasePtr p [] = []"
| "erasePtr p ((q, e) # rs) = (if q = p then rs else (q, e) # erasePtr p rs)"

definition deleteRoute :: "nat \<Rightarrow> RoutingTable \<Rightarrow> RoutingTable \<times> bool" where
  "deleteRoute p rt =
     (if p \<in> fst ` set (routes rt)
      then (invalidateCache (rt\<lparr>notified := notified rt @ [RouteDeleted p], routes := erasePtr p (routes rt)\<rparr>), True)
      else if p \<in> fst ` set (multicastRoutes rt)
      then (invalidateCache (rt\<lparr>notified := notified rt @ [RouteDeleted p],
              multicastRoutes := erasePtr p (multicastRoutes rt)\<rparr>), True)
      else (rt, False))"

text \<open>The second test masks the host with the result of a test of the netmask, not with the netmask.\<close>

definition addRoute :: "nat \<Rightarrow> IPRoute \<Rightarrow> RoutingTable \<Rightarrow> RoutingTable res" where
  "addRoute p e rt =
     (if (host e = 0) \<noteq> (netmaskOf e = 0)
      then Inl (OppError ''addRoute(): to add a default route, set both host and netmask to zero'')
      else if host e AND (if netmaskOf e = 0 then 1 else 0) \<noteq> 0
      then Inl (OppError ''addRoute(): suspicious route'')
      else if interfacePtr e = None then Inl (OppError ''addRoute(): interface cannot be NULL'')
      else let rt = (case getDefaultRoute rt of
                 Some d \<Rightarrow> if netmaskOf e = 0 then fst (deleteRoute d rt) else rt
               | None \<Rightarrow> rt);
               rt = (if \<not> isMulticast (host e) then rt\<lparr>routes := routes rt @ [(p, e)]\<rparr>
                     else rt\<lparr>multicastRoutes := multicastRoutes rt @ [(p, e)]\<rparr>);
               rt = invalidateCache rt
           in Inr (rt\<lparr>notified := notified rt @ [RouteAdded p]\<rparr>))"

text \<open>The route that an interface contributes by its netmask.\<close>

definition netmaskRoute :: "InterfaceEntry \<Rightarrow> IPv4InterfaceData \<Rightarrow> IPRoute" where
  "netmaskRoute ie d = IPRoute_new\<lparr>routeType := DIRECT, source := IFACENETMASK, host := inetAddr d,
     netmaskOf := ifNetmask d, gateway := 0, metric := ifMetric d, interfacePtr := Some (interfaceId ie)\<rparr>"

fun addNetmaskRoutes :: "InterfaceEntry list \<Rightarrow> RoutingTable \<Rightarrow> RoutingTable res" where
  "addNetmaskRoutes [] rt = Inr rt"
| "addNetmaskRoutes (ie # ift) rt = andThen (ipv4Data ie) (\<lambda>d.
     addNetmaskRoutes ift
       (if ifNetmask d \<noteq> 0xFFFFFFFF
        then rt\<lparr>routes := routes rt @ [(nextRoute rt, netmaskRoute ie d)], nextRoute := nextRoute rt + 1\<rparr>
        else rt))"

definition updateNetmaskRoutes :: "InterfaceEntry list \<Rightarrow> RoutingTable \<Rightarrow> RoutingTable res" where
  "updateNetmaskRoutes ift rt =
     andThen (addNetmaskRoutes ift (rt\<lparr>routes := filter (\<lambda>(p, e). source e \<noteq> IFACENETMASK) (routes rt)\<rparr>))
       (\<lambda>rt. Inr (invalidateCache rt))"

lemma length_erasePtr: "p \<in> fst ` set rs \<Longrightarrow> length (erasePtr p rs) < length rs"
  by (induction p rs rule: erasePtr.induct) auto

text \<open>The loop starts over after each route it deletes.\<close>

function deleteInterfaceRoutes :: "int \<Rightarrow> RoutingTable \<Rightarrow> RoutingTable" where
  "deleteInterfaceRoutes entry rt = (case find (\<lambda>(p, e). interfacePtr e = Some entry) (routes rt) of
     Some (p, e) \<Rightarrow> deleteInterfaceRoutes entry (fst (deleteRoute p rt))
   | None \<Rightarrow> rt)"
  by pat_completeness auto
termination
proof (relation "measure (\<lambda>(entry, rt). length (routes rt))", simp, clarify)
  fix entry :: int and rt :: RoutingTable and p e
  assume "find (\<lambda>(p, e). interfacePtr e = Some entry) (routes rt) = Some (p, e)"
  then have "(p, e) \<in> set (routes rt)" by (metis find_Some_iff nth_mem)
  then have "p \<in> fst ` set (routes rt)" by force
  then show "((entry, fst (deleteRoute p rt)), entry, rt) \<in> measure (\<lambda>(entry, rt). length (routes rt))"
    by (simp add: deleteRoute_def invalidateCache_def length_erasePtr)
qed

declare deleteInterfaceRoutes.simps [simp del]

text \<open>What the table does when an interface changes; during the initialisation it does nothing.\<close>

definition receiveChangeNotification ::
  "bool \<Rightarrow> InterfaceEntry list \<Rightarrow> InterfaceNotification \<Rightarrow> RoutingTable \<Rightarrow> RoutingTable res" where
  "receiveChangeNotification initializing ift category rt =
     (if initializing then Inr rt
      else case category of
        NF_INTERFACE_CREATED entry \<Rightarrow> updateNetmaskRoutes ift rt
      | NF_INTERFACE_DELETED entry \<Rightarrow> Inr (deleteInterfaceRoutes entry rt)
      | NF_INTERFACE_STATE_CHANGED \<Rightarrow> Inr (invalidateCache rt)
      | NF_INTERFACE_CONFIG_CHANGED \<Rightarrow> Inr (invalidateCache rt)
      | NF_INTERFACE_IPv4CONFIG_CHANGED \<Rightarrow> updateNetmaskRoutes ift rt)"

section \<open>Initialisation\<close>

fun setFirstLoopback :: "IPv4InterfaceData \<Rightarrow> InterfaceEntry list \<Rightarrow> InterfaceEntry list res" where
  "setFirstLoopback d [] = Inl (NullPointer ''getFirstLoopbackInterface()'')"
| "setFirstLoopback d (ie # ift) =
     (if loopback ie then Inr (ie\<lparr>ipv4data := Some d\<rparr> # ift)
      else andThen (setFirstLoopback d ift) (\<lambda>ift. Inr (ie # ift)))"

definition configureLoopbackForIPv4 :: "InterfaceEntry list \<Rightarrow> InterfaceEntry list res" where
  "configureLoopbackForIPv4 ift = setFirstLoopback
     \<lparr>inetAddr = IPAddress_set 127 0 0 1, ifNetmask = IPAddress_set 255 0 0 0, ifMetric = 1, multicastGroups = []\<rparr> ift"

fun highestAddress :: "IPAddress \<Rightarrow> InterfaceEntry list \<Rightarrow> IPAddress res" where
  "highestAddress a [] = Inr a"
| "highestAddress a (ie # ift) =
     (if loopback ie then highestAddress a ift
      else andThen (ipv4Data ie) (\<lambda>d. highestAddress (if a < inetAddr d then inetAddr d else a) ift))"

text \<open>
  Without a router id it is chosen if the parameter is \<^verbatim>\<open>auto\<close>; a given one is put on the
  loopback interface if no interface has it.
\<close>

definition configureRouterId ::
  "string \<Rightarrow> InterfaceEntry list \<Rightarrow> RoutingTable \<Rightarrow> (InterfaceEntry list \<times> RoutingTable) res" where
  "configureRouterId routerIdStr ift rt =
     (if routerId rt = 0
      then if routerIdStr = ''auto''
           then andThen (highestAddress (routerId rt) ift) (\<lambda>a. Inr (ift, rt\<lparr>routerId := a\<rparr>))
           else Inr (ift, rt)
      else andThen (getInterfaceByAddress (routerId rt) ift) (\<lambda>r. case r of
          Some ie \<Rightarrow> Inr (ift, rt)
        | None \<Rightarrow> (case find loopback ift of
              None \<Rightarrow> Inl (NullPointer ''getFirstLoopbackInterface()'')
            | Some lo0 \<Rightarrow> andThen (ipv4Data lo0) (\<lambda>d.
                andThen (setFirstLoopback (d\<lparr>inetAddr := routerId rt, ifNetmask := 0xFFFFFFFF\<rparr>) ift)
                  (\<lambda>ift. Inr (ift, rt))))))"

definition initialize_stage3 ::
  "string \<Rightarrow> InterfaceEntry list \<Rightarrow> RoutingTable \<Rightarrow> (InterfaceEntry list \<times> RoutingTable) res" where
  "initialize_stage3 routerIdStr ift rt =
     andThen (configureRouterId routerIdStr ift rt) (\<lambda>(ift, rt).
     andThen (updateNetmaskRoutes ift rt) (\<lambda>rt. Inr (ift, rt)))"

end
