(* ===== verification/IP_RoutingProps.thy ===== *)
theory IP_RoutingProps imports IP_RoutingTable
begin

text \<open>
  What the routing table promises: lookups return the longest matching prefix and the cache never
  shows, routes are accepted and replaced as written, and the routes of the interfaces follow the
  interfaces.
\<close>

section \<open>The best match\<close>

text \<open>The routes of a list that cover an address have netmasks up to a bound.\<close>

definition masksUpTo :: "IPAddress \<Rightarrow> RouteVector \<Rightarrow> uint32 \<Rightarrow> bool" where
  "masksUpTo dest rs l \<longleftrightarrow> (\<forall>(p, f) \<in> set rs. routeCovers dest f \<longrightarrow> netmaskOf f \<le> l)"

lemma masksUpTo_Cons [simp]:
  "masksUpTo dest ((p, f) # rs) l \<longleftrightarrow> (routeCovers dest f \<longrightarrow> netmaskOf f \<le> l) \<and> masksUpTo dest rs l"
  by (simp add: masksUpTo_def)

lemma bestMatch_Some:
  "\<exists>q. bestMatch dest (Some b, l) rs = Some q \<and> (q = b \<and> masksUpTo dest rs l \<or>
     (\<exists>e. (q, e) \<in> set rs \<and> routeCovers dest e \<and> l < netmaskOf e \<and> masksUpTo dest rs (netmaskOf e)))"
proof (induction rs arbitrary: b l)
  case (Cons r rs)
  obtain p f where r: "r = (p, f)" by force
  show ?case
  proof (cases "routeCovers dest f \<and> l < netmaskOf f")
    case True
    from Cons.IH [of p "netmaskOf f"] obtain q where q: "bestMatch dest (Some p, netmaskOf f) rs = Some q"
      "q = p \<and> masksUpTo dest rs (netmaskOf f) \<or> (\<exists>e. (q, e) \<in> set rs \<and> routeCovers dest e \<and>
         netmaskOf f < netmaskOf e \<and> masksUpTo dest rs (netmaskOf e))" by blast
    from q(2) have "\<exists>e. (q, e) \<in> set (r # rs) \<and> routeCovers dest e \<and> l < netmaskOf e \<and> masksUpTo dest (r # rs) (netmaskOf e)"
    proof
      assume "q = p \<and> masksUpTo dest rs (netmaskOf f)"
      with True r show ?thesis by (intro exI [of _ f]) simp
    next
      assume "\<exists>e. (q, e) \<in> set rs \<and> routeCovers dest e \<and> netmaskOf f < netmaskOf e \<and> masksUpTo dest rs (netmaskOf e)"
      then obtain e where "(q, e) \<in> set rs" "routeCovers dest e" "netmaskOf f < netmaskOf e" "masksUpTo dest rs (netmaskOf e)"
        by blast
      with True r show ?thesis by (intro exI [of _ e]) auto
    qed
    with q(1) True r show ?thesis by auto
  next
    case False
    then have f: "routeCovers dest f \<Longrightarrow> netmaskOf f \<le> l" by auto
    from Cons.IH [of b l] obtain q where q: "bestMatch dest (Some b, l) rs = Some q"
      "q = b \<and> masksUpTo dest rs l \<or> (\<exists>e. (q, e) \<in> set rs \<and> routeCovers dest e \<and> l < netmaskOf e \<and>
         masksUpTo dest rs (netmaskOf e))" by blast
    from q(2) f r have "q = b \<and> masksUpTo dest (r # rs) l \<or> (\<exists>e. (q, e) \<in> set (r # rs) \<and> routeCovers dest e \<and>
        l < netmaskOf e \<and> masksUpTo dest (r # rs) (netmaskOf e))"
      by (simp, meson order_le_less_trans less_imp_le)
    with q(1) False r show ?thesis by auto
  qed
qed (simp add: masksUpTo_def)

lemma bestMatch_cases:
  "bestMatch dest (None, 0) rs = None \<and> (\<forall>(p, f) \<in> set rs. \<not> routeCovers dest f) \<or>
   (\<exists>q e. bestMatch dest (None, 0) rs = Some q \<and> (q, e) \<in> set rs \<and> routeCovers dest e \<and> masksUpTo dest rs (netmaskOf e))"
proof (induction rs)
  case (Cons r rs)
  obtain p f where r: "r = (p, f)" by force
  show ?case
  proof (cases "routeCovers dest f")
    case True
    from bestMatch_Some [of dest p "netmaskOf f" rs] obtain q where q: "bestMatch dest (Some p, netmaskOf f) rs = Some q"
      "q = p \<and> masksUpTo dest rs (netmaskOf f) \<or> (\<exists>e. (q, e) \<in> set rs \<and> routeCovers dest e \<and>
         netmaskOf f < netmaskOf e \<and> masksUpTo dest rs (netmaskOf e))" by blast
    from q(2) have "\<exists>e. (q, e) \<in> set (r # rs) \<and> routeCovers dest e \<and> masksUpTo dest (r # rs) (netmaskOf e)"
    proof
      assume "q = p \<and> masksUpTo dest rs (netmaskOf f)"
      with True r show ?thesis by (intro exI [of _ f]) simp
    next
      assume "\<exists>e. (q, e) \<in> set rs \<and> routeCovers dest e \<and> netmaskOf f < netmaskOf e \<and> masksUpTo dest rs (netmaskOf e)"
      then obtain e where "(q, e) \<in> set rs" "routeCovers dest e" "netmaskOf f < netmaskOf e" "masksUpTo dest rs (netmaskOf e)"
        by blast
      with r show ?thesis by (intro exI [of _ e]) auto
    qed
    with q(1) True r show ?thesis by auto
  next
    case False
    from Cons.IH False r show ?thesis by auto
  qed
qed simp

section \<open>Netmasks\<close>

lemma netmask_less:
  assumes "m < n" "n \<le> 32"
  shows "netmask m < netmask n"
proof -
  have "netmask n AND netmask m = netmask m" using assms by (intro bit_word_eqI) (auto simp: bit_and_iff bit_netmask)
  then have "netmask m \<le> netmask n" using word_and_le2 [of "netmask n" "netmask m"] by metis
  moreover have "bit (netmask n) (32 - n) \<noteq> bit (netmask m) (32 - n)" using assms by (auto simp: bit_netmask)
  ultimately show ?thesis by (metis order_le_less)
qed

lemma netmask_le: "m \<le> 32 \<Longrightarrow> n \<le> 32 \<Longrightarrow> netmask m \<le> netmask n \<longleftrightarrow> m \<le> n"
  using netmask_less [of m n] netmask_less [of n m] by (cases m n rule: linorder_cases) auto

lemma routeCovers_prefix: "n \<le> 32 \<Longrightarrow> netmaskOf e = netmask n \<Longrightarrow> routeCovers dest e \<longleftrightarrow> prefixMatches dest (host e) (int n)"
  by (simp add: routeCovers_def maskedAddrAreEqual_iff prefixMatches_iff)

section \<open>Runs\<close>

text \<open>
  The operations of the table, from a new table on. A route that is added is a new object, so its
  pointer is one that was not used before.
\<close>

inductive rt_step :: "RoutingTable \<Rightarrow> RoutingTable \<Rightarrow> bool" where
  lookup: "rt_step rt (fst (findBestMatchingRoute dest rt))"
| local: "rt_step rt (fst (isLocalAddress dest rt))"
| add: "addRoute (nextRoute rt) e (rt\<lparr>nextRoute := nextRoute rt + 1\<rparr>) = Inr rt' \<Longrightarrow> rt_step rt rt'"
| delete: "rt_step rt (fst (deleteRoute p rt))"
| notify: "receiveChangeNotification initializing ift category rt = Inr rt' \<Longrightarrow> rt_step rt rt'"
| setId: "rt_step rt (setRouterId a rt)"

inductive rt_reachable :: "RoutingTable \<Rightarrow> bool" where
  new: "rt_reachable (RoutingTable_new fwd)"
| step: "rt_reachable rt \<Longrightarrow> rt_step rt rt' \<Longrightarrow> rt_reachable rt'"

definition pointers :: "RoutingTable \<Rightarrow> nat list" where
  "pointers rt = map fst (routes rt) @ map fst (multicastRoutes rt)"

text \<open>The vectors hold different pointers that are in use, and the cache holds results of the search.\<close>

definition ptr_inv :: "RoutingTable \<Rightarrow> bool" where
  "ptr_inv rt \<longleftrightarrow> distinct (pointers rt) \<and> (\<forall>p \<in> set (pointers rt). p < nextRoute rt)"

definition cache_inv :: "RoutingTable \<Rightarrow> bool" where
  "cache_inv rt \<longleftrightarrow> (\<forall>dest r. routingCache rt dest = Some r \<longrightarrow> r = bestMatch dest (None, 0) (routes rt))"

definition rt_inv :: "RoutingTable \<Rightarrow> bool" where
  "rt_inv rt \<longleftrightarrow> cache_inv rt \<and> ptr_inv rt"

lemma invalidateCache_sel [simp]:
  "routes (invalidateCache rt) = routes rt" "multicastRoutes (invalidateCache rt) = multicastRoutes rt"
  "nextRoute (invalidateCache rt) = nextRoute rt" "pointers (invalidateCache rt) = pointers rt"
  "ptr_inv (invalidateCache rt) = ptr_inv rt" "cache_inv (invalidateCache rt)"
  by (simp_all add: invalidateCache_def pointers_def ptr_inv_def cache_inv_def)

lemma notified_sel [simp]:
  "pointers (rt\<lparr>notified := n\<rparr>) = pointers rt" "ptr_inv (rt\<lparr>notified := n\<rparr>) = ptr_inv rt"
  "cache_inv (rt\<lparr>notified := n\<rparr>) = cache_inv rt"
  by (simp_all add: pointers_def ptr_inv_def cache_inv_def)

lemma ptr_inv_shrink:
  assumes "ptr_inv rt" "nextRoute rt' = nextRoute rt" "set (pointers rt') \<subseteq> set (pointers rt)" "distinct (pointers rt')"
  shows "ptr_inv rt'"
  using assms by (auto simp: ptr_inv_def)

lemma map_erasePtr: "map fst (erasePtr p rs) = remove1 p (map fst rs)"
  by (induction p rs rule: erasePtr.induct) auto

lemma pointers_delete:
  assumes "ptr_inv rt"
  shows "pointers (fst (deleteRoute p rt)) = remove1 p (pointers rt) \<and> nextRoute (fst (deleteRoute p rt)) = nextRoute rt"
proof -
  have m: "p \<in> fst ` set rs \<longleftrightarrow> p \<in> set (map fst rs)" for rs :: RouteVector by simp
  show ?thesis unfolding deleteRoute_def m
    by (simp add: pointers_def map_erasePtr remove1_append remove1_idem del: set_map)
qed

lemma ptr_inv_delete:
  assumes "ptr_inv rt"
  shows "ptr_inv (fst (deleteRoute p rt))"
proof (rule ptr_inv_shrink [OF assms])
  note d = pointers_delete [OF assms, of p]
  show "nextRoute (fst (deleteRoute p rt)) = nextRoute rt" using d by (rule conjunct2)
  show "set (pointers (fst (deleteRoute p rt))) \<subseteq> set (pointers rt)"
    unfolding conjunct1 [OF d] by (rule set_remove1_subset)
  show "distinct (pointers (fst (deleteRoute p rt)))"
    unfolding conjunct1 [OF d] using assms by (simp add: ptr_inv_def distinct_remove1)
qed

lemma cache_inv_delete: "cache_inv rt \<Longrightarrow> cache_inv (fst (deleteRoute p rt))"
  by (simp add: deleteRoute_def)

lemma rt_inv_deleteInterface: "rt_inv rt \<Longrightarrow> rt_inv (deleteInterfaceRoutes i rt)"
proof (induction i rt rule: deleteInterfaceRoutes.induct)
  case (1 i rt)
  show ?case
  proof (cases "find (\<lambda>(p, e). interfacePtr e = Some i) (routes rt)")
    case None
    with 1(2) show ?thesis by (simp add: deleteInterfaceRoutes.simps [of i rt])
  next
    case (Some r)
    obtain p e where r: "r = (p, e)" by force
    have "rt_inv (fst (deleteRoute p rt))" using 1(2) ptr_inv_delete cache_inv_delete by (simp add: rt_inv_def)
    from 1(1) [OF Some r [symmetric] this] Some r show ?thesis by (simp add: deleteInterfaceRoutes.simps [of i rt])
  qed
qed

text \<open>A new pointer in one of the vectors.\<close>

lemma ptr_inv_new:
  assumes "ptr_inv rt" "set (pointers rt') = insert (nextRoute rt) (set (pointers rt))"
    "length (pointers rt') = Suc (length (pointers rt))" "nextRoute rt' = nextRoute rt + 1"
  shows "ptr_inv rt'"
proof -
  have "nextRoute rt \<notin> set (pointers rt)" using assms(1) by (auto simp: ptr_inv_def)
  then have "card (set (pointers rt')) = length (pointers rt')"
    using assms by (simp add: ptr_inv_def distinct_card)
  then show ?thesis using assms by (auto simp: ptr_inv_def card_distinct less_Suc_eq)
qed

lemma ptr_inv_addNetmask: "addNetmaskRoutes ift rt = Inr rt' \<Longrightarrow> ptr_inv rt \<Longrightarrow> ptr_inv rt'"
proof (induction ift arbitrary: rt)
  case (Cons ie ift)
  from Cons.prems(1) obtain d where "ipv4Data ie = Inr d" and
    r: "addNetmaskRoutes ift (if ifNetmask d \<noteq> 0xFFFFFFFF
      then rt\<lparr>routes := routes rt @ [(nextRoute rt, netmaskRoute ie d)], nextRoute := nextRoute rt + 1\<rparr> else rt) = Inr rt'"
    by (auto simp: res_simps)
  have "ptr_inv (rt\<lparr>routes := routes rt @ [(nextRoute rt, e)], nextRoute := nextRoute rt + 1\<rparr>)" for e
    using Cons.prems(2) by (rule ptr_inv_new) (simp_all add: pointers_def)
  with Cons.prems(2) show ?case by (intro Cons.IH [OF r]) simp
qed simp

lemma ptr_inv_filter: "ptr_inv rt \<Longrightarrow> ptr_inv (rt\<lparr>routes := filter P (routes rt)\<rparr>)"
  by (rule ptr_inv_shrink) (auto simp: ptr_inv_def pointers_def distinct_map_filter)

lemma updateNetmaskRoutes_inv: "updateNetmaskRoutes ift rt = Inr rt' \<Longrightarrow> rt_inv rt \<Longrightarrow> rt_inv rt'"
  by (auto simp: updateNetmaskRoutes_def res_simps rt_inv_def dest: ptr_inv_addNetmask [OF _ ptr_inv_filter])

lemma rt_inv_notify: "receiveChangeNotification initializing ift category rt = Inr rt' \<Longrightarrow> rt_inv rt \<Longrightarrow> rt_inv rt'"
  by (cases category)
     (auto simp: receiveChangeNotification_def rt_inv_deleteInterface split: if_splits dest: updateNetmaskRoutes_inv,
      auto simp: rt_inv_def)

text \<open>The table after the default route was replaced, before the new route is put in.\<close>

definition dropDefault :: "IPRoute \<Rightarrow> RoutingTable \<Rightarrow> RoutingTable" where
  "dropDefault e rt = (case getDefaultRoute rt of
     Some d \<Rightarrow> if netmaskOf e = 0 then fst (deleteRoute d rt) else rt | None \<Rightarrow> rt)"

lemma addRoute_alt:
  "addRoute p e rt =
    (if (host e = 0) \<noteq> (netmaskOf e = 0)
     then Inl (OppError ''addRoute(): to add a default route, set both host and netmask to zero'')
     else if interfacePtr e = None then Inl (OppError ''addRoute(): interface cannot be NULL'')
     else let rt' = dropDefault e rt;
              rt'' = (if \<not> isMulticast (host e) then rt'\<lparr>routes := routes rt' @ [(p, e)]\<rparr>
                      else rt'\<lparr>multicastRoutes := multicastRoutes rt' @ [(p, e)]\<rparr>)
          in Inr ((invalidateCache rt'')\<lparr>notified := notified rt'' @ [RouteAdded p]\<rparr>))"
  by (auto simp: addRoute_def dropDefault_def Let_def invalidateCache_def split: option.split)

lemma rt_inv_add:
  assumes "rt_inv rt" "addRoute (nextRoute rt) e (rt\<lparr>nextRoute := nextRoute rt + 1\<rparr>) = Inr rt'"
  shows "rt_inv rt'"
proof -
  let ?p = "nextRoute rt" and ?rt = "dropDefault e (rt\<lparr>nextRoute := nextRoute rt + 1\<rparr>)"
  have inv: "ptr_inv (rt\<lparr>nextRoute := ?p + 1\<rparr>)" and new: "?p \<notin> set (pointers (rt\<lparr>nextRoute := ?p + 1\<rparr>))"
    using assms(1) by (auto simp: rt_inv_def ptr_inv_def pointers_def less_Suc_eq)
  have "ptr_inv ?rt \<and> set (pointers ?rt) \<subseteq> set (pointers (rt\<lparr>nextRoute := ?p + 1\<rparr>)) \<and> nextRoute ?rt = ?p + 1"
    using ptr_inv_delete [OF inv] pointers_delete [OF inv] inv
    by (auto simp: dropDefault_def split: option.split dest: subsetD [OF set_remove1_subset])
  then have "ptr_inv ?rt" "?p \<notin> set (pointers ?rt)" "nextRoute ?rt = ?p + 1" using new by auto
  then have "ptr_inv (?rt\<lparr>routes := routes ?rt @ [(?p, e)]\<rparr>)" "ptr_inv (?rt\<lparr>multicastRoutes := multicastRoutes ?rt @ [(?p, e)]\<rparr>)"
    by (simp_all add: ptr_inv_def pointers_def ball_Un)
  with assms(2) show ?thesis by (auto simp: addRoute_alt Let_def rt_inv_def split: if_splits)
qed

lemma rt_inv_lookup: "rt_inv rt \<Longrightarrow> rt_inv (fst (findBestMatchingRoute dest rt))"
  by (auto simp: findBestMatchingRoute_def rt_inv_def cache_inv_def ptr_inv_def pointers_def Let_def split: option.split)

lemma rt_inv_local: "rt_inv rt \<Longrightarrow> rt_inv (fst (isLocalAddress dest rt))"
  by (simp add: isLocalAddress_def rt_inv_def cache_inv_def ptr_inv_def pointers_def Let_def)

lemma rt_inv_setId: "rt_inv rt \<Longrightarrow> rt_inv (setRouterId a rt)"
  by (simp add: setRouterId_def rt_inv_def cache_inv_def ptr_inv_def pointers_def)

lemma rt_inv_delete: "rt_inv rt \<Longrightarrow> rt_inv (fst (deleteRoute p rt))"
  by (simp add: rt_inv_def ptr_inv_delete cache_inv_delete)

lemma rt_inv_step: "rt_step rt rt' \<Longrightarrow> rt_inv rt \<Longrightarrow> rt_inv rt'"
  by (induction rule: rt_step.induct)
     (blast intro: rt_inv_lookup rt_inv_local rt_inv_setId rt_inv_delete rt_inv_add rt_inv_notify)+

lemma rt_inv_reachable: "rt_reachable rt \<Longrightarrow> rt_inv rt"
proof (induction rule: rt_reachable.induct)
  case (new fwd)
  show ?case by (simp add: rt_inv_def cache_inv_def ptr_inv_def RoutingTable_new_def pointers_def)
qed (rule rt_inv_step)

section \<open>Lookups\<close>

lemma lookup_coherent:
  assumes "rt_inv rt"
  shows "snd (findBestMatchingRoute dest rt) = bestMatch dest (None, 0) (routes rt)"
  using assms by (auto simp: findBestMatchingRoute_def rt_inv_def cache_inv_def Let_def split: option.split)

lemma routeAt_unicast:
  assumes "rt_inv rt" "(p, e) \<in> set (routes rt)"
  shows "routeAt p rt = Some e"
proof -
  have "map_of (routes rt) p = Some e"
    using assms by (intro map_of_is_SomeI) (auto simp: rt_inv_def ptr_inv_def pointers_def)
  then show ?thesis by (simp add: routeAt_def map_add_def)
qed



section \<open>Changing the table\<close>

text \<open>A route is accepted exactly if host and netmask are both zero or both not and it has an interface;
  the further test for bits of the host outside the netmask never rejects one, since it masks with
  the truth value of a test. A route that is accepted comes last, a default route first removes the
  old one, and the rest of the table stays.\<close>

theorem add_route_outcome:
  "(isl (addRoute p e rt) \<longleftrightarrow> (host e = 0) \<noteq> (netmaskOf e = 0) \<or> interfacePtr e = None) \<and>
   (\<not> isl (addRoute p e rt) \<longrightarrow>
      routes (projr (addRoute p e rt)) =
        (if netmaskOf e = 0 then (case getDefaultRoute rt of Some d \<Rightarrow> erasePtr d (routes rt) | None \<Rightarrow> routes rt)
         else routes rt) @ (if isMulticast (host e) then [] else [(p, e)]) \<and>
      multicastRoutes (projr (addRoute p e rt)) = multicastRoutes rt @ (if isMulticast (host e) then [(p, e)] else []) \<and>
      routingCache (projr (addRoute p e rt)) = Map.empty)"
proof -
  have "d \<in> fst ` set (routes rt)" if "getDefaultRoute rt = Some d" for d
  proof -
    from that obtain f where "find (\<lambda>(p, e). netmaskOf e = 0) (routes rt) = Some (d, f)"
      by (auto simp: getDefaultRoute_def)
    then have "(d, f) \<in> set (routes rt)" by (metis find_Some_iff nth_mem)
    then show ?thesis by force
  qed
  then show ?thesis
    by (auto simp: addRoute_alt Let_def dropDefault_def deleteRoute_def invalidateCache_def split: option.split)
qed

lemma addNetmaskRoutes_routes:
  "addNetmaskRoutes ift rt = Inr rt' \<Longrightarrow> \<exists>ps. routes rt' = routes rt @ ps \<and> multicastRoutes rt' = multicastRoutes rt \<and>
     map snd ps = concat (map (\<lambda>ie. case ipv4data ie of None \<Rightarrow> []
       | Some d \<Rightarrow> if ifNetmask d = 0xFFFFFFFF then [] else [netmaskRoute ie d]) ift)"
proof (induction ift arbitrary: rt)
  case (Cons ie ift)
  from Cons.prems obtain d where d: "ipv4data ie = Some d" and
    r: "addNetmaskRoutes ift (if ifNetmask d \<noteq> 0xFFFFFFFF
      then rt\<lparr>routes := routes rt @ [(nextRoute rt, netmaskRoute ie d)], nextRoute := nextRoute rt + 1\<rparr> else rt) = Inr rt'"
    by (auto simp: res_simps ipv4Data_def split: option.splits)
  from Cons.IH [OF r] d show ?case by (auto split: if_splits)
qed simp

text \<open>Whenever the interfaces change, the routes that come from their netmasks become exactly those of
  the present interfaces, in their order, one for each whose netmask is not all ones; every other
  route stays where it is. The update fails on an interface without IPv4 data, as a newly created
  one has none.\<close>

theorem netmask_routes_follow_interfaces:
  "(isl (updateNetmaskRoutes ift rt) \<longleftrightarrow> (\<exists>ie \<in> set ift. ipv4data ie = None)) \<and>
   (\<not> isl (updateNetmaskRoutes ift rt) \<longrightarrow> (\<exists>ps. routes (projr (updateNetmaskRoutes ift rt)) =
        filter (\<lambda>(p, e). source e \<noteq> IFACENETMASK) (routes rt) @ ps \<and>
      map snd ps = concat (map (\<lambda>ie. case ipv4data ie of None \<Rightarrow> []
       | Some d \<Rightarrow> if ifNetmask d = 0xFFFFFFFF then [] else [netmaskRoute ie d]) ift)) \<and>
      multicastRoutes (projr (updateNetmaskRoutes ift rt)) = multicastRoutes rt)"
proof -
  have "isl (addNetmaskRoutes ift r) \<longleftrightarrow> (\<exists>ie \<in> set ift. ipv4data ie = None)" for r
  proof (induction ift arbitrary: r)
    case (Cons ie ift)
    then show ?case by (cases "ipv4data ie") (simp_all add: ipv4Data_def)
  qed simp
  moreover have "isl (updateNetmaskRoutes ift rt) \<longleftrightarrow>
      isl (addNetmaskRoutes ift (rt\<lparr>routes := filter (\<lambda>(p, e). source e \<noteq> IFACENETMASK) (routes rt)\<rparr>))"
    unfolding updateNetmaskRoutes_def
    by (cases "addNetmaskRoutes ift (rt\<lparr>routes := filter (\<lambda>(p, e). source e \<noteq> IFACENETMASK) (routes rt)\<rparr>)") simp_all
  moreover have "\<exists>ps. routes rt' = filter (\<lambda>(p, e). source e \<noteq> IFACENETMASK) (routes rt) @ ps \<and>
      map snd ps = concat (map (\<lambda>ie. case ipv4data ie of None \<Rightarrow> []
       | Some d \<Rightarrow> if ifNetmask d = 0xFFFFFFFF then [] else [netmaskRoute ie d]) ift) \<and>
      multicastRoutes rt' = multicastRoutes rt"
    if "updateNetmaskRoutes ift rt = Inr rt'" for rt'
    using that by (auto simp: updateNetmaskRoutes_def res_simps dest!: addNetmaskRoutes_routes)
  ultimately show ?thesis by (cases "updateNetmaskRoutes ift rt") auto
qed

text \<open>
  The cache of the local addresses is not emptied when the router id changes: after one test of an
  address the old router id stays the only local address.
\<close>

theorem local_address_stale:
  assumes "localAddresses rt = []"
  shows "snd (isLocalAddress dest (setRouterId a (fst (isLocalAddress d rt)))) \<longleftrightarrow> dest = routerId rt"
  using assms by (simp add: isLocalAddress_def setRouterId_def Let_def)

text \<open>Deleting an interface leaves no unicast route to it, and every multicast route.\<close>

lemma deleteInterfaceRoutes_gone:
  assumes "rt_inv rt"
  shows "(\<forall>(p, e) \<in> set (routes (deleteInterfaceRoutes i rt)). interfacePtr e \<noteq> Some i) \<and>
    multicastRoutes (deleteInterfaceRoutes i rt) = multicastRoutes rt"
  using assms
proof (induction i rt rule: deleteInterfaceRoutes.induct)
  case (1 i rt)
  show ?case
  proof (cases "find (\<lambda>(p, e). interfacePtr e = Some i) (routes rt)")
    case None
    then have "deleteInterfaceRoutes i rt = rt" by (simp add: deleteInterfaceRoutes.simps [of i rt])
    with None show ?thesis by (auto simp: find_None_iff)
  next
    case (Some r)
    obtain p e where r: "r = (p, e)" by force
    from Some r have "(p, e) \<in> set (routes rt)" by (metis find_Some_iff nth_mem)
    then have "multicastRoutes (fst (deleteRoute p rt)) = multicastRoutes rt" by (force simp: deleteRoute_def)
    with 1(1) [OF Some r [symmetric] rt_inv_delete [OF 1(2)]] Some r show ?thesis
      by (simp add: deleteInterfaceRoutes.simps [of i rt])
  qed
qed

section \<open>Witnesses\<close>

text \<open>A table with a default route, a route to 10.0.0.0/8 and one to 10.1.0.0/16.\<close>

definition exampleRoute :: "IPAddress \<Rightarrow> nat \<Rightarrow> int \<Rightarrow> IPRoute" where
  "exampleRoute h n i = IPRoute_new\<lparr>host := h, netmaskOf := netmask n, interfacePtr := Some i\<rparr>"

definition addNewRoute :: "IPRoute \<Rightarrow> RoutingTable \<Rightarrow> RoutingTable res" where
  "addNewRoute e rt = addRoute (nextRoute rt) e (rt\<lparr>nextRoute := nextRoute rt + 1\<rparr>)"

lemma addNewRoute_reachable: "rt_reachable rt \<Longrightarrow> addNewRoute e rt = Inr rt' \<Longrightarrow> rt_reachable rt'"
  unfolding addNewRoute_def by (blast intro: rt_reachable.step rt_step.add)

definition exampleTable :: "RoutingTable res" where
  "exampleTable = andThen (addNewRoute (exampleRoute 0 0 1) (RoutingTable_new True)) (\<lambda>rt.
     andThen (addNewRoute (exampleRoute 0x0A000000 8 2) rt) (addNewRoute (exampleRoute 0x0A010000 16 3)))"

definition exampleRoutes :: RouteVector where
  "exampleRoutes = [(0, exampleRoute 0 0 1), (1, exampleRoute 0x0A000000 8 2), (2, exampleRoute 0x0A010000 16 3)]"

lemma exampleTable_ok: "\<exists>rt. exampleTable = Inr rt \<and> rt_reachable rt \<and> routes rt = exampleRoutes"
proof -
  have *: "\<not> isl exampleTable" "routes (projr exampleTable) = exampleRoutes" by code_simp+
  from *(1) have rt: "exampleTable = Inr (projr exampleTable)" by (rule sum.collapse(2) [symmetric])
  then have "rt_reachable (projr exampleTable)"
    unfolding exampleTable_def andThen_Inr_iff by (blast intro: addNewRoute_reachable rt_reachable.new)
  with rt *(2) show ?thesis by blast
qed


lemma exampleRoutes_masks: "(p, e) \<in> set exampleRoutes \<Longrightarrow> \<exists>n \<le> 32. netmaskOf e = netmask n"
proof -
  have *: "netmaskOf (exampleRoute h k i) = netmask k" for h k i by (simp add: exampleRoute_def)
  assume "(p, e) \<in> set exampleRoutes"
  then consider "e = exampleRoute 0 0 1" | "e = exampleRoute 0x0A000000 8 2" | "e = exampleRoute 0x0A010000 16 3"
    unfolding exampleRoutes_def set_simps insert_iff by blast
  then show ?thesis using * [of 0 0 1] * [of "0x0A000000" 8 2] * [of "0x0A010000" 16 3]
    by cases (rule exI [of _ 0], simp, rule exI [of _ 8], simp, rule exI [of _ 16], simp)
qed


lemma add_route_outcome_witness:
  "\<not> isl (addRoute 7 (exampleRoute 0x0A0000FF 8 2) (RoutingTable_new True)) \<and>
   routes (projr (addRoute 7 (exampleRoute 0x0A0000FF 8 2) (RoutingTable_new True))) = [(7, exampleRoute 0x0A0000FF 8 2)]"
proof -
  obtain e where e: "e = exampleRoute 0x0A0000FF 8 2" by blast
  have "host e \<noteq> 0" "netmaskOf e \<noteq> 0" "interfacePtr e \<noteq> None" "\<not> isMulticast (host e)" unfolding e by code_simp+
  moreover have "routes (RoutingTable_new True) = []" by (simp add: RoutingTable_new_def)
  ultimately show ?thesis using add_route_outcome [of 7 e "RoutingTable_new True"] unfolding e [symmetric] by simp
qed

definition exampleInterface :: InterfaceEntry where
  "exampleInterface = \<lparr>interfaceId = 5, interfaceName = ''eth0'', mtu = 1500, nwLayerGateIndex = 0, broadcast = True, loopback = False, macAddr = MAC_unspecified,
     ipv4data = Some \<lparr>inetAddr = 0x0A000001, ifNetmask = netmask 8, ifMetric = 1, multicastGroups = []\<rparr>\<rparr>"

lemma netmask_routes_follow_interfaces_witness:
  "\<exists>ps. routes (projr (updateNetmaskRoutes [exampleInterface] (RoutingTable_new True))) = ps \<and>
     map snd ps = [netmaskRoute exampleInterface (the (ipv4data exampleInterface))]"
proof -
  have *: "concat (map (\<lambda>ie. case ipv4data ie of None \<Rightarrow> []
       | Some d \<Rightarrow> if ifNetmask d = 0xFFFFFFFF then [] else [netmaskRoute ie d]) [exampleInterface]) =
      [netmaskRoute exampleInterface (the (ipv4data exampleInterface))]"
    "\<not> (\<exists>ie \<in> set [exampleInterface]. ipv4data ie = None)"
    "filter (\<lambda>(p, e). source e \<noteq> IFACENETMASK) (routes (RoutingTable_new True)) = []"
    by code_simp+
  from netmask_routes_follow_interfaces [of "[exampleInterface]" "RoutingTable_new True"] show ?thesis
    unfolding * append_Nil using *(2) by blast
qed

end
