(* ===== verification/IP_Packets.thy ===== *)
theory IP_Packets imports IP_Interfaces
begin

text \<open>
  IPv4 datagrams and what they carry (\<^verbatim>\<open>src/src/networklayer/ipv4/IPDatagram.msg\<close>,
  \<^verbatim>\<open>ICMPMessage.msg\<close>, \<^verbatim>\<open>src/src/networklayer/contract/IPControlInfo.msg\<close>), the effects of the
  IP and ICMP modules, and the ICMP module (\<^verbatim>\<open>src/src/networklayer/ipv4/ICMP.cc\<close>).
\<close>

section \<open>Packets\<close>

definition IP_HEADER_BYTES :: int where "IP_HEADER_BYTES = 20"

definition IP_PROT_ICMP :: int where "IP_PROT_ICMP = 1"
definition IP_PROT_IP :: int where "IP_PROT_IP = 4"

definition ICMP_REDIRECT :: int where "ICMP_REDIRECT = 5"
definition ICMP_TIME_EXCEEDED :: int where "ICMP_TIME_EXCEEDED = 11"
definition ICMP_PARAMETER_PROBLEM :: int where "ICMP_PARAMETER_PROBLEM = 12"
definition ICMP_DESTINATION_UNREACHABLE :: int where "ICMP_DESTINATION_UNREACHABLE = 13"
definition ICMP_ECHO_REQUEST :: int where "ICMP_ECHO_REQUEST = 128"
definition ICMP_ECHO_REPLY :: int where "ICMP_ECHO_REPLY = 129"
definition ICMP_TIMESTAMP_REQUEST :: int where "ICMP_TIMESTAMP_REQUEST = 130"
definition ICMP_TIMESTAMP_REPLY :: int where "ICMP_TIMESTAMP_REPLY = 131"

definition ICMP_FRAGMENTATION_ERROR_CODE :: int where "ICMP_FRAGMENTATION_ERROR_CODE = 4"

lemmas icmp_types = ICMP_REDIRECT_def ICMP_TIME_EXCEEDED_def ICMP_PARAMETER_PROBLEM_def ICMP_DESTINATION_UNREACHABLE_def
  ICMP_ECHO_REQUEST_def ICMP_ECHO_REPLY_def ICMP_TIMESTAMP_REQUEST_def ICMP_TIMESTAMP_REPLY_def

text \<open>
  The header of a datagram. \<open>arrivalGateIndex\<close> is the index of the gate the datagram came in by, if
  it came in at all. The load figures of the path probes, the options and the identification, which
  nothing reads, are left out.
\<close>

record IPHeader =
  headerLength :: int
  srcAddress :: IPAddress
  destAddress :: IPAddress
  destPort :: int
  srcPort :: int
  transportProtocol :: int
  timeToLive :: int
  flowId :: int
  link_status :: int
  packetId :: int
  moreFragments :: bool
  dontFragment :: bool
  fragmentOffset :: int
  diffServCodePoint :: int
  num_packets_for_this_path :: int
  arrivalGateIndex :: "int option"

text \<open>
  A packet is a UDP packet with its source and destination port, another packet from above IP, an
  ICMP message or a datagram, each with its name and its length in bytes; all but the second may
  have a packet encapsulated.
\<close>

datatype Packet =
    TransportPacket string int
  | UDPDatagram string int int int "Packet option"
  | ICMPPacket string int int int "Packet option"
  | DatagramPacket string IPHeader int "Packet option"

record ICMPMessage =
  icmpName :: string
  icmpType :: int
  icmpCode :: int
  icmpByteLength :: int
  icmpEncapsulated :: "Packet option"

record IPDatagram = IPHeader +
  dgName :: string
  byteLength :: int
  encapsulatedMsg :: "Packet option"

definition icmpPacket :: "ICMPMessage \<Rightarrow> Packet" where
  "icmpPacket m = ICMPPacket (icmpName m) (icmpType m) (icmpCode m) (icmpByteLength m) (icmpEncapsulated m)"

definition datagramPacket :: "IPDatagram \<Rightarrow> Packet" where
  "datagramPacket d = DatagramPacket (dgName d) (IPHeader.truncate d) (byteLength d) (encapsulatedMsg d)"

fun packetLength :: "Packet \<Rightarrow> int" where
  "packetLength (TransportPacket n l) = l"
| "packetLength (UDPDatagram n sp dp l e) = l"
| "packetLength (ICMPPacket n t c l e) = l"
| "packetLength (DatagramPacket n h l e) = l"

text \<open>The casts that \<^verbatim>\<open>check_and_cast\<close> checks, of a null pointer too.\<close>

fun castICMP :: "Packet option \<Rightarrow> ICMPMessage res" where
  "castICMP (Some (ICMPPacket n t c l e)) =
     Inr \<lparr>icmpName = n, icmpType = t, icmpCode = c, icmpByteLength = l, icmpEncapsulated = e\<rparr>"
| "castICMP _ = Inl (KernelError ''check_and_cast: not an ICMPMessage'')"

fun castDatagram :: "Packet option \<Rightarrow> IPHeader res" where
  "castDatagram (Some (DatagramPacket n h l e)) = Inr h"
| "castDatagram _ = Inl (KernelError ''check_and_cast: not an IPDatagram'')"

lemma castICMP_packet [simp]: "castICMP (Some (icmpPacket m)) = Inr m"
  by (simp add: icmpPacket_def)

lemma castICMP_Inr: "castICMP p = Inr m \<longleftrightarrow> p = Some (icmpPacket m)"
  by (cases p rule: castICMP.cases) (auto simp: icmpPacket_def)

text \<open>
  Taking the encapsulated packet out: null if there is none; otherwise the length of the outer packet
  shrinks by that of the inner one, and the kernel refuses a negative length.
\<close>

definition decapsulate :: "IPDatagram \<Rightarrow> (IPDatagram \<times> Packet option) res" where
  "decapsulate d = (case encapsulatedMsg d of
     None \<Rightarrow> Inr (d, None)
   | Some p \<Rightarrow> if byteLength d < packetLength p
       then Inl (KernelError ''decapsulate(): packet length became negative'')
       else Inr (d\<lparr>byteLength := byteLength d - packetLength p, encapsulatedMsg := None\<rparr>, Some p))"

definition encapsulatePacket :: "Packet \<Rightarrow> IPDatagram \<Rightarrow> IPDatagram res" where
  "encapsulatePacket p d = (if encapsulatedMsg d \<noteq> None
     then Inl (KernelError ''encapsulate(): another message already encapsulated'')
     else Inr (d\<lparr>byteLength := byteLength d + packetLength p, encapsulatedMsg := Some p\<rparr>))"

record IPControlInfo =
  ciDestAddr :: IPAddress
  ciSrcAddr :: IPAddress
  ciDestPort :: int
  ciSrcPort :: int
  ciFlowId :: int
  ciPacketId :: int
  ciLink_status :: int
  ciNum_packets_for_this_path :: int
  ciInterfaceId :: int
  ciProtocol :: int
  ciDiffServCodePoint :: int
  ciTimeToLive :: int
  ciDontFragment :: bool
  origDatagram :: "IPDatagram option"

definition IPControlInfo_new :: IPControlInfo where
  "IPControlInfo_new = \<lparr>ciDestAddr = 0, ciSrcAddr = 0, ciDestPort = 0, ciSrcPort = 0, ciFlowId = 0,
     ciPacketId = 0, ciLink_status = 0, ciNum_packets_for_this_path = 0, ciInterfaceId = - 1, ciProtocol = 0,
     ciDiffServCodePoint = 0, ciTimeToLive = 0, ciDontFragment = False, origDatagram = None\<rparr>"

definition setOrigDatagram :: "IPDatagram \<Rightarrow> IPControlInfo \<Rightarrow> IPControlInfo res" where
  "setOrigDatagram d ci = (if origDatagram ci \<noteq> None
     then Inl (OppError ''setOrigDatagram(): a datagram is already attached'') else Inr (ci\<lparr>origDatagram := Some d\<rparr>))"

definition removeOrigDatagram :: "IPControlInfo \<Rightarrow> (IPControlInfo \<times> IPDatagram) res" where
  "removeOrigDatagram ci = (case origDatagram ci of
     None \<Rightarrow> Inl (OppError ''removeOrigDatagram(): no datagram attached'')
   | Some d \<Rightarrow> Inr (ci\<lparr>origDatagram := None\<rparr>, d))"

section \<open>Effects\<close>

text \<open>
  What the IP and the ICMP module send: datagrams to ARP with the routing decision, packets to the
  protocols above IP and to the tunnel input, and the three output gates of ICMP.
\<close>

datatype NetOutput =
    ToQueueOut IPDatagram int IPAddress
  | ToTransport int Packet "IPControlInfo option"
  | ToPreRouting Packet IPControlInfo
  | IcmpSendOut ICMPMessage "IPControlInfo option"
  | IcmpErrorOut ICMPMessage "IPControlInfo option"
  | IcmpPingOut Packet IPControlInfo

section \<open>The ICMP module\<close>

text \<open>
  \<^verbatim>\<open>ctr\<close> is the static counter in the names of error messages, \<^verbatim>\<open>sent\<close> what left the module.
\<close>

record ICMP =
  icmpCtr :: int
  icmpSent :: "NetOutput list"

definition icmpEmit :: "NetOutput \<Rightarrow> ICMP \<Rightarrow> ICMP" where
  "icmpEmit out s = s\<lparr>icmpSent := icmpSent s @ [out]\<rparr>"

definition ICMP_errorOut :: "ICMPMessage \<Rightarrow> IPControlInfo option \<Rightarrow> ICMP \<Rightarrow> ICMP" where
  "ICMP_errorOut msg ci s = icmpEmit (IcmpErrorOut msg ci) s"

definition ICMP_sendToIP :: "ICMPMessage \<Rightarrow> IPControlInfo option \<Rightarrow> ICMP \<Rightarrow> ICMP" where
  "ICMP_sendToIP msg ci s = icmpEmit (IcmpSendOut msg ci) s"

definition ICMP_sendToIP_dest :: "ICMPMessage \<Rightarrow> IPAddress \<Rightarrow> ICMP \<Rightarrow> ICMP" where
  "ICMP_sendToIP_dest msg dest s =
     icmpEmit (IcmpSendOut msg (Some (IPControlInfo_new\<lparr>ciDestAddr := dest, ciProtocol := IP_PROT_ICMP\<rparr>))) s"

text \<open>Missing control info fails the cast.\<close>

definition castControlInfo :: "IPControlInfo option \<Rightarrow> IPControlInfo res" where
  "castControlInfo ci = (case ci of Some c \<Rightarrow> Inr c
     | None \<Rightarrow> Inl (KernelError ''check_and_cast: not an IPControlInfo''))"

definition processEchoRequest :: "ICMPMessage \<Rightarrow> IPControlInfo option \<Rightarrow> ICMP \<Rightarrow> ICMP res" where
  "processEchoRequest request ci s =
     (let reply = request\<lparr>icmpName := icmpName request @ ''-reply'', icmpType := ICMP_ECHO_REPLY\<rparr>
      in andThen (castControlInfo ci) (\<lambda>ctrl.
           Inr (ICMP_sendToIP reply (Some (ctrl\<lparr>ciSrcAddr := ciDestAddr ctrl, ciDestAddr := ciSrcAddr ctrl\<rparr>)) s)))"

definition processEchoReply :: "ICMPMessage \<Rightarrow> IPControlInfo option \<Rightarrow> ICMP \<Rightarrow> ICMP res" where
  "processEchoReply reply ci s = andThen (castControlInfo ci) (\<lambda>ctrl. case icmpEncapsulated reply of
     None \<Rightarrow> Inl (NullPointer ''payload'')
   | Some p \<Rightarrow> if icmpByteLength reply < packetLength p
       then Inl (KernelError ''decapsulate(): packet length became negative'')
       else Inr (icmpEmit (IcmpPingOut p ctrl) s))"

definition processICMPMessage :: "ICMPMessage \<Rightarrow> IPControlInfo option \<Rightarrow> ICMP \<Rightarrow> ICMP res" where
  "processICMPMessage icmpmsg ci s =
     (if icmpType icmpmsg = ICMP_DESTINATION_UNREACHABLE then Inr (ICMP_errorOut icmpmsg ci s)
      else if icmpType icmpmsg = ICMP_REDIRECT then Inr (ICMP_errorOut icmpmsg ci s)
      else if icmpType icmpmsg = ICMP_TIME_EXCEEDED then Inr (ICMP_errorOut icmpmsg ci s)
      else if icmpType icmpmsg = ICMP_PARAMETER_PROBLEM then Inr (ICMP_errorOut icmpmsg ci s)
      else if icmpType icmpmsg = ICMP_ECHO_REQUEST then processEchoRequest icmpmsg ci s
      else if icmpType icmpmsg = ICMP_ECHO_REPLY then processEchoReply icmpmsg ci s
      else if icmpType icmpmsg = ICMP_TIMESTAMP_REQUEST then processEchoRequest icmpmsg ci s
      else if icmpType icmpmsg = ICMP_TIMESTAMP_REPLY then processEchoReply icmpmsg ci s
      else Inl (OppError ''Unknown ICMP type''))"

text \<open>Numbers as \<^verbatim>\<open>printf\<close> writes them.\<close>

definition printInt :: "int \<Rightarrow> string" where
  "printInt i = (if i < 0 then ''-'' @ decimal (nat (- i)) else decimal (nat i))"

definition errorName :: "int \<Rightarrow> int \<Rightarrow> int \<Rightarrow> string" where
  "errorName c type code = ''ICMP-error-#'' @ printInt c @ ''-type'' @ printInt type @ ''-code'' @ printInt code"

text \<open>
  An error message, unless it would answer a multicast datagram or an ICMP error message. Its name
  is printed into 32 bytes. If the datagram never left this node the message is processed here.
\<close>

definition ICMP_sendErrorMessage :: "IPDatagram \<Rightarrow> int \<Rightarrow> int \<Rightarrow> ICMP \<Rightarrow> ICMP res" where
  "ICMP_sendErrorMessage orig type code s =
     (if isMulticast (destAddress orig) then Inr s
      else andThen (if transportProtocol orig = IP_PROT_ICMP
             then andThen (castICMP (encapsulatedMsg orig)) (\<lambda>rec. Inr (icmpType rec < 128)) else Inr False) (\<lambda>isError.
        if isError then Inr s
        else let s = s\<lparr>icmpCtr := icmpCtr s + 1\<rparr>;
               msgname = errorName (icmpCtr s) type code
             in checked (length msgname < 32) (UndefinedBehaviour ''sprintf(msgname)'')
               (let dataLength = byteLength orig - headerLength orig;
                  truncatedDataLength = (if dataLength \<le> 8 then dataLength else 8);
                  errorMessage = \<lparr>icmpName = msgname, icmpType = type, icmpCode = code,
                    icmpByteLength = 8 + headerLength orig + truncatedDataLength,
                    icmpEncapsulated = Some (datagramPacket orig)\<rparr>
                in if srcAddress orig = 0
                   then processICMPMessage errorMessage (Some (IPControlInfo_new\<lparr>ciSrcAddr := 0x7F000001,
                     ciProtocol := IP_PROT_ICMP\<rparr>)) s
                   else Inr (ICMP_sendToIP_dest errorMessage (srcAddress orig) s))))"

text \<open>The form that the transport protocols call, with the datagram of the control info.\<close>

definition ICMP_sendErrorMessage_transport ::
  "Packet \<Rightarrow> IPControlInfo \<Rightarrow> int \<Rightarrow> int \<Rightarrow> ICMP \<Rightarrow> ICMP res" where
  "ICMP_sendErrorMessage_transport transportPacket ctrl type code s =
     andThen (removeOrigDatagram ctrl) (\<lambda>(ctrl, datagram).
     andThen (encapsulatePacket transportPacket datagram) (\<lambda>datagram.
     ICMP_sendErrorMessage datagram type code s))"

definition sendEchoRequest :: "string \<Rightarrow> Packet \<Rightarrow> IPControlInfo option \<Rightarrow> ICMP \<Rightarrow> ICMP res" where
  "sendEchoRequest name msg ci s = andThen (castControlInfo ci) (\<lambda>ctrl.
     Inr (ICMP_sendToIP \<lparr>icmpName = name, icmpType = ICMP_ECHO_REQUEST, icmpCode = 0,
       icmpByteLength = packetLength msg, icmpEncapsulated = Some msg\<rparr> (Some (ctrl\<lparr>ciProtocol := IP_PROT_ICMP\<rparr>)) s))"

text \<open>A message from another gate than these two is dropped without an error.\<close>

datatype IcmpGate = LocalIn | PingIn | OtherGate

definition ICMP_handleMessage :: "IcmpGate \<Rightarrow> string \<Rightarrow> Packet \<Rightarrow> IPControlInfo option \<Rightarrow> ICMP \<Rightarrow> ICMP res" where
  "ICMP_handleMessage arrivalGate name msg ci s = (case arrivalGate of
     LocalIn \<Rightarrow> andThen (castICMP (Some msg)) (\<lambda>m. processICMPMessage m ci s)
   | PingIn \<Rightarrow> sendEchoRequest name msg ci s
   | OtherGate \<Rightarrow> Inr s)"

end
