(* ===== verification/IP_Reassembly.thy ===== *)
theory IP_Reassembly imports Inet_Prelude
begin

text \<open>
  The reassembly buffer of \<^verbatim>\<open>src/src/base/ReassemblyBuffer.{h,cc}\<close>, which the fragment
  buffers of IPv4 and IPv6 share, and what it holds while the fragments of a datagram arrive in any
  order and any number of times.
\<close>

section \<open>The buffer\<close>

record FragRegion =
  fr_beg :: uint16
  fr_end :: uint16
  fr_islast :: bool

text \<open>A null pointer to the vector of disjoint fragments and an empty vector behave alike.\<close>

record ReassemblyBuffer =
  rb_main :: FragRegion
  rb_fragments :: "FragRegion list"

definition ReassemblyBuffer_new :: ReassemblyBuffer where
  "ReassemblyBuffer_new =
     \<lparr>rb_main = \<lparr>fr_beg = 0, fr_end = 0, fr_islast = False\<rparr>, rb_fragments = []\<rparr>"

text \<open>
  One round of the loop over the disjoint fragments: the range grows by those that connect to it,
  these and those it contains are erased; the flag is \<^verbatim>\<open>oncemore\<close>.
\<close>

fun mergeRound :: "FragRegion \<Rightarrow> FragRegion list \<Rightarrow> FragRegion \<times> FragRegion list \<times> bool" where
  "mergeRound m [] = (m, [], False)"
| "mergeRound m (frag # frags) =
     (if fr_end m = fr_beg frag
      then let (m', kept, _) = mergeRound (m\<lparr>fr_end := fr_end frag,
                 fr_islast := fr_islast m \<or> fr_islast frag\<rparr>) frags in (m', kept, True)
      else if fr_beg m = fr_end frag
      then let (m', kept, _) = mergeRound (m\<lparr>fr_beg := fr_beg frag\<rparr>) frags in (m', kept, True)
      else if fr_beg m \<le> fr_beg frag \<and> fr_end frag \<le> fr_end m
      then let (m', kept, _) = mergeRound m frags in (m', kept, True)
      else let (m', kept, again) = mergeRound m frags in (m', frag # kept, again))"

lemma mergeRound_length:
  "length (fst (snd (mergeRound m frags))) \<le> length frags \<and>
   (snd (snd (mergeRound m frags)) \<longrightarrow> length (fst (snd (mergeRound m frags))) < length frags)"
proof (induction frags arbitrary: m)
  case (Cons frag frags)
  show ?case
    using Cons [of m] Cons [of "m\<lparr>fr_beg := fr_beg frag\<rparr>"]
      Cons [of "m\<lparr>fr_end := fr_end frag, fr_islast := fr_islast m \<or> fr_islast frag\<rparr>"]
    by (auto simp: split_beta Let_def)
qed simp

function mergeFragments :: "FragRegion \<Rightarrow> FragRegion list \<Rightarrow> FragRegion \<times> FragRegion list" where
  "mergeFragments m frags =
     (let (m', kept, again) = mergeRound m frags in if again then mergeFragments m' kept else (m', kept))"
  by pat_completeness auto
termination
  by (relation "measure (\<lambda>(m, frags). length frags)") (use mergeRound_length in \<open>force simp: prod_eq_iff\<close>)+

declare mergeFragments.simps [simp del]

definition ReassemblyBuffer_merge :: "uint16 \<Rightarrow> uint16 \<Rightarrow> bool \<Rightarrow> ReassemblyBuffer \<Rightarrow> ReassemblyBuffer" where
  "ReassemblyBuffer_merge b e islast buf =
     (let m = rb_main buf
      in if fr_end m = b
         then let (m, frags) = mergeFragments (m\<lparr>fr_end := e, fr_islast := fr_islast m \<or> islast\<rparr>)
                (rb_fragments buf) in \<lparr>rb_main = m, rb_fragments = frags\<rparr>
         else if fr_beg m = e
         then let (m, frags) = mergeFragments (m\<lparr>fr_beg := b\<rparr>) (rb_fragments buf)
              in \<lparr>rb_main = m, rb_fragments = frags\<rparr>
         else if fr_end m < b \<or> e < fr_beg m
         then buf\<lparr>rb_fragments := rb_fragments buf @ [\<lparr>fr_beg = b, fr_end = e, fr_islast = islast\<rparr>]\<rparr>
         else buf)"

definition ReassemblyBuffer_addFragment ::
  "uint16 \<Rightarrow> uint16 \<Rightarrow> bool \<Rightarrow> ReassemblyBuffer \<Rightarrow> ReassemblyBuffer \<times> bool" where
  "ReassemblyBuffer_addFragment b e islast buf =
     (let buf = ReassemblyBuffer_merge b e islast buf
      in (buf, fr_beg (rb_main buf) = 0 \<and> fr_islast (rb_main buf)))"

definition getTotalLength :: "ReassemblyBuffer \<Rightarrow> uint16" where
  "getTotalLength buf = fr_end (rb_main buf)"

section \<open>The fragments of a datagram\<close>

text \<open>
  A datagram is cut at the offsets of a list that starts with 0 and ascends; piece \<open>i\<close> lies between
  the offsets \<open>i\<close> and \<open>i + 1\<close>, and the last piece ends the datagram.
\<close>

definition cutsOk :: "uint16 list \<Rightarrow> bool" where
  "cutsOk cuts \<longleftrightarrow> sorted_wrt (<) cuts \<and> 2 \<le> length cuts \<and> hd cuts = 0"

definition pieces :: "uint16 list \<Rightarrow> nat" where
  "pieces cuts = length cuts - 1"

definition piece :: "uint16 list \<Rightarrow> nat \<Rightarrow> FragRegion" where
  "piece cuts i = \<lparr>fr_beg = cuts ! i, fr_end = cuts ! (i + 1), fr_islast = (i + 1 = pieces cuts)\<rparr>"

text \<open>The range that the first \<open>k\<close> pieces make up.\<close>

definition firstPieces :: "uint16 list \<Rightarrow> nat \<Rightarrow> FragRegion" where
  "firstPieces cuts k = \<lparr>fr_beg = 0, fr_end = cuts ! k, fr_islast = (k = pieces cuts)\<rparr>"

lemma firstPieces_sel [simp]: "fr_beg (firstPieces cuts k) = 0" "fr_end (firstPieces cuts k) = cuts ! k"
    "fr_islast (firstPieces cuts k) = (k = pieces cuts)"
  by (simp_all add: firstPieces_def)

lemma piece_sel [simp]: "fr_beg (piece cuts i) = cuts ! i" "fr_end (piece cuts i) = cuts ! (i + 1)"
    "fr_islast (piece cuts i) = (i + 1 = pieces cuts)"
  by (simp_all add: piece_def)

lemma cuts_less: "cutsOk cuts \<Longrightarrow> i \<le> pieces cuts \<Longrightarrow> j \<le> pieces cuts \<Longrightarrow> cuts ! i < cuts ! j \<longleftrightarrow> i < j"
  unfolding cutsOk_def pieces_def
  by (metis Suc_diff_1 gr_zeroI le_imp_less_Suc less_asym linorder_neqE_nat list.size(3) not_numeral_le_zero
      not_less_iff_gr_or_eq sorted_wrt_nth_less zero_less_diff)

lemma cuts_le: "cutsOk cuts \<Longrightarrow> i \<le> pieces cuts \<Longrightarrow> j \<le> pieces cuts \<Longrightarrow> cuts ! i \<le> cuts ! j \<longleftrightarrow> i \<le> j"
  using cuts_less [of cuts j i] by (simp add: not_less [symmetric])

lemma cuts_eq: "cutsOk cuts \<Longrightarrow> i \<le> pieces cuts \<Longrightarrow> j \<le> pieces cuts \<Longrightarrow> cuts ! i = cuts ! j \<longleftrightarrow> i = j"
  using cuts_less [of cuts i j] cuts_less [of cuts j i] by (metis less_irrefl linorder_neqE_nat)

lemma cuts_zero: "cutsOk cuts \<Longrightarrow> cuts ! 0 = 0"
  by (cases cuts) (simp_all add: cutsOk_def)

lemma firstPieces_grow:
  assumes "k < pieces cuts"
  shows "firstPieces cuts k\<lparr>fr_end := cuts ! Suc k, fr_islast := Suc k = pieces cuts\<rparr> = firstPieces cuts (Suc k)"
  using assms by (simp add: firstPieces_def)

lemma piece_inj: "cutsOk cuts \<Longrightarrow> i < pieces cuts \<Longrightarrow> j < pieces cuts \<Longrightarrow> piece cuts i = piece cuts j \<longleftrightarrow> i = j"
  using cuts_eq [of cuts i j] by (auto simp: piece_def)

text \<open>How a piece lies to the range made up of the first \<open>k\<close> pieces.\<close>

lemma piece_firstPieces:
  assumes "cutsOk cuts" "j < pieces cuts" "k \<le> pieces cuts"
  shows "cuts ! k = cuts ! j \<longleftrightarrow> j = k" "cuts ! (j + 1) \<noteq> 0" "cuts ! (j + 1) \<le> cuts ! k \<longleftrightarrow> j < k"
    "cuts ! k < cuts ! j \<longleftrightarrow> k < j"
  using assms cuts_eq [of cuts k j] cuts_le [of cuts "j + 1" k] cuts_less [of cuts k j]
    cuts_eq [of cuts "j + 1" 0] by (auto simp: cuts_zero)

section \<open>Merging pieces\<close>

lemma mergeRound_piece:
  assumes "cutsOk cuts" "j < pieces cuts" "k \<le> pieces cuts"
  shows "mergeRound (firstPieces cuts k) (piece cuts j # frags) =
    (if j \<le> k then let (m', kept, _) = mergeRound (firstPieces cuts (if j = k then k + 1 else k)) frags in (m', kept, True)
     else let (m', kept, again) = mergeRound (firstPieces cuts k) frags in (m', piece cuts j # kept, again))"
  using assms piece_firstPieces [OF assms] by (auto simp: Let_def not_less firstPieces_grow)

lemma mergeRound_pieces:
  assumes "cutsOk cuts" "set frags \<subseteq> piece cuts ` {..<pieces cuts}" "k \<le> pieces cuts"
    and "mergeRound (firstPieces cuts k) frags = (m, kept, again)"
  shows "\<exists>k'. m = firstPieces cuts k' \<and> k \<le> k' \<and> k' \<le> pieces cuts \<and> piece cuts ` {k..<k'} \<subseteq> set frags \<and>
    set kept \<subseteq> set frags \<and> set frags - set kept \<subseteq> piece cuts ` {..<k'} \<and>
    (\<not> again \<longrightarrow> k' = k \<and> kept = frags \<and> set frags \<subseteq> piece cuts ` {k<..<pieces cuts})"
  using assms(2-)
proof (induction frags arbitrary: k m kept again)
  case (Cons f frags)
  then obtain j where j: "f = piece cuts j" "j < pieces cuts" by auto
  let ?k = "if j = k then k + 1 else k"
  show ?case
  proof (cases "j \<le> k")
    case True
    with Cons.prems j mergeRound_piece [OF assms(1) j(2) Cons.prems(2), of frags]
    obtain again' where r: "mergeRound (firstPieces cuts ?k) frags = (m, kept, again')" "again"
      by (auto split: prod.splits)
    have "?k \<le> pieces cuts" using j(2) Cons.prems(2) by simp
    from Cons.IH [OF _ this r(1)] Cons.prems(1) obtain k' where k': "m = firstPieces cuts k'" "?k \<le> k'" "k' \<le> pieces cuts"
      "piece cuts ` {?k..<k'} \<subseteq> set frags" "set kept \<subseteq> set frags" "set frags - set kept \<subseteq> piece cuts ` {..<k'}"
      by auto
    have "piece cuts ` {k..<k'} \<subseteq> insert f (set frags)"
    proof (cases "j = k")
      case True
      with k'(2) have "{k..<k'} = insert k {k + 1..<k'}" by auto
      with k'(4) j(1) True show ?thesis by auto
    qed (use k'(4) in auto)
    moreover have "j < k'" using k'(2) True by (auto split: if_splits)
    ultimately show ?thesis using k' j(1) r(2) by (intro exI [of _ k']) (auto split: if_splits)
  next
    case False
    with Cons.prems j mergeRound_piece [OF assms(1) j(2) Cons.prems(2), of frags]
    obtain kept' where r: "mergeRound (firstPieces cuts k) frags = (m, kept', again)" "kept = f # kept'"
      by (auto split: prod.splits)
    from Cons.IH [OF _ Cons.prems(2) r(1)] Cons.prems(1) obtain k' where k': "m = firstPieces cuts k'" "k \<le> k'" "k' \<le> pieces cuts"
      "piece cuts ` {k..<k'} \<subseteq> set frags" "set kept' \<subseteq> set frags" "set frags - set kept' \<subseteq> piece cuts ` {..<k'}"
      "\<not> again \<longrightarrow> k' = k \<and> kept' = frags \<and> set frags \<subseteq> piece cuts ` {k<..<pieces cuts}" by auto
    then show ?thesis using r(2) j False by (intro exI [of _ k']) auto
  qed
qed auto

lemma mergeFragments_pieces:
  assumes "cutsOk cuts" "set frags \<subseteq> piece cuts ` {..<pieces cuts}" "k \<le> pieces cuts"
    and "mergeFragments (firstPieces cuts k) frags = (m, kept)"
  shows "\<exists>k'. m = firstPieces cuts k' \<and> k \<le> k' \<and> k' \<le> pieces cuts \<and> piece cuts ` {k..<k'} \<subseteq> set frags \<and>
    set kept \<subseteq> set frags \<and> set frags - set kept \<subseteq> piece cuts ` {..<k'} \<and>
    set kept \<subseteq> piece cuts ` {k'<..<pieces cuts}"
  using assms(2-)
proof (induction frags arbitrary: k m kept rule: length_induct)
  case (1 frags)
  obtain m' kept' again where r: "mergeRound (firstPieces cuts k) frags = (m', kept', again)" by (metis prod_cases3)
  from mergeRound_pieces [OF assms(1) 1(2,3) r] obtain k1 where k1: "m' = firstPieces cuts k1" "k \<le> k1" "k1 \<le> pieces cuts"
    "piece cuts ` {k..<k1} \<subseteq> set frags" "set kept' \<subseteq> set frags" "set frags - set kept' \<subseteq> piece cuts ` {..<k1}"
    "\<not> again \<longrightarrow> k1 = k \<and> kept' = frags \<and> set frags \<subseteq> piece cuts ` {k<..<pieces cuts}" by blast
  note unfold = 1(4) [unfolded mergeFragments.simps [of "firstPieces cuts k"] r, simplified]
  show ?case
  proof (cases again)
    case False
    with unfold k1 show ?thesis by (intro exI [of _ k1]) auto
  next
    case True
    with mergeRound_length [of "firstPieces cuts k" frags] r have "length kept' < length frags" by simp
    then have "\<exists>k'. m = firstPieces cuts k' \<and> k1 \<le> k' \<and> k' \<le> pieces cuts \<and> piece cuts ` {k1..<k'} \<subseteq> set kept' \<and>
        set kept \<subseteq> set kept' \<and> set kept' - set kept \<subseteq> piece cuts ` {..<k'} \<and> set kept \<subseteq> piece cuts ` {k'<..<pieces cuts}"
      by (rule 1(1) [rule_format]) (use unfold True k1(1,3,5) 1(2) in auto)
    then obtain k2 where k2: "m = firstPieces cuts k2" "k1 \<le> k2" "k2 \<le> pieces cuts" "piece cuts ` {k1..<k2} \<subseteq> set kept'"
      "set kept \<subseteq> set kept'" "set kept' - set kept \<subseteq> piece cuts ` {..<k2}" "set kept \<subseteq> piece cuts ` {k2<..<pieces cuts}"
      by blast
    have "{k..<k2} = {k..<k1} \<union> {k1..<k2}" using k1(2) k2(2) by auto
    then have "piece cuts ` {k..<k2} \<subseteq> set frags" using k1(4,5) k2(4) by auto
    moreover have "set frags - set kept \<subseteq> piece cuts ` {..<k2}"
    proof
      fix x assume x: "x \<in> set frags - set kept"
      show "x \<in> piece cuts ` {..<k2}"
      proof (cases "x \<in> set kept'")
        case False
        with x k1(6) have "x \<in> piece cuts ` {..<k1}" by blast
        with k2(2) show ?thesis by auto
      qed (use x k2(6) in blast)
    qed
    ultimately show ?thesis using k1(2,5) k2 by (intro exI [of _ k2]) auto
  qed
qed

section \<open>What the buffer holds\<close>

text \<open>
  The abstract state of a buffer is the set of the pieces that arrived; the range is made up of those
  below the first missing one, the vector holds the others.
\<close>

definition holdsPieces :: "uint16 list \<Rightarrow> nat set \<Rightarrow> ReassemblyBuffer \<Rightarrow> bool" where
  "holdsPieces cuts I buf \<longleftrightarrow> I \<subseteq> {..<pieces cuts} \<and> (\<exists>k \<le> pieces cuts. rb_main buf = firstPieces cuts k \<and>
     {..<k} \<subseteq> I \<and> k \<notin> I \<and> set (rb_fragments buf) = piece cuts ` {i \<in> I. k < i})"

lemma holdsPieces_new: "cutsOk cuts \<Longrightarrow> holdsPieces cuts {} ReassemblyBuffer_new"
  unfolding holdsPieces_def
  by (intro conjI exI [of _ 0]) (auto simp: ReassemblyBuffer_new_def firstPieces_def cuts_zero cutsOk_def pieces_def)

lemma holdsPieces_complete:
  assumes "holdsPieces cuts I buf"
  shows "fr_beg (rb_main buf) = 0 \<and> (fr_islast (rb_main buf) \<longleftrightarrow> I = {..<pieces cuts}) \<and>
    (I = {..<pieces cuts} \<longrightarrow> getTotalLength buf = cuts ! pieces cuts)"
  using assms unfolding holdsPieces_def getTotalLength_def
  by (auto simp: subset_antisym)

abbreviation addPiece :: "uint16 list \<Rightarrow> nat \<Rightarrow> ReassemblyBuffer \<Rightarrow> ReassemblyBuffer \<times> bool" where
  "addPiece cuts i \<equiv> ReassemblyBuffer_addFragment (cuts ! i) (cuts ! (i + 1)) (i + 1 = pieces cuts)"

lemma addPiece_cases:
  assumes "cutsOk cuts" "i < pieces cuts" "k \<le> pieces cuts" "rb_main buf = firstPieces cuts k"
  shows "ReassemblyBuffer_merge (cuts ! i) (cuts ! (i + 1)) (i + 1 = pieces cuts) buf =
    (if i < k then buf
     else if i = k then let (m, frags) = mergeFragments (firstPieces cuts (k + 1)) (rb_fragments buf)
       in \<lparr>rb_main = m, rb_fragments = frags\<rparr>
     else buf\<lparr>rb_fragments := rb_fragments buf @ [piece cuts i]\<rparr>)"
  using assms piece_firstPieces [OF assms(1-3)]
  by (auto simp: ReassemblyBuffer_merge_def piece_def Let_def not_less firstPieces_grow)

text \<open>A piece that fills the gap: the range grows up to the next missing piece.\<close>

lemma gap_filled:
  assumes cuts: "cutsOk cuts" and I: "I \<subseteq> {..<pieces cuts}" "{..<k} \<subseteq> I" "k < pieces cuts"
    and frags: "set frags = piece cuts ` {i \<in> I. k < i}"
    and r: "mergeFragments (firstPieces cuts (k + 1)) frags = (m, kept)"
  shows "\<exists>k' \<le> pieces cuts. m = firstPieces cuts k' \<and> {..<k'} \<subseteq> insert k I \<and> k' \<notin> insert k I \<and>
    set kept = piece cuts ` {j \<in> insert k I. k' < j}"
proof -
  note inj = piece_inj [OF cuts]
  have "set frags \<subseteq> piece cuts ` {..<pieces cuts}" "k + 1 \<le> pieces cuts" using I(1,3) frags by auto
  from mergeFragments_pieces [OF cuts this r] obtain k' where k': "m = firstPieces cuts k'" "k + 1 \<le> k'"
    "k' \<le> pieces cuts" "piece cuts ` {k + 1..<k'} \<subseteq> set frags" "set kept \<subseteq> set frags"
    "set frags - set kept \<subseteq> piece cuts ` {..<k'}" "set kept \<subseteq> piece cuts ` {k'<..<pieces cuts}" by blast
  have mem: "piece cuts j \<in> set frags \<longleftrightarrow> j \<in> I \<and> k < j" if "j < pieces cuts" for j
    using I(1) frags that inj by auto
  have kept: "piece cuts j \<in> set kept \<longleftrightarrow> j \<in> I \<and> k' < j" if j: "j < pieces cuts" for j
  proof -
    have "piece cuts j \<in> piece cuts ` {k'<..<pieces cuts} \<longleftrightarrow> k' < j" "piece cuts j \<in> piece cuts ` {..<k'} \<longleftrightarrow> j < k'"
      using j k'(3) inj by (auto simp: image_iff)
    with mem [OF j] k'(2,5-7) show ?thesis by (metis DiffI less_imp_le_nat less_le_trans not_less_iff_gr_or_eq subsetD Suc_le_eq Suc_eq_plus1)
  qed
  have low: "j \<in> insert k I" if "j < k'" for j
  proof (cases "j \<le> k")
    case True
    with I(2) show ?thesis by (cases "j = k") auto
  next
    case False
    with that k'(4) have "piece cuts j \<in> set frags" by auto
    with mem [of j] that k'(3) show ?thesis by simp
  qed
  have new: "k' \<notin> insert k I"
  proof
    assume "k' \<in> insert k I"
    with k'(2) I(1) have "k' \<in> I" "k' < pieces cuts" by auto
    with mem [of k'] kept [of k'] k'(2,6) have "piece cuts k' \<in> piece cuts ` {..<k'}" by auto
    with \<open>k' < pieces cuts\<close> inj show False by auto
  qed
  have "set kept = piece cuts ` {j \<in> insert k I. k' < j}"
  proof (intro equalityI subsetI)
    fix x assume x: "x \<in> set kept"
    with k'(7) obtain j where "x = piece cuts j" "j < pieces cuts" by auto
    with x kept [of j] show "x \<in> piece cuts ` {j \<in> insert k I. k' < j}" by blast
  next
    fix x assume "x \<in> piece cuts ` {j \<in> insert k I. k' < j}"
    then obtain j where "x = piece cuts j" "j \<in> I" "k' < j" using k'(2) by auto
    with kept [of j] I(1) show "x \<in> set kept" by blast
  qed
  with k'(1,3) low new show ?thesis by blast
qed

lemma addPiece_holds:
  assumes "cutsOk cuts" "holdsPieces cuts I buf" "i < pieces cuts"
  shows "holdsPieces cuts (insert i I) (fst (addPiece cuts i buf))"
    and "snd (addPiece cuts i buf) \<longleftrightarrow> insert i I = {..<pieces cuts}"
proof -
  let ?buf = "ReassemblyBuffer_merge (cuts ! i) (cuts ! (i + 1)) (i + 1 = pieces cuts) buf"
  from assms(2) obtain k where k: "I \<subseteq> {..<pieces cuts}" "k \<le> pieces cuts" "rb_main buf = firstPieces cuts k"
    "{..<k} \<subseteq> I" "k \<notin> I" "set (rb_fragments buf) = piece cuts ` {i \<in> I. k < i}" by (auto simp: holdsPieces_def)
  note cases = addPiece_cases [OF assms(1,3) k(2,3)]
  have m: "holdsPieces cuts (insert i I) ?buf"
  proof (cases "i = k")
    case False
    with k assms(3) show ?thesis unfolding cases holdsPieces_def
      by (cases "i < k") (auto intro!: exI [of _ k] simp: insert_absorb subset_iff)
  next
    case True
    obtain m kept where r: "mergeFragments (firstPieces cuts (k + 1)) (rb_fragments buf) = (m, kept)" by fastforce
    then have "?buf = \<lparr>rb_main = m, rb_fragments = kept\<rparr>" unfolding cases using True by simp
    with gap_filled [OF assms(1) k(1,4) _ k(6) r] True assms(3) k(1) show ?thesis by (auto simp: holdsPieces_def)
  qed
  show "holdsPieces cuts (insert i I) (fst (addPiece cuts i buf))"
    using m by (simp add: ReassemblyBuffer_addFragment_def Let_def)
  show "snd (addPiece cuts i buf) \<longleftrightarrow> insert i I = {..<pieces cuts}"
    using holdsPieces_complete [OF m] by (simp add: ReassemblyBuffer_addFragment_def Let_def)
qed

end
