(* ===== verification/IP_Forwarding.thy ===== *)
theory IP_Forwarding imports IP_Packets IP_RoutingTable IP_Reassembly "HOL-Library.Signed_Division"
begin

text \<open>
  The IP module but for its unicast routing: \<^verbatim>\<open>src/src/networklayer/ipv4/IPchanged.cc\<close> with the
  fragment buffer of \<^verbatim>\<open>IPFragBuf.{h,cc}\<close> and the protocol mapping of
  \<^verbatim>\<open>src/src/base/ProtocolMap.cc\<close>.
\<close>

section \<open>The fragment buffer\<close>

text \<open>The key of a datagram under reassembly: the id, the source and the destination.\<close>

type_synonym FragKey = "uint16 \<times> IPAddress \<times> IPAddress"

record DatagramBuffer =
  db_buf :: ReassemblyBuffer
  db_datagram :: "IPDatagram option"
  db_lastupdate :: simtime

definition DatagramBuffer_new :: DatagramBuffer where
  "DatagramBuffer_new = \<lparr>db_buf = ReassemblyBuffer_new, db_datagram = None, db_lastupdate = 0\<rparr>"

text \<open>The map is kept in the order of its keys.\<close>

type_synonym Buffers = "(FragKey \<times> DatagramBuffer) list"

fun keyLess :: "FragKey \<Rightarrow> FragKey \<Rightarrow> bool" where
  "keyLess (i, s, d) (i', s', d') \<longleftrightarrow> (if i \<noteq> i' then i < i' else if s \<noteq> s' then s < s' else d < d')"

fun putBuffer :: "FragKey \<Rightarrow> DatagramBuffer \<Rightarrow> Buffers \<Rightarrow> Buffers" where
  "putBuffer k b [] = [(k, b)]"
| "putBuffer k b ((k', b') # bs) =
     (if k = k' then (k, b) # bs
      else if keyLess k k' then (k, b) # (k', b') # bs
      else (k', b') # putBuffer k b bs)"

fun eraseBuffer :: "FragKey \<Rightarrow> Buffers \<Rightarrow> Buffers" where
  "eraseBuffer k [] = []"
| "eraseBuffer k ((k', b') # bs) = (if k = k' then bs else (k', b') # eraseBuffer k bs)"

text \<open>
  The id of the key is never set: it is what was on the stack, the argument \<open>stackId\<close>. A datagram that
  is complete with its first fragment erases the end of the map.
\<close>

definition IPFragBuf_addFragment ::
  "uint16 \<Rightarrow> IPDatagram \<Rightarrow> simtime \<Rightarrow> Buffers \<Rightarrow> (Buffers \<times> IPDatagram option) res" where
  "IPFragBuf_addFragment stackId datagram now bufs =
     (let key = (stackId, srcAddress datagram, destAddress datagram);
        i = map_of bufs key;
        buf = (case i of None \<Rightarrow> DatagramBuffer_new | Some b \<Rightarrow> b);
        bytes = byteLength datagram - headerLength datagram;
        (rbuf, isComplete) = ReassemblyBuffer_addFragment (word_of_int (fragmentOffset datagram))
          (word_of_int (fragmentOffset datagram + bytes)) (\<not> moreFragments datagram) (db_buf buf);
        buf = buf\<lparr>db_buf := rbuf\<rparr>;
        buf = (if encapsulatedMsg datagram \<noteq> None then buf\<lparr>db_datagram := Some datagram\<rparr> else buf)
      in if isComplete
         then case db_datagram buf of
            None \<Rightarrow> Inl (NullPointer ''ret'')
          | Some ret \<Rightarrow>
              if i = None then Inl (UndefinedBehaviour ''bufs.erase(bufs.end())'')
              else Inr (eraseBuffer key bufs,
                Some (ret\<lparr>byteLength := headerLength ret + uint (getTotalLength rbuf)\<rparr>))
         else Inr (putBuffer key (buf\<lparr>db_lastupdate := now\<rparr>) bufs, None))"

fun purgeStaleFragments :: "simtime \<Rightarrow> Buffers \<Rightarrow> ICMP \<Rightarrow> (Buffers \<times> ICMP) res" where
  "purgeStaleFragments lastupdate [] icmp = Inr ([], icmp)"
| "purgeStaleFragments lastupdate ((k, buf) # bufs) icmp =
     (if db_lastupdate buf < lastupdate
      then case db_datagram buf of
          None \<Rightarrow> Inl (NullPointer ''origDatagram'')
        | Some d \<Rightarrow> andThen (ICMP_sendErrorMessage d ICMP_TIME_EXCEEDED 0 icmp) (\<lambda>icmp.
            purgeStaleFragments lastupdate bufs icmp)
      else andThen (purgeStaleFragments lastupdate bufs icmp) (\<lambda>(bufs, icmp). Inr ((k, buf) # bufs, icmp)))"

section \<open>The protocol mapping\<close>

text \<open>
  A list \<^verbatim>\<open>protocol:gate, protocol:gate, ...\<close> with blanks between. \<^verbatim>\<open>atoi\<close> of a
  number beyond the range of \<^verbatim>\<open>int\<close> is undefined.
\<close>

definition isSpace :: "char \<Rightarrow> bool" where
  "isSpace c \<longleftrightarrow> c = CHR '' '' \<or> (9 \<le> (of_char c :: nat) \<and> (of_char c :: nat) \<le> 13)"

function parseEntries :: "(int \<times> int) list \<Rightarrow> string \<Rightarrow> (int \<times> int) list res" where
  "parseEntries entries s = (if s = [] then Inr entries else
     if \<not> isDigit (hd s) then Inl (OppError ''syntax error: protocol number expected'') else
     andThen (readNumber 0 s) (\<lambda>(protocolNumber, s'). case s' of
       [] \<Rightarrow> Inl (OppError ''syntax error: colon expected'')
     | c # s' \<Rightarrow> if c \<noteq> CHR '':'' then Inl (OppError ''syntax error: colon expected'') else
       let s' = dropWhile isSpace s'
       in if s' = [] \<or> \<not> isDigit (hd s') then Inl (OppError ''syntax error in script: output gate index expected'') else
          andThen (readNumber 0 s') (\<lambda>(outGateIndex, s').
            let entries = entries @ [(int protocolNumber, int outGateIndex)];
                s' = dropWhile isSpace s'
            in case s' of [] \<Rightarrow> Inr entries
               | c # s' \<Rightarrow> if c \<noteq> CHR '','' then Inl (OppError ''syntax error: comma expected'')
                   else parseEntries entries (dropWhile isSpace s'))))"
  by pat_completeness auto
termination
proof (relation "measure (length \<circ> snd)", simp)
  fix entries :: "(int \<times> int) list" and s s1 s2 s3 s4 s5 s6 s7 :: string and r r' n g c c' es
  assume s: "readNumber 0 s = Inr r" "(n, s1) = r" "s1 = c # s2" "s3 = dropWhile isSpace s2" "readNumber 0 s3 = Inr r'"
    "(g, s4) = r'" "s5 = dropWhile isSpace s4" "s5 = c' # s6"
  then have "length s1 \<le> length s" "length s4 \<le> length s3"
    using readNumber_length [of 0 s n s1] readNumber_length [of 0 s3 g s4] by auto
  moreover have "length s3 \<le> length s2" "length s5 \<le> length s4" using s(4,7) by (simp_all only: length_dropWhile_le)
  moreover have "length s1 = Suc (length s2)" "length s5 = Suc (length s6)" using s(3,8) by simp_all
  ultimately have "Suc (length s6) \<le> length s" by linarith
  then have "length (dropWhile isSpace s6) < length s" using length_dropWhile_le [of isSpace s6] by linarith
  then show "((es, dropWhile isSpace s6), entries, s) \<in> measure (length \<circ> snd)" by simp
qed

declare parseEntries.simps [simp del]

definition parseProtocolMapping :: "string \<Rightarrow> (int \<times> int) list res" where
  "parseProtocolMapping s = parseEntries [] (dropWhile isSpace s)"

fun getOutputGateForProtocol :: "int \<Rightarrow> (int \<times> int) list \<Rightarrow> int res" where
  "getOutputGateForProtocol protocol [] = Inl (OppError ''No output gate defined in protocolMapping'')"
| "getOutputGateForProtocol protocol ((p, g) # entries) =
     (if p = protocol then Inr g else getOutputGateForProtocol protocol entries)"

section \<open>The module\<close>

record IP =
  ip_ift :: InterfaceTable
  ip_rt :: RoutingTable
  ip_icmp :: ICMP
  mapping :: "(int \<times> int) list"
  fragbuf :: Buffers
  lastCheckTime :: simtime
  fragmentTimeoutTime :: simtime
  defaultTimeToLive :: int
  defaultMCTimeToLive :: int
  numMulticast :: int
  ip_sent :: "NetOutput list"

definition ip_emit :: "NetOutput \<Rightarrow> IP \<Rightarrow> IP" where
  "ip_emit out ip = ip\<lparr>ip_sent := ip_sent ip @ [out]\<rparr>"

definition ip_sendError :: "IPDatagram \<Rightarrow> int \<Rightarrow> int \<Rightarrow> IP \<Rightarrow> IP res" where
  "ip_sendError d type code ip =
     andThen (ICMP_sendErrorMessage d type code (ip_icmp ip)) (\<lambda>icmp. Inr (ip\<lparr>ip_icmp := icmp\<rparr>))"

definition getSourceInterfaceFrom :: "IPDatagram \<Rightarrow> IP \<Rightarrow> InterfaceEntry option" where
  "getSourceInterfaceFrom msg ip = (case arrivalGateIndex msg of
     Some g \<Rightarrow> getInterfaceByNetworkLayerGateIndex g (ip_ift ip)
   | None \<Rightarrow> None)"

section \<open>Sending\<close>

definition sendDatagramToOutput :: "IPDatagram \<Rightarrow> InterfaceEntry \<Rightarrow> IPAddress \<Rightarrow> IP \<Rightarrow> IP res" where
  "sendDatagramToOutput datagram ie nextHopAddr ip =
     (if timeToLive datagram \<le> 0 then ip_sendError datagram ICMP_TIME_EXCEEDED 0 ip
      else Inr (ip_emit (ToQueueOut datagram (interfaceId ie) nextHopAddr) ip))"

text \<open>
  The conversion of a multiple of one half to \<^verbatim>\<open>float\<close>: \<open>n\<close> halves are rounded to 24
  significant bits, ties to even.
\<close>

fun excessBits :: "nat \<Rightarrow> nat" where
  "excessBits n = (if n < 16777216 then 0 else Suc (excessBits (n div 2)))"

declare excessBits.simps [simp del]

definition roundEven :: "int \<Rightarrow> nat \<Rightarrow> int" where
  "roundEven n k = (let q = n div 2 ^ k; r = n mod 2 ^ k
     in (if 2 * r < 2 ^ k \<or> 2 * r = 2 ^ k \<and> even q then q else q + 1) * 2 ^ k)"

definition halvesToFloat :: "int \<Rightarrow> int" where
  "halvesToFloat n = sgn n * roundEven \<bar>n\<bar> (excessBits (nat \<bar>n\<bar>))"

text \<open>The number of fragments: an integer division, plus one half, rounded up.\<close>

definition noOfFragments :: "int \<Rightarrow> int \<Rightarrow> int" where
  "noOfFragments payload room = (let frag = halvesToFloat (2 * (payload sdiv room) + 1) in - ((- frag) div 2))"

definition fragmentOf :: "IPDatagram \<Rightarrow> int \<Rightarrow> int \<Rightarrow> int \<Rightarrow> IPDatagram" where
  "fragmentOf datagram m n i = datagram\<lparr>dgName := dgName datagram @ ''-frag'', moreFragments := (i \<noteq> n - 1),
     packetId := i, byteLength := m, fragmentOffset := i * (m - headerLength datagram)\<rparr>"

fun sendFragments :: "IPDatagram \<Rightarrow> int \<Rightarrow> int \<Rightarrow> InterfaceEntry \<Rightarrow> IPAddress \<Rightarrow> int list \<Rightarrow> IP \<Rightarrow> IP res" where
  "sendFragments datagram m n ie nextHopAddr [] ip = Inr ip"
| "sendFragments datagram m n ie nextHopAddr (i # is) ip =
     andThen (sendDatagramToOutput (fragmentOf datagram m n i) ie nextHopAddr ip) (\<lambda>ip.
     sendFragments datagram m n ie nextHopAddr is ip)"

definition fragmentAndSend :: "IPDatagram \<Rightarrow> InterfaceEntry \<Rightarrow> IPAddress \<Rightarrow> IP \<Rightarrow> IP res" where
  "fragmentAndSend datagram ie nextHopAddr ip =
     (if byteLength datagram \<le> mtu ie then sendDatagramToOutput datagram ie nextHopAddr ip
      else let payload = byteLength datagram - headerLength datagram;
             room = mtu ie - headerLength datagram
        in if room = 0 then Inl (DivisionByZero ''payload / (mtu - headerLength)'')
           else let n = noOfFragments payload room
             in if dontFragment datagram \<and> 1 < n
                then ip_sendError datagram ICMP_DESTINATION_UNREACHABLE ICMP_FRAGMENTATION_ERROR_CODE ip
                else sendFragments datagram (mtu ie) n ie nextHopAddr [0..n - 1] ip)"

section \<open>Encapsulation\<close>

text \<open>
  The name of a datagram, the router id and the name of the packet, is put together in 60 bytes. The
  TTL is a \<^verbatim>\<open>short\<close>.
\<close>

definition encapsulate :: "string \<Rightarrow> Packet \<Rightarrow> IPControlInfo \<Rightarrow> IP \<Rightarrow> (IPDatagram \<times> InterfaceEntry option) res" where
  "encapsulate name transportPacket ci ip =
     (let packet_name = IPAddress_str (routerId (ip_rt ip)) @ '' '' @ name;
        destIE = getInterfaceById (ciInterfaceId ci) (ip_ift ip);
        dest = ciDestAddr ci
      in checked (length packet_name < 60) (UndefinedBehaviour ''strcat(packet_name)'')
       (andThen (if ciSrcAddr ci = 0 then Inr (routerId (ip_rt ip))
          else andThen (getInterfaceByAddress (ciSrcAddr ci) (interfaces (ip_ift ip))) (\<lambda>r.
            if r = None then Inl (OppError ''Wrong source address: no interface with such address'')
            else Inr (ciSrcAddr ci))) (\<lambda>src.
        Inr (\<lparr>headerLength = IP_HEADER_BYTES, srcAddress = src, destAddress = dest, destPort = ciDestPort ci,
           srcPort = ciSrcPort ci, transportProtocol = ciProtocol ci,
           timeToLive = (if 0 < ciTimeToLive ci then ciTimeToLive ci
             else if isLinkLocalMulticast dest then 1
             else if isMulticast dest then toShort (defaultMCTimeToLive ip)
             else toShort (defaultTimeToLive ip)),
           flowId = ciFlowId ci, link_status = ciLink_status ci, packetId = ciPacketId ci,
           moreFragments = False, dontFragment = ciDontFragment ci, fragmentOffset = 0,
           diffServCodePoint = ciDiffServCodePoint ci, num_packets_for_this_path = ciNum_packets_for_this_path ci,
           arrivalGateIndex = None, dgName = packet_name,
           byteLength = IP_HEADER_BYTES + packetLength transportPacket, encapsulatedMsg = Some transportPacket\<rparr>,
          destIE))))"

definition decapsulateIP :: "IPDatagram \<Rightarrow> IP \<Rightarrow> (Packet \<times> IPControlInfo) res" where
  "decapsulateIP datagram ip =
     (let fromIE = getSourceInterfaceFrom datagram ip
      in andThen (decapsulate datagram) (\<lambda>(datagram, packet). case packet of
         None \<Rightarrow> Inl (NullPointer ''packet'')
       | Some p \<Rightarrow>
         andThen (setOrigDatagram datagram (IPControlInfo_new\<lparr>
             ciProtocol := toShort (transportProtocol datagram), ciSrcAddr := srcAddress datagram,
             ciDestAddr := destAddress datagram, ciFlowId := flowId datagram,
             ciLink_status := link_status datagram, ciPacketId := packetId datagram,
             ciDiffServCodePoint := diffServCodePoint datagram,
             ciInterfaceId := (case fromIE of Some ie \<Rightarrow> interfaceId ie | None \<Rightarrow> - 1)\<rparr>)) (\<lambda>ci.
         Inr (p, ci))))"

section \<open>Delivery\<close>

definition handleReceivedICMP :: "ICMPMessage \<Rightarrow> IPControlInfo \<Rightarrow> IP \<Rightarrow> IP res" where
  "handleReceivedICMP msg ci ip =
     (if icmpType msg \<in> {ICMP_REDIRECT, ICMP_DESTINATION_UNREACHABLE, ICMP_TIME_EXCEEDED, ICMP_PARAMETER_PROBLEM}
      then andThen (castDatagram (icmpEncapsulated msg)) (\<lambda>bogusPacket.
        andThen (getOutputGateForProtocol (transportProtocol bogusPacket) (mapping ip)) (\<lambda>gateindex.
        Inr (ip_emit (ToTransport gateindex (icmpPacket msg) (Some ci)) ip)))
      else andThen (getOutputGateForProtocol IP_PROT_ICMP (mapping ip)) (\<lambda>gateindex.
        Inr (ip_emit (ToTransport gateindex (icmpPacket msg) (Some ci)) ip)))"

definition deliver :: "IPDatagram \<Rightarrow> IP \<Rightarrow> IP res" where
  "deliver datagram ip =
     (let protocol = transportProtocol datagram
      in andThen (decapsulateIP datagram ip) (\<lambda>(packet, ci).
         if protocol = IP_PROT_ICMP
         then andThen (castICMP (Some packet)) (\<lambda>msg. handleReceivedICMP msg ci ip)
         else if protocol = IP_PROT_IP then Inr (ip_emit (ToPreRouting packet ci) ip)
         else andThen (getOutputGateForProtocol protocol (mapping ip)) (\<lambda>gateindex.
           Inr (ip_emit (ToTransport gateindex packet (Some ci)) ip))))"

definition reassembleAndDeliver :: "uint16 \<Rightarrow> simtime \<Rightarrow> IPDatagram \<Rightarrow> IP \<Rightarrow> IP res" where
  "reassembleAndDeliver stackId now datagram ip =
     (if fragmentOffset datagram \<noteq> 0 \<or> moreFragments datagram
      then andThen (if lastCheckTime ip + 10 \<le> now
             then andThen (purgeStaleFragments (now - fragmentTimeoutTime ip) (fragbuf ip) (ip_icmp ip))
               (\<lambda>(bufs, icmp). Inr (ip\<lparr>lastCheckTime := now, fragbuf := bufs, ip_icmp := icmp\<rparr>))
             else Inr ip) (\<lambda>ip.
        andThen (IPFragBuf_addFragment stackId datagram now (fragbuf ip)) (\<lambda>(bufs, r).
          case r of None \<Rightarrow> Inr (ip\<lparr>fragbuf := bufs\<rparr>)
          | Some datagram \<Rightarrow> deliver datagram (ip\<lparr>fragbuf := bufs\<rparr>)))
      else deliver datagram ip)"

section \<open>Multicast\<close>

text \<open>The source address of a copy, if it has none yet, is that of the interface it leaves by.\<close>

definition withSource :: "InterfaceEntry \<Rightarrow> IPDatagram \<Rightarrow> IPDatagram res" where
  "withSource ie d = (if srcAddress d = 0
     then andThen (ipv4Data ie) (\<lambda>data. Inr (d\<lparr>srcAddress := inetAddr data\<rparr>)) else Inr d)"

fun sendMulticastCopies ::
  "IPDatagram \<Rightarrow> int option \<Rightarrow> (int option \<times> IPAddress) list \<Rightarrow> IP \<Rightarrow> IP res" where
  "sendMulticastCopies datagram fromIE [] ip = Inr ip"
| "sendMulticastCopies datagram fromIE ((destIE, gw) # rs) ip =
     (case destIE of None \<Rightarrow> sendMulticastCopies datagram fromIE rs ip
      | Some i \<Rightarrow> if destIE = fromIE then sendMulticastCopies datagram fromIE rs ip
        else case getInterfaceById i (ip_ift ip) of
            None \<Rightarrow> Inl (UndefinedBehaviour ''dangling interface'')
          | Some ie \<Rightarrow> andThen (withSource ie datagram) (\<lambda>copy.
              andThen (fragmentAndSend copy ie gw ip) (\<lambda>ip.
              sendMulticastCopies datagram fromIE rs ip)))"

definition routeMulticastPacket ::
  "uint16 \<Rightarrow> simtime \<Rightarrow> IPDatagram \<Rightarrow> InterfaceEntry option \<Rightarrow> InterfaceEntry option \<Rightarrow> IP \<Rightarrow> IP res" where
  "routeMulticastPacket stackId now datagram destIE fromIE ip =
     (let destAddr = destAddress datagram;
        ip = ip\<lparr>numMulticast := numMulticast ip + 1\<rparr>;
        (rt, shortestPathIE) = getInterfaceForDestAddr (srcAddress datagram) (ip_rt ip);
        ip = ip\<lparr>ip_rt := rt\<rparr>;
        forward = (\<lambda>ip. case destIE of
            Some ie \<Rightarrow> checked (isMulticast destAddr) (AssertFailed ''destAddress().isMulticast()'')
              (andThen (withSource ie datagram) (\<lambda>d. fragmentAndSend d ie destAddr ip))
          | None \<Rightarrow> sendMulticastCopies datagram (map_option interfaceId fromIE)
              (getMulticastRoutesFor destAddr (ip_rt ip)) ip)
      in case fromIE of
          None \<Rightarrow> forward ip
        | Some ie \<Rightarrow>
          if shortestPathIE \<noteq> None \<and> Some (interfaceId ie) \<noteq> shortestPathIE then Inr ip
          else andThen (isLocalMulticastAddress destAddr (interfaces (ip_ift ip))) (\<lambda>local.
            andThen (if local then reassembleAndDeliver stackId now (datagram\<lparr>destAddress := routerId (ip_rt ip)\<rparr>) ip
                     else Inr ip) (\<lambda>ip.
            if \<not> IPForward (ip_rt ip) then Inr ip
            else if isLinkLocalMulticast destAddr then Inr ip
            else forward ip)))"

section \<open>The queue of the module\<close>

text \<open>The datagrams in the queue with the given addresses and ports.\<close>

definition count_pkt_in_queue :: "IPAddress \<Rightarrow> IPAddress \<Rightarrow> int \<Rightarrow> int \<Rightarrow> IPDatagram list \<Rightarrow> int" where
  "count_pkt_in_queue src dest sPort dPort queue = int (length (filter (\<lambda>d. destAddress d = dest \<and>
     srcAddress d = src \<and> destPort d = dPort \<and> srcPort d = sPort) queue))"

end
