(* ===== verification/IP_ForwardingProps.thy ===== *)
theory IP_ForwardingProps imports IP_Forwarding
begin

text \<open>
  Properties of the IP and ICMP modules: what becomes of a datagram that is cut into fragments, of
  errors about errors, of the multicast copies, of the protocol mapping.
\<close>

section \<open>The number of fragments\<close>

lemma excessBits_small: "n < 16777216 \<Longrightarrow> excessBits n = 0"
  by (simp add: excessBits.simps)

lemma halvesToFloat_exact: "\<bar>n\<bar> < 16777216 \<Longrightarrow> halvesToFloat n = n"
  by (simp add: halvesToFloat_def excessBits_small roundEven_def Let_def sgn_mult_abs)

lemma noOfFragments_eq:
  assumes "0 \<le> payload" "0 < room" "payload div room < 8388607"
  shows "noOfFragments payload room = payload div room + 1"
proof -
  have "payload sdiv room = payload div room" "0 \<le> payload div room"
    using assms by (cases "payload = 0", simp_all add: signed_divide_int_def pos_imp_zdiv_nonneg_iff)
  moreover from this assms(3) have "halvesToFloat (2 * (payload div room) + 1) = 2 * (payload div room) + 1"
    by (intro halvesToFloat_exact) simp
  ultimately show ?thesis by (simp add: noOfFragments_def Let_def)
qed

section \<open>Fragments on their way\<close>

lemma sendFragments_sent:
  assumes "0 < timeToLive d"
  shows "sendFragments d m n ie nh is ip =
    Inr (ip\<lparr>ip_sent := ip_sent ip @ map (\<lambda>i. ToQueueOut (fragmentOf d m n i) (interfaceId ie) nh) is\<rparr>)"
  using assms
  by (induction "is" arbitrary: ip) (simp_all add: sendDatagramToOutput_def fragmentOf_def ip_emit_def)

lemma eraseBuffer_putBuffer: "map_of bs k = None \<Longrightarrow> eraseBuffer k (putBuffer k b bs) = bs"
  by (induction k b bs rule: putBuffer.induct) (auto split: if_splits)

lemma putBuffer_putBuffer: "putBuffer k b (putBuffer k b' bs) = putBuffer k b bs"
  by (induction k b' bs rule: putBuffer.induct) auto

lemma map_of_putBuffer [simp]: "map_of (putBuffer k b bs) k = Some b"
  by (induction k b bs rule: putBuffer.induct) auto

text \<open>The buffers while the pieces in \<open>I\<close> of a datagram have arrived; the others are \<open>bufs\<close>.\<close>

definition collecting :: "FragKey \<Rightarrow> uint16 list \<Rightarrow> Buffers \<Rightarrow> nat set \<Rightarrow> Buffers \<Rightarrow> bool" where
  "collecting key cuts bufs I bs \<longleftrightarrow>
     (if I = {} then bs = bufs else \<exists>b. bs = putBuffer key b bufs \<and> holdsPieces cuts I (db_buf b))"

text \<open>A fragment that is piece \<open>i\<close> of a datagram with the given addresses.\<close>

definition isPiece :: "uint16 list \<Rightarrow> nat \<Rightarrow> IPDatagram \<Rightarrow> bool" where
  "isPiece cuts i g \<longleftrightarrow> i < pieces cuts \<and> word_of_int (fragmentOffset g) = cuts ! i \<and>
     word_of_int (fragmentOffset g + (byteLength g - headerLength g)) = cuts ! (i + 1) \<and>
     (\<not> moreFragments g \<longleftrightarrow> i + 1 = pieces cuts) \<and> encapsulatedMsg g \<noteq> None"

lemma addFragment_piece:
  assumes "cutsOk cuts" "isPiece cuts i g" "map_of bufs key = None" "key = (k, srcAddress g, destAddress g)"
    and "collecting key cuts bufs I bs"
  shows "insert i I \<noteq> {..<pieces cuts} \<Longrightarrow>
      \<exists>bs'. IPFragBuf_addFragment k g t bs = Inr (bs', None) \<and> collecting key cuts bufs (insert i I) bs'"
    and "insert i I = {..<pieces cuts} \<Longrightarrow> I \<noteq> {} \<Longrightarrow> IPFragBuf_addFragment k g t bs =
      Inr (bufs, Some (g\<lparr>byteLength := headerLength g + uint (cuts ! pieces cuts)\<rparr>))"
proof -
  let ?buf = "case map_of bs key of None \<Rightarrow> DatagramBuffer_new | Some b \<Rightarrow> b"
  have holds: "holdsPieces cuts I (db_buf ?buf)"
    using assms(1,3,5) holdsPieces_new
    by (auto simp: collecting_def DatagramBuffer_new_def split: if_splits)
  from assms(2) have i: "i < pieces cuts" by (simp add: isPiece_def)
  note added = addPiece_holds [OF assms(1) holds i]
  obtain rb c where rb: "addPiece cuts i (db_buf ?buf) = (rb, c)" by fastforce
  have put: "putBuffer key b bs = putBuffer key b bufs" for b
    using assms(5) by (auto simp: collecting_def putBuffer_putBuffer split: if_splits)
  have step: "IPFragBuf_addFragment k g t bs =
     (if c then if map_of bs key = None then Inl (UndefinedBehaviour ''bufs.erase(bufs.end())'')
           else Inr (eraseBuffer key bs, Some (g\<lparr>byteLength := headerLength g + uint (getTotalLength rb)\<rparr>))
      else Inr (putBuffer key (?buf\<lparr>db_buf := rb, db_datagram := Some g, db_lastupdate := t\<rparr>) bs, None))"
    using assms(2) rb unfolding IPFragBuf_addFragment_def Let_def isPiece_def assms(4) [symmetric] by auto
  show "\<exists>bs'. IPFragBuf_addFragment k g t bs = Inr (bs', None) \<and> collecting key cuts bufs (insert i I) bs'"
    if "insert i I \<noteq> {..<pieces cuts}"
    using added that unfolding rb step put by (auto simp: collecting_def)
  show "IPFragBuf_addFragment k g t bs = Inr (bufs, Some (g\<lparr>byteLength := headerLength g + uint (cuts ! pieces cuts)\<rparr>))"
    if all: "insert i I = {..<pieces cuts}" and "I \<noteq> {}"
  proof -
    from that(2) assms(5) obtain b where b: "bs = putBuffer key b bufs" by (auto simp: collecting_def)
    with added all holdsPieces_complete [of cuts "insert i I" rb] show ?thesis
      unfolding rb step by (simp add: eraseBuffer_putBuffer assms(3))
  qed
qed

text \<open>Fragments arriving one after the other, each with its time; the result has the datagrams passed on.\<close>

fun arrive :: "uint16 \<Rightarrow> (IPDatagram \<times> simtime) list \<Rightarrow> Buffers \<Rightarrow> (Buffers \<times> IPDatagram list) res" where
  "arrive k [] bufs = Inr (bufs, [])"
| "arrive k ((g, t) # gs) bufs = andThen (IPFragBuf_addFragment k g t bufs) (\<lambda>(bufs, r).
     andThen (arrive k gs bufs) (\<lambda>(bufs, ds). Inr (bufs, case r of None \<Rightarrow> ds | Some d \<Rightarrow> d # ds)))"

lemma arrive_append: "arrive k (gs @ gs') bufs = andThen (arrive k gs bufs) (\<lambda>(bufs, ds).
     andThen (arrive k gs' bufs) (\<lambda>(bufs, ds'). Inr (bufs, ds @ ds')))"
proof (induction k gs bufs rule: arrive.induct)
  case (1 k bufs)
  then show ?case by (cases "arrive k gs' bufs") auto
next
  case (2 k g t gs bufs)
  show ?case
  proof (cases "IPFragBuf_addFragment k g t bufs")
    case (Inr x)
    with 2 [OF Inr, of "fst x" "snd x"] show ?thesis
      by (cases "arrive k gs (fst x)"; cases "arrive k gs' (fst (projr (arrive k gs (fst x))))")
         (auto simp: split_beta split: option.split)
  qed simp
qed

lemma arrive_pieces:
  assumes "cutsOk cuts" "map_of bufs key = None" "key = (k, src, dest)"
    and "\<And>i g t. (i, g, t) \<in> set gs \<Longrightarrow> isPiece cuts i g \<and> srcAddress g = src \<and> destAddress g = dest"
    and "fst ` set gs \<noteq> {..<pieces cuts}" "collecting key cuts bufs {} bs"
  shows "\<exists>bs'. arrive k (map snd gs) bs = Inr (bs', []) \<and> collecting key cuts bufs (fst ` set gs) bs'"
  using assms(4,5)
proof (induction gs rule: rev_induct)
  case Nil
  with assms(6) show ?case by simp
next
  case (snoc x gs)
  obtain i g t where x: "x = (i, g, t)" by (metis prod_cases3)
  from snoc.prems(1) [of i g t] x have g: "isPiece cuts i g" "srcAddress g = src" "destAddress g = dest" by auto
  have sub: "fst ` set (gs @ [x]) \<subseteq> {..<pieces cuts}" using snoc.prems(1) by (force simp: isPiece_def)
  have part: "fst ` set gs \<noteq> {..<pieces cuts}"
  proof
    assume all: "fst ` set gs = {..<pieces cuts}"
    moreover have "i < pieces cuts" using g(1) by (simp add: isPiece_def)
    ultimately have "fst ` set (gs @ [x]) = {..<pieces cuts}" using x by auto
    with snoc.prems(2) show False by simp
  qed
  have "isPiece cuts i g \<and> srcAddress g = src \<and> destAddress g = dest" if "(i, g, t) \<in> set gs" for i g t
    using snoc.prems(1) [of i g t] that by simp
  then obtain bs' where bs: "arrive k (map snd gs) bs = Inr (bs', [])"
    "collecting key cuts bufs (fst ` set gs) bs'" using snoc.IH [OF _ part] by blast
  have "key = (k, srcAddress g, destAddress g)" using g assms(3) by simp
  moreover have "insert i (fst ` set gs) \<noteq> {..<pieces cuts}" using snoc.prems(2) x by simp
  ultimately obtain bs'' where "IPFragBuf_addFragment k g t bs' = Inr (bs'', None)"
    "collecting key cuts bufs (insert i (fst ` set gs)) bs''"
    using addFragment_piece(1) [OF assms(1) g(1) assms(2) _ bs(2)] by blast
  with bs x show ?case by (simp add: arrive_append)
qed

lemma arrive_all:
  assumes "cutsOk cuts" "2 \<le> pieces cuts" "map_of bufs (k, src, dest) = None"
    and "\<And>i g t. (i, g, t) \<in> set gs \<Longrightarrow> isPiece cuts i g \<and> srcAddress g = src \<and> destAddress g = dest"
    and "isPiece cuts i g" "srcAddress g = src" "destAddress g = dest"
    and "fst ` set gs \<noteq> {..<pieces cuts}" "insert i (fst ` set gs) = {..<pieces cuts}"
  shows "arrive k (map snd gs @ [(g, t)]) bufs =
    Inr (bufs, [g\<lparr>byteLength := headerLength g + uint (cuts ! pieces cuts)\<rparr>])"
proof -
  have "collecting (k, src, dest) cuts bufs {} bufs" by (simp add: collecting_def)
  then obtain bs where
    bs: "arrive k (map snd gs) bufs = Inr (bs, [])" "collecting (k, src, dest) cuts bufs (fst ` set gs) bs"
    using arrive_pieces [OF assms(1,3) refl _ assms(8)] assms(4) by blast
  have "fst ` set gs \<noteq> {}"
  proof
    assume "fst ` set gs = {}"
    with assms(9) have "card {..<pieces cuts} = card {i}" by metis
    with assms(2) show False by simp
  qed
  from addFragment_piece(2) [OF assms(1,5,3) _ bs(2) assms(9) this, where t = t] assms(6,7) bs(1)
  show ?thesis by (simp add: arrive_append)
qed

section \<open>The fragments of a datagram\<close>

definition fragCuts :: "int \<Rightarrow> nat \<Rightarrow> uint16 list" where
  "fragCuts room n = map (\<lambda>i. word_of_int (int i * room)) [0..<Suc n]"

lemma pieces_fragCuts [simp]: "pieces (fragCuts room n) = n"
  by (simp add: pieces_def fragCuts_def)

lemma fragCuts_nth: "i \<le> n \<Longrightarrow> fragCuts room n ! i = word_of_int (int i * room)"
  unfolding fragCuts_def by (subst nth_map) (simp_all del: upt_Suc)

lemma uint_cut:
  assumes "0 < room" "int n * room < 65536" "i \<le> n"
  shows "uint (word_of_int (int i * room) :: uint16) = int i * room"
proof -
  have "int i * room \<le> int n * room" using assms(1,3) by simp
  with assms(1,2) have "0 \<le> int i * room" "int i * room < 65536"
    using \<open>int i * room \<le> int n * room\<close> by (simp, linarith)
  then show ?thesis unfolding uint_word_of_int by (simp add: mod_pos_pos_trivial)
qed

lemma fragCuts_ok:
  assumes "0 < room" "1 \<le> n" "int n * room < 65536"
  shows "cutsOk (fragCuts room n)"
proof -
  have "fragCuts room n ! i < fragCuts room n ! j" if "i < j" "j < Suc n" for i j
    using that assms(1) uint_cut [OF assms(1,3), of i] uint_cut [OF assms(1,3), of j]
    by (simp add: fragCuts_nth word_less_def)
  moreover have "hd (fragCuts room n) = 0" by (simp add: fragCuts_def hd_map del: upt_Suc)
  ultimately show ?thesis using assms(2) by (simp add: cutsOk_def sorted_wrt_iff_nth_less fragCuts_def)
qed

lemma isPiece_fragmentOf:
  assumes "room = m - headerLength d" "i < n" "encapsulatedMsg d \<noteq> None"
  shows "isPiece (fragCuts room n) i (fragmentOf d m (int n) (int i))"
proof -
  have "int i * room + room = (int i + 1) * room" by (simp add: algebra_simps)
  with assms show ?thesis
    by (auto simp: isPiece_def fragCuts_nth fragmentOf_def algebra_simps)
qed

lemma fragment_range: "0 < n \<Longrightarrow> nat ` {0..n - 1} = {..<nat n}" for n :: int
  by (auto simp: image_iff) (metis atLeastAtMost_iff int_nat_eq nat_0_le nat_int of_nat_0_le_iff zle_diff1_eq zless_nat_eq_int_zless)

text \<open>Pieces of datagrams of one shape, in any order, the last one being piece \<open>i\<close> of \<open>d'\<close>.\<close>

lemma arrive_fragments:
  fixes n :: int
  assumes room: "room = m - headerLength d'" "0 < room" "2 \<le> n" "n * room < 65536"
    and fresh: "map_of bufs (k, srcAddress d', destAddress d') = None"
    and ts: "\<And>j d t. (j, d, t) \<in> set ts \<Longrightarrow> srcAddress d = srcAddress d' \<and> destAddress d = destAddress d' \<and>
      headerLength d = headerLength d' \<and> encapsulatedMsg d \<noteq> None"
    and d': "encapsulatedMsg d' \<noteq> None"
    and all: "fst ` set ts \<noteq> {0..n - 1}" "insert i (fst ` set ts) = {0..n - 1}"
  shows "arrive k (map (\<lambda>(j, d, t). (fragmentOf d m n j, t)) (ts @ [(i, d', t)])) bufs =
    Inr (bufs, [(fragmentOf d' m n i)\<lparr>byteLength := headerLength d' + n * room\<rparr>])"
proof -
  define gs where "gs = map (\<lambda>(j, d, t). (nat j, fragmentOf d m n j, t)) ts"
  obtain N where N: "n = int N" "2 \<le> N" using room(3) by (metis nat_0_le nat_le_eq_zle nat_numeral order_trans zero_le_numeral)
  have range: "0 \<le> j \<and> j < n" if "(j, d, t) \<in> set ts \<or> j = i" for j d t
  proof -
    from that have "j \<in> insert i (fst ` set ts)" by force
    then show ?thesis unfolding all(2) by auto
  qed
  have piece: "isPiece (fragCuts room N) (nat j) (fragmentOf d m n j)"
    if "0 \<le> j" "j < n" "headerLength d = headerLength d'" "encapsulatedMsg d \<noteq> None" for j d
    using isPiece_fragmentOf [of room m d "nat j" N] that room(1) N by simp
  have fst: "fst ` set gs = nat ` fst ` set ts" unfolding gs_def by force
  have ins: "insert (nat i) (fst ` set gs) = {..<N}"
    using all(2) fragment_range [of n] N unfolding fst by (metis image_insert nat_int of_nat_0_less_iff zero_less_numeral order_less_le_trans)
  have part: "fst ` set gs \<noteq> {..<N}"
  proof
    assume "fst ` set gs = {..<N}"
    then have "nat ` fst ` set ts = nat ` {0..n - 1}" using fst fragment_range [of n] N by simp
    moreover have "inj_on nat {0..n - 1}" "fst ` set ts \<subseteq> {0..n - 1}" using all(2) by (auto simp: inj_on_def)
    ultimately have "fst ` set ts = {0..n - 1}" by (metis inj_on_image_eq_iff order_refl)
    with all(1) show False by simp
  qed
  have map: "map (\<lambda>(j, d, t). (fragmentOf d m n j, t)) ts = map snd gs" unfolding gs_def by auto
  have "srcAddress (fragmentOf d m n j) = srcAddress d" "destAddress (fragmentOf d m n j) = destAddress d"
    "headerLength (fragmentOf d m n j) = headerLength d" for d j by (simp_all add: fragmentOf_def)
  note sel = this
  have "uint (fragCuts room N ! N) = n * room"
    using uint_cut [of room N N] room N by (simp add: fragCuts_nth)
  moreover have "arrive k (map snd gs @ [(fragmentOf d' m n i, t)]) bufs =
      Inr (bufs, [(fragmentOf d' m n i)\<lparr>byteLength := headerLength (fragmentOf d' m n i) +
        uint (fragCuts room N ! pieces (fragCuts room N))\<rparr>])"
  proof (rule arrive_all [where src = "srcAddress d'" and dest = "destAddress d'"])
    show "cutsOk (fragCuts room N)" using fragCuts_ok [of room N] room N by simp
    show "isPiece (fragCuts room N) j g \<and> srcAddress g = srcAddress d' \<and> destAddress g = destAddress d'"
      if "(j, g, t) \<in> set gs" for j g t
      using that ts range piece unfolding gs_def by (force simp: sel)
    show "isPiece (fragCuts room N) (nat i) (fragmentOf d' m n i)" using piece [of i d'] range d' by simp
  qed (use N(2) part ins fresh in \<open>simp_all add: sel\<close>)
  ultimately show ?thesis by (simp add: map sel)
qed

text \<open>What a datagram is cut into.\<close>

lemma fragments_sent:
  fixes n :: int
  assumes "headerLength d < mtu ie" "mtu ie < byteLength d" "\<not> dontFragment d" "0 < timeToLive d"
    and "room = mtu ie - headerLength d" "n = (byteLength d - headerLength d) div room + 1" "n * room < 65536"
  shows "fragmentAndSend d ie nh ip = Inr (ip\<lparr>ip_sent := ip_sent ip @
      map (\<lambda>j. ToQueueOut (fragmentOf d (mtu ie) n j) (interfaceId ie) nh) [0..n - 1]\<rparr>)"
    and "2 \<le> n" and "byteLength d < headerLength d + n * room"
proof -
  let ?payload = "byteLength d - headerLength d"
  have room: "0 < room" "room < ?payload" using assms(1,2,5) by simp_all
  then have q: "1 \<le> ?payload div room" by (metis div_self order_less_imp_le zdiv_mono1 less_irrefl)
  have "n \<le> n * room" using room q assms(6) by (simp add: mult_le_cancel_left1)
  with assms(6,7) have "?payload div room < 8388607" by linarith
  then have "noOfFragments ?payload room = n" using noOfFragments_eq [of ?payload room] room assms(6) by simp
  then show "fragmentAndSend d ie nh ip = Inr (ip\<lparr>ip_sent := ip_sent ip @
      map (\<lambda>j. ToQueueOut (fragmentOf d (mtu ie) n j) (interfaceId ie) nh) [0..n - 1]\<rparr>)"
    using assms(2,3,5) room(1) sendFragments_sent [OF assms(4)] by (simp add: fragmentAndSend_def Let_def)
  show "2 \<le> n" using q assms(6) by simp
  have "?payload < (?payload div room + 1) * room"
    using room(1) by (metis add.commute distrib_right minus_mod_eq_div_mult mult_1 pos_mod_bound
        div_mult_mod_eq add_less_cancel_left)
  then show "byteLength d < headerLength d + n * room" unfolding assms(6) by simp
qed

text \<open>C30: A datagram larger than the MTU leaves as full fragments, one more than fit whole into its
  payload. Whatever the order in which they arrive and however often, the datagram is passed on
  with the last missing one and only then, and nothing stays behind. It is always longer than the one that
  was sent, as the last fragment has full length too.\<close>

theorem fragments_reassemble:
  fixes n :: int
  assumes "headerLength d < mtu ie" "mtu ie < byteLength d" "\<not> dontFragment d" "0 < timeToLive d"
    and "encapsulatedMsg d = Some p"
    and "room = mtu ie - headerLength d" "n = (byteLength d - headerLength d) div room + 1" "n * room < 65536"
    and "fst ` set ts \<noteq> {0..n - 1}" "insert i (fst ` set ts) = {0..n - 1}"
    and "map_of bufs (k, srcAddress d, destAddress d) = None"
  shows "fragmentAndSend d ie nh ip = Inr (ip\<lparr>ip_sent := ip_sent ip @
      map (\<lambda>j. ToQueueOut (fragmentOf d (mtu ie) n j) (interfaceId ie) nh) [0..n - 1]\<rparr>) \<and>
    arrive k (map (\<lambda>(j, t). (fragmentOf d (mtu ie) n j, t)) (ts @ [(i, t)])) bufs =
      Inr (bufs, [(fragmentOf d (mtu ie) n i)\<lparr>byteLength := headerLength d + n * room\<rparr>]) \<and>
    byteLength d < headerLength d + n * room"
proof (intro conjI)
  note sent = fragments_sent [OF assms(1-4,6-8)]
  show "fragmentAndSend d ie nh ip = Inr (ip\<lparr>ip_sent := ip_sent ip @
      map (\<lambda>j. ToQueueOut (fragmentOf d (mtu ie) n j) (interfaceId ie) nh) [0..n - 1]\<rparr>)"
    "byteLength d < headerLength d + n * room" by (fact sent)+
  have room: "0 < room" using assms(1,6) by simp
  let ?ts = "map (\<lambda>(j, t). (j, d, t)) ts"
  have fst: "fst ` set ?ts = fst ` set ts" by force
  have map: "map (\<lambda>(j, t). (fragmentOf d (mtu ie) n j, t)) (ts @ [(i, t)]) =
      map (\<lambda>(j, d, t). (fragmentOf d (mtu ie) n j, t)) (?ts @ [(i, d, t)])" by auto
  show "arrive k (map (\<lambda>(j, t). (fragmentOf d (mtu ie) n j, t)) (ts @ [(i, t)])) bufs =
      Inr (bufs, [(fragmentOf d (mtu ie) n i)\<lparr>byteLength := headerLength d + n * room\<rparr>])"
    unfolding map
  proof (rule arrive_fragments [OF assms(6) room sent(2) assms(8,11)])
    show "fst ` set ?ts \<noteq> {0..n - 1}" "insert i (fst ` set ?ts) = {0..n - 1}" unfolding fst by fact+
  qed (use assms(5) in auto)
qed

text \<open>The buffer tells the fragments of different datagrams between two hosts not apart: the first
  fragments of one datagram and the last one of another of the same length make up a datagram with the
  content of the other.\<close>

theorem fragments_of_two_datagrams_mixed:
  fixes n :: int
  assumes "2 \<le> n" "room = m - headerLength d" "0 < room" "n * room < 65536"
    and "srcAddress d' = srcAddress d" "destAddress d' = destAddress d" "headerLength d' = headerLength d"
    and "encapsulatedMsg d \<noteq> None" "encapsulatedMsg d' \<noteq> None"
    and "map_of bufs (k, srcAddress d, destAddress d) = None"
  shows "arrive k (map (\<lambda>j. (fragmentOf d m n j, t)) [0..n - 2] @ [(fragmentOf d' m n (n - 1), t')]) bufs =
    Inr (bufs, [(fragmentOf d' m n (n - 1))\<lparr>byteLength := headerLength d' + n * room\<rparr>])"
proof -
  let ?ts = "map (\<lambda>j. (j, d, t)) [0..n - 2]"
  have "fst ` set ?ts = {0..n - 2}" by force
  moreover have "insert (n - 1) {0..n - 2} = {0..n - 1}" "n - 1 \<notin> {0..n - 2}" using assms(1) by auto
  ultimately have "fst ` set ?ts \<noteq> {0..n - 1}" "insert (n - 1) (fst ` set ?ts) = {0..n - 1}" by auto
  note all = this
  have map: "map (\<lambda>j. (fragmentOf d m n j, t)) [0..n - 2] @ [(fragmentOf d' m n (n - 1), t')] =
      map (\<lambda>(j, d, t). (fragmentOf d m n j, t)) (?ts @ [(n - 1, d', t')])" by simp
  show ?thesis unfolding map
    by (rule arrive_fragments [OF _ assms(3,1,4) _ _ assms(9) all]) (use assms in auto)
qed

section \<open>ICMP errors\<close>

text \<open>An error message is never answered by an error message: whichever error ICMP reports, another
  ICMP module that gets a datagram with this message reports nothing about it.\<close>

theorem no_error_about_error:
  assumes "ICMP_sendErrorMessage orig type code s = Inr s'" "type < 128"
    and "icmpSent s' = icmpSent s @ [out]" "out = IcmpSendOut msg ci \<or> out = IcmpErrorOut msg ci"
    and "transportProtocol d = IP_PROT_ICMP" "encapsulatedMsg d = Some (icmpPacket msg)"
  shows "ICMP_sendErrorMessage d type' code' r = Inr r"
proof -
  from assms(1-4) have "icmpType msg = type"
    by (auto simp: ICMP_sendErrorMessage_def Let_def res_simps ICMP_sendToIP_dest_def icmpEmit_def
        processICMPMessage_def ICMP_errorOut_def processEchoRequest_def processEchoReply_def ICMP_sendToIP_def icmp_types
        split: if_splits option.splits)
  with assms(2,5,6) show ?thesis by (simp add: ICMP_sendErrorMessage_def)
qed

lemma length_decimal: "length (decimal n) \<le> Suc k \<longleftrightarrow> n < 10 ^ Suc k"
proof (induction k arbitrary: n)
  case 0
  have "length (decimal m) \<noteq> 0" for m by (simp add: decimal.simps [of m])
  then show ?case by (simp add: decimal.simps [of n])
next
  case (Suc k)
  show ?case
  proof (cases "n < 10")
    case True
    then have "n < 10 ^ Suc (Suc k)" by (simp add: order_less_le_trans [of n 10])
    with True show ?thesis by (simp add: decimal.simps [of n])
  next
    case False
    then show ?thesis using Suc [of "n div 10"] by (simp add: decimal.simps [of n] div_less_iff_less_mult mult.commute)
  qed
qed

lemma length_decimal_digit: "n < 10 \<Longrightarrow> length (decimal n) = 1"
  by (simp add: decimal.simps)

lemma errorName_fits:
  assumes "type \<in> {ICMP_DESTINATION_UNREACHABLE, ICMP_TIME_EXCEEDED, ICMP_PARAMETER_PROBLEM}" "0 \<le> code" "code < 10" "0 \<le> c"
  shows "length (errorName c type code) < 32 \<longleftrightarrow> c < 1000000"
proof -
  have "length (printInt type) = 2" using assms(1) by (elim insertE emptyE) (simp_all add: icmp_types printInt_def decimal.simps)
  moreover have "length (printInt code) = 1" using assms(2,3) by (simp add: printInt_def length_decimal_digit)
  moreover have "length (printInt c) \<le> 6 \<longleftrightarrow> c < 1000000" using length_decimal [of "nat c" 5] assms(4)
    by (simp add: printInt_def nat_less_iff numeral_eq_Suc [symmetric])
  ultimately show ?thesis by (auto simp: errorName_def)
qed

text \<open>What ICMP reports: nothing about a multicast datagram; about a unicast one of another protocol
  one error message to its source with at most eight bytes of its data, or to the local
  protocols if the source is not set yet. The name of the message overruns its buffer when the counter has
  seven digits.\<close>

theorem icmp_error_outcome:
  assumes "type \<in> {ICMP_DESTINATION_UNREACHABLE, ICMP_TIME_EXCEEDED, ICMP_PARAMETER_PROBLEM}" "0 \<le> code" "code < 10"
    and "0 \<le> icmpCtr s" "transportProtocol orig \<noteq> IP_PROT_ICMP"
  shows "if isMulticast (destAddress orig) then ICMP_sendErrorMessage orig type code s = Inr s
    else if 999999 \<le> icmpCtr s then isl (ICMP_sendErrorMessage orig type code s)
    else \<exists>msg s'. ICMP_sendErrorMessage orig type code s = Inr s' \<and> icmpType msg = type \<and> icmpCode msg = code \<and>
      icmpEncapsulated msg = Some (datagramPacket orig) \<and>
      icmpByteLength msg = 8 + headerLength orig + min 8 (byteLength orig - headerLength orig) \<and>
      (if srcAddress orig = 0 then \<exists>ci. icmpSent s' = icmpSent s @ [IcmpErrorOut msg ci]
       else icmpSent s' = icmpSent s @ [IcmpSendOut msg (Some (IPControlInfo_new\<lparr>ciDestAddr := srcAddress orig,
         ciProtocol := IP_PROT_ICMP\<rparr>))])"
proof -
  define name where "name = errorName (icmpCtr s + 1) type code"
  define msg where "msg = \<lparr>icmpName = name, icmpType = type, icmpCode = code,
    icmpByteLength = 8 + headerLength orig + min 8 (byteLength orig - headerLength orig),
    icmpEncapsulated = Some (datagramPacket orig)\<rparr>"
  define s1 where "s1 = s\<lparr>icmpCtr := icmpCtr s + 1\<rparr>"
  have fits: "length name < 32 \<longleftrightarrow> icmpCtr s < 999999"
    using errorName_fits [OF assms(1-3), of "icmpCtr s + 1"] assms(4) by (simp add: name_def)
  have local: "processICMPMessage msg ci s1 = Inr (ICMP_errorOut msg ci s1)" for ci
    using assms(1) by (auto simp: processICMPMessage_def msg_def)
  have "(if x \<le> 8 then x else 8) = min 8 x" for x :: int by simp
  then have outcome: "ICMP_sendErrorMessage orig type code s = (if isMulticast (destAddress orig) then Inr s
    else checked (length name < 32) (UndefinedBehaviour ''sprintf(msgname)'')
      (if srcAddress orig = 0 then Inr (ICMP_errorOut msg
         (Some (IPControlInfo_new\<lparr>ciSrcAddr := 0x7F000001, ciProtocol := IP_PROT_ICMP\<rparr>)) s1)
       else Inr (ICMP_sendToIP_dest msg (srcAddress orig) s1)))"
    using assms(5) unfolding ICMP_sendErrorMessage_def Let_def s1_def [symmetric] local [symmetric] unfolding msg_def name_def
    by (simp add: s1_def)
  have msg: "icmpType msg = type \<and> icmpCode msg = code \<and> icmpEncapsulated msg = Some (datagramPacket orig) \<and>
      icmpByteLength msg = 8 + headerLength orig + min 8 (byteLength orig - headerLength orig)" by (simp add: msg_def)
  have s1: "icmpSent s1 = icmpSent s" by (simp add: s1_def)
  show ?thesis
  proof (cases "isMulticast (destAddress orig) \<or> 999999 \<le> icmpCtr s")
    case True
    with outcome fits show ?thesis by auto
  next
    case False
    then have "\<not> isMulticast (destAddress orig)" "\<not> 999999 \<le> icmpCtr s" "length name < 32" using fits by auto
    then show ?thesis unfolding outcome
      by (cases "srcAddress orig = 0") (use msg s1 in \<open>auto simp: ICMP_errorOut_def ICMP_sendToIP_dest_def icmpEmit_def intro!: exI [of _ msg]\<close>)
  qed
qed

section \<open>The protocol mapping\<close>

text \<open>A mapping as it is written in a configuration, with the blanks \<open>w\<close> wherever they may stand.\<close>

fun printMapping :: "string \<Rightarrow> (nat \<times> nat) list \<Rightarrow> string" where
  "printMapping w [] = []"
| "printMapping w ((p, g) # es) = decimal p @ CHR '':'' # w @ decimal g @ w @
     (if es = [] then [] else CHR '','' # w @ printMapping w es)"

lemma isDigit_not_isSpace: "isDigit c \<Longrightarrow> \<not> isSpace c"
  by (auto simp: isDigit_def isSpace_def)

lemma dropWhile_blanks_decimal:
  assumes "\<forall>c \<in> set w. isSpace c"
  shows "dropWhile isSpace (w @ decimal n @ s) = decimal n @ s"
proof -
  obtain c cs where "decimal n = c # cs" "isDigit c" using decimal_Cons by blast
  with assms show ?thesis by (simp add: dropWhile_append2 isDigit_not_isSpace)
qed

lemma readNumber_end: "readNumber n (decimal m) = readNumber n (decimal m @ [])" "readNumber n [] = Inr (n, [])"
    "\<not> isDigit c \<Longrightarrow> readNumber n (c # s) = Inr (n, c # s)"
  by simp_all

lemma readNumber_blanks:
  assumes "\<forall>c \<in> set w. isSpace c" "n \<le> 2147483647" "s = [] \<or> \<not> isDigit (hd s)"
  shows "readNumber 0 (decimal n @ w @ s) = Inr (n, w @ s)"
proof -
  have "readNumber n (w @ s) = Inr (n, w @ s)"
    using assms(1,3) isDigit_not_isSpace by (cases w; cases s) auto
  with readNumber_decimal [OF assms(2)] show ?thesis by simp
qed

lemma printMapping_Cons: "es \<noteq> [] \<Longrightarrow> \<exists>n s. printMapping w es = decimal n @ s"
proof (cases es)
  case (Cons e es')
  obtain p g where "e = (p, g)" by force
  with Cons have "printMapping w es = decimal p @ CHR '':'' # w @ decimal g @ w @
     (if es' = [] then [] else CHR '','' # w @ printMapping w es')" by (simp only: printMapping.simps)
  then show ?thesis by blast
qed simp

lemma parseEntries_print:
  assumes w: "\<forall>c \<in> set w. isSpace c" and es: "\<forall>(p, g) \<in> set es. p \<le> 2147483647 \<and> g \<le> 2147483647"
  shows "parseEntries acc (printMapping w es) = Inr (acc @ map (\<lambda>(p, g). (int p, int g)) es)"
  using es
proof (induction es arbitrary: acc)
  case Nil
  then show ?case by (simp add: parseEntries.simps)
next
  case (Cons e es)
  obtain p g where e: "e = (p, g)" by force
  let ?rest = "if es = [] then [] else CHR '','' # w @ printMapping w es"
  define R where "R = w @ decimal g @ w @ ?rest"
  have digits: "decimal n @ s \<noteq> [] \<and> isDigit (hd (decimal n @ s))" for n s using decimal_Cons [of n] by auto
  have p: "readNumber 0 (decimal p @ CHR '':'' # R) = Inr (p, CHR '':'' # R)"
    using readNumber_blanks [of "[]" p "CHR '':'' # R"] Cons.prems e by (simp add: isDigit_def)
  have "readNumber 0 (decimal g @ w @ ?rest) = Inr (g, w @ ?rest)"
    using readNumber_blanks [OF w, of g ?rest] Cons.prems e by (simp add: isDigit_def)
  then have g: "readNumber 0 (dropWhile isSpace R) = Inr (g, w @ ?rest)"
    "dropWhile isSpace R \<noteq> []" "isDigit (hd (dropWhile isSpace R))"
    using digits unfolding R_def dropWhile_blanks_decimal [OF w] by blast+
  have rest: "dropWhile isSpace (w @ ?rest) = ?rest"
    using w by (simp add: dropWhile_append2 isSpace_def)
  have follow: "dropWhile isSpace (w @ printMapping w es) = printMapping w es" if "es \<noteq> []"
    using printMapping_Cons [OF that, of w] dropWhile_blanks_decimal [OF w] by metis
  obtain S where S: "S = decimal p @ CHR '':'' # R" by blast
  have "parseEntries acc S =
      (if es = [] then Inr (acc @ [(int p, int g)]) else parseEntries (acc @ [(int p, int g)]) (printMapping w es))"
  proof -
    obtain T where T: "T = dropWhile isSpace R" by blast
    obtain X where X: "X = w @ ?rest" by blast
    show ?thesis unfolding parseEntries.simps [of acc S]
      using p g rest follow digits [of p "CHR '':'' # R"] unfolding S [symmetric] X [symmetric] T [symmetric]
      by (cases "es = []") (simp_all add: T [symmetric] Let_def del: dropWhile_eq_Nil_conv)
  qed
  then have "parseEntries acc (decimal p @ CHR '':'' # w @ decimal g @ w @ ?rest) =
      (if es = [] then Inr (acc @ [(int p, int g)]) else parseEntries (acc @ [(int p, int g)]) (printMapping w es))"
    unfolding S R_def .
  with Cons e show ?case by (simp split: if_splits)
qed

text \<open>A list of protocols with their gates, with any blanks between, is read as it was written, and a
  protocol goes to the gate of its first entry; one without an entry ends the simulation.\<close>

theorem protocol_mapping_roundtrip:
  assumes "\<forall>c \<in> set w. isSpace c" "\<forall>(p, g) \<in> set es. p \<le> 2147483647 \<and> g \<le> 2147483647"
  shows "\<exists>m. parseProtocolMapping (w @ printMapping w es) = Inr m \<and>
    (case map_of es q of Some g \<Rightarrow> getOutputGateForProtocol (int q) m = Inr (int g)
     | None \<Rightarrow> isl (getOutputGateForProtocol (int q) m))"
proof -
  have "dropWhile isSpace (w @ printMapping w es) = printMapping w es"
  proof (cases "es = []")
    case False
    then show ?thesis using printMapping_Cons [of es w] dropWhile_blanks_decimal [OF assms(1)] by metis
  qed (use assms(1) in simp)
  then have "parseProtocolMapping (w @ printMapping w es) = Inr (map (\<lambda>(p, g). (int p, int g)) es)"
    using parseEntries_print [OF assms, of "[]"] by (simp add: parseProtocolMapping_def)
  moreover have "case map_of es q of Some g \<Rightarrow> getOutputGateForProtocol (int q) (map (\<lambda>(p, g). (int p, int g)) es) = Inr (int g)
     | None \<Rightarrow> isl (getOutputGateForProtocol (int q) (map (\<lambda>(p, g). (int p, int g)) es))"
    by (induction es) (auto split: option.split)
  ultimately show ?thesis by blast
qed

section \<open>Up and down the stack\<close>

text \<open>What a transport protocol sends arrives, when the datagram is not cut, at the gate of its
  protocol as it was sent, with both addresses, the protocol, the flow, the packet number and the
  traffic class; a source that was not given has become the router id. The ports are not handed on.\<close>

theorem encapsulate_deliver_roundtrip:
  assumes "encapsulate name p ci ip = Inr (d, destIE)"
    and "ciProtocol ci \<notin> {IP_PROT_ICMP, IP_PROT_IP}" "- 32768 \<le> ciProtocol ci" "ciProtocol ci < 32768"
    and "getOutputGateForProtocol (ciProtocol ci) (mapping ip') = Inr gate"
  shows "\<exists>ci'. reassembleAndDeliver k now (d\<lparr>timeToLive := t, arrivalGateIndex := g\<rparr>) ip' =
      Inr (ip_emit (ToTransport gate p (Some ci')) ip') \<and>
    ciDestAddr ci' = ciDestAddr ci \<and> ciSrcAddr ci' = (if ciSrcAddr ci = 0 then routerId (ip_rt ip) else ciSrcAddr ci) \<and>
    ciProtocol ci' = ciProtocol ci \<and> ciFlowId ci' = ciFlowId ci \<and> ciPacketId ci' = ciPacketId ci \<and>
    ciLink_status ci' = ciLink_status ci \<and> ciDiffServCodePoint ci' = ciDiffServCodePoint ci \<and>
    ciDestPort ci' = 0 \<and> ciSrcPort ci' = 0 \<and> origDatagram ci' \<noteq> None"
proof -
  from assms(1) obtain src where src: "src = (if ciSrcAddr ci = 0 then routerId (ip_rt ip) else ciSrcAddr ci)"
    "srcAddress d = src" "destAddress d = ciDestAddr ci" "transportProtocol d = ciProtocol ci" "flowId d = ciFlowId ci"
    "packetId d = ciPacketId ci" "link_status d = ciLink_status ci" "diffServCodePoint d = ciDiffServCodePoint ci"
    "encapsulatedMsg d = Some p" "byteLength d = IP_HEADER_BYTES + packetLength p" "fragmentOffset d = 0" "\<not> moreFragments d"
    unfolding encapsulate_def Let_def by (auto simp: res_simps split: if_splits)
  with assms(2-5) show ?thesis
    by (intro exI [of _ "snd (projr (decapsulateIP (d\<lparr>timeToLive := t, arrivalGateIndex := g\<rparr>) ip'))"])
       (simp add: reassembleAndDeliver_def deliver_def decapsulateIP_def decapsulate_def setOrigDatagram_def
        IPControlInfo_new_def IP_HEADER_BYTES_def toShort_id Let_def)
qed

section \<open>Multicast copies\<close>

lemma getInterfaceForDestAddr_keeps:
  "multicastRoutes (fst (getInterfaceForDestAddr a rt)) = multicastRoutes rt \<and>
   IPForward (fst (getInterfaceForDestAddr a rt)) = IPForward rt"
  by (simp add: getInterfaceForDestAddr_def findBestMatchingRoute_def Let_def split: option.split prod.split)

lemma sendMulticastCopies_sent:
  assumes "ift_inv (ip_ift ip)" "srcAddress d \<noteq> 0" "0 < timeToLive d"
    and "\<forall>(i, gw) \<in> set rs. \<exists>j e. i = Some j \<and> getInterfaceById j (ip_ift ip) = Some e \<and> byteLength d \<le> mtu e"
  shows "sendMulticastCopies d from rs ip = Inr (ip\<lparr>ip_sent := ip_sent ip @
    map (\<lambda>(i, gw). ToQueueOut d (the i) gw) (filter (\<lambda>(i, gw). i \<noteq> from) rs)\<rparr>)"
  using assms(1,4)
proof (induction rs arbitrary: ip)
  case (Cons r rs)
  obtain i gw where r: "r = (i, gw)" by force
  with Cons.prems(2) obtain j e where j: "i = Some j" "getInterfaceById j (ip_ift ip) = Some e" "byteLength d \<le> mtu e" by auto
  with getInterfaceById_id [OF Cons.prems(1) j(2)] Cons r assms(2,3) show ?case
    by (simp add: withSource_def fragmentAndSend_def sendDatagramToOutput_def ip_emit_def)
qed simp

text \<open>A multicast datagram from the network that is not for this node goes out once for each multicast
  route that covers its group, but not by the interface it came in by; and if the route back
  to its source is by another interface, it goes nowhere.\<close>

theorem multicast_one_copy_per_route:
  assumes "ift_reachable (ip_ift ip)"
    and "isLocalMulticastAddress (destAddress d) (interfaces (ip_ift ip)) = Inr False"
    and "IPForward (ip_rt ip)" "\<not> isLinkLocalMulticast (destAddress d)" "srcAddress d \<noteq> 0" "0 < timeToLive d"
    and "\<forall>(i, gw) \<in> set (getMulticastRoutesFor (destAddress d) (ip_rt ip)).
      \<exists>j e. i = Some j \<and> getInterfaceById j (ip_ift ip) = Some e \<and> byteLength d \<le> mtu e"
  shows "\<exists>ip'. routeMulticastPacket k now d None (Some ie) ip = Inr ip' \<and> ip_sent ip' = ip_sent ip @
     (if snd (getInterfaceForDestAddr (srcAddress d) (ip_rt ip)) \<in> {None, Some (interfaceId ie)}
      then map (\<lambda>(i, gw). ToQueueOut d (the i) gw)
        (filter (\<lambda>(i, gw). i \<noteq> Some (interfaceId ie)) (getMulticastRoutesFor (destAddress d) (ip_rt ip))) else [])"
proof -
  obtain rt i where rt: "getInterfaceForDestAddr (srcAddress d) (ip_rt ip) = (rt, i)" by fastforce
  with getInterfaceForDestAddr_keeps [of "srcAddress d" "ip_rt ip"]
  have keeps: "getMulticastRoutesFor a rt = getMulticastRoutesFor a (ip_rt ip)" "IPForward rt = IPForward (ip_rt ip)" for a
    by (simp_all add: getMulticastRoutesFor_def)
  have "ift_inv (ip_ift (ip\<lparr>numMulticast := numMulticast ip + 1, ip_rt := rt\<rparr>))" using ift_inv_reachable [OF assms(1)] by simp
  from sendMulticastCopies_sent [OF this assms(5,6), of "getMulticastRoutesFor (destAddress d) (ip_rt ip)" "Some (interfaceId ie)"]
    assms(2-4,7) show ?thesis
    by (auto simp: routeMulticastPacket_def rt keeps Let_def)
qed

section \<open>Witnesses\<close>

definition exampleDatagram :: IPDatagram where
  "exampleDatagram = \<lparr>headerLength = 20, srcAddress = 0x0A000001, destAddress = 0x0A010001, destPort = 80, srcPort = 1025,
     transportProtocol = 17, timeToLive = 32, flowId = 0, link_status = 0, packetId = 0, moreFragments = False,
     dontFragment = False, fragmentOffset = 0, diffServCodePoint = 0, num_packets_for_this_path = 0,
     arrivalGateIndex = None, dgName = ''data'', byteLength = 1520, encapsulatedMsg = Some (TransportPacket ''data'' 1500)\<rparr>"

definition exampleLink :: InterfaceEntry where
  "exampleLink = \<lparr>interfaceId = 100, interfaceName = ''ppp0'', mtu = 576, nwLayerGateIndex = 0, broadcast = False, loopback = False, macAddr = MAC_unspecified,
     ipv4data = Some \<lparr>inetAddr = 0x0A000001, ifNetmask = 0xFF000000, ifMetric = 1, multicastGroups = []\<rparr>\<rparr>"

definition exampleICMP :: ICMP where
  "exampleICMP = \<lparr>icmpCtr = 0, icmpSent = []\<rparr>"

definition exampleIP :: IP where
  "exampleIP = \<lparr>ip_ift = InterfaceTable_new, ip_rt = setRouterId 0x0A000001 (RoutingTable_new True), ip_icmp = exampleICMP,
     mapping = [(6, 0), (17, 1)], fragbuf = [], lastCheckTime = 0, fragmentTimeoutTime = 60, defaultTimeToLive = 32,
     defaultMCTimeToLive = 32, numMulticast = 0, ip_sent = []\<rparr>"

lemma exampleDatagram_sel: "headerLength exampleDatagram = 20" "byteLength exampleDatagram = 1520" "timeToLive exampleDatagram = 32"
    "dontFragment exampleDatagram = False" "encapsulatedMsg exampleDatagram = Some (TransportPacket ''data'' 1500)"
    "mtu exampleLink = 576" "ip_sent exampleIP = []" "transportProtocol exampleDatagram = 17"
  by (simp_all add: exampleDatagram_def exampleLink_def exampleIP_def)

lemma fragments_reassemble_witness:
  "\<exists>ip'. fragmentAndSend exampleDatagram exampleLink 0 exampleIP = Inr ip' \<and> length (ip_sent ip') = 3 \<and>
     (\<exists>d'. arrive 7 (map (\<lambda>(j, t). (fragmentOf exampleDatagram 576 3 j, t)) [(2, 0), (0, 1), (1, 2)]) [] = Inr ([], [d']) \<and>
       byteLength d' = 20 + 3 * 556)"
proof -
  have "1 \<in> {0..3 - 1 :: int} - fst ` set [(2 :: int, 0 :: simtime), (0, 1)]" by simp
  then have "fst ` set [(2 :: int, 0 :: simtime), (0, 1)] \<noteq> {0..3 - 1}" by blast
  moreover have "insert 1 (fst ` set [(2 :: int, 0 :: simtime), (0, 1)]) = {0..3 - 1}"
    by auto
  ultimately have ts: "fst ` set [(2 :: int, 0 :: simtime), (0, 1)] \<noteq> {0..3 - 1}"
    "insert 1 (fst ` set [(2 :: int, 0 :: simtime), (0, 1)]) = {0..3 - 1}" by blast+
  from fragments_reassemble [where ie = exampleLink, OF _ _ _ _ exampleDatagram_sel(5) refl _ _ ts, of "[]" 7 0 exampleIP 2]
  show ?thesis by (simp add: exampleDatagram_sel upto_rec1)
qed

lemma fragments_of_two_datagrams_mixed_witness:
  "\<exists>g. arrive 7 (map (\<lambda>j. (fragmentOf exampleDatagram 576 3 j, 0)) [0..1] @
      [(fragmentOf (exampleDatagram\<lparr>encapsulatedMsg := Some (TransportPacket ''other'' 1500)\<rparr>) 576 3 2, 1)]) [] = Inr ([], [g]) \<and>
     encapsulatedMsg g = Some (TransportPacket ''other'' 1500)"
  using fragments_of_two_datagrams_mixed [of 3 556 576 exampleDatagram
      "exampleDatagram\<lparr>encapsulatedMsg := Some (TransportPacket ''other'' 1500)\<rparr>" "[]" 7 0 1]
  by (simp add: exampleDatagram_sel) (simp add: fragmentOf_def)

lemma no_error_about_error_witness:
  "\<exists>s' msg ci. ICMP_sendErrorMessage exampleDatagram ICMP_TIME_EXCEEDED 0 exampleICMP = Inr s' \<and>
     icmpSent s' = [IcmpSendOut msg ci] \<and>
     ICMP_sendErrorMessage (exampleDatagram\<lparr>transportProtocol := 1, encapsulatedMsg := Some (icmpPacket msg)\<rparr>)
       ICMP_TIME_EXCEEDED 0 exampleICMP = Inr exampleICMP"
proof -
  obtain R where R: "R = ICMP_sendErrorMessage exampleDatagram ICMP_TIME_EXCEEDED 0 exampleICMP" by blast
  have "\<not> isl R" "case icmpSent (projr R) of [IcmpSendOut msg ci] \<Rightarrow> True | _ \<Rightarrow> False" unfolding R by code_simp+
  then obtain s' msg ci where s': "R = Inr s'" "icmpSent s' = [IcmpSendOut msg ci]"
    by (cases R) (auto split: list.splits NetOutput.splits)
  moreover have "ICMP_TIME_EXCEEDED < 128" "icmpSent exampleICMP = []" by (simp_all add: icmp_types exampleICMP_def)
  ultimately show ?thesis
    using no_error_about_error [of exampleDatagram ICMP_TIME_EXCEEDED 0 exampleICMP s' "IcmpSendOut msg ci" msg ci
        "exampleDatagram\<lparr>transportProtocol := 1, encapsulatedMsg := Some (icmpPacket msg)\<rparr>"]
    unfolding R by (simp add: IP_PROT_ICMP_def)
qed

lemma icmp_error_outcome_witness:
  "\<exists>msg s'. ICMP_sendErrorMessage exampleDatagram ICMP_TIME_EXCEEDED 0 exampleICMP = Inr s' \<and> icmpByteLength msg = 36 \<and>
     icmpSent s' = [IcmpSendOut msg (Some (IPControlInfo_new\<lparr>ciDestAddr := 0x0A000001, ciProtocol := IP_PROT_ICMP\<rparr>))]"
proof -
  have "\<not> isMulticast (destAddress exampleDatagram)" "srcAddress exampleDatagram = 0x0A000001" by code_simp+
  then show ?thesis
    using icmp_error_outcome [of ICMP_TIME_EXCEEDED 0 exampleICMP exampleDatagram]
    by (simp add: exampleDatagram_sel exampleICMP_def IP_PROT_ICMP_def) blast
qed

lemma protocol_mapping_roundtrip_witness:
  "\<exists>m. parseProtocolMapping ('' '' @ printMapping '' '' [(6, 0), (17, 1)]) = Inr m \<and> getOutputGateForProtocol 17 m = Inr 1"
  using protocol_mapping_roundtrip [of "'' ''" "[(6, 0), (17, 1)]" 17] by (simp add: isSpace_def)

lemma encapsulate_deliver_roundtrip_witness:
  "\<exists>d ci'. encapsulate ''data'' (TransportPacket ''data'' 100) (IPControlInfo_new\<lparr>ciDestAddr := 0x0A010001, ciProtocol := 17\<rparr>)
       exampleIP = Inr (d, None) \<and>
     reassembleAndDeliver 7 5 (d\<lparr>timeToLive := 31, arrivalGateIndex := Some 0\<rparr>) exampleIP =
       Inr (ip_emit (ToTransport 1 (TransportPacket ''data'' 100) (Some ci')) exampleIP) \<and>
     ciSrcAddr ci' = 0x0A000001 \<and> ciDestAddr ci' = 0x0A010001"
proof -
  obtain ci where ci: "ci = IPControlInfo_new\<lparr>ciDestAddr := 0x0A010001, ciProtocol := 17\<rparr>" by blast
  obtain R where R: "R = encapsulate ''data'' (TransportPacket ''data'' 100) ci exampleIP" by blast
  have "\<not> isl R" "snd (projr R) = None" unfolding R ci by code_simp+
  then obtain d where d: "R = Inr (d, None)" by (cases R) (auto simp: prod_eq_iff)
  have ci': "ciProtocol ci = 17" "ciSrcAddr ci = 0" "ciDestAddr ci = 0x0A010001" by (simp_all add: ci IPControlInfo_new_def)
  have "routerId (ip_rt exampleIP) = 0x0A000001" "mapping exampleIP = [(6, 0), (17, 1)]"
    by (simp_all add: exampleIP_def setRouterId_def)
  with encapsulate_deliver_roundtrip [OF d [unfolded R], where ip' = exampleIP and gate = 1 and k = 7 and now = 5 and t = 31 and g = "Some 0"] ci' d show ?thesis
    unfolding ci [symmetric] R by (auto simp: IP_PROT_ICMP_def IP_PROT_IP_def)
qed

definition exampleGroup :: IPAddress where
  "exampleGroup = 0xE1000001"

definition exampleMulticast :: IP where
  "exampleMulticast = exampleIP\<lparr>
     ip_ift := (case addInterface (Some (Inr 0)) exampleLink InterfaceTable_new of Inr (ift, _) \<Rightarrow>
         (case addInterface (Some (Inr 1)) (exampleLink\<lparr>interfaceName := ''ppp1'', mtu := 1600\<rparr>) ift of Inr (ift, _) \<Rightarrow> ift)),
     ip_rt := (RoutingTable_new True)\<lparr>multicastRoutes :=
       [(1, IPRoute_new\<lparr>host := exampleGroup, netmaskOf := 0xFFFFFFFF, interfacePtr := Some 101\<rparr>)]\<rparr>\<rparr>"

lemma multicast_one_copy_per_route_witness:
  "\<exists>ip'. routeMulticastPacket 7 5 (exampleDatagram\<lparr>destAddress := exampleGroup\<rparr>) None (Some exampleLink) exampleMulticast = Inr ip' \<and>
     ip_sent ip' = [ToQueueOut (exampleDatagram\<lparr>destAddress := exampleGroup\<rparr>) 101 0]"
proof -
  obtain d where d: "d = exampleDatagram\<lparr>destAddress := exampleGroup\<rparr>" by blast
  obtain ift1 n where "addInterface (Some (Inr 0)) exampleLink InterfaceTable_new = Inr (ift1, n)"
    by (simp add: addInterface_def getInterfaceByName_def interfaces_def InterfaceTable_new_def map_filter_def)
  note ift1 = this
  have "\<not> isl (addInterface (Some (Inr 1)) (exampleLink\<lparr>interfaceName := ''ppp1'', mtu := 1600\<rparr>)
      (fst (projr (addInterface (Some (Inr 0)) exampleLink InterfaceTable_new))))" by code_simp
  then obtain ift2 m where ift2: "addInterface (Some (Inr 1)) (exampleLink\<lparr>interfaceName := ''ppp1'', mtu := 1600\<rparr>) ift1 = Inr (ift2, m)"
    unfolding ift1 by (metis fst_conv isl_def old.prod.exhaust sum.exhaust_sel sum.sel(2) sum.disc(1))
  have "ift_reachable ift2" using ift_reachable.add [OF ift_reachable.add [OF ift_reachable.new ift1] ift2] .
  moreover have "ip_ift exampleMulticast = ift2" using ift1 ift2 by (simp add: exampleMulticast_def)
  ultimately have 1: "ift_reachable (ip_ift exampleMulticast)" by simp
  have 2: "isLocalMulticastAddress (destAddress d) (interfaces (ip_ift exampleMulticast)) = Inr False"
    "IPForward (ip_rt exampleMulticast)" "\<not> isLinkLocalMulticast (destAddress d)" "srcAddress d \<noteq> 0" "0 < timeToLive d"
    "getMulticastRoutesFor (destAddress d) (ip_rt exampleMulticast) = [(Some 101, 0)]" "interfaceId exampleLink = 100"
    "snd (getInterfaceForDestAddr (srcAddress d) (ip_rt exampleMulticast)) = None" "ip_sent exampleMulticast = []"
    "map_option (\<lambda>e. byteLength d \<le> mtu e) (getInterfaceById 101 (ip_ift exampleMulticast)) = Some True"
    unfolding d by code_simp+
  then show ?thesis
    using multicast_one_copy_per_route [OF 1 2(1-5), of 7 5 exampleLink] unfolding d [symmetric] by auto
qed

end
