(* ===== verification/UDP_Module.thy ===== *)
theory UDP_Module imports Transport_Common IP_Packets
begin

text \<open>
  The UDP module: \<^verbatim>\<open>src/src/transport/udp/UDP.{h,cc}\<close>, with the control information of
  \<^verbatim>\<open>src/src/transport/contract/UDPControlInfo.msg\<close>. A pointer to a socket descriptor is a number;
  both maps of the module hold pointers, the descriptors are in a store.
\<close>

section \<open>State\<close>

record SockDesc =
  sockId :: int
  userId :: int
  appGateIndex :: int
  onlyLocalPortIsSet :: bool
  localAddr :: IPvXAddress
  remoteAddr :: IPvXAddress
  localPort :: int
  remotePort :: int
  sockInterfaceId :: int

record UDPControlInfo =
  uc_sockId :: int
  uc_userId :: int
  uc_srcAddr :: IPvXAddress
  uc_destAddr :: IPvXAddress
  uc_srcPort :: int
  uc_destPort :: int
  uc_interfaceId :: int

definition UDPControlInfo_new :: UDPControlInfo where
  "UDPControlInfo_new = \<lparr>uc_sockId = - 1, uc_userId = - 1, uc_srcAddr = unspecifiedAddress,
     uc_destAddr = unspecifiedAddress, uc_srcPort = 0, uc_destPort = 0, uc_interfaceId = - 1\<rparr>"

record UDPPacket =
  udpName :: string
  sourcePort :: int
  destinationPort :: int
  udpByteLength :: int
  udpEncapsulated :: "Packet option"
  hasBitError :: bool

definition udpPacketOf :: "UDPPacket \<Rightarrow> Packet" where
  "udpPacketOf u = UDPDatagram (udpName u) (sourcePort u) (destinationPort u) (udpByteLength u) (udpEncapsulated u)"

type_synonym IPv6Address = "uint32 \<times> uint32 \<times> uint32 \<times> uint32"

text \<open>Of the control information of IPv6 the module reads the addresses and the interface.\<close>

record IPv6ControlInfo =
  ci6_destAddr :: IPv6Address
  ci6_srcAddr :: IPv6Address
  ci6_interfaceId :: int

datatype NetControlInfo = Ctrl4 IPControlInfo | Ctrl6 IPv6ControlInfo

text \<open>\<^verbatim>\<open>IPvXAddress::set(const IPv6Address&)\<close>: the unspecified address becomes the IPv4 one.\<close>

fun IPvXAddress_set6 :: "IPv6Address \<Rightarrow> IPvXAddress" where
  "IPvXAddress_set6 (a, b, c, d) = (if (a, b, c, d) = (0, 0, 0, 0) then unspecifiedAddress else IPv6 a b c d)"

text \<open>What the module sends: data and errors to applications, packets to the two network layers, and a
  call of ICMPv6.\<close>

datatype UDPOutput =
    UdpData int Packet UDPControlInfo
  | UdpError int UDPControlInfo
  | UdpToIP UDPPacket IPControlInfo
  | UdpToIPv6 UDPPacket IPv6ControlInfo
  | UdpICMPv6Error UDPPacket IPv6ControlInfo

record UDP =
  socks :: "nat \<Rightarrow> SockDesc option"
  nextSock :: nat
  socketsByIdMap :: "int \<Rightarrow> nat option"
  socketsByPortMap :: "int \<Rightarrow> nat list option"
  lastEphemeralPort :: int
  udp_icmp :: ICMP
  numSent :: int
  numPassedUp :: int
  numDroppedWrongPort :: int
  numDroppedBadChecksum :: int
  udp_sent :: "UDPOutput list"

definition UDP_initialize :: "ICMP \<Rightarrow> UDP" where
  "UDP_initialize icmp = \<lparr>socks = Map.empty, nextSock = 0, socketsByIdMap = Map.empty,
     socketsByPortMap = Map.empty, lastEphemeralPort = EPHEMERAL_PORTRANGE_START, udp_icmp = icmp,
     numSent = 0, numPassedUp = 0, numDroppedWrongPort = 0, numDroppedBadChecksum = 0, udp_sent = []\<rparr>"

definition deref :: "nat \<Rightarrow> UDP \<Rightarrow> SockDesc res" where
  "deref p u = (case socks u p of Some sd \<Rightarrow> Inr sd | None \<Rightarrow> Inl (UndefinedBehaviour ''dangling SockDesc''))"

section \<open>Commands\<close>

definition UDP_getEphemeralPort :: "UDP \<Rightarrow> (UDP \<times> int) res" where
  "UDP_getEphemeralPort u =
     (let searchUntil = lastEphemeralPort u
      in andThen (searchEphemeral 65537 searchUntil (\<lambda>p. socketsByPortMap u p \<noteq> None)
           (nextEphemeral (lastEphemeralPort u))) (\<lambda>p.
         Inr (u\<lparr>lastEphemeralPort := p\<rparr>, p)))"

text \<open>The ports of a descriptor are of type \<^verbatim>\<open>short\<close>, those of the command of type \<^verbatim>\<open>int\<close>.\<close>

definition UDP_bind :: "int \<Rightarrow> UDPControlInfo \<Rightarrow> UDP \<Rightarrow> UDP res" where
  "UDP_bind gateIndex ctrl u =
     (let sd = \<lparr>sockId = uc_sockId ctrl, userId = uc_userId ctrl, appGateIndex = gateIndex,
        onlyLocalPortIsSet = False, localAddr = uc_srcAddr ctrl, remoteAddr = uc_destAddr ctrl,
        localPort = toShort (uc_srcPort ctrl), remotePort = toShort (uc_destPort ctrl),
        sockInterfaceId = uc_interfaceId ctrl\<rparr>
      in if sockId sd = - 1 then Inl (OppError ''sockId in BIND message not filled in'')
         else andThen (if localPort sd = 0 then UDP_getEphemeralPort u else Inr (u, localPort sd)) (\<lambda>(u, lp).
           let sd = sd\<lparr>localPort := lp\<rparr>;
             sd = sd\<lparr>onlyLocalPortIsSet := isUnspecified (localAddr sd) \<and> isUnspecified (remoteAddr sd) \<and>
               remotePort sd = 0 \<and> sockInterfaceId sd = - 1\<rparr>
           in checked (socketsByIdMap u (sockId sd) = None) (AssertFailed ''socketsByIdMap.find(sd->sockId)'')
             (let p = nextSock u;
                list = (case socketsByPortMap u (localPort sd) of None \<Rightarrow> [] | Some l \<Rightarrow> l)
              in Inr (u\<lparr>socks := (socks u)(p \<mapsto> sd), nextSock := p + 1,
                socketsByIdMap := (socketsByIdMap u)(sockId sd \<mapsto> p),
                socketsByPortMap := (socketsByPortMap u)(localPort sd \<mapsto> list @ [p])\<rparr>))))"

definition UDP_connect :: "int \<Rightarrow> IPvXAddress \<Rightarrow> int \<Rightarrow> UDP \<Rightarrow> UDP res" where
  "UDP_connect sid addr port u = (case socketsByIdMap u sid of
     None \<Rightarrow> Inl (OppError ''socket id doesn't exist (already closed?)'')
   | Some p \<Rightarrow>
       if isUnspecified addr then Inl (OppError ''connect: unspecified remote address'')
       else if port \<le> 0 \<or> 65535 < port then Inl (OppError ''connect: invalid remote port number'')
       else andThen (deref p u) (\<lambda>sd.
         Inr (u\<lparr>socks := (socks u)(p \<mapsto> sd\<lparr>remoteAddr := addr, remotePort := toShort port,
           onlyLocalPortIsSet := False\<rparr>)\<rparr>)))"

definition UDP_unbind :: "int \<Rightarrow> UDP \<Rightarrow> UDP res" where
  "UDP_unbind sid u = (case socketsByIdMap u sid of
     None \<Rightarrow> Inl (OppError ''socket id doesn't exist (already closed?)'')
   | Some p \<Rightarrow> andThen (deref p u) (\<lambda>sd.
       let list = (case socketsByPortMap u (localPort sd) of None \<Rightarrow> [] | Some l \<Rightarrow> l);
         list = remove1 p list
       in Inr (u\<lparr>socketsByIdMap := (socketsByIdMap u)(sid := None),
            socketsByPortMap := (socketsByPortMap u)(localPort sd := (if list = [] then None else Some list)),
            socks := (socks u)(p := None)\<rparr>)))"

datatype UDPCommand = UDP_C_BIND | UDP_C_CONNECT | UDP_C_UNBIND | UDP_C_UNKNOWN

definition processCommandFromApp :: "int \<Rightarrow> UDPCommand \<Rightarrow> UDPControlInfo \<Rightarrow> UDP \<Rightarrow> UDP res" where
  "processCommandFromApp gate kind ctrl u = (case kind of
     UDP_C_BIND \<Rightarrow> UDP_bind gate ctrl u
   | UDP_C_CONNECT \<Rightarrow> UDP_connect (uc_sockId ctrl) (uc_destAddr ctrl) (uc_destPort ctrl) u
   | UDP_C_UNBIND \<Rightarrow> UDP_unbind (uc_sockId ctrl) u
   | UDP_C_UNKNOWN \<Rightarrow> Inl (OppError ''unknown command code received from app''))"

section \<open>Sending\<close>

definition UDP_HEADER_BYTES :: int where "UDP_HEADER_BYTES = 8"
definition IP_PROT_UDP :: int where "IP_PROT_UDP = 17"

definition processMsgFromApp :: "string \<Rightarrow> Packet \<Rightarrow> UDPControlInfo \<Rightarrow> UDP \<Rightarrow> UDP res" where
  "processMsgFromApp name appData ctrl u =
     (let udpPacket = \<lparr>udpName = name, sourcePort = uc_srcPort ctrl, destinationPort = uc_destPort ctrl,
        udpByteLength = UDP_HEADER_BYTES + packetLength appData, udpEncapsulated = Some appData, hasBitError = False\<rparr>
      in andThen (if \<not> isIPv6 (uc_destAddr ctrl)
            then andThen (get4 (uc_srcAddr ctrl)) (\<lambda>src. andThen (get4 (uc_destAddr ctrl)) (\<lambda>dest.
              Inr (UdpToIP udpPacket (IPControlInfo_new\<lparr>ciProtocol := IP_PROT_UDP, ciSrcAddr := src,
                ciDestAddr := dest, ciInterfaceId := uc_interfaceId ctrl\<rparr>))))
            else andThen (get6 (uc_srcAddr ctrl)) (\<lambda>src. andThen (get6 (uc_destAddr ctrl)) (\<lambda>dest.
              Inr (UdpToIPv6 udpPacket \<lparr>ci6_destAddr = dest, ci6_srcAddr = src, ci6_interfaceId = - 1\<rparr>)))) (\<lambda>out.
         Inr (u\<lparr>udp_sent := udp_sent u @ [out], numSent := numSent u + 1\<rparr>)))"

section \<open>Packets from the network\<close>

text \<open>A comparison of an address of the socket, if it is set, with one of the packet.\<close>

definition sockAddrMatches :: "(IPvXAddress \<Rightarrow> 'a res) \<Rightarrow> IPvXAddress \<Rightarrow> 'a \<Rightarrow> bool res" where
  "sockAddrMatches get a b = (if isUnspecified a then Inr True else andThen (get a) (\<lambda>a. Inr (a = b)))"

definition matchesSocket4 :: "SockDesc \<Rightarrow> UDPPacket \<Rightarrow> IPControlInfo \<Rightarrow> bool res" where
  "matchesSocket4 sd udp ipCtrl =
     (if remotePort sd \<noteq> 0 \<and> remotePort sd \<noteq> sourcePort udp then Inr False
      else andThen (sockAddrMatches get4 (localAddr sd) (ciDestAddr ipCtrl)) (\<lambda>b.
        if \<not> b then Inr False
        else andThen (sockAddrMatches get4 (remoteAddr sd) (ciSrcAddr ipCtrl)) (\<lambda>b.
          if \<not> b then Inr False
          else if sockInterfaceId sd \<noteq> - 1 \<and> sockInterfaceId sd \<noteq> ciInterfaceId ipCtrl then Inr False
          else Inr True)))"

definition matchesSocket6 :: "SockDesc \<Rightarrow> UDPPacket \<Rightarrow> IPv6ControlInfo \<Rightarrow> bool res" where
  "matchesSocket6 sd udp ipCtrl =
     (if remotePort sd \<noteq> 0 \<and> remotePort sd \<noteq> sourcePort udp then Inr False
      else andThen (sockAddrMatches get6 (localAddr sd) (ci6_destAddr ipCtrl)) (\<lambda>b.
        if \<not> b then Inr False
        else andThen (sockAddrMatches get6 (remoteAddr sd) (ci6_srcAddr ipCtrl)) (\<lambda>b.
          if \<not> b then Inr False
          else if sockInterfaceId sd \<noteq> - 1 \<and> sockInterfaceId sd \<noteq> ci6_interfaceId ipCtrl then Inr False
          else Inr True)))"

text \<open>The control information that goes up with a packet.\<close>

definition upCtrl4 :: "UDPPacket \<Rightarrow> IPControlInfo \<Rightarrow> SockDesc \<Rightarrow> UDPControlInfo" where
  "upCtrl4 udp ipCtrl sd = \<lparr>uc_sockId = sockId sd, uc_userId = userId sd, uc_srcAddr = IPv4 (ciSrcAddr ipCtrl),
     uc_destAddr = IPv4 (ciDestAddr ipCtrl), uc_srcPort = sourcePort udp, uc_destPort = destinationPort udp,
     uc_interfaceId = ciInterfaceId ipCtrl\<rparr>"

definition upCtrl6 :: "UDPPacket \<Rightarrow> IPv6ControlInfo \<Rightarrow> SockDesc \<Rightarrow> UDPControlInfo" where
  "upCtrl6 udp ipCtrl sd = \<lparr>uc_sockId = sockId sd, uc_userId = userId sd,
     uc_srcAddr = IPvXAddress_set6 (ci6_srcAddr ipCtrl), uc_destAddr = IPvXAddress_set6 (ci6_destAddr ipCtrl),
     uc_srcPort = sourcePort udp, uc_destPort = destinationPort udp, uc_interfaceId = ci6_interfaceId ipCtrl\<rparr>"

definition sendUp :: "Packet option \<Rightarrow> UDPControlInfo \<Rightarrow> SockDesc \<Rightarrow> UDP \<Rightarrow> UDP res" where
  "sendUp payload udpCtrl sd u = (case payload of None \<Rightarrow> Inl (NullPointer ''payload->dup()'')
     | Some p \<Rightarrow> Inr (u\<lparr>udp_sent := udp_sent u @ [UdpData (appGateIndex sd) p udpCtrl], numPassedUp := numPassedUp u + 1\<rparr>))"

text \<open>A copy for every socket of the list that matches; the result has the number of matches.\<close>

fun deliverCopies :: "(SockDesc \<Rightarrow> bool res) \<Rightarrow> (SockDesc \<Rightarrow> UDPControlInfo) \<Rightarrow> Packet option \<Rightarrow> nat list \<Rightarrow> UDP \<Rightarrow>
    (UDP \<times> nat) res" where
  "deliverCopies match ctrl payload [] u = Inr (u, 0)"
| "deliverCopies match ctrl payload (p # ps) u = andThen (deref p u) (\<lambda>sd.
     andThen (if onlyLocalPortIsSet sd then Inr True else match sd) (\<lambda>b.
     if b then andThen (sendUp payload (ctrl sd) sd u) (\<lambda>u.
         andThen (deliverCopies match ctrl payload ps u) (\<lambda>(u, n). Inr (u, n + 1)))
     else deliverCopies match ctrl payload ps u))"

definition ICMP_DU_PORT_UNREACHABLE :: int where "ICMP_DU_PORT_UNREACHABLE = 3"

text \<open>
  \<open>attached\<close> is the control information that is still attached to the packet. The test for IPv6 looks at it
  and not at \<^verbatim>\<open>ctrl\<close>.
\<close>

definition processUndeliverablePacket ::
  "UDPPacket \<Rightarrow> NetControlInfo option \<Rightarrow> NetControlInfo option \<Rightarrow> UDP \<Rightarrow> UDP res" where
  "processUndeliverablePacket udp ctrl attached u =
     (let u = u\<lparr>numDroppedWrongPort := numDroppedWrongPort u + 1\<rparr>
      in case ctrl of
           Some (Ctrl4 ctrl4) \<Rightarrow>
             if isMulticast (ciDestAddr ctrl4) then Inr u
             else andThen (ICMP_sendErrorMessage_transport (udpPacketOf udp) ctrl4 ICMP_DESTINATION_UNREACHABLE
               ICMP_DU_PORT_UNREACHABLE (udp_icmp u)) (\<lambda>icmp. Inr (u\<lparr>udp_icmp := icmp\<rparr>))
         | _ \<Rightarrow> (case attached of
               Some (Ctrl6 ctrl6) \<Rightarrow> Inr (u\<lparr>udp_sent := udp_sent u @ [UdpICMPv6Error udp ctrl6]\<rparr>)
             | _ \<Rightarrow> Inl (OppError ''arrived from lower layer without control info'')))"

definition processUDPPacket :: "UDPPacket \<Rightarrow> NetControlInfo option \<Rightarrow> UDP \<Rightarrow> UDP res" where
  "processUDPPacket udp info u =
     (if hasBitError udp then Inr (u\<lparr>numDroppedBadChecksum := numDroppedBadChecksum u + 1\<rparr>)
      else let ctrl = info; attached = None
        in case socketsByPortMap u (destinationPort udp) of
             None \<Rightarrow> processUndeliverablePacket udp ctrl attached u
           | Some list \<Rightarrow>
               andThen (case ctrl of
                   Some (Ctrl4 ctrl4) \<Rightarrow>
                     deliverCopies (\<lambda>sd. matchesSocket4 sd udp ctrl4) (upCtrl4 udp ctrl4) (udpEncapsulated udp) list u
                 | _ \<Rightarrow> (case attached of
                     Some (Ctrl6 ctrl6) \<Rightarrow>
                       deliverCopies (\<lambda>sd. matchesSocket6 sd udp ctrl6) (upCtrl6 udp ctrl6) (udpEncapsulated udp) list u
                   | _ \<Rightarrow> Inl (OppError ''arrived from lower layer without control info''))) (\<lambda>(u, matches).
               if matches = 0 then processUndeliverablePacket udp ctrl attached u else Inr u))"

section \<open>ICMP errors\<close>

text \<open>
  The comparison of two addresses is undefined if it reads words that were never set. The ports are
  compared the wrong way round.
\<close>

definition addrEqual :: "IPvXAddress \<Rightarrow> IPvXAddress \<Rightarrow> bool res" where
  "addrEqual a b = (case addr_equals a b of Some r \<Rightarrow> Inr r
     | None \<Rightarrow> Inl (UndefinedBehaviour ''uninitialised words of an IPvXAddress''))"

definition matchesSocketError :: "SockDesc \<Rightarrow> IPvXAddress \<Rightarrow> IPvXAddress \<Rightarrow> int \<Rightarrow> bool res" where
  "matchesSocketError sd la ra rp =
     (if \<not> (remotePort sd = 0 \<or> remotePort sd \<noteq> rp) then Inr False
      else andThen (if isUnspecified (localAddr sd) then Inr True else addrEqual (localAddr sd) la) (\<lambda>b.
        if \<not> b then Inr False
        else if isUnspecified (remoteAddr sd) then Inr True else addrEqual (remoteAddr sd) ra))"

text \<open>The last socket of the list that matches.\<close>

fun findErrorSocket :: "IPvXAddress \<Rightarrow> IPvXAddress \<Rightarrow> int \<Rightarrow> nat list \<Rightarrow> SockDesc option \<Rightarrow> UDP \<Rightarrow> SockDesc option res" where
  "findErrorSocket la ra rp [] srcSocket u = Inr srcSocket"
| "findErrorSocket la ra rp (p # ps) srcSocket u = andThen (deref p u) (\<lambda>sd.
     andThen (if onlyLocalPortIsSet sd then Inr True else matchesSocketError sd la ra rp) (\<lambda>b.
     findErrorSocket la ra rp ps (if b then Some sd else srcSocket) u))"

definition sendUpErrorNotification :: "SockDesc \<Rightarrow> IPvXAddress \<Rightarrow> IPvXAddress \<Rightarrow> int \<Rightarrow> UDP \<Rightarrow> UDP" where
  "sendUpErrorNotification sd la ra rp u = u\<lparr>udp_sent := udp_sent u @ [UdpError (appGateIndex sd)
     (UDPControlInfo_new\<lparr>uc_sockId := sockId sd, uc_userId := userId sd, uc_srcAddr := la, uc_destAddr := ra,
       uc_srcPort := localPort sd, uc_destPort := rp\<rparr>)]\<rparr>"

text \<open>An error message of either version; of an IPv6 datagram the addresses and the packet are read.\<close>

datatype ICMPErrorMessage =
    Error4 ICMPMessage
  | Error6 "(IPv6Address \<times> IPv6Address \<times> Packet option) option"

fun castUDP :: "Packet option \<Rightarrow> (int \<times> int) res" where
  "castUDP (Some (UDPDatagram n sp dp l e)) = Inr (sp, dp)"
| "castUDP _ = Inl (KernelError ''check_and_cast: not a UDPPacket'')"

fun errorDetails :: "ICMPErrorMessage \<Rightarrow> (IPvXAddress \<times> IPvXAddress \<times> int \<times> int) res" where
  "errorDetails (Error4 m) = (case icmpEncapsulated m of
     Some (DatagramPacket n h l e) \<Rightarrow>
       andThen (castUDP e) (\<lambda>(sp, dp). Inr (IPv4 (srcAddress h), IPv4 (destAddress h), sp, dp))
   | _ \<Rightarrow> Inl (KernelError ''check_and_cast: not an IPDatagram''))"
| "errorDetails (Error6 None) = Inl (KernelError ''check_and_cast: not an IPv6Datagram'')"
| "errorDetails (Error6 (Some (src, dest, e))) =
     andThen (castUDP e) (\<lambda>(sp, dp). Inr (IPvXAddress_set6 src, IPvXAddress_set6 dest, sp, dp))"

definition processICMPError :: "ICMPErrorMessage \<Rightarrow> UDP \<Rightarrow> UDP res" where
  "processICMPError msg u = andThen (errorDetails msg) (\<lambda>(la, ra, lp, rp).
     case socketsByPortMap u lp of
       None \<Rightarrow> Inr u
     | Some list \<Rightarrow> andThen (findErrorSocket la ra (toShort rp) list None u) (\<lambda>srcSocket.
         case srcSocket of None \<Rightarrow> Inr u
         | Some sd \<Rightarrow> Inr (sendUpErrorNotification sd la ra (toShort rp) u)))"

section \<open>Messages\<close>

datatype UDPMessage =
    FromNetwork UDPPacket "NetControlInfo option"
  | ICMPError ICMPErrorMessage
  | AppData string Packet UDPControlInfo
  | AppCommand int UDPCommand UDPControlInfo

definition UDP_handleMessage :: "UDPMessage \<Rightarrow> UDP \<Rightarrow> UDP res" where
  "UDP_handleMessage msg u = (case msg of
     FromNetwork udp info \<Rightarrow> processUDPPacket udp info u
   | ICMPError e \<Rightarrow> processICMPError e u
   | AppData name p ctrl \<Rightarrow> processMsgFromApp name p ctrl u
   | AppCommand gate kind ctrl \<Rightarrow> processCommandFromApp gate kind ctrl u)"

end
