(* ===== verification/UDP_Props.thy ===== *)
theory UDP_Props imports UDP_Module
begin

text \<open>
  Properties of the UDP module: the two tables of its sockets agree in every reachable state, which
  sockets get a packet and an error, and what becomes of ports that do not fit into a \<^verbatim>\<open>short\<close>.
\<close>

section \<open>The tables\<close>

inductive udp_reachable :: "UDP \<Rightarrow> bool" where
  init: "udp_reachable (UDP_initialize icmp)"
| step: "udp_reachable u \<Longrightarrow> UDP_handleMessage msg u = Inr u' \<Longrightarrow> udp_reachable u'"

definition portList :: "UDP \<Rightarrow> int \<Rightarrow> nat list" where
  "portList u q = (case socketsByPortMap u q of None \<Rightarrow> [] | Some l \<Rightarrow> l)"

definition boundTo :: "UDP \<Rightarrow> int \<Rightarrow> nat set" where
  "boundTo u q = {p. \<exists>sd. socks u p = Some sd \<and> localPort sd = q}"

definition onlyPort :: "SockDesc \<Rightarrow> bool" where
  "onlyPort sd \<longleftrightarrow> isUnspecified (localAddr sd) \<and> isUnspecified (remoteAddr sd) \<and> remotePort sd = 0 \<and>
     sockInterfaceId sd = - 1"

definition sockOk :: "SockDesc \<Rightarrow> bool" where
  "sockOk sd \<longleftrightarrow> (onlyLocalPortIsSet sd \<longleftrightarrow> onlyPort sd) \<and> localPort sd \<noteq> 0 \<and> - 32768 \<le> localPort sd \<and> localPort sd < 32768"

definition udp_inv :: "UDP \<Rightarrow> bool" where
  "udp_inv u \<longleftrightarrow>
     (\<forall>i p. socketsByIdMap u i = Some p \<longleftrightarrow> (\<exists>sd. socks u p = Some sd \<and> sockId sd = i)) \<and>
     (\<forall>q. socketsByPortMap u q \<noteq> Some [] \<and> distinct (portList u q) \<and> set (portList u q) = boundTo u q) \<and>
     (\<forall>p sd. socks u p = Some sd \<longrightarrow> p < nextSock u \<and> sockOk sd) \<and> isEphemeral (lastEphemeralPort u)"

definition tables where
  "tables u = (socks u, nextSock u, socketsByIdMap u, socketsByPortMap u, lastEphemeralPort u)"

lemma tables_inv: "tables u' = tables u \<Longrightarrow> udp_inv u' = udp_inv u"
  by (simp add: tables_def udp_inv_def portList_def boundTo_def)

lemma portList_Some: "socketsByPortMap u q = Some l \<Longrightarrow> portList u q = l"
  by (simp add: portList_def)

lemma udp_inv_init: "udp_inv (UDP_initialize icmp)"
  by (simp add: udp_inv_def UDP_initialize_def portList_def boundTo_def isEphemeral_def)

lemma udp_inv_fresh: "udp_inv u \<Longrightarrow> socks u (nextSock u) = None"
  unfolding udp_inv_def by (metis less_irrefl not_Some_eq)

text \<open>Binding puts a new descriptor into both tables.\<close>

lemma udp_inv_insert:
  assumes inv: "udp_inv u" and sd: "sockOk sd" "socketsByIdMap u (sockId sd) = None"
  shows "udp_inv (u\<lparr>socks := (socks u)(nextSock u \<mapsto> sd), nextSock := nextSock u + 1,
     socketsByIdMap := (socketsByIdMap u)(sockId sd \<mapsto> nextSock u),
     socketsByPortMap := (socketsByPortMap u)(localPort sd \<mapsto> portList u (localPort sd) @ [nextSock u])\<rparr>)"
    (is "udp_inv ?u")
proof -
  note fresh = udp_inv_fresh [OF inv]
  have old: "sockId sd' \<noteq> sockId sd" if "socks u p = Some sd'" for p sd'
    using inv sd(2) that unfolding udp_inv_def by (metis not_None_eq)
  have ids: "socketsByIdMap ?u i = Some p \<longleftrightarrow> (\<exists>sd'. socks ?u p = Some sd' \<and> sockId sd' = i)" for i p
    using inv old fresh unfolding udp_inv_def by (cases "p = nextSock u"; cases "i = sockId sd") auto
  have bound: "boundTo ?u q = (if q = localPort sd then insert (nextSock u) (boundTo u q) else boundTo u q)" for q
    using fresh by (auto simp: boundTo_def)
  have "nextSock u \<notin> boundTo u q" for q using fresh by (simp add: boundTo_def)
  with inv bound have ports: "socketsByPortMap ?u q \<noteq> Some [] \<and> distinct (portList ?u q) \<and> set (portList ?u q) = boundTo ?u q" for q
    unfolding udp_inv_def by (cases "q = localPort sd") (auto simp: portList_def)
  have "p < nextSock ?u \<and> sockOk sd'" if "socks ?u p = Some sd'" for p sd'
    using inv that sd(1) unfolding udp_inv_def by (auto split: if_splits simp: less_Suc_eq)
  with ids ports inv show ?thesis unfolding udp_inv_def by simp
qed

lemma udp_inv_ephemeral:
  assumes "udp_inv u" "UDP_getEphemeralPort u = Inr (u', p)"
  shows "udp_inv u'" "isEphemeral p" "socketsByPortMap u p = None" "u' = u\<lparr>lastEphemeralPort := p\<rparr>"
proof -
  have "isEphemeral (lastEphemeralPort u)" using assms(1) by (simp add: udp_inv_def)
  from searchEphemeral_all [OF this, of "\<lambda>p. socketsByPortMap u p \<noteq> None"] assms(2)
  show *: "isEphemeral p" "socketsByPortMap u p = None" "u' = u\<lparr>lastEphemeralPort := p\<rparr>"
    by (auto simp: UDP_getEphemeralPort_def)
  with assms(1) show "udp_inv u'" by (simp add: udp_inv_def portList_def boundTo_def)
qed

lemma udp_inv_bind:
  assumes "udp_inv u" "UDP_bind g ctrl u = Inr u'"
  shows "udp_inv u'"
proof -
  let ?sd = "\<lambda>lp. \<lparr>sockId = uc_sockId ctrl, userId = uc_userId ctrl, appGateIndex = g,
      onlyLocalPortIsSet = isUnspecified (uc_srcAddr ctrl) \<and> isUnspecified (uc_destAddr ctrl) \<and>
        toShort (uc_destPort ctrl) = 0 \<and> uc_interfaceId ctrl = - 1, localAddr = uc_srcAddr ctrl,
      remoteAddr = uc_destAddr ctrl, localPort = lp, remotePort = toShort (uc_destPort ctrl),
      sockInterfaceId = uc_interfaceId ctrl\<rparr>"
  have ok: "sockOk (?sd lp)" if "lp \<noteq> 0" "- 32768 \<le> lp" "lp < 32768" for lp
    using that by (simp add: sockOk_def onlyPort_def)
  from assms(2) obtain u1 lp where u1: "(if toShort (uc_srcPort ctrl) = 0 then UDP_getEphemeralPort u
      else Inr (u, toShort (uc_srcPort ctrl))) = Inr (u1, lp)" "socketsByIdMap u1 (uc_sockId ctrl) = None"
    "u' = u1\<lparr>socks := (socks u1)(nextSock u1 \<mapsto> ?sd lp), nextSock := nextSock u1 + 1,
      socketsByIdMap := (socketsByIdMap u1)(uc_sockId ctrl \<mapsto> nextSock u1),
      socketsByPortMap := (socketsByPortMap u1)(lp \<mapsto> portList u1 lp @ [nextSock u1])\<rparr>"
    unfolding UDP_bind_def Let_def portList_def
    by (auto simp: res_simps checked_Inr_iff split_paired_all split: if_splits)
  have "udp_inv u1 \<and> lp \<noteq> 0 \<and> - 32768 \<le> lp \<and> lp < 32768"
    using u1(1) assms(1) udp_inv_ephemeral [OF assms(1)] toShort_range [of "uc_srcPort ctrl"]
    by (auto simp: isEphemeral_def split: if_splits)
  with udp_inv_insert [of u1 "?sd lp"] ok u1(2,3) show ?thesis by simp
qed

lemma udp_inv_connect:
  assumes inv: "udp_inv u" and "UDP_connect sid addr port u = Inr u'"
  shows "udp_inv u'"
proof -
  from assms(2) obtain p sd where p: "socketsByIdMap u sid = Some p" "\<not> isUnspecified addr" "socks u p = Some sd"
    "u' = u\<lparr>socks := (socks u)(p \<mapsto> sd\<lparr>remoteAddr := addr, remotePort := toShort port, onlyLocalPortIsSet := False\<rparr>)\<rparr>"
    by (auto simp: UDP_connect_def res_simps deref_def split: option.splits if_splits)
  have "boundTo u' q = boundTo u q" for q using p(3,4) by (auto simp: boundTo_def)
  moreover have "portList u' q = portList u q" for q using p(4) by (simp add: portList_def)
  moreover have "socketsByIdMap u' i = Some p' \<longleftrightarrow> (\<exists>sd. socks u' p' = Some sd \<and> sockId sd = i)" for i p'
    using inv p unfolding udp_inv_def by (cases "p' = p") auto
  moreover have "p' < nextSock u' \<and> sockOk sd'" if "socks u' p' = Some sd'" for p' sd'
    using inv p that unfolding udp_inv_def by (auto simp: sockOk_def onlyPort_def split: if_splits)
  ultimately show ?thesis using inv p(4) unfolding udp_inv_def by simp
qed

lemma udp_inv_unbind:
  assumes inv: "udp_inv u" and "UDP_unbind sid u = Inr u'"
  shows "udp_inv u'"
proof -
  from assms(2) obtain p sd where p: "socketsByIdMap u sid = Some p" "socks u p = Some sd"
    "u' = u\<lparr>socketsByIdMap := (socketsByIdMap u)(sid := None),
       socketsByPortMap := (socketsByPortMap u)(localPort sd := (if remove1 p (portList u (localPort sd)) = [] then None
         else Some (remove1 p (portList u (localPort sd))))), socks := (socks u)(p := None)\<rparr>"
    by (auto simp: UDP_unbind_def res_simps deref_def Let_def portList_def split: option.splits)
  have sid: "sockId sd = sid" using inv p(1,2) unfolding udp_inv_def by auto
  have ids: "socketsByIdMap u' i = Some p' \<longleftrightarrow> (\<exists>sd. socks u' p' = Some sd \<and> sockId sd = i)" for i p'
  proof -
    have other: "sockId sd' \<noteq> sid" if "socks u p' = Some sd'" "p' \<noteq> p" for sd'
      using inv p(1) that unfolding udp_inv_def by (metis option.inject)
    show ?thesis using inv p(2,3) sid other unfolding udp_inv_def by (cases "p' = p"; cases "i = sid") auto
  qed
  have "boundTo u' q = (if q = localPort sd then boundTo u q - {p} else boundTo u q)" for q
    using p(2,3) by (auto simp: boundTo_def)
  moreover have "portList u' q = (if q = localPort sd then remove1 p (portList u q) else portList u q)" for q
    using p(3) by (simp add: portList_def)
  ultimately have ports: "socketsByPortMap u' q \<noteq> Some [] \<and> distinct (portList u' q) \<and> set (portList u' q) = boundTo u' q" for q
    using inv p(3) unfolding udp_inv_def by (cases "q = localPort sd") (auto simp: distinct_remove1)
  have "p' < nextSock u' \<and> sockOk sd'" if "socks u' p' = Some sd'" for p' sd'
    using inv p(3) that unfolding udp_inv_def by (auto split: if_splits)
  with ids ports inv p(3) show ?thesis unfolding udp_inv_def by simp
qed

lemma sendUp_tables: "sendUp payload c sd u = Inr u' \<Longrightarrow> tables u' = tables u"
  by (cases payload) (auto simp: sendUp_def tables_def)

lemma deliverCopies_tables: "deliverCopies m c pl ps u = Inr (u', n) \<Longrightarrow> tables u' = tables u"
proof (induction ps arbitrary: u n)
  case (Cons p ps)
  from Cons.prems obtain sd b where sd: "deref p u = Inr sd" "(if onlyLocalPortIsSet sd then Inr True else m sd) = Inr b"
    and r: "(if b then andThen (sendUp pl (c sd) sd u) (\<lambda>u. andThen (deliverCopies m c pl ps u) (\<lambda>(u, n). Inr (u, n + 1)))
      else deliverCopies m c pl ps u) = Inr (u', n)"
    unfolding deliverCopies.simps andThen_Inr_iff by blast
  show ?case
  proof (cases b)
    case True
    with r obtain u1 k where "sendUp pl (c sd) sd u = Inr u1" "deliverCopies m c pl ps u1 = Inr (u', k)"
      by (auto simp: andThen_Inr_iff)
    with Cons.IH sendUp_tables show ?thesis by metis
  qed (use r Cons.IH in simp)
qed simp

lemma tables_simps [simp]: "tables (u\<lparr>udp_icmp := i\<rparr>) = tables u" "tables (u\<lparr>udp_sent := s\<rparr>) = tables u"
    "tables (u\<lparr>numDroppedWrongPort := n\<rparr>) = tables u" "tables (u\<lparr>numSent := n\<rparr>) = tables u"
    "tables (u\<lparr>numDroppedBadChecksum := n\<rparr>) = tables u" "tables (sendUpErrorNotification sd la ra rp u) = tables u"
  by (simp_all add: tables_def sendUpErrorNotification_def)

lemma ensures_const: "(\<And>x. ensures (f x) Q) \<Longrightarrow> ensures (andThen r f) Q"
  by (cases r) auto

lemma processUndeliverable_tables:
  "ensures (processUndeliverablePacket udp ctrl a u) (\<lambda>u'. tables u' = tables u)"
  unfolding processUndeliverablePacket_def Let_def
  by (auto split: option.split NetControlInfo.split intro!: ensures_const)

lemma processUDPPacket_tables: "ensures (processUDPPacket udp info u) (\<lambda>u'. tables u' = tables u)"
proof -
  have copies: "ensures (deliverCopies m c pl ps u) (\<lambda>x. tables (fst x) = tables u)" for m c pl ps
    by (rule ensuresI) (auto dest: deliverCopies_tables)
  have last: "ensures (andThen (deliverCopies m c pl ps u) (\<lambda>(u, n). if n = 0 then processUndeliverablePacket udp ctrl None u else Inr u))
      (\<lambda>u'. tables u' = tables u)" for m c pl ps ctrl
  proof (rule ensures_andThen [OF copies])
    fix x :: "UDP \<times> nat"
    assume "tables (fst x) = tables u"
    then show "ensures (case x of (u, n) \<Rightarrow> if n = 0 then processUndeliverablePacket udp ctrl None u else Inr u)
        (\<lambda>u'. tables u' = tables u)"
      using processUndeliverable_tables [of udp ctrl None "fst x"] by (cases x) simp
  qed
  show ?thesis
    unfolding processUDPPacket_def Let_def
    by (auto split: option.split NetControlInfo.split intro!: last processUndeliverable_tables)
qed

lemma processICMPError_tables: "ensures (processICMPError e u) (\<lambda>u'. tables u' = tables u)"
  unfolding processICMPError_def by (auto split: option.split intro!: ensures_const)

lemma processMsgFromApp_tables: "ensures (processMsgFromApp name p ctrl u) (\<lambda>u'. tables u' = tables u)"
  unfolding processMsgFromApp_def Let_def by (rule ensures_const) simp

lemma udp_inv_step:
  assumes "udp_inv u" "UDP_handleMessage msg u = Inr u'"
  shows "udp_inv u'"
proof (cases msg)
  case (AppCommand gate kind ctrl)
  with assms(2) have "processCommandFromApp gate kind ctrl u = Inr u'" by (simp add: UDP_handleMessage_def)
  then show ?thesis unfolding processCommandFromApp_def
    by (cases kind) (simp_all, blast intro: udp_inv_bind assms(1), blast intro: udp_inv_connect assms(1),
      blast intro: udp_inv_unbind assms(1))
next
  case (FromNetwork udp info)
  with assms(2) have "processUDPPacket udp info u = Inr u'" by (simp add: UDP_handleMessage_def)
  then have "tables u' = tables u" by (rule ensuresD [OF processUDPPacket_tables])
  with assms(1) tables_inv show ?thesis by blast
next
  case (ICMPError e)
  with assms(2) have "processICMPError e u = Inr u'" by (simp add: UDP_handleMessage_def)
  then have "tables u' = tables u" by (rule ensuresD [OF processICMPError_tables])
  with assms(1) tables_inv show ?thesis by blast
next
  case (AppData name p ctrl)
  with assms(2) have "processMsgFromApp name p ctrl u = Inr u'" by (simp add: UDP_handleMessage_def)
  then have "tables u' = tables u" by (rule ensuresD [OF processMsgFromApp_tables])
  with assms(1) tables_inv show ?thesis by blast
qed

lemma udp_inv_reachable: "udp_reachable u \<Longrightarrow> udp_inv u"
  by (induction rule: udp_reachable.induct) (auto intro: udp_inv_init udp_inv_step)


section \<open>Delivery\<close>

text \<open>The sockets a packet of IPv4 is for.\<close>

definition accepts :: "UDPPacket \<Rightarrow> IPControlInfo \<Rightarrow> SockDesc \<Rightarrow> bool" where
  "accepts udp c sd \<longleftrightarrow> localPort sd = destinationPort udp \<and> remotePort sd \<in> {0, sourcePort udp} \<and>
     localAddr sd \<in> {unspecifiedAddress, IPv4 (ciDestAddr c)} \<and>
     remoteAddr sd \<in> {unspecifiedAddress, IPv4 (ciSrcAddr c)} \<and> sockInterfaceId sd \<in> {- 1, ciInterfaceId c}"

lemma addrMatches4: "\<not> isIPv6 a \<Longrightarrow> sockAddrMatches get4 a b = Inr (a \<in> {unspecifiedAddress, IPv4 b})"
  by (cases a) (auto simp: sockAddrMatches_def unspecifiedAddress_def)

lemma match_accepts:
  assumes "sockOk sd" "\<not> isIPv6 (localAddr sd)" "\<not> isIPv6 (remoteAddr sd)" "localPort sd = destinationPort udp"
  shows "(if onlyLocalPortIsSet sd then Inr True else matchesSocket4 sd udp c) = Inr (accepts udp c sd)"
  using assms by (auto simp: matchesSocket4_def addrMatches4 accepts_def sockOk_def onlyPort_def isUnspecified_iff)

definition copyFor :: "Packet \<Rightarrow> UDPPacket \<Rightarrow> IPControlInfo \<Rightarrow> SockDesc \<Rightarrow> UDPOutput" where
  "copyFor pl udp c sd = UdpData (appGateIndex sd) pl (upCtrl4 udp c sd)"

lemma deliverCopies_exact:
  assumes "\<forall>p \<in> set ps. socks u p = Some (sd p) \<and> (if onlyLocalPortIsSet (sd p) then Inr True else m (sd p)) = Inr (b (sd p))"
  shows "deliverCopies m (upCtrl4 udp c) (Some pl) ps u =
    Inr (u\<lparr>udp_sent := udp_sent u @ map (\<lambda>p. copyFor pl udp c (sd p)) (filter (\<lambda>p. b (sd p)) ps),
      numPassedUp := numPassedUp u + int (length (filter (\<lambda>p. b (sd p)) ps))\<rparr>, length (filter (\<lambda>p. b (sd p)) ps))"
  using assms by (induction ps arbitrary: u) (auto simp: deref_def sendUp_def copyFor_def)

text \<open>The sockets of the port of a packet, in the order in which they were bound, that accept it.\<close>

definition receivers :: "UDP \<Rightarrow> UDPPacket \<Rightarrow> IPControlInfo \<Rightarrow> SockDesc list" where
  "receivers u udp c = filter (accepts udp c) (map (\<lambda>p. the (socks u p)) (portList u (destinationPort udp)))"

definition noIPv6Sockets :: "UDP \<Rightarrow> int \<Rightarrow> bool" where
  "noIPv6Sockets u q \<longleftrightarrow> (\<forall>p sd. socks u p = Some sd \<and> localPort sd = q \<longrightarrow> \<not> isIPv6 (localAddr sd) \<and> \<not> isIPv6 (remoteAddr sd))"

lemma inv_portList: "udp_inv u \<Longrightarrow> p \<in> set (portList u q) \<longleftrightarrow> (\<exists>sd. socks u p = Some sd \<and> localPort sd = q)"
  by (auto simp: udp_inv_def boundTo_def)

lemma processUDPPacket_exact:
  assumes inv: "udp_inv u" and udp: "\<not> hasBitError udp" "udpEncapsulated udp = Some pl"
    and v4: "noIPv6Sockets u (destinationPort udp)"
  shows "processUDPPacket udp (Some (Ctrl4 c)) u = (if receivers u udp c = [] then processUndeliverablePacket udp (Some (Ctrl4 c)) None u
    else Inr (u\<lparr>udp_sent := udp_sent u @ map (copyFor pl udp c) (receivers u udp c),
      numPassedUp := numPassedUp u + int (length (receivers u udp c))\<rparr>))"
proof (cases "socketsByPortMap u (destinationPort udp)")
  case None
  then show ?thesis using udp(1) by (simp add: processUDPPacket_def receivers_def portList_def)
next
  case (Some l)
  then have l: "portList u (destinationPort udp) = l" by (simp add: portList_def)
  have "\<forall>p \<in> set l. socks u p = Some (the (socks u p)) \<and> (if onlyLocalPortIsSet (the (socks u p)) then Inr True
      else matchesSocket4 (the (socks u p)) udp c) = Inr (accepts udp c (the (socks u p)))"
  proof
    fix p assume "p \<in> set l"
    then obtain sd where sd: "socks u p = Some sd" "localPort sd = destinationPort udp"
      using inv_portList [OF inv] l by blast
    have "sockOk sd" using inv sd(1) by (simp add: udp_inv_def)
    moreover have "\<not> isIPv6 (localAddr sd)" "\<not> isIPv6 (remoteAddr sd)" using v4 sd unfolding noIPv6Sockets_def by blast+
    ultimately show "socks u p = Some (the (socks u p)) \<and> (if onlyLocalPortIsSet (the (socks u p)) then Inr True
      else matchesSocket4 (the (socks u p)) udp c) = Inr (accepts udp c (the (socks u p)))"
      using match_accepts [of sd udp c] sd(2) unfolding sd(1) option.sel by blast
  qed
  note copies = deliverCopies_exact [OF this, of udp c pl]
  have r: "receivers u udp c = map (\<lambda>p. the (socks u p)) (filter (\<lambda>p. accepts udp c (the (socks u p))) l)"
    unfolding receivers_def l by (simp add: filter_map comp_def)
  show ?thesis using udp Some unfolding processUDPPacket_def r copies by (simp add: copies comp_def)
qed

lemma set_receivers:
  assumes "udp_inv u"
  shows "sd \<in> set (receivers u udp c) \<longleftrightarrow> (\<exists>p. socks u p = Some sd) \<and> accepts udp c sd"
proof -
  have "localPort sd = destinationPort udp" if "accepts udp c sd" for sd using that by (simp add: accepts_def)
  then show ?thesis using inv_portList [OF assms] unfolding receivers_def by force
qed

lemma distinct_receivers:
  assumes "udp_inv u"
  shows "distinct (map sockId (receivers u udp c))"
proof -
  let ?l = "portList u (destinationPort udp)"
  have l: "distinct ?l" using assms by (simp add: udp_inv_def)
  have "inj_on (\<lambda>p. sockId (the (socks u p))) (set ?l)"
  proof (rule inj_onI)
    fix p q assume "p \<in> set ?l" "q \<in> set ?l" and eq: "sockId (the (socks u p)) = sockId (the (socks u q))"
    then obtain sd sd' where "socks u p = Some sd" "socks u q = Some sd'" using inv_portList [OF assms] by blast
    with eq have "socketsByIdMap u (sockId sd) = Some p" "socketsByIdMap u (sockId sd) = Some q"
      using assms unfolding udp_inv_def by auto
    then show "p = q" by simp
  qed
  with l have "distinct (map (\<lambda>p. sockId (the (socks u p))) ?l)" by (simp add: distinct_map)
  then have "distinct (map sockId (map (\<lambda>p. the (socks u p)) ?l))" by (simp add: comp_def)
  then show ?thesis unfolding receivers_def by (rule distinct_map_filter)
qed


text \<open>A socket that is bound to a port above 32767 gets nothing: the port is kept in a short and becomes
  negative, so the packets for the port find no socket, although the command succeeds.\<close>

theorem udp_high_port_unreachable:
  assumes "udp_reachable u" "32768 \<le> uc_srcPort ctrl" "uc_srcPort ctrl \<le> 65535" "UDP_bind g ctrl u = Inr u'"
    and "destinationPort udp = uc_srcPort ctrl" "processUDPPacket udp (Some (Ctrl4 c)) u' = Inr u''"
  shows "(\<exists>p sd. socks u' p = Some sd \<and> sockId sd = uc_sockId ctrl \<and> localPort sd = uc_srcPort ctrl - 65536) \<and>
    udp_sent u'' = udp_sent u'"
proof
  have "toShort (uc_srcPort ctrl) = uc_srcPort ctrl - 65536" 
    using assms(2,3) mod_add_self2 [of "uc_srcPort ctrl - 32768" 65536] by (simp add: toShort_def mod_pos_pos_trivial add.commute)
  with assms(2-4) show "\<exists>p sd. socks u' p = Some sd \<and> sockId sd = uc_sockId ctrl \<and> localPort sd = uc_srcPort ctrl - 65536"
    by (auto simp: UDP_bind_def Let_def res_simps intro!: exI [of _ "nextSock u"] split: if_splits)
  have "UDP_handleMessage (AppCommand g UDP_C_BIND ctrl) u = Inr u'"
    using assms(4) by (simp add: UDP_handleMessage_def processCommandFromApp_def)
  then have inv: "udp_inv u'" using udp_inv_step udp_inv_reachable [OF assms(1)] by blast
  have "socketsByPortMap u' (destinationPort udp) = None"
  proof (rule ccontr)
    assume "socketsByPortMap u' (destinationPort udp) \<noteq> None"
    then have "portList u' (destinationPort udp) \<noteq> []" using inv by (auto simp: udp_inv_def portList_def)
    then obtain p where "p \<in> set (portList u' (destinationPort udp))" by (meson list.set_sel(1))
    then obtain sd where sd: "socks u' p = Some sd" "localPort sd = destinationPort udp" using inv_portList [OF inv] by blast
    have "sockOk sd" using inv sd(1) by (simp add: udp_inv_def)
    with sd(2) assms(2,5) show False by (simp add: sockOk_def)
  qed
  moreover have "ensures (processUndeliverablePacket udp (Some (Ctrl4 c)) None u') (\<lambda>u''. udp_sent u'' = udp_sent u')"
    unfolding processUndeliverablePacket_def Let_def by (auto intro!: ensures_const)
  ultimately show "udp_sent u'' = udp_sent u'"
    using assms(6) ensuresD by (auto simp: processUDPPacket_def split: if_splits)
qed

section \<open>Errors\<close>

text \<open>A packet of IPv6 ends the simulation, whether there is a socket for it or not.\<close>

lemma udp_ipv6_packet_fails: "\<not> hasBitError udp \<Longrightarrow> isl (processUDPPacket udp (Some (Ctrl6 c)) u)"
  by (simp add: processUDPPacket_def processUndeliverablePacket_def Let_def split: option.split)

text \<open>The test which socket an ICMP error is for compares the ports the wrong way round: a connected
  socket hears of errors about packets to the address of its peer exactly if they are not about the port of
  its peer.\<close>

theorem udp_error_ports_inverted:
  assumes "udp_reachable u" "socks u p = Some sd" "socketsByPortMap u (localPort sd) = Some [p]"
    and "remotePort sd \<noteq> 0" "localAddr sd \<in> {unspecifiedAddress, la}" "remoteAddr sd = ra" "\<not> isIPv6 la" "\<not> isIPv6 ra"
    and "errorDetails msg = Inr (la, ra, localPort sd, rp)"
  shows "processICMPError msg u = Inr (if toShort rp = remotePort sd then u
    else sendUpErrorNotification sd la ra (toShort rp) u)"
proof -
  have "sockOk sd" using udp_inv_reachable [OF assms(1)] assms(2) by (simp add: udp_inv_def)
  with assms(4) have "\<not> onlyLocalPortIsSet sd" by (simp add: sockOk_def onlyPort_def)
  moreover have "addrEqual a a = Inr True" if "\<not> isIPv6 a" for a using that by (cases a) (simp_all add: addrEqual_def)
  ultimately show ?thesis using assms(2-9)
    by (auto simp: processICMPError_def deref_def matchesSocketError_def isUnspecified_iff)
qed

section \<open>Witnesses\<close>

definition exampleBind :: "int \<Rightarrow> UDPControlInfo" where
  "exampleBind port = UDPControlInfo_new\<lparr>uc_sockId := 1, uc_srcPort := port\<rparr>"

definition exampleSock :: "int \<Rightarrow> SockDesc" where
  "exampleSock port = \<lparr>sockId = 1, userId = - 1, appGateIndex = 0, onlyLocalPortIsSet = True, localAddr = unspecifiedAddress,
     remoteAddr = unspecifiedAddress, localPort = toShort port, remotePort = 0, sockInterfaceId = - 1\<rparr>"

definition exampleConnected :: SockDesc where
  "exampleConnected = (exampleSock 53)\<lparr>remoteAddr := IPv4 0x0A010001, remotePort := 2000, onlyLocalPortIsSet := False\<rparr>"

definition exampleUDP :: "SockDesc \<Rightarrow> UDP" where
  "exampleUDP sd = (UDP_initialize \<lparr>icmpCtr = 0, icmpSent = []\<rparr>)\<lparr>socks := [0 \<mapsto> sd], nextSock := 1,
     socketsByIdMap := [1 \<mapsto> 0], socketsByPortMap := [localPort sd \<mapsto> [0]]\<rparr>"

lemma example_bind:
  assumes "toShort port \<noteq> 0"
  shows "UDP_bind 0 (exampleBind port) (UDP_initialize \<lparr>icmpCtr = 0, icmpSent = []\<rparr>) = Inr (exampleUDP (exampleSock port))"
  using assms by (simp add: UDP_bind_def Let_def exampleBind_def exampleUDP_def exampleSock_def UDP_initialize_def
      UDPControlInfo_new_def unspecifiedAddress_def toShort_def [of 0])

lemma example_reachable: "toShort port \<noteq> 0 \<Longrightarrow> udp_reachable (exampleUDP (exampleSock port))"
  by (rule udp_reachable.step [OF udp_reachable.init [of "\<lparr>icmpCtr = 0, icmpSent = []\<rparr>"], where msg = "AppCommand 0 UDP_C_BIND (exampleBind port)"])
     (simp add: UDP_handleMessage_def processCommandFromApp_def example_bind)

lemma example_connected_reachable: "udp_reachable (exampleUDP exampleConnected)"
proof (rule udp_reachable.step [OF example_reachable [of 53], where msg = "AppCommand 0 UDP_C_CONNECT
    (UDPControlInfo_new\<lparr>uc_sockId := 1, uc_destAddr := IPv4 0x0A010001, uc_destPort := 2000\<rparr>)"])
  show "toShort 53 \<noteq> 0" by (simp add: toShort_def)
  show "UDP_handleMessage (AppCommand 0 UDP_C_CONNECT (UDPControlInfo_new\<lparr>uc_sockId := 1, uc_destAddr := IPv4 0x0A010001,
      uc_destPort := 2000\<rparr>)) (exampleUDP (exampleSock 53)) = Inr (exampleUDP exampleConnected)"
    by (simp add: UDP_handleMessage_def processCommandFromApp_def UDP_connect_def deref_def exampleUDP_def exampleSock_def
        exampleConnected_def UDPControlInfo_new_def UDP_initialize_def toShort_id)
qed


definition examplePacket :: "int \<Rightarrow> UDPPacket" where
  "examplePacket port = \<lparr>udpName = ''query'', sourcePort = 1025, destinationPort = port, udpByteLength = 108,
     udpEncapsulated = Some (TransportPacket ''query'' 100), hasBitError = False\<rparr>"

definition exampleCtrl :: IPControlInfo where
  "exampleCtrl = IPControlInfo_new\<lparr>ciSrcAddr := 0x0A000001, ciDestAddr := 0x0A010001\<rparr>"


lemma udp_high_port_unreachable_witness:
  "\<exists>u''. processUDPPacket (examplePacket 40000) (Some (Ctrl4 (exampleCtrl\<lparr>ciDestAddr := 0xE1000001\<rparr>))) (exampleUDP (exampleSock 40000)) = Inr u'' \<and>
     udp_sent u'' = []"
proof -
  let ?c = "exampleCtrl\<lparr>ciDestAddr := 0xE1000001\<rparr>"
  have port: "toShort 40000 = - 25536" by (simp add: toShort_def)
  have m: "isMulticast 0xE1000001" by code_simp
  obtain u'' where u'': "processUDPPacket (examplePacket 40000) (Some (Ctrl4 ?c)) (exampleUDP (exampleSock 40000)) = Inr u''"
    by (simp add: processUDPPacket_def processUndeliverablePacket_def examplePacket_def exampleUDP_def exampleSock_def port
        exampleCtrl_def IPControlInfo_new_def m)
  have ctrl: "32768 \<le> uc_srcPort (exampleBind 40000)" "uc_srcPort (exampleBind 40000) \<le> 65535"
    "destinationPort (examplePacket 40000) = uc_srcPort (exampleBind 40000)"
    by (simp_all add: exampleBind_def UDPControlInfo_new_def examplePacket_def)
  have "UDP_bind 0 (exampleBind 40000) (UDP_initialize \<lparr>icmpCtr = 0, icmpSent = []\<rparr>) = Inr (exampleUDP (exampleSock 40000))"
    by (rule example_bind) (simp add: port)
  from udp_high_port_unreachable [OF udp_reachable.init ctrl(1,2) this ctrl(3) u''] u'' show ?thesis
    by (simp add: exampleUDP_def UDP_initialize_def)
qed

lemma udp_error_ports_inverted_witness:
  "processICMPError (Error4 \<lparr>icmpName = ''e'', icmpType = 13, icmpCode = 3, icmpByteLength = 36, icmpEncapsulated =
     Some (DatagramPacket ''d'' \<lparr>headerLength = 20, srcAddress = 0x0A000001, destAddress = 0x0A010001, destPort = 0, srcPort = 0,
       transportProtocol = 17, timeToLive = 1, flowId = 0, link_status = 0, packetId = 0, moreFragments = False,
       dontFragment = False, fragmentOffset = 0, diffServCodePoint = 0, num_packets_for_this_path = 0, arrivalGateIndex = None\<rparr>
       128 (Some (UDPDatagram ''q'' 53 2000 108 None)))\<rparr>) (exampleUDP exampleConnected) = Inr (exampleUDP exampleConnected)"
  by (rule trans [OF udp_error_ports_inverted [OF example_connected_reachable, where p = 0 and sd = exampleConnected
        and la = "IPv4 0x0A000001" and ra = "IPv4 0x0A010001" and rp = 2000]])
     (simp_all add: exampleUDP_def exampleConnected_def exampleSock_def unspecifiedAddress_def toShort_id UDP_initialize_def)

end
