(* ===== verification/Stack_Props.thy ===== *)
theory Stack_Props imports IP_ForwardingProps UDP_Props
begin

text \<open>
  UDP over IP: what one application sends, another one gets, also when IP has to cut the datagram
  into fragments on the way.
\<close>

section \<open>The receiving IP module\<close>

fun receiveAll :: "uint16 \<Rightarrow> (IPDatagram \<times> simtime) list \<Rightarrow> IP \<Rightarrow> IP res" where
  "receiveAll k [] ip = Inr ip"
| "receiveAll k ((d, t) # ds) ip = andThen (reassembleAndDeliver k t d ip) (receiveAll k ds)"

text \<open>The control information that goes up with the content \<open>p\<close> of a datagram.\<close>

definition upInfo :: "IPDatagram \<Rightarrow> Packet \<Rightarrow> IP \<Rightarrow> IPControlInfo" where
  "upInfo d p ip = IPControlInfo_new\<lparr>ciProtocol := toShort (transportProtocol d), ciSrcAddr := srcAddress d,
     ciDestAddr := destAddress d, ciFlowId := flowId d, ciLink_status := link_status d, ciPacketId := packetId d,
     ciDiffServCodePoint := diffServCodePoint d,
     ciInterfaceId := (case getSourceInterfaceFrom d ip of Some ie \<Rightarrow> interfaceId ie | None \<Rightarrow> - 1),
     origDatagram := Some (d\<lparr>byteLength := byteLength d - packetLength p, encapsulatedMsg := None\<rparr>)\<rparr>"

lemma deliver_transport:
  assumes "encapsulatedMsg d = Some p" "packetLength p \<le> byteLength d" "transportProtocol d \<notin> {IP_PROT_ICMP, IP_PROT_IP}"
    and "getOutputGateForProtocol (transportProtocol d) (mapping ip) = Inr gate"
  shows "deliver d ip = Inr (ip_emit (ToTransport gate p (Some (upInfo d p ip))) ip)"
  using assms by (simp add: deliver_def decapsulateIP_def decapsulate_def setOrigDatagram_def upInfo_def IPControlInfo_new_def Let_def)

text \<open>Fragments go through the fragment buffer, and what it completes is delivered.\<close>

lemma receiveAll_arrive:
  assumes "arrive k gs (fragbuf ip) = Inr (bufs, ds)"
    and "\<forall>(g, t) \<in> set gs. (fragmentOffset g \<noteq> 0 \<or> moreFragments g) \<and> t < lastCheckTime ip + 10"
    and "\<And>d ip'. d \<in> set ds \<Longrightarrow> mapping ip' = mapping ip \<Longrightarrow> ip_ift ip' = ip_ift ip \<Longrightarrow> deliver d ip' = Inr (ip_emit (out d) ip')"
  shows "receiveAll k gs ip = Inr (ip\<lparr>fragbuf := bufs, ip_sent := ip_sent ip @ map out ds\<rparr>)"
  using assms
proof (induction gs arbitrary: ip ds)
  case (Cons x gs)
  obtain g t where x: "x = (g, t)" by force
  with Cons.prems(1) obtain bs r ds' where r: "IPFragBuf_addFragment k g t (fragbuf ip) = Inr (bs, r)"
    "arrive k gs bs = Inr (bufs, ds')" "ds = (case r of None \<Rightarrow> ds' | Some d \<Rightarrow> d # ds')"
    by (auto simp: andThen_Inr_iff)
  have "\<not> lastCheckTime ip + 10 \<le> t" "fragmentOffset g \<noteq> 0 \<or> moreFragments g" using Cons.prems(2) x by auto
  then have step: "reassembleAndDeliver k t g ip = (case r of None \<Rightarrow> Inr (ip\<lparr>fragbuf := bs\<rparr>)
      | Some d \<Rightarrow> deliver d (ip\<lparr>fragbuf := bs\<rparr>))"
    using r(1) by (simp add: reassembleAndDeliver_def)
  show ?case
  proof (cases r)
    case None
    have "receiveAll k gs (ip\<lparr>fragbuf := bs\<rparr>) = Inr ((ip\<lparr>fragbuf := bs\<rparr>)\<lparr>fragbuf := bufs,
        ip_sent := ip_sent (ip\<lparr>fragbuf := bs\<rparr>) @ map out ds'\<rparr>)"
      by (rule Cons.IH) (use r(2,3) None Cons.prems(2,3) x in auto)
    with step None r(3) x show ?thesis by simp
  next
    case (Some d)
    let ?ip = "ip_emit (out d) (ip\<lparr>fragbuf := bs\<rparr>)"
    have "deliver d (ip\<lparr>fragbuf := bs\<rparr>) = Inr ?ip" by (rule Cons.prems(3)) (use r(3) Some in simp_all)
    moreover have "receiveAll k gs ?ip = Inr (?ip\<lparr>fragbuf := bufs, ip_sent := ip_sent ?ip @ map out ds'\<rparr>)"
      by (rule Cons.IH) (use r(2,3) Some Cons.prems(2,3) x in \<open>auto simp: ip_emit_def\<close>)
    ultimately show ?thesis using step Some r(3) x by (simp add: ip_emit_def)
  qed
qed simp

section \<open>From one application to the other\<close>

text \<open>What a router changes in a datagram, and the interface it comes in by.\<close>

definition onArrival :: "int \<Rightarrow> int option \<Rightarrow> IPDatagram \<Rightarrow> IPDatagram" where
  "onArrival ttl g d = d\<lparr>timeToLive := ttl, arrivalGateIndex := g\<rparr>"

lemma onArrival_fragmentOf: "onArrival ttl g (fragmentOf d m n j) = fragmentOf (onArrival ttl g d) m n j"
  by (simp add: onArrival_def fragmentOf_def)

lemma onArrival_sel [simp]: "srcAddress (onArrival ttl g d) = srcAddress d" "destAddress (onArrival ttl g d) = destAddress d"
    "headerLength (onArrival ttl g d) = headerLength d" "encapsulatedMsg (onArrival ttl g d) = encapsulatedMsg d"
    "byteLength (onArrival ttl g d) = byteLength d" "transportProtocol (onArrival ttl g d) = transportProtocol d"
    "fragmentOffset (onArrival ttl g d) = fragmentOffset d" "moreFragments (onArrival ttl g d) = moreFragments d"
  by (simp_all add: onArrival_def)

text \<open>What UDP and IP make of the data of an application.\<close>

lemma processMsgFromApp_packet:
  assumes "processMsgFromApp name data ctrl u = Inr u'" "udp_sent u' = udp_sent u @ [UdpToIP pkt ci]"
  shows "udpEncapsulated pkt = Some data \<and> \<not> hasBitError pkt \<and> sourcePort pkt = uc_srcPort ctrl \<and>
    destinationPort pkt = uc_destPort ctrl \<and> ciProtocol ci = IP_PROT_UDP \<and> \<not> ciDontFragment ci"
proof -
  obtain pk where pk: "pk = \<lparr>udpName = name, sourcePort = uc_srcPort ctrl, destinationPort = uc_destPort ctrl,
    udpByteLength = UDP_HEADER_BYTES + packetLength data, udpEncapsulated = Some data, hasBitError = False\<rparr>" by blast
  from assms have "pkt = pk \<and> ciProtocol ci = IP_PROT_UDP \<and> \<not> ciDontFragment ci"
    unfolding processMsgFromApp_def Let_def pk [symmetric]
    by (auto simp: andThen_Inr_iff IPControlInfo_new_def split: if_splits)
  then show ?thesis by (simp add: pk)
qed

lemma encapsulate_fields:
  assumes "encapsulate name p ci ip = Inr (d, ie)"
  shows "headerLength d = 20 \<and> encapsulatedMsg d = Some p \<and> byteLength d = 20 + packetLength p \<and> fragmentOffset d = 0 \<and>
    \<not> moreFragments d \<and> transportProtocol d = ciProtocol ci \<and> dontFragment d = ciDontFragment ci"
  using assms unfolding encapsulate_def Let_def by (auto simp: res_simps IP_HEADER_BYTES_def split: if_splits)

text \<open>A socket that is bound to the port and to nothing else gets the data.\<close>

lemma udp_up:
  assumes "udp_reachable u" "socks u p = Some sd" "onlyLocalPortIsSet sd" "localPort sd = destinationPort pkt"
    and "\<not> hasBitError pkt" "udpEncapsulated pkt = Some data" "noIPv6Sockets u (destinationPort pkt)"
  shows "\<exists>u'. processUDPPacket pkt (Some (Ctrl4 c)) u = Inr u' \<and> copyFor data pkt c sd \<in> set (udp_sent u')"
proof -
  note inv = udp_inv_reachable [OF assms(1)]
  have "sockOk sd" using inv assms(2) by (simp add: udp_inv_def)
  then have "accepts pkt c sd" using assms(3,4) by (auto simp: sockOk_def onlyPort_def accepts_def isUnspecified_iff)
  with set_receivers [OF inv] assms(2) have "sd \<in> set (receivers u pkt c)" by blast
  then show ?thesis using processUDPPacket_exact [OF inv assms(5,6,7), of c] by (auto split: if_splits)
qed


section \<open>Witness\<close>

definition exampleQuery :: UDPControlInfo where
  "exampleQuery = UDPControlInfo_new\<lparr>uc_srcAddr := IPv4 0, uc_destAddr := IPv4 0x0A010001, uc_srcPort := 1025, uc_destPort := 53\<rparr>"

definition exampleUDPPacket :: UDPPacket where
  "exampleUDPPacket = \<lparr>udpName = ''query'', sourcePort = 1025, destinationPort = 53, udpByteLength = 1008,
     udpEncapsulated = Some (TransportPacket ''query'' 1000), hasBitError = False\<rparr>"

definition exampleInfo :: IPControlInfo where
  "exampleInfo = IPControlInfo_new\<lparr>ciProtocol := IP_PROT_UDP, ciSrcAddr := 0, ciDestAddr := 0x0A010001, ciInterfaceId := - 1\<rparr>"


end
