(* ===== verification/ARP_Module.thy ===== *)
theory ARP_Module imports IP_RoutingTable IP_Packets "HOL-Library.Signed_Division"
begin

text \<open>
  Address resolution: \<^verbatim>\<open>src/src/networklayer/arp/ARP.{h,cc}\<close> and \<^verbatim>\<open>ARPPacket.msg\<close>. The module sits
  between IP and the interfaces. A packet for a broadcast interface waits in the cache entry of its next
  hop until a reply tells the hardware address; a timer repeats the request.
\<close>

definition ARP_REQUEST :: int where "ARP_REQUEST = 1"
definition ARP_REPLY :: int where "ARP_REPLY = 2"
definition ARP_RARP_REQUEST :: int where "ARP_RARP_REQUEST = 3"
definition ARP_RARP_REPLY :: int where "ARP_RARP_REPLY = 4"

lemmas arp_opcodes = ARP_REQUEST_def ARP_REPLY_def ARP_RARP_REQUEST_def ARP_RARP_REPLY_def

record ARPPacket =
  opcode :: int
  srcMACAddress :: MACAddress
  destMACAddress :: MACAddress
  srcIPAddress :: IPAddress
  destIPAddress :: IPAddress

text \<open>A message object is its pointer and its content.\<close>

type_synonym Msg = "nat \<times> Packet"

text \<open>
  An entry of the cache; \<^verbatim>\<open>ie\<close> is the id of the interface or null, \<^verbatim>\<open>timer\<close> the number of the timeout message or
  null. \<^verbatim>\<open>myIter\<close>, the position of the entry in the map, is its key.
\<close>

record ARPCacheEntry =
  entryIe :: "int option"
  pending :: bool
  macAddress :: MACAddress
  lastUpdate :: simtime
  numRetries :: int
  timer :: "nat option"
  pendingPackets :: "Msg list"

definition ARPCacheEntry_new :: ARPCacheEntry where
  "ARPCacheEntry_new = \<lparr>entryIe = None, pending = False, macAddress = MAC_unspecified, lastUpdate = 0, numRetries = 0,
     timer = None, pendingPackets = []\<rparr>"

text \<open>What leaves the module by \<^verbatim>\<open>nicOut[]\<close>: packets, with the hardware address if the interface needs one, ARP
  packets, and the report about a broken link.\<close>

datatype ArpOutput =
    NicOut int Msg "MACAddress option"
  | NicOutARP int ARPPacket MACAddress
  | NicOutFailure int IPDatagram

text \<open>
  The module: besides its members the connected gates of \<^verbatim>\<open>nicOut[]\<close>, the scheduled timeout messages with their
  time and the key of their entry, and what was sent.
\<close>

record ARP =
  arp_ift :: InterfaceTable
  arp_rt :: RoutingTable
  retryTimeout :: simtime
  retryCount :: int
  cacheTimeout :: simtime
  doProxyARP :: bool
  nicConnected :: "bool list"
  arpCache :: "IPAddress \<rightharpoonup> ARPCacheEntry"
  pendingQueue :: "Msg list"
  arpTimers :: "(nat \<times> simtime \<times> IPAddress) list"
  nextTimer :: nat
  flag_for_packet_sent_out :: bool
  numResolutions :: int
  numFailedResolutions :: int
  numRequestsSent :: int
  numRepliesSent :: int
  arp_sent :: "ArpOutput list"

definition ARP_initialize :: "InterfaceTable \<Rightarrow> RoutingTable \<Rightarrow> simtime \<Rightarrow> int \<Rightarrow> simtime \<Rightarrow> bool \<Rightarrow> bool list \<Rightarrow> ARP" where
  "ARP_initialize ift rt rto rc cto proxy gates = \<lparr>arp_ift = ift, arp_rt = rt, retryTimeout = rto, retryCount = rc,
     cacheTimeout = cto, doProxyARP = proxy, nicConnected = gates, arpCache = Map.empty, pendingQueue = [],
     arpTimers = [], nextTimer = 0, flag_for_packet_sent_out = False, numResolutions = 0, numFailedResolutions = 0,
     numRequestsSent = 0, numRepliesSent = 0, arp_sent = []\<rparr>"

section \<open>Sending\<close>

text \<open>The kernel refuses to send by a gate that does not exist or is not connected.\<close>

definition nicOK :: "int \<Rightarrow> ARP \<Rightarrow> bool" where
  "nicOK g a \<longleftrightarrow> 0 \<le> g \<and> g < int (length (nicConnected a)) \<and> nicConnected a ! nat g"

definition sendNic :: "int \<Rightarrow> ArpOutput \<Rightarrow> ARP \<Rightarrow> ARP res" where
  "sendNic g out a = checked (nicOK g a) (KernelError ''send(): no such gate or gate not connected'')
     (Inr (a\<lparr>arp_sent := arp_sent a @ [out]\<rparr>))"

definition derefIe :: "int option \<Rightarrow> ARP \<Rightarrow> InterfaceEntry res" where
  "derefIe p a = (case p of
     None \<Rightarrow> Inl (NullPointer ''ie'')
   | Some i \<Rightarrow> (case getInterfaceById i (arp_ift a) of
       None \<Rightarrow> Inl (UndefinedBehaviour ''deleted interface'') | Some ie \<Rightarrow> Inr ie))"

definition sendPacketToNIC :: "Msg \<Rightarrow> InterfaceEntry \<Rightarrow> MACAddress \<Rightarrow> ARP \<Rightarrow> ARP res" where
  "sendPacketToNIC msg ie mac a = sendNic (nwLayerGateIndex ie) (NicOut (nwLayerGateIndex ie) msg (Some mac)) a"

definition sendARPToNIC :: "ARPPacket \<Rightarrow> InterfaceEntry \<Rightarrow> MACAddress \<Rightarrow> ARP \<Rightarrow> ARP res" where
  "sendARPToNIC arp ie mac a = sendNic (nwLayerGateIndex ie) (NicOutARP (nwLayerGateIndex ie) arp mac) a"

definition requestPacket :: "MACAddress \<Rightarrow> IPAddress \<Rightarrow> IPAddress \<Rightarrow> ARPPacket" where
  "requestPacket mac src dest = \<lparr>opcode = ARP_REQUEST, srcMACAddress = mac, destMACAddress = MAC_unspecified,
     srcIPAddress = src, destIPAddress = dest\<rparr>"

definition sendARPRequest :: "InterfaceEntry \<Rightarrow> IPAddress \<Rightarrow> ARP \<Rightarrow> ARP res" where
  "sendARPRequest ie ipAddress a =
     andThen (ipv4Data ie) (\<lambda>d.
     checked (\<not> mac_isUnspecified (macAddr ie)) (AssertFailed ''!myMACAddress.isUnspecified()'')
     (checked (inetAddr d \<noteq> 0) (AssertFailed ''!myIPAddress.isUnspecified()'')
     (andThen (sendARPToNIC (requestPacket (macAddr ie) (inetAddr d) ipAddress) ie MAC_broadcast a) (\<lambda>a.
      Inr (a\<lparr>numRequestsSent := numRequestsSent a + 1\<rparr>)))))"

section \<open>Resolution\<close>

definition updEntry :: "IPAddress \<Rightarrow> (ARPCacheEntry \<Rightarrow> ARPCacheEntry) \<Rightarrow> ARP \<Rightarrow> ARP" where
  "updEntry key f a = a\<lparr>arpCache := (arpCache a)(key := map_option f (arpCache a key))\<rparr>"

definition derefEntry :: "IPAddress \<Rightarrow> ARP \<Rightarrow> ARPCacheEntry res" where
  "derefEntry key a = (case arpCache a key of None \<Rightarrow> Inl (UndefinedBehaviour ''deleted entry'') | Some e \<Rightarrow> Inr e)"

definition initiateARPResolution :: "IPAddress \<Rightarrow> simtime \<Rightarrow> ARP \<Rightarrow> ARP res" where
  "initiateARPResolution key now a =
     (let a = updEntry key (\<lambda>e. e\<lparr>pending := True, numRetries := 0, lastUpdate := 0\<rparr>) a
      in andThen (derefEntry key a) (\<lambda>entry.
         andThen (derefIe (entryIe entry) a) (\<lambda>ie.
         andThen (sendARPRequest ie key a) (\<lambda>a.
           let t = nextTimer a;
             a = updEntry key (\<lambda>e. e\<lparr>timer := Some t\<rparr>) a
           in Inr (a\<lparr>nextTimer := t + 1, arpTimers := arpTimers a @ [(t, now + retryTimeout a, key)],
                numResolutions := numResolutions a + 1\<rparr>)))))"

definition queueUp :: "Msg \<Rightarrow> IPAddress \<Rightarrow> ARP \<Rightarrow> ARP" where
  "queueUp msg key a = (updEntry key (\<lambda>e. e\<lparr>pendingPackets := pendingPackets e @ [msg]\<rparr>) a)
     \<lparr>pendingQueue := pendingQueue a @ [msg]\<rparr>"

definition removePending :: "Msg \<Rightarrow> Msg list \<Rightarrow> Msg list" where
  "removePending msg q = filter (\<lambda>m. fst m \<noteq> fst msg) q"

text \<open>The loop that sends what waited.\<close>

fun sendPending :: "IPAddress \<Rightarrow> MACAddress \<Rightarrow> Msg list \<Rightarrow> ARP \<Rightarrow> ARP res" where
  "sendPending key mac [] a = Inr a"
| "sendPending key mac (msg # msgs) a =
     (let a = (updEntry key (\<lambda>e. e\<lparr>pendingPackets := msgs\<rparr>) a)\<lparr>pendingQueue := removePending msg (pendingQueue a)\<rparr>
      in andThen (derefEntry key a) (\<lambda>entry.
         andThen (derefIe (entryIe entry) a) (\<lambda>ie.
         andThen (sendPacketToNIC msg ie mac a) (\<lambda>a. sendPending key mac msgs a))))"

definition stopTimer :: "IPAddress \<Rightarrow> ARP \<Rightarrow> ARP res" where
  "stopTimer key a = andThen (derefEntry key a) (\<lambda>entry.
     if pending entry
     then case timer entry of
        None \<Rightarrow> Inl (KernelError ''cancelEvent(): null pointer'')
      | Some t \<Rightarrow> Inr (updEntry key (\<lambda>e. e\<lparr>pending := False, timer := None, numRetries := 0\<rparr>)
          (a\<lparr>arpTimers := filter (\<lambda>(i, _). i \<noteq> t) (arpTimers a)\<rparr>))
     else Inr a)"

definition updateARPCache :: "IPAddress \<Rightarrow> MACAddress \<Rightarrow> simtime \<Rightarrow> ARP \<Rightarrow> ARP res" where
  "updateARPCache key mac now a =
     andThen (stopTimer key a) (\<lambda>a.
     let a = updEntry key (\<lambda>e. e\<lparr>macAddress := mac, lastUpdate := now\<rparr>) a
     in andThen (derefEntry key a) (\<lambda>entry. sendPending key mac (pendingPackets entry) a))"

text \<open>The timeout message of the entry under the key; it is reused for the next timeout.\<close>

definition requestTimedOut :: "nat \<Rightarrow> IPAddress \<Rightarrow> simtime \<Rightarrow> ARP \<Rightarrow> ARP res" where
  "requestTimedOut selfmsg key now a =
     (let a = updEntry key (\<lambda>e. e\<lparr>numRetries := numRetries e + 1\<rparr>) a
      in andThen (derefEntry key a) (\<lambda>entry.
         if numRetries entry < retryCount a
         then andThen (derefIe (entryIe entry) a) (\<lambda>ie.
              andThen (sendARPRequest ie key a) (\<lambda>a.
              Inr (a\<lparr>arpTimers := arpTimers a @ [(selfmsg, now + retryTimeout a, key)]\<rparr>)))
         else Inr (a\<lparr>pendingQueue := fold removePending (pendingPackets entry) (pendingQueue a),
              arpCache := (arpCache a)(key := None), numFailedResolutions := numFailedResolutions a + 1\<rparr>)))"

section \<open>Broken links\<close>

text \<open>
  The address of the switch behind a gate, for the tree of switches that the simulation uses; \<^verbatim>\<open>n\<close> is the
  number of interfaces without the loopback interface and the one of the controller.
\<close>

definition get_next_hop_address :: "IPAddress \<Rightarrow> int \<Rightarrow> int \<Rightarrow> IPAddress" where
  "get_next_hop_address this index n =
     (let b2 = getDByte 2 this; half = (n * n) sdiv 2
      in if getDByte 1 this = 1
         then let switch_id = (if b2 mod 2 \<noteq> 0 then b2 - half + (n - index - 1) else b2 - half + (n - index - 1) - 1)
              in IPAddress_set (getDByte 0 this) 2 switch_id 0
         else if getDByte 1 this = 2
         then if n sdiv 2 \<le> index
              then let switch_id = (if b2 mod 2 \<noteq> 0 then n - index else n - index + 2)
                   in IPAddress_set ((n + 1) * 10) 3 switch_id 0
              else let switch_id = (if b2 mod 2 \<noteq> 0 then b2 + half + index else b2 + half + index - 1)
                   in IPAddress_set (getDByte 0 this) 1 switch_id 0
         else 0)"

definition detour :: "int \<Rightarrow> int \<Rightarrow> int" where
  "detour n index = (if index = n - 1 then index - 1 else if index = n sdiv 2 then index + 1
     else if index = 0 then index + 1 else if index = n sdiv 2 - 1 then index - 1 else index + 1)"

definition failureReport :: "IPAddress \<Rightarrow> IPAddress \<Rightarrow> IPDatagram" where
  "failureReport this dest = \<lparr>headerLength = IP_HEADER_BYTES, srcAddress = this, destAddress = dest, destPort = 0, srcPort = 0,
     transportProtocol = 2, timeToLive = 32, flowId = 0, link_status = 1, packetId = 0, moreFragments = False,
     dontFragment = False, fragmentOffset = 0, diffServCodePoint = 0, num_packets_for_this_path = 0,
     arrivalGateIndex = None, dgName = ''Link failure '' @ IPAddress_str this, byteLength = 20,
     encapsulatedMsg = Some (TransportPacket (''Link failure '' @ IPAddress_str this) 0)\<rparr>"

definition link_broken :: "int \<Rightarrow> ARP \<Rightarrow> (ARP \<times> int) res" where
  "link_broken index a =
     (let (ift, num) = getNumInterfaces (arp_ift a);
        a = a\<lparr>arp_ift := ift\<rparr>;
        n = num - 2;
        this = routerId (arp_rt a);
        dest = get_next_hop_address this index n;
        index = detour n index
      in if \<not> flag_for_packet_sent_out a
         then andThen (sendNic n (NicOutFailure n (failureReport this dest)) a) (\<lambda>a.
              Inr (a\<lparr>flag_for_packet_sent_out := True\<rparr>, index))
         else Inr (a, index))"

section \<open>Packets from above\<close>

text \<open>
  The routing decision of a packet, if it has one, is the id of the interface and the address of the next
  hop. Without an address the destination of the datagram is looked up itself.
\<close>

definition lookupAddress :: "Msg \<Rightarrow> IPAddress \<Rightarrow> IPAddress res" where
  "lookupAddress msg nextHopAddr = (if nextHopAddr \<noteq> 0 then Inr nextHopAddr
     else andThen (castDatagram (Some (snd msg))) (\<lambda>h. Inr (destAddress h)))"

definition resolveAndSend :: "Msg \<Rightarrow> InterfaceEntry \<Rightarrow> IPAddress \<Rightarrow> simtime \<Rightarrow> ARP \<Rightarrow> ARP res" where
  "resolveAndSend msg ie key now a =
     (if isMulticast key then sendPacketToNIC msg ie MAC_broadcast a
      else case arpCache a key of
        None \<Rightarrow> andThen (initiateARPResolution key now
            (a\<lparr>arpCache := (arpCache a)(key \<mapsto> ARPCacheEntry_new\<lparr>entryIe := Some (interfaceId ie)\<rparr>)\<rparr>)) (\<lambda>a. Inr (queueUp msg key a))
      | Some entry \<Rightarrow>
          if pending entry then Inr (queueUp msg key a)
          else if lastUpdate entry + cacheTimeout a < now
          then andThen (initiateARPResolution key now (updEntry key (\<lambda>e. e\<lparr>entryIe := Some (interfaceId ie)\<rparr>) a)) (\<lambda>a.
               Inr (queueUp msg key a))
          else sendPacketToNIC msg ie (macAddress entry) a)"

definition processOutboundPacket :: "Msg \<Rightarrow> (int \<times> IPAddress) option \<Rightarrow> simtime \<Rightarrow> ARP \<Rightarrow> ARP res" where
  "processOutboundPacket msg decision now a = (case decision of
     None \<Rightarrow> Inl (KernelError ''check_and_cast: not an IPRoutingDecision'')
   | Some (ieId, nextHopAddr) \<Rightarrow> (case getInterfaceById ieId (arp_ift a) of
       None \<Rightarrow> Inl (NullPointer ''ie'')
     | Some ie \<Rightarrow>
         let g = nwLayerGateIndex ie
         in if \<not> broadcast ie
            then checked (0 \<le> g \<and> g < int (length (nicConnected a))) (KernelError ''gate(): no such gate'')
               (if nicConnected a ! nat g then sendNic g (NicOut g msg None) a
                else andThen (link_broken g a) (\<lambda>(a, new_index). sendNic new_index (NicOut new_index msg None) a))
            else andThen (lookupAddress msg nextHopAddr) (\<lambda>key. resolveAndSend msg ie key now a)))"

section \<open>Packets from the network\<close>

definition addressRecognized :: "IPAddress \<Rightarrow> InterfaceEntry option \<Rightarrow> ARP \<Rightarrow> ARP \<times> bool" where
  "addressRecognized dest ie a =
     (let (rt, isLocal) = isLocalAddress dest (arp_rt a); a = a\<lparr>arp_rt := rt\<rparr>
      in if isLocal then (a, True)
         else if \<not> doProxyARP a then (a, False)
         else let (rt, rtie) = getInterfaceForDestAddr dest (arp_rt a)
              in (a\<lparr>arp_rt := rt\<rparr>, rtie \<noteq> None \<and> rtie \<noteq> map_option interfaceId ie))"

definition replyPacket :: "ARPPacket \<Rightarrow> MACAddress \<Rightarrow> ARPPacket" where
  "replyPacket arp mac = \<lparr>opcode = ARP_REPLY, srcMACAddress = mac, destMACAddress = srcMACAddress arp,
     srcIPAddress = destIPAddress arp, destIPAddress = srcIPAddress arp\<rparr>"

definition answer :: "ARPPacket \<Rightarrow> InterfaceEntry option \<Rightarrow> ARP \<Rightarrow> ARP res" where
  "answer arp ie a =
     (if opcode arp = ARP_REQUEST
      then (case ie of
          None \<Rightarrow> Inl (NullPointer ''ie'')
        | Some ie \<Rightarrow> andThen (ipv4Data ie) (\<lambda>_.
            andThen (sendARPToNIC (replyPacket arp (macAddr ie)) ie (srcMACAddress arp) a) (\<lambda>a.
            Inr (a\<lparr>numRepliesSent := numRepliesSent a + 1\<rparr>))))
      else if opcode arp = ARP_REPLY then Inr a
      else Inl (OppError ''Unsupported opcode''))"

definition learn :: "ARPPacket \<Rightarrow> InterfaceEntry option \<Rightarrow> simtime \<Rightarrow> ARP \<Rightarrow> ARP res" where
  "learn arp ie now a =
     updateARPCache (srcIPAddress arp) (srcMACAddress arp) now
       (a\<lparr>arpCache := (arpCache a)(srcIPAddress arp \<mapsto> ARPCacheEntry_new\<lparr>entryIe := map_option interfaceId ie\<rparr>)\<rparr>)"

definition processARPPacket :: "ARPPacket \<Rightarrow> int option \<Rightarrow> simtime \<Rightarrow> ARP \<Rightarrow> ARP res" where
  "processARPPacket arp decision now a = (case decision of
     None \<Rightarrow> Inl (KernelError ''check_and_cast: not an IPRoutingDecision'')
   | Some ieId \<Rightarrow>
       let ie = getInterfaceById ieId (arp_ift a)
       in checked (\<not> mac_isUnspecified (srcMACAddress arp)) (OppError ''wrong ARP packet: source MAC address is empty'')
         (checked (srcIPAddress arp \<noteq> 0) (OppError ''wrong ARP packet: source IP address is empty'')
         (let mergeFlag = (arpCache a (srcIPAddress arp) \<noteq> None)
          in andThen (if mergeFlag then updateARPCache (srcIPAddress arp) (srcMACAddress arp) now a else Inr a) (\<lambda>a.
             let (a, recognized) = addressRecognized (destIPAddress arp) ie a
             in if recognized
                then andThen (if \<not> mergeFlag then learn arp ie now a else Inr a) (answer arp ie)
                else Inr a))))"

section \<open>Dispatch\<close>

text \<open>
  The events: a timeout message, which the kernel hands over at its time and forgets, an ARP packet with the
  interface it came by, or a packet from above.
\<close>

datatype ArpEvent =
    TimerFired nat
  | ArrivedARP ARPPacket "int option"
  | Outbound Msg "(int \<times> IPAddress) option"

fun ARP_handleMessage :: "ArpEvent \<Rightarrow> simtime \<Rightarrow> ARP \<Rightarrow> ARP res" where
  "ARP_handleMessage (TimerFired t) now a = (case map_of (arpTimers a) t of
     None \<Rightarrow> Inl (KernelError ''no such event'')
   | Some (due, key) \<Rightarrow> if due \<noteq> now then Inl (KernelError ''no such event'')
       else requestTimedOut t key now (a\<lparr>arpTimers := filter (\<lambda>(i, _). i \<noteq> t) (arpTimers a)\<rparr>))"
| "ARP_handleMessage (ArrivedARP arp decision) now a = processARPPacket arp decision now a"
| "ARP_handleMessage (Outbound msg decision) now a = processOutboundPacket msg decision now a"

end
