(* ===== verification/ARP_Props.thy ===== *)
theory ARP_Props imports ARP_Module
begin

text \<open>
  Properties of address resolution: cache, timers and waiting packets stay consistent; what waits for an
  address is sent in order when the reply comes, and dropped after the last retry.
\<close>

section \<open>The invariant\<close>

definition waitingFor :: "(IPAddress \<rightharpoonup> ARPCacheEntry) \<Rightarrow> IPAddress \<Rightarrow> Msg list" where
  "waitingFor cache key = (case cache key of None \<Rightarrow> [] | Some e \<Rightarrow> pendingPackets e)"

definition entryOk :: "int \<Rightarrow> ARPCacheEntry \<Rightarrow> bool" where
  "entryOk rc e \<longleftrightarrow> (if pending e then timer e \<noteq> None \<and> 0 \<le> numRetries e \<and> (numRetries e = 0 \<or> numRetries e < rc)
     else timer e = None \<and> pendingPackets e = [])"

text \<open>The timers are exactly those of the pending entries, one each.\<close>

definition timerOf :: "(IPAddress \<rightharpoonup> ARPCacheEntry) \<Rightarrow> IPAddress \<Rightarrow> nat option" where
  "timerOf cache key = (case cache key of None \<Rightarrow> None | Some e \<Rightarrow> timer e)"

definition timers_inv :: "ARP \<Rightarrow> bool" where
  "timers_inv a \<longleftrightarrow> distinct (map fst (arpTimers a)) \<and>
     (\<forall>t k. (\<exists>due. (t, due, k) \<in> set (arpTimers a)) \<longleftrightarrow> timerOf (arpCache a) k = Some t) \<and>
     (\<forall>(t, _) \<in> set (arpTimers a). t < nextTimer a)"

definition queue_inv :: "ARP \<Rightarrow> bool" where
  "queue_inv a \<longleftrightarrow> distinct (map fst (pendingQueue a)) \<and>
     set (pendingQueue a) = (\<Union>k. set (waitingFor (arpCache a) k)) \<and>
     (\<forall>k. distinct (map fst (waitingFor (arpCache a) k))) \<and>
     (\<forall>k k'. k \<noteq> k' \<longrightarrow> fst ` set (waitingFor (arpCache a) k) \<inter> fst ` set (waitingFor (arpCache a) k') = {})"

definition arp_inv :: "ARP \<Rightarrow> bool" where
  "arp_inv a \<longleftrightarrow> (\<forall>k e. arpCache a k = Some e \<longrightarrow> entryOk (retryCount a) e) \<and> timers_inv a \<and> queue_inv a"

definition core where
  "core a = (arpCache a, pendingQueue a, arpTimers a, nextTimer a, retryCount a)"

lemma arp_inv_core: "core a = core b \<Longrightarrow> arp_inv a = arp_inv b"
  by (simp add: core_def arp_inv_def timers_inv_def queue_inv_def)

lemma waitingFor_upd: "waitingFor (c(key := v)) k = (if k = key then (case v of None \<Rightarrow> [] | Some e \<Rightarrow> pendingPackets e) else waitingFor c k)"
  by (simp add: waitingFor_def)

lemma timerOf_upd: "timerOf (c(key := v)) k = (if k = key then (case v of None \<Rightarrow> None | Some e \<Rightarrow> timer e) else timerOf c k)"
  by (simp add: timerOf_def)

text \<open>Every handler changes one entry, with its timer and its packets.\<close>

lemma timers_change:
  assumes inv: "timers_inv a" and cache: "arpCache a' = (arpCache a)(key := v)"
    and T: "T = (case v of None \<Rightarrow> None | Some e \<Rightarrow> timer e)"
    and timers: "arpTimers a' = filter (\<lambda>(t, _). Some t \<noteq> timerOf (arpCache a) key) (arpTimers a) @
      (case T of None \<Rightarrow> [] | Some t \<Rightarrow> [(t, due, key)])"
    and nx: "nextTimer a \<le> nextTimer a'" "\<And>t. T = Some t \<Longrightarrow> t < nextTimer a' \<and> (Some t = timerOf (arpCache a) key \<or> nextTimer a \<le> t)"
  shows "timers_inv a'"
proof -
  note inv' = inv [unfolded timers_inv_def]
  have fresh: "t \<notin> fst ` set (filter (\<lambda>(t, _). Some t \<noteq> timerOf (arpCache a) key) (arpTimers a))" if "T = Some t" for t
    using nx(2) [OF that] inv' by fastforce
  have "distinct (map fst (filter (\<lambda>(t, _). Some t \<noteq> timerOf (arpCache a) key) (arpTimers a)))"
    using inv' by (simp add: distinct_map_filter)
  with fresh have 1: "distinct (map fst (arpTimers a'))" unfolding timers by (cases T) auto
  have uniq: "k = k'" if "(t, d, k) \<in> set (arpTimers a)" "(t, d', k') \<in> set (arpTimers a)" for t d d' k k'
    using inv' that by (metis Pair_inject map_of_is_SomeI option.inject)
  have 2: "(\<exists>due. (t, due, k) \<in> set (arpTimers a')) \<longleftrightarrow> timerOf (arpCache a') k = Some t" for t k
  proof (cases "k = key")
    case True
    have "\<not> (\<exists>d. (t, d, key) \<in> set (arpTimers a) \<and> Some t \<noteq> timerOf (arpCache a) key)" using inv' by metis
    then show ?thesis using True unfolding timers cache timerOf_upd T [symmetric] by (cases T) auto
  next
    case False
    have "Some t \<noteq> timerOf (arpCache a) key" if "(t, d, k) \<in> set (arpTimers a)" for d
      using inv' uniq that False by metis
    then have "(\<exists>due. (t, due, k) \<in> set (arpTimers a')) \<longleftrightarrow> (\<exists>due. (t, due, k) \<in> set (arpTimers a))"
      using False unfolding timers by (cases T) auto
    then show ?thesis using inv' False unfolding cache timerOf_upd by simp
  qed
  have "\<forall>(t, _) \<in> set (arpTimers a'). t < nextTimer a'"
    using inv' nx unfolding timers by (cases T) (auto dest: order_less_le_trans)
  with 1 2 show ?thesis unfolding timers_inv_def by blast
qed

lemma queue_change:
  assumes inv: "queue_inv a" and cache: "arpCache a' = (arpCache a)(key := v)"
    and W: "W = (case v of None \<Rightarrow> [] | Some e \<Rightarrow> pendingPackets e)"
    and queue: "distinct (map fst (pendingQueue a'))"
      "set (pendingQueue a') = (set (pendingQueue a) - set (waitingFor (arpCache a) key)) \<union> set W"
    and new: "distinct (map fst W)" "\<And>k. k \<noteq> key \<Longrightarrow> fst ` set W \<inter> fst ` set (waitingFor (arpCache a) k) = {}"
  shows "queue_inv a'"
proof -
  note inv' = inv [unfolded queue_inv_def]
  have disj: "set (waitingFor (arpCache a) k) \<inter> set (waitingFor (arpCache a) key) = {}" if "k \<noteq> key" for k
    using inv' that by blast
  have w: "waitingFor (arpCache a') k = (if k = key then W else waitingFor (arpCache a) k)" for k
    by (simp add: cache waitingFor_upd W)
  have "set (pendingQueue a') = (\<Union>k. set (waitingFor (arpCache a') k))"
    unfolding queue(2) w using inv' disj by (auto split: if_splits) blast+
  moreover have "fst ` set (waitingFor (arpCache a') k) \<inter> fst ` set (waitingFor (arpCache a') k') = {}" if "k \<noteq> k'" for k k'
    using inv' that new(2) unfolding w by (auto split: if_splits)
  ultimately show ?thesis using inv' queue(1) new(1) unfolding queue_inv_def w by auto
qed


lemma queue_change_drop:
  assumes "queue_inv a" "arpCache a' = (arpCache a)(key := v)" "case v of None \<Rightarrow> True | Some e \<Rightarrow> pendingPackets e = []"
    and "pendingQueue a' = filter (\<lambda>m. fst m \<notin> fst ` set (waitingFor (arpCache a) key)) (pendingQueue a)"
  shows "queue_inv a'"
proof (rule queue_change [OF assms(1,2) refl])
  have W: "(case v of None \<Rightarrow> [] | Some e \<Rightarrow> pendingPackets e) = []" using assms(3) by (cases v) simp_all
  have d: "distinct (map fst (pendingQueue a))" and sub: "set (waitingFor (arpCache a) key) \<subseteq> set (pendingQueue a)"
    using assms(1) unfolding queue_inv_def by blast+
  show "distinct (map fst (pendingQueue a'))" unfolding assms(4) by (rule distinct_map_filter [OF d])
  have "m \<in> set (waitingFor (arpCache a) key)"
    if m: "m \<in> set (pendingQueue a)" and f: "fst m \<in> fst ` set (waitingFor (arpCache a) key)" for m
  proof -
    from f obtain m' where m': "fst m = fst m'" "m' \<in> set (waitingFor (arpCache a) key)" by blast
    with sub have "m' \<in> set (pendingQueue a)" by blast
    with d m m'(1) have "m = m'" by (metis distinct_map inj_on_def)
    with m'(2) show ?thesis by simp
  qed
  then show "set (pendingQueue a') = (set (pendingQueue a) - set (waitingFor (arpCache a) key)) \<union>
      set (case v of None \<Rightarrow> [] | Some e \<Rightarrow> pendingPackets e)"
    unfolding assms(4) W by auto
  show "distinct (map fst (case v of None \<Rightarrow> [] | Some e \<Rightarrow> pendingPackets e))" unfolding W by simp
  show "fst ` set (case v of None \<Rightarrow> [] | Some e \<Rightarrow> pendingPackets e) \<inter> fst ` set (waitingFor (arpCache a) k) = {}" for k
    unfolding W by simp
qed

section \<open>What the handlers do\<close>

lemma fold_removePending: "fold removePending ms q = filter (\<lambda>m. fst m \<notin> fst ` set ms) q"
  by (induction ms arbitrary: q) (simp_all add: removePending_def conj_commute cong: filter_cong)

lemma sendNic_Inr [res_simps]: "sendNic g out a = Inr a' \<longleftrightarrow> nicOK g a \<and> a' = a\<lparr>arp_sent := arp_sent a @ [out]\<rparr>"
  by (auto simp: sendNic_def res_simps)

lemma core_simps [simp]: "core (a\<lparr>arp_sent := s\<rparr>) = core a" "core (a\<lparr>numRequestsSent := n\<rparr>) = core a"
    "core (a\<lparr>arp_ift := i\<rparr>) = core a" "core (a\<lparr>arp_rt := r\<rparr>) = core a" "core (a\<lparr>flag_for_packet_sent_out := f\<rparr>) = core a"
    "core (a\<lparr>numRepliesSent := n\<rparr>) = core a" "core (a\<lparr>numFailedResolutions := n\<rparr>) = core a"
    "core (a\<lparr>numResolutions := n\<rparr>) = core a"
  by (simp_all add: core_def)

lemma sendARPRequest_Inr:
  "sendARPRequest ie key a = Inr a' \<Longrightarrow> \<exists>out. a' = a\<lparr>arp_sent := arp_sent a @ [out], numRequestsSent := numRequestsSent a + 1\<rparr>"
  by (auto simp: sendARPRequest_def sendARPToNIC_def res_simps)

lemma initiate_core:
  assumes "initiateARPResolution key now a = Inr a'"
  obtains e where "arpCache a key = Some e" "core a' = ((arpCache a)(key \<mapsto> e\<lparr>pending := True, numRetries := 0, lastUpdate := 0,
      timer := Some (nextTimer a)\<rparr>), pendingQueue a, arpTimers a @ [(nextTimer a, now + retryTimeout a, key)],
      Suc (nextTimer a), retryCount a)"
proof -
  from assms obtain e where e: "arpCache a key = Some e"
    by (auto simp: initiateARPResolution_def Let_def res_simps derefEntry_def updEntry_def split: option.splits)
  with assms obtain ie a1 where "sendARPRequest ie key (updEntry key (\<lambda>e. e\<lparr>pending := True, numRetries := 0, lastUpdate := 0\<rparr>) a) = Inr a1"
      "a' = (updEntry key (\<lambda>e. e\<lparr>timer := Some (nextTimer a1)\<rparr>) a1)\<lparr>nextTimer := nextTimer a1 + 1,
         arpTimers := arpTimers a1 @ [(nextTimer a1, now + retryTimeout a1, key)], numResolutions := numResolutions a1 + 1\<rparr>"
    by (auto simp: initiateARPResolution_def Let_def res_simps derefEntry_def updEntry_def)
  with sendARPRequest_Inr e that show ?thesis by (fastforce simp: core_def updEntry_def)
qed

lemma sendPending_core:
  assumes "sendPending key mac msgs a = Inr a'" "arpCache a key = Some e"
  shows "core a' = ((arpCache a)(key \<mapsto> (if msgs = [] then e else e\<lparr>pendingPackets := []\<rparr>)), fold removePending msgs (pendingQueue a),
    arpTimers a, nextTimer a, retryCount a)"
  using assms
proof (induction msgs arbitrary: a e)
  case Nil
  then show ?case by (auto simp: core_def)
next
  case (Cons m msgs)
  let ?a = "(updEntry key (\<lambda>e. e\<lparr>pendingPackets := msgs\<rparr>) a)\<lparr>pendingQueue := removePending m (pendingQueue a)\<rparr>"
  from Cons.prems obtain a1 out where a1: "sendPending key mac msgs a1 = Inr a'" "a1 = ?a\<lparr>arp_sent := arp_sent ?a @ [out]\<rparr>"
    by (auto simp: Let_def res_simps sendPacketToNIC_def)
  from Cons.prems(2) a1(2) have "arpCache a1 key = Some (e\<lparr>pendingPackets := msgs\<rparr>)" by (simp add: updEntry_def)
  from Cons.IH [OF a1(1) this] Cons.prems(2) show ?case by (auto simp: core_def a1(2) updEntry_def)
qed

text \<open>An entry that is told the hardware address.\<close>

definition resolved :: "MACAddress \<Rightarrow> simtime \<Rightarrow> ARPCacheEntry \<Rightarrow> ARPCacheEntry" where
  "resolved mac now e = e\<lparr>pending := False, timer := None, numRetries := (if pending e then 0 else numRetries e),
     macAddress := mac, lastUpdate := now, pendingPackets := []\<rparr>"

lemma updateARPCache_core:
  assumes "updateARPCache key mac now a = Inr a'" "\<And>e. arpCache a key = Some e \<Longrightarrow> entryOk rc e"
  obtains e where "arpCache a key = Some e" "core a' = ((arpCache a)(key \<mapsto> resolved mac now e),
      filter (\<lambda>m. fst m \<notin> fst ` set (pendingPackets e)) (pendingQueue a),
      filter (\<lambda>(t, _). Some t \<noteq> timer e) (arpTimers a), nextTimer a, retryCount a)"
proof -
  from assms(1) obtain e where e: "arpCache a key = Some e"
    by (auto simp: updateARPCache_def stopTimer_def res_simps derefEntry_def split: option.splits)
  note ok = assms(2) [OF e]
  obtain a1 where a1: "stopTimer key a = Inr a1" "sendPending key mac (pendingPackets (the (arpCache a1 key)))
      (updEntry key (\<lambda>e. e\<lparr>macAddress := mac, lastUpdate := now\<rparr>) a1) = Inr a'" "arpCache a1 key \<noteq> None"
    using assms(1) by (auto simp: updateARPCache_def res_simps Let_def derefEntry_def updEntry_def split: option.splits)
  have core1: "core a1 = ((arpCache a)(key \<mapsto> e\<lparr>pending := False, timer := None, numRetries := (if pending e then 0 else numRetries e)\<rparr>),
      pendingQueue a, filter (\<lambda>(t, _). Some t \<noteq> timer e) (arpTimers a), nextTimer a, retryCount a)"
  proof (cases "pending e")
    case True
    with ok obtain t where "timer e = Some t" by (auto simp: entryOk_def)
    then show ?thesis using True e a1(1)
      by (auto simp: stopTimer_def derefEntry_def updEntry_def core_def)
  next
    case False
    with ok have "timer e = None" by (simp add: entryOk_def)
    then show ?thesis using False e a1(1)
      by (auto simp: stopTimer_def derefEntry_def core_def)
  qed
  then have c: "arpCache a1 key = Some (e\<lparr>pending := False, timer := None, numRetries := (if pending e then 0 else numRetries e)\<rparr>)"
    by (simp add: core_def)
  have "arpCache (updEntry key (\<lambda>e. e\<lparr>macAddress := mac, lastUpdate := now\<rparr>) a1) key =
      Some (e\<lparr>pending := False, timer := None, numRetries := (if pending e then 0 else numRetries e), macAddress := mac, lastUpdate := now\<rparr>)"
    by (simp add: updEntry_def c)
  from sendPending_core [OF a1(2) this] core1 c
  have "core a' = ((arpCache a)(key \<mapsto> resolved mac now e),
      filter (\<lambda>m. fst m \<notin> fst ` set (pendingPackets e)) (pendingQueue a),
      filter (\<lambda>(t, _). Some t \<noteq> timer e) (arpTimers a), nextTimer a, retryCount a)"
    by (cases "pendingPackets e") (auto simp: core_def updEntry_def resolved_def fold_removePending removePending_def)
  with e that show ?thesis by blast
qed


section \<open>Preservation\<close>

lemma entries_upd:
  "(\<And>k e. c k = Some e \<Longrightarrow> entryOk rc e) \<Longrightarrow> (\<And>e. v = Some e \<Longrightarrow> entryOk rc e) \<Longrightarrow> (c(key := v)) k = Some e \<Longrightarrow> entryOk rc e"
  by (auto split: if_splits)

lemma waitingFor_eq: "c key = Some e \<Longrightarrow> waitingFor c key = pendingPackets e"
  by (simp add: waitingFor_def)

lemma timerOf_eq: "c key = Some e \<Longrightarrow> timerOf c key = timer e"
  by (simp add: timerOf_def)

lemma arp_inv_resolved:
  assumes inv: "arp_inv a" and "updateARPCache key mac now a = Inr a'"
  shows "arp_inv a'" "retryCount a' = retryCount a"
proof -
  have ok: "entryOk (retryCount a) e" if "arpCache a k = Some e" for k e
    using inv that by (simp add: arp_inv_def)
  from updateARPCache_core [OF assms(2), of "retryCount a"] ok
  obtain e where e: "arpCache a key = Some e" and c: "core a' = ((arpCache a)(key \<mapsto> resolved mac now e),
      filter (\<lambda>m. fst m \<notin> fst ` set (pendingPackets e)) (pendingQueue a),
      filter (\<lambda>(t, _). Some t \<noteq> timer e) (arpTimers a), nextTimer a, retryCount a)" by blast
  then show rc: "retryCount a' = retryCount a" by (simp add: core_def)
  have cache: "arpCache a' = (arpCache a)(key := Some (resolved mac now e))" using c by (simp add: core_def)
  have "timers_inv a'"
    by (rule timers_change [OF _ cache refl, of 0])
      (use inv c in \<open>auto simp: arp_inv_def core_def resolved_def timerOf_eq [of "arpCache a" key, OF e]\<close>)
  moreover have "queue_inv a'"
    by (rule queue_change_drop [OF _ cache])
      (use inv c in \<open>auto simp: arp_inv_def core_def resolved_def waitingFor_eq [of "arpCache a" key, OF e]\<close>)
  moreover have "entryOk (retryCount a) (resolved mac now e)" by (simp add: entryOk_def resolved_def)
  ultimately show "arp_inv a'" using ok unfolding arp_inv_def cache rc by (auto split: if_splits)
qed

lemma arp_inv_queued:
  assumes inv: "arp_inv a" and cache: "arpCache a' = (arpCache a)(key \<mapsto> e')"
    and e': "entryOk (retryCount a) e'" "pendingPackets e' = waitingFor (arpCache a) key @ [msg]"
    and q: "pendingQueue a' = pendingQueue a @ [msg]" "fst msg \<notin> fst ` set (pendingQueue a)" "retryCount a' = retryCount a"
    and t: "timers_inv a'"
  shows "arp_inv a'"
proof -
  have q_inv: "queue_inv a" using inv by (simp add: arp_inv_def)
  then have sub: "set (waitingFor (arpCache a) k) \<subseteq> set (pendingQueue a)" for k unfolding queue_inv_def by blast
  have "queue_inv a'"
  proof (rule queue_change [OF q_inv cache refl])
    show "distinct (map fst (pendingQueue a'))" using q q_inv by (simp add: queue_inv_def)
    show "set (pendingQueue a') = set (pendingQueue a) - set (waitingFor (arpCache a) key) \<union>
        set (case Some e' of None \<Rightarrow> [] | Some e \<Rightarrow> pendingPackets e)"
      using sub [of key] by (auto simp: q(1) e'(2))
    show "distinct (map fst (case Some e' of None \<Rightarrow> [] | Some e \<Rightarrow> pendingPackets e))"
      using q_inv q(2) sub [of key] by (auto simp: e'(2) queue_inv_def)
    fix k assume "k \<noteq> key"
    moreover have "fst msg \<notin> fst ` set (waitingFor (arpCache a) k)" using q(2) sub [of k] by blast
    ultimately show "fst ` set (case Some e' of None \<Rightarrow> [] | Some e \<Rightarrow> pendingPackets e) \<inter> fst ` set (waitingFor (arpCache a) k) = {}"
      using q_inv unfolding queue_inv_def by (auto simp: e'(2))
  qed
  moreover have "entryOk (retryCount a) e" if "(arpCache a') k = Some e" for k e
    using inv that e'(1) unfolding cache arp_inv_def by (auto split: if_splits)
  ultimately show ?thesis using t q(3) by (auto simp: arp_inv_def)
qed

lemma arp_inv_pending:
  assumes inv: "arp_inv a" "arpCache a key = Some e" "pending e" "fst msg \<notin> fst ` set (pendingQueue a)"
  shows "arp_inv (queueUp msg key a)"
proof (rule arp_inv_queued [OF inv(1), of _ key "e\<lparr>pendingPackets := pendingPackets e @ [msg]\<rparr>"])
  have t: "timerOf (arpCache (queueUp msg key a)) k = timerOf (arpCache a) k" for k
    by (simp add: queueUp_def updEntry_def timerOf_def inv(2))
  show "timers_inv (queueUp msg key a)"
    using inv(1) unfolding arp_inv_def timers_inv_def t by (simp add: queueUp_def updEntry_def)
  have "entryOk (retryCount a) e" using inv(1,2) by (simp add: arp_inv_def)
  then show "entryOk (retryCount a) (e\<lparr>pendingPackets := pendingPackets e @ [msg]\<rparr>)" using inv(3) by (simp add: entryOk_def)
qed (use inv in \<open>auto simp: queueUp_def updEntry_def waitingFor_def\<close>)

text \<open>A resolution starts for an entry that is new or not pending.\<close>

lemma arp_inv_start:
  assumes inv: "arp_inv a" and old: "\<And>e. arpCache a key = Some e \<Longrightarrow> \<not> pending e"
    and e: "\<not> pending e" "pendingPackets e = []"
    and r: "initiateARPResolution key now (a\<lparr>arpCache := (arpCache a)(key \<mapsto> e)\<rparr>) = Inr a1"
    and fresh: "fst msg \<notin> fst ` set (pendingQueue a)"
  shows "arp_inv (queueUp msg key a1)"
proof -
  let ?e = "e\<lparr>pending := True, numRetries := 0, lastUpdate := 0, timer := Some (nextTimer a)\<rparr>"
  let ?e' = "?e\<lparr>pendingPackets := [msg]\<rparr>"
  from initiate_core [OF r] have c: "core a1 = ((arpCache a)(key \<mapsto> ?e), pendingQueue a,
      arpTimers a @ [(nextTimer a, now + retryTimeout a, key)], Suc (nextTimer a), retryCount a)"
    by (auto simp: core_def)
  have old': "timerOf (arpCache a) key = None" "waitingFor (arpCache a) key = []"
    using inv old by (cases "arpCache a key"; auto simp: timerOf_def waitingFor_def arp_inv_def entryOk_def)+
  have cache: "arpCache (queueUp msg key a1) = (arpCache a)(key \<mapsto> ?e')"
    using c e(2) by (simp add: core_def queueUp_def updEntry_def)
  have rest: "pendingQueue (queueUp msg key a1) = pendingQueue a @ [msg]" "retryCount (queueUp msg key a1) = retryCount a"
    "arpTimers (queueUp msg key a1) = arpTimers a @ [(nextTimer a, now + retryTimeout a, key)]"
    "nextTimer (queueUp msg key a1) = Suc (nextTimer a)"
    using c by (simp_all add: core_def queueUp_def updEntry_def)
  show ?thesis
  proof (rule arp_inv_queued [OF inv cache])
    show "timers_inv (queueUp msg key a1)"
      by (rule timers_change [OF _ cache refl, of "now + retryTimeout a"])
        (use inv in \<open>auto simp: arp_inv_def rest old'\<close>)
  qed (use fresh rest old' in \<open>auto simp: entryOk_def\<close>)
qed

lemma arp_inv_timeout:
  assumes inv: "arp_inv a" and ev: "map_of (arpTimers a) t = Some (due, key)"
    and r: "requestTimedOut t key now (a\<lparr>arpTimers := filter (\<lambda>(i, _). i \<noteq> t) (arpTimers a)\<rparr>) = Inr a'"
  shows "arp_inv a'"
proof -
  let ?a = "a\<lparr>arpTimers := filter (\<lambda>(i, _). i \<noteq> t) (arpTimers a)\<rparr>"
  have "(t, due, key) \<in> set (arpTimers a)" using ev by (rule map_of_SomeD)
  then have t: "timerOf (arpCache a) key = Some t" using inv unfolding arp_inv_def timers_inv_def by blast
  then obtain e where e: "arpCache a key = Some e" "timer e = Some t" by (auto simp: timerOf_def split: option.splits)
  have ok: "entryOk (retryCount a) e'" if "arpCache a k = Some e'" for k e' using inv that by (simp add: arp_inv_def)
  from ok [OF e(1)] e(2) have p: "pending e" "0 \<le> numRetries e" by (auto simp: entryOk_def split: if_splits)
  have fresh: "t < nextTimer a" using inv ev unfolding arp_inv_def timers_inv_def by (auto dest: map_of_SomeD)
  show ?thesis
  proof (cases "numRetries e + 1 < retryCount a")
    case True
    let ?e = "e\<lparr>numRetries := numRetries e + 1\<rparr>"
    from r True e obtain ie a1 where a1: "sendARPRequest ie key (updEntry key (\<lambda>e. e\<lparr>numRetries := numRetries e + 1\<rparr>) ?a) = Inr a1"
        "a' = a1\<lparr>arpTimers := arpTimers a1 @ [(t, now + retryTimeout a1, key)]\<rparr>"
      by (auto simp: requestTimedOut_def Let_def res_simps derefEntry_def updEntry_def)
    have c: "core a' = ((arpCache a)(key \<mapsto> ?e), pendingQueue a, filter (\<lambda>(i, _). i \<noteq> t) (arpTimers a) @ [(t, now + retryTimeout a, key)],
        nextTimer a, retryCount a)"
      using sendARPRequest_Inr [OF a1(1)] e by (auto simp: a1(2) core_def updEntry_def)
    then have cache: "arpCache a' = (arpCache a)(key := Some ?e)" by (simp add: core_def)
    have "timers_inv a'"
      by (rule timers_change [OF _ cache refl, of "now + retryTimeout a"])
        (use inv c fresh e(2) in \<open>auto simp: arp_inv_def core_def t split: prod.splits intro!: filter_cong\<close>)
    moreover have w: "waitingFor (arpCache a') k = waitingFor (arpCache a) k" for k
      by (simp add: cache waitingFor_upd waitingFor_eq [of "arpCache a" key, OF e(1)])
    have "queue_inv a'" using inv c unfolding arp_inv_def queue_inv_def w by (simp add: core_def)
    moreover have "entryOk (retryCount a) ?e" using p True e(2) by (simp add: entryOk_def)
    ultimately show ?thesis using ok c cache unfolding arp_inv_def by (auto simp: core_def split: if_splits)
  next
    case False
    have c: "core a' = ((arpCache a)(key := None), filter (\<lambda>m. fst m \<notin> fst ` set (pendingPackets e)) (pendingQueue a),
        filter (\<lambda>(i, _). i \<noteq> t) (arpTimers a), nextTimer a, retryCount a)"
      using r False e by (auto simp: requestTimedOut_def Let_def derefEntry_def updEntry_def core_def fold_removePending)
    then have cache: "arpCache a' = (arpCache a)(key := None)" by (simp add: core_def)
    have "timers_inv a'"
      by (rule timers_change [OF _ cache refl, of 0])
        (use inv c in \<open>auto simp: arp_inv_def core_def t split: prod.splits intro!: filter_cong\<close>)
    moreover have "queue_inv a'"
      by (rule queue_change_drop [OF _ cache]) (use inv c in \<open>auto simp: arp_inv_def core_def waitingFor_eq [of "arpCache a" key, OF e(1)]\<close>)
    ultimately show ?thesis using ok c cache unfolding arp_inv_def by (auto simp: core_def split: if_splits)
  qed
qed


lemma arp_inv_new:
  assumes inv: "arp_inv a" and none: "arpCache a key = None"
  shows "arp_inv (a\<lparr>arpCache := (arpCache a)(key \<mapsto> ARPCacheEntry_new\<lparr>entryIe := i\<rparr>)\<rparr>)"
proof -
  have t: "timerOf ((arpCache a)(key \<mapsto> ARPCacheEntry_new\<lparr>entryIe := i\<rparr>)) = timerOf (arpCache a)"
    and w: "waitingFor ((arpCache a)(key \<mapsto> ARPCacheEntry_new\<lparr>entryIe := i\<rparr>)) = waitingFor (arpCache a)"
    using none by (auto simp: timerOf_def waitingFor_def ARPCacheEntry_new_def)
  then show ?thesis using inv
    by (auto simp: arp_inv_def timers_inv_def queue_inv_def t w entryOk_def ARPCacheEntry_new_def)
qed

lemma arp_inv_resolveAndSend:
  assumes inv: "arp_inv a" and r: "resolveAndSend msg ie key now a = Inr a'" and fresh: "fst msg \<notin> fst ` set (pendingQueue a)"
  shows "arp_inv a'"
proof -
  have sent: "arp_inv b'" if "sendPacketToNIC msg ie mac a = Inr b'" for mac b'
    using that inv arp_inv_core [of b' a] by (auto simp: sendPacketToNIC_def res_simps)
  show ?thesis
  proof (cases "isMulticast key")
    case True
    then show ?thesis using r sent by (simp add: resolveAndSend_def)
  next
    case mc: False
    show ?thesis
    proof (cases "arpCache a key")
      case None
      with r mc obtain a1 where a1: "a' = queueUp msg key a1" "initiateARPResolution key now
          (a\<lparr>arpCache := (arpCache a)(key \<mapsto> ARPCacheEntry_new\<lparr>entryIe := Some (interfaceId ie)\<rparr>)\<rparr>) = Inr a1"
        by (auto simp: resolveAndSend_def andThen_Inr_iff)
      show ?thesis unfolding a1(1)
        by (rule arp_inv_start [OF inv _ _ _ a1(2) fresh]) (simp_all add: None ARPCacheEntry_new_def)
    next
      case (Some e)
      show ?thesis
      proof (cases "pending e")
        case True
        then show ?thesis using r mc Some arp_inv_pending [OF inv Some True fresh] by (simp add: resolveAndSend_def)
      next
        case False
        then have "pendingPackets e = []" using inv Some unfolding arp_inv_def entryOk_def by auto
        moreover have "updEntry key (\<lambda>e. e\<lparr>entryIe := Some (interfaceId ie)\<rparr>) a =
            a\<lparr>arpCache := (arpCache a)(key \<mapsto> e\<lparr>entryIe := Some (interfaceId ie)\<rparr>)\<rparr>" by (simp add: updEntry_def Some)
        ultimately show ?thesis using r mc Some False arp_inv_start [OF inv _ _ _ _ fresh, of key "e\<lparr>entryIe := Some (interfaceId ie)\<rparr>"] sent
          by (auto simp: resolveAndSend_def andThen_Inr_iff split: if_splits)
      qed
    qed
  qed
qed

lemma arp_inv_outbound:
  assumes inv: "arp_inv a" and r: "processOutboundPacket msg decision now a = Inr a'" and fresh: "fst msg \<notin> fst ` set (pendingQueue a)"
  shows "arp_inv a'"
proof -
  have broken: "core a1 = core a" if "link_broken g a = Inr (a1, i)" for g a1 i
    using that by (auto simp: link_broken_def Let_def res_simps split: prod.splits if_splits)
  have sent: "arp_inv a'" if "sendNic g out a1 = Inr a'" "core a1 = core a" for g out a1
    using that inv arp_inv_core [of a' a] by (auto simp: res_simps)
  from r obtain i nh ie where d: "decision = Some (i, nh)" "getInterfaceById i (arp_ift a) = Some ie"
    by (auto simp: processOutboundPacket_def split: option.splits)
  show ?thesis
  proof (cases "broadcast ie")
    case True
    with r d obtain key where "resolveAndSend msg ie key now a = Inr a'"
      by (auto simp: processOutboundPacket_def Let_def andThen_Inr_iff)
    then show ?thesis by (rule arp_inv_resolveAndSend [OF inv _ fresh])
  next
    case False
    let ?g = "nwLayerGateIndex ie"
    from r d False consider "sendNic ?g (NicOut ?g msg None) a = Inr a'"
      | a1 n where "link_broken ?g a = Inr (a1, n)" "sendNic n (NicOut n msg None) a1 = Inr a'"
      by (auto simp: processOutboundPacket_def Let_def andThen_Inr_iff checked_Inr_iff split: if_splits)
    then show ?thesis using sent broken by cases blast+
  qed
qed

lemma arp_inv_arrived:
  assumes inv: "arp_inv a" and r: "processARPPacket arp decision now a = Inr a'"
  shows "arp_inv a'"
proof -
  have recog: "core (fst (addressRecognized d ie b)) = core b" for d ie b
    by (simp add: addressRecognized_def Let_def split_beta)
  have ans: "core b' = core b" if "answer arp ie b = Inr b'" for ie b b'
    using that by (auto simp: answer_def res_simps sendARPToNIC_def split: if_splits option.splits)
  from r obtain ie a1 where a1: "(if arpCache a (srcIPAddress arp) \<noteq> None
         then updateARPCache (srcIPAddress arp) (srcMACAddress arp) now a else Inr a) = Inr a1"
      and a2: "(let (a2, recognized) = addressRecognized (destIPAddress arp) ie a1 in if recognized
         then andThen (if \<not> arpCache a (srcIPAddress arp) \<noteq> None then learn arp ie now a2 else Inr a2) (answer arp ie)
         else Inr a2) = Inr a'"
    by (auto simp: processARPPacket_def Let_def res_simps simp del: not_None_eq not_Some_eq split: option.splits)
  have inv1: "arp_inv a1" using a1 arp_inv_resolved [OF inv] inv by (auto split: if_splits)
  obtain a2 b where b: "addressRecognized (destIPAddress arp) ie a1 = (a2, b)" by (cases "addressRecognized (destIPAddress arp) ie a1")
  with recog [of "destIPAddress arp" ie a1] have c2: "core a2 = core a1" by simp
  with inv1 have inv2: "arp_inv a2" using arp_inv_core by blast
  have "arp_inv a3" if "learn arp ie now a2 = Inr a3" "arpCache a (srcIPAddress arp) = None" for a3
  proof -
    have "a1 = a" using a1 that(2) by simp
    with c2 that(2) have "arpCache a2 (srcIPAddress arp) = None" by (simp add: core_def)
    from arp_inv_new [OF inv2 this] show ?thesis using that(1) arp_inv_resolved unfolding learn_def by blast
  qed
  then have inv3: "arp_inv a3"
    if "(if arpCache a (srcIPAddress arp) = None then learn arp ie now a2 else Inr a2) = Inr a3" for a3
    using that inv2 by (auto split: if_splits)
  show ?thesis
  proof (cases b)
    case True
    with a2 b obtain a3 where "(if arpCache a (srcIPAddress arp) = None then learn arp ie now a2 else Inr a2) = Inr a3" "answer arp ie a3 = Inr a'"
      by (auto simp: andThen_Inr_iff)
    with inv3 ans arp_inv_core show ?thesis by blast
  next
    case False
    with a2 b inv2 show ?thesis by simp
  qed
qed

section \<open>Every reachable state\<close>

text \<open>
  A message is in one place at a time: what comes from above is not waiting already. Other modules change the
  interface and the routing table.
\<close>

fun newMessage :: "ArpEvent \<Rightarrow> ARP \<Rightarrow> bool" where
  "newMessage (Outbound msg decision) a = (fst msg \<notin> fst ` set (pendingQueue a))"
| "newMessage _ a = True"

inductive arp_reachable :: "ARP \<Rightarrow> bool" where
  init: "arp_reachable (ARP_initialize ift rt rto rc cto proxy gates)"
| step: "arp_reachable a \<Longrightarrow> newMessage ev a \<Longrightarrow> ARP_handleMessage ev now a = Inr a' \<Longrightarrow> arp_reachable a'"
| environment: "arp_reachable a \<Longrightarrow> arp_reachable (a\<lparr>arp_ift := ift, arp_rt := rt, nicConnected := gates\<rparr>)"

lemma arp_inv_reachable: "arp_reachable a \<Longrightarrow> arp_inv a"
proof (induction rule: arp_reachable.induct)
  case init
  show ?case by (simp add: arp_inv_def ARP_initialize_def timers_inv_def queue_inv_def timerOf_def waitingFor_def)
next
  case (step a ev now a')
  then show ?case
    by (cases ev) (auto intro: arp_inv_timeout arp_inv_arrived arp_inv_outbound split: option.splits if_splits)
next
  case environment
  then show ?case by (simp add: arp_inv_def timers_inv_def queue_inv_def)
qed

text \<open>C34: In every reachable state each address whose resolution is pending has exactly one timeout
  scheduled and no other timeout is, so no resolution hangs and none times out twice; what waits is waiting for
  exactly one address that is being resolved, and nothing waits for an address that is known.\<close>

theorem arp_pending_exact:
  assumes "arp_reachable a"
  shows "(\<forall>key. (\<exists>e. arpCache a key = Some e \<and> pending e) \<longleftrightarrow> (\<exists>!x. x \<in> set (arpTimers a) \<and> snd (snd x) = key)) \<and>
    distinct (map fst (pendingQueue a)) \<and>
    (\<forall>msg. msg \<in> set (pendingQueue a) \<longleftrightarrow> (\<exists>!key. \<exists>e. arpCache a key = Some e \<and> pending e \<and> msg \<in> set (pendingPackets e)))"
proof (intro conjI allI)
  note inv = arp_inv_reachable [OF assms, unfolded arp_inv_def]
  have ok: "entryOk (retryCount a) e" if "arpCache a k = Some e" for k e using inv that by blast
  have ti: "timers_inv a" and qi: "queue_inv a" using inv by blast+
  have t: "(\<exists>due. (t, due, k) \<in> set (arpTimers a)) \<longleftrightarrow> timerOf (arpCache a) k = Some t" for t k
    using ti by (simp add: timers_inv_def)
  have dt: "distinct (map fst (arpTimers a))" using ti by (simp add: timers_inv_def)
  have q1: "set (pendingQueue a) = (\<Union>k. set (waitingFor (arpCache a) k))" using qi by (simp add: queue_inv_def)
  have q2: "k \<noteq> k' \<Longrightarrow> fst ` set (waitingFor (arpCache a) k) \<inter> fst ` set (waitingFor (arpCache a) k') = {}" for k k'
    using qi by (simp add: queue_inv_def)
  have e: "timerOf (arpCache a) k \<noteq> None \<longleftrightarrow> (\<exists>e. arpCache a k = Some e \<and> pending e)" for k
    using ok [of k] by (cases "arpCache a k") (auto simp: timerOf_def entryOk_def split: if_splits)
  show "distinct (map fst (pendingQueue a))" using qi by (simp add: queue_inv_def)
  show "(\<exists>e. arpCache a key = Some e \<and> pending e) \<longleftrightarrow> (\<exists>!x. x \<in> set (arpTimers a) \<and> snd (snd x) = key)" for key
  proof
    assume "\<exists>e. arpCache a key = Some e \<and> pending e"
    with e obtain i where i: "timerOf (arpCache a) key = Some i" by blast
    with t obtain due where due: "(i, due, key) \<in> set (arpTimers a)" by blast
    have "x = (i, due, key)" if x: "x \<in> set (arpTimers a)" "snd (snd x) = key" for x
    proof -
      have "(fst x, fst (snd x), key) \<in> set (arpTimers a)" using x by (metis prod.collapse)
      with t have "timerOf (arpCache a) key = Some (fst x)" by blast
      with i have "fst x = fst (i, due, key)" by simp
      with dt show ?thesis unfolding distinct_map using inj_onD [of fst _ x, OF _ _ x(1) due] by blast
    qed
    then show "\<exists>!x. x \<in> set (arpTimers a) \<and> snd (snd x) = key"
      by (intro ex1I [of _ "(i, due, key)"]) (simp add: due, blast)
  next
    assume "\<exists>!x. x \<in> set (arpTimers a) \<and> snd (snd x) = key"
    then obtain i due where "(i, due, key) \<in> set (arpTimers a)" by (metis prod.collapse)
    with t have "timerOf (arpCache a) key = Some i" by blast
    with e [of key] show "\<exists>e. arpCache a key = Some e \<and> pending e" by simp
  qed
  fix msg
  have w: "msg \<in> set (waitingFor (arpCache a) k) \<longleftrightarrow> (\<exists>e. arpCache a k = Some e \<and> pending e \<and> msg \<in> set (pendingPackets e))" for k
    using ok [of k] by (cases "arpCache a k") (auto simp: waitingFor_def entryOk_def split: if_splits)
  have "k = k'" if "msg \<in> set (waitingFor (arpCache a) k)" "msg \<in> set (waitingFor (arpCache a) k')" for k k'
    using q2 that by blast
  then show "msg \<in> set (pendingQueue a) \<longleftrightarrow> (\<exists>!key. \<exists>e. arpCache a key = Some e \<and> pending e \<and> msg \<in> set (pendingPackets e))"
    unfolding w [symmetric] q1 by blast
qed


section \<open>The course of a resolution\<close>

text \<open>An interface over which requests can be sent: it is registered, connected, and has its addresses.\<close>

definition usable :: "InterfaceEntry \<Rightarrow> ARP \<Rightarrow> bool" where
  "usable ie a \<longleftrightarrow> getInterfaceById (interfaceId ie) (arp_ift a) = Some ie \<and> nicOK (nwLayerGateIndex ie) a \<and>
     (\<exists>d. ipv4data ie = Some d \<and> inetAddr d \<noteq> 0) \<and> \<not> mac_isUnspecified (macAddr ie)"

definition requestOut :: "InterfaceEntry \<Rightarrow> IPAddress \<Rightarrow> ArpOutput" where
  "requestOut ie key = NicOutARP (nwLayerGateIndex ie) (requestPacket (macAddr ie) (inetAddr (the (ipv4data ie))) key) MAC_broadcast"

text \<open>A number of events, one after the other.\<close>

fun arpRun :: "(ArpEvent \<times> simtime) list \<Rightarrow> ARP \<Rightarrow> ARP res" where
  "arpRun [] a = Inr a"
| "arpRun ((ev, now) # evs) a = andThen (ARP_handleMessage ev now a) (arpRun evs)"

text \<open>
  While the resolution of an address is pending: another packet for it, or the timeout at its time.
\<close>

fun waitEvents :: "InterfaceEntry \<Rightarrow> IPAddress \<Rightarrow> simtime \<Rightarrow> nat \<Rightarrow> simtime \<Rightarrow> (Msg \<times> simtime) option list \<Rightarrow> (ArpEvent \<times> simtime) list" where
  "waitEvents ie key rto t due [] = []"
| "waitEvents ie key rto t due (Some (msg, now) # xs) =
     (Outbound msg (Some (interfaceId ie, key)), now) # waitEvents ie key rto t due xs"
| "waitEvents ie key rto t due (None # xs) = (TimerFired t, due) # waitEvents ie key rto t (due + rto) xs"

definition packets :: "(Msg \<times> simtime) option list \<Rightarrow> Msg list" where
  "packets xs = map (fst \<circ> the) (filter (\<lambda>x. x \<noteq> None) xs)"

definition timeouts :: "(Msg \<times> simtime) option list \<Rightarrow> nat" where
  "timeouts xs = length (filter (\<lambda>x. x = None) xs)"

lemma packets_simps [simp]: "packets [] = []" "packets (Some (msg, now) # xs) = msg # packets xs" "packets (None # xs) = packets xs"
  by (simp_all add: packets_def)

lemma timeouts_simps [simp]: "timeouts [] = 0" "timeouts (Some x # xs) = timeouts xs" "timeouts (None # xs) = Suc (timeouts xs)"
  by (simp_all add: timeouts_def)

definition inResolution :: "ARP \<Rightarrow> InterfaceEntry \<Rightarrow> IPAddress \<Rightarrow> MACAddress \<Rightarrow> simtime \<Rightarrow> nat \<Rightarrow> Msg list \<Rightarrow> ARP" where
  "inResolution b ie key m0 due r ms = b\<lparr>arpCache := (arpCache b)(key \<mapsto> \<lparr>entryIe = Some (interfaceId ie), pending = True,
       macAddress = m0, lastUpdate = 0, numRetries = int r, timer = Some (nextTimer b), pendingPackets = ms\<rparr>),
     pendingQueue := pendingQueue b @ ms, arpTimers := arpTimers b @ [(nextTimer b, due, key)], nextTimer := Suc (nextTimer b),
     numResolutions := numResolutions b + 1, numRequestsSent := numRequestsSent b + int r + 1,
     arp_sent := arp_sent b @ replicate (Suc r) (requestOut ie key)\<rparr>"

lemma usable_cong: "arp_ift a = arp_ift b \<Longrightarrow> nicConnected a = nicConnected b \<Longrightarrow> usable ie a = usable ie b"
  by (simp add: usable_def nicOK_def)

lemma sendARPRequest_usable:
  "usable ie a \<Longrightarrow> sendARPRequest ie key a =
     Inr (a\<lparr>arp_sent := arp_sent a @ [requestOut ie key], numRequestsSent := numRequestsSent a + 1\<rparr>)"
  by (auto simp: usable_def sendARPRequest_def ipv4Data_def sendARPToNIC_def sendNic_def requestOut_def)

lemma inResolution_usable: "usable ie (inResolution b ie key m0 due r ms) = usable ie b"
  by (rule usable_cong) (simp_all add: inResolution_def)

lemma outbound_starts:
  assumes "usable ie b" "broadcast ie" "key \<noteq> 0" "\<not> isMulticast key"
    and old: "case arpCache b key of None \<Rightarrow> m0 = MAC_unspecified
      | Some e \<Rightarrow> \<not> pending e \<and> pendingPackets e = [] \<and> lastUpdate e + cacheTimeout b < now \<and> m0 = macAddress e"
  shows "processOutboundPacket msg (Some (interfaceId ie, key)) now b = Inr (inResolution b ie key m0 (now + retryTimeout b) 0 [msg])"
proof -
  have ie: "getInterfaceById (interfaceId ie) (arp_ift b) = Some ie" using assms(1) by (simp add: usable_def)
  have start: "initiateARPResolution key now (b\<lparr>arpCache := (arpCache b)(key \<mapsto> e)\<rparr>) =
      Inr ((inResolution b ie key (macAddress e) (now + retryTimeout b) 0 [])\<lparr>arpCache := (arpCache b)(key \<mapsto>
        e\<lparr>pending := True, numRetries := 0, lastUpdate := 0, timer := Some (nextTimer b)\<rparr>)\<rparr>)"
    if e: "entryIe e = Some (interfaceId ie)" for e
  proof -
    let ?a = "updEntry key (\<lambda>e. e\<lparr>pending := True, numRetries := 0, lastUpdate := 0\<rparr>) (b\<lparr>arpCache := (arpCache b)(key \<mapsto> e)\<rparr>)"
    have "usable ie ?a" using assms(1) usable_cong [of ?a b ie] by (simp add: updEntry_def)
    note send = sendARPRequest_usable [OF this]
    have "derefEntry key ?a = Inr (e\<lparr>pending := True, numRetries := 0, lastUpdate := 0\<rparr>)" "derefIe (Some (interfaceId ie)) ?a = Inr ie"
      using ie by (simp_all add: derefEntry_def derefIe_def updEntry_def)
    then show ?thesis using e
      by (simp add: initiateARPResolution_def Let_def send inResolution_def) (simp add: updEntry_def)
  qed
  show ?thesis
  proof (cases "arpCache b key")
    case None
    then show ?thesis using old assms(2-4) ie start [of "ARPCacheEntry_new\<lparr>entryIe := Some (interfaceId ie)\<rparr>"]
      by (simp add: processOutboundPacket_def lookupAddress_def resolveAndSend_def queueUp_def updEntry_def inResolution_def ARPCacheEntry_new_def)
  next
    case (Some e)
    then have "updEntry key (\<lambda>e. e\<lparr>entryIe := Some (interfaceId ie)\<rparr>) b = b\<lparr>arpCache := (arpCache b)(key \<mapsto> e\<lparr>entryIe := Some (interfaceId ie)\<rparr>)\<rparr>"
      by (simp add: updEntry_def)
    then show ?thesis using old assms(2-4) ie Some start [of "e\<lparr>entryIe := Some (interfaceId ie)\<rparr>"]
      by (simp add: processOutboundPacket_def lookupAddress_def resolveAndSend_def queueUp_def updEntry_def inResolution_def) (cases e, simp)
  qed
qed

lemma resolution_waits:
  assumes "usable ie b" "broadcast ie" "key \<noteq> 0" "\<not> isMulticast key" "\<forall>x \<in> set (arpTimers b). fst x < nextTimer b"
    and "timeouts xs = 0 \<or> int (r + timeouts xs) < retryCount b"
  shows "arpRun (waitEvents ie key (retryTimeout b) (nextTimer b) due xs) (inResolution b ie key m0 due r ms) =
    Inr (inResolution b ie key m0 (due + of_nat (timeouts xs) * retryTimeout b) (r + timeouts xs) (ms @ packets xs))"
  using assms(6)
proof (induction xs arbitrary: due r ms)
  case (Cons x xs)
  have ie: "getInterfaceById (interfaceId ie) (arp_ift b) = Some ie" using assms(1) by (simp add: usable_def)
  show ?case
  proof (cases x)
    case (Some y)
    obtain msg now where y: "y = (msg, now)" by (cases y)
    have "processOutboundPacket msg (Some (interfaceId ie, key)) now (inResolution b ie key m0 due r ms) =
        Inr (inResolution b ie key m0 due r (ms @ [msg]))"
      using assms(2-4) ie
      by (simp add: processOutboundPacket_def lookupAddress_def resolveAndSend_def queueUp_def updEntry_def inResolution_def)
    with Cons show ?thesis by (simp add: Some y)
  next
    case None
    let ?a = "(inResolution b ie key m0 due r ms)\<lparr>arpTimers := arpTimers b\<rparr>"
    have "nextTimer b \<notin> fst ` set (arpTimers b)" using assms(5) by auto
    then have "map_of (arpTimers b) (nextTimer b) = None" by (simp add: map_of_eq_None_iff)
    then have find: "map_of (arpTimers (inResolution b ie key m0 due r ms)) (nextTimer b) = Some (due, key)"
      by (simp add: inResolution_def map_add_def)
    have flt: "filter (\<lambda>(i, _). i \<noteq> nextTimer b) (arpTimers b) = arpTimers b"
      using assms(5) by (auto simp: filter_id_conv)
    let ?u = "updEntry key (\<lambda>e. e\<lparr>numRetries := numRetries e + 1\<rparr>) ?a"
    have "usable ie ?u"
      using assms(1) usable_cong [of ?u b ie] by (simp add: updEntry_def inResolution_def)
    note send = sendARPRequest_usable [OF this]
    have r: "int (Suc r + timeouts xs) < retryCount b" using Cons.prems None by simp
    have u: "derefEntry key ?u = Inr \<lparr>entryIe = Some (interfaceId ie), pending = True,
       macAddress = m0, lastUpdate = 0, numRetries = int r + 1, timer = Some (nextTimer b), pendingPackets = ms\<rparr>"
      "derefIe (Some (interfaceId ie)) ?u = Inr ie" "retryCount ?u = retryCount b"
      using ie by (simp_all add: derefEntry_def derefIe_def updEntry_def inResolution_def)
    have "requestTimedOut (nextTimer b) key due ?a = Inr (inResolution b ie key m0 (due + retryTimeout b) (Suc r) ms)"
      using r unfolding requestTimedOut_def Let_def u andThen.simps
      by (simp add: u send) (cases b, simp add: inResolution_def updEntry_def replicate_append_same add.commute)
    moreover have "(inResolution b ie key m0 due r ms)\<lparr>arpTimers := filter (\<lambda>(i, _). i \<noteq> nextTimer b) (arpTimers (inResolution b ie key m0 due r ms))\<rparr> = ?a"
      by (simp add: inResolution_def flt)
    ultimately have "ARP_handleMessage (TimerFired (nextTimer b)) due (inResolution b ie key m0 due r ms) =
        Inr (inResolution b ie key m0 (due + retryTimeout b) (Suc r) ms)"
      by (simp add: find)
    with Cons.IH [of "Suc r" "due + retryTimeout b" ms] r show ?thesis by (simp add: None algebra_simps)
  qed
qed simp


lemma sendPending_usable:
  assumes "usable ie a" "arpCache a key = Some e" "entryIe e = Some (interfaceId ie)" "pendingPackets e = ms"
  shows "sendPending key mac ms a = Inr (a\<lparr>arpCache := (arpCache a)(key \<mapsto> e\<lparr>pendingPackets := []\<rparr>),
    pendingQueue := fold removePending ms (pendingQueue a),
    arp_sent := arp_sent a @ map (\<lambda>m. NicOut (nwLayerGateIndex ie) m (Some mac)) ms\<rparr>)"
  using assms
proof (induction ms arbitrary: a e)
  case Nil
  then have "e\<lparr>pendingPackets := []\<rparr> = e" by (cases e) simp
  with Nil show ?case by (auto simp: fun_upd_idem)
next
  case (Cons m ms)
  have ie: "getInterfaceById (interfaceId ie) (arp_ift a) = Some ie" and ok: "nicOK (nwLayerGateIndex ie) a"
    using Cons.prems(1) by (simp_all add: usable_def)
  obtain a1 where a1: "a1 = a\<lparr>arpCache := (arpCache a)(key \<mapsto> e\<lparr>pendingPackets := ms\<rparr>), pendingQueue := removePending m (pendingQueue a),
    arp_sent := arp_sent a @ [NicOut (nwLayerGateIndex ie) m (Some mac)]\<rparr>" by blast
  have "sendPending key mac (m # ms) a = sendPending key mac ms a1"
    using Cons.prems(2,3) ie ok
    by (simp add: Let_def updEntry_def derefEntry_def derefIe_def sendPacketToNIC_def sendNic_def nicOK_def a1)
  moreover have "usable ie a1" using Cons.prems(1) usable_cong [of a1 a ie] by (simp add: a1)
  then have "sendPending key mac ms a1 = Inr (a1\<lparr>arpCache := (arpCache a1)(key \<mapsto> e\<lparr>pendingPackets := ms\<rparr>\<lparr>pendingPackets := []\<rparr>),
      pendingQueue := fold removePending ms (pendingQueue a1),
      arp_sent := arp_sent a1 @ map (\<lambda>m. NicOut (nwLayerGateIndex ie) m (Some mac)) ms\<rparr>)"
    by (rule Cons.IH) (use Cons.prems(3) in \<open>simp_all add: a1\<close>)
  moreover have "a1\<lparr>arpCache := (arpCache a1)(key \<mapsto> e\<lparr>pendingPackets := ms\<rparr>\<lparr>pendingPackets := []\<rparr>), pendingQueue := fold removePending ms (pendingQueue a1),
      arp_sent := arp_sent a1 @ map (\<lambda>m. NicOut (nwLayerGateIndex ie) m (Some mac)) ms\<rparr> =
    a\<lparr>arpCache := (arpCache a)(key \<mapsto> e\<lparr>pendingPackets := []\<rparr>), pendingQueue := fold removePending (m # ms) (pendingQueue a),
      arp_sent := arp_sent a @ map (\<lambda>m. NicOut (nwLayerGateIndex ie) m (Some mac)) (m # ms)\<rparr>"
    by (rule ARP.equality) (auto simp: a1 fun_eq_iff)
  ultimately show ?case by (simp only:)
qed

text \<open>The reply ends the resolution, whichever request it answers.\<close>

definition isReply :: "IPAddress \<Rightarrow> MACAddress \<Rightarrow> ARPPacket \<Rightarrow> bool" where
  "isReply key mac arp \<longleftrightarrow> opcode arp = ARP_REPLY \<and> srcIPAddress arp = key \<and> srcMACAddress arp = mac \<and>
     key \<noteq> 0 \<and> \<not> mac_isUnspecified mac"

lemma reply_resolves:
  assumes "usable ie b" "\<forall>x \<in> set (arpTimers b). fst x < nextTimer b" "isReply key mac arp"
    and fresh: "fst ` set ms \<inter> fst ` set (pendingQueue b) = {}"
  shows "\<exists>rt. processARPPacket arp (Some i) now (inResolution b ie key m0 due r ms) =
    Inr (b\<lparr>arpCache := (arpCache b)(key \<mapsto> \<lparr>entryIe = Some (interfaceId ie), pending = False, macAddress = mac,
       lastUpdate = now, numRetries = 0, timer = None, pendingPackets = []\<rparr>), nextTimer := Suc (nextTimer b),
     numResolutions := numResolutions b + 1, numRequestsSent := numRequestsSent b + int r + 1,
     arp_sent := arp_sent b @ replicate (Suc r) (requestOut ie key) @ map (\<lambda>m. NicOut (nwLayerGateIndex ie) m (Some mac)) ms,
     arp_rt := rt\<rparr>)"
proof -
  let ?b = "inResolution b ie key m0 due r ms"
  let ?e = "\<lparr>entryIe = Some (interfaceId ie), pending = False, macAddress = mac,
       lastUpdate = now, numRetries = 0, timer = None, pendingPackets = ms\<rparr>"
  let ?a = "b\<lparr>arpCache := (arpCache b)(key \<mapsto> ?e), pendingQueue := pendingQueue b @ ms, nextTimer := Suc (nextTimer b),
     numResolutions := numResolutions b + 1, numRequestsSent := numRequestsSent b + int r + 1,
     arp_sent := arp_sent b @ replicate (Suc r) (requestOut ie key)\<rparr>"
  have flt: "filter (\<lambda>(i, _). i \<noteq> nextTimer b) (arpTimers b) = arpTimers b" using assms(2) by (auto simp: filter_id_conv)
  have "usable ie ?a" using assms(1) usable_cong [of ?a b ie] by simp
  note send = sendPending_usable [OF this, of key ?e ms mac]
  have "filter (\<lambda>m. fst m \<notin> fst ` set ms) (pendingQueue b) = pendingQueue b" using fresh by (auto simp: filter_id_conv)
  then have queue: "fold removePending ms (pendingQueue b @ ms) = pendingQueue b" by (simp add: fold_removePending)
  let ?c = "b\<lparr>arpCache := (arpCache b)(key \<mapsto> ?e\<lparr>pendingPackets := []\<rparr>), nextTimer := Suc (nextTimer b),
     numResolutions := numResolutions b + 1, numRequestsSent := numRequestsSent b + int r + 1,
     arp_sent := arp_sent b @ replicate (Suc r) (requestOut ie key) @ map (\<lambda>m. NicOut (nwLayerGateIndex ie) m (Some mac)) ms\<rparr>"
  have "updateARPCache key mac now ?b = sendPending key mac ms ?a"
    by (simp add: updateARPCache_def stopTimer_def derefEntry_def inResolution_def updEntry_def Let_def flt)
      (rule arg_cong [where f = "sendPending key mac ms"], cases b, simp)
  also have "\<dots> = Inr ?c" using send queue by simp
  finally have upd: "updateARPCache key mac now ?b = Inr ?c" .
  have known: "arpCache ?b key \<noteq> None" by (simp add: inResolution_def)
  obtain rt q where q: "\<And>x. addressRecognized (destIPAddress arp) x ?c = (?c\<lparr>arp_rt := rt\<rparr>, q x)"
  proof -
    obtain rt1 l where l: "isLocalAddress (destIPAddress arp) (arp_rt b) = (rt1, l)" by (cases "isLocalAddress (destIPAddress arp) (arp_rt b)")
    obtain rt2 j where j: "getInterfaceForDestAddr (destIPAddress arp) rt1 = (rt2, j)" by (cases "getInterfaceForDestAddr (destIPAddress arp) rt1")
    show ?thesis
      by (rule that [of "if l \<or> \<not> doProxyARP b then rt1 else rt2" "\<lambda>x. l \<or> doProxyARP b \<and> j \<noteq> None \<and> j \<noteq> map_option interfaceId x"])
        (simp add: addressRecognized_def l j Let_def)
  qed
  have "processARPPacket arp (Some i) now ?b = Inr (?c\<lparr>arp_rt := rt\<rparr>)"
    using assms(3) known upd q [of "getInterfaceById i (arp_ift ?b)"]
    by (simp add: processARPPacket_def isReply_def Let_def answer_def arp_opcodes del: not_None_eq)
  then show ?thesis by auto
qed

lemma arpRun_append: "arpRun (xs @ ys) a = andThen (arpRun xs a) (arpRun ys)"
proof (induction xs arbitrary: a)
  case (Cons x xs)
  show ?case
    by (cases x; cases "ARP_handleMessage (fst x) (snd x) a") (simp_all add: Cons.IH)
qed simp


lemma reachable_timers: "arp_reachable a \<Longrightarrow> \<forall>x \<in> set (arpTimers a). fst x < nextTimer a"
  by (drule arp_inv_reachable) (auto simp: arp_inv_def timers_inv_def)

lemma resolution_runs:
  assumes "arp_reachable a" "usable ie a" "broadcast ie" "key \<noteq> 0" "\<not> isMulticast key"
    and "case arpCache a key of None \<Rightarrow> True | Some e \<Rightarrow> \<not> pending e \<and> lastUpdate e + cacheTimeout a < now"
    and "timeouts xs = 0 \<or> int (timeouts xs) < retryCount a"
  obtains m0 where "arpRun ((Outbound msg (Some (interfaceId ie, key)), now) #
      waitEvents ie key (retryTimeout a) (nextTimer a) (now + retryTimeout a) xs) a =
    Inr (inResolution a ie key m0 (now + of_nat (Suc (timeouts xs)) * retryTimeout a) (timeouts xs) (msg # packets xs))"
proof -
  obtain m0 where old: "case arpCache a key of None \<Rightarrow> m0 = MAC_unspecified
      | Some e \<Rightarrow> \<not> pending e \<and> pendingPackets e = [] \<and> lastUpdate e + cacheTimeout a < now \<and> m0 = macAddress e"
    using arp_inv_reachable [OF assms(1)] assms(6)
    by (cases "arpCache a key") (auto simp: arp_inv_def entryOk_def split: if_splits)
  from outbound_starts [OF assms(2-5) old, of msg]
    resolution_waits [OF assms(2-5) reachable_timers [OF assms(1)], of xs 0 "now + retryTimeout a" m0 "[msg]"] assms(7)
  show ?thesis by (intro that [of m0]) (simp add: algebra_simps)
qed

text \<open>C35: While an address is resolved, packets for it wait and requests that stay unanswered are repeated.
  When the reply comes, everything that waited is sent to the hardware address it tells, once and in the
  order it came; nothing is left waiting, the timer is stopped and the address is known.\<close>

theorem arp_resolution_delivers:
  assumes "arp_reachable a" "usable ie a" "broadcast ie" "key \<noteq> 0" "\<not> isMulticast key"
    and "case arpCache a key of None \<Rightarrow> True | Some e \<Rightarrow> \<not> pending e \<and> lastUpdate e + cacheTimeout a < now"
    and "timeouts xs = 0 \<or> int (timeouts xs) < retryCount a"
    and "isReply key mac arp" "fst ` set (msg # packets xs) \<inter> fst ` set (pendingQueue a) = {}"
  shows "\<exists>a' e. arpRun ((Outbound msg (Some (interfaceId ie, key)), now) #
      waitEvents ie key (retryTimeout a) (nextTimer a) (now + retryTimeout a) xs @ [(ArrivedARP arp (Some i), t)]) a = Inr a' \<and>
    arp_sent a' = arp_sent a @ replicate (Suc (timeouts xs)) (requestOut ie key) @
      map (\<lambda>m. NicOut (nwLayerGateIndex ie) m (Some mac)) (msg # packets xs) \<and>
    pendingQueue a' = pendingQueue a \<and> arpTimers a' = arpTimers a \<and>
    arpCache a' = (arpCache a)(key \<mapsto> e) \<and> \<not> pending e \<and> macAddress e = mac \<and> lastUpdate e = t"
proof -
  from resolution_runs [OF assms(1-7)] obtain m0 where run: "arpRun ((Outbound msg (Some (interfaceId ie, key)), now) #
      waitEvents ie key (retryTimeout a) (nextTimer a) (now + retryTimeout a) xs) a =
    Inr (inResolution a ie key m0 (now + of_nat (Suc (timeouts xs)) * retryTimeout a) (timeouts xs) (msg # packets xs))" .
  let ?e = "\<lparr>entryIe = Some (interfaceId ie), pending = False, macAddress = mac,
       lastUpdate = t, numRetries = 0, timer = None, pendingPackets = []\<rparr>"
  let ?r = "\<lambda>rt. a\<lparr>arpCache := (arpCache a)(key \<mapsto> ?e), nextTimer := Suc (nextTimer a),
     numResolutions := numResolutions a + 1, numRequestsSent := numRequestsSent a + int (timeouts xs) + 1,
     arp_sent := arp_sent a @ replicate (Suc (timeouts xs)) (requestOut ie key) @
       map (\<lambda>m. NicOut (nwLayerGateIndex ie) m (Some mac)) (msg # packets xs), arp_rt := rt\<rparr>"
  from reply_resolves [OF assms(2) reachable_timers [OF assms(1)] assms(8,9)]
  obtain rt where "processARPPacket arp (Some i) t (inResolution a ie key m0 (now + of_nat (Suc (timeouts xs)) * retryTimeout a)
      (timeouts xs) (msg # packets xs)) = Inr (?r rt)" by blast
  then show ?thesis unfolding append_Cons [symmetric] arpRun_append run
    by (intro exI [of _ "?r rt"] exI [of _ ?e]) simp
qed

lemma resolution_fails:
  assumes "\<forall>x \<in> set (arpTimers b). fst x < nextTimer b" "fst ` set ms \<inter> fst ` set (pendingQueue b) = {}"
    and "\<not> int r + 1 < retryCount b"
  shows "\<exists>a'. ARP_handleMessage (TimerFired (nextTimer b)) due (inResolution b ie key m0 due r ms) = Inr a' \<and>
    arp_sent a' = arp_sent b @ replicate (Suc r) (requestOut ie key) \<and>
    pendingQueue a' = pendingQueue b \<and> arpTimers a' = arpTimers b \<and> arpCache a' = (arpCache b)(key := None)"
proof -
  have "map_of (arpTimers b) (nextTimer b) = None" using assms(1) by (auto simp: map_of_eq_None_iff)
  then have find: "map_of (arpTimers (inResolution b ie key m0 due r ms)) (nextTimer b) = Some (due, key)"
    by (simp add: inResolution_def map_add_def)
  have flt: "filter (\<lambda>(i, _). i \<noteq> nextTimer b) (arpTimers b) = arpTimers b" using assms(1) by (auto simp: filter_id_conv)
  have "\<forall>m \<in> set (pendingQueue b). fst m \<notin> fst ` set ms" using assms(2) by blast
  then have queue: "fold removePending ms (pendingQueue b @ ms) = pendingQueue b"
    unfolding fold_removePending by (simp add: filter_id_conv)
  show ?thesis using assms(3)
    by (simp add: find requestTimedOut_def Let_def derefEntry_def)
      (simp add: inResolution_def updEntry_def derefEntry_def flt queue)
qed

text \<open>C36: If no reply comes, the request is sent as often as the retry count says, and at least once. With the
  last timeout the packets that waited are dropped and the address is forgotten; nothing hangs.\<close>

theorem arp_gives_up:
  assumes "arp_reachable a" "usable ie a" "broadcast ie" "key \<noteq> 0" "\<not> isMulticast key"
    and "case arpCache a key of None \<Rightarrow> True | Some e \<Rightarrow> \<not> pending e \<and> lastUpdate e + cacheTimeout a < now"
    and "int (timeouts xs) = max (retryCount a) 1 - 1" "fst ` set (msg # packets xs) \<inter> fst ` set (pendingQueue a) = {}"
  shows "\<exists>a'. arpRun ((Outbound msg (Some (interfaceId ie, key)), now) #
      waitEvents ie key (retryTimeout a) (nextTimer a) (now + retryTimeout a) xs @
      [(TimerFired (nextTimer a), now + of_nat (Suc (timeouts xs)) * retryTimeout a)]) a = Inr a' \<and>
    arp_sent a' = arp_sent a @ replicate (nat (max (retryCount a) 1)) (requestOut ie key) \<and>
    pendingQueue a' = pendingQueue a \<and> arpTimers a' = arpTimers a \<and> arpCache a' = (arpCache a)(key := None)"
proof -
  have "timeouts xs = 0 \<or> int (timeouts xs) < retryCount a" using assms(7) by linarith
  from resolution_runs [OF assms(1-6) this] obtain m0 where run: "arpRun ((Outbound msg (Some (interfaceId ie, key)), now) #
      waitEvents ie key (retryTimeout a) (nextTimer a) (now + retryTimeout a) xs) a =
    Inr (inResolution a ie key m0 (now + of_nat (Suc (timeouts xs)) * retryTimeout a) (timeouts xs) (msg # packets xs))" .
  from assms(7) have r: "\<not> int (timeouts xs) + 1 < retryCount a" "nat (max (retryCount a) 1) = Suc (timeouts xs)" by linarith+
  from resolution_fails [OF reachable_timers [OF assms(1)] assms(8) r(1)] obtain a'
    where "ARP_handleMessage (TimerFired (nextTimer a)) (now + of_nat (Suc (timeouts xs)) * retryTimeout a)
        (inResolution a ie key m0 (now + of_nat (Suc (timeouts xs)) * retryTimeout a) (timeouts xs) (msg # packets xs)) = Inr a'"
      "arp_sent a' = arp_sent a @ replicate (Suc (timeouts xs)) (requestOut ie key)"
      "pendingQueue a' = pendingQueue a" "arpTimers a' = arpTimers a" "arpCache a' = (arpCache a)(key := None)" by blast
  then show ?thesis unfolding append_Cons [symmetric] arpRun_append run r(2)
    by (intro exI [of _ a']) (simp del: ARP_handleMessage.simps replicate.simps)
qed


section \<open>The other side\<close>

text \<open>A request is answered exactly if the address is the node's own or, for proxy ARP, one it has a route to
  through another interface. The answer goes to the hardware address of the sender and is one that resolves
  the sender's request; the sender's addresses are known from then on.\<close>

theorem arp_request_answered:
  assumes "arp_reachable b" "usable ie b" "waitingFor (arpCache b) ip = []" "requester = requestPacket mac ip key"
    and "\<not> mac_isUnspecified mac" "ip \<noteq> 0" "key \<noteq> 0" "addressRecognized key (Some ie) b = (b1, answered)"
  shows "\<exists>b' reply. processARPPacket requester (Some (interfaceId ie)) now b = Inr b' \<and>
    arp_sent b' = arp_sent b @ (if answered then [NicOutARP (nwLayerGateIndex ie) reply mac] else []) \<and>
    isReply key (macAddr ie) reply \<and> destIPAddress reply = ip \<and>
    (answered \<longrightarrow> (\<exists>e. arpCache b' ip = Some e \<and> \<not> pending e \<and> macAddress e = mac \<and> lastUpdate e = now))"
proof -
  let ?reply = "replyPacket requester (macAddr ie)"
  have inv: "arp_inv b" by (rule arp_inv_reachable [OF assms(1)])
  have ie: "getInterfaceById (interfaceId ie) (arp_ift b) = Some ie" "\<not> mac_isUnspecified (macAddr ie)" "ipv4data ie \<noteq> None"
    and ok: "nicOK (nwLayerGateIndex ie) b" using assms(2) by (auto simp: usable_def)
  have reply: "isReply key (macAddr ie) ?reply" "destIPAddress ?reply = ip"
    using assms(4,7) ie(2) by (simp_all add: isReply_def replyPacket_def requestPacket_def)
  have upd: "\<exists>c' e. updateARPCache ip mac now c = Inr c' \<and> arpCache c' ip = Some e \<and> \<not> pending e \<and> macAddress e = mac \<and>
      lastUpdate e = now \<and> arp_sent c' = arp_sent c \<and> nicConnected c' = nicConnected c \<and> arp_rt c' = arp_rt c \<and>
      doProxyARP c' = doProxyARP c"
    if c: "arpCache c ip = Some e" "pendingPackets e = []" "entryOk rc e" for c e rc
  proof (cases "pending e")
    case True
    with c(3) obtain t where "timer e = Some t" by (auto simp: entryOk_def)
    with c True show ?thesis
      by (simp add: updateARPCache_def stopTimer_def derefEntry_def updEntry_def Let_def)
  next
    case False
    with c show ?thesis
      by (simp add: updateARPCache_def stopTimer_def derefEntry_def updEntry_def Let_def)
  qed
  have recog: "\<exists>c1. addressRecognized key (Some ie) c = (c1, answered) \<and> arpCache c1 = arpCache c \<and> arp_sent c1 = arp_sent c \<and>
      nicConnected c1 = nicConnected c \<and> arp_ift c1 = arp_ift c"
    if "arp_rt c = arp_rt b" "doProxyARP c = doProxyARP b" for c
    using assms(8) that by (auto simp: addressRecognized_def Let_def split: prod.splits if_splits)
  have ans: "\<exists>c'. answer requester (Some ie) c = Inr c' \<and> arp_sent c' = arp_sent c @ [NicOutARP (nwLayerGateIndex ie) ?reply mac] \<and>
      arpCache c' = arpCache c" if "nicConnected c = nicConnected b" for c
    using assms(4) ie(3) ok that
    by (auto simp: answer_def requestPacket_def arp_opcodes ipv4Data_def sendARPToNIC_def sendNic_def nicOK_def)
  have start: "processARPPacket requester (Some (interfaceId ie)) now b =
      andThen (if arpCache b ip \<noteq> None then updateARPCache ip mac now b else Inr b) (\<lambda>c.
        let (c, recognized) = addressRecognized key (Some ie) c
        in if recognized then andThen (if \<not> arpCache b ip \<noteq> None then learn requester (Some ie) now c else Inr c) (answer requester (Some ie))
           else Inr c)"
  proof -
    have "srcIPAddress requester = ip" "srcMACAddress requester = mac" "destIPAddress requester = key"
      by (simp_all add: assms(4) requestPacket_def)
    then show ?thesis using assms(5,6) ie(1)
      by (simp add: processARPPacket_def Let_def del: not_None_eq)
  qed
  show ?thesis
  proof (cases "arpCache b ip")
    case (Some e)
    have "pendingPackets e = []" "entryOk (retryCount b) e"
      using assms(3) inv Some by (auto simp: waitingFor_def arp_inv_def)
    from upd [OF Some this] obtain c e' where c: "updateARPCache ip mac now b = Inr c" "arpCache c ip = Some e'"
      "\<not> pending e'" "macAddress e' = mac" "lastUpdate e' = now" "arp_sent c = arp_sent b" "nicConnected c = nicConnected b"
      "arp_rt c = arp_rt b" "doProxyARP c = doProxyARP b" by blast
    from recog [OF c(8,9)] obtain c1 where c1: "addressRecognized key (Some ie) c = (c1, answered)" "arpCache c1 = arpCache c"
      "arp_sent c1 = arp_sent c" "nicConnected c1 = nicConnected c" by blast
    from ans [of c1] c(7) c1(4) obtain c2 where "answer requester (Some ie) c1 = Inr c2"
      "arp_sent c2 = arp_sent c1 @ [NicOutARP (nwLayerGateIndex ie) ?reply mac]" "arpCache c2 = arpCache c1" by auto
    with c c1 reply Some show ?thesis unfolding start
      by (cases answered) (auto intro!: exI [of _ ?reply])
  next
    case None
    from recog [of b] obtain c1 where c1: "addressRecognized key (Some ie) b = (c1, answered)" "arpCache c1 = arpCache b"
      "arp_sent c1 = arp_sent b" "nicConnected c1 = nicConnected b" by blast
    let ?c = "c1\<lparr>arpCache := (arpCache c1)(ip \<mapsto> ARPCacheEntry_new\<lparr>entryIe := Some (interfaceId ie)\<rparr>)\<rparr>"
    from upd [of ?c "ARPCacheEntry_new\<lparr>entryIe := Some (interfaceId ie)\<rparr>" 0]
    obtain c e' where c: "learn requester (Some ie) now c1 = Inr c" "arpCache c ip = Some e'"
      "\<not> pending e'" "macAddress e' = mac" "lastUpdate e' = now" "arp_sent c = arp_sent c1" "nicConnected c = nicConnected c1"
      using assms(4) by (auto simp: learn_def requestPacket_def ARPCacheEntry_new_def entryOk_def)
    from ans [of c] c(7) c1(4) obtain c2 where "answer requester (Some ie) c = Inr c2"
      "arp_sent c2 = arp_sent c @ [NicOutARP (nwLayerGateIndex ie) ?reply mac]" "arpCache c2 = arpCache c" by auto
    with c c1 reply None show ?thesis unfolding start
      by (cases answered) (auto intro!: exI [of _ ?reply])
  qed
qed


section \<open>Examples\<close>

definition exampleNic :: InterfaceEntry where
  "exampleNic = \<lparr>interfaceId = 100, interfaceName = ''eth0'', mtu = 1500, nwLayerGateIndex = 0, broadcast = True, loopback = False,
     macAddr = MAC 0x0A 0xAA 0 0 0 1, ipv4data = Some \<lparr>inetAddr = 0x0A000001, ifNetmask = 0xFF000000, ifMetric = 1, multicastGroups = []\<rparr>\<rparr>"

definition exampleARP :: ARP where
  "exampleARP = ARP_initialize \<lparr>idToInterface = [Some exampleNic], tmpNumInterfaces = - 1, tmpInterfaceList = None\<rparr>
     (setRouterId 0x0A000001 (RoutingTable_new True)) 1 3 120 True [True]"

definition exampleMsg :: "nat \<Rightarrow> Msg" where
  "exampleMsg n = (n, TransportPacket ''data'' 100)"

lemma exampleARP_reachable: "arp_reachable exampleARP"
  unfolding exampleARP_def by (rule arp_reachable.init)

lemma exampleARP_usable: "usable exampleNic exampleARP" "broadcast exampleNic" "arpCache exampleARP = Map.empty"
    "retryCount exampleARP = 3" "pendingQueue exampleARP = []" "arpTimers exampleARP = []" "arp_sent exampleARP = []"
  by (simp_all add: usable_def exampleARP_def ARP_initialize_def exampleNic_def getInterfaceById_def INTERFACEIDS_START_def nicOK_def)

lemma exampleHost: "\<not> isMulticast 0x0A000002" "(0x0A000002 :: IPAddress) \<noteq> 0"
  by (simp_all add: isMulticast_def)

lemma arp_pending_exact_witness:
  "\<exists>a. ARP_handleMessage (Outbound (exampleMsg 0) (Some (100, 0x0A000002))) 5 exampleARP = Inr a \<and>
     pendingQueue a = [exampleMsg 0] \<and> (\<exists>!x. x \<in> set (arpTimers a) \<and> snd (snd x) = 0x0A000002)"
proof -
  have "interfaceId exampleNic = 100" by (simp add: exampleNic_def)
  with outbound_starts [OF exampleARP_usable(1,2) exampleHost(2,1), of MAC_unspecified 5 "exampleMsg 0"] exampleARP_usable(3)
  obtain a where a: "ARP_handleMessage (Outbound (exampleMsg 0) (Some (100, 0x0A000002))) 5 exampleARP = Inr a"
      "a = inResolution exampleARP exampleNic 0x0A000002 MAC_unspecified (5 + retryTimeout exampleARP) 0 [exampleMsg 0]" by simp
  have "arp_reachable a"
    by (rule arp_reachable.step [OF exampleARP_reachable _ a(1)]) (simp add: exampleARP_usable)
  moreover have "\<exists>e. arpCache a 0x0A000002 = Some e \<and> pending e" by (simp add: a(2) inResolution_def)
  ultimately have "\<exists>!x. x \<in> set (arpTimers a) \<and> snd (snd x) = 0x0A000002"
    using arp_pending_exact [THEN conjunct1] by blast
  with a show ?thesis by (simp add: inResolution_def exampleARP_usable)
qed

definition exampleReply :: ARPPacket where
  "exampleReply = \<lparr>opcode = ARP_REPLY, srcMACAddress = MAC 0x0A 0xAA 0 0 0 2, destMACAddress = macAddr exampleNic,
     srcIPAddress = 0x0A000002, destIPAddress = 0x0A000001\<rparr>"

lemma arp_resolution_delivers_witness:
  "\<exists>a. arpRun [(Outbound (exampleMsg 0) (Some (100, 0x0A000002)), 0), (TimerFired 0, 1),
       (Outbound (exampleMsg 1) (Some (100, 0x0A000002)), 3 / 2), (ArrivedARP exampleReply (Some 100), 2)] exampleARP = Inr a \<and>
     arp_sent a = [requestOut exampleNic 0x0A000002, requestOut exampleNic 0x0A000002,
       NicOut 0 (exampleMsg 0) (Some (MAC 0x0A 0xAA 0 0 0 2)), NicOut 0 (exampleMsg 1) (Some (MAC 0x0A 0xAA 0 0 0 2))] \<and>
     pendingQueue a = [] \<and> arpTimers a = []"
proof -
  have f: "interfaceId exampleNic = 100" "nwLayerGateIndex exampleNic = 0" "nextTimer exampleARP = 0" "retryTimeout exampleARP = 1"
    by (simp_all add: exampleNic_def exampleARP_def ARP_initialize_def)
  have "isReply 0x0A000002 (MAC 0x0A 0xAA 0 0 0 2) exampleReply" by (simp add: isReply_def exampleReply_def)
  from arp_resolution_delivers [OF exampleARP_reachable exampleARP_usable(1,2) exampleHost(2,1) _ _ this,
      of 0 "[None, Some (exampleMsg 1, 3 / 2)]" "exampleMsg 0" 100 2]
  show ?thesis by (simp add: exampleARP_usable f del: ARP_handleMessage.simps) blast
qed

lemma arp_gives_up_witness:
  "\<exists>a. arpRun [(Outbound (exampleMsg 0) (Some (100, 0x0A000002)), 0), (TimerFired 0, 1), (TimerFired 0, 2), (TimerFired 0, 3)] exampleARP = Inr a \<and>
     arp_sent a = replicate 3 (requestOut exampleNic 0x0A000002) \<and> pendingQueue a = [] \<and> arpCache a = Map.empty"
proof -
  have f: "interfaceId exampleNic = 100" "nextTimer exampleARP = 0" "retryTimeout exampleARP = 1"
    by (simp_all add: exampleNic_def exampleARP_def ARP_initialize_def)
  from arp_gives_up [OF exampleARP_reachable exampleARP_usable(1,2) exampleHost(2,1), of 0 "[None, None]" "exampleMsg 0"]
  obtain a where "arpRun [(Outbound (exampleMsg 0) (Some (100, 0x0A000002)), 0), (TimerFired 0, 1), (TimerFired 0, 2), (TimerFired 0, 3)] exampleARP = Inr a"
      "arp_sent a = replicate 3 (requestOut exampleNic 0x0A000002)" "pendingQueue a = []" "arpCache a = Map.empty"
    by (auto simp: exampleARP_usable f eval_nat_numeral simp del: ARP_handleMessage.simps)
  then show ?thesis by blast
qed

lemma arp_request_answered_witness:
  "\<exists>b reply. processARPPacket (requestPacket (MAC 0x0A 0xAA 0 0 0 9) 0x0A000009 0x0A000001) (Some 100) 7 exampleARP = Inr b \<and>
     arp_sent b = [NicOutARP 0 reply (MAC 0x0A 0xAA 0 0 0 9)] \<and> isReply 0x0A000001 (MAC 0x0A 0xAA 0 0 0 1) reply"
proof -
  have f: "interfaceId exampleNic = 100" "nwLayerGateIndex exampleNic = 0" "macAddr exampleNic = MAC 0x0A 0xAA 0 0 0 1"
    by (simp_all add: exampleNic_def)
  obtain b1 where b1: "addressRecognized 0x0A000001 (Some exampleNic) exampleARP = (b1, True)"
    by (simp add: addressRecognized_def exampleARP_def ARP_initialize_def isLocalAddress_def setRouterId_def RoutingTable_new_def Let_def)
  have w: "waitingFor (arpCache exampleARP) 0x0A000009 = []" by (simp add: waitingFor_def exampleARP_usable)
  from arp_request_answered [OF exampleARP_reachable exampleARP_usable(1) w refl _ _ _ b1, of "MAC 0x0A 0xAA 0 0 0 9" 7]
  show ?thesis by (auto simp: f exampleARP_usable)
qed

end
