(* ===== verification/Ether_Switch.thy ===== *)
theory Ether_Switch imports MAC_Address
begin

text \<open>
  The relay units of Ethernet switches, \<^verbatim>\<open>src/src/linklayer/etherswitch/MACRelayUnitBase.{h,cc}\<close>: the table of
  the addresses seen at each port, with its aging and its limit, and the forwarding of frames.
\<close>

section \<open>Frames and the table\<close>

text \<open>A frame has an identity besides the fields the relay unit reads.\<close>

record EtherFrame =
  efId :: nat
  efDest :: MACAddress
  efSrc :: MACAddress
  efLength :: int

record AddressEntry =
  portno :: int
  insertionTime :: simtime

text \<open>The table is a map that is iterated in the order of the addresses.\<close>

type_synonym AddressTable = "(MACAddress \<times> AddressEntry) list"

fun putAddress :: "MACAddress \<Rightarrow> AddressEntry \<Rightarrow> AddressTable \<Rightarrow> AddressTable" where
  "putAddress a e [] = [(a, e)]"
| "putAddress a e ((b, f) # tab) =
     (if a < b then (a, e) # (b, f) # tab else if a = b then (a, e) # tab else (b, f) # putAddress a e tab)"

datatype EtherOutput =
    FrameOut EtherFrame int
  | PauseOut int int int

text \<open>\<open>PauseOut\<close> has the number in its name, the pause time and the port.\<close>

record Relay =
  numPorts :: int
  addressTableSize :: int
  agingTime :: simtime
  addresstable :: AddressTable
  seqNum :: int
  relay_sent :: "EtherOutput list"

section \<open>The table\<close>

definition isAged :: "Relay \<Rightarrow> simtime \<Rightarrow> AddressEntry \<Rightarrow> bool" where
  "isAged r now e \<longleftrightarrow> insertionTime e + agingTime r \<le> now"

definition removeAgedEntriesFromTable :: "simtime \<Rightarrow> Relay \<Rightarrow> Relay" where
  "removeAgedEntriesFromTable now r =
     r\<lparr>addresstable := filter (\<lambda>(_, e). \<not> isAged r now e) (addresstable r)\<rparr>"

text \<open>The loop keeps the oldest entry so far; it starts from a time that is later than that of every entry.\<close>

fun findOldest :: "MACAddress option \<times> simtime \<Rightarrow> AddressTable \<Rightarrow> MACAddress option" where
  "findOldest (oldest, t) [] = oldest"
| "findOldest (oldest, t) ((a, e) # tab) =
     findOldest (if insertionTime e < t then (Some a, insertionTime e) else (oldest, t)) tab"

definition removeOldestTableEntry :: "simtime \<Rightarrow> Relay \<Rightarrow> Relay" where
  "removeOldestTableEntry now r = (case findOldest (None, now + 1) (addresstable r) of
     None \<Rightarrow> r
   | Some a \<Rightarrow> r\<lparr>addresstable := filter (\<lambda>(b, _). b \<noteq> a) (addresstable r)\<rparr>)"

definition tableFull :: "Relay \<Rightarrow> bool" where
  "tableFull r \<longleftrightarrow> int (length (addresstable r)) = addressTableSize r"

definition updateTableWithAddress :: "MACAddress \<Rightarrow> int \<Rightarrow> simtime \<Rightarrow> Relay \<Rightarrow> Relay" where
  "updateTableWithAddress address port now r =
     (let entry = \<lparr>portno = port, insertionTime = now\<rparr>
      in case map_of (addresstable r) address of
        None \<Rightarrow>
          let r = (if addressTableSize r \<noteq> 0 \<and> tableFull r
                   then let r = removeAgedEntriesFromTable now r
                        in if tableFull r then removeOldestTableEntry now r else r
                   else r)
          in r\<lparr>addresstable := putAddress address entry (addresstable r)\<rparr>
      | Some _ \<Rightarrow> r\<lparr>addresstable := putAddress address entry (addresstable r)\<rparr>)"

text \<open>An aged entry is not used and thrown out.\<close>

definition getPortForAddress :: "MACAddress \<Rightarrow> simtime \<Rightarrow> Relay \<Rightarrow> Relay \<times> int" where
  "getPortForAddress address now r = (case map_of (addresstable r) address of
     None \<Rightarrow> (r, - 1)
   | Some e \<Rightarrow> if isAged r now e
       then (r\<lparr>addresstable := filter (\<lambda>(b, _). b \<noteq> address) (addresstable r)\<rparr>, - 1)
       else (r, portno e))"

section \<open>Forwarding\<close>

text \<open>The gates of the ports are connected; the kernel refuses to send by a port that does not exist.\<close>

definition sendPort :: "EtherFrame \<Rightarrow> int \<Rightarrow> Relay \<Rightarrow> Relay res" where
  "sendPort frame port r = checked (0 \<le> port \<and> port < numPorts r) (KernelError ''send(): no such gate'')
     (Inr (r\<lparr>relay_sent := relay_sent r @ [FrameOut frame port]\<rparr>))"

definition broadcastFrame :: "EtherFrame \<Rightarrow> int \<Rightarrow> Relay \<Rightarrow> Relay" where
  "broadcastFrame frame inputport r =
     r\<lparr>relay_sent := relay_sent r @ map (FrameOut frame) (filter (\<lambda>i. i \<noteq> inputport) [0..numPorts r - 1])\<rparr>"

definition handleAndDispatchFrame :: "EtherFrame \<Rightarrow> int \<Rightarrow> simtime \<Rightarrow> Relay \<Rightarrow> Relay res" where
  "handleAndDispatchFrame frame inputport now r =
     (let r = updateTableWithAddress (efSrc frame) inputport now r
      in if mac_isBroadcast (efDest frame) then Inr (broadcastFrame frame inputport r)
         else let (r, outputport) = getPortForAddress (efDest frame) now r
              in if inputport = outputport then Inr r
                 else if 0 \<le> outputport then sendPort frame outputport r
                 else Inr (broadcastFrame frame inputport r))"

definition sendPauseFrame :: "int \<Rightarrow> int \<Rightarrow> Relay \<Rightarrow> Relay" where
  "sendPauseFrame port pauseUnits r =
     r\<lparr>seqNum := seqNum r + 1, relay_sent := relay_sent r @ [PauseOut (seqNum r) pauseUnits port]\<rparr>"

section \<open>Initialisation\<close>

text \<open>
  A line of the table file as the code sees it: a comment, the two words that \<^verbatim>\<open>strtok\<close> finds, or an incomplete
  line. The port is the value of \<^verbatim>\<open>atoi\<close>.
\<close>

definition isBlank :: "char \<Rightarrow> bool" where
  "isBlank c \<longleftrightarrow> c = CHR '' '' \<or> c = CHR 0x09"

definition token :: "string \<Rightarrow> (string \<times> string) option" where
  "token s = (case dropWhile isBlank s of
     [] \<Rightarrow> None
   | c # s \<Rightarrow> Some (c # takeWhile (\<lambda>c. \<not> isBlank c) s, dropWhile (\<lambda>c. \<not> isBlank c) s))"

fun digits :: "int \<Rightarrow> string \<Rightarrow> int" where
  "digits n (c # s) = (if c \<in> set ''0123456789'' then digits (10 * n + int (of_char c) - 48) s else n)"
| "digits n [] = n"

definition atoi :: "string \<Rightarrow> int" where
  "atoi s = (case s of
     CHR ''-'' # s \<Rightarrow> - digits 0 s
   | CHR ''+'' # s \<Rightarrow> digits 0 s
   | _ \<Rightarrow> digits 0 s)"

fun readAddressTable :: "string list \<Rightarrow> AddressTable \<Rightarrow> AddressTable res" where
  "readAddressTable [] tab = Inr tab"
| "readAddressTable (line # lines) tab =
     (if line \<noteq> [] \<and> hd line = CHR ''#'' then readAddressTable lines tab
      else case token line of
        None \<Rightarrow> readAddressTable lines tab
      | Some (hexaddress, rest) \<Rightarrow> (case token rest of
          None \<Rightarrow> Inl (OppError ''line invalid in address table file'')
        | Some (port, _) \<Rightarrow> andThen (setAddress hexaddress) (\<lambda>a.
            readAddressTable lines (putAddress a \<lparr>portno = atoi port, insertionTime = 0\<rparr> tab))))"

definition Relay_initialize :: "int \<Rightarrow> int \<Rightarrow> simtime \<Rightarrow> string list option \<Rightarrow> Relay res" where
  "Relay_initialize ports tableSize aging file =
     andThen (case file of None \<Rightarrow> Inr [] | Some lines \<Rightarrow> readAddressTable lines []) (\<lambda>tab.
     Inr \<lparr>numPorts = ports, addressTableSize = (if 0 \<le> tableSize then tableSize else 0),
       agingTime = (if 0 < aging then aging else 10), addresstable = tab, seqNum = 0, relay_sent = []\<rparr>)"

end
