(* ===== verification/Ether_SwitchProps.thy ===== *)
theory Ether_SwitchProps imports Ether_Switch
begin

text \<open>
  Properties of the relay unit: what the table knows is what the frames told last, its limit holds, and a frame
  leaves by the known port or by all ports, never by the one it came from.
\<close>

section \<open>The table\<close>

lemma map_of_putAddress [simp]: "map_of (putAddress a e tab) = (map_of tab)(a \<mapsto> e)"
  by (induction a e tab rule: putAddress.induct) (auto simp: fun_eq_iff)

definition sortedTable :: "AddressTable \<Rightarrow> bool" where
  "sortedTable tab \<longleftrightarrow> sorted_wrt (<) (map fst tab)"

lemma set_putAddress: "fst ` set (putAddress a e tab) = insert a (fst ` set tab)"
  by (induction a e tab rule: putAddress.induct) auto

lemma sortedTable_put: "sortedTable tab \<Longrightarrow> sortedTable (putAddress a e tab)"
proof (induction a e tab rule: putAddress.induct)
  case (2 a e b f tab)
  then show ?case using set_putAddress [of a e tab]
    by (fastforce simp: sortedTable_def)
qed (simp add: sortedTable_def)

lemma sortedTable_filter: "sortedTable tab \<Longrightarrow> sortedTable (filter P tab)"
  by (induction tab) (auto simp: sortedTable_def)

lemma sortedTable_distinct: "sortedTable tab \<Longrightarrow> distinct (map fst tab)"
  by (induction tab) (auto simp: sortedTable_def)

lemma length_putAddress: "length (putAddress a e tab) = (if map_of tab a = None then Suc (length tab) else length tab)"
  if "sortedTable tab"
  using that
proof (induction a e tab rule: putAddress.induct)
  case (2 a e b f tab)
  then show ?case by (auto simp: sortedTable_def map_of_eq_None_iff)
qed simp

lemma map_of_filter: "sortedTable tab \<Longrightarrow> map_of (filter (\<lambda>(a, e). P a e) tab) a =
    (case map_of tab a of None \<Rightarrow> None | Some e \<Rightarrow> if P a e then Some e else None)"
proof (induction tab)
  case (Cons x tab)
  then have "map_of (filter (\<lambda>(a, e). P a e) tab) (fst x) = None"
    by (auto simp: sortedTable_def map_of_eq_None_iff)
  with Cons show ?case by (cases x) (auto simp: sortedTable_def)
qed simp

lemma findOldest_cases:
  "(findOldest (o', t) tab = o' \<and> (\<forall>(b, f) \<in> set tab. t \<le> insertionTime f)) \<or>
   (\<exists>a e. findOldest (o', t) tab = Some a \<and> (a, e) \<in> set tab \<and> insertionTime e < t \<and>
      (\<forall>(b, f) \<in> set tab. insertionTime e \<le> insertionTime f))"
proof (induction "(o', t)" tab arbitrary: o' t rule: findOldest.induct)
  case (2 o' t c g tab)
  then show ?case
    by (cases "insertionTime g < t") (simp_all, (fastforce)+)
qed simp

section \<open>What the frames have told\<close>

text \<open>A history is the list of the frames with the port by which each came and its time.\<close>

type_synonym History = "(EtherFrame \<times> int \<times> simtime) list"

definition lastSeen :: "History \<Rightarrow> MACAddress \<Rightarrow> (int \<times> simtime) option" where
  "lastSeen h = map_of (rev (map (\<lambda>(f, p, t). (efSrc f, p, t)) h))"

definition wherePort :: "simtime \<Rightarrow> simtime \<Rightarrow> History \<Rightarrow> MACAddress \<Rightarrow> int option" where
  "wherePort aging now h a = (case lastSeen h a of
     None \<Rightarrow> None | Some (p, t) \<Rightarrow> if t + aging \<le> now then None else Some p)"

definition flood :: "int \<Rightarrow> EtherFrame \<times> int \<times> simtime \<Rightarrow> EtherOutput list" where
  "flood n = (\<lambda>(f, p, t). map (FrameOut f) (filter (\<lambda>i. i \<noteq> p) [0..n - 1]))"

definition forwardSpec :: "int \<Rightarrow> simtime \<Rightarrow> History \<Rightarrow> EtherFrame \<times> int \<times> simtime \<Rightarrow> EtherOutput list" where
  "forwardSpec n aging h x = (case x of (f, p, t) \<Rightarrow>
     if mac_isBroadcast (efDest f) then flood n x
     else case wherePort aging t h (efDest f) of
       None \<Rightarrow> flood n x | Some q \<Rightarrow> if q = p then [] else [FrameOut f q])"

definition relayRun :: "History \<Rightarrow> Relay \<Rightarrow> Relay res" where
  "relayRun h r = foldl (\<lambda>r (f, p, t). andThen r (handleAndDispatchFrame f p t)) (Inr r) h"

lemma relayRun_Nil [simp]: "relayRun [] r = Inr r"
  by (simp add: relayRun_def)

lemma relayRun_snoc [simp]:
  "relayRun (h @ [(f, p, t)]) r = andThen (relayRun h r) (handleAndDispatchFrame f p t)"
  by (simp add: relayRun_def)

lemma lastSeen_Nil [simp]: "lastSeen [] a = None"
  by (simp add: lastSeen_def)

lemma lastSeen_snoc [simp]:
  "lastSeen (h @ [(f, p, t)]) a = (if a = efSrc f then Some (p, t) else lastSeen h a)"
  by (simp add: lastSeen_def)

lemma lastSeen_in: "lastSeen h a = Some (p, t) \<Longrightarrow> \<exists>f. (f, p, t) \<in> set h \<and> efSrc f = a"
  by (auto simp: lastSeen_def dest!: map_of_SomeD)

text \<open>
  The table agrees with the history: an entry is the last frame of its address. It is complete if only aged
  addresses are missing.
\<close>

definition agrees :: "int \<Rightarrow> int \<Rightarrow> simtime \<Rightarrow> History \<Rightarrow> Relay \<Rightarrow> bool" where
  "agrees n k aging h r \<longleftrightarrow> numPorts r = n \<and> addressTableSize r = k \<and> agingTime r = aging \<and>
     sortedTable (addresstable r) \<and> (k \<noteq> 0 \<longrightarrow> int (length (addresstable r)) \<le> k) \<and>
     (\<forall>a e. map_of (addresstable r) a = Some e \<longrightarrow> lastSeen h a = Some (portno e, insertionTime e))"

definition completeTable :: "simtime \<Rightarrow> History \<Rightarrow> Relay \<Rightarrow> bool" where
  "completeTable now h r \<longleftrightarrow>
     (\<forall>a p t. map_of (addresstable r) a = None \<longrightarrow> lastSeen h a = Some (p, t) \<longrightarrow> t + agingTime r \<le> now)"

lemma agreesD:
  assumes "agrees n k aging h r"
  shows "numPorts r = n" "addressTableSize r = k" "agingTime r = aging" "sortedTable (addresstable r)"
    "k \<noteq> 0 \<Longrightarrow> int (length (addresstable r)) \<le> k"
    "map_of (addresstable r) a = Some e \<Longrightarrow> lastSeen h a = Some (portno e, insertionTime e)"
  using assms by (auto simp: agrees_def)

lemma map_of_filter_Some:
  "sortedTable tab \<Longrightarrow> map_of (filter (\<lambda>(a, e). P a e) tab) a = Some e \<Longrightarrow> map_of tab a = Some e"
  by (simp add: map_of_filter split: option.splits if_splits)

lemma agrees_filter:
  assumes "agrees n k aging h r"
  shows "agrees n k aging h (r\<lparr>addresstable := filter (\<lambda>(a, e). P a e) (addresstable r)\<rparr>)"
proof -
  have "int (length (filter (\<lambda>(a, e). P a e) (addresstable r))) \<le> k" if "k \<noteq> 0"
    using agreesD(5) [OF assms that] length_filter_le [of _ "addresstable r"]
    by (meson of_nat_mono order_trans)
  with assms show ?thesis
    unfolding agrees_def by (auto simp: sortedTable_filter dest: map_of_filter_Some)
qed

lemma removeAged_agrees: "agrees n k aging h r \<Longrightarrow> agrees n k aging h (removeAgedEntriesFromTable now r)"
  unfolding removeAgedEntriesFromTable_def by (rule agrees_filter)

lemma removeOldest_agrees: "agrees n k aging h r \<Longrightarrow> agrees n k aging h (removeOldestTableEntry now r)"
  using agrees_filter [of n k aging h r "\<lambda>b _. b \<noteq> c" for c]
  by (auto simp: removeOldestTableEntry_def split: option.split)

lemma removeOldest_length:
  assumes "agrees n k aging h r" "\<forall>(f, p, t) \<in> set h. t \<le> now" "addresstable r \<noteq> []"
  shows "length (addresstable (removeOldestTableEntry now r)) < length (addresstable r)"
proof -
  have t: "insertionTime e < now + 1" if "(b, e) \<in> set (addresstable r)" for b e
  proof -
    have "map_of (addresstable r) b = Some e"
      using that assms(1) by (simp add: agrees_def sortedTable_distinct)
    then have "lastSeen h b = Some (portno e, insertionTime e)" using assms(1) by (simp add: agreesD(6))
    then have "insertionTime e \<le> now" using assms(2) lastSeen_in by fastforce
    then show ?thesis by simp
  qed
  obtain b f where "(b, f) \<in> set (addresstable r)" using assms(3) by (cases "addresstable r") auto
  with t have "\<not> (\<forall>(b, f) \<in> set (addresstable r). now + 1 \<le> insertionTime f)" by fastforce
  then obtain a e where "findOldest (None, now + 1) (addresstable r) = Some a" "(a, e) \<in> set (addresstable r)"
    using findOldest_cases [of None "now + 1" "addresstable r"] by auto
  then show ?thesis
    by (auto simp: removeOldestTableEntry_def intro!: length_filter_less [of "(a, e)"])
qed

lemma put_agrees:
  assumes "agrees n k aging h r" "k \<noteq> 0 \<Longrightarrow> map_of (addresstable r) (efSrc f) = None \<Longrightarrow> int (length (addresstable r)) < k"
  shows "agrees n k aging (h @ [(f, p, t)])
     (r\<lparr>addresstable := putAddress (efSrc f) \<lparr>portno = p, insertionTime = t\<rparr> (addresstable r)\<rparr>)"
  using assms unfolding agrees_def by (auto simp: sortedTable_put length_putAddress)

lemma update_agrees:
  assumes "agrees n k aging h r" "\<forall>(f, p, t) \<in> set h. t \<le> now" "0 \<le> k"
  shows "agrees n k aging (h @ [(f, p, now)]) (updateTableWithAddress (efSrc f) p now r)"
proof (cases "map_of (addresstable r) (efSrc f)")
  case Some
  then show ?thesis using put_agrees [OF assms(1), of f p now] by (simp add: updateTableWithAddress_def)
next
  case None
  define r1 where "r1 = removeAgedEntriesFromTable now r"
  define r2 where "r2 = (if tableFull r1 then removeOldestTableEntry now r1 else r1)"
  define r3 where "r3 = (if k \<noteq> 0 \<and> tableFull r then r2 else r)"
  have r1: "agrees n k aging h r1" unfolding r1_def using assms(1) by (rule removeAged_agrees)
  have r2: "agrees n k aging h r2" using r1 removeOldest_agrees by (simp add: r2_def)
  have "int (length (addresstable r2)) < k" if "k \<noteq> 0"
  proof (cases "tableFull r1")
    case True
    then have "int (length (addresstable r1)) = k" using r1 by (simp add: tableFull_def agreesD(2))
    moreover from this that assms(3) have "addresstable r1 \<noteq> []" by auto
    ultimately show ?thesis using removeOldest_length [OF r1 assms(2)] True by (simp add: r2_def)
  next
    case False
    then have "int (length (addresstable r1)) \<noteq> k" using r1 by (simp add: tableFull_def agreesD(2))
    then show ?thesis using False agreesD(5) [OF r1 that] by (simp add: r2_def)
  qed
  moreover have "int (length (addresstable r)) < k" if "k \<noteq> 0" "\<not> tableFull r"
    using that assms(1) agreesD(5) [OF assms(1)] by (simp add: tableFull_def agreesD(2))
  ultimately have "agrees n k aging (h @ [(f, p, now)])
      (r3\<lparr>addresstable := putAddress (efSrc f) \<lparr>portno = p, insertionTime = now\<rparr> (addresstable r3)\<rparr>)"
    by (intro put_agrees) (auto simp: r3_def r2 assms(1))
  moreover have "updateTableWithAddress (efSrc f) p now r =
      r3\<lparr>addresstable := putAddress (efSrc f) \<lparr>portno = p, insertionTime = now\<rparr> (addresstable r3)\<rparr>"
    using None agreesD(2) [OF assms(1)]
    by (simp add: updateTableWithAddress_def r3_def r2_def r1_def Let_def)
  ultimately show ?thesis by (simp only:)
qed

lemma update_sent [simp]: "relay_sent (updateTableWithAddress a p now r) = relay_sent r"
  by (simp add: updateTableWithAddress_def Let_def removeOldestTableEntry_def removeAgedEntriesFromTable_def
      split: option.split)

lemma update_lookup:
  "map_of (addresstable (updateTableWithAddress a p now r)) a = Some \<lparr>portno = p, insertionTime = now\<rparr>"
  by (simp add: updateTableWithAddress_def Let_def split: option.split)

text \<open>An unlimited table loses nothing when it learns.\<close>

lemma update_complete:
  assumes "completeTable now h r" "addressTableSize r = 0"
  shows "completeTable now (h @ [(f, p, now)]) (updateTableWithAddress (efSrc f) p now r)"
proof -
  have "updateTableWithAddress (efSrc f) p now r =
      r\<lparr>addresstable := putAddress (efSrc f) \<lparr>portno = p, insertionTime = now\<rparr> (addresstable r)\<rparr>"
    using assms(2) by (simp add: updateTableWithAddress_def Let_def split: option.split)
  then show ?thesis using assms(1) by (simp add: completeTable_def)
qed

lemma completeTable_later: "completeTable t h r \<Longrightarrow> t \<le> now \<Longrightarrow> completeTable now h r"
  unfolding completeTable_def by (meson order_trans)

text \<open>The lookup throws out what is too old, and answers by the history.\<close>

lemma getPort_cases:
  assumes "agrees n k aging h r" "getPortForAddress a now r = (r', q)"
  shows "agrees n k aging h r'" "relay_sent r' = relay_sent r"
    "q = - 1 \<or> wherePort aging now h a = Some q"
    "completeTable now h r \<Longrightarrow> completeTable now h r'"
    "completeTable now h r \<Longrightarrow> q = (case wherePort aging now h a of None \<Rightarrow> - 1 | Some p \<Rightarrow> p)"
proof -
  have [simp]: "map_of (filter (\<lambda>(b, _). b \<noteq> a) (addresstable r)) c = (if c = a then None else map_of (addresstable r) c)" for c
    using map_of_filter [OF agreesD(4) [OF assms(1)], of "\<lambda>b _. b \<noteq> a" c] by (simp split: option.split)
  have l: "lastSeen h b = Some (portno e, insertionTime e)" if "map_of (addresstable r) b = Some e" for b e
    using that assms(1) by (simp add: agreesD(6))
  have ag: "agingTime r = aging" using assms(1) by (simp add: agreesD(3))
  show "agrees n k aging h r'"
    using assms agrees_filter [OF assms(1), of "\<lambda>b _. b \<noteq> a"]
    by (auto simp: getPortForAddress_def split: option.splits if_splits)
  show "relay_sent r' = relay_sent r"
    using assms(2) by (auto simp: getPortForAddress_def split: option.splits if_splits)
  show "q = - 1 \<or> wherePort aging now h a = Some q"
    using assms(2) ag l by (auto simp: getPortForAddress_def isAged_def wherePort_def split: option.splits if_splits)
  show "completeTable now h r \<Longrightarrow> completeTable now h r'"
    using assms(2) ag l by (auto simp: getPortForAddress_def isAged_def completeTable_def split: option.splits if_splits)
  show "completeTable now h r \<Longrightarrow> q = (case wherePort aging now h a of None \<Rightarrow> - 1 | Some p \<Rightarrow> p)"
    using assms(2) ag l
    by (auto simp: getPortForAddress_def isAged_def completeTable_def wherePort_def split: option.splits if_splits prod.splits)
qed

lemma wherePort_range:
  "wherePort aging now h a = Some q \<Longrightarrow> \<forall>(f, p, t) \<in> set h. 0 \<le> p \<and> p < n \<Longrightarrow> 0 \<le> q \<and> q < n"
  by (auto simp: wherePort_def split: option.splits prod.splits if_splits dest!: lastSeen_in)

lemma handle_step:
  fixes f :: EtherFrame
  assumes "agrees n k aging h r" "\<forall>(f, p, t) \<in> set h. t \<le> now \<and> 0 \<le> p \<and> p < n" "0 \<le> k" "0 \<le> p" "p < n"
  defines "h' \<equiv> h @ [(f, p, now)]"
  shows "\<exists>r' out. handleAndDispatchFrame f p now r = Inr r' \<and> agrees n k aging h' r' \<and> relay_sent r' = relay_sent r @ out \<and>
    out \<in> {forwardSpec n aging h' (f, p, now), flood n (f, p, now)} \<and>
    (k = 0 \<and> completeTable now h r \<longrightarrow> completeTable now h' r' \<and> out = forwardSpec n aging h' (f, p, now))"
proof -
  define r1 where "r1 = updateTableWithAddress (efSrc f) p now r"
  have t: "\<forall>(f, p, t) \<in> set h. t \<le> now" using assms(2) by auto
  have a1: "agrees n k aging h' r1"
    unfolding r1_def h'_def using assms(1) t assms(3) by (rule update_agrees)
  have c1: "completeTable now h' r1" if "k = 0" "completeTable now h r"
    unfolding r1_def h'_def using that(2) that(1) [folded agreesD(2) [OF assms(1)]] by (rule update_complete)
  have rng: "\<forall>(f, p, t) \<in> set h'. 0 \<le> p \<and> p < n" using assms by auto
  have s1: "relay_sent r1 = relay_sent r" by (simp add: r1_def)
  show ?thesis
  proof (cases "mac_isBroadcast (efDest f)")
    case True
    then show ?thesis using a1 c1
      by (simp add: handleAndDispatchFrame_def Let_def r1_def [symmetric] broadcastFrame_def forwardSpec_def flood_def s1
          agrees_def completeTable_def)
  next
    case False
    obtain r2 q where g: "getPortForAddress (efDest f) now r1 = (r2, q)" by fastforce
    note G = getPort_cases [OF a1 g]
    have n: "numPorts r2 = n" using G(1) by (simp add: agreesD(1))
    have q: "0 \<le> q \<and> q < n" if "q \<noteq> - 1" using that G(3) wherePort_range [OF _ rng] by blast
    have *: "agrees n k aging h' (r2\<lparr>relay_sent := x\<rparr>)" "completeTable now h' r2 \<Longrightarrow> completeTable now h' (r2\<lparr>relay_sent := x\<rparr>)" for x
      using G(1) by (simp_all add: agrees_def completeTable_def)
    have s2: "relay_sent r2 = relay_sent r" using G(2) s1 by simp
    define out where "out = (if q = p then [] else if q = - 1 then flood n (f, p, now) else [FrameOut f q])"
    have "p \<noteq> - 1" using assms(4) by simp
    then have e: "handleAndDispatchFrame f p now r = Inr (r2\<lparr>relay_sent := relay_sent r @ out\<rparr>)"
      using False q s2 by (auto simp: handleAndDispatchFrame_def r1_def [symmetric] g Let_def broadcastFrame_def
          sendPort_def out_def flood_def n)
    have o1: "out \<in> {forwardSpec n aging h' (f, p, now), flood n (f, p, now)}"
      using G(3) False \<open>p \<noteq> - 1\<close> by (auto simp: out_def forwardSpec_def)
    have o2: "out = forwardSpec n aging h' (f, p, now)" if "completeTable now h' r1"
    proof (cases "wherePort aging now h' (efDest f)")
      case None
      then show ?thesis using G(5) [OF that] False \<open>p \<noteq> - 1\<close> by (simp add: out_def forwardSpec_def)
    next
      case (Some p')
      then show ?thesis using G(5) [OF that] False wherePort_range [OF Some rng] by (simp add: out_def forwardSpec_def)
    qed
    show ?thesis using e o1 o2 c1 G(4) *
      by (intro exI [of _ "r2\<lparr>relay_sent := relay_sent r @ out\<rparr>"] exI [of _ out]) simp
  qed
qed

text \<open>C37: Without a limit on the table the relay unit forwards as the history of the frames says: a broadcast, or a
  frame for an address that was not seen within the aging time, leaves by every port but its own, any other by
  the port where its destination was seen last, and by none if that is the one it came by.\<close>

theorem switch_forwards_by_history:
  assumes "Relay_initialize n k aging None = Inr r" "k \<le> 0" "0 < aging"
    and "\<forall>(f, p, t) \<in> set h. 0 \<le> p \<and> p < n" "sorted (map (snd \<circ> snd) h)"
  shows "\<exists>r'. relayRun h r = Inr r' \<and>
    relay_sent r' = concat (map (\<lambda>i. forwardSpec n aging (take (Suc i) h) (h ! i)) [0..<length h])"
proof -
  have "\<exists>r'. relayRun h r = Inr r' \<and> agrees n 0 aging h r' \<and>
      (\<forall>now. (\<forall>(f, p, t) \<in> set h. t \<le> now) \<longrightarrow> completeTable now h r') \<and>
      relay_sent r' = concat (map (\<lambda>i. forwardSpec n aging (take (Suc i) h) (h ! i)) [0..<length h])"
    using assms(4,5)
  proof (induction h rule: rev_induct)
    case Nil
    then show ?case using assms(1-3)
      by (auto simp: Relay_initialize_def agrees_def sortedTable_def completeTable_def)
  next
    case (snoc x h)
    obtain f p now where x: "x = (f, p, now)" by (cases x)
    obtain r1 where r1: "relayRun h r = Inr r1" "agrees n 0 aging h r1"
        "\<forall>now. (\<forall>(f, p, t) \<in> set h. t \<le> now) \<longrightarrow> completeTable now h r1"
        "relay_sent r1 = concat (map (\<lambda>i. forwardSpec n aging (take (Suc i) h) (h ! i)) [0..<length h])"
      using snoc by (auto simp: sorted_append)
    have le: "\<forall>(f, p, t) \<in> set h. t \<le> now" using snoc.prems(2) by (fastforce simp: x sorted_append)
    with r1(3) have c: "completeTable now h r1" by blast
    from le snoc.prems(1) have h: "\<forall>(f, p, t) \<in> set h. t \<le> now \<and> 0 \<le> p \<and> p < n" "0 \<le> p" "p < n" by (auto simp: x)
    obtain r' where r': "handleAndDispatchFrame f p now r1 = Inr r'" "agrees n 0 aging (h @ [x]) r'"
        "completeTable now (h @ [x]) r'" "relay_sent r' = relay_sent r1 @ forwardSpec n aging (h @ [x]) x"
      using handle_step [OF r1(2) h(1) _ h(2,3), of f] c by (auto simp: x)
    have "concat (map (\<lambda>i. forwardSpec n aging (take (Suc i) (h @ [x])) ((h @ [x]) ! i)) [0..<length h]) =
        concat (map (\<lambda>i. forwardSpec n aging (take (Suc i) h) (h ! i)) [0..<length h])"
      by (intro arg_cong [of _ _ concat] map_cong) (auto simp: nth_append)
    then show ?case using r1 r' completeTable_later [OF r'(3)] by (auto simp: x)
  qed
  then show ?thesis by blast
qed

text \<open>With a limit the table never exceeds it, no frame stops the simulation, and every frame is either forwarded as
  the history says or, when its destination was displaced, to all other ports: it is never sent to a wrong port only
  and never back.\<close>

theorem switch_table_bounded:
  assumes "Relay_initialize n k aging None = Inr r" "0 < k" "0 < aging"
    and "\<forall>(f, p, t) \<in> set h. 0 \<le> p \<and> p < n" "sorted (map (snd \<circ> snd) h)"
  shows "\<exists>r' outs. relayRun h r = Inr r' \<and> int (length (addresstable r')) \<le> k \<and> relay_sent r' = concat outs \<and>
    length outs = length h \<and>
    (\<forall>i < length h. outs ! i \<in> {forwardSpec n aging (take (Suc i) h) (h ! i), flood n (h ! i)})"
proof -
  have "\<exists>r' outs. relayRun h r = Inr r' \<and> agrees n k aging h r' \<and> relay_sent r' = concat outs \<and> length outs = length h \<and>
      (\<forall>i < length h. outs ! i \<in> {forwardSpec n aging (take (Suc i) h) (h ! i), flood n (h ! i)})"
    using assms(4,5)
  proof (induction h rule: rev_induct)
    case Nil
    then show ?case using assms(1-3) by (auto simp: Relay_initialize_def agrees_def sortedTable_def)
  next
    case (snoc x h)
    obtain f p now where x: "x = (f, p, now)" by (cases x)
    obtain r1 outs where r1: "relayRun h r = Inr r1" "agrees n k aging h r1" "relay_sent r1 = concat outs"
        "length outs = length h"
        "\<forall>i < length h. outs ! i \<in> {forwardSpec n aging (take (Suc i) h) (h ! i), flood n (h ! i)}"
      using snoc by (auto simp: sorted_append)
    have h: "\<forall>(f, p, t) \<in> set h. t \<le> now \<and> 0 \<le> p \<and> p < n" "0 \<le> p" "p < n"
      using snoc.prems by (fastforce simp: x sorted_append)+
    obtain r' out where r': "handleAndDispatchFrame f p now r1 = Inr r'" "agrees n k aging (h @ [x]) r'"
        "relay_sent r' = relay_sent r1 @ out" "out \<in> {forwardSpec n aging (h @ [x]) x, flood n x}"
      using handle_step [OF r1(2) h(1) _ h(2,3), of f] assms(2) by (auto simp: x)
    have "\<forall>i < length (h @ [x]). (outs @ [out]) ! i \<in>
        {forwardSpec n aging (take (Suc i) (h @ [x])) ((h @ [x]) ! i), flood n ((h @ [x]) ! i)}"
      using r1(4,5) r'(4) by (auto simp: nth_append less_Suc_eq)
    then show ?case using r1 r'
      by (intro exI [of _ r'] exI [of _ "outs @ [out]"]) (simp add: x)
  qed
  then obtain r' outs where "relayRun h r = Inr r'" "agrees n k aging h r'" "relay_sent r' = concat outs"
      "length outs = length h"
      "\<forall>i < length h. outs ! i \<in> {forwardSpec n aging (take (Suc i) h) (h ! i), flood n (h ! i)}" by blast
  with assms(2) agreesD(5) [of n k aging h r'] show ?thesis by (intro exI [of _ r'] exI [of _ outs]) simp
qed

text \<open>Two stations behind ports 0 and 2 of a switch with three ports.\<close>

definition exStation :: "uint8 \<Rightarrow> MACAddress" where
  "exStation i = MAC 0x0A 0xAA 0 0 0 i"

definition exFrames :: History where
  "exFrames = [(\<lparr>efId = 1, efDest = MAC_broadcast, efSrc = exStation 1, efLength = 64\<rparr>, 0, 1),
     (\<lparr>efId = 2, efDest = exStation 1, efSrc = exStation 2, efLength = 64\<rparr>, 2, 2),
     (\<lparr>efId = 3, efDest = exStation 2, efSrc = exStation 1, efLength = 64\<rparr>, 0, 12)]"

definition exSwitch :: "int \<Rightarrow> Relay" where
  "exSwitch k = \<lparr>numPorts = 3, addressTableSize = k, agingTime = 10, addresstable = [], seqNum = 0, relay_sent = []\<rparr>"

theorem switch_forwards_by_history_witness:
  "\<exists>r'. relayRun exFrames (exSwitch 0) = Inr r' \<and>
     relay_sent r' = concat (map (\<lambda>i. forwardSpec 3 10 (take (Suc i) exFrames) (exFrames ! i)) [0..<length exFrames])"
  by (rule switch_forwards_by_history [of _ 0]) (simp_all add: Relay_initialize_def exSwitch_def exFrames_def)

theorem switch_table_bounded_witness:
  "\<exists>r' outs. relayRun exFrames (exSwitch 1) = Inr r' \<and> int (length (addresstable r')) \<le> 1 \<and> relay_sent r' = concat outs \<and>
    length outs = length exFrames \<and>
    (\<forall>i < length exFrames. outs ! i \<in> {forwardSpec 3 10 (take (Suc i) exFrames) (exFrames ! i), flood 3 (exFrames ! i)})"
  by (rule switch_table_bounded) (simp_all add: Relay_initialize_def exSwitch_def exFrames_def)

end
