(* ===== verification/Sim_Kernel.thy ===== *)
theory Sim_Kernel imports Inet_Prelude
begin

text \<open>Checks that the simulation kernel makes when a module schedules a message for itself.\<close>

text \<open>The kernel refuses to schedule a message in the past.\<close>

definition notInPast :: "simtime \<Rightarrow> simtime \<Rightarrow> 'u res \<Rightarrow> 'u res" where
  "notInPast now t r = checked (now \<le> t) (KernelError ''Cannot schedule message to the past'') r"

text \<open>A message that is scheduled cannot be scheduled again before it arrived or was cancelled.\<close>

definition notScheduled :: "simtime option \<Rightarrow> 'u res \<Rightarrow> 'u res" where
  "notScheduled ev r = checked (ev = None) (KernelError ''scheduleAt(): message is currently scheduled'') r"

lemmas kernel_checks = notInPast_def notScheduled_def

end
