(* ===== verification/Ether_Units.thy ===== *)
theory Ether_Units imports Ether_SwitchProps Sim_Kernel "HOL-Library.Multiset"
begin

text \<open>
  The two relay units that process frames: \<^verbatim>\<open>MACRelayUnitNP.cc\<close> with a number of processors and one queue, and
  \<^verbatim>\<open>MACRelayUnitPP.cc\<close> with a processor and a queue for every port. Both share one buffer for all frames and
  send PAUSE frames when it fills. What they have in common is a locale, interpreted on both.
\<close>

section \<open>The buffer\<close>

record RelayUnit =
  uRelay :: Relay
  processingTime :: simtime
  bufferSize :: int
  highWatermark :: int
  pauseUnits :: int
  pauseLastSent :: simtime
  bufferUsed :: int
  numProcessedFrames :: int
  numDroppedFrames :: int

text \<open>\<open>admits\<close> is the test of both \<^verbatim>\<open>handleIncomingFrame\<close> methods.\<close>

definition admits :: "EtherFrame \<Rightarrow> 'a RelayUnit_scheme \<Rightarrow> bool" where
  "admits frame u \<longleftrightarrow> efLength frame + bufferUsed u < bufferSize u"

definition pauseInterval :: "'a RelayUnit_scheme \<Rightarrow> simtime" where
  "pauseInterval u = of_int (pauseUnits u) * 512 / 100000"

definition sendPauses :: "simtime \<Rightarrow> 'a RelayUnit_scheme \<Rightarrow> 'a RelayUnit_scheme" where
  "sendPauses now u =
     (if pauseUnits u > 0 \<and> highWatermark u > 0 \<and> bufferUsed u \<ge> highWatermark u \<and> now - pauseLastSent u > pauseInterval u
      then u\<lparr>uRelay := fold (\<lambda>i r. sendPauseFrame i (pauseUnits u) r) [0..numPorts (uRelay u) - 1] (uRelay u),
        pauseLastSent := now\<rparr>
      else u)"

section \<open>Several processors and one queue\<close>

text \<open>A frame is kept with the port by which it came. An event is scheduled or not, and points to a frame or to nothing.\<close>

type_synonym Held = "EtherFrame \<times> int"

record EndProcEvent =
  contextPointer :: "Held option"
  arrivalTime :: "simtime option"

record RelayNP = RelayUnit +
  endProcEvents :: "EndProcEvent list"
  npQueue :: "Held list"

definition NP_initialize :: "Relay \<Rightarrow> nat \<Rightarrow> simtime \<Rightarrow> int \<Rightarrow> int \<Rightarrow> int \<Rightarrow> RelayNP" where
  "NP_initialize r numCPUs pt bufsize mark units = \<lparr>uRelay = r, processingTime = pt, bufferSize = bufsize, highWatermark = mark,
     pauseUnits = units, pauseLastSent = 0, bufferUsed = 0, numProcessedFrames = 0, numDroppedFrames = 0,
     endProcEvents = replicate numCPUs \<lparr>contextPointer = None, arrivalTime = None\<rparr>, npQueue = []\<rparr>"

fun firstIdle :: "EndProcEvent list \<Rightarrow> nat" where
  "firstIdle [] = 0"
| "firstIdle (e # es) = (if arrivalTime e = None then 0 else Suc (firstIdle es))"

definition NP_handleIncomingFrame :: "Held \<Rightarrow> simtime \<Rightarrow> RelayNP \<Rightarrow> RelayNP res" where
  "NP_handleIncomingFrame x now u =
     (if admits (fst x) u then
        let u = u\<lparr>bufferUsed := bufferUsed u + efLength (fst x)\<rparr>;
          u = sendPauses now u;
          i = firstIdle (endProcEvents u)
        in if i = length (endProcEvents u) then Inr (u\<lparr>npQueue := npQueue u @ [x]\<rparr>)
           else checked (contextPointer (endProcEvents u ! i) = None) (AssertFailed ''msg->getContextPointer()==NULL'')
             (notInPast now (now + processingTime u) (Inr (u\<lparr>endProcEvents := (endProcEvents u)
                [i := \<lparr>contextPointer = Some x, arrivalTime = Some (now + processingTime u)\<rparr>]\<rparr>)))
      else Inr (u\<lparr>numDroppedFrames := numDroppedFrames u + 1\<rparr>))"

definition NP_processFrame :: "nat \<Rightarrow> simtime \<Rightarrow> RelayNP \<Rightarrow> RelayNP res" where
  "NP_processFrame cpu now u =
     (case contextPointer (endProcEvents u ! cpu) of
        None \<Rightarrow> Inl (AssertFailed ''frame'')
      | Some x \<Rightarrow>
          let u = u\<lparr>endProcEvents := (endProcEvents u)[cpu := \<lparr>contextPointer = None, arrivalTime = None\<rparr>]\<rparr>
          in andThen (handleAndDispatchFrame (fst x) (snd x) now (uRelay u)) (\<lambda>r.
             let u = u\<lparr>uRelay := r, bufferUsed := bufferUsed u - efLength (fst x),
               numProcessedFrames := numProcessedFrames u + 1\<rparr>
             in case npQueue u of
                  [] \<Rightarrow> Inr u
                | y # ys \<Rightarrow> notInPast now (now + processingTime u) (Inr (u\<lparr>npQueue := ys, endProcEvents := (endProcEvents u)
                    [cpu := \<lparr>contextPointer = Some y, arrivalTime = Some (now + processingTime u)\<rparr>]\<rparr>))))"

section \<open>A processor for every port\<close>

record PortBuffer =
  pbPort :: int
  cpuBusy :: bool
  pbQueue :: "EtherFrame list"

text \<open>The messages that are scheduled are a list of the index of the buffer they point to and their time.\<close>

record RelayPP = RelayUnit +
  portBuffers :: "PortBuffer list"
  ppEvents :: "(nat \<times> simtime) list"

definition PP_initialize :: "Relay \<Rightarrow> simtime \<Rightarrow> int \<Rightarrow> int \<Rightarrow> int \<Rightarrow> RelayPP" where
  "PP_initialize r pt bufsize mark units = \<lparr>uRelay = r, processingTime = pt, bufferSize = bufsize, highWatermark = mark,
     pauseUnits = units, pauseLastSent = 0, bufferUsed = 0, numProcessedFrames = 0, numDroppedFrames = 0,
     portBuffers = map (\<lambda>i. \<lparr>pbPort = int i, cpuBusy = False, pbQueue = []\<rparr>) [0..<nat (numPorts r)], ppEvents = []\<rparr>"

definition updBuffer :: "nat \<Rightarrow> (PortBuffer \<Rightarrow> PortBuffer) \<Rightarrow> RelayPP \<Rightarrow> RelayPP" where
  "updBuffer i f u = u\<lparr>portBuffers := (portBuffers u)[i := f (portBuffers u ! i)]\<rparr>"

definition PP_handleIncomingFrame :: "Held \<Rightarrow> simtime \<Rightarrow> RelayPP \<Rightarrow> RelayPP res" where
  "PP_handleIncomingFrame x now u =
     (if admits (fst x) u then
        let i = nat (snd x) in
        checked (0 \<le> snd x \<and> i < length (portBuffers u)) (UndefinedBehaviour ''buffer[inputport]'')
          (let u = updBuffer i (\<lambda>b. b\<lparr>pbQueue := pbQueue b @ [fst x], pbPort := snd x\<rparr>) u;
             u = u\<lparr>bufferUsed := bufferUsed u + efLength (fst x)\<rparr>;
             u = sendPauses now u
           in if cpuBusy (portBuffers u ! i) then Inr u
              else notInPast now (now + processingTime u)
                (Inr ((updBuffer i (\<lambda>b. b\<lparr>cpuBusy := True\<rparr>) u)\<lparr>ppEvents := ppEvents u @ [(i, now + processingTime u)]\<rparr>)))
      else Inr (u\<lparr>numDroppedFrames := numDroppedFrames u + 1\<rparr>))"

text \<open>The message that arrives is \<open>(i, now)\<close>; it is scheduled again or deleted.\<close>

definition PP_processFrame :: "nat \<Rightarrow> simtime \<Rightarrow> RelayPP \<Rightarrow> RelayPP res" where
  "PP_processFrame i now u =
     (let u = u\<lparr>ppEvents := remove1 (i, now) (ppEvents u)\<rparr>; b = portBuffers u ! i
      in case pbQueue b of
        [] \<Rightarrow> Inl (KernelError ''pop(): queue empty'')
      | frame # q \<Rightarrow>
          let u = updBuffer i (\<lambda>b. b\<lparr>pbQueue := q\<rparr>) u
          in andThen (handleAndDispatchFrame frame (pbPort b) now (uRelay u)) (\<lambda>r.
             let u = u\<lparr>uRelay := r, bufferUsed := bufferUsed u - efLength frame,
               numProcessedFrames := numProcessedFrames u + 1\<rparr>
             in if q \<noteq> [] then notInPast now (now + processingTime u)
                  (Inr (u\<lparr>ppEvents := ppEvents u @ [(i, now + processingTime u)]\<rparr>))
                else Inr (updBuffer i (\<lambda>b. b\<lparr>cpuBusy := False\<rparr>) u)))"

section \<open>Histories of a unit\<close>

text \<open>
  What happens to a unit: frames come from the ports and events arrive. An event can arrive if it is scheduled for that
  time. \<open>'e\<close> is what tells the events apart, the processor or the port.
\<close>

datatype 'e UnitEvent = FrameIn Held simtime | EndProcessing 'e simtime

fun evTime :: "'e UnitEvent \<Rightarrow> simtime" where
  "evTime (FrameIn x t) = t"
| "evTime (EndProcessing e t) = t"

fun NP_handleMessage :: "nat UnitEvent \<Rightarrow> RelayNP \<Rightarrow> RelayNP res" where
  "NP_handleMessage (FrameIn x t) u = NP_handleIncomingFrame x t u"
| "NP_handleMessage (EndProcessing i t) u = NP_processFrame i t u"

fun PP_handleMessage :: "nat UnitEvent \<Rightarrow> RelayPP \<Rightarrow> RelayPP res" where
  "PP_handleMessage (FrameIn x t) u = PP_handleIncomingFrame x t u"
| "PP_handleMessage (EndProcessing i t) u = PP_processFrame i t u"

definition NP_scheduled :: "nat \<Rightarrow> simtime \<Rightarrow> RelayNP \<Rightarrow> bool" where
  "NP_scheduled i t u \<longleftrightarrow> i < length (endProcEvents u) \<and> arrivalTime (endProcEvents u ! i) = Some t"

definition PP_scheduled :: "nat \<Rightarrow> simtime \<Rightarrow> RelayPP \<Rightarrow> bool" where
  "PP_scheduled i t u \<longleftrightarrow> (i, t) \<in> set (ppEvents u)"

fun enabled :: "('e \<Rightarrow> simtime \<Rightarrow> 'u \<Rightarrow> bool) \<Rightarrow> int \<Rightarrow> 'e UnitEvent \<Rightarrow> 'u \<Rightarrow> bool" where
  "enabled sched n (FrameIn (f, p) t) u = (0 \<le> p \<and> p < n \<and> 0 \<le> efLength f)"
| "enabled sched n (EndProcessing e t) u = sched e t u"

fun possible :: "('e \<Rightarrow> simtime \<Rightarrow> 'u \<Rightarrow> bool) \<Rightarrow> ('e UnitEvent \<Rightarrow> 'u \<Rightarrow> 'u res) \<Rightarrow> int \<Rightarrow> 'e UnitEvent list \<Rightarrow> 'u \<Rightarrow> bool" where
  "possible sched step n [] u = True"
| "possible sched step n (e # es) u =
     (enabled sched n e u \<and> (case step e u of Inl _ \<Rightarrow> True | Inr u' \<Rightarrow> possible sched step n es u'))"

fun runUnit :: "('e UnitEvent \<Rightarrow> 'u \<Rightarrow> 'u res) \<Rightarrow> 'e UnitEvent list \<Rightarrow> 'u \<Rightarrow> 'u res" where
  "runUnit step [] u = Inr u"
| "runUnit step (e # es) u = andThen (step e u) (runUnit step es)"

text \<open>
  The frames that were let in, and the frames that were dispatched with the times of the events; \<open>cur\<close> is the frame
  that an event completes.
\<close>

fun accepted :: "('e UnitEvent \<Rightarrow> 'a RelayUnit_scheme \<Rightarrow> 'a RelayUnit_scheme res) \<Rightarrow> 'e UnitEvent list \<Rightarrow>
    'a RelayUnit_scheme \<Rightarrow> Held list" where
  "accepted step [] u = []"
| "accepted step (e # es) u =
     (case e of FrameIn x t \<Rightarrow> if admits (fst x) u then [x] else [] | EndProcessing _ _ \<Rightarrow> []) @
     (case step e u of Inl _ \<Rightarrow> [] | Inr u' \<Rightarrow> accepted step es u')"

fun dispatched :: "('e \<Rightarrow> 'u \<Rightarrow> Held) \<Rightarrow> ('e UnitEvent \<Rightarrow> 'u \<Rightarrow> 'u res) \<Rightarrow> 'e UnitEvent list \<Rightarrow> 'u \<Rightarrow> History" where
  "dispatched cur step [] u = []"
| "dispatched cur step (e # es) u =
     (case e of FrameIn _ _ \<Rightarrow> [] | EndProcessing i t \<Rightarrow> [(fst (cur i u), snd (cur i u), t)]) @
     (case step e u of Inl _ \<Rightarrow> [] | Inr u' \<Rightarrow> dispatched cur step es u')"

definition NP_current :: "nat \<Rightarrow> RelayNP \<Rightarrow> Held" where
  "NP_current i u = the (contextPointer (endProcEvents u ! i))"

definition PP_current :: "nat \<Rightarrow> RelayPP \<Rightarrow> Held" where
  "PP_current i u = (hd (pbQueue (portBuffers u ! i)), pbPort (portBuffers u ! i))"

end
