(* ===== verification/Ether_UnitProps.thy ===== *)
theory Ether_UnitProps imports Ether_Units
begin

text \<open>
  Properties of the relay units: no frame that was let in is lost, doubled or stuck, the buffer accounts for exactly
  the frames that are held, and what leaves is what the relay unit forwards for the frames in the order of their
  completion, which for a unit with one line is the order of arrival.
\<close>

section \<open>PAUSE frames do not matter for the forwarding\<close>

definition isFrameOut :: "EtherOutput \<Rightarrow> bool" where
  "isFrameOut out \<longleftrightarrow> (case out of FrameOut _ _ \<Rightarrow> True | PauseOut _ _ _ \<Rightarrow> False)"

definition bareRelay :: "Relay \<Rightarrow> Relay" where
  "bareRelay r = r\<lparr>seqNum := 0, relay_sent := filter isFrameOut (relay_sent r)\<rparr>"

lemma bareRelay_simps [simp]:
  "numPorts (bareRelay r) = numPorts r" "addressTableSize (bareRelay r) = addressTableSize r"
  "agingTime (bareRelay r) = agingTime r" "addresstable (bareRelay r) = addresstable r"
  "relay_sent (bareRelay r) = filter isFrameOut (relay_sent r)"
  "bareRelay (r\<lparr>addresstable := tab\<rparr>) = (bareRelay r)\<lparr>addresstable := tab\<rparr>"
  by (simp_all add: bareRelay_def)

lemma update_bare: "updateTableWithAddress a p now (bareRelay r) = bareRelay (updateTableWithAddress a p now r)"
  by (simp add: updateTableWithAddress_def Let_def removeAgedEntriesFromTable_def removeOldestTableEntry_def tableFull_def
      isAged_def split: option.split)

lemma getPort_bare:
  "getPortForAddress a now (bareRelay r) = map_prod bareRelay id (getPortForAddress a now r)"
  by (simp add: getPortForAddress_def isAged_def split: option.split)

lemma handle_bare:
  assumes "handleAndDispatchFrame f p now r = Inr r'"
  shows "handleAndDispatchFrame f p now (bareRelay r) = Inr (bareRelay r')"
proof -
  define r1 where "r1 = updateTableWithAddress (efSrc f) p now r"
  obtain r2 q where g: "getPortForAddress (efDest f) now r1 = (r2, q)" by fastforce
  have [simp]: "isFrameOut (FrameOut f i)" for f i by (simp add: isFrameOut_def)
  have b: "broadcastFrame f p (bareRelay r) = bareRelay (broadcastFrame f p r)" for r
    by (simp add: broadcastFrame_def bareRelay_def filter_map comp_def)
  have s: "sendPort f q r = Inr r' \<Longrightarrow> sendPort f q (bareRelay r) = Inr (bareRelay r')" for r
    by (auto simp: sendPort_def bareRelay_def res_simps)
  show ?thesis using assms
    by (auto simp: handleAndDispatchFrame_def update_bare getPort_bare r1_def [symmetric] g b s Let_def split: if_splits)
qed

lemma relayRun_Cons: "relayRun ((f, p, t) # h) r = andThen (handleAndDispatchFrame f p t r) (relayRun h)"
proof (induction h rule: rev_induct)
  case (snoc x h)
  obtain f' p' t' where x: "x = (f', p', t')" by (cases x)
  show ?case using snoc relayRun_snoc [of "(f, p, t) # h" f' p' t' r] by (simp add: x andThen_assoc)
qed (simp add: relayRun_def, cases "handleAndDispatchFrame f p t r", simp_all)

text \<open>No entry points to a port that does not exist.\<close>

definition portsOK :: "int \<Rightarrow> Relay \<Rightarrow> bool" where
  "portsOK n r \<longleftrightarrow> numPorts r = n \<and> (\<forall>(a, e) \<in> set (addresstable r). portno e < n)"

lemma set_putAddress_subset: "set (putAddress a e tab) \<subseteq> insert (a, e) (set tab)"
  by (induction a e tab rule: putAddress.induct) auto

lemma update_portsOK: "portsOK n r \<Longrightarrow> p < n \<Longrightarrow> portsOK n (updateTableWithAddress a p now r)"
  using set_putAddress_subset
  by (fastforce simp: portsOK_def updateTableWithAddress_def Let_def removeAgedEntriesFromTable_def removeOldestTableEntry_def
      split: option.split)

lemma handle_portsOK:
  assumes "portsOK n r" "0 \<le> p" "p < n"
  shows "\<exists>r'. handleAndDispatchFrame f p now r = Inr r' \<and> portsOK n r'"
proof -
  define r1 where "r1 = updateTableWithAddress (efSrc f) p now r"
  have 1: "portsOK n r1" unfolding r1_def using assms(1,3) by (rule update_portsOK)
  obtain r2 q where g: "getPortForAddress (efDest f) now r1 = (r2, q)" by fastforce
  have 2: "portsOK n r2" using g 1 by (auto simp: getPortForAddress_def portsOK_def split: option.splits if_splits)
  have 3: "q < n" using g 1 assms
    by (auto simp: getPortForAddress_def portsOK_def dest!: map_of_SomeD split: option.splits if_splits)
  have 4: "portsOK n (r\<lparr>relay_sent := x\<rparr>) = portsOK n r" for r x by (simp add: portsOK_def)
  have 5: "numPorts r2 = n" using 2 by (simp add: portsOK_def)
  show ?thesis using 1 2 3 5
    by (auto simp: handleAndDispatchFrame_def r1_def [symmetric] g Let_def broadcastFrame_def sendPort_def 4)
qed

section \<open>What every unit does\<close>

definition heldLength :: "Held multiset \<Rightarrow> int" where
  "heldLength M = (\<Sum>x \<in># M. efLength (fst x))"

lemma heldLength_simps [simp]:
  "heldLength {#} = 0" "heldLength (add_mset x M) = efLength (fst x) + heldLength M"
  "x \<in># M \<Longrightarrow> heldLength (M - {#x#}) = heldLength M - efLength (fst x)"
  by (auto simp: heldLength_def dest!: multi_member_split)

text \<open>
  The unit lets a frame in if its buffer has the place, holds it, and completes the frames it holds. \<open>line\<close> gives the
  frames with one key in the order in which they wait.
\<close>

locale relay_unit =
  fixes inv :: "int \<Rightarrow> 'a RelayUnit_scheme \<Rightarrow> bool"
    and sched :: "'e \<Rightarrow> simtime \<Rightarrow> 'a RelayUnit_scheme \<Rightarrow> bool"
    and cur :: "'e \<Rightarrow> 'a RelayUnit_scheme \<Rightarrow> Held"
    and step :: "'e UnitEvent \<Rightarrow> 'a RelayUnit_scheme \<Rightarrow> 'a RelayUnit_scheme res"
    and held :: "'a RelayUnit_scheme \<Rightarrow> Held multiset"
  assumes arrive: "inv n u \<Longrightarrow> enabled sched n (FrameIn x t) u \<Longrightarrow>
      \<exists>u'. step (FrameIn x t) u = Inr u' \<and> inv n u' \<and> bareRelay (uRelay u') = bareRelay (uRelay u) \<and>
        bufferSize u' = bufferSize u \<and>
        held u' = (if admits (fst x) u then add_mset x (held u) else held u) \<and>
        bufferUsed u' = (if admits (fst x) u then bufferUsed u + efLength (fst x) else bufferUsed u)"
    and current: "inv n u \<Longrightarrow> sched e t u \<Longrightarrow> cur e u \<in># held u"
    and complete: "inv n u \<Longrightarrow> sched e t u \<Longrightarrow>
        handleAndDispatchFrame (fst (cur e u)) (snd (cur e u)) t (uRelay u) = Inr r \<Longrightarrow>
      \<exists>u'. step (EndProcessing e t) u = Inr u' \<and> inv n u' \<and> uRelay u' = r \<and>
        held u' = held u - {#cur e u#} \<and> bufferUsed u' = bufferUsed u - efLength (fst (cur e u)) \<and>
        bufferSize u' = bufferSize u"
    and ports: "inv n u \<Longrightarrow> x \<in># held u \<Longrightarrow> 0 \<le> snd x \<and> snd x < n \<and> 0 \<le> efLength (fst x)"
    and progress: "inv n u \<Longrightarrow> held u \<noteq> {#} \<Longrightarrow> \<exists>e t. sched e t u"
begin

definition good :: "int \<Rightarrow> 'a RelayUnit_scheme \<Rightarrow> bool" where
  "good n u \<longleftrightarrow> inv n u \<and> portsOK n (uRelay u) \<and> bufferUsed u = heldLength (held u)"

lemma portsOK_bare: "bareRelay r = bareRelay r' \<Longrightarrow> portsOK n r = portsOK n r'"
  unfolding portsOK_def by (metis bareRelay_simps(1,4))

lemma step_FrameIn:
  assumes "good n u" "enabled sched n (FrameIn x t) u"
  obtains u' where "step (FrameIn x t) u = Inr u'" "good n u'" "bareRelay (uRelay u') = bareRelay (uRelay u)"
    "bufferSize u' = bufferSize u" "held u' = (if admits (fst x) u then add_mset x (held u) else held u)"
    "bufferUsed u' < bufferSize u \<or> bufferUsed u' = bufferUsed u"
proof -
  obtain u' where u': "step (FrameIn x t) u = Inr u'" "inv n u'" "bareRelay (uRelay u') = bareRelay (uRelay u)"
      "bufferSize u' = bufferSize u" "held u' = (if admits (fst x) u then add_mset x (held u) else held u)"
      "bufferUsed u' = (if admits (fst x) u then bufferUsed u + efLength (fst x) else bufferUsed u)"
    using arrive assms unfolding good_def by blast
  moreover have "good n u'"
    using assms(1) u' portsOK_bare [OF u'(3)] by (auto simp: good_def)
  moreover have "bufferUsed u' < bufferSize u \<or> bufferUsed u' = bufferUsed u"
    using u'(6) by (auto simp: admits_def)
  ultimately show ?thesis using that by blast
qed

lemma step_EndProcessing:
  assumes "good n u" "sched e t u"
  obtains u' where "step (EndProcessing e t) u = Inr u'" "good n u'" "cur e u \<in># held u"
    "handleAndDispatchFrame (fst (cur e u)) (snd (cur e u)) t (bareRelay (uRelay u)) = Inr (bareRelay (uRelay u'))"
    "held u' = held u - {#cur e u#}" "bufferSize u' = bufferSize u" "bufferUsed u' \<le> bufferUsed u"
proof -
  have c: "cur e u \<in># held u" using assms current good_def by blast
  have p: "0 \<le> snd (cur e u)" "snd (cur e u) < n" "0 \<le> efLength (fst (cur e u))"
    using ports c assms(1) good_def by blast+
  obtain r where r: "handleAndDispatchFrame (fst (cur e u)) (snd (cur e u)) t (uRelay u) = Inr r" "portsOK n r"
    using handle_portsOK p assms(1) good_def by blast
  obtain u' where u': "step (EndProcessing e t) u = Inr u'" "numPorts r = n \<longrightarrow> inv n u'" "uRelay u' = r"
      "held u' = held u - {#cur e u#}" "bufferUsed u' = bufferUsed u - efLength (fst (cur e u))" "bufferSize u' = bufferSize u"
    using complete assms r(1) good_def by blast
  have "good n u'" using u' r(2) c assms(1) by (simp add: good_def portsOK_def)
  then show ?thesis using that u' c p(3) handle_bare [OF r(1)] by simp
qed

text \<open>No history that can happen stops the unit, and its frames are accounted for.\<close>

lemma runs:
  assumes "good n u" "possible sched step n evs u"
  shows "\<exists>u'. runUnit step evs u = Inr u' \<and> good n u' \<and>
    relayRun (dispatched cur step evs u) (bareRelay (uRelay u)) = Inr (bareRelay (uRelay u')) \<and>
    held u + mset (accepted step evs u) = held u' + mset (map (\<lambda>(f, p, t). (f, p)) (dispatched cur step evs u)) \<and>
    bufferSize u' = bufferSize u \<and> bufferUsed u' \<le> max (bufferUsed u) (bufferSize u - 1)"
  using assms
proof (induction evs arbitrary: u)
  case (Cons ev evs)
  show ?case
  proof (cases ev)
    case (FrameIn x t)
    from Cons.prems FrameIn obtain u1 where u1: "step (FrameIn x t) u = Inr u1" "good n u1"
      "bareRelay (uRelay u1) = bareRelay (uRelay u)" "bufferSize u1 = bufferSize u"
      "held u1 = (if admits (fst x) u then add_mset x (held u) else held u)"
      "bufferUsed u1 < bufferSize u \<or> bufferUsed u1 = bufferUsed u"
      using step_FrameIn [of n u x t] by auto
    have "possible sched step n evs u1" using Cons.prems(2) u1(1) FrameIn by simp
    from Cons.IH [OF u1(2) this] u1 show ?thesis
      by (auto simp: FrameIn split: if_splits)
  next
    case (EndProcessing e t)
    from Cons.prems EndProcessing obtain u1 where u1: "step (EndProcessing e t) u = Inr u1" "good n u1" "cur e u \<in># held u"
      "handleAndDispatchFrame (fst (cur e u)) (snd (cur e u)) t (bareRelay (uRelay u)) = Inr (bareRelay (uRelay u1))"
      "held u1 = held u - {#cur e u#}" "bufferSize u1 = bufferSize u" "bufferUsed u1 \<le> bufferUsed u"
      using step_EndProcessing [of n u e t] by auto
    have "possible sched step n evs u1" using Cons.prems(2) u1(1) EndProcessing by simp
    from Cons.IH [OF u1(2) this] u1 show ?thesis
      by (auto simp: EndProcessing relayRun_Cons dest!: multi_member_split)
  qed
qed simp

lemma accepted_ports:
  assumes "good n u" "possible sched step n evs u" "x \<in> set (accepted step evs u)"
  shows "0 \<le> snd x \<and> snd x < n"
  using assms
proof (induction evs arbitrary: u)
  case (Cons ev evs)
  show ?case
  proof (cases ev)
    case (FrameIn y t)
    from Cons.prems FrameIn obtain u1 where u1: "step (FrameIn y t) u = Inr u1" "good n u1"
      using step_FrameIn [of n u y t] by auto
    then show ?thesis using Cons.IH [of u1] Cons.prems FrameIn by (cases y) (auto split: if_splits)
  next
    case (EndProcessing e t)
    from Cons.prems EndProcessing obtain u1 where u1: "step (EndProcessing e t) u = Inr u1" "good n u1"
      using step_EndProcessing [of n u e t] by auto
    then show ?thesis using Cons.IH [of u1] Cons.prems EndProcessing by auto
  qed
qed simp

text \<open>When no more frames come, as many events arrive as frames are held, and then none is.\<close>

lemma drains:
  assumes "good n u" "possible sched step n evs u" "\<forall>ev \<in> set evs. \<exists>e t. ev = EndProcessing e t"
  shows "\<exists>u'. runUnit step evs u = Inr u' \<and> size (held u) = size (held u') + length evs \<and>
    (held u' \<noteq> {#} \<longrightarrow> (\<exists>e t. sched e t u'))"
proof -
  obtain u' where u': "runUnit step evs u = Inr u'" "good n u'"
    "held u + mset (accepted step evs u) = held u' + mset (map (\<lambda>(f, p, t). (f, p)) (dispatched cur step evs u))"
    using runs [OF assms(1,2)] by blast
  have "accepted step evs u = [] \<and> length (dispatched cur step evs u) = length evs"
    using u'(1) assms(3)
  proof (induction evs arbitrary: u)
    case (Cons ev evs)
    from Cons.prems(2) obtain e t where "ev = EndProcessing e t" by auto
    with Cons show ?case by (auto simp: res_simps)
  qed simp
  then have "size (held u) = size (held u') + length evs"
    using arg_cong [OF u'(3), of size] by simp
  then show ?thesis using u' progress good_def by blast
qed

end

text \<open>In a unit with lines the frames of a line are completed in their order.\<close>

locale relay_lines = relay_unit +
  fixes key :: "Held \<Rightarrow> nat" and line :: "nat \<Rightarrow> 'a RelayUnit_scheme \<Rightarrow> Held list"
  assumes arrive_line: "inv n u \<Longrightarrow> enabled sched n (FrameIn x t) u \<Longrightarrow> step (FrameIn x t) u = Inr u' \<Longrightarrow>
      line k u' = (if admits (fst x) u \<and> key x = k then line k u @ [x] else line k u)"
    and complete_line: "inv n u \<Longrightarrow> sched e t u \<Longrightarrow> step (EndProcessing e t) u = Inr u' \<Longrightarrow>
      line k u = (if key (cur e u) = k then cur e u # line k u' else line k u')"
begin

lemma fifo:
  assumes "good n u" "possible sched step n evs u"
  shows "\<exists>u'. runUnit step evs u = Inr u' \<and>
    line k u @ filter (\<lambda>x. key x = k) (accepted step evs u) =
      filter (\<lambda>x. key x = k) (map (\<lambda>(f, p, t). (f, p)) (dispatched cur step evs u)) @ line k u'"
  using assms
proof (induction evs arbitrary: u)
  case (Cons ev evs)
  show ?case
  proof (cases ev)
    case (FrameIn x t)
    from Cons.prems FrameIn obtain u1 where u1: "step (FrameIn x t) u = Inr u1" "good n u1"
      using step_FrameIn [of n u x t] by auto
    have p: "possible sched step n evs u1" using Cons.prems(2) u1(1) FrameIn by simp
    have l: "line k u1 = (if admits (fst x) u \<and> key x = k then line k u @ [x] else line k u)"
      by (rule arrive_line [of n _ _ t]) (use Cons.prems u1 FrameIn good_def in auto)
    from Cons.IH [OF u1(2) p] u1 l show ?thesis by (auto simp: FrameIn split: if_splits)
  next
    case (EndProcessing e t)
    from Cons.prems EndProcessing obtain u1 where u1: "step (EndProcessing e t) u = Inr u1" "good n u1"
      using step_EndProcessing [of n u e t] by auto
    have p: "possible sched step n evs u1" using Cons.prems(2) u1(1) EndProcessing by simp
    have l: "line k u = (if key (cur e u) = k then cur e u # line k u1 else line k u1)"
      by (rule complete_line [of n _ _ t]) (use Cons.prems u1 EndProcessing good_def in auto)
    from Cons.IH [OF u1(2) p] u1 l show ?thesis by (auto simp: EndProcessing split: if_splits)
  qed
qed simp

end

section \<open>Several processors\<close>

lemma sendPauses_simps [simp]:
  "bareRelay (uRelay (sendPauses now u)) = bareRelay (uRelay u)" "bufferSize (sendPauses now u) = bufferSize u"
  "bufferUsed (sendPauses now u) = bufferUsed u" "processingTime (sendPauses now u) = processingTime u"
proof -
  have "bareRelay (fold (\<lambda>i r. sendPauseFrame i k r) ps r) = bareRelay r" for ps r k
    by (induction ps arbitrary: r) (simp_all add: sendPauseFrame_def bareRelay_def isFrameOut_def)
  then show "bareRelay (uRelay (sendPauses now u)) = bareRelay (uRelay u)"
    by (simp add: sendPauses_def)
qed (simp_all add: sendPauses_def)

lemma sendPauses_fields [simp]:
  "endProcEvents (sendPauses now u) = endProcEvents u" "npQueue (sendPauses now u) = npQueue u"
  "portBuffers (sendPauses now w) = portBuffers w" "ppEvents (sendPauses now w) = ppEvents w"
  by (simp_all add: sendPauses_def)

definition NP_busy :: "EndProcEvent list \<Rightarrow> Held list" where
  "NP_busy es = List.map_filter contextPointer es"

definition NP_held :: "RelayNP \<Rightarrow> Held multiset" where
  "NP_held u = mset (NP_busy (endProcEvents u) @ npQueue u)"

definition frameOK :: "int \<Rightarrow> Held \<Rightarrow> bool" where
  "frameOK n x \<longleftrightarrow> 0 \<le> snd x \<and> snd x < n \<and> 0 \<le> efLength (fst x)"

definition NP_inv :: "int \<Rightarrow> RelayNP \<Rightarrow> bool" where
  "NP_inv n u \<longleftrightarrow> 0 \<le> processingTime u \<and> endProcEvents u \<noteq> [] \<and>
     (\<forall>e \<in> set (endProcEvents u). contextPointer e = None \<longleftrightarrow> arrivalTime e = None) \<and>
     (npQueue u \<noteq> [] \<longrightarrow> (\<forall>e \<in> set (endProcEvents u). arrivalTime e \<noteq> None)) \<and>
     (\<forall>x \<in># NP_held u. frameOK n x)"

definition NP_inv1 :: "int \<Rightarrow> RelayNP \<Rightarrow> bool" where
  "NP_inv1 n u \<longleftrightarrow> NP_inv n u \<and> length (endProcEvents u) = 1"

definition NP_line :: "nat \<Rightarrow> RelayNP \<Rightarrow> Held list" where
  "NP_line k u = (if k = 0 then NP_busy (endProcEvents u) @ npQueue u else [])"

lemma firstIdle_le: "firstIdle es \<le> length es"
  by (induction es) auto

lemma firstIdle_idle: "firstIdle es < length es \<Longrightarrow> arrivalTime (es ! firstIdle es) = None"
  by (induction es) (auto split: if_splits)

lemma firstIdle_none: "firstIdle es = length es \<longleftrightarrow> (\<forall>e \<in> set es. arrivalTime e \<noteq> None)"
  by (induction es) (auto split: if_splits)

lemma NP_busy_set: "x \<in> set (NP_busy es) \<longleftrightarrow> (\<exists>e \<in> set es. contextPointer e = Some x)"
  by (induction es) (auto simp: NP_busy_def List.map_filter_simps split: option.splits)

lemma NP_busy_update:
  "i < length es \<Longrightarrow> mset (NP_busy (es[i := e])) + mset (NP_busy [es ! i]) = mset (NP_busy es) + mset (NP_busy [e])"
proof (induction es arbitrary: i)
  case (Cons a es)
  then show ?case by (cases i) (auto simp: NP_busy_def List.map_filter_simps split: option.splits)
qed simp

lemma NP_busy_single [simp]: "NP_busy [\<lparr>contextPointer = c, arrivalTime = t\<rparr>] = (case c of None \<Rightarrow> [] | Some x \<Rightarrow> [x])"
  by (simp add: NP_busy_def List.map_filter_simps split: option.split)

lemma NP_busy_single': "NP_busy [e] = (case contextPointer e of None \<Rightarrow> [] | Some x \<Rightarrow> [x])"
  by (simp add: NP_busy_def List.map_filter_simps split: option.split)

lemma NP_busy_set_new:
  assumes "i < length es" "contextPointer (es ! i) = None"
  shows "mset (NP_busy (es[i := \<lparr>contextPointer = Some x, arrivalTime = t\<rparr>])) = add_mset x (mset (NP_busy es))"
  using NP_busy_update [OF assms(1), of "\<lparr>contextPointer = Some x, arrivalTime = t\<rparr>"] assms(2)
  by (simp add: NP_busy_single')

lemma NP_busy_set_done:
  assumes "i < length es" "contextPointer (es ! i) = Some x"
  shows "add_mset x (mset (NP_busy (es[i := \<lparr>contextPointer = None, arrivalTime = None\<rparr>]))) = mset (NP_busy es)"
  using NP_busy_update [OF assms(1), of "\<lparr>contextPointer = None, arrivalTime = None\<rparr>"] assms(2)
  by (simp add: NP_busy_single')

lemma NP_arrive:
  assumes "NP_inv n u" "enabled NP_scheduled n (FrameIn x t) u"
  shows "\<exists>u'. NP_handleMessage (FrameIn x t) u = Inr u' \<and> NP_inv n u' \<and> bareRelay (uRelay u') = bareRelay (uRelay u) \<and>
        bufferSize u' = bufferSize u \<and> NP_held u' = (if admits (fst x) u then add_mset x (NP_held u) else NP_held u) \<and>
        bufferUsed u' = (if admits (fst x) u then bufferUsed u + efLength (fst x) else bufferUsed u) \<and>
        length (endProcEvents u') = length (endProcEvents u) \<and>
        (length (endProcEvents u) = 1 \<longrightarrow> NP_line 0 u' = (if admits (fst x) u then NP_line 0 u @ [x] else NP_line 0 u))"
proof (cases "admits (fst x) u")
  case False
  then show ?thesis using assms
    by (simp add: NP_handleIncomingFrame_def NP_inv_def NP_held_def NP_line_def)
next
  case True
  have x: "frameOK n x" using assms(2) by (cases x) (simp add: frameOK_def)
  let ?i = "firstIdle (endProcEvents u)"
  show ?thesis
  proof (cases "?i = length (endProcEvents u)")
    case all: True
    then have b: "\<forall>e \<in> set (endProcEvents u). arrivalTime e \<noteq> None" by (simp add: firstIdle_none)
    show ?thesis using True all x assms(1) b
      by (simp add: NP_handleIncomingFrame_def NP_inv_def NP_held_def NP_line_def del: not_None_eq not_Some_eq)
  next
    case False
    then have i: "?i < length (endProcEvents u)" using firstIdle_le [of "endProcEvents u"] by simp
    note idle = firstIdle_idle [OF i]
    have c: "contextPointer (endProcEvents u ! ?i) = None" using assms(1) i idle nth_mem by (auto simp: NP_inv_def)
    have q: "npQueue u = []" using assms(1) idle nth_mem [OF i] by (force simp: NP_inv_def)
    let ?e = "\<lparr>contextPointer = Some x, arrivalTime = Some (t + processingTime u)\<rparr>"
    have m: "mset (NP_busy ((endProcEvents u)[?i := ?e])) = add_mset x (mset (NP_busy (endProcEvents u)))"
      using i c by (rule NP_busy_set_new)
    have m': "set (NP_busy ((endProcEvents u)[?i := ?e])) = insert x (set (NP_busy (endProcEvents u)))"
      using arg_cong [OF m, of set_mset] by simp
    have s: "\<forall>e \<in> set ((endProcEvents u)[?i := ?e]). contextPointer e = None \<longleftrightarrow> arrivalTime e = None"
      using assms(1) set_update_subset_insert [of "endProcEvents u" ?i ?e] by (fastforce simp: NP_inv_def)
    have l: "NP_busy ((endProcEvents u)[?i := ?e]) = NP_busy (endProcEvents u) @ [x]" if "length (endProcEvents u) = 1"
      using that i c by (cases "endProcEvents u") (auto simp: NP_busy_single' NP_busy_def List.map_filter_simps)
    show ?thesis using True False x assms(1) c q m m' s l
      by (simp add: NP_handleIncomingFrame_def NP_inv_def NP_held_def NP_line_def notInPast_def)
  qed
qed

lemma NP_current_ok:
  assumes "NP_inv n u" "NP_scheduled i t u"
  shows "i < length (endProcEvents u)" "contextPointer (endProcEvents u ! i) = Some (NP_current i u)"
    "NP_current i u \<in># NP_held u"
proof -
  show i: "i < length (endProcEvents u)" using assms(2) by (simp add: NP_scheduled_def)
  have "contextPointer (endProcEvents u ! i) \<noteq> None"
    using assms nth_mem [OF i] by (auto simp: NP_inv_def NP_scheduled_def)
  then show c: "contextPointer (endProcEvents u ! i) = Some (NP_current i u)" by (simp add: NP_current_def)
  then show "NP_current i u \<in># NP_held u" using nth_mem [OF i] by (auto simp: NP_held_def NP_busy_set)
qed

lemma NP_complete:
  assumes "NP_inv n u" "NP_scheduled i t u"
    and r: "handleAndDispatchFrame (fst (NP_current i u)) (snd (NP_current i u)) t (uRelay u) = Inr r"
  shows "\<exists>u'. NP_handleMessage (EndProcessing i t) u = Inr u' \<and> NP_inv n u' \<and> uRelay u' = r \<and>
        NP_held u' = NP_held u - {#NP_current i u#} \<and> bufferUsed u' = bufferUsed u - efLength (fst (NP_current i u)) \<and>
        bufferSize u' = bufferSize u \<and> length (endProcEvents u') = length (endProcEvents u) \<and>
        (length (endProcEvents u) = 1 \<longrightarrow> NP_line 0 u = NP_current i u # NP_line 0 u')"
proof -
  define x where "x = NP_current i u"
  note c = NP_current_ok [OF assms(1,2), folded x_def]
  let ?none = "\<lparr>contextPointer = None, arrivalTime = None\<rparr>"
  let ?es = "(endProcEvents u)[i := ?none]"
  have m: "add_mset x (mset (NP_busy ?es)) = mset (NP_busy (endProcEvents u))"
    using c(1,2) by (rule NP_busy_set_done)
  have one: "i = 0 \<and> NP_busy ?es = [] \<and> NP_busy (endProcEvents u) = [x]" if "length (endProcEvents u) = 1"
    using that c(1,2) by (cases "endProcEvents u") (auto simp: NP_busy_def List.map_filter_simps)
  have ok: "\<forall>e \<in> set (endProcEvents u). contextPointer e = None \<longleftrightarrow> arrivalTime e = None"
    using assms(1) by (simp add: NP_inv_def)
  have upd: "\<forall>e \<in> set ((endProcEvents u)[i := e']). P e" if "P e'" "\<forall>e \<in> set (endProcEvents u). P e" for P e'
    using that set_update_subset_insert [of "endProcEvents u" i e'] by auto
  have fr: "\<forall>y \<in># NP_held u. frameOK n y" using assms(1) by (simp add: NP_inv_def)
  show ?thesis
  proof (cases "npQueue u")
    case Nil
    have h: "mset (NP_busy ?es) = NP_held u - {#x#}" using Nil by (simp add: NP_held_def m [symmetric])
    then have "\<forall>y \<in> set (NP_busy ?es). frameOK n y" using fr by (metis in_diffD set_mset_mset)
    moreover have "\<forall>e \<in> set ?es. contextPointer e = None \<longleftrightarrow> arrivalTime e = None"
      using ok by (intro upd) auto
    ultimately show ?thesis using assms r c Nil h one
      by (simp add: NP_processFrame_def x_def [symmetric] NP_inv_def NP_held_def NP_line_def)
  next
    case (Cons y ys)
    let ?e = "\<lparr>contextPointer = Some y, arrivalTime = Some (t + processingTime u)\<rparr>"
    have m2: "mset (NP_busy ((endProcEvents u)[i := ?e])) = add_mset y (mset (NP_busy ?es))"
      using NP_busy_set_new [of i ?es y "Some (t + processingTime u)"] c(1) by simp
    have h: "mset (NP_busy ((endProcEvents u)[i := ?e])) + mset ys = NP_held u - {#x#}"
      using m m2 Cons by (simp add: NP_held_def m [symmetric])
    then have f: "\<forall>y \<in> set (NP_busy ((endProcEvents u)[i := ?e]) @ ys). frameOK n y"
      using fr by (metis in_diffD mset_append set_mset_mset)
    have b: "\<forall>e \<in> set (endProcEvents u). arrivalTime e \<noteq> None" using assms(1) Cons by (simp add: NP_inv_def)
    have one': "NP_busy ((endProcEvents u)[i := ?e]) = [y]" if "length (endProcEvents u) = 1"
      using that c(1) by (cases "endProcEvents u") (auto simp: NP_busy_single')
    have s1: "\<forall>e \<in> set ((endProcEvents u)[i := ?e]). contextPointer e = None \<longleftrightarrow> arrivalTime e = None"
      using ok by (intro upd) auto
    have s2: "\<forall>e \<in> set ((endProcEvents u)[i := ?e]). arrivalTime e \<noteq> None"
      using b by (intro upd) auto
    define u' where "u' = u\<lparr>uRelay := r, bufferUsed := bufferUsed u - efLength (fst x),
      numProcessedFrames := numProcessedFrames u + 1, npQueue := ys, endProcEvents := (endProcEvents u)[i := ?e]\<rparr>"
    have "NP_handleMessage (EndProcessing i t) u = Inr u'"
      using assms(1) r c(2) Cons by (simp add: NP_processFrame_def x_def [symmetric] notInPast_def NP_inv_def u'_def)
    moreover have "NP_inv n u'" using assms(1) f s1 s2
      by (auto simp: NP_inv_def u'_def NP_held_def simp del: not_None_eq not_Some_eq)
    moreover have "NP_held u' = NP_held u - {#x#}" using h by (simp add: NP_held_def u'_def)
    moreover have "NP_line 0 u = x # NP_line 0 u'" if "length (endProcEvents u) = 1"
      using one [OF that] one' [OF that] Cons by (simp add: NP_line_def u'_def)
    ultimately show ?thesis
      by (intro exI [of _ u']) (simp add: u'_def x_def [symmetric])
  qed
qed

lemma NP_frameOK: "NP_inv n u \<Longrightarrow> x \<in># NP_held u \<Longrightarrow> 0 \<le> snd x \<and> snd x < n \<and> 0 \<le> efLength (fst x)"
  by (auto simp: NP_inv_def frameOK_def)

lemma NP_progress:
  assumes "NP_inv n u" "NP_held u \<noteq> {#}"
  shows "\<exists>i t. NP_scheduled i t u"
proof -
  have "\<exists>e \<in> set (endProcEvents u). arrivalTime e \<noteq> None"
  proof (cases "npQueue u")
    case Nil
    then obtain x where "x \<in> set (NP_busy (endProcEvents u))" using assms(2) by (cases "NP_busy (endProcEvents u)") (auto simp: NP_held_def)
    then show ?thesis using assms(1) by (force simp: NP_busy_set NP_inv_def)
  next
    case Cons
    then show ?thesis using assms(1) by (cases "endProcEvents u") (auto simp: NP_inv_def)
  qed
  then show ?thesis by (fastforce simp: in_set_conv_nth NP_scheduled_def)
qed

interpretation np: relay_unit NP_inv NP_scheduled NP_current NP_handleMessage NP_held
proof (unfold_locales, goal_cases)
  case (1 n u x t)
  then show ?case using NP_arrive by blast
next
  case (2 n u e t)
  then show ?case by (rule NP_current_ok(3))
next
  case (3 n u e t r)
  then show ?case using NP_complete by blast
next
  case (4 n u x)
  then show ?case by (rule NP_frameOK)
next
  case (5 n u)
  then show ?case by (rule NP_progress)
qed

interpretation np1: relay_lines NP_inv1 NP_scheduled NP_current NP_handleMessage NP_held "\<lambda>_. 0" NP_line
proof (unfold_locales, goal_cases)
  case (1 n u x t)
  then show ?case using NP_arrive [of n u x t] unfolding NP_inv1_def by metis
next
  case (2 n u e t)
  then show ?case using NP_current_ok(3) NP_inv1_def by blast
next
  case (3 n u e t r)
  then show ?case using NP_complete [of n u e t r] unfolding NP_inv1_def by metis
next
  case (4 n u x)
  then show ?case using NP_frameOK NP_inv1_def by blast
next
  case (5 n u)
  then show ?case using NP_progress NP_inv1_def by blast
next
  case (6 n u x t u' k)
  then show ?case using NP_arrive [of n u x t] unfolding NP_inv1_def NP_line_def by fastforce
next
  case (7 n u e t u' k)
  then have c: "contextPointer (endProcEvents u ! e) = Some (NP_current e u)"
    using NP_current_ok(2) NP_inv1_def by blast
  with 7(3) obtain r where "handleAndDispatchFrame (fst (NP_current e u)) (snd (NP_current e u)) t (uRelay u) = Inr r"
    by (auto simp: NP_processFrame_def res_simps)
  with 7 NP_complete [of n u e t r] show ?case unfolding NP_inv1_def NP_line_def by fastforce
qed

section \<open>A processor for every port\<close>

definition PP_eventsOf :: "nat \<Rightarrow> RelayPP \<Rightarrow> simtime list" where
  "PP_eventsOf i u = map snd (filter (\<lambda>ev. fst ev = i) (ppEvents u))"

definition PP_line :: "nat \<Rightarrow> RelayPP \<Rightarrow> Held list" where
  "PP_line i u = (if i < length (portBuffers u) then map (\<lambda>f. (f, int i)) (pbQueue (portBuffers u ! i)) else [])"

definition PP_held :: "RelayPP \<Rightarrow> Held multiset" where
  "PP_held u = (\<Sum>i < length (portBuffers u). mset (PP_line i u))"

definition PP_bufferOK :: "RelayPP \<Rightarrow> nat \<Rightarrow> bool" where
  "PP_bufferOK u i \<longleftrightarrow> pbPort (portBuffers u ! i) = int i \<and>
     (cpuBusy (portBuffers u ! i) \<longleftrightarrow> pbQueue (portBuffers u ! i) \<noteq> []) \<and>
     length (PP_eventsOf i u) = (if cpuBusy (portBuffers u ! i) then 1 else 0) \<and>
     (\<forall>f \<in> set (pbQueue (portBuffers u ! i)). 0 \<le> efLength f)"

definition PP_inv :: "int \<Rightarrow> RelayPP \<Rightarrow> bool" where
  "PP_inv n u \<longleftrightarrow> 0 \<le> processingTime u \<and> length (portBuffers u) = nat n \<and>
     (\<forall>i < nat n. PP_bufferOK u i) \<and> (\<forall>(i, t) \<in> set (ppEvents u). i < nat n)"

lemma PP_held_change:
  assumes "i < length (portBuffers u)" "length (portBuffers u') = length (portBuffers u)"
    and "\<And>k. k \<noteq> i \<Longrightarrow> PP_line k u' = PP_line k u"
  shows "PP_held u' + mset (PP_line i u) = PP_held u + mset (PP_line i u')"
proof -
  let ?I = "{..<length (portBuffers u)}"
  have "PP_held v = mset (PP_line i v) + (\<Sum>k \<in> ?I - {i}. mset (PP_line k v))"
    if "length (portBuffers v) = length (portBuffers u)" for v
    using assms(1) that by (simp add: PP_held_def sum.remove [of ?I i])
  from this [OF refl] this [OF assms(2)] assms(3) show ?thesis by (simp add: add_ac)
qed

lemma PP_held_in: "x \<in># PP_held u \<longleftrightarrow> (\<exists>i < length (portBuffers u). x \<in> set (PP_line i u))"
  by (auto simp: PP_held_def set_mset_sum)

text \<open>Only the buffer \<open>i\<close> and its events change.\<close>

lemma PP_inv_change:
  assumes "PP_inv n u" "processingTime u' = processingTime u" "length (portBuffers u') = length (portBuffers u)"
    and "\<And>k. k \<noteq> i \<Longrightarrow> portBuffers u' ! k = portBuffers u ! k" "\<And>k. k \<noteq> i \<Longrightarrow> PP_eventsOf k u' = PP_eventsOf k u"
    and "PP_bufferOK u' i" "i < nat n" "set (ppEvents u') \<subseteq> insert (i, t) (set (ppEvents u))"
  shows "PP_inv n u'"
proof -
  have "PP_bufferOK u' k" if "k < nat n" for k
  proof (cases "k = i")
    case False
    then have "PP_bufferOK u' k = PP_bufferOK u k" using assms(4,5) by (simp add: PP_bufferOK_def)
    then show ?thesis using assms(1) that by (simp add: PP_inv_def)
  qed (simp add: assms(6))
  then show ?thesis using assms(1-3,7,8) by (auto simp: PP_inv_def)
qed

lemma PP_arrive:
  assumes "PP_inv n u" "enabled PP_scheduled n (FrameIn x t) u"
  shows "\<exists>u'. PP_handleMessage (FrameIn x t) u = Inr u' \<and> PP_inv n u' \<and> bareRelay (uRelay u') = bareRelay (uRelay u) \<and>
        bufferSize u' = bufferSize u \<and> PP_held u' = (if admits (fst x) u then add_mset x (PP_held u) else PP_held u) \<and>
        bufferUsed u' = (if admits (fst x) u then bufferUsed u + efLength (fst x) else bufferUsed u) \<and>
        (\<forall>k. PP_line k u' = (if admits (fst x) u \<and> nat (snd x) = k then PP_line k u @ [x] else PP_line k u))"
proof (cases "admits (fst x) u")
  case False
  then have "PP_handleMessage (FrameIn x t) u = Inr (u\<lparr>numDroppedFrames := numDroppedFrames u + 1\<rparr>)"
    by (simp add: PP_handleIncomingFrame_def)
  moreover have "PP_inv n (u\<lparr>numDroppedFrames := numDroppedFrames u + 1\<rparr>)"
    using assms(1) by (simp add: PP_inv_def PP_bufferOK_def PP_eventsOf_def)
  ultimately show ?thesis using False by (simp add: PP_held_def PP_line_def)
next
  case True
  define i where "i = nat (snd x)"
  have x: "0 \<le> snd x" "i < nat n" "0 \<le> efLength (fst x)" "snd x = int i"
    using assms(2) by (cases x, auto simp: i_def)+
  have len: "length (portBuffers u) = nat n" using assms(1) by (simp add: PP_inv_def)
  have b: "PP_bufferOK u i" using assms(1) x(2) by (simp add: PP_inv_def)
  define v where "v = sendPauses t ((updBuffer i (\<lambda>b. b\<lparr>pbQueue := pbQueue b @ [fst x], pbPort := snd x\<rparr>) u)
      \<lparr>bufferUsed := bufferUsed u + efLength (fst x)\<rparr>)"
  define u' where "u' = (if cpuBusy (portBuffers u ! i) then v
      else (updBuffer i (\<lambda>b. b\<lparr>cpuBusy := True\<rparr>) v)\<lparr>ppEvents := ppEvents u @ [(i, t + processingTime u)]\<rparr>)"
  have e: "PP_handleMessage (FrameIn x t) u = Inr u'"
    using True x len assms(1)
    by (simp add: PP_handleIncomingFrame_def i_def [symmetric] v_def u'_def updBuffer_def notInPast_def PP_inv_def Let_def)
  have rec: "b\<lparr>pbQueue := q, pbPort := p\<rparr> = \<lparr>pbPort = p, cpuBusy = cpuBusy b, pbQueue = q\<rparr>"
    "b\<lparr>pbQueue := q, pbPort := p, cpuBusy := c\<rparr> = \<lparr>pbPort = p, cpuBusy = c, pbQueue = q\<rparr>" for b q p c
    by (cases b, simp)+
  have f: "processingTime u' = processingTime u" "bufferSize u' = bufferSize u"
    "bufferUsed u' = bufferUsed u + efLength (fst x)" "bareRelay (uRelay u') = bareRelay (uRelay u)"
    "portBuffers u' = (portBuffers u)[i := \<lparr>pbPort = int i, cpuBusy = True, pbQueue = pbQueue (portBuffers u ! i) @ [fst x]\<rparr>]"
    "ppEvents u' = (if cpuBusy (portBuffers u ! i) then ppEvents u else ppEvents u @ [(i, t + processingTime u)])"
    using x(2) len b by (auto simp: u'_def v_def updBuffer_def x(4) PP_bufferOK_def rec)
  have l: "PP_line k u' = (if k = i then PP_line k u @ [x] else PP_line k u)" for k
    using x len by (cases x) (auto simp: PP_line_def f)
  have "PP_inv n u'"
    by (rule PP_inv_change [OF assms(1), of _ i "t + processingTime u"])
      (use b x len in \<open>auto simp: f PP_bufferOK_def PP_eventsOf_def\<close>)
  moreover have "PP_held u' = add_mset x (PP_held u)"
    using PP_held_change [of i u u'] x(2) len l by (simp add: f)
  ultimately show ?thesis using e f True l by (auto simp: i_def)
qed

lemma PP_current_ok:
  assumes "PP_inv n u" "PP_scheduled i t u"
  obtains q where "i < nat n" "pbQueue (portBuffers u ! i) = fst (PP_current i u) # q" "snd (PP_current i u) = int i"
    "PP_line i u = PP_current i u # map (\<lambda>f. (f, int i)) q" "PP_eventsOf i u = [t]"
proof -
  have i: "i < nat n" "length (portBuffers u) = nat n" using assms by (auto simp: PP_inv_def PP_scheduled_def)
  then have b: "PP_bufferOK u i" using assms(1) by (simp add: PP_inv_def)
  have "t \<in> set (PP_eventsOf i u)" using assms(2) by (force simp: PP_eventsOf_def PP_scheduled_def)
  with b have ev: "PP_eventsOf i u = [t]" "cpuBusy (portBuffers u ! i)"
    by (auto simp: PP_bufferOK_def length_Suc_conv split: if_splits)
  then have "pbQueue (portBuffers u ! i) \<noteq> []" using b by (simp add: PP_bufferOK_def)
  then obtain f q where q: "pbQueue (portBuffers u ! i) = f # q" by (cases "pbQueue (portBuffers u ! i)") auto
  with b i ev(1) show ?thesis
    by (intro that [of q]) (auto simp: PP_current_def PP_line_def PP_bufferOK_def)
qed

lemma PP_complete:
  assumes "PP_inv n u" "PP_scheduled i t u"
    and r: "handleAndDispatchFrame (fst (PP_current i u)) (snd (PP_current i u)) t (uRelay u) = Inr r"
  shows "\<exists>u'. PP_handleMessage (EndProcessing i t) u = Inr u' \<and> PP_inv n u' \<and> uRelay u' = r \<and>
        PP_held u' = PP_held u - {#PP_current i u#} \<and> bufferUsed u' = bufferUsed u - efLength (fst (PP_current i u)) \<and>
        bufferSize u' = bufferSize u \<and>
        (\<forall>k. PP_line k u = (if nat (snd (PP_current i u)) = k then PP_current i u # PP_line k u' else PP_line k u'))"
proof -
  obtain q where c: "i < nat n" "pbQueue (portBuffers u ! i) = fst (PP_current i u) # q" "snd (PP_current i u) = int i"
      "PP_line i u = PP_current i u # map (\<lambda>f. (f, int i)) q" "PP_eventsOf i u = [t]"
    using PP_current_ok [OF assms(1,2)] .
  define x where "x = PP_current i u"
  have len: "length (portBuffers u) = nat n" and pt: "0 \<le> processingTime u" using assms(1) by (simp_all add: PP_inv_def)
  have b: "PP_bufferOK u i" using assms(1) c(1) by (simp add: PP_inv_def)
  have port: "pbPort (portBuffers u ! i) = int i" using b by (simp add: PP_bufferOK_def)
  define v where "v = (updBuffer i (\<lambda>b. b\<lparr>pbQueue := q\<rparr>) (u\<lparr>ppEvents := remove1 (i, t) (ppEvents u)\<rparr>))
      \<lparr>uRelay := r, bufferUsed := bufferUsed u - efLength (fst x), numProcessedFrames := numProcessedFrames u + 1\<rparr>"
  define u' where "u' = (if q \<noteq> [] then v\<lparr>ppEvents := ppEvents v @ [(i, t + processingTime u)]\<rparr>
      else updBuffer i (\<lambda>b. b\<lparr>cpuBusy := False\<rparr>) v)"
  have e: "PP_handleMessage (EndProcessing i t) u = Inr u'"
    using r c(2,3) pt port by (simp add: PP_processFrame_def x_def [symmetric] u'_def v_def notInPast_def updBuffer_def Let_def)
  have f: "processingTime u' = processingTime u" "bufferSize u' = bufferSize u"
    "bufferUsed u' = bufferUsed u - efLength (fst x)" "uRelay u' = r" "length (portBuffers u') = nat n"
    "portBuffers u' ! i = \<lparr>pbPort = int i, cpuBusy = (q \<noteq> []), pbQueue = q\<rparr>"
    "\<And>k. k \<noteq> i \<Longrightarrow> portBuffers u' ! k = portBuffers u ! k"
    "ppEvents u' = remove1 (i, t) (ppEvents u) @ (if q \<noteq> [] then [(i, t + processingTime u)] else [])"
    using c(1) len port b c(2) by (auto simp: u'_def v_def updBuffer_def PP_bufferOK_def)
  have l: "PP_line k u = (if k = i then x # PP_line k u' else PP_line k u')" for k
    using c len by (auto simp: PP_line_def f(5-7) x_def)
  have e1: "filter (\<lambda>ev. fst ev = k) (remove1 (i, t) evs) = (if k = i then remove1 (i, t) (filter (\<lambda>ev. fst ev = k) evs)
      else filter (\<lambda>ev. fst ev = k) evs)" for k evs
    by (induction evs) auto
  obtain ev where ev: "filter (\<lambda>ev. fst ev = i) (ppEvents u) = [ev]" "snd ev = t"
    using c(5) unfolding PP_eventsOf_def by (auto simp: map_eq_Cons_conv)
  from arg_cong [OF ev(1), of set] have "fst ev = i" by auto
  with ev have "filter (\<lambda>ev. fst ev = i) (ppEvents u) = [(i, t)]" by (cases ev) simp
  with e1 have e2: "PP_eventsOf i u' = (if q \<noteq> [] then [t + processingTime u] else [])"
    by (simp add: PP_eventsOf_def f(8))
  have "PP_inv n u'"
  proof (rule PP_inv_change [OF assms(1) f(1), of i "t + processingTime u"])
    show "PP_eventsOf k u' = PP_eventsOf k u" if "k \<noteq> i" for k using that e1 by (simp add: PP_eventsOf_def f(8))
    show "PP_bufferOK u' i" using b c(2) e2 by (auto simp: PP_bufferOK_def f(6))
    show "set (ppEvents u') \<subseteq> insert (i, t + processingTime u) (set (ppEvents u))"
      using set_remove1_subset [of "(i, t)" "ppEvents u"] by (auto simp: f(8))
  qed (use len f(5,7) c(1) in auto)
  moreover have "PP_held u' = PP_held u - {#x#}"
  proof -
    have "add_mset x (PP_held u') = PP_held u" using PP_held_change [of i u u'] c(1) len f(5) l by auto
    then show ?thesis by (metis add_mset_remove_trivial)
  qed
  ultimately show ?thesis using e f l c(3) by (auto simp: x_def)
qed

lemma PP_frameOK:
  assumes "PP_inv n u" "x \<in># PP_held u"
  shows "0 \<le> snd x \<and> snd x < n \<and> 0 \<le> efLength (fst x)"
proof -
  obtain i f where "i < length (portBuffers u)" "x = (f, int i)" "f \<in> set (pbQueue (portBuffers u ! i))"
    using assms(2) by (auto simp: PP_held_in PP_line_def split: if_splits)
  then show ?thesis using assms(1) by (auto simp: PP_inv_def PP_bufferOK_def)
qed

lemma PP_progress:
  assumes "PP_inv n u" "PP_held u \<noteq> {#}"
  shows "\<exists>i t. PP_scheduled i t u"
proof -
  obtain x where "x \<in># PP_held u" using assms(2) by blast
  then obtain i where "i < length (portBuffers u)" "x \<in> set (PP_line i u)" by (auto simp: PP_held_in)
  then have i: "i < nat n" "pbQueue (portBuffers u ! i) \<noteq> []"
    using assms(1) by (auto simp: PP_line_def PP_inv_def)
  then have "length (PP_eventsOf i u) = 1" using assms(1) by (auto simp: PP_inv_def PP_bufferOK_def)
  then obtain ev where "ev \<in> set (filter (\<lambda>ev. fst ev = i) (ppEvents u))"
    by (metis PP_eventsOf_def length_map length_pos_if_in_set list.set_intros(1) neq_Nil_conv list.size(3) zero_neq_one)
  then have "(fst ev, snd ev) \<in> set (ppEvents u)" by auto
  then show ?thesis unfolding PP_scheduled_def by blast
qed

interpretation pp: relay_lines PP_inv PP_scheduled PP_current PP_handleMessage PP_held "\<lambda>x. nat (snd x)" PP_line
proof (unfold_locales, goal_cases)
  case (1 n u x t)
  then show ?case using PP_arrive by blast
next
  case (2 n u e t)
  obtain q where "e < nat n" "PP_line e u = PP_current e u # map (\<lambda>f. (f, int e)) q" using PP_current_ok [OF 2] .
  then show ?case using 2(1) by (auto simp: PP_held_in PP_inv_def intro!: exI [of _ e])
next
  case (3 n u e t r)
  then show ?case using PP_complete by blast
next
  case (4 n u x)
  then show ?case by (rule PP_frameOK)
next
  case (5 n u)
  then show ?case by (rule PP_progress)
next
  case (6 n u x t u' k)
  from PP_arrive [OF 6(1,2)] obtain v where "PP_handleMessage (FrameIn x t) u = Inr v"
    "PP_line k v = (if admits (fst x) u \<and> nat (snd x) = k then PP_line k u @ [x] else PP_line k u)" by blast
  with 6(3) show ?case by simp
next
  case (7 n u e t u' k)
  have "pbQueue (portBuffers u ! e) \<noteq> []" using PP_current_ok [OF 7(1,2)] by force
  then obtain f q where "pbQueue (portBuffers u ! e) = f # q" by (cases "pbQueue (portBuffers u ! e)") auto
  then have "\<exists>r. handleAndDispatchFrame (fst (PP_current e u)) (snd (PP_current e u)) t (uRelay u) = Inr r"
    using 7(3) by (cases "handleAndDispatchFrame f (pbPort (portBuffers u ! e)) t (uRelay u)")
      (simp_all add: PP_processFrame_def PP_current_def updBuffer_def Let_def)
  then obtain r where "handleAndDispatchFrame (fst (PP_current e u)) (snd (PP_current e u)) t (uRelay u) = Inr r" ..
  from PP_complete [OF 7(1,2) this] obtain v where "PP_handleMessage (EndProcessing e t) u = Inr v"
    "PP_line k u = (if nat (snd (PP_current e u)) = k then PP_current e u # PP_line k v else PP_line k v)" by blast
  with 7(3) show ?case by simp
qed

section \<open>Properties\<close>

lemma initialized_relay:
  assumes "Relay_initialize n k aging None = Inr r"
  shows "portsOK n r" "bareRelay r = r" "numPorts r = n"
  using assms by (auto simp: Relay_initialize_def portsOK_def bareRelay_def)

lemma NP_initialize_good:
  assumes "Relay_initialize n k aging None = Inr r" "0 < numCPUs" "0 \<le> pt"
  shows "np.good n (NP_initialize r numCPUs pt bufsize mark units)"
proof -
  have "NP_busy (replicate c \<lparr>contextPointer = None, arrivalTime = None\<rparr>) = []" for c
    by (induction c) (auto simp: NP_busy_def List.map_filter_simps)
  then show ?thesis using assms initialized_relay [OF assms(1)]
    by (auto simp: np.good_def NP_initialize_def NP_inv_def NP_held_def heldLength_def)
qed

lemma PP_initialize_good:
  assumes "Relay_initialize n k aging None = Inr r" "0 \<le> pt"
  shows "pp.good n (PP_initialize r pt bufsize mark units)"
proof -
  have "PP_held (PP_initialize r pt bufsize mark units) = {#}"
    by (simp add: PP_held_def PP_line_def PP_initialize_def)
  then show ?thesis using assms initialized_relay [OF assms(1)]
    by (auto simp: pp.good_def PP_initialize_def PP_inv_def PP_bufferOK_def PP_eventsOf_def heldLength_def)
qed

text \<open>C38: Whatever frames come and in whatever order the processors finish, a relay unit with several processors
  never stops the simulation and none of its assertions fails; the frames it let in are those it forwarded and those it
  still holds, each once; the buffer counts exactly the bytes of the held frames and stays below its limit;
  as long as it holds a frame some processor works; and the frames that leave are those the switch table
  gives for the frames in the order of completion, whatever PAUSE frames are sent in between.\<close>

theorem relay_np_accounts_for_frames:
  assumes "Relay_initialize n k aging None = Inr r" "0 < numCPUs" "0 \<le> pt" "0 < bufsize"
    and u0: "u0 = NP_initialize r numCPUs pt bufsize mark units"
    and "possible NP_scheduled NP_handleMessage n evs u0"
  shows "\<exists>u. runUnit NP_handleMessage evs u0 = Inr u \<and>
    mset (accepted NP_handleMessage evs u0) =
      NP_held u + mset (map (\<lambda>(f, p, t). (f, p)) (dispatched NP_current NP_handleMessage evs u0)) \<and>
    bufferUsed u = (\<Sum>x \<in># NP_held u. efLength (fst x)) \<and> bufferUsed u < bufferSize u \<and>
    (NP_held u \<noteq> {#} \<longrightarrow> (\<exists>i t. NP_scheduled i t u)) \<and>
    relayRun (dispatched NP_current NP_handleMessage evs u0) r = Inr (bareRelay (uRelay u))"
proof -
  have g: "np.good n u0" unfolding u0 using assms(1-3) by (rule NP_initialize_good)
  have i: "NP_held u0 = {#}" "uRelay u0 = r" "bufferUsed u0 = 0" "bufferSize u0 = bufsize"
    using g by (auto simp: u0 NP_initialize_def NP_held_def NP_busy_def List.map_filter_def)
  obtain u where u: "runUnit NP_handleMessage evs u0 = Inr u" "np.good n u"
    "relayRun (dispatched NP_current NP_handleMessage evs u0) (bareRelay (uRelay u0)) = Inr (bareRelay (uRelay u))"
    "NP_held u0 + mset (accepted NP_handleMessage evs u0) =
      NP_held u + mset (map (\<lambda>(f, p, t). (f, p)) (dispatched NP_current NP_handleMessage evs u0))"
    "bufferSize u = bufferSize u0" "bufferUsed u \<le> max (bufferUsed u0) (bufferSize u0 - 1)"
    using np.runs [OF g assms(6)] by blast
  have "NP_held u \<noteq> {#} \<longrightarrow> (\<exists>i t. NP_scheduled i t u)" using u(2) NP_progress np.good_def by blast
  moreover have "bufferUsed u = (\<Sum>x \<in># NP_held u. efLength (fst x))"
    using u(2) by (simp add: np.good_def heldLength_def)
  ultimately show ?thesis using u i assms(4) initialized_relay(2) [OF assms(1)] by auto
qed

text \<open>In a relay unit with a processor for every port the frames that come by a port are forwarded
  in the order in which they came, none is lost once it was let in: those not yet forwarded are the queue of the
  port, in order. Every event that can happen is handled without an error.\<close>

theorem relay_pp_keeps_port_order:
  assumes "Relay_initialize n k aging None = Inr r" "0 \<le> pt"
    and u0: "u0 = PP_initialize r pt bufsize mark units"
    and "possible PP_scheduled PP_handleMessage n evs u0" "0 \<le> p" "p < n"
  shows "\<exists>u. runUnit PP_handleMessage evs u0 = Inr u \<and>
    filter (\<lambda>x. snd x = p) (accepted PP_handleMessage evs u0) =
      filter (\<lambda>x. snd x = p) (map (\<lambda>(f, p, t). (f, p)) (dispatched PP_current PP_handleMessage evs u0)) @
      map (\<lambda>f. (f, p)) (pbQueue (portBuffers u ! nat p)) \<and>
    relayRun (dispatched PP_current PP_handleMessage evs u0) r = Inr (bareRelay (uRelay u))"
proof -
  have g: "pp.good n u0" unfolding u0 using assms(1,2) by (rule PP_initialize_good)
  obtain u where u: "runUnit PP_handleMessage evs u0 = Inr u" "pp.good n u"
    "relayRun (dispatched PP_current PP_handleMessage evs u0) (bareRelay (uRelay u0)) = Inr (bareRelay (uRelay u))"
    "PP_held u0 + mset (accepted PP_handleMessage evs u0) =
      PP_held u + mset (map (\<lambda>(f, p, t). (f, p)) (dispatched PP_current PP_handleMessage evs u0))"
    using pp.runs [OF g assms(4)] by blast
  have "PP_line (nat p) u0 @ filter (\<lambda>x. nat (snd x) = nat p) (accepted PP_handleMessage evs u0) =
      filter (\<lambda>x. nat (snd x) = nat p) (map (\<lambda>(f, p, t). (f, p)) (dispatched PP_current PP_handleMessage evs u0)) @
      PP_line (nat p) u"
    using pp.fifo [OF g assms(4), of "nat p"] u(1) by auto
  moreover have "PP_line (nat p) u0 = []" by (simp add: u0 PP_initialize_def PP_line_def)
  moreover have "PP_line (nat p) u = map (\<lambda>f. (f, p)) (pbQueue (portBuffers u ! nat p))"
    using u(2) assms(5,6) by (simp add: PP_line_def pp.good_def PP_inv_def)
  moreover have "PP_held u0 = {#}"
    by (simp add: PP_held_def PP_line_def u0 PP_initialize_def)
  then have in_all: "set (accepted PP_handleMessage evs u0) =
      set_mset (PP_held u) \<union> set (map (\<lambda>(f, p, t). (f, p)) (dispatched PP_current PP_handleMessage evs u0))"
    using arg_cong [OF u(4), of set_mset] by simp
  have nn: "0 \<le> snd x" if "x \<in> set (accepted PP_handleMessage evs u0)" for x
    using pp.accepted_ports [OF g assms(4) that] by simp
  then have "filter (\<lambda>x. nat (snd x) = nat p) ys = filter (\<lambda>x. snd x = p) ys"
    if "set ys \<subseteq> set (accepted PP_handleMessage evs u0)" for ys
    using that assms(5) by (intro filter_cong) (auto simp: eq_nat_nat_iff)
  moreover have "set (map (\<lambda>(f, p, t). (f, p)) (dispatched PP_current PP_handleMessage evs u0)) \<subseteq>
      set (accepted PP_handleMessage evs u0)" using in_all by blast
  ultimately show ?thesis using u initialized_relay(2) [OF assms(1)] by (simp add: u0 PP_initialize_def)
qed

definition exEvents :: "nat UnitEvent list" where
  "exEvents = [FrameIn (fst (exFrames ! 0), 0) 1, FrameIn (fst (exFrames ! 2), 0) 2, EndProcessing 0 6,
     FrameIn (fst (exFrames ! 1), 2) 7, EndProcessing 0 11]"

definition exNP :: RelayNP where
  "exNP = NP_initialize (exSwitch 0) 1 5 1000 100 10"

definition exPP :: RelayPP where
  "exPP = PP_initialize (exSwitch 0) 5 1000 100 10"

lemma exSwitch_initial: "Relay_initialize 3 0 10 None = Inr (exSwitch 0)"
  by (simp add: Relay_initialize_def exSwitch_def)

lemma exEvents_possible:
  "possible NP_scheduled NP_handleMessage 3 exEvents exNP" "possible PP_scheduled PP_handleMessage 3 exEvents exPP"
  by code_simp+

theorem relay_np_accounts_for_frames_witness:
  "\<exists>u. runUnit NP_handleMessage exEvents exNP = Inr u \<and>
    mset (accepted NP_handleMessage exEvents exNP) =
      NP_held u + mset (map (\<lambda>(f, p, t). (f, p)) (dispatched NP_current NP_handleMessage exEvents exNP)) \<and>
    bufferUsed u = (\<Sum>x \<in># NP_held u. efLength (fst x)) \<and> bufferUsed u < bufferSize u \<and>
    (NP_held u \<noteq> {#} \<longrightarrow> (\<exists>i t. NP_scheduled i t u)) \<and>
    relayRun (dispatched NP_current NP_handleMessage exEvents exNP) (exSwitch 0) = Inr (bareRelay (uRelay u))"
  by (rule relay_np_accounts_for_frames [OF exSwitch_initial _ _ _ exNP_def exEvents_possible(1)]) simp_all

theorem relay_pp_keeps_port_order_witness:
  "\<exists>u. runUnit PP_handleMessage exEvents exPP = Inr u \<and>
    filter (\<lambda>x. snd x = 0) (accepted PP_handleMessage exEvents exPP) =
      filter (\<lambda>x. snd x = 0) (map (\<lambda>(f, p, t). (f, p)) (dispatched PP_current PP_handleMessage exEvents exPP)) @
      map (\<lambda>f. (f, 0)) (pbQueue (portBuffers u ! nat 0)) \<and>
    relayRun (dispatched PP_current PP_handleMessage exEvents exPP) (exSwitch 0) = Inr (bareRelay (uRelay u))"
  by (rule relay_pp_keeps_port_order [OF exSwitch_initial _ exPP_def exEvents_possible(2)]) simp_all

end
