(* ===== verification/Passive_Queues.thy ===== *)
theory Passive_Queues imports IP_Packets
begin

text \<open>
  The output queues of interfaces: \<^verbatim>\<open>src/src/base/PassiveQueueBase.cc\<close>, its subclasses
  \<^verbatim>\<open>networklayer/queue/DropTailQueue.cc\<close> and \<^verbatim>\<open>DropTailQoSQueue.cc\<close>, and the classifier
  \<^verbatim>\<open>BasicDSCPClassifier.cc\<close>. What the base class needs of a subclass is a locale, interpreted on both.
\<close>

section \<open>The base class\<close>

text \<open>\<open>pqStore\<close> is what the subclass keeps its packets in; \<open>pqSent\<close> what went out.\<close>

record ('s, 'm) PassiveQueue =
  packetRequested :: int
  numQueueReceived :: int
  numQueueDropped :: int
  pqStore :: 's
  pqSent :: "'m list"

definition PassiveQueue_initialize :: "'s \<Rightarrow> ('s, 'm) PassiveQueue" where
  "PassiveQueue_initialize s = \<lparr>packetRequested = 0, numQueueReceived = 0, numQueueDropped = 0, pqStore = s, pqSent = []\<rparr>"

definition sendOut :: "'m \<Rightarrow> ('s, 'm) PassiveQueue \<Rightarrow> ('s, 'm) PassiveQueue" where
  "sendOut m q = q\<lparr>pqSent := pqSent q @ [m]\<rparr>"

definition PassiveQueue_handleMessage ::
    "('m \<Rightarrow> 's \<Rightarrow> (bool \<times> 's) res) \<Rightarrow> 'm \<Rightarrow> ('s, 'm) PassiveQueue \<Rightarrow> ('s, 'm) PassiveQueue res" where
  "PassiveQueue_handleMessage enq m q =
     (let q = q\<lparr>numQueueReceived := numQueueReceived q + 1\<rparr>
      in if packetRequested q > 0 then Inr (sendOut m (q\<lparr>packetRequested := packetRequested q - 1\<rparr>))
         else andThen (enq m (pqStore q)) (\<lambda>(dropped, s).
           let q = q\<lparr>pqStore := s\<rparr>
           in Inr (if dropped then q\<lparr>numQueueDropped := numQueueDropped q + 1\<rparr> else q)))"

definition PassiveQueue_requestPacket ::
    "('s \<Rightarrow> 'm option \<times> 's) \<Rightarrow> ('s, 'm) PassiveQueue \<Rightarrow> ('s, 'm) PassiveQueue" where
  "PassiveQueue_requestPacket deq q =
     (case deq (pqStore q) of
        (None, s) \<Rightarrow> q\<lparr>pqStore := s, packetRequested := packetRequested q + 1\<rparr>
      | (Some m, s) \<Rightarrow> sendOut m (q\<lparr>pqStore := s\<rparr>))"

section \<open>Drop tail\<close>

text \<open>A capacity of 0 means no limit.\<close>

definition full :: "int \<Rightarrow> 'm list \<Rightarrow> bool" where
  "full frameCapacity q \<longleftrightarrow> frameCapacity \<noteq> 0 \<and> int (length q) \<ge> frameCapacity"

definition DropTail_enqueue :: "int \<Rightarrow> 'm \<Rightarrow> 'm list \<Rightarrow> (bool \<times> 'm list) res" where
  "DropTail_enqueue frameCapacity m q = Inr (if full frameCapacity q then (True, q) else (False, q @ [m]))"

fun DropTail_dequeue :: "'m list \<Rightarrow> 'm option \<times> 'm list" where
  "DropTail_dequeue [] = (None, [])"
| "DropTail_dequeue (m # q) = (Some m, q)"

section \<open>Drop tail with classes\<close>

text \<open>\<open>classify\<close> is the classifier of the module; nothing checks that the index it gives is one of the queues.\<close>

definition QoS_initialize :: "nat \<Rightarrow> 'm list list" where
  "QoS_initialize numQueues = replicate numQueues []"

definition QoS_enqueue :: "('m \<Rightarrow> int) \<Rightarrow> int \<Rightarrow> 'm \<Rightarrow> 'm list list \<Rightarrow> (bool \<times> 'm list list) res" where
  "QoS_enqueue classify frameCapacity m queues =
     (let i = nat (classify m) in
      checked (0 \<le> classify m \<and> i < length queues) (UndefinedBehaviour ''queues[queueIndex]'')
        (Inr (if full frameCapacity (queues ! i) then (True, queues) else (False, queues[i := queues ! i @ [m]]))))"

text \<open>Queue 0 has the highest priority.\<close>

fun QoS_dequeue :: "'m list list \<Rightarrow> 'm option \<times> 'm list list" where
  "QoS_dequeue [] = (None, [])"
| "QoS_dequeue ((m # q) # queues) = (Some m, q # queues)"
| "QoS_dequeue ([] # queues) = (let (m, queues) = QoS_dequeue queues in (m, [] # queues))"

section \<open>The classifier\<close>

definition BEST_EFFORT :: int where "BEST_EFFORT = 1"

definition getNumQueues :: nat where "getNumQueues = 2"

definition classifyByDSCP :: "int \<Rightarrow> int" where
  "classifyByDSCP dscp =
     (let dscp = and dscp 0x3f
      in if dscp = 0 then BEST_EFFORT
         else if and dscp 1 \<noteq> 0 then BEST_EFFORT
         else if and (drop_bit 3 (and dscp 0x3c)) 0x04 \<noteq> 0 then 0 else 1)"

text \<open>Of the packets of this development the datagrams are classified; the other branch, for IPv6, is not among them.\<close>

definition classifyPacket :: "Packet \<Rightarrow> int" where
  "classifyPacket p = (case p of DatagramPacket n h l e \<Rightarrow> classifyByDSCP (diffServCodePoint h) | _ \<Rightarrow> BEST_EFFORT)"

section \<open>The contract of the subclasses\<close>

text \<open>
  \<open>line k s\<close> is what waits in the class \<open>k\<close>, in order. A packet is put at the end of its class or dropped; the queue gives
  the first of a class, and nothing only when it is empty.
\<close>

locale packet_store =
  fixes inv :: "'s \<Rightarrow> bool" and ok :: "'m \<Rightarrow> bool" and cls :: "'m \<Rightarrow> nat"
    and enq :: "'m \<Rightarrow> 's \<Rightarrow> (bool \<times> 's) res" and deq :: "'s \<Rightarrow> 'm option \<times> 's"
    and line :: "nat \<Rightarrow> 's \<Rightarrow> 'm list"
  assumes enq: "inv s \<Longrightarrow> ok m \<Longrightarrow> \<exists>d s'. enq m s = Inr (d, s') \<and> inv s' \<and>
      (\<forall>k. line k s' = (if \<not> d \<and> cls m = k then line k s @ [m] else line k s))"
    and deq_None: "inv s \<Longrightarrow> deq s = (None, s') \<Longrightarrow> s' = s \<and> line k s = []"
    and deq_Some: "inv s \<Longrightarrow> deq s = (Some m, s') \<Longrightarrow>
      inv s' \<and> line k s = (if cls m = k then m # line k s' else line k s')"

section \<open>Histories\<close>

datatype 'm QueueEvent = Arrives 'm | Requested

fun queueStep :: "('m \<Rightarrow> 's \<Rightarrow> (bool \<times> 's) res) \<Rightarrow> ('s \<Rightarrow> 'm option \<times> 's) \<Rightarrow> 'm QueueEvent \<Rightarrow>
    ('s, 'm) PassiveQueue \<Rightarrow> ('s, 'm) PassiveQueue res" where
  "queueStep enq deq (Arrives m) q = PassiveQueue_handleMessage enq m q"
| "queueStep enq deq Requested q = Inr (PassiveQueue_requestPacket deq q)"

text \<open>A run gives the packets that were not dropped besides the last state.\<close>

fun queueRun :: "('m \<Rightarrow> 's \<Rightarrow> (bool \<times> 's) res) \<Rightarrow> ('s \<Rightarrow> 'm option \<times> 's) \<Rightarrow> 'm QueueEvent list \<Rightarrow>
    ('s, 'm) PassiveQueue \<Rightarrow> ('m list \<times> ('s, 'm) PassiveQueue) res" where
  "queueRun enq deq [] q = Inr ([], q)"
| "queueRun enq deq (e # es) q = andThen (queueStep enq deq e q) (\<lambda>q'.
     andThen (queueRun enq deq es q') (\<lambda>(ms, q'').
       Inr ((case e of Requested \<Rightarrow> [] | Arrives m \<Rightarrow> if numQueueDropped q' = numQueueDropped q then [m] else []) @ ms, q'')))"

fun numRequests :: "'m QueueEvent list \<Rightarrow> nat" where
  "numRequests [] = 0"
| "numRequests (Requested # es) = Suc (numRequests es)"
| "numRequests (Arrives m # es) = numRequests es"

end
