(* ===== verification/PPP_Module.thy ===== *)
theory PPP_Module imports Passive_Queues Sim_Kernel
begin

text \<open>
  The PPP interface, \<^verbatim>\<open>src/src/linklayer/ppp/PPP.{h,cc}\<close>, and its connection with the output queue that feeds it.
  The registration of the interface, notifications and the display are left out. When a transmission
  that starts at some time ends is the channel's business: \<open>finish\<close> is its \<^verbatim>\<open>getTransmissionFinishTime()\<close>.
\<close>

section \<open>The module\<close>

definition PPP_OVERHEAD_BYTES :: int where "PPP_OVERHEAD_BYTES = 7"

record PPPFrame =
  pppByteLength :: int
  pppPayload :: Packet

text \<open>What the module does to others: it starts a transmission at a time, passes a packet up, calls \<^verbatim>\<open>requestPacket()\<close>.\<close>

datatype PPPOutput = PhysOut PPPFrame simtime | NetwOut Packet | CallRequestPacket

record PPP =
  txQueueLimit :: int
  pppConnected :: bool
  hasQueueModule :: bool
  txQueue :: "Packet list"
  endTransmissionEvent :: "simtime option"
  numSentPPP :: int
  numRcvdOK :: int
  numBitErr :: int
  numDroppedIfaceDown :: int
  pppOut :: "PPPOutput list"

definition emit :: "PPPOutput \<Rightarrow> PPP \<Rightarrow> PPP" where
  "emit out p = p\<lparr>pppOut := pppOut p @ [out]\<rparr>"

definition PPP_initialize :: "int \<Rightarrow> bool \<Rightarrow> bool \<Rightarrow> PPP" where
  "PPP_initialize limit isConnected queueModule =
     (let p = \<lparr>txQueueLimit = limit, pppConnected = isConnected, hasQueueModule = queueModule, txQueue = [],
        endTransmissionEvent = None, numSentPPP = 0, numRcvdOK = 0, numBitErr = 0, numDroppedIfaceDown = 0, pppOut = []\<rparr>
      in if hasQueueModule p then emit CallRequestPacket p else p)"

definition ppp_encapsulate :: "Packet \<Rightarrow> PPPFrame" where
  "ppp_encapsulate msg = \<lparr>pppByteLength = PPP_OVERHEAD_BYTES + packetLength msg, pppPayload = msg\<rparr>"

definition ppp_decapsulate :: "PPPFrame \<Rightarrow> Packet" where
  "ppp_decapsulate f = pppPayload f"

definition startTransmitting :: "(PPPFrame \<Rightarrow> simtime \<Rightarrow> simtime) \<Rightarrow> Packet \<Rightarrow> simtime \<Rightarrow> PPP \<Rightarrow> PPP res" where
  "startTransmitting finish msg now p =
     (let f = ppp_encapsulate msg; p = emit (PhysOut f now) p; endTransmissionTime = finish f now
      in notScheduled (endTransmissionEvent p) (notInPast now endTransmissionTime
           (Inr (p\<lparr>endTransmissionEvent := Some endTransmissionTime\<rparr>))))"

text \<open>A frame from the line comes with the mark of a bit error.\<close>

datatype PPPMessage = EndTransmission | FromPhys PPPFrame bool | FromNetw Packet

definition countSent :: "PPP \<Rightarrow> PPP res" where
  "countSent p = Inr (p\<lparr>numSentPPP := numSentPPP p + 1\<rparr>)"

fun PPP_handleMessage :: "(PPPFrame \<Rightarrow> simtime \<Rightarrow> simtime) \<Rightarrow> PPPMessage \<Rightarrow> simtime \<Rightarrow> PPP \<Rightarrow> PPP res" where
  "PPP_handleMessage finish msg now p =
     (if \<not> pppConnected p then Inr (p\<lparr>numDroppedIfaceDown := numDroppedIfaceDown p + 1\<rparr>)
      else case msg of
        EndTransmission \<Rightarrow>
          let p = p\<lparr>endTransmissionEvent := None\<rparr>
          in (case txQueue p of
               pk # q \<Rightarrow> andThen (startTransmitting finish pk now (p\<lparr>txQueue := q\<rparr>)) countSent
             | [] \<Rightarrow> Inr (if hasQueueModule p then emit CallRequestPacket p else p))
      | FromPhys f bitError \<Rightarrow>
          if bitError then Inr (p\<lparr>numBitErr := numBitErr p + 1\<rparr>)
          else Inr (emit (NetwOut (ppp_decapsulate f)) (p\<lparr>numRcvdOK := numRcvdOK p + 1\<rparr>))
      | FromNetw pk \<Rightarrow>
          if endTransmissionEvent p \<noteq> None then
            if txQueueLimit p \<noteq> 0 \<and> int (length (txQueue p)) > txQueueLimit p
            then Inl (OppError ''txQueue length exceeds txQueueLimit'')
            else Inr (p\<lparr>txQueue := txQueue p @ [pk]\<rparr>)
          else andThen (startTransmitting finish pk now p) countSent)"

section \<open>The interface with its output queue\<close>

text \<open>
  The compound module \<^verbatim>\<open>PPPInterface\<close>: packets for the interface come to a drop tail queue, which sends what it is
  asked for to PPP. A packet that was sent but not delivered is in \<open>transit\<close>; a call of \<^verbatim>\<open>requestPacket()\<close> is
  executed at once. \<open>clock\<close> is the time of the last event.
\<close>

record Link =
  lkPPP :: PPP
  lkQueue :: "(Packet list, Packet) PassiveQueue"
  transit :: "Packet list"
  clock :: simtime

definition afterQueue :: "(Packet list, Packet) PassiveQueue \<Rightarrow> Link \<Rightarrow> Link" where
  "afterQueue q l = l\<lparr>lkQueue := q, transit := transit l @ drop (length (pqSent (lkQueue l))) (pqSent q)\<rparr>"

definition afterPPP :: "PPP \<Rightarrow> Link \<Rightarrow> Link" where
  "afterPPP p l =
     (let new = drop (length (pppOut (lkPPP l))) (pppOut p); l = l\<lparr>lkPPP := p\<rparr>
      in if CallRequestPacket \<in> set new then afterQueue (PassiveQueue_requestPacket DropTail_dequeue (lkQueue l)) l else l)"

datatype LinkEvent = LkArrive Packet | LkDeliver | LkEndTransmission | LkReceive PPPFrame bool

definition Link_initialize :: "int \<Rightarrow> bool \<Rightarrow> Link" where
  "Link_initialize limit isConnected = afterPPP (PPP_initialize limit isConnected True)
     \<lparr>lkPPP = (PPP_initialize limit isConnected True)\<lparr>pppOut := []\<rparr>, lkQueue = PassiveQueue_initialize [], transit = [], clock = 0\<rparr>"

fun linkStep :: "(PPPFrame \<Rightarrow> simtime \<Rightarrow> simtime) \<Rightarrow> int \<Rightarrow> LinkEvent \<Rightarrow> simtime \<Rightarrow> Link \<Rightarrow> Link res" where
  "linkStep finish c (LkArrive m) now l =
     andThen (PassiveQueue_handleMessage (DropTail_enqueue c) m (lkQueue l)) (\<lambda>q. Inr (afterQueue q (l\<lparr>clock := now\<rparr>)))"
| "linkStep finish c LkDeliver now l =
     andThen (PPP_handleMessage finish (FromNetw (hd (transit l))) now (lkPPP l)) (\<lambda>p.
       Inr (afterPPP p (l\<lparr>transit := tl (transit l), clock := now\<rparr>)))"
| "linkStep finish c LkEndTransmission now l =
     andThen (PPP_handleMessage finish EndTransmission now (lkPPP l)) (\<lambda>p. Inr (afterPPP p (l\<lparr>clock := now\<rparr>)))"
| "linkStep finish c (LkReceive f e) now l =
     andThen (PPP_handleMessage finish (FromPhys f e) now (lkPPP l)) (\<lambda>p. Inr (afterPPP p (l\<lparr>clock := now\<rparr>)))"

text \<open>Events come in the order of their times; the end of a transmission comes at the time it is scheduled for.\<close>

definition linkEnabled :: "LinkEvent \<Rightarrow> simtime \<Rightarrow> Link \<Rightarrow> bool" where
  "linkEnabled e now l \<longleftrightarrow> clock l \<le> now \<and>
     (case endTransmissionEvent (lkPPP l) of None \<Rightarrow> e \<noteq> LkEndTransmission | Some t \<Rightarrow> now \<le> t \<and> (e = LkEndTransmission \<longrightarrow> now = t)) \<and>
     (e = LkDeliver \<longrightarrow> transit l \<noteq> [])"

text \<open>A run gives the packets that the queue took besides the last state, and nothing if an event cannot happen.\<close>

fun linkRun :: "(PPPFrame \<Rightarrow> simtime \<Rightarrow> simtime) \<Rightarrow> int \<Rightarrow> (LinkEvent \<times> simtime) list \<Rightarrow> Link \<Rightarrow> (Packet list \<times> Link) res option" where
  "linkRun finish c [] l = Some (Inr ([], l))"
| "linkRun finish c ((e, t) # es) l =
     (if \<not> linkEnabled e t l then None
      else case linkStep finish c e t l of
        Inl err \<Rightarrow> Some (Inl err)
      | Inr l' \<Rightarrow> map_option (\<lambda>r. andThen r (\<lambda>(ms, l''). Inr ((case e of
            LkArrive m \<Rightarrow> if numQueueDropped (lkQueue l') = numQueueDropped (lkQueue l) then [m] else []
          | _ \<Rightarrow> []) @ ms, l''))) (linkRun finish c es l'))"

end
