(* ===== verification/Queue_Props.thy ===== *)
theory Queue_Props imports Passive_Queues
begin

text \<open>
  Properties of the output queues: every request is answered as soon as there is a packet, packets of one class
  leave in the order in which they came, and a lower class waits for the higher.
\<close>

lemma queueRun_arrived:
  "queueRun enq deq es q = Inr (ms, q') \<Longrightarrow> m \<in> set ms \<Longrightarrow> Arrives m \<in> set es"
proof (induction es arbitrary: q ms)
  case (Cons e es)
  from Cons.prems(1) obtain q1 ms' where 1: "queueRun enq deq es q1 = Inr (ms', q')"
    "ms = (case e of Requested \<Rightarrow> [] | Arrives m \<Rightarrow> if numQueueDropped q1 = numQueueDropped q then [m] else []) @ ms'"
    by (auto simp: res_simps)
  with Cons.prems(2) Cons.IH [OF 1(1)] show ?case by (auto split: QueueEvent.splits if_splits)
qed simp

context packet_store begin

text \<open>While a request waits the queue is empty.\<close>

definition queueInv :: "('s, 'm) PassiveQueue \<Rightarrow> bool" where
  "queueInv q \<longleftrightarrow> inv (pqStore q) \<and> 0 \<le> packetRequested q \<and> (0 < packetRequested q \<longrightarrow> (\<forall>k. line k (pqStore q) = []))"

definition okEvent :: "'m QueueEvent \<Rightarrow> bool" where
  "okEvent e \<longleftrightarrow> (case e of Arrives m \<Rightarrow> ok m | Requested \<Rightarrow> True)"

text \<open>The packets of class \<open>k\<close> that went out or wait.\<close>

definition flow :: "nat \<Rightarrow> ('s, 'm) PassiveQueue \<Rightarrow> 'm list" where
  "flow k q = filter (\<lambda>m. cls m = k) (pqSent q) @ line k (pqStore q)"

lemma step:
  assumes "queueInv q" "okEvent e"
  shows "\<exists>q'. queueStep enq deq e q = Inr q' \<and> queueInv q' \<and>
    int (length (pqSent q')) + packetRequested q' = int (length (pqSent q)) + packetRequested q + (if e = Requested then 1 else 0) \<and>
    (\<forall>k. flow k q' = flow k q @ filter (\<lambda>m. cls m = k)
       (case e of Requested \<Rightarrow> [] | Arrives m \<Rightarrow> if numQueueDropped q' = numQueueDropped q then [m] else []))"
proof (cases e)
  case (Arrives m)
  show ?thesis
  proof (cases "0 < packetRequested q")
    case True
    then show ?thesis using assms
      by (simp add: Arrives PassiveQueue_handleMessage_def sendOut_def queueInv_def flow_def)
  next
    case False
    obtain d s where "enq m (pqStore q) = Inr (d, s)" "inv s"
        "\<forall>k. line k s = (if \<not> d \<and> cls m = k then line k (pqStore q) @ [m] else line k (pqStore q))"
      using enq [of "pqStore q" m] assms by (auto simp: queueInv_def okEvent_def Arrives)
    with False assms show ?thesis
      by (simp add: Arrives PassiveQueue_handleMessage_def queueInv_def flow_def Let_def)
  qed
next
  case Requested
  obtain mo s where d: "deq (pqStore q) = (mo, s)" by fastforce
  have i: "inv (pqStore q)" using assms by (simp add: queueInv_def)
  show ?thesis
  proof (cases mo)
    case None
    with deq_None [OF i] d have "s = pqStore q" "\<And>k. line k (pqStore q) = []" by auto
    with d None assms show ?thesis
      by (simp add: Requested PassiveQueue_requestPacket_def queueInv_def flow_def)
  next
    case (Some m)
    from deq_Some [OF i d [unfolded Some]] have "inv s"
      "\<And>k. line k (pqStore q) = (if cls m = k then m # line k s else line k s)" by auto
    moreover from this(2) [of "cls m"] have "packetRequested q = 0" using assms(1) by (force simp: queueInv_def)
    ultimately show ?thesis using d Some assms
      by (auto simp: Requested PassiveQueue_requestPacket_def sendOut_def queueInv_def flow_def)
  qed
qed

lemma run:
  assumes "queueInv q" "\<forall>e \<in> set es. okEvent e"
  shows "\<exists>ms q'. queueRun enq deq es q = Inr (ms, q') \<and> queueInv q' \<and>
    int (length (pqSent q')) + packetRequested q' = int (length (pqSent q)) + packetRequested q + int (numRequests es) \<and>
    (\<forall>k. flow k q' = flow k q @ filter (\<lambda>m. cls m = k) ms)"
  using assms
proof (induction es arbitrary: q)
  case (Cons e es)
  obtain q1 where q1: "queueStep enq deq e q = Inr q1" "queueInv q1"
    "int (length (pqSent q1)) + packetRequested q1 = int (length (pqSent q)) + packetRequested q + (if e = Requested then 1 else 0)"
    "\<forall>k. flow k q1 = flow k q @ filter (\<lambda>m. cls m = k)
       (case e of Requested \<Rightarrow> [] | Arrives m \<Rightarrow> if numQueueDropped q1 = numQueueDropped q then [m] else [])"
    using step [OF Cons.prems(1), of e] Cons.prems(2) by auto
  obtain ms q2 where q2: "queueRun enq deq es q1 = Inr (ms, q2)" "queueInv q2"
    "int (length (pqSent q2)) + packetRequested q2 = int (length (pqSent q1)) + packetRequested q1 + int (numRequests es)"
    "\<forall>k. flow k q2 = flow k q1 @ filter (\<lambda>m. cls m = k) ms"
    using Cons.IH [OF q1(2)] Cons.prems(2) by auto
  have "int (numRequests (e # es)) = int (numRequests es) + (if e = Requested then 1 else 0)" by (cases e) auto
  with q1 q2 show ?case by (cases e) auto
qed simp

end

section \<open>Drop tail\<close>

interpretation dropTail: packet_store "\<lambda>q. True" "\<lambda>m. True" "\<lambda>m. 0" "DropTail_enqueue c" DropTail_dequeue
  "\<lambda>k q. if k = 0 then q else []"
  for c :: int
proof (unfold_locales, goal_cases)
  case (1 q m)
  show ?case by (cases "full c q") (auto simp: DropTail_enqueue_def)
next
  case (2 s s' k)
  then show ?case by (cases s) auto
next
  case (3 s m s' k)
  then show ?case by (cases s) auto
qed

section \<open>Classes\<close>

definition classOK :: "('m \<Rightarrow> int) \<Rightarrow> nat \<Rightarrow> 'm \<Rightarrow> bool" where
  "classOK classify n m \<longleftrightarrow> 0 \<le> classify m \<and> classify m < int n"

definition QoS_line :: "nat \<Rightarrow> 'm list list \<Rightarrow> 'm list" where
  "QoS_line k queues = (if k < length queues then queues ! k else [])"

text \<open>Every packet waits in the queue of its class.\<close>

definition QoS_inv :: "('m \<Rightarrow> int) \<Rightarrow> nat \<Rightarrow> 'm list list \<Rightarrow> bool" where
  "QoS_inv classify n queues \<longleftrightarrow> length queues = n \<and> (\<forall>i < n. \<forall>m \<in> set (queues ! i). classify m = int i)"

lemma QoS_inv_upd:
  assumes "QoS_inv classify n queues" "i < length queues" "\<And>m. m \<in> set q \<Longrightarrow> classify m = int i"
  shows "QoS_inv classify n (queues[i := q])"
  unfolding QoS_inv_def
proof (intro conjI allI impI ballI)
  show "length (queues[i := q]) = n" using assms(1) by (simp add: QoS_inv_def)
next
  fix j m assume "j < n" "m \<in> set (queues[i := q] ! j)"
  then show "classify m = int j" using assms by (cases "j = i") (auto simp: QoS_inv_def)
qed

text \<open>What the loop of \<^verbatim>\<open>dequeue()\<close> finds: the first queue that is not empty.\<close>

lemma QoS_dequeue_cases:
  "(QoS_dequeue queues = (None, queues) \<and> (\<forall>q \<in> set queues. q = [])) \<or>
   (\<exists>i m q. i < length queues \<and> queues ! i = m # q \<and> (\<forall>j < i. queues ! j = []) \<and>
      QoS_dequeue queues = (Some m, queues[i := q]))"
proof (induction queues rule: QoS_dequeue.induct)
  case (2 m q queues)
  have "0 < length ((m # q) # queues) \<and> ((m # q) # queues) ! 0 = m # q \<and> (\<forall>j < 0. ((m # q) # queues) ! j = []) \<and>
      QoS_dequeue ((m # q) # queues) = (Some m, ((m # q) # queues)[0 := q])" by simp
  then show ?case by blast
next
  case (3 queues)
  then show ?case
  proof (elim disjE exE conjE)
    fix i m q
    assume "i < length queues" "queues ! i = m # q" "\<forall>j < i. queues ! j = []" "QoS_dequeue queues = (Some m, queues[i := q])"
    then have "Suc i < length ([] # queues) \<and> ([] # queues) ! Suc i = m # q \<and> (\<forall>j < Suc i. ([] # queues) ! j = []) \<and>
        QoS_dequeue ([] # queues) = (Some m, ([] # queues)[Suc i := q])"
      by (auto simp: less_Suc_eq_0_disj)
    then show ?thesis by blast
  qed simp
qed simp

interpretation qos: packet_store "QoS_inv classify n" "classOK classify n" "\<lambda>m. nat (classify m)" "QoS_enqueue classify c" QoS_dequeue QoS_line
  for classify :: "'m \<Rightarrow> int" and n :: nat and c :: int
proof (unfold_locales, goal_cases)
  case (1 queues m)
  let ?i = "nat (classify m)"
  have i: "?i < length queues" "0 \<le> classify m" using 1 by (auto simp: classOK_def QoS_inv_def)
  show ?case
  proof (cases "full c (queues ! ?i)")
    case True
    then show ?thesis using 1(1) i by (auto simp: QoS_enqueue_def)
  next
    case False
    have "QoS_inv classify n (queues[?i := queues ! ?i @ [m]])"
    proof (rule QoS_inv_upd [OF 1(1) i(1)])
      fix x assume "x \<in> set (queues ! ?i @ [m])"
      moreover have "classify x = int ?i" if "x \<in> set (queues ! ?i)" using 1(1) i(1) that unfolding QoS_inv_def by blast
      moreover have "classify m = int ?i" using i(2) by simp
      ultimately show "classify x = int ?i" by auto
    qed
    moreover have "QoS_enqueue classify c m queues = Inr (False, queues[?i := queues ! ?i @ [m]])"
      using False i by (simp add: QoS_enqueue_def Let_def)
    moreover have "QoS_line k (queues[?i := queues ! ?i @ [m]]) = (if ?i = k then QoS_line k queues @ [m] else QoS_line k queues)" for k
      using i(1) by (cases "k = ?i") (simp_all add: QoS_line_def)
    ultimately show ?thesis
      by (intro exI [of _ False] exI [of _ "queues[?i := queues ! ?i @ [m]]"]) simp
  qed
next
  case (2 s s' k)
  then show ?case using QoS_dequeue_cases [of s] by (auto simp: QoS_line_def)
next
  case (3 s m s' k)
  then obtain i q where i: "i < length s" "s ! i = m # q" "s' = s[i := q]" using QoS_dequeue_cases [of s] by auto
  with 3(1) have "nat (classify m) = i" by (auto simp: QoS_inv_def)
  moreover have "QoS_inv classify n s'" unfolding i(3)
    using 3(1) i(1) by (rule QoS_inv_upd) (metis 3(1) QoS_inv_def i(1,2) list.set_intros(2))
  moreover have "QoS_line k s = (if i = k then m # QoS_line k s' else QoS_line k s')"
    using i by (cases "k = i") (simp_all add: QoS_line_def)
  ultimately show ?case by simp
qed

text \<open>C39: An output queue with drop tail and priority classes never fails for a classifier that gives valid classes;
  packets of one class leave in the order in which they arrived, those not yet sent being in the queue of the class;
  every request is either answered by a packet or still waits, and while one waits the queue is empty.\<close>

theorem qos_queue_fifo_per_class:
  assumes "\<forall>m. Arrives m \<in> set es \<longrightarrow> 0 \<le> classify m \<and> classify m < int n"
  shows "\<exists>ms q. queueRun (QoS_enqueue classify c) QoS_dequeue es (PassiveQueue_initialize (QoS_initialize n)) = Inr (ms, q) \<and>
    (\<forall>k < n. filter (\<lambda>m. classify m = int k) ms = filter (\<lambda>m. classify m = int k) (pqSent q) @ pqStore q ! k) \<and>
    int (length (pqSent q)) + packetRequested q = int (numRequests es) \<and> 0 \<le> packetRequested q \<and>
    (0 < packetRequested q \<longrightarrow> (\<forall>k < n. pqStore q ! k = []))"
proof -
  let ?q0 = "PassiveQueue_initialize (QoS_initialize n) :: ('a list list, 'a) PassiveQueue"
  have i: "qos.queueInv classify n ?q0"
    by (simp add: qos.queueInv_def PassiveQueue_initialize_def QoS_initialize_def QoS_inv_def)
  have ok: "\<forall>e \<in> set es. qos.okEvent classify n e"
    using assms by (auto simp: qos.okEvent_def classOK_def split: QueueEvent.split)
  obtain ms q where q: "queueRun (QoS_enqueue classify c) QoS_dequeue es ?q0 = Inr (ms, q)" "qos.queueInv classify n q"
    "int (length (pqSent q)) + packetRequested q = int (length (pqSent ?q0)) + packetRequested ?q0 + int (numRequests es)"
    "\<And>k. qos.flow classify k q = qos.flow classify k ?q0 @ filter (\<lambda>m. nat (classify m) = k) ms"
    using qos.run [OF i ok, of c] by auto
  have nn: "0 \<le> classify m" if "m \<in> set ms" for m using queueRun_arrived [OF q(1)] that assms by blast
  have store: "length (pqStore q) = n" using q(2) by (simp add: qos.queueInv_def QoS_inv_def)
  have f: "filter (\<lambda>m. nat (classify m) = k) ms = filter (\<lambda>m. nat (classify m) = k) (pqSent q) @ QoS_line k (pqStore q)" for k
    using q(4) [of k] by (simp add: qos.flow_def PassiveQueue_initialize_def QoS_initialize_def QoS_line_def)
  have ns: "0 \<le> classify m" if "m \<in> set (pqSent q)" for m
    using that nn arg_cong [OF f [of "nat (classify m)"], of set] by auto
  have "filter (\<lambda>m. classify m = int k) ms = filter (\<lambda>m. classify m = int k) (pqSent q) @ pqStore q ! k" if "k < n" for k
  proof -
    have "filter (\<lambda>m. classify m = int k) ys = filter (\<lambda>m. nat (classify m) = k) ys" if "\<And>m. m \<in> set ys \<Longrightarrow> 0 \<le> classify m" for ys
      using that by (intro filter_cong) auto
    with nn ns f [of k] that show ?thesis by (simp add: QoS_line_def store)
  qed
  moreover have "pqStore q ! k = []" if "0 < packetRequested q" "k < n" for k
    using q(2) that store unfolding qos.queueInv_def QoS_line_def by metis
  moreover have "0 \<le> packetRequested q" using q(2) by (simp add: qos.queueInv_def)
  ultimately show ?thesis using q(1,3) by (auto simp: PassiveQueue_initialize_def)
qed

text \<open>A queue with priority classes gives out a packet of a class only when all higher classes are empty, and gives
  nothing only when all are.\<close>

theorem qos_dequeue_priority:
  assumes "QoS_inv classify n queues" "QoS_dequeue queues = (mo, queues')"
  shows "case mo of
      None \<Rightarrow> queues' = queues \<and> (\<forall>k < n. queues ! k = [])
    | Some m \<Rightarrow> 0 \<le> classify m \<and> classify m < int n \<and> (\<forall>j < nat (classify m). queues ! j = []) \<and>
        queues ! nat (classify m) = m # queues' ! nat (classify m) \<and> QoS_inv classify n queues'"
proof (cases mo)
  case None
  then show ?thesis using assms QoS_dequeue_cases [of queues] by (auto simp: QoS_inv_def)
next
  case (Some m)
  then obtain i q where i: "i < length queues" "queues ! i = m # q" "\<forall>j < i. queues ! j = []" "queues' = queues[i := q]"
    using assms(2) QoS_dequeue_cases [of queues] by auto
  with assms(1) have "classify m = int i" by (auto simp: QoS_inv_def)
  moreover have "QoS_inv classify n queues'" unfolding i(4)
    using assms(1) i(1) by (rule QoS_inv_upd) (metis assms(1) QoS_inv_def i(1,2) list.set_intros(2))
  ultimately show ?thesis using i assms(1) Some by (auto simp: QoS_inv_def)
qed

section \<open>The classifier\<close>

text \<open>The classifier gives the higher class exactly to the standardised code points (even ones) of the upper half of the
  range, those with precedence 4 and more; the bits above the six of the code point do not matter.\<close>

theorem dscp_class:
  "classifyByDSCP dscp = (if even dscp \<and> 32 \<le> dscp mod 64 then 0 else 1)"
proof -
  have table: "\<forall>x \<in> set [0..63]. classifyByDSCP x = (if even x \<and> 32 \<le> x then 0 else 1)"
    by code_simp
  have mask: "and dscp 0x3f = dscp mod 64" for dscp :: int
    using take_bit_eq_mask [of 6 dscp] by (simp add: take_bit_eq_mod mask_numeral)
  have "dscp mod 64 \<in> set [0..63]" using pos_mod_bound [of 64 dscp] pos_mod_sign [of 64 dscp] by (simp del: pos_mod_bound pos_mod_sign)
  with table have "classifyByDSCP (dscp mod 64) = (if even (dscp mod 64) \<and> 32 \<le> dscp mod 64 then 0 else 1)" by blast
  moreover have "classifyByDSCP (dscp mod 64) = classifyByDSCP dscp"
    by (simp add: classifyByDSCP_def mask)
  moreover have "even (dscp mod 64) = even dscp" by (metis dvd_mod_iff even_numeral)
  ultimately show ?thesis by simp
qed

definition exArrivals :: "int QueueEvent list" where
  "exArrivals = [Requested, Arrives 0, Arrives 8, Arrives 40, Arrives 46, Requested, Requested]"

theorem qos_queue_fifo_per_class_witness:
  "\<exists>ms q. queueRun (QoS_enqueue classifyByDSCP 5) QoS_dequeue exArrivals (PassiveQueue_initialize (QoS_initialize 2)) = Inr (ms, q) \<and>
    (\<forall>k < 2. filter (\<lambda>m. classifyByDSCP m = int k) ms = filter (\<lambda>m. classifyByDSCP m = int k) (pqSent q) @ pqStore q ! k) \<and>
    int (length (pqSent q)) + packetRequested q = int (numRequests exArrivals) \<and> 0 \<le> packetRequested q \<and>
    (0 < packetRequested q \<longrightarrow> (\<forall>k < 2. pqStore q ! k = []))"
proof (rule qos_queue_fifo_per_class)
  have "list_all (\<lambda>e. case e of Requested \<Rightarrow> True | Arrives m \<Rightarrow> 0 \<le> classifyByDSCP m \<and> classifyByDSCP m < int 2) exArrivals"
    by code_simp
  then show "\<forall>m. Arrives m \<in> set exArrivals \<longrightarrow> 0 \<le> classifyByDSCP m \<and> classifyByDSCP m < int 2"
    by (auto simp: list_all_iff split: QueueEvent.splits)
qed

definition exQueues :: "int list list" where
  "exQueues = [[40, 46], [8]]"

theorem qos_dequeue_priority_witness:
  "case Some 40 of
      None \<Rightarrow> [[46], [8]] = exQueues \<and> (\<forall>k < 2. exQueues ! k = [])
    | Some m \<Rightarrow> 0 \<le> classifyByDSCP m \<and> classifyByDSCP m < int 2 \<and> (\<forall>j < nat (classifyByDSCP m). exQueues ! j = []) \<and>
        exQueues ! nat (classifyByDSCP m) = m # [[46], [8]] ! nat (classifyByDSCP m) \<and> QoS_inv classifyByDSCP 2 [[46], [8]]"
proof (rule qos_dequeue_priority)
  have "classifyByDSCP 40 = 0 \<and> classifyByDSCP 46 = 0 \<and> classifyByDSCP 8 = 1" by code_simp
  then show "QoS_inv classifyByDSCP 2 exQueues"
    by (auto simp: QoS_inv_def exQueues_def less_Suc_eq numeral_2_eq_2)
  show "QoS_dequeue exQueues = (Some 40, [[46], [8]])" by (simp add: exQueues_def)
qed

end
