(* ===== verification/PPP_Props.thy ===== *)
theory PPP_Props imports PPP_Module Queue_Props
begin

text \<open>
  The PPP interface with its queue is a link: what it was given leaves in order, one frame after the other, and the
  line is not idle while a packet waits.
\<close>

definition physOuts :: "PPPOutput list \<Rightarrow> (PPPFrame \<times> simtime) list" where
  "physOuts outs = List.map_filter (\<lambda>out. case out of PhysOut f t \<Rightarrow> Some (f, t) | _ \<Rightarrow> None) outs"

lemma physOuts_simps [simp]:
  "physOuts [] = []" "physOuts (xs @ ys) = physOuts xs @ physOuts ys" "physOuts [PhysOut f t] = [(f, t)]"
  "physOuts [NetwOut m] = []" "physOuts [CallRequestPacket] = []"
  by (simp_all add: physOuts_def map_filter_def)

definition transmissions :: "Link \<Rightarrow> (PPPFrame \<times> simtime) list" where
  "transmissions l = physOuts (pppOut (lkPPP l))"

definition linkInv :: "(PPPFrame \<Rightarrow> simtime \<Rightarrow> simtime) \<Rightarrow> Link \<Rightarrow> bool" where
  "linkInv finish l \<longleftrightarrow> pppConnected (lkPPP l) \<and> hasQueueModule (lkPPP l) \<and> txQueue (lkPPP l) = [] \<and>
     0 \<le> packetRequested (lkQueue l) \<and> (0 < packetRequested (lkQueue l) \<longrightarrow> pqStore (lkQueue l) = []) \<and>
     (if endTransmissionEvent (lkPPP l) = None then 0 else 1) + int (length (transit l)) + packetRequested (lkQueue l) = 1 \<and>
     pqSent (lkQueue l) = map (pppPayload \<circ> fst) (transmissions l) @ transit l \<and>
     sorted_wrt (\<lambda>(f, s) (f', s'). finish f s \<le> s') (transmissions l) \<and>
     (\<forall>(f, s) \<in> set (transmissions l). finish f s \<le> (case endTransmissionEvent (lkPPP l) of None \<Rightarrow> clock l | Some t \<Rightarrow> t)) \<and>
     (case endTransmissionEvent (lkPPP l) of None \<Rightarrow> True | Some t \<Rightarrow> clock l \<le> t)"

lemma linkInv_initial: "linkInv finish (Link_initialize limit True)"
  by (simp add: linkInv_def Link_initialize_def afterPPP_def afterQueue_def PPP_initialize_def emit_def Let_def
      PassiveQueue_requestPacket_def PassiveQueue_initialize_def transmissions_def)

lemma linkInvD:
  assumes "linkInv finish l"
  shows "pppConnected (lkPPP l)" "hasQueueModule (lkPPP l)" "txQueue (lkPPP l) = []" "0 \<le> packetRequested (lkQueue l)"
    "0 < packetRequested (lkQueue l) \<Longrightarrow> pqStore (lkQueue l) = []"
    "(if endTransmissionEvent (lkPPP l) = None then 0 else 1) + int (length (transit l)) + packetRequested (lkQueue l) = 1"
    "pqSent (lkQueue l) = map (pppPayload \<circ> fst) (transmissions l) @ transit l"
    "sorted_wrt (\<lambda>(f, s) (f', s'). finish f s \<le> s') (transmissions l)"
    "\<forall>(f, s) \<in> set (transmissions l). finish f s \<le> (case endTransmissionEvent (lkPPP l) of None \<Rightarrow> clock l | Some t \<Rightarrow> t)"
  using assms unfolding linkInv_def by simp_all

text \<open>Either a request waits in the queue, or a packet is on its way to PPP, or PPP transmits.\<close>

lemma one_busy:
  assumes "linkInv finish l"
  shows "(packetRequested (lkQueue l) = 1 \<and> transit l = [] \<and> endTransmissionEvent (lkPPP l) = None) \<or>
    (packetRequested (lkQueue l) = 0 \<and> length (transit l) = 1 \<and> endTransmissionEvent (lkPPP l) = None) \<or>
    (packetRequested (lkQueue l) = 0 \<and> transit l = [] \<and> endTransmissionEvent (lkPPP l) \<noteq> None)"
proof -
  have eq: "a + b = 1 \<Longrightarrow> 0 \<le> a \<Longrightarrow> 0 \<le> b \<Longrightarrow> a = 0 \<and> b = 1 \<or> a = 1 \<and> b = 0" for a b :: int by linarith
  show ?thesis
  proof (cases "endTransmissionEvent (lkPPP l)")
    case None
    then have "int (length (transit l)) + packetRequested (lkQueue l) = 1" using linkInvD(6) [OF assms] by simp
    from eq [OF this _ linkInvD(4) [OF assms]] None show ?thesis by auto
  next
    case Some
    then have "int (length (transit l)) + packetRequested (lkQueue l) = 0" using linkInvD(6) [OF assms] by simp
    moreover from this linkInvD(4) [OF assms] have "int (length (transit l)) \<le> 0" by linarith
    ultimately show ?thesis using Some by simp
  qed
qed

lemma tick:
  "linkInv finish l \<Longrightarrow> clock l \<le> now \<Longrightarrow>
   (case endTransmissionEvent (lkPPP l) of None \<Rightarrow> True | Some t \<Rightarrow> now \<le> t) \<Longrightarrow> linkInv finish (l\<lparr>clock := now\<rparr>)"
  unfolding linkInv_def transmissions_def by (auto split: option.splits)

lemma arrive_inv:
  assumes "linkInv finish l"
  shows "\<exists>q. PassiveQueue_handleMessage (DropTail_enqueue c) m (lkQueue l) = Inr q \<and> linkInv finish (afterQueue q l) \<and>
    pqSent q @ pqStore q = pqSent (lkQueue l) @ pqStore (lkQueue l) @
      (if numQueueDropped q = numQueueDropped (lkQueue l) then [m] else [])"
proof (cases "0 < packetRequested (lkQueue l)")
  case True
  from one_busy [OF assms] True have "packetRequested (lkQueue l) = 1" "transit l = []" "endTransmissionEvent (lkPPP l) = None"
    by auto
  with True linkInvD [OF assms] show ?thesis
    by (simp add: PassiveQueue_handleMessage_def sendOut_def linkInv_def afterQueue_def transmissions_def)
next
  case False
  define q where "q = (if full c (pqStore (lkQueue l))
    then (lkQueue l)\<lparr>numQueueReceived := numQueueReceived (lkQueue l) + 1, numQueueDropped := numQueueDropped (lkQueue l) + 1\<rparr>
    else (lkQueue l)\<lparr>numQueueReceived := numQueueReceived (lkQueue l) + 1, pqStore := pqStore (lkQueue l) @ [m]\<rparr>)"
  have q: "packetRequested q = packetRequested (lkQueue l)" "pqSent q = pqSent (lkQueue l)"
    "pqStore q = pqStore (lkQueue l) @ (if numQueueDropped q = numQueueDropped (lkQueue l) then [m] else [])"
    by (simp_all add: q_def)
  have "PassiveQueue_handleMessage (DropTail_enqueue c) m (lkQueue l) = Inr q"
    using False by (cases "lkQueue l") (simp add: PassiveQueue_handleMessage_def DropTail_enqueue_def q_def)
  moreover have "linkInv finish (afterQueue q l)"
    using assms False q
    by (cases "endTransmissionEvent (lkPPP l)") (auto simp: linkInv_def afterQueue_def transmissions_def)
  ultimately show ?thesis using q by simp
qed

lemma request_inv:
  assumes "linkInv finish (l\<lparr>lkPPP := p\<lparr>endTransmissionEvent := Some t\<rparr>, clock := t\<rparr>)"
  defines "l' \<equiv> afterQueue (PassiveQueue_requestPacket DropTail_dequeue (lkQueue l))
      (l\<lparr>clock := t, lkPPP := p\<lparr>endTransmissionEvent := None, pppOut := pppOut p @ [CallRequestPacket]\<rparr>\<rparr>)"
  shows "linkInv finish l'" "pqSent (lkQueue l') @ pqStore (lkQueue l') = pqSent (lkQueue l) @ pqStore (lkQueue l)"
proof -
  have "linkInv finish l' \<and> pqSent (lkQueue l') @ pqStore (lkQueue l') = pqSent (lkQueue l) @ pqStore (lkQueue l)"
    using assms(1) unfolding l'_def
    by (cases "pqStore (lkQueue l)")
      (auto simp: linkInv_def afterQueue_def PassiveQueue_requestPacket_def sendOut_def transmissions_def)
  then show "linkInv finish l'" "pqSent (lkQueue l') @ pqStore (lkQueue l') = pqSent (lkQueue l) @ pqStore (lkQueue l)"
    by auto
qed

lemma linkStep_inv:
  assumes "linkInv finish l" "linkEnabled e now l" and fin: "\<And>f t. t \<le> finish f t"
  shows "\<exists>l'. linkStep finish c e now l = Inr l' \<and> linkInv finish l' \<and>
    pqSent (lkQueue l') @ pqStore (lkQueue l') = pqSent (lkQueue l) @ pqStore (lkQueue l) @
      (case e of LkArrive m \<Rightarrow> if numQueueDropped (lkQueue l') = numQueueDropped (lkQueue l) then [m] else [] | _ \<Rightarrow> [])"
proof -
  have now: "clock l \<le> now" "case endTransmissionEvent (lkPPP l) of None \<Rightarrow> True | Some t \<Rightarrow> now \<le> t"
    using assms(2) by (auto simp: linkEnabled_def split: option.splits)
  note inv = tick [OF assms(1) now]
  note I = linkInvD [OF assms(1)]
  show ?thesis
  proof (cases e)
    case (LkArrive m)
    then show ?thesis using arrive_inv [OF inv, of c m] by (auto simp: afterQueue_def)
  next
    case LkDeliver
    then obtain m ms where tr: "transit l = m # ms" using assms(2) by (cases "transit l") (auto simp: linkEnabled_def)
    from one_busy [OF assms(1)] tr have m: "ms = []" "packetRequested (lkQueue l) = 0" "endTransmissionEvent (lkPPP l) = None"
      by auto
    let ?f = "ppp_encapsulate m"
    let ?p = "(emit (PhysOut ?f now) (lkPPP l))\<lparr>endTransmissionEvent := Some (finish ?f now), numSentPPP := numSentPPP (lkPPP l) + 1\<rparr>"
    have "linkStep finish c e now l = Inr (l\<lparr>lkPPP := ?p, transit := [], clock := now\<rparr>)"
      using LkDeliver tr m I(1) fin [of now ?f]
      by (simp add: startTransmitting_def kernel_checks countSent_def Let_def afterPPP_def emit_def)
    moreover have "\<forall>(f, s) \<in> set (transmissions l). finish f s \<le> now" using I(9) m(3) now(1) by auto
    then have "linkInv finish (l\<lparr>lkPPP := ?p, transit := [], clock := now\<rparr>)"
      using I m tr fin [of now ?f]
      by (auto simp: linkInv_def transmissions_def emit_def sorted_wrt_append ppp_encapsulate_def intro: order_trans)
    ultimately show ?thesis using LkDeliver by simp
  next
    case LkEndTransmission
    then have t: "endTransmissionEvent (lkPPP l) = Some now" using assms(2) by (auto simp: linkEnabled_def split: option.splits)
    have "l\<lparr>lkPPP := (lkPPP l)\<lparr>endTransmissionEvent := Some now\<rparr>, clock := now\<rparr> = l\<lparr>clock := now\<rparr>"
      using t by (cases l, cases "lkPPP l") simp
    with inv have "linkInv finish (l\<lparr>lkPPP := (lkPPP l)\<lparr>endTransmissionEvent := Some now\<rparr>, clock := now\<rparr>)" by simp
    from request_inv [OF this] show ?thesis using LkEndTransmission I(1-3)
      by (simp add: afterPPP_def emit_def afterQueue_def)
  next
    case (LkReceive f b)
    define p where "p = (if b then (lkPPP l)\<lparr>numBitErr := numBitErr (lkPPP l) + 1\<rparr>
      else emit (NetwOut (ppp_decapsulate f)) ((lkPPP l)\<lparr>numRcvdOK := numRcvdOK (lkPPP l) + 1\<rparr>))"
    have "linkStep finish c e now l = Inr (l\<lparr>lkPPP := p, clock := now\<rparr>)"
      using LkReceive I(1) by (simp add: p_def afterPPP_def emit_def)
    moreover have "linkInv finish (l\<lparr>lkPPP := p, clock := now\<rparr>)"
      using inv by (cases "endTransmissionEvent (lkPPP l)"; cases b) (simp_all add: p_def linkInv_def transmissions_def emit_def)
    ultimately show ?thesis using LkReceive by simp
  qed
qed

lemma linkRun_inv:
  assumes "linkInv finish l" "linkRun finish c es l = Some r" and fin: "\<And>f t. t \<le> finish f t"
  shows "\<exists>ms l'. r = Inr (ms, l') \<and> linkInv finish l' \<and>
    pqSent (lkQueue l') @ pqStore (lkQueue l') = pqSent (lkQueue l) @ pqStore (lkQueue l) @ ms"
  using assms(1,2)
proof (induction es arbitrary: l r)
  case (Cons x es)
  obtain e t where x: "x = (e, t)" by (cases x)
  have en: "linkEnabled e t l" using Cons.prems(2) by (simp add: x split: if_splits)
  obtain l1 where l1: "linkStep finish c e t l = Inr l1" "linkInv finish l1"
    "pqSent (lkQueue l1) @ pqStore (lkQueue l1) = pqSent (lkQueue l) @ pqStore (lkQueue l) @
      (case e of LkArrive m \<Rightarrow> if numQueueDropped (lkQueue l1) = numQueueDropped (lkQueue l) then [m] else [] | _ \<Rightarrow> [])"
    using linkStep_inv [OF Cons.prems(1) en fin] by blast
  obtain r1 where r1: "linkRun finish c es l1 = Some r1" using Cons.prems(2) en l1(1) by (auto simp: x)
  obtain ms l2 where "r1 = Inr (ms, l2)" "linkInv finish l2"
    "pqSent (lkQueue l2) @ pqStore (lkQueue l2) = pqSent (lkQueue l1) @ pqStore (lkQueue l1) @ ms"
    using Cons.IH [OF l1(2) r1] by blast
  with Cons.prems(2) en l1 r1 show ?case by (auto simp: x)
qed auto

text \<open>C40: A PPP interface fed by a drop tail queue, on a connected line: no event stops it; the frames that were sent, the packet
  on its way from the queue to PPP and the queue are together the packets the queue accepted, in their order; the
  transmissions do not overlap; PPP's own queue is never needed; and while a packet waits in the queue the line is
  busy or the next packet is on its way.\<close>

theorem ppp_link_in_order:
  assumes "\<And>f t. t \<le> finish f t" "linkRun finish c es (Link_initialize limit True) = Some r"
  shows "\<exists>ms l. r = Inr (ms, l) \<and>
    map (pppPayload \<circ> fst) (transmissions l) @ transit l @ pqStore (lkQueue l) = ms \<and>
    sorted_wrt (\<lambda>(f, s) (f', s'). finish f s \<le> s') (transmissions l) \<and> txQueue (lkPPP l) = [] \<and>
    (pqStore (lkQueue l) \<noteq> [] \<longrightarrow> endTransmissionEvent (lkPPP l) \<noteq> None \<or> transit l \<noteq> [])"
proof -
  obtain ms l where l: "r = Inr (ms, l)" "linkInv finish l"
    "pqSent (lkQueue l) @ pqStore (lkQueue l) =
       pqSent (lkQueue (Link_initialize limit True)) @ pqStore (lkQueue (Link_initialize limit True)) @ ms"
    using linkRun_inv [OF linkInv_initial assms(2,1)] by blast
  have "pqSent (lkQueue (Link_initialize limit True)) = []" "pqStore (lkQueue (Link_initialize limit True)) = []"
    by (simp_all add: Link_initialize_def afterPPP_def afterQueue_def PPP_initialize_def emit_def Let_def
      PassiveQueue_requestPacket_def PassiveQueue_initialize_def)
  moreover have "pqStore (lkQueue l) \<noteq> [] \<longrightarrow> endTransmissionEvent (lkPPP l) \<noteq> None \<or> transit l \<noteq> []"
    using linkInvD(4-6) [OF l(2)] by force
  ultimately show ?thesis using l linkInvD(3,7,8) [OF l(2)]
    by (intro exI [of _ ms] exI [of _ l]) simp
qed

definition exPacket :: "int \<Rightarrow> Packet" where
  "exPacket k = TransportPacket ''data'' k"

definition exLinkEvents :: "(LinkEvent \<times> simtime) list" where
  "exLinkEvents = [(LkArrive (exPacket 1), 1), (LkDeliver, 1), (LkArrive (exPacket 2), 2), (LkArrive (exPacket 3), 2),
     (LkArrive (exPacket 4), 3), (LkEndTransmission, 9), (LkDeliver, 9)]"

definition exFinish :: "PPPFrame \<Rightarrow> simtime \<Rightarrow> simtime" where
  "exFinish f t = t + (if 0 \<le> pppByteLength f then of_int (pppByteLength f) else 0)"

theorem ppp_link_in_order_witness:
  "\<exists>r. linkRun exFinish 2 exLinkEvents (Link_initialize 0 True) = Some r \<and> (\<exists>ms l. r = Inr (ms, l) \<and>
    map (pppPayload \<circ> fst) (transmissions l) @ transit l @ pqStore (lkQueue l) = ms \<and>
    sorted_wrt (\<lambda>(f, s) (f', s'). exFinish f s \<le> s') (transmissions l) \<and> txQueue (lkPPP l) = [] \<and>
    (pqStore (lkQueue l) \<noteq> [] \<longrightarrow> endTransmissionEvent (lkPPP l) \<noteq> None \<or> transit l \<noteq> []))"
proof -
  have "linkRun exFinish 2 exLinkEvents (Link_initialize 0 True) \<noteq> None" by code_simp
  then obtain r where r: "linkRun exFinish 2 exLinkEvents (Link_initialize 0 True) = Some r" by blast
  have "t \<le> exFinish f t" for f t by (simp add: exFinish_def)
  from ppp_link_in_order [OF this r] r show ?thesis by blast
qed

end
