(* ===== verification/Service_Queue.thy ===== *)
theory Service_Queue imports IP_Packets Sim_Kernel
begin

text \<open>
  The queue in front of the IP modules: \<^verbatim>\<open>src/src/base/AbstractQueue.cc\<close>, a server with one message at a time, with the
  arrivals of \<^verbatim>\<open>QueueBase.cc\<close>, which put the datagrams of some protocols into a queue of their own, served by a
  timer of its own. \<^verbatim>\<open>endService()\<close> is the method that the IP module supplies; here the messages it is called for
  are listed.
\<close>

record ServiceQueue =
  msgServiced :: "Packet option"
  endServiceMsg :: "simtime option"
  probe_endServiceMsg :: "simtime option"
  serviceTime :: simtime
  svQueue :: "Packet list"
  pqueue :: "Packet list"
  procDelay :: simtime
  served :: "Packet list"

text \<open>The member \<^verbatim>\<open>serviceTime\<close> has no value before the first message; the code writes it before it reads it.\<close>

definition ServiceQueue_initialize :: "simtime \<Rightarrow> ServiceQueue" where
  "ServiceQueue_initialize d = \<lparr>msgServiced = None, endServiceMsg = None, probe_endServiceMsg = None, serviceTime = 0,
     svQueue = [], pqueue = [], procDelay = d, served = []\<rparr>"

definition callEndService :: "Packet \<Rightarrow> ServiceQueue \<Rightarrow> ServiceQueue" where
  "callEndService m s = s\<lparr>served := served s @ [m]\<rparr>"

section \<open>QueueBase\<close>

text \<open>Both arrival methods test in the same way whether a message goes to the second queue.\<close>

fun getEncapsulatedMsg :: "Packet \<Rightarrow> Packet option" where
  "getEncapsulatedMsg (TransportPacket n l) = None"
| "getEncapsulatedMsg (UDPDatagram n sp dp l e) = e"
| "getEncapsulatedMsg (ICMPPacket n t c l e) = e"
| "getEncapsulatedMsg (DatagramPacket n h l e) = e"

definition forPQueue :: "Packet \<Rightarrow> bool res" where
  "forPQueue msg = (case getEncapsulatedMsg msg of
     None \<Rightarrow> Inr False
   | Some _ \<Rightarrow> andThen (castDatagram (Some msg)) (\<lambda>ipd.
       Inr (transportProtocol ipd = 1 \<or> transportProtocol ipd = 46 \<or> transportProtocol ipd = 2)))"

definition arrival :: "Packet \<Rightarrow> ServiceQueue \<Rightarrow> ServiceQueue res" where
  "arrival msg s = andThen (forPQueue msg) (\<lambda>p.
     Inr (if p then s\<lparr>pqueue := pqueue s @ [msg]\<rparr> else s\<lparr>svQueue := svQueue s @ [msg]\<rparr>))"

definition arrivalWhenIdle :: "Packet \<Rightarrow> ServiceQueue \<Rightarrow> (Packet option \<times> ServiceQueue) res" where
  "arrivalWhenIdle msg s = andThen (forPQueue msg) (\<lambda>p.
     Inr (if p then (None, s\<lparr>pqueue := pqueue s @ [msg]\<rparr>) else (Some msg, s)))"

definition startService :: "Packet \<Rightarrow> ServiceQueue \<Rightarrow> simtime" where
  "startService msg s = procDelay s"

section \<open>AbstractQueue\<close>

text \<open>
  \<^verbatim>\<open>doStartService()\<close> and \<^verbatim>\<open>doEndService()\<close> call each other. Both start a service in the same way, \<open>started\<close> and
  \<open>scheduleEnd\<close>; the recursion is that of \<open>doEndService\<close>, with the call of \<^verbatim>\<open>doStartService()\<close> written out.
\<close>

definition started :: "Packet \<Rightarrow> ServiceQueue \<Rightarrow> ServiceQueue" where
  "started m s = s\<lparr>msgServiced := Some m, serviceTime := startService m s\<rparr>"

definition scheduleEnd :: "simtime \<Rightarrow> ServiceQueue \<Rightarrow> ServiceQueue res" where
  "scheduleEnd now s = notScheduled (endServiceMsg s) (notInPast now (now + serviceTime s)
     (Inr (s\<lparr>endServiceMsg := Some (now + serviceTime s)\<rparr>)))"

function doEndService :: "simtime \<Rightarrow> Packet \<Rightarrow> ServiceQueue \<Rightarrow> ServiceQueue res" where
  "doEndService now m s =
     (let s = callEndService m s
      in case svQueue s of
           [] \<Rightarrow> Inr (s\<lparr>msgServiced := None\<rparr>)
         | m' # q \<Rightarrow>
             let s = started m' (s\<lparr>svQueue := q\<rparr>)
             in if serviceTime s \<noteq> 0 then scheduleEnd now s else doEndService now m' s)"
  by pat_completeness auto
termination
  by (relation "measure (\<lambda>(now, m, s). length (svQueue s))") (auto simp: callEndService_def started_def)

definition doStartService :: "simtime \<Rightarrow> Packet \<Rightarrow> ServiceQueue \<Rightarrow> ServiceQueue res" where
  "doStartService now m s =
     (let s = started m s in if serviceTime s \<noteq> 0 then scheduleEnd now s else doEndService now m s)"

definition doProbeEndService :: "simtime \<Rightarrow> ServiceQueue \<Rightarrow> ServiceQueue res" where
  "doProbeEndService now s = (case pqueue s of
     [] \<Rightarrow> Inr s
   | m # q \<Rightarrow>
       let s = callEndService m (s\<lparr>pqueue := q\<rparr>)
       in if probe_endServiceMsg s = None
          then notInPast now (now + serviceTime s / 10) (Inr (s\<lparr>probe_endServiceMsg := Some (now + serviceTime s / 10)\<rparr>))
          else Inr s)"

definition scheduleProbe :: "simtime \<Rightarrow> Packet \<Rightarrow> ServiceQueue \<Rightarrow> ServiceQueue res" where
  "scheduleProbe now msg s =
     (if probe_endServiceMsg s = None then
        let s = s\<lparr>serviceTime := startService msg s\<rparr>
        in notInPast now (now + serviceTime s / 10) (Inr (s\<lparr>probe_endServiceMsg := Some (now + serviceTime s / 10)\<rparr>))
      else Inr s)"

datatype ServiceEvent = EndService | ProbeEndService | ServiceArrival Packet

text \<open>A null pointer is no message that the IP module could serve.\<close>

fun ServiceQueue_handleMessage :: "ServiceEvent \<Rightarrow> simtime \<Rightarrow> ServiceQueue \<Rightarrow> ServiceQueue res" where
  "ServiceQueue_handleMessage EndService now s =
     (let s = s\<lparr>endServiceMsg := None\<rparr>
      in case msgServiced s of None \<Rightarrow> Inl (NullPointer ''msgServiced'') | Some m \<Rightarrow> doEndService now m s)"
| "ServiceQueue_handleMessage ProbeEndService now s = doProbeEndService now (s\<lparr>probe_endServiceMsg := None\<rparr>)"
| "ServiceQueue_handleMessage (ServiceArrival msg) now s =
     (case msgServiced s of
        None \<Rightarrow> andThen (arrivalWhenIdle msg s) (\<lambda>(msg2, s).
          andThen (case msg2 of None \<Rightarrow> Inr s | Some m \<Rightarrow> doStartService now m s) (scheduleProbe now msg))
      | Some _ \<Rightarrow> andThen (arrival msg s) (scheduleProbe now msg))"

section \<open>Histories\<close>

definition serviceEnabled :: "ServiceEvent \<Rightarrow> simtime \<Rightarrow> ServiceQueue \<Rightarrow> bool" where
  "serviceEnabled e now s \<longleftrightarrow> (case e of
     EndService \<Rightarrow> endServiceMsg s = Some now
   | ProbeEndService \<Rightarrow> probe_endServiceMsg s = Some now
   | ServiceArrival m \<Rightarrow> True)"

fun serviceRun :: "(ServiceEvent \<times> simtime) list \<Rightarrow> ServiceQueue \<Rightarrow> ServiceQueue res option" where
  "serviceRun [] s = Some (Inr s)"
| "serviceRun ((e, t) # es) s =
     (if \<not> serviceEnabled e t s then None
      else case ServiceQueue_handleMessage e t s of Inl err \<Rightarrow> Some (Inl err) | Inr s' \<Rightarrow> serviceRun es s')"

fun arrivals :: "(ServiceEvent \<times> simtime) list \<Rightarrow> Packet list" where
  "arrivals [] = []"
| "arrivals ((ServiceArrival m, t) # es) = m # arrivals es"
| "arrivals ((EndService, t) # es) = arrivals es"
| "arrivals ((ProbeEndService, t) # es) = arrivals es"

end
