(* ===== verification/Service_Props.thy ===== *)
theory Service_Props imports Service_Queue
begin

text \<open>
  Properties of the queue in front of IP: messages of either queue are served in order and none is forgotten; and the
  messages it cannot take.
\<close>

definition isDatagram :: "Packet \<Rightarrow> bool" where
  "isDatagram m \<longleftrightarrow> (case m of DatagramPacket n h l e \<Rightarrow> True | _ \<Rightarrow> False)"

text \<open>The messages that the queue can classify.\<close>

definition servable :: "Packet \<Rightarrow> bool" where
  "servable m \<longleftrightarrow> isDatagram m \<or> getEncapsulatedMsg m = None"

definition inPQueue :: "Packet \<Rightarrow> bool" where
  "inPQueue m \<longleftrightarrow> forPQueue m = Inr True"

lemma forPQueue_servable: "servable m \<Longrightarrow> forPQueue m = Inr (inPQueue m)"
  by (cases m) (auto simp: servable_def isDatagram_def forPQueue_def inPQueue_def split: option.split)

text \<open>The regular messages that were served or wait, and those of the second queue.\<close>

definition regulars :: "ServiceQueue \<Rightarrow> Packet list" where
  "regulars s = filter (\<lambda>m. \<not> inPQueue m) (served s) @ (case msgServiced s of None \<Rightarrow> [] | Some m \<Rightarrow> [m]) @ svQueue s"

definition probes :: "ServiceQueue \<Rightarrow> Packet list" where
  "probes s = filter inPQueue (served s) @ pqueue s"

definition serviceInv :: "ServiceQueue \<Rightarrow> bool" where
  "serviceInv s \<longleftrightarrow> 0 \<le> procDelay s \<and> (msgServiced s = None \<longleftrightarrow> endServiceMsg s = None) \<and>
     (msgServiced s = None \<longrightarrow> svQueue s = []) \<and> (pqueue s \<noteq> [] \<longrightarrow> probe_endServiceMsg s \<noteq> None) \<and>
     (procDelay s = 0 \<longrightarrow> msgServiced s = None) \<and> (probe_endServiceMsg s \<noteq> None \<longrightarrow> serviceTime s = procDelay s) \<and>
     (\<forall>m \<in> set (svQueue s) \<union> set_option (msgServiced s). \<not> inPQueue m) \<and> (\<forall>m \<in> set (pqueue s). inPQueue m)"

definition counts :: "ServiceQueue \<Rightarrow> Packet list \<Rightarrow> ServiceQueue \<Rightarrow> bool" where
  "counts s ms s' \<longleftrightarrow> serviceInv s' \<and> procDelay s' = procDelay s \<and>
     regulars s' = regulars s @ filter (\<lambda>m. \<not> inPQueue m) ms \<and> probes s' = probes s @ filter inPQueue ms"

definition withProbe :: "simtime \<Rightarrow> ServiceQueue \<Rightarrow> ServiceQueue" where
  "withProbe now s = (if probe_endServiceMsg s = None
     then s\<lparr>serviceTime := procDelay s, probe_endServiceMsg := Some (now + procDelay s / 10)\<rparr> else s)"

lemma scheduleProbe_ok: "0 \<le> procDelay s \<Longrightarrow> scheduleProbe now m s = Inr (withProbe now s)"
  by (cases s) (simp add: scheduleProbe_def withProbe_def startService_def kernel_checks Let_def)

lemma arrival_step:
  assumes "serviceInv s" "servable m"
  shows "\<exists>s1. ServiceQueue_handleMessage (ServiceArrival m) now s = Inr (withProbe now s1) \<and> counts s [m] (withProbe now s1)"
proof -
  note p = forPQueue_servable [OF assms(2)]
  have d: "0 \<le> procDelay s" using assms(1) by (simp add: serviceInv_def)
  define s1 where "s1 = (if inPQueue m then s\<lparr>pqueue := pqueue s @ [m]\<rparr>
    else if msgServiced s \<noteq> None then s\<lparr>svQueue := svQueue s @ [m]\<rparr>
    else if procDelay s \<noteq> 0 then s\<lparr>msgServiced := Some m, serviceTime := procDelay s, endServiceMsg := Some (now + procDelay s)\<rparr>
    else s\<lparr>serviceTime := 0, served := served s @ [m], msgServiced := None\<rparr>)"
  have "ServiceQueue_handleMessage (ServiceArrival m) now s = scheduleProbe now m s1"
  proof (cases "msgServiced s")
    case None
    then have "svQueue s = []" "endServiceMsg s = None" using assms(1) by (simp_all add: serviceInv_def)
    then show ?thesis using None d
      by (simp add: s1_def arrivalWhenIdle_def p doStartService_def started_def scheduleEnd_def startService_def kernel_checks callEndService_def Let_def)
  qed (simp add: s1_def arrival_def p)
  moreover have "0 \<le> procDelay s1" using d by (simp add: s1_def)
  moreover have "counts s [m] (withProbe now s1)"
    using assms(1)
    by (cases "inPQueue m"; cases "msgServiced s"; cases "procDelay s = 0"; cases "probe_endServiceMsg s")
      (auto simp: s1_def counts_def withProbe_def serviceInv_def regulars_def probes_def)
  ultimately show ?thesis using scheduleProbe_ok by metis
qed

lemma service_step:
  assumes "serviceInv s" "serviceEnabled e now s" "\<And>m. e = ServiceArrival m \<Longrightarrow> servable m"
  shows "\<exists>s'. ServiceQueue_handleMessage e now s = Inr s' \<and>
    counts s (case e of ServiceArrival m \<Rightarrow> [m] | _ \<Rightarrow> []) s'"
proof (cases e)
  case EndService
  then obtain m where m: "msgServiced s = Some m" "procDelay s \<noteq> 0" "\<not> inPQueue m"
    using assms(1,2) by (cases "msgServiced s") (auto simp: serviceEnabled_def serviceInv_def)
  show ?thesis
  proof (cases "svQueue s")
    case Nil
    then show ?thesis using EndService m assms(1)
      by (simp add: callEndService_def counts_def serviceInv_def regulars_def probes_def)
  next
    case (Cons m' q)
    then show ?thesis using EndService m assms(1)
      by (simp add: callEndService_def counts_def serviceInv_def regulars_def probes_def startService_def started_def scheduleEnd_def kernel_checks Let_def)
  qed
next
  case ProbeEndService
  then show ?thesis using assms(1)
    by (cases "pqueue s")
      (auto simp: doProbeEndService_def callEndService_def counts_def serviceInv_def regulars_def probes_def kernel_checks
        serviceEnabled_def assms(2))
next
  case (ServiceArrival m)
  then show ?thesis using arrival_step [OF assms(1) assms(3) [OF ServiceArrival], of now] by auto
qed

lemma service_run:
  assumes "serviceInv s" "serviceRun es s = Some r" "\<forall>m \<in> set (arrivals es). servable m"
  shows "\<exists>s'. r = Inr s' \<and> counts s (arrivals es) s'"
  using assms
proof (induction es arbitrary: s)
  case Nil
  then show ?case by (auto simp: counts_def)
next
  case (Cons x es)
  obtain e t where x: "x = (e, t)" by (cases x)
  have en: "serviceEnabled e t s" using Cons.prems(2) by (simp add: x split: if_splits)
  have "servable m" if "e = ServiceArrival m" for m using Cons.prems(3) that by (simp add: x)
  from service_step [OF Cons.prems(1) en this]
  obtain s1 where s1: "ServiceQueue_handleMessage e t s = Inr s1" "counts s (case e of ServiceArrival m \<Rightarrow> [m] | _ \<Rightarrow> []) s1"
    by blast
  have a: "arrivals (x # es) = (case e of ServiceArrival m \<Rightarrow> [m] | _ \<Rightarrow> []) @ arrivals es" by (cases e) (simp_all add: x)
  have i: "serviceInv s1" using s1(2) by (simp add: counts_def)
  have r: "serviceRun es s1 = Some r" using Cons.prems(2) en s1(1) by (simp add: x)
  have "\<forall>m \<in> set (arrivals es). servable m" using Cons.prems(3) a by auto
  from Cons.IH [OF i r this] s1(2) show ?case unfolding a by (auto simp: counts_def)
qed

text \<open>The queue in front of IP serves regular messages in the order of their arrival and so does its second queue, for ICMP, IGMP
  and RSVP datagrams; no message is lost: what was not served is being served or waits; while a message waits in
  either queue the timer that will serve it is scheduled; and no event stops it, as long as the messages that carry another
  one are datagrams.\<close>

theorem service_queue_order:
  assumes "0 \<le> d" "serviceRun es (ServiceQueue_initialize d) = Some r"
    "\<forall>m \<in> set (arrivals es). isDatagram m \<or> getEncapsulatedMsg m = None"
  shows "\<exists>s. r = Inr s \<and>
    filter (\<lambda>m. \<not> inPQueue m) (served s) @ (case msgServiced s of None \<Rightarrow> [] | Some m \<Rightarrow> [m]) @ svQueue s =
      filter (\<lambda>m. \<not> inPQueue m) (arrivals es) \<and>
    filter inPQueue (served s) @ pqueue s = filter inPQueue (arrivals es) \<and>
    (svQueue s \<noteq> [] \<longrightarrow> endServiceMsg s \<noteq> None) \<and> (pqueue s \<noteq> [] \<longrightarrow> probe_endServiceMsg s \<noteq> None)"
proof -
  have "serviceInv (ServiceQueue_initialize d)" using assms(1) by (simp add: serviceInv_def ServiceQueue_initialize_def)
  from service_run [OF this assms(2)] assms(3) obtain s where s: "r = Inr s" "counts (ServiceQueue_initialize d) (arrivals es) s"
    by (auto simp: servable_def)
  moreover have "regulars (ServiceQueue_initialize d) = []" "probes (ServiceQueue_initialize d) = []"
    by (simp_all add: regulars_def probes_def ServiceQueue_initialize_def)
  ultimately have c: "serviceInv s" "regulars s = filter (\<lambda>m. \<not> inPQueue m) (arrivals es)" "probes s = filter inPQueue (arrivals es)"
    by (simp_all add: counts_def)
  from c(1) have "svQueue s \<noteq> [] \<longrightarrow> endServiceMsg s \<noteq> None" "pqueue s \<noteq> [] \<longrightarrow> probe_endServiceMsg s \<noteq> None"
    by (auto simp: serviceInv_def)
  with s(1) c(2,3) show ?thesis unfolding regulars_def probes_def by (intro exI [of _ s]) simp
qed

text \<open>A packet of a transport protocol that carries another packet, such as a UDP packet with data, or an ICMP message
  with its payload, stops the simulation when it comes to this queue, since the queue takes everything that
  carries something for a datagram.\<close>

theorem service_queue_rejects_transport_packets:
  assumes "getEncapsulatedMsg m = Some e" "\<not> isDatagram m"
  shows "ServiceQueue_handleMessage (ServiceArrival m) now s = Inl (KernelError ''check_and_cast: not an IPDatagram'')"
proof -
  have "forPQueue m = Inl (KernelError ''check_and_cast: not an IPDatagram'')"
    using assms by (cases m) (simp_all add: forPQueue_def isDatagram_def)
  then show ?thesis by (simp add: arrivalWhenIdle_def arrival_def split: option.split)
qed

definition exHeader :: "int \<Rightarrow> IPHeader" where
  "exHeader prot = \<lparr>headerLength = 20, srcAddress = 1, destAddress = 2, destPort = 0, srcPort = 0, transportProtocol = prot,
     timeToLive = 32, flowId = 0, link_status = 0, packetId = 0, moreFragments = False, dontFragment = False,
     fragmentOffset = 0, diffServCodePoint = 0, num_packets_for_this_path = 0, arrivalGateIndex = Some 0\<rparr>"

definition exDatagram :: "int \<Rightarrow> Packet" where
  "exDatagram prot = DatagramPacket ''d'' (exHeader prot) 100 (Some (TransportPacket ''t'' 80))"

definition exServiceEvents :: "(ServiceEvent \<times> simtime) list" where
  "exServiceEvents = [(ServiceArrival (exDatagram 6), 1), (ServiceArrival (exDatagram 6), 2), (ServiceArrival (exDatagram 1), 2),
     (ProbeEndService, 2), (EndService, 11)]"

theorem service_queue_order_witness:
  "\<exists>r. serviceRun exServiceEvents (ServiceQueue_initialize 10) = Some r \<and> (\<exists>s. r = Inr s \<and>
    filter (\<lambda>m. \<not> inPQueue m) (served s) @ (case msgServiced s of None \<Rightarrow> [] | Some m \<Rightarrow> [m]) @ svQueue s =
      filter (\<lambda>m. \<not> inPQueue m) (arrivals exServiceEvents) \<and>
    filter inPQueue (served s) @ pqueue s = filter inPQueue (arrivals exServiceEvents) \<and>
    (svQueue s \<noteq> [] \<longrightarrow> endServiceMsg s \<noteq> None) \<and> (pqueue s \<noteq> [] \<longrightarrow> probe_endServiceMsg s \<noteq> None))"
proof -
  have "serviceRun exServiceEvents (ServiceQueue_initialize 10) \<noteq> None" by code_simp
  then obtain r where r: "serviceRun exServiceEvents (ServiceQueue_initialize 10) = Some r" by blast
  have "\<forall>m \<in> set (arrivals exServiceEvents). isDatagram m \<or> getEncapsulatedMsg m = None"
    by (simp add: exServiceEvents_def exDatagram_def isDatagram_def)
  from service_queue_order [OF _ r this] r show ?thesis by simp
qed

theorem service_queue_rejects_transport_packets_witness:
  "ServiceQueue_handleMessage (ServiceArrival (UDPDatagram ''u'' 1024 53 108 (Some (TransportPacket ''t'' 100)))) 1
     (ServiceQueue_initialize 0) = Inl (KernelError ''check_and_cast: not an IPDatagram'')"
  by (rule service_queue_rejects_transport_packets) (simp_all add: isDatagram_def)

end
