(* ===== verification/OSPF_Data.thy ===== *)
theory OSPF_Data imports IP_Address
begin

text \<open>
  Data of the OSPF routing module (\<^verbatim>\<open>src/src/networklayer/ospfv2\<close>): link state
  advertisements and the order on their headers (\<^verbatim>\<open>OSPFPacket.msg\<close>,
  \<^verbatim>\<open>router/LSA.h\<close>), neighbours, interfaces and areas with the look-ups the other
  OSPF theories share. Router and link state IDs are \<^verbatim>\<open>unsigned long\<close> in the
  code and hold 32 bit addresses only; metrics are \<^verbatim>\<open>unsigned long\<close> too and are
  natural numbers here, with the wrap-around written out where they are added.
\<close>

section \<open>Constants and identifiers\<close>

type_synonym RouterID = uint32
type_synonym LinkStateID = uint32
type_synonym AreaID = uint32
type_synonym Metric = nat

definition MAX_AGE :: nat where "MAX_AGE = 3600"
definition MAX_AGE_DIFF :: nat where "MAX_AGE_DIFF = 900"
definition LS_INFINITY :: nat where "LS_INFINITY = 16777215"
definition BackboneAreaID :: AreaID where "BackboneAreaID = 0"
definition INITIAL_SEQUENCE_NUMBER :: int where "INITIAL_SEQUENCE_NUMBER = - 2147483647"

lemmas ospf_consts = MAX_AGE_def MAX_AGE_DIFF_def LS_INFINITY_def BackboneAreaID_def
  INITIAL_SEQUENCE_NUMBER_def

record DesignatedRouterID =
  drRouterID :: RouterID
  ipInterfaceAddress :: IPAddress

definition NullDesignatedRouterID :: DesignatedRouterID where
  "NullDesignatedRouterID = \<lparr>drRouterID = 0, ipInterfaceAddress = 0\<rparr>"

text \<open>A loop that stops at the first error.\<close>

fun foldRes :: "('a \<Rightarrow> 'b \<Rightarrow> 'b res) \<Rightarrow> 'a list \<Rightarrow> 'b \<Rightarrow> 'b res" where
  "foldRes f [] x = Inr x"
| "foldRes f (a # as) x = andThen (f a x) (foldRes f as)"

section \<open>Link state advertisements\<close>

record OSPFOptions =
  E_ExternalRoutingCapability :: bool
  MC_MulticastForwarding :: bool
  NP_Type7LSA :: bool
  EA_ForwardExternalLSAs :: bool
  DC_DemandCircuits :: bool

text \<open>The options that a \<^verbatim>\<open>memset\<close> to zero leaves, with the E bit set to \<open>e\<close>.\<close>

definition zeroOptions :: "bool \<Rightarrow> OSPFOptions" where
  "zeroOptions e = \<lparr>E_ExternalRoutingCapability = e, MC_MulticastForwarding = False,
     NP_Type7LSA = False, EA_ForwardExternalLSAs = False, DC_DemandCircuits = False\<rparr>"

text \<open>The LSA type is a \<^verbatim>\<open>char\<close> of the packet and may have any value.\<close>

definition RouterLSAType :: int where "RouterLSAType = 1"
definition NetworkLSAType :: int where "NetworkLSAType = 2"
definition SummaryLSA_NetworksType :: int where "SummaryLSA_NetworksType = 3"
definition SummaryLSA_ASBoundaryRoutersType :: int where "SummaryLSA_ASBoundaryRoutersType = 4"
definition ASExternalLSAType :: int where "ASExternalLSAType = 5"

lemmas lsa_types = RouterLSAType_def NetworkLSAType_def SummaryLSA_NetworksType_def
  SummaryLSA_ASBoundaryRoutersType_def ASExternalLSAType_def

record OSPFLSAHeader =
  lsAge :: uint16
  lsOptions :: OSPFOptions
  lsType :: int
  linkStateID :: LinkStateID
  advertisingRouter :: RouterID
  lsSequenceNumber :: int
  lsChecksum :: uint16
  lsaLength :: uint16

text \<open>
  \<^verbatim>\<open>operator<\<close> of \<^verbatim>\<open>router/LSA.h\<close>: the left advertisement is older.
\<close>

definition lsaOlder :: "OSPFLSAHeader \<Rightarrow> OSPFLSAHeader \<Rightarrow> bool" where
  "lsaOlder leftLSA rightLSA =
    (if lsSequenceNumber leftLSA < lsSequenceNumber rightLSA then True
     else if lsSequenceNumber leftLSA = lsSequenceNumber rightLSA then
       (if lsChecksum leftLSA < lsChecksum rightLSA then True
        else if lsChecksum leftLSA = lsChecksum rightLSA then
          (let leftAge = unat (lsAge leftLSA); rightAge = unat (lsAge rightLSA) in
           if leftAge \<noteq> MAX_AGE \<and> rightAge = MAX_AGE then True
           else if \<bar>int leftAge - int rightAge\<bar> > int MAX_AGE_DIFF \<and> leftAge > rightAge then True
           else False)
        else False)
     else False)"

text \<open>\<^verbatim>\<open>operator==\<close>: instances of the same age.\<close>

definition lsaSameAge :: "OSPFLSAHeader \<Rightarrow> OSPFLSAHeader \<Rightarrow> bool" where
  "lsaSameAge leftLSA rightLSA \<longleftrightarrow>
    (let leftAge = unat (lsAge leftLSA); rightAge = unat (lsAge rightLSA) in
     lsSequenceNumber leftLSA = lsSequenceNumber rightLSA \<and>
     lsChecksum leftLSA = lsChecksum rightLSA \<and>
     ((leftAge = MAX_AGE \<and> rightAge = MAX_AGE) \<or>
      ((leftAge \<noteq> MAX_AGE \<and> rightAge \<noteq> MAX_AGE) \<and>
       \<bar>int leftAge - int rightAge\<bar> \<le> int MAX_AGE_DIFF)))"

datatype LinkType = PointToPointLink | TransitLink | StubLink | VirtualLink

record TOSData =
  tos :: nat
  tosMetric :: "nat \<times> nat \<times> nat"

record RouterLink =
  linkID :: IPAddress
  linkData :: uint32
  linkType :: LinkType
  numberOfTOS :: nat
  linkCost :: Metric
  tosData :: "TOSData list"

record OSPFRouterLSA =
  rHeader :: OSPFLSAHeader
  V_VirtualLinkEndpoint :: bool
  E_ASBoundaryRouter :: bool
  B_AreaBorderRouter :: bool
  numberOfLinks :: nat
  links :: "RouterLink list"

record OSPFNetworkLSA =
  nHeader :: OSPFLSAHeader
  networkMask :: IPAddress
  attachedRouters :: "IPAddress list"

record OSPFSummaryLSA =
  sHeader :: OSPFLSAHeader
  sNetworkMask :: IPAddress
  sRouteCost :: Metric
  sTosData :: "TOSData list"

record ExternalTOSInfo =
  extTosData :: TOSData
  extTosMetricType :: bool
  extTosForwardingAddress :: IPAddress
  extTosRouteTag :: int

record OSPFASExternalLSA =
  xHeader :: OSPFLSAHeader
  xNetworkMask :: IPAddress
  E_ExternalMetricType :: bool
  xRouteCost :: Metric
  forwardingAddress :: IPAddress
  externalRouteTag :: int
  externalTOSInfo :: "ExternalTOSInfo list"

datatype OSPFLSA =
    LsaRouter OSPFRouterLSA
  | LsaNetwork OSPFNetworkLSA
  | LsaSummary OSPFSummaryLSA
  | LsaASExternal OSPFASExternalLSA

primrec lsaHeader :: "OSPFLSA \<Rightarrow> OSPFLSAHeader" where
  "lsaHeader (LsaRouter l) = rHeader l"
| "lsaHeader (LsaNetwork l) = nHeader l"
| "lsaHeader (LsaSummary l) = sHeader l"
| "lsaHeader (LsaASExternal l) = xHeader l"

text \<open>The key of an advertisement: \<^verbatim>\<open>LSAKeyType\<close>.\<close>

type_synonym LSAKey = "LinkStateID \<times> RouterID"

definition lsaKey :: "OSPFLSAHeader \<Rightarrow> LSAKey" where
  "lsaKey h = (linkStateID h, advertisingRouter h)"

text \<open>Lengths in bytes: \<^verbatim>\<open>CalculateLSASize\<close>.\<close>

primrec CalculateLSASize :: "OSPFLSA \<Rightarrow> nat" where
  "CalculateLSASize (LsaRouter l) = 20 + 4 + sum_list (map (\<lambda>k. 12 + length (tosData k) * 4) (links l))"
| "CalculateLSASize (LsaNetwork l) = 20 + 4 + length (attachedRouters l) * 4"
| "CalculateLSASize (LsaSummary l) = 20 + 8 + length (sTosData l) * 4"
| "CalculateLSASize (LsaASExternal l) = 20 + 16 + length (externalTOSInfo l) * 12"

text \<open>
  The shortest path calculation handles the LSA objects of the database by pointer. An object
  is named by its kind and the link state ID under which the database holds it.
\<close>

datatype Vertex = RouterVertex LinkStateID | NetworkVertex LinkStateID

record NextHop =
  hopIfIndex :: nat
  hopAddress :: IPAddress
  hopAdvertisingRouter :: RouterID

text \<open>\<^verbatim>\<open>class RoutingInfo\<close>, a base class of the LSA objects in the database.\<close>

record RoutingInfo =
  nextHops :: "NextHop list"
  distance :: Metric
  spfParent :: "Vertex option"

definition emptyRoutingInfo :: RoutingInfo where
  "emptyRoutingInfo = \<lparr>nextHops = [], distance = 0, spfParent = None\<rparr>"

section \<open>Neighbours\<close>

text \<open>The states of a neighbour with the numbers of the enumeration.\<close>

datatype NeighborStateType =
    NbDown | NbAttempt | NbInit | NbTwoWay | NbExchangeStart | NbExchange | NbLoading | NbFull

primrec nbStateValue :: "NeighborStateType \<Rightarrow> nat" where
  "nbStateValue NbDown = 0"
| "nbStateValue NbAttempt = 1"
| "nbStateValue NbInit = 2"
| "nbStateValue NbTwoWay = 4"
| "nbStateValue NbExchangeStart = 8"
| "nbStateValue NbExchange = 16"
| "nbStateValue NbLoading = 32"
| "nbStateValue NbFull = 64"

datatype DatabaseExchangeRelationship = Master | Slave

record OSPFDDOptions =
  I_Init :: bool
  M_More :: bool
  MS_MasterSlave :: bool

record DDPacketID =
  ddpOptions :: OSPFDDOptions
  ddpNeighborOptions :: OSPFOptions
  ddpSequenceNumber :: ulong

record OSPFDatabaseDescriptionPacket =
  interfaceMTU :: uint16
  ddOptionsE :: OSPFOptions
  ddOptions :: OSPFDDOptions
  ddPacketSequenceNumber :: ulong
  ddLsaHeaders :: "OSPFLSAHeader list"

record Neighbor =
  nbState :: NeighborStateType
  inactivityTimer :: "simtime option"
  pollTimer :: "simtime option"
  ddRetransmissionTimer :: "simtime option"
  updateRetransmissionTimer :: "simtime option"
  updateRetransmissionTimerActive :: bool
  requestRetransmissionTimer :: "simtime option"
  requestRetransmissionTimerActive :: bool
  databaseExchangeRelationship :: DatabaseExchangeRelationship
  firstAdjacencyInited :: bool
  ddSequenceNumber :: ulong
  lastReceivedDDPacket :: DDPacketID
  neighborID :: RouterID
  neighborPriority :: "8 word"
  neighborIPAddress :: IPAddress
  neighborOptions :: OSPFOptions
  neighborsDesignatedRouter :: DesignatedRouterID
  neighborsBackupDesignatedRouter :: DesignatedRouterID
  designatedRoutersSetUp :: bool
  neighborsRouterDeadInterval :: int
  linkStateRetransmissionList :: "OSPFLSA list"
  databaseSummaryList :: "OSPFLSAHeader list"
  linkStateRequestList :: "OSPFLSAHeader list"
  transmittedLSAs :: "(LSAKey \<times> nat) list"
  lastTransmittedDDPacket :: "OSPFDatabaseDescriptionPacket option"

section \<open>Interfaces\<close>

datatype OSPFInterfaceType =
  UnknownType | PointToPoint | Broadcast | NBMA | PointToMultiPoint | Virtual

datatype InterfaceStateType =
    IfDown | IfLoopback | IfWaiting | IfPointToPoint | IfNotDesignatedRouter | IfBackup
  | IfDesignatedRouter

primrec ifStateValue :: "InterfaceStateType \<Rightarrow> nat" where
  "ifStateValue IfDown = 0"
| "ifStateValue IfLoopback = 1"
| "ifStateValue IfWaiting = 2"
| "ifStateValue IfPointToPoint = 3"
| "ifStateValue IfNotDesignatedRouter = 4"
| "ifStateValue IfBackup = 5"
| "ifStateValue IfDesignatedRouter = 6"

text \<open>
  The neighbours are the objects of \<^verbatim>\<open>neighboringRouters\<close>; the two maps hold their
  positions in that vector, from which nothing is ever taken out.
\<close>

record OspfInterface =
  interfaceType :: OSPFInterfaceType
  ifState :: InterfaceStateType
  ifIndex :: nat
  transitAreaID :: AreaID
  ifMTU :: uint16
  ifAddress :: IPAddress
  ifMask :: IPAddress
  routerPriority :: "8 word"
  interfaceOutputCost :: Metric
  pollInterval :: int
  retransmissionInterval :: int
  interfaceTransmissionDelay :: int
  neighboringRouters :: "Neighbor list"
  neighboringRoutersByID :: "RouterID \<Rightarrow> nat option"
  neighboringRoutersByAddress :: "IPAddress \<Rightarrow> nat option"
  designatedRouter :: DesignatedRouterID
  backupDesignatedRouter :: DesignatedRouterID

definition GetNeighborByID :: "OspfInterface \<Rightarrow> RouterID \<Rightarrow> Neighbor option" where
  "GetNeighborByID intf i = map_option ((!) (neighboringRouters intf)) (neighboringRoutersByID intf i)"

definition GetNeighborByAddress :: "OspfInterface \<Rightarrow> IPAddress \<Rightarrow> Neighbor option" where
  "GetNeighborByAddress intf a =
     map_option ((!) (neighboringRouters intf)) (neighboringRoutersByAddress intf a)"

definition AddNeighbor :: "Neighbor \<Rightarrow> OspfInterface \<Rightarrow> OspfInterface" where
  "AddNeighbor n intf = (let k = length (neighboringRouters intf) in intf\<lparr>
     neighboringRoutersByID := (neighboringRoutersByID intf)(neighborID n \<mapsto> k),
     neighboringRoutersByAddress := (neighboringRoutersByAddress intf)(neighborIPAddress n \<mapsto> k),
     neighboringRouters := neighboringRouters intf @ [n]\<rparr>)"

text \<open>\<^verbatim>\<open>HasAnyNeighborInStates\<close>, called with the single state bit of Full everywhere here.\<close>

definition HasAnyNeighborInState :: "OspfInterface \<Rightarrow> NeighborStateType \<Rightarrow> bool" where
  "HasAnyNeighborInState intf s \<longleftrightarrow> (\<exists>n\<in>set (neighboringRouters intf). nbState n = s)"

section \<open>Areas\<close>

record HostRouteParameters =
  hostIfIndex :: nat
  hostAddress :: IPAddress
  hostLinkCost :: Metric

text \<open>
  An area with what its operations read of the router it belongs to. The vectors of LSA objects
  are lists of the map's keys and objects in the vector's order: an object enters and leaves the
  vector and the map together. The \<^verbatim>\<open>RoutingInfo\<close> part of the objects is kept aside,
  by object.
\<close>

record Area =
  areaID :: AreaID
  routerID :: RouterID
  externalRoutingCapability :: bool
  transitCapability :: bool
  associatedInterfaces :: "OspfInterface list"
  hostRoutes :: "HostRouteParameters list"
  routerLSAs :: "(LinkStateID \<times> OSPFRouterLSA) list"
  networkLSAs :: "(LinkStateID \<times> OSPFNetworkLSA) list"
  summaryLSAs :: "(LSAKey \<times> OSPFSummaryLSA) list"
  spfTreeRoot :: "Vertex option"
  routingInfo :: "Vertex \<Rightarrow> RoutingInfo"

definition FindRouterLSA :: "Area \<Rightarrow> LinkStateID \<Rightarrow> OSPFRouterLSA option" where
  "FindRouterLSA A i = map_of (routerLSAs A) i"

definition FindSummaryLSA :: "Area \<Rightarrow> LSAKey \<Rightarrow> OSPFSummaryLSA option" where
  "FindSummaryLSA A k = map_of (summaryLSAs A) k"

definition FindNetworkLSA :: "Area \<Rightarrow> LinkStateID \<Rightarrow> OSPFNetworkLSA option" where
  "FindNetworkLSA A i = map_of (networkLSAs A) i"

section \<open>The order on advertisements\<close>

definition olderByAge :: "nat \<Rightarrow> nat \<Rightarrow> bool" where
  "olderByAge x y \<longleftrightarrow> (x \<noteq> MAX_AGE \<and> y = MAX_AGE) \<or>
     (\<bar>int x - int y\<bar> > int MAX_AGE_DIFF \<and> x > y)"

lemma lsaOlder_alt:
  "lsaOlder a b \<longleftrightarrow> lsSequenceNumber a < lsSequenceNumber b \<or>
     lsSequenceNumber a = lsSequenceNumber b \<and>
       (lsChecksum a < lsChecksum b \<or>
        lsChecksum a = lsChecksum b \<and> olderByAge (unat (lsAge a)) (unat (lsAge b)))"
  by (simp add: lsaOlder_def olderByAge_def Let_def)

lemma olderByAge_both:
  "olderByAge x y \<and> olderByAge y x \<longleftrightarrow>
     (x = MAX_AGE \<and> y < MAX_AGE - MAX_AGE_DIFF) \<or> (y = MAX_AGE \<and> x < MAX_AGE - MAX_AGE_DIFF)"
  unfolding olderByAge_def ospf_consts by linarith

lemma olderByAge_none:
  "\<not> olderByAge x y \<and> \<not> olderByAge y x \<longleftrightarrow>
     (x = MAX_AGE \<and> y = MAX_AGE) \<or>
     (x \<noteq> MAX_AGE \<and> y \<noteq> MAX_AGE \<and> \<bar>int x - int y\<bar> \<le> int MAX_AGE_DIFF)"
  unfolding olderByAge_def ospf_consts by linarith

lemma lsaSameAge_iff: "lsaSameAge a b \<longleftrightarrow> \<not> lsaOlder a b \<and> \<not> lsaOlder b a"
proof (cases "lsSequenceNumber a = lsSequenceNumber b \<and> lsChecksum a = lsChecksum b")
  case True
  then show ?thesis
    using olderByAge_none [of "unat (lsAge a)" "unat (lsAge b)"]
    by (simp add: lsaSameAge_def lsaOlder_alt Let_def)
next
  case False
  then show ?thesis
    by (auto simp: lsaSameAge_def lsaOlder_alt)
qed

lemma lsaOlder_both:
  "lsaOlder a b \<and> lsaOlder b a \<longleftrightarrow>
     lsSequenceNumber a = lsSequenceNumber b \<and> lsChecksum a = lsChecksum b \<and>
     ((unat (lsAge a) = MAX_AGE \<and> unat (lsAge b) < MAX_AGE - MAX_AGE_DIFF) \<or>
      (unat (lsAge b) = MAX_AGE \<and> unat (lsAge a) < MAX_AGE - MAX_AGE_DIFF))"
proof (cases "lsSequenceNumber a = lsSequenceNumber b \<and> lsChecksum a = lsChecksum b")
  case True
  then show ?thesis
    using olderByAge_both [of "unat (lsAge a)" "unat (lsAge b)"]
    by (simp add: lsaOlder_alt)
next
  case False
  then show ?thesis
    by (auto simp: lsaOlder_alt)
qed

end
