(* ===== verification/OSPF_SPF.thy ===== *)
theory OSPF_SPF imports OSPF_Data "HOL-Library.While_Combinator"
begin

text \<open>
  The shortest path calculation of an area (\<^verbatim>\<open>CalculateShortestPathTree\<close>,
  \<^verbatim>\<open>CalculateNextHops\<close> and \<^verbatim>\<open>HasLink\<close> of
  \<^verbatim>\<open>router/OSPFArea.cc\<close>) and the intra-area entries it writes into the new routing table
  (\<^verbatim>\<open>router/OSPFRoutingTableEntry.h\<close>). The root of the tree is the router's own LSA and is
  taken as present; the set-up of virtual links from the tree is not modelled.
\<close>

section \<open>Links between advertisements\<close>

definition HasLink :: "Area \<Rightarrow> Vertex \<Rightarrow> Vertex \<Rightarrow> bool" where
  "HasLink A fromV toV = (case fromV of
      RouterVertex f \<Rightarrow> (case FindRouterLSA A f of None \<Rightarrow> False | Some fromLSA \<Rightarrow>
        (case toV of
           RouterVertex t \<Rightarrow> (case FindRouterLSA A t of None \<Rightarrow> False | Some toLSA \<Rightarrow>
             (\<exists>l\<in>set (links fromLSA). (linkType l = PointToPointLink \<or> linkType l = VirtualLink) \<and>
                linkID l = linkStateID (rHeader toLSA)))
         | NetworkVertex t \<Rightarrow> (case FindNetworkLSA A t of None \<Rightarrow> False | Some toLSA \<Rightarrow>
             (\<exists>l\<in>set (links fromLSA).
                (linkType l = TransitLink \<and> linkID l = linkStateID (nHeader toLSA)) \<or>
                (linkType l = StubLink \<and>
                   (linkID l AND linkData l) = (linkStateID (nHeader toLSA) AND networkMask toLSA))))))
    | NetworkVertex f \<Rightarrow> (case FindNetworkLSA A f of None \<Rightarrow> False | Some fromLSA \<Rightarrow>
        (case toV of
           RouterVertex t \<Rightarrow> (case FindRouterLSA A t of None \<Rightarrow> False | Some toLSA \<Rightarrow>
             (\<exists>r\<in>set (attachedRouters fromLSA). r = linkStateID (rHeader toLSA)))
         | NetworkVertex _ \<Rightarrow> False)))"

section \<open>Next hops\<close>

text \<open>A loop that appends to a result and may leave after an element.\<close>

fun collectUntil :: "('a \<Rightarrow> 'b list \<times> bool) \<Rightarrow> 'a list \<Rightarrow> 'b list" where
  "collectUntil f [] = []"
| "collectUntil f (x # xs) = (case f x of (hs, leave) \<Rightarrow> if leave then hs else hs @ collectUntil f xs)"

definition isPointToPointLike :: "OspfInterface \<Rightarrow> bool" where
  "isPointToPointLike intf \<longleftrightarrow> interfaceType intf = PointToPoint \<or>
     (interfaceType intf = Virtual \<and> ifStateValue IfLoopback < ifStateValue (ifState intf))"

definition firstNeighbor :: "OspfInterface \<Rightarrow> Neighbor option" where
  "firstNeighbor intf = (case neighboringRouters intf of [] \<Rightarrow> None | n # _ \<Rightarrow> Some n)"

definition mkHop :: "OspfInterface \<Rightarrow> IPAddress \<Rightarrow> RouterID \<Rightarrow> NextHop" where
  "mkHop intf a r = \<lparr>hopIfIndex = ifIndex intf, hopAddress = a, hopAdvertisingRouter = r\<rparr>"

text \<open>One interface of the loop for a router joined to the root.\<close>

definition hopsToRouter :: "Area \<Rightarrow> OSPFRouterLSA \<Rightarrow> OspfInterface \<Rightarrow> NextHop list \<times> bool" where
  "hopsToRouter A dest intf =
    (let adv = advertisingRouter (rHeader dest) in
     case (if isPointToPointLike intf then firstNeighbor intf else None) of
       Some n \<Rightarrow> if neighborID n = linkStateID (rHeader dest)
                 then ([mkHop intf (neighborIPAddress n) adv], True) else ([], False)
     | None \<Rightarrow>
        if interfaceType intf = PointToMultiPoint \<and>
           GetNeighborByID intf (linkStateID (rHeader dest)) \<noteq> None
        then (map (\<lambda>l. mkHop intf (linkData l) adv) (filter (\<lambda>l. linkID l = routerID A) (links dest)),
              True)
        else ([], False))"

definition isMultiAccess :: "OspfInterface \<Rightarrow> bool" where
  "isMultiAccess intf \<longleftrightarrow> interfaceType intf = Broadcast \<or> interfaceType intf = NBMA"

text \<open>One interface of the loop for a network joined to the root.\<close>

definition hopsToNetwork :: "OSPFNetworkLSA \<Rightarrow> OspfInterface \<Rightarrow> NextHop list" where
  "hopsToNetwork dest intf =
    (if isMultiAccess intf \<and> ipInterfaceAddress (designatedRouter intf) = linkStateID (nHeader dest)
     then [mkHop intf (ifAddress intf AND ifMask intf) (advertisingRouter (nHeader dest))] else [])"

text \<open>The hops to a router on a network that is joined to the root.\<close>

definition hopsOverNetwork :: "Area \<Rightarrow> OSPFRouterLSA \<Rightarrow> OSPFNetworkLSA \<Rightarrow> NextHop list" where
  "hopsOverNetwork A dest net =
    (let netID = linkStateID (nHeader net) in
     concat (map (\<lambda>l.
       if (linkType l = TransitLink \<and> linkID l = netID) \<or>
          (linkType l = StubLink \<and> (linkID l AND linkData l) = (netID AND networkMask net))
       then concat (map (\<lambda>intf.
         if isMultiAccess intf \<and> ipInterfaceAddress (designatedRouter intf) = netID
         then (case GetNeighborByID intf (linkStateID (rHeader dest)) of
                 None \<Rightarrow> []
               | Some n \<Rightarrow> [mkHop intf (neighborIPAddress n) (advertisingRouter (rHeader dest))])
         else []) (associatedInterfaces A))
       else []) (links dest)))"

text \<open>\<^verbatim>\<open>CalculateNextHops(OSPFLSA*, OSPFLSA*)\<close>.\<close>

definition CalculateNextHops :: "Area \<Rightarrow> (Vertex \<Rightarrow> RoutingInfo) \<Rightarrow> Vertex \<Rightarrow> Vertex \<Rightarrow> NextHop list" where
  "CalculateNextHops A info dest par = (case par of
      RouterVertex p \<Rightarrow>
        if spfTreeRoot A \<noteq> Some par then nextHops (info par)
        else (case dest of
            RouterVertex d \<Rightarrow> (case FindRouterLSA A d of None \<Rightarrow> []
              | Some l \<Rightarrow> collectUntil (hopsToRouter A l) (associatedInterfaces A))
          | NetworkVertex d \<Rightarrow> (case FindNetworkLSA A d of None \<Rightarrow> []
              | Some l \<Rightarrow> concat (map (hopsToNetwork l) (associatedInterfaces A))))
    | NetworkVertex p \<Rightarrow>
        if spfParent (info par) \<noteq> spfTreeRoot A then nextHops (info par)
        else (case (dest, FindNetworkLSA A p) of
            (RouterVertex d, Some net) \<Rightarrow> (case FindRouterLSA A d of None \<Rightarrow> []
              | Some l \<Rightarrow> hopsOverNetwork A l net)
          | _ \<Rightarrow> []))"

text \<open>One interface of the loop of \<^verbatim>\<open>CalculateNextHops(Link&, OSPFLSA*)\<close>.\<close>

definition hopsToLink :: "Area \<Rightarrow> RouterLink \<Rightarrow> OspfInterface \<Rightarrow> NextHop list \<times> bool" where
  "hopsToLink A l intf =
    (case (if isPointToPointLike intf then firstNeighbor intf else None) of
       Some n \<Rightarrow>
         if (neighborIPAddress n \<noteq> 0 \<and> neighborIPAddress n = linkID l) \<or>
            (neighborIPAddress n = 0 \<and> ifAddress intf = linkID l \<and> ifMask intf = linkData l)
         then ([mkHop intf (neighborIPAddress n) (routerID A)], True) else ([], False)
     | None \<Rightarrow>
       if isMultiAccess intf then
         (if linkID l = (ifAddress intf AND ifMask intf) \<and> linkData l = ifMask intf
          then ([mkHop intf (linkID l) (routerID A)], True) else ([], False))
       else if interfaceType intf = PointToMultiPoint then
         (if linkType l = StubLink \<and> linkID l = ifAddress intf
          then ([mkHop intf (ifAddress intf) (routerID A)], True)
          else if linkType l = PointToPointLink then
            (case GetNeighborByID intf (linkID l) of
               None \<Rightarrow> ([], False)
             | Some n \<Rightarrow> ([mkHop intf (neighborIPAddress n) (routerID A)], True))
          else ([], False))
       else ([], False))"

definition hopsToHost :: "Area \<Rightarrow> RouterLink \<Rightarrow> HostRouteParameters \<Rightarrow> NextHop list \<times> bool" where
  "hopsToHost A l h =
    (if linkID l = hostAddress h \<and> linkData l = 0xFFFFFFFF
     then ([\<lparr>hopIfIndex = hostIfIndex h, hopAddress = hostAddress h,
             hopAdvertisingRouter = routerID A\<rparr>], True)
     else ([], False))"

definition CalculateLinkNextHops ::
  "Area \<Rightarrow> (Vertex \<Rightarrow> RoutingInfo) \<Rightarrow> RouterLink \<Rightarrow> Vertex \<Rightarrow> NextHop list" where
  "CalculateLinkNextHops A info l par =
    (if spfTreeRoot A \<noteq> Some par then nextHops (info par)
     else (let hops = collectUntil (hopsToLink A l) (associatedInterfaces A) in
       if hops = [] then collectUntil (hopsToHost A l) (hostRoutes A) else hops))"

section \<open>Entries of the new routing table\<close>

datatype RoutingPathType = IntraArea | InterArea | Type1External | Type2External

record OspfRoute =
  destinationType :: nat
  destinationID :: IPAddress
  addressMask :: IPAddress
  optionalCapabilities :: OSPFOptions
  routeArea :: AreaID
  pathType :: RoutingPathType
  cost :: Metric
  type2Cost :: Metric
  linkStateOrigin :: "Vertex option"
  routeNextHops :: "NextHop list"
  routeInterface :: "nat option"
  routeMetric :: Metric

definition NetworkDestination :: nat where "NetworkDestination = 0"
definition AreaBorderRouterDestination :: nat where "AreaBorderRouterDestination = 1"
definition ASBoundaryRouterDestination :: nat where "ASBoundaryRouterDestination = 2"

text \<open>The constructor; it leaves the cost to the first \<^verbatim>\<open>SetCost\<close>.\<close>

definition emptyRoute :: OspfRoute where
  "emptyRoute = \<lparr>destinationType = NetworkDestination, destinationID = 0, addressMask = 0xFFFFFFFF,
     optionalCapabilities = zeroOptions False, routeArea = BackboneAreaID, pathType = IntraArea,
     cost = 0, type2Cost = 0, linkStateOrigin = None, routeNextHops = [], routeInterface = None,
     routeMetric = 0\<rparr>"

definition SetCost :: "Metric \<Rightarrow> OspfRoute \<Rightarrow> OspfRoute" where
  "SetCost c e = e\<lparr>cost := c,
     routeMetric := if pathType e = Type2External then c + type2Cost e * 1000 else c\<rparr>"

definition AddNextHop :: "NextHop \<Rightarrow> OspfRoute \<Rightarrow> OspfRoute" where
  "AddNextHop h e = (let e = (if routeNextHops e = [] then e\<lparr>routeInterface := Some (hopIfIndex h)\<rparr> else e)
     in e\<lparr>routeNextHops := routeNextHops e @ [h]\<rparr>)"

definition AddNextHops :: "NextHop list \<Rightarrow> OspfRoute \<Rightarrow> OspfRoute" where
  "AddNextHops hs e = fold AddNextHop hs e"

text \<open>The search for an entry that covers a destination; \<open>longestMatch\<close> starts at zero.\<close>

fun searchEntry :: "OspfRoute list \<Rightarrow> IPAddress \<Rightarrow> nat \<Rightarrow> uint32 \<Rightarrow> nat option \<Rightarrow> nat option" where
  "searchEntry [] dest k longestMatch entry = entry"
| "searchEntry (e # es) dest k longestMatch entry =
    (if destinationType e = NetworkDestination \<and>
        (destinationID e AND addressMask e) = (dest AND addressMask e) \<and>
        longestMatch < (dest AND addressMask e)
     then searchEntry es dest (Suc k) (dest AND addressMask e) (Some k)
     else searchEntry es dest (Suc k) longestMatch entry)"

definition coveringEntry :: "OspfRoute list \<Rightarrow> IPAddress \<Rightarrow> nat option" where
  "coveringEntry table dest = searchEntry table dest 0 0 None"

text \<open>
  The link state ID in the header of the LSA an entry stems from. The database holds an LSA under
  the link state ID of its header.
\<close>

primrec vertexID :: "Vertex \<Rightarrow> LinkStateID" where
  "vertexID (RouterVertex i) = i"
| "vertexID (NetworkVertex i) = i"

definition originID :: "OspfRoute \<Rightarrow> LinkStateID" where
  "originID e = (case linkStateOrigin e of Some v \<Rightarrow> vertexID v | None \<Rightarrow> 0)"

text \<open>The entry for a border router that has just been added to the tree.\<close>

definition addRouterEntry :: "Area \<Rightarrow> LinkStateID \<Rightarrow> RoutingInfo \<Rightarrow> OspfRoute list \<Rightarrow> OspfRoute list" where
  "addRouterEntry A v info table = (case FindRouterLSA A v of None \<Rightarrow> table
    | Some l \<Rightarrow>
      if B_AreaBorderRouter l \<or> E_ASBoundaryRouter l then
        table @ [AddNextHops (nextHops info) ((SetCost (distance info) emptyRoute)\<lparr>
          destinationID := linkStateID (rHeader l),
          linkStateOrigin := Some (RouterVertex v),
          routeArea := areaID A,
          destinationType := (if B_AreaBorderRouter l then AreaBorderRouterDestination else 0) +
            (if E_ASBoundaryRouter l then ASBoundaryRouterDestination else 0),
          optionalCapabilities := lsOptions (rHeader l)\<rparr>)]
      else table)"

text \<open>What is written into a new or an overwritten entry for a network.\<close>

definition fillNetworkEntry :: "Area \<Rightarrow> LinkStateID \<Rightarrow> OSPFNetworkLSA \<Rightarrow> RoutingInfo \<Rightarrow> OspfRoute \<Rightarrow> OspfRoute" where
  "fillNetworkEntry A v l info e = AddNextHops (nextHops info)
     ((SetCost (distance info) (e\<lparr>pathType := IntraArea\<rparr>))\<lparr>
        destinationID := linkStateID (nHeader l) AND networkMask l,
        addressMask := networkMask l,
        linkStateOrigin := Some (NetworkVertex v),
        routeArea := areaID A,
        destinationType := NetworkDestination,
        optionalCapabilities := lsOptions (nHeader l)\<rparr>)"

text \<open>The entry for a network that has just been added to the tree.\<close>

definition addNetworkEntry :: "Area \<Rightarrow> LinkStateID \<Rightarrow> RoutingInfo \<Rightarrow> OspfRoute list \<Rightarrow> OspfRoute list" where
  "addNetworkEntry A v info table = (case FindNetworkLSA A v of None \<Rightarrow> table
    | Some l \<Rightarrow>
      (case coveringEntry table (linkStateID (nHeader l) AND networkMask l) of
         None \<Rightarrow> table @ [fillNetworkEntry A v l info emptyRoute]
       | Some k \<Rightarrow>
           if cost (table ! k) \<noteq> distance info \<or> linkStateID (nHeader l) \<le> originID (table ! k)
           then table[k := fillNetworkEntry A v l info (table ! k)]
           else table))"

section \<open>The tree\<close>

record SpfState =
  treeVertices :: "Vertex list"
  candidateVertices :: "Vertex list"
  justAddedVertex :: Vertex
  spfInfo :: "Vertex \<Rightarrow> RoutingInfo"
  spfTransit :: bool
  newRoutingTable :: "OspfRoute list"
  spfFinished :: bool

text \<open>Sums of metrics are taken in 64 bits.\<close>

definition addMetric :: "Metric \<Rightarrow> Metric \<Rightarrow> Metric" where
  "addMetric a b = (a + b) mod 2 ^ 64"

text \<open>The check (2)(b) on a vertex that the one just added points at.\<close>

definition vertexAge :: "Area \<Rightarrow> Vertex \<Rightarrow> nat option" where
  "vertexAge A v = (case v of
      RouterVertex i \<Rightarrow> map_option (\<lambda>l. unat (lsAge (rHeader l))) (FindRouterLSA A i)
    | NetworkVertex i \<Rightarrow> map_option (\<lambda>l. unat (lsAge (nHeader l))) (FindNetworkLSA A i))"

definition joinable :: "Area \<Rightarrow> Vertex \<Rightarrow> Vertex \<Rightarrow> bool" where
  "joinable A joining v \<longleftrightarrow> (case vertexAge A joining of
      None \<Rightarrow> False
    | Some age \<Rightarrow> age \<noteq> MAX_AGE \<and> HasLink A joining v)"

text \<open>Steps (2)(c) and (2)(d): a joinable vertex reached with a given cost.\<close>

definition spfJoin :: "Area \<Rightarrow> Vertex \<Rightarrow> Metric \<Rightarrow> SpfState \<Rightarrow> SpfState" where
  "spfJoin A joining linkStateCost s =
    (if joining \<in> set (treeVertices s) then s
     else if joining \<in> set (candidateVertices s) then
       (if distance (spfInfo s joining) < linkStateCost then s
        else
          (let info = (if linkStateCost < distance (spfInfo s joining)
                       then (spfInfo s)(joining := (spfInfo s joining)\<lparr>distance := linkStateCost, nextHops := []\<rparr>)
                       else spfInfo s)
           in s\<lparr>spfInfo := info(joining := (info joining)\<lparr>nextHops := nextHops (info joining) @
                  CalculateNextHops A info joining (justAddedVertex s)\<rparr>)\<rparr>))
     else
       (let info = (spfInfo s)(joining := (spfInfo s joining)\<lparr>distance := linkStateCost\<rparr>)
        in s\<lparr>spfInfo := info(joining := (info joining)\<lparr>nextHops := nextHops (info joining) @
               CalculateNextHops A info joining (justAddedVertex s),
               spfParent := Some (justAddedVertex s)\<rparr>),
             candidateVertices := candidateVertices s @ [joining]\<rparr>))"

definition linkTarget :: "RouterLink \<Rightarrow> Vertex" where
  "linkTarget l = (if linkType l = TransitLink then NetworkVertex (linkID l) else RouterVertex (linkID l))"

definition spfRouterLink :: "Area \<Rightarrow> RouterLink \<Rightarrow> SpfState \<Rightarrow> SpfState" where
  "spfRouterLink A l s =
    (if linkType l = StubLink then s
     else if \<not> joinable A (linkTarget l) (justAddedVertex s) then s
     else spfJoin A (linkTarget l) (addMetric (distance (spfInfo s (justAddedVertex s))) (linkCost l)) s)"

definition spfAttachedRouter :: "Area \<Rightarrow> IPAddress \<Rightarrow> SpfState \<Rightarrow> SpfState" where
  "spfAttachedRouter A r s =
    (if \<not> joinable A (RouterVertex r) (justAddedVertex s) then s
     else spfJoin A (RouterVertex r) (distance (spfInfo s (justAddedVertex s))) s)"

definition spfExamine :: "Area \<Rightarrow> SpfState \<Rightarrow> SpfState" where
  "spfExamine A s = (case justAddedVertex s of
      RouterVertex i \<Rightarrow> (case FindRouterLSA A i of None \<Rightarrow> s
        | Some l \<Rightarrow> fold (spfRouterLink A) (links l)
            (if V_VirtualLinkEndpoint l then s\<lparr>spfTransit := True\<rparr> else s))
    | NetworkVertex i \<Rightarrow> (case FindNetworkLSA A i of None \<Rightarrow> s
        | Some l \<Rightarrow> fold (spfAttachedRouter A) (attachedRouters l) s))"

text \<open>
  Step (3): the candidate that is added next. A network goes before a router at the same
  distance.
\<close>

definition isRouterVertex :: "Vertex \<Rightarrow> bool" where
  "isRouterVertex v \<longleftrightarrow> (case v of RouterVertex _ \<Rightarrow> True | NetworkVertex _ \<Rightarrow> False)"

fun closestFrom :: "(Vertex \<Rightarrow> RoutingInfo) \<Rightarrow> Vertex list \<Rightarrow> Vertex \<Rightarrow> Metric \<Rightarrow> Vertex" where
  "closestFrom info [] closest minDistance = closest"
| "closestFrom info (c # cs) closest minDistance =
    (let currentDistance = distance (info c) in
     if currentDistance < minDistance then closestFrom info cs c currentDistance
     else if currentDistance = minDistance \<and> isRouterVertex closest \<and> \<not> isRouterVertex c
     then closestFrom info cs c minDistance
     else closestFrom info cs closest minDistance)"

definition closestVertex :: "SpfState \<Rightarrow> Vertex" where
  "closestVertex s = closestFrom (spfInfo s) (candidateVertices s) (hd (candidateVertices s)) LS_INFINITY"

definition spfAdd :: "Area \<Rightarrow> Vertex \<Rightarrow> SpfState \<Rightarrow> SpfState" where
  "spfAdd A c s = s\<lparr>
     treeVertices := treeVertices s @ [c],
     candidateVertices := remove1 c (candidateVertices s),
     newRoutingTable := (case c of
         RouterVertex i \<Rightarrow> addRouterEntry A i (spfInfo s c) (newRoutingTable s)
       | NetworkVertex i \<Rightarrow> addNetworkEntry A i (spfInfo s c) (newRoutingTable s)),
     justAddedVertex := c\<rparr>"

definition spfIteration :: "Area \<Rightarrow> SpfState \<Rightarrow> SpfState" where
  "spfIteration A s = (let s = spfExamine A s in
     if candidateVertices s = [] then s\<lparr>spfFinished := True\<rparr> else spfAdd A (closestVertex s) s)"

definition spfLoop :: "Area \<Rightarrow> SpfState \<Rightarrow> SpfState option" where
  "spfLoop A s = while_option (\<lambda>s. \<not> spfFinished s) (spfIteration A) s"

text \<open>The next hops of all LSAs in the database are cleared and the root is put on the tree.\<close>

definition clearHops :: "Area \<Rightarrow> (Vertex \<Rightarrow> RoutingInfo) \<Rightarrow> Vertex \<Rightarrow> RoutingInfo" where
  "clearHops A info v = (if vertexAge A v = None then info v else (info v)\<lparr>nextHops := []\<rparr>)"

definition spfInit :: "Area \<Rightarrow> Vertex \<Rightarrow> OspfRoute list \<Rightarrow> SpfState" where
  "spfInit A rootV table =
    (let info = clearHops A (routingInfo A) in
     \<lparr>treeVertices = [rootV], candidateVertices = [], justAddedVertex = rootV,
      spfInfo = info(rootV := (info rootV)\<lparr>distance := 0\<rparr>), spfTransit = transitCapability A,
      newRoutingTable = table, spfFinished = False\<rparr>)"

section \<open>Stub links\<close>

definition fillStubEntry ::
  "Area \<Rightarrow> (Vertex \<Rightarrow> RoutingInfo) \<Rightarrow> LinkStateID \<Rightarrow> OSPFRouterLSA \<Rightarrow> RouterLink \<Rightarrow> Metric \<Rightarrow> OspfRoute" where
  "fillStubEntry A info i l k d = AddNextHops (CalculateLinkNextHops A info k (RouterVertex i))
     ((SetCost d emptyRoute)\<lparr>
        destinationID := linkID k AND linkData k, addressMask := linkData k,
        linkStateOrigin := Some (RouterVertex i), routeArea := areaID A,
        optionalCapabilities := lsOptions (rHeader l)\<rparr>)"

text \<open>
  A cheaper stub link replaces the hops and the origin of the covering entry. At the same cost the
  hops are added; the origin is then cast to a router LSA, which aborts for a network's entry.
\<close>

definition stubLink ::
  "Area \<Rightarrow> (Vertex \<Rightarrow> RoutingInfo) \<Rightarrow> LinkStateID \<Rightarrow> OSPFRouterLSA \<Rightarrow> RouterLink \<Rightarrow>
   OspfRoute list \<Rightarrow> OspfRoute list res" where
  "stubLink A info i l k table =
    (let d = addMetric (distance (info (RouterVertex i))) (linkCost k);
         hops = CalculateLinkNextHops A info k (RouterVertex i) in
     if linkType k \<noteq> StubLink then Inr table
     else case coveringEntry table (linkID k AND linkData k) of
       None \<Rightarrow> Inr (table @ [fillStubEntry A info i l k d])
     | Some n \<Rightarrow>
        (let e = table ! n in
         if cost e < d then Inr table
         else if d < cost e then
           Inr (table[n := AddNextHops hops ((SetCost d e)\<lparr>routeNextHops := [],
             linkStateOrigin := Some (RouterVertex i)\<rparr>)])
         else (case linkStateOrigin e of
             Some (RouterVertex j) \<Rightarrow>
               Inr (table[n := AddNextHops hops
                 (if originID e < linkStateID (rHeader l)
                  then e\<lparr>linkStateOrigin := Some (RouterVertex i)\<rparr> else e)])
           | _ \<Rightarrow> Inl (OppError ''check_and_cast''))))"

definition stubLinksOf ::
  "Area \<Rightarrow> (Vertex \<Rightarrow> RoutingInfo) \<Rightarrow> Vertex \<Rightarrow> OspfRoute list \<Rightarrow> OspfRoute list res" where
  "stubLinksOf A info v table = (case v of
      RouterVertex i \<Rightarrow> (case FindRouterLSA A i of None \<Rightarrow> Inr table
        | Some l \<Rightarrow> foldRes (stubLink A info i l) (links l) table)
    | NetworkVertex _ \<Rightarrow> Inr table)"

definition shortestPathTreeFrom :: "Area \<Rightarrow> Vertex \<Rightarrow> OspfRoute list \<Rightarrow> (Area \<times> OspfRoute list) res" where
  "shortestPathTreeFrom A rootV table = (case spfLoop A (spfInit A rootV table) of
      None \<Rightarrow> Inl (Diverges ''CalculateShortestPathTree'')
    | Some s \<Rightarrow> andThen (foldRes (stubLinksOf A (spfInfo s)) (treeVertices s) (newRoutingTable s))
        (\<lambda>t. Inr (A\<lparr>routingInfo := spfInfo s, transitCapability := spfTransit s\<rparr>, t)))"

end
