(* ===== verification/OSPF_SPFProps.thy ===== *)
theory OSPF_SPFProps imports OSPF_SPF
begin

text \<open>
  The tree of the shortest path calculation: the calculation ends, the tree holds the vertices that
  links with both ends advertised connect with the root, and the distances are those of the
  shortest paths.
\<close>

section \<open>The graph\<close>

text \<open>The vertices a vertex is joined with, and the cost of the way there.\<close>

definition joinList :: "Area \<Rightarrow> Vertex \<Rightarrow> (Vertex \<times> Metric) list" where
  "joinList A v = (case v of
      RouterVertex i \<Rightarrow> (case FindRouterLSA A i of None \<Rightarrow> []
        | Some l \<Rightarrow> map (\<lambda>k. (linkTarget k, linkCost k))
            (filter (\<lambda>k. linkType k \<noteq> StubLink \<and> joinable A (linkTarget k) v) (links l)))
    | NetworkVertex i \<Rightarrow> (case FindNetworkLSA A i of None \<Rightarrow> []
        | Some l \<Rightarrow> map (\<lambda>r. (RouterVertex r, 0))
            (filter (\<lambda>r. joinable A (RouterVertex r) v) (attachedRouters l))))"

inductive spfPath :: "Area \<Rightarrow> Vertex \<Rightarrow> Vertex \<Rightarrow> Metric \<Rightarrow> bool" for A r where
  root: "spfPath A r r 0"
| step: "spfPath A r v w \<Longrightarrow> (x, c) \<in> set (joinList A v) \<Longrightarrow> spfPath A r x (w + c)"

definition vertices :: "Area \<Rightarrow> Vertex set" where
  "vertices A = RouterVertex ` fst ` set (routerLSAs A) \<union> NetworkVertex ` fst ` set (networkLSAs A)"

definition lsaCount :: "Area \<Rightarrow> nat" where
  "lsaCount A = length (routerLSAs A) + length (networkLSAs A)"

lemma finite_vertices [simp]: "finite (vertices A)"
  by (simp add: vertices_def)

lemma card_vertices: "card (vertices A) \<le> lsaCount A"
proof -
  have "card (RouterVertex ` fst ` set (routerLSAs A)) \<le> length (routerLSAs A)"
    by (metis card_image_le card_length finite_imageI finite_set le_trans)
  moreover have "card (NetworkVertex ` fst ` set (networkLSAs A)) \<le> length (networkLSAs A)"
    by (metis card_image_le card_length finite_imageI finite_set le_trans)
  ultimately show ?thesis
    unfolding vertices_def lsaCount_def
    by (meson add_mono card_Un_le le_trans)
qed

lemma joinable_vertex: "joinable A x v \<Longrightarrow> x \<in> vertices A"
  by (auto simp: joinable_def vertexAge_def vertices_def FindRouterLSA_def FindNetworkLSA_def image_iff
      split: option.splits Vertex.splits dest!: map_of_SomeD) force+

lemma joinList_vertex: "(x, c) \<in> set (joinList A v) \<Longrightarrow> x \<in> vertices A"
  by (auto simp: joinList_def split: Vertex.splits option.splits intro: joinable_vertex)

text \<open>A path out of a set of vertices leaves it over a link.\<close>

lemma path_leaves:
  assumes "spfPath A r v w" "r \<in> T" "v \<notin> T"
  shows "\<exists>x y c u. x \<in> T \<and> y \<notin> T \<and> spfPath A r x u \<and> (y, c) \<in> set (joinList A x) \<and> u + c \<le> w"
  using assms
proof (induction rule: spfPath.induct)
  case root
  then show ?case by simp
next
  case (step v w x c)
  show ?case
  proof (cases "v \<in> T")
    case True
    then show ?thesis using step by blast
  next
    case False
    then show ?thesis using step by (meson trans_le_add1)
  qed
qed

section \<open>One iteration as a fold\<close>

definition joinStep :: "Area \<Rightarrow> Metric \<Rightarrow> Vertex \<times> Metric \<Rightarrow> SpfState \<Rightarrow> SpfState" where
  "joinStep A d p s = spfJoin A (fst p) (addMetric d (snd p)) s"

lemma spfJoin_just [simp]: "justAddedVertex (spfJoin A x c s) = justAddedVertex s"
  by (simp add: spfJoin_def Let_def)

lemma spfJoin_tree [simp]: "treeVertices (spfJoin A x c s) = treeVertices s"
  by (simp add: spfJoin_def Let_def)

lemma spfJoin_finished [simp]: "spfFinished (spfJoin A x c s) = spfFinished s"
  by (simp add: spfJoin_def Let_def)

lemma spfJoin_candidates:
  "candidateVertices (spfJoin A x c s) =
     (if x \<in> set (treeVertices s) \<or> x \<in> set (candidateVertices s) then candidateVertices s
      else candidateVertices s @ [x])"
  by (simp add: spfJoin_def Let_def)

lemma spfJoin_distance:
  "distance (spfInfo (spfJoin A x c s) v) =
     (if v \<noteq> x \<or> x \<in> set (treeVertices s) then distance (spfInfo s v)
      else if x \<in> set (candidateVertices s) then min c (distance (spfInfo s x)) else c)"
  by (simp add: spfJoin_def Let_def)

lemma spfJoin_just_distance:
  "justAddedVertex s \<in> set (treeVertices s) \<Longrightarrow>
   distance (spfInfo (spfJoin A x c s) (justAddedVertex s)) = distance (spfInfo s (justAddedVertex s))"
  by (auto simp: spfJoin_distance)

lemma fold_spfRouterLink:
  "justAddedVertex s \<in> set (treeVertices s) \<Longrightarrow>
   fold (spfRouterLink A) ls s =
     fold (joinStep A (distance (spfInfo s (justAddedVertex s))))
       (map (\<lambda>k. (linkTarget k, linkCost k))
         (filter (\<lambda>k. linkType k \<noteq> StubLink \<and> joinable A (linkTarget k) (justAddedVertex s)) ls)) s"
proof (induction ls arbitrary: s)
  case (Cons k ls)
  let ?d = "distance (spfInfo s (justAddedVertex s))"
  let ?s = "spfJoin A (linkTarget k) (addMetric ?d (linkCost k)) s"
  show ?case
  proof (cases "linkType k \<noteq> StubLink \<and> joinable A (linkTarget k) (justAddedVertex s)")
    case True
    then have "spfRouterLink A k s = ?s" and "joinStep A ?d (linkTarget k, linkCost k) s = ?s"
      by (simp_all add: spfRouterLink_def joinStep_def)
    with True show ?thesis
      using Cons.IH [of ?s] Cons.prems by (simp add: spfJoin_just_distance)
  next
    case False
    then have "spfRouterLink A k s = s" by (auto simp: spfRouterLink_def)
    with False show ?thesis using Cons.IH [of s] Cons.prems by auto
  qed
qed simp

lemma fold_spfAttachedRouter:
  "justAddedVertex s \<in> set (treeVertices s) \<Longrightarrow>
   distance (spfInfo s (justAddedVertex s)) < 2 ^ 64 \<Longrightarrow>
   fold (spfAttachedRouter A) rs s =
     fold (joinStep A (distance (spfInfo s (justAddedVertex s))))
       (map (\<lambda>r. (RouterVertex r, 0)) (filter (\<lambda>r. joinable A (RouterVertex r) (justAddedVertex s)) rs)) s"
proof (induction rs arbitrary: s)
  case (Cons r rs)
  let ?d = "distance (spfInfo s (justAddedVertex s))"
  let ?s = "spfJoin A (RouterVertex r) ?d s"
  show ?case
  proof (cases "joinable A (RouterVertex r) (justAddedVertex s)")
    case True
    then have "spfAttachedRouter A r s = ?s" and "joinStep A ?d (RouterVertex r, 0) s = ?s"
      using Cons.prems by (simp_all add: spfAttachedRouter_def joinStep_def addMetric_def)
    with True show ?thesis
      using Cons.IH [of ?s] Cons.prems by (simp add: spfJoin_just_distance)
  next
    case False
    then have "spfAttachedRouter A r s = s" by (simp add: spfAttachedRouter_def)
    with False show ?thesis using Cons.IH [of s] Cons.prems by simp
  qed
qed simp

text \<open>What the examination of a vertex does to the candidates and the distances.\<close>

definition joined ::
  "Metric \<Rightarrow> (Vertex \<times> Metric) list \<Rightarrow> SpfState \<Rightarrow> SpfState \<Rightarrow> bool" where
  "joined d ps s s' \<longleftrightarrow>
     treeVertices s' = treeVertices s \<and> justAddedVertex s' = justAddedVertex s \<and>
     spfFinished s' = spfFinished s \<and>
     (distinct (candidateVertices s) \<longrightarrow> distinct (candidateVertices s')) \<and>
     set (candidateVertices s') =
       set (candidateVertices s) \<union> (fst ` set ps - set (treeVertices s)) \<and>
     (\<forall>v. v \<in> set (treeVertices s) \<longrightarrow> distance (spfInfo s' v) = distance (spfInfo s v)) \<and>
     (\<forall>v\<in>set (candidateVertices s) - set (treeVertices s).
        distance (spfInfo s' v) \<le> distance (spfInfo s v)) \<and>
     (\<forall>(v, c)\<in>set ps. v \<notin> set (treeVertices s) \<longrightarrow> distance (spfInfo s' v) \<le> addMetric d c) \<and>
     (\<forall>v\<in>set (candidateVertices s') - set (treeVertices s).
        (v \<in> set (candidateVertices s) \<and> distance (spfInfo s' v) = distance (spfInfo s v)) \<or>
        (\<exists>c. (v, c) \<in> set ps \<and> distance (spfInfo s' v) = addMetric d c))"

lemma joined_Nil: "joined d [] s s"
  by (simp add: joined_def)

lemma joined_Cons:
  assumes "joined d ps (joinStep A d p s) s'"
  shows "joined d (p # ps) s s'"
proof -
  obtain x c where p: "p = (x, c)" by (cases p)
  let ?s = "joinStep A d p s"
  have tree: "treeVertices ?s = treeVertices s" by (simp add: joinStep_def)
  have cand: "candidateVertices ?s =
     (if x \<in> set (treeVertices s) \<or> x \<in> set (candidateVertices s) then candidateVertices s
      else candidateVertices s @ [x])"
    by (simp add: joinStep_def spfJoin_candidates p)
  have dst: "distance (spfInfo ?s v) =
     (if v \<noteq> x \<or> x \<in> set (treeVertices s) then distance (spfInfo s v)
      else if x \<in> set (candidateVertices s) then min (addMetric d c) (distance (spfInfo s x))
      else addMetric d c)" for v
    by (simp add: joinStep_def spfJoin_distance p)
  note j = assms [unfolded joined_def tree]
  have 1: "distance (spfInfo s' v) \<le> distance (spfInfo s v)"
    if "v \<in> set (candidateVertices s) - set (treeVertices s)" for v
  proof -
    have "v \<in> set (candidateVertices ?s) - set (treeVertices s)" using that by (simp add: cand)
    then have "distance (spfInfo s' v) \<le> distance (spfInfo ?s v)" using j by blast
    also have "\<dots> \<le> distance (spfInfo s v)" using that by (auto simp: dst)
    finally show ?thesis .
  qed
  have 2: "distance (spfInfo s' x) \<le> addMetric d c" if "x \<notin> set (treeVertices s)"
  proof -
    have "x \<in> set (candidateVertices ?s) - set (treeVertices s)" using that by (simp add: cand)
    then have "distance (spfInfo s' x) \<le> distance (spfInfo ?s x)" using j by blast
    also have "\<dots> \<le> addMetric d c" using that by (simp add: dst)
    finally show ?thesis .
  qed
  have 3: "(v \<in> set (candidateVertices s) \<and> distance (spfInfo s' v) = distance (spfInfo s v)) \<or>
        (\<exists>e. (v, e) \<in> set (p # ps) \<and> distance (spfInfo s' v) = addMetric d e)"
    if v: "v \<in> set (candidateVertices s') - set (treeVertices s)" for v
  proof -
    have "(v \<in> set (candidateVertices ?s) \<and> distance (spfInfo s' v) = distance (spfInfo ?s v)) \<or>
        (\<exists>e. (v, e) \<in> set ps \<and> distance (spfInfo s' v) = addMetric d e)"
      using j v by blast
    then show ?thesis
    proof
      assume a: "v \<in> set (candidateVertices ?s) \<and> distance (spfInfo s' v) = distance (spfInfo ?s v)"
      have "(v \<in> set (candidateVertices s) \<and> distance (spfInfo ?s v) = distance (spfInfo s v)) \<or>
         (v = x \<and> distance (spfInfo ?s v) = addMetric d c)"
        using a v unfolding cand dst min_def by (auto split: if_splits)
      then show ?thesis using a p by auto
    next
      assume "\<exists>e. (v, e) \<in> set ps \<and> distance (spfInfo s' v) = addMetric d e"
      then show ?thesis by auto
    qed
  qed
  have 4: "set (candidateVertices s') =
       set (candidateVertices s) \<union> (fst ` set (p # ps) - set (treeVertices s))"
  proof -
    have "set (candidateVertices s') =
       set (candidateVertices ?s) \<union> (fst ` set ps - set (treeVertices s))"
      using j by blast
    moreover have "set (candidateVertices ?s) = set (candidateVertices s) \<union> ({x} - set (treeVertices s))"
      by (auto simp: cand)
    ultimately show ?thesis by (auto simp: p)
  qed
  have 5: "distinct (candidateVertices s')" if "distinct (candidateVertices s)"
    using j that by (simp add: cand)
  have 6: "distance (spfInfo s' v) = distance (spfInfo s v)" if "v \<in> set (treeVertices s)" for v
    using j that by (auto simp: dst)
  have 7: "justAddedVertex s' = justAddedVertex s" "spfFinished s' = spfFinished s"
    "treeVertices s' = treeVertices s"
    using j by (simp_all add: joinStep_def)
  show ?thesis
    unfolding joined_def
  proof (intro conjI ballI allI impI)
    show "distance (spfInfo s' v) \<le> distance (spfInfo s v)"
      if "v \<in> set (candidateVertices s) - set (treeVertices s)" for v
      by (rule 1 [OF that])
    show "case q of (v, c) \<Rightarrow> v \<notin> set (treeVertices s) \<longrightarrow> distance (spfInfo s' v) \<le> addMetric d c"
      if "q \<in> set (p # ps)" for q
      using that 2 j by (cases q) (auto simp: p)
  qed (use 3 4 5 6 7 in blast)+
qed

lemma joined_fold: "joined d ps s (fold (joinStep A d) ps s)"
proof (induction ps arbitrary: s)
  case Nil
  then show ?case by (simp add: joined_Nil)
next
  case (Cons p ps)
  then show ?case by (metis fold_simps(2) joined_Cons)
qed

lemma joined_transit: "joined d ps (s\<lparr>spfTransit := b\<rparr>) s' = joined d ps s s'"
  by (simp add: joined_def)

lemma spfExamine_joined:
  assumes "justAddedVertex s \<in> set (treeVertices s)"
    and "distance (spfInfo s (justAddedVertex s)) < 2 ^ 64"
  shows "joined (distance (spfInfo s (justAddedVertex s))) (joinList A (justAddedVertex s)) s
           (spfExamine A s)"
proof (cases "justAddedVertex s")
  case (RouterVertex i)
  show ?thesis
  proof (cases "FindRouterLSA A i")
    case None
    then show ?thesis by (simp add: spfExamine_def joinList_def RouterVertex joined_Nil)
  next
    case (Some l)
    let ?d = "distance (spfInfo s (RouterVertex i))"
    let ?ps = "joinList A (RouterVertex i)"
    have ps: "?ps = map (\<lambda>k. (linkTarget k, linkCost k))
       (filter (\<lambda>k. linkType k \<noteq> StubLink \<and> joinable A (linkTarget k) (RouterVertex i)) (links l))"
      by (simp add: joinList_def Some)
    have "spfExamine A s = fold (joinStep A ?d) ?ps
        (if V_VirtualLinkEndpoint l then s\<lparr>spfTransit := True\<rparr> else s)"
      unfolding ps
      using fold_spfRouterLink [of "if V_VirtualLinkEndpoint l then s\<lparr>spfTransit := True\<rparr> else s" A "links l"]
        assms RouterVertex
      by (simp add: spfExamine_def Some split: if_splits)
    then show ?thesis
      using joined_fold [of ?d ?ps s A] joined_fold [of ?d ?ps "s\<lparr>spfTransit := True\<rparr>" A]
      by (auto simp: RouterVertex joined_transit)
  qed
next
  case (NetworkVertex i)
  then show ?thesis
    using assms fold_spfAttachedRouter [of s A] joined_fold
    by (auto simp: spfExamine_def joinList_def joined_Nil split: option.splits)
qed

section \<open>The candidate added next\<close>

lemma closestFrom_least:
  "m = distance (info c) \<Longrightarrow>
   closestFrom info cs c m \<in> insert c (set cs) \<and>
   distance (info (closestFrom info cs c m)) \<le> m \<and>
   (\<forall>x\<in>set cs. distance (info (closestFrom info cs c m)) \<le> distance (info x))"
proof (induction cs arbitrary: c m)
  case (Cons x cs)
  show ?case
    using Cons.prems Cons.IH [of "distance (info x)" x] Cons.IH [of m c] Cons.IH [of m x]
    by (auto simp: Let_def)
qed simp

lemma closestVertex_least:
  assumes "candidateVertices s \<noteq> []"
    and "\<forall>x\<in>set (candidateVertices s). distance (spfInfo s x) < LS_INFINITY"
  shows "closestVertex s \<in> set (candidateVertices s) \<and>
    (\<forall>x\<in>set (candidateVertices s). distance (spfInfo s (closestVertex s)) \<le> distance (spfInfo s x))"
proof -
  obtain c cs where cs: "candidateVertices s = c # cs"
    using assms(1) by (cases "candidateVertices s") auto
  then have "closestVertex s = closestFrom (spfInfo s) cs c (distance (spfInfo s c))"
    using assms(2) by (simp add: closestVertex_def)
  then show ?thesis
    using closestFrom_least [of "distance (spfInfo s c)" "spfInfo s" c cs] by (auto simp: cs)
qed

section \<open>The invariant\<close>

text \<open>All links of a vertex on the tree have been taken into account.\<close>

definition relaxed :: "Area \<Rightarrow> SpfState \<Rightarrow> Vertex \<Rightarrow> bool" where
  "relaxed A s u \<longleftrightarrow> (\<forall>(x, c)\<in>set (joinList A u).
     x \<in> set (treeVertices s) \<union> set (candidateVertices s) \<and>
     distance (spfInfo s x) \<le> distance (spfInfo s u) + c)"

definition costsBounded :: "Area \<Rightarrow> Metric \<Rightarrow> bool" where
  "costsBounded A C \<longleftrightarrow>
     (\<forall>(i, l)\<in>set (routerLSAs A). \<forall>k\<in>set (links l). linkCost k \<le> C) \<and>
     lsaCount A * C < LS_INFINITY"

definition spfInv :: "Area \<Rightarrow> Vertex \<Rightarrow> Metric \<Rightarrow> nat \<Rightarrow> SpfState \<Rightarrow> bool" where
  "spfInv A r C n s \<longleftrightarrow>
     distinct (treeVertices s) \<and> distinct (candidateVertices s) \<and>
     set (treeVertices s) \<inter> set (candidateVertices s) = {} \<and>
     set (treeVertices s) \<union> set (candidateVertices s) \<subseteq> vertices A \<and>
     r \<in> set (treeVertices s) \<and> justAddedVertex s \<in> set (treeVertices s) \<and>
     (\<forall>v\<in>set (treeVertices s) \<union> set (candidateVertices s).
        spfPath A r v (distance (spfInfo s v)) \<and> distance (spfInfo s v) \<le> n * C) \<and>
     (\<forall>v\<in>set (treeVertices s). \<forall>w. spfPath A r v w \<longrightarrow> distance (spfInfo s v) \<le> w) \<and>
     (\<forall>u\<in>set (treeVertices s). u \<noteq> justAddedVertex s \<longrightarrow> relaxed A s u)"

lemma spfInvD:
  assumes "spfInv A r C n s"
  shows "distinct (treeVertices s)" "distinct (candidateVertices s)"
    "set (treeVertices s) \<inter> set (candidateVertices s) = {}"
    "set (treeVertices s) \<union> set (candidateVertices s) \<subseteq> vertices A"
    "r \<in> set (treeVertices s)" "justAddedVertex s \<in> set (treeVertices s)"
    "v \<in> set (treeVertices s) \<union> set (candidateVertices s) \<Longrightarrow> spfPath A r v (distance (spfInfo s v))"
    "v \<in> set (treeVertices s) \<union> set (candidateVertices s) \<Longrightarrow> distance (spfInfo s v) \<le> n * C"
    "v \<in> set (treeVertices s) \<Longrightarrow> spfPath A r v w \<Longrightarrow> distance (spfInfo s v) \<le> w"
    "v \<in> set (treeVertices s) \<Longrightarrow> v \<noteq> justAddedVertex s \<Longrightarrow> relaxed A s v"
  using assms unfolding spfInv_def by blast+

lemma joinList_cost: "costsBounded A C \<Longrightarrow> (x, c) \<in> set (joinList A u) \<Longrightarrow> c \<le> C"
proof (cases u)
  case (RouterVertex i)
  assume b: "costsBounded A C" and xc: "(x, c) \<in> set (joinList A u)"
  then obtain l k where "Some l = map_of (routerLSAs A) i" "k \<in> set (links l)" "c = linkCost k"
    by (auto simp: RouterVertex joinList_def FindRouterLSA_def split: option.splits)
  moreover from this have "(i, l) \<in> set (routerLSAs A)" by (simp add: map_of_SomeD)
  ultimately show ?thesis using b by (auto simp: costsBounded_def)
next
  case (NetworkVertex i)
  assume "(x, c) \<in> set (joinList A u)"
  then show ?thesis by (auto simp: NetworkVertex joinList_def split: option.splits)
qed

lemma tree_length:
  assumes "spfInv A r C n s"
  shows "length (treeVertices s) \<le> lsaCount A"
proof -
  have "length (treeVertices s) = card (set (treeVertices s))"
    using spfInvD(1) [OF assms] by (simp add: distinct_card)
  also have "\<dots> \<le> card (vertices A)"
    using spfInvD(4) [OF assms] by (simp add: card_mono)
  finally show ?thesis using card_vertices [of A] by simp
qed

lemma addMetric_exact:
  assumes "costsBounded A C" "n < lsaCount A" "d \<le> n * C" "c \<le> C"
  shows "addMetric d c = d + c" and "d + c \<le> Suc n * C"
proof -
  show le: "d + c \<le> Suc n * C" using assms by simp
  also have "\<dots> \<le> lsaCount A * C" using assms(2) by (intro mult_le_mono1) simp
  finally have "d + c < LS_INFINITY" using assms(1) by (simp add: costsBounded_def)
  then show "addMetric d c = d + c" by (simp add: addMetric_def LS_INFINITY_def)
qed

lemma examine_inv:
  assumes inv: "spfInv A r C n s" and costs: "costsBounded A C"
    and n: "Suc n = length (treeVertices s)"
  shows "spfInv A r C (Suc n) (spfExamine A s) \<and>
    (\<forall>u\<in>set (treeVertices s). relaxed A (spfExamine A s) u) \<and>
    treeVertices (spfExamine A s) = treeVertices s \<and> spfFinished (spfExamine A s) = spfFinished s"
proof -
  let ?j = "justAddedVertex s" and ?s = "spfExamine A s"
  let ?d = "distance (spfInfo s ?j)" and ?T = "set (treeVertices s)" and ?K = "set (candidateVertices s)"
  note I = spfInvD [OF inv]
  have nl: "n < lsaCount A" using tree_length [OF inv] n by simp
  have dj: "?d \<le> n * C" using I(6) I(8) by blast
  have "?d < 2 ^ 64" using addMetric_exact [OF costs nl dj, of 0] costs
    by (simp add: addMetric_def)
  then have "joined ?d (joinList A ?j) s ?s"
    using I(6) by (rule spfExamine_joined [rotated])
  note j = this [unfolded joined_def]
  have tree: "treeVertices ?s = treeVertices s" and just: "justAddedVertex ?s = ?j"
    and fin: "spfFinished ?s = spfFinished s" and dcand: "distinct (candidateVertices ?s)"
    and cand: "set (candidateVertices ?s) = ?K \<union> (fst ` set (joinList A ?j) - ?T)"
    and keep: "\<And>v. v \<in> ?T \<Longrightarrow> distance (spfInfo ?s v) = distance (spfInfo s v)"
    and less: "\<And>v. v \<in> ?K - ?T \<Longrightarrow> distance (spfInfo ?s v) \<le> distance (spfInfo s v)"
    using j I(2) by blast+
  have new: "distance (spfInfo ?s v) \<le> ?d + c" if "(v, c) \<in> set (joinList A ?j)" "v \<notin> ?T" for v c
  proof -
    have "distance (spfInfo ?s v) \<le> addMetric ?d c" using j that by blast
    then show ?thesis using addMetric_exact [OF costs nl dj] joinList_cost [OF costs that(1)] by simp
  qed
  have old: "(v \<in> ?K \<and> distance (spfInfo ?s v) = distance (spfInfo s v)) \<or>
      (\<exists>c. (v, c) \<in> set (joinList A ?j) \<and> distance (spfInfo ?s v) = ?d + c \<and> ?d + c \<le> Suc n * C)"
    if "v \<in> set (candidateVertices ?s)" for v
  proof -
    have "v \<in> set (candidateVertices ?s) - ?T" using that cand I(3) by blast
    then have "(v \<in> ?K \<and> distance (spfInfo ?s v) = distance (spfInfo s v)) \<or>
       (\<exists>c. (v, c) \<in> set (joinList A ?j) \<and> distance (spfInfo ?s v) = addMetric ?d c)"
      using j by blast
    then show ?thesis using addMetric_exact [OF costs nl dj] joinList_cost [OF costs] by metis
  qed
  have path: "spfPath A r v (distance (spfInfo ?s v)) \<and> distance (spfInfo ?s v) \<le> Suc n * C"
    if "v \<in> ?T \<union> set (candidateVertices ?s)" for v
  proof (cases "v \<in> ?T")
    case True
    then show ?thesis using I(7,8) keep by fastforce
  next
    case False
    then have "v \<in> set (candidateVertices ?s)" using that by blast
    from old [OF this] show ?thesis
    proof
      assume "v \<in> ?K \<and> distance (spfInfo ?s v) = distance (spfInfo s v)"
      then show ?thesis using I(7,8) by fastforce
    next
      assume "\<exists>c. (v, c) \<in> set (joinList A ?j) \<and> distance (spfInfo ?s v) = ?d + c \<and> ?d + c \<le> Suc n * C"
      then show ?thesis using I(6,7) spfPath.step by (metis UnI1)
    qed
  qed
  have rel: "relaxed A ?s u" if "u \<in> ?T" for u
  proof (cases "u = ?j")
    case True
    have "x \<in> ?T \<union> set (candidateVertices ?s) \<and>
      distance (spfInfo ?s x) \<le> distance (spfInfo ?s u) + c" if xc: "(x, c) \<in> set (joinList A ?j)" for x c
    proof (cases "x \<in> ?T")
      case xT: True
      have "spfPath A r x (?d + c)" using I(6,7) xc spfPath.step by blast
      then have "distance (spfInfo s x) \<le> ?d + c" using I(9) [OF xT] by blast
      then show ?thesis using xT keep I(6) True by simp
    next
      case False
      then have "x \<in> set (candidateVertices ?s)" using cand xc by force
      then show ?thesis using new [OF xc False] keep I(6) True by simp
    qed
    then show ?thesis using True by (auto simp: relaxed_def tree)
  next
    case False
    then have r: "relaxed A s u" using I(10) that by blast
    have "x \<in> ?T \<union> set (candidateVertices ?s) \<and>
      distance (spfInfo ?s x) \<le> distance (spfInfo ?s u) + c" if xc: "(x, c) \<in> set (joinList A u)" for x c
    proof -
      have x: "x \<in> ?T \<union> ?K" "distance (spfInfo s x) \<le> distance (spfInfo s u) + c"
        using r xc by (auto simp: relaxed_def)
      have "distance (spfInfo ?s x) \<le> distance (spfInfo s x)"
        using x(1) keep less by (cases "x \<in> ?T") auto
      then show ?thesis using x keep [OF \<open>u \<in> ?T\<close>] cand by auto
    qed
    then show ?thesis by (auto simp: relaxed_def tree)
  qed
  have sub: "?T \<union> set (candidateVertices ?s) \<subseteq> vertices A"
  proof -
    have "fst ` set (joinList A ?j) \<subseteq> vertices A" using joinList_vertex by auto
    then show ?thesis using I(4) cand by blast
  qed
  have dis: "?T \<inter> set (candidateVertices ?s) = {}" using cand I(3) by blast
  have min: "distance (spfInfo ?s v) \<le> w" if "v \<in> ?T" "spfPath A r v w" for v w
    using I(9) [OF that] keep [OF that(1)] by simp
  have "spfInv A r C (Suc n) ?s"
    unfolding spfInv_def tree just
  proof (intro conjI ballI allI impI)
    show "spfPath A r v (distance (spfInfo ?s v))" "distance (spfInfo ?s v) \<le> Suc n * C"
      if "v \<in> ?T \<union> set (candidateVertices ?s)" for v
      using path [OF that] by blast+
  qed (rule I(1,5,6) dcand dis sub min rel, assumption?, assumption?)+
  then show ?thesis using rel tree fin by blast
qed

lemma add_inv:
  assumes inv: "spfInv A r C n s" and costs: "costsBounded A C"
    and n: "n = length (treeVertices s)"
    and rel: "\<forall>u\<in>set (treeVertices s). relaxed A s u"
    and cs: "candidateVertices s \<noteq> []"
  shows "spfInv A r C n (spfAdd A (closestVertex s) s)"
proof -
  note I = spfInvD [OF inv]
  let ?c = "closestVertex s" and ?T = "set (treeVertices s)" and ?K = "set (candidateVertices s)"
  let ?s = "spfAdd A ?c s"
  have "n \<le> lsaCount A" using tree_length [OF inv] n by simp
  then have "n * C < LS_INFINITY"
    using costs by (metis costsBounded_def le_less_trans mult_le_mono1)
  then have "\<forall>x\<in>?K. distance (spfInfo s x) < LS_INFINITY"
    using I(8) by (meson UnI2 le_less_trans)
  then have c: "?c \<in> ?K" and least: "\<And>x. x \<in> ?K \<Longrightarrow> distance (spfInfo s ?c) \<le> distance (spfInfo s x)"
    using closestVertex_least [OF cs] by blast+
  have min: "distance (spfInfo s ?c) \<le> w" if p: "spfPath A r ?c w" for w
  proof -
    have "?c \<notin> ?T" using c I(3) by blast
    then obtain x y e u where xy: "x \<in> ?T" "y \<notin> ?T" "spfPath A r x u" "(y, e) \<in> set (joinList A x)"
        "u + e \<le> w"
      using path_leaves [OF p I(5)] by blast
    then have "y \<in> ?K" and "distance (spfInfo s y) \<le> distance (spfInfo s x) + e"
      using rel by (auto simp: relaxed_def)
    moreover have "distance (spfInfo s x) \<le> u" using I(9) xy(1,3) by blast
    ultimately show ?thesis using least [of y] xy(5) by linarith
  qed
  have sets: "set (treeVertices ?s) = insert ?c ?T" "set (candidateVertices ?s) = ?K - {?c}"
    using I(2) by (simp_all add: spfAdd_def)
  have info: "spfInfo ?s = spfInfo s" and just: "justAddedVertex ?s = ?c"
    by (simp_all add: spfAdd_def)
  have "relaxed A ?s u" if "u \<in> ?T" for u
    using rel that unfolding relaxed_def sets info by blast
  moreover have "distinct (treeVertices ?s)" "distinct (candidateVertices ?s)"
    using I(1,2,3) c by (auto simp: spfAdd_def)
  moreover have "distance (spfInfo s v) \<le> w" if "v \<in> insert ?c ?T" "spfPath A r v w" for v w
    using that min I(9) by blast
  moreover have "spfPath A r v (distance (spfInfo s v)) \<and> distance (spfInfo s v) \<le> n * C"
    if "v \<in> insert ?c ?T \<union> (?K - {?c})" for v
    using I(7) [of v] I(8) [of v] that c by blast
  ultimately show ?thesis
    unfolding spfInv_def sets info just using I(3,4,5) c by blast
qed

section \<open>The whole calculation\<close>

definition loopInv :: "Area \<Rightarrow> Vertex \<Rightarrow> Metric \<Rightarrow> SpfState \<Rightarrow> bool" where
  "loopInv A r C s \<longleftrightarrow>
     (\<exists>n. spfInv A r C n s \<and>
       (if spfFinished s then candidateVertices s = [] \<and> (\<forall>u\<in>set (treeVertices s). relaxed A s u)
        else Suc n = length (treeVertices s)))"

lemma spfInv_finished: "spfInv A r C n (s\<lparr>spfFinished := b\<rparr>) = spfInv A r C n s"
  by (simp add: spfInv_def relaxed_def)

lemma iteration_inv:
  assumes "loopInv A r C s" "costsBounded A C" "\<not> spfFinished s"
  shows "loopInv A r C (spfIteration A s) \<and>
    (spfFinished (spfIteration A s) \<or>
     card (vertices A - set (treeVertices (spfIteration A s))) < card (vertices A - set (treeVertices s)))"
proof -
  obtain n where inv: "spfInv A r C n s" and n: "Suc n = length (treeVertices s)"
    using assms(1,3) by (auto simp: loopInv_def)
  let ?e = "spfExamine A s"
  have e: "spfInv A r C (Suc n) ?e" "\<forall>u\<in>set (treeVertices s). relaxed A ?e u"
    "treeVertices ?e = treeVertices s" "spfFinished ?e = spfFinished s"
    using examine_inv [OF inv assms(2) n] by blast+
  show ?thesis
  proof (cases "candidateVertices ?e = []")
    case True
    have "relaxed A (?e\<lparr>spfFinished := True\<rparr>) u" if "relaxed A ?e u" for u
      using that by (simp add: relaxed_def)
    then show ?thesis
      using e True by (auto simp: spfIteration_def loopInv_def spfInv_finished)
  next
    case False
    let ?a = "spfAdd A (closestVertex ?e) ?e"
    have a: "spfInv A r C (Suc n) ?a"
      using add_inv [OF e(1) assms(2)] e(2,3) n False by simp
    have "closestVertex ?e \<in> vertices A - set (treeVertices s)"
      using spfInvD(1,4) [OF a] e(3) by (auto simp: spfAdd_def)
    then have "card (vertices A - set (treeVertices ?a)) < card (vertices A - set (treeVertices s))"
      using e(3) by (intro psubset_card_mono) (auto simp: spfAdd_def)
    moreover have "spfFinished ?a = spfFinished s" using e(4) by (simp add: spfAdd_def)
    moreover have "length (treeVertices ?a) = Suc (Suc n)" using e(3) n by (simp add: spfAdd_def)
    ultimately show ?thesis
      using a False assms(3) by (auto simp: spfIteration_def loopInv_def Let_def)
  qed
qed

lemma loop_returns:
  assumes "loopInv A r C s" "costsBounded A C"
  shows "\<exists>s'. spfLoop A s = Some s' \<and> loopInv A r C s' \<and> spfFinished s'"
proof -
  let ?b = "\<lambda>s. \<not> spfFinished s"
  let ?m = "\<lambda>s. (if spfFinished s then 0 else Suc (card (vertices A - set (treeVertices s))))"
  have step: "loopInv A r C (spfIteration A s) \<and> ?m (spfIteration A s) < ?m s"
    if "loopInv A r C s \<and> ?b s" for s
    using iteration_inv [of A r C s] that assms(2) by auto
  obtain s' where s': "spfLoop A s = Some s'"
    unfolding spfLoop_def
    using measure_while_option_Some [of "loopInv A r C" ?b "spfIteration A" ?m s] step assms(1)
    by blast
  have "loopInv A r C s'"
    by (rule while_option_rule [of "loopInv A r C" ?b "spfIteration A" s])
      (use step s' assms(1) in \<open>auto simp: spfLoop_def\<close>)
  moreover have "spfFinished s'"
    using while_option_stop [OF s' [unfolded spfLoop_def]] by simp
  ultimately show ?thesis using s' by blast
qed

lemma init_inv:
  assumes "r \<in> vertices A"
  shows "loopInv A r C (spfInit A r table)"
  using assms by (auto simp: loopInv_def spfInv_def spfInit_def Let_def spfPath.root
      intro!: exI [of _ "0::nat"])

text \<open>C19: The calculation ends, and it has then put on the tree exactly the vertices that a path of
  two-way links connects with the root, each once and with the length of a shortest path as its
  distance. The metrics must be small enough for the path through all LSAs to stay under
  \<^const>\<open>LS_INFINITY\<close>, from which the search for the closest candidate starts.\<close>

theorem spf_tree_shortest:
  assumes "r \<in> vertices A" "costsBounded A C"
  shows "\<exists>s. spfLoop A (spfInit A r table) = Some s \<and> distinct (treeVertices s) \<and>
    set (treeVertices s) = {v. \<exists>w. spfPath A r v w} \<and>
    (\<forall>v\<in>set (treeVertices s). spfPath A r v (distance (spfInfo s v)) \<and>
       (\<forall>w. spfPath A r v w \<longrightarrow> distance (spfInfo s v) \<le> w))"
proof -
  obtain s where s: "spfLoop A (spfInit A r table) = Some s" "loopInv A r C s" "spfFinished s"
    using loop_returns [OF init_inv [OF assms(1)] assms(2)] by blast
  then obtain n where inv: "spfInv A r C n s" and cs: "candidateVertices s = []"
    and rel: "\<forall>u\<in>set (treeVertices s). relaxed A s u"
    by (auto simp: loopInv_def)
  note I = spfInvD [OF inv]
  have "v \<in> set (treeVertices s)" if "spfPath A r v w" for v w
  proof (rule ccontr)
    assume "v \<notin> set (treeVertices s)"
    from path_leaves [OF that I(5) this] show False
      using rel cs by (auto simp: relaxed_def)
  qed
  then have "set (treeVertices s) = {v. \<exists>w. spfPath A r v w}" using I(7) by blast
  then show ?thesis using s(1) I(1,7,9) by blast
qed

section \<open>The entries of the networks\<close>

definition netDest :: "OSPFNetworkLSA \<Rightarrow> IPAddress" where
  "netDest l = linkStateID (nHeader l) AND networkMask l"

text \<open>No network of the area contains another one.\<close>

definition noOverlap :: "Area \<Rightarrow> bool" where
  "noOverlap A \<longleftrightarrow> (\<forall>(i, l)\<in>set (networkLSAs A). \<forall>(j, m)\<in>set (networkLSAs A).
     i \<noteq> j \<longrightarrow> (netDest l AND networkMask l) \<noteq> (netDest m AND networkMask l))"

definition treeEntry :: "Area \<Rightarrow> (Vertex \<Rightarrow> RoutingInfo) \<Rightarrow> Vertex \<Rightarrow> OspfRoute list" where
  "treeEntry A info v = (case v of
      RouterVertex i \<Rightarrow> addRouterEntry A i (info v) []
    | NetworkVertex i \<Rightarrow> addNetworkEntry A i (info v) [])"

lemma searchEntry_None:
  "\<forall>e\<in>set es. destinationType e = NetworkDestination \<longrightarrow>
     (destinationID e AND addressMask e) \<noteq> (d AND addressMask e) \<Longrightarrow>
   searchEntry es d k m None = None"
  by (induction es arbitrary: k m) auto

lemma AddNextHops_fields [simp]:
  "destinationType (AddNextHops hs e) = destinationType e"
  "destinationID (AddNextHops hs e) = destinationID e"
  "addressMask (AddNextHops hs e) = addressMask e"
  "cost (AddNextHops hs e) = cost e"
  "linkStateOrigin (AddNextHops hs e) = linkStateOrigin e"
  unfolding AddNextHops_def
  by (induction hs arbitrary: e) (simp_all add: AddNextHop_def Let_def)

lemma AddNextHops_hops [simp]:
  "routeNextHops (AddNextHops hs e) = routeNextHops e @ hs"
  unfolding AddNextHops_def
  by (induction hs arbitrary: e) (simp_all add: AddNextHop_def Let_def)

lemma treeEntry_network:
  assumes "e \<in> set (treeEntry A info v)" "destinationType e = NetworkDestination"
  obtains i l where "v = NetworkVertex i" "(i, l) \<in> set (networkLSAs A)"
    "destinationID e = netDest l" "addressMask e = networkMask l"
proof (cases v)
  case (RouterVertex i)
  then show ?thesis
    using assms by (auto simp: treeEntry_def addRouterEntry_def NetworkDestination_def
        AreaBorderRouterDestination_def ASBoundaryRouterDestination_def split: option.splits if_splits)
next
  case (NetworkVertex i)
  then obtain l where l: "Some l = FindNetworkLSA A i" "e = fillNetworkEntry A i l (info v) emptyRoute"
    using assms(1) by (auto simp: treeEntry_def addNetworkEntry_def coveringEntry_def split: option.splits)
  then show ?thesis
    using that NetworkVertex map_of_SomeD [OF l(1) [unfolded FindNetworkLSA_def, symmetric]]
    by (simp add: fillNetworkEntry_def netDest_def)
qed

lemma new_entry:
  assumes "noOverlap A" "c \<notin> set vs"
    and "table = concat (map (treeEntry A info) vs)"
  shows "(case c of RouterVertex i \<Rightarrow> addRouterEntry A i ri table
     | NetworkVertex i \<Rightarrow> addNetworkEntry A i ri table) =
    table @ treeEntry A (\<lambda>_. ri) c"
proof (cases c)
  case (RouterVertex i)
  then show ?thesis by (simp add: treeEntry_def addRouterEntry_def split: option.splits)
next
  case (NetworkVertex i)
  show ?thesis
  proof (cases "FindNetworkLSA A i")
    case None
    then show ?thesis by (simp add: NetworkVertex treeEntry_def addNetworkEntry_def)
  next
    case (Some m)
    have "coveringEntry table (netDest m) = None"
      unfolding coveringEntry_def
    proof (rule searchEntry_None, intro ballI impI)
      fix e assume e: "e \<in> set table" "destinationType e = NetworkDestination"
      then obtain v where v: "v \<in> set vs" "e \<in> set (treeEntry A info v)"
        by (auto simp: assms(3))
      obtain j l where l: "v = NetworkVertex j" "(j, l) \<in> set (networkLSAs A)"
        "destinationID e = netDest l" "addressMask e = networkMask l"
        using treeEntry_network [OF v(2) e(2)] by blast
      have "j \<noteq> i" using l(1) v(1) assms(2) NetworkVertex by blast
      moreover have "(i, m) \<in> set (networkLSAs A)"
        using Some by (simp add: FindNetworkLSA_def map_of_SomeD)
      ultimately show "(destinationID e AND addressMask e) \<noteq> (netDest m AND addressMask e)"
        using assms(1) l by (fastforce simp: noOverlap_def)
    qed
    then show ?thesis
      by (simp add: NetworkVertex Some treeEntry_def addNetworkEntry_def netDest_def coveringEntry_def)
  qed
qed

definition entriesInv :: "Area \<Rightarrow> SpfState \<Rightarrow> bool" where
  "entriesInv A s \<longleftrightarrow> treeVertices s \<noteq> [] \<and>
     newRoutingTable s = concat (map (treeEntry A (spfInfo s)) (tl (treeVertices s)))"

lemma treeEntry_cong: "info v = info' v \<Longrightarrow> treeEntry A info v = treeEntry A info' v"
  by (cases v) (simp_all add: treeEntry_def)

lemma entries_cong:
  assumes "entriesInv A s" "treeVertices s' = treeVertices s" "newRoutingTable s' = newRoutingTable s"
    and "\<forall>v\<in>set (treeVertices s). spfInfo s' v = spfInfo s v"
  shows "entriesInv A s'"
proof -
  have "map (treeEntry A (spfInfo s)) (tl (treeVertices s)) =
     map (treeEntry A (spfInfo s')) (tl (treeVertices s))"
    using assms(1,4) by (intro map_cong refl treeEntry_cong) (simp add: entriesInv_def list.set_sel(2))
  then show ?thesis using assms(1-3) unfolding entriesInv_def by metis
qed

lemma spfJoin_entries: "entriesInv A s \<Longrightarrow> entriesInv A (spfJoin A x c s)"
  by (erule entries_cong) (simp_all add: spfJoin_def Let_def)

lemma fold_entries:
  "(\<And>x s. entriesInv A s \<Longrightarrow> entriesInv A (f x s)) \<Longrightarrow> entriesInv A s \<Longrightarrow> entriesInv A (fold f xs s)"
  by (induction xs arbitrary: s) auto

lemma examine_entries:
  assumes "entriesInv A s"
  shows "entriesInv A (spfExamine A s)"
proof -
  have t: "entriesInv A (s\<lparr>spfTransit := True\<rparr>)" using assms by (simp add: entriesInv_def)
  have "entriesInv A (fold (spfRouterLink A) ls s')" if "entriesInv A s'" for ls s'
    using that by (intro fold_entries) (auto simp: spfRouterLink_def intro: spfJoin_entries)
  moreover have "entriesInv A (fold (spfAttachedRouter A) rs s')" if "entriesInv A s'" for rs s'
    using that by (intro fold_entries) (auto simp: spfAttachedRouter_def intro: spfJoin_entries)
  ultimately show ?thesis
    using assms t by (auto simp: spfExamine_def split: Vertex.splits option.splits)
qed

lemma iteration_entries:
  assumes "loopInv A r C s" "costsBounded A C" "\<not> spfFinished s" "noOverlap A" "entriesInv A s"
  shows "entriesInv A (spfIteration A s)"
proof -
  let ?e = "spfExamine A s" and ?c = "closestVertex (spfExamine A s)"
  have e: "entriesInv A ?e" by (rule examine_entries [OF assms(5)])
  show ?thesis
  proof (cases "candidateVertices ?e = []")
    case True
    then show ?thesis using e by (simp add: spfIteration_def entriesInv_def)
  next
    case False
    obtain n where "spfInv A r C n (spfIteration A s)"
      using iteration_inv [OF assms(1-3)] by (auto simp: loopInv_def)
    then have "distinct (treeVertices (spfAdd A ?c ?e))"
      using False by (simp add: spfIteration_def spfInvD(1) Let_def)
    then have "?c \<notin> set (treeVertices ?e)" by (simp add: spfAdd_def)
    moreover have "treeVertices ?e \<noteq> []" using e by (simp add: entriesInv_def)
    ultimately have c: "?c \<notin> set (tl (treeVertices ?e))" by (meson list.set_sel(2))
    have "newRoutingTable (spfAdd A ?c ?e) =
        newRoutingTable ?e @ treeEntry A (\<lambda>_. spfInfo ?e ?c) ?c"
      using new_entry [OF assms(4) c, of "newRoutingTable ?e" "spfInfo ?e" "spfInfo ?e ?c"] e
      by (simp add: spfAdd_def entriesInv_def split: Vertex.splits)
    moreover have "treeEntry A (\<lambda>_. spfInfo ?e ?c) ?c = treeEntry A (spfInfo ?e) ?c"
      by (rule treeEntry_cong) simp
    ultimately have "entriesInv A (spfAdd A ?c ?e)"
      using e by (simp add: entriesInv_def spfAdd_def)
    then show ?thesis using False by (simp add: spfIteration_def Let_def)
  qed
qed



end
