(* ===== verification/OSPF_SPFExamples.thy ===== *)
theory OSPF_SPFExamples imports OSPF_SPFProps "HOL-Library.Code_Target_Nat"
begin

text \<open>Concrete areas.\<close>

definition exHeader :: "int \<Rightarrow> LinkStateID \<Rightarrow> OSPFLSAHeader" where
  "exHeader t i = \<lparr>lsAge = 1, lsOptions = zeroOptions True, lsType = t, linkStateID = i,
     advertisingRouter = i, lsSequenceNumber = 1, lsChecksum = 0, lsaLength = 0\<rparr>"

definition exLink :: "LinkType \<Rightarrow> IPAddress \<Rightarrow> uint32 \<Rightarrow> Metric \<Rightarrow> RouterLink" where
  "exLink t i d c = \<lparr>linkID = i, linkData = d, linkType = t, numberOfTOS = 0, linkCost = c, tosData = []\<rparr>"

definition exRouterLSA :: "LinkStateID \<Rightarrow> RouterLink list \<Rightarrow> LinkStateID \<times> OSPFRouterLSA" where
  "exRouterLSA i ls = (i, \<lparr>rHeader = exHeader 1 i, V_VirtualLinkEndpoint = False,
     E_ASBoundaryRouter = False, B_AreaBorderRouter = False, numberOfLinks = length ls, links = ls\<rparr>)"

definition exNetworkLSA :: "LinkStateID \<Rightarrow> IPAddress \<Rightarrow> IPAddress list \<Rightarrow> LinkStateID \<times> OSPFNetworkLSA" where
  "exNetworkLSA i m rs = (i, \<lparr>nHeader = exHeader 2 i, networkMask = m, attachedRouters = rs\<rparr>)"

definition exNeighbor :: "RouterID \<Rightarrow> IPAddress \<Rightarrow> Neighbor" where
  "exNeighbor i a = \<lparr>nbState = NbFull, inactivityTimer = None, pollTimer = None,
     ddRetransmissionTimer = None, updateRetransmissionTimer = None,
     updateRetransmissionTimerActive = False, requestRetransmissionTimer = None,
     requestRetransmissionTimerActive = False, databaseExchangeRelationship = Master,
     firstAdjacencyInited = True, ddSequenceNumber = 0,
     lastReceivedDDPacket = \<lparr>ddpOptions = \<lparr>I_Init = True, M_More = True, MS_MasterSlave = False\<rparr>,
       ddpNeighborOptions = zeroOptions False, ddpSequenceNumber = 0\<rparr>,
     neighborID = i, neighborPriority = 1, neighborIPAddress = a, neighborOptions = zeroOptions True,
     neighborsDesignatedRouter = NullDesignatedRouterID,
     neighborsBackupDesignatedRouter = NullDesignatedRouterID, designatedRoutersSetUp = True,
     neighborsRouterDeadInterval = 40, linkStateRetransmissionList = [], databaseSummaryList = [],
     linkStateRequestList = [], transmittedLSAs = [], lastTransmittedDDPacket = None\<rparr>"

definition exInterface :: "OSPFInterfaceType \<Rightarrow> nat \<Rightarrow> IPAddress \<Rightarrow> IPAddress \<Rightarrow> DesignatedRouterID \<Rightarrow>
   Neighbor list \<Rightarrow> OspfInterface" where
  "exInterface t i a m dr ns = fold AddNeighbor ns \<lparr>interfaceType = t,
     ifState = (if t = PointToPoint then IfPointToPoint else IfNotDesignatedRouter),
     ifIndex = i, transitAreaID = 0, ifMTU = 1500, ifAddress = a, ifMask = m, routerPriority = 1, interfaceOutputCost = 1,
     pollInterval = 120, retransmissionInterval = 5, interfaceTransmissionDelay = 1, neighboringRouters = [],
     neighboringRoutersByID = (\<lambda>_. None), neighboringRoutersByAddress = (\<lambda>_. None),
     designatedRouter = dr, backupDesignatedRouter = NullDesignatedRouterID\<rparr>"

definition exAreaOf :: "OspfInterface list \<Rightarrow> (LinkStateID \<times> OSPFRouterLSA) list \<Rightarrow>
   (LinkStateID \<times> OSPFNetworkLSA) list \<Rightarrow> Area" where
  "exAreaOf ifs rs ns = \<lparr>areaID = 1, routerID = 1, externalRoutingCapability = True,
     transitCapability = False, associatedInterfaces = ifs, hostRoutes = [], routerLSAs = rs,
     networkLSAs = ns, summaryLSAs = [], spfTreeRoot = Some (RouterVertex 1), routingInfo = (\<lambda>_. emptyRoutingInfo)\<rparr>"

text \<open>
  Router 1 has a slow way of cost 10 to the network 10.0.0.0/8 and a fast one over router 2, which
  costs 2; router 3 is on the network.
\<close>

definition exInterfaces :: "OspfInterface list" where
  "exInterfaces =
     [exInterface Broadcast 101 0x0A000001 0xFF000000 \<lparr>drRouterID = 2, ipInterfaceAddress = 0x0A000002\<rparr>
        [exNeighbor 2 0x0A000002, exNeighbor 3 0x0A000003],
      exInterface PointToPoint 102 0x14000001 0xFFFFFFFC NullDesignatedRouterID
        [exNeighbor 2 0x14000002]]"

definition exArea :: Area where
  "exArea = exAreaOf exInterfaces
     [exRouterLSA 1 [exLink TransitLink 0x0A000002 0x0A000001 10, exLink PointToPointLink 2 0x14000001 1],
      exRouterLSA 2 [exLink TransitLink 0x0A000002 0x0A000002 1, exLink PointToPointLink 1 0x14000002 1],
      exRouterLSA 3 [exLink TransitLink 0x0A000002 0x0A000003 1]]
     [exNetworkLSA 0x0A000002 0xFF000000 [2, 1, 3]]"

definition spfResult :: "Area \<Rightarrow> Vertex \<Rightarrow> (Vertex \<times> Metric \<times> nat list) list option" where
  "spfResult A r = map_option (\<lambda>s. map (\<lambda>v. (v, distance (spfInfo s v), map hopIfIndex (nextHops (spfInfo s v))))
     (treeVertices s)) (spfLoop A (spfInit A r []))"

text \<open>
  The parent of a vertex stays the one over which it was found first. The network is reached over
  router 2 in the end, with its hop over the interface 102, but its parent is still the root, and
  the hop to router 3, at distance 2, is over the interface 101, whose cost is 10.
\<close>

lemma spf_stale_parent:
  "spfResult exArea (RouterVertex 1) =
     Some [(RouterVertex 1, 0, []), (RouterVertex 2, 1, [102]), (NetworkVertex 0x0A000002, 2, [102]),
           (RouterVertex 3, 2, [101])]"
  by code_simp

definition routesOf :: "OspfRoute list \<Rightarrow> (IPAddress \<times> IPAddress \<times> Metric \<times> nat list) list" where
  "routesOf t = map (\<lambda>e. (destinationID e, addressMask e, cost e, map hopIfIndex (routeNextHops e))) t"

definition routesFound :: "Area \<Rightarrow> sim_error + (IPAddress \<times> IPAddress \<times> Metric \<times> nat list) list" where
  "routesFound A = andThen (shortestPathTreeFrom A (RouterVertex 1) []) (\<lambda>(A, t). Inr (routesOf t))"

text \<open>
  The networks 10.0.0.0/8, at cost 1, and 10.1.0.0/16, at cost 2, are both reachable. The entry of
  the first is taken for one of the second and overwritten: it is lost, and its hop stays.
\<close>

definition exOverlap :: Area where
  "exOverlap = exAreaOf
     [exInterface Broadcast 101 0x0A000001 0xFF000000 \<lparr>drRouterID = 2, ipInterfaceAddress = 0x0A000002\<rparr> [],
      exInterface Broadcast 102 0x0A010001 0xFFFF0000 \<lparr>drRouterID = 2, ipInterfaceAddress = 0x0A010002\<rparr> []]
     [exRouterLSA 1 [exLink TransitLink 0x0A000002 0x0A000001 1, exLink TransitLink 0x0A010002 0x0A010001 2]]
     [exNetworkLSA 0x0A000002 0xFF000000 [2, 1], exNetworkLSA 0x0A010002 0xFFFF0000 [2, 1]]"

lemma spf_overlap_loses_route:
  "routesFound exOverlap = Inr [(0x0A010000, 0xFFFF0000, 2, [101, 102])]"
  by code_simp

text \<open>
  A router that advertises a network as a stub link, at the same cost at which the network's own
  advertisement is reached, stops the simulation: the origin of the entry is cast to a router LSA.
\<close>

definition exStub :: Area where
  "exStub = exAreaOf exInterfaces
     [exRouterLSA 1 [exLink TransitLink 0x0A000002 0x0A000001 1, exLink PointToPointLink 2 0x14000001 1],
      exRouterLSA 2 [exLink StubLink 0x0A000000 0xFF000000 0, exLink PointToPointLink 1 0x14000002 1]]
     [exNetworkLSA 0x0A000002 0xFF000000 [2, 1]]"

lemma spf_equal_stub_aborts: "routesFound exStub = Inl (OppError ''check_and_cast'')"
  by code_simp

section \<open>Witnesses\<close>

lemma exArea_hyps: "RouterVertex 1 \<in> vertices exArea" "costsBounded exArea 10" "noOverlap exArea"
  by (simp_all add: vertices_def exArea_def exAreaOf_def exRouterLSA_def costsBounded_def noOverlap_def
      lsaCount_def LS_INFINITY_def exNetworkLSA_def exLink_def)

theorem spf_tree_shortest_witness:
  "\<exists>s. spfLoop exArea (spfInit exArea (RouterVertex 1) []) = Some s \<and> distinct (treeVertices s) \<and>
    set (treeVertices s) = {v. \<exists>w. spfPath exArea (RouterVertex 1) v w} \<and>
    (\<forall>v\<in>set (treeVertices s). spfPath exArea (RouterVertex 1) v (distance (spfInfo s v)))"
  using spf_tree_shortest [OF exArea_hyps(1,2), of "[]"] by blast


end
