(* ===== verification/OSPF_Origination.thy ===== *)
theory OSPF_Origination imports OSPF_SPFExamples
begin

text \<open>
  The advertisements an area originates about the router itself and about the networks it is the
  designated router of (\<^verbatim>\<open>OriginateRouterLSA\<close>, \<^verbatim>\<open>OriginateNetworkLSA\<close> and
  \<^verbatim>\<open>HasVirtualLink\<close> of \<^verbatim>\<open>router/OSPFArea.cc\<close>), and how routers that are
  adjacent become linked in the shortest path calculation.
\<close>

section \<open>Router LSAs\<close>

definition HasVirtualLink :: "Area \<Rightarrow> AreaID \<Rightarrow> bool" where
  "HasVirtualLink A withTransitArea \<longleftrightarrow>
     \<not> (withTransitArea = BackboneAreaID \<or> areaID A \<noteq> BackboneAreaID) \<and>
     (\<exists>intf\<in>set (associatedInterfaces A).
        interfaceType intf = Virtual \<and> transitAreaID intf = withTransitArea)"

definition mkLink :: "LinkType \<Rightarrow> IPAddress \<Rightarrow> uint32 \<Rightarrow> Metric \<Rightarrow> RouterLink" where
  "mkLink t i d c = \<lparr>linkID = i, linkData = d, linkType = t, numberOfTOS = 0, linkCost = c, tosData = []\<rparr>"

definition networkStub :: "OspfInterface \<Rightarrow> RouterLink" where
  "networkStub intf = mkLink StubLink (ifAddress intf AND ifMask intf) (ifMask intf) (interfaceOutputCost intf)"

definition pointToPointLinks :: "OspfInterface \<Rightarrow> RouterLink list" where
  "pointToPointLinks intf = (case firstNeighbor intf of None \<Rightarrow> []
    | Some n \<Rightarrow>
       (if nbState n = NbFull then
          [mkLink PointToPointLink (neighborID n)
             (if ifAddress intf \<noteq> 0 then ifAddress intf else word_of_nat (ifIndex intf))
             (interfaceOutputCost intf)] else []) @
       (if ifState intf = IfPointToPoint then
          (if neighborIPAddress n \<noteq> 0 then
             [mkLink StubLink (neighborIPAddress n) 0xFFFFFFFF (interfaceOutputCost intf)]
           else if ifMask intf \<noteq> 0xFFFFFFFF then [networkStub intf] else [])
        else []))"

definition multiAccessLinks :: "RouterID \<Rightarrow> OspfInterface \<Rightarrow> RouterLink list" where
  "multiAccessLinks rid intf =
    (if ifState intf = IfWaiting then [networkStub intf]
     else if (case GetNeighborByAddress intf (ipInterfaceAddress (designatedRouter intf)) of
                None \<Rightarrow> False | Some dRouter \<Rightarrow> nbState dRouter = NbFull) \<or>
             (drRouterID (designatedRouter intf) = rid \<and> HasAnyNeighborInState intf NbFull)
     then [mkLink TransitLink (ipInterfaceAddress (designatedRouter intf)) (ifAddress intf)
             (interfaceOutputCost intf)]
     else [networkStub intf])"

definition virtualLinks :: "OspfInterface \<Rightarrow> RouterLink list" where
  "virtualLinks intf = (case firstNeighbor intf of None \<Rightarrow> []
    | Some n \<Rightarrow> if nbState n = NbFull
        then [mkLink VirtualLink (neighborID n) (ifAddress intf) (interfaceOutputCost intf)] else [])"

text \<open>For every adjacent router the code builds a link and appends the stub link once more.\<close>

definition multiPointLinks :: "OspfInterface \<Rightarrow> RouterLink list" where
  "multiPointLinks intf = (let stubLink = mkLink StubLink (ifAddress intf) 0xFFFFFFFF 0 in
     stubLink # map (\<lambda>_. stubLink) (filter (\<lambda>n. nbState n = NbFull) (neighboringRouters intf)))"

definition interfaceLinks :: "RouterID \<Rightarrow> OspfInterface \<Rightarrow> RouterLink list" where
  "interfaceLinks rid intf =
    (if ifState intf = IfDown then []
     else (if ifState intf = IfLoopback \<and> (interfaceType intf \<noteq> PointToPoint \<or> ifAddress intf \<noteq> 0)
           then [mkLink StubLink (ifAddress intf) 0xFFFFFFFF 0] else []) @
          (if ifStateValue IfLoopback < ifStateValue (ifState intf) then
             (case interfaceType intf of
                PointToPoint \<Rightarrow> pointToPointLinks intf
              | Broadcast \<Rightarrow> multiAccessLinks rid intf
              | NBMA \<Rightarrow> multiAccessLinks rid intf
              | Virtual \<Rightarrow> virtualLinks intf
              | PointToMultiPoint \<Rightarrow> multiPointLinks intf
              | UnknownType \<Rightarrow> [])
           else []))"

definition hostLink :: "HostRouteParameters \<Rightarrow> RouterLink" where
  "hostLink h = mkLink StubLink (hostAddress h) 0xFFFFFFFF (hostLinkCost h)"

definition originatedHeader :: "Area \<Rightarrow> int \<Rightarrow> LinkStateID \<Rightarrow> OSPFLSAHeader" where
  "originatedHeader A t i = \<lparr>lsAge = 0, lsOptions = zeroOptions (externalRoutingCapability A),
     lsType = t, linkStateID = i, advertisingRouter = routerID A,
     lsSequenceNumber = INITIAL_SEQUENCE_NUMBER, lsChecksum = 0, lsaLength = 0\<rparr>"

text \<open>
  The router tells the area how many areas it has, whether it is an AS boundary router and, if it
  is in the backbone, the backbone area.
\<close>

definition OriginateRouterLSA :: "nat \<Rightarrow> bool \<Rightarrow> Area option \<Rightarrow> Area \<Rightarrow> OSPFRouterLSA" where
  "OriginateRouterLSA areaCount asBoundaryRouter backbone A =
    (let ls = concat (map (interfaceLinks (routerID A)) (associatedInterfaces A)) @ map hostLink (hostRoutes A)
     in \<lparr>rHeader = originatedHeader A RouterLSAType (routerID A),
         V_VirtualLinkEndpoint = (case backbone of None \<Rightarrow> False | Some b \<Rightarrow> HasVirtualLink b (areaID A)),
         E_ASBoundaryRouter = (externalRoutingCapability A \<and> asBoundaryRouter),
         B_AreaBorderRouter = (1 < areaCount),
         numberOfLinks = length ls, links = ls\<rparr>)"

section \<open>Network LSAs\<close>

definition OriginateNetworkLSA :: "Area \<Rightarrow> OspfInterface \<Rightarrow> OSPFNetworkLSA option" where
  "OriginateNetworkLSA A intf =
    (if HasAnyNeighborInState intf NbFull then
       Some \<lparr>nHeader = originatedHeader A NetworkLSAType (ifAddress intf),
         networkMask = ifMask intf,
         attachedRouters = map neighborID (filter (\<lambda>n. nbState n = NbFull) (neighboringRouters intf)) @
           [routerID A]\<rparr>
     else None)"

section \<open>Adjacent routers are linked\<close>

text \<open>A router that has the other one as a full neighbour on a point-to-point interface.\<close>

definition adjacentOver :: "Area \<Rightarrow> OspfInterface \<Rightarrow> RouterID \<Rightarrow> bool" where
  "adjacentOver A intf other \<longleftrightarrow>
     intf \<in> set (associatedInterfaces A) \<and> interfaceType intf = PointToPoint \<and>
     ifStateValue IfLoopback < ifStateValue (ifState intf) \<and>
     (case firstNeighbor intf of None \<Rightarrow> False | Some n \<Rightarrow> nbState n = NbFull \<and> neighborID n = other)"

definition originated :: "Area \<Rightarrow> Area \<Rightarrow> bool" where
  "originated A own \<longleftrightarrow> (\<exists>k e b. FindRouterLSA A (routerID own) = Some (OriginateRouterLSA k e b own))"

lemma links_Originate [simp]:
  "links (OriginateRouterLSA k e b A) =
     concat (map (interfaceLinks (routerID A)) (associatedInterfaces A)) @ map hostLink (hostRoutes A)"
  "rHeader (OriginateRouterLSA k e b A) = originatedHeader A RouterLSAType (routerID A)"
  by (simp_all add: OriginateRouterLSA_def Let_def)

lemma originatedHeader_simps [simp]:
  "lsAge (originatedHeader A t i) = 0" "linkStateID (originatedHeader A t i) = i"
  by (simp_all add: originatedHeader_def)

lemma interface_link:
  "intf \<in> set (associatedInterfaces A) \<Longrightarrow> l \<in> set (interfaceLinks (routerID A) intf) \<Longrightarrow>
   l \<in> set (links (OriginateRouterLSA k e b A))"
  by auto

lemma adjacentOver_link:
  assumes "adjacentOver A intf other"
  shows "\<exists>l\<in>set (links (OriginateRouterLSA k e b A)). linkType l = PointToPointLink \<and> linkID l = other \<and>
    linkCost l = interfaceOutputCost intf"
proof -
  obtain n where n: "firstNeighbor intf = Some n" "nbState n = NbFull" "neighborID n = other"
    using assms by (auto simp: adjacentOver_def split: option.splits)
  let ?l = "mkLink PointToPointLink other
     (if ifAddress intf \<noteq> 0 then ifAddress intf else word_of_nat (ifIndex intf)) (interfaceOutputCost intf)"
  have "?l \<in> set (pointToPointLinks intf)" using n by (simp add: pointToPointLinks_def)
  moreover have "ifState intf \<noteq> IfDown" using assms by (auto simp: adjacentOver_def)
  ultimately have "?l \<in> set (interfaceLinks (routerID A) intf)"
    using assms by (simp add: adjacentOver_def interfaceLinks_def)
  then have "?l \<in> set (links (OriginateRouterLSA k e b A))"
    using assms interface_link unfolding adjacentOver_def by blast
  then show ?thesis by (intro bexI [of _ ?l]) (simp_all add: mkLink_def)
qed

lemma joined_by_link:
  assumes "FindRouterLSA A i = Some l" "k \<in> set (links l)" "linkType k \<noteq> StubLink"
    and "joinable A (linkTarget k) (RouterVertex i)"
  shows "(linkTarget k, linkCost k) \<in> set (joinList A (RouterVertex i))"
  using assms by (auto simp: joinList_def)

text \<open>C25: Two routers that are adjacent over point-to-point interfaces and have both originated their
  advertisements are linked in the calculation, at the cost of the interface.\<close>

theorem adjacent_routers_joined:
  assumes "originated A A1" "originated A A2"
    and "adjacentOver A1 i1 (routerID A2)" "adjacentOver A2 i2 (routerID A1)"
  shows "(RouterVertex (routerID A2), interfaceOutputCost i1) \<in> set (joinList A (RouterVertex (routerID A1)))"
proof -
  obtain k1 e1 b1 where o1: "FindRouterLSA A (routerID A1) = Some (OriginateRouterLSA k1 e1 b1 A1)"
    using assms(1) by (auto simp: originated_def)
  obtain k2 e2 b2 where o2: "FindRouterLSA A (routerID A2) = Some (OriginateRouterLSA k2 e2 b2 A2)"
    using assms(2) by (auto simp: originated_def)
  obtain l1 where l1: "l1 \<in> set (links (OriginateRouterLSA k1 e1 b1 A1))" "linkType l1 = PointToPointLink"
      "linkID l1 = routerID A2" "linkCost l1 = interfaceOutputCost i1"
    using adjacentOver_link [OF assms(3)] by blast
  obtain l2 where l2: "l2 \<in> set (links (OriginateRouterLSA k2 e2 b2 A2))" "linkType l2 = PointToPointLink"
      "linkID l2 = routerID A1"
    using adjacentOver_link [OF assms(4)] by blast
  have "HasLink A (RouterVertex (routerID A2)) (RouterVertex (routerID A1))"
    using l2 by (auto simp: HasLink_def o1 o2)
  then have "joinable A (linkTarget l1) (RouterVertex (routerID A1))"
    using l1 by (simp add: joinable_def vertexAge_def linkTarget_def o2 MAX_AGE_def)
  then show ?thesis
    using joined_by_link [OF o1 l1(1)] l1 by (simp add: linkTarget_def)
qed

text \<open>
  A network with its designated router, and a router on it that is adjacent to the designated
  router.
\<close>

definition designatedOn :: "Area \<Rightarrow> OspfInterface \<Rightarrow> RouterID \<Rightarrow> bool" where
  "designatedOn A intf other \<longleftrightarrow> isMultiAccess intf \<and>
     designatedRouter intf = \<lparr>drRouterID = routerID A, ipInterfaceAddress = ifAddress intf\<rparr> \<and>
     (\<exists>n\<in>set (neighboringRouters intf). nbState n = NbFull \<and> neighborID n = other)"

definition attachedTo :: "Area \<Rightarrow> OspfInterface \<Rightarrow> IPAddress \<Rightarrow> bool" where
  "attachedTo A intf dr \<longleftrightarrow>
     intf \<in> set (associatedInterfaces A) \<and> isMultiAccess intf \<and>
     ifStateValue IfWaiting < ifStateValue (ifState intf) \<and>
     ipInterfaceAddress (designatedRouter intf) = dr \<and>
     (case GetNeighborByAddress intf dr of None \<Rightarrow> False | Some n \<Rightarrow> nbState n = NbFull)"

lemma attachedTo_link:
  assumes "attachedTo A intf dr"
  shows "\<exists>l\<in>set (links (OriginateRouterLSA k e b A)). linkType l = TransitLink \<and> linkID l = dr \<and>
    linkCost l = interfaceOutputCost intf"
proof -
  let ?l = "mkLink TransitLink dr (ifAddress intf) (interfaceOutputCost intf)"
  have st: "ifState intf \<noteq> IfDown" "ifState intf \<noteq> IfWaiting"
    "ifStateValue IfLoopback < ifStateValue (ifState intf)"
    using assms by (auto simp: attachedTo_def)
  have "?l \<in> set (multiAccessLinks (routerID A) intf)"
    using assms st by (auto simp: attachedTo_def multiAccessLinks_def)
  then have "?l \<in> set (interfaceLinks (routerID A) intf)"
    using assms st by (auto simp: attachedTo_def isMultiAccess_def interfaceLinks_def)
  then have "?l \<in> set (links (OriginateRouterLSA k e b A))"
    using assms interface_link unfolding attachedTo_def by blast
  then show ?thesis by (intro bexI [of _ ?l]) (simp_all add: mkLink_def)
qed

text \<open>A router that is adjacent to the designated router of a network is linked with the network, and the
  network with it, once both have originated their advertisements.\<close>

theorem attached_router_joined:
  assumes "originated A A2" "designatedOn A1 i1 (routerID A2)" "attachedTo A2 i2 (ifAddress i1)"
    and "FindNetworkLSA A (ifAddress i1) = OriginateNetworkLSA A1 i1"
  shows "(NetworkVertex (ifAddress i1), interfaceOutputCost i2) \<in> set (joinList A (RouterVertex (routerID A2))) \<and>
    (RouterVertex (routerID A2), 0) \<in> set (joinList A (NetworkVertex (ifAddress i1)))"
proof -
  obtain k e b where o2: "FindRouterLSA A (routerID A2) = Some (OriginateRouterLSA k e b A2)"
    using assms(1) by (auto simp: originated_def)
  obtain n where n: "n \<in> set (neighboringRouters i1)" "nbState n = NbFull" "neighborID n = routerID A2"
    using assms(2) by (auto simp: designatedOn_def)
  then have "HasAnyNeighborInState i1 NbFull" by (auto simp: HasAnyNeighborInState_def)
  then obtain l where net: "FindNetworkLSA A (ifAddress i1) = Some l"
    and l: "nHeader l = originatedHeader A1 NetworkLSAType (ifAddress i1)"
      "routerID A2 \<in> set (attachedRouters l)"
    using assms(4) n by (simp add: OriginateNetworkLSA_def image_iff) metis
  obtain k2 where k2: "k2 \<in> set (links (OriginateRouterLSA k e b A2))" "linkType k2 = TransitLink"
      "linkID k2 = ifAddress i1" "linkCost k2 = interfaceOutputCost i2"
    using attachedTo_link [OF assms(3)] by blast
  have "HasLink A (NetworkVertex (ifAddress i1)) (RouterVertex (routerID A2))"
    using l(2) by (simp add: HasLink_def net o2)
  then have "joinable A (linkTarget k2) (RouterVertex (routerID A2))"
    using k2 by (simp add: joinable_def vertexAge_def linkTarget_def net l(1) MAX_AGE_def)
  then have 1: "(NetworkVertex (ifAddress i1), interfaceOutputCost i2) \<in> set (joinList A (RouterVertex (routerID A2)))"
    using joined_by_link [OF o2 k2(1)] k2 by (simp add: linkTarget_def)
  have "HasLink A (RouterVertex (routerID A2)) (NetworkVertex (ifAddress i1))"
    using k2 by (auto simp: HasLink_def net o2 l(1))
  then have "joinable A (RouterVertex (routerID A2)) (NetworkVertex (ifAddress i1))"
    by (simp add: joinable_def vertexAge_def o2 MAX_AGE_def)
  then have 2: "(RouterVertex (routerID A2), 0) \<in> set (joinList A (NetworkVertex (ifAddress i1)))"
    using l(2) by (auto simp: joinList_def net)
  show ?thesis using 1 2 by blast
qed

text \<open>
  On a point-to-multipoint interface the links to the neighbours are built but never appended:
  routers that are adjacent only over such interfaces are not linked.
\<close>

lemma multipoint_never_links:
  "interfaceType intf = PointToMultiPoint \<Longrightarrow> l \<in> set (interfaceLinks rid intf) \<Longrightarrow> linkType l = StubLink"
  by (auto simp: interfaceLinks_def multiPointLinks_def mkLink_def Let_def split: if_splits)

section \<open>Witnesses\<close>

text \<open>Routers 1 and 2 are adjacent over a line and over a network, on which router 1 is designated.\<close>

definition exDR :: DesignatedRouterID where
  "exDR = \<lparr>drRouterID = 1, ipInterfaceAddress = 0x0A000001\<rparr>"

definition exLine1 :: OspfInterface where
  "exLine1 = exInterface PointToPoint 101 0x14000001 0xFFFFFFFC NullDesignatedRouterID [exNeighbor 2 0x14000002]"

definition exLine2 :: OspfInterface where
  "exLine2 = exInterface PointToPoint 101 0x14000002 0xFFFFFFFC NullDesignatedRouterID [exNeighbor 1 0x14000001]"

definition exLan1 :: OspfInterface where
  "exLan1 = exInterface Broadcast 102 0x0A000001 0xFF000000 exDR [exNeighbor 2 0x0A000002]"

definition exLan2 :: OspfInterface where
  "exLan2 = exInterface Broadcast 102 0x0A000002 0xFF000000 exDR [exNeighbor 1 0x0A000001]"

definition exRouter1 :: Area where
  "exRouter1 = exAreaOf [exLine1, exLan1] [] []"

definition exRouter2 :: Area where
  "exRouter2 = (exAreaOf [exLine2, exLan2] [] [])\<lparr>routerID := 2\<rparr>"

definition exJoint :: Area where
  "exJoint = exAreaOf [] [(1, OriginateRouterLSA 1 False None exRouter1), (2, OriginateRouterLSA 1 False None exRouter2)]
     [(0x0A000001, the (OriginateNetworkLSA exRouter1 exLan1))]"

lemmas ex_joint = exDR_def exLine1_def exLine2_def exLan1_def exLan2_def exInterface_def AddNeighbor_def
  exNeighbor_def exAreaOf_def firstNeighbor_def GetNeighborByAddress_def

lemma exJoint_originated: "originated exJoint exRouter1" "originated exJoint exRouter2"
  unfolding originated_def
  by (intro exI [of _ 1] exI [of _ False] exI [of _ None];
      simp add: exJoint_def exAreaOf_def FindRouterLSA_def exRouter1_def exRouter2_def)+

theorem adjacent_routers_joined_witness:
  "(RouterVertex 2, 1) \<in> set (joinList exJoint (RouterVertex 1))"
proof -
  have 1: "adjacentOver exRouter1 exLine1 (routerID exRouter2)"
    and 2: "adjacentOver exRouter2 exLine2 (routerID exRouter1)"
    by (simp_all add: adjacentOver_def exRouter1_def exRouter2_def ex_joint)
  have "routerID exRouter1 = 1" "routerID exRouter2 = 2" "interfaceOutputCost exLine1 = 1"
    by (simp_all add: exRouter1_def exRouter2_def ex_joint)
  then show ?thesis using adjacent_routers_joined [OF exJoint_originated 1 2] by simp
qed

theorem attached_router_joined_witness:
  "(NetworkVertex 0x0A000001, 1) \<in> set (joinList exJoint (RouterVertex 2)) \<and>
   (RouterVertex 2, 0) \<in> set (joinList exJoint (NetworkVertex 0x0A000001))"
proof -
  have 1: "designatedOn exRouter1 exLan1 (routerID exRouter2)"
    by (simp add: designatedOn_def exRouter1_def exRouter2_def ex_joint isMultiAccess_def)
  have 2: "attachedTo exRouter2 exLan2 (ifAddress exLan1)"
    by (simp add: attachedTo_def exRouter2_def ex_joint isMultiAccess_def)
  have 3: "FindNetworkLSA exJoint (ifAddress exLan1) = OriginateNetworkLSA exRouter1 exLan1"
    by (simp add: FindNetworkLSA_def exJoint_def exAreaOf_def OriginateNetworkLSA_def
        HasAnyNeighborInState_def exLan1_def exInterface_def AddNeighbor_def exNeighbor_def)
  have "routerID exRouter2 = 2" "ifAddress exLan1 = 0x0A000001" "interfaceOutputCost exLan2 = 1"
    by (simp_all add: exRouter2_def ex_joint)
  then show ?thesis using attached_router_joined [OF exJoint_originated(2) 1 2 3] by simp
qed

end
