(* ===== verification/OSPF_Election.thy ===== *)
theory OSPF_Election imports OSPF_Data
begin

text \<open>
  The election of the Designated Router and the Backup Designated Router of a network
  (\<^verbatim>\<open>CalculateDesignatedRouter\<close> of \<^verbatim>\<open>interface/OSPFInterfaceState.cc\<close>): the
  scans over the neighbours, the passes, the state the interface goes to and the events its
  neighbours get.
\<close>

section \<open>The scan for the backup\<close>

record BackupScan =
  declaredBackup :: DesignatedRouterID
  declaredBackupPriority :: "8 word"
  declaredBackupID :: RouterID
  backupDeclared :: bool
  highestRouter :: DesignatedRouterID
  highestPriority :: "8 word"
  highestID :: RouterID

definition emptyBackupScan :: BackupScan where
  "emptyBackupScan = \<lparr>declaredBackup = NullDesignatedRouterID, declaredBackupPriority = 0,
     declaredBackupID = 0, backupDeclared = False, highestRouter = NullDesignatedRouterID,
     highestPriority = 0, highestID = 0\<rparr>"

text \<open>A router beats another one by its priority, then by its ID.\<close>

definition beats :: "8 word \<Rightarrow> RouterID \<Rightarrow> 8 word \<Rightarrow> RouterID \<Rightarrow> bool" where
  "beats p i p' i' \<longleftrightarrow> p' < p \<or> (p = p' \<and> i' < i)"

definition declareBackup :: "DesignatedRouterID \<Rightarrow> 8 word \<Rightarrow> RouterID \<Rightarrow> BackupScan \<Rightarrow> BackupScan" where
  "declareBackup b p i s =
     s\<lparr>declaredBackup := b, declaredBackupPriority := p, declaredBackupID := i, backupDeclared := True\<rparr>"

definition eligible :: "Neighbor \<Rightarrow> bool" where
  "eligible n \<longleftrightarrow> nbStateValue NbTwoWay \<le> nbStateValue (nbState n) \<and> neighborPriority n \<noteq> 0"

definition scanBackup :: "Neighbor \<Rightarrow> BackupScan \<Rightarrow> BackupScan" where
  "scanBackup n s =
    (if \<not> eligible n then s
     else if drRouterID (neighborsDesignatedRouter n) \<noteq> neighborID n then
       (let s = (if drRouterID (neighborsBackupDesignatedRouter n) = neighborID n \<and>
                   beats (neighborPriority n) (neighborID n) (declaredBackupPriority s) (declaredBackupID s)
                 then declareBackup (neighborsBackupDesignatedRouter n) (neighborPriority n) (neighborID n) s
                 else s)
        in if \<not> backupDeclared s \<and>
              beats (neighborPriority n) (neighborID n) (highestPriority s) (highestID s)
           then s\<lparr>highestRouter := \<lparr>drRouterID = neighborID n, ipInterfaceAddress = neighborIPAddress n\<rparr>,
                  highestPriority := neighborPriority n, highestID := neighborID n\<rparr>
           else s)
     else s)"

text \<open>The router itself, under the ID and the address it has on the interface.\<close>

definition selfRouter :: "RouterID \<Rightarrow> OspfInterface \<Rightarrow> DesignatedRouterID" where
  "selfRouter rid intf = \<lparr>drRouterID = rid, ipInterfaceAddress = ifAddress intf\<rparr>"

definition scanBackupSelf ::
  "RouterID \<Rightarrow> OspfInterface \<Rightarrow> DesignatedRouterID \<Rightarrow> DesignatedRouterID \<Rightarrow> BackupScan \<Rightarrow> BackupScan" where
  "scanBackupSelf rid intf curDR curBDR s =
    (if 0 < routerPriority intf \<and> drRouterID curDR \<noteq> rid then
       (let s = (if drRouterID curBDR = rid \<and>
                   beats (routerPriority intf) rid (declaredBackupPriority s) (declaredBackupID s)
                 then declareBackup (selfRouter rid intf) (routerPriority intf) rid s else s)
        in if \<not> backupDeclared s then
             (if beats (routerPriority intf) rid (highestPriority s) (highestID s)
              then declareBackup (selfRouter rid intf) (routerPriority intf) rid s
              else declareBackup (highestRouter s) (highestPriority s) (highestID s) s)
           else s)
     else s)"

section \<open>The scan for the designated router\<close>

record DesignatedScan =
  declaredDesignatedRouter :: DesignatedRouterID
  declaredDesignatedRouterPriority :: "8 word"
  declaredDesignatedRouterID :: RouterID
  designatedRouterDeclared :: bool

definition emptyDesignatedScan :: DesignatedScan where
  "emptyDesignatedScan = \<lparr>declaredDesignatedRouter = NullDesignatedRouterID,
     declaredDesignatedRouterPriority = 0, declaredDesignatedRouterID = 0,
     designatedRouterDeclared = False\<rparr>"

definition scanDesignated :: "Neighbor \<Rightarrow> DesignatedScan \<Rightarrow> DesignatedScan" where
  "scanDesignated n s =
    (if eligible n \<and> drRouterID (neighborsDesignatedRouter n) = neighborID n \<and>
        beats (neighborPriority n) (neighborID n) (declaredDesignatedRouterPriority s)
          (declaredDesignatedRouterID s)
     then \<lparr>declaredDesignatedRouter = neighborsDesignatedRouter n,
           declaredDesignatedRouterPriority = neighborPriority n,
           declaredDesignatedRouterID = neighborID n, designatedRouterDeclared = True\<rparr>
     else s)"

definition scanDesignatedSelf ::
  "RouterID \<Rightarrow> OspfInterface \<Rightarrow> DesignatedRouterID \<Rightarrow> DesignatedScan \<Rightarrow> DesignatedScan" where
  "scanDesignatedSelf rid intf curDR s =
    (if 0 < routerPriority intf \<and> drRouterID curDR = rid \<and>
        beats (routerPriority intf) rid (declaredDesignatedRouterPriority s)
          (declaredDesignatedRouterID s)
     then \<lparr>declaredDesignatedRouter = selfRouter rid intf,
           declaredDesignatedRouterPriority = routerPriority intf,
           declaredDesignatedRouterID = rid, designatedRouterDeclared = True\<rparr>
     else s)"

section \<open>Passes\<close>

text \<open>One turn of the loop: the designated router and the backup it declares.\<close>

definition electionPass ::
  "RouterID \<Rightarrow> OspfInterface \<Rightarrow> DesignatedRouterID \<Rightarrow> DesignatedRouterID \<Rightarrow>
   DesignatedRouterID \<times> DesignatedRouterID" where
  "electionPass rid intf curDR curBDR =
    (let b = scanBackupSelf rid intf curDR curBDR (fold scanBackup (neighboringRouters intf) emptyBackupScan);
         d = scanDesignatedSelf rid intf curDR (fold scanDesignated (neighboringRouters intf) emptyDesignatedScan)
     in (if designatedRouterDeclared d then declaredDesignatedRouter d else declaredBackup b,
         declaredBackup b))"

text \<open>The router has become one of the two or has ceased to be one.\<close>

definition roleChanged ::
  "RouterID \<Rightarrow> DesignatedRouterID \<Rightarrow> DesignatedRouterID \<Rightarrow> DesignatedRouterID \<Rightarrow> DesignatedRouterID \<Rightarrow> bool" where
  "roleChanged rid curDR curBDR newDR newBDR \<longleftrightarrow>
     ((drRouterID newDR \<noteq> 0 \<and> (drRouterID curDR = rid \<and> drRouterID newDR \<noteq> rid)) \<or>
      (drRouterID curDR \<noteq> rid \<and> drRouterID newDR = rid)) \<or>
     ((drRouterID newBDR \<noteq> 0 \<and> (drRouterID curBDR = rid \<and> drRouterID newBDR \<noteq> rid)) \<or>
      (drRouterID curBDR \<noteq> rid \<and> drRouterID newBDR = rid))"

function electionLoop ::
  "nat \<Rightarrow> RouterID \<Rightarrow> OspfInterface \<Rightarrow> DesignatedRouterID \<Rightarrow> DesignatedRouterID \<Rightarrow>
   DesignatedRouterID \<times> DesignatedRouterID" where
  "electionLoop repeatCount rid intf curDR curBDR =
    (case electionPass rid intf curDR curBDR of (newDR, newBDR) \<Rightarrow>
       if roleChanged rid curDR curBDR newDR newBDR
       then (if Suc repeatCount < 2 then electionLoop (Suc repeatCount) rid intf newDR newBDR
             else (newDR, newBDR))
       else (newDR, newBDR))"
  by pat_completeness auto
termination
  by (relation "measure (\<lambda>(k, _). 2 - k)") auto

declare electionLoop.simps [simp del]

definition elect :: "RouterID \<Rightarrow> OspfInterface \<Rightarrow> DesignatedRouterID \<times> DesignatedRouterID" where
  "elect rid intf = electionLoop 0 rid intf (designatedRouter intf) (backupDesignatedRouter intf)"

section \<open>The outcome\<close>

text \<open>
  The states the interface is put into, one after the other, from the roles the router had and has.
\<close>

definition electionStates ::
  "RouterID \<Rightarrow> OspfInterface \<Rightarrow> DesignatedRouterID \<times> DesignatedRouterID \<Rightarrow> InterfaceStateType list" where
  "electionStates rid intf new = (case new of (newDR, newBDR) \<Rightarrow>
    (let wasBackup = drRouterID (backupDesignatedRouter intf) = rid;
         wasDesignated = drRouterID (designatedRouter intf) = rid;
         wasOther = ifState intf = IfNotDesignatedRouter;
         wasWaiting = (\<not> wasBackup \<and> \<not> wasDesignated \<and> \<not> wasOther);
         isBackup = drRouterID newBDR = rid; isDesignated = drRouterID newDR = rid;
         isOther = (\<not> isBackup \<and> \<not> isDesignated)
     in (if wasBackup then (if isDesignated then [IfDesignatedRouter] else []) @
           (if isOther then [IfNotDesignatedRouter] else []) else []) @
        (if wasDesignated then (if isBackup then [IfBackup] else []) @
           (if isOther then [IfNotDesignatedRouter] else []) else []) @
        (if wasOther then (if isDesignated then [IfDesignatedRouter] else []) @
           (if isBackup then [IfBackup] else []) else []) @
        (if wasWaiting then (if isDesignated then [IfDesignatedRouter] else []) @
           (if isBackup then [IfBackup] else []) @
           (if isOther then [IfNotDesignatedRouter] else []) else [])))"

datatype ElectionEvent = EvStart | EvIsAdjacencyOK

text \<open>The events that are given to a neighbour, if its state is still the one before the election.\<close>

definition electionEvents ::
  "RouterID \<Rightarrow> OspfInterface \<Rightarrow> DesignatedRouterID \<times> DesignatedRouterID \<Rightarrow> Neighbor \<Rightarrow> ElectionEvent list" where
  "electionEvents rid intf new n = (case new of (newDR, newBDR) \<Rightarrow>
    (let wasBackup = drRouterID (backupDesignatedRouter intf) = rid;
         wasDesignated = drRouterID (designatedRouter intf) = rid;
         isBackup = drRouterID newBDR = rid; isDesignated = drRouterID newDR = rid
     in (if interfaceType intf = NBMA \<and>
            ((\<not> wasBackup \<and> isBackup) \<or> (\<not> wasDesignated \<and> isDesignated)) \<and> neighborPriority n = 0
         then [EvStart] else []) @
        (if (drRouterID newDR \<noteq> drRouterID (designatedRouter intf) \<or>
             drRouterID newBDR \<noteq> drRouterID (backupDesignatedRouter intf)) \<and>
            nbStateValue NbTwoWay \<le> nbStateValue (nbState n)
         then [EvIsAdjacencyOK] else [])))"


end
