(* ===== verification/OSPF_ElectionProps.thy ===== *)
theory OSPF_ElectionProps imports OSPF_Election
begin

text \<open>
  What an election of the designated router and its backup decides: a specification of its turns, the
  agreement of the routers of a network at the first election, and the roles of the router itself.
\<close>

section \<open>Against a specification\<close>

text \<open>A standing is a priority, an ID and the router it stands for; the best one of a list.\<close>

type_synonym Standing = "8 word \<times> RouterID \<times> DesignatedRouterID"

definition better :: "Standing \<Rightarrow> Standing \<Rightarrow> Standing" where
  "better x y = (if beats (fst x) (fst (snd x)) (fst y) (fst (snd y)) then x else y)"

definition nobody :: Standing where
  "nobody = (0, 0, NullDesignatedRouterID)"

definition bestOf :: "Standing list \<Rightarrow> Standing" where
  "bestOf xs = fold better xs nobody"

abbreviation routerOf :: "Standing \<Rightarrow> DesignatedRouterID" where
  "routerOf x \<equiv> snd (snd x)"

definition notDesignated :: "Neighbor \<Rightarrow> bool" where
  "notDesignated n \<longleftrightarrow> eligible n \<and> drRouterID (neighborsDesignatedRouter n) \<noteq> neighborID n"

text \<open>Those who say they are the backup, those who could be, those who say they are the designated router.\<close>

definition claimsIn :: "Neighbor list \<Rightarrow> Standing list" where
  "claimsIn ns = map (\<lambda>n. (neighborPriority n, neighborID n, neighborsBackupDesignatedRouter n))
     (filter (\<lambda>n. notDesignated n \<and> drRouterID (neighborsBackupDesignatedRouter n) = neighborID n) ns)"

definition standingOf :: "Neighbor \<Rightarrow> Standing" where
  "standingOf n = (neighborPriority n, neighborID n,
     \<lparr>drRouterID = neighborID n, ipInterfaceAddress = neighborIPAddress n\<rparr>)"

definition candidatesIn :: "Neighbor list \<Rightarrow> Standing list" where
  "candidatesIn ns = map standingOf (filter notDesignated ns)"

definition designatedIn :: "Neighbor list \<Rightarrow> Standing list" where
  "designatedIn ns = map (\<lambda>n. (neighborPriority n, neighborID n, neighborsDesignatedRouter n))
     (filter (\<lambda>n. eligible n \<and> drRouterID (neighborsDesignatedRouter n) = neighborID n) ns)"

definition selfStanding :: "RouterID \<Rightarrow> OspfInterface \<Rightarrow> Standing" where
  "selfStanding rid intf = (routerPriority intf, rid, selfRouter rid intf)"

definition passSpec ::
  "RouterID \<Rightarrow> OspfInterface \<Rightarrow> DesignatedRouterID \<Rightarrow> DesignatedRouterID \<Rightarrow>
   DesignatedRouterID \<times> DesignatedRouterID" where
  "passSpec rid intf curDR curBDR =
    (let takesPart = (0 < routerPriority intf);
         selfB = takesPart \<and> drRouterID curDR \<noteq> rid;
         claims = claimsIn (neighboringRouters intf) @
           (if selfB \<and> drRouterID curBDR = rid then [selfStanding rid intf] else []);
         backup = routerOf (bestOf (if claims \<noteq> [] then claims
           else if selfB then candidatesIn (neighboringRouters intf) @ [selfStanding rid intf] else []));
         designated = designatedIn (neighboringRouters intf) @
           (if takesPart \<and> drRouterID curDR = rid then [selfStanding rid intf] else [])
     in (if designated \<noteq> [] then routerOf (bestOf designated) else backup, backup))"

lemma beats_zero [simp]: "beats p i 0 0 \<longleftrightarrow> p \<noteq> 0 \<or> i \<noteq> 0"
  by (auto simp: beats_def word_gt_0)

lemma eligible_priority [simp]: "eligible n \<Longrightarrow> neighborPriority n \<noteq> 0"
  by (simp add: eligible_def)

lemma bestOf_snoc: "bestOf (xs @ [x]) = better x (bestOf xs)"
  by (simp add: bestOf_def)

lemma bestOf_Nil [simp]: "bestOf [] = nobody"
  by (simp add: bestOf_def)

lemma bestOf_claims_zero:
  assumes "\<forall>x\<in>set xs. fst x \<noteq> 0"
  shows "fst (bestOf xs) = 0 \<longleftrightarrow> xs = []"
  using assms
proof (induction xs rule: rev_induct)
  case (snoc x xs)
  then show ?case by (auto simp: bestOf_snoc better_def nobody_def beats_def word_gt_0)
qed (simp add: nobody_def)

lemma scanBackup_fold:
  assumes "s = fold scanBackup ns emptyBackupScan"
  shows "(declaredBackupPriority s, declaredBackupID s, declaredBackup s) = bestOf (claimsIn ns) \<and>
    (backupDeclared s \<longleftrightarrow> claimsIn ns \<noteq> []) \<and>
    (claimsIn ns = [] \<longrightarrow> (highestPriority s, highestID s, highestRouter s) = bestOf (candidatesIn ns))"
  using assms
proof (induction ns arbitrary: s rule: rev_induct)
  case Nil
  then show ?case by (simp add: claimsIn_def candidatesIn_def emptyBackupScan_def nobody_def)
next
  case (snoc n ns)
  let ?s = "fold scanBackup ns emptyBackupScan"
  have IH: "(declaredBackupPriority ?s, declaredBackupID ?s, declaredBackup ?s) = bestOf (claimsIn ns)"
    "backupDeclared ?s \<longleftrightarrow> claimsIn ns \<noteq> []"
    "claimsIn ns = [] \<Longrightarrow> (highestPriority ?s, highestID ?s, highestRouter ?s) = bestOf (candidatesIn ns)"
    using snoc.IH [of ?s] by blast+
  have s: "s = scanBackup n ?s" using snoc.prems by simp
  have zero: "claimsIn ns = [] \<Longrightarrow> bestOf (claimsIn ns) = nobody" by simp
  show ?case
  proof (cases "notDesignated n")
    case False
    then have "s = ?s" unfolding s scanBackup_def notDesignated_def by auto
    moreover have "claimsIn (ns @ [n]) = claimsIn ns" "candidatesIn (ns @ [n]) = candidatesIn ns"
      using False by (simp_all add: claimsIn_def candidatesIn_def)
    ultimately show ?thesis using IH by simp
  next
    case nd: True
    then have el: "eligible n" "drRouterID (neighborsDesignatedRouter n) \<noteq> neighborID n"
      by (simp_all add: notDesignated_def)
    have cand: "candidatesIn (ns @ [n]) = candidatesIn ns @ [standingOf n]"
      using nd by (simp add: candidatesIn_def)
    show ?thesis
    proof (cases "drRouterID (neighborsBackupDesignatedRouter n) = neighborID n")
      case True
      let ?c = "(neighborPriority n, neighborID n, neighborsBackupDesignatedRouter n)"
      have claims: "claimsIn (ns @ [n]) = claimsIn ns @ [?c]" using nd True by (simp add: claimsIn_def)
      have "backupDeclared ?s \<or> beats (neighborPriority n) (neighborID n)
          (declaredBackupPriority ?s) (declaredBackupID ?s)"
        using IH(1,2) zero el(1) by (auto simp: nobody_def)
      then show ?thesis
        using el True unfolding claims s bestOf_snoc
        by (auto simp: scanBackup_def declareBackup_def better_def Let_def IH(1) [symmetric])
    next
      case False
      then have claims: "claimsIn (ns @ [n]) = claimsIn ns" using nd by (simp add: claimsIn_def)
      show ?thesis
        using el False IH(1,2) unfolding claims s cand bestOf_snoc
        by (cases "claimsIn ns = []") (auto simp: scanBackup_def better_def standingOf_def Let_def IH(3) [symmetric])
    qed
  qed
qed

lemma scanDesignated_fold:
  assumes "s = fold scanDesignated ns emptyDesignatedScan"
  shows "(declaredDesignatedRouterPriority s, declaredDesignatedRouterID s, declaredDesignatedRouter s) =
      bestOf (designatedIn ns) \<and> (designatedRouterDeclared s \<longleftrightarrow> designatedIn ns \<noteq> [])"
  using assms
proof (induction ns arbitrary: s rule: rev_induct)
  case Nil
  then show ?case by (simp add: designatedIn_def emptyDesignatedScan_def nobody_def)
next
  case (snoc n ns)
  let ?s = "fold scanDesignated ns emptyDesignatedScan"
  have IH: "(declaredDesignatedRouterPriority ?s, declaredDesignatedRouterID ?s, declaredDesignatedRouter ?s) =
      bestOf (designatedIn ns)" "designatedRouterDeclared ?s \<longleftrightarrow> designatedIn ns \<noteq> []"
    using snoc.IH [of ?s] by blast+
  have s: "s = scanDesignated n ?s" using snoc.prems by simp
  show ?case
  proof (cases "eligible n \<and> drRouterID (neighborsDesignatedRouter n) = neighborID n")
    case False
    then show ?thesis using IH unfolding s by (auto simp: scanDesignated_def designatedIn_def)
  next
    case True
    let ?c = "(neighborPriority n, neighborID n, neighborsDesignatedRouter n)"
    have d: "designatedIn (ns @ [n]) = designatedIn ns @ [?c]"
      using True by (simp add: designatedIn_def)
    have "designatedRouterDeclared ?s \<or> beats (neighborPriority n) (neighborID n)
        (declaredDesignatedRouterPriority ?s) (declaredDesignatedRouterID ?s)"
      using IH True by (cases "designatedIn ns = []") (auto simp: nobody_def)
    then show ?thesis
      using True unfolding d s bestOf_snoc
      by (auto simp: scanDesignated_def better_def IH(1) [symmetric])
  qed
qed

lemma bestOf_fields:
  "(a, b, c) = bestOf xs \<Longrightarrow> fst (bestOf xs) = a \<and> fst (snd (bestOf xs)) = b \<and> routerOf (bestOf xs) = c"
  by (metis fst_conv snd_conv)

lemma scanBackupSelf_result:
  assumes "0 < routerPriority intf" "drRouterID curDR \<noteq> rid"
    and "s = fold scanBackup ns emptyBackupScan"
  shows "declaredBackup (scanBackupSelf rid intf curDR curBDR s) =
    routerOf (bestOf
      (if claimsIn ns @ (if drRouterID curBDR = rid then [selfStanding rid intf] else []) \<noteq> []
       then claimsIn ns @ (if drRouterID curBDR = rid then [selfStanding rid intf] else [])
       else candidatesIn ns @ [selfStanding rid intf]))"
proof -
  note f = scanBackup_fold [OF assms(3)]
  have b: "fst (bestOf (claimsIn ns)) = declaredBackupPriority s"
    "fst (snd (bestOf (claimsIn ns))) = declaredBackupID s"
    "routerOf (bestOf (claimsIn ns)) = declaredBackup s"
    using f bestOf_fields by blast+
  have h: "fst (bestOf (candidatesIn ns)) = highestPriority s"
    "fst (snd (bestOf (candidatesIn ns))) = highestID s"
    "routerOf (bestOf (candidatesIn ns)) = highestRouter s" if "claimsIn ns = []"
    using f that bestOf_fields by blast+
  have pos: "routerPriority intf \<noteq> 0" using assms(1) by (simp add: word_gt_0)
  show ?thesis
  proof (cases "claimsIn ns = []")
    case True
    have nb: "declaredBackupPriority s = 0" "declaredBackupID s = 0" "\<not> backupDeclared s"
      using b f True by (simp_all add: nobody_def)
    show ?thesis
      using assms(1,2) pos True nb h [OF True]
      by (auto simp: scanBackupSelf_def declareBackup_def bestOf_snoc better_def selfStanding_def
          bestOf_def nobody_def Let_def)
  next
    case False
    then show ?thesis
      using assms(1,2) f b
      by (auto simp: scanBackupSelf_def declareBackup_def bestOf_snoc better_def selfStanding_def Let_def)
  qed
qed

text \<open>C26: A turn of the election declares the routers that the specification names: the backup is the best of
  those that claim to be it, or else the best of those that do not claim to be the designated router, the
  router itself included; the designated router is the best of those that claim to be it, or else the
  backup. A router of priority 0, and the designated router itself, name a backup only if one claims it.\<close>

theorem election_pass_spec: "electionPass rid intf curDR curBDR = passSpec rid intf curDR curBDR"
proof -
  let ?ns = "neighboringRouters intf"
  let ?b = "fold scanBackup ?ns emptyBackupScan" and ?d = "fold scanDesignated ?ns emptyDesignatedScan"
  note b = scanBackup_fold [of ?b ?ns, OF refl] and d = scanDesignated_fold [of ?d ?ns, OF refl]
  have backup: "declaredBackup (scanBackupSelf rid intf curDR curBDR ?b) = snd (passSpec rid intf curDR curBDR)"
  proof (cases "0 < routerPriority intf \<and> drRouterID curDR \<noteq> rid")
    case True
    then show ?thesis
      using scanBackupSelf_result [of intf curDR rid ?b ?ns curBDR] by (simp add: passSpec_def Let_def)
  next
    case False
    have "declaredBackup ?b = routerOf (bestOf (claimsIn ?ns))" using b bestOf_fields by metis
    then show ?thesis using False by (auto simp: passSpec_def scanBackupSelf_def Let_def)
  qed
  have des: "fst (bestOf (designatedIn ?ns)) = declaredDesignatedRouterPriority ?d"
    "fst (snd (bestOf (designatedIn ?ns))) = declaredDesignatedRouterID ?d"
    "routerOf (bestOf (designatedIn ?ns)) = declaredDesignatedRouter ?d"
    using d bestOf_fields by blast+
  have pos: "0 < routerPriority intf \<Longrightarrow> routerPriority intf \<noteq> 0" by (simp add: word_gt_0)
  let ?sd = "scanDesignatedSelf rid intf curDR ?d"
  let ?ds = "designatedIn ?ns @
     (if 0 < routerPriority intf \<and> drRouterID curDR = rid then [selfStanding rid intf] else [])"
  have "(designatedRouterDeclared ?sd \<longleftrightarrow> ?ds \<noteq> []) \<and>
    (?ds \<noteq> [] \<longrightarrow> declaredDesignatedRouter ?sd = routerOf (bestOf ?ds))"
  proof (cases "0 < routerPriority intf \<and> drRouterID curDR = rid")
    case False
    then show ?thesis using d des by (auto simp: scanDesignatedSelf_def)
  next
    case True
    have "designatedRouterDeclared ?d \<or> beats (routerPriority intf) rid
        (declaredDesignatedRouterPriority ?d) (declaredDesignatedRouterID ?d)"
      using d des pos True by (cases "designatedIn ?ns = []") (auto simp: nobody_def)
    then show ?thesis
      using True d des
      by (auto simp: scanDesignatedSelf_def bestOf_snoc better_def selfStanding_def)
  qed
  then show ?thesis
    using backup by (simp add: electionPass_def passSpec_def Let_def)
qed

section \<open>The first election\<close>

definition beatsStanding :: "Standing \<Rightarrow> Standing \<Rightarrow> bool" where
  "beatsStanding x y \<longleftrightarrow> beats (fst x) (fst (snd x)) (fst y) (fst (snd y))"

lemma beatsStanding_trans: "beatsStanding x y \<Longrightarrow> \<not> beatsStanding z y \<Longrightarrow> \<not> beatsStanding z x"
  by (auto simp: beatsStanding_def beats_def)

lemma bestOf_max:
  assumes "\<forall>x\<in>set xs. fst x \<noteq> 0" "xs \<noteq> []"
  shows "bestOf xs \<in> set xs \<and> (\<forall>x\<in>set xs. \<not> beatsStanding x (bestOf xs))"
  using assms
proof (induction xs rule: rev_induct)
  case (snoc x xs)
  show ?case
  proof (cases "xs = []")
    case True
    then show ?thesis
      using snoc.prems(1)
      by (auto simp: bestOf_def better_def nobody_def beatsStanding_def beats_def word_gt_0)
  next
    case False
    then have IH: "bestOf xs \<in> set xs" "\<forall>y\<in>set xs. \<not> beatsStanding y (bestOf xs)"
      using snoc by simp_all
    show ?thesis
    proof (cases "beatsStanding x (bestOf xs)")
      case True
      then have "bestOf (xs @ [x]) = x" by (simp add: bestOf_snoc better_def beatsStanding_def)
      moreover have "\<not> beatsStanding x x" by (simp add: beatsStanding_def beats_def)
      ultimately show ?thesis using IH(2) beatsStanding_trans [OF True] by auto
    next
      case False
      then have "bestOf (xs @ [x]) = bestOf xs" by (simp add: bestOf_snoc better_def beatsStanding_def)
      then show ?thesis using IH False by auto
    qed
  qed
qed simp

lemma bestOf_same:
  assumes "set xs = set ys" "\<forall>x\<in>set xs. fst x \<noteq> 0" "inj_on (\<lambda>x. fst (snd x)) (set xs)"
  shows "bestOf xs = bestOf ys"
proof (cases "xs = []")
  case False
  then have ne: "ys \<noteq> []" using assms(1) by auto
  note x = bestOf_max [OF assms(2) False] and y = bestOf_max [OF _ ne]
  have "\<not> beatsStanding (bestOf xs) (bestOf ys)" "\<not> beatsStanding (bestOf ys) (bestOf xs)"
    using x y assms(1,2) by auto
  then have "fst (snd (bestOf xs)) = fst (snd (bestOf ys))"
    by (auto simp: beatsStanding_def beats_def)
  then show ?thesis using assms x y by (metis inj_onD)
qed (use assms in simp)

text \<open>
  The situation when the wait timer of an interface expires on a network on which nobody has become
  designated router or backup yet.
\<close>

definition firstElection :: "RouterID \<Rightarrow> OspfInterface \<Rightarrow> bool" where
  "firstElection rid intf \<longleftrightarrow> rid \<noteq> 0 \<and> 0 < routerPriority intf \<and>
     drRouterID (designatedRouter intf) = 0 \<and> drRouterID (backupDesignatedRouter intf) = 0 \<and>
     (\<forall>n\<in>set (neighboringRouters intf). eligible n \<longrightarrow>
        neighborID n \<noteq> rid \<and> drRouterID (neighborsDesignatedRouter n) \<noteq> neighborID n \<and>
        drRouterID (neighborsBackupDesignatedRouter n) \<noteq> neighborID n)"

definition electorate :: "RouterID \<Rightarrow> OspfInterface \<Rightarrow> Standing list" where
  "electorate rid intf = map standingOf (filter eligible (neighboringRouters intf)) @ [selfStanding rid intf]"

lemma firstElection_lists:
  assumes "firstElection rid intf"
  shows "claimsIn (neighboringRouters intf) = []" "designatedIn (neighboringRouters intf) = []"
    "candidatesIn (neighboringRouters intf) = map standingOf (filter eligible (neighboringRouters intf))"
proof -
  show "claimsIn (neighboringRouters intf) = []" "designatedIn (neighboringRouters intf) = []"
    using assms by (auto simp: firstElection_def claimsIn_def designatedIn_def notDesignated_def)
  have "filter notDesignated (neighboringRouters intf) = filter eligible (neighboringRouters intf)"
    using assms by (intro filter_cong refl) (auto simp: firstElection_def notDesignated_def)
  then show "candidatesIn (neighboringRouters intf) = map standingOf (filter eligible (neighboringRouters intf))"
    by (simp add: candidatesIn_def)
qed

lemma firstElection_first:
  assumes "firstElection rid intf"
  shows "electionPass rid intf (designatedRouter intf) (backupDesignatedRouter intf) =
     (routerOf (bestOf (electorate rid intf)), routerOf (bestOf (electorate rid intf)))"
  using assms firstElection_lists [OF assms]
  by (simp add: election_pass_spec passSpec_def electorate_def firstElection_def Let_def)

lemma firstElection_second:
  assumes "firstElection rid intf" "drRouterID d = rid" "drRouterID b = rid"
  shows "electionPass rid intf d b = (selfRouter rid intf, NullDesignatedRouterID)"
  using assms firstElection_lists [OF assms(1)]
  by (simp add: election_pass_spec passSpec_def firstElection_def Let_def nobody_def selfStanding_def
      bestOf_def better_def word_gt_0)

lemma electorate_eligible: "0 < routerPriority intf \<Longrightarrow> \<forall>x\<in>set (electorate rid intf). fst x \<noteq> 0"
  by (auto simp: electorate_def standingOf_def selfStanding_def eligible_def word_gt_0)

lemma electorate_id:
  "x \<in> set (electorate rid intf) \<Longrightarrow> drRouterID (routerOf x) = fst (snd x)"
  by (auto simp: electorate_def standingOf_def selfStanding_def selfRouter_def)

lemma first_election_outcome:
  assumes "firstElection rid intf"
  shows "elect rid intf = (let best = bestOf (electorate rid intf) in
    (routerOf best, if fst (snd best) = rid then NullDesignatedRouterID else routerOf best))"
proof -
  let ?best = "bestOf (electorate rid intf)"
  have pos: "0 < routerPriority intf" using assms by (simp add: firstElection_def)
  have mem: "?best \<in> set (electorate rid intf)"
    using bestOf_max [OF electorate_eligible [OF pos]] by (simp add: electorate_def)
  then have id: "drRouterID (routerOf ?best) = fst (snd ?best)" by (rule electorate_id)
  have old: "drRouterID (designatedRouter intf) = 0" "drRouterID (backupDesignatedRouter intf) = 0" "rid \<noteq> 0"
    using assms by (simp_all add: firstElection_def)
  show ?thesis
  proof (cases "fst (snd ?best) = rid")
    case True
    have "?best = selfStanding rid intf"
      using mem True assms by (auto simp: electorate_def standingOf_def firstElection_def)
    then have self: "routerOf ?best = selfRouter rid intf" by (simp add: selfStanding_def)
    have "roleChanged rid (designatedRouter intf) (backupDesignatedRouter intf) (routerOf ?best) (routerOf ?best)"
      using True id old by (simp add: roleChanged_def)
    then show ?thesis
      using True id self firstElection_first [OF assms]
        firstElection_second [OF assms, of "routerOf ?best" "routerOf ?best"]
      by (simp add: elect_def electionLoop.simps Let_def)
  next
    case False
    then have "\<not> roleChanged rid (designatedRouter intf) (backupDesignatedRouter intf) (routerOf ?best) (routerOf ?best)"
      using id old by (simp add: roleChanged_def)
    then show ?thesis
      using False firstElection_first [OF assms] by (simp add: elect_def electionLoop.simps Let_def)
  qed
qed


section \<open>The state of the interface\<close>

definition roleState :: "RouterID \<Rightarrow> DesignatedRouterID \<Rightarrow> DesignatedRouterID \<Rightarrow> InterfaceStateType" where
  "roleState rid dr bdr =
    (if drRouterID dr = rid then IfDesignatedRouter
     else if drRouterID bdr = rid then IfBackup else IfNotDesignatedRouter)"

text \<open>The router knows itself in at most one of the roles and the interface is in the state of that role,
  or in the state Waiting and without a role.\<close>

definition rolesConsistent :: "RouterID \<Rightarrow> OspfInterface \<Rightarrow> bool" where
  "rolesConsistent rid intf \<longleftrightarrow>
     \<not> (drRouterID (designatedRouter intf) = rid \<and> drRouterID (backupDesignatedRouter intf) = rid) \<and>
     (ifState intf = roleState rid (designatedRouter intf) (backupDesignatedRouter intf) \<or>
      (ifState intf = IfWaiting \<and> drRouterID (designatedRouter intf) \<noteq> rid \<and>
         drRouterID (backupDesignatedRouter intf) \<noteq> rid))"

definition othersDistinct :: "RouterID \<Rightarrow> OspfInterface \<Rightarrow> bool" where
  "othersDistinct rid intf \<longleftrightarrow>
     rid \<noteq> 0 \<and> (\<forall>n\<in>set (neighboringRouters intf). eligible n \<longrightarrow> neighborID n \<noteq> rid)"

lemma best_in:
  "\<forall>x\<in>set xs. fst x \<noteq> 0 \<Longrightarrow> xs \<noteq> [] \<Longrightarrow> bestOf xs \<in> set xs"
  using bestOf_max by blast

lemma best_claim_other:
  assumes "othersDistinct rid intf"
  shows "drRouterID (routerOf (bestOf (claimsIn (neighboringRouters intf)))) \<noteq> rid"
    "drRouterID (routerOf (bestOf (designatedIn (neighboringRouters intf)))) \<noteq> rid"
proof -
  have "bestOf (claimsIn (neighboringRouters intf)) = nobody \<or>
     bestOf (claimsIn (neighboringRouters intf)) \<in> set (claimsIn (neighboringRouters intf))"
    using best_in [of "claimsIn (neighboringRouters intf)"]
    by (cases "claimsIn (neighboringRouters intf) = []") (auto simp: claimsIn_def notDesignated_def)
  then show "drRouterID (routerOf (bestOf (claimsIn (neighboringRouters intf)))) \<noteq> rid"
    using assms by (auto simp: othersDistinct_def claimsIn_def notDesignated_def nobody_def
        NullDesignatedRouterID_def)
  have "bestOf (designatedIn (neighboringRouters intf)) = nobody \<or>
     bestOf (designatedIn (neighboringRouters intf)) \<in> set (designatedIn (neighboringRouters intf))"
    using best_in [of "designatedIn (neighboringRouters intf)"]
    by (cases "designatedIn (neighboringRouters intf) = []") (auto simp: designatedIn_def)
  then show "drRouterID (routerOf (bestOf (designatedIn (neighboringRouters intf)))) \<noteq> rid"
    using assms by (auto simp: othersDistinct_def designatedIn_def nobody_def
        NullDesignatedRouterID_def)
qed

lemma not_both_when_designated:
  assumes "othersDistinct rid intf" "drRouterID d = rid" "electionPass rid intf d b = (d', b')"
  shows "drRouterID b' \<noteq> rid"
  using assms(2,3) best_claim_other(1) [OF assms(1)] assms(1)
  by (auto simp: election_pass_spec passSpec_def Let_def nobody_def NullDesignatedRouterID_def
      othersDistinct_def split: if_splits)

lemma pass_not_both:
  assumes "othersDistinct rid intf" "electionPass rid intf d b = (d1, b1)"
    "electionPass rid intf d1 b1 = (d2, b2)" "roleChanged rid d b d1 b1"
    "\<not> (drRouterID d = rid \<and> drRouterID b = rid)"
  shows "\<not> (drRouterID d2 = rid \<and> drRouterID b2 = rid)"
proof (cases "drRouterID d1 = rid")
  case True
  then show ?thesis using not_both_when_designated [OF assms(1) _ assms(3)] by simp
next
  case d1: False
  show ?thesis
  proof (cases "designatedIn (neighboringRouters intf) = []")
    case False
    then have "d2 = routerOf (bestOf (designatedIn (neighboringRouters intf)))"
      using assms(3) d1 by (auto simp: election_pass_spec passSpec_def Let_def)
    then show ?thesis using best_claim_other(2) [OF assms(1)] by simp
  next
    case True
    have self: "drRouterID (routerOf (bestOf [selfStanding rid intf])) = rid" if "0 < routerPriority intf"
      using that by (simp add: bestOf_def better_def nobody_def selfStanding_def selfRouter_def word_gt_0)
    have "drRouterID d \<noteq> rid \<or> routerPriority intf = 0"
      using assms(2) d1 True self
      by (auto simp: election_pass_spec passSpec_def Let_def word_gt_0 split: if_splits)
    then show ?thesis
      using assms d1 True self best_claim_other(1) [OF assms(1)]
      by (cases "claimsIn (neighboringRouters intf) = []"; cases "0 < routerPriority intf";
          cases "drRouterID b = rid")
        (auto simp: election_pass_spec passSpec_def Let_def word_gt_0 roleChanged_def nobody_def
          NullDesignatedRouterID_def othersDistinct_def split: if_splits)
  qed
qed

lemma elect_not_both:
  assumes "othersDistinct rid intf"
    and "\<not> (drRouterID (designatedRouter intf) = rid \<and> drRouterID (backupDesignatedRouter intf) = rid)"
  shows "\<not> (drRouterID (fst (elect rid intf)) = rid \<and> drRouterID (snd (elect rid intf)) = rid)"
proof -
  let ?d = "designatedRouter intf" and ?b = "backupDesignatedRouter intf"
  obtain d1 b1 where 1: "electionPass rid intf ?d ?b = (d1, b1)" by (cases "electionPass rid intf ?d ?b")
  obtain d2 b2 where 2: "electionPass rid intf d1 b1 = (d2, b2)" by (cases "electionPass rid intf d1 b1")
  show ?thesis
  proof (cases "roleChanged rid ?d ?b d1 b1")
    case True
    then have "elect rid intf = (d2, b2)"
      by (simp add: elect_def electionLoop.simps 1 2)
    then show ?thesis using pass_not_both [OF assms(1) 1 2 True assms(2)] by simp
  next
    case False
    then have e: "elect rid intf = (d1, b1)"
      by (simp add: elect_def electionLoop.simps 1)
    show ?thesis
    proof (cases "drRouterID ?d = rid")
      case True
      then show ?thesis using not_both_when_designated [OF assms(1) True 1] e by simp
    next
      case d: False
      then show ?thesis using False e by (auto simp: roleChanged_def)
    qed
  qed
qed

text \<open>C28: The election never gives the router both roles, and it leaves the interface in the state of the role
  the router has afterwards.\<close>

theorem election_keeps_roles:
  assumes "othersDistinct rid intf" "rolesConsistent rid intf"
  shows "rolesConsistent rid (intf\<lparr>designatedRouter := fst (elect rid intf),
      backupDesignatedRouter := snd (elect rid intf),
      ifState := last (ifState intf # electionStates rid intf (elect rid intf))\<rparr>) \<and>
    last (ifState intf # electionStates rid intf (elect rid intf)) =
      roleState rid (fst (elect rid intf)) (snd (elect rid intf))"
proof -
  have nb: "\<not> (drRouterID (fst (elect rid intf)) = rid \<and> drRouterID (snd (elect rid intf)) = rid)"
    using elect_not_both [OF assms(1)] assms(2) by (simp add: rolesConsistent_def)
  obtain d b where e: "elect rid intf = (d, b)" by (cases "elect rid intf")
  have "last (ifState intf # electionStates rid intf (d, b)) = roleState rid d b"
    using nb assms(2)
    by (auto simp: e rolesConsistent_def electionStates_def roleState_def Let_def)
  then show ?thesis using nb by (simp add: e rolesConsistent_def)
qed

section \<open>Witnesses\<close>

definition exVoter :: "RouterID \<Rightarrow> 8 word \<Rightarrow> Neighbor" where
  "exVoter i p = \<lparr>nbState = NbTwoWay, inactivityTimer = Some 40, pollTimer = None,
     ddRetransmissionTimer = None, updateRetransmissionTimer = None,
     updateRetransmissionTimerActive = False, requestRetransmissionTimer = None,
     requestRetransmissionTimerActive = False, databaseExchangeRelationship = Master,
     firstAdjacencyInited = False, ddSequenceNumber = 0,
     lastReceivedDDPacket = \<lparr>ddpOptions = \<lparr>I_Init = True, M_More = True, MS_MasterSlave = False\<rparr>,
       ddpNeighborOptions = zeroOptions False, ddpSequenceNumber = 0\<rparr>,
     neighborID = i, neighborPriority = p, neighborIPAddress = 0x0A000000 + i,
     neighborOptions = zeroOptions True, neighborsDesignatedRouter = NullDesignatedRouterID,
     neighborsBackupDesignatedRouter = NullDesignatedRouterID, designatedRoutersSetUp = True,
     neighborsRouterDeadInterval = 40, linkStateRetransmissionList = [], databaseSummaryList = [],
     linkStateRequestList = [], transmittedLSAs = [], lastTransmittedDDPacket = None\<rparr>"

definition exVoting :: "RouterID \<Rightarrow> 8 word \<Rightarrow> Neighbor list \<Rightarrow> OspfInterface" where
  "exVoting i p ns = \<lparr>interfaceType = Broadcast, ifState = IfWaiting, ifIndex = 101, transitAreaID = 0, ifMTU = 1500,
     ifAddress = 0x0A000000 + i, ifMask = 0xFF000000, routerPriority = p, interfaceOutputCost = 1,
     pollInterval = 120, retransmissionInterval = 5, interfaceTransmissionDelay = 1, neighboringRouters = ns,
     neighboringRoutersByID = (\<lambda>_. None), neighboringRoutersByAddress = (\<lambda>_. None),
     designatedRouter = NullDesignatedRouterID, backupDesignatedRouter = NullDesignatedRouterID\<rparr>"

lemmas ex_election = firstElection_def exVoting_def exVoter_def NullDesignatedRouterID_def eligible_def
  electorate_def standingOf_def selfStanding_def selfRouter_def


theorem election_keeps_roles_witness:
  "last (ifState (exVoting 3 7 [exVoter 1 5]) #
     electionStates 3 (exVoting 3 7 [exVoter 1 5]) (elect 3 (exVoting 3 7 [exVoter 1 5]))) =
   roleState 3 (fst (elect 3 (exVoting 3 7 [exVoter 1 5]))) (snd (elect 3 (exVoting 3 7 [exVoter 1 5])))"
proof -
  have "othersDistinct 3 (exVoting 3 7 [exVoter 1 5])" "rolesConsistent 3 (exVoting 3 7 [exVoter 1 5])"
    by (simp_all add: othersDistinct_def rolesConsistent_def exVoting_def exVoter_def NullDesignatedRouterID_def)
  from election_keeps_roles [OF this] show ?thesis by blast
qed

text \<open>
  A router of priority 0 elects nobody as long as nobody claims a role: the two routers with
  priority on its network are passed over.
\<close>

lemma priority_zero_elects_nobody:
  "elect 4 (exVoting 4 0 [exVoter 2 7, exVoter 3 7]) = (NullDesignatedRouterID, NullDesignatedRouterID)"
  by code_simp

end
