(* ===== verification/OSPF_Neighbor.thy ===== *)
theory OSPF_Neighbor imports OSPF_Data
begin

text \<open>
  A neighbour of an OSPF interface (\<^verbatim>\<open>neighbor/OSPFNeighbor.cc\<close> and the state
  classes \<^verbatim>\<open>neighbor/OSPFNeighborState*.cc\<close>): its lists, timers and packets, and
  what each state does on each event. A call returns the neighbour and the packets that were sent,
  or the error of a timer that is scheduled while it is pending. What a change to or from the state
  Full does to the area's own advertisements is recorded as an output.
\<close>

section \<open>State and environment\<close>

text \<open>A request names an LSA by its type and key.\<close>

type_synonym LSARequest = "int \<times> LSAKey"

datatype OspfPacket =
    DDPacket OSPFDatabaseDescriptionPacket
  | LSRequest "LSARequest list"
  | LSUpdate "OSPFLSA list"

datatype OspfOutput =
    SendPacket OspfPacket IPAddress nat nat
  | SendHelloPacket IPAddress nat
  | RefreshLSAs NeighborStateType NeighborStateType

record NbEnv =
  envInterface :: OspfInterface
  envArea :: Area
  envASExternalLSAs :: "(LSAKey \<times> OSPFASExternalLSA) list"
  envNow :: simtime

record NbState =
  nbOf :: Neighbor
  nbOut :: "OspfOutput list"
  ddSequenceNumberInitSeed :: ulong

definition emit :: "OspfOutput \<Rightarrow> NbState \<Rightarrow> NbState" where
  "emit o1 s = s\<lparr>nbOut := nbOut s @ [o1]\<rparr>"

definition modify :: "(Neighbor \<Rightarrow> Neighbor) \<Rightarrow> NbState \<Rightarrow> NbState" where
  "modify f s = s\<lparr>nbOf := f (nbOf s)\<rparr>"

section \<open>Timers\<close>

datatype NbTimer =
  InactivityT | PollT | DDRetransmissionT | UpdateRetransmissionT | RequestRetransmissionT

primrec getTimer :: "NbTimer \<Rightarrow> Neighbor \<Rightarrow> simtime option" where
  "getTimer InactivityT n = inactivityTimer n"
| "getTimer PollT n = pollTimer n"
| "getTimer DDRetransmissionT n = ddRetransmissionTimer n"
| "getTimer UpdateRetransmissionT n = updateRetransmissionTimer n"
| "getTimer RequestRetransmissionT n = requestRetransmissionTimer n"

primrec setTimer :: "NbTimer \<Rightarrow> simtime option \<Rightarrow> Neighbor \<Rightarrow> Neighbor" where
  "setTimer InactivityT t n = n\<lparr>inactivityTimer := t\<rparr>"
| "setTimer PollT t n = n\<lparr>pollTimer := t\<rparr>"
| "setTimer DDRetransmissionT t n = n\<lparr>ddRetransmissionTimer := t\<rparr>"
| "setTimer UpdateRetransmissionT t n = n\<lparr>updateRetransmissionTimer := t\<rparr>"
| "setTimer RequestRetransmissionT t n = n\<lparr>requestRetransmissionTimer := t\<rparr>"

text \<open>\<^verbatim>\<open>scheduleAt\<close> rejects a message that is already scheduled.\<close>

definition StartTimer :: "NbEnv \<Rightarrow> NbTimer \<Rightarrow> int \<Rightarrow> NbState \<Rightarrow> NbState res" where
  "StartTimer env tm delay s = checked (getTimer tm (nbOf s) = None) (KernelError ''scheduleAt'')
     (Inr (modify (setTimer tm (Some (envNow env + of_int delay))) s))"

definition ClearTimer :: "NbTimer \<Rightarrow> NbState \<Rightarrow> NbState" where
  "ClearTimer tm s = modify (setTimer tm None) s"

definition StartUpdateRetransmissionTimer :: "NbEnv \<Rightarrow> NbState \<Rightarrow> NbState res" where
  "StartUpdateRetransmissionTimer env s =
     andThen (StartTimer env UpdateRetransmissionT (retransmissionInterval (envInterface env)) s)
       (\<lambda>s. Inr (modify (\<lambda>n. n\<lparr>updateRetransmissionTimerActive := True\<rparr>) s))"

definition ClearUpdateRetransmissionTimer :: "NbState \<Rightarrow> NbState" where
  "ClearUpdateRetransmissionTimer s =
     modify (\<lambda>n. n\<lparr>updateRetransmissionTimerActive := False\<rparr>) (ClearTimer UpdateRetransmissionT s)"

definition StartRequestRetransmissionTimer :: "NbEnv \<Rightarrow> NbState \<Rightarrow> NbState res" where
  "StartRequestRetransmissionTimer env s =
     andThen (StartTimer env RequestRetransmissionT (retransmissionInterval (envInterface env)) s)
       (\<lambda>s. Inr (modify (\<lambda>n. n\<lparr>requestRetransmissionTimerActive := True\<rparr>) s))"

definition ClearRequestRetransmissionTimer :: "NbState \<Rightarrow> NbState" where
  "ClearRequestRetransmissionTimer s =
     modify (\<lambda>n. n\<lparr>requestRetransmissionTimerActive := False\<rparr>) (ClearTimer RequestRetransmissionT s)"

section \<open>Lists\<close>

definition AddToRequestList :: "OSPFLSAHeader \<Rightarrow> NbState \<Rightarrow> NbState" where
  "AddToRequestList h s = modify (\<lambda>n. n\<lparr>linkStateRequestList := linkStateRequestList n @ [h]\<rparr>) s"

definition FindOnRequestList :: "LSAKey \<Rightarrow> Neighbor \<Rightarrow> OSPFLSAHeader option" where
  "FindOnRequestList k n = find (\<lambda>h. lsaKey h = k) (linkStateRequestList n)"

definition IsLSAOnRequestList :: "LSAKey \<Rightarrow> Neighbor \<Rightarrow> bool" where
  "IsLSAOnRequestList k n \<longleftrightarrow> (\<exists>h\<in>set (linkStateRequestList n). lsaKey h = k)"

text \<open>An LSA replaces the instance that is on the list.\<close>

fun replaceOrAppend :: "OSPFLSA \<Rightarrow> OSPFLSA list \<Rightarrow> OSPFLSA list" where
  "replaceOrAppend l [] = [l]"
| "replaceOrAppend l (x # xs) =
     (if lsaKey (lsaHeader x) = lsaKey (lsaHeader l) then l # xs else x # replaceOrAppend l xs)"

definition AddToRetransmissionList :: "OSPFLSA \<Rightarrow> NbState \<Rightarrow> NbState" where
  "AddToRetransmissionList l s =
     modify (\<lambda>n. n\<lparr>linkStateRetransmissionList := replaceOrAppend l (linkStateRetransmissionList n)\<rparr>) s"

definition RemoveFromRetransmissionList :: "LSAKey \<Rightarrow> NbState \<Rightarrow> NbState" where
  "RemoveFromRetransmissionList k s = modify (\<lambda>n. n\<lparr>linkStateRetransmissionList :=
     filter (\<lambda>l. lsaKey (lsaHeader l) \<noteq> k) (linkStateRetransmissionList n)\<rparr>) s"

definition FindOnRetransmissionList :: "LSAKey \<Rightarrow> Neighbor \<Rightarrow> OSPFLSA option" where
  "FindOnRetransmissionList k n = find (\<lambda>l. lsaKey (lsaHeader l) = k) (linkStateRetransmissionList n)"

definition AddToTransmittedLSAList :: "LSAKey \<Rightarrow> NbState \<Rightarrow> NbState" where
  "AddToTransmittedLSAList k s = modify (\<lambda>n. n\<lparr>transmittedLSAs := transmittedLSAs n @ [(k, 0)]\<rparr>) s"

definition IsOnTransmittedLSAList :: "LSAKey \<Rightarrow> Neighbor \<Rightarrow> bool" where
  "IsOnTransmittedLSAList k n \<longleftrightarrow> (\<exists>p\<in>set (transmittedLSAs n). fst p = k)"

definition MIN_LS_ARRIVAL :: nat where "MIN_LS_ARRIVAL = 1"

definition AgeTransmittedLSAList :: "NbState \<Rightarrow> NbState" where
  "AgeTransmittedLSAList s = modify (\<lambda>n. n\<lparr>transmittedLSAs :=
     map (\<lambda>p. (fst p, Suc (snd p))) (dropWhile (\<lambda>p. snd p = MIN_LS_ARRIVAL) (transmittedLSAs n))\<rparr>) s"

definition DeleteLastSentDDPacket :: "NbState \<Rightarrow> NbState" where
  "DeleteLastSentDDPacket s = modify (\<lambda>n. n\<lparr>lastTransmittedDDPacket := None\<rparr>) s"

definition Reset :: "NbState \<Rightarrow> NbState" where
  "Reset s = DeleteLastSentDDPacket (ClearRequestRetransmissionTimer (ClearUpdateRetransmissionTimer
     (ClearTimer DDRetransmissionT (modify (\<lambda>n. n\<lparr>linkStateRetransmissionList := [],
        databaseSummaryList := [], linkStateRequestList := []\<rparr>) s))))"

section \<open>Sequence numbers\<close>

definition GetUniqueULong :: "NbState \<Rightarrow> ulong \<times> NbState" where
  "GetUniqueULong s = (ddSequenceNumberInitSeed s,
     s\<lparr>ddSequenceNumberInitSeed := ddSequenceNumberInitSeed s + 1\<rparr>)"

definition InitFirstAdjacency :: "NbState \<Rightarrow> NbState" where
  "InitFirstAdjacency s = (case GetUniqueULong s of (u, s) \<Rightarrow>
     modify (\<lambda>n. n\<lparr>ddSequenceNumber := u, firstAdjacencyInited := True\<rparr>) s)"

definition IncrementDDSequenceNumber :: "NbState \<Rightarrow> NbState" where
  "IncrementDDSequenceNumber s = modify (\<lambda>n. n\<lparr>ddSequenceNumber := ddSequenceNumber n + 1\<rparr>) s"

section \<open>Packets\<close>

definition AllSPFRouters :: IPAddress where "AllSPFRouters = 0xE0000005"
definition AllDRouters :: IPAddress where "AllDRouters = 0xE0000006"

definition ttlOf :: "OspfInterface \<Rightarrow> nat" where
  "ttlOf intf = (if interfaceType intf = Virtual then 32 else 1)"

definition neighborDestination :: "OspfInterface \<Rightarrow> Neighbor \<Rightarrow> IPAddress" where
  "neighborDestination intf n =
     (if interfaceType intf = PointToPoint then AllSPFRouters else neighborIPAddress n)"

definition sendToNeighbor :: "NbEnv \<Rightarrow> OspfPacket \<Rightarrow> NbState \<Rightarrow> NbState" where
  "sendToNeighbor env p s = (let intf = envInterface env in
     emit (SendPacket p (neighborDestination intf (nbOf s)) (ifIndex intf) (ttlOf intf)) s)"

text \<open>As many elements of \<open>size\<close> bytes as fit; what a packet takes and what is left.\<close>

fun fillPacket :: "int \<Rightarrow> int \<Rightarrow> int \<Rightarrow> 'a list \<Rightarrow> 'a list \<times> 'a list" where
  "fillPacket packetSize maxPacketSize bytes [] = ([], [])"
| "fillPacket packetSize maxPacketSize bytes (x # xs) =
    (if packetSize \<le> maxPacketSize - bytes
     then (case fillPacket (packetSize + bytes) maxPacketSize bytes xs of (a, b) \<Rightarrow> (x # a, b))
     else ([], x # xs))"

definition maxPacketSizeOf :: "int \<Rightarrow> OspfInterface \<Rightarrow> int" where
  "maxPacketSizeOf least intf = (if uint (ifMTU intf) < least then 65536 else uint (ifMTU intf))"

definition SendDatabaseDescriptionPacket :: "bool \<Rightarrow> NbEnv \<Rightarrow> NbState \<Rightarrow> NbState" where
  "SendDatabaseDescriptionPacket initial env s =
    (let intf = envInterface env; n = nbOf s;
         (hs, rest) = (if initial \<or> databaseSummaryList n = [] then ([], databaseSummaryList n)
           else fillPacket (60 + 24 + 8) (maxPacketSizeOf (60 + 24 + 8 + 20) intf) 20 (databaseSummaryList n));
         options = (if initial then \<lparr>I_Init = True, M_More = True, MS_MasterSlave = True\<rparr>
           else \<lparr>I_Init = False, M_More = (rest \<noteq> []),
                 MS_MasterSlave = (databaseExchangeRelationship n = Master)\<rparr>);
         ddPacket = \<lparr>interfaceMTU = (if interfaceType intf \<noteq> Virtual then ifMTU intf else 0),
           ddOptionsE = zeroOptions (externalRoutingCapability (envArea env)), ddOptions = options,
           ddPacketSequenceNumber = ddSequenceNumber n, ddLsaHeaders = hs\<rparr>
     in modify (\<lambda>n. n\<lparr>lastTransmittedDDPacket := Some ddPacket\<rparr>)
          (sendToNeighbor env (DDPacket ddPacket) (modify (\<lambda>n. n\<lparr>databaseSummaryList := rest\<rparr>) s)))"

definition RetransmitDatabaseDescriptionPacket :: "NbEnv \<Rightarrow> NbState \<Rightarrow> bool \<times> NbState" where
  "RetransmitDatabaseDescriptionPacket env s = (case lastTransmittedDDPacket (nbOf s) of
      Some p \<Rightarrow> (True, sendToNeighbor env (DDPacket p) s)
    | None \<Rightarrow> (False, s))"

text \<open>The headers of the database that are not at their maximal age.\<close>

definition youngHeaders :: "OSPFLSAHeader list \<Rightarrow> OSPFLSAHeader list" where
  "youngHeaders hs = filter (\<lambda>h. unat (lsAge h) < MAX_AGE) hs"

definition databaseHeaders :: "NbEnv \<Rightarrow> OSPFLSAHeader list" where
  "databaseHeaders env = (let A = envArea env in
     youngHeaders (map (\<lambda>p. rHeader (snd p)) (routerLSAs A)) @
     youngHeaders (map (\<lambda>p. nHeader (snd p)) (networkLSAs A)) @
     youngHeaders (map (\<lambda>p. sHeader (snd p)) (summaryLSAs A)) @
     (if interfaceType (envInterface env) \<noteq> Virtual \<and> externalRoutingCapability A
      then youngHeaders (map (\<lambda>p. xHeader (snd p)) (envASExternalLSAs env)) else []))"

definition CreateDatabaseSummary :: "NbEnv \<Rightarrow> NbState \<Rightarrow> NbState" where
  "CreateDatabaseSummary env s =
     modify (\<lambda>n. n\<lparr>databaseSummaryList := databaseSummaryList n @ databaseHeaders env\<rparr>) s"

definition SendLinkStateRequestPacket :: "NbEnv \<Rightarrow> NbState \<Rightarrow> NbState" where
  "SendLinkStateRequestPacket env s =
     sendToNeighbor env (LSRequest (map (\<lambda>h. (lsType h, lsaKey h))
       (fst (fillPacket (60 + 24) (maxPacketSizeOf (60 + 24 + 12) (envInterface env)) 12
          (linkStateRequestList (nbOf s)))))) s"

definition headerUpdate :: "(OSPFLSAHeader \<Rightarrow> OSPFLSAHeader) \<Rightarrow> OSPFLSA \<Rightarrow> OSPFLSA" where
  "headerUpdate f l = (case l of
      LsaRouter r \<Rightarrow> LsaRouter (r\<lparr>rHeader := f (rHeader r)\<rparr>)
    | LsaNetwork r \<Rightarrow> LsaNetwork (r\<lparr>nHeader := f (nHeader r)\<rparr>)
    | LsaSummary r \<Rightarrow> LsaSummary (r\<lparr>sHeader := f (sHeader r)\<rparr>)
    | LsaASExternal r \<Rightarrow> LsaASExternal (r\<lparr>xHeader := f (xHeader r)\<rparr>))"

text \<open>The age an LSA has after the transmission.\<close>

definition transmittedAge :: "OspfInterface \<Rightarrow> uint16 \<Rightarrow> uint16" where
  "transmittedAge intf age =
    (if uint age < int MAX_AGE - interfaceTransmissionDelay intf
     then word_of_int (uint age + interfaceTransmissionDelay intf) else word_of_nat MAX_AGE)"

definition agedForTransmission :: "OspfInterface \<Rightarrow> OSPFLSA \<Rightarrow> OSPFLSA" where
  "agedForTransmission intf = headerUpdate (\<lambda>h. h\<lparr>lsAge := transmittedAge intf (lsAge h)\<rparr>)"

text \<open>
  The LSAs of an update packet; the length of the packet does not grow in the code's loop.
\<close>

fun updateLSAs :: "OspfInterface \<Rightarrow> nat \<Rightarrow> OSPFLSA list \<Rightarrow> OSPFLSA list" where
  "updateLSAs intf lsaCount [] = []"
| "updateLSAs intf lsaCount (l # ls) =
    (if 60 + 20 + CalculateLSASize l < unat (ifMTU intf) then l # updateLSAs intf (Suc lsaCount) ls
     else if lsaCount = 0 \<and> 60 + 20 + CalculateLSASize l < 65536 then [l]
     else updateLSAs intf lsaCount ls)"

text \<open>The packet has an array for each kind of LSA.\<close>

definition byKind :: "OSPFLSA list \<Rightarrow> OSPFLSA list" where
  "byKind ls = filter (\<lambda>l. case l of LsaRouter _ \<Rightarrow> True | _ \<Rightarrow> False) ls @
     filter (\<lambda>l. case l of LsaNetwork _ \<Rightarrow> True | _ \<Rightarrow> False) ls @
     filter (\<lambda>l. case l of LsaSummary _ \<Rightarrow> True | _ \<Rightarrow> False) ls @
     filter (\<lambda>l. case l of LsaASExternal _ \<Rightarrow> True | _ \<Rightarrow> False) ls"

definition RetransmitUpdatePacket :: "NbEnv \<Rightarrow> NbState \<Rightarrow> NbState" where
  "RetransmitUpdatePacket env s = (let intf = envInterface env in
     emit (SendPacket (LSUpdate (byKind (map (agedForTransmission intf)
         (updateLSAs intf 0 (linkStateRetransmissionList (nbOf s))))))
       (neighborIPAddress (nbOf s)) (ifIndex intf) (ttlOf intf)) s)"

definition NeedAdjacency :: "NbEnv \<Rightarrow> Neighbor \<Rightarrow> bool" where
  "NeedAdjacency env n \<longleftrightarrow>
    (let intf = envInterface env; rid = routerID (envArea env);
         dRouter = designatedRouter intf; backupDRouter = backupDesignatedRouter intf in
     interfaceType intf = PointToPoint \<or> interfaceType intf = PointToMultiPoint \<or>
     interfaceType intf = Virtual \<or> drRouterID dRouter = rid \<or> drRouterID backupDRouter = rid \<or>
     (drRouterID (neighborsDesignatedRouter n) = drRouterID dRouter \<or>
      (\<not> designatedRoutersSetUp n \<and>
       ipInterfaceAddress (neighborsDesignatedRouter n) = ipInterfaceAddress dRouter)) \<or>
     (drRouterID (neighborsBackupDesignatedRouter n) = drRouterID backupDRouter \<or>
      (\<not> designatedRoutersSetUp n \<and>
       ipInterfaceAddress (neighborsBackupDesignatedRouter n) = ipInterfaceAddress backupDRouter)))"

section \<open>Events\<close>

datatype NeighborEvent =
    HelloReceived | Start | TwoWayReceived | NegotiationDone | ExchangeDone | BadLinkStateRequest
  | LoadingDone | IsAdjacencyOK | SequenceNumberMismatch | OneWayReceived | KillNeighbor
  | InactivityTimer | PollTimer | LinkDown | DDRetransmissionTimer | UpdateRetransmissionTimer
  | RequestRetransmissionTimer

definition ChangeState :: "NeighborStateType \<Rightarrow> NbState \<Rightarrow> NbState" where
  "ChangeState new s = (let old = nbState (nbOf s); s = modify (\<lambda>n. n\<lparr>nbState := new\<rparr>) s in
     if old = NbFull \<or> new = NbFull then emit (RefreshLSAs old new) s else s)"

definition killNeighbor :: "NbState \<Rightarrow> NbState" where
  "killNeighbor s = ChangeState NbDown (ClearTimer InactivityT (Reset s))"

definition inactive :: "NbEnv \<Rightarrow> NbState \<Rightarrow> NbState res" where
  "inactive env s =
     andThen (if interfaceType (envInterface env) = NBMA
              then StartTimer env PollT (pollInterval (envInterface env)) (Reset s) else Inr (Reset s))
       (\<lambda>s. Inr (ChangeState NbDown s))"

definition restartInactivity :: "NbEnv \<Rightarrow> NbState \<Rightarrow> NbState res" where
  "restartInactivity env s =
     StartTimer env InactivityT (neighborsRouterDeadInterval (nbOf s)) (ClearTimer InactivityT s)"

definition oneWay :: "NbState \<Rightarrow> NbState" where
  "oneWay s = ChangeState NbInit (Reset s)"

definition dropAdjacency :: "NbEnv \<Rightarrow> NbState \<Rightarrow> NbState" where
  "dropAdjacency env s =
     (if \<not> NeedAdjacency env (nbOf s) then ChangeState NbTwoWay (Reset s) else s)"

definition startExchange :: "NbEnv \<Rightarrow> NbState \<Rightarrow> NbState res" where
  "startExchange env s =
     andThen (StartTimer env DDRetransmissionT (retransmissionInterval (envInterface env))
        (SendDatabaseDescriptionPacket True env s))
       (\<lambda>s. Inr (ChangeState NbExchangeStart s))"

definition beginAdjacency :: "NbEnv \<Rightarrow> NbState \<Rightarrow> NbState res" where
  "beginAdjacency env s = startExchange env
     (if \<not> firstAdjacencyInited (nbOf s) then InitFirstAdjacency s else IncrementDDSequenceNumber s)"

definition restartExchange :: "NbEnv \<Rightarrow> NbState \<Rightarrow> NbState res" where
  "restartExchange env s = startExchange env (IncrementDDSequenceNumber (Reset s))"

definition helloNow :: "NbEnv \<Rightarrow> NbState \<Rightarrow> NbState" where
  "helloNow env s = emit (SendHelloPacket (neighborIPAddress (nbOf s)) (ttlOf (envInterface env))) s"

definition resendUpdates :: "NbEnv \<Rightarrow> NbState \<Rightarrow> NbState res" where
  "resendUpdates env s = StartUpdateRetransmissionTimer env (RetransmitUpdatePacket env s)"

definition resendRequests :: "NbEnv \<Rightarrow> NbState \<Rightarrow> NbState res" where
  "resendRequests env s = StartRequestRetransmissionTimer env (SendLinkStateRequestPacket env s)"

definition DownProcessEvent :: "NbEnv \<Rightarrow> NeighborEvent \<Rightarrow> NbState \<Rightarrow> NbState res" where
  "DownProcessEvent env ev s = (case ev of
      Start \<Rightarrow> andThen (StartTimer env InactivityT (neighborsRouterDeadInterval (nbOf s))
          (helloNow env (ClearTimer PollT s)))
        (\<lambda>s. Inr (ChangeState NbAttempt s))
    | HelloReceived \<Rightarrow> andThen (StartTimer env InactivityT (neighborsRouterDeadInterval (nbOf s))
          (ClearTimer PollT s))
        (\<lambda>s. Inr (ChangeState NbInit s))
    | PollTimer \<Rightarrow> StartTimer env PollT (pollInterval (envInterface env)) (helloNow env s)
    | _ \<Rightarrow> Inr s)"

definition AttemptProcessEvent :: "NbEnv \<Rightarrow> NeighborEvent \<Rightarrow> NbState \<Rightarrow> NbState res" where
  "AttemptProcessEvent env ev s = (case ev of
      KillNeighbor \<Rightarrow> Inr (killNeighbor s)
    | LinkDown \<Rightarrow> Inr (killNeighbor s)
    | InactivityTimer \<Rightarrow> inactive env s
    | HelloReceived \<Rightarrow> andThen (restartInactivity env s) (\<lambda>s. Inr (ChangeState NbInit s))
    | _ \<Rightarrow> Inr s)"

definition InitProcessEvent :: "NbEnv \<Rightarrow> NeighborEvent \<Rightarrow> NbState \<Rightarrow> NbState res" where
  "InitProcessEvent env ev s = (case ev of
      KillNeighbor \<Rightarrow> Inr (killNeighbor s)
    | LinkDown \<Rightarrow> Inr (killNeighbor s)
    | InactivityTimer \<Rightarrow> inactive env s
    | HelloReceived \<Rightarrow> restartInactivity env s
    | TwoWayReceived \<Rightarrow> if NeedAdjacency env (nbOf s) then beginAdjacency env s
        else Inr (ChangeState NbTwoWay s)
    | _ \<Rightarrow> Inr s)"

text \<open>The events that the states from TwoWay on treat alike.\<close>

definition commonProcessEvent :: "NbEnv \<Rightarrow> NeighborEvent \<Rightarrow> NbState \<Rightarrow> NbState res" where
  "commonProcessEvent env ev s = (case ev of
      KillNeighbor \<Rightarrow> Inr (killNeighbor s)
    | LinkDown \<Rightarrow> Inr (killNeighbor s)
    | InactivityTimer \<Rightarrow> inactive env s
    | OneWayReceived \<Rightarrow> Inr (oneWay s)
    | HelloReceived \<Rightarrow> restartInactivity env s
    | _ \<Rightarrow> Inr s)"

definition TwoWayProcessEvent :: "NbEnv \<Rightarrow> NeighborEvent \<Rightarrow> NbState \<Rightarrow> NbState res" where
  "TwoWayProcessEvent env ev s = (case ev of
      IsAdjacencyOK \<Rightarrow> if NeedAdjacency env (nbOf s) then beginAdjacency env s else Inr s
    | _ \<Rightarrow> commonProcessEvent env ev s)"

definition ExchangeStartProcessEvent :: "NbEnv \<Rightarrow> NeighborEvent \<Rightarrow> NbState \<Rightarrow> NbState res" where
  "ExchangeStartProcessEvent env ev s = (case ev of
      IsAdjacencyOK \<Rightarrow> Inr (dropAdjacency env s)
    | DDRetransmissionTimer \<Rightarrow>
        StartTimer env DDRetransmissionT (retransmissionInterval (envInterface env))
          (snd (RetransmitDatabaseDescriptionPacket env s))
    | NegotiationDone \<Rightarrow> Inr (ChangeState NbExchange (ClearTimer DDRetransmissionT
        (SendDatabaseDescriptionPacket False env (CreateDatabaseSummary env s))))
    | _ \<Rightarrow> commonProcessEvent env ev s)"

definition ExchangeProcessEvent :: "NbEnv \<Rightarrow> NeighborEvent \<Rightarrow> NbState \<Rightarrow> NbState res" where
  "ExchangeProcessEvent env ev s = (case ev of
      IsAdjacencyOK \<Rightarrow> Inr (dropAdjacency env s)
    | SequenceNumberMismatch \<Rightarrow> restartExchange env s
    | BadLinkStateRequest \<Rightarrow> restartExchange env s
    | ExchangeDone \<Rightarrow>
        andThen (StartTimer env DDRetransmissionT (neighborsRouterDeadInterval (nbOf s)) s)
          (\<lambda>s. Inr (if linkStateRequestList (nbOf s) = []
             then ChangeState NbFull (ClearRequestRetransmissionTimer s)
             else ChangeState NbLoading s))
    | UpdateRetransmissionTimer \<Rightarrow> resendUpdates env s
    | RequestRetransmissionTimer \<Rightarrow> resendRequests env s
    | _ \<Rightarrow> commonProcessEvent env ev s)"

definition LoadingProcessEvent :: "NbEnv \<Rightarrow> NeighborEvent \<Rightarrow> NbState \<Rightarrow> NbState res" where
  "LoadingProcessEvent env ev s = (case ev of
      LoadingDone \<Rightarrow> Inr (ChangeState NbFull (ClearRequestRetransmissionTimer s))
    | IsAdjacencyOK \<Rightarrow> Inr (dropAdjacency env s)
    | SequenceNumberMismatch \<Rightarrow> restartExchange env s
    | BadLinkStateRequest \<Rightarrow> restartExchange env s
    | RequestRetransmissionTimer \<Rightarrow> resendRequests env s
    | UpdateRetransmissionTimer \<Rightarrow> resendUpdates env s
    | DDRetransmissionTimer \<Rightarrow> Inr (DeleteLastSentDDPacket s)
    | _ \<Rightarrow> commonProcessEvent env ev s)"

definition FullProcessEvent :: "NbEnv \<Rightarrow> NeighborEvent \<Rightarrow> NbState \<Rightarrow> NbState res" where
  "FullProcessEvent env ev s = (case ev of
      IsAdjacencyOK \<Rightarrow> Inr (dropAdjacency env s)
    | SequenceNumberMismatch \<Rightarrow> restartExchange env s
    | BadLinkStateRequest \<Rightarrow> restartExchange env s
    | UpdateRetransmissionTimer \<Rightarrow> resendUpdates env s
    | DDRetransmissionTimer \<Rightarrow> Inr (DeleteLastSentDDPacket s)
    | _ \<Rightarrow> commonProcessEvent env ev s)"

definition ProcessEvent :: "NbEnv \<Rightarrow> NeighborEvent \<Rightarrow> NbState \<Rightarrow> NbState res" where
  "ProcessEvent env ev s = (case nbState (nbOf s) of
      NbDown \<Rightarrow> DownProcessEvent env ev s
    | NbAttempt \<Rightarrow> AttemptProcessEvent env ev s
    | NbInit \<Rightarrow> InitProcessEvent env ev s
    | NbTwoWay \<Rightarrow> TwoWayProcessEvent env ev s
    | NbExchangeStart \<Rightarrow> ExchangeStartProcessEvent env ev s
    | NbExchange \<Rightarrow> ExchangeProcessEvent env ev s
    | NbLoading \<Rightarrow> LoadingProcessEvent env ev s
    | NbFull \<Rightarrow> FullProcessEvent env ev s)"

definition RemoveFromRequestList :: "NbEnv \<Rightarrow> LSAKey \<Rightarrow> NbState \<Rightarrow> NbState res" where
  "RemoveFromRequestList env k s =
    (let s = modify (\<lambda>n. n\<lparr>linkStateRequestList :=
           filter (\<lambda>h. lsaKey h \<noteq> k) (linkStateRequestList n)\<rparr>) s
     in if nbState (nbOf s) = NbLoading \<and> linkStateRequestList (nbOf s) = []
        then ProcessEvent env LoadingDone (ClearRequestRetransmissionTimer s) else Inr s)"

text \<open>The constructor; it leaves the relationship and the options to the negotiation.\<close>

definition newNeighbor :: "RouterID \<Rightarrow> Neighbor" where
  "newNeighbor i = \<lparr>nbState = NbDown, inactivityTimer = None, pollTimer = None,
     ddRetransmissionTimer = None, updateRetransmissionTimer = None,
     updateRetransmissionTimerActive = False, requestRetransmissionTimer = None,
     requestRetransmissionTimerActive = False, databaseExchangeRelationship = Master,
     firstAdjacencyInited = False, ddSequenceNumber = 0,
     lastReceivedDDPacket = \<lparr>ddpOptions = \<lparr>I_Init = True, M_More = True, MS_MasterSlave = False\<rparr>,
       ddpNeighborOptions = zeroOptions False, ddpSequenceNumber = 0\<rparr>,
     neighborID = i, neighborPriority = 0, neighborIPAddress = 0, neighborOptions = zeroOptions False,
     neighborsDesignatedRouter = NullDesignatedRouterID,
     neighborsBackupDesignatedRouter = NullDesignatedRouterID, designatedRoutersSetUp = False,
     neighborsRouterDeadInterval = 40, linkStateRetransmissionList = [], databaseSummaryList = [],
     linkStateRequestList = [], transmittedLSAs = [], lastTransmittedDDPacket = None\<rparr>"

text \<open>A timer of the neighbour expires: the kernel has taken it out of its queue.\<close>

primrec timerEvent :: "NbTimer \<Rightarrow> NeighborEvent" where
  "timerEvent InactivityT = InactivityTimer"
| "timerEvent PollT = PollTimer"
| "timerEvent DDRetransmissionT = DDRetransmissionTimer"
| "timerEvent UpdateRetransmissionT = UpdateRetransmissionTimer"
| "timerEvent RequestRetransmissionT = RequestRetransmissionTimer"

definition HandleTimer :: "NbEnv \<Rightarrow> NbTimer \<Rightarrow> NbState \<Rightarrow> NbState res" where
  "HandleTimer env tm s = ProcessEvent env (timerEvent tm) (modify (setTimer tm None) s)"

end
