(* ===== verification/OSPF_Exchange.thy ===== *)
theory OSPF_Exchange imports OSPF_Neighbor
begin

text \<open>
  What arrives from an OSPF neighbour and what the rest of the router does with it: the handlers of
  Database Description, Link State Request and Link State Acknowledgement packets
  (\<^verbatim>\<open>messagehandler\<close>), the part of \<^verbatim>\<open>FloodLSA\<close> that is about one neighbour
  (\<^verbatim>\<open>interface/OSPFInterface.cc\<close>), and runs of these with the events and timers of
  \<^verbatim>\<open>OSPF_Neighbor\<close>.
\<close>

section \<open>The database\<close>

definition FindASExternalLSA :: "NbEnv \<Rightarrow> LSAKey \<Rightarrow> OSPFASExternalLSA option" where
  "FindASExternalLSA env k = map_of (envASExternalLSAs env) k"

text \<open>Router and network LSAs are found by the link state ID alone.\<close>

definition FindLSA :: "NbEnv \<Rightarrow> int \<Rightarrow> LSAKey \<Rightarrow> OSPFLSA option res" where
  "FindLSA env t k = (let A = envArea env in
     if t = RouterLSAType then Inr (map_option LsaRouter (FindRouterLSA A (fst k)))
     else if t = NetworkLSAType then Inr (map_option LsaNetwork (FindNetworkLSA A (fst k)))
     else if t = SummaryLSA_NetworksType \<or> t = SummaryLSA_ASBoundaryRoutersType
       then Inr (map_option LsaSummary (FindSummaryLSA A k))
     else if t = ASExternalLSAType then Inr (map_option LsaASExternal (FindASExternalLSA env k))
     else Inl (AssertFailed ''FindLSA''))"

section \<open>Database Description packets\<close>

definition packetIDOf :: "OSPFDatabaseDescriptionPacket \<Rightarrow> DDPacketID" where
  "packetIDOf p = \<lparr>ddpOptions = ddOptions p, ddpNeighborOptions = ddOptionsE p,
     ddpSequenceNumber = ddPacketSequenceNumber p\<rparr>"

definition headerAccepted :: "NbEnv \<Rightarrow> OSPFLSAHeader \<Rightarrow> bool" where
  "headerAccepted env h \<longleftrightarrow> \<not> (lsType h < RouterLSAType \<or> ASExternalLSAType < lsType h \<or>
     (lsType h = ASExternalLSAType \<and> \<not> externalRoutingCapability (envArea env)))"

definition newerThan :: "OSPFLSAHeader \<Rightarrow> OSPFLSA option \<Rightarrow> bool" where
  "newerThan h inDatabase = (case inDatabase of None \<Rightarrow> True | Some l \<Rightarrow> lsaOlder (lsaHeader l) h)"

text \<open>The headers of a packet; the loop is left at the first one that is not accepted.\<close>

fun listHeaders :: "NbEnv \<Rightarrow> OSPFLSAHeader list \<Rightarrow> NbState \<Rightarrow> (bool \<times> NbState) res" where
  "listHeaders env [] s = Inr (True, s)"
| "listHeaders env (h # hs) s =
    (if \<not> headerAccepted env h
     then andThen (ProcessEvent env SequenceNumberMismatch s) (\<lambda>s. Inr (False, s))
     else andThen (FindLSA env (lsType h) (lsaKey h)) (\<lambda>inDatabase.
       listHeaders env hs (if newerThan h inDatabase then AddToRequestList h s else s)))"

definition answerDD :: "NbEnv \<Rightarrow> OSPFDatabaseDescriptionPacket \<Rightarrow> bool \<Rightarrow> NbState \<Rightarrow> NbState res" where
  "answerDD env p inExchangeStart s =
    (if databaseExchangeRelationship (nbOf s) = Master then
       (let s = IncrementDDSequenceNumber s in
        if databaseSummaryList (nbOf s) = [] \<and> \<not> M_More (ddOptions p)
        then ProcessEvent env ExchangeDone s
        else Inr (if inExchangeStart then s else SendDatabaseDescriptionPacket False env s))
     else
       (let s = modify (\<lambda>n. n\<lparr>ddSequenceNumber := ddPacketSequenceNumber p\<rparr>) s;
            s = (if inExchangeStart then s else SendDatabaseDescriptionPacket False env s)
        in if \<not> M_More (ddOptions p) \<and> databaseSummaryList (nbOf s) = []
           then ProcessEvent env ExchangeDone s else Inr s))"

definition ProcessDDPacket ::
  "NbEnv \<Rightarrow> OSPFDatabaseDescriptionPacket \<Rightarrow> bool \<Rightarrow> NbState \<Rightarrow> (bool \<times> NbState) res" where
  "ProcessDDPacket env p inExchangeStart s =
     andThen (listHeaders env (ddLsaHeaders p) s) (\<lambda>(ok, s).
       if \<not> ok then Inr (False, s)
       else andThen (answerDD env p inExchangeStart s) (\<lambda>s. Inr (True, s)))"

definition requestMissing :: "NbEnv \<Rightarrow> NbState \<Rightarrow> NbState res" where
  "requestMissing env s =
    (if linkStateRequestList (nbOf s) \<noteq> [] \<and> \<not> requestRetransmissionTimerActive (nbOf s)
     then StartRequestRetransmissionTimer env
       (ClearRequestRetransmissionTimer (SendLinkStateRequestPacket env s))
     else Inr s)"

definition negotiated :: "NbEnv \<Rightarrow> OSPFDatabaseDescriptionPacket \<Rightarrow> NbState \<Rightarrow> NbState res" where
  "negotiated env p s = andThen (ProcessDDPacket env p True s) (\<lambda>(ok, s).
     if \<not> ok then Inr s else andThen (ProcessEvent env NegotiationDone s) (requestMissing env))"

definition ddInExchangeStart :: "NbEnv \<Rightarrow> OSPFDatabaseDescriptionPacket \<Rightarrow> NbState \<Rightarrow> NbState res" where
  "ddInExchangeStart env p s =
    (let opts = ddOptions p; n = nbOf s; rid = routerID (envArea env) in
     if I_Init opts \<and> M_More opts \<and> MS_MasterSlave opts \<and> ddLsaHeaders p = [] then
       (if rid < neighborID n then
          negotiated env p (modify (\<lambda>n. n\<lparr>neighborOptions := ddOptionsE p,
            databaseExchangeRelationship := Slave, ddSequenceNumber := ddPacketSequenceNumber p,
            lastReceivedDDPacket := packetIDOf p\<rparr>) s)
        else Inr (SendDatabaseDescriptionPacket True env s))
     else if \<not> I_Init opts \<and> \<not> MS_MasterSlave opts \<and>
             ddPacketSequenceNumber p = ddSequenceNumber n \<and> neighborID n < rid then
       negotiated env p (modify (\<lambda>n. n\<lparr>neighborOptions := ddOptionsE p,
         databaseExchangeRelationship := Master, lastReceivedDDPacket := packetIDOf p\<rparr>) s)
     else Inr s)"

definition ddInExchange :: "NbEnv \<Rightarrow> OSPFDatabaseDescriptionPacket \<Rightarrow> NbState \<Rightarrow> NbState res" where
  "ddInExchange env p s = (let n = nbOf s; rel = databaseExchangeRelationship n in
     if packetIDOf p \<noteq> lastReceivedDDPacket n then
       (if (MS_MasterSlave (ddOptions p) \<and> rel \<noteq> Slave) \<or>
           (\<not> MS_MasterSlave (ddOptions p) \<and> rel \<noteq> Master) \<or> I_Init (ddOptions p) \<or>
           ddOptionsE p \<noteq> ddpNeighborOptions (lastReceivedDDPacket n)
        then ProcessEvent env SequenceNumberMismatch s
        else if (rel = Master \<and> ddPacketSequenceNumber p = ddSequenceNumber n) \<or>
                (rel = Slave \<and> ddPacketSequenceNumber p = ddSequenceNumber n + 1)
        then andThen (ProcessDDPacket env p False (modify (\<lambda>n. n\<lparr>lastReceivedDDPacket := packetIDOf p\<rparr>) s))
          (\<lambda>(ok, s). if \<not> ok then Inr s else requestMissing env s)
        else ProcessEvent env SequenceNumberMismatch s)
     else if rel = Slave then Inr (snd (RetransmitDatabaseDescriptionPacket env s)) else Inr s)"

definition ddInLoading :: "NbEnv \<Rightarrow> OSPFDatabaseDescriptionPacket \<Rightarrow> NbState \<Rightarrow> NbState res" where
  "ddInLoading env p s = (let n = nbOf s in
     if packetIDOf p \<noteq> lastReceivedDDPacket n \<or> I_Init (ddOptions p)
     then ProcessEvent env SequenceNumberMismatch s
     else if databaseExchangeRelationship n = Slave then
       (case RetransmitDatabaseDescriptionPacket env s of (sent, s) \<Rightarrow>
          if sent then Inr s else ProcessEvent env SequenceNumberMismatch s)
     else Inr s)"

definition DDHandler :: "NbEnv \<Rightarrow> OSPFDatabaseDescriptionPacket \<Rightarrow> NbState \<Rightarrow> NbState res" where
  "DDHandler env p s =
    (if interfaceMTU p \<le> ifMTU (envInterface env) \<and>
        nbStateValue NbAttempt < nbStateValue (nbState (nbOf s)) then
       (case nbState (nbOf s) of
          NbInit \<Rightarrow> ProcessEvent env TwoWayReceived s
        | NbExchangeStart \<Rightarrow> ddInExchangeStart env p s
        | NbExchange \<Rightarrow> ddInExchange env p s
        | NbLoading \<Rightarrow> ddInLoading env p s
        | NbFull \<Rightarrow> ddInLoading env p s
        | _ \<Rightarrow> Inr s)
     else Inr s)"

section \<open>Link State Request packets\<close>

fun requestedLSAs :: "NbEnv \<Rightarrow> LSARequest list \<Rightarrow> OSPFLSA list option res" where
  "requestedLSAs env [] = Inr (Some [])"
| "requestedLSAs env ((t, k) # rs) = andThen (FindLSA env t k) (\<lambda>inDatabase.
     case inDatabase of None \<Rightarrow> Inr None
     | Some l \<Rightarrow> andThen (requestedLSAs env rs) (\<lambda>ls. Inr (map_option ((#) l) ls)))"

text \<open>The type in the header has to be the kind of the LSA.\<close>

definition kindMatches :: "OSPFLSA \<Rightarrow> bool" where
  "kindMatches l = (let t = lsType (lsaHeader l) in case l of
      LsaRouter _ \<Rightarrow> t = RouterLSAType
    | LsaNetwork _ \<Rightarrow> t = NetworkLSAType
    | LsaSummary _ \<Rightarrow> t = SummaryLSA_NetworksType \<or> t = SummaryLSA_ASBoundaryRoutersType
    | LsaASExternal _ \<Rightarrow> t = ASExternalLSAType)"

definition CreateUpdatePacket :: "OspfInterface \<Rightarrow> OSPFLSA \<Rightarrow> OspfPacket option" where
  "CreateUpdatePacket intf l =
     (if kindMatches l then Some (LSUpdate [agedForTransmission intf l]) else None)"

definition updateDestination :: "OspfInterface \<Rightarrow> Neighbor \<Rightarrow> IPAddress" where
  "updateDestination intf n =
    (if interfaceType intf = Broadcast then
       (if ifState intf = IfDesignatedRouter \<or> ifState intf = IfBackup \<or>
           designatedRouter intf = NullDesignatedRouterID then AllSPFRouters else AllDRouters)
     else if interfaceType intf = PointToPoint then AllSPFRouters else neighborIPAddress n)"

definition sendUpdate :: "NbEnv \<Rightarrow> OSPFLSA \<Rightarrow> NbState \<Rightarrow> NbState" where
  "sendUpdate env l s = (let intf = envInterface env in
     case CreateUpdatePacket intf l of None \<Rightarrow> s
     | Some p \<Rightarrow> emit (SendPacket p (updateDestination intf (nbOf s)) (ifIndex intf) (ttlOf intf)) s)"

definition LSRequestHandler :: "NbEnv \<Rightarrow> LSARequest list \<Rightarrow> NbState \<Rightarrow> NbState res" where
  "LSRequestHandler env rs s =
    (if nbState (nbOf s) = NbExchange \<or> nbState (nbOf s) = NbLoading \<or> nbState (nbOf s) = NbFull then
       andThen (requestedLSAs env rs) (\<lambda>found. case found of
           None \<Rightarrow> ProcessEvent env BadLinkStateRequest s
         | Some ls \<Rightarrow> Inr (fold (sendUpdate env) ls s))
     else Inr s)"

section \<open>Link State Acknowledgement packets\<close>

definition acknowledge :: "OSPFLSAHeader \<Rightarrow> NbState \<Rightarrow> NbState" where
  "acknowledge h s = (case FindOnRetransmissionList (lsaKey h) (nbOf s) of None \<Rightarrow> s
     | Some l \<Rightarrow> if lsaSameAge h (lsaHeader l) then RemoveFromRetransmissionList (lsaKey h) s else s)"

definition LSAckHandler :: "OSPFLSAHeader list \<Rightarrow> NbState \<Rightarrow> NbState" where
  "LSAckHandler hs s =
    (if nbStateValue NbExchange \<le> nbStateValue (nbState (nbOf s)) then
       (let s = fold acknowledge hs s in
        if linkStateRetransmissionList (nbOf s) = [] then ClearUpdateRetransmissionTimer s else s)
     else s)"

section \<open>Flooding to a neighbour\<close>

text \<open>Step (1) of \<^verbatim>\<open>FloodLSA\<close>; the result tells whether the LSA has to be sent.\<close>

definition floodToNeighbor :: "NbEnv \<Rightarrow> OSPFLSA \<Rightarrow> bool \<Rightarrow> NbState \<Rightarrow> (bool \<times> NbState) res" where
  "floodToNeighbor env l isSender s =
    (let n = nbOf s; h = lsaHeader l; k = lsaKey h;
         add = (\<lambda>s. if isSender then Inr (False, s) else Inr (True, AddToRetransmissionList l s)) in
     if nbStateValue (nbState n) < nbStateValue NbExchange then Inr (False, s)
     else case (if nbStateValue (nbState n) < nbStateValue NbFull then FindOnRequestList k n else None) of
         None \<Rightarrow> add s
       | Some r \<Rightarrow>
          if lsaOlder h r then Inr (False, s)
          else andThen (RemoveFromRequestList env k s) (\<lambda>s.
            if lsaSameAge h r then Inr (False, s) else add s))"

text \<open>What is noted for a neighbour that an update was sent to.\<close>

definition updateSent :: "NbEnv \<Rightarrow> LSAKey \<Rightarrow> NbState \<Rightarrow> NbState res" where
  "updateSent env k s = (let s = AddToTransmittedLSAList k s in
     if \<not> updateRetransmissionTimerActive (nbOf s) then StartUpdateRetransmissionTimer env s else Inr s)"

section \<open>Runs\<close>

text \<open>
  The events that other parts of the router raise: the Hello handler, the states and the reset of
  the interface, the update handler.
\<close>

definition raisedOutside :: "NeighborEvent \<Rightarrow> bool" where
  "raisedOutside ev \<longleftrightarrow> ev \<in> {HelloReceived, Start, TwoWayReceived, OneWayReceived, IsAdjacencyOK,
     KillNeighbor, BadLinkStateRequest}"

datatype NbInput =
    Raised NeighborEvent
  | Expires NbTimer
  | DDArrives OSPFDatabaseDescriptionPacket
  | RequestArrives "LSARequest list"
  | AckArrives "OSPFLSAHeader list"
  | Flood OSPFLSA bool
  | UpdateSent LSAKey
  | AckedByUpdate LSAKey
  | Tick

primrec nbStep :: "NbEnv \<Rightarrow> NbInput \<Rightarrow> NbState \<Rightarrow> NbState res" where
  "nbStep env (Raised ev) s = (if raisedOutside ev then ProcessEvent env ev s else Inr s)"
| "nbStep env (Expires tm) s = (if getTimer tm (nbOf s) \<noteq> None then HandleTimer env tm s else Inr s)"
| "nbStep env (DDArrives p) s = DDHandler env p s"
| "nbStep env (RequestArrives rs) s = LSRequestHandler env rs s"
| "nbStep env (AckArrives hs) s = Inr (LSAckHandler hs s)"
| "nbStep env (Flood l isSender) s = andThen (floodToNeighbor env l isSender s) (\<lambda>r. Inr (snd r))"
| "nbStep env (UpdateSent k) s = updateSent env k s"
| "nbStep env (AckedByUpdate k) s = Inr (RemoveFromRetransmissionList k s)"
| "nbStep env Tick s = Inr (AgeTransmittedLSAList s)"

text \<open>The interface, the area and the database may change from step to step.\<close>

fun nbRun :: "(NbEnv \<times> NbInput) list \<Rightarrow> NbState \<Rightarrow> NbState res" where
  "nbRun [] s = Inr s"
| "nbRun ((env, i) # is) s = andThen (nbStep env i s) (nbRun is)"

definition newState :: "RouterID \<Rightarrow> ulong \<Rightarrow> NbState" where
  "newState i seed = \<lparr>nbOf = newNeighbor i, nbOut = [], ddSequenceNumberInitSeed = seed\<rparr>"

end
