(* ===== verification/OSPF_Interface.thy ===== *)
theory OSPF_Interface imports OSPF_Exchange OSPF_Election
begin

text \<open>
  An OSPF interface with its neighbours (\<^verbatim>\<open>interface/OSPFInterface.cc\<close> and the state classes
  \<^verbatim>\<open>interface/OSPFInterfaceState*.cc\<close>): its timers, the Hello and acknowledgement packets it
  sends, what each of its states does on each event, and what \<^verbatim>\<open>messagehandler/MessageHandler.cc\<close>
  hands to it. That the own LSAs are to be renewed is recorded as an output, in the place where the
  code does it.
\<close>

section \<open>State and environment\<close>

record OSPFHelloPacket =
  hpNetworkMask :: IPAddress
  hpHelloInterval :: int
  hpOptions :: OSPFOptions
  hpRouterPriority :: "8 word"
  hpRouterDeadInterval :: int
  hpDesignatedRouter :: IPAddress
  hpBackupDesignatedRouter :: IPAddress
  hpNeighbors :: "IPAddress list"

datatype IfOutput =
    SentHello OSPFHelloPacket IPAddress nat nat
  | SentAck "OSPFLSAHeader list" IPAddress nat nat
  | SentByNeighbor OspfOutput
  | InstallRouterLSACall
  | RenewRouterLSACall
  | InstallNetworkLSACall
  | FlushNetworkLSACall

text \<open>
  The acknowledgements that wait are a map from the destination, in the order of the addresses. The
  counter of DD sequence numbers is a static member in the code.
\<close>

record IfState =
  ifOf :: OspfInterface
  helloInterval :: int
  routerDeadInterval :: int
  acknowledgementDelay :: int
  helloTimer :: "simtime option"
  waitTimer :: "simtime option"
  acknowledgementTimer :: "simtime option"
  delayedAcknowledgements :: "(IPAddress \<times> OSPFLSAHeader list) list"
  ifOut :: "IfOutput list"
  ifSeed :: ulong

text \<open>The random delay of the first Hello packet comes from the environment.\<close>

record IfEnv =
  ieArea :: Area
  ieASExternalLSAs :: "(LSAKey \<times> OSPFASExternalLSA) list"
  ieNow :: simtime
  ieFirstHello :: simtime

abbreviation neighborsOf :: "IfState \<Rightarrow> Neighbor list" where
  "neighborsOf s \<equiv> neighboringRouters (ifOf s)"

definition emitIf :: "IfOutput list \<Rightarrow> IfState \<Rightarrow> IfState" where
  "emitIf os s = s\<lparr>ifOut := ifOut s @ os\<rparr>"

section \<open>Timers\<close>

datatype IfTimer = HelloT | WaitT | AcknowledgementT

primrec getIfTimer :: "IfTimer \<Rightarrow> IfState \<Rightarrow> simtime option" where
  "getIfTimer HelloT s = helloTimer s"
| "getIfTimer WaitT s = waitTimer s"
| "getIfTimer AcknowledgementT s = acknowledgementTimer s"

primrec setIfTimer :: "IfTimer \<Rightarrow> simtime option \<Rightarrow> IfState \<Rightarrow> IfState" where
  "setIfTimer HelloT t s = s\<lparr>helloTimer := t\<rparr>"
| "setIfTimer WaitT t s = s\<lparr>waitTimer := t\<rparr>"
| "setIfTimer AcknowledgementT t s = s\<lparr>acknowledgementTimer := t\<rparr>"

definition StartIfTimer :: "IfEnv \<Rightarrow> IfTimer \<Rightarrow> simtime \<Rightarrow> IfState \<Rightarrow> IfState res" where
  "StartIfTimer env tm delay s = checked (getIfTimer tm s = None) (KernelError ''scheduleAt'')
     (Inr (setIfTimer tm (Some (ieNow env + delay)) s))"

section \<open>Packets\<close>

definition helloPacket :: "IfEnv \<Rightarrow> IfState \<Rightarrow> OSPFHelloPacket" where
  "helloPacket env s = (let intf = ifOf s in
     \<lparr>hpNetworkMask = (if (interfaceType intf = PointToPoint \<and> ifAddress intf = 0) \<or> interfaceType intf = Virtual
        then 0 else ifMask intf),
      hpHelloInterval = helloInterval s,
      hpOptions = zeroOptions (externalRoutingCapability (ieArea env)),
      hpRouterPriority = routerPriority intf,
      hpRouterDeadInterval = routerDeadInterval s,
      hpDesignatedRouter = ipInterfaceAddress (designatedRouter intf),
      hpBackupDesignatedRouter = ipInterfaceAddress (backupDesignatedRouter intf),
      hpNeighbors = map neighborIPAddress
        (filter (\<lambda>n. nbStateValue NbInit \<le> nbStateValue (nbState n)) (neighboringRouters intf))\<rparr>)"

definition SendHello :: "IfEnv \<Rightarrow> IPAddress \<Rightarrow> nat \<Rightarrow> IfState \<Rightarrow> IfState" where
  "SendHello env destination ttl s =
     emitIf [SentHello (helloPacket env s) destination (ifIndex (ifOf s)) ttl] s"

definition SendLSAcknowledgement :: "OSPFLSAHeader \<Rightarrow> IPAddress \<Rightarrow> IfState \<Rightarrow> IfState" where
  "SendLSAcknowledgement h destination s =
     emitIf [SentAck [h] destination (ifIndex (ifOf s)) (ttlOf (ifOf s))] s"

text \<open>Where packets for the routers of the network go; \<open>a\<close> is the address of one of them.\<close>

definition floodDestination :: "OspfInterface \<Rightarrow> IPAddress \<Rightarrow> IPAddress" where
  "floodDestination intf a =
    (if interfaceType intf = Broadcast then
       (if ifState intf = IfDesignatedRouter \<or> ifState intf = IfBackup \<or>
           designatedRouter intf = NullDesignatedRouterID then AllSPFRouters else AllDRouters)
     else if interfaceType intf = PointToPoint then AllSPFRouters else a)"

fun addDelayed :: "IPAddress \<Rightarrow> OSPFLSAHeader \<Rightarrow> (IPAddress \<times> OSPFLSAHeader list) list \<Rightarrow>
   (IPAddress \<times> OSPFLSAHeader list) list" where
  "addDelayed a h [] = [(a, [h])]"
| "addDelayed a h ((b, hs) # m) =
     (if a < b then (a, [h]) # (b, hs) # m
      else if a = b then (b, hs @ [h]) # m else (b, hs) # addDelayed a h m)"

definition AddDelayedAcknowledgement :: "OSPFLSAHeader \<Rightarrow> IfState \<Rightarrow> IfState" where
  "AddDelayedAcknowledgement h s = (let intf = ifOf s in
     s\<lparr>delayedAcknowledgements :=
       (if interfaceType intf = Broadcast
        then addDelayed (floodDestination intf 0) h (delayedAcknowledgements s)
        else fold (\<lambda>n. addDelayed (neighborIPAddress n) h)
          (filter (\<lambda>n. nbStateValue NbExchange \<le> nbStateValue (nbState n)) (neighboringRouters intf))
          (delayedAcknowledgements s))\<rparr>)"

text \<open>The packets for one destination, each with as many headers as fit.\<close>

lemma fillPacket_progress:
  assumes "packetSize \<le> maxPacketSize - bytes"
  shows "length (snd (fillPacket packetSize maxPacketSize bytes (x # xs))) < length (x # xs)"
proof -
  have "length (snd (fillPacket k m b ys)) \<le> length ys" for k m b and ys :: "'a list"
    by (induction k m b ys rule: fillPacket.induct) (auto split: prod.splits)
  from this [of "packetSize + bytes" maxPacketSize bytes xs] show ?thesis
    using assms by (simp add: less_Suc_eq_le split_beta)
qed

function ackPackets :: "OspfInterface \<Rightarrow> OSPFLSAHeader list \<Rightarrow> OSPFLSAHeader list list" where
  "ackPackets intf hs = (if hs = [] then [] else
     (case fillPacket (60 + 24) (maxPacketSizeOf (60 + 24 + 20) intf) 20 hs of (taken, rest) \<Rightarrow>
        taken # ackPackets intf rest))"
  by pat_completeness auto
termination
proof (relation "measure (\<lambda>(intf, hs). length hs)", goal_cases)
  case (2 intf hs taken rest)
  then obtain x xs where hs: "hs = x # xs" by (cases hs) auto
  have "(60 + 24 :: int) \<le> maxPacketSizeOf (60 + 24 + 20) intf - 20" by (simp add: maxPacketSizeOf_def)
  from fillPacket_progress [OF this, of x xs] have "length rest < length hs"
    unfolding hs [symmetric] 2(2) [symmetric] by simp
  then show ?case by simp
qed simp

declare ackPackets.simps [simp del]

definition SendDelayedAcknowledgements :: "IfEnv \<Rightarrow> IfState \<Rightarrow> IfState res" where
  "SendDelayedAcknowledgements env s = (let intf = ifOf s in
     StartIfTimer env AcknowledgementT (of_int (acknowledgementDelay s))
       (emitIf (concat (map (\<lambda>(a, hs). map (\<lambda>p. SentAck p (floodDestination intf a) (ifIndex intf) (ttlOf intf))
            (ackPackets intf hs)) (delayedAcknowledgements s)))
         (s\<lparr>delayedAcknowledgements := map (\<lambda>(a, hs). (a, [])) (delayedAcknowledgements s)\<rparr>)))"

section \<open>Calls of a neighbour\<close>

definition nbEnvOf :: "IfEnv \<Rightarrow> IfState \<Rightarrow> NbEnv" where
  "nbEnvOf env s = \<lparr>envInterface = ifOf s, envArea = ieArea env,
     envASExternalLSAs = ieASExternalLSAs env, envNow = ieNow env\<rparr>"

definition nbStateOf :: "nat \<Rightarrow> IfState \<Rightarrow> NbState" where
  "nbStateOf k s = \<lparr>nbOf = neighborsOf s ! k, nbOut = [], ddSequenceNumberInitSeed = ifSeed s\<rparr>"

text \<open>A neighbour sends Hello packets only in Down and in the change to Attempt; they do not list it.\<close>

definition ofNeighbor :: "IfEnv \<Rightarrow> IfState \<Rightarrow> OspfOutput \<Rightarrow> IfOutput" where
  "ofNeighbor env s x = (case x of
      SendHelloPacket a ttl \<Rightarrow> SentHello (helloPacket env s) a (ifIndex (ifOf s)) ttl
    | _ \<Rightarrow> SentByNeighbor x)"

definition backFrom :: "IfEnv \<Rightarrow> nat \<Rightarrow> IfState \<Rightarrow> NbState \<Rightarrow> IfState" where
  "backFrom env k s t = s\<lparr>ifOf := (ifOf s)\<lparr>neighboringRouters := (neighborsOf s)[k := nbOf t]\<rparr>,
     ifOut := ifOut s @ map (ofNeighbor env s) (nbOut t), ifSeed := ddSequenceNumberInitSeed t\<rparr>"

definition onNeighbor ::
  "IfEnv \<Rightarrow> nat \<Rightarrow> (NbEnv \<Rightarrow> NbState \<Rightarrow> NbState res) \<Rightarrow> IfState \<Rightarrow> IfState res" where
  "onNeighbor env k f s = andThen (f (nbEnvOf env s) (nbStateOf k s)) (\<lambda>t. Inr (backFrom env k s t))"

definition raise :: "IfEnv \<Rightarrow> NeighborEvent \<Rightarrow> nat \<Rightarrow> IfState \<Rightarrow> IfState res" where
  "raise env ev k = onNeighbor env k (\<lambda>e. ProcessEvent e ev)"

definition eachNeighbor :: "(nat \<Rightarrow> IfState \<Rightarrow> IfState res) \<Rightarrow> IfState \<Rightarrow> IfState res" where
  "eachNeighbor f s = foldRes f [0..<length (neighborsOf s)] s"

section \<open>Changes of the state\<close>

datatype InterfaceEventType =
    InterfaceUp | HelloTimer | WaitTimer | AcknowledgementTimer | BackupSeen | NeighborChange
  | LoopIndication | UnloopIndication | InterfaceDown

definition IfReset :: "IfEnv \<Rightarrow> IfState \<Rightarrow> IfState res" where
  "IfReset env s = eachNeighbor (raise env KillNeighbor)
     (s\<lparr>helloTimer := None, waitTimer := None, acknowledgementTimer := None,
        ifOf := (ifOf s)\<lparr>designatedRouter := NullDesignatedRouterID,
          backupDesignatedRouter := NullDesignatedRouterID\<rparr>\<rparr>)"

text \<open>The change has to be told in the router LSA.\<close>

definition changesRouterLSA :: "OSPFInterfaceType \<Rightarrow> InterfaceStateType \<Rightarrow> InterfaceStateType \<Rightarrow> bool" where
  "changesRouterLSA t old new \<longleftrightarrow>
     old = IfDown \<or> new = IfDown \<or> old = IfLoopback \<or> new = IfLoopback \<or>
     old = IfDesignatedRouter \<or> new = IfDesignatedRouter \<or>
     (t = PointToPoint \<and> (old = IfPointToPoint \<or> new = IfPointToPoint)) \<or>
     ((t = Broadcast \<or> t = NBMA) \<and> (old = IfWaiting \<or> new = IfWaiting))"

text \<open>
  The LSAs that are renewed, in the order of the code: the router LSA, which is installed if there is
  none; the network LSA of a new designated router; the one of a router that ceases to be it.
\<close>

definition renewCalls ::
  "IfEnv \<Rightarrow> OSPFInterfaceType \<Rightarrow> InterfaceStateType \<Rightarrow> InterfaceStateType \<Rightarrow> IfOutput list" where
  "renewCalls env t old new =
     (if changesRouterLSA t old new
      then [if FindRouterLSA (ieArea env) (routerID (ieArea env)) = None
            then InstallRouterLSACall else RenewRouterLSACall] else []) @
     (if new = IfDesignatedRouter then [InstallNetworkLSACall] else []) @
     (if old = IfDesignatedRouter then [FlushNetworkLSACall] else [])"

text \<open>As in the code the old state is an argument: the one whose method makes the change.\<close>

definition IfChangeStateFrom :: "InterfaceStateType \<Rightarrow> IfEnv \<Rightarrow> InterfaceStateType \<Rightarrow> IfState \<Rightarrow> IfState" where
  "IfChangeStateFrom old env new s = (let intf = ifOf s in
     emitIf (renewCalls env (interfaceType intf) old new) (s\<lparr>ifOf := intf\<lparr>ifState := new\<rparr>\<rparr>))"

definition IfChangeState :: "IfEnv \<Rightarrow> InterfaceStateType \<Rightarrow> IfState \<Rightarrow> IfState" where
  "IfChangeState env new s = IfChangeStateFrom (ifState (ifOf s)) env new s"

primrec electionEvent :: "ElectionEvent \<Rightarrow> NeighborEvent" where
  "electionEvent EvStart = Start"
| "electionEvent EvIsAdjacencyOK = IsAdjacencyOK"

definition CalculateDesignatedRouter :: "IfEnv \<Rightarrow> IfState \<Rightarrow> IfState res" where
  "CalculateDesignatedRouter env s = (let intf = ifOf s; rid = routerID (ieArea env); new = elect rid intf in
     eachNeighbor (\<lambda>k s. foldRes (\<lambda>ev. raise env (electionEvent ev) k)
         (electionEvents rid intf new (neighborsOf s ! k)) s)
       (fold (IfChangeStateFrom (ifState intf) env) (electionStates rid intf new)
         (s\<lparr>ifOf := intf\<lparr>designatedRouter := fst new, backupDesignatedRouter := snd new\<rparr>\<rparr>)))"

section \<open>States\<close>

text \<open>Hello packets to a list of addresses, and the timer for the next ones.\<close>

definition helloTo :: "IfEnv \<Rightarrow> IPAddress list \<Rightarrow> nat \<Rightarrow> IfState \<Rightarrow> IfState res" where
  "helloTo env addresses ttl s = StartIfTimer env HelloT (of_int (helloInterval s))
     (fold (\<lambda>a. SendHello env a ttl) addresses s)"

definition eligibleAddresses :: "OspfInterface \<Rightarrow> IPAddress list" where
  "eligibleAddresses intf = map neighborIPAddress
     (filter (\<lambda>n. 0 < neighborPriority n) (neighboringRouters intf))"

definition goDown :: "IfEnv \<Rightarrow> IfState \<Rightarrow> IfState res" where
  "goDown env s = andThen (IfReset env s) (\<lambda>s. Inr (IfChangeState env IfDown s))"

definition goLoopback :: "IfEnv \<Rightarrow> IfState \<Rightarrow> IfState res" where
  "goLoopback env s = andThen (IfReset env s) (\<lambda>s. Inr (IfChangeState env IfLoopback s))"

definition goWaiting :: "IfEnv \<Rightarrow> IfState \<Rightarrow> IfState res" where
  "goWaiting env s = StartIfTimer env WaitT (of_int (routerDeadInterval s)) (IfChangeState env IfWaiting s)"

definition IfDownProcessEvent :: "IfEnv \<Rightarrow> InterfaceEventType \<Rightarrow> IfState \<Rightarrow> IfState res" where
  "IfDownProcessEvent env ev s = (case ev of
      InterfaceUp \<Rightarrow>
        andThen (StartIfTimer env HelloT (ieFirstHello env) s) (\<lambda>s.
        andThen (StartIfTimer env AcknowledgementT (of_int (acknowledgementDelay s)) s) (\<lambda>s.
          (case interfaceType (ifOf s) of
             PointToPoint \<Rightarrow> Inr (IfChangeState env IfPointToPoint s)
           | PointToMultiPoint \<Rightarrow> Inr (IfChangeState env IfPointToPoint s)
           | Virtual \<Rightarrow> Inr (IfChangeState env IfPointToPoint s)
           | NBMA \<Rightarrow>
               if routerPriority (ifOf s) = 0 then Inr (IfChangeState env IfNotDesignatedRouter s)
               else andThen (goWaiting env s) (eachNeighbor (\<lambda>k s.
                 if 0 < neighborPriority (neighborsOf s ! k) then raise env Start k s else Inr s))
           | Broadcast \<Rightarrow>
               if routerPriority (ifOf s) = 0 then Inr (IfChangeState env IfNotDesignatedRouter s)
               else goWaiting env s
           | UnknownType \<Rightarrow> Inr s)))
    | LoopIndication \<Rightarrow> goLoopback env s
    | _ \<Rightarrow> Inr s)"

definition IfLoopbackProcessEvent :: "IfEnv \<Rightarrow> InterfaceEventType \<Rightarrow> IfState \<Rightarrow> IfState res" where
  "IfLoopbackProcessEvent env ev s = (case ev of
      InterfaceDown \<Rightarrow> goDown env s
    | UnloopIndication \<Rightarrow> Inr (IfChangeState env IfDown s)
    | _ \<Rightarrow> Inr s)"

text \<open>What the states above Loopback do alike.\<close>

definition upProcessEvent :: "IfEnv \<Rightarrow> InterfaceEventType \<Rightarrow> IfState \<Rightarrow> IfState res" where
  "upProcessEvent env ev s = (case ev of
      InterfaceDown \<Rightarrow> goDown env s
    | LoopIndication \<Rightarrow> goLoopback env s
    | AcknowledgementTimer \<Rightarrow> SendDelayedAcknowledgements env s
    | _ \<Rightarrow> Inr s)"

definition IfWaitingProcessEvent :: "IfEnv \<Rightarrow> InterfaceEventType \<Rightarrow> IfState \<Rightarrow> IfState res" where
  "IfWaitingProcessEvent env ev s = (case ev of
      BackupSeen \<Rightarrow> CalculateDesignatedRouter env s
    | WaitTimer \<Rightarrow> CalculateDesignatedRouter env s
    | HelloTimer \<Rightarrow>
        if interfaceType (ifOf s) = Broadcast then helloTo env [AllSPFRouters] 1 s
        else helloTo env (eligibleAddresses (ifOf s)) (ttlOf (ifOf s)) s
    | _ \<Rightarrow> upProcessEvent env ev s)"

definition IfPointToPointProcessEvent :: "IfEnv \<Rightarrow> InterfaceEventType \<Rightarrow> IfState \<Rightarrow> IfState res" where
  "IfPointToPointProcessEvent env ev s = (case ev of
      HelloTimer \<Rightarrow>
        if interfaceType (ifOf s) = Virtual
        then helloTo env (map neighborIPAddress (take 1 (neighborsOf s))) 32 s
        else helloTo env [AllSPFRouters] 1 s
    | _ \<Rightarrow> upProcessEvent env ev s)"

definition IfNotDesignatedRouterProcessEvent :: "IfEnv \<Rightarrow> InterfaceEventType \<Rightarrow> IfState \<Rightarrow> IfState res" where
  "IfNotDesignatedRouterProcessEvent env ev s = (case ev of
      NeighborChange \<Rightarrow> CalculateDesignatedRouter env s
    | HelloTimer \<Rightarrow>
        if interfaceType (ifOf s) = Broadcast then helloTo env [AllSPFRouters] 1 s
        else if 0 < routerPriority (ifOf s) then helloTo env (eligibleAddresses (ifOf s)) 1 s
        else helloTo env [ipInterfaceAddress (designatedRouter (ifOf s)),
               ipInterfaceAddress (backupDesignatedRouter (ifOf s))] 1 s
    | _ \<Rightarrow> upProcessEvent env ev s)"

text \<open>The states Backup and DesignatedRouter have the same code.\<close>

definition IfBackupProcessEvent :: "IfEnv \<Rightarrow> InterfaceEventType \<Rightarrow> IfState \<Rightarrow> IfState res" where
  "IfBackupProcessEvent env ev s = (case ev of
      NeighborChange \<Rightarrow> CalculateDesignatedRouter env s
    | HelloTimer \<Rightarrow>
        if interfaceType (ifOf s) = Broadcast then helloTo env [AllSPFRouters] 1 s
        else helloTo env (map neighborIPAddress (neighborsOf s)) (ttlOf (ifOf s)) s
    | _ \<Rightarrow> upProcessEvent env ev s)"

definition IfDesignatedRouterProcessEvent :: "IfEnv \<Rightarrow> InterfaceEventType \<Rightarrow> IfState \<Rightarrow> IfState res" where
  "IfDesignatedRouterProcessEvent env ev s = IfBackupProcessEvent env ev s"

definition IfProcessEvent :: "IfEnv \<Rightarrow> InterfaceEventType \<Rightarrow> IfState \<Rightarrow> IfState res" where
  "IfProcessEvent env ev s = (case ifState (ifOf s) of
      IfDown \<Rightarrow> IfDownProcessEvent env ev s
    | IfLoopback \<Rightarrow> IfLoopbackProcessEvent env ev s
    | IfWaiting \<Rightarrow> IfWaitingProcessEvent env ev s
    | IfPointToPoint \<Rightarrow> IfPointToPointProcessEvent env ev s
    | IfNotDesignatedRouter \<Rightarrow> IfNotDesignatedRouterProcessEvent env ev s
    | IfBackup \<Rightarrow> IfBackupProcessEvent env ev s
    | IfDesignatedRouter \<Rightarrow> IfDesignatedRouterProcessEvent env ev s)"

text \<open>A timer of the interface expires: the kernel has taken it out of its queue.\<close>

primrec ifTimerEvent :: "IfTimer \<Rightarrow> InterfaceEventType" where
  "ifTimerEvent HelloT = HelloTimer"
| "ifTimerEvent WaitT = WaitTimer"
| "ifTimerEvent AcknowledgementT = AcknowledgementTimer"

definition HandleIfTimer :: "IfEnv \<Rightarrow> IfTimer \<Rightarrow> IfState \<Rightarrow> IfState res" where
  "HandleIfTimer env tm s = IfProcessEvent env (ifTimerEvent tm) (setIfTimer tm None s)"

end
