(* ===== verification/OSPF_Hello.thy ===== *)
theory OSPF_Hello imports OSPF_Interface
begin

text \<open>
  Hello packets (\<^verbatim>\<open>messagehandler/HelloHandler.cc\<close>) and what
  \<^verbatim>\<open>messagehandler/MessageHandler.cc\<close> hands to an interface and its neighbours.
\<close>

section \<open>A known neighbour\<close>

definition isVirtualDown :: "OspfInterface \<Rightarrow> Neighbor \<Rightarrow> bool" where
  "isVirtualDown intf n \<longleftrightarrow> interfaceType intf = Virtual \<and> nbState n = NbDown"

text \<open>The neighbour now declares a role for itself, or no longer does.\<close>

definition declarationChanged :: "IPAddress \<Rightarrow> IPAddress \<Rightarrow> IPAddress \<Rightarrow> bool" where
  "declarationChanged src old new \<longleftrightarrow> (new = src \<and> new \<noteq> old) \<or> (new \<noteq> src \<and> src = old)"

record HelloNews =
  neighborChanged :: bool
  neighborsDRStateChanged :: bool
  backupSeen :: bool

text \<open>
  The packet's priority is a \<^verbatim>\<open>char\<close>, the neighbour's an \<^verbatim>\<open>unsigned char\<close>;
  they are compared as integers.
\<close>

definition helloNews :: "OspfInterface \<Rightarrow> IPAddress \<Rightarrow> OSPFHelloPacket \<Rightarrow> Neighbor \<Rightarrow> HelloNews" where
  "helloNews intf src p n =
    (let dr = ipInterfaceAddress (neighborsDesignatedRouter n);
         bdr = ipInterfaceAddress (neighborsBackupDesignatedRouter n);
         priority = (if isVirtualDown intf n then hpRouterPriority p else neighborPriority n);
         waiting = (ifState intf = IfWaiting);
         seenDR = (hpDesignatedRouter p = src \<and> hpBackupDesignatedRouter p = 0 \<and> waiting);
         drChange = (\<not> seenDR \<and> declarationChanged src dr (hpDesignatedRouter p));
         seenBDR = (hpBackupDesignatedRouter p = src \<and> waiting);
         bdrChange = (\<not> seenBDR \<and> declarationChanged src bdr (hpBackupDesignatedRouter p))
     in \<lparr>neighborChanged = (uint priority \<noteq> sint (hpRouterPriority p) \<or> drChange \<or> bdrChange),
         neighborsDRStateChanged = drChange, backupSeen = (seenDR \<or> seenBDR)\<rparr>)"

text \<open>What the packet says about the neighbour; the routers it declares are looked up afterwards.\<close>

definition takeHello ::
  "OspfInterface \<Rightarrow> IPAddress \<Rightarrow> RouterID \<Rightarrow> OSPFHelloPacket \<Rightarrow> Neighbor \<Rightarrow> Neighbor" where
  "takeHello intf src rid p n =
    (let n1 = (if isVirtualDown intf n
           then n\<lparr>neighborsRouterDeadInterval := hpRouterDeadInterval p\<rparr> else n);
         drChanged = (hpDesignatedRouter p \<noteq> ipInterfaceAddress (neighborsDesignatedRouter n) \<or>
           hpBackupDesignatedRouter p \<noteq> ipInterfaceAddress (neighborsBackupDesignatedRouter n))
     in n1\<lparr>neighborID := rid, neighborPriority := hpRouterPriority p, neighborIPAddress := src,
          neighborsDesignatedRouter :=
            \<lparr>drRouterID = hpDesignatedRouter p, ipInterfaceAddress = hpDesignatedRouter p\<rparr>,
          neighborsBackupDesignatedRouter :=
            \<lparr>drRouterID = hpBackupDesignatedRouter p, ipInterfaceAddress = hpBackupDesignatedRouter p\<rparr>,
          designatedRoutersSetUp := (\<not> drChanged \<and> designatedRoutersSetUp n)\<rparr>)"

definition routerOfNeighbor :: "Neighbor \<Rightarrow> DesignatedRouterID" where
  "routerOfNeighbor n = \<lparr>drRouterID = neighborID n, ipInterfaceAddress = neighborIPAddress n\<rparr>"

definition setUpRouters :: "OspfInterface \<Rightarrow> OSPFHelloPacket \<Rightarrow> Neighbor \<Rightarrow> Neighbor" where
  "setUpRouters intf p n =
    (if designatedRoutersSetUp n then n else
      (let designated = GetNeighborByAddress intf (hpDesignatedRouter p);
           backup = GetNeighborByAddress intf (hpBackupDesignatedRouter p)
       in n\<lparr>neighborsDesignatedRouter := (case designated of
              None \<Rightarrow> neighborsDesignatedRouter n | Some d \<Rightarrow> routerOfNeighbor d),
            neighborsBackupDesignatedRouter := (case backup of
              None \<Rightarrow> neighborsBackupDesignatedRouter n | Some b \<Rightarrow> routerOfNeighbor b),
            designatedRoutersSetUp := (designated \<noteq> None \<and> backup \<noteq> None)\<rparr>))"

definition updateNeighbor :: "nat \<Rightarrow> (OspfInterface \<Rightarrow> Neighbor \<Rightarrow> Neighbor) \<Rightarrow> OspfInterface \<Rightarrow> OspfInterface" where
  "updateNeighbor k f intf = intf\<lparr>neighboringRouters :=
     (neighboringRouters intf)[k := f intf (neighboringRouters intf ! k)]\<rparr>"

definition knownNeighbor ::
  "IPAddress \<Rightarrow> RouterID \<Rightarrow> OSPFHelloPacket \<Rightarrow> nat \<Rightarrow> OspfInterface \<Rightarrow> HelloNews \<times> OspfInterface" where
  "knownNeighbor src rid p k intf =
     (helloNews intf src p (neighboringRouters intf ! k),
      updateNeighbor k (\<lambda>intf. setUpRouters intf p)
        (updateNeighbor k (\<lambda>intf. takeHello intf src rid p) intf))"

section \<open>A new neighbour\<close>

definition declaredRouter :: "OspfInterface \<Rightarrow> IPAddress \<Rightarrow> DesignatedRouterID" where
  "declaredRouter intf a = \<lparr>drRouterID = (case GetNeighborByAddress intf a of
     None \<Rightarrow> a | Some d \<Rightarrow> neighborID d), ipInterfaceAddress = a\<rparr>"

definition addedNeighbor ::
  "IPAddress \<Rightarrow> RouterID \<Rightarrow> OSPFHelloPacket \<Rightarrow> OspfInterface \<Rightarrow> OspfInterface" where
  "addedNeighbor src rid p intf = AddNeighbor ((newNeighbor rid)\<lparr>neighborPriority := hpRouterPriority p,
     neighborIPAddress := src, neighborsRouterDeadInterval := hpRouterDeadInterval p,
     neighborsDesignatedRouter := declaredRouter intf (hpDesignatedRouter p),
     neighborsBackupDesignatedRouter := declaredRouter intf (hpBackupDesignatedRouter p),
     designatedRoutersSetUp := (GetNeighborByAddress intf (hpDesignatedRouter p) \<noteq> None \<and>
       GetNeighborByAddress intf (hpBackupDesignatedRouter p) \<noteq> None)\<rparr>) intf"

section \<open>The handler\<close>

definition helloAccepted :: "IfEnv \<Rightarrow> OSPFHelloPacket \<Rightarrow> IfState \<Rightarrow> bool" where
  "helloAccepted env p s \<longleftrightarrow> (let intf = ifOf s in
     helloInterval s = hpHelloInterval p \<and> routerDeadInterval s = hpRouterDeadInterval p \<and>
     \<not> (interfaceType intf \<noteq> PointToPoint \<and> interfaceType intf \<noteq> Virtual \<and> ifMask intf \<noteq> hpNetworkMask p) \<and>
     externalRoutingCapability (ieArea env) = E_ExternalRoutingCapability (hpOptions p))"

definition bySourceAddress :: "OspfInterface \<Rightarrow> bool" where
  "bySourceAddress intf \<longleftrightarrow> interfaceType intf \<in> {Broadcast, PointToMultiPoint, NBMA}"

text \<open>The neighbour a Hello packet is from: its position, the news and the changed interface.\<close>

definition helloNeighbor ::
  "IPAddress \<Rightarrow> RouterID \<Rightarrow> OSPFHelloPacket \<Rightarrow> OspfInterface \<Rightarrow> nat \<times> HelloNews \<times> OspfInterface" where
  "helloNeighbor src rid p intf =
    (case (if bySourceAddress intf then neighboringRoutersByAddress intf src
           else neighboringRoutersByID intf rid) of
       Some k \<Rightarrow> (k, knownNeighbor src rid p k intf)
     | None \<Rightarrow> (length (neighboringRouters intf),
         \<lparr>neighborChanged = False, neighborsDRStateChanged = False, backupSeen = False\<rparr>,
         addedNeighbor src rid p intf))"

definition answerHello :: "IfEnv \<Rightarrow> OSPFHelloPacket \<Rightarrow> nat \<Rightarrow> IfState \<Rightarrow> IfState res" where
  "answerHello env p k s =
    andThen (raise env HelloReceived k s) (\<lambda>s.
      (let n = neighborsOf s ! k;
           s = (if interfaceType (ifOf s) = NBMA \<and> routerPriority (ifOf s) = 0 \<and>
                   nbStateValue NbInit \<le> nbStateValue (nbState n)
                then SendHello env (neighborIPAddress n) 1 s else s)
       in raise env (if ifAddress (ifOf s) \<in> set (hpNeighbors p) then TwoWayReceived else OneWayReceived) k s))"

definition unstickNeighbors :: "IfEnv \<Rightarrow> IfState \<Rightarrow> IfState res" where
  "unstickNeighbors env = eachNeighbor (\<lambda>k s.
     if nbState (neighborsOf s ! k) = NbTwoWay then raise env IsAdjacencyOK k s else Inr s)"

definition spreadNews :: "IfEnv \<Rightarrow> HelloNews \<Rightarrow> IfState \<Rightarrow> IfState res" where
  "spreadNews env news s =
    andThen (if neighborChanged news then
        andThen (IfProcessEvent env NeighborChange s) (\<lambda>s.
        andThen (unstickNeighbors env s) (\<lambda>s.
          Inr (if neighborsDRStateChanged news \<and>
                  FindRouterLSA (ieArea env) (routerID (ieArea env)) \<noteq> None
               then emitIf [RenewRouterLSACall] s else s)))
      else Inr s)
    (\<lambda>s. if backupSeen news then IfProcessEvent env BackupSeen s else Inr s)"

definition HelloHandler ::
  "IfEnv \<Rightarrow> IPAddress \<Rightarrow> RouterID \<Rightarrow> OSPFHelloPacket \<Rightarrow> IfState \<Rightarrow> IfState res" where
  "HelloHandler env src rid p s =
    (if helloAccepted env p s then
       (case helloNeighbor src rid p (ifOf s) of (k, news, intf) \<Rightarrow>
          andThen (answerHello env p k (s\<lparr>ifOf := intf\<rparr>)) (spreadNews env news))
     else Inr s)"

section \<open>Packets\<close>

datatype IfPacket =
    HelloPacketOf OSPFHelloPacket
  | DDPacketOf OSPFDatabaseDescriptionPacket
  | RequestPacketOf "LSARequest list"
  | AcknowledgementPacketOf "OSPFLSAHeader list"

text \<open>All packets but Hello packets are for a neighbour that is known.\<close>

definition packetNeighbor :: "OspfInterface \<Rightarrow> IPAddress \<Rightarrow> RouterID \<Rightarrow> nat option" where
  "packetNeighbor intf src rid = (case interfaceType intf of
      Broadcast \<Rightarrow> neighboringRoutersByAddress intf src
    | NBMA \<Rightarrow> neighboringRoutersByAddress intf src
    | PointToMultiPoint \<Rightarrow> neighboringRoutersByAddress intf src
    | PointToPoint \<Rightarrow> neighboringRoutersByID intf rid
    | Virtual \<Rightarrow> neighboringRoutersByID intf rid
    | UnknownType \<Rightarrow> None)"

text \<open>What of a packet's way from \<^verbatim>\<open>MessageReceived\<close> on is about its interface.\<close>

definition addressedTo :: "OspfInterface \<Rightarrow> IPAddress \<Rightarrow> bool" where
  "addressedTo intf dest \<longleftrightarrow>
     (dest = AllDRouters \<and> (ifState intf = IfDesignatedRouter \<or> ifState intf = IfBackup)) \<or> dest \<noteq> AllDRouters"

definition ReceivePacket ::
  "IfEnv \<Rightarrow> IPAddress \<Rightarrow> IPAddress \<Rightarrow> RouterID \<Rightarrow> IfPacket \<Rightarrow> IfState \<Rightarrow> IfState res" where
  "ReceivePacket env src dest rid p s =
    (if rid = routerID (ieArea env) \<or> \<not> addressedTo (ifOf s) dest then Inr s
     else case p of HelloPacketOf h \<Rightarrow> HelloHandler env src rid h s
     | _ \<Rightarrow> (case packetNeighbor (ifOf s) src rid of None \<Rightarrow> Inr s
         | Some k \<Rightarrow> onNeighbor env k (\<lambda>e t. case p of
               DDPacketOf d \<Rightarrow> DDHandler e d t
             | RequestPacketOf rs \<Rightarrow> LSRequestHandler e rs t
             | AcknowledgementPacketOf hs \<Rightarrow> Inr (LSAckHandler hs t)
             | HelloPacketOf h \<Rightarrow> Inr t) s))"

end
