(* ===== verification/OSPF_Flooding.thy ===== *)
theory OSPF_Flooding imports OSPF_Hello
begin

text \<open>
  Flooding over one interface (\<^verbatim>\<open>FloodLSA\<close> of \<^verbatim>\<open>interface/OSPFInterface.cc\<close>),
  the acknowledgement of an LSA (\<^verbatim>\<open>AcknowledgeLSA\<close> of
  \<^verbatim>\<open>messagehandler/LinkStateUpdateHandler.cc\<close>) and runs of an interface with its
  neighbours.
\<close>

section \<open>The neighbours\<close>

text \<open>
  AS external LSAs are not flooded over virtual links, the others not over virtual links outside the
  backbone.
\<close>

definition floodable :: "IfEnv \<Rightarrow> OspfInterface \<Rightarrow> OSPFLSAHeader \<Rightarrow> bool" where
  "floodable env intf h \<longleftrightarrow>
     (lsType h = ASExternalLSAType \<and> interfaceType intf \<noteq> Virtual \<and>
      externalRoutingCapability (ieArea env)) \<or>
     (lsType h \<noteq> ASExternalLSAType \<and>
      ((areaID (ieArea env) \<noteq> BackboneAreaID \<and> interfaceType intf \<noteq> Virtual) \<or>
       areaID (ieArea env) = BackboneAreaID))"

text \<open>A copy is made by the type in the header, which has to be the kind of the LSA.\<close>

definition copyError :: "OSPFLSA \<Rightarrow> sim_error" where
  "copyError l = (let t = lsType (lsaHeader l) in
     if RouterLSAType \<le> t \<and> t \<le> ASExternalLSAType then OppError ''check_and_cast''
     else AssertFailed ''AddToRetransmissionList'')"

definition floodTo :: "IfEnv \<Rightarrow> OSPFLSA \<Rightarrow> nat option \<Rightarrow> nat \<Rightarrow> bool \<times> IfState \<Rightarrow> (bool \<times> IfState) res" where
  "floodTo env l sender k r = (case r of (lsaAdded, s) \<Rightarrow>
     andThen (floodToNeighbor (nbEnvOf env s) l (sender = Some k) (nbStateOf k s)) (\<lambda>(added, t).
       checked (added \<longrightarrow> kindMatches l) (copyError l) (Inr (lsaAdded \<or> added, backFrom env k s t))))"

section \<open>The update packet\<close>

definition noteUpdate :: "IfEnv \<Rightarrow> LSAKey \<Rightarrow> nat \<Rightarrow> IfState \<Rightarrow> IfState res" where
  "noteUpdate env key k s = onNeighbor env k (\<lambda>e. updateSent e key) s"

definition emitUpdate :: "OspfPacket \<Rightarrow> IPAddress \<Rightarrow> IfState \<Rightarrow> IfState" where
  "emitUpdate p a s = emitIf [SentByNeighbor (SendPacket p a (ifIndex (ifOf s)) (ttlOf (ifOf s)))] s"

definition noteRouter :: "IfEnv \<Rightarrow> LSAKey \<Rightarrow> RouterID \<Rightarrow> IfState \<Rightarrow> IfState res" where
  "noteRouter env key i s = (case neighboringRoutersByID (ifOf s) i of
      None \<Rightarrow> Inr s | Some k \<Rightarrow> noteUpdate env key k s)"

text \<open>
  On the other interfaces the one packet object is sent to every neighbour in turn; the kernel
  rejects it when it already carries the control information of an earlier sending.
\<close>

definition sendAgain :: "IfEnv \<Rightarrow> LSAKey \<Rightarrow> OspfPacket \<Rightarrow> nat \<Rightarrow> bool \<times> IfState \<Rightarrow> (bool \<times> IfState) res" where
  "sendAgain env key p k r = (case r of (sent, s) \<Rightarrow>
    (if nbStateValue NbExchange \<le> nbStateValue (nbState (neighborsOf s ! k)) then
       checked (\<not> sent) (KernelError ''setControlInfo'')
         (andThen (noteUpdate env key k (emitUpdate p (neighborIPAddress (neighborsOf s ! k)) s))
            (\<lambda>s. Inr (True, s)))
     else Inr (sent, s)))"

definition sendUpdates :: "IfEnv \<Rightarrow> LSAKey \<Rightarrow> OspfPacket \<Rightarrow> IfState \<Rightarrow> IfState res" where
  "sendUpdates env key p s = (let intf = ifOf s; destination = floodDestination intf 0 in
     case interfaceType intf of
       Broadcast \<Rightarrow>
         if destination = AllSPFRouters then eachNeighbor (noteUpdate env key) (emitUpdate p destination s)
         else andThen (noteRouter env key (drRouterID (designatedRouter intf)) (emitUpdate p destination s))
           (noteRouter env key (drRouterID (backupDesignatedRouter intf)))
     | PointToPoint \<Rightarrow>
         if neighborsOf s \<noteq> [] then noteUpdate env key 0 (emitUpdate p destination s)
         else Inr (emitUpdate p destination s)
     | _ \<Rightarrow> andThen (foldRes (sendAgain env key p) [0..<length (neighborsOf s)] (False, s))
         (\<lambda>r. Inr (snd r)))"

text \<open>
  \<open>onThis\<close> tells whether the LSA came in on this interface, \<open>sender\<close> from which of its neighbours.
  An LSA from the designated router or the backup is not sent again, nor does the backup send one.
\<close>

definition floodsOut :: "bool \<Rightarrow> nat option \<Rightarrow> OspfInterface \<Rightarrow> bool" where
  "floodsOut onThis sender intf \<longleftrightarrow>
     (\<not> onThis \<or> (case sender of None \<Rightarrow> False | Some k \<Rightarrow>
        (let i = neighborID (neighboringRouters intf ! k) in
         i \<noteq> drRouterID (designatedRouter intf) \<and> i \<noteq> drRouterID (backupDesignatedRouter intf)))) \<and>
     (\<not> onThis \<or> ifState intf \<noteq> IfBackup)"

definition IfFloodLSA :: "IfEnv \<Rightarrow> OSPFLSA \<Rightarrow> bool \<Rightarrow> nat option \<Rightarrow> IfState \<Rightarrow> (bool \<times> IfState) res" where
  "IfFloodLSA env l onThis sender s =
    (if \<not> floodable env (ifOf s) (lsaHeader l) then Inr (False, s)
     else andThen (foldRes (floodTo env l sender) [0..<length (neighborsOf s)] (False, s)) (\<lambda>(lsaAdded, s).
       if lsaAdded \<and> floodsOut onThis sender (ifOf s) then
         (case CreateUpdatePacket (ifOf s) l of
            None \<Rightarrow> Inr (False, s)
          | Some p \<Rightarrow> andThen (sendUpdates env (lsaKey (lsaHeader l)) p s) (\<lambda>s. Inr (onThis, s)))
       else Inr (False, s)))"

section \<open>Acknowledgements\<close>

record AcknowledgementFlags =
  floodedBackOut :: bool
  lsaIsNewer :: bool
  lsaIsDuplicate :: bool
  impliedAcknowledgement :: bool
  lsaReachedMaxAge :: bool
  noLSAInstanceInDatabase :: bool
  anyNeighborInExchangeOrLoadingState :: bool

definition directAcknowledgement :: "AcknowledgementFlags \<Rightarrow> bool" where
  "directAcknowledgement f \<longleftrightarrow> (lsaIsDuplicate f \<and> \<not> impliedAcknowledgement f) \<or>
     (lsaReachedMaxAge f \<and> noLSAInstanceInDatabase f \<and> anyNeighborInExchangeOrLoadingState f)"

definition delaysAcknowledgement :: "AcknowledgementFlags \<Rightarrow> RouterID \<Rightarrow> OspfInterface \<Rightarrow> bool" where
  "delaysAcknowledgement f lsaSource intf \<longleftrightarrow>
    (if ifState intf = IfBackup
     then (lsaIsNewer f \<and> lsaSource = drRouterID (designatedRouter intf)) \<or>
          (lsaIsDuplicate f \<and> impliedAcknowledgement f)
     else lsaIsNewer f)"

definition AcknowledgeLSA ::
  "OSPFLSAHeader \<Rightarrow> AcknowledgementFlags \<Rightarrow> RouterID \<Rightarrow> IfState \<Rightarrow> IfState res" where
  "AcknowledgeLSA h f lsaSource s = (let intf = ifOf s in
     if floodedBackOut f then Inr s
     else if delaysAcknowledgement f lsaSource intf then Inr (AddDelayedAcknowledgement h s)
     else if directAcknowledgement f then
       (if interfaceType intf = Broadcast \<or> interfaceType intf = PointToPoint
        then Inr (SendLSAcknowledgement h (floodDestination intf 0) s)
        else (case GetNeighborByID intf lsaSource of
            None \<Rightarrow> Inl (NullPointer ''GetNeighborByID'')
          | Some n \<Rightarrow> Inr (SendLSAcknowledgement h (neighborIPAddress n) s)))
     else Inr s)"

section \<open>Runs\<close>

text \<open>
  What can happen to an interface and its neighbours: the events of the configuration and of the
  module, timers, packets, an LSA that is flooded, acknowledged or taken from the retransmission
  lists, and the tick that ages the lists of transmitted LSAs.
\<close>

datatype IfInput =
    IfEvent InterfaceEventType
  | IfTimerExpires IfTimer
  | NbTimerExpires nat NbTimer
  | PacketArrives IPAddress IPAddress RouterID IfPacket
  | FloodOver OSPFLSA bool "nat option"
  | AcknowledgeOver OSPFLSAHeader AcknowledgementFlags RouterID
  | ForgetLSA LSAKey
  | AgeLists

definition raisedByModule :: "InterfaceEventType \<Rightarrow> bool" where
  "raisedByModule ev \<longleftrightarrow> ev \<in> {InterfaceUp, InterfaceDown, LoopIndication, UnloopIndication}"

definition RemoveFromAllRetransmissionLists :: "LSAKey \<Rightarrow> IfState \<Rightarrow> IfState" where
  "RemoveFromAllRetransmissionLists key s = s\<lparr>ifOf := (ifOf s)\<lparr>neighboringRouters :=
     map (\<lambda>n. n\<lparr>linkStateRetransmissionList :=
       filter (\<lambda>l. lsaKey (lsaHeader l) \<noteq> key) (linkStateRetransmissionList n)\<rparr>) (neighborsOf s)\<rparr>\<rparr>"

definition IsOnAnyRetransmissionList :: "LSAKey \<Rightarrow> IfState \<Rightarrow> bool" where
  "IsOnAnyRetransmissionList key s \<longleftrightarrow>
     (\<exists>n\<in>set (neighborsOf s). FindOnRetransmissionList key n \<noteq> None)"

primrec ifStep :: "IfEnv \<Rightarrow> IfInput \<Rightarrow> IfState \<Rightarrow> IfState res" where
  "ifStep env (IfEvent ev) s = (if raisedByModule ev then IfProcessEvent env ev s else Inr s)"
| "ifStep env (IfTimerExpires tm) s =
     (if getIfTimer tm s \<noteq> None then HandleIfTimer env tm s else Inr s)"
| "ifStep env (NbTimerExpires k tm) s =
     (if k < length (neighborsOf s) \<and> getTimer tm (neighborsOf s ! k) \<noteq> None
      then onNeighbor env k (\<lambda>e. HandleTimer e tm) s else Inr s)"
| "ifStep env (PacketArrives src dest rid p) s = ReceivePacket env src dest rid p s"
| "ifStep env (FloodOver l onThis sender) s = andThen (IfFloodLSA env l onThis sender s) (\<lambda>r. Inr (snd r))"
| "ifStep env (AcknowledgeOver h f lsaSource) s = AcknowledgeLSA h f lsaSource s"
| "ifStep env (ForgetLSA key) s = Inr (RemoveFromAllRetransmissionLists key s)"
| "ifStep env AgeLists s =
     eachNeighbor (\<lambda>k. onNeighbor env k (\<lambda>e t. Inr (AgeTransmittedLSAList t))) s"

fun ifRun :: "(IfEnv \<times> IfInput) list \<Rightarrow> IfState \<Rightarrow> IfState res" where
  "ifRun [] s = Inr s"
| "ifRun ((env, i) # is) s = andThen (ifStep env i s) (ifRun is)"

text \<open>The constructor, and the settings of the configuration.\<close>

definition newInterface :: "OspfInterface \<Rightarrow> int \<Rightarrow> int \<Rightarrow> int \<Rightarrow> ulong \<Rightarrow> IfState" where
  "newInterface config hello dead ackDelay seed =
     \<lparr>ifOf = config\<lparr>ifState := IfDown, neighboringRouters := [],
        neighboringRoutersByID := Map.empty, neighboringRoutersByAddress := Map.empty,
        designatedRouter := NullDesignatedRouterID, backupDesignatedRouter := NullDesignatedRouterID\<rparr>,
      helloInterval = hello, routerDeadInterval = dead, acknowledgementDelay = ackDelay,
      helloTimer = None, waitTimer = None, acknowledgementTimer = None,
      delayedAcknowledgements = [], ifOut = [], ifSeed = seed\<rparr>"

end
