(* ===== verification/OSPF_NeighborProps.thy ===== *)
theory OSPF_NeighborProps imports OSPF_Exchange
begin

text \<open>
  The timers, lists and states of an OSPF neighbour in every run: no timer is scheduled twice, the
  lists belong to the state, what is missing is requested until it comes.
\<close>

section \<open>Calls that return\<close>

definition yields :: "'a res \<Rightarrow> ('a \<Rightarrow> bool) \<Rightarrow> bool" where
  "yields r P \<longleftrightarrow> (case r of Inl _ \<Rightarrow> False | Inr x \<Rightarrow> P x)"

lemma yields_Inr [simp]: "yields (Inr x) P = P x"
  by (simp add: yields_def)

lemma yields_Inl [simp]: "\<not> yields (Inl e) P"
  by (simp add: yields_def)

lemma yields_andThen: "yields r P \<Longrightarrow> (\<And>x. P x \<Longrightarrow> yields (f x) Q) \<Longrightarrow> yields (andThen r f) Q"
  by (cases r) auto

lemma yields_iff: "yields r P \<longleftrightarrow> (\<exists>x. r = Inr x \<and> P x)"
  by (cases r) auto

lemma yields_mono: "yields r P \<Longrightarrow> (\<And>x. P x \<Longrightarrow> Q x) \<Longrightarrow> yields r Q"
  by (cases r) auto

section \<open>The invariant\<close>

text \<open>
  The inactivity timer runs except in Down, the poll timer only in Down. In ExchangeStart the
  initial packet is repeated, in Exchange nothing is. Requests are repeated exactly while the timer
  for them is marked as active, which needs a list of requests.
\<close>

definition timersFit :: "Neighbor \<Rightarrow> bool" where
  "timersFit n \<longleftrightarrow> (nbState n = NbDown \<longleftrightarrow> inactivityTimer n = None) \<and>
     (nbState n \<noteq> NbDown \<longrightarrow> pollTimer n = None) \<and>
     (nbState n \<in> {NbDown, NbAttempt, NbInit, NbTwoWay, NbExchange} \<longrightarrow> ddRetransmissionTimer n = None) \<and>
     (nbState n = NbExchangeStart \<longrightarrow> ddRetransmissionTimer n \<noteq> None) \<and>
     (updateRetransmissionTimer n \<noteq> None \<longrightarrow> updateRetransmissionTimerActive n) \<and>
     (requestRetransmissionTimerActive n \<longleftrightarrow> requestRetransmissionTimer n \<noteq> None) \<and>
     (requestRetransmissionTimer n \<noteq> None \<longrightarrow> nbState n \<in> {NbExchange, NbLoading})"

definition listsFit :: "Neighbor \<Rightarrow> bool" where
  "listsFit n \<longleftrightarrow>
     (nbState n \<in> {NbDown, NbAttempt, NbInit, NbTwoWay, NbFull} \<longrightarrow> linkStateRequestList n = []) \<and>
     (nbState n = NbLoading \<longrightarrow> linkStateRequestList n \<noteq> []) \<and>
     (nbState n \<noteq> NbExchange \<longrightarrow> databaseSummaryList n = []) \<and>
     (nbState n \<in> {NbDown, NbAttempt, NbInit, NbTwoWay, NbExchangeStart} \<longrightarrow>
        linkStateRetransmissionList n = [])"

text \<open>What is missing is requested, and the request is repeated.\<close>

definition requestsRun :: "Neighbor \<Rightarrow> bool" where
  "requestsRun n \<longleftrightarrow> (nbState n \<in> {NbExchange, NbLoading} \<and> linkStateRequestList n \<noteq> [] \<longrightarrow>
     requestRetransmissionTimer n \<noteq> None)"

definition nbCore :: "NbState \<Rightarrow> bool" where
  "nbCore s \<longleftrightarrow> timersFit (nbOf s) \<and> listsFit (nbOf s)"

definition nbInv :: "NbState \<Rightarrow> bool" where
  "nbInv s \<longleftrightarrow> nbCore s \<and> requestsRun (nbOf s)"

lemmas nb_inv_defs = nbInv_def nbCore_def timersFit_def listsFit_def requestsRun_def

section \<open>The operations on the invariant's fields\<close>

lemmas nb_update_defs = emit_def modify_def ClearTimer_def ClearUpdateRetransmissionTimer_def
  ClearRequestRetransmissionTimer_def Reset_def DeleteLastSentDDPacket_def ChangeState_def
  AddToRequestList_def AddToRetransmissionList_def RemoveFromRetransmissionList_def
  AddToTransmittedLSAList_def AgeTransmittedLSAList_def InitFirstAdjacency_def GetUniqueULong_def
  IncrementDDSequenceNumber_def sendToNeighbor_def helloNow_def Let_def

lemmas nb_call_defs = StartTimer_def StartUpdateRetransmissionTimer_def checked_def
  StartRequestRetransmissionTimer_def killNeighbor_def inactive_def restartInactivity_def oneWay_def
  dropAdjacency_def startExchange_def beginAdjacency_def restartExchange_def resendUpdates_def
  resendRequests_def

text \<open>Sending a DD packet changes the summary list, the last packet and the output.\<close>

lemma SendDD_fields [simp]:
  "nbState (nbOf (SendDatabaseDescriptionPacket i env s)) = nbState (nbOf s)"
  "getTimer tm (nbOf (SendDatabaseDescriptionPacket i env s)) = getTimer tm (nbOf s)"
  "inactivityTimer (nbOf (SendDatabaseDescriptionPacket i env s)) = inactivityTimer (nbOf s)"
  "pollTimer (nbOf (SendDatabaseDescriptionPacket i env s)) = pollTimer (nbOf s)"
  "ddRetransmissionTimer (nbOf (SendDatabaseDescriptionPacket i env s)) = ddRetransmissionTimer (nbOf s)"
  "updateRetransmissionTimer (nbOf (SendDatabaseDescriptionPacket i env s)) = updateRetransmissionTimer (nbOf s)"
  "requestRetransmissionTimer (nbOf (SendDatabaseDescriptionPacket i env s)) = requestRetransmissionTimer (nbOf s)"
  "updateRetransmissionTimerActive (nbOf (SendDatabaseDescriptionPacket i env s)) = updateRetransmissionTimerActive (nbOf s)"
  "requestRetransmissionTimerActive (nbOf (SendDatabaseDescriptionPacket i env s)) = requestRetransmissionTimerActive (nbOf s)"
  "linkStateRequestList (nbOf (SendDatabaseDescriptionPacket i env s)) = linkStateRequestList (nbOf s)"
  "linkStateRetransmissionList (nbOf (SendDatabaseDescriptionPacket i env s)) = linkStateRetransmissionList (nbOf s)"
  "databaseExchangeRelationship (nbOf (SendDatabaseDescriptionPacket i env s)) = databaseExchangeRelationship (nbOf s)"
  "ddSequenceNumber (nbOf (SendDatabaseDescriptionPacket i env s)) = ddSequenceNumber (nbOf s)"
  "neighborID (nbOf (SendDatabaseDescriptionPacket i env s)) = neighborID (nbOf s)"
  "neighborsRouterDeadInterval (nbOf (SendDatabaseDescriptionPacket i env s)) = neighborsRouterDeadInterval (nbOf s)"
  by (cases tm; simp add: SendDatabaseDescriptionPacket_def nb_update_defs split: prod.splits)+

lemma SendDD_summary:
  "databaseSummaryList (nbOf (SendDatabaseDescriptionPacket i env s)) =
     (if i \<or> databaseSummaryList (nbOf s) = [] then databaseSummaryList (nbOf s)
      else snd (fillPacket 92 (maxPacketSizeOf 112 (envInterface env)) 20 (databaseSummaryList (nbOf s))))"
  by (simp add: SendDatabaseDescriptionPacket_def nb_update_defs split: prod.splits)

lemma SendDD_summary_nil [simp]:
  "databaseSummaryList (nbOf s) = [] \<Longrightarrow>
   databaseSummaryList (nbOf (SendDatabaseDescriptionPacket i env s)) = []"
  "databaseSummaryList (nbOf (SendDatabaseDescriptionPacket True env s)) = databaseSummaryList (nbOf s)"
  by (simp_all add: SendDD_summary)

text \<open>These only send.\<close>

lemma sending_keeps_neighbor [simp]:
  "nbOf (emit e s) = nbOf s"
  "nbOf (sendToNeighbor env p s) = nbOf s"
  "nbOf (SendLinkStateRequestPacket env s) = nbOf s"
  "nbOf (RetransmitUpdatePacket env s) = nbOf s"
  "nbOf (helloNow env s) = nbOf s"
  "nbOf (snd (RetransmitDatabaseDescriptionPacket env s)) = nbOf s"
  "nbOf (sendUpdate env l s) = nbOf s"
  by (simp_all add: emit_def sendToNeighbor_def SendLinkStateRequestPacket_def RetransmitUpdatePacket_def
      helloNow_def RetransmitDatabaseDescriptionPacket_def sendUpdate_def Let_def split: option.splits)

lemma nbOf_ChangeState [simp]: "nbOf (ChangeState t s) = (nbOf s)\<lparr>nbState := t\<rparr>"
  by (simp add: ChangeState_def modify_def Let_def)

lemma nbOf_modify [simp]: "nbOf (modify f s) = f (nbOf s)"
  by (simp add: modify_def)

lemma nbOf_Reset [simp]: "nbOf (Reset s) = (nbOf s)\<lparr>linkStateRetransmissionList := [],
    databaseSummaryList := [], linkStateRequestList := [], ddRetransmissionTimer := None,
    updateRetransmissionTimer := None, updateRetransmissionTimerActive := False,
    requestRetransmissionTimer := None, requestRetransmissionTimerActive := False,
    lastTransmittedDDPacket := None\<rparr>"
  by (simp add: Reset_def DeleteLastSentDDPacket_def ClearRequestRetransmissionTimer_def
      ClearUpdateRetransmissionTimer_def ClearTimer_def)

lemma nbOf_ClearTimer [simp]: "nbOf (ClearTimer tm s) = setTimer tm None (nbOf s)"
  by (simp add: ClearTimer_def)

lemma nbOf_ClearRequest [simp]: "nbOf (ClearRequestRetransmissionTimer s) =
    (nbOf s)\<lparr>requestRetransmissionTimer := None, requestRetransmissionTimerActive := False\<rparr>"
  by (simp add: ClearRequestRetransmissionTimer_def)

lemma nbOf_ClearUpdate [simp]: "nbOf (ClearUpdateRetransmissionTimer s) =
    (nbOf s)\<lparr>updateRetransmissionTimer := None, updateRetransmissionTimerActive := False\<rparr>"
  by (simp add: ClearUpdateRetransmissionTimer_def)

lemma nbOf_Increment [simp]: "nbOf (IncrementDDSequenceNumber s) =
    (nbOf s)\<lparr>ddSequenceNumber := ddSequenceNumber (nbOf s) + 1\<rparr>"
  by (simp add: IncrementDDSequenceNumber_def)

lemma nbOf_InitFirst [simp]: "nbOf (InitFirstAdjacency s) =
    (nbOf s)\<lparr>ddSequenceNumber := ddSequenceNumberInitSeed s, firstAdjacencyInited := True\<rparr>"
  by (simp add: InitFirstAdjacency_def GetUniqueULong_def)

section \<open>Events\<close>

lemma nbCore_inactivity: "nbCore s \<Longrightarrow> inactivityTimer (nbOf s) = None \<longleftrightarrow> nbState (nbOf s) = NbDown"
  by (simp add: nb_inv_defs)

lemma nbInv_killNeighbor: "nbInv s \<Longrightarrow> nbState (nbOf s) \<noteq> NbDown \<Longrightarrow> nbInv (killNeighbor s)"
  by (simp add: nb_inv_defs killNeighbor_def)

lemma nbInv_oneWay: "nbInv s \<Longrightarrow> nbState (nbOf s) \<noteq> NbDown \<Longrightarrow> nbInv (oneWay s)"
  by (simp add: nb_inv_defs oneWay_def)

lemma nbInv_dropAdjacency: "nbInv s \<Longrightarrow> nbState (nbOf s) \<noteq> NbDown \<Longrightarrow> nbInv (dropAdjacency env s)"
  by (simp add: nb_inv_defs dropAdjacency_def)

lemma nbCore_facts:
  assumes "nbCore s" "nbState (nbOf s) \<noteq> NbDown"
  shows "inactivityTimer (nbOf s) \<noteq> None" "pollTimer (nbOf s) = None"
    "updateRetransmissionTimer (nbOf s) \<noteq> None \<Longrightarrow> updateRetransmissionTimerActive (nbOf s)"
  using assms by (simp_all add: nb_inv_defs)

lemma nbCore_low:
  assumes "nbCore s" "nbState (nbOf s) \<in> {NbDown, NbAttempt, NbInit, NbTwoWay}"
  shows "ddRetransmissionTimer (nbOf s) = None" "databaseSummaryList (nbOf s) = []"
    "linkStateRetransmissionList (nbOf s) = []" "requestRetransmissionTimer (nbOf s) = None"
    "\<not> requestRetransmissionTimerActive (nbOf s)"
  using assms by (elim insertE; simp add: nb_inv_defs)+

text \<open>An adjacency is started from a state without lists and DD timer.\<close>

lemma nbInv_startExchange:
  assumes "inactivityTimer (nbOf s) \<noteq> None" "pollTimer (nbOf s) = None"
    and "ddRetransmissionTimer (nbOf s) = None" "databaseSummaryList (nbOf s) = []"
    and "linkStateRetransmissionList (nbOf s) = []" "requestRetransmissionTimer (nbOf s) = None"
    and "\<not> requestRetransmissionTimerActive (nbOf s)"
    and "updateRetransmissionTimer (nbOf s) \<noteq> None \<Longrightarrow> updateRetransmissionTimerActive (nbOf s)"
  shows "yields (startExchange env s) nbInv"
  using assms by (simp add: startExchange_def StartTimer_def nb_inv_defs)

lemma nbInv_beginAdjacency:
  assumes "nbCore s" "nbState (nbOf s) \<in> {NbInit, NbTwoWay}"
  shows "yields (beginAdjacency env s) nbInv"
proof -
  have st: "nbState (nbOf s) \<noteq> NbDown" "nbState (nbOf s) \<in> {NbDown, NbAttempt, NbInit, NbTwoWay}"
    using assms(2) by auto
  note f = nbCore_facts [OF assms(1) st(1)] nbCore_low [OF assms(1) st(2)]
  have "yields (startExchange env (IncrementDDSequenceNumber s)) nbInv"
    by (rule nbInv_startExchange) (simp_all add: f)
  moreover have "yields (startExchange env (InitFirstAdjacency s)) nbInv"
    by (rule nbInv_startExchange) (simp_all add: f)
  ultimately show ?thesis by (simp add: beginAdjacency_def)
qed

lemma nbInv_restartExchange:
  assumes "nbCore s" "nbState (nbOf s) \<noteq> NbDown"
  shows "yields (restartExchange env s) nbInv"
  unfolding restartExchange_def
  by (rule nbInv_startExchange) (simp_all add: nbCore_facts [OF assms])

lemma nbInv_restartInactivity: "nbInv s \<Longrightarrow> nbState (nbOf s) \<noteq> NbDown \<Longrightarrow>
    yields (restartInactivity env s) (\<lambda>s'. nbInv s' \<and> nbState (nbOf s') = nbState (nbOf s))"
  by (simp add: nb_inv_defs restartInactivity_def StartTimer_def)

lemma nbInv_common:
  assumes "nbInv s" "nbState (nbOf s) \<noteq> NbDown" "ev \<noteq> InactivityTimer"
  shows "yields (commonProcessEvent env ev s) nbInv"
  using assms(3) nbInv_killNeighbor [OF assms(1,2)] nbInv_oneWay [OF assms(1,2)] assms(1)
    yields_mono [OF nbInv_restartInactivity [OF assms(1,2), of env]]
  by (cases ev) (simp_all add: commonProcessEvent_def)

text \<open>The events that are raised by other components.\<close>

lemma nbInv_hello_down:
  assumes "nbInv s" "nbState (nbOf s) = NbDown"
  shows "yields (ProcessEvent env HelloReceived s) nbInv" "yields (ProcessEvent env Start s) nbInv"
  using assms by (simp_all add: ProcessEvent_def DownProcessEvent_def StartTimer_def nb_inv_defs)

lemma nbInv_hello_attempt:
  assumes "nbInv s" "nbState (nbOf s) = NbAttempt"
  shows "yields (ProcessEvent env HelloReceived s) nbInv"
  using assms by (simp add: ProcessEvent_def AttemptProcessEvent_def restartInactivity_def
      StartTimer_def nb_inv_defs)

lemma nbInv_raised:
  assumes inv: "nbInv s" and ev: "raisedOutside ev"
  shows "yields (ProcessEvent env ev s) nbInv"
proof -
  have core: "nbCore s" using inv by (simp add: nbInv_def)
  have ev: "ev \<in> {HelloReceived, Start, TwoWayReceived, OneWayReceived, IsAdjacencyOK, KillNeighbor,
     BadLinkStateRequest}" using ev by (simp add: raisedOutside_def)
  note common = nbInv_common [OF inv, of ev env]
  note restart = nbInv_restartExchange [OF core, of env]
  note begin_ = nbInv_beginAdjacency [OF core, of env]
  note rest = yields_mono [OF nbInv_restartInactivity [OF inv, of env]]
  show ?thesis
  proof (cases "nbState (nbOf s)")
    case NbDown
    with inv ev nbInv_hello_down [OF inv NbDown, of env] show ?thesis
      by (elim insertE) (simp_all add: ProcessEvent_def DownProcessEvent_def)
  next
    case NbAttempt
    with inv ev nbInv_killNeighbor [OF inv] nbInv_hello_attempt [OF inv NbAttempt, of env] show ?thesis
      by (elim insertE) (simp_all add: ProcessEvent_def AttemptProcessEvent_def)
  next
    case NbInit
    moreover have "nbInv (ChangeState NbTwoWay s)" using inv NbInit by (simp add: nb_inv_defs)
    ultimately show ?thesis using inv ev nbInv_killNeighbor [OF inv] begin_ rest
      by (elim insertE) (simp_all add: ProcessEvent_def InitProcessEvent_def)
  next
    case NbTwoWay
    with inv ev common begin_ show ?thesis
      by (elim insertE) (simp_all add: ProcessEvent_def TwoWayProcessEvent_def)
  next
    case NbExchangeStart
    with inv ev common nbInv_dropAdjacency [OF inv, of env] show ?thesis
      by (elim insertE) (simp_all add: ProcessEvent_def ExchangeStartProcessEvent_def)
  next
    case NbExchange
    with inv ev common restart nbInv_dropAdjacency [OF inv, of env] show ?thesis
      by (elim insertE) (simp_all add: ProcessEvent_def ExchangeProcessEvent_def)
  next
    case NbLoading
    with inv ev common restart nbInv_dropAdjacency [OF inv, of env] show ?thesis
      by (elim insertE) (simp_all add: ProcessEvent_def LoadingProcessEvent_def)
  next
    case NbFull
    with inv ev common restart nbInv_dropAdjacency [OF inv, of env] show ?thesis
      by (elim insertE) (simp_all add: ProcessEvent_def FullProcessEvent_def)
  qed
qed

section \<open>Timers\<close>

lemma nbInv_timer:
  assumes "nbInv s" "getTimer tm (nbOf s) \<noteq> None"
  shows "yields (HandleTimer env tm s) nbInv"
proof (cases tm)
  case InactivityT
  then show ?thesis using assms
    by (cases "nbState (nbOf s)")
       (simp_all add: HandleTimer_def ProcessEvent_def nb_inv_defs AttemptProcessEvent_def InitProcessEvent_def
        TwoWayProcessEvent_def ExchangeStartProcessEvent_def ExchangeProcessEvent_def
        LoadingProcessEvent_def FullProcessEvent_def commonProcessEvent_def inactive_def StartTimer_def)
next
  case PollT
  then show ?thesis using assms
    by (cases "nbState (nbOf s)")
       (simp_all add: HandleTimer_def ProcessEvent_def nb_inv_defs DownProcessEvent_def StartTimer_def)
next
  case DDRetransmissionT
  then show ?thesis using assms
    by (cases "nbState (nbOf s)")
       (auto simp: HandleTimer_def ProcessEvent_def nb_inv_defs ExchangeStartProcessEvent_def
        LoadingProcessEvent_def FullProcessEvent_def StartTimer_def DeleteLastSentDDPacket_def)
next
  case UpdateRetransmissionT
  then show ?thesis using assms
    by (cases "nbState (nbOf s)")
       (auto simp: HandleTimer_def ProcessEvent_def nb_inv_defs DownProcessEvent_def AttemptProcessEvent_def
        InitProcessEvent_def TwoWayProcessEvent_def ExchangeStartProcessEvent_def ExchangeProcessEvent_def
        LoadingProcessEvent_def FullProcessEvent_def commonProcessEvent_def resendUpdates_def
        StartUpdateRetransmissionTimer_def StartTimer_def)
next
  case RequestRetransmissionT
  then show ?thesis using assms
    by (cases "nbState (nbOf s)")
       (auto simp: HandleTimer_def ProcessEvent_def nb_inv_defs ExchangeProcessEvent_def
        LoadingProcessEvent_def resendRequests_def StartRequestRetransmissionTimer_def StartTimer_def)
qed

section \<open>Database Description packets\<close>

lemma FindLSA_accepted:
  assumes "headerAccepted env h"
  shows "\<exists>l. FindLSA env (lsType h) (lsaKey h) = Inr l"
proof -
  have "lsType h = 1 \<or> lsType h = 2 \<or> lsType h = 3 \<or> lsType h = 4 \<or> lsType h = 5"
    using assms by (simp add: headerAccepted_def lsa_types) linarith
  then show ?thesis by (elim disjE) (simp_all add: FindLSA_def lsa_types)
qed

text \<open>What the headers of a packet leave as it is.\<close>

definition sameButRequests :: "NbState \<Rightarrow> NbState \<Rightarrow> bool" where
  "sameButRequests s s' \<longleftrightarrow>
     (\<exists>hs. nbOf s' = (nbOf s)\<lparr>linkStateRequestList := linkStateRequestList (nbOf s) @ hs\<rparr>)"

lemma sameButRequests_refl: "sameButRequests s s"
  unfolding sameButRequests_def by (rule exI [of _ "[]"]) simp

lemma sameButRequests_add: "sameButRequests (AddToRequestList h s) s' \<Longrightarrow> sameButRequests s s'"
  by (auto simp: sameButRequests_def AddToRequestList_def)

lemma sameButRequests_core:
  assumes "sameButRequests s s'" "nbCore s" "nbState (nbOf s) \<in> {NbExchangeStart, NbExchange}"
  shows "nbCore s'" "nbState (nbOf s') = nbState (nbOf s)"
    "databaseSummaryList (nbOf s') = databaseSummaryList (nbOf s)"
proof -
  obtain hs where hs: "nbOf s' = (nbOf s)\<lparr>linkStateRequestList := linkStateRequestList (nbOf s) @ hs\<rparr>"
    using assms(1) by (auto simp: sameButRequests_def)
  show "nbState (nbOf s') = nbState (nbOf s)"
    "databaseSummaryList (nbOf s') = databaseSummaryList (nbOf s)" by (simp_all add: hs)
  have "nbState (nbOf s) = NbExchangeStart \<or> nbState (nbOf s) = NbExchange" using assms(3) by simp
  then show "nbCore s'" using assms(2) by (elim disjE) (simp_all add: nb_inv_defs hs)
qed

lemma mismatch_inv:
  assumes "nbCore s" "nbState (nbOf s) \<in> {NbExchangeStart, NbExchange, NbLoading, NbFull}"
    and "nbState (nbOf s) = NbLoading \<longrightarrow> requestRetransmissionTimer (nbOf s) \<noteq> None"
  shows "yields (ProcessEvent env SequenceNumberMismatch s) nbInv"
proof (cases "nbState (nbOf s) = NbExchangeStart")
  case True
  with assms(1) show ?thesis
    by (simp add: ProcessEvent_def ExchangeStartProcessEvent_def commonProcessEvent_def nb_inv_defs)
next
  case False
  with assms(2) have st: "nbState (nbOf s) = NbExchange \<or> nbState (nbOf s) = NbLoading \<or> nbState (nbOf s) = NbFull"
    by simp
  then have "nbState (nbOf s) \<noteq> NbDown" by auto
  note r = nbInv_restartExchange [OF assms(1) this, of env]
  from st r show ?thesis
    by (elim disjE) (simp_all add: ProcessEvent_def ExchangeProcessEvent_def LoadingProcessEvent_def
        FullProcessEvent_def)
qed

lemma listHeaders_inv:
  assumes "nbCore s" "nbState (nbOf s) \<in> {NbExchangeStart, NbExchange}"
  shows "yields (listHeaders env hs s)
     (\<lambda>(ok, s'). if ok then sameButRequests s s' else nbInv s')"
  using assms
proof (induction hs arbitrary: s)
  case Nil
  then show ?case by (simp add: sameButRequests_refl)
next
  case (Cons h hs)
  show ?case
  proof (cases "headerAccepted env h")
    case False
    have "nbState (nbOf s) \<in> {NbExchangeStart, NbExchange, NbLoading, NbFull}"
      "nbState (nbOf s) = NbLoading \<longrightarrow> requestRetransmissionTimer (nbOf s) \<noteq> None"
      using Cons.prems(2) by auto
    from mismatch_inv [OF Cons.prems(1) this, of env] obtain s' where
      "ProcessEvent env SequenceNumberMismatch s = Inr s'" "nbInv s'" by (auto simp: yields_iff)
    with False show ?thesis by simp
  next
    case True
    obtain l where l: "FindLSA env (lsType h) (lsaKey h) = Inr l"
      using FindLSA_accepted [OF True] by blast
    define s1 where "s1 = (if newerThan h l then AddToRequestList h s else s)"
    have up: "sameButRequests s1 s' \<Longrightarrow> sameButRequests s s'" for s'
      using sameButRequests_add [of h s s'] by (simp add: s1_def split: if_splits)
    have s1: "sameButRequests s s1" using up sameButRequests_refl by blast
    have "nbCore s1" "nbState (nbOf s1) \<in> {NbExchangeStart, NbExchange}"
      using sameButRequests_core [OF s1 Cons.prems] Cons.prems(2) by simp_all
    from Cons.IH [OF this] have "yields (listHeaders env hs s1)
        (\<lambda>(ok, s'). if ok then sameButRequests s s' else nbInv s')"
      by (rule yields_mono) (auto simp: up split: if_splits)
    with True l show ?thesis by (simp add: s1_def)
  qed
qed

lemma exchangeDone_core:
  assumes "nbCore s" "nbState (nbOf s) = NbExchange" "databaseSummaryList (nbOf s) = []"
  shows "yields (ProcessEvent env ExchangeDone s)
     (\<lambda>s'. nbCore s' \<and> nbState (nbOf s') \<in> {NbLoading, NbFull})"
  using assms by (simp add: ProcessEvent_def ExchangeProcessEvent_def StartTimer_def nb_inv_defs)

lemma exchangeDone_ignored:
  "nbState (nbOf s) = NbExchangeStart \<Longrightarrow> ProcessEvent env ExchangeDone s = Inr s"
  by (simp add: ProcessEvent_def ExchangeStartProcessEvent_def commonProcessEvent_def)

lemma nbCore_cong:
  assumes "nbCore s" "nbOf s' = (nbOf s)\<lparr>ddSequenceNumber := q, databaseSummaryList := l,
      lastTransmittedDDPacket := p\<rparr>" "nbState (nbOf s) = NbExchange \<or> l = []"
  shows "nbCore s'"
  using assms by (elim disjE) (simp_all add: nb_inv_defs)

lemma nbCore_sendDD:
  assumes "nbCore s" "nbState (nbOf s) = NbExchange"
  shows "nbCore (SendDatabaseDescriptionPacket i env s)"
  using assms by (simp add: nb_inv_defs)

lemma answerDD_start:
  assumes "nbCore s" "nbState (nbOf s) = NbExchangeStart"
  shows "yields (answerDD env p True s) (\<lambda>s'. nbCore s' \<and> nbState (nbOf s') = NbExchangeStart)"
proof -
  have "nbCore (IncrementDDSequenceNumber s)"
    "nbCore (modify (\<lambda>n. n\<lparr>ddSequenceNumber := ddPacketSequenceNumber p\<rparr>) s)"
    using assms by (simp_all add: nb_inv_defs)
  then show ?thesis using assms
    by (simp add: answerDD_def Let_def exchangeDone_ignored)
qed

lemma answerDD_exchange:
  assumes "nbCore s" "nbState (nbOf s) = NbExchange"
  shows "yields (answerDD env p False s)
     (\<lambda>s'. nbCore s' \<and> nbState (nbOf s') \<in> {NbExchange, NbLoading, NbFull})"
proof -
  let ?i = "IncrementDDSequenceNumber s"
  let ?m = "SendDatabaseDescriptionPacket False env
    (modify (\<lambda>n. n\<lparr>ddSequenceNumber := ddPacketSequenceNumber p\<rparr>) s)"
  have i: "nbCore ?i" "nbState (nbOf ?i) = NbExchange" using assms by (simp_all add: nb_inv_defs)
  have "nbCore (modify (\<lambda>n. n\<lparr>ddSequenceNumber := ddPacketSequenceNumber p\<rparr>) s)"
    using assms by (simp add: nb_inv_defs)
  then have m: "nbCore ?m" "nbState (nbOf ?m) = NbExchange"
    using assms(2) nbCore_sendDD by simp_all
  have weak: "yields (ProcessEvent env ExchangeDone t)
      (\<lambda>s'. nbCore s' \<and> nbState (nbOf s') \<in> {NbExchange, NbLoading, NbFull})"
    if "nbCore t" "nbState (nbOf t) = NbExchange" "databaseSummaryList (nbOf t) = []" for t
    by (rule yields_mono [OF exchangeDone_core [OF that]]) auto
  show ?thesis
    using weak [OF i] weak [OF m] i m nbCore_sendDD [OF i] assms(2)
    by (simp add: answerDD_def Let_def)
qed

lemma requestMissing_inv:
  assumes "nbCore s" "nbState (nbOf s) \<in> {NbExchange, NbLoading, NbFull}"
  shows "yields (requestMissing env s) nbInv"
proof -
  have "nbState (nbOf s) = NbExchange \<or> nbState (nbOf s) = NbLoading \<or> nbState (nbOf s) = NbFull"
    using assms(2) by simp
  then show ?thesis using assms(1)
    by (elim disjE) (simp_all add: requestMissing_def StartRequestRetransmissionTimer_def StartTimer_def
        nb_inv_defs)
qed

lemma negotiationDone_core:
  assumes "nbCore s" "nbState (nbOf s) = NbExchangeStart"
  shows "yields (ProcessEvent env NegotiationDone s)
    (\<lambda>s'. nbCore s' \<and> nbState (nbOf s') \<in> {NbExchange, NbLoading, NbFull})"
  using assms by (simp add: ProcessEvent_def ExchangeStartProcessEvent_def CreateDatabaseSummary_def
      nb_inv_defs)

lemma ProcessDDPacket_start:
  assumes "nbCore s" "nbState (nbOf s) = NbExchangeStart"
  shows "yields (ProcessDDPacket env p True s)
    (\<lambda>(ok, s'). if ok then nbCore s' \<and> nbState (nbOf s') = NbExchangeStart else nbInv s')"
proof -
  have st: "nbState (nbOf s) \<in> {NbExchangeStart, NbExchange}" using assms(2) by simp
  show ?thesis unfolding ProcessDDPacket_def
  proof (rule yields_andThen [OF listHeaders_inv [OF assms(1) st]], clarify, goal_cases)
    case (1 ok s')
    show ?case
    proof (cases ok)
      case True
      with 1 have same: "sameButRequests s s'" by simp
      have s': "nbCore s'" "nbState (nbOf s') = NbExchangeStart"
        using sameButRequests_core [OF same assms(1) st] assms(2) by simp_all
      obtain t where "answerDD env p True s' = Inr t" "nbCore t \<and> nbState (nbOf t) = NbExchangeStart"
        using answerDD_start [OF s', of env p] by (auto simp: yields_iff)
      with True show ?thesis by simp
    qed (use 1 in simp)
  qed
qed

lemma ProcessDDPacket_exchange:
  assumes "nbCore s" "nbState (nbOf s) = NbExchange"
  shows "yields (ProcessDDPacket env p False s) (\<lambda>(ok, s').
      if ok then nbCore s' \<and> nbState (nbOf s') \<in> {NbExchange, NbLoading, NbFull} else nbInv s')"
proof -
  have st: "nbState (nbOf s) \<in> {NbExchangeStart, NbExchange}" using assms(2) by simp
  show ?thesis unfolding ProcessDDPacket_def
  proof (rule yields_andThen [OF listHeaders_inv [OF assms(1) st]], clarify, goal_cases)
    case (1 ok s')
    show ?case
    proof (cases ok)
      case True
      with 1 have same: "sameButRequests s s'" by simp
      have s': "nbCore s'" "nbState (nbOf s') = NbExchange"
        using sameButRequests_core [OF same assms(1) st] assms(2) by simp_all
      obtain t where "answerDD env p False s' = Inr t"
        "nbCore t \<and> nbState (nbOf t) \<in> {NbExchange, NbLoading, NbFull}"
        using answerDD_exchange [OF s', of env p] by (auto simp: yields_iff)
      with True show ?thesis by simp
    qed (use 1 in simp)
  qed
qed

lemma negotiated_inv:
  assumes "nbCore s" "nbState (nbOf s) = NbExchangeStart"
  shows "yields (negotiated env p s) nbInv"
  unfolding negotiated_def
proof (rule yields_andThen [OF ProcessDDPacket_start [OF assms]], clarify, goal_cases)
  case (1 ok s')
  show ?case
  proof (cases ok)
    case True
    with 1 have "nbCore s'" "nbState (nbOf s') = NbExchangeStart" by simp_all
    then have "yields (andThen (ProcessEvent env NegotiationDone s') (requestMissing env)) nbInv"
      by (rule yields_andThen [OF negotiationDone_core]) (simp add: requestMissing_inv)
    with True show ?thesis by simp
  qed (use 1 in simp)
qed

lemma ddInExchangeStart_inv:
  assumes "nbInv s" "nbState (nbOf s) = NbExchangeStart"
  shows "yields (ddInExchangeStart env p s) nbInv"
proof -
  have core: "nbCore s" using assms(1) by (simp add: nbInv_def)
  have send: "nbInv (SendDatabaseDescriptionPacket True env s)"
    using assms by (simp add: nb_inv_defs)
  let ?sl = "modify (\<lambda>n. n\<lparr>neighborOptions := ddOptionsE p,
      databaseExchangeRelationship := Slave, ddSequenceNumber := ddPacketSequenceNumber p,
      lastReceivedDDPacket := packetIDOf p\<rparr>) s"
  let ?ma = "modify (\<lambda>n. n\<lparr>neighborOptions := ddOptionsE p,
      databaseExchangeRelationship := Master, lastReceivedDDPacket := packetIDOf p\<rparr>) s"
  have "nbCore ?sl" "nbCore ?ma" using core by (simp_all add: nb_inv_defs)
  then have go: "yields (negotiated env p ?sl) nbInv" "yields (negotiated env p ?ma) nbInv"
    using negotiated_inv assms(2) by simp_all
  show ?thesis
    unfolding ddInExchangeStart_def Let_def
    by (simp only: split: if_split, intro conjI impI)
       (simp_all add: send assms(1) go)
qed

lemma ddInExchange_inv:
  assumes "nbInv s" "nbState (nbOf s) = NbExchange"
  shows "yields (ddInExchange env p s) nbInv"
proof -
  have core: "nbCore s" using assms(1) by (simp add: nbInv_def)
  have mis: "yields (ProcessEvent env SequenceNumberMismatch s) nbInv"
    by (rule mismatch_inv [OF core]) (simp_all add: assms(2))
  have re: "nbInv (snd (RetransmitDatabaseDescriptionPacket env s))"
    using assms by (simp add: nb_inv_defs)
  let ?m = "modify (\<lambda>n. n\<lparr>lastReceivedDDPacket := packetIDOf p\<rparr>) s"
  have m: "nbCore ?m" "nbState (nbOf ?m) = NbExchange" using core assms(2) by (simp_all add: nb_inv_defs)
  have go: "yields (andThen (ProcessDDPacket env p False ?m)
      (\<lambda>(ok, s). if \<not> ok then Inr s else requestMissing env s)) nbInv"
  proof (rule yields_andThen [OF ProcessDDPacket_exchange [OF m]], clarify, goal_cases)
    case (1 ok s')
    then show ?case by (cases ok) (simp_all add: requestMissing_inv)
  qed
  show ?thesis
    unfolding ddInExchange_def Let_def
    by (simp only: split: if_split, intro conjI impI) (simp_all add: mis re go assms(1))
qed

lemma ddInLoading_inv:
  assumes "nbInv s" "nbState (nbOf s) \<in> {NbLoading, NbFull}"
  shows "yields (ddInLoading env p s) nbInv"
proof -
  have core: "nbCore s" using assms(1) by (simp add: nbInv_def)
  have run: "nbState (nbOf s) = NbLoading \<longrightarrow> requestRetransmissionTimer (nbOf s) \<noteq> None"
    using assms(1) by (simp add: nb_inv_defs)
  have st: "nbState (nbOf s) \<in> {NbExchangeStart, NbExchange, NbLoading, NbFull}" using assms(2) by auto
  have mis: "yields (ProcessEvent env SequenceNumberMismatch s) nbInv"
    by (rule mismatch_inv [OF core st run])
  obtain b s' where r: "RetransmitDatabaseDescriptionPacket env s = (b, s')" by (cases "RetransmitDatabaseDescriptionPacket env s")
  have s': "nbOf s' = nbOf s" using sending_keeps_neighbor(6) [of env s] r by simp
  have inv': "nbInv s'" using assms(1) by (simp add: nbInv_def nbCore_def s')
  then have core': "nbCore s'" by (simp add: nbInv_def)
  have mis': "yields (ProcessEvent env SequenceNumberMismatch s') nbInv"
    by (rule mismatch_inv [OF core']) (use st run in \<open>simp_all add: s'\<close>)
  show ?thesis
    unfolding ddInLoading_def Let_def
    by (simp only: r split: if_split prod.split, intro conjI impI allI) (simp_all add: mis mis' inv' assms(1))
qed

lemma DDHandler_inv:
  assumes "nbInv s"
  shows "yields (DDHandler env p s) nbInv"
proof (cases "nbState (nbOf s)")
  case NbInit
  then show ?thesis using assms nbInv_raised [OF assms, of TwoWayReceived env]
    by (simp add: DDHandler_def raisedOutside_def)
next
  case NbExchangeStart
  then show ?thesis using assms ddInExchangeStart_inv by (simp add: DDHandler_def)
next
  case NbExchange
  then show ?thesis using assms ddInExchange_inv by (simp add: DDHandler_def)
next
  case NbLoading
  then show ?thesis using assms ddInLoading_inv by (simp add: DDHandler_def)
next
  case NbFull
  then show ?thesis using assms ddInLoading_inv by (simp add: DDHandler_def)
qed (use assms in \<open>simp_all add: DDHandler_def\<close>)

section \<open>Requests, acknowledgements, flooding\<close>

text \<open>A request for an LSA of an unknown type fails an assertion.\<close>

definition knownTypes :: "LSARequest list \<Rightarrow> bool" where
  "knownTypes rs \<longleftrightarrow> (\<forall>r\<in>set rs. RouterLSAType \<le> fst r \<and> fst r \<le> ASExternalLSAType)"

lemma FindLSA_outcome:
  "(\<exists>l. FindLSA env t k = Inr l) \<or>
   (FindLSA env t k = Inl (AssertFailed ''FindLSA'') \<and> \<not> (RouterLSAType \<le> t \<and> t \<le> ASExternalLSAType))"
  by (simp add: FindLSA_def Let_def lsa_types)

lemma requestedLSAs_outcome:
  "(\<exists>r. requestedLSAs env rs = Inr r) \<or>
   (requestedLSAs env rs = Inl (AssertFailed ''FindLSA'') \<and> \<not> knownTypes rs)"
proof (induction rs)
  case (Cons r rs)
  obtain t k where r: "r = (t, k)" by (cases r)
  show ?case
  proof (cases "FindLSA env t k")
    case (Inl e)
    with FindLSA_outcome [of env t k] show ?thesis by (auto simp: r knownTypes_def)
  next
    case (Inr l)
    with Cons.IH show ?thesis by (auto simp: r knownTypes_def split: option.split)
  qed
qed simp

lemma fold_sendUpdate [simp]: "nbOf (fold (sendUpdate env) ls s) = nbOf s"
  by (induction ls arbitrary: s) simp_all

lemma nbInv_cong: "nbOf s' = nbOf s \<Longrightarrow> nbInv s \<Longrightarrow> nbInv s'"
  by (simp add: nbInv_def nbCore_def)

lemma LSRequestHandler_inv:
  assumes "nbInv s"
  shows "yields (LSRequestHandler env rs s) nbInv \<or>
    (LSRequestHandler env rs s = Inl (AssertFailed ''FindLSA'') \<and> \<not> knownTypes rs)"
proof -
  have bad: "yields (ProcessEvent env BadLinkStateRequest s) nbInv"
    by (rule nbInv_raised [OF assms]) (simp add: raisedOutside_def)
  have send: "nbInv (fold (sendUpdate env) ls s)" for ls
    by (rule nbInv_cong [OF _ assms]) simp
  from requestedLSAs_outcome [of env rs] show ?thesis
  proof (elim disjE exE conjE)
    fix r assume "requestedLSAs env rs = Inr r"
    with bad send assms show ?thesis by (cases r) (simp_all add: LSRequestHandler_def)
  qed (use assms in \<open>simp_all add: LSRequestHandler_def\<close>)
qed

lemma nbInv_shorter:
  assumes "nbInv s" "nbOf s' = (nbOf s)\<lparr>linkStateRetransmissionList := l\<rparr>"
    and "linkStateRetransmissionList (nbOf s) = [] \<Longrightarrow> l = []"
  shows "nbInv s'"
  using assms by (simp add: nb_inv_defs)

lemma nbInv_unacknowledge: "nbInv s \<Longrightarrow> nbInv (RemoveFromRetransmissionList k s)"
  by (rule nbInv_shorter [where l = "filter (\<lambda>l. lsaKey (lsaHeader l) \<noteq> k) (linkStateRetransmissionList (nbOf s))"])
     (auto simp: RemoveFromRetransmissionList_def)

lemma nbInv_acknowledge: "nbInv s \<Longrightarrow> nbInv (fold acknowledge hs s)"
proof (induction hs arbitrary: s)
  case (Cons h hs)
  have "nbInv (acknowledge h s)"
    using nbInv_unacknowledge [OF Cons.prems] Cons.prems by (simp add: acknowledge_def split: option.split)
  from Cons.IH [OF this] show ?case by simp
qed simp

lemma nbInv_clearUpdate: "nbInv s \<Longrightarrow> nbInv (ClearUpdateRetransmissionTimer s)"
  by (simp add: nb_inv_defs)

lemma LSAckHandler_inv: "nbInv s \<Longrightarrow> nbInv (LSAckHandler hs s)"
  using nbInv_acknowledge [of s hs] nbInv_clearUpdate by (simp add: LSAckHandler_def Let_def)

lemma RemoveFromRequestList_inv:
  assumes "nbInv s" "nbState (nbOf s) \<in> {NbExchange, NbLoading}"
  shows "yields (RemoveFromRequestList env k s) (\<lambda>s'. nbInv s' \<and>
    nbState (nbOf s') \<in> {NbExchange, NbLoading, NbFull})"
proof -
  let ?P = "\<lambda>h. lsaKey h \<noteq> k"
  have ne: "linkStateRequestList (nbOf s) \<noteq> []" if "filter ?P (linkStateRequestList (nbOf s)) \<noteq> []"
    using that by auto
  have "nbState (nbOf s) = NbExchange \<or> nbState (nbOf s) = NbLoading" using assms(2) by simp
  then show ?thesis using assms(1) ne
    by (elim disjE) (simp_all add: RemoveFromRequestList_def Let_def ProcessEvent_def
        LoadingProcessEvent_def nb_inv_defs)
qed

lemma AddToRetransmissionList_inv:
  assumes "nbInv s" "nbState (nbOf s) \<in> {NbExchange, NbLoading, NbFull}"
  shows "nbInv (AddToRetransmissionList l s)"
proof -
  have "nbState (nbOf s) = NbExchange \<or> nbState (nbOf s) = NbLoading \<or> nbState (nbOf s) = NbFull"
    using assms(2) by simp
  then show ?thesis using assms(1)
    by (elim disjE) (simp_all add: AddToRetransmissionList_def nb_inv_defs)
qed

lemma floodToNeighbor_inv:
  assumes "nbInv s"
  shows "yields (floodToNeighbor env l isSender s) (\<lambda>r. nbInv (snd r))"
proof (cases "nbStateValue (nbState (nbOf s)) < nbStateValue NbExchange")
  case True
  then show ?thesis using assms by (simp add: floodToNeighbor_def Let_def)
next
  case False
  then have hi: "nbState (nbOf s) \<in> {NbExchange, NbLoading, NbFull}"
    by (cases "nbState (nbOf s)") simp_all
  let ?add = "\<lambda>s. if isSender then Inr (False, s) else Inr (True, AddToRetransmissionList l s)"
  have add: "yields (?add t) (\<lambda>r. nbInv (snd r))"
    if "nbInv t \<and> nbState (nbOf t) \<in> {NbExchange, NbLoading, NbFull}" for t
    using that AddToRetransmissionList_inv [of t l] by simp
  show ?thesis
  proof (cases "if nbStateValue (nbState (nbOf s)) < nbStateValue NbFull
      then FindOnRequestList (lsaKey (lsaHeader l)) (nbOf s) else None")
    case None
    with False add [of s] assms hi show ?thesis by (simp add: floodToNeighbor_def Let_def)
  next
    case (Some r)
    then have "nbState (nbOf s) \<in> {NbExchange, NbLoading}" using hi by (auto split: if_splits)
    from RemoveFromRequestList_inv [OF assms this, of env "lsaKey (lsaHeader l)"]
    have "yields (andThen (RemoveFromRequestList env (lsaKey (lsaHeader l)) s)
        (\<lambda>s. if lsaSameAge (lsaHeader l) r then Inr (False, s) else ?add s)) (\<lambda>r. nbInv (snd r))"
    proof (rule yields_andThen, goal_cases)
      case (1 t)
      with add [of t] show ?case by (simp split: if_split)
    qed
    with False Some assms show ?thesis by (simp only: floodToNeighbor_def Let_def) simp
  qed
qed

lemma updateSent_inv:
  assumes "nbInv s"
  shows "yields (updateSent env k s) nbInv"
proof (cases "updateRetransmissionTimerActive (nbOf s)")
  case True
  have "nbInv (AddToTransmittedLSAList k s)" using assms by (simp add: AddToTransmittedLSAList_def nb_inv_defs)
  with True show ?thesis by (simp add: updateSent_def AddToTransmittedLSAList_def)
next
  case False
  moreover have "updateRetransmissionTimer (nbOf s) = None" using assms False by (simp add: nb_inv_defs)
  ultimately show ?thesis using assms by (simp add: updateSent_def AddToTransmittedLSAList_def
      StartUpdateRetransmissionTimer_def StartTimer_def Let_def nb_inv_defs)
qed

lemma AgeTransmitted_inv: "nbInv s \<Longrightarrow> nbInv (AgeTransmittedLSAList s)"
  by (simp add: AgeTransmittedLSAList_def nb_inv_defs)

section \<open>Runs\<close>

lemma nbStep_inv:
  assumes "nbInv s"
  shows "yields (nbStep env i s) nbInv \<or>
    (nbStep env i s = Inl (AssertFailed ''FindLSA'') \<and> (\<exists>rs. i = RequestArrives rs \<and> \<not> knownTypes rs))"
proof (cases i)
  case (Raised ev)
  then show ?thesis using assms nbInv_raised [OF assms, of ev env] by simp
next
  case (Expires tm)
  then show ?thesis using assms nbInv_timer [OF assms, of tm env] by simp
next
  case (DDArrives p)
  then show ?thesis using DDHandler_inv [OF assms, of env p] by simp
next
  case (RequestArrives rs)
  then show ?thesis using LSRequestHandler_inv [OF assms, of env rs] by simp
next
  case (AckArrives hs)
  then show ?thesis using LSAckHandler_inv [OF assms, of hs] by simp
next
  case (Flood l b)
  obtain r where "floodToNeighbor env l b s = Inr r" "nbInv (snd r)"
    using floodToNeighbor_inv [OF assms, of env l b] by (auto simp: yields_iff)
  with Flood show ?thesis by simp
next
  case (UpdateSent k)
  then show ?thesis using updateSent_inv [OF assms, of env k] by simp
next
  case (AckedByUpdate k)
  then show ?thesis using nbInv_unacknowledge [OF assms, of k] by simp
next
  case Tick
  then show ?thesis using AgeTransmitted_inv [OF assms] by simp
qed

lemma nbRun_inv:
  assumes "nbInv s"
  shows "yields (nbRun is s) nbInv \<or> (nbRun is s = Inl (AssertFailed ''FindLSA'') \<and>
    (\<exists>env rs. (env, RequestArrives rs) \<in> set is \<and> \<not> knownTypes rs))"
  using assms
proof (induction "is" arbitrary: s)
  case (Cons x "is")
  obtain env i where x: "x = (env, i)" by (cases x)
  from nbStep_inv [OF Cons.prems, of env i] show ?case
  proof (elim disjE exE conjE)
    assume "yields (nbStep env i s) nbInv"
    then obtain t where t: "nbStep env i s = Inr t" "nbInv t" by (auto simp: yields_iff)
    from Cons.IH [OF t(2)] show ?thesis by (elim disjE) (auto simp: x t(1))
  next
    fix rs
    assume "nbStep env i s = Inl (AssertFailed ''FindLSA'')" "i = RequestArrives rs" "\<not> knownTypes rs"
    then show ?thesis by (auto simp: x)
  qed
qed simp

lemma nbInv_new: "nbInv (newState i seed)"
  by (simp add: newState_def newNeighbor_def nb_inv_defs)

text \<open>Whatever an OSPF neighbour goes through, in whatever order and with whatever interface and
  database: no timer is ever scheduled while it is pending, the only error is the assertion that a
  request for an LSA of an unknown type fails. The inactivity timer runs in every state but Down, the
  poll timer only in Down; the initial packet is repeated in ExchangeStart and nothing in Exchange; the
  lists of requests and of headers to be sent are empty where their states say so, and while something
  is missing the request timer is pending.\<close>
theorem neighbor_run_safe:
  "case nbRun is (newState i seed) of
     Inr s \<Rightarrow> timersFit (nbOf s) \<and> listsFit (nbOf s) \<and> requestsRun (nbOf s)
   | Inl e \<Rightarrow> e = AssertFailed ''FindLSA'' \<and>
       (\<exists>env rs. (env, RequestArrives rs) \<in> set is \<and> \<not> knownTypes rs)"
  using nbRun_inv [OF nbInv_new [of i seed], of "is"]
  by (cases "nbRun is (newState i seed)") (simp_all add: nbInv_def nbCore_def)

end
