(* ===== verification/OSPF_InterfaceProps.thy ===== *)
theory OSPF_InterfaceProps imports OSPF_Flooding OSPF_NeighborProps
begin

text \<open>
  The timers of an OSPF interface and of its neighbours in every run: no timer is scheduled while it
  is pending, whatever packets, events, timers and LSAs come in which order, and which errors remain.
\<close>

section \<open>Outcomes\<close>

definition outcome :: "('a \<Rightarrow> bool) \<Rightarrow> (sim_error \<Rightarrow> bool) \<Rightarrow> 'a res \<Rightarrow> bool" where
  "outcome P E r \<longleftrightarrow> (case r of Inl e \<Rightarrow> E e | Inr x \<Rightarrow> P x)"

lemma outcome_simps [simp]: "outcome P E (Inr x) = P x" "outcome P E (Inl e) = E e"
  by (simp_all add: outcome_def)

lemma outcome_andThen:
  "outcome P E r \<Longrightarrow> (\<And>x. P x \<Longrightarrow> outcome Q E (f x)) \<Longrightarrow> outcome Q E (andThen r f)"
  by (cases r) auto

lemma outcome_mono:
  "outcome P E r \<Longrightarrow> (\<And>x. P x \<Longrightarrow> Q x) \<Longrightarrow> (\<And>e. E e \<Longrightarrow> F e) \<Longrightarrow> outcome Q F r"
  by (cases r) auto

lemma outcome_yields: "yields r P \<Longrightarrow> outcome P E r"
  by (cases r) auto

lemma outcome_foldRes:
  "P s \<Longrightarrow> (\<And>x s. x \<in> set xs \<Longrightarrow> P s \<Longrightarrow> outcome P E (f x s)) \<Longrightarrow> outcome P E (foldRes f xs s)"
proof (induction xs arbitrary: s)
  case (Cons x xs)
  have "outcome P E (f x s)" using Cons.prems by simp
  then show ?case unfolding foldRes.simps
    by (rule outcome_andThen) (use Cons in auto)
qed simp

section \<open>The invariant\<close>

definition neighborFits :: "Neighbor \<Rightarrow> bool" where
  "neighborFits n \<longleftrightarrow> timersFit n \<and> listsFit n \<and> requestsRun n"

lemma nbInv_neighborFits: "nbInv s \<longleftrightarrow> neighborFits (nbOf s)"
  by (simp add: nbInv_def nbCore_def neighborFits_def)

text \<open>The neighbours fit, and the two maps point to neighbours that exist.\<close>

definition neighborsFit :: "IfState \<Rightarrow> bool" where
  "neighborsFit s \<longleftrightarrow> (\<forall>n\<in>set (neighborsOf s). neighborFits n) \<and>
     (\<forall>i k. neighboringRoutersByID (ifOf s) i = Some k \<longrightarrow> k < length (neighborsOf s)) \<and>
     (\<forall>a k. neighboringRoutersByAddress (ifOf s) a = Some k \<longrightarrow> k < length (neighborsOf s))"

text \<open>
  Hello packets and acknowledgements are sent again and again exactly while the interface is up, and
  an interface that waits has its timer.
\<close>

definition ifTimersFit :: "IfState \<Rightarrow> bool" where
  "ifTimersFit s \<longleftrightarrow>
     (helloTimer s = None \<longleftrightarrow> ifState (ifOf s) \<in> {IfDown, IfLoopback}) \<and>
     (acknowledgementTimer s = None \<longleftrightarrow> ifState (ifOf s) \<in> {IfDown, IfLoopback}) \<and>
     (ifState (ifOf s) \<in> {IfDown, IfLoopback} \<longrightarrow> waitTimer s = None) \<and>
     (ifState (ifOf s) = IfWaiting \<longrightarrow> waitTimer s \<noteq> None)"

text \<open>Before an election the interface knows no designated router.\<close>

definition rolesFit :: "IfState \<Rightarrow> bool" where
  "rolesFit s \<longleftrightarrow> (ifState (ifOf s) \<in> {IfDown, IfLoopback, IfWaiting, IfPointToPoint} \<longrightarrow>
     designatedRouter (ifOf s) = NullDesignatedRouterID \<and>
     backupDesignatedRouter (ifOf s) = NullDesignatedRouterID)"

definition ifInv :: "OSPFInterfaceType \<Rightarrow> IfState \<Rightarrow> bool" where
  "ifInv T s \<longleftrightarrow> T \<noteq> UnknownType \<and> interfaceType (ifOf s) = T \<and> neighborsFit s \<and> ifTimersFit s \<and> rolesFit s"

section \<open>Calls of neighbours\<close>

text \<open>Only the neighbours, the output and the counter have changed.\<close>

definition onlyNeighbors :: "IfState \<Rightarrow> IfState \<Rightarrow> bool" where
  "onlyNeighbors s s' \<longleftrightarrow> (\<exists>ns os q. length ns = length (neighborsOf s) \<and>
     s' = s\<lparr>ifOf := (ifOf s)\<lparr>neighboringRouters := ns\<rparr>, ifOut := os, ifSeed := q\<rparr>)"

lemma onlyNeighbors_refl [simp]: "onlyNeighbors s s"
  unfolding onlyNeighbors_def
  by (intro exI [of _ "neighborsOf s"] exI [of _ "ifOut s"] exI [of _ "ifSeed s"]) simp

lemma onlyNeighborsI: "length ns = length (neighborsOf s) \<Longrightarrow>
  onlyNeighbors s (s\<lparr>ifOf := (ifOf s)\<lparr>neighboringRouters := ns\<rparr>, ifOut := os, ifSeed := q\<rparr>)"
  unfolding onlyNeighbors_def by blast

lemma onlyNeighbors_trans:
  assumes "onlyNeighbors s t" "onlyNeighbors t u"
  shows "onlyNeighbors s u"
proof -
  obtain ns os q where t: "length ns = length (neighborsOf s)"
    "t = s\<lparr>ifOf := (ifOf s)\<lparr>neighboringRouters := ns\<rparr>, ifOut := os, ifSeed := q\<rparr>"
    using assms(1) by (auto simp: onlyNeighbors_def)
  obtain ns' os' q' where u: "length ns' = length (neighborsOf t)"
    "u = t\<lparr>ifOf := (ifOf t)\<lparr>neighboringRouters := ns'\<rparr>, ifOut := os', ifSeed := q'\<rparr>"
    using assms(2) by (auto simp: onlyNeighbors_def)
  have "u = s\<lparr>ifOf := (ifOf s)\<lparr>neighboringRouters := ns'\<rparr>, ifOut := os', ifSeed := q'\<rparr>"
    "length ns' = length (neighborsOf s)" using t u by simp_all
  then show ?thesis using onlyNeighborsI by metis
qed

lemma onlyNeighbors_emit [simp]: "onlyNeighbors s (emitIf os s)"
  unfolding onlyNeighbors_def emitIf_def
  by (intro exI [of _ "neighborsOf s"] exI [of _ "ifOut s @ os"] exI [of _ "ifSeed s"]) simp

lemma onlyNeighborsD:
  assumes "onlyNeighbors s s'"
  shows "helloTimer s' = helloTimer s" "waitTimer s' = waitTimer s"
    "acknowledgementTimer s' = acknowledgementTimer s" "ifState (ifOf s') = ifState (ifOf s)"
    "interfaceType (ifOf s') = interfaceType (ifOf s)" "length (neighborsOf s') = length (neighborsOf s)"
    "neighboringRoutersByID (ifOf s') = neighboringRoutersByID (ifOf s)"
    "neighboringRoutersByAddress (ifOf s') = neighboringRoutersByAddress (ifOf s)"
    "designatedRouter (ifOf s') = designatedRouter (ifOf s)"
    "backupDesignatedRouter (ifOf s') = backupDesignatedRouter (ifOf s)"
  using assms by (auto simp: onlyNeighbors_def)

lemma onlyNeighbors_timers: "onlyNeighbors s s' \<Longrightarrow> ifTimersFit s' = ifTimersFit s"
  "onlyNeighbors s s' \<Longrightarrow> rolesFit s' = rolesFit s"
  by (simp_all add: ifTimersFit_def rolesFit_def onlyNeighborsD)

text \<open>What a call of neighbours keeps, from the state \<open>s0\<close> on.\<close>

definition keeps :: "IfState \<Rightarrow> IfState \<Rightarrow> bool" where
  "keeps s0 s \<longleftrightarrow> neighborsFit s \<and> onlyNeighbors s0 s"

lemma keeps_refl: "neighborsFit s \<Longrightarrow> keeps s s"
  by (simp add: keeps_def)

lemma keeps_trans: "keeps s t \<Longrightarrow> keeps t u \<Longrightarrow> keeps s u"
  by (auto simp: keeps_def intro: onlyNeighbors_trans)

lemma keeps_emit [intro]: "keeps s0 s \<Longrightarrow> keeps s0 (emitIf os s)"
  using onlyNeighbors_trans [OF _ onlyNeighbors_emit [of s os]]
  by (auto simp: keeps_def neighborsFit_def emitIf_def)

lemma keeps_backFrom:
  assumes "keeps s0 s" "nbInv t"
  shows "keeps s0 (backFrom env k s t)"
proof -
  have "onlyNeighbors s (backFrom env k s t)"
    unfolding onlyNeighbors_def backFrom_def
    by (intro exI [of _ "(neighborsOf s)[k := nbOf t]"] exI [of _ "ifOut s @ map (ofNeighbor env s) (nbOut t)"]
        exI [of _ "ddSequenceNumberInitSeed t"]) simp
  moreover have "neighborFits n" if "n \<in> set ((neighborsOf s)[k := nbOf t])" for n
    using that assms set_update_subset_insert [of "neighborsOf s" k "nbOf t"]
    by (auto simp: keeps_def neighborsFit_def nbInv_neighborFits)
  ultimately show ?thesis
    using assms(1) by (auto simp: keeps_def neighborsFit_def backFrom_def intro: onlyNeighbors_trans)
qed

lemma nbInv_nbStateOf:
  "keeps s0 s \<Longrightarrow> k < length (neighborsOf s0) \<Longrightarrow> nbInv (nbStateOf k s)"
  using onlyNeighborsD(6) [of s0 s]
  by (auto simp: keeps_def neighborsFit_def nbInv_neighborFits nbStateOf_def)

lemma keeps_onNeighbor:
  assumes "keeps s0 s" "outcome nbInv E (f (nbEnvOf env s) (nbStateOf k s))"
  shows "outcome (keeps s0) E (onNeighbor env k f s)"
  unfolding onNeighbor_def
  by (rule outcome_andThen [OF assms(2)]) (simp add: keeps_backFrom [OF assms(1)])

lemma keeps_raise:
  assumes "keeps s0 s" "k < length (neighborsOf s0)" "raisedOutside ev"
  shows "outcome (keeps s0) E (raise env ev k s)"
  unfolding raise_def
  by (rule keeps_onNeighbor [OF assms(1)], rule outcome_yields,
      rule nbInv_raised [OF nbInv_nbStateOf [OF assms(1,2)] assms(3)])

lemma keeps_eachNeighbor:
  assumes "neighborsFit s"
    and "\<And>k t. keeps s t \<Longrightarrow> k < length (neighborsOf s) \<Longrightarrow> outcome (keeps s) E (f k t)"
  shows "outcome (keeps s) E (eachNeighbor f s)"
  unfolding eachNeighbor_def
  by (rule outcome_foldRes) (use assms keeps_refl in auto)

lemma keeps_ifInv: "keeps s t \<Longrightarrow> ifInv T s \<Longrightarrow> ifInv T t"
  using onlyNeighbors_timers [of s t] onlyNeighborsD(5) [of s t] by (simp add: keeps_def ifInv_def)

section \<open>Events of the interface\<close>

lemma neighborsFit_cong:
  "neighborsOf s' = neighborsOf s \<Longrightarrow> neighboringRoutersByID (ifOf s') = neighboringRoutersByID (ifOf s) \<Longrightarrow>
   neighboringRoutersByAddress (ifOf s') = neighboringRoutersByAddress (ifOf s) \<Longrightarrow>
   neighborsFit s' = neighborsFit s"
  by (simp add: neighborsFit_def)

lemma IfChange_fields [simp]:
  "ifOf (IfChangeStateFrom old env new s) = (ifOf s)\<lparr>ifState := new\<rparr>"
  "helloTimer (IfChangeStateFrom old env new s) = helloTimer s"
  "waitTimer (IfChangeStateFrom old env new s) = waitTimer s"
  "acknowledgementTimer (IfChangeStateFrom old env new s) = acknowledgementTimer s"
  by (simp_all add: IfChangeStateFrom_def emitIf_def Let_def)

lemma emitIf_fields [simp]:
  "ifOf (emitIf os s) = ifOf s" "helloTimer (emitIf os s) = helloTimer s"
  "waitTimer (emitIf os s) = waitTimer s" "acknowledgementTimer (emitIf os s) = acknowledgementTimer s"
  by (simp_all add: emitIf_def)

text \<open>The interface leaves the network.\<close>

lemma IfReset_inv:
  assumes "ifInv T s" "new \<in> {IfDown, IfLoopback}"
  shows "outcome (ifInv T) E (andThen (IfReset env s) (\<lambda>s. Inr (IfChangeState env new s)))"
proof (rule outcome_andThen)
  let ?s = "s\<lparr>helloTimer := None, waitTimer := None, acknowledgementTimer := None,
    ifOf := (ifOf s)\<lparr>designatedRouter := NullDesignatedRouterID,
      backupDesignatedRouter := NullDesignatedRouterID\<rparr>\<rparr>"
  have fit: "neighborsFit ?s"
    using assms(1) by (simp add: ifInv_def neighborsFit_def)
  show "outcome (keeps ?s) E (IfReset env s)" unfolding IfReset_def
    by (rule keeps_eachNeighbor [OF fit]) (auto intro!: keeps_raise simp: raisedOutside_def)
  fix t assume t: "keeps ?s t"
  then have "onlyNeighbors ?s t" "neighborsFit t" by (simp_all add: keeps_def)
  note only = onlyNeighborsD [OF this(1), simplified]
  have "neighborsFit (IfChangeState env new t)"
    using \<open>neighborsFit t\<close> by (simp add: IfChangeState_def neighborsFit_def)
  moreover have "ifTimersFit (IfChangeState env new t)" "rolesFit (IfChangeState env new t)"
    using assms(2) only by (auto simp: IfChangeState_def ifTimersFit_def rolesFit_def)
  ultimately show "outcome (ifInv T) E (Inr (IfChangeState env new t))"
    using assms(1) only by (simp add: ifInv_def IfChangeState_def)
qed

lemma goDown_inv: "ifInv T s \<Longrightarrow> outcome (ifInv T) E (goDown env s)"
  unfolding goDown_def by (rule IfReset_inv) simp_all

lemma goLoopback_inv: "ifInv T s \<Longrightarrow> outcome (ifInv T) E (goLoopback env s)"
  unfolding goLoopback_def by (rule IfReset_inv) simp_all

text \<open>The election takes an interface out of Waiting.\<close>

lemma electionStates_roles:
  "set (electionStates rid intf new) \<subseteq> {IfNotDesignatedRouter, IfBackup, IfDesignatedRouter}"
  by (auto simp: electionStates_def Let_def split: prod.splits)

lemma electionStates_waiting:
  assumes "ifState intf = IfWaiting" "designatedRouter intf = NullDesignatedRouterID"
    "backupDesignatedRouter intf = NullDesignatedRouterID"
  shows "electionStates rid intf new \<noteq> []"
  using assms by (auto simp: electionStates_def Let_def split: prod.splits)

lemma fold_IfChange:
  "ifOf (fold (IfChangeStateFrom old env) ss s) = (ifOf s)\<lparr>ifState := (if ss = [] then ifState (ifOf s) else last ss)\<rparr>"
  "helloTimer (fold (IfChangeStateFrom old env) ss s) = helloTimer s"
  "waitTimer (fold (IfChangeStateFrom old env) ss s) = waitTimer s"
  "acknowledgementTimer (fold (IfChangeStateFrom old env) ss s) = acknowledgementTimer s"
  by (induction ss arbitrary: s) simp_all

definition upTimers :: "IfState \<Rightarrow> bool" where
  "upTimers s \<longleftrightarrow> helloTimer s \<noteq> None \<and> acknowledgementTimer s \<noteq> None"

lemma CalculateDesignatedRouter_inv:
  assumes "T \<noteq> UnknownType \<and> interfaceType (ifOf s) = T" "neighborsFit s" "upTimers s" "rolesFit s"
    "ifState (ifOf s) \<in> {IfWaiting, IfNotDesignatedRouter, IfBackup, IfDesignatedRouter}"
  shows "outcome (ifInv T) E (CalculateDesignatedRouter env s)"
proof -
  define intf where "intf = ifOf s"
  define rid where "rid = routerID (ieArea env)"
  define new where "new = elect rid intf"
  define ss where "ss = electionStates rid intf new"
  define t where "t = fold (IfChangeStateFrom (ifState intf) env) ss
    (s\<lparr>ifOf := intf\<lparr>designatedRouter := fst new, backupDesignatedRouter := snd new\<rparr>\<rparr>)"
  have "ifState (ifOf t) \<in> {IfNotDesignatedRouter, IfBackup, IfDesignatedRouter}"
  proof (cases "ss = []")
    case True
    then have "ifState intf \<noteq> IfWaiting" using electionStates_waiting [of intf rid new] assms(4)
      by (auto simp: ss_def rolesFit_def intf_def)
    with True assms(5) show ?thesis by (auto simp: t_def intf_def)
  next
    case False
    have "last ss \<in> {IfNotDesignatedRouter, IfBackup, IfDesignatedRouter}"
      using electionStates_roles [of rid intf new] last_in_set [OF False] unfolding ss_def by blast
    with False show ?thesis by (simp add: t_def fold_IfChange)
  qed
  then have inv: "ifInv T t" using assms(1-3)
    by (auto simp: ifInv_def t_def fold_IfChange neighborsFit_def ifTimersFit_def rolesFit_def intf_def upTimers_def)
  have ev: "raisedOutside (electionEvent ev)" for ev by (cases ev) (simp_all add: raisedOutside_def)
  have "outcome (keeps t) E (eachNeighbor (\<lambda>k u. foldRes (\<lambda>ev. raise env (electionEvent ev) k)
      (electionEvents rid intf new (neighborsOf u ! k)) u) t)"
    by (rule keeps_eachNeighbor)
       (use inv in \<open>auto simp: ifInv_def intro!: outcome_foldRes keeps_raise ev\<close>)
  then have "outcome (ifInv T) E (eachNeighbor (\<lambda>k u. foldRes (\<lambda>ev. raise env (electionEvent ev) k)
      (electionEvents rid intf new (neighborsOf u ! k)) u) t)"
    by (rule outcome_mono) (use inv keeps_ifInv in auto)
  then show ?thesis
    by (simp add: CalculateDesignatedRouter_def Let_def t_def ss_def new_def rid_def intf_def)
qed

lemma fold_SendHello:
  "ifOf (fold (\<lambda>a. SendHello env a ttl) as s) = ifOf s"
  "helloTimer (fold (\<lambda>a. SendHello env a ttl) as s) = helloTimer s"
  "waitTimer (fold (\<lambda>a. SendHello env a ttl) as s) = waitTimer s"
  "acknowledgementTimer (fold (\<lambda>a. SendHello env a ttl) as s) = acknowledgementTimer s"
  by (induction as arbitrary: s) (simp_all add: SendHello_def)

text \<open>Timers that expire; \<open>s\<close> still has the timer that the kernel takes out.\<close>

lemma helloTo_inv:
  assumes "ifInv T s" "helloTimer s \<noteq> None"
  shows "outcome (ifInv T) E (helloTo env as ttl (s\<lparr>helloTimer := None\<rparr>))"
  using assms by (simp add: helloTo_def StartIfTimer_def fold_SendHello ifInv_def neighborsFit_def
      ifTimersFit_def rolesFit_def)

lemma delayed_inv:
  assumes "ifInv T s" "acknowledgementTimer s \<noteq> None"
  shows "outcome (ifInv T) E (SendDelayedAcknowledgements env (s\<lparr>acknowledgementTimer := None\<rparr>))"
  using assms by (simp add: SendDelayedAcknowledgements_def StartIfTimer_def ifInv_def neighborsFit_def
      ifTimersFit_def rolesFit_def Let_def)

lemmas if_event_defs = IfProcessEvent_def IfDownProcessEvent_def IfLoopbackProcessEvent_def
  IfWaitingProcessEvent_def IfPointToPointProcessEvent_def IfNotDesignatedRouterProcessEvent_def
  IfBackupProcessEvent_def IfDesignatedRouterProcessEvent_def upProcessEvent_def

lemma HandleIfTimer_inv:
  assumes inv: "ifInv T s" and pending: "getIfTimer tm s \<noteq> None"
  shows "outcome (ifInv T) E (HandleIfTimer env tm s)"
proof (cases tm)
  case HelloT
  then have "ifState (ifOf s) \<notin> {IfDown, IfLoopback}" "helloTimer s \<noteq> None"
    using inv pending by (auto simp: ifInv_def ifTimersFit_def)
  with HelloT helloTo_inv [OF inv] show ?thesis
    by (cases "ifState (ifOf s)") (auto simp: HandleIfTimer_def if_event_defs)
next
  case WaitT
  then have up: "ifState (ifOf s) \<notin> {IfDown, IfLoopback}"
    using inv pending by (auto simp: ifInv_def ifTimersFit_def)
  show ?thesis
  proof (cases "ifState (ifOf s) = IfWaiting")
    case True
    have "outcome (ifInv T) E (CalculateDesignatedRouter env (s\<lparr>waitTimer := None\<rparr>))"
      by (rule CalculateDesignatedRouter_inv)
         (use inv up True in \<open>auto simp: ifInv_def neighborsFit_def upTimers_def ifTimersFit_def rolesFit_def\<close>)
    with True WaitT show ?thesis by (simp add: HandleIfTimer_def if_event_defs)
  next
    case False
    with WaitT up inv show ?thesis
      by (cases "ifState (ifOf s)")
         (simp_all add: HandleIfTimer_def if_event_defs ifInv_def neighborsFit_def ifTimersFit_def rolesFit_def)
  qed
next
  case AcknowledgementT
  then have "ifState (ifOf s) \<notin> {IfDown, IfLoopback}" "acknowledgementTimer s \<noteq> None"
    using inv pending by (auto simp: ifInv_def ifTimersFit_def)
  with AcknowledgementT delayed_inv [OF inv] show ?thesis
    by (cases "ifState (ifOf s)") (auto simp: HandleIfTimer_def if_event_defs)
qed

text \<open>The interface comes up.\<close>

lemma InterfaceUp_inv:
  assumes inv: "ifInv T s" and down: "ifState (ifOf s) = IfDown"
  shows "outcome (ifInv T) E (IfDownProcessEvent env InterfaceUp s)"
proof -
  let ?s = "s\<lparr>helloTimer := Some (ieNow env + ieFirstHello env),
    acknowledgementTimer := Some (ieNow env + of_int (acknowledgementDelay s))\<rparr>"
  have t: "helloTimer s = None" "acknowledgementTimer s = None" "waitTimer s = None"
    using inv down by (auto simp: ifInv_def ifTimersFit_def)
  have up: "ifInv T (IfChangeState env new ?s)" if "new \<in> {IfPointToPoint, IfNotDesignatedRouter}" for new
    using inv down that by (auto simp: ifInv_def IfChangeState_def neighborsFit_def ifTimersFit_def rolesFit_def)
  let ?w = "(IfChangeState env IfWaiting ?s)\<lparr>waitTimer := Some (ieNow env + of_int (routerDeadInterval s))\<rparr>"
  have wait: "goWaiting env ?s = Inr ?w"
    using t by (simp add: goWaiting_def StartIfTimer_def IfChangeState_def)
  have w: "ifInv T ?w" using inv down by (auto simp: ifInv_def IfChangeState_def neighborsFit_def ifTimersFit_def rolesFit_def)
  have start: "outcome (ifInv T) E (eachNeighbor (\<lambda>k s.
      if 0 < neighborPriority (neighborsOf s ! k) then raise env Start k s else Inr s) ?w)"
    by (rule outcome_mono [OF keeps_eachNeighbor])
       (use w keeps_ifInv in \<open>auto simp: ifInv_def raisedOutside_def intro!: keeps_raise\<close>)
  show ?thesis
    using inv t up wait w start
    by (cases "interfaceType (ifOf s)") (auto simp: IfDownProcessEvent_def StartIfTimer_def ifInv_def)
qed

lemma IfEvent_inv:
  assumes inv: "ifInv T s" and ev: "raisedByModule ev"
  shows "outcome (ifInv T) E (IfProcessEvent env ev s)"
proof -
  have unloop: "ifInv T (IfChangeState env IfDown s)" if "ifState (ifOf s) = IfLoopback"
    using inv that by (auto simp: ifInv_def IfChangeState_def neighborsFit_def ifTimersFit_def rolesFit_def)
  from ev have "ev = InterfaceUp \<or> ev = InterfaceDown \<or> ev = LoopIndication \<or> ev = UnloopIndication"
    by (auto simp: raisedByModule_def)
  then show ?thesis
    using inv InterfaceUp_inv [OF inv, of E env] goDown_inv [OF inv, of E env] goLoopback_inv [OF inv, of E env] unloop
    by (elim disjE; cases "ifState (ifOf s)") (simp_all add: if_event_defs)
qed

section \<open>Packets\<close>

text \<open>A Hello packet changes neighbours and may add one.\<close>

lemma neighborFits_told:
  "neighborFits n \<Longrightarrow> neighborFits (setUpRouters intf p n)"
  "neighborFits n \<Longrightarrow> neighborFits (takeHello intf' src rid p n)"
  by (simp_all add: setUpRouters_def takeHello_def neighborFits_def timersFit_def listsFit_def
      requestsRun_def Let_def)

lemma neighborFits_new: "neighborFits (newNeighbor rid)"
  by (simp add: neighborFits_def timersFit_def listsFit_def requestsRun_def newNeighbor_def)

lemma updateNeighbor_fields:
  "interfaceType (updateNeighbor k f intf) = interfaceType intf" "ifState (updateNeighbor k f intf) = ifState intf"
  "designatedRouter (updateNeighbor k f intf) = designatedRouter intf"
  "backupDesignatedRouter (updateNeighbor k f intf) = backupDesignatedRouter intf"
  "neighboringRoutersByID (updateNeighbor k f intf) = neighboringRoutersByID intf"
  "neighboringRoutersByAddress (updateNeighbor k f intf) = neighboringRoutersByAddress intf"
  "length (neighboringRouters (updateNeighbor k f intf)) = length (neighboringRouters intf)"
  by (simp_all add: updateNeighbor_def)

lemma updateNeighbor_fits:
  assumes "\<forall>n\<in>set (neighboringRouters intf). neighborFits n" "k < length (neighboringRouters intf)"
    "\<And>n. neighborFits n \<Longrightarrow> neighborFits (f intf n)"
  shows "\<forall>n\<in>set (neighboringRouters (updateNeighbor k f intf)). neighborFits n"
  using assms set_update_subset_insert [of "neighboringRouters intf" k "f intf (neighboringRouters intf ! k)"]
  by (auto simp: updateNeighbor_def)

lemma knownNeighbor_inv:
  assumes "ifInv T s" "k < length (neighborsOf s)"
  shows "ifInv T (s\<lparr>ifOf := snd (knownNeighbor src rid p k (ifOf s))\<rparr>) \<and>
    k < length (neighboringRouters (snd (knownNeighbor src rid p k (ifOf s))))"
proof -
  let ?i = "updateNeighbor k (\<lambda>intf. takeHello intf src rid p) (ifOf s)"
  have "\<forall>n\<in>set (neighboringRouters ?i). neighborFits n"
    by (rule updateNeighbor_fits) (use assms neighborFits_told in \<open>auto simp: ifInv_def neighborsFit_def\<close>)
  then have "\<forall>n\<in>set (neighboringRouters (updateNeighbor k (\<lambda>intf. setUpRouters intf p) ?i)). neighborFits n"
    by (rule updateNeighbor_fits) (use assms neighborFits_told in \<open>auto simp: updateNeighbor_fields\<close>)
  with assms show ?thesis
    by (simp add: knownNeighbor_def ifInv_def neighborsFit_def ifTimersFit_def rolesFit_def updateNeighbor_fields)
qed

lemma addedNeighbor_inv:
  assumes "ifInv T s"
  shows "ifInv T (s\<lparr>ifOf := addedNeighbor src rid p (ifOf s)\<rparr>) \<and>
    length (neighborsOf s) < length (neighboringRouters (addedNeighbor src rid p (ifOf s)))"
  using assms neighborFits_new [of rid]
  by (auto simp: addedNeighbor_def AddNeighbor_def Let_def ifInv_def neighborsFit_def ifTimersFit_def
      rolesFit_def less_Suc_eq neighborFits_def timersFit_def listsFit_def requestsRun_def)

lemma helloNeighbor_inv:
  assumes "ifInv T s" "helloNeighbor src rid p (ifOf s) = (k, news, intf)"
  shows "ifInv T (s\<lparr>ifOf := intf\<rparr>) \<and> k < length (neighboringRouters intf)"
proof -
  have "k < length (neighborsOf s)"
    if "(if bySourceAddress (ifOf s) then neighboringRoutersByAddress (ifOf s) src
      else neighboringRoutersByID (ifOf s) rid) = Some k" for k
    using that assms(1) by (auto simp: ifInv_def neighborsFit_def split: if_splits)
  with assms knownNeighbor_inv [OF assms(1), of k src rid p] addedNeighbor_inv [OF assms(1), of src rid p]
  show ?thesis by (auto simp: helloNeighbor_def split: option.splits)
qed

lemma answerHello_inv:
  assumes "ifInv T s" "k < length (neighborsOf s)"
  shows "outcome (ifInv T) E (answerHello env p k s)"
proof -
  have "outcome (keeps s) E (answerHello env p k s)"
    unfolding answerHello_def Let_def
    by (rule outcome_andThen [OF keeps_raise])
       (use assms keeps_refl in \<open>auto simp: ifInv_def raisedOutside_def SendHello_def intro!: keeps_raise keeps_emit\<close>)
  then show ?thesis by (rule outcome_mono) (use assms keeps_ifInv in auto)
qed

lemma electing_inv:
  assumes "ifInv T s" "ev \<in> {NeighborChange, BackupSeen}"
  shows "outcome (ifInv T) E (IfProcessEvent env ev s)"
proof -
  have "outcome (ifInv T) E (CalculateDesignatedRouter env s)"
    if "ifState (ifOf s) \<in> {IfWaiting, IfNotDesignatedRouter, IfBackup, IfDesignatedRouter}"
    by (rule CalculateDesignatedRouter_inv)
       (use assms that in \<open>auto simp: ifInv_def upTimers_def ifTimersFit_def\<close>)
  with assms show ?thesis
    by (cases "ifState (ifOf s)") (auto simp: if_event_defs)
qed

lemma spreadNews_inv:
  assumes "ifInv T s"
  shows "outcome (ifInv T) E (spreadNews env news s)"
proof -
  have unstick: "outcome (ifInv T) E (unstickNeighbors env t)" if t: "ifInv T t" for t
    unfolding unstickNeighbors_def
    by (rule outcome_mono [OF keeps_eachNeighbor])
       (use t keeps_ifInv in \<open>auto simp: ifInv_def raisedOutside_def intro!: keeps_raise\<close>)
  have emit: "ifInv T (emitIf os t)" if "ifInv T t" for os t
    using that by (simp add: ifInv_def neighborsFit_def ifTimersFit_def rolesFit_def)
  show ?thesis unfolding spreadNews_def
    by (rule outcome_andThen [where P = "ifInv T"])
       (use assms emit in \<open>auto intro!: outcome_andThen [OF electing_inv] outcome_andThen [OF unstick]
          electing_inv\<close>)
qed

lemma HelloHandler_inv:
  assumes "ifInv T s"
  shows "outcome (ifInv T) E (HelloHandler env src rid p s)"
proof -
  obtain k news intf where h: "helloNeighbor src rid p (ifOf s) = (k, news, intf)" by (cases "helloNeighbor src rid p (ifOf s)")
  note fit = helloNeighbor_inv [OF assms h]
  have "outcome (ifInv T) E (andThen (answerHello env p k (s\<lparr>ifOf := intf\<rparr>)) (spreadNews env news))"
    by (rule outcome_andThen [OF answerHello_inv spreadNews_inv]) (use fit in auto)
  with assms h show ?thesis by (simp add: HelloHandler_def)
qed

text \<open>What an input may fail with.\<close>

fun inputError :: "OSPFInterfaceType \<Rightarrow> IfInput \<Rightarrow> sim_error \<Rightarrow> bool" where
  "inputError T (PacketArrives src dest rid (RequestPacketOf rs)) e \<longleftrightarrow>
     e = AssertFailed ''FindLSA'' \<and> \<not> knownTypes rs"
| "inputError T (FloodOver l onThis sender) e \<longleftrightarrow> (e = copyError l \<and> \<not> kindMatches l) \<or>
     (e = KernelError ''setControlInfo'' \<and> T \<noteq> Broadcast \<and> T \<noteq> PointToPoint)"
| "inputError T (AcknowledgeOver h f lsaSource) e \<longleftrightarrow>
     e = NullPointer ''GetNeighborByID'' \<and> T \<noteq> Broadcast \<and> T \<noteq> PointToPoint"
| "inputError T _ e \<longleftrightarrow> False"

lemma packetNeighbor_bound:
  "ifInv T s \<Longrightarrow> packetNeighbor (ifOf s) src rid = Some k \<Longrightarrow> k < length (neighborsOf s)"
  by (cases "interfaceType (ifOf s)") (auto simp: packetNeighbor_def ifInv_def neighborsFit_def)

lemma onNeighbor_inv:
  assumes "ifInv T s" "k < length (neighborsOf s)"
    "nbInv (nbStateOf k s) \<Longrightarrow> outcome nbInv E (f (nbEnvOf env s) (nbStateOf k s))"
  shows "outcome (ifInv T) E (onNeighbor env k f s)"
proof -
  have k: "keeps s s" using assms(1) by (simp add: ifInv_def keeps_refl)
  have "outcome (keeps s) E (onNeighbor env k f s)"
    using keeps_onNeighbor [OF k, where f = f] assms(3) nbInv_nbStateOf [OF k assms(2)] by blast
  then show ?thesis by (rule outcome_mono) (use assms(1) keeps_ifInv in auto)
qed

lemma ReceivePacket_inv:
  assumes "ifInv T s"
  shows "outcome (ifInv T) (inputError T (PacketArrives src dest rid p)) (ReceivePacket env src dest rid p s)"
proof (cases "rid = routerID (ieArea env) \<or> \<not> addressedTo (ifOf s) dest")
  case True
  with assms show ?thesis by (simp add: ReceivePacket_def)
next
  case False
  show ?thesis
  proof (cases p)
    case (HelloPacketOf h)
    with False show ?thesis using HelloHandler_inv [OF assms] by (simp add: ReceivePacket_def)
  next
    case (DDPacketOf d)
    have "outcome nbInv F (DDHandler e d t)" if "nbInv t" for e t F
      by (rule outcome_yields [OF DDHandler_inv [OF that]])
    with False assms packetNeighbor_bound [OF assms, of src rid] DDPacketOf show ?thesis
      by (cases "packetNeighbor (ifOf s) src rid") (auto simp: ReceivePacket_def intro!: onNeighbor_inv)
  next
    case (RequestPacketOf rs)
    have "outcome nbInv (inputError T (PacketArrives src dest rid p)) (LSRequestHandler e rs t)" if "nbInv t" for e t
      using LSRequestHandler_inv [OF that, of e rs] RequestPacketOf by (auto intro: outcome_yields)
    with False assms packetNeighbor_bound [OF assms, of src rid] RequestPacketOf show ?thesis
      by (cases "packetNeighbor (ifOf s) src rid") (auto simp: ReceivePacket_def intro!: onNeighbor_inv)
  next
    case (AcknowledgementPacketOf hs)
    with False assms packetNeighbor_bound [OF assms, of src rid] show ?thesis
      by (cases "packetNeighbor (ifOf s) src rid")
         (auto simp: ReceivePacket_def intro!: onNeighbor_inv LSAckHandler_inv)
  qed
qed

section \<open>Flooding\<close>

lemma floodTo_inv:
  assumes "keeps s0 (snd r)" "k < length (neighborsOf s0)"
  shows "outcome (\<lambda>r. keeps s0 (snd r)) (\<lambda>e. e = copyError l \<and> \<not> kindMatches l)
    (floodTo env l sender k r)"
proof -
  obtain b s where r: "r = (b, s)" by (cases r)
  note assms = assms [unfolded r snd_conv]
  have "outcome (\<lambda>r. nbInv (snd r)) (\<lambda>e. e = copyError l \<and> \<not> kindMatches l)
      (floodToNeighbor (nbEnvOf env s) l (sender = Some k) (nbStateOf k s))"
    by (rule outcome_yields [OF floodToNeighbor_inv [OF nbInv_nbStateOf [OF assms]]])
  then show ?thesis unfolding floodTo_def r prod.case
    by (rule outcome_andThen) (auto simp: checked_def keeps_backFrom [OF assms(1)])
qed

lemma noteUpdate_inv:
  assumes "keeps s0 s" "k < length (neighborsOf s0)"
  shows "outcome (keeps s0) E (noteUpdate env key k s)"
  unfolding noteUpdate_def
  by (rule keeps_onNeighbor [OF assms(1)])
     (rule outcome_yields [OF updateSent_inv [OF nbInv_nbStateOf [OF assms]]])

lemma keeps_emitUpdate [intro]: "keeps s0 s \<Longrightarrow> keeps s0 (emitUpdate p a s)"
  by (auto simp: emitUpdate_def)

lemma noteRouter_inv:
  assumes "keeps s0 s"
  shows "outcome (keeps s0) E (noteRouter env key i s)"
proof (cases "neighboringRoutersByID (ifOf s) i")
  case (Some k)
  then have "k < length (neighborsOf s0)"
    using assms onlyNeighborsD(6) [of s0 s] by (auto simp: keeps_def neighborsFit_def)
  with Some show ?thesis using noteUpdate_inv [OF assms] by (simp add: noteRouter_def)
qed (use assms in \<open>simp add: noteRouter_def\<close>)

lemma sendAgain_inv:
  assumes "keeps s0 (snd r)" "k < length (neighborsOf s0)"
  shows "outcome (\<lambda>r. keeps s0 (snd r)) (\<lambda>e. e = KernelError ''setControlInfo'') (sendAgain env key p k r)"
  using assms
  by (cases r) (auto simp: sendAgain_def checked_def intro!: outcome_andThen [OF noteUpdate_inv [of s0]])

lemma sendUpdates_inv:
  assumes "neighborsFit s"
  shows "outcome (keeps s) (\<lambda>e. e = KernelError ''setControlInfo'' \<and> interfaceType (ifOf s) \<noteq> Broadcast \<and>
    interfaceType (ifOf s) \<noteq> PointToPoint) (sendUpdates env key p s)"
proof -
  have k: "keeps s (emitUpdate p a s)" for a using assms keeps_refl by auto
  have fits: "neighborsFit (emitUpdate p a s)" for a using assms by (simp add: emitUpdate_def neighborsFit_def)
  have loop: "outcome (\<lambda>r. keeps s (snd r)) (\<lambda>e. e = KernelError ''setControlInfo'')
      (foldRes (sendAgain env key p) [0..<length (neighborsOf s)] (False, s))"
    by (rule outcome_foldRes) (use assms keeps_refl in \<open>auto intro: sendAgain_inv\<close>)
  have each: "outcome (keeps s) E (eachNeighbor (noteUpdate env key) (emitUpdate p a s))" for a E
    by (rule outcome_mono [OF keeps_eachNeighbor [OF fits]])
       (use k in \<open>auto intro: noteUpdate_inv keeps_trans\<close>)
  have two: "outcome (keeps s) E (andThen (noteRouter env key i (emitUpdate p a s)) (noteRouter env key j))" for a i j E
    by (rule outcome_andThen [OF noteRouter_inv [OF k]]) (rule noteRouter_inv)
  have first: "outcome (keeps s) E (noteUpdate env key 0 (emitUpdate p a s))" if "neighborsOf s \<noteq> []" for a E
    by (rule noteUpdate_inv [OF k]) (use that in simp)
  have many: "outcome (keeps s) (\<lambda>e. e = KernelError ''setControlInfo'')
      (andThen (foldRes (sendAgain env key p) [0..<length (neighborsOf s)] (False, s)) (\<lambda>r. Inr (snd r)))"
    by (rule outcome_andThen [OF loop]) simp
  show ?thesis
    using k each two first many
    by (cases "interfaceType (ifOf s)") (simp_all add: sendUpdates_def Let_def)
qed

lemma IfFloodLSA_inv:
  assumes "ifInv T s"
  shows "outcome (\<lambda>r. ifInv T (snd r)) (inputError T (FloodOver l onThis sender))
    (IfFloodLSA env l onThis sender s)"
proof (cases "floodable env (ifOf s) (lsaHeader l)")
  case True
  let ?E = "inputError T (FloodOver l onThis sender)"
  have T: "interfaceType (ifOf s) = T" using assms by (simp add: ifInv_def)
  have loop: "outcome (\<lambda>r. keeps s (snd r)) ?E
      (foldRes (floodTo env l sender) [0..<length (neighborsOf s)] (False, s))"
    by (rule outcome_mono [OF outcome_foldRes [where P = "\<lambda>r. keeps s (snd r)"]])
       (use assms keeps_refl in \<open>auto simp: ifInv_def intro: floodTo_inv outcome_mono [OF floodTo_inv]\<close>)
  have fin: "ifInv T u" if "keeps s u" for u using keeps_ifInv [OF that assms] .
  have send: "outcome (ifInv T) ?E (sendUpdates env key p t)" if "keeps s t" for key p t
    by (rule outcome_mono [OF sendUpdates_inv])
       (use that T fin keeps_trans [OF that] onlyNeighborsD(5) [of s t] in \<open>auto simp: keeps_def\<close>)
  show ?thesis
    using True
    by (auto simp: IfFloodLSA_def fin split: option.splits intro!: outcome_andThen [OF loop] outcome_andThen [OF send])
qed (use assms in \<open>simp add: IfFloodLSA_def\<close>)

lemma AcknowledgeLSA_inv:
  assumes "ifInv T s"
  shows "outcome (ifInv T) (inputError T (AcknowledgeOver h f lsaSource)) (AcknowledgeLSA h f lsaSource s)"
  using assms
  by (auto simp: AcknowledgeLSA_def Let_def AddDelayedAcknowledgement_def SendLSAcknowledgement_def ifInv_def
      neighborsFit_def ifTimersFit_def rolesFit_def split: option.splits)

lemma ForgetLSA_inv:
  assumes "ifInv T s"
  shows "ifInv T (RemoveFromAllRetransmissionLists key s)"
  using assms
  by (auto simp: RemoveFromAllRetransmissionLists_def ifInv_def neighborsFit_def ifTimersFit_def rolesFit_def
      neighborFits_def timersFit_def listsFit_def requestsRun_def)

section \<open>Runs\<close>

lemma ifStep_inv:
  assumes "ifInv T s"
  shows "outcome (ifInv T) (inputError T i) (ifStep env i s)"
proof (cases i)
  case (IfEvent ev)
  with assms show ?thesis by (simp add: IfEvent_inv)
next
  case (IfTimerExpires tm)
  with assms show ?thesis by (simp add: HandleIfTimer_inv)
next
  case (NbTimerExpires k tm)
  have "outcome nbInv E (HandleTimer e tm (nbStateOf k s))"
    if "nbInv (nbStateOf k s)" "getTimer tm (neighborsOf s ! k) \<noteq> None" for e E
    by (rule outcome_yields [OF nbInv_timer]) (use that in \<open>simp_all add: nbStateOf_def\<close>)
  with NbTimerExpires assms show ?thesis by (auto intro!: onNeighbor_inv)
next
  case (PacketArrives src dest rid p)
  with assms show ?thesis using ReceivePacket_inv [OF assms] by simp
next
  case (FloodOver l onThis sender)
  then show ?thesis
    by (simp del: inputError.simps) (rule outcome_andThen [OF IfFloodLSA_inv [OF assms]], simp)
next
  case (AcknowledgeOver h f lsaSource)
  with assms show ?thesis using AcknowledgeLSA_inv [OF assms] by simp
next
  case (ForgetLSA key)
  with assms show ?thesis by (simp add: ForgetLSA_inv)
next
  case AgeLists
  have "outcome (keeps s) E (eachNeighbor (\<lambda>k. onNeighbor env k (\<lambda>e t. Inr (AgeTransmittedLSAList t))) s)" for E
    by (rule keeps_eachNeighbor)
       (use assms in \<open>auto simp: ifInv_def intro!: keeps_onNeighbor AgeTransmitted_inv nbInv_nbStateOf\<close>)
  then show ?thesis using AgeLists assms
    by (auto intro: outcome_mono keeps_ifInv)
qed

lemma ifRun_inv:
  assumes "ifInv T s"
  shows "outcome (ifInv T) (\<lambda>e. \<exists>(env, i)\<in>set is. inputError T i e) (ifRun is s)"
  using assms
proof (induction "is" arbitrary: s)
  case (Cons x "is")
  obtain env i where x: "x = (env, i)" by (cases x)
  have "outcome (ifInv T) (\<lambda>e. \<exists>(env, i)\<in>set (x # is). inputError T i e) (ifStep env i s)"
    by (rule outcome_mono [OF ifStep_inv [OF Cons.prems]]) (auto simp: x)
  then show ?case unfolding x ifRun.simps
    by (rule outcome_andThen) (auto intro: outcome_mono [OF Cons.IH])
qed simp

lemma newInterface_inv:
  "interfaceType config \<noteq> UnknownType \<Longrightarrow>
   ifInv (interfaceType config) (newInterface config hello dead ackDelay seed)"
  by (simp add: newInterface_def ifInv_def neighborsFit_def ifTimersFit_def rolesFit_def)

text \<open>C23: In every run of an OSPF interface, whatever events, timers, packets, floodings and
  acknowledgements come in whatever order: no timer of the interface or of a neighbour is scheduled
  while it is pending; Hello packets and acknowledgements are timed exactly while the interface is up,
  a waiting interface has its timer; before an election it knows no designated router; the timers and
  lists of every neighbour fit its state and what is missing is requested. The only errors are those of
  an input: a request for an LSA of unknown type, an LSA whose header has another type than its
  contents, and, on interfaces that are neither broadcast nor point-to-point, an update that is to be
  sent to a second neighbour and an acknowledgement for a neighbour that is not known.\<close>
theorem interface_run_safe:
  assumes "interfaceType config \<noteq> UnknownType"
  shows "case ifRun is (newInterface config hello dead ackDelay seed) of
      Inr s \<Rightarrow> ifTimersFit s \<and> rolesFit s \<and> neighborsFit s
    | Inl e \<Rightarrow> (\<exists>(env, i)\<in>set is. inputError (interfaceType config) i e)"
  using ifRun_inv [OF newInterface_inv [OF assms], of "is" hello dead ackDelay seed]
  by (cases "ifRun is (newInterface config hello dead ackDelay seed)") (simp_all add: ifInv_def)

end
