(* ===== verification/OSPF_ExchangeProps.thy ===== *)
theory OSPF_ExchangeProps imports OSPF_NeighborProps
begin

text \<open>
  Two OSPF routers that exchange the headers of their databases over a link that loses and reorders
  nothing: in whatever order the packets are taken in, both come to the end of the exchange, and each
  then has on its request list exactly the headers that are newer than its own database.
\<close>

section \<open>Two neighbours and the link between them\<close>

text \<open>The router with the lower router ID becomes the slave.\<close>

record DDExchange =
  lowSide :: NbState
  highSide :: NbState
  toLow :: "OSPFDatabaseDescriptionPacket list"
  toHigh :: "OSPFDatabaseDescriptionPacket list"

fun ddPackets :: "OspfOutput list \<Rightarrow> OSPFDatabaseDescriptionPacket list" where
  "ddPackets [] = []"
| "ddPackets (SendPacket (DDPacket p) _ _ _ # os) = p # ddPackets os"
| "ddPackets (_ # os) = ddPackets os"

lemma ddPackets_append [simp]: "ddPackets (xs @ ys) = ddPackets xs @ ddPackets ys"
  by (induction xs rule: ddPackets.induct) simp_all

definition newDDs :: "NbState \<Rightarrow> NbState \<Rightarrow> OSPFDatabaseDescriptionPacket list" where
  "newDDs s s' = ddPackets (drop (length (nbOut s)) (nbOut s'))"

inductive ddStep :: "NbEnv \<Rightarrow> NbEnv \<Rightarrow> DDExchange \<Rightarrow> DDExchange \<Rightarrow> bool" for envL envH where
  low: "toLow c = p # ps \<Longrightarrow> DDHandler envL p (lowSide c) = Inr s' \<Longrightarrow>
    ddStep envL envH c (c\<lparr>lowSide := s', toLow := ps, toHigh := toHigh c @ newDDs (lowSide c) s'\<rparr>)"
| high: "toHigh c = p # ps \<Longrightarrow> DDHandler envH p (highSide c) = Inr s' \<Longrightarrow>
    ddStep envL envH c (c\<lparr>highSide := s', toHigh := ps, toLow := toLow c @ newDDs (highSide c) s'\<rparr>)"

section \<open>Pages of headers\<close>

lemma fillPacket_append: "fillPacket k m b xs = (ys, zs) \<Longrightarrow> xs = ys @ zs"
  by (induction k m b xs arbitrary: ys zs rule: fillPacket.induct) (auto split: if_splits prod.splits)

text \<open>The headers of the next packet and those that stay on the summary list.\<close>

definition page :: "NbEnv \<Rightarrow> OSPFLSAHeader list \<Rightarrow> OSPFLSAHeader list \<times> OSPFLSAHeader list" where
  "page env hs = fillPacket 92 (maxPacketSizeOf 112 (envInterface env)) 20 hs"

lemma page_append: "page env hs = (xs, ys) \<Longrightarrow> hs = xs @ ys"
  by (simp add: page_def fillPacket_append)

text \<open>A packet takes at least one header.\<close>

lemma page_shorter:
  assumes "page env hs = (xs, ys)" "hs \<noteq> []"
  shows "length ys < length hs"
proof -
  have m: "92 \<le> maxPacketSizeOf 112 (envInterface env) - 20" by (simp add: maxPacketSizeOf_def)
  obtain z zs where z: "hs = z # zs" using assms(2) by (cases hs) auto
  obtain as bs where ab: "fillPacket (92 + 20) (maxPacketSizeOf 112 (envInterface env)) 20 zs = (as, bs)"
    by fastforce
  have "xs = z # as" "ys = bs" using assms(1) m ab by (simp_all add: page_def z)
  with fillPacket_append [OF ab] show ?thesis by (simp add: z)
qed

lemma page_nil [simp]: "page env [] = ([], [])"
  by (simp add: page_def)

section \<open>Packets\<close>

definition firstDD :: "NbEnv \<Rightarrow> ulong \<Rightarrow> OSPFDatabaseDescriptionPacket" where
  "firstDD env q = \<lparr>interfaceMTU = (if interfaceType (envInterface env) \<noteq> Virtual
       then ifMTU (envInterface env) else 0),
     ddOptionsE = zeroOptions (externalRoutingCapability (envArea env)),
     ddOptions = \<lparr>I_Init = True, M_More = True, MS_MasterSlave = True\<rparr>,
     ddPacketSequenceNumber = q, ddLsaHeaders = []\<rparr>"

definition pageDD :: "NbEnv \<Rightarrow> bool \<Rightarrow> ulong \<Rightarrow> OSPFLSAHeader list \<Rightarrow> bool \<Rightarrow> OSPFDatabaseDescriptionPacket" where
  "pageDD env ms q hs m = (firstDD env q)\<lparr>
     ddOptions := \<lparr>I_Init = False, M_More = m, MS_MasterSlave = ms\<rparr>, ddLsaHeaders := hs\<rparr>"

lemma sendDD_first:
  "nbOf (SendDatabaseDescriptionPacket True env s) =
     (nbOf s)\<lparr>lastTransmittedDDPacket := Some (firstDD env (ddSequenceNumber (nbOf s)))\<rparr>"
  "newDDs s (SendDatabaseDescriptionPacket True env s) = [firstDD env (ddSequenceNumber (nbOf s))]"
  by (simp_all add: SendDatabaseDescriptionPacket_def firstDD_def newDDs_def sendToNeighbor_def emit_def
      modify_def Let_def)

lemma sendDD_page:
  assumes "page env (databaseSummaryList (nbOf s)) = (hs, rest)"
  shows "nbOf (SendDatabaseDescriptionPacket False env s) = (nbOf s)\<lparr>databaseSummaryList := rest,
      lastTransmittedDDPacket := Some (pageDD env (databaseExchangeRelationship (nbOf s) = Master)
        (ddSequenceNumber (nbOf s)) hs (rest \<noteq> []))\<rparr>"
    "\<exists>a i t. nbOut (SendDatabaseDescriptionPacket False env s) = nbOut s @ [SendPacket (DDPacket
        (pageDD env (databaseExchangeRelationship (nbOf s) = Master) (ddSequenceNumber (nbOf s)) hs
          (rest \<noteq> []))) a i t]"
proof -
  let ?pkt = "pageDD env (databaseExchangeRelationship (nbOf s) = Master) (ddSequenceNumber (nbOf s)) hs
      (rest \<noteq> [])"
  have "(databaseSummaryList (nbOf s) = [] \<and> hs = [] \<and> rest = []) \<or> (databaseSummaryList (nbOf s) \<noteq> [] \<and>
      fillPacket 92 (maxPacketSizeOf 112 (envInterface env)) 20 (databaseSummaryList (nbOf s)) = (hs, rest))"
    using assms by (cases "databaseSummaryList (nbOf s) = []") (simp_all add: page_def)
  then have "SendDatabaseDescriptionPacket False env s =
      modify (\<lambda>n. n\<lparr>lastTransmittedDDPacket := Some ?pkt\<rparr>) (sendToNeighbor env (DDPacket ?pkt)
        (modify (\<lambda>n. n\<lparr>databaseSummaryList := rest\<rparr>) s))"
    by (elim disjE) (simp_all add: SendDatabaseDescriptionPacket_def firstDD_def pageDD_def Let_def)
  then show "nbOf (SendDatabaseDescriptionPacket False env s) =
      (nbOf s)\<lparr>databaseSummaryList := rest, lastTransmittedDDPacket := Some ?pkt\<rparr>"
    "\<exists>a i t. nbOut (SendDatabaseDescriptionPacket False env s) = nbOut s @ [SendPacket (DDPacket ?pkt) a i t]"
    by (simp_all add: sendToNeighbor_def emit_def modify_def Let_def)
qed

section \<open>What is wanted\<close>

definition asksFor :: "NbEnv \<Rightarrow> OSPFLSAHeader \<Rightarrow> bool" where
  "asksFor env h = (case FindLSA env (lsType h) (lsaKey h) of Inl _ \<Rightarrow> False | Inr l \<Rightarrow> newerThan h l)"

definition wanted :: "NbEnv \<Rightarrow> OSPFLSAHeader list \<Rightarrow> OSPFLSAHeader list" where
  "wanted env hs = filter (asksFor env) hs"

lemma wanted_append [simp]: "wanted env (xs @ ys) = wanted env xs @ wanted env ys"
  by (simp add: wanted_def)

lemma wanted_nil [simp]: "wanted env [] = []"
  by (simp add: wanted_def)

definition request :: "OSPFLSAHeader list \<Rightarrow> NbState \<Rightarrow> NbState" where
  "request hs s = modify (\<lambda>n. n\<lparr>linkStateRequestList := linkStateRequestList n @ hs\<rparr>) s"

lemma request_nil [simp]: "request [] s = s"
  by (simp add: request_def modify_def)

lemma request_fields [simp]:
  "nbOf (request hs s) = (nbOf s)\<lparr>linkStateRequestList := linkStateRequestList (nbOf s) @ hs\<rparr>"
  "nbOut (request hs s) = nbOut s"
  by (simp_all add: request_def modify_def)

lemma request_add: "request hs (AddToRequestList h s) = request (h # hs) s"
  by (simp add: request_def AddToRequestList_def modify_def)

lemma listHeaders_wanted:
  "\<forall>h\<in>set hs. headerAccepted env h \<Longrightarrow> listHeaders env hs s = Inr (True, request (wanted env hs) s)"
proof (induction hs arbitrary: s)
  case (Cons h hs)
  obtain l where l: "FindLSA env (lsType h) (lsaKey h) = Inr l"
    using FindLSA_accepted [of env h] Cons.prems by auto
  show ?case
  proof (cases "newerThan h l")
    case True
    with Cons l show ?thesis by (simp add: wanted_def asksFor_def request_add)
  next
    case False
    with Cons l show ?thesis by (simp add: wanted_def asksFor_def)
  qed
qed simp

lemma requestMissing_effect:
  "\<exists>s' a b os. requestMissing env s = Inr s' \<and>
     nbOf s' = (nbOf s)\<lparr>requestRetransmissionTimer := a, requestRetransmissionTimerActive := b\<rparr> \<and>
     nbOut s' = nbOut s @ os \<and> ddPackets os = []"
proof (cases "linkStateRequestList (nbOf s) \<noteq> [] \<and> \<not> requestRetransmissionTimerActive (nbOf s)")
  case True
  then show ?thesis
    by (simp add: requestMissing_def StartRequestRetransmissionTimer_def StartTimer_def modify_def
        ClearRequestRetransmissionTimer_def ClearTimer_def SendLinkStateRequestPacket_def
        sendToNeighbor_def emit_def Let_def)
      blast
next
  case False
  have "nbOf s = (nbOf s)\<lparr>requestRetransmissionTimer := requestRetransmissionTimer (nbOf s),
      requestRetransmissionTimerActive := requestRetransmissionTimerActive (nbOf s)\<rparr>" by simp
  moreover have "nbOut s = nbOut s @ []" by simp
  moreover have "ddPackets [] = []" by simp
  moreover have "requestMissing env s = Inr s" using False by (auto simp: requestMissing_def)
  ultimately show ?thesis by blast
qed

section \<open>One side of the exchange\<close>

text \<open>What a call adds to the output.\<close>

definition outs :: "NbState \<Rightarrow> NbState \<Rightarrow> OSPFDatabaseDescriptionPacket list \<Rightarrow> bool" where
  "outs s s' ds \<longleftrightarrow> (\<exists>os. nbOut s' = nbOut s @ os \<and> ddPackets os = ds)"

lemma outs_newDDs: "outs s s' ds \<Longrightarrow> newDDs s s' = ds"
  by (auto simp: outs_def newDDs_def)

lemma outs_trans: "outs s t xs \<Longrightarrow> outs t u ys \<Longrightarrow> outs s u (xs @ ys)"
  by (auto simp: outs_def)

lemma outs_same: "nbOut s' = nbOut s \<Longrightarrow> outs s s' []"
  by (simp add: outs_def)

definition atStart :: "RouterID \<Rightarrow> NbState \<Rightarrow> bool" where
  "atStart other s \<longleftrightarrow> nbState (nbOf s) = NbExchangeStart \<and> neighborID (nbOf s) = other \<and>
     linkStateRequestList (nbOf s) = [] \<and> databaseSummaryList (nbOf s) = []"

definition inExchange ::
  "NbEnv \<Rightarrow> DatabaseExchangeRelationship \<Rightarrow> ulong \<Rightarrow> OSPFLSAHeader list \<Rightarrow> OSPFLSAHeader list \<Rightarrow>
   OSPFDatabaseDescriptionPacket \<Rightarrow> NbState \<Rightarrow> bool" where
  "inExchange env rel q rest got lastP s \<longleftrightarrow> nbState (nbOf s) = NbExchange \<and>
     databaseExchangeRelationship (nbOf s) = rel \<and> ddSequenceNumber (nbOf s) = q \<and>
     databaseSummaryList (nbOf s) = rest \<and> linkStateRequestList (nbOf s) = wanted env got \<and>
     lastReceivedDDPacket (nbOf s) = packetIDOf lastP \<and> ddRetransmissionTimer (nbOf s) = None"

definition afterExchange :: "NbEnv \<Rightarrow> OSPFLSAHeader list \<Rightarrow> NbState \<Rightarrow> bool" where
  "afterExchange env got s \<longleftrightarrow> linkStateRequestList (nbOf s) = wanted env got \<and>
     nbState (nbOf s) = (if wanted env got = [] then NbFull else NbLoading)"

lemma requestMissing_exchange:
  assumes "inExchange env rel q rest got lastP s"
  shows "\<exists>s'. requestMissing env s = Inr s' \<and> inExchange env rel q rest got lastP s' \<and> outs s s' []"
proof -
  obtain s' a b os where "requestMissing env s = Inr s'"
    "nbOf s' = (nbOf s)\<lparr>requestRetransmissionTimer := a, requestRetransmissionTimerActive := b\<rparr>"
    "nbOut s' = nbOut s @ os" "ddPackets os = []" using requestMissing_effect [of env s] by blast
  with assms show ?thesis by (auto simp: inExchange_def outs_def)
qed

lemma requestMissing_after:
  assumes "afterExchange env got s"
  shows "\<exists>s'. requestMissing env s = Inr s' \<and> afterExchange env got s' \<and> outs s s' []"
proof -
  obtain s' a b os where "requestMissing env s = Inr s'"
    "nbOf s' = (nbOf s)\<lparr>requestRetransmissionTimer := a, requestRetransmissionTimerActive := b\<rparr>"
    "nbOut s' = nbOut s @ os" "ddPackets os = []" using requestMissing_effect [of env s] by blast
  with assms show ?thesis by (auto simp: afterExchange_def outs_def)
qed

lemma exchangeDone_effect:
  assumes "inExchange env rel q rest got lastP s"
  shows "\<exists>s'. ProcessEvent env ExchangeDone s = Inr s' \<and> afterExchange env got s' \<and> outs s s' []"
proof (cases "wanted env got = []")
  case True
  let ?t = "modify (setTimer DDRetransmissionT (Some (envNow env + of_int (neighborsRouterDeadInterval (nbOf s))))) s"
  let ?s' = "ChangeState NbFull (ClearRequestRetransmissionTimer ?t)"
  have "ProcessEvent env ExchangeDone s = Inr ?s'"
    using assms True by (simp add: inExchange_def ProcessEvent_def ExchangeProcessEvent_def StartTimer_def)
  moreover have "afterExchange env got ?s'" using assms True by (simp add: inExchange_def afterExchange_def)
  moreover have "outs s ?s' []"
    by (simp add: outs_def ChangeState_def ClearRequestRetransmissionTimer_def ClearTimer_def modify_def
        emit_def Let_def)
  ultimately show ?thesis by blast
next
  case False
  let ?t = "modify (setTimer DDRetransmissionT (Some (envNow env + of_int (neighborsRouterDeadInterval (nbOf s))))) s"
  let ?s' = "ChangeState NbLoading ?t"
  have "ProcessEvent env ExchangeDone s = Inr ?s'"
    using assms False by (simp add: inExchange_def ProcessEvent_def ExchangeProcessEvent_def StartTimer_def)
  moreover have "afterExchange env got ?s'" using assms False by (simp add: inExchange_def afterExchange_def)
  moreover have "outs s ?s' []" using assms
    by (simp add: outs_def ChangeState_def modify_def emit_def inExchange_def Let_def)
  ultimately show ?thesis by blast
qed

text \<open>A page is sent, and the exchange goes on.\<close>

lemma sendDD_exchange:
  assumes "inExchange env rel q rest got lastP s" "page env rest = (hs, rest')"
  shows "inExchange env rel q rest' got lastP (SendDatabaseDescriptionPacket False env s)"
    "outs s (SendDatabaseDescriptionPacket False env s) [pageDD env (rel = Master) q hs (rest' \<noteq> [])]"
    "lastTransmittedDDPacket (nbOf (SendDatabaseDescriptionPacket False env s)) =
       Some (pageDD env (rel = Master) q hs (rest' \<noteq> []))"
proof -
  have p: "page env (databaseSummaryList (nbOf s)) = (hs, rest')" using assms by (simp add: inExchange_def)
  show "inExchange env rel q rest' got lastP (SendDatabaseDescriptionPacket False env s)"
    using assms sendDD_page(1) [OF p] by (simp add: inExchange_def)
  show "outs s (SendDatabaseDescriptionPacket False env s) [pageDD env (rel = Master) q hs (rest' \<noteq> [])]"
    using assms(1) sendDD_page(2) [OF p] by (auto simp: inExchange_def outs_def)
  show "lastTransmittedDDPacket (nbOf (SendDatabaseDescriptionPacket False env s)) =
       Some (pageDD env (rel = Master) q hs (rest' \<noteq> []))"
    using assms(1) sendDD_page(1) [OF p] by (simp add: inExchange_def)
qed

text \<open>The packets of the other router are accepted.\<close>

definition ddMTU :: "NbEnv \<Rightarrow> uint16" where
  "ddMTU env = (if interfaceType (envInterface env) \<noteq> Virtual then ifMTU (envInterface env) else 0)"

definition accepts :: "NbEnv \<Rightarrow> NbEnv \<Rightarrow> bool" where
  "accepts env env' \<longleftrightarrow> ddMTU env' \<le> ifMTU (envInterface env) \<and>
     (\<forall>h\<in>set (databaseHeaders env'). headerAccepted env h)"

lemma pageDD_simps [simp]:
  "interfaceMTU (pageDD env ms q hs m) = ddMTU env"
  "interfaceMTU (firstDD env q) = ddMTU env"
  "ddOptionsE (pageDD env ms q hs m) = zeroOptions (externalRoutingCapability (envArea env))"
  "ddOptions (pageDD env ms q hs m) = \<lparr>I_Init = False, M_More = m, MS_MasterSlave = ms\<rparr>"
  "ddPacketSequenceNumber (pageDD env ms q hs m) = q" "ddLsaHeaders (pageDD env ms q hs m) = hs"
  "packetIDOf (pageDD env ms q hs m) = \<lparr>ddpOptions = \<lparr>I_Init = False, M_More = m, MS_MasterSlave = ms\<rparr>,
     ddpNeighborOptions = zeroOptions (externalRoutingCapability (envArea env)), ddpSequenceNumber = q\<rparr>"
  "packetIDOf (firstDD env q) = \<lparr>ddpOptions = \<lparr>I_Init = True, M_More = True, MS_MasterSlave = True\<rparr>,
     ddpNeighborOptions = zeroOptions (externalRoutingCapability (envArea env)), ddpSequenceNumber = q\<rparr>"
  by (simp_all add: pageDD_def firstDD_def packetIDOf_def ddMTU_def)

section \<open>The slave takes a page\<close>

lemma slave_page:
  assumes inEx: "inExchange env Slave q rest got lastP s"
    and last_p: "ddPacketSequenceNumber lastP = q"
      "ddOptionsE lastP = zeroOptions (externalRoutingCapability (envArea env'))"
    and acc: "ddMTU env' \<le> ifMTU (envInterface env)" "\<forall>h\<in>set hs. headerAccepted env h"
    and pg: "page env rest = (hs', rest')"
  shows "\<exists>s'. DDHandler env (pageDD env' True (q + 1) hs m) s = Inr s' \<and>
    outs s s' [pageDD env False (q + 1) hs' (rest' \<noteq> [])] \<and>
    (if \<not> m \<and> rest' = [] then afterExchange env (got @ hs) s'
     else inExchange env Slave (q + 1) rest' (got @ hs) (pageDD env' True (q + 1) hs m) s')"
proof -
  let ?p = "pageDD env' True (q + 1) hs m"
  let ?t = "modify (\<lambda>n. n\<lparr>ddSequenceNumber := q + 1\<rparr>) (request (wanted env hs)
      (modify (\<lambda>n. n\<lparr>lastReceivedDDPacket := packetIDOf ?p\<rparr>) s))"
  let ?u = "SendDatabaseDescriptionPacket False env ?t"
  have t: "inExchange env Slave (q + 1) rest (got @ hs) ?p ?t"
    using inEx by (simp add: inExchange_def)
  have st: "outs s ?t []" by (rule outs_same) (simp add: request_def modify_def)
  note u = sendDD_exchange [OF t pg]
  have su: "outs s ?u [pageDD env False (q + 1) hs' (rest' \<noteq> [])]"
    using outs_trans [OF st u(2)] by simp
  have sum: "databaseSummaryList (nbOf ?u) = rest'" using u(1) by (simp add: inExchange_def)
  have handler: "DDHandler env ?p s = andThen (if \<not> m \<and> rest' = [] then ProcessEvent env ExchangeDone ?u
      else Inr ?u) (requestMissing env)"
  proof -
    have "DDHandler env ?p s = ddInExchange env ?p s"
      using inEx acc(1) by (simp add: DDHandler_def inExchange_def)
    also have "\<dots> = andThen (ProcessDDPacket env ?p False (modify (\<lambda>n. n\<lparr>lastReceivedDDPacket := packetIDOf ?p\<rparr>) s))
        (\<lambda>(ok, s). if \<not> ok then Inr s else requestMissing env s)"
    proof -
      have "packetIDOf ?p \<noteq> lastReceivedDDPacket (nbOf s)"
        using inEx last_p(1) by (simp add: inExchange_def) (auto simp: packetIDOf_def)
      moreover have "ddpNeighborOptions (lastReceivedDDPacket (nbOf s)) = ddOptionsE ?p"
        using inEx last_p(2) by (simp add: inExchange_def packetIDOf_def)
      ultimately show ?thesis using inEx by (simp add: ddInExchange_def inExchange_def)
    qed
    also have "\<dots> = andThen (if \<not> m \<and> rest' = [] then ProcessEvent env ExchangeDone ?u else Inr ?u)
        (requestMissing env)"
      using inEx sum acc(2) by (simp add: ProcessDDPacket_def listHeaders_wanted answerDD_def Let_def
          inExchange_def andThen_assoc)
    finally show ?thesis .
  qed
  show ?thesis
  proof (cases "\<not> m \<and> rest' = []")
    case True
    obtain v where v: "ProcessEvent env ExchangeDone ?u = Inr v" "afterExchange env (got @ hs) v" "outs ?u v []"
      using exchangeDone_effect [OF u(1)] by blast
    obtain w where w: "requestMissing env v = Inr w" "afterExchange env (got @ hs) w" "outs v w []"
      using requestMissing_after [OF v(2)] by blast
    have "outs s w [pageDD env False (q + 1) hs' (rest' \<noteq> [])]"
      using outs_trans [OF outs_trans [OF su v(3)] w(3)] by simp
    moreover have "DDHandler env ?p s = Inr w" unfolding handler using True v(1) w(1) by simp
    ultimately show ?thesis using True w(2) by auto
  next
    case False
    obtain w where w: "requestMissing env ?u = Inr w" "outs ?u w []"
      "inExchange env Slave (q + 1) rest' (got @ hs) ?p w"
      using requestMissing_exchange [OF u(1)] by blast
    have "outs s w [pageDD env False (q + 1) hs' (rest' \<noteq> [])]"
      using outs_trans [OF su w(2)] by simp
    moreover have "DDHandler env ?p s = Inr w" unfolding handler using False w(1) by auto
    ultimately show ?thesis using False w(3) by auto
  qed
qed

section \<open>The negotiation\<close>

lemma negotiationDone_effect:
  assumes "nbState (nbOf s) = NbExchangeStart" "databaseSummaryList (nbOf s) = []"
    and "databaseExchangeRelationship (nbOf s) = rel" "ddSequenceNumber (nbOf s) = q"
    and "linkStateRequestList (nbOf s) = wanted env got" "lastReceivedDDPacket (nbOf s) = packetIDOf lastP"
    and pg: "page env (databaseHeaders env) = (hs, rest)"
  shows "\<exists>s'. ProcessEvent env NegotiationDone s = Inr s' \<and> inExchange env rel q rest got lastP s' \<and>
    outs s s' [pageDD env (rel = Master) q hs (rest \<noteq> [])] \<and>
    lastTransmittedDDPacket (nbOf s') = Some (pageDD env (rel = Master) q hs (rest \<noteq> []))"
proof -
  let ?c = "CreateDatabaseSummary env s"
  let ?d = "SendDatabaseDescriptionPacket False env ?c"
  let ?s' = "ChangeState NbExchange (ClearTimer DDRetransmissionT ?d)"
  have c: "nbOf ?c = (nbOf s)\<lparr>databaseSummaryList := databaseHeaders env\<rparr>" "nbOut ?c = nbOut s"
    using assms(2) by (simp_all add: CreateDatabaseSummary_def modify_def)
  have "page env (databaseSummaryList (nbOf ?c)) = (hs, rest)" using pg by (simp add: c)
  note d = sendDD_page [OF this]
  have pkt: "pageDD env (databaseExchangeRelationship (nbOf ?c) = Master) (ddSequenceNumber (nbOf ?c)) hs
      (rest \<noteq> []) = pageDD env (rel = Master) q hs (rest \<noteq> [])" using assms by (simp add: c)
  have "ProcessEvent env NegotiationDone s = Inr ?s'"
    using assms(1) by (simp add: ProcessEvent_def ExchangeStartProcessEvent_def)
  moreover have "inExchange env rel q rest got lastP ?s'"
    using assms by (simp add: inExchange_def d(1) c)
  moreover have "outs s ?s' [pageDD env (rel = Master) q hs (rest \<noteq> [])]"
  proof -
    have "nbOut ?s' = nbOut ?d" using assms(1)
      by (simp add: ChangeState_def ClearTimer_def modify_def Let_def c)
    then show ?thesis using d(2) pkt by (auto simp: outs_def c(2))
  qed
  moreover have "lastTransmittedDDPacket (nbOf ?s') = Some (pageDD env (rel = Master) q hs (rest \<noteq> []))"
    using pkt by (simp add: d(1))
  ultimately show ?thesis by blast
qed

lemma requestMissing_keeps:
  assumes "inExchange env rel q rest got lastP s" "lastTransmittedDDPacket (nbOf s) = tp"
  shows "\<exists>s'. requestMissing env s = Inr s' \<and> inExchange env rel q rest got lastP s' \<and> outs s s' [] \<and>
    lastTransmittedDDPacket (nbOf s') = tp"
proof -
  obtain s' a b os where "requestMissing env s = Inr s'"
    "nbOf s' = (nbOf s)\<lparr>requestRetransmissionTimer := a, requestRetransmissionTimerActive := b\<rparr>"
    "nbOut s' = nbOut s @ os" "ddPackets os = []" using requestMissing_effect [of env s] by blast
  with assms show ?thesis by (auto simp: inExchange_def outs_def)
qed

text \<open>The slave takes the initial packet of the master and sends its first page.\<close>

lemma slave_begin:
  assumes st: "atStart other s" and less: "routerID (envArea env) < other"
    and mtu: "ddMTU env' \<le> ifMTU (envInterface env)"
    and pg: "page env (databaseHeaders env) = (hs, rest)"
  shows "\<exists>s'. DDHandler env (firstDD env' q) s = Inr s' \<and>
    inExchange env Slave q rest [] (firstDD env' q) s' \<and> outs s s' [pageDD env False q hs (rest \<noteq> [])] \<and>
    lastTransmittedDDPacket (nbOf s') = Some (pageDD env False q hs (rest \<noteq> []))"
proof -
  let ?p = "firstDD env' q"
  let ?t = "modify (\<lambda>n. n\<lparr>ddSequenceNumber := q\<rparr>) (modify (\<lambda>n. n\<lparr>neighborOptions := ddOptionsE ?p,
      databaseExchangeRelationship := Slave, ddSequenceNumber := q, lastReceivedDDPacket := packetIDOf ?p\<rparr>) s)"
  have p: "ddOptions ?p = \<lparr>I_Init = True, M_More = True, MS_MasterSlave = True\<rparr>" "ddLsaHeaders ?p = []"
    "ddPacketSequenceNumber ?p = q" by (simp_all add: firstDD_def)
  have "DDHandler env ?p s = ddInExchangeStart env ?p s"
    using st mtu by (simp add: DDHandler_def atStart_def)
  also have "\<dots> = andThen (ProcessEvent env NegotiationDone ?t) (requestMissing env)"
    using st less by (simp add: ddInExchangeStart_def p negotiated_def ProcessDDPacket_def answerDD_def
        atStart_def Let_def)
  finally have h: "DDHandler env ?p s = andThen (ProcessEvent env NegotiationDone ?t) (requestMissing env)" .
  have t: "nbState (nbOf ?t) = NbExchangeStart" "databaseSummaryList (nbOf ?t) = []"
    "databaseExchangeRelationship (nbOf ?t) = Slave" "ddSequenceNumber (nbOf ?t) = q"
    "linkStateRequestList (nbOf ?t) = wanted env []" "lastReceivedDDPacket (nbOf ?t) = packetIDOf ?p"
    using st by (simp_all add: atStart_def del: pageDD_simps)
  obtain u where u: "ProcessEvent env NegotiationDone ?t = Inr u" "inExchange env Slave q rest [] ?p u"
    "outs ?t u [pageDD env (Slave = Master) q hs (rest \<noteq> [])]"
    "lastTransmittedDDPacket (nbOf u) = Some (pageDD env (Slave = Master) q hs (rest \<noteq> []))"
    using negotiationDone_effect [OF t pg] by blast
  obtain w where w: "requestMissing env u = Inr w" "inExchange env Slave q rest [] ?p w" "outs u w []"
    "lastTransmittedDDPacket (nbOf w) = Some (pageDD env (Slave = Master) q hs (rest \<noteq> []))"
    using requestMissing_keeps [OF u(2,4)] by blast
  have "outs s ?t []" by (rule outs_same) (simp add: modify_def)
  from outs_trans [OF outs_trans [OF this u(3)] w(3)]
  have "outs s w [pageDD env False q hs (rest \<noteq> [])]" by simp
  with h u(1) w show ?thesis by (simp del: pageDD_simps)
qed

text \<open>The slave answers the same packet once more by the same packet.\<close>

lemma slave_duplicate:
  assumes "inExchange env Slave q rest got p s" "interfaceMTU p \<le> ifMTU (envInterface env)"
    and "lastTransmittedDDPacket (nbOf s) = Some d"
  shows "\<exists>s'. DDHandler env p s = Inr s' \<and> nbOf s' = nbOf s \<and> outs s s' [d]"
proof -
  have "DDHandler env p s = Inr (snd (RetransmitDatabaseDescriptionPacket env s))"
    using assms by (simp add: DDHandler_def ddInExchange_def inExchange_def Let_def)
  moreover have "outs s (snd (RetransmitDatabaseDescriptionPacket env s)) [d]"
    using assms(3) by (simp add: RetransmitDatabaseDescriptionPacket_def sendToNeighbor_def emit_def outs_def Let_def)
  ultimately show ?thesis by simp
qed

section \<open>The master\<close>

text \<open>The master answers the initial packet of the slave by its own.\<close>

lemma master_again:
  assumes "atStart other s" "other < routerID (envArea env)" "ddSequenceNumber (nbOf s) = q"
    and "ddMTU env' \<le> ifMTU (envInterface env)"
  shows "\<exists>s'. DDHandler env (firstDD env' y) s = Inr s' \<and> atStart other s' \<and>
    ddSequenceNumber (nbOf s') = q \<and> outs s s' [firstDD env q]"
proof -
  let ?s' = "SendDatabaseDescriptionPacket True env s"
  have p: "ddOptions (firstDD env' y) = \<lparr>I_Init = True, M_More = True, MS_MasterSlave = True\<rparr>"
    "ddLsaHeaders (firstDD env' y) = []" by (simp_all add: firstDD_def)
  have less: "\<not> routerID (envArea env) < other" using assms(2) by simp
  have "DDHandler env (firstDD env' y) s = Inr ?s'"
    using assms less by (simp add: DDHandler_def ddInExchangeStart_def atStart_def p Let_def)
  moreover have "atStart other ?s'" "ddSequenceNumber (nbOf ?s') = q"
    using assms by (simp_all add: atStart_def sendDD_first(1))
  moreover have "outs s ?s' [firstDD env q]"
    using assms(3) by (simp add: outs_def SendDatabaseDescriptionPacket_def firstDD_def sendToNeighbor_def emit_def
        modify_def Let_def)
  ultimately show ?thesis by blast
qed

text \<open>The master takes the first page of the slave and sends its own.\<close>

lemma master_begin:
  assumes st: "atStart other s" "other < routerID (envArea env)" "ddSequenceNumber (nbOf s) = q"
    and acc: "ddMTU env' \<le> ifMTU (envInterface env)" "\<forall>h\<in>set hs. headerAccepted env h"
    and pg: "page env (databaseHeaders env) = (hs', rest)"
  shows "\<exists>s'. DDHandler env (pageDD env' False q hs m) s = Inr s' \<and>
    inExchange env Master (q + 1) rest hs (pageDD env' False q hs m) s' \<and>
    outs s s' [pageDD env True (q + 1) hs' (rest \<noteq> [])]"
proof -
  let ?p = "pageDD env' False q hs m"
  let ?t = "IncrementDDSequenceNumber (request (wanted env hs) (modify (\<lambda>n. n\<lparr>neighborOptions := ddOptionsE ?p,
      databaseExchangeRelationship := Master, lastReceivedDDPacket := packetIDOf ?p\<rparr>) s))"
  have less: "\<not> routerID (envArea env) < other" using st(2) by simp
  have "DDHandler env ?p s = ddInExchangeStart env ?p s"
    using st acc by (simp add: DDHandler_def atStart_def)
  also have "\<dots> = andThen (ProcessEvent env NegotiationDone ?t) (requestMissing env)"
    using st less acc(2)
    by (simp add: exchangeDone_ignored ddInExchangeStart_def negotiated_def ProcessDDPacket_def answerDD_def
        atStart_def listHeaders_wanted Let_def)
  finally have h: "DDHandler env ?p s = andThen (ProcessEvent env NegotiationDone ?t) (requestMissing env)" .
  have t: "nbState (nbOf ?t) = NbExchangeStart" "databaseSummaryList (nbOf ?t) = []"
    "databaseExchangeRelationship (nbOf ?t) = Master" "ddSequenceNumber (nbOf ?t) = q + 1"
    "linkStateRequestList (nbOf ?t) = wanted env hs" "lastReceivedDDPacket (nbOf ?t) = packetIDOf ?p"
    using st by (simp_all add: atStart_def)
  obtain u where u: "ProcessEvent env NegotiationDone ?t = Inr u" "inExchange env Master (q + 1) rest hs ?p u"
    "outs ?t u [pageDD env (Master = Master) (q + 1) hs' (rest \<noteq> [])]"
    using negotiationDone_effect [OF t pg] by blast
  obtain w where w: "requestMissing env u = Inr w" "inExchange env Master (q + 1) rest hs ?p w" "outs u w []"
    using requestMissing_exchange [OF u(2)] by blast
  have "outs s ?t []" by (rule outs_same) (simp add: IncrementDDSequenceNumber_def request_def modify_def)
  from outs_trans [OF outs_trans [OF this u(3)] w(3)]
  have "outs s w [pageDD env True (q + 1) hs' (rest \<noteq> [])]" by simp
  moreover have "DDHandler env ?p s = Inr w" unfolding h u(1) using w(1) by simp
  ultimately show ?thesis using w(2) by blast
qed

text \<open>The master passes over a packet that it has had.\<close>

lemma master_duplicate:
  assumes "inExchange env Master q rest got p s"
  shows "DDHandler env p s = Inr s"
  using assms by (simp add: DDHandler_def ddInExchange_def inExchange_def Let_def)

lemma master_page:
  assumes inEx: "inExchange env Master q rest got lastP s"
    and last_p: "ddPacketSequenceNumber lastP \<noteq> q"
      "ddOptionsE lastP = zeroOptions (externalRoutingCapability (envArea env'))"
    and acc: "ddMTU env' \<le> ifMTU (envInterface env)" "\<forall>h\<in>set hs. headerAccepted env h"
    and pg: "page env rest = (hs', rest')"
  shows "\<exists>s'. DDHandler env (pageDD env' False q hs m) s = Inr s' \<and>
    (if rest = [] \<and> \<not> m then afterExchange env (got @ hs) s' \<and> outs s s' []
     else inExchange env Master (q + 1) rest' (got @ hs) (pageDD env' False q hs m) s' \<and>
       outs s s' [pageDD env True (q + 1) hs' (rest' \<noteq> [])])"
proof -
  let ?p = "pageDD env' False q hs m"
  let ?t = "IncrementDDSequenceNumber (request (wanted env hs)
      (modify (\<lambda>n. n\<lparr>lastReceivedDDPacket := packetIDOf ?p\<rparr>) s))"
  let ?u = "SendDatabaseDescriptionPacket False env ?t"
  have t: "inExchange env Master (q + 1) rest (got @ hs) ?p ?t"
    using inEx by (simp add: inExchange_def)
  have st: "outs s ?t []" by (rule outs_same) (simp add: IncrementDDSequenceNumber_def request_def modify_def)
  note u = sendDD_exchange [OF t pg]
  have sum: "databaseSummaryList (nbOf ?t) = rest" using t by (simp add: inExchange_def)
  have handler: "DDHandler env ?p s = andThen (if rest = [] \<and> \<not> m then ProcessEvent env ExchangeDone ?t
      else Inr ?u) (requestMissing env)"
  proof -
    have "DDHandler env ?p s = ddInExchange env ?p s"
      using inEx acc(1) by (simp add: DDHandler_def inExchange_def)
    also have "\<dots> = andThen (ProcessDDPacket env ?p False (modify (\<lambda>n. n\<lparr>lastReceivedDDPacket := packetIDOf ?p\<rparr>) s))
        (\<lambda>(ok, s). if \<not> ok then Inr s else requestMissing env s)"
    proof -
      have "packetIDOf ?p \<noteq> lastReceivedDDPacket (nbOf s)"
        using inEx last_p(1) by (simp add: inExchange_def) (auto simp: packetIDOf_def)
      moreover have "ddpNeighborOptions (lastReceivedDDPacket (nbOf s)) = ddOptionsE ?p"
        using inEx last_p(2) by (simp add: inExchange_def packetIDOf_def)
      ultimately show ?thesis using inEx by (simp add: ddInExchange_def inExchange_def)
    qed
    also have "\<dots> = andThen (if rest = [] \<and> \<not> m then ProcessEvent env ExchangeDone ?t else Inr ?u)
        (requestMissing env)"
      using inEx sum acc(2) by (simp add: ProcessDDPacket_def listHeaders_wanted answerDD_def Let_def
          inExchange_def andThen_assoc)
    finally show ?thesis .
  qed
  show ?thesis
  proof (cases "rest = [] \<and> \<not> m")
    case True
    obtain v where v: "ProcessEvent env ExchangeDone ?t = Inr v" "afterExchange env (got @ hs) v" "outs ?t v []"
      using exchangeDone_effect [OF t] by blast
    obtain w where w: "requestMissing env v = Inr w" "afterExchange env (got @ hs) w" "outs v w []"
      using requestMissing_after [OF v(2)] by blast
    have "outs s w []" using outs_trans [OF outs_trans [OF st v(3)] w(3)] by simp
    moreover have "DDHandler env ?p s = Inr w" unfolding handler using True v(1) w(1) by simp
    ultimately show ?thesis using True w(2) by auto
  next
    case False
    obtain w where w: "requestMissing env ?u = Inr w" "outs ?u w []"
      "inExchange env Master (q + 1) rest' (got @ hs) ?p w"
      using requestMissing_exchange [OF u(1)] by blast
    have "outs s w [pageDD env True (q + 1) hs' (rest' \<noteq> [])]"
      using outs_trans [OF outs_trans [OF st u(2)] w(2)] by simp
    moreover have "DDHandler env ?p s = Inr w" unfolding handler using False w(1) by auto
    ultimately show ?thesis using False w(3) by auto
  qed
qed

section \<open>The phases of the exchange\<close>

definition exchanged :: "NbEnv \<Rightarrow> NbEnv \<Rightarrow> DDExchange \<Rightarrow> bool" where
  "exchanged envL envH c \<longleftrightarrow> toLow c = [] \<and> toHigh c = [] \<and>
     afterExchange envL (databaseHeaders envH) (lowSide c) \<and>
     afterExchange envH (databaseHeaders envL) (highSide c)"

text \<open>The last packet the neighbour was seen to send, by its number.\<close>

definition seenFrom :: "NbEnv \<Rightarrow> ulong \<Rightarrow> OSPFDatabaseDescriptionPacket \<Rightarrow> bool" where
  "seenFrom env q p \<longleftrightarrow> ddPacketSequenceNumber p = q \<and> interfaceMTU p = ddMTU env \<and>
     ddOptionsE p = zeroOptions (externalRoutingCapability (envArea env))"

lemma seenFrom_simps [simp]: "seenFrom env q (firstDD env q)" "seenFrom env q (pageDD env ms q hs m)"
  by (simp_all add: seenFrom_def) (simp_all add: firstDD_def)

text \<open>The slave has sent its first page and waits for a page of the master.\<close>

definition slaveFirst :: "NbEnv \<Rightarrow> NbEnv \<Rightarrow> ulong \<Rightarrow> NbState \<Rightarrow> bool" where
  "slaveFirst envL envH x s \<longleftrightarrow> (case page envL (databaseHeaders envL) of (hs, rest) \<Rightarrow>
     inExchange envL Slave x rest [] (firstDD envH x) s \<and>
     lastTransmittedDDPacket (nbOf s) = Some (pageDD envL False x hs (rest \<noteq> [])))"

definition slavePage1 :: "NbEnv \<Rightarrow> ulong \<Rightarrow> OSPFDatabaseDescriptionPacket" where
  "slavePage1 envL x = (case page envL (databaseHeaders envL) of (hs, rest) \<Rightarrow>
     pageDD envL False x hs (rest \<noteq> []))"

definition masterPage1 :: "NbEnv \<Rightarrow> ulong \<Rightarrow> OSPFDatabaseDescriptionPacket" where
  "masterPage1 envH x = (case page envH (databaseHeaders envH) of (hs, rest) \<Rightarrow>
     pageDD envH True (x + 1) hs (rest \<noteq> []))"

definition masterFirst :: "NbEnv \<Rightarrow> NbEnv \<Rightarrow> ulong \<Rightarrow> NbState \<Rightarrow> bool" where
  "masterFirst envL envH x s \<longleftrightarrow> inExchange envH Master (x + 1) (snd (page envH (databaseHeaders envH)))
     (fst (page envL (databaseHeaders envL))) (slavePage1 envL x) s"

definition startRank :: "NbEnv \<Rightarrow> NbEnv \<Rightarrow> nat" where
  "startRank envL envH = 2 * max (length (snd (page envL (databaseHeaders envL))))
     (length (snd (page envH (databaseHeaders envH)))) + 3"

inductive phase :: "NbEnv \<Rightarrow> NbEnv \<Rightarrow> ulong \<Rightarrow> nat \<Rightarrow> DDExchange \<Rightarrow> bool" for envL envH x where
  bothStart: "atStart (routerID (envArea envH)) (lowSide c) \<Longrightarrow> atStart (routerID (envArea envL)) (highSide c) \<Longrightarrow>
    ddSequenceNumber (nbOf (highSide c)) = x \<Longrightarrow> toLow c = [firstDD envH x] \<Longrightarrow>
    toHigh c = [firstDD envL y] \<Longrightarrow> phase envL envH x (startRank envL envH + 4) c"
| startTwice: "atStart (routerID (envArea envH)) (lowSide c) \<Longrightarrow> atStart (routerID (envArea envL)) (highSide c) \<Longrightarrow>
    ddSequenceNumber (nbOf (highSide c)) = x \<Longrightarrow> toLow c = [firstDD envH x, firstDD envH x] \<Longrightarrow>
    toHigh c = [] \<Longrightarrow> phase envL envH x (startRank envL envH + 3) c"
| slaveReady: "slaveFirst envL envH x (lowSide c) \<Longrightarrow> atStart (routerID (envArea envL)) (highSide c) \<Longrightarrow>
    ddSequenceNumber (nbOf (highSide c)) = x \<Longrightarrow> toLow c = [] \<Longrightarrow>
    toHigh c = [firstDD envL y, slavePage1 envL x] \<Longrightarrow> phase envL envH x (startRank envL envH + 3) c"
| slaveReady2: "slaveFirst envL envH x (lowSide c) \<Longrightarrow> atStart (routerID (envArea envL)) (highSide c) \<Longrightarrow>
    ddSequenceNumber (nbOf (highSide c)) = x \<Longrightarrow> toLow c = [firstDD envH x] \<Longrightarrow>
    toHigh c = [slavePage1 envL x] \<Longrightarrow> phase envL envH x (startRank envL envH + 2) c"
| slaveTwice: "slaveFirst envL envH x (lowSide c) \<Longrightarrow> atStart (routerID (envArea envL)) (highSide c) \<Longrightarrow>
    ddSequenceNumber (nbOf (highSide c)) = x \<Longrightarrow> toLow c = [] \<Longrightarrow>
    toHigh c = [slavePage1 envL x, slavePage1 envL x] \<Longrightarrow> phase envL envH x (startRank envL envH + 1) c"
| masterReady: "slaveFirst envL envH x (lowSide c) \<Longrightarrow> masterFirst envL envH x (highSide c) \<Longrightarrow>
    toLow c = [firstDD envH x, masterPage1 envH x] \<Longrightarrow> toHigh c = [] \<Longrightarrow>
    phase envL envH x (startRank envL envH + 1) c"
| slavesTurn: "inExchange envL Slave q restL gotL lp (lowSide c) \<Longrightarrow> seenFrom envH q lp \<Longrightarrow>
    inExchange envH Master (q + 1) restH gotH hp (highSide c) \<Longrightarrow> seenFrom envL q hp \<Longrightarrow>
    gotL @ hs @ restH = databaseHeaders envH \<Longrightarrow> gotH @ restL = databaseHeaders envL \<Longrightarrow>
    toLow c = [pageDD envH True (q + 1) hs (restH \<noteq> [])] \<Longrightarrow> toHigh c = dup \<Longrightarrow> dup \<in> {[], [hp]} \<Longrightarrow>
    phase envL envH x (2 * max (length restL) (length restH) + 2 + length dup) c"
| mastersTurn: "(if restH = [] \<and> restL = [] then afterExchange envL (databaseHeaders envH) (lowSide c)
      else inExchange envL Slave (q + 1) restL gotL lp (lowSide c) \<and> seenFrom envH (q + 1) lp \<and>
        gotL @ restH = databaseHeaders envH) \<Longrightarrow>
    inExchange envH Master (q + 1) restH gotH hp (highSide c) \<Longrightarrow> seenFrom envL q hp \<Longrightarrow>
    gotH @ hs @ restL = databaseHeaders envL \<Longrightarrow> toLow c = [] \<Longrightarrow>
    toHigh c = dup @ [pageDD envL False (q + 1) hs (restL \<noteq> [])] \<Longrightarrow> dup \<in> {[], [hp]} \<Longrightarrow>
    phase envL envH x (2 * max (if restL = [] then 0 else Suc (length restL)) (length restH) + 1 + length dup) c"
| over: "exchanged envL envH c \<Longrightarrow> phase envL envH x 0 c"

text \<open>A step is possible, and every step leads to a later phase.\<close>

definition moves :: "NbEnv \<Rightarrow> NbEnv \<Rightarrow> ulong \<Rightarrow> nat \<Rightarrow> DDExchange \<Rightarrow> bool" where
  "moves envL envH x n c \<longleftrightarrow> (\<exists>c'. ddStep envL envH c c') \<and>
     (\<forall>c'. ddStep envL envH c c' \<longrightarrow> (\<exists>m<n. phase envL envH x m c'))"

inductive_cases ddStepE: "ddStep envL envH c c'"

lemma moves_low:
  assumes "toLow c = p # ps" "toHigh c = []" "DDHandler envL p (lowSide c) = Inr s'" "outs (lowSide c) s' ds"
    and "phase envL envH x m (c\<lparr>lowSide := s', toLow := ps, toHigh := ds\<rparr>)" "m < n"
  shows "moves envL envH x n c"
proof -
  note d = outs_newDDs [OF assms(4)]
  show ?thesis unfolding moves_def
  proof (intro conjI allI impI)
    show "\<exists>c'. ddStep envL envH c c'" using ddStep.low [of c p ps envL s' envH] assms by blast
  next
    fix c' assume "ddStep envL envH c c'"
    then show "\<exists>m<n. phase envL envH x m c'"
      by (rule ddStepE) (use assms d in auto)
  qed
qed

lemma moves_high:
  assumes "toHigh c = p # ps" "toLow c = []" "DDHandler envH p (highSide c) = Inr s'" "outs (highSide c) s' ds"
    and "phase envL envH x m (c\<lparr>highSide := s', toHigh := ps, toLow := ds\<rparr>)" "m < n"
  shows "moves envL envH x n c"
proof -
  note d = outs_newDDs [OF assms(4)]
  show ?thesis unfolding moves_def
  proof (intro conjI allI impI)
    show "\<exists>c'. ddStep envL envH c c'" using ddStep.high [of c p ps envH s' envL] assms by blast
  next
    fix c' assume "ddStep envL envH c c'"
    then show "\<exists>m<n. phase envL envH x m c'"
      by (rule ddStepE) (use assms d in auto)
  qed
qed

lemma moves_both:
  assumes low: "toLow c = p # ps" "DDHandler envL p (lowSide c) = Inr s" "outs (lowSide c) s ds"
    and "phase envL envH x m (c\<lparr>lowSide := s, toLow := ps, toHigh := toHigh c @ ds\<rparr>)" "m < n"
    and high: "toHigh c = p' # ps'" "DDHandler envH p' (highSide c) = Inr s'" "outs (highSide c) s' ds'"
    and "phase envL envH x m' (c\<lparr>highSide := s', toHigh := ps', toLow := toLow c @ ds'\<rparr>)" "m' < n"
  shows "moves envL envH x n c"
proof -
  note d = outs_newDDs [OF low(3)] outs_newDDs [OF high(3)]
  show ?thesis unfolding moves_def
  proof (intro conjI allI impI)
    show "\<exists>c'. ddStep envL envH c c'" using ddStep.low [of c p ps envL s envH] assms by blast
  next
    fix c' assume "ddStep envL envH c c'"
    then show "\<exists>m<n. phase envL envH x m c'"
      by (rule ddStepE) (use assms d in auto)
  qed
qed

section \<open>Every phase moves on\<close>

text \<open>Each router takes the packets of the other one; the router IDs differ.\<close>

definition compatible :: "NbEnv \<Rightarrow> NbEnv \<Rightarrow> bool" where
  "compatible envL envH \<longleftrightarrow> routerID (envArea envL) < routerID (envArea envH) \<and>
     accepts envL envH \<and> accepts envH envL"

lemma compatibleD:
  assumes "compatible envL envH"
  shows "routerID (envArea envL) < routerID (envArea envH)"
    "ddMTU envH \<le> ifMTU (envInterface envL)" "ddMTU envL \<le> ifMTU (envInterface envH)"
    "set hs \<subseteq> set (databaseHeaders envH) \<Longrightarrow> \<forall>h\<in>set hs. headerAccepted envL h"
    "set hs \<subseteq> set (databaseHeaders envL) \<Longrightarrow> \<forall>h\<in>set hs. headerAccepted envH h"
  using assms by (auto simp: compatible_def accepts_def)

lemma slave_starts:
  assumes "compatible envL envH" "atStart (routerID (envArea envH)) s"
  shows "\<exists>s'. DDHandler envL (firstDD envH x) s = Inr s' \<and> slaveFirst envL envH x s' \<and>
    outs s s' [slavePage1 envL x]"
proof -
  obtain hs rest where pg: "page envL (databaseHeaders envL) = (hs, rest)" by fastforce
  from slave_begin [OF assms(2) compatibleD(1,2) [OF assms(1)] pg, of x] show ?thesis
    by (simp add: slaveFirst_def slavePage1_def pg) blast
qed

lemma slave_repeats:
  assumes "compatible envL envH" "slaveFirst envL envH x s"
  shows "\<exists>s'. DDHandler envL (firstDD envH x) s = Inr s' \<and> slaveFirst envL envH x s' \<and>
    outs s s' [slavePage1 envL x]"
proof -
  obtain hs rest where pg: "page envL (databaseHeaders envL) = (hs, rest)" by fastforce
  have s: "inExchange envL Slave x rest [] (firstDD envH x) s"
    "lastTransmittedDDPacket (nbOf s) = Some (pageDD envL False x hs (rest \<noteq> []))"
    using assms(2) by (simp_all add: slaveFirst_def pg)
  have "interfaceMTU (firstDD envH x) \<le> ifMTU (envInterface envL)"
    using compatibleD(2) [OF assms(1)] by simp
  from slave_duplicate [OF s(1) this s(2)] s show ?thesis
    by (auto simp: slaveFirst_def slavePage1_def pg inExchange_def)
qed

lemma master_starts:
  assumes "compatible envL envH" "atStart (routerID (envArea envL)) s" "ddSequenceNumber (nbOf s) = x"
  shows "\<exists>s'. DDHandler envH (slavePage1 envL x) s = Inr s' \<and> masterFirst envL envH x s' \<and>
    outs s s' [masterPage1 envH x]"
proof -
  obtain hs rest where pg: "page envL (databaseHeaders envL) = (hs, rest)" by fastforce
  obtain hs' rest' where pg': "page envH (databaseHeaders envH) = (hs', rest')" by fastforce
  have "\<forall>h\<in>set hs. headerAccepted envH h"
    by (rule compatibleD(5) [OF assms(1)]) (simp add: page_append [OF pg])
  from master_begin [OF assms(2) compatibleD(1) [OF assms(1)] assms(3) compatibleD(3) [OF assms(1)] this pg',
      of "rest \<noteq> []"] show ?thesis
    by (auto simp: masterFirst_def slavePage1_def masterPage1_def pg pg')
qed

lemma master_repeats:
  assumes "compatible envL envH" "atStart (routerID (envArea envL)) s" "ddSequenceNumber (nbOf s) = x"
  shows "\<exists>s'. DDHandler envH (firstDD envL y) s = Inr s' \<and> atStart (routerID (envArea envL)) s' \<and>
    ddSequenceNumber (nbOf s') = x \<and> outs s s' [firstDD envH x]"
  by (rule master_again [OF assms(2) compatibleD(1) [OF assms(1)] assms(3) compatibleD(3) [OF assms(1)]])

lemma move_bothStart:
  assumes c: "compatible envL envH" and st: "atStart (routerID (envArea envH)) (lowSide c)"
    "atStart (routerID (envArea envL)) (highSide c)" "ddSequenceNumber (nbOf (highSide c)) = x"
    "toLow c = [firstDD envH x]" "toHigh c = [firstDD envL y]"
  shows "moves envL envH x (startRank envL envH + 4) c"
proof -
  obtain s where s: "DDHandler envL (firstDD envH x) (lowSide c) = Inr s" "slaveFirst envL envH x s"
    "outs (lowSide c) s [slavePage1 envL x]" using slave_starts [OF c st(1)] by blast
  obtain t where t: "DDHandler envH (firstDD envL y) (highSide c) = Inr t" "atStart (routerID (envArea envL)) t"
    "ddSequenceNumber (nbOf t) = x" "outs (highSide c) t [firstDD envH x]"
    using master_repeats [OF c st(2,3)] by blast
  show ?thesis
    by (rule moves_both [OF st(4) s(1,3) phase.slaveReady [of envL envH x _ y] _ st(5) t(1,4) phase.startTwice])
       (use s t st in simp_all)
qed

lemma move_startTwice:
  assumes c: "compatible envL envH" and st: "atStart (routerID (envArea envH)) (lowSide c)"
    "atStart (routerID (envArea envL)) (highSide c)" "ddSequenceNumber (nbOf (highSide c)) = x"
    "toLow c = [firstDD envH x, firstDD envH x]" "toHigh c = []"
  shows "moves envL envH x (startRank envL envH + 3) c"
proof -
  obtain s where s: "DDHandler envL (firstDD envH x) (lowSide c) = Inr s" "slaveFirst envL envH x s"
    "outs (lowSide c) s [slavePage1 envL x]" using slave_starts [OF c st(1)] by blast
  show ?thesis
    by (rule moves_low [OF st(4,5) s(1,3) phase.slaveReady2]) (use s st in simp_all)
qed

lemma move_slaveReady:
  assumes c: "compatible envL envH" and st: "slaveFirst envL envH x (lowSide c)"
    "atStart (routerID (envArea envL)) (highSide c)" "ddSequenceNumber (nbOf (highSide c)) = x"
    "toLow c = []" "toHigh c = [firstDD envL y, slavePage1 envL x]"
  shows "moves envL envH x (startRank envL envH + 3) c"
proof -
  obtain t where t: "DDHandler envH (firstDD envL y) (highSide c) = Inr t" "atStart (routerID (envArea envL)) t"
    "ddSequenceNumber (nbOf t) = x" "outs (highSide c) t [firstDD envH x]"
    using master_repeats [OF c st(2,3)] by blast
  show ?thesis
    by (rule moves_high [OF st(5,4) t(1,4) phase.slaveReady2]) (use t st in simp_all)
qed

text \<open>Both have sent their first page.\<close>

lemma phase_firstPages:
  assumes "slaveFirst envL envH x (lowSide c)" "masterFirst envL envH x (highSide c)"
    and "toLow c = [masterPage1 envH x]" "toHigh c = [slavePage1 envL x]"
  shows "phase envL envH x (startRank envL envH) c"
proof -
  obtain hs rest where pg: "page envL (databaseHeaders envL) = (hs, rest)" by fastforce
  obtain hs' rest' where pg': "page envH (databaseHeaders envH) = (hs', rest')" by fastforce
  have r: "startRank envL envH = 2 * max (length rest) (length rest') + 2 + length [slavePage1 envL x]"
    by (simp add: startRank_def pg pg')
  have low: "inExchange envL Slave x rest [] (firstDD envH x) (lowSide c)"
    using assms(1) by (simp add: slaveFirst_def pg)
  have high: "inExchange envH Master (x + 1) rest' hs (slavePage1 envL x) (highSide c)"
    using assms(2) by (simp add: masterFirst_def pg pg')
  have link: "toLow c = [pageDD envH True (x + 1) hs' (rest' \<noteq> [])]"
    using assms(3) by (simp add: masterPage1_def pg')
  have seen: "seenFrom envL x (slavePage1 envL x)" by (simp add: slavePage1_def pg)
  show ?thesis unfolding r
    by (rule phase.slavesTurn [OF low seenFrom_simps(1) high seen _ _ link assms(4)])
       (simp_all add: page_append [OF pg, symmetric] page_append [OF pg', symmetric])
qed

lemma move_slaveReady2:
  assumes c: "compatible envL envH" and st: "slaveFirst envL envH x (lowSide c)"
    "atStart (routerID (envArea envL)) (highSide c)" "ddSequenceNumber (nbOf (highSide c)) = x"
    "toLow c = [firstDD envH x]" "toHigh c = [slavePage1 envL x]"
  shows "moves envL envH x (startRank envL envH + 2) c"
proof -
  obtain s where s: "DDHandler envL (firstDD envH x) (lowSide c) = Inr s" "slaveFirst envL envH x s"
    "outs (lowSide c) s [slavePage1 envL x]" using slave_repeats [OF c st(1)] by blast
  obtain t where t: "DDHandler envH (slavePage1 envL x) (highSide c) = Inr t" "masterFirst envL envH x t"
    "outs (highSide c) t [masterPage1 envH x]" using master_starts [OF c st(2,3)] by blast
  show ?thesis
    by (rule moves_both [OF st(4) s(1,3) phase.slaveTwice _ st(5) t(1,3) phase.masterReady])
       (use s t st in simp_all)
qed

lemma move_slaveTwice:
  assumes c: "compatible envL envH" and st: "slaveFirst envL envH x (lowSide c)"
    "atStart (routerID (envArea envL)) (highSide c)" "ddSequenceNumber (nbOf (highSide c)) = x"
    "toLow c = []" "toHigh c = [slavePage1 envL x, slavePage1 envL x]"
  shows "moves envL envH x (startRank envL envH + 1) c"
proof -
  obtain t where t: "DDHandler envH (slavePage1 envL x) (highSide c) = Inr t" "masterFirst envL envH x t"
    "outs (highSide c) t [masterPage1 envH x]" using master_starts [OF c st(2,3)] by blast
  show ?thesis
    by (rule moves_high [OF st(5,4) t(1,3) phase_firstPages]) (use t st in simp_all)
qed

lemma move_masterReady:
  assumes c: "compatible envL envH" and st: "slaveFirst envL envH x (lowSide c)"
    "masterFirst envL envH x (highSide c)" "toLow c = [firstDD envH x, masterPage1 envH x]" "toHigh c = []"
  shows "moves envL envH x (startRank envL envH + 1) c"
proof -
  obtain s where s: "DDHandler envL (firstDD envH x) (lowSide c) = Inr s" "slaveFirst envL envH x s"
    "outs (lowSide c) s [slavePage1 envL x]" using slave_repeats [OF c st(1)] by blast
  show ?thesis
    by (rule moves_low [OF st(3,4) s(1,3) phase_firstPages]) (use s st in simp_all)
qed

text \<open>The pages that follow.\<close>

lemma page_length:
  assumes "page env xs = (ys, zs)"
  shows "length zs \<le> length xs" "zs \<noteq> [] \<Longrightarrow> Suc (length zs) \<le> length xs"
    "xs \<noteq> [] \<Longrightarrow> Suc (length zs) \<le> length xs"
proof -
  show "length zs \<le> length xs" using page_append [OF assms] by simp
  show *: "xs \<noteq> [] \<Longrightarrow> Suc (length zs) \<le> length xs" using page_shorter [OF assms] by simp
  show "zs \<noteq> [] \<Longrightarrow> Suc (length zs) \<le> length xs" using * page_append [OF assms] by fastforce
qed

lemma move_slavesTurn:
  assumes c: "compatible envL envH"
    and low: "inExchange envL Slave q restL gotL lp (lowSide c)" "seenFrom envH q lp"
    and high: "inExchange envH Master (q + 1) restH gotH hp (highSide c)" "seenFrom envL q hp"
    and all: "gotL @ hs @ restH = databaseHeaders envH" "gotH @ restL = databaseHeaders envL"
    and link: "toLow c = [pageDD envH True (q + 1) hs (restH \<noteq> [])]" "toHigh c = dup" "dup \<in> {[], [hp]}"
  shows "moves envL envH x (2 * max (length restL) (length restH) + 2 + length dup) c"
proof -
  obtain hs' restL' where pg: "page envL restL = (hs', restL')" by fastforce
  have acc: "\<forall>h\<in>set hs. headerAccepted envL h"
    by (rule compatibleD(4) [OF c]) (auto simp: all(1) [symmetric])
  have lp: "ddPacketSequenceNumber lp = q" "ddOptionsE lp = zeroOptions (externalRoutingCapability (envArea envH))"
    using low(2) by (simp_all add: seenFrom_def)
  let ?p = "pageDD envH True (q + 1) hs (restH \<noteq> [])"
  let ?d = "pageDD envL False (q + 1) hs' (restL' \<noteq> [])"
  obtain s where s: "DDHandler envL ?p (lowSide c) = Inr s" "outs (lowSide c) s [?d]"
    "if \<not> restH \<noteq> [] \<and> restL' = [] then afterExchange envL (gotL @ hs) s
     else inExchange envL Slave (q + 1) restL' (gotL @ hs) ?p s"
    using slave_page [OF low(1) lp compatibleD(2) [OF c] acc pg, of "restH \<noteq> []"] by blast
  have st: "if restH = [] \<and> restL' = [] then afterExchange envL (databaseHeaders envH) s
      else inExchange envL Slave (q + 1) restL' (gotL @ hs) ?p s \<and> seenFrom envH (q + 1) ?p \<and>
        (gotL @ hs) @ restH = databaseHeaders envH"
    using s(3) all(1) by auto
  have rest: "gotH @ hs' @ restL' = databaseHeaders envL" using all(2) page_append [OF pg] by simp
  let ?m = "2 * max (if restL' = [] then 0 else Suc (length restL')) (length restH) + 1 + length dup"
  have rank: "?m < 2 * max (length restL) (length restH) + 2 + length dup"
    using page_length(1,2) [OF pg] by (auto simp: max_def)
  have ph: "phase envL envH x ?m (c\<lparr>lowSide := s, toLow := [], toHigh := dup @ [?d]\<rparr>)"
    by (rule phase.mastersTurn [where q = q and hs = hs' and hp = hp and gotH = gotH and
          gotL = "gotL @ hs" and lp = ?p])
       (use st high rest link(3) all(1) in simp_all)
  show ?thesis
  proof (cases "dup = []")
    case True
    show ?thesis by (rule moves_low [OF link(1) _ s(1,2) _ rank]) (use ph True link(2) in simp_all)
  next
    case False
    then have dup: "dup = [hp]" using link(3) by simp
    then have toHigh: "toHigh c = [hp]" using link(2) by simp
    have "phase envL envH x (2 * max (length restL) (length restH) + 2 + length ([] :: OSPFDatabaseDescriptionPacket list))
        (c\<lparr>highSide := highSide c, toHigh := [], toLow := toLow c @ []\<rparr>)"
      by (rule phase.slavesTurn [OF _ low(2) _ high(2) all]) (use low high link in simp_all)
    from moves_both [OF link(1) s(1,2) _ rank toHigh master_duplicate [OF high(1)] outs_same [OF refl] this]
    show ?thesis using ph by (simp add: link(2) dup)
  qed
qed

lemma move_mastersTurn:
  assumes c: "compatible envL envH"
    and low: "if restH = [] \<and> restL = [] then afterExchange envL (databaseHeaders envH) (lowSide c)
      else inExchange envL Slave (q + 1) restL gotL lp (lowSide c) \<and> seenFrom envH (q + 1) lp \<and>
        gotL @ restH = databaseHeaders envH"
    and high: "inExchange envH Master (q + 1) restH gotH hp (highSide c)" "seenFrom envL q hp"
    and all: "gotH @ hs @ restL = databaseHeaders envL"
    and link: "toLow c = []" "toHigh c = dup @ [pageDD envL False (q + 1) hs (restL \<noteq> [])]" "dup \<in> {[], [hp]}"
  shows "moves envL envH x
    (2 * max (if restL = [] then 0 else Suc (length restL)) (length restH) + 1 + length dup) c"
proof (cases "dup = []")
  case False
  then have dup: "dup = [hp]" using link(3) by simp
  have toHigh: "toHigh c = hp # [pageDD envL False (q + 1) hs (restL \<noteq> [])]" using link(2) dup by simp
  have ph: "phase envL envH x (2 * max (if restL = [] then 0 else Suc (length restL)) (length restH) + 1 +
      length ([] :: OSPFDatabaseDescriptionPacket list)) (c\<lparr>highSide := highSide c,
        toHigh := [pageDD envL False (q + 1) hs (restL \<noteq> [])], toLow := []\<rparr>)"
    by (rule phase.mastersTurn [where gotL = gotL and lp = lp, OF _ _ high(2) all]) (use low high link in simp_all)
  show ?thesis
    by (rule moves_high [OF toHigh link(1) master_duplicate [OF high(1)] outs_same [OF refl] ph])
       (simp add: dup)
next
  case True
  obtain hs' restH' where pg: "page envH restH = (hs', restH')" by fastforce
  have acc: "\<forall>h\<in>set hs. headerAccepted envH h"
    by (rule compatibleD(5) [OF c]) (auto simp: all [symmetric])
  have hp: "ddPacketSequenceNumber hp \<noteq> q + 1"
    "ddOptionsE hp = zeroOptions (externalRoutingCapability (envArea envL))"
    using high(2) by (simp_all add: seenFrom_def)
  let ?p = "pageDD envL False (q + 1) hs (restL \<noteq> [])"
  have toHigh: "toHigh c = ?p # []" using link(2) True by simp
  obtain t where t: "DDHandler envH ?p (highSide c) = Inr t"
    "if restH = [] \<and> \<not> restL \<noteq> [] then afterExchange envH (gotH @ hs) t \<and> outs (highSide c) t []
     else inExchange envH Master (q + 1 + 1) restH' (gotH @ hs) ?p t \<and>
       outs (highSide c) t [pageDD envH True (q + 1 + 1) hs' (restH' \<noteq> [])]"
    using master_page [OF high(1) hp compatibleD(3) [OF c] acc pg, of "restL \<noteq> []"] by blast
  show ?thesis
  proof (cases "restH = [] \<and> restL = []")
    case fin: True
    then have t': "afterExchange envH (databaseHeaders envL) t" "outs (highSide c) t []"
      using t(2) all fin by simp_all
    have "exchanged envL envH (c\<lparr>highSide := t, toHigh := [], toLow := []\<rparr>)"
      using t'(1) low fin by (simp add: exchanged_def)
    from moves_high [OF toHigh link(1) t(1) t'(2) phase.over [OF this]] show ?thesis by simp
  next
    case False
    then have t': "inExchange envH Master (q + 1 + 1) restH' (gotH @ hs) ?p t"
      "outs (highSide c) t [pageDD envH True (q + 1 + 1) hs' (restH' \<noteq> [])]"
      using t(2) by auto
    have low': "inExchange envL Slave (q + 1) restL gotL lp (lowSide c)" "seenFrom envH (q + 1) lp"
      "gotL @ hs' @ restH' = databaseHeaders envH" using low False page_append [OF pg] by auto
    have ph: "phase envL envH x (2 * max (length restL) (length restH') + 2 +
        length ([] :: OSPFDatabaseDescriptionPacket list)) (c\<lparr>highSide := t, toHigh := [],
          toLow := [pageDD envH True (q + 1 + 1) hs' (restH' \<noteq> [])]\<rparr>)"
      by (rule phase.slavesTurn [where q = "q + 1" and gotL = gotL and gotH = "gotH @ hs" and hs = hs' and
            lp = lp and hp = ?p]) (use low' t'(1) all in simp_all)
    have rank: "2 * max (length restL) (length restH') + 2 + length ([] :: OSPFDatabaseDescriptionPacket list) <
        2 * max (if restL = [] then 0 else Suc (length restL)) (length restH) + 1 + length dup"
    proof (cases "restH = []")
      case True
      with False page_length(1) [OF pg] show ?thesis by (simp add: max_def)
    next
      case False
      from page_length(3) [OF pg False] show ?thesis by (auto simp: max_def)
    qed
    show ?thesis by (rule moves_high [OF toHigh link(1) t(1) t'(2) ph rank])
  qed
qed

lemma phase_moves:
  assumes "compatible envL envH" "phase envL envH x n c"
  shows "exchanged envL envH c \<or> moves envL envH x n c"
  using assms(2)
proof (cases rule: phase.cases)
  case (bothStart y)
  from move_bothStart [OF assms(1) bothStart(2-6)] bothStart(1) show ?thesis by simp
next
  case startTwice
  from move_startTwice [OF assms(1) startTwice(2-6)] startTwice(1) show ?thesis by simp
next
  case (slaveReady y)
  from move_slaveReady [OF assms(1) slaveReady(2-6)] slaveReady(1) show ?thesis by simp
next
  case slaveReady2
  from move_slaveReady2 [OF assms(1) slaveReady2(2-6)] slaveReady2(1) show ?thesis by simp
next
  case slaveTwice
  from move_slaveTwice [OF assms(1) slaveTwice(2-6)] slaveTwice(1) show ?thesis by simp
next
  case masterReady
  from move_masterReady [OF assms(1) masterReady(2-5)] masterReady(1) show ?thesis by simp
next
  case slavesTurn
  from move_slavesTurn [OF assms(1) slavesTurn(2-10), of x] slavesTurn(1) show ?thesis by simp
next
  case mastersTurn
  from move_mastersTurn [OF assms(1) mastersTurn(2-8), of x] mastersTurn(1) show ?thesis by simp
next
  case over
  then show ?thesis by simp
qed

section \<open>The exchange\<close>

text \<open>Both have sent their initial packet and wait for the one of the other.\<close>

definition exchangeStarts :: "NbEnv \<Rightarrow> NbEnv \<Rightarrow> DDExchange \<Rightarrow> bool" where
  "exchangeStarts envL envH c \<longleftrightarrow> compatible envL envH \<and>
     atStart (routerID (envArea envH)) (lowSide c) \<and> atStart (routerID (envArea envL)) (highSide c) \<and>
     toLow c = [firstDD envH (ddSequenceNumber (nbOf (highSide c)))] \<and>
     toHigh c = [firstDD envL (ddSequenceNumber (nbOf (lowSide c)))]"

text \<open>This is how an adjacency begins.\<close>

lemma beginAdjacency_starts:
  assumes "nbInv s" "nbState (nbOf s) \<in> {NbInit, NbTwoWay}" "beginAdjacency env s = Inr s'"
  shows "atStart (neighborID (nbOf s)) s' \<and> newDDs s s' = [firstDD env (ddSequenceNumber (nbOf s'))]"
proof -
  have lists: "linkStateRequestList (nbOf s) = []" "databaseSummaryList (nbOf s) = []"
    using assms(1,2) by (auto simp: nbInv_def nbCore_def listsFit_def)
  define t where "t = (if \<not> firstAdjacencyInited (nbOf s) then InitFirstAdjacency s else IncrementDDSequenceNumber s)"
  have t: "nbOut t = nbOut s" "linkStateRequestList (nbOf t) = []" "databaseSummaryList (nbOf t) = []"
    "neighborID (nbOf t) = neighborID (nbOf s)" "nbState (nbOf t) = nbState (nbOf s)"
    using lists by (simp_all add: t_def InitFirstAdjacency_def GetUniqueULong_def IncrementDDSequenceNumber_def
        modify_def)
  let ?u = "SendDatabaseDescriptionPacket True env t"
  have "startExchange env t = Inr s'" using assms(3) by (simp add: beginAdjacency_def t_def)
  then obtain d where s': "s' = ChangeState NbExchangeStart (modify (setTimer DDRetransmissionT (Some d)) ?u)"
    by (auto simp: startExchange_def StartTimer_def checked_def split: if_splits)
  have "nbOut s' = nbOut ?u" using assms(2) t(5) by (auto simp: s' ChangeState_def modify_def Let_def)
  then have "newDDs s s' = newDDs t ?u" using t(1) by (simp add: newDDs_def)
  then show ?thesis using t by (simp add: s' atStart_def sendDD_first)
qed

lemma phase_run:
  assumes "compatible envL envH" "phase envL envH x m c" "(ddStep envL envH ^^ n) c c'"
  shows "\<exists>k. n + k \<le> m \<and> phase envL envH x k c'"
  using assms(3)
proof (induction n arbitrary: c')
  case 0
  then show ?case using assms(2) by (intro exI [of _ m]) simp
next
  case (Suc n)
  then obtain d where d: "(ddStep envL envH ^^ n) c d" "ddStep envL envH d c'" by auto
  from Suc.IH [OF d(1)] obtain k where k: "n + k \<le> m" "phase envL envH x k d" by blast
  have "\<not> exchanged envL envH d" using d(2) by (auto simp: exchanged_def elim: ddStepE)
  with phase_moves [OF assms(1) k(2)] d(2) obtain k' where "k' < k" "phase envL envH x k' c'"
    by (auto simp: moves_def)
  with k(1) show ?case by (intro exI [of _ k']) simp
qed

lemma startRank_bound:
  "startRank envL envH \<le> 2 * max (length (databaseHeaders envL)) (length (databaseHeaders envH)) + 3"
proof -
  obtain hs rest where pg: "page envL (databaseHeaders envL) = (hs, rest)" by fastforce
  obtain hs' rest' where pg': "page envH (databaseHeaders envH) = (hs', rest')" by fastforce
  have "length rest \<le> length (databaseHeaders envL)" "length rest' \<le> length (databaseHeaders envH)"
    using page_length(1) [OF pg] page_length(1) [OF pg'] by simp_all
  then show ?thesis by (auto simp: startRank_def pg pg' max_def)
qed

text \<open>C20: Two routers that begin to exchange their databases over a link that neither loses nor reorders
  packets come to the end of it after at most \<open>2 k + 7\<close> packets, where \<open>k\<close> is the larger number of
  headers, in whatever order the packets of the two directions are taken in. Wherever a run stops, no
  packet is left, each router's request list holds exactly the headers of the other one that are newer
  than what it has itself, and it is in the state Full if there is none and in Loading otherwise.\<close>
theorem dd_exchange_completes:
  assumes "exchangeStarts envL envH c0"
  shows "{n. \<exists>c. (ddStep envL envH ^^ n) c0 c} \<subseteq>
      {..2 * max (length (databaseHeaders envL)) (length (databaseHeaders envH)) + 7} \<and>
    {c. (ddStep envL envH)\<^sup>*\<^sup>* c0 c \<and> (\<nexists>c'. ddStep envL envH c c')} \<subseteq> {c. exchanged envL envH c}"
proof -
  let ?x = "ddSequenceNumber (nbOf (highSide c0))"
  have c: "compatible envL envH" using assms by (simp add: exchangeStarts_def)
  have ph: "phase envL envH ?x (startRank envL envH + 4) c0"
    by (rule phase.bothStart) (use assms in \<open>simp_all add: exchangeStarts_def\<close>)
  have run: "\<exists>k. n + k \<le> startRank envL envH + 4 \<and> phase envL envH ?x k c'"
    if "(ddStep envL envH ^^ n) c0 c'" for n c' using phase_run [OF c ph that] .
  have "n \<le> 2 * max (length (databaseHeaders envL)) (length (databaseHeaders envH)) + 7"
    if "(ddStep envL envH ^^ n) c0 c'" for n c'
    using run [OF that] startRank_bound [of envL envH] by auto
  moreover have "exchanged envL envH c'"
    if reach: "(ddStep envL envH)\<^sup>*\<^sup>* c0 c'" and stop: "\<nexists>d. ddStep envL envH c' d" for c'
  proof -
    obtain n where "(ddStep envL envH ^^ n) c0 c'" using reach by (auto simp: rtranclp_power)
    from run [OF this] obtain k where "phase envL envH ?x k c'" by blast
    from phase_moves [OF c this] stop show ?thesis by (auto simp: moves_def)
  qed
  ultimately show ?thesis by auto
qed

end
