(* ===== verification/OSPF_HelloProps.thy ===== *)
theory OSPF_HelloProps imports OSPF_InterfaceProps OSPF_ExchangeProps
begin

text \<open>
  How two routers on a point-to-point line find each other by Hello packets, until the exchange of their
  databases begins.
\<close>

section \<open>The line\<close>

fun hellosOf :: "IfOutput list \<Rightarrow> (IPAddress \<times> OSPFHelloPacket) list" where
  "hellosOf [] = []"
| "hellosOf (SentHello p destination _ _ # os) = (destination, p) # hellosOf os"
| "hellosOf (_ # os) = hellosOf os"

lemma hellosOf_append [simp]: "hellosOf (xs @ ys) = hellosOf xs @ hellosOf ys"
  by (induction xs rule: hellosOf.induct) simp_all

text \<open>
  The Hello timer of one side expires and the other side takes what was sent. The counter of sequence
  numbers is one for both.
\<close>

definition helloTurn :: "IfEnv \<Rightarrow> IfEnv \<Rightarrow> IfState \<Rightarrow> IfState \<Rightarrow> (IfState \<times> IfState) res" where
  "helloTurn envS envR s r = andThen (HandleIfTimer envS HelloT s) (\<lambda>s'.
     andThen (foldRes (\<lambda>(destination, p). ReceivePacket envR (ifAddress (ifOf s)) destination
         (routerID (ieArea envS)) (HelloPacketOf p))
       (hellosOf (drop (length (ifOut s)) (ifOut s'))) (r\<lparr>ifSeed := ifSeed s'\<rparr>)) (\<lambda>r'.
     Inr (s'\<lparr>ifSeed := ifSeed r'\<rparr>, r')))"

text \<open>Turns of the two sides at any times; \<open>True\<close> stands for the first side.\<close>

fun helloRun :: "IfEnv \<Rightarrow> IfEnv \<Rightarrow> (bool \<times> simtime) list \<Rightarrow> IfState \<times> IfState \<Rightarrow> (IfState \<times> IfState) res" where
  "helloRun envA envB [] c = Inr c"
| "helloRun envA envB ((first, t) # w) (a, b) =
    andThen (if first then helloTurn (envA\<lparr>ieNow := t\<rparr>) (envB\<lparr>ieNow := t\<rparr>) a b
      else andThen (helloTurn (envB\<lparr>ieNow := t\<rparr>) (envA\<lparr>ieNow := t\<rparr>) b a) (\<lambda>(b, a). Inr (a, b)))
    (helloRun envA envB w)"

section \<open>What a side knows\<close>

text \<open>Nothing, that the other side is there, or that the other side has seen it too.\<close>

datatype View = Unseen | Heard | Mutual

text \<open>The one neighbour of the side, and what has been sent to it at the start of the exchange.\<close>

definition facing :: "IfEnv \<Rightarrow> RouterID \<Rightarrow> IPAddress \<Rightarrow> NeighborStateType \<Rightarrow> IfState \<Rightarrow> bool" where
  "facing env rid addr st s \<longleftrightarrow> neighboringRoutersByID (ifOf s) = [rid \<mapsto> 0] \<and>
     (\<exists>n. neighborsOf s = [n] \<and> neighborID n = rid \<and> neighborIPAddress n = addr \<and> nbState n = st \<and>
       (st = NbExchangeStart \<longrightarrow> linkStateRequestList n = [] \<and>
          lastTransmittedDDPacket n = Some (firstDD (nbEnvOf env s) (ddSequenceNumber n))))"

definition onLine :: "IfState \<Rightarrow> bool" where
  "onLine s \<longleftrightarrow> ifInv PointToPoint s \<and> ifState (ifOf s) = IfPointToPoint"

definition knows :: "IfEnv \<Rightarrow> RouterID \<Rightarrow> IPAddress \<Rightarrow> View \<Rightarrow> IfState \<Rightarrow> bool" where
  "knows env rid addr v s \<longleftrightarrow> onLine s \<and>
    (case v of
       Unseen \<Rightarrow> neighborsOf s = [] \<and> neighboringRoutersByID (ifOf s) = Map.empty
     | Heard \<Rightarrow> facing env rid addr NbInit s
     | Mutual \<Rightarrow> facing env rid addr NbExchangeStart s)"

text \<open>What the configuration sets.\<close>

definition settings :: "IfState \<Rightarrow> IPAddress \<times> uint16 \<times> OSPFInterfaceType \<times> int \<times> int" where
  "settings s = (ifAddress (ifOf s), ifMTU (ifOf s), interfaceType (ifOf s), helloInterval s, routerDeadInterval s)"

lemma firstDD_settings: "settings s = settings s' \<Longrightarrow> ieArea env' = ieArea env \<Longrightarrow>
  firstDD (nbEnvOf env s) q = firstDD (nbEnvOf env' s') q"
  by (simp add: settings_def firstDD_def nbEnvOf_def)

lemma facing_cong:
  assumes "ieArea env' = ieArea env"
  shows "facing env' rid addr st s = facing env rid addr st s"
proof -
  have "firstDD (nbEnvOf env' s) q = firstDD (nbEnvOf env s) q" for q
    using assms by (simp add: firstDD_def nbEnvOf_def)
  then show ?thesis by (simp add: facing_def)
qed

lemma knows_cong:
  assumes "ieArea env' = ieArea env"
  shows "knows env' rid addr v s = knows env rid addr v s"
  by (simp only: knows_def facing_cong [OF assms])

lemma facing_move:
  assumes "neighborsOf s' = neighborsOf s" "neighboringRoutersByID (ifOf s') = neighboringRoutersByID (ifOf s)"
    "settings s' = settings s"
  shows "facing env rid addr st s' = facing env rid addr st s"
proof -
  have "firstDD (nbEnvOf env s') q = firstDD (nbEnvOf env s) q" for q
    using assms(3) by (simp add: firstDD_def nbEnvOf_def settings_def)
  then show ?thesis by (simp add: facing_def assms(1,2))
qed

lemma onLine_seed [simp]: "onLine (s\<lparr>ifSeed := q\<rparr>) = onLine s"
  by (simp add: onLine_def ifInv_def neighborsFit_def ifTimersFit_def rolesFit_def)

lemma knows_seed [simp]: "knows env rid addr v (s\<lparr>ifSeed := q\<rparr>) = knows env rid addr v s"
  using facing_move [of "s\<lparr>ifSeed := q\<rparr>" s] by (simp add: knows_def settings_def split: View.splits)

lemma settings_seed [simp]: "settings (s\<lparr>ifSeed := q\<rparr>) = settings s"
  by (simp add: settings_def)

section \<open>Sending\<close>

lemma hello_sent:
  assumes "knows env rid addr v s"
  shows "\<exists>s'. HandleIfTimer env HelloT s = Inr s' \<and> knows env rid addr v s' \<and> settings s' = settings s \<and>
    ifSeed s' = ifSeed s \<and>
    hellosOf (drop (length (ifOut s)) (ifOut s')) = [(AllSPFRouters, helloPacket env s)]"
proof -
  let ?s = "s\<lparr>helloTimer := Some (ieNow env + of_int (helloInterval s)),
     ifOut := ifOut s @ [SentHello (helloPacket env s) AllSPFRouters (ifIndex (ifOf s)) 1]\<rparr>"
  have hello: "helloPacket env (s\<lparr>helloTimer := None\<rparr>) = helloPacket env s"
    by (simp add: helloPacket_def Let_def)
  have p: "ifState (ifOf s) = IfPointToPoint" "interfaceType (ifOf s) = PointToPoint"
    using assms by (auto simp: knows_def onLine_def ifInv_def)
  then have step: "HandleIfTimer env HelloT s = Inr ?s"
    using hello by (simp add: HandleIfTimer_def if_event_defs helloTo_def StartIfTimer_def SendHello_def emitIf_def)
  have "ifInv PointToPoint s" using assms by (simp add: knows_def onLine_def)
  moreover have "helloTimer s \<noteq> None" using assms by (auto simp: knows_def onLine_def ifInv_def ifTimersFit_def)
  ultimately have "ifInv PointToPoint ?s"
    using HandleIfTimer_inv [of PointToPoint s HelloT "\<lambda>_. False" env] step by simp
  moreover have "facing env rid addr st ?s = facing env rid addr st s" for st
    by (rule facing_move) (simp_all add: settings_def)
  ultimately have "knows env rid addr v ?s"
    using assms by (simp add: knows_def onLine_def split: View.splits)
  with step show ?thesis by (simp add: settings_def)
qed

text \<open>The packet lists the other side exactly if that has been heard.\<close>

lemma hello_lists:
  assumes "knows env rid addr v s"
  shows "hpNeighbors (helloPacket env s) = (if v = Unseen then [] else [addr])"
  using assms by (cases v) (auto simp: knows_def facing_def helloPacket_def Let_def)

section \<open>Receiving\<close>

text \<open>On the line news do not lead to an election.\<close>

lemma spreadNews_line:
  assumes "ifState (ifOf s) = IfPointToPoint" "\<forall>n\<in>set (neighborsOf s). nbState n \<noteq> NbTwoWay"
  shows "\<exists>os. spreadNews env news s = Inr (emitIf os s)"
proof -
  have "foldRes (\<lambda>k s. if nbState (neighborsOf s ! k) = NbTwoWay then raise env IsAdjacencyOK k s else Inr s) ks s
      = Inr s" if "set ks \<subseteq> {..<length (neighborsOf s)}" for ks
    using that by (induction ks) (use assms(2) in auto)
  then have "unstickNeighbors env s = Inr s"
    by (simp add: unstickNeighbors_def eachNeighbor_def lessThan_atLeast0)
  moreover have "emitIf [] s = s" by (simp add: emitIf_def)
  ultimately show ?thesis using assms(1)
    by (auto simp: spreadNews_def if_event_defs intro: exI [of _ "[]"] exI [of _ "[RenewRouterLSACall]"])
qed

text \<open>The events of a neighbour that Hello packets raise.\<close>

lemma hello_event:
  assumes "nbInv u" "nbState (nbOf u) \<in> {NbDown, NbInit, NbExchangeStart}"
  shows "\<exists>t. ProcessEvent e HelloReceived u = Inr t \<and> nbInv t \<and>
    nbState (nbOf t) = (if nbState (nbOf u) = NbDown then NbInit else nbState (nbOf u)) \<and>
    neighborID (nbOf t) = neighborID (nbOf u) \<and> neighborIPAddress (nbOf t) = neighborIPAddress (nbOf u) \<and>
    linkStateRequestList (nbOf t) = linkStateRequestList (nbOf u) \<and>
    ddSequenceNumber (nbOf t) = ddSequenceNumber (nbOf u) \<and>
    lastTransmittedDDPacket (nbOf t) = lastTransmittedDDPacket (nbOf u)"
proof -
  have "yields (ProcessEvent e HelloReceived u) nbInv"
    by (rule nbInv_raised [OF assms(1)]) (simp add: raisedOutside_def)
  then obtain t where t: "ProcessEvent e HelloReceived u = Inr t" "nbInv t" by (auto simp: yields_iff)
  with assms(2) show ?thesis
    by (auto simp: ProcessEvent_def DownProcessEvent_def InitProcessEvent_def ExchangeStartProcessEvent_def
        commonProcessEvent_def restartInactivity_def StartTimer_def checked_def split: if_splits)
qed

lemma twoWay_event:
  assumes "nbInv u" "nbState (nbOf u) = NbInit" "interfaceType (envInterface e) = PointToPoint"
  shows "\<exists>t. ProcessEvent e TwoWayReceived u = Inr t \<and> nbInv t \<and> nbState (nbOf t) = NbExchangeStart \<and>
    neighborID (nbOf t) = neighborID (nbOf u) \<and> neighborIPAddress (nbOf t) = neighborIPAddress (nbOf u) \<and>
    linkStateRequestList (nbOf t) = [] \<and>
    lastTransmittedDDPacket (nbOf t) = Some (firstDD e (ddSequenceNumber (nbOf t)))"
proof -
  have "yields (ProcessEvent e TwoWayReceived u) nbInv"
    by (rule nbInv_raised [OF assms(1)]) (simp add: raisedOutside_def)
  then obtain t where t: "ProcessEvent e TwoWayReceived u = Inr t" "nbInv t" by (auto simp: yields_iff)
  then have begins: "beginAdjacency e u = Inr t"
    using assms(2,3) by (simp add: ProcessEvent_def InitProcessEvent_def NeedAdjacency_def)
  define u' where "u' = (if \<not> firstAdjacencyInited (nbOf u) then InitFirstAdjacency u else IncrementDDSequenceNumber u)"
  obtain d where d: "t = ChangeState NbExchangeStart (modify (setTimer DDRetransmissionT (Some d))
      (SendDatabaseDescriptionPacket True e u'))"
    using begins by (auto simp: beginAdjacency_def startExchange_def StartTimer_def checked_def u'_def split: if_splits)
  have "linkStateRequestList (nbOf u) = []" using assms(1,2) by (simp add: nb_inv_defs)
  with t d show ?thesis
    by (simp add: SendDatabaseDescriptionPacket_def firstDD_def u'_def nb_update_defs split: prod.splits)
qed

lemma twoWay_again: "nbState (nbOf u) = NbExchangeStart \<Longrightarrow> ProcessEvent e TwoWayReceived u = Inr u"
  by (simp add: ProcessEvent_def ExchangeStartProcessEvent_def commonProcessEvent_def)

lemma oneWay_event:
  assumes "nbInv u" "nbState (nbOf u) \<in> {NbInit, NbExchangeStart}"
  shows "\<exists>t. ProcessEvent e OneWayReceived u = Inr t \<and> nbInv t \<and> nbState (nbOf t) = NbInit \<and>
    neighborID (nbOf t) = neighborID (nbOf u) \<and> neighborIPAddress (nbOf t) = neighborIPAddress (nbOf u)"
proof -
  have "yields (ProcessEvent e OneWayReceived u) nbInv"
    by (rule nbInv_raised [OF assms(1)]) (simp add: raisedOutside_def)
  then obtain t where t: "ProcessEvent e OneWayReceived u = Inr t" "nbInv t" by (auto simp: yields_iff)
  with assms(2) show ?thesis
    by (auto simp: ProcessEvent_def InitProcessEvent_def ExchangeStartProcessEvent_def commonProcessEvent_def
        oneWay_def)
qed

lemma onLine_fits:
  assumes "onLine s" "facing env rid addr st s"
  shows "nbInv (nbStateOf 0 s)" "nbState (nbOf (nbStateOf 0 s)) = st"
    "neighborID (nbOf (nbStateOf 0 s)) = rid" "neighborIPAddress (nbOf (nbStateOf 0 s)) = addr"
    "interfaceType (envInterface (nbEnvOf env s)) = PointToPoint"
proof -
  have "keeps s s" using assms(1) by (simp add: onLine_def ifInv_def keeps_refl)
  from nbInv_nbStateOf [OF this, of 0] show "nbInv (nbStateOf 0 s)" using assms(2) by (auto simp: facing_def)
qed (use assms in \<open>auto simp: facing_def onLine_def ifInv_def nbStateOf_def nbEnvOf_def\<close>)

lemma raise_facing:
  assumes "onLine s" "facing env rid addr st s"
    and t: "ProcessEvent (nbEnvOf env s) ev (nbStateOf 0 s) = Inr t" "nbInv t" "nbState (nbOf t) = st'"
    "neighborID (nbOf t) = rid" "neighborIPAddress (nbOf t) = addr"
    and start: "st' = NbExchangeStart \<Longrightarrow> linkStateRequestList (nbOf t) = [] \<and>
      lastTransmittedDDPacket (nbOf t) = Some (firstDD (nbEnvOf env s) (ddSequenceNumber (nbOf t)))"
  shows "\<exists>s'. raise env ev 0 s = Inr s' \<and> onLine s' \<and> facing env rid addr st' s' \<and> settings s' = settings s"
proof -
  let ?s = "backFrom env 0 s t"
  obtain n where n: "neighborsOf s = [n]" using assms(2) by (auto simp: facing_def)
  have "keeps s ?s" using assms(1) t(2) by (intro keeps_backFrom) (simp_all add: onLine_def ifInv_def keeps_refl)
  then have "onLine ?s" using assms(1) keeps_ifInv [of s ?s PointToPoint]
    by (simp add: onLine_def backFrom_def)
  moreover have same: "settings ?s = settings s" by (simp add: settings_def backFrom_def)
  moreover have "firstDD (nbEnvOf env ?s) q = firstDD (nbEnvOf env s) q" for q
    using same by (simp add: firstDD_def nbEnvOf_def settings_def)
  then have "facing env rid addr st' ?s"
    using assms(2) t(3-5) start n by (auto simp: facing_def backFrom_def)
  moreover have "raise env ev 0 s = Inr ?s" using t(1) by (simp add: raise_def onNeighbor_def)
  ultimately show ?thesis by blast
qed

lemma answerHello_line:
  assumes "onLine s" "facing env rid addr st s" "st \<in> {NbDown, NbInit, NbExchangeStart}"
  shows "\<exists>s'. answerHello env p 0 s = Inr s' \<and> onLine s' \<and> settings s' = settings s \<and>
    facing env rid addr (if ifAddress (ifOf s) \<in> set (hpNeighbors p) then NbExchangeStart else NbInit) s'"
proof -
  note fits = onLine_fits [OF assms(1,2)]
  let ?st = "if st = NbDown then NbInit else st"
  obtain t where t: "ProcessEvent (nbEnvOf env s) HelloReceived (nbStateOf 0 s) = Inr t" "nbInv t"
    "nbState (nbOf t) = ?st" "neighborID (nbOf t) = rid" "neighborIPAddress (nbOf t) = addr"
    "linkStateRequestList (nbOf t) = linkStateRequestList (nbOf (nbStateOf 0 s))"
    "ddSequenceNumber (nbOf t) = ddSequenceNumber (nbOf (nbStateOf 0 s))"
    "lastTransmittedDDPacket (nbOf t) = lastTransmittedDDPacket (nbOf (nbStateOf 0 s))"
    using hello_event [OF fits(1), of "nbEnvOf env s"] assms(3) fits by auto
  have "linkStateRequestList (nbOf t) = [] \<and>
      lastTransmittedDDPacket (nbOf t) = Some (firstDD (nbEnvOf env s) (ddSequenceNumber (nbOf t)))"
    if "?st = NbExchangeStart"
    using that assms(2) t(6-8) by (auto simp: facing_def nbStateOf_def split: if_splits)
  from raise_facing [OF assms(1,2) t(1-5) this] obtain s1 where
    s1: "raise env HelloReceived 0 s = Inr s1" "onLine s1" "facing env rid addr ?st s1" "settings s1 = settings s"
    by blast
  note fits1 = onLine_fits [OF s1(2,3)]
  have st: "?st = NbInit \<or> ?st = NbExchangeStart" using assms(3) by auto
  have two: "\<exists>s'. raise env TwoWayReceived 0 s1 = Inr s' \<and> onLine s' \<and> facing env rid addr NbExchangeStart s' \<and>
      settings s' = settings s1"
  proof (cases "?st = NbInit")
    case True
    obtain t where t: "ProcessEvent (nbEnvOf env s1) TwoWayReceived (nbStateOf 0 s1) = Inr t" "nbInv t"
      "nbState (nbOf t) = NbExchangeStart" "neighborID (nbOf t) = rid" "neighborIPAddress (nbOf t) = addr"
      "linkStateRequestList (nbOf t) = [] \<and>
       lastTransmittedDDPacket (nbOf t) = Some (firstDD (nbEnvOf env s1) (ddSequenceNumber (nbOf t)))"
      using twoWay_event [OF fits1(1) _ fits1(5)] fits1(2-4) True by auto
    from raise_facing [OF s1(2,3) t] show ?thesis .
  next
    case False
    then have start: "?st = NbExchangeStart" using st by blast
    then have "ProcessEvent (nbEnvOf env s1) TwoWayReceived (nbStateOf 0 s1) = Inr (nbStateOf 0 s1)"
      using fits1(2) by (intro twoWay_again) simp
    moreover have "linkStateRequestList (nbOf (nbStateOf 0 s1)) = [] \<and> lastTransmittedDDPacket (nbOf (nbStateOf 0 s1)) =
        Some (firstDD (nbEnvOf env s1) (ddSequenceNumber (nbOf (nbStateOf 0 s1))))"
      using s1(3) unfolding start by (auto simp: facing_def nbStateOf_def)
    moreover have "nbState (nbOf (nbStateOf 0 s1)) = NbExchangeStart" using fits1(2) start by simp
    ultimately show ?thesis
      using raise_facing [OF s1(2,3) _ fits1(1) _ fits1(3,4), of TwoWayReceived NbExchangeStart] by simp
  qed
  have one: "\<exists>s'. raise env OneWayReceived 0 s1 = Inr s' \<and> onLine s' \<and> facing env rid addr NbInit s' \<and>
      settings s' = settings s1"
  proof -
    obtain t where t: "ProcessEvent (nbEnvOf env s1) OneWayReceived (nbStateOf 0 s1) = Inr t" "nbInv t"
      "nbState (nbOf t) = NbInit" "neighborID (nbOf t) = rid" "neighborIPAddress (nbOf t) = addr"
      using oneWay_event [OF fits1(1), of "nbEnvOf env s1"] fits1(2-4) st by auto
    from raise_facing [OF s1(2,3) t] show ?thesis by simp
  qed
  have "interfaceType (ifOf s1) = PointToPoint" using s1(2) by (simp add: onLine_def ifInv_def)
  then have "answerHello env p 0 s =
      raise env (if ifAddress (ifOf s1) \<in> set (hpNeighbors p) then TwoWayReceived else OneWayReceived) 0 s1"
    using s1(1) by (simp add: answerHello_def)
  moreover have "ifAddress (ifOf s1) = ifAddress (ifOf s)" using s1(4) by (simp add: settings_def)
  ultimately show ?thesis using one two s1(4) by auto
qed

text \<open>The neighbour of a Hello packet is the one that is known, or a new one.\<close>

definition stateFor :: "View \<Rightarrow> NeighborStateType" where
  "stateFor v = (case v of Unseen \<Rightarrow> NbDown | Heard \<Rightarrow> NbInit | Mutual \<Rightarrow> NbExchangeStart)"

lemma helloNeighbor_line:
  assumes "knows env rid addr v s"
  shows "\<exists>news intf. helloNeighbor addr rid p (ifOf s) = (0, news, intf) \<and> onLine (s\<lparr>ifOf := intf\<rparr>) \<and>
    facing env rid addr (stateFor v) (s\<lparr>ifOf := intf\<rparr>) \<and> settings (s\<lparr>ifOf := intf\<rparr>) = settings s"
proof -
  have inv: "ifInv PointToPoint s" and p2p: "interfaceType (ifOf s) = PointToPoint" "ifState (ifOf s) = IfPointToPoint"
    using assms by (auto simp: knows_def onLine_def ifInv_def)
  obtain k news intf where h: "helloNeighbor addr rid p (ifOf s) = (k, news, intf)"
    by (cases "helloNeighbor addr rid p (ifOf s)")
  note fit = helloNeighbor_inv [OF inv h]
  let ?s = "s\<lparr>ifOf := intf\<rparr>"
  have all: "k = 0 \<and> settings ?s = settings s \<and> ifState intf = IfPointToPoint \<and>
      facing env rid addr (stateFor v) ?s"
  proof (cases "v = Unseen")
    case True
    then have "neighborsOf s = []" "neighboringRoutersByID (ifOf s) = Map.empty" using assms by (auto simp: knows_def)
    with True h p2p show ?thesis
      by (auto simp: helloNeighbor_def bySourceAddress_def addedNeighbor_def AddNeighbor_def Let_def
          facing_def stateFor_def settings_def newNeighbor_def)
  next
    case False
    then have f: "facing env rid addr (stateFor v) s" using assms by (cases v) (auto simp: knows_def stateFor_def)
    then have known: "k = 0" "intf = snd (knownNeighbor addr rid p 0 (ifOf s))"
      using h p2p by (auto simp: helloNeighbor_def bySourceAddress_def facing_def)
    obtain n where n: "neighborsOf s = [n]" "nbState n = stateFor v" using f by (auto simp: facing_def)
    have same: "settings ?s = settings s" "ifState intf = IfPointToPoint"
      "neighboringRoutersByID intf = neighboringRoutersByID (ifOf s)"
      using p2p by (simp_all add: known(2) settings_def knownNeighbor_def updateNeighbor_def)
    have "firstDD (nbEnvOf env ?s) q = firstDD (nbEnvOf env s) q" for q
      using same(1) by (simp add: firstDD_def nbEnvOf_def settings_def)
    moreover have "neighboringRouters intf = [setUpRouters (updateNeighbor 0 (\<lambda>intf. takeHello intf addr rid p) (ifOf s))
        p (takeHello (ifOf s) addr rid p n)]"
      by (simp add: known(2) knownNeighbor_def updateNeighbor_def n(1))
    moreover have "nbState (setUpRouters i p (takeHello i' addr rid p n)) = nbState n"
      "neighborID (setUpRouters i p (takeHello i' addr rid p n)) = rid"
      "neighborIPAddress (setUpRouters i p (takeHello i' addr rid p n)) = addr"
      "linkStateRequestList (setUpRouters i p (takeHello i' addr rid p n)) = linkStateRequestList n"
      "lastTransmittedDDPacket (setUpRouters i p (takeHello i' addr rid p n)) = lastTransmittedDDPacket n"
      "ddSequenceNumber (setUpRouters i p (takeHello i' addr rid p n)) = ddSequenceNumber n" for i i'
      by (simp_all add: setUpRouters_def takeHello_def Let_def)
    ultimately show ?thesis using f n same known(1) by (simp add: facing_def)
  qed
  with fit h show ?thesis by (auto simp: onLine_def)
qed

lemma hello_received:
  assumes "knows env rid addr v s" "rid \<noteq> routerID (ieArea env)" "helloAccepted env p s"
  shows "\<exists>s'. ReceivePacket env addr AllSPFRouters rid (HelloPacketOf p) s = Inr s' \<and> settings s' = settings s \<and>
    knows env rid addr (if ifAddress (ifOf s) \<in> set (hpNeighbors p) then Mutual else Heard) s'"
proof -
  obtain news intf where h: "helloNeighbor addr rid p (ifOf s) = (0, news, intf)" "onLine (s\<lparr>ifOf := intf\<rparr>)"
    "facing env rid addr (stateFor v) (s\<lparr>ifOf := intf\<rparr>)" "settings (s\<lparr>ifOf := intf\<rparr>) = settings s"
    using helloNeighbor_line [OF assms(1)] by blast
  let ?listed = "ifAddress (ifOf s) \<in> set (hpNeighbors p)"
  let ?st = "if ?listed then NbExchangeStart else NbInit"
  have "stateFor v \<in> {NbDown, NbInit, NbExchangeStart}" by (cases v) (simp_all add: stateFor_def)
  from answerHello_line [OF h(2,3) this, of p] obtain t where
    t: "answerHello env p 0 (s\<lparr>ifOf := intf\<rparr>) = Inr t" "onLine t" "settings t = settings s"
    "facing env rid addr ?st t"
    using h(4) by (auto simp: settings_def)
  have "\<forall>n\<in>set (neighborsOf t). nbState n \<noteq> NbTwoWay"
    using t(4) by (auto simp: facing_def split: if_splits)
  with t(2) obtain os where os: "spreadNews env news t = Inr (emitIf os t)"
    using spreadNews_line [of t env news] by (auto simp: onLine_def)
  let ?s = "emitIf os t"
  have same: "settings ?s = settings t" by (simp add: settings_def emitIf_def)
  have "facing env rid addr ?st ?s" using facing_move [OF _ _ same] t(4) by simp
  moreover have "onLine ?s"
    using t(2) by (simp add: onLine_def ifInv_def neighborsFit_def ifTimersFit_def rolesFit_def)
  ultimately have "knows env rid addr (if ?listed then Mutual else Heard) ?s"
    by (cases ?listed) (simp_all add: knows_def)
  moreover have "ReceivePacket env addr AllSPFRouters rid (HelloPacketOf p) s = Inr ?s"
    using assms(2,3) h(1) t(1) os
    by (simp add: ReceivePacket_def HelloHandler_def addressedTo_def AllSPFRouters_def AllDRouters_def)
  ultimately show ?thesis using t(3) same by (intro exI [of _ ?s]) simp
qed

section \<open>The sides meet\<close>

text \<open>Both sides are configured alike, and no router hears itself.\<close>

definition alike :: "IfEnv \<Rightarrow> IfEnv \<Rightarrow> IfState \<Rightarrow> IfState \<Rightarrow> bool" where
  "alike envA envB a b \<longleftrightarrow> routerID (ieArea envA) \<noteq> routerID (ieArea envB) \<and>
     helloInterval a = helloInterval b \<and> routerDeadInterval a = routerDeadInterval b \<and>
     externalRoutingCapability (ieArea envA) = externalRoutingCapability (ieArea envB)"

lemma alike_sym: "alike envA envB a b \<Longrightarrow> alike envB envA b a"
  by (auto simp: alike_def)

lemma alike_accepted:
  "alike envS envR s r \<Longrightarrow> interfaceType (ifOf r) = PointToPoint \<Longrightarrow> helloAccepted envR (helloPacket envS s) r"
  by (simp add: alike_def helloAccepted_def helloPacket_def zeroOptions_def Let_def)

definition linked :: "IfEnv \<Rightarrow> IfEnv \<Rightarrow> View \<Rightarrow> View \<Rightarrow> IfState \<times> IfState \<Rightarrow> bool" where
  "linked envA envB va vb c \<longleftrightarrow> alike envA envB (fst c) (snd c) \<and>
     knows envA (routerID (ieArea envB)) (ifAddress (ifOf (snd c))) va (fst c) \<and>
     knows envB (routerID (ieArea envA)) (ifAddress (ifOf (fst c))) vb (snd c)"

definition viewAfter :: "View \<Rightarrow> View" where
  "viewAfter v = (if v = Unseen then Heard else Mutual)"

lemma turn_linked:
  assumes "linked envS envR vs vr (s, r)"
  shows "\<exists>s' r'. helloTurn envS envR s r = Inr (s', r') \<and> linked envS envR vs (viewAfter vs) (s', r') \<and>
    settings s' = settings s \<and> settings r' = settings r"
proof -
  from assms have k: "alike envS envR s r" "knows envS (routerID (ieArea envR)) (ifAddress (ifOf r)) vs s"
    "knows envR (routerID (ieArea envS)) (ifAddress (ifOf s)) vr r" by (simp_all add: linked_def)
  obtain s' where s': "HandleIfTimer envS HelloT s = Inr s'" "knows envS (routerID (ieArea envR)) (ifAddress (ifOf r)) vs s'"
    "settings s' = settings s" "hellosOf (drop (length (ifOut s)) (ifOut s')) = [(AllSPFRouters, helloPacket envS s)]"
    using hello_sent [OF k(2)] by blast
  let ?r = "r\<lparr>ifSeed := ifSeed s'\<rparr>"
  have "interfaceType (ifOf r) = PointToPoint" using k(3) by (auto simp: knows_def onLine_def ifInv_def)
  then have acc: "helloAccepted envR (helloPacket envS s) ?r"
    using alike_accepted [OF k(1)] by (simp add: helloAccepted_def)
  have kr: "knows envR (routerID (ieArea envS)) (ifAddress (ifOf s)) vr ?r" using k(3) by simp
  have ne: "routerID (ieArea envS) \<noteq> routerID (ieArea envR)" using k(1) by (simp add: alike_def)
  obtain r' where
    r': "ReceivePacket envR (ifAddress (ifOf s)) AllSPFRouters (routerID (ieArea envS)) (HelloPacketOf (helloPacket envS s)) ?r = Inr r'"
    "settings r' = settings r"
    "knows envR (routerID (ieArea envS)) (ifAddress (ifOf s))
      (if ifAddress (ifOf r) \<in> set (hpNeighbors (helloPacket envS s)) then Mutual else Heard) r'"
    using hello_received [OF kr ne acc] by auto
  have "(if ifAddress (ifOf r) \<in> set (hpNeighbors (helloPacket envS s)) then Mutual else Heard) = viewAfter vs"
    using hello_lists [OF k(2)] by (simp add: viewAfter_def)
  with r'(2,3) s'(2,3) k(1) have "linked envS envR vs (viewAfter vs) (s'\<lparr>ifSeed := ifSeed r'\<rparr>, r')"
    by (simp add: linked_def alike_def settings_def)
  moreover have "helloTurn envS envR s r = Inr (s'\<lparr>ifSeed := ifSeed r'\<rparr>, r')"
    using s'(1,4) r'(1) by (simp add: helloTurn_def)
  ultimately show ?thesis using r'(2) s'(3) by auto
qed

text \<open>How often the turn goes from one side to the other.\<close>

fun changes :: "bool list \<Rightarrow> nat" where
  "changes (x # y # w) = (if x \<noteq> y then 1 else 0) + changes (y # w)"
| "changes _ = 0"

fun viewsAfter :: "bool list \<Rightarrow> View \<times> View \<Rightarrow> View \<times> View" where
  "viewsAfter [] c = c"
| "viewsAfter (first # w) (va, vb) = viewsAfter w (if first then (va, viewAfter va) else (viewAfter vb, vb))"

lemma viewsAfter_mutual: "viewsAfter w (Mutual, Mutual) = (Mutual, Mutual)"
  by (induction w) (simp_all add: viewAfter_def)

lemma viewsAfter_second:
  "1 \<le> changes (x # w) \<Longrightarrow> viewsAfter w (if x then (Heard, Mutual) else (Mutual, Heard)) = (Mutual, Mutual)"
proof (induction w arbitrary: x)
  case (Cons y w)
  show ?case
  proof (cases "y = x")
    case True
    with Cons.IH [of x] Cons.prems show ?thesis by (cases x) (simp_all add: viewAfter_def)
  next
    case False
    then show ?thesis by (cases x) (simp_all add: viewAfter_def viewsAfter_mutual)
  qed
qed simp

lemma viewsAfter_first:
  "2 \<le> changes (x # w) \<Longrightarrow> viewsAfter w (if x then (Unseen, Heard) else (Heard, Unseen)) = (Mutual, Mutual)"
proof (induction w arbitrary: x)
  case (Cons y w)
  show ?case
  proof (cases "y = x")
    case True
    with Cons.IH [of x] Cons.prems show ?thesis by (cases x) (simp_all add: viewAfter_def)
  next
    case False
    with Cons.prems have "1 \<le> changes (y # w)" by simp
    from viewsAfter_second [OF this] False show ?thesis by (cases x) (simp_all add: viewAfter_def)
  qed
qed simp

lemma views_meet: "2 \<le> changes w \<Longrightarrow> viewsAfter w (Unseen, Unseen) = (Mutual, Mutual)"
proof (cases w)
  case (Cons x w')
  moreover assume "2 \<le> changes w"
  ultimately show ?thesis using viewsAfter_first [of x w'] by (cases x) (simp_all add: viewAfter_def)
qed simp

lemma linked_cong:
  assumes "ieArea envA' = ieArea envA" "ieArea envB' = ieArea envB"
  shows "linked envA' envB' va vb c = linked envA envB va vb c"
  unfolding linked_def alike_def knows_cong [OF assms(1)] knows_cong [OF assms(2)] assms ..

lemma linked_swap: "linked envA envB va vb (a, b) \<longleftrightarrow> linked envB envA vb va (b, a)"
  by (auto simp: linked_def alike_def)

lemma run_linked:
  assumes "linked envA envB va vb (a, b)" "viewsAfter (map fst w) (va, vb) = (va', vb')"
  shows "\<exists>a' b'. helloRun envA envB w (a, b) = Inr (a', b') \<and> linked envA envB va' vb' (a', b') \<and>
     settings a' = settings a \<and> settings b' = settings b"
  using assms
proof (induction w arbitrary: va vb a b)
  case (Cons x w)
  obtain first t where x: "x = (first, t)" by (cases x)
  note at = linked_cong [of "envA\<lparr>ieNow := t\<rparr>" envA "envB\<lparr>ieNow := t\<rparr>" envB]
  show ?case
  proof (cases first)
    case True
    obtain a1 b1 where t1: "helloTurn (envA\<lparr>ieNow := t\<rparr>) (envB\<lparr>ieNow := t\<rparr>) a b = Inr (a1, b1)"
      "linked envA envB va (viewAfter va) (a1, b1)" "settings a1 = settings a" "settings b1 = settings b"
      using turn_linked [of "envA\<lparr>ieNow := t\<rparr>" "envB\<lparr>ieNow := t\<rparr>" va vb a b] Cons.prems(1) at by auto
    have "viewsAfter (map fst w) (va, viewAfter va) = (va', vb')" using Cons.prems(2) True by (simp add: x)
    from Cons.IH [OF t1(2) this] t1 True show ?thesis by (simp add: x)
  next
    case False
    note at' = linked_cong [of "envB\<lparr>ieNow := t\<rparr>" envB "envA\<lparr>ieNow := t\<rparr>" envA]
    obtain a1 b1 where t1: "helloTurn (envB\<lparr>ieNow := t\<rparr>) (envA\<lparr>ieNow := t\<rparr>) b a = Inr (b1, a1)"
      "linked envB envA vb (viewAfter vb) (b1, a1)" "settings a1 = settings a" "settings b1 = settings b"
      using turn_linked [of "envB\<lparr>ieNow := t\<rparr>" "envA\<lparr>ieNow := t\<rparr>" vb va b a] Cons.prems(1) at' linked_swap by auto
    have "viewsAfter (map fst w) (viewAfter vb, vb) = (va', vb')" using Cons.prems(2) False by (simp add: x)
    from Cons.IH [OF linked_swap [THEN iffD1, OF t1(2)] this] t1 False show ?thesis by (simp add: x)
  qed
qed simp

section \<open>The exchange begins\<close>

definition resent :: "IfEnv \<Rightarrow> IfState \<Rightarrow> NbState" where
  "resent env s = snd (RetransmitDatabaseDescriptionPacket (nbEnvOf env s) (nbStateOf 0 s))"

text \<open>The first packets of both sides are on the line when their timers repeat them.\<close>

definition exchangeOf :: "IfEnv \<Rightarrow> IfEnv \<Rightarrow> IfState \<Rightarrow> IfState \<Rightarrow> DDExchange" where
  "exchangeOf envA envB a b = \<lparr>lowSide = resent envA a, highSide = resent envB b,
     toLow = newDDs (nbStateOf 0 b) (resent envB b), toHigh = newDDs (nbStateOf 0 a) (resent envA a)\<rparr>"

lemma resent_starts:
  assumes "knows env rid addr Mutual s"
  shows "atStart rid (resent env s) \<and> newDDs (nbStateOf 0 s) (resent env s) =
    [firstDD (nbEnvOf env s) (ddSequenceNumber (nbOf (resent env s)))]"
proof -
  have "neighborFits n" if "n \<in> set (neighborsOf s)" for n
    using assms that by (auto simp: knows_def onLine_def ifInv_def neighborsFit_def)
  with assms show ?thesis
    by (auto simp: knows_def facing_def resent_def nbStateOf_def RetransmitDatabaseDescriptionPacket_def
        sendToNeighbor_def emit_def atStart_def newDDs_def Let_def neighborFits_def listsFit_def)
qed

lemma compatible_settings:
  assumes "settings a' = settings a" "settings b' = settings b" "compatible (nbEnvOf envA a) (nbEnvOf envB b)"
  shows "compatible (nbEnvOf envA a') (nbEnvOf envB b')"
proof -
  have "databaseHeaders (nbEnvOf env s') = databaseHeaders (nbEnvOf env s)"
    "ddMTU (nbEnvOf env s') = ddMTU (nbEnvOf env s)"
    "ifMTU (envInterface (nbEnvOf env s')) = ifMTU (envInterface (nbEnvOf env s))"
    "envArea (nbEnvOf env s') = envArea (nbEnvOf env s)"
    "headerAccepted (nbEnvOf env s') = headerAccepted (nbEnvOf env s)"
    if "settings s' = settings s" for env s s'
    using that by (simp_all add: settings_def databaseHeaders_def ddMTU_def nbEnvOf_def headerAccepted_def
        fun_eq_iff Let_def)
  from this [OF assms(1), of envA] this [OF assms(2), of envB] assms(3) show ?thesis
    by (simp add: compatible_def accepts_def)
qed


end
