(* ===== verification/OSPF_FloodProps.thy ===== *)
theory OSPF_FloodProps imports OSPF_InterfaceProps
begin

text \<open>Which neighbours of an interface an LSA is flooded to, and when it is sent.\<close>

lemma andThen_Inr [simp]: "andThen r Inr = r"
  by (cases r) simp_all

lemma foldRes_snoc: "foldRes f (xs @ [y]) z = andThen (foldRes f xs z) (f y)"
proof (induction xs arbitrary: z)
  case Nil
  have "foldRes f [] = Inr" by (rule ext) simp
  then show ?case by simp
next
  case (Cons x xs)
  have "foldRes f (xs @ [y]) = (\<lambda>z. andThen (foldRes f xs z) (f y))" using Cons.IH by blast
  then show ?case by (simp add: andThen_assoc)
qed

section \<open>One neighbour\<close>

text \<open>The neighbour takes part in the exchange and is not known to have the LSA or a newer one.\<close>

definition lacksLSA :: "OSPFLSA \<Rightarrow> Neighbor \<Rightarrow> bool" where
  "lacksLSA l n \<longleftrightarrow> nbState n \<in> {NbExchange, NbLoading, NbFull} \<and>
     (nbState n \<noteq> NbFull \<longrightarrow> (case FindOnRequestList (lsaKey (lsaHeader l)) n of None \<Rightarrow> True
        | Some r \<Rightarrow> \<not> lsaOlder (lsaHeader l) r \<and> \<not> lsaSameAge (lsaHeader l) r))"

fun isUpdate :: "OspfOutput \<Rightarrow> bool" where
  "isUpdate (SendPacket (LSUpdate _) _ _ _) \<longleftrightarrow> True"
| "isUpdate _ \<longleftrightarrow> False"

lemma RemoveFromRequestList_effect:
  assumes "nbInv s" "nbState (nbOf s) \<in> {NbExchange, NbLoading}"
  shows "\<exists>t. RemoveFromRequestList env k s = Inr t \<and>
    linkStateRetransmissionList (nbOf t) = linkStateRetransmissionList (nbOf s) \<and>
    neighborID (nbOf t) = neighborID (nbOf s) \<and>
    updateRetransmissionTimerActive (nbOf t) = updateRetransmissionTimerActive (nbOf s) \<and>
    (\<exists>os. nbOut t = nbOut s @ os \<and> filter isUpdate os = [])"
proof -
  obtain t where t: "RemoveFromRequestList env k s = Inr t"
    using RemoveFromRequestList_inv [OF assms, of env k] by (auto simp: yields_iff)
  then show ?thesis using assms(2)
    by (auto simp: RemoveFromRequestList_def ProcessEvent_def LoadingProcessEvent_def nb_update_defs split: if_splits)
qed

lemma floodToNeighbor_effect:
  assumes "nbInv s"
  shows "\<exists>t. floodToNeighbor env l isSender s = Inr (lacksLSA l (nbOf s) \<and> \<not> isSender, t) \<and> nbInv t \<and>
    linkStateRetransmissionList (nbOf t) =
      (if lacksLSA l (nbOf s) \<and> \<not> isSender then replaceOrAppend l (linkStateRetransmissionList (nbOf s))
       else linkStateRetransmissionList (nbOf s)) \<and> neighborID (nbOf t) = neighborID (nbOf s) \<and>
    updateRetransmissionTimerActive (nbOf t) = updateRetransmissionTimerActive (nbOf s) \<and>
    (\<exists>os. nbOut t = nbOut s @ os \<and> filter isUpdate os = [])"
proof -
  let ?n = "nbOf s"
  obtain b t where t: "floodToNeighbor env l isSender s = Inr (b, t)" "nbInv t"
    using floodToNeighbor_inv [OF assms, of env l isSender] by (auto simp: yields_iff)
  have "b = (lacksLSA l ?n \<and> \<not> isSender) \<and> linkStateRetransmissionList (nbOf t) =
      (if lacksLSA l ?n \<and> \<not> isSender then replaceOrAppend l (linkStateRetransmissionList ?n)
       else linkStateRetransmissionList ?n) \<and> neighborID (nbOf t) = neighborID ?n \<and>
      updateRetransmissionTimerActive (nbOf t) = updateRetransmissionTimerActive ?n \<and> (\<exists>os. nbOut t = nbOut s @ os \<and> filter isUpdate os = [])"
  proof (cases "nbState ?n \<in> {NbExchange, NbLoading} \<and> FindOnRequestList (lsaKey (lsaHeader l)) ?n \<noteq> None")
    case True
    then obtain r where r: "FindOnRequestList (lsaKey (lsaHeader l)) ?n = Some r"
      "nbState ?n = NbExchange \<or> nbState ?n = NbLoading" by auto
    obtain u where u: "RemoveFromRequestList env (lsaKey (lsaHeader l)) s = Inr u"
      "linkStateRetransmissionList (nbOf u) = linkStateRetransmissionList ?n" "neighborID (nbOf u) = neighborID ?n"
      "updateRetransmissionTimerActive (nbOf u) = updateRetransmissionTimerActive ?n"
      "\<exists>os. nbOut u = nbOut s @ os \<and> filter isUpdate os = []"
      using RemoveFromRequestList_effect [OF assms] True by blast
    have out: "\<exists>os. nbOut s = nbOut s @ os \<and> filter isUpdate os = []" by simp
    have flood: "floodToNeighbor env l isSender s =
        (if lsaOlder (lsaHeader l) r then Inr (False, s)
         else if lsaSameAge (lsaHeader l) r then Inr (False, u)
         else if isSender then Inr (False, u) else Inr (True, AddToRetransmissionList l u))"
      using r u(1) by (elim disjE) (simp_all add: floodToNeighbor_def Let_def)
    have lacks: "lacksLSA l ?n \<longleftrightarrow> \<not> lsaOlder (lsaHeader l) r \<and> \<not> lsaSameAge (lsaHeader l) r"
      using r by (auto simp: lacksLSA_def)
    show ?thesis using t(1) u(2-5) out unfolding flood lacks
      by (simp add: AddToRetransmissionList_def split: if_splits) (auto simp: modify_def)
  next
    case False
    then show ?thesis using t(1)
      by (cases "nbState ?n") (auto simp: floodToNeighbor_def lacksLSA_def Let_def AddToRetransmissionList_def modify_def
          split: if_splits)
  qed
  with t show ?thesis by blast
qed

section \<open>The neighbours of an interface\<close>

fun updatesOf :: "IfOutput list \<Rightarrow> (OSPFLSA list \<times> IPAddress) list" where
  "updatesOf [] = []"
| "updatesOf (SentByNeighbor (SendPacket (LSUpdate ls) a _ _) # os) = (ls, a) # updatesOf os"
| "updatesOf (_ # os) = updatesOf os"

lemma updatesOf_append [simp]: "updatesOf (xs @ ys) = updatesOf xs @ updatesOf ys"
  by (induction xs rule: updatesOf.induct) simp_all

lemma updatesOf_other: "\<not> isUpdate x \<Longrightarrow> updatesOf (ofNeighbor env s x # os) = updatesOf os"
proof (cases x)
  case (SendPacket p a i ttl)
  then show "\<not> isUpdate x \<Longrightarrow> updatesOf (ofNeighbor env s x # os) = updatesOf os"
    by (cases p) (simp_all add: ofNeighbor_def)
qed (simp_all add: ofNeighbor_def)

lemma updatesOf_none:
  "filter isUpdate os = [] \<Longrightarrow> updatesOf (map (ofNeighbor env s) os) = []"
  by (induction os) (simp_all add: updatesOf_other split: if_splits)

text \<open>The neighbours that get the LSA, each with its new list.\<close>

definition getsLSA :: "OSPFLSA \<Rightarrow> nat option \<Rightarrow> IfState \<Rightarrow> nat \<Rightarrow> bool" where
  "getsLSA l sender s k \<longleftrightarrow> lacksLSA l (neighborsOf s ! k) \<and> sender \<noteq> Some k"

definition listAfter :: "OSPFLSA \<Rightarrow> nat option \<Rightarrow> IfState \<Rightarrow> nat \<Rightarrow> OSPFLSA list" where
  "listAfter l sender s k = (if getsLSA l sender s k
     then replaceOrAppend l (linkStateRetransmissionList (neighborsOf s ! k))
     else linkStateRetransmissionList (neighborsOf s ! k))"

text \<open>After the first \<open>m\<close> neighbours.\<close>

definition floodedTo :: "OSPFLSA \<Rightarrow> nat option \<Rightarrow> IfState \<Rightarrow> nat \<Rightarrow> bool \<times> IfState \<Rightarrow> bool" where
  "floodedTo l sender s m r \<longleftrightarrow> fst r = (\<exists>k<m. getsLSA l sender s k) \<and> keeps s (snd r) \<and>
     (\<forall>k<m. linkStateRetransmissionList (neighborsOf (snd r) ! k) = listAfter l sender s k) \<and>
     (\<forall>k<length (neighborsOf s). neighborID (neighborsOf (snd r) ! k) = neighborID (neighborsOf s ! k) \<and>
        updateRetransmissionTimerActive (neighborsOf (snd r) ! k) = updateRetransmissionTimerActive (neighborsOf s ! k)) \<and>
     (\<forall>k. m \<le> k \<longrightarrow> k < length (neighborsOf s) \<longrightarrow> neighborsOf (snd r) ! k = neighborsOf s ! k) \<and>
     updatesOf (ifOut (snd r)) = updatesOf (ifOut s)"

lemma floodTo_effect:
  assumes "floodedTo l sender s m r" "m < length (neighborsOf s)" "kindMatches l"
  shows "\<exists>r'. floodTo env l sender m r = Inr r' \<and> floodedTo l sender s (Suc m) r'"
proof -
  obtain b u where r: "r = (b, u)" by (cases r)
  have ks: "keeps s u" and same: "neighborsOf u ! m = neighborsOf s ! m"
    and len: "length (neighborsOf u) = length (neighborsOf s)"
    using assms(1,2) onlyNeighborsD(6) [of s u] by (auto simp: floodedTo_def r keeps_def)
  have inv: "nbInv (nbStateOf m u)" by (rule nbInv_nbStateOf [OF ks assms(2)])
  have n: "nbOf (nbStateOf m u) = neighborsOf s ! m" using same by (simp add: nbStateOf_def)
  let ?gets = "getsLSA l sender s m"
  obtain t os where t: "floodToNeighbor (nbEnvOf env u) l (sender = Some m) (nbStateOf m u) = Inr (?gets, t)"
    "nbInv t" "linkStateRetransmissionList (nbOf t) = listAfter l sender s m"
    "neighborID (nbOf t) = neighborID (neighborsOf s ! m) \<and>
     updateRetransmissionTimerActive (nbOf t) = updateRetransmissionTimerActive (neighborsOf s ! m)"
    "nbOut t = nbOut (nbStateOf m u) @ os" "filter isUpdate os = []"
    using floodToNeighbor_effect [OF inv, of "nbEnvOf env u" l "sender = Some m"]
    by (auto simp: n getsLSA_def listAfter_def)
  have os: "nbOut t = os" using t(5) by (simp add: nbStateOf_def)
  have "floodTo env l sender m r = Inr (b \<or> ?gets, backFrom env m u t)"
    using t(1) assms(3) by (simp add: floodTo_def r)
  moreover have "floodedTo l sender s (Suc m) (b \<or> ?gets, backFrom env m u t)"
    using assms(1,2) keeps_backFrom [OF ks t(2)] t(3,4) len updatesOf_none [OF t(6)]
    by (auto simp: floodedTo_def r less_Suc_eq backFrom_def os nth_list_update)
  ultimately show ?thesis by blast
qed

lemma floodTo_all:
  assumes "neighborsFit s" "kindMatches l" "m \<le> length (neighborsOf s)"
  shows "\<exists>r. foldRes (floodTo env l sender) [0..<m] (False, s) = Inr r \<and> floodedTo l sender s m r"
  using assms(3)
proof (induction m)
  case 0
  then show ?case using assms(1) by (simp add: floodedTo_def keeps_refl)
next
  case (Suc m)
  from Suc obtain r where "foldRes (floodTo env l sender) [0..<m] (False, s) = Inr r" "floodedTo l sender s m r" by auto
  with floodTo_effect [of l sender s m r env] Suc.prems assms(2) show ?case by (simp add: foldRes_snoc)
qed

section \<open>The packet\<close>

abbreviation listOf :: "IfState \<Rightarrow> nat \<Rightarrow> OSPFLSA list" where
  "listOf s k \<equiv> linkStateRetransmissionList (neighborsOf s ! k)"

abbreviation activeIn :: "IfState \<Rightarrow> nat \<Rightarrow> bool" where
  "activeIn s k \<equiv> updateRetransmissionTimerActive (neighborsOf s ! k)"

text \<open>Only timers and the lists of transmitted LSAs have changed, and the neighbours in \<open>K\<close> have a timer.\<close>

definition noted :: "IfState \<Rightarrow> nat set \<Rightarrow> IfState \<Rightarrow> bool" where
  "noted s0 K s \<longleftrightarrow> keeps s0 s \<and> ifOut s = ifOut s0 \<and>
     (\<forall>k<length (neighborsOf s0). listOf s k = listOf s0 k) \<and> (\<forall>k\<in>K. activeIn s k)"

lemma noted_refl: "neighborsFit s \<Longrightarrow> noted s {} s"
  by (simp add: noted_def keeps_refl)

lemma noteUpdate_effect:
  assumes "noted s0 K s" "k < length (neighborsOf s0)" "K \<subseteq> {..<length (neighborsOf s0)}"
  shows "outcome (noted s0 (insert k K)) (\<lambda>_. False) (noteUpdate env key k s)"
proof -
  have ks: "keeps s0 s" and len: "length (neighborsOf s) = length (neighborsOf s0)"
    using assms(1) onlyNeighborsD(6) [of s0 s] by (auto simp: noted_def keeps_def)
  obtain t where t: "updateSent (nbEnvOf env s) key (nbStateOf k s) = Inr t" "nbInv t"
    using updateSent_inv [OF nbInv_nbStateOf [OF ks assms(2)], of "nbEnvOf env s" key] by (auto simp: yields_iff)
  then have n: "nbOut t = []" "linkStateRetransmissionList (nbOf t) = listOf s k"
      "updateRetransmissionTimerActive (nbOf t)"
    by (auto simp: updateSent_def StartUpdateRetransmissionTimer_def StartTimer_def AddToTransmittedLSAList_def
        checked_def modify_def nbStateOf_def Let_def split: if_splits)
  have "noteUpdate env key k s = Inr (backFrom env k s t)"
    using t(1) by (simp add: noteUpdate_def onNeighbor_def)
  moreover have "noted s0 (insert k K) (backFrom env k s t)"
    using assms keeps_backFrom [OF ks t(2)] n len
    by (auto simp: noted_def backFrom_def nth_list_update)
  ultimately show ?thesis by simp
qed

lemma noteRouter_effect:
  assumes "noted s0 K s" "K \<subseteq> {..<length (neighborsOf s0)}"
  shows "outcome (noted s0 (K \<union> {k. neighboringRoutersByID (ifOf s0) i = Some k})) (\<lambda>_. False)
    (noteRouter env key i s)"
proof -
  have "neighboringRoutersByID (ifOf s) = neighboringRoutersByID (ifOf s0)" "neighborsFit s"
    "length (neighborsOf s) = length (neighborsOf s0)"
    using assms(1) onlyNeighborsD(6,7) [of s0 s] by (auto simp: noted_def keeps_def)
  then show ?thesis
    using assms noteUpdate_effect [OF assms(1) _ assms(2)]
    by (cases "neighboringRoutersByID (ifOf s0) i") (auto simp: noteRouter_def neighborsFit_def)
qed

lemma noteAll_effect:
  assumes "neighborsFit s" "m \<le> length (neighborsOf s)"
  shows "outcome (noted s {..<m}) (\<lambda>_. False) (foldRes (noteUpdate env key) [0..<m] s)"
  using assms(2)
proof (induction m)
  case 0
  then show ?case using noted_refl [OF assms(1)] by simp
next
  case (Suc m)
  then have "outcome (noted s {..<m}) (\<lambda>_. False) (foldRes (noteUpdate env key) [0..<m] s)" by simp
  moreover have "outcome (noted s {..<Suc m}) (\<lambda>_. False) (noteUpdate env key m t)" if "noted s {..<m} t" for t
    using noteUpdate_effect [OF that, of m env key] Suc.prems by (simp add: lessThan_Suc subset_iff)
  ultimately have "outcome (noted s {..<Suc m}) (\<lambda>_. False)
      (andThen (foldRes (noteUpdate env key) [0..<m] s) (noteUpdate env key m))"
    by (rule outcome_andThen)
  then show ?case by (simp add: foldRes_snoc)
qed

text \<open>The neighbours whose timers start: all, the two designated ones, or the one on the line.\<close>

definition notedFor :: "OspfInterface \<Rightarrow> nat set" where
  "notedFor intf = (if interfaceType intf = Broadcast then
       (if floodDestination intf 0 = AllSPFRouters then {..<length (neighboringRouters intf)}
        else {k. neighboringRoutersByID intf (drRouterID (designatedRouter intf)) = Some k \<or>
           neighboringRoutersByID intf (drRouterID (backupDesignatedRouter intf)) = Some k})
     else if neighboringRouters intf = [] then {} else {0})"

lemma sendUpdates_effect:
  assumes "neighborsFit s" "interfaceType (ifOf s) = Broadcast \<or> interfaceType (ifOf s) = PointToPoint"
  shows "outcome (noted (emitUpdate p (floodDestination (ifOf s) 0) s) (notedFor (ifOf s))) (\<lambda>_. False)
    (sendUpdates env key p s)"
proof -
  let ?s = "emitUpdate p (floodDestination (ifOf s) 0) s"
  have same: "ifOf (emitUpdate p a s) = ifOf s" for a by (simp add: emitUpdate_def)
  have fits: "neighborsFit ?s" using assms(1) by (simp add: neighborsFit_def same)
  note r = noted_refl [OF fits]
  have two: "outcome (noted ?s ({k. neighboringRoutersByID (ifOf s) i = Some k} \<union>
      {k. neighboringRoutersByID (ifOf s) j = Some k})) (\<lambda>_. False)
      (andThen (noteRouter env key i ?s) (noteRouter env key j))" for i j
  proof (rule outcome_andThen)
    show "outcome (noted ?s {k. neighboringRoutersByID (ifOf s) i = Some k}) (\<lambda>_. False) (noteRouter env key i ?s)"
      using noteRouter_effect [OF r, of i env key] by (simp add: same)
    fix t assume t: "noted ?s {k. neighboringRoutersByID (ifOf s) i = Some k} t"
    have "{k. neighboringRoutersByID (ifOf s) i = Some k} \<subseteq> {..<length (neighborsOf ?s)}"
      using assms(1) by (auto simp: neighborsFit_def same)
    from noteRouter_effect [OF t this, of j env key]
    show "outcome (noted ?s ({k. neighboringRoutersByID (ifOf s) i = Some k} \<union>
        {k. neighboringRoutersByID (ifOf s) j = Some k})) (\<lambda>_. False) (noteRouter env key j t)"
      by (simp add: same)
  qed
  have un: "{k. P k \<or> Q k} = {k. P k} \<union> {k. Q k}" for P Q :: "nat \<Rightarrow> bool" by auto
  show ?thesis
  proof (cases "interfaceType (ifOf s) = Broadcast")
    case True
    then show ?thesis
      using noteAll_effect [OF fits order.refl, of env key]
        two [of "drRouterID (designatedRouter (ifOf s))" "drRouterID (backupDesignatedRouter (ifOf s))"]
      by (cases "floodDestination (ifOf s) 0 = AllSPFRouters")
         (simp_all add: sendUpdates_def notedFor_def eachNeighbor_def same un Let_def)
  next
    case False
    then show ?thesis using assms(2) r noteUpdate_effect [OF r, of 0 env key]
      by (auto simp: sendUpdates_def notedFor_def same)
  qed
qed

section \<open>Flooding over an interface\<close>

definition sendsLSA :: "OSPFLSA \<Rightarrow> bool \<Rightarrow> nat option \<Rightarrow> IfState \<Rightarrow> bool" where
  "sendsLSA l onThis sender s \<longleftrightarrow>
     (\<exists>k<length (neighborsOf s). getsLSA l sender s k) \<and> floodsOut onThis sender (ifOf s)"

lemma flood_effect:
  assumes "ifInv T s" "T = Broadcast \<or> T = PointToPoint" "kindMatches l" "floodable env (ifOf s) (lsaHeader l)"
    and "\<forall>k. sender = Some k \<longrightarrow> k < length (neighborsOf s)"
  shows "\<exists>s'. IfFloodLSA env l onThis sender s = Inr (sendsLSA l onThis sender s \<and> onThis, s') \<and>
    (\<forall>k<length (neighborsOf s). listOf s' k = listAfter l sender s k) \<and>
    updatesOf (ifOut s') = updatesOf (ifOut s) @
      (if sendsLSA l onThis sender s
       then [([agedForTransmission (ifOf s) l], floodDestination (ifOf s) 0)] else []) \<and>
    (if sendsLSA l onThis sender s then \<forall>k\<in>notedFor (ifOf s). activeIn s' k
     else \<forall>k<length (neighborsOf s). activeIn s' k = activeIn s k)"
proof -
  let ?n = "length (neighborsOf s)"
  have T: "interfaceType (ifOf s) = T" "neighborsFit s" using assms(1) by (simp_all add: ifInv_def)
  obtain b t where r: "foldRes (floodTo env l sender) [0..<?n] (False, s) = Inr (b, t)"
    "floodedTo l sender s ?n (b, t)"
    using floodTo_all [OF T(2) assms(3) order.refl, of env sender] by auto
  then have b: "b = (\<exists>k<?n. getsLSA l sender s k)" and ks: "keeps s t"
    and lists: "\<forall>k<?n. listOf t k = listAfter l sender s k"
    and ids: "\<forall>k<?n. neighborID (neighborsOf t ! k) = neighborID (neighborsOf s ! k)"
    and act: "\<forall>k<?n. activeIn t k = activeIn s k"
    and ups: "updatesOf (ifOut t) = updatesOf (ifOut s)" by (auto simp: floodedTo_def)
  obtain ns where ns: "ifOf t = (ifOf s)\<lparr>neighboringRouters := ns\<rparr>" "length ns = ?n"
    using ks by (auto simp: keeps_def onlyNeighbors_def)
  have out: "floodsOut onThis sender (ifOf t) = floodsOut onThis sender (ifOf s)"
    using ids assms(5) ns by (auto simp: floodsOut_def split: option.splits)
  have aged: "agedForTransmission (ifOf t) l = agedForTransmission (ifOf s) l"
  proof -
    have "transmittedAge (ifOf t) = transmittedAge (ifOf s)" by (rule ext) (simp add: ns transmittedAge_def)
    then show ?thesis by (simp add: agedForTransmission_def)
  qed
  have dest: "floodDestination (ifOf t) 0 = floodDestination (ifOf s) 0" by (simp add: ns floodDestination_def)
  have for_: "notedFor (ifOf t) = notedFor (ifOf s)"
    using ns by (cases ns; cases "neighborsOf s") (simp_all add: notedFor_def floodDestination_def)
  show ?thesis
  proof (cases "sendsLSA l onThis sender s")
    case False
    then have "IfFloodLSA env l onThis sender s = Inr (False, t)"
      using r(1) assms(4) b out by (auto simp: IfFloodLSA_def sendsLSA_def)
    with False lists ups act show ?thesis by auto
  next
    case True
    let ?p = "LSUpdate [agedForTransmission (ifOf s) l]"
    have pt: "CreateUpdatePacket (ifOf t) l = Some ?p" using assms(3) by (simp add: CreateUpdatePacket_def aged)
    let ?t = "emitUpdate ?p (floodDestination (ifOf s) 0) t"
    have "interfaceType (ifOf t) = Broadcast \<or> interfaceType (ifOf t) = PointToPoint"
      using T(1) assms(2) by (simp add: ns)
    moreover have "neighborsFit t" using ks by (simp add: keeps_def)
    ultimately obtain u where u: "sendUpdates env (lsaKey (lsaHeader l)) ?p t = Inr u"
      "noted ?t (notedFor (ifOf s)) u"
      using sendUpdates_effect [of t ?p env "lsaKey (lsaHeader l)"] unfolding dest for_
      by (cases "sendUpdates env (lsaKey (lsaHeader l)) ?p t") auto
    have "IfFloodLSA env l onThis sender s = Inr (onThis, u)"
      using r(1) assms(4) b out True pt u(1) by (auto simp: IfFloodLSA_def sendsLSA_def)
    moreover have "updatesOf (ifOut u) = updatesOf (ifOut s) @ [([agedForTransmission (ifOf s) l], floodDestination (ifOf s) 0)]"
      using u(2) ups by (simp add: noted_def emitUpdate_def emitIf_def)
    moreover have "\<forall>k<?n. listOf u k = listAfter l sender s k"
      using u(2) lists ns by (simp add: noted_def emitUpdate_def)
    moreover have "\<forall>k\<in>notedFor (ifOf s). activeIn u k" using u(2) by (simp add: noted_def)
    ultimately show ?thesis using True by auto
  qed
qed


end
