(* ===== verification/OSPF_ExchangeExamples.thy ===== *)
theory OSPF_ExchangeExamples imports OSPF_ExchangeProps OSPF_SPFExamples
begin

text \<open>
  A concrete exchange of two routers, and behaviours of an OSPF neighbour that the code does not
  intend: a packet lost in Exchange, a flag that outlives its timer, a rejected packet that leaves
  its headers behind.
\<close>

section \<open>An exchange\<close>

text \<open>Two routers on a line whose packets hold one header each.\<close>

definition exEnv :: "RouterID \<Rightarrow> LinkStateID list \<Rightarrow> NbEnv" where
  "exEnv rid ids = \<lparr>
     envInterface = (exInterface PointToPoint 101 (0x14000000 + rid) 0xFFFFFFFC NullDesignatedRouterID [])\<lparr>ifMTU := 112\<rparr>,
     envArea = (exAreaOf [] (map (\<lambda>i. exRouterLSA i []) ids) [])\<lparr>routerID := rid\<rparr>,
     envASExternalLSAs = [], envNow = 0\<rparr>"

definition exSide :: "RouterID \<Rightarrow> ulong \<Rightarrow> NbState" where
  "exSide other q = (newState other 0)\<lparr>nbOf := (newNeighbor other)\<lparr>nbState := NbExchangeStart,
     inactivityTimer := Some 40, ddRetransmissionTimer := Some 5, firstAdjacencyInited := True,
     ddSequenceNumber := q\<rparr>\<rparr>"

definition exExchange :: DDExchange where
  "exExchange = \<lparr>lowSide = exSide 2 10, highSide = exSide 1 20,
     toLow = [firstDD (exEnv 2 [2, 3, 4]) 20], toHigh = [firstDD (exEnv 1 [1, 3]) 10]\<rparr>"

lemma exEnv_headers:
  "databaseHeaders (exEnv rid ids) = map (exHeader 1) ids"
  by (simp add: databaseHeaders_def exEnv_def exAreaOf_def exRouterLSA_def youngHeaders_def exHeader_def
      MAX_AGE_def exInterface_def filter_True comp_def)

lemma exExchange_starts: "exchangeStarts (exEnv 1 [1, 3]) (exEnv 2 [2, 3, 4]) exExchange"
proof -
  have acc: "accepts (exEnv a xs) (exEnv b ys)" for a b xs ys
    unfolding accepts_def exEnv_headers
    by (simp add: ddMTU_def exEnv_def exInterface_def exHeader_def headerAccepted_def lsa_types)
  have "routerID (envArea (exEnv 1 [1, 3])) = 1" "routerID (envArea (exEnv 2 [2, 3, 4])) = 2"
    by (simp_all add: exEnv_def)
  with acc show ?thesis
    by (simp add: exchangeStarts_def compatible_def exExchange_def atStart_def exSide_def newState_def
        newNeighbor_def)
qed

theorem dd_exchange_completes_witness:
  "{n. \<exists>c. (ddStep (exEnv 1 [1, 3]) (exEnv 2 [2, 3, 4]) ^^ n) exExchange c} \<subseteq> {..13} \<and>
   {c. (ddStep (exEnv 1 [1, 3]) (exEnv 2 [2, 3, 4]))\<^sup>*\<^sup>* exExchange c \<and>
      (\<nexists>c'. ddStep (exEnv 1 [1, 3]) (exEnv 2 [2, 3, 4]) c c')}
     \<subseteq> {c. exchanged (exEnv 1 [1, 3]) (exEnv 2 [2, 3, 4]) c}"
  using dd_exchange_completes [OF exExchange_starts] by (simp add: exEnv_headers)

text \<open>Router 1 then asks for the LSAs 2 and 4, router 2 for the LSA 1.\<close>

lemma exExchange_requests:
  "wanted (exEnv 1 [1, 3]) (databaseHeaders (exEnv 2 [2, 3, 4])) = [exHeader 1 2, exHeader 1 4]"
  "wanted (exEnv 2 [2, 3, 4]) (databaseHeaders (exEnv 1 [1, 3])) = [exHeader 1 1]"
  unfolding exEnv_headers
  by (simp_all add: wanted_def asksFor_def FindLSA_def lsa_types exHeader_def exEnv_def exAreaOf_def
      FindRouterLSA_def exRouterLSA_def newerThan_def lsaOlder_def MAX_AGE_def MAX_AGE_DIFF_def Let_def lsaKey_def)

section \<open>Behaviours that are not intended\<close>

text \<open>
  In Exchange no timer repeats a DD packet: the only timers that can expire are the inactivity
  timer and those of the requests and updates. A packet that is lost there is never sent again.
\<close>

lemma exchange_not_repeated:
  "nbInv s \<Longrightarrow> nbState (nbOf s) = NbExchange \<Longrightarrow> getTimer DDRetransmissionT (nbOf s) = None"
  by (simp add: nb_inv_defs)

text \<open>
  Flooding on a broadcast network starts the update timer of every neighbour, also of those below
  Exchange. There the expiry is ignored and the flag stays: no later update starts the timer.
\<close>

lemma update_timer_lost:
  assumes "nbInv s" "nbState (nbOf s) = NbTwoWay" "\<not> updateRetransmissionTimerActive (nbOf s)"
  shows "\<exists>s'. nbRun [(env, UpdateSent k), (env, Expires UpdateRetransmissionT), (env, UpdateSent k')] s = Inr s' \<and>
    updateRetransmissionTimerActive (nbOf s') \<and> updateRetransmissionTimer (nbOf s') = None"
proof -
  have "updateRetransmissionTimer (nbOf s) = None" using assms(1,3) by (simp add: nb_inv_defs)
  with assms(2,3) show ?thesis
    by (simp add: updateSent_def AddToTransmittedLSAList_def StartUpdateRetransmissionTimer_def StartTimer_def
        HandleTimer_def ProcessEvent_def TwoWayProcessEvent_def commonProcessEvent_def Let_def)
qed

text \<open>
  A packet with a header of an unknown type is answered in ExchangeStart by an event that this
  state ignores: the headers before it stay on the request list.
\<close>

lemma rejected_packet_leaves_requests:
  assumes "nbState (nbOf s) = NbExchangeStart" "headerAccepted env h" "asksFor env h" "\<not> headerAccepted env h'"
  shows "\<exists>s'. listHeaders env [h, h'] s = Inr (False, s') \<and> nbState (nbOf s') = NbExchangeStart \<and>
    linkStateRequestList (nbOf s') = linkStateRequestList (nbOf s) @ [h]"
proof -
  obtain l where l: "FindLSA env (lsType h) (lsaKey h) = Inr l" using FindLSA_accepted [OF assms(2)] by blast
  have new: "newerThan h l" using assms(3) l by (simp add: asksFor_def)
  have "ProcessEvent env SequenceNumberMismatch (AddToRequestList h s) = Inr (AddToRequestList h s)"
    using assms(1) by (simp add: ProcessEvent_def ExchangeStartProcessEvent_def commonProcessEvent_def
        AddToRequestList_def)
  with assms l new show ?thesis by (simp add: AddToRequestList_def)
qed

end
