(* ===== verification/OSPF_InterfaceExamples.thy ===== *)
theory OSPF_InterfaceExamples imports OSPF_HelloProps OSPF_FloodProps OSPF_ExchangeExamples
begin

text \<open>
  Concrete interfaces on which the properties of interfaces, Hello packets and flooding are applied, and
  behaviours that the code does not intend: a lost designated router that nobody replaces, an LSA that waits
  for a retransmission no timer makes, an update that is sent twice, a priority that always changes.
\<close>

section \<open>Two routers on a line\<close>

definition exIfEnv :: "RouterID \<Rightarrow> LinkStateID list \<Rightarrow> IfEnv" where
  "exIfEnv rid ids = \<lparr>ieArea = envArea (exEnv rid ids), ieASExternalLSAs = [], ieNow = 0, ieFirstHello = 0\<rparr>"

definition exConfig :: "OSPFInterfaceType \<Rightarrow> RouterID \<Rightarrow> OspfInterface" where
  "exConfig t rid = (envInterface (exEnv rid []))\<lparr>interfaceType := t\<rparr>"

definition exLine :: "RouterID \<Rightarrow> IfState" where
  "exLine rid = (let s = newInterface (exConfig PointToPoint rid) 10 40 1 7 in
     s\<lparr>ifOf := (ifOf s)\<lparr>ifState := IfPointToPoint\<rparr>, helloTimer := Some 0, acknowledgementTimer := Some 1\<rparr>)"

lemma exLine_up:
  "ifRun [(exIfEnv rid ids, IfEvent InterfaceUp)] (newInterface (exConfig PointToPoint rid) 10 40 1 7) =
     Inr (emitIf [InstallRouterLSACall] (exLine rid)) \<or>
   ifRun [(exIfEnv rid ids, IfEvent InterfaceUp)] (newInterface (exConfig PointToPoint rid) 10 40 1 7) =
     Inr (emitIf [RenewRouterLSACall] (exLine rid))"
  by (simp add: exLine_def newInterface_def exConfig_def exEnv_def exInterface_def exIfEnv_def raisedByModule_def
      if_event_defs StartIfTimer_def IfChangeState_def IfChangeStateFrom_def renewCalls_def changesRouterLSA_def
      emitIf_def Let_def)

theorem interface_run_safe_witness:
  "case ifRun [(exIfEnv 1 [], IfEvent InterfaceUp)] (newInterface (exConfig PointToPoint 1) 10 40 1 7) of
      Inr s \<Rightarrow> ifTimersFit s \<and> rolesFit s \<and> neighborsFit s
    | Inl e \<Rightarrow> (\<exists>(env, i)\<in>set [(exIfEnv 1 [], IfEvent InterfaceUp)].
        inputError (interfaceType (exConfig PointToPoint 1)) i e)"
  by (rule interface_run_safe) (simp add: exConfig_def)

lemma exLine_fresh: "knows env other addr Unseen (exLine rid)"
  by (simp add: knows_def onLine_def exLine_def newInterface_def exConfig_def exEnv_def exInterface_def Let_def
      ifInv_def neighborsFit_def ifTimersFit_def rolesFit_def)

lemma exLine_linked: "linked (exIfEnv 1 xs) (exIfEnv 2 ys) Unseen Unseen (exLine 1, exLine 2)"
  using exLine_fresh
  by (simp add: linked_def alike_def exIfEnv_def exEnv_def exAreaOf_def exLine_def newInterface_def Let_def)

lemma exLine_compatible:
  "compatible (nbEnvOf (exIfEnv 1 [1, 3]) (exLine 1)) (nbEnvOf (exIfEnv 2 [2, 3, 4]) (exLine 2))"
proof -
  have env: "databaseHeaders (nbEnvOf (exIfEnv rid ids) (exLine rid)) = databaseHeaders (exEnv rid ids)"
    "ddMTU (nbEnvOf (exIfEnv rid ids) (exLine rid)) = ddMTU (exEnv rid ids)"
    "ifMTU (envInterface (nbEnvOf (exIfEnv rid ids) (exLine rid))) = ifMTU (envInterface (exEnv rid ids))"
    "envArea (nbEnvOf (exIfEnv rid ids) (exLine rid)) = envArea (exEnv rid ids)"
    "headerAccepted (nbEnvOf (exIfEnv rid ids) (exLine rid)) = headerAccepted (exEnv rid ids)" for rid ids
    by (simp_all add: databaseHeaders_def ddMTU_def nbEnvOf_def headerAccepted_def fun_eq_iff exIfEnv_def exLine_def
        newInterface_def exConfig_def exEnv_def exInterface_def Let_def)
  from exExchange_starts have "compatible (exEnv 1 [1, 3]) (exEnv 2 [2, 3, 4])" by (simp add: exchangeStarts_def)
  then show ?thesis by (simp add: compatible_def accepts_def env)
qed


section \<open>Flooding\<close>

text \<open>An interface with a full neighbour and one that is loading and has asked for an older LSA.\<close>

definition exFullNeighbor :: "RouterID \<Rightarrow> Neighbor" where
  "exFullNeighbor i = (newNeighbor i)\<lparr>nbState := NbFull, inactivityTimer := Some 40, neighborIPAddress := 0x14000000 + i\<rparr>"

definition exLoadingNeighbor :: "RouterID \<Rightarrow> OSPFLSAHeader \<Rightarrow> Neighbor" where
  "exLoadingNeighbor i h = (exFullNeighbor i)\<lparr>nbState := NbLoading, linkStateRequestList := [h],
     requestRetransmissionTimer := Some 5, requestRetransmissionTimerActive := True\<rparr>"

definition exNet :: "OSPFInterfaceType \<Rightarrow> InterfaceStateType \<Rightarrow> RouterID \<Rightarrow> Neighbor list \<Rightarrow> IfState" where
  "exNet t st dr ns = (let s = newInterface (exConfig t 1) 10 40 1 7 in
     s\<lparr>ifOf := (ifOf s)\<lparr>ifState := st, neighboringRouters := ns,
         designatedRouter := \<lparr>drRouterID = dr, ipInterfaceAddress = 0x14000000 + dr\<rparr>\<rparr>,
       helloTimer := Some 0, acknowledgementTimer := Some 1\<rparr>)"

definition exLSA :: OSPFLSA where
  "exLSA = LsaRouter (snd (exRouterLSA 9 []))"

lemma exNet_inv:
  assumes "t \<noteq> UnknownType" "\<forall>n\<in>set ns. neighborFits n" "st \<in> {IfNotDesignatedRouter, IfBackup, IfDesignatedRouter}"
  shows "ifInv t (exNet t st dr ns)"
  using assms by (auto simp: exNet_def newInterface_def exConfig_def ifInv_def neighborsFit_def ifTimersFit_def
      rolesFit_def Let_def)

lemma exNeighbors_fit: "neighborFits (exFullNeighbor i)" "neighborFits (exLoadingNeighbor i h)"
  by (simp_all add: exFullNeighbor_def exLoadingNeighbor_def newNeighbor_def neighborFits_def timersFit_def
      listsFit_def requestsRun_def)

text \<open>Designated router 2 is full, router 3 loads and asks for LSA 9, which it is going to send.\<close>

definition exBroadcast :: IfState where
  "exBroadcast = exNet Broadcast IfNotDesignatedRouter 2 [exFullNeighbor 2, exLoadingNeighbor 3 (exHeader 1 5)]"

lemma exBroadcast_inv: "ifInv Broadcast exBroadcast"
  unfolding exBroadcast_def by (rule exNet_inv) (simp_all add: exNeighbors_fit)

lemma exLSA_kind: "kindMatches exLSA" "lsType (lsaHeader exLSA) = RouterLSAType"
  by (simp_all add: exLSA_def exRouterLSA_def kindMatches_def exHeader_def lsa_types Let_def)

lemma exBroadcast_floodable: "floodable (exIfEnv 1 []) (ifOf exBroadcast) (lsaHeader exLSA)"
  by (simp add: floodable_def exLSA_kind lsa_types exIfEnv_def exEnv_def exAreaOf_def BackboneAreaID_def exBroadcast_def
      exNet_def newInterface_def exConfig_def Let_def)


text \<open>Both neighbours get the LSA.\<close>

lemma exBroadcast_gets: "getsLSA exLSA None exBroadcast 0" "getsLSA exLSA None exBroadcast 1"
  by (simp_all add: getsLSA_def lacksLSA_def exBroadcast_def exNet_def exLSA_def exRouterLSA_def exHeader_def
      exFullNeighbor_def exLoadingNeighbor_def FindOnRequestList_def lsaKey_def newInterface_def Let_def)

section \<open>Behaviours that are not intended\<close>

text \<open>
  When the designated router is no longer heard, the interface keeps it: the timer of the neighbour does
  not raise the event that starts an election.
\<close>

lemma lost_router_stays_designated:
  assumes "ifInv T s" "ifStep env (NbTimerExpires k InactivityT) s = Inr s'"
  shows "designatedRouter (ifOf s') = designatedRouter (ifOf s) \<and>
    backupDesignatedRouter (ifOf s') = backupDesignatedRouter (ifOf s) \<and> ifState (ifOf s') = ifState (ifOf s)"
  using assms(2) by (auto simp: onNeighbor_def backFrom_def res_simps split: if_splits)

text \<open>
  An LSA that comes from the designated router is put on the retransmission lists of the other adjacent
  neighbours, but nothing is sent and no timer is started.
\<close>

lemma waits_without_timer:
  assumes "ifInv Broadcast s" "kindMatches l" "floodable env (ifOf s) (lsaHeader l)" "j < length (neighborsOf s)"
    "neighborID (neighborsOf s ! j) = drRouterID (designatedRouter (ifOf s))" "k < length (neighborsOf s)" "k \<noteq> j"
    "nbState (neighborsOf s ! k) = NbFull" "\<not> activeIn s k"
  shows "\<exists>s'. IfFloodLSA env l True (Some j) s = Inr (False, s') \<and> l \<in> set (listOf s' k) \<and> \<not> activeIn s' k"
proof -
  have "\<forall>i. Some j = Some i \<longrightarrow> i < length (neighborsOf s)" using assms(4) by simp
  from flood_effect [OF assms(1) _ assms(2,3) this, of True] obtain s' where
    s': "IfFloodLSA env l True (Some j) s = Inr (sendsLSA l True (Some j) s \<and> True, s')"
    "\<forall>k<length (neighborsOf s). listOf s' k = listAfter l (Some j) s k"
    "if sendsLSA l True (Some j) s then \<forall>k\<in>notedFor (ifOf s). activeIn s' k
     else \<forall>k<length (neighborsOf s). activeIn s' k = activeIn s k" by auto
  have "\<not> sendsLSA l True (Some j) s" using assms(5) by (simp add: sendsLSA_def floodsOut_def)
  moreover have "l \<in> set (replaceOrAppend l xs)" for xs by (induction xs) auto
  moreover have "getsLSA l (Some j) s k" using assms(7,8) by (simp add: getsLSA_def lacksLSA_def)
  ultimately show ?thesis using s' assms(6,9) by (auto simp: listAfter_def)
qed

text \<open>On an interface of any other type two neighbours in Exchange or above stop the simulation.\<close>

lemma update_sent_twice:
  "IfFloodLSA (exIfEnv 1 []) exLSA False None (exNet PointToMultiPoint IfPointToPoint 0 [exFullNeighbor 2, exFullNeighbor 3]) =
     Inl (KernelError ''setControlInfo'')"
  by (simp add: exNet_def newInterface_def exConfig_def exEnv_def exInterface_def exFullNeighbor_def newNeighbor_def
      IfFloodLSA_def floodable_def exLSA_def exRouterLSA_def exHeader_def lsa_types exIfEnv_def exAreaOf_def
      BackboneAreaID_def floodTo_def floodToNeighbor_def nbStateOf_def backFrom_def AddToRetransmissionList_def
      modify_def kindMatches_def CreateUpdatePacket_def floodsOut_def sendUpdates_def sendAgain_def noteUpdate_def
      onNeighbor_def updateSent_def AddToTransmittedLSAList_def StartUpdateRetransmissionTimer_def StartTimer_def
      emitUpdate_def emitIf_def nbEnvOf_def Let_def upt_rec numeral_2_eq_2)

text \<open>A neighbour with a priority above 127 is taken to have changed it at every Hello packet.\<close>

lemma high_priority_changes:
  assumes "127 < uint (hpRouterPriority p)" "neighborPriority n = hpRouterPriority p"
  shows "neighborChanged (helloNews intf src p n)"
proof -
  have "sint (hpRouterPriority p) < 128" using sint_lt [of "hpRouterPriority p"] by simp
  then have "uint (hpRouterPriority p) \<noteq> sint (hpRouterPriority p)" using assms(1) by linarith
  then show ?thesis using assms(2) by (simp add: helloNews_def Let_def)
qed

text \<open>
  The first copy of an LSA that is not in the database is not newer in the sense of the flags, and so
  is not acknowledged.
\<close>

lemma new_lsa_not_acknowledged:
  assumes "noLSAInstanceInDatabase f" "\<not> lsaIsNewer f" "\<not> lsaIsDuplicate f" "\<not> lsaReachedMaxAge f"
  shows "AcknowledgeLSA h f lsaSource s = Inr s"
  using assms by (simp add: AcknowledgeLSA_def delaysAcknowledgement_def directAcknowledgement_def Let_def)

end
