(* ===== verification/Spec2Isabelle.thy ===== *)
theory Spec2Isabelle
  imports TCP_ResetProps TCP_HandshakeProps TCP_InputProps TCP_SendProps TCP_CongestionProps TCP_QueueProps
    TCP_FsmProps IP_RoutingProps Stack_Props ARP_Props
    Ether_UnitProps PPP_Props Service_Props OSPF_Origination OSPF_ElectionProps
    OSPF_InterfaceExamples
begin

text \<open>
  \<^bold>\<open>What this development models.\<close> The repository is the INET framework, C++ models of network protocols
  for the simulation kernel OMNeT++. A protocol is a module: an object that gets messages from other
  modules and timers and sends messages. Modelled here are the transport protocols TCP
  (\<^verbatim>\<open>src/src/transport/tcp\<close>) and UDP (\<^verbatim>\<open>src/src/transport/udp\<close>), and of IPv4 (\<^verbatim>\<open>src/src/networklayer\<close>)
  the addresses, the interface table, the routing table, ICMP, fragmentation, the delivery to the
  transport protocols and multicast routing, the queue in front of the module, and ARP; below it the output queues,
  the PPP interface and the relay units of Ethernet switches (\<^verbatim>\<open>src/src/linklayer\<close>). Of the routing protocol
  OSPF (\<^verbatim>\<open>src/src/networklayer/ospfv2\<close>) the parts that decide which routes a router finds are modelled.

  \<^bold>\<open>How the code is rendered.\<close> Classes are records or datatypes with the fields of the class, methods are
  functions from the object to the changed object, with the names of the code (suffixed by the class where two
  classes have a method of one name). Everything a method sends is appended to a list in the record, so that
  the order of the messages is kept. Every way in which the code stops (\<^verbatim>\<open>opp_error\<close>, \<^verbatim>\<open>error\<close>, a failed
  \<^verbatim>\<open>ASSERT\<close> or cast, an uncaught exception, undefined behaviour such as a null pointer) is a value of the sum
  type of \<^verbatim>\<open>Inet_Prelude\<close>; a loop that does not end is a value too. Sequence numbers and addresses are 32 bit
  words, C \<^verbatim>\<open>short\<close> and \<^verbatim>\<open>ushort\<close> are narrowed where the code narrows; other \<^verbatim>\<open>int\<close> fields are integers. Objects
  that others point to (connections, sockets, routes, interfaces) have a number as their pointer and
  live in a map. Simulation time is a rational number, an argument where the code asks for it.

  \<^bold>\<open>Theories.\<close>
  \<^item> \<^verbatim>\<open>Inet_Prelude\<close>: results and errors, rules to reason about outcomes, lemmas on words, maps and lists.
  \<^item> \<^verbatim>\<open>Transport_Common\<close>: \<^verbatim>\<open>IPvXAddress\<close> and the search for ephemeral ports, which TCP and UDP share.
    The search gets 65537 rounds of fuel; a port repeats after 3976 rounds, and the model shows
    that the search always ends before.
  \<^item> \<^verbatim>\<open>TCP_Seq\<close>, \<^verbatim>\<open>TCP_Segment\<close>: comparison of sequence numbers (\<^verbatim>\<open>TCPConnection.h\<close>), segments.
  \<^item> \<^verbatim>\<open>TCP_SendQueue\<close>, \<^verbatim>\<open>TCP_RcvQueue\<close>: both implementations of the two queue interfaces; the interfaces are
    locales, interpreted on both. \<^verbatim>\<open>TCP_RcvSpec\<close> gives the receive queue as the set of the bytes it holds.
  \<^item> \<^verbatim>\<open>TCP_State\<close>, \<^verbatim>\<open>TCP_Fsm\<close>: the connection with its state block and its timers; \<^verbatim>\<open>performStateTransition\<close>.
  \<^item> \<^verbatim>\<open>TCP_Output\<close>, \<^verbatim>\<open>TCP_Flavours\<close>: what \<^verbatim>\<open>TCPConnectionUtil.cc\<close> sends, and the congestion control classes.
  \<^item> \<^verbatim>\<open>TCP_Input\<close>, \<^verbatim>\<open>TCP_Commands\<close>: segments and timeouts in the synchronised states, commands of the application.
  \<^item> \<^verbatim>\<open>TCP_Module\<close>: the tables of connections, OPEN, the states LISTEN and SYN-SENT, \<^verbatim>\<open>handleMessage\<close>.
    \<^verbatim>\<open>TCP_Frame\<close>, \<^verbatim>\<open>TCP_Tables\<close> and \<^verbatim>\<open>TCP_ModuleInv\<close> show what each operation leaves unchanged and that
    every operation keeps the invariant of the tables.
  \<^item> \<^verbatim>\<open>TCP_QueueProps\<close>, \<^verbatim>\<open>TCP_SendProps\<close>, \<^verbatim>\<open>TCP_FsmProps\<close>, \<^verbatim>\<open>TCP_ModuleProps\<close>, \<^verbatim>\<open>TCP_InputProps\<close>,
    \<^verbatim>\<open>TCP_CongestionProps\<close>, \<^verbatim>\<open>TCP_HandshakeProps\<close>, \<^verbatim>\<open>TCP_ResetProps\<close>: the properties of TCP.
  \<^item> \<^verbatim>\<open>IP_Address\<close> (\<^verbatim>\<open>contract/IPAddress.cc\<close>): addresses, masks and their text form.
  \<^item> \<^verbatim>\<open>IP_Interfaces\<close> (\<^verbatim>\<open>common/InterfaceTable.cc\<close>): the interfaces of a node by id, name and gate.
  \<^item> \<^verbatim>\<open>IP_RoutingTable\<close>, \<^verbatim>\<open>IP_RoutingProps\<close> (\<^verbatim>\<open>ipv4/RoutingTable.cc\<close>): routes and lookup with its cache.
  \<^item> \<^verbatim>\<open>IP_Reassembly\<close> (\<^verbatim>\<open>base/ReassemblyBuffer.cc\<close>): the ranges of a datagram that have arrived; with the
    lemmas that pieces may come in any order and more than once.
  \<^item> \<^verbatim>\<open>IP_Packets\<close> (\<^verbatim>\<open>ipv4/ICMP.cc\<close> and the message classes): datagrams, control info, ICMP.
  \<^item> \<^verbatim>\<open>IP_Forwarding\<close>, \<^verbatim>\<open>IP_ForwardingProps\<close> (\<^verbatim>\<open>ipv4/IPchanged.cc\<close>, \<^verbatim>\<open>ipv4/IPFragBuf.cc\<close>, \<^verbatim>\<open>base/ProtocolMap.cc\<close>):
    encapsulation, fragmentation, reassembly, delivery, multicast routing. The number of fragments is
    computed in \<^verbatim>\<open>float\<close>: the model rounds to 24 bits, ties to even, as the conversion does.
  \<^item> \<^verbatim>\<open>UDP_Module\<close>, \<^verbatim>\<open>UDP_Props\<close> (\<^verbatim>\<open>udp/UDP.cc\<close>): sockets, commands, packets, ICMP errors.
  \<^item> \<^verbatim>\<open>MAC_Address\<close> (\<^verbatim>\<open>linklayer/contract/MACAddress.cc\<close>): hardware addresses, their order and their text form.
  \<^item> \<^verbatim>\<open>ARP_Module\<close>, \<^verbatim>\<open>ARP_Props\<close> (\<^verbatim>\<open>arp/ARP.cc\<close>): the cache with its timers, packets that wait for an address.
  \<^item> \<^verbatim>\<open>Sim_Kernel\<close>: what the simulation kernel checks when a module schedules a message.
  \<^item> \<^verbatim>\<open>Service_Queue\<close>, \<^verbatim>\<open>Service_Props\<close> (\<^verbatim>\<open>base/AbstractQueue.cc\<close>, \<^verbatim>\<open>base/QueueBase.cc\<close>): the queue in front of IP.
  \<^item> \<^verbatim>\<open>Passive_Queues\<close>, \<^verbatim>\<open>Queue_Props\<close> (\<^verbatim>\<open>base/PassiveQueueBase.cc\<close>, \<^verbatim>\<open>networklayer/queue\<close>): output queues; what the base
    class needs of its subclasses is a locale, interpreted on both drop tail queues.
  \<^item> \<^verbatim>\<open>PPP_Module\<close>, \<^verbatim>\<open>PPP_Props\<close> (\<^verbatim>\<open>linklayer/ppp/PPP.cc\<close>): the interface and its composition with a queue.
  \<^item> \<^verbatim>\<open>Ether_Switch\<close>, \<^verbatim>\<open>Ether_SwitchProps\<close> (\<^verbatim>\<open>etherswitch/MACRelayUnitBase.cc\<close>): the address table and forwarding.
    \<^verbatim>\<open>Ether_Units\<close>, \<^verbatim>\<open>Ether_UnitProps\<close> (\<^verbatim>\<open>MACRelayUnitNP.cc\<close>, \<^verbatim>\<open>MACRelayUnitPP.cc\<close>): the units with their buffers; their
    common contract is a locale, with one that extends it for units whose frames wait in lines.
  \<^item> \<^verbatim>\<open>OSPF_Data\<close> (\<^verbatim>\<open>OSPFPacket.msg\<close>, \<^verbatim>\<open>router/LSA.h\<close>, the class headers): advertisements (LSAs) and the order of
    their ages, neighbours, interfaces, areas, the lookups of an area.
  \<^item> \<^verbatim>\<open>OSPF_SPF\<close>, \<^verbatim>\<open>OSPF_SPFProps\<close>, \<^verbatim>\<open>OSPF_SPFExamples\<close> (\<^verbatim>\<open>CalculateShortestPathTree\<close> of \<^verbatim>\<open>router/OSPFArea.cc\<close>):
    the tree of an area with its next hops and routing entries. The loop that adds vertices is a
    \<^verbatim>\<open>while_option\<close>; the properties show that it ends. They ask that the number of LSAs times the largest cost of a
    link is below \<^verbatim>\<open>LS_INFINITY\<close>, so that no sum of costs overflows. The examples show three areas on which
    the code goes wrong: a parent that is no longer on the path, a network route that is lost, an abort.
  \<^item> \<^verbatim>\<open>OSPF_Origination\<close> (\<^verbatim>\<open>OriginateRouterLSA\<close>, \<^verbatim>\<open>OriginateNetworkLSA\<close>): the LSAs a router makes of its
    interfaces, with the lemmas that connect them to the links the tree follows.
  \<^item> \<^verbatim>\<open>OSPF_Election\<close>, \<^verbatim>\<open>OSPF_ElectionProps\<close> (\<^verbatim>\<open>interface/OSPFInterfaceState.cc\<close>): the designated router.
  \<^item> \<^verbatim>\<open>OSPF_Neighbor\<close>, \<^verbatim>\<open>OSPF_NeighborProps\<close> (\<^verbatim>\<open>neighbor\<close>): the eight states of a neighbour as one function per
    state class, its timers and lists. What it sends, and that its change to or from Full renews the own LSAs, is
    appended to a list; an LSA that is flooded because of that comes in as an input of a later step.
  \<^item> \<^verbatim>\<open>OSPF_Exchange\<close>, \<^verbatim>\<open>OSPF_ExchangeProps\<close>, \<^verbatim>\<open>OSPF_ExchangeExamples\<close> (\<^verbatim>\<open>messagehandler\<close>): the handlers of the
    Database Description, Request and Acknowledgement packets. The exchange of two neighbours is a
    step relation over two queues of packets that lose and reorder nothing; each step takes the first packet of
    one queue, and the databases stay as they are meanwhile. With \<open>k\<close> headers on both sides it ends after at
    most \<open>2k + 7\<close> packets.
  \<^item> \<^verbatim>\<open>OSPF_Interface\<close>, \<^verbatim>\<open>OSPF_Hello\<close>, \<^verbatim>\<open>OSPF_Flooding\<close> (\<^verbatim>\<open>interface\<close>, \<^verbatim>\<open>messagehandler/HelloHandler.cc\<close>,
    \<^verbatim>\<open>AcknowledgeLSA\<close> of \<^verbatim>\<open>LinkStateUpdateHandler.cc\<close>): an interface with its neighbours. Its seven states are one
    function per state class; it calls the functions of its neighbours and takes over what they send; Hello packets,
    delayed acknowledgements and the flooding of an LSA over it; its inputs are one datatype and a run is a list of them.
    \<^verbatim>\<open>OSPF_InterfaceProps\<close> has the invariant of all runs, \<^verbatim>\<open>OSPF_HelloProps\<close> two routers on a line that meet,
    \<^verbatim>\<open>OSPF_FloodProps\<close> whom an LSA is flooded to, \<^verbatim>\<open>OSPF_InterfaceExamples\<close> examples and behaviours that are not
    intended. That the own LSAs are renewed is an output in the place of the call; in the code the renewed LSA is
    flooded before the call returns, here the flooding is a later input. The delay of the first Hello packet, which the
    code draws at random, is part of the environment.
  \<^item> \<^verbatim>\<open>Stack_Props\<close>: UDP over IP over fragments, from one application to another.

  \<^bold>\<open>How the parts interact.\<close> A TCP connection sends and receives segments through the module's tables; the
  module hands it the segments and timers that are its own and deletes it when it reports CLOSED. The
  connection calls its queues and its algorithm class, which calls back to send and retransmit. UDP gives
  packets with control info to IP, which wraps them into datagrams, cuts these to the MTU of the
  interface and, on the other side, puts them together and hands the packet up with new control info. IP
  asks the routing table, which asks the interface table and is told by it about changes. IP and UDP report
  undeliverable packets to ICMP. Every message for IP passes the service queue first. What IP sends goes
  to ARP, which holds back packets whose hardware address it does not know, and then to the output queue of
  the interface, which hands out a packet when the interface asks for one. Hello packets make an OSPF
  interface know its neighbours and elect the designated router; a neighbour becomes Full by the
  exchange of the databases; the neighbours that are Full and the router that was elected decide which links a
  router puts into its LSAs; and the LSAs of an area are the graph of the shortest path calculation.

  \<^bold>\<open>What is shown.\<close> Data transfer: queues deliver every byte once and in order, segments cover what is
  outstanding and stay in the window, the handshake connects both sides, the state machine is that of RFC 793.
  Tables: those of TCP, UDP, the routing table and the interfaces agree with each other in every reachable
  state, and lookups find what they should. IP: the best route is the longest match, fragments reassemble,
  errors are not answered by errors, and data sent by UDP arrives. Below IP: packets that wait for an address are sent
  when it is known or given up; queues and interfaces keep the order and lose nothing they accepted; a switch forwards
  as the history of the frames says. OSPF: in every run the timers and lists of an interface and its neighbours fit their states, Hello packets bring two
  routers to the exchange of their databases, an LSA is flooded to the neighbours that lack it, the database exchange
  ends with the requests for what is missing, the
  election gives the best router that claims the role, adjacent routers are joined in the area, and the tree and the
  entries of an area are those of the shortest paths. Where the code does not do what it
  means to, a theorem states what it does.

  \<^bold>\<open>Parameters.\<close> The initial sequence number, the names of modules and the gate that connects an interface
  are arguments, as they come from the simulation kernel; so is the content of an uninitialised variable that
  the code reads (the identification in the key of the fragment buffers), and the time at which a channel has
  finished a transmission.

  \<^bold>\<open>Not modelled.\<close> Of IPv4: unicast routing, which in this version chooses the path by a load matrix of
  floating point numbers, with its probe packets, and the hash routing it uses; of the routing table the
  parser of the routing file. Of OSPF: the handler of updates with the installation of LSAs,
  flooding over several interfaces and areas, the renewal of the own LSAs by the states, summary and external routes, the ageing of the database, the set-up of
  virtual links in the middle of the calculation, the rebuilding of the routing table, which some handlers
  call at their end, authentication and the configuration. Other protocols: SCTP, RTP, IPv6 with neighbour discovery, MPLS with LDP and
  RSVP-TE, the Ethernet MAC, wireless link layers, radio and mobility models (floating point and random
  numbers), RED queues, applications, and the code that the message compiler generates. Logging, display and statistics are left out
  everywhere.
\<close>

end
